(* ===== verification/Near_Prelude.thy ===== *)
theory Near_Prelude
  imports Main "HOL-Library.FSet"
begin

text \<open>
  The prelude of the development: what the four NEAR contracts share.

  \<^item> The call context the runtime hands a method (predecessor, signer, deposit, time, the
    answers of the host functions a method asks) is the record \<open>ctx\<close>.
  \<^item> A method either panics, and the runtime rolls the whole call back, or returns: a value of
    \<open>('e, 'a) call\<close>. Guards (\<open>assert!\<close>, \<open>require!\<close>, \<open>expect\<close>) and the arithmetic that the
    release profile checks (\<open>overflow-checks = true\<close>) are continuation-style combinators, and
    the collection \<open>run_simps\<close> turns "the call returned" into "every guard held".
  \<^item> Rust strings are lists of UTF-8 bytes (\<open>string\<close>); lengths are byte lengths.
  \<^item> \<open>LookupMap\<close> is a partial function, \<open>UnorderedSet\<close> a finite set. Totals over a map of
    balances and the per-owner index maintained beside a store come with their own lemmas and
    with the locales \<open>ledger\<close> and \<open>indexed_store\<close>, the interfaces the components interpret.
\<close>

section \<open>Calls, guards and checked arithmetic\<close>

named_theorems run_simps "a call returned, in terms of its guards"
named_theorems refuse_simps "a call panicked, in terms of the guard that failed"
named_theorems eval_simps "unfolding rules that evaluate a call on concrete arguments"

type_synonym account = string
type_synonym data_id = string

record ctx =
  predecessor :: account
  signer :: account
  current_account :: account
  attached_deposit :: nat
  block_timestamp :: nat
  new_data_id :: data_id
  resume_ok :: bool
  storage_grown :: nat

datatype 'e panic =
    Refused 'e
  | ArithmeticOverflow
  | MethodNotPayable
  | MethodIsPrivate

type_synonym ('e, 'a) call = "'e panic + 'a"

definition ensure :: "bool \<Rightarrow> 'e \<Rightarrow> ('e, 'a) call \<Rightarrow> ('e, 'a) call" where
  "ensure c e k = (if c then k else Inl (Refused e))"

definition expect :: "'b option \<Rightarrow> 'e \<Rightarrow> ('b \<Rightarrow> ('e, 'a) call) \<Rightarrow> ('e, 'a) call" where
  "expect x e k = (case x of None \<Rightarrow> Inl (Refused e) | Some v \<Rightarrow> k v)"

definition bind_call :: "('e, 'a) call \<Rightarrow> ('a \<Rightarrow> ('e, 'b) call) \<Rightarrow> ('e, 'b) call" where
  "bind_call m k = (case m of Inl p \<Rightarrow> Inl p | Inr x \<Rightarrow> k x)"

definition fits :: "nat \<Rightarrow> nat \<Rightarrow> (nat \<Rightarrow> ('e, 'a) call) \<Rightarrow> ('e, 'a) call" where
  "fits w n k = (if n < 2 ^ w then k n else Inl ArithmeticOverflow)"

abbreviation add_u128 :: "nat \<Rightarrow> nat \<Rightarrow> (nat \<Rightarrow> ('e, 'a) call) \<Rightarrow> ('e, 'a) call" where
  "add_u128 a b \<equiv> fits 128 (a + b)"

abbreviation mul_u128 :: "nat \<Rightarrow> nat \<Rightarrow> (nat \<Rightarrow> ('e, 'a) call) \<Rightarrow> ('e, 'a) call" where
  "mul_u128 a b \<equiv> fits 128 (a * b)"

abbreviation add_u64 :: "nat \<Rightarrow> nat \<Rightarrow> (nat \<Rightarrow> ('e, 'a) call) \<Rightarrow> ('e, 'a) call" where
  "add_u64 a b \<equiv> fits 64 (a + b)"

abbreviation mul_u64 :: "nat \<Rightarrow> nat \<Rightarrow> (nat \<Rightarrow> ('e, 'a) call) \<Rightarrow> ('e, 'a) call" where
  "mul_u64 a b \<equiv> fits 64 (a * b)"

definition sub_checked :: "nat \<Rightarrow> nat \<Rightarrow> (nat \<Rightarrow> ('e, 'a) call) \<Rightarrow> ('e, 'a) call" where
  "sub_checked a b k = (if b \<le> a then k (a - b) else Inl ArithmeticOverflow)"

text \<open>
  What \<open>near_bindgen\<close> adds to a method: without \<open>#[payable]\<close> a call that mutates the state
  takes no deposit; with \<open>#[private]\<close> only the contract itself may call.
\<close>

definition not_payable :: "ctx \<Rightarrow> ('e, 'a) call \<Rightarrow> ('e, 'a) call" where
  "not_payable cx k = (if attached_deposit cx = 0 then k else Inl MethodNotPayable)"

definition private_call :: "ctx \<Rightarrow> ('e, 'a) call \<Rightarrow> ('e, 'a) call" where
  "private_call cx k = (if predecessor cx = current_account cx then k else Inl MethodIsPrivate)"

lemma ensure_Inr [run_simps]: "ensure c e k = Inr y \<longleftrightarrow> c \<and> k = Inr y"
  by (simp add: ensure_def)

lemma expect_Inr [run_simps]: "expect x e k = Inr y \<longleftrightarrow> (\<exists>v. x = Some v \<and> k v = Inr y)"
  by (auto simp: expect_def split: option.splits)

lemma bind_call_Inr [run_simps]: "bind_call m k = Inr y \<longleftrightarrow> (\<exists>x. m = Inr x \<and> k x = Inr y)"
  by (auto simp: bind_call_def split: sum.splits)

lemma fits_Inr [run_simps]: "fits w n k = Inr y \<longleftrightarrow> n < 2 ^ w \<and> k n = Inr y"
  by (simp add: fits_def)

lemma sub_checked_Inr [run_simps]: "sub_checked a b k = Inr y \<longleftrightarrow> b \<le> a \<and> k (a - b) = Inr y"
  by (simp add: sub_checked_def)

lemma not_payable_Inr [run_simps]:
  "not_payable cx k = Inr y \<longleftrightarrow> attached_deposit cx = 0 \<and> k = Inr y"
  by (simp add: not_payable_def)

lemma private_call_Inr [run_simps]:
  "private_call cx k = Inr y \<longleftrightarrow> predecessor cx = current_account cx \<and> k = Inr y"
  by (simp add: private_call_def)

lemma ensure_Inl [refuse_simps]: "ensure c e k = Inl p \<longleftrightarrow> (if c then k = Inl p else p = Refused e)"
  by (auto simp: ensure_def)

lemma expect_Inl [refuse_simps]:
  "expect x e k = Inl p \<longleftrightarrow> (case x of None \<Rightarrow> p = Refused e | Some v \<Rightarrow> k v = Inl p)"
  by (auto simp: expect_def split: option.splits)

lemma bind_call_Inl [refuse_simps]:
  "bind_call m k = Inl p \<longleftrightarrow> m = Inl p \<or> (\<exists>x. m = Inr x \<and> k x = Inl p)"
  by (auto simp: bind_call_def split: sum.splits)

lemma fits_Inl [refuse_simps]:
  "fits w n k = Inl p \<longleftrightarrow> (if n < 2 ^ w then k n = Inl p else p = ArithmeticOverflow)"
  by (auto simp: fits_def)

lemmas [eval_simps] =
  ensure_def expect_def bind_call_def fits_def sub_checked_def not_payable_def private_call_def

text \<open>The context of a plain call by an account, for evaluating calls on concrete arguments.\<close>

definition call_by :: "account \<Rightarrow> nat \<Rightarrow> ctx" where
  "call_by who deposit =
     \<lparr>predecessor = who, signer = who, current_account = ''outlayer'', attached_deposit = deposit,
      block_timestamp = 1000, new_data_id = ''d'', resume_ok = True, storage_grown = 100\<rparr>"

lemmas [eval_simps] = call_by_def

section \<open>Maps of balances\<close>

text \<open>\<open>map.get(k).unwrap_or(0)\<close>.\<close>

definition get0 :: "('k \<rightharpoonup> nat) \<Rightarrow> 'k \<Rightarrow> nat" where
  "get0 m k = (case m k of None \<Rightarrow> 0 | Some v \<Rightarrow> v)"

definition weight_total :: "('v \<Rightarrow> nat) \<Rightarrow> ('k \<rightharpoonup> 'v) \<Rightarrow> nat" where
  "weight_total w m = (\<Sum>k\<in>dom m. w (the (m k)))"

definition weight_at :: "('v \<Rightarrow> nat) \<Rightarrow> ('k \<rightharpoonup> 'v) \<Rightarrow> 'k \<Rightarrow> nat" where
  "weight_at w m k = (case m k of None \<Rightarrow> 0 | Some v \<Rightarrow> w v)"

abbreviation map_total :: "('k \<rightharpoonup> nat) \<Rightarrow> nat" where
  "map_total \<equiv> weight_total id"

lemma get0_upd [simp]: "get0 (m(k \<mapsto> v)) j = (if j = k then v else get0 m j)"
  by (simp add: get0_def)

lemma get0_del [simp]: "get0 (m(k := None)) j = (if j = k then 0 else get0 m j)"
  by (simp add: get0_def)

lemma get0_empty [simp]: "get0 Map.empty k = 0"
  by (simp add: get0_def)

lemma weight_at_id [simp]: "weight_at id m k = get0 m k"
  by (simp add: weight_at_def get0_def split: option.splits)

lemma weight_total_empty [simp]: "weight_total w Map.empty = 0"
  by (simp add: weight_total_def)

lemma weight_total_split:
  assumes "finite (dom m)"
  shows "weight_total w m = weight_at w m k + (\<Sum>j\<in>dom m - {k}. w (the (m j)))"
proof (cases "m k")
  case None
  then have "dom m - {k} = dom m" by auto
  with None show ?thesis by (simp add: weight_total_def weight_at_def)
next
  case (Some v)
  then have "k \<in> dom m" by auto
  with assms Some show ?thesis
    by (simp add: weight_total_def weight_at_def sum.remove)
qed

lemma weight_total_delete:
  assumes "finite (dom m)"
  shows "weight_total w (m(k := None)) + weight_at w m k = weight_total w m"
proof -
  have "weight_total w (m(k := None)) = (\<Sum>j\<in>dom m - {k}. w (the (m j)))"
    unfolding weight_total_def by (rule sum.cong) auto
  with weight_total_split [OF assms, of w k] show ?thesis by simp
qed

lemma weight_total_update:
  assumes "finite (dom m)"
  shows "weight_total w (m(k \<mapsto> v)) + weight_at w m k = weight_total w m + w v"
proof -
  have "weight_total w (m(k \<mapsto> v)) = w v + (\<Sum>j\<in>dom m - {k}. w (the (m j)))"
  proof -
    have "(\<Sum>j\<in>dom (m(k \<mapsto> v)) - {k}. w (the ((m(k \<mapsto> v)) j)))
        = (\<Sum>j\<in>dom m - {k}. w (the (m j)))"
      by (rule sum.cong) auto
    with assms weight_total_split [of "m(k \<mapsto> v)" w k] show ?thesis
      by (simp add: weight_at_def)
  qed
  with weight_total_split [OF assms, of w k] show ?thesis by simp
qed

lemma weight_at_le_total: "finite (dom m) \<Longrightarrow> weight_at w m k \<le> weight_total w m"
  using weight_total_split [of m w k] by simp

lemma weight_total_update_same:
  assumes "finite (dom m)" "m k = Some v" "w v' = w v"
  shows "weight_total w (m(k \<mapsto> v')) = weight_total w m"
  using weight_total_update [OF assms(1), of w k v'] assms(2,3) by (simp add: weight_at_def)

lemma weight_total_put_fresh:
  assumes "finite (dom m)" "m k = None"
  shows "weight_total w (m(k \<mapsto> v)) = weight_total w m + w v"
  using weight_total_update [OF assms(1), of w k v] assms(2) by (simp add: weight_at_def)

section \<open>Injective maps\<close>

lemma inj_map_upd:
  "inj_on m (dom m) \<Longrightarrow> v \<notin> ran m \<Longrightarrow> inj_on (m(k \<mapsto> v)) (dom (m(k \<mapsto> v)))"
  by (auto simp: inj_on_def ran_def)

lemma inj_map_delete: "inj_on m (dom m) \<Longrightarrow> inj_on (m(k := None)) (dom (m(k := None)))"
  by (auto simp: inj_on_def)

lemma ran_map_delete:
  assumes "inj_on m (dom m)" "m k = Some v"
  shows "ran (m(k := None)) = ran m - {v}"
proof -
  have only: "j = k" if "m j = Some v" for j
    by (rule inj_onD [OF assms(1)]) (use assms(2) that in auto)
  show ?thesis
  proof (rule set_eqI)
    fix w
    have "(\<exists>j. j \<noteq> k \<and> m j = Some w) \<longleftrightarrow> (\<exists>j. m j = Some w) \<and> w \<noteq> v"
      using only assms(2) by (metis option.inject)
    then show "w \<in> ran (m(k := None)) \<longleftrightarrow> w \<in> ran m - {v}"
      by (auto simp: ran_def)
  qed
qed

section \<open>The ledger interface\<close>

text \<open>
  A store of per-account balances as the components that settle money use it: reading,
  crediting (which panics on overflow and otherwise changes one account by the amount), and
  the total it accounts for. The client lemmas below are about sequences of credits.
\<close>

locale ledger =
  fixes sound :: "'s \<Rightarrow> bool"
    and read :: "'s \<Rightarrow> account \<Rightarrow> nat"
    and total :: "'s \<Rightarrow> nat"
    and credit :: "account \<Rightarrow> nat \<Rightarrow> 's \<Rightarrow> ('e, 's) call"
  assumes credit_read:
      "credit a n s = Inr t \<Longrightarrow> read t b = (if b = a then read s b + n else read s b)"
    and credit_total: "sound s \<Longrightarrow> credit a n s = Inr t \<Longrightarrow> total t = total s + n"
    and credit_sound: "sound s \<Longrightarrow> credit a n s = Inr t \<Longrightarrow> sound t"
    and read_le_total: "sound s \<Longrightarrow> read s a \<le> total s"
begin

fun credit_all :: "(account \<times> nat) list \<Rightarrow> 's \<Rightarrow> ('e, 's) call" where
  "credit_all [] s = Inr s"
| "credit_all ((a, n) # xs) s = bind_call (credit a n s) (credit_all xs)"

lemma credit_all_sound: "sound s \<Longrightarrow> credit_all xs s = Inr t \<Longrightarrow> sound t"
  by (induction xs s rule: credit_all.induct) (auto simp: run_simps intro: credit_sound)

lemma credit_all_total:
  "sound s \<Longrightarrow> credit_all xs s = Inr t \<Longrightarrow> total t = total s + sum_list (map snd xs)"
proof (induction xs s rule: credit_all.induct)
  case (1 s)
  then show ?case by simp
next
  case (2 a n xs s)
  from "2.prems"(2) obtain u where u: "credit a n s = Inr u" "credit_all xs u = Inr t"
    by (auto simp: run_simps)
  from "2.IH" [OF credit_sound [OF "2.prems"(1) u(1)] u(2)] credit_total [OF "2.prems"(1) u(1)]
  show ?case by simp
qed

lemma credit_all_read:
  "credit_all xs s = Inr t \<Longrightarrow>
     read t b = read s b + sum_list (map snd (filter (\<lambda>x. fst x = b) xs))"
proof (induction xs s rule: credit_all.induct)
  case (1 s)
  then show ?case by simp
next
  case (2 a n xs s)
  from "2.prems" obtain u where u: "credit a n s = Inr u" "credit_all xs u = Inr t"
    by (auto simp: run_simps)
  from "2.IH" [OF u(2)] credit_read [OF u(1), of b] show ?case by auto
qed

end

section \<open>A store with a per-owner index\<close>

text \<open>
  Three modules keep, beside a store, an index from an owner to the set of keys it owns, and
  drop the owner's set when it becomes empty. The two updates of that index are the same code
  each time.
\<close>

definition index_get :: "('o \<rightharpoonup> 'k fset) \<Rightarrow> 'o \<Rightarrow> 'k fset" where
  "index_get idx ow = (case idx ow of None \<Rightarrow> {||} | Some ks \<Rightarrow> ks)"

definition index_add :: "'o \<Rightarrow> 'k \<Rightarrow> ('o \<rightharpoonup> 'k fset) \<Rightarrow> ('o \<rightharpoonup> 'k fset)" where
  "index_add ow k idx = idx(ow \<mapsto> finsert k (index_get idx ow))"

definition index_remove :: "'o \<Rightarrow> 'k \<Rightarrow> ('o \<rightharpoonup> 'k fset) \<Rightarrow> ('o \<rightharpoonup> 'k fset)" where
  "index_remove ow k idx =
     (case idx ow of
        None \<Rightarrow> idx
      | Some ks \<Rightarrow>
          (if ks |-| {|k|} = {||} then idx(ow := None) else idx(ow \<mapsto> ks |-| {|k|})))"

definition index_ok :: "('k \<Rightarrow> 'v \<Rightarrow> 'o) \<Rightarrow> ('k \<rightharpoonup> 'v) \<Rightarrow> ('o \<rightharpoonup> 'k fset) \<Rightarrow> bool" where
  "index_ok owner_of st idx \<longleftrightarrow>
     (\<forall>ow k. k |\<in>| index_get idx ow \<longleftrightarrow> (\<exists>v. st k = Some v \<and> owner_of k v = ow)) \<and>
     (\<forall>ow. idx ow \<noteq> Some {||})"

lemma index_get_add [simp]:
  "index_get (index_add ow k idx) ow' =
     (if ow' = ow then finsert k (index_get idx ow) else index_get idx ow')"
  by (simp add: index_get_def index_add_def)

lemma index_get_remove [simp]:
  "index_get (index_remove ow k idx) ow' =
     (if ow' = ow then index_get idx ow |-| {|k|} else index_get idx ow')"
  by (auto simp: index_get_def index_remove_def split: option.splits)

lemma index_add_nonempty: "idx ow' \<noteq> Some {||} \<Longrightarrow> index_add ow k idx ow' \<noteq> Some {||}"
  by (simp add: index_add_def)

lemma index_remove_nonempty: "idx ow' \<noteq> Some {||} \<Longrightarrow> index_remove ow k idx ow' \<noteq> Some {||}"
  by (auto simp: index_remove_def split: option.splits)

lemma index_ok_empty [simp]: "index_ok owner_of Map.empty Map.empty"
  by (simp add: index_ok_def index_get_def)

lemma index_ok_member:
  "index_ok owner_of st idx \<Longrightarrow>
     k |\<in>| index_get idx ow \<longleftrightarrow> (\<exists>v. st k = Some v \<and> owner_of k v = ow)"
  by (simp add: index_ok_def)

lemma index_ok_put_fresh:
  assumes "index_ok owner_of st idx" "st k = None"
  shows "index_ok owner_of (st(k \<mapsto> v)) (index_add (owner_of k v) k idx)"
  using assms by (auto simp: index_ok_def index_add_nonempty)

lemma index_ok_put_again:
  assumes "index_ok owner_of st idx" "st k = Some v0" "owner_of k v = owner_of k v0"
  shows "index_ok owner_of (st(k \<mapsto> v)) idx"
  using assms by (auto simp: index_ok_def)

lemma index_ok_delete:
  assumes "index_ok owner_of st idx" "st k = Some v"
  shows "index_ok owner_of (st(k := None)) (index_remove (owner_of k v) k idx)"
  using assms by (auto simp: index_ok_def index_remove_nonempty)

text \<open>
  The interface of such a store: what inserting a row under a fresh key, rewriting a row and
  dropping one do to the store and to the index. Its lemmas say that the index lists exactly the
  keys an owner has rows under, through any of the three.
\<close>

locale indexed_store =
  fixes store :: "'s \<Rightarrow> 'k \<rightharpoonup> 'v"
    and index :: "'s \<Rightarrow> 'o \<rightharpoonup> 'k fset"
    and owner_of :: "'k \<Rightarrow> 'v \<Rightarrow> 'o"
    and insert_row :: "'k \<Rightarrow> 'v \<Rightarrow> 's \<Rightarrow> 's"
    and rewrite_row :: "'k \<Rightarrow> 'v \<Rightarrow> 's \<Rightarrow> 's"
    and drop_row :: "'k \<Rightarrow> 'v \<Rightarrow> 's \<Rightarrow> 's"
  assumes insert_store: "store (insert_row k v s) = (store s)(k \<mapsto> v)"
    and insert_index: "index (insert_row k v s) = index_add (owner_of k v) k (index s)"
    and rewrite_store: "store (rewrite_row k v s) = (store s)(k \<mapsto> v)"
    and rewrite_index: "index (rewrite_row k v s) = index s"
    and drop_store: "store (drop_row k v s) = (store s)(k := None)"
    and drop_index: "index (drop_row k v s) = index_remove (owner_of k v) k (index s)"
begin

definition consistent :: "'s \<Rightarrow> bool" where
  "consistent s \<longleftrightarrow> index_ok owner_of (store s) (index s)"

lemma insert_consistent:
  "consistent s \<Longrightarrow> store s k = None \<Longrightarrow> consistent (insert_row k v s)"
  by (simp add: consistent_def insert_store insert_index index_ok_put_fresh)

lemma rewrite_consistent:
  "consistent s \<Longrightarrow> store s k = Some v0 \<Longrightarrow> owner_of k v = owner_of k v0 \<Longrightarrow>
     consistent (rewrite_row k v s)"
  by (auto simp: consistent_def rewrite_store rewrite_index intro: index_ok_put_again)

lemma drop_consistent:
  "consistent s \<Longrightarrow> store s k = Some v \<Longrightarrow> consistent (drop_row k v s)"
  by (simp add: consistent_def drop_store drop_index index_ok_delete)

lemma listed_iff:
  "consistent s \<Longrightarrow>
     k |\<in>| index_get (index s) ow \<longleftrightarrow> (\<exists>v. store s k = Some v \<and> owner_of k v = ow)"
  by (simp add: consistent_def index_ok_member)

lemma insert_listed:
  "consistent s \<Longrightarrow> store s k = None \<Longrightarrow>
     k |\<in>| index_get (index (insert_row k v s)) (owner_of k v)"
  by (subst listed_iff [OF insert_consistent]) (simp_all add: insert_store)

lemma drop_unlisted:
  "consistent s \<Longrightarrow> store s k = Some v \<Longrightarrow> k |\<notin>| index_get (index (drop_row k v s)) ow"
  by (subst listed_iff [OF drop_consistent]) (simp_all add: drop_store)

end

end
