(* ===== verification/Rust_Text.thy ===== *)
theory Rust_Text
  imports Near_Prelude
begin

text \<open>
  Text as the contracts handle it. A Rust \<open>&str\<close> is its UTF-8 bytes, a list of 8-bit \<open>char\<close>;
  \<open>len\<close> is the number of bytes and \<open>chars\<close> groups each leading byte with its continuation
  bytes. The ASCII classes, \<open>trim\<close>, \<open>contains\<close>, \<open>parse::<u32>\<close>, \<open>to_string\<close> and
  \<open>format!("{:016x}")\<close> are the standard library's. The lemmas are the two that names depend
  on: printing and parsing a number are inverse, and fixed-width hex is injective.
\<close>

section \<open>Bytes and characters\<close>

definition is_ascii_digit :: "char \<Rightarrow> bool" where
  "is_ascii_digit c \<longleftrightarrow> c \<in> set ''0123456789''"

definition is_lower_hex :: "char \<Rightarrow> bool" where
  "is_lower_hex c \<longleftrightarrow> c \<in> set ''0123456789abcdef''"

definition is_ascii_hexdigit :: "char \<Rightarrow> bool" where
  "is_ascii_hexdigit c \<longleftrightarrow> c \<in> set ''0123456789abcdefABCDEF''"

definition is_ascii_alphanumeric :: "char \<Rightarrow> bool" where
  "is_ascii_alphanumeric c \<longleftrightarrow>
     c \<in> set ''0123456789abcdefghijklmnopqrstuvwxyzABCDEFGHIJKLMNOPQRSTUVWXYZ''"

definition is_ascii :: "char \<Rightarrow> bool" where
  "is_ascii c \<longleftrightarrow> (of_char c :: nat) < 128"

definition ascii_lower :: "char \<Rightarrow> char" where
  "ascii_lower c =
     (case map_of (zip ''ABCDEFGHIJKLMNOPQRSTUVWXYZ'' ''abcdefghijklmnopqrstuvwxyz'') c of
        None \<Rightarrow> c | Some d \<Rightarrow> d)"

definition eq_ignore_ascii_case :: "string \<Rightarrow> string \<Rightarrow> bool" where
  "eq_ignore_ascii_case s t \<longleftrightarrow> map ascii_lower s = map ascii_lower t"

definition is_continuation :: "char \<Rightarrow> bool" where
  "is_continuation c \<longleftrightarrow> 128 \<le> (of_char c :: nat) \<and> (of_char c :: nat) < 192"

function utf8_chars :: "string \<Rightarrow> string list" where
  "utf8_chars [] = []"
| "utf8_chars (c # s) =
     (c # takeWhile is_continuation s) # utf8_chars (dropWhile is_continuation s)"
  by pat_completeness auto
termination
  by (relation "measure length") (auto simp: less_Suc_eq_le length_dropWhile_le)

lemma concat_utf8_chars [simp]: "concat (utf8_chars s) = s"
  by (induction s rule: utf8_chars.induct) simp_all

text \<open>\<open>char::is_whitespace\<close> is Unicode's \<open>White_Space\<close>, \<open>char::is_control\<close> its category Cc.\<close>

definition white_space_codes :: "nat list list" where
  "white_space_codes =
     [[9], [10], [11], [12], [13], [32], [194, 133], [194, 160], [225, 154, 128],
      [226, 128, 128], [226, 128, 129], [226, 128, 130], [226, 128, 131], [226, 128, 132],
      [226, 128, 133], [226, 128, 134], [226, 128, 135], [226, 128, 136], [226, 128, 137],
      [226, 128, 138], [226, 128, 168], [226, 128, 169], [226, 128, 175], [226, 129, 159],
      [227, 128, 128]]"

definition is_whitespace :: "string \<Rightarrow> bool" where
  "is_whitespace ch \<longleftrightarrow> map of_char ch \<in> set white_space_codes"

definition is_control :: "string \<Rightarrow> bool" where
  "is_control ch =
     (case map of_char ch of
        [b] \<Rightarrow> b < (32 :: nat) \<or> b = 127
      | [b0, b1] \<Rightarrow> b0 = 194 \<and> 128 \<le> b1 \<and> b1 < 160
      | _ \<Rightarrow> False)"

section \<open>Operations on strings\<close>

definition starts_with :: "string \<Rightarrow> string \<Rightarrow> bool" where
  "starts_with p s \<longleftrightarrow> take (length p) s = p"

fun contains_str :: "string \<Rightarrow> string \<Rightarrow> bool" where
  "contains_str p [] \<longleftrightarrow> p = []"
| "contains_str p (c # s) \<longleftrightarrow> starts_with p (c # s) \<or> contains_str p s"

text \<open>A JSON value as \<open>serde_json::Value\<close> has it; numbers and booleans by their text.\<close>

datatype node_value = JNull | JScalar string | JStr string | JArr "node_value list" | JObj "(string \<times> node_value) list"

fun member_of :: "string \<Rightarrow> node_value \<Rightarrow> node_value option" where
  "member_of k (JObj ms) = map_of ms k"
| "member_of k _ = None"

fun as_str :: "node_value \<Rightarrow> string option" where
  "as_str (JStr s) = Some s"
| "as_str _ = None"

text \<open>\<open>str::strip_prefix\<close>, \<open>str::strip_suffix\<close>, \<open>str::split_once\<close> at a character, and \<open>join(":")\<close>.\<close>

definition strip_prefix :: "string \<Rightarrow> string \<Rightarrow> string option" where
  "strip_prefix p s = (if take (length p) s = p then Some (drop (length p) s) else None)"

definition strip_suffix :: "string \<Rightarrow> string \<Rightarrow> string option" where
  "strip_suffix p s =
     (if length p \<le> length s \<and> drop (length s - length p) s = p then Some (take (length s - length p) s) else None)"

definition split_once :: "'a \<Rightarrow> 'a list \<Rightarrow> ('a list \<times> 'a list) option" where
  "split_once c t =
     (if c \<in> set t then Some (takeWhile (\<lambda>x. x \<noteq> c) t, tl (dropWhile (\<lambda>x. x \<noteq> c) t)) else None)"

fun join_colon :: "string list \<Rightarrow> string" where
  "join_colon [] = []"
| "join_colon [p] = p"
| "join_colon (p # ps) = p @ CHR '':'' # join_colon ps"

definition trim_str :: "string \<Rightarrow> string" where
  "trim_str s =
     concat (rev (dropWhile is_whitespace (rev (dropWhile is_whitespace (utf8_chars s)))))"

definition digit_val :: "char \<Rightarrow> nat option" where
  "digit_val c = map_of (zip ''0123456789'' [0..<10]) c"

fun parse_digits :: "nat \<Rightarrow> string \<Rightarrow> nat option" where
  "parse_digits acc [] = Some acc"
| "parse_digits acc (c # s) =
     (case digit_val c of None \<Rightarrow> None | Some d \<Rightarrow> parse_digits (acc * 10 + d) s)"

text \<open>
  \<open>str::parse\<close> at an unsigned type of \<open>w\<close> bits: an optional \<open>+\<close>, at least one digit, nothing else, no
  overflow.
\<close>

definition parse_uint :: "nat \<Rightarrow> string \<Rightarrow> nat option" where
  "parse_uint w s =
     (let t = (case s of [] \<Rightarrow> [] | c # r \<Rightarrow> (if c = CHR ''+'' then r else s)) in
      if t = [] then None
      else case parse_digits 0 t of
             None \<Rightarrow> None
           | Some n \<Rightarrow> (if n < 2 ^ w then Some n else None))"

abbreviation parse_u32 :: "string \<Rightarrow> nat option" where "parse_u32 \<equiv> parse_uint 32"
abbreviation parse_u64 :: "string \<Rightarrow> nat option" where "parse_u64 \<equiv> parse_uint 64"
abbreviation parse_u128 :: "string \<Rightarrow> nat option" where "parse_u128 \<equiv> parse_uint 128"

fun show_nat :: "nat \<Rightarrow> string" where
  "show_nat n =
     (if n < 10 then [''0123456789'' ! n]
      else show_nat (n div 10) @ [''0123456789'' ! (n mod 10)])"

declare show_nat.simps [simp del]

fun hex_fixed :: "nat \<Rightarrow> nat \<Rightarrow> string" where
  "hex_fixed 0 n = []"
| "hex_fixed (Suc w) n = hex_fixed w (n div 16) @ [''0123456789abcdef'' ! (n mod 16)]"

section \<open>Trimming\<close>

text \<open>
  A list of characters is \<open>utf8_grouped\<close> when each is a byte with its continuation bytes and only
  the first may itself start with a continuation byte; \<open>utf8_chars\<close> recovers such a list from
  its concatenation, which makes \<open>trim\<close> idempotent.
\<close>

definition char_group :: "string \<Rightarrow> bool" where
  "char_group ch \<longleftrightarrow> ch \<noteq> [] \<and> list_all is_continuation (tl ch)"

fun utf8_grouped :: "string list \<Rightarrow> bool" where
  "utf8_grouped [] \<longleftrightarrow> True"
| "utf8_grouped (ch # cs) \<longleftrightarrow>
     char_group ch \<and> list_all (\<lambda>d. char_group d \<and> \<not> is_continuation (hd d)) cs"

lemma utf8_grouped_tl: "utf8_grouped (ch # cs) \<Longrightarrow> utf8_grouped cs"
  by (cases cs) (auto simp: list_all_iff)

lemma grouped_append_left: "utf8_grouped (xs @ ys) \<Longrightarrow> utf8_grouped xs"
  by (cases xs) auto

lemma grouped_append_right: "utf8_grouped (xs @ ys) \<Longrightarrow> utf8_grouped ys"
  by (induction xs) (auto dest: utf8_grouped_tl simp: utf8_grouped_tl)

lemma grouped_hd_concat:
  "utf8_grouped (ch # cs) \<Longrightarrow> cs \<noteq> [] \<Longrightarrow> concat cs \<noteq> [] \<and> \<not> is_continuation (hd (concat cs))"
  by (cases cs) (auto simp: char_group_def)

lemma takeWhile_group:
  assumes "list_all P r" "s = [] \<or> \<not> P (hd s)"
  shows "takeWhile P (r @ s) = r" "dropWhile P (r @ s) = s"
  using assms by (cases s; auto simp: list_all_iff)+

lemma utf8_chars_concat: "utf8_grouped cs \<Longrightarrow> utf8_chars (concat cs) = cs"
proof (induction cs)
  case Nil
  then show ?case by simp
next
  case (Cons ch cs)
  from Cons.prems obtain c r where ch: "ch = c # r" "list_all is_continuation r"
    by (cases ch) (auto simp: char_group_def)
  have "concat cs = [] \<or> \<not> is_continuation (hd (concat cs))"
    using grouped_hd_concat [OF Cons.prems] by (cases cs) auto
  note split = takeWhile_group [OF ch(2) this]
  from Cons.IH [OF utf8_grouped_tl [OF Cons.prems]] ch(1) split show ?case by simp
qed

lemma dropWhile_head: "dropWhile P s = [] \<or> \<not> P (hd (dropWhile P s))"
  by (induction s) auto

lemma utf8_chars_grouped: "utf8_grouped (utf8_chars s)"
proof (induction s rule: utf8_chars.induct)
  case 1
  then show ?case by simp
next
  case (2 c s)
  define rest where "rest = dropWhile is_continuation s"
  have "list_all is_continuation (takeWhile is_continuation s)"
    by (auto simp: list_all_iff dest: set_takeWhileD)
  moreover have "rest = [] \<or> \<not> is_continuation (hd rest)"
    unfolding rest_def by (rule dropWhile_head)
  moreover have "utf8_grouped (utf8_chars rest)" unfolding rest_def by (rule 2)
  moreover have "utf8_chars (c # s) = (c # takeWhile is_continuation s) # utf8_chars rest"
    by (simp add: rest_def)
  ultimately show ?case by (cases rest) (simp_all add: char_group_def)
qed

lemma dropWhile_idem: "dropWhile P (dropWhile P xs) = dropWhile P xs"
  by (induction xs) auto

definition trim_chars :: "string list \<Rightarrow> string list" where
  "trim_chars cs = rev (dropWhile is_whitespace (rev (dropWhile is_whitespace cs)))"

lemma trim_chars_grouped: "utf8_grouped cs \<Longrightarrow> utf8_grouped (trim_chars cs)"
proof -
  assume "utf8_grouped cs"
  then have "utf8_grouped (dropWhile is_whitespace cs)"
    by (metis takeWhile_dropWhile_id grouped_append_right)
  moreover have "dropWhile is_whitespace cs = trim_chars cs
      @ rev (takeWhile is_whitespace (rev (dropWhile is_whitespace cs)))"
    unfolding trim_chars_def by (metis rev_append rev_rev_ident takeWhile_dropWhile_id)
  ultimately show ?thesis by (metis grouped_append_left)
qed

lemma dropWhile_rev_prefix:
  assumes "dropWhile P xs = xs"
  shows "dropWhile P (rev (dropWhile P (rev xs))) = rev (dropWhile P (rev xs))"
proof (cases xs)
  case Nil
  then show ?thesis by simp
next
  case (Cons x ys)
  with assms have "\<not> P x" by (metis dropWhile_eq_self_iff list.sel(1) list.discI)
  with Cons have "dropWhile P (rev xs) = dropWhile P (rev ys) @ [x]"
    by (simp add: dropWhile_append3 dropWhile_append)
  with \<open>\<not> P x\<close> show ?thesis by simp
qed

lemma trim_chars_idem: "trim_chars (trim_chars cs) = trim_chars cs"
proof -
  have "dropWhile is_whitespace (trim_chars cs) = trim_chars cs"
    unfolding trim_chars_def by (rule dropWhile_rev_prefix) (rule dropWhile_idem)
  then show ?thesis by (simp add: trim_chars_def dropWhile_idem)
qed

lemma trim_str_idem [simp]: "trim_str (trim_str s) = trim_str s"
proof -
  have t: "trim_str u = concat (trim_chars (utf8_chars u))" for u
    by (simp add: trim_str_def trim_chars_def)
  have "utf8_chars (trim_str s) = trim_chars (utf8_chars s)"
    unfolding t by (intro utf8_chars_concat trim_chars_grouped utf8_chars_grouped)
  then show ?thesis by (simp add: t trim_chars_idem)
qed

section \<open>Printing and parsing numbers\<close>

lemma digit_cases:
  fixes n :: nat
  assumes "n < 10" and "P 0" "P 1" "P 2" "P 3" "P 4" "P 5" "P 6" "P 7" "P 8" "P 9"
  shows "P n"
proof -
  from assms(1) have "n \<in> {0, 1, 2, 3, 4, 5, 6, 7, 8, 9}" by auto
  with assms(2-) show ?thesis by auto
qed

lemma digit_val_print: "d < 10 \<Longrightarrow> digit_val (''0123456789'' ! d) = Some d"
  by (rule digit_cases [of d]) (simp_all add: digit_val_def upt_rec numeral_nat)

lemma digit_val_not_plus: "d < 10 \<Longrightarrow> ''0123456789'' ! d \<noteq> CHR ''+''"
  by (rule digit_cases [of d]) (simp_all add: numeral_nat)

lemma parse_digits_append:
  "parse_digits acc (s @ t) =
     (case parse_digits acc s of None \<Rightarrow> None | Some n \<Rightarrow> parse_digits n t)"
  by (induction s arbitrary: acc) (auto split: option.splits)

lemma parse_digits_show: "parse_digits 0 (show_nat n) = Some n"
proof (induction n rule: show_nat.induct)
  case (1 n)
  show ?case
  proof (cases "n < 10")
    case True
    then show ?thesis by (subst show_nat.simps) (simp add: digit_val_print)
  next
    case False
    with 1 show ?thesis
      by (subst show_nat.simps) (simp add: parse_digits_append digit_val_print)
  qed
qed

lemma show_nat_not_empty [simp]: "show_nat n \<noteq> []"
  by (subst show_nat.simps) simp

lemma show_nat_hd: "hd (show_nat n) \<noteq> CHR ''+''"
proof (induction n rule: show_nat.induct)
  case (1 n)
  show ?case
  proof (cases "n < 10")
    case True
    then show ?thesis by (subst show_nat.simps) (simp add: digit_val_not_plus)
  next
    case False
    with 1 show ?thesis by (subst show_nat.simps) simp
  qed
qed

lemma parse_show_uint: "n < 2 ^ w \<Longrightarrow> parse_uint w (show_nat n) = Some n"
proof -
  assume n: "n < 2 ^ w"
  obtain c r where cr: "show_nat n = c # r" by (cases "show_nat n") auto
  with show_nat_hd [of n] have "c \<noteq> CHR ''+''" by simp
  with cr n parse_digits_show [of n] show ?thesis by (simp add: parse_uint_def)
qed

lemma parse_uint_bound: "parse_uint w s = Some n \<Longrightarrow> n < 2 ^ w"
  unfolding parse_uint_def Let_def by (simp split: if_split_asm option.split_asm)

lemma show_nat_inject: "show_nat m = show_nat n \<Longrightarrow> m = n"
  by (metis parse_digits_show option.inject)

text \<open>\<open>to_string\<close> writes digits only, so no separator can hide in a printed number.\<close>

lemma nth_digit_in: "d < 10 \<Longrightarrow> ''0123456789'' ! d \<in> set ''0123456789''"
  by (rule nth_mem) simp

lemma show_nat_digits: "set (show_nat n) \<subseteq> set ''0123456789''"
proof (induction n rule: show_nat.induct)
  case (1 n)
  show ?case
  proof (cases "n < 10")
    case True
    then have "set (show_nat n) = {''0123456789'' ! n}"
      by (subst show_nat.simps) simp
    with nth_digit_in [OF True] show ?thesis by simp
  next
    case False
    then have "set (show_nat n) = insert (''0123456789'' ! (n mod 10)) (set (show_nat (n div 10)))"
      by (subst show_nat.simps) simp
    moreover have "''0123456789'' ! (n mod 10) \<in> set ''0123456789''"
      by (rule nth_digit_in) simp
    ultimately show ?thesis using 1 [OF False] by (simp only: insert_subset)
  qed
qed

lemma show_nat_colon_free: "CHR '':'' \<notin> set (show_nat n)"
  using show_nat_digits [of n] by auto

section \<open>Fixed-width hex\<close>

lemma length_hex_fixed [simp]: "length (hex_fixed w n) = w"
  by (induction w arbitrary: n) simp_all

lemma nth_hex_inject: "a < 16 \<Longrightarrow> b < 16 \<Longrightarrow>
    ''0123456789abcdef'' ! a = ''0123456789abcdef'' ! b \<Longrightarrow> a = b"
  using nth_eq_iff_index_eq [of "''0123456789abcdef''" a b] by simp

lemma hex_fixed_inject:
  "m < 16 ^ w \<Longrightarrow> n < 16 ^ w \<Longrightarrow> hex_fixed w m = hex_fixed w n \<Longrightarrow> m = n"
proof (induction w arbitrary: m n)
  case 0
  then show ?case by simp
next
  case (Suc w)
  from Suc.prems(3) have hi: "hex_fixed w (m div 16) = hex_fixed w (n div 16)"
    and lo: "''0123456789abcdef'' ! (m mod 16) = ''0123456789abcdef'' ! (n mod 16)"
    by simp_all
  from Suc.prems(1,2) have "m div 16 < 16 ^ w" "n div 16 < 16 ^ w"
    by (simp_all add: less_mult_imp_div_less mult.commute)
  with Suc.IH hi have "m div 16 = n div 16" by blast
  moreover have "m mod 16 = n mod 16" by (rule nth_hex_inject [OF _ _ lo]) simp_all
  ultimately show ?case by (metis div_mult_mod_eq)
qed

section \<open>Lower case and splitting at a separator\<close>

lemma ascii_lower_idem [simp]: "ascii_lower (ascii_lower c) = ascii_lower c"
  by (auto simp: ascii_lower_def split: option.splits dest!: map_of_SomeD)

lemma map_ascii_lower_idem [simp]: "map ascii_lower (map ascii_lower s) = map ascii_lower s"
  by simp

lemma eq_ignore_ascii_case_refl [simp]: "eq_ignore_ascii_case s s"
  by (simp add: eq_ignore_ascii_case_def)

text \<open>A field without the separator ends where the separator first stands.\<close>

lemma split_at_separator:
  assumes "c \<notin> set a" "c \<notin> set b" "a @ c # x = b @ c # y"
  shows "a = b \<and> x = y"
proof -
  from assms(1) have "takeWhile (\<lambda>d. d \<noteq> c) (a @ c # x) = a"
    by (subst takeWhile_append2) auto
  moreover from assms(2) have "takeWhile (\<lambda>d. d \<noteq> c) (b @ c # y) = b"
    by (subst takeWhile_append2) auto
  ultimately have "a = b" using assms(3) by metis
  with assms(3) show ?thesis by simp
qed

lemma split_once_Some: "split_once c t = Some (a, b) \<longleftrightarrow> t = a @ c # b \<and> c \<notin> set a"
proof
  assume "split_once c t = Some (a, b)"
  then have c: "c \<in> set t" and a: "a = takeWhile (\<lambda>x. x \<noteq> c) t" and b: "b = tl (dropWhile (\<lambda>x. x \<noteq> c) t)"
    by (auto simp: split_once_def split: if_splits)
  from c have "dropWhile (\<lambda>x. x \<noteq> c) t \<noteq> []" by (auto simp: dropWhile_eq_Nil_conv)
  then have "dropWhile (\<lambda>x. x \<noteq> c) t = c # b" using b hd_dropWhile [of "\<lambda>x. x \<noteq> c" t]
    by (cases "dropWhile (\<lambda>x. x \<noteq> c) t") auto
  then show "t = a @ c # b \<and> c \<notin> set a"
    using a takeWhile_dropWhile_id [of "\<lambda>x. x \<noteq> c" t] by (auto dest: set_takeWhileD)
next
  assume t: "t = a @ c # b \<and> c \<notin> set a"
  then have "\<forall>x \<in> set a. x \<noteq> c" by auto
  then have "takeWhile (\<lambda>x. x \<noteq> c) t = a" "dropWhile (\<lambda>x. x \<noteq> c) t = c # b"
    using t by (auto simp: takeWhile_append dropWhile_append)
  with t show "split_once c t = Some (a, b)" by (simp add: split_once_def)
qed

lemma strip_prefix_Some: "strip_prefix p s = Some r \<longleftrightarrow> s = p @ r"
  by (auto simp: strip_prefix_def) (metis append_take_drop_id)

lemma strip_suffix_Some: "strip_suffix p s = Some r \<longleftrightarrow> s = r @ p"
  by (auto simp: strip_suffix_def) (metis append_take_drop_id)

text \<open>Segments without a colon are read back from their joined form.\<close>

lemma join_colon_Cons: "ps \<noteq> [] \<Longrightarrow> join_colon (p # ps) = p @ CHR '':'' # join_colon ps"
  by (cases ps) auto

lemma join_colon_inject:
  assumes "\<forall>p \<in> set ps. CHR '':'' \<notin> set p" "\<forall>q \<in> set qs. CHR '':'' \<notin> set q"
    and "ps \<noteq> []" "qs \<noteq> []" "join_colon ps = join_colon qs"
  shows "ps = qs"
  using assms
proof (induction ps arbitrary: qs)
  case Nil
  then show ?case by simp
next
  case (Cons p ps)
  obtain q qs' where qs: "qs = q # qs'" using Cons.prems(4) by (cases qs) auto
  have colon: "CHR '':'' \<in> set (join_colon (r # rs)) \<longleftrightarrow> rs \<noteq> []" if "CHR '':'' \<notin> set r" for r rs
    using that by (cases rs) auto
  have empty: "ps = [] \<longleftrightarrow> qs' = []"
    using colon [of p ps] colon [of q qs'] Cons.prems qs by auto
  show ?case
  proof (cases "ps = []")
    case True
    with empty Cons.prems(5) qs show ?thesis by simp
  next
    case False
    with empty Cons.prems(5) qs have "p @ CHR '':'' # join_colon ps = q @ CHR '':'' # join_colon qs'"
      by (simp add: join_colon_Cons)
    then have "p = q \<and> join_colon ps = join_colon qs'"
      using Cons.prems(1,2) qs by (intro split_at_separator) auto
    with Cons.IH [of qs'] Cons.prems(1,2) False empty qs show ?thesis by auto
  qed
qed

end
