(* ===== verification/Contract_Types.thy ===== *)
theory Contract_Types
  imports Rust_Text
begin

text \<open>
  The data of the OutLayer contract (\<open>contract/src/lib.rs\<close>, with the types of \<open>payment.rs\<close>,
  \<open>wallet.rs\<close>, \<open>types.rs\<close> and \<open>events.rs\<close>): every stored struct as a record with the fields in
  the order of the source, every enum as a datatype, and the contract's state as one record.
  Field names carry a prefix where two structs share a name. \<open>u8\<close> to \<open>u128\<close> are naturals; every
  arithmetic operation on them in the model is one of the checked or saturating operations the
  source uses. A \<open>CryptoHash\<close> and a \<open>Vec<u8>\<close> are byte lists.

  \<open>externals\<close> collects what the contract calls and this repository does not contain:
  \<open>serde_json\<close>, \<open>hex\<close>, \<open>sha2\<close>, \<open>base64\<close>, the host's signature checks, the account-id parser,
  and the parts of Unicode outside ASCII. Each field is a parameter of the definitions that use it.
\<close>

section \<open>Access conditions\<close>

datatype logic_operator = And | Or

datatype comparison_operator = Gte | Lte | Gt | Lt | Eq | Ne

datatype access_condition =
    Logic logic_operator "access_condition list"
  | NotCond access_condition
  | AllowAll
  | Whitelist "account list"
  | AccountPattern string
  | NearBalance comparison_operator nat
  | FtBalance account comparison_operator nat
  | NftOwned account "string option"
  | DaoMember account string
  | ValidUntil nat
  | WasmHash string
  | Predecessor access_condition

section \<open>Execution requests\<close>

datatype execution_source =
    GitHubSrc string string "string option"
  | WasmUrlSrc string string "string option"
  | ProjectSrc string "string option"

datatype code_source =
    GitHubCode string string "string option"
  | WasmUrlCode string string "string option"

record request_params =
  force_rebuild :: bool
  store_on_fastfs :: bool
  compile_only :: bool
  project_uuid :: "string option"
  attached_usd :: "nat option"
  use_bound_identity :: bool

definition default_request_params :: request_params where
  "default_request_params =
     \<lparr>force_rebuild = False, store_on_fastfs = False, compile_only = False,
      project_uuid = None, attached_usd = None, use_bound_identity = False\<rparr>"

datatype response_format = BytesFormat | TextFormat | JsonFormat

record resource_limits =
  max_instructions :: "nat option"
  max_memory_mb :: "nat option"
  max_execution_seconds :: "nat option"

definition default_resource_limits :: resource_limits where
  "default_resource_limits =
     \<lparr>max_instructions = Some 1000000000, max_memory_mb = Some 128,
      max_execution_seconds = Some 60\<rparr>"

record secrets_reference =
  sr_profile :: string
  sr_account_id :: account

text \<open>A \<open>serde_json::Value\<close> is opaque; \<open>externals\<close> says how it is printed and read.\<close>

type_synonym json_value = string

datatype execution_output = BytesOut string | TextOut string | JsonOut json_value

datatype stored_output = StoredBytes string | StoredText string | StoredJson string

record execution_request =
  rq_request_id :: nat
  rq_data_id :: data_id
  rq_sender_id :: account
  rq_execution_source :: execution_source
  rq_resolved_source :: code_source
  rq_resource_limits :: resource_limits
  rq_payment :: nat
  rq_timestamp :: nat
  rq_secrets_ref :: "secrets_reference option"
  rq_response_format :: response_format
  rq_input_data :: "string option"
  rq_payer_account_id :: account
  rq_attached_usd :: nat
  rq_pending_output :: "stored_output option"
  rq_output_submitted :: bool

record resource_metrics =
  rm_instructions :: nat
  rm_time_ms :: nat
  rm_compile_time_ms :: "nat option"

record execution_response =
  er_success :: bool
  er_output :: "execution_output option"
  er_error :: "string option"
  er_resources_used :: resource_metrics
  er_compilation_note :: "string option"
  er_refund_usd :: "nat option"

section \<open>Secrets and projects\<close>

datatype system_secret_type = PaymentKey

datatype secret_accessor =
    RepoAcc string "string option"
  | WasmHashAcc string
  | ProjectAcc string
  | SystemAcc system_secret_type

record secret_key =
  sk_accessor :: secret_accessor
  sk_profile :: string
  sk_owner :: account

record secret_profile =
  sp_encrypted_secrets :: string
  sp_access :: access_condition
  sp_created_at :: nat
  sp_updated_at :: nat
  sp_storage_deposit :: nat

record project =
  pj_uuid :: string
  pj_owner :: account
  pj_name :: string
  pj_active_version :: string
  pj_created_at :: nat
  pj_storage_deposit :: nat

record version_info =
  vi_source :: code_source
  vi_added_at :: nat
  vi_storage_deposit :: nat

record transfer_acceptance =
  ta_new_owner :: account
  ta_from :: account
  ta_name :: string

section \<open>Prices, plans and wallet policies\<close>

record operation_price =
  op_operation :: string
  op_price_usd :: nat
  op_developer_share_bp :: nat

record project_prices =
  pp_author_account_id :: account
  pp_operations :: "operation_price list"

record subscription_plan =
  pl_index :: nat
  pl_name :: string
  pl_price_usd :: nat
  pl_active :: bool

record wallet_policy_entry =
  wp_owner :: account
  wp_encrypted_data :: string
  wp_frozen :: bool
  wp_updated_at :: nat
  wp_storage_deposit :: nat

record policy_meta_row =
  pm_version :: nat
  pm_locked :: bool

definition default_policy_meta :: policy_meta_row where
  "default_policy_meta = \<lparr>pm_version = 0, pm_locked = False\<rparr>"

datatype storage_item = WalletPolicyItem string

section \<open>The contract's state\<close>

record contract =
  owner_id :: account
  operator_id :: account
  paused :: bool
  event_standard :: string
  event_version :: string
  base_fee :: nat
  per_million_instructions_fee :: nat
  per_ms_fee :: nat
  per_compile_ms_fee :: nat
  base_fee_usd :: nat
  per_million_instructions_fee_usd :: nat
  per_sec_fee_usd :: nat
  per_compile_ms_fee_usd :: nat
  payment_token_contract :: "account option"
  next_request_id :: nat
  pending_requests :: "nat \<rightharpoonup> execution_request"
  total_executions :: nat
  total_fees_collected :: nat
  secrets_storage :: "secret_key \<rightharpoonup> secret_profile"
  user_secrets_index :: "account \<rightharpoonup> secret_key fset"
  projects :: "string \<rightharpoonup> project"
  project_versions :: "string \<rightharpoonup> (string \<rightharpoonup> version_info)"
  user_projects_index :: "account \<rightharpoonup> string fset"
  next_project_id :: nat
  developer_earnings :: "account \<rightharpoonup> nat"
  user_stablecoin_balances :: "account \<rightharpoonup> nat"
  wallet_policies :: "string \<rightharpoonup> wallet_policy_entry"
  wallet_owner_index :: "account \<rightharpoonup> string fset"
  secret_vault_bindings :: "secret_key \<rightharpoonup> account"
  subscription_plans :: "subscription_plan list"
  project_pricing :: "string \<rightharpoonup> project_prices"
  payment_key_nonce_floors :: "account \<rightharpoonup> nat"
  storage_refund_to :: "storage_item \<rightharpoonup> account"
  project_transfer_acceptances :: "transfer_acceptance \<rightharpoonup> nat"
  policy_meta :: "string \<rightharpoonup> policy_meta_row"

definition new_contract ::
  "account \<Rightarrow> account option \<Rightarrow> string option \<Rightarrow> string option \<Rightarrow> contract" where
  "new_contract owner operator standard version =
     \<lparr>owner_id = owner,
      operator_id = (case operator of None \<Rightarrow> owner | Some a \<Rightarrow> a),
      paused = False,
      event_standard = (case standard of None \<Rightarrow> ''near-outlayer'' | Some x \<Rightarrow> x),
      event_version = (case version of None \<Rightarrow> ''1.0.0'' | Some x \<Rightarrow> x),
      base_fee = 1000000000000000000000,
      per_million_instructions_fee = 100000000000000,
      per_ms_fee = 100000000000000000,
      per_compile_ms_fee = 100000000000000000,
      base_fee_usd = 1000,
      per_million_instructions_fee_usd = 1,
      per_sec_fee_usd = 1,
      per_compile_ms_fee_usd = 10,
      payment_token_contract = None,
      next_request_id = 0,
      pending_requests = Map.empty,
      total_executions = 0,
      total_fees_collected = 0,
      secrets_storage = Map.empty,
      user_secrets_index = Map.empty,
      projects = Map.empty,
      project_versions = Map.empty,
      user_projects_index = Map.empty,
      next_project_id = 0,
      developer_earnings = Map.empty,
      user_stablecoin_balances = Map.empty,
      wallet_policies = Map.empty,
      wallet_owner_index = Map.empty,
      secret_vault_bindings = Map.empty,
      subscription_plans = [],
      project_pricing = Map.empty,
      payment_key_nonce_floors = Map.empty,
      storage_refund_to = Map.empty,
      project_transfer_acceptances = Map.empty,
      policy_meta = Map.empty\<rparr>"

section \<open>What a call sends out\<close>

record request_data =
  rd_request_id :: nat
  rd_sender_id :: account
  rd_predecessor_id :: account
  rd_code_source :: code_source
  rd_resource_limits :: resource_limits
  rd_input_data :: string
  rd_input_data_in_state :: bool
  rd_secrets_ref :: "secrets_reference option"
  rd_response_format :: response_format
  rd_payment :: nat
  rd_attached_usd :: nat
  rd_timestamp :: nat
  rd_compile_only :: bool
  rd_force_rebuild :: bool
  rd_store_on_fastfs :: bool
  rd_use_bound_identity :: bool
  rd_project_uuid :: "string option"
  rd_project_id :: "string option"

record completed_event =
  ce_sender_id :: account
  ce_code_source :: code_source
  ce_resources_used :: resource_metrics
  ce_success :: bool
  ce_error_message :: "string option"
  ce_payment_charged :: nat
  ce_payment_refunded :: nat
  ce_compilation_note :: "string option"

datatype top_up_result = TopUpSuccess string | TopUpError string

datatype delete_payment_key_result = DeleteSuccess | DeleteError string

datatype ft_transfer_action =
    TopUpPaymentKey nat "account option"
  | DepositBalance
  | BuySubscription nat "account option" nat

datatype system_event =
    TopUpPaymentKeyEvent data_id account nat nat string
  | DeletePaymentKeyEvent data_id account nat
  | SubscriptionPurchased account nat nat nat account
  | WalletPolicyUpdated string account string bool nat bool
  | WalletPolicyDeleted string account account
  | StorageRefundToChanged storage_item account
  | WalletFrozenChanged string account bool
  | ProjectTransferred string string string account account
  | ProjectTransferAccepted account account string
  | ProjectTransferRevoked account account string

text \<open>
  The promises a call creates, the value it returns by hand and the events it emits, in the
  order the code makes them. Plain log lines are left out.
\<close>

datatype call_args =
    NoArgs
  | FtTransferArgs account nat
  | TokenSwapArgs account nat string nat account

datatype effect =
    Transfer account nat
  | FtTransferThenSettle account account nat
  | YieldExecution nat data_id request_data
  | ResumeExecution data_id execution_response
  | YieldTopUp data_id account nat nat
  | ResumeTopUp data_id top_up_result
  | YieldDeleteKey data_id account nat
  | ResumeDeleteKey data_id delete_payment_key_result
  | FunctionCall account string call_args nat
  | ReturnBytes string
  | ReturnU128 nat
  | ReturnU64 nat
  | EmitExecutionRequested data_id request_data
  | EmitExecutionCompleted completed_event
  | EmitSystem system_event
  | EmitStorageCleanup string string

text \<open>Why a call was refused, by the module that refuses.\<close>

datatype guard_refusal =
    ContractPaused | OnlyOwner | OnlyOperator | OnlyProjectOwner | OnlySender
  | OnlyController | OnlyBeneficiary | NeedsOneYocto | InsufficientDeposit | MethodDisabled | StateUnreadable

datatype shape_refusal =
    ProfileShape | CodeSourceShape | EmptyProjectName | ProjectNameTooLong | ProjectNameChars
  | TooManyPatterns | PatternsTooLong | TooManyChainReads | WasmHashLeafShape | EmptyLogic

datatype execution_refusal =
    ForceRebuildOnWasmUrl | FastfsNeedsRebuild | InputForCompileOnly
  | InstructionsOverCap | SecondsOverCap | MemoryOverCap
  | NotPriceable | OperationNotSold | BelowPrice | UsdNeedsProject | InsufficientUsd
  | InsufficientPayment | RequestNotFound | OutputAlreadySubmitted | ResumeFailed | NotStale

datatype project_refusal =
    ProjectNotFound | ProjectExists | NoActiveVersion | VersionsNotFound | VersionNotFound
  | VersionExists | ActiveVersion | ProjectPriced | NotAccepted | AlreadyAccepted

datatype price_refusal =
    TooManyPlans | DuplicatePlan | PlanNeedsName | PlanNeedsPrice | PlanRepointed
  | UnregisteredProject | NoOperations | TooManyOperations | OperationNeedsName
  | ShareOverFull | DuplicateOperation

datatype payment_refusal =
    NoEarnings | TokenNotConfigured | WrongToken | BadMessage | NoPlanOnSale
  | PaymentKeyNotFound | BelowMinimum | BadDataId | YieldGone

datatype secret_refusal =
    RepoEmpty | BranchEmpty | BranchTooLong | HashEmpty | HashLength | HashNotHex
  | ProjectIdEmpty | ProjectIdShape | NoSuchProject | NonceNotANumber | NonceReserved
  | NonceTooLarge | NonceUsed | KeyExists | EmptySecret | AgentProfileOfOther
  | SecretNotFound | AmbiguousProfile | AccessorNotForAgents

datatype wallet_refusal =
    BadPubkey | BadSignature | NoNearAccount | EmptyPubkey | EmptyPolicy | PolicyTooLarge
  | EmptySignature | WrongPolicyVersion | SignatureExpired | RefundToOnUpdate | PolicyNotFound
  | AlreadyFrozen | NotFrozen | PolicyLocked | NoBeneficiary

datatype refusal =
    Guard guard_refusal
  | Shape shape_refusal
  | Exec execution_refusal
  | Proj project_refusal
  | Price price_refusal
  | Pay payment_refusal
  | Secret secret_refusal
  | Wallet wallet_refusal

type_synonym 'a contract_call = "(refusal, 'a) call"

type_synonym outcome = "(refusal, contract \<times> effect list) call"

section \<open>Code outside the repository\<close>

record externals =
  json_string_field :: "string \<Rightarrow> string \<Rightarrow> string option option"
  json_to_string :: "json_value \<Rightarrow> string option"
  json_from_str :: "string \<Rightarrow> json_value option"
  json_null :: json_value
  json_quote :: "string \<Rightarrow> string"
  parse_ft_action :: "string \<Rightarrow> ft_transfer_action option"
  access_to_json :: "access_condition \<Rightarrow> string"
  base64_encode :: "string \<Rightarrow> string"
  hex_encode :: "string \<Rightarrow> string"
  hex_decode :: "string \<Rightarrow> string option"
  sha256 :: "string \<Rightarrow> string"
  ed25519_verify :: "string \<Rightarrow> string \<Rightarrow> string \<Rightarrow> bool"
  ecrecover :: "string \<Rightarrow> string \<Rightarrow> nat \<Rightarrow> string option"
  valid_account :: "string \<Rightarrow> bool"
  valid_utf8 :: "string \<Rightarrow> bool"
  non_ascii_alphanumeric :: "string \<Rightarrow> bool"
  non_ascii_lowercase :: "string \<Rightarrow> string"

text \<open>\<open>char::is_alphanumeric\<close> and \<open>str::to_lowercase\<close>: ASCII here, the rest of Unicode a parameter.\<close>

definition is_alphanumeric :: "externals \<Rightarrow> string \<Rightarrow> bool" where
  "is_alphanumeric ext ch =
     (case ch of
        [c] \<Rightarrow> (if is_ascii c then is_ascii_alphanumeric c else non_ascii_alphanumeric ext ch)
      | _ \<Rightarrow> non_ascii_alphanumeric ext ch)"

definition to_lowercase :: "externals \<Rightarrow> string \<Rightarrow> string" where
  "to_lowercase ext s = (if list_all is_ascii s then map ascii_lower s else non_ascii_lowercase ext s)"

section \<open>Guards every module uses\<close>

definition assert_not_paused :: "contract \<Rightarrow> 'a contract_call \<Rightarrow> 'a contract_call" where
  "assert_not_paused s k = ensure (\<not> paused s) (Guard ContractPaused) k"

definition assert_operator :: "ctx \<Rightarrow> contract \<Rightarrow> 'a contract_call \<Rightarrow> 'a contract_call" where
  "assert_operator cx s k = ensure (predecessor cx = operator_id s) (Guard OnlyOperator) k"

definition assert_owner :: "ctx \<Rightarrow> contract \<Rightarrow> 'a contract_call \<Rightarrow> 'a contract_call" where
  "assert_owner cx s k = ensure (predecessor cx = owner_id s) (Guard OnlyOwner) k"

lemmas [run_simps] = assert_not_paused_def assert_operator_def assert_owner_def
lemmas [eval_simps] = assert_not_paused_def assert_operator_def assert_owner_def

definition transfer_if :: "account \<Rightarrow> nat \<Rightarrow> effect list" where
  "transfer_if a n = (if n > 0 then [Transfer a n] else [])"

fun paid_out :: "effect list \<Rightarrow> nat" where
  "paid_out [] = 0"
| "paid_out (Transfer _ n # es) = n + paid_out es"
| "paid_out (_ # es) = paid_out es"

text \<open>NEAR attached to function calls, beside the plain transfers.\<close>

fun attached_out :: "effect list \<Rightarrow> nat" where
  "attached_out [] = 0"
| "attached_out (FunctionCall _ _ _ n # es) = n + attached_out es"
| "attached_out (_ # es) = attached_out es"

lemma paid_out_append [simp]: "paid_out (es @ fs) = paid_out es + paid_out fs"
  by (induction es rule: paid_out.induct) simp_all

lemma paid_out_transfer_if [simp]: "paid_out (transfer_if a n) = n"
  by (simp add: transfer_if_def)

end
