(* ===== verification/Projects.thy ===== *)
theory Projects
  imports Pricing
begin

text \<open>
  Projects (\<open>contract/src/projects.rs\<close>): a project is a name in its owner's namespace, a uuid the
  contract hands out, a map of versions and one active version. The operations create, extend,
  switch, prune, delete and move projects. The invariant \<open>projects_ok\<close> says what callers,
  secrets and prices rely on when they trust a project id; \<open>project_step\<close> collects the
  operations and the invariant is shown for every reachable state. The deposits held for
  projects, versions and acceptances are accounted for operation by operation.
\<close>

section \<open>Names and sources\<close>

definition MAX_WASM_URL_LEN :: nat where "MAX_WASM_URL_LEN = 2048"
definition MAX_REPO_LEN :: nat where "MAX_REPO_LEN = 512"
definition MAX_COMMIT_LEN :: nat where "MAX_COMMIT_LEN = 256"
definition MAX_BUILD_TARGET_LEN :: nat where "MAX_BUILD_TARGET_LEN = 64"

datatype source_error =
    HashNotSha256 | UrlNotHttps | UrlTooLong | UrlCharacters | UrlNamesEvent
  | RepoLength | RepoCharacters | CommitLength | CommitCharacters
  | RepoNamesEvent | CommitNamesEvent | BuildTargetShape

definition names_an_event :: "source_error \<Rightarrow> string \<Rightarrow> source_error option" where
  "names_an_event err value = (if contains_str ''EVENT_JSON'' value then Some err else None)"

definition or_else :: "'a option \<Rightarrow> 'a option \<Rightarrow> 'a option" where
  "or_else x y = (case x of None \<Rightarrow> y | Some v \<Rightarrow> Some v)"

definition repo_char :: "char \<Rightarrow> bool" where
  "repo_char b \<longleftrightarrow> is_ascii_alphanumeric b \<or> b \<in> set ''._-/:''"

definition commit_char :: "char \<Rightarrow> bool" where
  "commit_char b \<longleftrightarrow> is_ascii_alphanumeric b \<or> b \<in> set ''._/-+''"

definition target_char :: "char \<Rightarrow> bool" where
  "target_char b \<longleftrightarrow> is_ascii_alphanumeric b \<or> b \<in> set ''._-''"

definition build_target_error :: "string option \<Rightarrow> source_error option" where
  "build_target_error target =
     (case target of
        None \<Rightarrow> None
      | Some t \<Rightarrow>
          (if t = [] \<or> length t > MAX_BUILD_TARGET_LEN \<or> \<not> list_all target_char t
           then Some BuildTargetShape else None))"

fun code_source_error :: "code_source \<Rightarrow> source_error option" where
  "code_source_error (WasmUrlCode url hash build_target) =
     or_else
       (or_else
         (if length hash \<noteq> 64 \<or> \<not> list_all is_lower_hex hash then Some HashNotSha256
          else if \<not> starts_with ''https://'' url \<or> length url \<le> length ''https://''
            then Some UrlNotHttps
          else if length url > MAX_WASM_URL_LEN then Some UrlTooLong
          else if list_ex (\<lambda>c. is_whitespace c \<or> is_control c) (utf8_chars url)
            then Some UrlCharacters
          else None)
         (names_an_event UrlNamesEvent url))
       (build_target_error build_target)"
| "code_source_error (GitHubCode repo commit build_target) =
     or_else
       (or_else
         (or_else
           (if repo = [] \<or> length repo > MAX_REPO_LEN then Some RepoLength
            else if starts_with ''-'' repo \<or> contains_str ''..'' repo \<or> \<not> list_all repo_char repo
              then Some RepoCharacters
            else if commit = [] \<or> length commit > MAX_COMMIT_LEN then Some CommitLength
            else if starts_with ''-'' commit \<or> contains_str ''..'' commit
                \<or> \<not> list_all commit_char commit
              then Some CommitCharacters
            else None)
           (names_an_event RepoNamesEvent repo))
         (names_an_event CommitNamesEvent commit))
       (build_target_error build_target)"

definition assert_code_source :: "code_source \<Rightarrow> 'a contract_call \<Rightarrow> 'a contract_call" where
  "assert_code_source src k = ensure (code_source_error src = None) (Shape CodeSourceShape) k"

definition name_char :: "char \<Rightarrow> bool" where
  "name_char b \<longleftrightarrow> is_ascii_alphanumeric b \<or> b = CHR ''-'' \<or> b = CHR ''_''"

definition assert_project_name :: "string \<Rightarrow> 'a contract_call \<Rightarrow> 'a contract_call" where
  "assert_project_name name k =
     ensure (name \<noteq> []) (Shape EmptyProjectName) (
     ensure (length name \<le> 64) (Shape ProjectNameTooLong) (
     ensure (list_all name_char name) (Shape ProjectNameChars) k))"

section \<open>Keys and sizes\<close>

fun get_version_key :: "code_source \<Rightarrow> string" where
  "get_version_key (WasmUrlCode _ hash _) = hash"
| "get_version_key (GitHubCode repo commit _) = repo @ ''@'' @ commit"

definition project_id_of :: "account \<Rightarrow> string \<Rightarrow> string" where
  "project_id_of owner name = owner @ ''/'' @ name"

definition project_uuid_of :: "nat \<Rightarrow> string" where
  "project_uuid_of n = ''p'' @ hex_fixed 16 n"

definition option_len :: "string option \<Rightarrow> nat" where
  "option_len t = (case t of None \<Rightarrow> 0 | Some x \<Rightarrow> length x)"

definition calculate_project_storage_size :: "string \<Rightarrow> string \<Rightarrow> nat" where
  "calculate_project_storage_size project_id uuid = 200 + length project_id + length uuid + 8 + 16"

fun source_size :: "code_source \<Rightarrow> nat" where
  "source_size (GitHubCode repo commit target) = length repo + length commit + option_len target"
| "source_size (WasmUrlCode url hash target) = length url + length hash + option_len target"

definition calculate_version_storage_size :: "code_source \<Rightarrow> nat" where
  "calculate_version_storage_size src = 150 + source_size src + 64 + 8 + 16"

section \<open>Rows and the owner index\<close>

definition insert_project :: "string \<Rightarrow> project \<Rightarrow> contract \<Rightarrow> contract" where
  "insert_project pid p s =
     s\<lparr>projects := (projects s)(pid \<mapsto> p),
       user_projects_index := index_add (pj_owner p) pid (user_projects_index s)\<rparr>"

definition rewrite_project :: "string \<Rightarrow> project \<Rightarrow> contract \<Rightarrow> contract" where
  "rewrite_project pid p s = s\<lparr>projects := (projects s)(pid \<mapsto> p)\<rparr>"

definition drop_project :: "string \<Rightarrow> project \<Rightarrow> contract \<Rightarrow> contract" where
  "drop_project pid p s =
     s\<lparr>projects := (projects s)(pid := None),
       user_projects_index := index_remove (pj_owner p) pid (user_projects_index s)\<rparr>"

interpretation project_rows: indexed_store projects user_projects_index "\<lambda>_ p. pj_owner p"
    insert_project rewrite_project drop_project
  by unfold_locales (simp_all add: insert_project_def rewrite_project_def drop_project_def)

section \<open>Operations\<close>

definition create_project :: "ctx \<Rightarrow> string \<Rightarrow> code_source \<Rightarrow> contract \<Rightarrow> outcome" where
  "create_project cx name src s =
     assert_not_paused s (
     let caller = predecessor cx; project_id = project_id_of caller name in
     assert_project_name name (
     ensure (projects s project_id = None) (Proj ProjectExists) (
     add_u64 (next_project_id s) 1 (\<lambda>n.
     let uuid = project_uuid_of n in
     assert_code_source src (
     let version_key = get_version_key src;
         project_storage = calculate_project_storage_size project_id uuid;
         version_storage = calculate_version_storage_size src;
         required_deposit = (project_storage + version_storage) * STORAGE_PRICE_PER_BYTE;
         project = \<lparr>pj_uuid = uuid, pj_owner = caller, pj_name = name,
                    pj_active_version = version_key, pj_created_at = block_timestamp cx,
                    pj_storage_deposit = project_storage * STORAGE_PRICE_PER_BYTE\<rparr>;
         version_info = \<lparr>vi_source = src, vi_added_at = block_timestamp cx,
                         vi_storage_deposit = version_storage * STORAGE_PRICE_PER_BYTE\<rparr> in
     ensure (attached_deposit cx \<ge> required_deposit) (Guard InsufficientDeposit) (
     Inr (insert_project project_id project
            (s\<lparr>next_project_id := n,
               project_versions := (project_versions s)(uuid \<mapsto> [version_key \<mapsto> version_info])\<rparr>),
          transfer_if caller (attached_deposit cx - required_deposit))))))))"

definition add_version :: "ctx \<Rightarrow> string \<Rightarrow> code_source \<Rightarrow> bool \<Rightarrow> contract \<Rightarrow> outcome" where
  "add_version cx project_name src set_active s =
     assert_not_paused s (
     let caller = predecessor cx; project_id = project_id_of caller project_name in
     expect (projects s project_id) (Proj ProjectNotFound) (\<lambda>project.
     ensure (pj_owner project = caller) (Guard OnlyProjectOwner) (
     assert_code_source src (
     let version_key = get_version_key src;
         required_deposit = calculate_version_storage_size src * STORAGE_PRICE_PER_BYTE in
     ensure (attached_deposit cx \<ge> required_deposit) (Guard InsufficientDeposit) (
     expect (project_versions s (pj_uuid project)) (Proj VersionsNotFound) (\<lambda>versions.
     ensure (versions version_key = None) (Proj VersionExists) (
     let version_info = \<lparr>vi_source = src, vi_added_at = block_timestamp cx,
                         vi_storage_deposit = required_deposit\<rparr>;
         s1 = s\<lparr>project_versions :=
                 (project_versions s)(pj_uuid project \<mapsto> versions(version_key \<mapsto> version_info))\<rparr>;
         s2 = (if set_active
               then rewrite_project project_id (project\<lparr>pj_active_version := version_key\<rparr>) s1
               else s1) in
     Inr (s2, transfer_if caller (attached_deposit cx - required_deposit)))))))))"

definition set_active_version :: "ctx \<Rightarrow> string \<Rightarrow> string \<Rightarrow> contract \<Rightarrow> outcome" where
  "set_active_version cx project_name version_key s =
     not_payable cx (
     let caller = predecessor cx; project_id = project_id_of caller project_name in
     expect (projects s project_id) (Proj ProjectNotFound) (\<lambda>project.
     ensure (pj_owner project = caller) (Guard OnlyProjectOwner) (
     expect (project_versions s (pj_uuid project)) (Proj VersionsNotFound) (\<lambda>versions.
     ensure (versions version_key \<noteq> None) (Proj VersionNotFound) (
     Inr (rewrite_project project_id (project\<lparr>pj_active_version := version_key\<rparr>) s, []))))))"

definition remove_version :: "ctx \<Rightarrow> string \<Rightarrow> string \<Rightarrow> contract \<Rightarrow> outcome" where
  "remove_version cx project_name version_key s =
     not_payable cx (
     let caller = predecessor cx; project_id = project_id_of caller project_name in
     expect (projects s project_id) (Proj ProjectNotFound) (\<lambda>project.
     ensure (pj_owner project = caller) (Guard OnlyProjectOwner) (
     ensure (pj_active_version project \<noteq> version_key) (Proj ActiveVersion) (
     expect (project_versions s (pj_uuid project)) (Proj VersionsNotFound) (\<lambda>versions.
     expect (versions version_key) (Proj VersionNotFound) (\<lambda>version_info.
     Inr (s\<lparr>project_versions :=
              (project_versions s)(pj_uuid project \<mapsto> versions(version_key := None))\<rparr>,
          transfer_if caller (vi_storage_deposit version_info))))))))"

definition delete_project :: "ctx \<Rightarrow> string \<Rightarrow> contract \<Rightarrow> outcome" where
  "delete_project cx project_name s =
     not_payable cx (
     let caller = predecessor cx; project_id = project_id_of caller project_name in
     expect (projects s project_id) (Proj ProjectNotFound) (\<lambda>project.
     ensure (pj_owner project = caller) (Guard OnlyProjectOwner) (
     Inr (drop_project project_id project
            (s\<lparr>project_versions := (project_versions s)(pj_uuid project := None)\<rparr>),
          transfer_if caller (pj_storage_deposit project)
            @ [EmitStorageCleanup project_id (pj_uuid project)]))))"

definition accept_project_transfer :: "ctx \<Rightarrow> account \<Rightarrow> string \<Rightarrow> contract \<Rightarrow> outcome" where
  "accept_project_transfer cx from_owner name s =
     assert_not_paused s (
     let caller = predecessor cx in
     assert_project_name name (
     ensure (projects s (project_id_of caller name) = None) (Proj ProjectExists) (
     let acceptance = \<lparr>ta_new_owner = caller, ta_from = from_owner, ta_name = name\<rparr> in
     ensure (project_transfer_acceptances s acceptance = None) (Proj AlreadyAccepted) (
     let required_deposit = storage_grown cx * STORAGE_PRICE_PER_BYTE in
     ensure (attached_deposit cx \<ge> required_deposit) (Guard InsufficientDeposit) (
     Inr (s\<lparr>project_transfer_acceptances :=
              (project_transfer_acceptances s)(acceptance \<mapsto> required_deposit)\<rparr>,
          transfer_if caller (attached_deposit cx - required_deposit)
            @ [EmitSystem (ProjectTransferAccepted caller from_owner name)]))))))"

definition revoke_project_transfer :: "ctx \<Rightarrow> account \<Rightarrow> string \<Rightarrow> contract \<Rightarrow> outcome" where
  "revoke_project_transfer cx from_owner name s =
     not_payable cx (
     let caller = predecessor cx;
         acceptance = \<lparr>ta_new_owner = caller, ta_from = from_owner, ta_name = name\<rparr> in
     expect (project_transfer_acceptances s acceptance) (Proj NotAccepted) (\<lambda>deposit.
     Inr (s\<lparr>project_transfer_acceptances :=
              (project_transfer_acceptances s)(acceptance := None)\<rparr>,
          transfer_if caller deposit
            @ [EmitSystem (ProjectTransferRevoked caller from_owner name)])))"

definition transfer_project :: "ctx \<Rightarrow> string \<Rightarrow> account \<Rightarrow> contract \<Rightarrow> outcome" where
  "transfer_project cx project_name new_owner s =
     not_payable cx (
     let caller = predecessor cx; old_project_id = project_id_of caller project_name in
     ensure (project_pricing s old_project_id = None) (Proj ProjectPriced) (
     let acceptance = \<lparr>ta_new_owner = new_owner, ta_from = caller, ta_name = project_name\<rparr> in
     expect (project_transfer_acceptances s acceptance) (Proj NotAccepted) (\<lambda>acceptance_deposit.
     expect (projects s old_project_id) (Proj ProjectNotFound) (\<lambda>project.
     ensure (pj_owner project = caller) (Guard OnlyProjectOwner) (
     let new_project_id = project_id_of new_owner project_name in
     ensure (((projects s)(old_project_id := None)) new_project_id = None) (Proj ProjectExists) (
     Inr (insert_project new_project_id (project\<lparr>pj_owner := new_owner\<rparr>)
            (drop_project old_project_id project
              (s\<lparr>project_transfer_acceptances :=
                  (project_transfer_acceptances s)(acceptance := None)\<rparr>)),
          transfer_if new_owner acceptance_deposit
            @ [EmitSystem (ProjectTransferred old_project_id new_project_id (pj_uuid project)
                            caller new_owner)])))))))"

section \<open>Views\<close>

definition get_version :: "string \<Rightarrow> string \<Rightarrow> contract \<Rightarrow> (version_info \<times> bool) option" where
  "get_version project_id version_key s =
     (case projects s project_id of
        None \<Rightarrow> None
      | Some project \<Rightarrow>
          (case project_versions s (pj_uuid project) of
             None \<Rightarrow> None
           | Some versions \<Rightarrow>
               (case versions version_key of
                  None \<Rightarrow> None
                | Some v \<Rightarrow> Some (v, pj_active_version project = version_key))))"

definition has_project_uuid :: "string \<Rightarrow> contract \<Rightarrow> bool" where
  "has_project_uuid uuid s \<longleftrightarrow> project_versions s uuid \<noteq> None"

lemmas project_op_defs =
  create_project_def add_version_def set_active_version_def remove_version_def
  delete_project_def accept_project_transfer_def revoke_project_transfer_def transfer_project_def

lemmas project_row_defs = insert_project_def rewrite_project_def drop_project_def

lemma assert_code_source_Inr [run_simps]:
  "assert_code_source src k = Inr y \<longleftrightarrow> code_source_error src = None \<and> k = Inr y"
  by (simp add: assert_code_source_def run_simps)

lemma assert_project_name_Inr [run_simps]:
  "assert_project_name name k = Inr y \<longleftrightarrow>
     name \<noteq> [] \<and> length name \<le> 64 \<and> list_all name_char name \<and> k = Inr y"
  by (simp add: assert_project_name_def run_simps)

lemmas [eval_simps] = assert_code_source_def assert_project_name_def

section \<open>The invariant\<close>

definition projects_finite :: "contract \<Rightarrow> bool" where
  "projects_finite s \<longleftrightarrow>
     finite (dom (projects s)) \<and> finite (dom (project_versions s)) \<and>
     finite (dom (project_transfer_acceptances s)) \<and>
     (\<forall>u vs. project_versions s u = Some vs \<longrightarrow> finite (dom vs))"

text \<open>A project id is its owner's namespace and its name; its active version exists.\<close>

definition projects_named :: "contract \<Rightarrow> bool" where
  "projects_named s \<longleftrightarrow>
     (\<forall>pid p. projects s pid = Some p \<longrightarrow>
        pid = project_id_of (pj_owner p) (pj_name p) \<and>
        (\<exists>vs. project_versions s (pj_uuid p) = Some vs \<and> vs (pj_active_version p) \<noteq> None))"

text \<open>The uuid of a project spells a number the counter has reached, belongs to one project, and has
  versions exactly while that project lives.\<close>

definition uuid_of :: "contract \<Rightarrow> string \<rightharpoonup> string" where
  "uuid_of s pid = map_option pj_uuid (projects s pid)"

definition counted_uuid :: "contract \<Rightarrow> string \<Rightarrow> bool" where
  "counted_uuid s u \<longleftrightarrow> (\<exists>n. 0 < n \<and> n \<le> next_project_id s \<and> u = project_uuid_of n)"

definition project_uuids_ok :: "contract \<Rightarrow> bool" where
  "project_uuids_ok s \<longleftrightarrow>
     next_project_id s < 2 ^ 64 \<and>
     (\<forall>u \<in> ran (uuid_of s). counted_uuid s u) \<and>
     inj_on (uuid_of s) (dom (uuid_of s)) \<and>
     dom (project_versions s) = ran (uuid_of s)"

definition versions_ok :: "(string \<rightharpoonup> version_info) \<Rightarrow> bool" where
  "versions_ok vs \<longleftrightarrow>
     (\<forall>k v. vs k = Some v \<longrightarrow>
        get_version_key (vi_source v) = k \<and> code_source_error (vi_source v) = None)"

definition project_sources_ok :: "contract \<Rightarrow> bool" where
  "project_sources_ok s \<longleftrightarrow> (\<forall>u vs. project_versions s u = Some vs \<longrightarrow> versions_ok vs)"

definition projects_ok :: "contract \<Rightarrow> bool" where
  "projects_ok s \<longleftrightarrow>
     projects_finite s \<and> project_rows.consistent s \<and> projects_named s \<and>
     project_uuids_ok s \<and> project_sources_ok s"

lemma projects_okI:
  "projects_finite s \<Longrightarrow> project_rows.consistent s \<Longrightarrow> projects_named s \<Longrightarrow>
     project_uuids_ok s \<Longrightarrow> project_sources_ok s \<Longrightarrow> projects_ok s"
  by (simp add: projects_ok_def)

lemma projects_okD:
  assumes "projects_ok s"
  shows "projects_finite s" "project_rows.consistent s" "projects_named s"
    "project_uuids_ok s" "project_sources_ok s"
  using assms by (simp_all add: projects_ok_def)

lemma project_uuid_inject:
  "m < 2 ^ 64 \<Longrightarrow> n < 2 ^ 64 \<Longrightarrow> project_uuid_of m = project_uuid_of n \<Longrightarrow> m = n"
  by (rule hex_fixed_inject [of m 16 n]) (simp_all add: project_uuid_of_def)

text \<open>The uuid of the next number is none of those the counter has reached.\<close>

lemma next_uuid_not_counted:
  assumes "next_project_id s + 1 < 2 ^ 64"
  shows "\<not> counted_uuid s (project_uuid_of (next_project_id s + 1))"
proof
  assume "counted_uuid s (project_uuid_of (next_project_id s + 1))"
  then obtain n where "n \<le> next_project_id s"
      "project_uuid_of (next_project_id s + 1) = project_uuid_of n"
    by (auto simp: counted_uuid_def)
  with project_uuid_inject [of "next_project_id s + 1" n] assms show False by simp
qed

lemma next_uuid_fresh:
  assumes "project_uuids_ok s" "next_project_id s + 1 < 2 ^ 64"
  shows "project_uuid_of (next_project_id s + 1) \<notin> ran (uuid_of s)"
    and "project_versions s (project_uuid_of (next_project_id s + 1)) = None"
  using assms(1) next_uuid_not_counted [OF assms(2)] unfolding project_uuids_ok_def by auto

lemma uuid_of_simps [simp]:
  "projects s pid = Some p \<Longrightarrow> uuid_of s pid = Some (pj_uuid p)"
  "projects s pid = None \<Longrightarrow> uuid_of s pid = None"
  by (simp_all add: uuid_of_def)

lemma uuid_of_upd [simp]:
  "uuid_of (s\<lparr>projects := (projects s)(pid \<mapsto> p)\<rparr>) = (uuid_of s)(pid \<mapsto> pj_uuid p)"
  "uuid_of (s\<lparr>projects := (projects s)(pid := None)\<rparr>) = (uuid_of s)(pid := None)"
  "uuid_of (s\<lparr>project_versions := pv\<rparr>) = uuid_of s"
  "uuid_of (s\<lparr>next_project_id := n\<rparr>) = uuid_of s"
  "uuid_of (s\<lparr>user_projects_index := idx\<rparr>) = uuid_of s"
  "uuid_of (s\<lparr>project_transfer_acceptances := acc\<rparr>) = uuid_of s"
  by (auto simp: uuid_of_def)

lemma uuid_unique:
  assumes "project_uuids_ok s" "projects s pid = Some p" "projects s pid' = Some p'"
    and "pj_uuid p' = pj_uuid p"
  shows "pid' = pid"
proof -
  from assms(1) have "inj_on (uuid_of s) (dom (uuid_of s))" by (simp add: project_uuids_ok_def)
  moreover have "pid \<in> dom (uuid_of s)" "pid' \<in> dom (uuid_of s)"
    using assms(2,3) by (simp_all add: domIff)
  moreover have "uuid_of s pid' = uuid_of s pid" using assms(2-4) by simp
  ultimately show ?thesis by (meson inj_onD)
qed

lemma uuid_of_new: "uuid_of (new_contract ow op st ver) = Map.empty"
  by (auto simp: uuid_of_def new_contract_def)

lemma projects_ok_new: "projects_ok (new_contract ow op st ver)"
  unfolding projects_ok_def project_uuids_ok_def uuid_of_new
  by (simp add: projects_ok_def projects_finite_def project_rows.consistent_def
      projects_named_def project_sources_ok_def new_contract_def)

section \<open>Every operation keeps the invariant\<close>

lemma create_project_ok:
  assumes ok: "projects_ok s" and run: "create_project cx name src s = Inr (t, es)"
  shows "projects_ok t"
proof -
  let ?pid = "project_id_of (predecessor cx) name"
  let ?n = "next_project_id s + 1"
  let ?u = "project_uuid_of ?n"
  from run have fresh: "projects s ?pid = None"
    and lt: "?n < 2 ^ 64" and src: "code_source_error src = None"
    by (auto simp: create_project_def run_simps Let_def)
  note parts = projects_okD [OF ok]
  note u = next_uuid_fresh [OF parts(4) lt]
  obtain p v where
    t: "t = insert_project ?pid p
              (s\<lparr>next_project_id := ?n,
                 project_versions := (project_versions s)(?u \<mapsto> [get_version_key src \<mapsto> v])\<rparr>)"
    and p: "pj_uuid p = ?u" "pj_owner p = predecessor cx" "pj_name p = name"
      "pj_active_version p = get_version_key src"
    and v: "vi_source v = src"
    using run by (auto simp: create_project_def run_simps Let_def)
  show ?thesis
  proof (rule projects_okI)
    show "projects_finite t"
      using parts(1) by (auto simp: t projects_finite_def insert_project_def)
    show "project_rows.consistent t"
      unfolding t
      by (rule project_rows.insert_consistent)
        (use parts(2) fresh in \<open>simp_all add: project_rows.consistent_def\<close>)
    have other: "pj_uuid q \<noteq> ?u" if "projects s pid' = Some q" for pid' q
      using u(1) that by (metis ranI uuid_of_simps(1))
    show "projects_named t"
      using parts(3) other p unfolding t projects_named_def insert_project_def by auto
    have U: "uuid_of t = (uuid_of s)(?pid \<mapsto> ?u)"
      by (auto simp: uuid_of_def t insert_project_def p(1))
    have "counted_uuid t w" if "w = ?u \<or> counted_uuid s w" for w
      using that by (auto simp: t counted_uuid_def insert_project_def intro: le_SucI)
    moreover have "inj_on (uuid_of t) (dom (uuid_of t))"
      unfolding U using parts(4) u(1) by (intro inj_map_upd) (simp_all add: project_uuids_ok_def)
    moreover have "dom (project_versions t) = insert ?u (dom (project_versions s))"
      "next_project_id t = ?n" by (simp_all add: t insert_project_def)
    moreover have "ran (uuid_of t) = insert ?u (ran (uuid_of s))"
      unfolding U using fresh by simp
    ultimately show "project_uuids_ok t"
      using parts(4) lt unfolding project_uuids_ok_def by auto
    show "project_sources_ok t"
      using parts(5) v src by (auto simp: t project_sources_ok_def versions_ok_def insert_project_def)
  qed
qed

text \<open>
  The operations on a live project change one of its versions or its active version: the
  project keeps its uuid, its owner and its name.
\<close>

lemma project_edit_ok:
  assumes ok: "projects_ok s" and p: "projects s pid = Some p"
    and same: "pj_uuid p' = pj_uuid p" "pj_owner p' = pj_owner p" "pj_name p' = pj_name p"
    and vs: "finite (dom vs')" "versions_ok vs'" "vs' (pj_active_version p') \<noteq> None"
    and t: "t = s\<lparr>projects := (projects s)(pid \<mapsto> p'),
                  project_versions := (project_versions s)(pj_uuid p \<mapsto> vs')\<rparr>"
  shows "projects_ok t"
proof (rule projects_okI)
  note parts = projects_okD [OF ok]
  show "projects_finite t"
    using parts(1) vs(1) by (auto simp: t projects_finite_def)
  have "project_rows.consistent (rewrite_project pid p' s)"
    by (rule project_rows.rewrite_consistent [where ?v0.0 = p]) (simp_all add: parts(2) p same)
  then show "project_rows.consistent t"
    by (simp add: t project_rows.consistent_def rewrite_project_def)
  have other: "pid' \<noteq> pid \<Longrightarrow> pj_uuid q \<noteq> pj_uuid p" if "projects s pid' = Some q" for pid' q
    using uuid_unique [OF parts(4) p that] by blast
  show "projects_named t"
    using parts(3) p same vs(3) other unfolding t projects_named_def by auto
  have "uuid_of t = uuid_of s"
    using p same(1) by (auto simp: uuid_of_def t)
  moreover have "pj_uuid p \<in> dom (project_versions s)"
    using parts(3) p by (auto simp: projects_named_def)
  ultimately show "project_uuids_ok t"
    using parts(4) by (simp add: project_uuids_ok_def counted_uuid_def t insert_absorb)
  show "project_sources_ok t"
    using parts(5) vs(2) by (auto simp: t project_sources_ok_def)
qed

lemma project_versions_of:
  assumes "projects_ok s" "projects s pid = Some p" "project_versions s (pj_uuid p) = Some vs"
  shows "finite (dom vs)" "versions_ok vs" "vs (pj_active_version p) \<noteq> None"
  using projects_okD [OF assms(1)] assms(2,3)
  unfolding projects_finite_def project_sources_ok_def projects_named_def by force+

lemma versions_ok_upd:
  "versions_ok vs \<Longrightarrow> code_source_error (vi_source v) = None \<Longrightarrow>
     versions_ok (vs(get_version_key (vi_source v) \<mapsto> v))"
  by (simp add: versions_ok_def)

lemma add_version_ok:
  assumes ok: "projects_ok s" and run: "add_version cx name src act s = Inr (t, es)"
  shows "projects_ok t"
proof -
  let ?pid = "project_id_of (predecessor cx) name"
  let ?v = "\<lparr>vi_source = src, vi_added_at = block_timestamp cx,
             vi_storage_deposit = calculate_version_storage_size src * STORAGE_PRICE_PER_BYTE\<rparr>"
  from run obtain p vs where
    p: "projects s ?pid = Some p" and vs: "project_versions s (pj_uuid p) = Some vs"
    and src: "code_source_error src = None"
    and t0: "t = (let s1 = s\<lparr>project_versions :=
                     (project_versions s)(pj_uuid p \<mapsto> vs(get_version_key src \<mapsto> ?v))\<rparr>
                  in if act then rewrite_project ?pid (p\<lparr>pj_active_version := get_version_key src\<rparr>) s1
                     else s1)"
    by (simp add: add_version_def run_simps Let_def) metis
  have t: "t = s\<lparr>projects := (projects s)(?pid \<mapsto>
                     (if act then p\<lparr>pj_active_version := get_version_key src\<rparr> else p)),
                  project_versions := (project_versions s)
                     (pj_uuid p \<mapsto> vs(get_version_key src \<mapsto> ?v))\<rparr>"
    using p by (simp add: t0 rewrite_project_def fun_upd_idem)
  note live = project_versions_of [OF ok p vs]
  have "versions_ok (vs(get_version_key src \<mapsto> ?v))"
    using versions_ok_upd [OF live(2), of ?v] src by simp
  then show ?thesis
    by (intro project_edit_ok [OF ok p _ _ _ _ _ _ t]) (use live in simp_all)
qed

lemma set_active_version_ok:
  assumes ok: "projects_ok s" and run: "set_active_version cx name k s = Inr (t, es)"
  shows "projects_ok t"
proof -
  let ?pid = "project_id_of (predecessor cx) name"
  from run obtain p vs where
    p: "projects s ?pid = Some p" and vs: "project_versions s (pj_uuid p) = Some vs"
    and k: "vs k \<noteq> None"
    and t: "t = s\<lparr>projects := (projects s)(?pid \<mapsto> p\<lparr>pj_active_version := k\<rparr>),
                  project_versions := (project_versions s)(pj_uuid p \<mapsto> vs)\<rparr>"
    by (auto simp: set_active_version_def run_simps Let_def rewrite_project_def fun_upd_idem)
  show ?thesis
    by (rule project_edit_ok [OF ok p _ _ _ _ _ _ t])
      (use project_versions_of [OF ok p vs] k in simp_all)
qed

lemma remove_version_ok:
  assumes ok: "projects_ok s" and run: "remove_version cx name k s = Inr (t, es)"
  shows "projects_ok t"
proof -
  let ?pid = "project_id_of (predecessor cx) name"
  from run obtain p vs where
    p: "projects s ?pid = Some p" and vs: "project_versions s (pj_uuid p) = Some vs"
    and k: "pj_active_version p \<noteq> k"
    and t: "t = s\<lparr>projects := (projects s)(?pid \<mapsto> p),
                  project_versions := (project_versions s)(pj_uuid p \<mapsto> vs(k := None))\<rparr>"
    by (auto simp: remove_version_def run_simps Let_def fun_upd_idem)
  show ?thesis
    by (rule project_edit_ok [OF ok p _ _ _ _ _ _ t])
      (use project_versions_of [OF ok p vs] k in \<open>auto simp: versions_ok_def\<close>)
qed

lemma delete_project_ok:
  assumes ok: "projects_ok s" and run: "delete_project cx name s = Inr (t, es)"
  shows "projects_ok t"
proof -
  let ?pid = "project_id_of (predecessor cx) name"
  note parts = projects_okD [OF ok]
  from run obtain p where p: "projects s ?pid = Some p"
    and t: "t = drop_project ?pid p
                  (s\<lparr>project_versions := (project_versions s)(pj_uuid p := None)\<rparr>)"
    by (auto simp: delete_project_def run_simps Let_def)
  have other: "pid' \<noteq> ?pid \<Longrightarrow> pj_uuid q \<noteq> pj_uuid p" if "projects s pid' = Some q" for pid' q
    using uuid_unique [OF parts(4) p that] by blast
  show ?thesis
  proof (rule projects_okI)
    show "projects_finite t"
      using parts(1) by (auto simp: t projects_finite_def drop_project_def)
    show "project_rows.consistent t"
      unfolding t
      by (rule project_rows.drop_consistent)
        (use parts(2) p in \<open>simp_all add: project_rows.consistent_def\<close>)
    show "projects_named t"
      using parts(3) other unfolding t projects_named_def drop_project_def by auto
    have U: "uuid_of t = (uuid_of s)(?pid := None)"
      by (auto simp: uuid_of_def t drop_project_def)
    have inj: "inj_on (uuid_of s) (dom (uuid_of s))"
      using parts(4) by (simp add: project_uuids_ok_def)
    have "inj_on (uuid_of t) (dom (uuid_of t))" unfolding U by (rule inj_map_delete [OF inj])
    moreover have "ran (uuid_of t) = ran (uuid_of s) - {pj_uuid p}"
      unfolding U using p by (intro ran_map_delete [OF inj]) simp
    ultimately show "project_uuids_ok t"
      using parts(4) by (auto simp: project_uuids_ok_def counted_uuid_def t drop_project_def)
    show "project_sources_ok t"
      using parts(5) by (auto simp: t project_sources_ok_def drop_project_def)
  qed
qed

lemma transfer_project_ok:
  assumes ok: "projects_ok s" and run: "transfer_project cx name new_owner s = Inr (t, es)"
  shows "projects_ok t"
proof -
  let ?old = "project_id_of (predecessor cx) name"
  let ?new = "project_id_of new_owner name"
  let ?acc = "\<lparr>ta_new_owner = new_owner, ta_from = predecessor cx, ta_name = name\<rparr>"
  note parts = projects_okD [OF ok]
  from run obtain p where p: "projects s ?old = Some p"
    and free: "((projects s)(?old := None)) ?new = None"
    and t: "t = insert_project ?new (p\<lparr>pj_owner := new_owner\<rparr>)
                  (drop_project ?old p (s\<lparr>project_transfer_acceptances :=
                     (project_transfer_acceptances s)(?acc := None)\<rparr>))"
    by (auto simp: transfer_project_def run_simps Let_def simp del: fun_upd_apply)
  have named: "?old = project_id_of (pj_owner p) (pj_name p)"
    using parts(3) p by (auto simp: projects_named_def)
  from run p have own: "pj_owner p = predecessor cx"
    by (auto simp: transfer_project_def run_simps Let_def)
  with named have nm: "pj_name p = name" by (simp add: project_id_of_def)
  have P: "projects t = (projects s)(?old := None, ?new \<mapsto> p\<lparr>pj_owner := new_owner\<rparr>)"
    "project_versions t = project_versions s"
    by (simp_all add: t insert_project_def drop_project_def)
  show ?thesis
  proof (rule projects_okI)
    show "projects_finite t"
      using parts(1) by (auto simp: t projects_finite_def drop_project_def insert_project_def)
    have "project_rows.consistent (drop_project ?old p (s\<lparr>project_transfer_acceptances :=
            (project_transfer_acceptances s)(?acc := None)\<rparr>))"
      by (rule project_rows.drop_consistent)
        (use parts(2) p in \<open>simp_all add: project_rows.consistent_def\<close>)
    then show "project_rows.consistent t"
      unfolding t
      by (rule project_rows.insert_consistent) (use free in \<open>simp add: drop_project_def\<close>)
    show "projects_named t"
      using parts(3) p nm unfolding projects_named_def P by auto
    have U: "uuid_of t = (uuid_of s)(?old := None, ?new \<mapsto> pj_uuid p)"
      by (auto simp: uuid_of_def P)
    have inj: "inj_on (uuid_of s) (dom (uuid_of s))"
      using parts(4) by (simp add: project_uuids_ok_def)
    have ran: "ran ((uuid_of s)(?old := None)) = ran (uuid_of s) - {pj_uuid p}"
      using p by (intro ran_map_delete [OF inj]) simp
    have "inj_on (uuid_of t) (dom (uuid_of t))"
      unfolding U by (rule inj_map_upd [OF inj_map_delete [OF inj]]) (simp add: ran)
    moreover have "ran (uuid_of t) = ran (uuid_of s)"
    proof -
      have "((uuid_of s)(?old := None)) ?new = None" using free by (auto simp: uuid_of_def)
      moreover have "pj_uuid p \<in> ran (uuid_of s)"
        using p by (intro ranI [where a = ?old]) simp
      ultimately show ?thesis unfolding U using ran by (auto simp: ran_map_upd)
    qed
    moreover have "next_project_id t = next_project_id s"
      by (simp add: t insert_project_def drop_project_def)
    ultimately show "project_uuids_ok t"
      using parts(4) by (simp add: project_uuids_ok_def counted_uuid_def P)
    show "project_sources_ok t"
      using parts(5) by (simp add: project_sources_ok_def P)
  qed
qed

text \<open>An acceptance is a row of its own: it touches no project.\<close>

lemma acceptance_edit_ok:
  assumes "projects_ok s" "finite (dom acc)"
  shows "projects_ok (s\<lparr>project_transfer_acceptances := acc\<rparr>)" (is "projects_ok ?t")
proof (rule projects_okI)
  note parts = projects_okD [OF assms(1)]
  show "projects_finite ?t" using parts(1) assms(2) by (simp add: projects_finite_def)
  show "project_rows.consistent ?t" using parts(2) by (simp add: project_rows.consistent_def)
  show "projects_named ?t" using parts(3) by (simp add: projects_named_def)
  show "project_uuids_ok ?t" using parts(4) by (simp add: project_uuids_ok_def counted_uuid_def)
  show "project_sources_ok ?t" using parts(5) by (simp add: project_sources_ok_def)
qed

lemma acceptances_finite: "projects_ok s \<Longrightarrow> finite (dom (project_transfer_acceptances s))"
  by (simp add: projects_ok_def projects_finite_def)

lemma accept_project_transfer_ok:
  "projects_ok s \<Longrightarrow> accept_project_transfer cx f n s = Inr (t, es) \<Longrightarrow> projects_ok t"
  by (auto simp: accept_project_transfer_def run_simps Let_def acceptances_finite
      intro!: acceptance_edit_ok)

lemma revoke_project_transfer_ok:
  "projects_ok s \<Longrightarrow> revoke_project_transfer cx f n s = Inr (t, es) \<Longrightarrow> projects_ok t"
  by (auto simp: revoke_project_transfer_def run_simps Let_def acceptances_finite
      intro!: acceptance_edit_ok)

section \<open>Calls and reachable states\<close>

datatype project_call =
    CreateProject string code_source
  | AddVersion string code_source bool
  | SetActiveVersion string string
  | RemoveVersion string string
  | DeleteProject string
  | AcceptProjectTransfer account string
  | RevokeProjectTransfer account string
  | TransferProject string account

fun run_project_call :: "project_call \<Rightarrow> ctx \<Rightarrow> contract \<Rightarrow> outcome" where
  "run_project_call (CreateProject name src) cx s = create_project cx name src s"
| "run_project_call (AddVersion name src act) cx s = add_version cx name src act s"
| "run_project_call (SetActiveVersion name k) cx s = set_active_version cx name k s"
| "run_project_call (RemoveVersion name k) cx s = remove_version cx name k s"
| "run_project_call (DeleteProject name) cx s = delete_project cx name s"
| "run_project_call (AcceptProjectTransfer f name) cx s = accept_project_transfer cx f name s"
| "run_project_call (RevokeProjectTransfer f name) cx s = revoke_project_transfer cx f name s"
| "run_project_call (TransferProject name a) cx s = transfer_project cx name a s"

lemmas project_calls_ok =
  create_project_ok add_version_ok set_active_version_ok remove_version_ok delete_project_ok
  accept_project_transfer_ok revoke_project_transfer_ok transfer_project_ok

lemma run_project_call_ok:
  "projects_ok s \<Longrightarrow> run_project_call c cx s = Inr (t, es) \<Longrightarrow> projects_ok t"
  by (cases c) (auto intro: project_calls_ok)

section \<open>Deposits\<close>

definition project_deposits :: "contract \<Rightarrow> nat" where
  "project_deposits s =
     weight_total pj_storage_deposit (projects s)
     + weight_total (weight_total vi_storage_deposit) (project_versions s)
     + map_total (project_transfer_acceptances s)"

text \<open>What \<open>delete_project\<close> keeps: the deposits of the versions that go with the project.\<close>

definition version_deposits_of :: "contract \<Rightarrow> string \<Rightarrow> nat" where
  "version_deposits_of s pid =
     (case projects s pid of
        None \<Rightarrow> 0
      | Some p \<Rightarrow> weight_at (weight_total vi_storage_deposit) (project_versions s) (pj_uuid p))"

fun deposits_kept :: "project_call \<Rightarrow> ctx \<Rightarrow> contract \<Rightarrow> nat" where
  "deposits_kept (DeleteProject name) cx s =
     version_deposits_of s (project_id_of (predecessor cx) name)"
| "deposits_kept _ cx s = 0"

lemma projects_ok_finite:
  assumes "projects_ok s"
  shows "finite (dom (projects s))" "finite (dom (project_versions s))"
    "finite (dom (project_transfer_acceptances s))"
    "project_versions s u = Some vs \<Longrightarrow> finite (dom vs)"
  using assms unfolding projects_ok_def projects_finite_def by blast+

lemma create_deposits:
  assumes ok: "projects_ok s" and run: "create_project cx name src s = Inr (t, es)"
  shows "attached_deposit cx + project_deposits s = paid_out es + project_deposits t"
proof -
  let ?u = "project_uuid_of (next_project_id s + 1)"
  from run have fresh: "projects s (project_id_of (predecessor cx) name) = None"
      and lt: "next_project_id s + 1 < 2 ^ 64"
    by (auto simp: create_project_def run_simps Let_def)
  have "project_versions s ?u = None"
    using next_uuid_fresh(2) [OF projects_okD(4) [OF ok] lt] .
  with run fresh show ?thesis
    by (auto simp: create_project_def run_simps Let_def project_deposits_def insert_project_def
        weight_total_put_fresh projects_ok_finite [OF ok] algebra_simps)
qed

lemma rewrite_deposits:
  assumes "projects_ok s" "projects s pid = Some p" "pj_storage_deposit p' = pj_storage_deposit p"
  shows "weight_total pj_storage_deposit ((projects s)(pid \<mapsto> p'))
       = weight_total pj_storage_deposit (projects s)"
  using assms by (intro weight_total_update_same) (simp_all add: projects_ok_finite)

lemma version_map_deposits:
  assumes "projects_ok s" "project_versions s u = Some vs"
    and "weight_total vi_storage_deposit vs' + a = weight_total vi_storage_deposit vs + b"
  shows "weight_total (weight_total vi_storage_deposit) ((project_versions s)(u \<mapsto> vs')) + a
       = weight_total (weight_total vi_storage_deposit) (project_versions s) + b"
  using weight_total_update [OF projects_ok_finite(2) [OF assms(1)],
      of "weight_total vi_storage_deposit" u vs'] assms(2,3)
  by (simp add: weight_at_def)

lemma add_version_deposits:
  assumes ok: "projects_ok s" and run: "add_version cx name src act s = Inr (t, es)"
  shows "attached_deposit cx + project_deposits s = paid_out es + project_deposits t"
proof -
  let ?pid = "project_id_of (predecessor cx) name"
  let ?req = "calculate_version_storage_size src * STORAGE_PRICE_PER_BYTE"
  let ?v = "\<lparr>vi_source = src, vi_added_at = block_timestamp cx, vi_storage_deposit = ?req\<rparr>"
  let ?k = "get_version_key src"
  from run obtain p vs where
    p: "projects s ?pid = Some p" and vs: "project_versions s (pj_uuid p) = Some vs"
    and k: "vs ?k = None" and enough: "?req \<le> attached_deposit cx"
    and es: "es = transfer_if (predecessor cx) (attached_deposit cx - ?req)"
    and t: "t = (let s1 = s\<lparr>project_versions :=
                     (project_versions s)(pj_uuid p \<mapsto> vs(?k \<mapsto> ?v))\<rparr>
                  in if act then rewrite_project ?pid (p\<lparr>pj_active_version := ?k\<rparr>) s1 else s1)"
    by (simp add: add_version_def run_simps Let_def) metis
  have "weight_total vi_storage_deposit (vs(?k \<mapsto> ?v)) + 0
      = weight_total vi_storage_deposit vs + ?req"
    using projects_ok_finite(4) [OF ok vs] k by (simp add: weight_total_put_fresh)
  from version_map_deposits [OF ok vs this] rewrite_deposits [OF ok p] enough show ?thesis
    by (cases act) (simp_all add: t es project_deposits_def rewrite_project_def Let_def)
qed

lemma set_active_deposits:
  "projects_ok s \<Longrightarrow> set_active_version cx name k s = Inr (t, es) \<Longrightarrow>
     attached_deposit cx + project_deposits s = paid_out es + project_deposits t"
  by (auto simp: set_active_version_def run_simps Let_def project_deposits_def rewrite_project_def
      rewrite_deposits)

lemma remove_version_deposits:
  assumes ok: "projects_ok s" and run: "remove_version cx name k s = Inr (t, es)"
  shows "attached_deposit cx + project_deposits s = paid_out es + project_deposits t"
proof -
  let ?pid = "project_id_of (predecessor cx) name"
  from run obtain p vs v where
    p: "projects s ?pid = Some p" and vs: "project_versions s (pj_uuid p) = Some vs"
    and v: "vs k = Some v" and no: "attached_deposit cx = 0"
    and es: "es = transfer_if (predecessor cx) (vi_storage_deposit v)"
    and t: "t = s\<lparr>project_versions := (project_versions s)(pj_uuid p \<mapsto> vs(k := None))\<rparr>"
    by (auto simp: remove_version_def run_simps Let_def)
  have "weight_total vi_storage_deposit (vs(k := None)) + vi_storage_deposit v
      = weight_total vi_storage_deposit vs + 0"
    using weight_total_delete [OF projects_ok_finite(4) [OF ok vs], of vi_storage_deposit k] v
    by (simp add: weight_at_def)
  from version_map_deposits [OF ok vs this] no show ?thesis
    by (simp add: t es project_deposits_def)
qed

lemma delete_project_deposits:
  assumes ok: "projects_ok s" and run: "delete_project cx name s = Inr (t, es)"
  shows "attached_deposit cx + project_deposits s
       = paid_out es + project_deposits t
         + version_deposits_of s (project_id_of (predecessor cx) name)"
proof -
  let ?pid = "project_id_of (predecessor cx) name"
  from run obtain p where p: "projects s ?pid = Some p" and no: "attached_deposit cx = 0"
    and es: "es = transfer_if (predecessor cx) (pj_storage_deposit p)
               @ [EmitStorageCleanup ?pid (pj_uuid p)]"
    and t: "t = drop_project ?pid p
                  (s\<lparr>project_versions := (project_versions s)(pj_uuid p := None)\<rparr>)"
    by (auto simp: delete_project_def run_simps Let_def)
  from weight_total_delete [OF projects_ok_finite(1) [OF ok], of pj_storage_deposit ?pid]
    weight_total_delete [OF projects_ok_finite(2) [OF ok],
      of "weight_total vi_storage_deposit" "pj_uuid p"] p no
  show ?thesis
    by (simp add: t es project_deposits_def drop_project_def version_deposits_of_def weight_at_def)
qed

lemma accept_deposits:
  "projects_ok s \<Longrightarrow> accept_project_transfer cx f name s = Inr (t, es) \<Longrightarrow>
     attached_deposit cx + project_deposits s = paid_out es + project_deposits t"
  by (auto simp: accept_project_transfer_def run_simps Let_def project_deposits_def
      weight_total_put_fresh projects_ok_finite)

lemma acceptance_delete_deposits:
  "projects_ok s \<Longrightarrow> project_transfer_acceptances s a = Some d \<Longrightarrow>
     map_total ((project_transfer_acceptances s)(a := None)) + d
     = map_total (project_transfer_acceptances s)"
  using weight_total_delete [OF projects_ok_finite(3), of s id a] by (simp add: get0_def)

lemma revoke_deposits:
  "projects_ok s \<Longrightarrow> revoke_project_transfer cx f name s = Inr (t, es) \<Longrightarrow>
     attached_deposit cx + project_deposits s = paid_out es + project_deposits t"
  by (auto simp: revoke_project_transfer_def run_simps Let_def project_deposits_def
      dest: acceptance_delete_deposits)

lemma transfer_deposits:
  assumes ok: "projects_ok s" and run: "transfer_project cx name new_owner s = Inr (t, es)"
  shows "attached_deposit cx + project_deposits s = paid_out es + project_deposits t"
proof -
  let ?old = "project_id_of (predecessor cx) name"
  let ?new = "project_id_of new_owner name"
  let ?acc = "\<lparr>ta_new_owner = new_owner, ta_from = predecessor cx, ta_name = name\<rparr>"
  from run obtain p d where p: "projects s ?old = Some p"
    and free: "((projects s)(?old := None)) ?new = None"
    and d: "project_transfer_acceptances s ?acc = Some d"
    and pay: "attached_deposit cx = 0" "paid_out es = d"
    and t: "t = insert_project ?new (p\<lparr>pj_owner := new_owner\<rparr>)
                  (drop_project ?old p (s\<lparr>project_transfer_acceptances :=
                     (project_transfer_acceptances s)(?acc := None)\<rparr>))"
    by (auto simp: transfer_project_def run_simps Let_def simp del: fun_upd_apply)
  have "weight_total pj_storage_deposit ((projects s)(?old := None, ?new \<mapsto> p\<lparr>pj_owner := new_owner\<rparr>))
      = weight_total pj_storage_deposit ((projects s)(?old := None)) + pj_storage_deposit p"
    using projects_ok_finite(1) [OF ok] free by (subst weight_total_put_fresh) simp_all
  with weight_total_delete [OF projects_ok_finite(1) [OF ok], of pj_storage_deposit ?old]
    acceptance_delete_deposits [OF ok d] p pay
  show ?thesis
    by (simp add: t project_deposits_def insert_project_def drop_project_def weight_at_def)
qed

lemmas project_call_deposits =
  create_deposits add_version_deposits set_active_deposits remove_version_deposits
  delete_project_deposits accept_deposits revoke_deposits transfer_deposits

section \<open>Sources that are stored are safe to log and to hand to the worker\<close>

lemma or_else_None [simp]: "or_else x y = None \<longleftrightarrow> x = None \<and> y = None"
  by (simp add: or_else_def split: option.splits)

lemma names_an_event_None [simp]:
  "names_an_event e v = None \<longleftrightarrow> \<not> contains_str ''EVENT_JSON'' v"
  by (simp add: names_an_event_def)

text \<open>No whitespace and no control character, whichever of the field's characters one looks at.\<close>

definition log_safe :: "string \<Rightarrow> bool" where
  "log_safe v \<longleftrightarrow>
     list_all (\<lambda>c. \<not> is_whitespace c \<and> \<not> is_control c) (utf8_chars v) \<and>
     \<not> contains_str ''EVENT_JSON'' v"

definition visible_ascii :: "char \<Rightarrow> bool" where
  "visible_ascii c \<longleftrightarrow> 32 < (of_char c :: nat) \<and> (of_char c :: nat) < 127"

lemma visible_chars:
  "list_all visible_ascii s \<Longrightarrow> utf8_chars s = map (\<lambda>c. [c]) s"
proof (induction s)
  case Nil
  then show ?case by simp
next
  case (Cons c s)
  have "\<not> is_continuation d" if "visible_ascii d" for d
    using that by (simp add: is_continuation_def visible_ascii_def)
  with Cons.prems have "takeWhile is_continuation s = [] \<and> dropWhile is_continuation s = s"
    by (cases s) auto
  with Cons show ?case by simp
qed

lemma visible_log_safe:
  assumes "list_all visible_ascii s" "\<not> contains_str ''EVENT_JSON'' s"
  shows "log_safe s"
proof -
  have "\<not> is_whitespace [c] \<and> \<not> is_control [c]" if "visible_ascii c" for c
    using that by (auto simp: is_whitespace_def white_space_codes_def is_control_def visible_ascii_def)
  with assms show ?thesis
    by (auto simp: log_safe_def visible_chars list_all_iff)
qed

lemma alphanumeric_visible: "is_ascii_alphanumeric c \<Longrightarrow> visible_ascii c"
  by (auto simp: is_ascii_alphanumeric_def visible_ascii_def)

lemma field_chars_visible:
  "repo_char c \<Longrightarrow> visible_ascii c" "commit_char c \<Longrightarrow> visible_ascii c"
  "target_char c \<Longrightarrow> visible_ascii c" "is_lower_hex c \<Longrightarrow> visible_ascii c"
  by (auto simp: repo_char_def commit_char_def target_char_def is_lower_hex_def
      dest: alphanumeric_visible) (auto simp: visible_ascii_def)

fun source_fields :: "code_source \<Rightarrow> string list" where
  "source_fields (WasmUrlCode url hash target) = [url, hash]"
| "source_fields (GitHubCode repo commit target) = [repo, commit]"

lemma list_all_visible:
  "list_all P s \<Longrightarrow> (\<And>c. P c \<Longrightarrow> visible_ascii c) \<Longrightarrow> list_all visible_ascii s"
  by (auto simp: list_all_iff)

text \<open>A hash holds no capital letter, so it cannot spell the event marker.\<close>

lemma contains_str_set: "contains_str p s \<Longrightarrow> set p \<subseteq> set s"
proof (induction s)
  case Nil
  then show ?case by simp
next
  case (Cons a s)
  from Cons.prems have "take (length p) (a # s) = p \<or> contains_str p s"
    by (simp add: starts_with_def)
  then show ?case
    using set_take_subset [of "length p" "a # s"] Cons.IH by (auto simp del: take_Cons')
qed

lemma hash_no_event: "list_all is_lower_hex h \<Longrightarrow> \<not> contains_str ''EVENT_JSON'' h"
proof
  assume h: "list_all is_lower_hex h" and "contains_str ''EVENT_JSON'' h"
  then have "CHR ''J'' \<in> set h" by (auto dest: contains_str_set)
  with h have "is_lower_hex (CHR ''J'')" by (simp add: list_all_iff)
  then show False by (simp add: is_lower_hex_def)
qed

lemma source_fields_safe:
  assumes "code_source_error src = None" "f \<in> set (source_fields src)"
  shows "log_safe f"
proof (cases src)
  case (WasmUrlCode url hash target)
  with assms(1) have "list_all is_lower_hex hash" and "log_safe url"
    by (auto simp: log_safe_def list_all_iff list_ex_iff split: if_splits)
  moreover have "log_safe hash"
    using \<open>list_all is_lower_hex hash\<close>
    by (intro visible_log_safe hash_no_event) (auto intro: list_all_visible field_chars_visible)
  ultimately show ?thesis using assms(2) WasmUrlCode by auto
next
  case (GitHubCode repo commit target)
  with assms(1) have "list_all repo_char repo" "list_all commit_char commit"
      "\<not> contains_str ''EVENT_JSON'' repo" "\<not> contains_str ''EVENT_JSON'' commit"
    by (auto split: if_splits)
  then have "log_safe repo" "log_safe commit"
    by (auto intro!: visible_log_safe intro: list_all_visible field_chars_visible)
  with assms(2) GitHubCode show ?thesis by auto
qed

section \<open>Properties\<close>

text \<open>
  Storage deposits of the project module: on every call that returns, what was attached
  plus what was held equals what is paid out plus what is held afterwards, except for
  \<open>delete_project\<close>, which keeps the deposits of the versions it removes.
\<close>

theorem project_deposit_accounting:
  assumes "projects_ok s" "run_project_call c cx s = Inr (t, es)"
  shows "attached_deposit cx + project_deposits s
       = paid_out es + project_deposits t + deposits_kept c cx s"
  using assms by (cases c) (auto dest: project_call_deposits)

text \<open>
  A source the contract stores or runs is safe to write into its logs and to hand to the
  worker's tools: no field holds whitespace, a control character or the event marker, a
  repository or commit cannot be read as an option, and a hash is 64 lowercase hex digits.
\<close>

theorem code_source_safe:
  assumes "code_source_error src = None"
  shows "(\<forall>f \<in> set (source_fields src). log_safe f) \<and>
    (case src of
       GitHubCode repo commit _ \<Rightarrow>
         repo \<noteq> [] \<and> hd repo \<noteq> CHR ''-'' \<and> commit \<noteq> [] \<and> hd commit \<noteq> CHR ''-''
     | WasmUrlCode url hash _ \<Rightarrow>
         starts_with ''https://'' url \<and> length hash = 64 \<and> list_all is_lower_hex hash)"
proof (cases src)
  case (GitHubCode repo commit target)
  with assms have "repo \<noteq> [] \<and> hd repo \<noteq> CHR ''-'' \<and> commit \<noteq> [] \<and> hd commit \<noteq> CHR ''-''"
    by (cases repo; cases commit) (auto simp: starts_with_def split: if_splits)
  with source_fields_safe [OF assms] GitHubCode show ?thesis by simp
next
  case (WasmUrlCode url hash target)
  with assms have "starts_with ''https://'' url \<and> length hash = 64 \<and> list_all is_lower_hex hash"
    by (simp split: if_splits)
  with source_fields_safe [OF assms] WasmUrlCode show ?thesis by simp
qed

text \<open>
  Deleting a project leaves its price behind: the entry of \<open>project_pricing\<close> under the freed
  id survives, so a project created again under that name is a priced one from its first call.
\<close>

theorem recreated_project_is_priced:
  assumes "projects_ok s" "project_pricing s (project_id_of (predecessor cx) name) = Some pr"
    and "delete_project cx name s = Inr (t, es)"
    and "create_project cx' name src t = Inr (v, es')" "predecessor cx' = predecessor cx"
  shows "\<exists>p. projects v (project_id_of (predecessor cx) name) = Some p \<and>
      project_pricing v (project_id_of (predecessor cx) name) = Some pr \<and>
      (\<exists>q. projects s (project_id_of (predecessor cx) name) = Some q \<and> pj_uuid q \<noteq> pj_uuid p)"
proof -
  let ?pid = "project_id_of (predecessor cx) name"
  from assms(3) obtain q where q: "projects s ?pid = Some q"
    and t: "t = drop_project ?pid q (s\<lparr>project_versions := (project_versions s)(pj_uuid q := None)\<rparr>)"
    by (auto simp: delete_project_def run_simps Let_def)
  from assms(4,5) obtain p where v: "projects v ?pid = Some p" "project_pricing v = project_pricing t"
    and p: "pj_uuid p = project_uuid_of (next_project_id t + 1)" "next_project_id t + 1 < 2 ^ 64"
    by (auto simp: create_project_def run_simps Let_def insert_project_def)
  have "next_project_id t = next_project_id s" "project_pricing t = project_pricing s"
    by (simp_all add: t drop_project_def)
  moreover have "pj_uuid q \<in> ran (uuid_of s)" using q by (intro ranI [where a = ?pid]) simp
  ultimately have "pj_uuid q \<noteq> pj_uuid p"
    using next_uuid_fresh(1) [OF projects_okD(4) [OF assms(1)]] p by auto
  with v q assms(2) \<open>project_pricing t = project_pricing s\<close> show ?thesis by auto
qed

section \<open>Witnesses\<close>

definition demo_source :: code_source where
  "demo_source = GitHubCode ''o/app'' ''v1'' None"

definition demo_contract :: contract where
  "demo_contract = new_contract ''o'' None None None"

lemma demo_source_ok: "code_source_error demo_source = None"
  by (simp add: demo_source_def MAX_REPO_LEN_def MAX_COMMIT_LEN_def starts_with_def repo_char_def
      commit_char_def is_ascii_alphanumeric_def build_target_error_def names_an_event_def
      or_else_def)

lemmas demo_simps = eval_simps Let_def demo_contract_def new_contract_def STORAGE_PRICE_PER_BYTE_def

lemma demo_create:
  assumes "projects s ''a/x'' = None" "\<not> paused s" "next_project_id s < 100"
  shows "\<exists>t es p. create_project (call_by ''a'' (10 ^ 24)) ''x'' demo_source s = Inr (t, es) \<and>
    projects t ''a/x'' = Some p \<and> pj_owner p = ''a'' \<and>
    next_project_id t = next_project_id s + 1 \<and> \<not> paused t"
  using assms
  by (simp add: create_project_def eval_simps Let_def demo_source_ok insert_project_def
      name_char_def is_ascii_alphanumeric_def STORAGE_PRICE_PER_BYTE_def
      calculate_project_storage_size_def calculate_version_storage_size_def project_id_of_def
      project_uuid_of_def option_len_def demo_source_def [THEN arg_cong, of source_size])

theorem project_deposit_accounting_witness:
  "\<exists>t es. run_project_call (CreateProject ''x'' demo_source) (call_by ''a'' (10 ^ 24)) demo_contract
      = Inr (t, es) \<and>
     10 ^ 24 + project_deposits demo_contract = paid_out es + project_deposits t"
proof -
  have start: "projects_ok demo_contract" by (simp add: demo_contract_def projects_ok_new)
  have "\<exists>t es. run_project_call (CreateProject ''x'' demo_source) (call_by ''a'' (10 ^ 24))
      demo_contract = Inr (t, es)"
    using demo_create [of demo_contract] by (auto simp: demo_contract_def new_contract_def)
  then obtain t es where run: "run_project_call (CreateProject ''x'' demo_source)
      (call_by ''a'' (10 ^ 24)) demo_contract = Inr (t, es)" by blast
  from project_deposit_accounting [OF start run] run show ?thesis
    by (auto simp: call_by_def)
qed

theorem code_source_safe_witness:
  "code_source_error demo_source = None \<and> log_safe ''o/app'' \<and> log_safe ''v1''"
  using code_source_safe [OF demo_source_ok] demo_source_ok by (simp add: demo_source_def)

lemma pricing_edit_ok:
  assumes "projects_ok s"
  shows "projects_ok (s\<lparr>project_pricing := pr\<rparr>)" (is "projects_ok ?t")
proof (rule projects_okI)
  note parts = projects_okD [OF assms]
  have U: "uuid_of ?t = uuid_of s" by (auto simp: uuid_of_def)
  show "projects_finite ?t" using parts(1) by (simp add: projects_finite_def)
  show "project_rows.consistent ?t" using parts(2) by (simp add: project_rows.consistent_def)
  show "projects_named ?t" using parts(3) by (simp add: projects_named_def)
  show "project_uuids_ok ?t" using parts(4) by (simp add: project_uuids_ok_def counted_uuid_def U)
  show "project_sources_ok ?t" using parts(5) by (simp add: project_sources_ok_def)
qed

theorem recreated_project_is_priced_witness:
  "\<exists>s t es v es' pr p. projects_ok s \<and> project_pricing s ''a/x'' = Some pr \<and>
     delete_project (call_by ''a'' 0) ''x'' s = Inr (t, es) \<and>
     create_project (call_by ''a'' (10 ^ 24)) ''x'' demo_source t = Inr (v, es') \<and>
     projects v ''a/x'' = Some p \<and> project_pricing v ''a/x'' = Some pr"
proof -
  let ?pr = "\<lparr>pp_author_account_id = ''c'', pp_operations = []\<rparr>"
  have ax: "project_id_of (predecessor (call_by ''a'' n)) ''x'' = ''a/x''" for n
    by (simp add: project_id_of_def call_by_def)
  obtain s0 es0 p0 where c0: "create_project (call_by ''a'' (10 ^ 24)) ''x'' demo_source demo_contract
        = Inr (s0, es0)"
    and s0: "projects s0 ''a/x'' = Some p0" "pj_owner p0 = ''a''" "\<not> paused s0" "next_project_id s0 = 1"
    using demo_create [of demo_contract] by (auto simp: demo_contract_def new_contract_def)
  define s where "s = s0\<lparr>project_pricing := [''a/x'' \<mapsto> ?pr]\<rparr>"
  have ok: "projects_ok s"
    unfolding s_def by (intro pricing_edit_ok create_project_ok [OF _ c0])
      (simp add: demo_contract_def projects_ok_new)
  have priced: "project_pricing s (project_id_of (predecessor (call_by ''a'' 0)) ''x'') = Some ?pr"
    unfolding ax by (simp add: s_def)
  obtain t es where d: "delete_project (call_by ''a'' 0) ''x'' s = Inr (t, es)"
    and t: "projects t ''a/x'' = None" "\<not> paused t" "next_project_id t = 1"
    using s0 by (simp add: delete_project_def eval_simps Let_def s_def project_id_of_def
        drop_project_def)
  obtain v es' where c: "create_project (call_by ''a'' (10 ^ 24)) ''x'' demo_source t = Inr (v, es')"
    using demo_create [of t] t by auto
  from recreated_project_is_priced [OF ok priced d c] have
    "\<exists>p. projects v ''a/x'' = Some p \<and> project_pricing v ''a/x'' = Some ?pr"
    unfolding ax by (auto simp: call_by_def)
  with ok priced d c show ?thesis unfolding ax by blast
qed

end
