(* ===== verification/Host_Reference.thy ===== *)
theory Host_Reference
  imports Contract_Types
begin

text \<open>
  What the development relies on of code outside the repository, and a reference instance that
  shows the reliance can be met. \<open>hex_ok\<close> is the documented behaviour of the \<open>hex\<close> crate: decoding
  inverts encoding, decoding ignores the case of the digits, encoding writes lowercase digits, and
  only hex digits decode.
  \<open>reference_externals\<close> implements hex literally; its other fields are simple stand-ins that the
  witnesses evaluate.
\<close>

definition hex_ok :: "externals \<Rightarrow> bool" where
  "hex_ok ext \<longleftrightarrow>
     (\<forall>b. hex_decode ext (hex_encode ext b) = Some b) \<and>
     (\<forall>h h'. map ascii_lower h = map ascii_lower h' \<longrightarrow> hex_decode ext h = hex_decode ext h') \<and>
     (\<forall>b. list_all is_lower_hex (hex_encode ext b)) \<and>
     (\<forall>h b. hex_decode ext h = Some b \<longrightarrow> list_all is_ascii_hexdigit h)"

text \<open>\<open>str::to_lowercase\<close> leaves nothing to lower.\<close>

definition lowercase_ok :: "externals \<Rightarrow> bool" where
  "lowercase_ok ext \<longleftrightarrow> (\<forall>t. to_lowercase ext (to_lowercase ext t) = to_lowercase ext t)"

definition nibble :: "nat \<Rightarrow> char" where
  "nibble n = ''0123456789abcdef'' ! n"

definition nibble_val :: "char \<Rightarrow> nat option" where
  "nibble_val c = map_of (zip ''0123456789abcdef'' [0..<16]) c"

fun plain_hex_encode :: "string \<Rightarrow> string" where
  "plain_hex_encode [] = []"
| "plain_hex_encode (c # s) =
     nibble (of_char c div 16) # nibble (of_char c mod 16) # plain_hex_encode s"

fun decode_pairs :: "string \<Rightarrow> string option" where
  "decode_pairs [] = Some []"
| "decode_pairs [_] = None"
| "decode_pairs (x # y # s) =
     (case (nibble_val x, nibble_val y, decode_pairs s) of
        (Some a, Some b, Some r) \<Rightarrow> Some (char_of (16 * a + b) # r)
      | _ \<Rightarrow> None)"

definition plain_hex_decode :: "string \<Rightarrow> string option" where
  "plain_hex_decode h = decode_pairs (map ascii_lower h)"

definition reference_externals :: externals where
  "reference_externals =
     \<lparr>json_string_field = (\<lambda>body field. Some (Some body)),
      json_to_string = (\<lambda>v. Some v),
      json_from_str = (\<lambda>t. Some t),
      json_null = ''null'',
      json_quote = (\<lambda>t. CHR ''.'' # t @ ''.''),
      parse_ft_action = (\<lambda>m. if m = ''deposit'' then Some DepositBalance
        else if m = ''top'' then Some (TopUpPaymentKey 1 None)
        else if m = ''buy'' then Some (BuySubscription 1 None 0) else None),
      access_to_json = (\<lambda>_. ''access''),
      base64_encode = (\<lambda>b. b),
      hex_encode = plain_hex_encode,
      hex_decode = plain_hex_decode,
      sha256 = (\<lambda>m. m),
      ed25519_verify = (\<lambda>sg msg pk. True),
      ecrecover = (\<lambda>msg sg v. None),
      valid_account = (\<lambda>a. True),
      valid_utf8 = (\<lambda>b. True),
      non_ascii_alphanumeric = (\<lambda>c. False),
      non_ascii_lowercase = (\<lambda>t. t)\<rparr>"

lemma nibble_cases:
  fixes n :: nat
  assumes "n < 16" and "P 0" "P 1" "P 2" "P 3" "P 4" "P 5" "P 6" "P 7" "P 8" "P 9"
    "P 10" "P 11" "P 12" "P 13" "P 14" "P 15"
  shows "P n"
proof -
  from assms(1) have "n \<in> {0, 1, 2, 3, 4, 5, 6, 7, 8, 9, 10, 11, 12, 13, 14, 15}"
    unfolding insert_iff empty_iff by presburger
  with assms(2-) show ?thesis by auto
qed

lemma nibble_facts:
  "n < 16 \<Longrightarrow> nibble_val (nibble n) = Some n"
  "n < 16 \<Longrightarrow> ascii_lower (nibble n) = nibble n"
  "n < 16 \<Longrightarrow> is_lower_hex (nibble n)"
  by (rule nibble_cases [of n],
      simp_all add: nibble_def nibble_val_def ascii_lower_def is_lower_hex_def upt_rec)+

lemma byte_nibbles: "(of_char c :: nat) div 16 < 16" "(of_char c :: nat) mod 16 < 16"
  using nat_of_char_less_256 [of c] by (simp_all add: div_less_iff_less_mult)

lemma plain_hex_lower: "map ascii_lower (plain_hex_encode b) = plain_hex_encode b"
  by (induction b) (simp_all add: nibble_facts byte_nibbles)

lemma decode_encode_pairs: "decode_pairs (plain_hex_encode b) = Some b"
  by (induction b) (simp_all add: nibble_facts byte_nibbles)

lemma nibble_val_lower: "nibble_val d = Some n \<Longrightarrow> is_lower_hex d"
  unfolding nibble_val_def is_lower_hex_def by (drule map_of_SomeD) (erule set_zip_leftD)

lemma lower_of_hexdigit: "is_lower_hex (ascii_lower c) \<Longrightarrow> is_ascii_hexdigit c"
proof (cases "map_of (zip ''ABCDEFGHIJKLMNOPQRSTUVWXYZ'' ''abcdefghijklmnopqrstuvwxyz'') c")
  case None
  then have "ascii_lower c = c" by (simp only: ascii_lower_def option.case)
  moreover assume "is_lower_hex (ascii_lower c)"
  ultimately show ?thesis by (auto simp: is_lower_hex_def is_ascii_hexdigit_def)
next
  case (Some d)
  then have d: "ascii_lower c = d" by (simp only: ascii_lower_def option.case)
  from Some have
    "(c, d) \<in> set (zip ''ABCDEFGHIJKLMNOPQRSTUVWXYZ'' ''abcdefghijklmnopqrstuvwxyz'')"
    by (rule map_of_SomeD)
  then have "d \<in> set ''0123456789abcdef'' \<Longrightarrow> c \<in> set ''0123456789abcdefABCDEF''" by auto
  moreover assume "is_lower_hex (ascii_lower c)"
  ultimately show ?thesis unfolding d is_lower_hex_def is_ascii_hexdigit_def by blast
qed

lemma nibble_val_hex: "nibble_val (ascii_lower c) = Some n \<Longrightarrow> is_ascii_hexdigit c"
  by (intro lower_of_hexdigit nibble_val_lower)

lemma decode_pairs_hex:
  "decode_pairs (map ascii_lower h) = Some b \<Longrightarrow> list_all is_ascii_hexdigit h"
proof (induction "map ascii_lower h" arbitrary: h b rule: decode_pairs.induct)
  case 1
  then show ?case by simp
next
  case (2 x)
  then have "map ascii_lower h = [x]" by simp
  with 2 show ?case by (metis decode_pairs.simps(2) option.distinct(1))
next
  case (3 x y r)
  from "3.hyps"(2) obtain c d h' where h: "h = c # d # h'" "x = ascii_lower c" "y = ascii_lower d"
      "r = map ascii_lower h'"
    by (auto simp: Cons_eq_map_conv)
  from "3.prems" have v: "\<exists>i. nibble_val (ascii_lower c) = Some i" "\<exists>j. nibble_val (ascii_lower d) = Some j"
      "\<exists>b'. decode_pairs (map ascii_lower h') = Some b'"
    by (auto simp: h(1) split: option.splits prod.splits)
  with "3.hyps"(1) [OF h(4)] h(1) show ?case by (auto dest: nibble_val_hex)
qed

lemma hex_ok_reference: "hex_ok reference_externals"
proof -
  have "list_all is_lower_hex (plain_hex_encode b)" for b
    by (induction b) (simp_all add: nibble_facts byte_nibbles)
  then show ?thesis
    by (simp add: hex_ok_def reference_externals_def plain_hex_decode_def plain_hex_lower
        decode_encode_pairs decode_pairs_hex)
qed

lemma ascii_lower_ascii: "is_ascii c \<Longrightarrow> is_ascii (ascii_lower c)"
  by (auto simp: is_ascii_def ascii_lower_def split: option.splits dest!: map_of_SomeD)

lemma lowercase_ok_reference: "lowercase_ok reference_externals"
proof -
  have "list_all is_ascii (map ascii_lower t)" if "list_all is_ascii t" for t
    using that by (auto simp: list_all_iff ascii_lower_ascii)
  then show ?thesis
    by (simp add: lowercase_ok_def to_lowercase_def) (simp add: reference_externals_def)
qed

lemma hex_okD:
  assumes "hex_ok ext"
  shows "hex_decode ext (hex_encode ext b) = Some b"
    and "map ascii_lower h = map ascii_lower h' \<Longrightarrow> hex_decode ext h = hex_decode ext h'"
    and "list_all is_lower_hex (hex_encode ext b)"
    and "hex_decode ext h = Some b \<Longrightarrow> list_all is_ascii_hexdigit h"
  using assms unfolding hex_ok_def by blast+

lemma hex_encode_colon_free:
  assumes "hex_ok ext"
  shows "CHR '':'' \<notin> set (hex_encode ext b)"
proof
  assume "CHR '':'' \<in> set (hex_encode ext b)"
  with hex_okD(3) [OF assms, of b] have "is_lower_hex (CHR '':'')" by (auto simp: list_all_iff)
  then show False by (simp add: is_lower_hex_def)
qed

lemma hex_decode_colon_free:
  assumes "hex_ok ext" "hex_decode ext h = Some b"
  shows "CHR '':'' \<notin> set h"
proof
  assume "CHR '':'' \<in> set h"
  with hex_okD(4) [OF assms] have "is_ascii_hexdigit (CHR '':'')" by (auto simp: list_all_iff)
  then show False by (simp add: is_ascii_hexdigit_def)
qed

end
