(* ===== verification/Wallet_Policy.thy ===== *)
theory Wallet_Policy
  imports Pricing Host_Reference
begin

text \<open>
  Wallet policies (\<open>contract/src/wallet.rs\<close>): parsing and canonicalising wallet keys, the
  signature check, the signed message, and the operations that store, freeze, thaw and delete a
  policy and hand its storage refund on. A policy is controlled by the account that stored it and
  authorised by the wallet's own key; its version makes a signature good for one write while
  the policy lives, and a locked policy cannot be deleted. \<open>hex\<close>, \<open>sha2\<close> and the host's signature
  checks are parameters; what is used of \<open>hex\<close> is the hypothesis \<open>hex_ok\<close>.
\<close>

section \<open>Wallet keys\<close>

definition split_colon :: "string \<Rightarrow> (string \<times> string) option" where
  "split_colon s =
     (if CHR '':'' \<in> set s
      then Some (takeWhile (\<lambda>c. c \<noteq> CHR '':'') s, tl (dropWhile (\<lambda>c. c \<noteq> CHR '':'') s))
      else None)"

definition byte_at :: "string \<Rightarrow> nat \<Rightarrow> nat" where
  "byte_at b i = of_char (b ! i)"

definition parse_wallet_pubkey :: "externals \<Rightarrow> string \<Rightarrow> (string \<times> string) contract_call" where
  "parse_wallet_pubkey ext wallet_pubkey =
     expect (split_colon wallet_pubkey) (Wallet BadPubkey) (\<lambda>(key_type, hex_str).
     ensure (key_type = ''ed25519'' \<or> key_type = ''secp256k1'') (Wallet BadPubkey) (
     expect (hex_decode ext hex_str) (Wallet BadPubkey) (\<lambda>raw_bytes.
     ensure (if key_type = ''ed25519'' then length raw_bytes = 32
             else length raw_bytes = 33 \<and> (byte_at raw_bytes 0 = 2 \<or> byte_at raw_bytes 0 = 3))
       (Wallet BadPubkey) (
     Inr (key_type, raw_bytes)))))"

definition canonical_wallet_pubkey :: "externals \<Rightarrow> string \<Rightarrow> string contract_call" where
  "canonical_wallet_pubkey ext wallet_pubkey =
     bind_call (parse_wallet_pubkey ext wallet_pubkey) (\<lambda>(key_type, raw_bytes).
     Inr (key_type @ '':'' @ hex_encode ext raw_bytes))"

definition lookup_wallet_pubkey :: "externals \<Rightarrow> string \<Rightarrow> string" where
  "lookup_wallet_pubkey ext wallet_pubkey =
     (case split_colon wallet_pubkey of
        None \<Rightarrow> wallet_pubkey
      | Some (key_type, hex_str) \<Rightarrow>
          (if key_type = ''ed25519'' \<or> key_type = ''secp256k1''
           then (case hex_decode ext hex_str of
                   Some raw \<Rightarrow> key_type @ '':'' @ hex_encode ext raw
                 | None \<Rightarrow> wallet_pubkey)
           else wallet_pubkey))"

definition implicit_account_of :: "externals \<Rightarrow> string \<Rightarrow> account contract_call" where
  "implicit_account_of ext wallet_pubkey =
     bind_call (parse_wallet_pubkey ext wallet_pubkey) (\<lambda>(key_type, raw_bytes).
     ensure (key_type = ''ed25519'') (Wallet NoNearAccount) (
     ensure (valid_account ext (hex_encode ext raw_bytes)) (Wallet NoNearAccount) (
     Inr (hex_encode ext raw_bytes))))"

definition compress_key :: "string \<Rightarrow> nat list" where
  "compress_key recovered =
     (if byte_at recovered 63 mod 2 = 0 then 2 else 3) # map of_char (take 32 recovered)"

definition verify_wallet_signature ::
  "externals \<Rightarrow> string \<Rightarrow> string \<Rightarrow> string \<Rightarrow> 'a contract_call \<Rightarrow> 'a contract_call" where
  "verify_wallet_signature ext wallet_pubkey message_hash wallet_signature k =
     bind_call (parse_wallet_pubkey ext wallet_pubkey) (\<lambda>(key_type, pubkey_bytes).
     expect (hex_decode ext wallet_signature) (Wallet BadSignature) (\<lambda>sig_bytes.
     if key_type = ''ed25519'' then
       ensure (length sig_bytes = 64) (Wallet BadSignature) (
       ensure (ed25519_verify ext sig_bytes message_hash pubkey_bytes) (Wallet BadSignature) k)
     else
       ensure (length sig_bytes = 65) (Wallet BadSignature) (
       ensure (byte_at sig_bytes 64 \<le> 1) (Wallet BadSignature) (
       expect (ecrecover ext message_hash (take 64 sig_bytes) (byte_at sig_bytes 64))
         (Wallet BadSignature) (\<lambda>recovered.
       ensure (compress_key recovered = map of_char pubkey_bytes) (Wallet BadSignature) k)))))"

text \<open>What a signature check establishes: some signature by that key over that hash.\<close>

definition signed_by :: "externals \<Rightarrow> string \<Rightarrow> string \<Rightarrow> string \<Rightarrow> bool" where
  "signed_by ext wallet_pubkey message_hash wallet_signature \<longleftrightarrow>
     verify_wallet_signature ext wallet_pubkey message_hash wallet_signature (Inr ()) = Inr ()"

definition policy_store_message ::
  "string \<Rightarrow> nat \<Rightarrow> bool \<Rightarrow> nat \<Rightarrow> string \<Rightarrow> account \<Rightarrow> string" where
  "policy_store_message wallet_pubkey version locked valid_until encrypted_data caller =
     ''store_wallet_policy:v2:'' @ wallet_pubkey @ '':'' @ show_nat version @ '':''
     @ show_nat (if locked then 1 else 0) @ '':'' @ show_nat valid_until @ '':''
     @ show_nat (length encrypted_data) @ '':'' @ encrypted_data @ '':'' @ caller"

section \<open>Rows and the owner index\<close>

definition calculate_wallet_policy_storage_size :: "string \<Rightarrow> string \<Rightarrow> bool \<Rightarrow> nat" where
  "calculate_wallet_policy_storage_size wallet_pubkey encrypted_data with_beneficiary =
     (let key_size = 4 + length wallet_pubkey;
          value_size = (4 + 64) + 4 + length encrypted_data + 1 + 8 + 16;
          beneficiary = (if with_beneficiary
                         then 40 + (1 + 4 + length wallet_pubkey) + (4 + 64) else 0);
          meta = 40 + key_size + 8 + 1 in
      40 + key_size + value_size + meta + beneficiary)"

definition insert_policy :: "string \<Rightarrow> wallet_policy_entry \<Rightarrow> contract \<Rightarrow> contract" where
  "insert_policy k e s =
     s\<lparr>wallet_policies := (wallet_policies s)(k \<mapsto> e),
       wallet_owner_index := index_add (wp_owner e) k (wallet_owner_index s)\<rparr>"

definition rewrite_policy :: "string \<Rightarrow> wallet_policy_entry \<Rightarrow> contract \<Rightarrow> contract" where
  "rewrite_policy k e s = s\<lparr>wallet_policies := (wallet_policies s)(k \<mapsto> e)\<rparr>"

definition drop_policy :: "string \<Rightarrow> wallet_policy_entry \<Rightarrow> contract \<Rightarrow> contract" where
  "drop_policy k e s =
     s\<lparr>wallet_policies := (wallet_policies s)(k := None),
       wallet_owner_index := index_remove (wp_owner e) k (wallet_owner_index s)\<rparr>"

interpretation policy_rows: indexed_store wallet_policies wallet_owner_index "\<lambda>_ e. wp_owner e"
    insert_policy rewrite_policy drop_policy
  by unfold_locales (simp_all add: insert_policy_def rewrite_policy_def drop_policy_def)

definition meta_of :: "contract \<Rightarrow> string \<Rightarrow> policy_meta_row" where
  "meta_of s k = (case policy_meta s k of None \<Rightarrow> default_policy_meta | Some m \<Rightarrow> m)"

section \<open>Operations\<close>

record policy_args =
  pa_wallet_pubkey :: string
  pa_encrypted_data :: string
  pa_wallet_signature :: string
  pa_version :: nat
  pa_locked :: bool
  pa_valid_until :: nat
  pa_storage_refund_to :: "account option"

definition store_wallet_policy :: "externals \<Rightarrow> ctx \<Rightarrow> policy_args \<Rightarrow> contract \<Rightarrow> outcome" where
  "store_wallet_policy ext cx a s =
     assert_not_paused s (
     let caller = predecessor cx; data = pa_encrypted_data a in
     ensure (pa_wallet_pubkey a \<noteq> []) (Wallet EmptyPubkey) (
     ensure (data \<noteq> []) (Wallet EmptyPolicy) (
     ensure (length data \<le> 100000) (Wallet PolicyTooLarge) (
     ensure (pa_wallet_signature a \<noteq> []) (Wallet EmptySignature) (
     bind_call (canonical_wallet_pubkey ext (pa_wallet_pubkey a)) (\<lambda>wallet_pubkey.
     add_u64 (pm_version (meta_of s wallet_pubkey)) 1 (\<lambda>expected.
     ensure (pa_version a = expected) (Wallet WrongPolicyVersion) (
     ensure (block_timestamp cx div 1000000000 \<le> pa_valid_until a) (Wallet SignatureExpired) (
     let message_hash = sha256 ext (policy_store_message wallet_pubkey (pa_version a) (pa_locked a)
           (pa_valid_until a) data caller) in
     verify_wallet_signature ext wallet_pubkey message_hash (pa_wallet_signature a) (
     let item = WalletPolicyItem wallet_pubkey; existing = wallet_policies s wallet_pubkey in
     ensure (existing \<noteq> None \<longrightarrow> pa_storage_refund_to a = None) (Wallet RefundToOnUpdate) (
     let beneficiary = (if existing \<noteq> None then storage_refund_to s item
                        else pa_storage_refund_to a);
         s1 = (case (existing, pa_storage_refund_to a) of
                 (None, Some b) \<Rightarrow> s\<lparr>storage_refund_to := (storage_refund_to s)(item \<mapsto> b)\<rparr>
               | _ \<Rightarrow> s);
         required_deposit = calculate_wallet_policy_storage_size wallet_pubkey data
             (beneficiary \<noteq> None) * STORAGE_PRICE_PER_BYTE;
         refund_to = (case beneficiary of None \<Rightarrow> caller | Some b \<Rightarrow> b);
         entry = (\<lambda>was_frozen. \<lparr>wp_owner = caller, wp_encrypted_data = data,
             wp_frozen = was_frozen, wp_updated_at = block_timestamp cx,
             wp_storage_deposit = required_deposit\<rparr>);
         set_meta = (\<lambda>t. t\<lparr>policy_meta := (policy_meta t)(wallet_pubkey \<mapsto>
             \<lparr>pm_version = pa_version a, pm_locked = pa_locked a\<rparr>)\<rparr>);
         event = (\<lambda>e. EmitSystem (WalletPolicyUpdated wallet_pubkey caller (wp_encrypted_data e)
             (wp_frozen e) (pa_version a) (pa_locked a))) in
     case existing of
       Some old \<Rightarrow>
         ensure (wp_owner old = caller) (Guard OnlyController) (
         add_u128 (attached_deposit cx) (wp_storage_deposit old) (\<lambda>total_available.
         ensure (total_available \<ge> required_deposit) (Guard InsufficientDeposit) (
         Inr (set_meta (rewrite_policy wallet_pubkey (entry (wp_frozen old)) s1),
              transfer_if refund_to (total_available - required_deposit)
                @ [event (entry (wp_frozen old))]))))
     | None \<Rightarrow>
         ensure (attached_deposit cx \<ge> required_deposit) (Guard InsufficientDeposit) (
         Inr (set_meta (insert_policy wallet_pubkey (entry False) s1),
              transfer_if refund_to (attached_deposit cx - required_deposit)
                @ [event (entry False)])))))))))))))"

definition freeze_wallet :: "externals \<Rightarrow> ctx \<Rightarrow> string \<Rightarrow> contract \<Rightarrow> outcome" where
  "freeze_wallet ext cx wallet_pubkey s =
     not_payable cx (
     assert_not_paused s (
     let caller = predecessor cx in
     bind_call (canonical_wallet_pubkey ext wallet_pubkey) (\<lambda>key.
     expect (wallet_policies s key) (Wallet PolicyNotFound) (\<lambda>entry.
     ensure (wp_owner entry = caller) (Guard OnlyController) (
     ensure (\<not> wp_frozen entry) (Wallet AlreadyFrozen) (
     Inr (rewrite_policy key (entry\<lparr>wp_frozen := True, wp_updated_at := block_timestamp cx\<rparr>) s,
          [EmitSystem (WalletFrozenChanged key caller True)])))))))"

definition unfreeze_wallet :: "externals \<Rightarrow> ctx \<Rightarrow> string \<Rightarrow> contract \<Rightarrow> outcome" where
  "unfreeze_wallet ext cx wallet_pubkey s =
     not_payable cx (
     assert_not_paused s (
     let caller = predecessor cx in
     bind_call (canonical_wallet_pubkey ext wallet_pubkey) (\<lambda>key.
     expect (wallet_policies s key) (Wallet PolicyNotFound) (\<lambda>entry.
     ensure (wp_owner entry = caller) (Guard OnlyController) (
     ensure (wp_frozen entry) (Wallet NotFrozen) (
     Inr (rewrite_policy key (entry\<lparr>wp_frozen := False, wp_updated_at := block_timestamp cx\<rparr>) s,
          [EmitSystem (WalletFrozenChanged key caller False)])))))))"

definition delete_wallet_policy :: "externals \<Rightarrow> ctx \<Rightarrow> string \<Rightarrow> contract \<Rightarrow> outcome" where
  "delete_wallet_policy ext cx wallet_pubkey s =
     not_payable cx (
     bind_call (canonical_wallet_pubkey ext wallet_pubkey) (\<lambda>key.
     let caller = predecessor cx in
     expect (wallet_policies s key) (Wallet PolicyNotFound) (\<lambda>entry.
     ensure (wp_owner entry = caller) (Guard OnlyController) (
     ensure (\<not> pm_locked (meta_of s key)) (Wallet PolicyLocked) (
     let item = WalletPolicyItem key;
         refunded_to = (case storage_refund_to s item of None \<Rightarrow> caller | Some b \<Rightarrow> b);
         s1 = drop_policy key entry (s\<lparr>policy_meta := (policy_meta s)(key := None)\<rparr>) in
     Inr (s1\<lparr>storage_refund_to := (storage_refund_to s)(item := None)\<rparr>,
          transfer_if refunded_to (wp_storage_deposit entry)
            @ [EmitSystem (WalletPolicyDeleted key caller refunded_to)]))))))"

fun canonical_item :: "externals \<Rightarrow> storage_item \<Rightarrow> storage_item contract_call" where
  "canonical_item ext (WalletPolicyItem k) =
     bind_call (canonical_wallet_pubkey ext k) (\<lambda>key. Inr (WalletPolicyItem key))"

definition set_storage_refund_to ::
  "externals \<Rightarrow> ctx \<Rightarrow> storage_item \<Rightarrow> account \<Rightarrow> contract \<Rightarrow> outcome" where
  "set_storage_refund_to ext cx item new_refund_to s =
     not_payable cx (
     assert_not_paused s (
     let caller = predecessor cx in
     bind_call (canonical_item ext item) (\<lambda>key.
     expect (storage_refund_to s key) (Wallet NoBeneficiary) (\<lambda>current.
     ensure (caller = current) (Guard OnlyBeneficiary) (
     Inr (s\<lparr>storage_refund_to := (storage_refund_to s)(key \<mapsto> new_refund_to)\<rparr>,
          [EmitSystem (StorageRefundToChanged key new_refund_to)]))))))"

section \<open>Views\<close>

definition has_wallet_policy :: "externals \<Rightarrow> string \<Rightarrow> contract \<Rightarrow> bool" where
  "has_wallet_policy ext wallet_pubkey s \<longleftrightarrow>
     wallet_policies s (lookup_wallet_pubkey ext wallet_pubkey) \<noteq> None"

record wallet_policy_view =
  wv_owner :: account
  wv_encrypted_data :: string
  wv_frozen :: bool
  wv_updated_at :: nat
  wv_storage_refund_to :: "account option"
  wv_storage_deposit :: nat
  wv_version :: nat
  wv_locked :: bool

definition get_wallet_policy ::
  "externals \<Rightarrow> string \<Rightarrow> contract \<Rightarrow> wallet_policy_view option" where
  "get_wallet_policy ext wallet_pubkey s =
     (let key = lookup_wallet_pubkey ext wallet_pubkey in
      case wallet_policies s key of
        None \<Rightarrow> None
      | Some entry \<Rightarrow>
          Some \<lparr>wv_owner = wp_owner entry, wv_encrypted_data = wp_encrypted_data entry,
                wv_frozen = wp_frozen entry, wv_updated_at = wp_updated_at entry,
                wv_storage_refund_to = storage_refund_to s (WalletPolicyItem key),
                wv_storage_deposit = wp_storage_deposit entry,
                wv_version = pm_version (meta_of s key), wv_locked = pm_locked (meta_of s key)\<rparr>)"

section \<open>Runs of the operations\<close>

lemma verify_wallet_signature_Inr [run_simps]:
  "verify_wallet_signature ext pk h sg k = Inr y \<longleftrightarrow> signed_by ext pk h sg \<and> k = Inr y"
  by (auto simp: signed_by_def verify_wallet_signature_def run_simps split: prod.splits if_splits)

lemma verify_wallet_signature_pass:
  "signed_by ext pk h sg \<Longrightarrow> verify_wallet_signature ext pk h sg k = k"
  by (auto simp: signed_by_def verify_wallet_signature_def run_simps eval_simps
      split: prod.splits if_splits sum.splits option.splits)

lemma meta_of_simps [simp]:
  "policy_meta s k = Some m \<Longrightarrow> meta_of s k = m"
  "policy_meta s k = None \<Longrightarrow> meta_of s k = default_policy_meta"
  by (simp_all add: meta_of_def)

text \<open>The beneficiary a store works with, and the state its row ends up in.\<close>

definition store_beneficiary :: "policy_args \<Rightarrow> string \<Rightarrow> contract \<Rightarrow> account option" where
  "store_beneficiary a key s =
     (if wallet_policies s key \<noteq> None then storage_refund_to s (WalletPolicyItem key)
      else pa_storage_refund_to a)"

definition stored_entry :: "ctx \<Rightarrow> policy_args \<Rightarrow> string \<Rightarrow> contract \<Rightarrow> wallet_policy_entry" where
  "stored_entry cx a key s =
     \<lparr>wp_owner = predecessor cx, wp_encrypted_data = pa_encrypted_data a,
      wp_frozen = (case wallet_policies s key of None \<Rightarrow> False | Some old \<Rightarrow> wp_frozen old),
      wp_updated_at = block_timestamp cx,
      wp_storage_deposit = calculate_wallet_policy_storage_size key (pa_encrypted_data a)
        (store_beneficiary a key s \<noteq> None) * STORAGE_PRICE_PER_BYTE\<rparr>"

definition held_for :: "contract \<Rightarrow> string \<Rightarrow> nat" where
  "held_for s key = weight_at wp_storage_deposit (wallet_policies s) key"

lemma store_wallet_policy_run:
  assumes "store_wallet_policy ext cx a s = Inr (t, es)"
  obtains key where
    "canonical_wallet_pubkey ext (pa_wallet_pubkey a) = Inr key" "\<not> paused s"
    "pa_version a = pm_version (meta_of s key) + 1"
    "block_timestamp cx div 1000000000 \<le> pa_valid_until a"
    "signed_by ext key (sha256 ext (policy_store_message key (pa_version a) (pa_locked a)
       (pa_valid_until a) (pa_encrypted_data a) (predecessor cx))) (pa_wallet_signature a)"
    "\<And>old. wallet_policies s key = Some old \<Longrightarrow> wp_owner old = predecessor cx"
    "wallet_policies s key \<noteq> None \<Longrightarrow> pa_storage_refund_to a = None"
    "wallet_policies t = (wallet_policies s)(key \<mapsto> stored_entry cx a key s)"
    "wallet_owner_index t = (if wallet_policies s key = None
       then index_add (predecessor cx) key (wallet_owner_index s) else wallet_owner_index s)"
    "policy_meta t = (policy_meta s)(key \<mapsto> \<lparr>pm_version = pa_version a, pm_locked = pa_locked a\<rparr>)"
    "storage_refund_to t = (if wallet_policies s key = None \<and> pa_storage_refund_to a \<noteq> None
       then (storage_refund_to s)(WalletPolicyItem key := pa_storage_refund_to a)
       else storage_refund_to s)"
    "attached_deposit cx + held_for s key = paid_out es + wp_storage_deposit (stored_entry cx a key s)"
    "\<And>r n. Transfer r n \<in> set es \<Longrightarrow>
       r = (case store_beneficiary a key s of None \<Rightarrow> predecessor cx | Some b \<Rightarrow> b)"
proof -
  from assms obtain key where key: "canonical_wallet_pubkey ext (pa_wallet_pubkey a) = Inr key"
    by (auto simp: store_wallet_policy_def run_simps Let_def)
  show thesis
  proof (cases "wallet_policies s key")
    case None
    with assms key show thesis
      by (intro that [of key])
        (auto simp: store_wallet_policy_def run_simps Let_def insert_policy_def stored_entry_def
          store_beneficiary_def held_for_def weight_at_def transfer_if_def split: option.splits if_splits)
  next
    case (Some old)
    with assms key show thesis
      by (intro that [of key])
        (auto simp: store_wallet_policy_def run_simps Let_def rewrite_policy_def stored_entry_def
          store_beneficiary_def held_for_def weight_at_def transfer_if_def split: option.splits if_splits)
  qed
qed

section \<open>One spelling per key\<close>

lemma split_colon_join: "CHR '':'' \<notin> set a \<Longrightarrow> split_colon (a @ CHR '':'' # b) = Some (a, b)"
proof -
  assume a: "CHR '':'' \<notin> set a"
  then have "takeWhile (\<lambda>c. c \<noteq> CHR '':'') (a @ CHR '':'' # b) = a"
    by (subst takeWhile_append2) auto
  moreover from a have "dropWhile (\<lambda>c. c \<noteq> CHR '':'') (a @ CHR '':'' # b) = CHR '':'' # b"
    by (subst dropWhile_append2) auto
  ultimately show ?thesis by (simp add: split_colon_def)
qed

lemma split_colon_Some:
  "split_colon s = Some (a, b) \<Longrightarrow> s = a @ '':'' @ b \<and> CHR '':'' \<notin> set a"
proof -
  assume *: "split_colon s = Some (a, b)"
  then have c: "CHR '':'' \<in> set s" and a: "a = takeWhile (\<lambda>c. c \<noteq> CHR '':'') s"
    and b: "b = tl (dropWhile (\<lambda>c. c \<noteq> CHR '':'') s)"
    by (auto simp: split_colon_def split: if_splits)
  from c have "dropWhile (\<lambda>c. c \<noteq> CHR '':'') s \<noteq> []" by (auto simp: dropWhile_eq_Nil_conv)
  then have "dropWhile (\<lambda>c. c \<noteq> CHR '':'') s = CHR '':'' # b"
    using hd_dropWhile [of "\<lambda>c. c \<noteq> CHR '':''" s] b
    by (cases "dropWhile (\<lambda>c. c \<noteq> CHR '':'') s") auto
  with a have "s = a @ '':'' @ b"
    by (metis append_Cons append_Nil takeWhile_dropWhile_id)
  moreover have "CHR '':'' \<notin> set a" unfolding a by (auto dest: set_takeWhileD)
  ultimately show ?thesis by simp
qed

lemma parse_run:
  "parse_wallet_pubkey ext k = Inr (kt, raw) \<longleftrightarrow>
     (\<exists>h. split_colon k = Some (kt, h) \<and> hex_decode ext h = Some raw) \<and>
     (kt = ''ed25519'' \<and> length raw = 32 \<or>
      kt = ''secp256k1'' \<and> length raw = 33 \<and> (byte_at raw 0 = 2 \<or> byte_at raw 0 = 3))"
  by (auto simp: parse_wallet_pubkey_def run_simps)

lemma key_type_colon_free:
  "parse_wallet_pubkey ext k = Inr (kt, raw) \<Longrightarrow> CHR '':'' \<notin> set kt"
  by (auto simp: parse_run)

lemma parse_canonical:
  assumes "hex_ok ext" "parse_wallet_pubkey ext k = Inr (kt, raw)"
  shows "parse_wallet_pubkey ext (kt @ '':'' @ hex_encode ext raw) = Inr (kt, raw)"
  using assms(2) split_colon_join [OF key_type_colon_free [OF assms(2)]] hex_okD(1) [OF assms(1)]
  by (auto simp: parse_run)

lemma canonical_run:
  "canonical_wallet_pubkey ext k = Inr c \<longleftrightarrow>
     (\<exists>kt raw. parse_wallet_pubkey ext k = Inr (kt, raw) \<and> c = kt @ '':'' @ hex_encode ext raw)"
  by (auto simp: canonical_wallet_pubkey_def run_simps)

lemma canonical_idem:
  "hex_ok ext \<Longrightarrow> canonical_wallet_pubkey ext k = Inr c \<Longrightarrow> canonical_wallet_pubkey ext c = Inr c"
  unfolding canonical_run using parse_canonical by blast

lemma lookup_canonical: "canonical_wallet_pubkey ext k = Inr c \<Longrightarrow> lookup_wallet_pubkey ext k = c"
  by (auto simp: canonical_run parse_run lookup_wallet_pubkey_def)

lemma canonical_ignores_case:
  assumes "hex_ok ext" "map ascii_lower h = map ascii_lower h'" "CHR '':'' \<notin> set kt"
  shows "canonical_wallet_pubkey ext (kt @ '':'' @ h) = canonical_wallet_pubkey ext (kt @ '':'' @ h')"
  using assms(3) hex_okD(2) [OF assms(1,2)]
  by (simp add: canonical_wallet_pubkey_def parse_wallet_pubkey_def split_colon_join expect_def)

section \<open>The invariant of the policies\<close>

definition wallets_ok :: "externals \<Rightarrow> contract \<Rightarrow> bool" where
  "wallets_ok ext s \<longleftrightarrow>
     finite (dom (wallet_policies s)) \<and> policy_rows.consistent s \<and>
     (\<forall>k. wallet_policies s k \<noteq> None \<longrightarrow>
        canonical_wallet_pubkey ext k = Inr k \<and> 0 < pm_version (meta_of s k)) \<and>
     dom (policy_meta s) = dom (wallet_policies s) \<and>
     (\<forall>k. storage_refund_to s (WalletPolicyItem k) \<noteq> None \<longrightarrow> wallet_policies s k \<noteq> None)"

lemma wallets_ok_new: "wallets_ok ext (new_contract ow op st ver)"
  by (simp add: wallets_ok_def policy_rows.consistent_def new_contract_def)

lemma store_wallet_policy_ok:
  assumes hex: "hex_ok ext" and ok: "wallets_ok ext s"
    and run: "store_wallet_policy ext cx a s = Inr (t, es)"
  shows "wallets_ok ext t"
proof -
  from run obtain key where key: "canonical_wallet_pubkey ext (pa_wallet_pubkey a) = Inr key"
    and ver: "pa_version a = pm_version (meta_of s key) + 1"
    and own: "\<And>old. wallet_policies s key = Some old \<Longrightarrow> wp_owner old = predecessor cx"
    and P: "wallet_policies t = (wallet_policies s)(key \<mapsto> stored_entry cx a key s)"
    and I: "wallet_owner_index t = (if wallet_policies s key = None
       then index_add (predecessor cx) key (wallet_owner_index s) else wallet_owner_index s)"
    and M: "policy_meta t = (policy_meta s)
              (key \<mapsto> \<lparr>pm_version = pa_version a, pm_locked = pa_locked a\<rparr>)"
    and R: "storage_refund_to t = (if wallet_policies s key = None \<and> pa_storage_refund_to a \<noteq> None
       then (storage_refund_to s)(WalletPolicyItem key := pa_storage_refund_to a)
       else storage_refund_to s)"
    by (elim store_wallet_policy_run) (rule that; blast)
  let ?e = "stored_entry cx a key s"
  have e: "wp_owner ?e = predecessor cx" by (simp add: stored_entry_def)
  have cons: "policy_rows.consistent s" using ok by (simp add: wallets_ok_def)
  have "policy_rows.consistent t"
  proof (cases "wallet_policies s key")
    case None
    from policy_rows.insert_consistent [OF cons None, of ?e] show ?thesis
      by (simp add: policy_rows.consistent_def P I None e insert_policy_def)
  next
    case (Some old)
    from policy_rows.rewrite_consistent [OF cons Some, of ?e] own [OF Some] show ?thesis
      by (simp add: policy_rows.consistent_def P I Some e rewrite_policy_def)
  qed
  moreover have "canonical_wallet_pubkey ext key = Inr key" by (rule canonical_idem [OF hex key])
  moreover have "0 < pm_version (meta_of t k)" if "wallet_policies t k \<noteq> None" for k
    using that ok ver by (auto simp: P M wallets_ok_def meta_of_def split: if_splits)
  moreover have "storage_refund_to t (WalletPolicyItem k) \<noteq> None \<Longrightarrow> wallet_policies t k \<noteq> None" for k
    using ok by (auto simp: P R wallets_ok_def split: if_splits)
  ultimately show ?thesis
    using ok unfolding wallets_ok_def P M by (auto simp: P)
qed

lemma frozen_edit_ok:
  assumes ok: "wallets_ok ext s" and e: "wallet_policies s key = Some e" "wp_owner e' = wp_owner e"
  shows "wallets_ok ext (rewrite_policy key e' s)"
proof -
  from ok have "policy_rows.consistent s" by (simp add: wallets_ok_def)
  from policy_rows.rewrite_consistent [OF this e(1), of e'] e
  have "policy_rows.consistent (rewrite_policy key e' s)" by simp
  with ok e(1) show ?thesis
    by (auto simp: wallets_ok_def rewrite_policy_def meta_of_def insert_absorb domI)
qed

lemma freeze_wallet_ok:
  "wallets_ok ext s \<Longrightarrow> freeze_wallet ext cx k s = Inr (t, es) \<Longrightarrow> wallets_ok ext t"
  by (auto simp: freeze_wallet_def run_simps Let_def intro!: frozen_edit_ok)

lemma unfreeze_wallet_ok:
  "wallets_ok ext s \<Longrightarrow> unfreeze_wallet ext cx k s = Inr (t, es) \<Longrightarrow> wallets_ok ext t"
  by (auto simp: unfreeze_wallet_def run_simps Let_def intro!: frozen_edit_ok)

lemma delete_wallet_policy_ok:
  assumes ok: "wallets_ok ext s" and run: "delete_wallet_policy ext cx k s = Inr (t, es)"
  shows "wallets_ok ext t"
proof -
  from run obtain key e where e: "wallet_policies s key = Some e"
    and t: "t = drop_policy key e (s\<lparr>policy_meta := (policy_meta s)(key := None)\<rparr>)
              \<lparr>storage_refund_to := (storage_refund_to s)(WalletPolicyItem key := None)\<rparr>"
    by (auto simp: delete_wallet_policy_def run_simps Let_def)
  from ok have "policy_rows.consistent s" by (simp add: wallets_ok_def)
  from policy_rows.drop_consistent [OF this e] have "policy_rows.consistent t"
    by (simp add: policy_rows.consistent_def t drop_policy_def)
  with ok e show ?thesis
    by (auto simp: wallets_ok_def t drop_policy_def meta_of_def)
qed

lemma set_storage_refund_to_ok:
  assumes ok: "wallets_ok ext s" and run: "set_storage_refund_to ext cx item a s = Inr (t, es)"
  shows "wallets_ok ext t"
proof -
  from run obtain key where key: "storage_refund_to s (WalletPolicyItem key) \<noteq> None"
    and t: "t = s\<lparr>storage_refund_to := (storage_refund_to s)(WalletPolicyItem key \<mapsto> a)\<rparr>"
    by (cases item) (auto simp: set_storage_refund_to_def run_simps Let_def)
  from ok key show ?thesis
    by (auto simp: wallets_ok_def t policy_rows.consistent_def meta_of_def)
qed

datatype wallet_call =
    StoreWalletPolicy policy_args
  | FreezeWallet string
  | UnfreezeWallet string
  | DeleteWalletPolicy string
  | SetStorageRefundTo storage_item account

fun run_wallet_call :: "externals \<Rightarrow> wallet_call \<Rightarrow> ctx \<Rightarrow> contract \<Rightarrow> outcome" where
  "run_wallet_call ext (StoreWalletPolicy a) cx s = store_wallet_policy ext cx a s"
| "run_wallet_call ext (FreezeWallet k) cx s = freeze_wallet ext cx k s"
| "run_wallet_call ext (UnfreezeWallet k) cx s = unfreeze_wallet ext cx k s"
| "run_wallet_call ext (DeleteWalletPolicy k) cx s = delete_wallet_policy ext cx k s"
| "run_wallet_call ext (SetStorageRefundTo i a) cx s = set_storage_refund_to ext cx i a s"

lemmas wallet_calls_ok =
  store_wallet_policy_ok freeze_wallet_ok unfreeze_wallet_ok delete_wallet_policy_ok
  set_storage_refund_to_ok

lemma run_wallet_call_ok:
  "hex_ok ext \<Longrightarrow> wallets_ok ext s \<Longrightarrow> run_wallet_call ext c cx s = Inr (t, es) \<Longrightarrow> wallets_ok ext t"
  by (cases c) (auto intro: wallet_calls_ok)

section \<open>The life of one policy\<close>

lemma wallet_call_version:
  assumes "run_wallet_call ext c cx s = Inr (t, es)" "wallet_policies t k \<noteq> None"
  shows "pm_version (meta_of s k) \<le> pm_version (meta_of t k)"
proof (cases c)
  case (StoreWalletPolicy a)
  with assms(1) have "store_wallet_policy ext cx a s = Inr (t, es)" by simp
  then show ?thesis
    by (elim store_wallet_policy_run) (auto simp: meta_of_def split: option.splits)
next
  case (FreezeWallet w)
  with assms(1) show ?thesis
    by (auto simp: freeze_wallet_def run_simps Let_def rewrite_policy_def meta_of_def)
next
  case (UnfreezeWallet w)
  with assms(1) show ?thesis
    by (auto simp: unfreeze_wallet_def run_simps Let_def rewrite_policy_def meta_of_def)
next
  case (DeleteWalletPolicy w)
  with assms show ?thesis
    by (auto simp: delete_wallet_policy_def run_simps Let_def drop_policy_def meta_of_def split: if_splits)
next
  case (SetStorageRefundTo i a)
  with assms(1) show ?thesis
    by (cases i) (auto simp: set_storage_refund_to_def run_simps Let_def meta_of_def)
qed

text \<open>Calls during which the policy under one key stays in place.\<close>

inductive policy_life :: "externals \<Rightarrow> string \<Rightarrow> contract \<Rightarrow> contract \<Rightarrow> bool" for ext key where
  life_refl: "policy_life ext key s s"
| life_step: "policy_life ext key s t \<Longrightarrow> run_wallet_call ext c cx t = Inr (u, es) \<Longrightarrow>
    wallet_policies u key \<noteq> None \<Longrightarrow> policy_life ext key s u"

lemma policy_life_version:
  "policy_life ext key s t \<Longrightarrow> pm_version (meta_of s key) \<le> pm_version (meta_of t key)"
  by (induction rule: policy_life.induct) (auto dest: wallet_call_version)

lemma store_needs_next_version:
  "store_wallet_policy ext cx a s = Inr (t, es) \<Longrightarrow>
     canonical_wallet_pubkey ext (pa_wallet_pubkey a) = Inr key \<Longrightarrow>
     pa_version a = pm_version (meta_of s key) + 1 \<and>
     meta_of t key = \<lparr>pm_version = pa_version a, pm_locked = pa_locked a\<rparr>"
  by (elim store_wallet_policy_run) (auto simp: meta_of_def)

section \<open>The signed message names one write\<close>

lemma canonical_halves:
  assumes "hex_ok ext" "canonical_wallet_pubkey ext k = Inr k"
  obtains kt h where "k = kt @ CHR '':'' # h" "CHR '':'' \<notin> set kt" "CHR '':'' \<notin> set h"
proof -
  from assms(2) obtain kt raw where p: "parse_wallet_pubkey ext k = Inr (kt, raw)"
    and k: "k = kt @ '':'' @ hex_encode ext raw"
    by (auto simp: canonical_run)
  show thesis
    by (rule that [of kt "hex_encode ext raw"])
      (use k key_type_colon_free [OF p] hex_encode_colon_free [OF assms(1)] in simp_all)
qed

lemma policy_message_tail_inject:
  assumes "show_nat v @ CHR '':'' # show_nat l @ CHR '':'' # show_nat u @ CHR '':'' #
             show_nat (length d) @ CHR '':'' # d @ CHR '':'' # c
         = show_nat v' @ CHR '':'' # show_nat l' @ CHR '':'' # show_nat u' @ CHR '':'' #
             show_nat (length d') @ CHR '':'' # d' @ CHR '':'' # c'"
  shows "v = v' \<and> l = l' \<and> u = u' \<and> d = d' \<and> c = c'"
proof -
  note sep = split_at_separator [OF show_nat_colon_free show_nat_colon_free]
  from sep [OF assms] have v: "show_nat v = show_nat v'"
    and r1: "show_nat l @ CHR '':'' # show_nat u @ CHR '':'' # show_nat (length d) @ CHR '':'' # d
        @ CHR '':'' # c
      = show_nat l' @ CHR '':'' # show_nat u' @ CHR '':'' # show_nat (length d') @ CHR '':'' # d'
        @ CHR '':'' # c'" by blast+
  from sep [OF r1] have l: "show_nat l = show_nat l'"
    and r2: "show_nat u @ CHR '':'' # show_nat (length d) @ CHR '':'' # d @ CHR '':'' # c
      = show_nat u' @ CHR '':'' # show_nat (length d') @ CHR '':'' # d' @ CHR '':'' # c'" by blast+
  from sep [OF r2] have u: "show_nat u = show_nat u'"
    and r3: "show_nat (length d) @ CHR '':'' # d @ CHR '':'' # c
      = show_nat (length d') @ CHR '':'' # d' @ CHR '':'' # c'" by blast+
  from sep [OF r3] have d: "show_nat (length d) = show_nat (length d')"
    and r4: "d @ CHR '':'' # c = d' @ CHR '':'' # c'" by blast+
  from show_nat_inject [OF d] r4 have "d = d' \<and> c = c'" by simp
  with show_nat_inject [OF v] show_nat_inject [OF l] show_nat_inject [OF u] show ?thesis by simp
qed

section \<open>Properties\<close>

text \<open>
  The signed message is unambiguous: two canonical wallet keys and two sets of arguments that
  render to the same bytes are the same key, version, lock, deadline, ciphertext and caller, so a
  signature authorises exactly one write by one account.
\<close>

theorem policy_message_inject:
  assumes "hex_ok ext" "canonical_wallet_pubkey ext k = Inr k" "canonical_wallet_pubkey ext k' = Inr k'"
    and "policy_store_message k v l u d c = policy_store_message k' v' l' u' d' c'"
  shows "k = k' \<and> v = v' \<and> l = l' \<and> u = u' \<and> d = d' \<and> c = c'"
proof -
  obtain kt h where k: "k = kt @ CHR '':'' # h" "CHR '':'' \<notin> set kt" "CHR '':'' \<notin> set h"
    by (rule canonical_halves [OF assms(1,2)])
  obtain kt' h' where k': "k' = kt' @ CHR '':'' # h'" "CHR '':'' \<notin> set kt'" "CHR '':'' \<notin> set h'"
    by (rule canonical_halves [OF assms(1,3)])
  let ?tail = "\<lambda>v l u d c. show_nat v @ CHR '':'' # show_nat (if l then 1 else 0) @ CHR '':'' #
      show_nat u @ CHR '':'' # show_nat (length d) @ CHR '':'' # d @ CHR '':'' # c"
  from assms(4) have "kt @ CHR '':'' # h @ CHR '':'' # ?tail v l u d c
      = kt' @ CHR '':'' # h' @ CHR '':'' # ?tail v' l' u' d' c'"
    by (simp add: policy_store_message_def k(1) k'(1))
  from split_at_separator [OF k(2) k'(2) this] have kt: "kt = kt'"
    and r: "h @ CHR '':'' # ?tail v l u d c = h' @ CHR '':'' # ?tail v' l' u' d' c'" by blast+
  from split_at_separator [OF k(3) k'(3) r] have h: "h = h'"
    and tail: "?tail v l u d c = ?tail v' l' u' d' c'" by blast+
  from policy_message_tail_inject [OF tail]
  have "v = v' \<and> l = l' \<and> u = u' \<and> d = d' \<and> c = c'" by (cases l; cases l') simp_all
  with kt h k(1) k'(1) show ?thesis by simp
qed

text \<open>
  C21. A policy write is authorised twice: by the wallet's own key, over a message that names the
  canonical key, the next version, the lock, the deadline, the ciphertext and the calling account
  (no other key and no other values of these have that message), and by the controller, who must be
  the account that first stored the policy. The stored entry keeps a freeze, the stored version is the
  signed one, what was attached and held is what is refunded and held, and every refund goes to the
  beneficiary: the one recorded for the policy, or at its creation the one named, and the caller
  where there is none.
\<close>

theorem policy_write_authorised:
  assumes "store_wallet_policy ext cx a s = Inr (t, es)" "hex_ok ext"
  shows "\<exists>key e. canonical_wallet_pubkey ext (pa_wallet_pubkey a) = Inr key \<and>
    pa_version a = pm_version (meta_of s key) + 1 \<and>
    block_timestamp cx div 1000000000 \<le> pa_valid_until a \<and>
    signed_by ext key (sha256 ext (policy_store_message key (pa_version a) (pa_locked a)
      (pa_valid_until a) (pa_encrypted_data a) (predecessor cx))) (pa_wallet_signature a) \<and>
    (\<forall>k' v' l' u' d' c'. canonical_wallet_pubkey ext k' = Inr k' \<and> policy_store_message k' v' l' u' d' c' =
        policy_store_message key (pa_version a) (pa_locked a) (pa_valid_until a) (pa_encrypted_data a) (predecessor cx) \<longrightarrow>
       (k', v', l', u', d', c') = (key, pa_version a, pa_locked a, pa_valid_until a, pa_encrypted_data a, predecessor cx)) \<and>
    (\<forall>old. wallet_policies s key = Some old \<longrightarrow>
       wp_owner old = predecessor cx \<and> wp_frozen e = wp_frozen old) \<and>
    wallet_policies t = (wallet_policies s)(key \<mapsto> e) \<and>
    wp_owner e = predecessor cx \<and> wp_encrypted_data e = pa_encrypted_data a \<and>
    meta_of t key = \<lparr>pm_version = pa_version a, pm_locked = pa_locked a\<rparr> \<and>
    attached_deposit cx + held_for s key = paid_out es + wp_storage_deposit e \<and>
    (\<forall>r n. Transfer r n \<in> set es \<longrightarrow>
       r = (case (if wallet_policies s key \<noteq> None then storage_refund_to s (WalletPolicyItem key) else pa_storage_refund_to a) of
              None \<Rightarrow> predecessor cx | Some b \<Rightarrow> b))"
  using assms(1)
proof (rule store_wallet_policy_run)
  fix key
  assume key: "canonical_wallet_pubkey ext (pa_wallet_pubkey a) = Inr key"
    and r: "pa_version a = pm_version (meta_of s key) + 1"
    "block_timestamp cx div 1000000000 \<le> pa_valid_until a"
    "signed_by ext key (sha256 ext (policy_store_message key (pa_version a) (pa_locked a)
       (pa_valid_until a) (pa_encrypted_data a) (predecessor cx))) (pa_wallet_signature a)"
    "\<And>old. wallet_policies s key = Some old \<Longrightarrow> wp_owner old = predecessor cx"
    "wallet_policies t = (wallet_policies s)(key \<mapsto> stored_entry cx a key s)"
    "policy_meta t = (policy_meta s)(key \<mapsto> \<lparr>pm_version = pa_version a, pm_locked = pa_locked a\<rparr>)"
    "attached_deposit cx + held_for s key = paid_out es + wp_storage_deposit (stored_entry cx a key s)"
    and refunds: "\<And>r n. Transfer r n \<in> set es \<Longrightarrow>
       r = (case store_beneficiary a key s of None \<Rightarrow> predecessor cx | Some b \<Rightarrow> b)"
  from canonical_idem [OF assms(2) key] have idem: "canonical_wallet_pubkey ext key = Inr key" .
  have one: "\<forall>k' v' l' u' d' c'. canonical_wallet_pubkey ext k' = Inr k' \<and> policy_store_message k' v' l' u' d' c' =
        policy_store_message key (pa_version a) (pa_locked a) (pa_valid_until a) (pa_encrypted_data a) (predecessor cx) \<longrightarrow>
       (k', v', l', u', d', c') = (key, pa_version a, pa_locked a, pa_valid_until a, pa_encrypted_data a, predecessor cx)"
    using policy_message_inject [OF assms(2) _ idem] by blast
  have rest: "\<forall>old. wallet_policies s key = Some old \<longrightarrow> wp_owner old = predecessor cx \<and> wp_frozen (stored_entry cx a key s) = wp_frozen old"
    "\<forall>r n. Transfer r n \<in> set es \<longrightarrow>
       r = (case (if wallet_policies s key \<noteq> None then storage_refund_to s (WalletPolicyItem key) else pa_storage_refund_to a) of
              None \<Rightarrow> predecessor cx | Some b \<Rightarrow> b)"
    using r(4) refunds unfolding store_beneficiary_def by (auto simp: stored_entry_def)
  show ?thesis
    by (intro exI [of _ key] exI [of _ "stored_entry cx a key s"] conjI)
      (fact key r(1-3,5,7) one rest | simp add: r(6) meta_of_def stored_entry_def)+
qed

text \<open>
  C22. While a policy lives, a stored signature is good for one write: whatever wallet calls follow,
  as long as none of them leaves the key without a policy, the same call is refused.
\<close>

theorem policy_signature_single_use:
  assumes "store_wallet_policy ext cx a s = Inr (t, es)"
    and "canonical_wallet_pubkey ext (pa_wallet_pubkey a) = Inr key"
    and "policy_life ext key t u"
  shows "\<forall>cx' v es'. store_wallet_policy ext cx' a u \<noteq> Inr (v, es')"
proof (intro allI notI)
  fix cx' v es'
  assume "store_wallet_policy ext cx' a u = Inr (v, es')"
  from store_needs_next_version [OF this assms(2)]
  have "pa_version a = pm_version (meta_of u key) + 1" by simp
  moreover from store_needs_next_version [OF assms(1,2)] have "pm_version (meta_of t key) = pa_version a"
    by simp
  moreover note policy_life_version [OF assms(3)]
  ultimately show False by simp
qed

text \<open>
  A delete resets the version: the signature that created the policy can be filed again by the
  same account until its deadline, although the documentation of \<open>PolicyMeta\<close> promises exactly
  one write.
\<close>

theorem policy_signature_reusable_after_delete:
  assumes first: "store_wallet_policy ext cx a s = Inr (t, es)"
    and key: "canonical_wallet_pubkey ext (pa_wallet_pubkey a) = Inr key"
    and fresh: "wallet_policies s key = None"
    and del: "delete_wallet_policy ext dx (pa_wallet_pubkey a) t = Inr (u, es')"
    and again: "predecessor cx' = predecessor cx" "\<not> paused u"
      "block_timestamp cx' div 1000000000 \<le> pa_valid_until a"
      "attached_deposit cx' \<ge> wp_storage_deposit (stored_entry cx a key s)"
    and start: "policy_meta s key = None"
  shows "\<exists>v es''. store_wallet_policy ext cx' a u = Inr (v, es'')"
proof -
  from del key have u: "wallet_policies u key = None" "policy_meta u key = None"
    by (auto simp: delete_wallet_policy_def run_simps Let_def drop_policy_def)
  from u(2) start have m: "meta_of u key = meta_of s key" by simp
  from first key have args: "pa_wallet_pubkey a \<noteq> []" "pa_encrypted_data a \<noteq> []"
      "length (pa_encrypted_data a) \<le> 100000" "pa_wallet_signature a \<noteq> []"
      "pa_version a = pm_version (meta_of s key) + 1" "pm_version (meta_of s key) + 1 < 2 ^ 64"
      "signed_by ext key (sha256 ext (policy_store_message key (pa_version a) (pa_locked a)
         (pa_valid_until a) (pa_encrypted_data a) (predecessor cx))) (pa_wallet_signature a)"
    by (auto simp: store_wallet_policy_def run_simps Let_def)
  from again(4) fresh have "attached_deposit cx' \<ge> calculate_wallet_policy_storage_size key
      (pa_encrypted_data a) (pa_storage_refund_to a \<noteq> None) * STORAGE_PRICE_PER_BYTE"
    by (simp add: stored_entry_def store_beneficiary_def)
  then show ?thesis
    unfolding store_wallet_policy_def assert_not_paused_def ensure_def bind_call_def fits_def Let_def
    using args key again u(1) m by (simp add: verify_wallet_signature_pass)
qed

text \<open>
  A locked policy cannot be removed, a frozen one is thawed only by an explicit unfreeze, and
  nobody but its controller changes it in any way.
\<close>

theorem policy_lock_and_freeze:
  assumes "wallet_policies s k = Some e" "run_wallet_call ext c cx s = Inr (t, es)"
  shows "(pm_locked (meta_of s k) \<longrightarrow> wallet_policies t k \<noteq> None) \<and>
    (wp_frozen e \<longrightarrow> (\<forall>e'. wallet_policies t k = Some e' \<longrightarrow>
        wp_frozen e' \<or> (\<exists>w. c = UnfreezeWallet w \<and> canonical_wallet_pubkey ext w = Inr k))) \<and>
    (predecessor cx \<noteq> wp_owner e \<longrightarrow> wallet_policies t k = Some e \<and> meta_of t k = meta_of s k)"
proof (cases c)
  case (StoreWalletPolicy a)
  with assms(2) have "store_wallet_policy ext cx a s = Inr (t, es)" by simp
  then show ?thesis
    by (elim store_wallet_policy_run) (use assms(1) in \<open>auto simp: stored_entry_def meta_of_def\<close>)
next
  case (FreezeWallet w)
  with assms show ?thesis
    by (auto simp: freeze_wallet_def run_simps Let_def rewrite_policy_def meta_of_def split: if_splits)
next
  case (UnfreezeWallet w)
  with assms show ?thesis
    by (auto simp: unfreeze_wallet_def run_simps Let_def rewrite_policy_def meta_of_def split: if_splits)
next
  case (DeleteWalletPolicy w)
  with assms show ?thesis
    by (auto simp: delete_wallet_policy_def run_simps Let_def drop_policy_def meta_of_def split: if_splits)
next
  case (SetStorageRefundTo i a)
  with assms show ?thesis
    by (cases i) (auto simp: set_storage_refund_to_def run_simps Let_def meta_of_def)
qed

text \<open>
  A stored policy is read back under every spelling of its key: whichever case the hex is
  written in, the view answers with the entry, the version and the lock of the last write.
\<close>

theorem policy_read_back:
  assumes "hex_ok ext" "store_wallet_policy ext cx a s = Inr (t, es)"
    and "pa_wallet_pubkey a = kt @ '':'' @ h" "map ascii_lower h' = map ascii_lower h"
    and "CHR '':'' \<notin> set kt"
  shows "\<exists>view. get_wallet_policy ext (kt @ '':'' @ h') t = Some view \<and>
    wv_owner view = predecessor cx \<and> wv_encrypted_data view = pa_encrypted_data a \<and>
    wv_version view = pa_version a \<and> wv_locked view = pa_locked a"
proof -
  from assms(2) obtain key where key: "canonical_wallet_pubkey ext (pa_wallet_pubkey a) = Inr key"
    and P: "wallet_policies t = (wallet_policies s)(key \<mapsto> stored_entry cx a key s)"
    and M: "policy_meta t = (policy_meta s)
              (key \<mapsto> \<lparr>pm_version = pa_version a, pm_locked = pa_locked a\<rparr>)"
    by (elim store_wallet_policy_run) (rule that; blast)
  from canonical_ignores_case [OF assms(1,4,5)] key assms(3)
  have "lookup_wallet_pubkey ext (kt @ '':'' @ h') = key" by (simp add: lookup_canonical)
  then show ?thesis by (simp add: get_wallet_policy_def Let_def P M meta_of_def stored_entry_def)
qed

section \<open>Witnesses\<close>

definition demo_key :: string where
  "demo_key = ''ed25519:'' @ plain_hex_encode (replicate 32 CHR ''k'')"

definition demo_policy :: policy_args where
  "demo_policy =
     \<lparr>pa_wallet_pubkey = demo_key, pa_encrypted_data = ''x'',
      pa_wallet_signature = plain_hex_encode (replicate 64 CHR ''s''), pa_version = 1,
      pa_locked = False, pa_valid_until = 5, pa_storage_refund_to = None\<rparr>"

definition wallet_start :: contract where
  "wallet_start = new_contract ''o'' None None None"

lemma decode_plain: "hex_decode reference_externals (plain_hex_encode b) = Some b"
  using hex_okD(1) [OF hex_ok_reference, of b] by (simp add: reference_externals_def)

lemma accept_plain: "ed25519_verify reference_externals sg m pk"
  by (simp add: reference_externals_def)

lemma encode_plain: "hex_encode reference_externals = plain_hex_encode"
  by (simp add: reference_externals_def)

lemma demo_parse: "parse_wallet_pubkey reference_externals demo_key
    = Inr (''ed25519'', replicate 32 CHR ''k'')"
  using split_colon_join [of "''ed25519''"] by (simp add: parse_run demo_key_def decode_plain)

lemma demo_canonical: "canonical_wallet_pubkey reference_externals demo_key = Inr demo_key"
  unfolding canonical_run using demo_parse
  by (intro exI [of _ "''ed25519''"] exI [of _ "replicate 32 CHR ''k''"])
    (simp add: encode_plain demo_key_def)

lemma demo_signed: "signed_by reference_externals demo_key h (plain_hex_encode (replicate 64 CHR ''s''))"
  by (simp add: signed_by_def verify_wallet_signature_def demo_parse eval_simps decode_plain
      accept_plain)

lemma length_plain_hex [simp]: "length (plain_hex_encode b) = 2 * length b"
  by (induction b) simp_all

lemma demo_nonempty: "demo_key \<noteq> []" "plain_hex_encode (replicate 64 CHR ''s'') \<noteq> []"
  "length demo_key = 72"
  by (simp_all add: demo_key_def flip: length_greater_0_conv)

lemma demo_store:
  assumes "\<not> paused s" "wallet_policies s demo_key = None" "policy_meta s demo_key = None"
  shows "\<exists>t es. store_wallet_policy reference_externals (call_by ''a'' (10 ^ 24)) demo_policy s
      = Inr (t, es)"
  using assms demo_nonempty
  by (simp add: store_wallet_policy_def eval_simps Let_def demo_policy_def demo_canonical
      default_policy_meta_def verify_wallet_signature_pass demo_signed
      calculate_wallet_policy_storage_size_def STORAGE_PRICE_PER_BYTE_def)

lemma demo_store_start:
  "\<exists>t es. store_wallet_policy reference_externals (call_by ''a'' (10 ^ 24)) demo_policy wallet_start
      = Inr (t, es)"
  by (rule demo_store) (simp_all add: wallet_start_def new_contract_def)

theorem policy_write_authorised_witness:
  "\<exists>t es e. store_wallet_policy reference_externals (call_by ''a'' (10 ^ 24)) demo_policy wallet_start
      = Inr (t, es) \<and> wallet_policies t demo_key = Some e \<and> wp_owner e = ''a''"
proof -
  from demo_store_start obtain t es where run: "store_wallet_policy reference_externals
      (call_by ''a'' (10 ^ 24)) demo_policy wallet_start = Inr (t, es)" by blast
  from policy_write_authorised [OF run hex_ok_reference] run show ?thesis
    by (auto simp: demo_policy_def demo_canonical call_by_def)
qed

theorem policy_signature_single_use_witness:
  "\<exists>t es. store_wallet_policy reference_externals (call_by ''a'' (10 ^ 24)) demo_policy wallet_start
      = Inr (t, es) \<and>
     (\<forall>cx v es'. store_wallet_policy reference_externals cx demo_policy t \<noteq> Inr (v, es'))"
proof -
  from demo_store_start obtain t es where run: "store_wallet_policy reference_externals
      (call_by ''a'' (10 ^ 24)) demo_policy wallet_start = Inr (t, es)" by blast
  have "canonical_wallet_pubkey reference_externals (pa_wallet_pubkey demo_policy) = Inr demo_key"
    by (simp add: demo_policy_def demo_canonical)
  from policy_signature_single_use [OF run this life_refl] run show ?thesis by blast
qed

lemma demo_stored_then_deleted:
  "\<exists>t es u es'. store_wallet_policy reference_externals (call_by ''a'' (10 ^ 24)) demo_policy wallet_start
      = Inr (t, es) \<and> delete_wallet_policy reference_externals (call_by ''a'' 0)
        (pa_wallet_pubkey demo_policy) t = Inr (u, es') \<and> \<not> paused u"
proof -
  from demo_store_start obtain t es where run: "store_wallet_policy reference_externals
      (call_by ''a'' (10 ^ 24)) demo_policy wallet_start = Inr (t, es)" by blast
  from run have "wallet_policies t demo_key \<noteq> None" "\<not> pm_locked (meta_of t demo_key)" "\<not> paused t"
      "\<forall>e. wallet_policies t demo_key = Some e \<longrightarrow> wp_owner e = ''a''"
    by (auto simp: store_wallet_policy_def run_simps Let_def demo_policy_def demo_canonical
        wallet_start_def new_contract_def insert_policy_def meta_of_def call_by_def)
  with run show ?thesis
    by (auto simp: delete_wallet_policy_def eval_simps Let_def demo_policy_def demo_canonical
        drop_policy_def)
qed

theorem policy_signature_reusable_after_delete_witness:
  "\<exists>t es u es' v es''. store_wallet_policy reference_externals (call_by ''a'' (10 ^ 24)) demo_policy
      wallet_start = Inr (t, es) \<and>
     delete_wallet_policy reference_externals (call_by ''a'' 0) (pa_wallet_pubkey demo_policy) t
      = Inr (u, es') \<and>
     store_wallet_policy reference_externals (call_by ''a'' (10 ^ 24)) demo_policy u = Inr (v, es'')"
proof -
  from demo_stored_then_deleted obtain t es u es' where
    run: "store_wallet_policy reference_externals (call_by ''a'' (10 ^ 24)) demo_policy wallet_start
      = Inr (t, es)"
    and del: "delete_wallet_policy reference_externals (call_by ''a'' 0)
        (pa_wallet_pubkey demo_policy) t = Inr (u, es')" and live: "\<not> paused u" by blast
  have "canonical_wallet_pubkey reference_externals (pa_wallet_pubkey demo_policy) = Inr demo_key"
    by (simp add: demo_policy_def demo_canonical)
  from policy_signature_reusable_after_delete [OF run this _ del refl live]
  have "\<exists>v es''. store_wallet_policy reference_externals (call_by ''a'' (10 ^ 24)) demo_policy u
      = Inr (v, es'')"
    by (simp add: wallet_start_def new_contract_def call_by_def stored_entry_def demo_policy_def
        store_beneficiary_def calculate_wallet_policy_storage_size_def STORAGE_PRICE_PER_BYTE_def
        demo_nonempty)
  with run del show ?thesis by blast
qed

theorem policy_message_inject_witness:
  "policy_store_message demo_key 1 True 5 ''x'' ''a'' \<noteq> policy_store_message demo_key 1 True 5 ''x'' ''b''"
  using policy_message_inject [OF hex_ok_reference demo_canonical demo_canonical,
      of 1 True 5 "''x''" "''a''" 1 True 5 "''x''" "''b''"] by auto

definition locked_wallet :: contract where
  "locked_wallet = wallet_start
     \<lparr>wallet_policies := [demo_key \<mapsto>
        \<lparr>wp_owner = ''a'', wp_encrypted_data = ''x'', wp_frozen = False, wp_updated_at = 0,
         wp_storage_deposit = 1\<rparr>],
      policy_meta := [demo_key \<mapsto> \<lparr>pm_version = 1, pm_locked = True\<rparr>]\<rparr>"

theorem policy_lock_and_freeze_witness:
  "\<exists>t es. run_wallet_call reference_externals (FreezeWallet demo_key) (call_by ''a'' 0) locked_wallet
      = Inr (t, es) \<and> wallet_policies t demo_key \<noteq> None"
proof -
  have "\<exists>t es. run_wallet_call reference_externals (FreezeWallet demo_key) (call_by ''a'' 0)
      locked_wallet = Inr (t, es)"
    by (simp add: freeze_wallet_def eval_simps Let_def demo_canonical locked_wallet_def
        wallet_start_def new_contract_def)
  then obtain t es where run: "run_wallet_call reference_externals (FreezeWallet demo_key)
      (call_by ''a'' 0) locked_wallet = Inr (t, es)" by blast
  have "\<exists>e. wallet_policies locked_wallet demo_key = Some e" "pm_locked (meta_of locked_wallet demo_key)"
    by (simp_all add: locked_wallet_def meta_of_def)
  with policy_lock_and_freeze [OF _ run] run show ?thesis by blast
qed

theorem policy_read_back_witness:
  "\<exists>t es view. store_wallet_policy reference_externals (call_by ''a'' (10 ^ 24)) demo_policy wallet_start
      = Inr (t, es) \<and> get_wallet_policy reference_externals demo_key t = Some view \<and>
     wv_version view = 1"
proof -
  from demo_store_start obtain t es where run: "store_wallet_policy reference_externals
      (call_by ''a'' (10 ^ 24)) demo_policy wallet_start = Inr (t, es)" by blast
  have "pa_wallet_pubkey demo_policy = ''ed25519'' @ '':'' @ plain_hex_encode (replicate 32 CHR ''k'')"
    by (simp add: demo_policy_def demo_key_def)
  from policy_read_back [OF hex_ok_reference run this refl] run show ?thesis
    by (auto simp: demo_key_def demo_policy_def)
qed

end
