(* ===== verification/Secrets.thy ===== *)
theory Secrets
  imports Projects Wallet_Policy
begin

text \<open>
  Secrets (\<open>contract/src/secrets.rs\<close>, with the nonce floors of \<open>contract/src/payment.rs\<close> and the
  nonce views of \<open>contract/src/views.rs\<close>). A secret is a ciphertext filed under an accessor, a
  profile and an owner. Every door goes through one canonical spelling, one set of bounds on the
  access condition and one store routine; an agent's secret is authorised by the agent's key
  over a message that names all it decides. Payment keys are secrets that are written once, at a
  nonce the owner has never held before.
\<close>

section \<open>Spellings and signed messages\<close>

fun system_binding :: "system_secret_type \<Rightarrow> string" where
  "system_binding PaymentKey = ''PaymentKey''"

fun accessor_binding :: "secret_accessor \<Rightarrow> string" where
  "accessor_binding (ProjectAcc project_id) = project_id"
| "accessor_binding (RepoAcc repo branch) =
     ''repo:'' @ repo @ '':'' @ (case branch of None \<Rightarrow> [] | Some b \<Rightarrow> b)"
| "accessor_binding (WasmHashAcc hash) = ''wasm:'' @ hash"
| "accessor_binding (SystemAcc kind) = ''system:'' @ system_binding kind"

fun canonical_accessor :: "externals \<Rightarrow> secret_accessor \<Rightarrow> secret_accessor" where
  "canonical_accessor ext (WasmHashAcc hash) = WasmHashAcc (to_lowercase ext hash)"
| "canonical_accessor ext other = other"

definition is_implicit_account_name :: "string \<Rightarrow> bool" where
  "is_implicit_account_name name \<longleftrightarrow> length name = 64 \<and> list_all is_lower_hex name"

fun canonical_profile :: "secret_accessor \<Rightarrow> string \<Rightarrow> string" where
  "canonical_profile (SystemAcc PaymentKey) profile =
     (case parse_u32 profile of Some nonce \<Rightarrow> show_nat nonce | None \<Rightarrow> profile)"
| "canonical_profile _ profile = profile"

definition assert_profile_is_unambiguous :: "string \<Rightarrow> 'a contract_call \<Rightarrow> 'a contract_call" where
  "assert_profile_is_unambiguous profile k =
     ensure (CHR '':'' \<notin> set profile) (Secret AmbiguousProfile) k"

definition secret_delete_message ::
  "string \<Rightarrow> secret_accessor \<Rightarrow> string \<Rightarrow> account \<Rightarrow> string" where
  "secret_delete_message agent_pubkey accessor profile payer =
     (let binding = accessor_binding accessor in
      ''delete_agent_secret:v1:'' @ agent_pubkey @ '':'' @ show_nat (length binding) @ '':''
      @ binding @ '':'' @ profile @ '':'' @ payer)"

definition secret_store_message ::
  "externals \<Rightarrow> string \<Rightarrow> secret_accessor \<Rightarrow> string \<Rightarrow> string \<Rightarrow> account \<Rightarrow> account option
     \<Rightarrow> access_condition \<Rightarrow> string" where
  "secret_store_message ext agent_pubkey accessor profile encrypted payer vault_id access =
     (let binding = accessor_binding accessor in
      ''store_secrets_for:v1:'' @ agent_pubkey @ '':'' @ show_nat (length binding) @ '':''
      @ binding @ '':'' @ profile @ '':'' @ encrypted @ '':'' @ payer @ '':''
      @ (case vault_id of None \<Rightarrow> [] | Some v \<Rightarrow> v) @ '':'' @ access_to_json ext access)"

section \<open>Bounds on conditions and profiles\<close>

definition MAX_ACCOUNT_PATTERNS :: nat where "MAX_ACCOUNT_PATTERNS = 16"
definition MAX_ACCOUNT_PATTERN_BYTES :: nat where "MAX_ACCOUNT_PATTERN_BYTES = 4096"
definition MAX_CHAIN_READ_LEAVES :: nat where "MAX_CHAIN_READ_LEAVES = 5"
definition PROFILE_MAX_BYTES :: nat where "PROFILE_MAX_BYTES = 64"

type_synonym leaf_count = "nat \<times> nat \<times> nat"

fun add_counts :: "leaf_count \<Rightarrow> leaf_count \<Rightarrow> leaf_count" where
  "add_counts (l, b, c) (l2, b2, c2) = (l + l2, b + b2, c + c2)"

fun condition_leaf_count :: "access_condition \<Rightarrow> leaf_count" where
  "condition_leaf_count (AccountPattern pattern) = (1, length pattern, 0)"
| "condition_leaf_count (NearBalance _ _) = (0, 0, 1)"
| "condition_leaf_count (FtBalance _ _ _) = (0, 0, 1)"
| "condition_leaf_count (NftOwned _ _) = (0, 0, 1)"
| "condition_leaf_count (DaoMember _ _) = (0, 0, 1)"
| "condition_leaf_count (Logic _ conditions) =
     foldl add_counts (0, 0, 0) (map condition_leaf_count conditions)"
| "condition_leaf_count (NotCond condition) = condition_leaf_count condition"
| "condition_leaf_count (Predecessor condition) = condition_leaf_count condition"
| "condition_leaf_count AllowAll = (0, 0, 0)"
| "condition_leaf_count (Whitelist _) = (0, 0, 0)"
| "condition_leaf_count (ValidUntil _) = (0, 0, 0)"
| "condition_leaf_count (WasmHash _) = (0, 0, 0)"

fun wasm_hash_leaves_ok :: "access_condition \<Rightarrow> bool" where
  "wasm_hash_leaves_ok (WasmHash hash) \<longleftrightarrow> length hash = 64 \<and> list_all is_lower_hex hash"
| "wasm_hash_leaves_ok (Logic _ conditions) \<longleftrightarrow> (\<forall>c \<in> set conditions. wasm_hash_leaves_ok c)"
| "wasm_hash_leaves_ok (NotCond condition) \<longleftrightarrow> wasm_hash_leaves_ok condition"
| "wasm_hash_leaves_ok (Predecessor condition) \<longleftrightarrow> wasm_hash_leaves_ok condition"
| "wasm_hash_leaves_ok _ \<longleftrightarrow> True"

fun logic_is_not_empty :: "access_condition \<Rightarrow> bool" where
  "logic_is_not_empty (Logic _ conditions) \<longleftrightarrow>
     conditions \<noteq> [] \<and> (\<forall>c \<in> set conditions. logic_is_not_empty c)"
| "logic_is_not_empty (NotCond condition) \<longleftrightarrow> logic_is_not_empty condition"
| "logic_is_not_empty (Predecessor condition) \<longleftrightarrow> logic_is_not_empty condition"
| "logic_is_not_empty _ \<longleftrightarrow> True"

definition assert_condition_bounds :: "access_condition \<Rightarrow> 'a contract_call \<Rightarrow> 'a contract_call" where
  "assert_condition_bounds access k =
     (case condition_leaf_count access of
        (leaves, bytes, chain_reads) \<Rightarrow>
          ensure (leaves \<le> MAX_ACCOUNT_PATTERNS) (Shape TooManyPatterns) (
          ensure (bytes \<le> MAX_ACCOUNT_PATTERN_BYTES) (Shape PatternsTooLong) (
          ensure (chain_reads \<le> MAX_CHAIN_READ_LEAVES) (Shape TooManyChainReads) (
          ensure (wasm_hash_leaves_ok access) (Shape WasmHashLeafShape) (
          ensure (logic_is_not_empty access) (Shape EmptyLogic) k)))))"

datatype profile_error = ProfileBytes nat | ProfileContains string

definition profile_shape_error :: "externals \<Rightarrow> string \<Rightarrow> profile_error option" where
  "profile_shape_error ext profile =
     (let n = length profile in
      if \<not> (1 \<le> n \<and> n \<le> PROFILE_MAX_BYTES) then Some (ProfileBytes n)
      else case find (\<lambda>c. \<not> (is_alphanumeric ext c \<or> c = ''-'' \<or> c = ''_'')) (utf8_chars profile) of
             None \<Rightarrow> None
           | Some c \<Rightarrow> Some (ProfileContains c))"

section \<open>Payment-key nonce floors\<close>

definition nonce_floor_entry_bytes :: "account \<Rightarrow> nat" where
  "nonce_floor_entry_bytes owner = 40 + 1 + 4 + length owner + 4"

definition payment_key_nonce_floor :: "contract \<Rightarrow> account \<Rightarrow> nat" where
  "payment_key_nonce_floor s owner = get0 (payment_key_nonce_floors s) owner"

definition raise_payment_key_nonce_floor :: "account \<Rightarrow> nat \<Rightarrow> contract \<Rightarrow> contract" where
  "raise_payment_key_nonce_floor owner nonce s =
     (if (case payment_key_nonce_floors s owner of None \<Rightarrow> True | Some fl \<Rightarrow> fl < nonce)
      then s\<lparr>payment_key_nonce_floors := (payment_key_nonce_floors s)(owner \<mapsto> nonce)\<rparr>
      else s)"

definition nonce_floor_deposit :: "contract \<Rightarrow> account \<Rightarrow> nat" where
  "nonce_floor_deposit s owner =
     (if payment_key_nonce_floors s owner \<noteq> None then 0
      else nonce_floor_entry_bytes owner * STORAGE_PRICE_PER_BYTE)"

section \<open>Rows and the owner index\<close>

definition insert_secret :: "secret_key \<Rightarrow> secret_profile \<Rightarrow> contract \<Rightarrow> contract" where
  "insert_secret k p s =
     s\<lparr>secrets_storage := (secrets_storage s)(k \<mapsto> p),
       user_secrets_index := index_add (sk_owner k) k (user_secrets_index s)\<rparr>"

definition rewrite_secret :: "secret_key \<Rightarrow> secret_profile \<Rightarrow> contract \<Rightarrow> contract" where
  "rewrite_secret k p s = s\<lparr>secrets_storage := (secrets_storage s)(k \<mapsto> p)\<rparr>"

definition drop_secret :: "secret_key \<Rightarrow> secret_profile \<Rightarrow> contract \<Rightarrow> contract" where
  "drop_secret k p s =
     s\<lparr>secrets_storage := (secrets_storage s)(k := None),
       user_secrets_index := index_remove (sk_owner k) k (user_secrets_index s)\<rparr>"

interpretation secret_rows: indexed_store secrets_storage user_secrets_index "\<lambda>k _. sk_owner k"
    insert_secret rewrite_secret drop_secret
  by unfold_locales (simp_all add: insert_secret_def rewrite_secret_def drop_secret_def)

fun accessor_size :: "secret_accessor \<Rightarrow> nat" where
  "accessor_size (RepoAcc repo branch) =
     1 + 4 + length repo + 1 + (case branch of None \<Rightarrow> 0 | Some b \<Rightarrow> 4 + length b)"
| "accessor_size (WasmHashAcc hash) = 1 + 4 + length hash"
| "accessor_size (ProjectAcc project_id) = 1 + 4 + length project_id"
| "accessor_size (SystemAcc _) = 1 + 1"

definition calculate_secret_storage_size ::
  "externals \<Rightarrow> secret_key \<Rightarrow> string \<Rightarrow> access_condition \<Rightarrow> bool \<Rightarrow> nat" where
  "calculate_secret_storage_size ext key encrypted_secrets access vault_bound =
     (let key_size = accessor_size (sk_accessor key) + 4 + length (sk_profile key)
            + 4 + length (sk_owner key);
          encrypted_size = 4 + length encrypted_secrets;
          access_size = length (access_to_json ext access) + 10;
          value_size = encrypted_size + access_size + (8 + 8 + 16);
          binding_overhead = (if vault_bound then 40 + key_size + 4 + 64 else 0) in
      40 + key_size + value_size + 64 + binding_overhead)"

section \<open>The store routine\<close>

fun assert_accessor :: "secret_accessor \<Rightarrow> string \<Rightarrow> contract \<Rightarrow> 'a contract_call \<Rightarrow> 'a contract_call" where
  "assert_accessor (RepoAcc repo branch) profile s k =
     ensure (repo \<noteq> []) (Secret RepoEmpty) (
     case branch of
       None \<Rightarrow> k
     | Some b \<Rightarrow>
         ensure (b \<noteq> []) (Secret BranchEmpty) (
         ensure (length b \<le> 255) (Secret BranchTooLong) k))"
| "assert_accessor (WasmHashAcc hash) profile s k =
     ensure (hash \<noteq> []) (Secret HashEmpty) (
     ensure (length hash = 64) (Secret HashLength) (
     ensure (list_all is_ascii_hexdigit hash) (Secret HashNotHex) k))"
| "assert_accessor (ProjectAcc project_id) profile s k =
     ensure (project_id \<noteq> []) (Secret ProjectIdEmpty) (
     ensure (CHR ''/'' \<in> set project_id) (Secret ProjectIdShape) (
     ensure (projects s project_id \<noteq> None) (Secret NoSuchProject) k))"
| "assert_accessor (SystemAcc PaymentKey) profile s k =
     expect (parse_u32 profile) (Secret NonceNotANumber) (\<lambda>nonce.
     ensure (nonce \<ge> 1) (Secret NonceReserved) (
     ensure (nonce \<le> 2147483647) (Secret NonceTooLarge) k))"

definition is_payment_key :: "secret_accessor \<Rightarrow> bool" where
  "is_payment_key accessor \<longleftrightarrow> accessor = SystemAcc PaymentKey"

text \<open>The steps of \<open>store_secrets_internal\<close> after its validation, in the order it takes them.\<close>

definition nonce_charge :: "secret_accessor \<Rightarrow> string \<Rightarrow> account \<Rightarrow> contract \<Rightarrow> nat contract_call" where
  "nonce_charge accessor profile owner s =
     (if is_payment_key accessor
      then expect (parse_u32 profile) (Secret NonceNotANumber) (\<lambda>nonce.
           ensure (payment_key_nonce_floor s owner < nonce) (Secret NonceUsed) (
           Inr (nonce_floor_deposit s owner)))
      else Inr 0)"

definition settle_secret_deposit ::
  "ctx \<Rightarrow> account \<Rightarrow> secret_profile option \<Rightarrow> nat \<Rightarrow> nat \<Rightarrow> effect list contract_call" where
  "settle_secret_deposit cx payer existing required_deposit floor_deposit =
     (case existing of
        Some old \<Rightarrow>
          add_u128 (attached_deposit cx) (sp_storage_deposit old) (\<lambda>total_available.
          ensure (total_available \<ge> required_deposit) (Guard InsufficientDeposit) (
          Inr (transfer_if payer (total_available - required_deposit))))
      | None \<Rightarrow>
          add_u128 required_deposit floor_deposit (\<lambda>charged.
          ensure (attached_deposit cx \<ge> charged) (Guard InsufficientDeposit) (
          Inr (transfer_if payer (attached_deposit cx - charged)))))"

definition write_secret ::
  "secret_key \<Rightarrow> secret_profile \<Rightarrow> account option \<Rightarrow> contract \<Rightarrow> contract" where
  "write_secret key profile_data vault_id s =
     (let s1 = (if secrets_storage s key = None then insert_secret key profile_data s
                else rewrite_secret key profile_data s) in
      case vault_id of
        None \<Rightarrow> s1
      | Some v \<Rightarrow> s1\<lparr>secret_vault_bindings := (secret_vault_bindings s1)(key \<mapsto> v)\<rparr>)"

definition announce_payment_key ::
  "secret_key \<Rightarrow> string \<Rightarrow> contract \<Rightarrow> outcome" where
  "announce_payment_key key encrypted s =
     (if is_payment_key (sk_accessor key)
      then expect (parse_u32 (sk_profile key)) (Secret NonceNotANumber) (\<lambda>nonce.
           Inr (raise_payment_key_nonce_floor (sk_owner key) nonce s,
                [EmitSystem (TopUpPaymentKeyEvent (replicate 32 CHR 0x00) (sk_owner key) nonce 0
                   encrypted)]))
      else Inr (s, []))"

definition store_secrets_internal ::
  "externals \<Rightarrow> ctx \<Rightarrow> account \<Rightarrow> account \<Rightarrow> secret_accessor \<Rightarrow> string \<Rightarrow> string
     \<Rightarrow> access_condition \<Rightarrow> account option \<Rightarrow> contract \<Rightarrow> outcome" where
  "store_secrets_internal ext cx owner payer raw_accessor raw_profile encrypted access vault_id s =
     (let accessor = canonical_accessor ext raw_accessor;
          profile = canonical_profile accessor raw_profile in
      assert_condition_bounds access (
      assert_accessor accessor profile s (
      ensure (profile_shape_error ext profile = None) (Shape ProfileShape) (
      ensure (encrypted \<noteq> []) (Secret EmptySecret) (
      ensure (\<not> is_implicit_account_name profile \<or> profile = owner) (Secret AgentProfileOfOther) (
      let key = \<lparr>sk_accessor = accessor, sk_profile = profile, sk_owner = owner\<rparr>;
          vault_bound = (vault_id \<noteq> None \<or> secret_vault_bindings s key \<noteq> None);
          required_deposit = calculate_secret_storage_size ext key encrypted access vault_bound
            * STORAGE_PRICE_PER_BYTE;
          existing = secrets_storage s key in
      ensure (existing \<noteq> None \<longrightarrow> \<not> is_payment_key accessor) (Secret KeyExists) (
      bind_call (nonce_charge accessor profile owner s) (\<lambda>floor_deposit.
      bind_call (settle_secret_deposit cx payer existing required_deposit floor_deposit) (\<lambda>refunds.
      let profile_data = \<lparr>sp_encrypted_secrets = encrypted, sp_access = access,
            sp_created_at = block_timestamp cx, sp_updated_at = block_timestamp cx,
            sp_storage_deposit = required_deposit\<rparr> in
      bind_call (announce_payment_key key encrypted (write_secret key profile_data vault_id s))
        (\<lambda>(t, events). Inr (t, refunds @ events)))))))))))"

definition delete_secrets_internal ::
  "secret_key \<Rightarrow> account \<Rightarrow> account \<Rightarrow> contract \<Rightarrow> outcome" where
  "delete_secrets_internal key owner refund_to s =
     expect (secrets_storage s key) (Secret SecretNotFound) (\<lambda>profile_data.
     Inr (s\<lparr>secrets_storage := (secrets_storage s)(key := None),
            secret_vault_bindings := (secret_vault_bindings s)(key := None),
            user_secrets_index := index_remove owner key (user_secrets_index s)\<rparr>,
          transfer_if refund_to (sp_storage_deposit profile_data)))"

section \<open>Operations\<close>

definition store_secrets ::
  "externals \<Rightarrow> ctx \<Rightarrow> secret_accessor \<Rightarrow> string \<Rightarrow> string \<Rightarrow> access_condition \<Rightarrow> account option
     \<Rightarrow> contract \<Rightarrow> outcome" where
  "store_secrets ext cx accessor profile encrypted access vault_id s =
     store_secrets_internal ext cx (predecessor cx) (predecessor cx) accessor profile encrypted
       access vault_id s"

record agent_args =
  ag_pubkey :: string
  ag_accessor :: secret_accessor
  ag_profile :: string
  ag_encrypted :: string
  ag_access :: access_condition
  ag_vault_id :: "account option"
  ag_signature :: string

definition store_agent_secret :: "externals \<Rightarrow> ctx \<Rightarrow> agent_args \<Rightarrow> contract \<Rightarrow> outcome" where
  "store_agent_secret ext cx a s =
     (let payer = predecessor cx in
      bind_call (implicit_account_of ext (ag_pubkey a)) (\<lambda>owner.
      let accessor = canonical_accessor ext (ag_accessor a);
          profile = canonical_profile accessor (ag_profile a) in
      ensure (profile_shape_error ext profile = None) (Shape ProfileShape) (
      assert_profile_is_unambiguous profile (
      ensure (case accessor of RepoAcc _ _ \<Rightarrow> False | _ \<Rightarrow> True) (Secret AccessorNotForAgents) (
      ensure (case accessor of SystemAcc _ \<Rightarrow> False | _ \<Rightarrow> True) (Secret AccessorNotForAgents) (
      let message_hash = sha256 ext (secret_store_message ext (ag_pubkey a) accessor profile
            (ag_encrypted a) payer (ag_vault_id a) (ag_access a)) in
      verify_wallet_signature ext (ag_pubkey a) message_hash (ag_signature a) (
      store_secrets_internal ext cx owner payer accessor profile (ag_encrypted a) (ag_access a)
        (ag_vault_id a) s)))))))"

definition delete_agent_secret ::
  "externals \<Rightarrow> ctx \<Rightarrow> string \<Rightarrow> secret_accessor \<Rightarrow> string \<Rightarrow> string \<Rightarrow> contract \<Rightarrow> outcome" where
  "delete_agent_secret ext cx agent_pubkey raw_accessor raw_profile wallet_signature s =
     not_payable cx (
     let payer = predecessor cx in
     bind_call (implicit_account_of ext agent_pubkey) (\<lambda>owner.
     let accessor = canonical_accessor ext raw_accessor;
         profile = canonical_profile accessor raw_profile in
     assert_profile_is_unambiguous profile (
     ensure (case accessor of ProjectAcc _ \<Rightarrow> True | WasmHashAcc _ \<Rightarrow> True | _ \<Rightarrow> False)
       (Secret AccessorNotForAgents) (
     verify_wallet_signature ext agent_pubkey
       (sha256 ext (secret_delete_message agent_pubkey accessor profile payer)) wallet_signature (
     delete_secrets_internal \<lparr>sk_accessor = accessor, sk_profile = profile, sk_owner = owner\<rparr>
       owner payer s)))))"

definition delete_secrets ::
  "externals \<Rightarrow> ctx \<Rightarrow> secret_accessor \<Rightarrow> string \<Rightarrow> contract \<Rightarrow> outcome" where
  "delete_secrets ext cx raw_accessor raw_profile s =
     not_payable cx (
     let caller = predecessor cx;
         accessor = canonical_accessor ext raw_accessor;
         profile = canonical_profile accessor raw_profile in
     delete_secrets_internal \<lparr>sk_accessor = accessor, sk_profile = profile, sk_owner = caller\<rparr>
       caller caller s)"

definition unbind_secret_vault ::
  "externals \<Rightarrow> ctx \<Rightarrow> secret_accessor \<Rightarrow> string \<Rightarrow> contract \<Rightarrow> outcome" where
  "unbind_secret_vault ext cx raw_accessor raw_profile s =
     not_payable cx (
     let accessor = canonical_accessor ext raw_accessor;
         profile = canonical_profile accessor raw_profile;
         key = \<lparr>sk_accessor = accessor, sk_profile = profile, sk_owner = predecessor cx\<rparr> in
     ensure (secrets_storage s key \<noteq> None) (Secret SecretNotFound) (
     Inr (s\<lparr>secret_vault_bindings := (secret_vault_bindings s)(key := None)\<rparr>, [])))"

definition update_access ::
  "externals \<Rightarrow> ctx \<Rightarrow> secret_accessor \<Rightarrow> string \<Rightarrow> access_condition \<Rightarrow> contract \<Rightarrow> outcome" where
  "update_access ext cx raw_accessor raw_profile new_access s =
     (let caller = predecessor cx;
          accessor = canonical_accessor ext raw_accessor;
          profile = canonical_profile accessor raw_profile;
          key = \<lparr>sk_accessor = accessor, sk_profile = profile, sk_owner = caller\<rparr> in
      expect (secrets_storage s key) (Secret SecretNotFound) (\<lambda>profile_data.
      assert_condition_bounds new_access (
      let required_deposit = calculate_secret_storage_size ext key
            (sp_encrypted_secrets profile_data) new_access (secret_vault_bindings s key \<noteq> None)
            * STORAGE_PRICE_PER_BYTE in
      add_u128 (attached_deposit cx) (sp_storage_deposit profile_data) (\<lambda>total_available.
      ensure (total_available \<ge> required_deposit) (Guard InsufficientDeposit) (
      Inr (rewrite_secret key (profile_data\<lparr>sp_access := new_access,
             sp_updated_at := block_timestamp cx, sp_storage_deposit := required_deposit\<rparr>) s,
           transfer_if caller (total_available - required_deposit)))))))"

section \<open>Views\<close>

definition estimate_storage_cost ::
  "externals \<Rightarrow> secret_accessor \<Rightarrow> string \<Rightarrow> account \<Rightarrow> string \<Rightarrow> access_condition \<Rightarrow> account option
     \<Rightarrow> contract \<Rightarrow> nat contract_call" where
  "estimate_storage_cost ext raw_accessor raw_profile owner encrypted access vault_id s =
     assert_condition_bounds access (
     let accessor = canonical_accessor ext raw_accessor;
         profile = canonical_profile accessor raw_profile;
         key = \<lparr>sk_accessor = accessor, sk_profile = profile, sk_owner = owner\<rparr>;
         vault_bound = (vault_id \<noteq> None \<or> secret_vault_bindings s key \<noteq> None);
         floor_deposit = (if is_payment_key accessor \<and> secrets_storage s key = None
                          then nonce_floor_deposit s owner else 0) in
     add_u128 (calculate_secret_storage_size ext key encrypted access vault_bound
       * STORAGE_PRICE_PER_BYTE) floor_deposit Inr)"

record secret_profile_view =
  sv_encrypted_secrets :: string
  sv_access :: access_condition
  sv_created_at :: nat
  sv_updated_at :: nat
  sv_storage_deposit :: nat
  sv_accessor :: secret_accessor

definition secret_view :: "secret_accessor \<Rightarrow> secret_profile \<Rightarrow> secret_profile_view" where
  "secret_view accessor p =
     \<lparr>sv_encrypted_secrets = sp_encrypted_secrets p, sv_access = sp_access p,
      sv_created_at = sp_created_at p, sv_updated_at = sp_updated_at p,
      sv_storage_deposit = sp_storage_deposit p, sv_accessor = accessor\<rparr>"

definition get_secrets ::
  "externals \<Rightarrow> secret_accessor \<Rightarrow> string \<Rightarrow> account \<Rightarrow> contract \<Rightarrow> secret_profile_view option" where
  "get_secrets ext raw_accessor raw_profile owner s =
     (let accessor = canonical_accessor ext raw_accessor;
          profile = canonical_profile accessor raw_profile;
          at = (\<lambda>a. secrets_storage s \<lparr>sk_accessor = a, sk_profile = profile, sk_owner = owner\<rparr>) in
      case at accessor of
        Some p \<Rightarrow> Some (secret_view accessor p)
      | None \<Rightarrow>
          (case accessor of
             RepoAcc repo (Some _) \<Rightarrow>
               map_option (secret_view (RepoAcc repo None)) (at (RepoAcc repo None))
           | _ \<Rightarrow> None))"

definition get_secret_vault ::
  "externals \<Rightarrow> secret_accessor \<Rightarrow> string \<Rightarrow> account \<Rightarrow> contract \<Rightarrow> account option" where
  "get_secret_vault ext raw_accessor raw_profile owner s =
     (let accessor = canonical_accessor ext raw_accessor;
          profile = canonical_profile accessor raw_profile in
      secret_vault_bindings s \<lparr>sk_accessor = accessor, sk_profile = profile, sk_owner = owner\<rparr>)"

definition get_secret_with_vault ::
  "externals \<Rightarrow> secret_accessor \<Rightarrow> string \<Rightarrow> account \<Rightarrow> contract
     \<Rightarrow> secret_profile_view option \<times> account option" where
  "get_secret_with_vault ext raw_accessor raw_profile owner s =
     (let accessor = canonical_accessor ext raw_accessor;
          profile = canonical_profile accessor raw_profile;
          secret = get_secrets ext accessor profile owner s in
      (secret,
       case secret of
         None \<Rightarrow> None
       | Some view \<Rightarrow>
           secret_vault_bindings s
             \<lparr>sk_accessor = sv_accessor view, sk_profile = profile, sk_owner = owner\<rparr>))"

definition secrets_exist ::
  "externals \<Rightarrow> secret_accessor \<Rightarrow> string \<Rightarrow> account \<Rightarrow> contract \<Rightarrow> bool" where
  "secrets_exist ext raw_accessor raw_profile owner s \<longleftrightarrow>
     (let accessor = canonical_accessor ext raw_accessor;
          profile = canonical_profile accessor raw_profile in
      secrets_storage s \<lparr>sk_accessor = accessor, sk_profile = profile, sk_owner = owner\<rparr> \<noteq> None)"

text \<open>A profile that is not a number counts for nothing in the maximum, like a zero.\<close>

definition get_next_payment_key_nonce :: "account \<Rightarrow> contract \<Rightarrow> nat" where
  "get_next_payment_key_nonce owner s =
     (let keys = index_get (user_secrets_index s) owner;
          nonces = (\<lambda>key. case parse_u32 (sk_profile key) of None \<Rightarrow> 0 | Some n \<Rightarrow> n)
            |`| ffilter (\<lambda>key. is_payment_key (sk_accessor key)) keys;
          live = (if nonces = {||} then 0 else fMax nonces) in
      min (max live (payment_key_nonce_floor s owner) + 1) (2 ^ 32 - 1))"

section \<open>Runs of the operations\<close>

definition condition_ok :: "access_condition \<Rightarrow> bool" where
  "condition_ok access \<longleftrightarrow>
     (case condition_leaf_count access of
        (leaves, bytes, chain_reads) \<Rightarrow>
          leaves \<le> MAX_ACCOUNT_PATTERNS \<and> bytes \<le> MAX_ACCOUNT_PATTERN_BYTES \<and>
          chain_reads \<le> MAX_CHAIN_READ_LEAVES) \<and>
     wasm_hash_leaves_ok access \<and> logic_is_not_empty access"

lemma assert_condition_bounds_Inr [run_simps]:
  "assert_condition_bounds access k = Inr y \<longleftrightarrow> condition_ok access \<and> k = Inr y"
  by (auto simp: assert_condition_bounds_def condition_ok_def run_simps split: prod.splits)

lemma assert_condition_bounds_pass: "condition_ok access \<Longrightarrow> assert_condition_bounds access k = k"
  by (auto simp: assert_condition_bounds_def condition_ok_def ensure_def split: prod.splits)

fun accessor_valid :: "secret_accessor \<Rightarrow> string \<Rightarrow> contract \<Rightarrow> bool" where
  "accessor_valid (RepoAcc repo branch) profile s \<longleftrightarrow>
     repo \<noteq> [] \<and> (\<forall>b. branch = Some b \<longrightarrow> b \<noteq> [] \<and> length b \<le> 255)"
| "accessor_valid (WasmHashAcc hash) profile s \<longleftrightarrow>
     length hash = 64 \<and> list_all is_ascii_hexdigit hash"
| "accessor_valid (ProjectAcc pid) profile s \<longleftrightarrow> CHR ''/'' \<in> set pid \<and> projects s pid \<noteq> None"
| "accessor_valid (SystemAcc PaymentKey) profile s \<longleftrightarrow>
     (\<exists>n. parse_u32 profile = Some n \<and> 1 \<le> n \<and> n \<le> 2147483647)"

lemma assert_accessor_Inr [run_simps]:
  "assert_accessor acc profile s k = Inr y \<longleftrightarrow> accessor_valid acc profile s \<and> k = Inr y"
  by (cases "(acc, profile, s)" rule: accessor_valid.cases)
    (auto simp: run_simps split: option.splits)

lemma assert_profile_Inr [run_simps]:
  "assert_profile_is_unambiguous profile k = Inr y \<longleftrightarrow> CHR '':'' \<notin> set profile \<and> k = Inr y"
  by (simp add: assert_profile_is_unambiguous_def run_simps)

definition secret_held :: "contract \<Rightarrow> secret_key \<Rightarrow> nat" where
  "secret_held s key = weight_at sp_storage_deposit (secrets_storage s) key"

definition slot :: "externals \<Rightarrow> secret_accessor \<Rightarrow> string \<Rightarrow> account \<Rightarrow> secret_key" where
  "slot ext accessor profile owner =
     \<lparr>sk_accessor = canonical_accessor ext accessor,
      sk_profile = canonical_profile (canonical_accessor ext accessor) profile, sk_owner = owner\<rparr>"

definition stored_profile ::
  "externals \<Rightarrow> ctx \<Rightarrow> secret_key \<Rightarrow> string \<Rightarrow> access_condition \<Rightarrow> account option \<Rightarrow> contract
     \<Rightarrow> secret_profile" where
  "stored_profile ext cx key encrypted access vault_id s =
     \<lparr>sp_encrypted_secrets = encrypted, sp_access = access,
      sp_created_at = block_timestamp cx, sp_updated_at = block_timestamp cx,
      sp_storage_deposit = calculate_secret_storage_size ext key encrypted access
        (vault_id \<noteq> None \<or> secret_vault_bindings s key \<noteq> None) * STORAGE_PRICE_PER_BYTE\<rparr>"

lemma raise_floor_simps [simp]:
  "secrets_storage (raise_payment_key_nonce_floor ow n s) = secrets_storage s"
  "user_secrets_index (raise_payment_key_nonce_floor ow n s) = user_secrets_index s"
  "secret_vault_bindings (raise_payment_key_nonce_floor ow n s) = secret_vault_bindings s"
  by (simp_all add: raise_payment_key_nonce_floor_def)

lemma floor_after_raise:
  "payment_key_nonce_floor (raise_payment_key_nonce_floor ow n s) b =
     (if b = ow then max (payment_key_nonce_floor s ow) n else payment_key_nonce_floor s b)"
  by (auto simp: payment_key_nonce_floor_def raise_payment_key_nonce_floor_def get0_def max_def
      split: option.splits)

lemma raise_floor_dom:
  "payment_key_nonce_floors (raise_payment_key_nonce_floor ow n s) ow \<noteq> None"
  by (simp add: raise_payment_key_nonce_floor_def split: option.splits)

lemma nonce_charge_Inr:
  "nonce_charge acc prof ow s = Inr d \<longleftrightarrow>
     (if is_payment_key acc
      then (\<exists>n. parse_u32 prof = Some n \<and> payment_key_nonce_floor s ow < n) \<and>
           d = nonce_floor_deposit s ow
      else d = 0)"
  by (auto simp: nonce_charge_def run_simps)

lemma settle_secret_deposit_Inr:
  assumes "settle_secret_deposit cx payer existing req fl = Inr es"
    and "existing \<noteq> None \<Longrightarrow> fl = 0"
  shows "attached_deposit cx + (case existing of None \<Rightarrow> 0 | Some old \<Rightarrow> sp_storage_deposit old)
       = paid_out es + req + fl"
    and "set es \<subseteq> range (Transfer payer)"
  using assms
  by (auto simp: settle_secret_deposit_def run_simps transfer_if_def split: option.splits)

lemma write_secret_fields:
  "secrets_storage (write_secret key p v s) = (secrets_storage s)(key \<mapsto> p)"
  "user_secrets_index (write_secret key p v s) = (if secrets_storage s key = None
     then index_add (sk_owner key) key (user_secrets_index s) else user_secrets_index s)"
  "secret_vault_bindings (write_secret key p v s) = (if v = None then secret_vault_bindings s
     else (secret_vault_bindings s)(key := v))"
  "payment_key_nonce_floors (write_secret key p v s) = payment_key_nonce_floors s"
  by (auto simp: write_secret_def Let_def insert_secret_def rewrite_secret_def split: option.splits)

lemma announce_payment_key_Inr:
  "announce_payment_key key enc s = Inr (t, es) \<longleftrightarrow>
     (if is_payment_key (sk_accessor key)
      then (\<exists>n. parse_u32 (sk_profile key) = Some n \<and>
              t = raise_payment_key_nonce_floor (sk_owner key) n s \<and>
              es = [EmitSystem (TopUpPaymentKeyEvent (replicate 32 CHR 0x00) (sk_owner key) n 0 enc)])
      else t = s \<and> es = [])"
  by (auto simp: announce_payment_key_def run_simps)

lemma store_internal_core:
  assumes "store_secrets_internal ext cx owner payer acc prof enc access vault s = Inr (t, es)"
    and "key = slot ext acc prof owner"
  obtains fl refunds events where
    "condition_ok access" "accessor_valid (sk_accessor key) (sk_profile key) s"
    "profile_shape_error ext (sk_profile key) = None" "enc \<noteq> []"
    "is_implicit_account_name (sk_profile key) \<Longrightarrow> sk_profile key = owner"
    "secrets_storage s key \<noteq> None \<Longrightarrow> \<not> is_payment_key (sk_accessor key)"
    "nonce_charge (sk_accessor key) (sk_profile key) owner s = Inr fl"
    "settle_secret_deposit cx payer (secrets_storage s key)
       (sp_storage_deposit (stored_profile ext cx key enc access vault s)) fl = Inr refunds"
    "announce_payment_key key enc
       (write_secret key (stored_profile ext cx key enc access vault s) vault s) = Inr (t, events)"
    "es = refunds @ events"
proof -
  let ?p = "stored_profile ext cx key enc access vault s"
  have acc: "canonical_accessor ext acc = sk_accessor key"
    "canonical_profile (sk_accessor key) prof = sk_profile key"
    "\<lparr>sk_accessor = sk_accessor key, sk_profile = sk_profile key, sk_owner = owner\<rparr> = key"
    by (simp_all add: assms(2) slot_def)
  have "store_secrets_internal ext cx owner payer acc prof enc access vault s =
      assert_condition_bounds access (
      assert_accessor (sk_accessor key) (sk_profile key) s (
      ensure (profile_shape_error ext (sk_profile key) = None) (Shape ProfileShape) (
      ensure (enc \<noteq> []) (Secret EmptySecret) (
      ensure (\<not> is_implicit_account_name (sk_profile key) \<or> sk_profile key = owner)
        (Secret AgentProfileOfOther) (
      ensure (secrets_storage s key \<noteq> None \<longrightarrow> \<not> is_payment_key (sk_accessor key)) (Secret KeyExists) (
      bind_call (nonce_charge (sk_accessor key) (sk_profile key) owner s) (\<lambda>fl.
      bind_call (settle_secret_deposit cx payer (secrets_storage s key) (sp_storage_deposit ?p) fl)
        (\<lambda>refunds.
      bind_call (announce_payment_key key enc (write_secret key ?p vault s))
        (\<lambda>(t, events). Inr (t, refunds @ events))))))))))"
    by (simp add: store_secrets_internal_def Let_def acc stored_profile_def)
  note run = trans [OF this [symmetric] assms(1), unfolded run_simps]
  then obtain fl refunds r where
    "nonce_charge (sk_accessor key) (sk_profile key) owner s = Inr fl"
    "settle_secret_deposit cx payer (secrets_storage s key) (sp_storage_deposit ?p) fl = Inr refunds"
    "announce_payment_key key enc (write_secret key ?p vault s) = Inr r"
    "(case r of (t, events) \<Rightarrow> Inr (t, refunds @ events)) = (Inr (t, es) :: outcome)"
    by (elim conjE exE)
  with run show thesis by (intro that [of fl refunds "snd r"]) (auto split: prod.splits)
qed

lemma store_internal_run:
  assumes run: "store_secrets_internal ext cx owner payer acc prof enc access vault s = Inr (t, es)"
    and key: "key = slot ext acc prof owner"
  shows "condition_ok access" "accessor_valid (sk_accessor key) (sk_profile key) s"
    "profile_shape_error ext (sk_profile key) = None" "enc \<noteq> []"
    "is_implicit_account_name (sk_profile key) \<Longrightarrow> sk_profile key = owner"
    "secrets_storage t = (secrets_storage s)(key \<mapsto> stored_profile ext cx key enc access vault s)"
    "user_secrets_index t = (if secrets_storage s key = None
       then index_add owner key (user_secrets_index s) else user_secrets_index s)"
    "secret_vault_bindings t = (if vault = None then secret_vault_bindings s
       else (secret_vault_bindings s)(key := vault))"
    "is_payment_key (sk_accessor key) \<Longrightarrow> secrets_storage s key = None \<and>
       (\<exists>n. parse_u32 (sk_profile key) = Some n \<and> payment_key_nonce_floor s owner < n \<and>
          payment_key_nonce_floors t = (payment_key_nonce_floors s)(owner \<mapsto> n))"
    "\<not> is_payment_key (sk_accessor key) \<Longrightarrow>
       payment_key_nonce_floors t = payment_key_nonce_floors s"
    "attached_deposit cx + secret_held s key
       = paid_out es + sp_storage_deposit (stored_profile ext cx key enc access vault s)
         + (if is_payment_key (sk_accessor key) then nonce_floor_deposit s owner else 0)"
    "\<And>r n. Transfer r n \<in> set es \<Longrightarrow> r = payer"
proof -
  let ?p = "stored_profile ext cx key enc access vault s"
  have ow: "sk_owner key = owner" by (simp add: key slot_def)
  from store_internal_core [OF run key] obtain fl refunds events where
    a: "condition_ok access" "accessor_valid (sk_accessor key) (sk_profile key) s"
    "profile_shape_error ext (sk_profile key) = None" "enc \<noteq> []"
    "is_implicit_account_name (sk_profile key) \<Longrightarrow> sk_profile key = owner"
    and once: "secrets_storage s key \<noteq> None \<Longrightarrow> \<not> is_payment_key (sk_accessor key)"
    and fl: "nonce_charge (sk_accessor key) (sk_profile key) owner s = Inr fl"
    and settle: "settle_secret_deposit cx payer (secrets_storage s key) (sp_storage_deposit ?p) fl
      = Inr refunds"
    and ann: "announce_payment_key key enc (write_secret key ?p vault s) = Inr (t, events)"
    and es: "es = refunds @ events" by metis
  show "condition_ok access" "accessor_valid (sk_accessor key) (sk_profile key) s"
    "profile_shape_error ext (sk_profile key) = None" "enc \<noteq> []"
    "is_implicit_account_name (sk_profile key) \<Longrightarrow> sk_profile key = owner" by (fact a)+
  have t: "t = write_secret key ?p vault s \<or>
      (\<exists>n. t = raise_payment_key_nonce_floor owner n (write_secret key ?p vault s))"
    using ann by (auto simp: announce_payment_key_Inr ow split: if_splits)
  from t show "secrets_storage t = (secrets_storage s)(key \<mapsto> ?p)"
    "user_secrets_index t = (if secrets_storage s key = None
       then index_add owner key (user_secrets_index s) else user_secrets_index s)"
    "secret_vault_bindings t = (if vault = None then secret_vault_bindings s
       else (secret_vault_bindings s)(key := vault))"
    by (auto simp: write_secret_fields ow)
  have n0: "paid_out events = 0" "\<And>r n. Transfer r n \<notin> set events"
    using ann by (auto simp: announce_payment_key_Inr split: if_splits)
  have "secrets_storage s key \<noteq> None \<Longrightarrow> fl = 0"
    using once fl by (simp add: nonce_charge_Inr)
  note money = settle_secret_deposit_Inr [OF settle this]
  show "attached_deposit cx + secret_held s key = paid_out es + sp_storage_deposit ?p
         + (if is_payment_key (sk_accessor key) then nonce_floor_deposit s owner else 0)"
    using money(1) n0 fl
    by (auto simp: es secret_held_def weight_at_def nonce_charge_Inr split: option.splits)
  show "r = payer" if "Transfer r n \<in> set es" for r n
    using that money(2) n0 by (auto simp: es)
  show "payment_key_nonce_floors t = payment_key_nonce_floors s"
    if "\<not> is_payment_key (sk_accessor key)"
    using that ann by (simp add: announce_payment_key_Inr write_secret_fields)
  show "secrets_storage s key = None \<and>
       (\<exists>n. parse_u32 (sk_profile key) = Some n \<and> payment_key_nonce_floor s owner < n \<and>
          payment_key_nonce_floors t = (payment_key_nonce_floors s)(owner \<mapsto> n))"
    if pk: "is_payment_key (sk_accessor key)"
  proof -
    from fl pk obtain n where n: "parse_u32 (sk_profile key) = Some n"
        "payment_key_nonce_floor s owner < n" by (auto simp: nonce_charge_Inr)
    from ann pk n(1) have "t = raise_payment_key_nonce_floor owner n (write_secret key ?p vault s)"
      by (simp add: announce_payment_key_Inr ow)
    with n have "payment_key_nonce_floors t = (payment_key_nonce_floors s)(owner \<mapsto> n)"
      by (auto simp: raise_payment_key_nonce_floor_def write_secret_fields
          payment_key_nonce_floor_def get0_def split: option.splits)
    moreover have "secrets_storage s key = None" using once pk by blast
    ultimately show ?thesis using n by blast
  qed
qed

lemma canonical_profile_idem [simp]:
  "canonical_profile acc (canonical_profile acc prof) = canonical_profile acc prof"
  by (cases "(acc, prof)" rule: canonical_profile.cases)
    (auto simp: parse_show_uint dest: parse_uint_bound split: option.splits)

lemma canonical_accessor_idem:
  "lowercase_ok ext \<Longrightarrow> canonical_accessor ext (canonical_accessor ext acc) = canonical_accessor ext acc"
  by (cases acc) (simp_all add: lowercase_ok_def)

lemma slot_fields [simp]: "sk_owner (slot ext acc prof ow) = ow"
  "sk_accessor (slot ext acc prof ow) = canonical_accessor ext acc"
  "sk_profile (slot ext acc prof ow) = canonical_profile (canonical_accessor ext acc) prof"
  by (simp_all add: slot_def)

lemma canonical_is_payment_key [simp]:
  "is_payment_key (canonical_accessor ext acc) \<longleftrightarrow> is_payment_key acc"
  by (cases acc) (simp_all add: is_payment_key_def)

section \<open>The invariant of the secrets\<close>

definition secret_row_ok :: "externals \<Rightarrow> contract \<Rightarrow> secret_key \<Rightarrow> secret_profile \<Rightarrow> bool" where
  "secret_row_ok ext s k p \<longleftrightarrow>
     condition_ok (sp_access p) \<and> profile_shape_error ext (sk_profile k) = None \<and>
     canonical_accessor ext (sk_accessor k) = sk_accessor k \<and>
     canonical_profile (sk_accessor k) (sk_profile k) = sk_profile k \<and>
     (is_implicit_account_name (sk_profile k) \<longrightarrow> sk_profile k = sk_owner k) \<and>
     (is_payment_key (sk_accessor k) \<longrightarrow>
        (\<exists>n. sk_profile k = show_nat n \<and> 1 \<le> n \<and> n \<le> 2147483647 \<and>
             n \<le> payment_key_nonce_floor s (sk_owner k)))"

definition secrets_ok :: "externals \<Rightarrow> contract \<Rightarrow> bool" where
  "secrets_ok ext s \<longleftrightarrow>
     finite (dom (secrets_storage s)) \<and> finite (dom (payment_key_nonce_floors s)) \<and>
     secret_rows.consistent s \<and>
     (\<forall>k p. secrets_storage s k = Some p \<longrightarrow> secret_row_ok ext s k p) \<and>
     dom (secret_vault_bindings s) \<subseteq> dom (secrets_storage s)"

lemma secrets_ok_new: "secrets_ok ext (new_contract ow op st ver)"
  by (simp add: secrets_ok_def secret_rows.consistent_def new_contract_def)

lemma secret_row_ok_mono:
  "secret_row_ok ext s k p \<Longrightarrow> payment_key_nonce_floor s (sk_owner k) \<le> payment_key_nonce_floor t (sk_owner k) \<Longrightarrow>
     secret_row_ok ext t k p"
  unfolding secret_row_ok_def by (meson order_trans)

lemma secrets_okD:
  assumes "secrets_ok ext s"
  shows "finite (dom (secrets_storage s))" "finite (dom (payment_key_nonce_floors s))"
    "secret_rows.consistent s" "secrets_storage s k = Some p \<Longrightarrow> secret_row_ok ext s k p"
    "dom (secret_vault_bindings s) \<subseteq> dom (secrets_storage s)"
  using assms unfolding secrets_ok_def by blast+

lemma stored_floor_mono:
  assumes run: "store_secrets_internal ext cx owner payer acc prof enc access vault s = Inr (t, es)"
  shows "payment_key_nonce_floor s b \<le> payment_key_nonce_floor t b"
proof (cases "is_payment_key acc")
  case True
  with store_internal_run(9) [OF run refl] show ?thesis
    by (auto simp: payment_key_nonce_floor_def)
next
  case False
  with store_internal_run(10) [OF run refl] show ?thesis by (simp add: payment_key_nonce_floor_def)
qed

lemma store_internal_row_ok:
  assumes lower: "lowercase_ok ext"
    and run: "store_secrets_internal ext cx owner payer acc prof enc access vault s = Inr (t, es)"
  shows "secret_row_ok ext t (slot ext acc prof owner)
           (stored_profile ext cx (slot ext acc prof owner) enc access vault s)"
proof -
  note r = store_internal_run [OF run refl]
  have "\<exists>n. canonical_profile (canonical_accessor ext acc) prof = show_nat n \<and> 1 \<le> n \<and> n \<le> 2147483647 \<and>
      n \<le> payment_key_nonce_floor t owner" if pk: "is_payment_key acc"
  proof -
    have acc: "acc = SystemAcc PaymentKey" using pk by (simp add: is_payment_key_def)
    from r(2) acc obtain n where n: "parse_u32 (canonical_profile acc prof) = Some n" "1 \<le> n"
        "n \<le> 2147483647" by auto
    from r(9) pk acc n(1) have "payment_key_nonce_floor t owner = n"
      by (auto simp: payment_key_nonce_floor_def)
    moreover have "canonical_profile acc prof = show_nat n"
      using n(1) acc by (auto simp: parse_show_uint dest: parse_uint_bound split: option.splits)
    ultimately show ?thesis using n acc by auto
  qed
  then show ?thesis
    using r(1,3,5) lower
    by (auto simp: secret_row_ok_def stored_profile_def canonical_accessor_idem)
qed

lemma store_internal_ok:
  assumes lower: "lowercase_ok ext" and ok: "secrets_ok ext s"
    and run: "store_secrets_internal ext cx owner payer acc prof enc access vault s = Inr (t, es)"
  shows "secrets_ok ext t"
proof -
  let ?k = "slot ext acc prof owner"
  let ?p = "stored_profile ext cx ?k enc access vault s"
  note r = store_internal_run [OF run refl]
  have "secret_rows.consistent t"
  proof (cases "secrets_storage s ?k")
    case None
    from secret_rows.insert_consistent [OF secrets_okD(3) [OF ok] None, of ?p] show ?thesis
      by (simp add: secret_rows.consistent_def r(6,7) None insert_secret_def)
  next
    case (Some old)
    from secret_rows.rewrite_consistent [OF secrets_okD(3) [OF ok] Some, of ?p] show ?thesis
      by (simp add: secret_rows.consistent_def r(6,7) Some rewrite_secret_def)
  qed
  moreover have "secret_row_ok ext t k p" if "secrets_storage t k = Some p" for k p
    using that store_internal_row_ok [OF lower run]
      secret_row_ok_mono [OF secrets_okD(4) [OF ok] stored_floor_mono [OF run]]
    by (auto simp: r(6) split: if_splits)
  moreover have "finite (dom (payment_key_nonce_floors t))"
    using r(9,10) secrets_okD(2) [OF ok] by (cases "is_payment_key acc") auto
  moreover have "dom (secret_vault_bindings t) \<subseteq> dom (secrets_storage t)"
    using secrets_okD(5) [OF ok] by (auto simp: r(6,8) split: if_splits)
  ultimately show ?thesis
    using secrets_okD(1) [OF ok] unfolding secrets_ok_def by (simp add: r(6))
qed

lemma delete_internal_run:
  assumes "delete_secrets_internal key owner refund_to s = Inr (t, es)" "sk_owner key = owner"
  obtains p where "secrets_storage s key = Some p"
    "t = drop_secret key p (s\<lparr>secret_vault_bindings := (secret_vault_bindings s)(key := None)\<rparr>)"
    "es = transfer_if refund_to (sp_storage_deposit p)"
  using assms by (auto simp: delete_secrets_internal_def run_simps drop_secret_def)

lemma secrets_ok_shrink:
  assumes ok: "secrets_ok ext s" and k: "secrets_storage s key = Some p"
    and t: "t = drop_secret key p (s\<lparr>secret_vault_bindings := (secret_vault_bindings s)(key := None)\<rparr>)"
  shows "secrets_ok ext t"
proof -
  have "secret_rows.consistent t"
    unfolding t by (rule secret_rows.drop_consistent)
      (use secrets_okD(3) [OF ok] k in \<open>simp_all add: secret_rows.consistent_def\<close>)
  moreover have "payment_key_nonce_floor t b = payment_key_nonce_floor s b" for b
    by (simp add: payment_key_nonce_floor_def t drop_secret_def)
  ultimately show ?thesis
    using ok unfolding secrets_ok_def secret_row_ok_def by (auto simp: t drop_secret_def)
qed

lemma delete_internal_ok:
  "secrets_ok ext s \<Longrightarrow> delete_secrets_internal key (sk_owner key) r s = Inr (t, es) \<Longrightarrow> secrets_ok ext t"
  by (erule delete_internal_run) (auto intro: secrets_ok_shrink)

lemma secret_edit_ok:
  assumes ok: "secrets_ok ext s" and k: "secrets_storage s key = Some p"
    and c: "condition_ok (sp_access p')"
  shows "secrets_ok ext (rewrite_secret key p' s)"
proof -
  have "secret_rows.consistent (rewrite_secret key p' s)"
    by (rule secret_rows.rewrite_consistent [OF secrets_okD(3) [OF ok] k refl])
  moreover have "payment_key_nonce_floor (rewrite_secret key p' s) b = payment_key_nonce_floor s b" for b
    by (simp add: payment_key_nonce_floor_def rewrite_secret_def)
  ultimately show ?thesis
    using ok k c unfolding secrets_ok_def secret_row_ok_def by (auto simp: rewrite_secret_def)
qed

lemma update_access_ok:
  "secrets_ok ext s \<Longrightarrow> update_access ext cx acc prof access s = Inr (t, es) \<Longrightarrow> secrets_ok ext t"
  by (auto simp: update_access_def Let_def run_simps intro!: secret_edit_ok)

lemma bindings_shrink_ok:
  assumes "secrets_ok ext s" "dom b \<subseteq> dom (secret_vault_bindings s)"
  shows "secrets_ok ext (s\<lparr>secret_vault_bindings := b\<rparr>)"
  using assms unfolding secrets_ok_def
  by (simp add: secret_rows.consistent_def secret_row_ok_def payment_key_nonce_floor_def) blast

lemma unbind_secret_vault_ok:
  "secrets_ok ext s \<Longrightarrow> unbind_secret_vault ext cx acc prof s = Inr (t, es) \<Longrightarrow> secrets_ok ext t"
  by (auto simp: unbind_secret_vault_def Let_def run_simps intro!: bindings_shrink_ok
      split: if_splits)

section \<open>Calls\<close>

datatype secret_call =
    StoreSecrets secret_accessor string string access_condition "account option"
  | StoreAgentSecret agent_args
  | DeleteAgentSecret string secret_accessor string string
  | DeleteSecrets secret_accessor string
  | UnbindSecretVault secret_accessor string
  | UpdateAccess secret_accessor string access_condition

fun run_secret_call :: "externals \<Rightarrow> secret_call \<Rightarrow> ctx \<Rightarrow> contract \<Rightarrow> outcome" where
  "run_secret_call ext (StoreSecrets acc prof enc access vault) cx s =
     store_secrets ext cx acc prof enc access vault s"
| "run_secret_call ext (StoreAgentSecret a) cx s = store_agent_secret ext cx a s"
| "run_secret_call ext (DeleteAgentSecret pk acc prof sg) cx s =
     delete_agent_secret ext cx pk acc prof sg s"
| "run_secret_call ext (DeleteSecrets acc prof) cx s = delete_secrets ext cx acc prof s"
| "run_secret_call ext (UnbindSecretVault acc prof) cx s = unbind_secret_vault ext cx acc prof s"
| "run_secret_call ext (UpdateAccess acc prof access) cx s = update_access ext cx acc prof access s"

text \<open>Every call is one of four things done to one slot.\<close>

lemma store_agent_secret_run:
  assumes "store_agent_secret ext cx a s = Inr (t, es)"
  obtains owner acc prof where "implicit_account_of ext (ag_pubkey a) = Inr owner"
    "acc = canonical_accessor ext (ag_accessor a)" "prof = canonical_profile acc (ag_profile a)"
    "CHR '':'' \<notin> set prof" "(\<exists>pid. acc = ProjectAcc pid) \<or> (\<exists>h. acc = WasmHashAcc h)"
    "signed_by ext (ag_pubkey a) (sha256 ext (secret_store_message ext (ag_pubkey a) acc prof
       (ag_encrypted a) (predecessor cx) (ag_vault_id a) (ag_access a))) (ag_signature a)"
    "store_secrets_internal ext cx owner (predecessor cx) acc prof (ag_encrypted a) (ag_access a)
       (ag_vault_id a) s = Inr (t, es)"
  using assms
  by (auto simp: store_agent_secret_def Let_def run_simps split: secret_accessor.splits intro: that)

lemma delete_agent_secret_run:
  assumes "delete_agent_secret ext cx pk acc0 prof0 sg s = Inr (t, es)"
  obtains owner acc prof where "implicit_account_of ext pk = Inr owner"
    "acc = canonical_accessor ext acc0" "prof = canonical_profile acc prof0"
    "CHR '':'' \<notin> set prof" "(\<exists>pid. acc = ProjectAcc pid) \<or> (\<exists>h. acc = WasmHashAcc h)"
    "signed_by ext pk (sha256 ext (secret_delete_message pk acc prof (predecessor cx))) sg"
    "attached_deposit cx = 0"
    "delete_secrets_internal \<lparr>sk_accessor = acc, sk_profile = prof, sk_owner = owner\<rparr> owner
       (predecessor cx) s = Inr (t, es)"
  using assms
  by (auto simp: delete_agent_secret_def Let_def run_simps split: secret_accessor.splits intro: that)

lemma run_secret_call_ok:
  assumes "lowercase_ok ext" "secrets_ok ext s" "run_secret_call ext c cx s = Inr (t, es)"
  shows "secrets_ok ext t"
proof (cases c)
  case (StoreSecrets acc prof enc access vault)
  with assms show ?thesis by (auto simp: store_secrets_def intro: store_internal_ok)
next
  case (StoreAgentSecret a)
  with assms(3) have "store_agent_secret ext cx a s = Inr (t, es)" by simp
  then show ?thesis
    by (rule store_agent_secret_run) (use assms in \<open>auto intro: store_internal_ok\<close>)
next
  case (DeleteAgentSecret pk acc prof sg)
  with assms(3) have "delete_agent_secret ext cx pk acc prof sg s = Inr (t, es)" by simp
  then show ?thesis
    by (rule delete_agent_secret_run)
      (use assms in \<open>auto intro: delete_internal_ok [where key = "\<lparr>sk_accessor = _, sk_profile = _, sk_owner = _\<rparr>"]\<close>)
next
  case (DeleteSecrets acc prof)
  with assms show ?thesis
    by (auto simp: delete_secrets_def Let_def run_simps
        intro: delete_internal_ok [where key = "\<lparr>sk_accessor = _, sk_profile = _, sk_owner = _\<rparr>"])
next
  case (UnbindSecretVault acc prof)
  with assms show ?thesis by (auto intro: unbind_secret_vault_ok)
next
  case (UpdateAccess acc prof access)
  with assms show ?thesis by (auto intro: update_access_ok)
qed

section \<open>Deposits\<close>

text \<open>
  What is held for the rows, and what was charged for the nonce floor entries, which outlive
  every key.
\<close>

definition floor_entries_value :: "contract \<Rightarrow> nat" where
  "floor_entries_value s =
     (\<Sum>ow \<in> dom (payment_key_nonce_floors s). nonce_floor_entry_bytes ow * STORAGE_PRICE_PER_BYTE)"

definition secret_deposits :: "contract \<Rightarrow> nat" where
  "secret_deposits s = weight_total sp_storage_deposit (secrets_storage s) + floor_entries_value s"

lemma floor_entries_grow:
  assumes "finite (dom (payment_key_nonce_floors s))"
    and "payment_key_nonce_floors t = (payment_key_nonce_floors s)(ow \<mapsto> n)"
  shows "floor_entries_value t = floor_entries_value s + nonce_floor_deposit s ow"
  using assms(1)
  by (auto simp: floor_entries_value_def assms(2) nonce_floor_deposit_def insert_absorb domIff)

lemma store_internal_deposits:
  assumes ok: "secrets_ok ext s"
    and run: "store_secrets_internal ext cx owner payer acc prof enc access vault s = Inr (t, es)"
  shows "attached_deposit cx + secret_deposits s = paid_out es + secret_deposits t"
proof -
  let ?k = "slot ext acc prof owner"
  let ?p = "stored_profile ext cx ?k enc access vault s"
  note r = store_internal_run [OF run refl]
  have rows: "weight_total sp_storage_deposit (secrets_storage t) + secret_held s ?k
      = weight_total sp_storage_deposit (secrets_storage s) + sp_storage_deposit ?p"
    unfolding r(6) secret_held_def by (rule weight_total_update [OF secrets_okD(1) [OF ok]])
  have "floor_entries_value t = floor_entries_value s
      + (if is_payment_key acc then nonce_floor_deposit s owner else 0)"
  proof (cases "is_payment_key acc")
    case True
    with r(9) obtain n where "payment_key_nonce_floors t = (payment_key_nonce_floors s)(owner \<mapsto> n)"
      by auto
    from floor_entries_grow [OF secrets_okD(2) [OF ok] this] True show ?thesis by simp
  next
    case False
    with r(10) show ?thesis by (simp add: floor_entries_value_def)
  qed
  with rows r(11) show ?thesis by (simp add: secret_deposits_def)
qed

lemma delete_internal_deposits:
  assumes ok: "secrets_ok ext s" and run: "delete_secrets_internal key (sk_owner key) r s = Inr (t, es)"
  shows "secret_deposits s = paid_out es + secret_deposits t"
proof -
  from run obtain p where p: "secrets_storage s key = Some p"
    and t: "t = drop_secret key p (s\<lparr>secret_vault_bindings := (secret_vault_bindings s)(key := None)\<rparr>)"
    and es: "es = transfer_if r (sp_storage_deposit p)"
    by (rule delete_internal_run) simp_all
  from weight_total_delete [OF secrets_okD(1) [OF ok], of sp_storage_deposit key] p show ?thesis
    by (simp add: t es secret_deposits_def drop_secret_def weight_at_def floor_entries_value_def)
qed

lemma update_access_deposits:
  assumes ok: "secrets_ok ext s" and run: "update_access ext cx acc prof access s = Inr (t, es)"
  shows "attached_deposit cx + secret_deposits s = paid_out es + secret_deposits t"
proof -
  let ?k = "slot ext acc prof (predecessor cx)"
  from run obtain p p' where p: "secrets_storage s ?k = Some p" and t: "t = rewrite_secret ?k p' s"
    and money: "attached_deposit cx + sp_storage_deposit p = paid_out es + sp_storage_deposit p'"
    by (auto simp: update_access_def Let_def run_simps slot_def)
  from weight_total_update [OF secrets_okD(1) [OF ok], of sp_storage_deposit ?k p'] p money
  show ?thesis
    by (simp add: t secret_deposits_def rewrite_secret_def weight_at_def floor_entries_value_def)
qed

lemma unbind_deposits:
  "unbind_secret_vault ext cx acc prof s = Inr (t, es) \<Longrightarrow>
     attached_deposit cx + secret_deposits s = paid_out es + secret_deposits t"
  by (auto simp: unbind_secret_vault_def Let_def run_simps secret_deposits_def floor_entries_value_def)

section \<open>Messages\<close>

lemma agent_key_halves:
  assumes "hex_ok ext" "implicit_account_of ext pk = Inr ow"
  obtains h where "pk = ''ed25519'' @ CHR '':'' # h" "CHR '':'' \<notin> set h"
proof -
  from assms(2) obtain raw where "parse_wallet_pubkey ext pk = Inr (''ed25519'', raw)"
    by (auto simp: implicit_account_of_def run_simps)
  then obtain h where h: "split_colon pk = Some (''ed25519'', h)" "hex_decode ext h = Some raw"
    by (auto simp: parse_run)
  from split_colon_Some [OF h(1)] have "pk = ''ed25519'' @ CHR '':'' # h" by simp
  with hex_decode_colon_free [OF assms(1) h(2)] that show thesis by blast
qed

text \<open>The length in front pins the accessor; the separator pins the rest.\<close>

lemma counted_field_inject:
  assumes "show_nat (length b) @ CHR '':'' # b @ x = show_nat (length b') @ CHR '':'' # b' @ x'"
  shows "b = b' \<and> x = x'"
proof -
  from split_at_separator [OF show_nat_colon_free show_nat_colon_free assms]
  have "show_nat (length b) = show_nat (length b')" and "b @ x = b' @ x'" by blast+
  with show_nat_inject show ?thesis by auto
qed

lemma agent_accessor_binding_inject:
  assumes "accessor_binding a = accessor_binding a'"
    and "accessor_valid a p s" "accessor_valid a' p' s"
    and "(\<exists>i. a = ProjectAcc i) \<or> (\<exists>h. a = WasmHashAcc h)"
    and "(\<exists>i. a' = ProjectAcc i) \<or> (\<exists>h. a' = WasmHashAcc h)"
  shows "a = a'"
proof -
  have no_slash: "CHR ''/'' \<notin> set h" if "list_all is_ascii_hexdigit h" for h
  proof
    assume "CHR ''/'' \<in> set h"
    with that have "is_ascii_hexdigit (CHR ''/'')" by (simp add: list_all_iff)
    then show False by (simp add: is_ascii_hexdigit_def)
  qed
  show ?thesis using assms by (auto dest: no_slash)
qed

section \<open>Properties\<close>

text \<open>
  What is stored is what is read: after a store returns, a read by any spelling of the accessor
  and the profile that names the same slot (either case of a WASM hash, any form of a nonce)
  answers with the stored ciphertext and condition.
\<close>

theorem secret_read_back:
  assumes "store_secrets ext cx acc prof enc access vault s = Inr (t, es)"
    and "canonical_accessor ext acc' = canonical_accessor ext acc"
    and "canonical_profile (canonical_accessor ext acc) prof'
       = canonical_profile (canonical_accessor ext acc) prof"
  shows "\<exists>view. get_secrets ext acc' prof' (predecessor cx) t = Some view \<and>
    sv_encrypted_secrets view = enc \<and> sv_access view = access \<and>
    sv_accessor view = canonical_accessor ext acc"
proof -
  let ?k = "slot ext acc prof (predecessor cx)"
  from assms(1) have "store_secrets_internal ext cx (predecessor cx) (predecessor cx) acc prof enc
      access vault s = Inr (t, es)" by (simp add: store_secrets_def)
  from store_internal_run(6) [OF this refl]
  have "secrets_storage t ?k = Some (stored_profile ext cx ?k enc access vault s)" by simp
  then show ?thesis
    using assms(2,3)
    by (simp add: get_secrets_def Let_def slot_def secret_view_def stored_profile_def)
qed

text \<open>
  The messages agents sign are unambiguous and the three verbs never share one: a message of
  one domain is no message of another, and two stores whose messages coincide agree on the key,
  the accessor, the profile, the ciphertext, the payer, the vault and the printed condition.
\<close>

theorem secret_message_inject:
  assumes "hex_ok ext" "implicit_account_of ext pk = Inr ow" "implicit_account_of ext pk' = Inr ow'"
    and "accessor_valid a p s" "accessor_valid a' p' s"
    and "(\<exists>i. a = ProjectAcc i) \<or> (\<exists>h. a = WasmHashAcc h)"
    and "(\<exists>i. a' = ProjectAcc i) \<or> (\<exists>h. a' = WasmHashAcc h)"
    and "CHR '':'' \<notin> set p" "CHR '':'' \<notin> set p'" "CHR '':'' \<notin> set e" "CHR '':'' \<notin> set e'"
    and "CHR '':'' \<notin> set y" "CHR '':'' \<notin> set y'"
    and "\<forall>w. v = Some w \<or> v' = Some w \<longrightarrow> w \<noteq> [] \<and> CHR '':'' \<notin> set w"
    and "secret_store_message ext pk a p e y v c = secret_store_message ext pk' a' p' e' y' v' c'"
  shows "pk = pk' \<and> a = a' \<and> p = p' \<and> e = e' \<and> y = y' \<and> v = v' \<and>
    access_to_json ext c = access_to_json ext c' \<and>
    secret_store_message ext pk a p e y v c \<noteq> secret_delete_message pk' a' p' y' \<and>
    secret_store_message ext pk a p e y v c \<noteq> policy_store_message pk' n l u d y'"
proof -
  obtain h where h: "pk = ''ed25519'' @ CHR '':'' # h" "CHR '':'' \<notin> set h"
    by (rule agent_key_halves [OF assms(1,2)])
  obtain h' where h': "pk' = ''ed25519'' @ CHR '':'' # h'" "CHR '':'' \<notin> set h'"
    by (rule agent_key_halves [OF assms(1,3)])
  let ?v = "case v of None \<Rightarrow> [] | Some w \<Rightarrow> w" and ?v' = "case v' of None \<Rightarrow> [] | Some w \<Rightarrow> w"
  have vf: "CHR '':'' \<notin> set ?v" "CHR '':'' \<notin> set ?v'"
    using assms(14) by (auto split: option.splits)
  have veq: "?v = ?v' \<Longrightarrow> v = v'" using assms(14) by (auto split: option.splits)
  from assms(15) have "h @ CHR '':'' # show_nat (length (accessor_binding a)) @ CHR '':'' #
      accessor_binding a @ CHR '':'' # p @ CHR '':'' # e @ CHR '':'' # y @ CHR '':'' # ?v
      @ CHR '':'' # access_to_json ext c
    = h' @ CHR '':'' # show_nat (length (accessor_binding a')) @ CHR '':'' #
      accessor_binding a' @ CHR '':'' # p' @ CHR '':'' # e' @ CHR '':'' # y' @ CHR '':'' # ?v'
      @ CHR '':'' # access_to_json ext c'"
    by (simp add: secret_store_message_def Let_def h(1) h'(1))
  from split_at_separator [OF h(2) h'(2) this] have hh: "h = h'"
    and r1: "show_nat (length (accessor_binding a)) @ CHR '':'' #
      accessor_binding a @ CHR '':'' # p @ CHR '':'' # e @ CHR '':'' # y @ CHR '':'' # ?v
      @ CHR '':'' # access_to_json ext c
    = show_nat (length (accessor_binding a')) @ CHR '':'' #
      accessor_binding a' @ CHR '':'' # p' @ CHR '':'' # e' @ CHR '':'' # y' @ CHR '':'' # ?v'
      @ CHR '':'' # access_to_json ext c'" by blast+
  from counted_field_inject [OF r1] have b: "accessor_binding a = accessor_binding a'"
    and r2: "p @ CHR '':'' # e @ CHR '':'' # y @ CHR '':'' # ?v @ CHR '':'' # access_to_json ext c
      = p' @ CHR '':'' # e' @ CHR '':'' # y' @ CHR '':'' # ?v' @ CHR '':'' # access_to_json ext c'"
    by simp_all
  from split_at_separator [OF assms(8,9) r2] have pp: "p = p'"
    and r3: "e @ CHR '':'' # y @ CHR '':'' # ?v @ CHR '':'' # access_to_json ext c
      = e' @ CHR '':'' # y' @ CHR '':'' # ?v' @ CHR '':'' # access_to_json ext c'" by blast+
  from split_at_separator [OF assms(10,11) r3] have ee: "e = e'"
    and r4: "y @ CHR '':'' # ?v @ CHR '':'' # access_to_json ext c
      = y' @ CHR '':'' # ?v' @ CHR '':'' # access_to_json ext c'" by blast+
  from split_at_separator [OF assms(12,13) r4] have yy: "y = y'"
    and r5: "?v @ CHR '':'' # access_to_json ext c = ?v' @ CHR '':'' # access_to_json ext c'" by blast+
  from split_at_separator [OF vf r5] have "?v = ?v'" "access_to_json ext c = access_to_json ext c'"
    by blast+
  moreover have "a = a'" by (rule agent_accessor_binding_inject [OF b assms(4-7)])
  ultimately show ?thesis
    using hh pp ee yy veq h(1) h'(1)
    by (simp add: secret_store_message_def secret_delete_message_def policy_store_message_def Let_def)
qed

text \<open>What an agent's call asks the agent's key to sign, and the names of a call that hold no separator.\<close>

definition agent_message :: "externals \<Rightarrow> ctx \<Rightarrow> agent_args \<Rightarrow> string" where
  "agent_message ext cx a = secret_store_message ext (ag_pubkey a) (canonical_accessor ext (ag_accessor a))
     (canonical_profile (canonical_accessor ext (ag_accessor a)) (ag_profile a)) (ag_encrypted a) (predecessor cx) (ag_vault_id a) (ag_access a)"

definition colon_free_call :: "ctx \<Rightarrow> agent_args \<Rightarrow> bool" where
  "colon_free_call cx a \<longleftrightarrow> CHR '':'' \<notin> set (ag_encrypted a) \<and> CHR '':'' \<notin> set (predecessor cx) \<and>
     (\<forall>w. ag_vault_id a = Some w \<longrightarrow> w \<noteq> [] \<and> CHR '':'' \<notin> set w)"

lemma agent_messages_differ:
  assumes hex: "hex_ok ext" and lower: "lowercase_ok ext"
    and a: "store_agent_secret ext cx a s = Inr (t, es)" "colon_free_call cx a"
    and b: "store_agent_secret ext cx' b s = Inr (t', es')" "colon_free_call cx' b"
    and same: "agent_message ext cx a = agent_message ext cx' b"
  shows "ag_pubkey b = ag_pubkey a \<and> canonical_accessor ext (ag_accessor b) = canonical_accessor ext (ag_accessor a) \<and>
    ag_profile b = ag_profile a \<and> ag_encrypted b = ag_encrypted a \<and> predecessor cx' = predecessor cx \<and>
    ag_vault_id b = ag_vault_id a \<and> access_to_json ext (ag_access b) = access_to_json ext (ag_access a)"
proof -
  have plain: "canonical_profile acc prof = prof" if "(\<exists>i. acc = ProjectAcc i) \<or> (\<exists>h. acc = WasmHashAcc h)" for acc prof
    using that by auto
  have valid: "accessor_valid acc prof s" if "store_secrets_internal ext c ow pay acc prof enc access vault s = Inr (u, fs)"
    "acc = canonical_accessor ext acc0" "prof = canonical_profile acc prof0" for c ow pay acc prof enc access vault u fs acc0 prof0
    using store_internal_run(2) [OF that(1) refl] that(2,3) canonical_accessor_idem [OF lower] by (simp add: slot_def)
  obtain ow acc prof where A: "implicit_account_of ext (ag_pubkey a) = Inr ow" "acc = canonical_accessor ext (ag_accessor a)"
    "prof = canonical_profile acc (ag_profile a)" "CHR '':'' \<notin> set prof" "(\<exists>i. acc = ProjectAcc i) \<or> (\<exists>h. acc = WasmHashAcc h)"
    "accessor_valid acc prof s"
    by (rule store_agent_secret_run [OF a(1)]) (metis valid)
  obtain ow' acc' prof' where B: "implicit_account_of ext (ag_pubkey b) = Inr ow'" "acc' = canonical_accessor ext (ag_accessor b)"
    "prof' = canonical_profile acc' (ag_profile b)" "CHR '':'' \<notin> set prof'" "(\<exists>i. acc' = ProjectAcc i) \<or> (\<exists>h. acc' = WasmHashAcc h)"
    "accessor_valid acc' prof' s"
    by (rule store_agent_secret_run [OF b(1)]) (metis valid)
  have "\<forall>w. ag_vault_id a = Some w \<or> ag_vault_id b = Some w \<longrightarrow> w \<noteq> [] \<and> CHR '':'' \<notin> set w"
    using a(2) b(2) by (auto simp: colon_free_call_def)
  moreover have "secret_store_message ext (ag_pubkey a) acc prof (ag_encrypted a) (predecessor cx) (ag_vault_id a) (ag_access a) =
      secret_store_message ext (ag_pubkey b) acc' prof' (ag_encrypted b) (predecessor cx') (ag_vault_id b) (ag_access b)"
    using same by (simp add: agent_message_def A(2,3) B(2,3))
  moreover have "CHR '':'' \<notin> set (ag_encrypted a)" "CHR '':'' \<notin> set (ag_encrypted b)" "CHR '':'' \<notin> set (predecessor cx)"
    "CHR '':'' \<notin> set (predecessor cx')"
    using a(2) b(2) by (simp_all add: colon_free_call_def)
  ultimately have "ag_pubkey a = ag_pubkey b \<and> acc = acc' \<and> prof = prof' \<and> ag_encrypted a = ag_encrypted b \<and>
      predecessor cx = predecessor cx' \<and> ag_vault_id a = ag_vault_id b \<and>
      access_to_json ext (ag_access a) = access_to_json ext (ag_access b)"
    using secret_message_inject [OF hex A(1) B(1) A(6) B(6) A(5) B(5) A(4) B(4)] by blast
  moreover have "prof = ag_profile a" "prof' = ag_profile b" using plain A(3,5) B(3,5) by auto
  ultimately show ?thesis using A(2) B(2) by simp
qed

text \<open>
  C31. An agent's secret is stored only on the agent's own authority: the owner is the account of the
  key that signed, and the signature is over a message that fixes the key, the canonical accessor, the
  profile, the ciphertext, the paying caller, the vault and the printed access condition: no other call
  the contract would take has the same message (where ciphertext, caller and vault hold no colon, as
  base64 and account names do not). The accessor is a project or a hash; the row stored is the one
  signed for, its binding to a vault the one named, and any refund goes to the caller.
\<close>

theorem agent_secret_authorised:
  assumes hex: "hex_ok ext" and lower: "lowercase_ok ext" and run: "store_agent_secret ext cx a s = Inr (t, es)"
  shows "\<exists>owner acc prof p. implicit_account_of ext (ag_pubkey a) = Inr owner \<and>
    acc = canonical_accessor ext (ag_accessor a) \<and> prof = canonical_profile acc (ag_profile a) \<and>
    ((\<exists>pid. acc = ProjectAcc pid) \<or> (\<exists>h. acc = WasmHashAcc h)) \<and>
    signed_by ext (ag_pubkey a) (sha256 ext (agent_message ext cx a)) (ag_signature a) \<and>
    (\<forall>cx' b t' es'. store_agent_secret ext cx' b s = Inr (t', es') \<and> colon_free_call cx a \<and> colon_free_call cx' b \<and>
        agent_message ext cx a = agent_message ext cx' b \<longrightarrow>
       ag_pubkey b = ag_pubkey a \<and> canonical_accessor ext (ag_accessor b) = acc \<and> ag_profile b = ag_profile a \<and>
       ag_encrypted b = ag_encrypted a \<and> predecessor cx' = predecessor cx \<and> ag_vault_id b = ag_vault_id a \<and>
       access_to_json ext (ag_access b) = access_to_json ext (ag_access a)) \<and>
    secrets_storage t = (secrets_storage s)(\<lparr>sk_accessor = acc, sk_profile = prof, sk_owner = owner\<rparr> \<mapsto> p) \<and>
    sp_encrypted_secrets p = ag_encrypted a \<and> sp_access p = ag_access a \<and>
    secret_vault_bindings t = (if ag_vault_id a = None then secret_vault_bindings s
      else (secret_vault_bindings s)(\<lparr>sk_accessor = acc, sk_profile = prof, sk_owner = owner\<rparr> := ag_vault_id a)) \<and>
    (\<forall>r n. Transfer r n \<in> set es \<longrightarrow> r = predecessor cx)"
  using run
proof (rule store_agent_secret_run)
  fix owner acc prof
  assume acc: "acc = canonical_accessor ext (ag_accessor a)" "prof = canonical_profile acc (ag_profile a)"
    and a: "implicit_account_of ext (ag_pubkey a) = Inr owner"
      "(\<exists>pid. acc = ProjectAcc pid) \<or> (\<exists>h. acc = WasmHashAcc h)"
      "signed_by ext (ag_pubkey a) (sha256 ext (secret_store_message ext (ag_pubkey a) acc prof
         (ag_encrypted a) (predecessor cx) (ag_vault_id a) (ag_access a))) (ag_signature a)"
    and stored: "store_secrets_internal ext cx owner (predecessor cx) acc prof (ag_encrypted a)
        (ag_access a) (ag_vault_id a) s = Inr (t, es)"
  have key: "slot ext acc prof owner = \<lparr>sk_accessor = acc, sk_profile = prof, sk_owner = owner\<rparr>"
    using acc canonical_accessor_idem [OF lower] by (simp add: slot_def)
  note r = store_internal_run [OF stored key [symmetric]]
  have "\<forall>r n. Transfer r n \<in> set es \<longrightarrow> r = predecessor cx" using r(12) by blast
  moreover have "signed_by ext (ag_pubkey a) (sha256 ext (agent_message ext cx a)) (ag_signature a)"
    using a(3) acc by (simp add: agent_message_def)
  moreover have "\<forall>cx' b t' es'. store_agent_secret ext cx' b s = Inr (t', es') \<and> colon_free_call cx a \<and> colon_free_call cx' b \<and>
        agent_message ext cx a = agent_message ext cx' b \<longrightarrow>
       ag_pubkey b = ag_pubkey a \<and> canonical_accessor ext (ag_accessor b) = acc \<and> ag_profile b = ag_profile a \<and>
       ag_encrypted b = ag_encrypted a \<and> predecessor cx' = predecessor cx \<and> ag_vault_id b = ag_vault_id a \<and>
       access_to_json ext (ag_access b) = access_to_json ext (ag_access a)"
    unfolding acc(1) using agent_messages_differ [OF hex lower run] by blast
  moreover have "sp_encrypted_secrets (stored_profile ext cx k (ag_encrypted a) (ag_access a) (ag_vault_id a) s) = ag_encrypted a"
    "sp_access (stored_profile ext cx k (ag_encrypted a) (ag_access a) (ag_vault_id a) s) = ag_access a" for k
    by (simp_all add: stored_profile_def)
  ultimately show ?thesis using a(1,2) acc r(6,8) by blast
qed

text \<open>
  Storage deposits of the secrets module balance exactly: on every call that returns, what
  was attached plus what is held for rows and nonce floors equals what is paid out plus what is
  held afterwards.
\<close>

theorem secret_deposit_accounting:
  assumes "secrets_ok ext s" "run_secret_call ext c cx s = Inr (t, es)"
  shows "attached_deposit cx + secret_deposits s = paid_out es + secret_deposits t"
proof (cases c)
  case (StoreSecrets acc prof enc access vault)
  with assms show ?thesis by (auto simp: store_secrets_def dest: store_internal_deposits)
next
  case (StoreAgentSecret a)
  with assms(2) have "store_agent_secret ext cx a s = Inr (t, es)" by simp
  then show ?thesis
    by (rule store_agent_secret_run) (use assms(1) in \<open>auto dest: store_internal_deposits\<close>)
next
  case (DeleteAgentSecret pk acc prof sg)
  with assms(2) have "delete_agent_secret ext cx pk acc prof sg s = Inr (t, es)" by simp
  then show ?thesis
    by (rule delete_agent_secret_run)
      (use delete_internal_deposits [OF assms(1), of "\<lparr>sk_accessor = _, sk_profile = _, sk_owner = _\<rparr>"]
        in auto)
next
  case (DeleteSecrets acc prof)
  with assms delete_internal_deposits [OF assms(1),
      of "\<lparr>sk_accessor = _, sk_profile = _, sk_owner = predecessor cx\<rparr>"] show ?thesis
    by (auto simp: delete_secrets_def Let_def run_simps)
next
  case (UnbindSecretVault acc prof)
  with assms show ?thesis by (auto dest: unbind_deposits)
next
  case (UpdateAccess acc prof access)
  with assms show ?thesis by (auto dest: update_access_deposits)
qed

text \<open>
  The nonce the contract suggests is one it accepts: it is above the owner's floor, and no
  live payment key of the owner sits at it, so short of the 32-bit limit a new key at that nonce
  is refused neither as used nor as existing.
\<close>

theorem suggested_nonce_is_free:
  assumes "secrets_ok ext s" "get_next_payment_key_nonce owner s = n" "n < 2 ^ 32 - 1"
  shows "payment_key_nonce_floor s owner < n \<and>
    secrets_storage s \<lparr>sk_accessor = SystemAcc PaymentKey, sk_profile = show_nat n, sk_owner = owner\<rparr> = None"
proof -
  from assms(2,3) have fl: "payment_key_nonce_floor s owner < n"
    unfolding get_next_payment_key_nonce_def Let_def by linarith
  moreover have "secrets_storage s
      \<lparr>sk_accessor = SystemAcc PaymentKey, sk_profile = show_nat n, sk_owner = owner\<rparr> \<noteq> Some p" for p
  proof
    assume "secrets_storage s
      \<lparr>sk_accessor = SystemAcc PaymentKey, sk_profile = show_nat n, sk_owner = owner\<rparr> = Some p"
    from secrets_okD(4) [OF assms(1) this] obtain m where
      "show_nat n = show_nat m" "m \<le> payment_key_nonce_floor s owner"
      by (auto simp: secret_row_ok_def is_payment_key_def)
    with show_nat_inject fl show False by fastforce
  qed
  ultimately show ?thesis by blast
qed

section \<open>Witnesses\<close>

lemma show_one: "show_nat (Suc 0) = ''1''"
  by (subst show_nat.simps) simp

lemma parse_one: "parse_u32 ''01'' = Some 1" "parse_u32 ''1'' = Some 1"
  by (simp_all add: parse_uint_def digit_val_def upt_rec)

lemma condition_ok_AllowAll: "condition_ok AllowAll"
  by (simp add: condition_ok_def)

lemma profile_one_ok: "profile_shape_error ext ''1'' = None"
  by (simp add: profile_shape_error_def PROFILE_MAX_BYTES_def is_alphanumeric_def is_ascii_def
      is_ascii_alphanumeric_def)

lemma not_implicit_one: "\<not> is_implicit_account_name ''1''"
  by (simp add: is_implicit_account_name_def)

lemmas secret_eval = eval_simps Let_def store_secrets_internal_def assert_condition_bounds_pass
  condition_ok_AllowAll nonce_charge_def settle_secret_deposit_def announce_payment_key_def
  nonce_floor_deposit_def nonce_floor_entry_bytes_def calculate_secret_storage_size_def
  STORAGE_PRICE_PER_BYTE_def payment_key_nonce_floor_def wallet_start_def new_contract_def
  profile_one_ok not_implicit_one

lemma access_plain: "access_to_json reference_externals c = ''access''"
  by (simp add: reference_externals_def)

lemma demo_payment_key:
  "\<exists>t es. store_secrets reference_externals (call_by ''a'' (10 ^ 25)) (SystemAcc PaymentKey) ''01'' ''c''
      AllowAll None wallet_start = Inr (t, es)"
  by (simp add: store_secrets_def secret_eval parse_one show_one is_payment_key_def
      access_plain)

theorem secret_read_back_witness:
  "\<exists>t es view. store_secrets reference_externals (call_by ''a'' (10 ^ 25)) (SystemAcc PaymentKey) ''01''
      ''c'' AllowAll None wallet_start = Inr (t, es) \<and>
     get_secrets reference_externals (SystemAcc PaymentKey) ''1'' ''a'' t = Some view \<and>
     sv_encrypted_secrets view = ''c''"
proof -
  from demo_payment_key obtain t es where run: "store_secrets reference_externals
      (call_by ''a'' (10 ^ 25)) (SystemAcc PaymentKey) ''01'' ''c'' AllowAll None wallet_start
      = Inr (t, es)" by blast
  have "canonical_profile (canonical_accessor reference_externals (SystemAcc PaymentKey)) ''1''
      = canonical_profile (canonical_accessor reference_externals (SystemAcc PaymentKey)) ''01''"
    by (simp add: parse_one)
  from secret_read_back [OF run refl this] run show ?thesis by (auto simp: call_by_def)
qed

theorem secret_deposit_accounting_witness:
  "\<exists>t es. run_secret_call reference_externals (StoreSecrets (SystemAcc PaymentKey) ''01'' ''c'' AllowAll None)
      (call_by ''a'' (10 ^ 25)) wallet_start = Inr (t, es) \<and>
     10 ^ 25 + secret_deposits wallet_start = paid_out es + secret_deposits t"
proof -
  from demo_payment_key obtain t es where run: "run_secret_call reference_externals
      (StoreSecrets (SystemAcc PaymentKey) ''01'' ''c'' AllowAll None) (call_by ''a'' (10 ^ 25))
      wallet_start = Inr (t, es)" by auto
  have "secrets_ok reference_externals wallet_start" by (simp add: wallet_start_def secrets_ok_new)
  from secret_deposit_accounting [OF this run] run show ?thesis
    by (auto simp: call_by_def)
qed

theorem suggested_nonce_is_free_witness:
  "get_next_payment_key_nonce ''a'' wallet_start = 1 \<and> payment_key_nonce_floor wallet_start ''a'' < 1"
proof -
  have none: "ffilter P {||} = {||}" for P :: "secret_key \<Rightarrow> bool" by auto
  have n: "get_next_payment_key_nonce ''a'' wallet_start = 1"
    by (simp add: get_next_payment_key_nonce_def wallet_start_def new_contract_def index_get_def
        payment_key_nonce_floor_def none)
  have "secrets_ok reference_externals wallet_start" by (simp add: wallet_start_def secrets_ok_new)
  from suggested_nonce_is_free [OF this n] n show ?thesis by simp
qed

definition demo_hash :: secret_accessor where
  "demo_hash = WasmHashAcc (replicate 64 CHR ''a'')"

definition demo_agent :: agent_args where
  "demo_agent = \<lparr>ag_pubkey = demo_key, ag_accessor = demo_hash, ag_profile = ''1'', ag_encrypted = ''c'',
     ag_access = AllowAll, ag_vault_id = None,
     ag_signature = plain_hex_encode (replicate 64 CHR ''s'')\<rparr>"

lemma valid_plain: "valid_account reference_externals w"
  by (simp add: reference_externals_def)

lemma demo_owner: "implicit_account_of reference_externals demo_key
    = Inr (plain_hex_encode (replicate 32 CHR ''k''))"
  by (simp add: implicit_account_of_def demo_parse eval_simps encode_plain valid_plain)

lemma demo_hash_canonical: "canonical_accessor ext demo_hash = demo_hash"
  by (simp add: demo_hash_def to_lowercase_def is_ascii_def ascii_lower_def list_all_iff)

lemma demo_hash_valid: "accessor_valid demo_hash p s"
  by (simp add: demo_hash_def is_ascii_hexdigit_def list_all_iff)

lemma demo_hash_kind: "(\<exists>i. demo_hash = ProjectAcc i) \<or> (\<exists>h. demo_hash = WasmHashAcc h)"
  by (simp add: demo_hash_def)

lemma demo_profile: "canonical_profile demo_hash ''1'' = ''1''"
  by (simp add: demo_hash_def)

lemma assert_accessor_pass: "accessor_valid a p s \<Longrightarrow> assert_accessor a p s k = k"
  by (cases "(a, p, s)" rule: accessor_valid.cases) (auto simp: eval_simps split: option.splits)

lemma demo_agent_internal:
  "\<exists>t es. store_secrets_internal reference_externals (call_by ''b'' (10 ^ 25))
      (plain_hex_encode (replicate 32 CHR ''k'')) ''b'' demo_hash ''1'' ''c'' AllowAll None wallet_start
      = Inr (t, es)"
  by (simp add: secret_eval demo_hash_canonical demo_profile assert_accessor_pass demo_hash_valid)
    (simp add: is_payment_key_def demo_hash_def access_plain eval_simps)

lemma demo_agent_runs:
  "\<exists>t es. store_agent_secret reference_externals (call_by ''b'' (10 ^ 25)) demo_agent wallet_start
      = Inr (t, es)"
  using demo_agent_internal
  by (simp add: store_agent_secret_def demo_agent_def Let_def demo_owner demo_hash_canonical
      demo_profile eval_simps profile_one_ok verify_wallet_signature_pass demo_signed
      assert_profile_is_unambiguous_def) (simp add: demo_hash_def)

theorem agent_secret_authorised_witness:
  "\<exists>t es. store_agent_secret reference_externals (call_by ''b'' (10 ^ 25)) demo_agent wallet_start
      = Inr (t, es) \<and> (\<forall>r n. Transfer r n \<in> set es \<longrightarrow> r = ''b'')"
proof -
  from demo_agent_runs obtain t es where run: "store_agent_secret reference_externals
      (call_by ''b'' (10 ^ 25)) demo_agent wallet_start = Inr (t, es)" by blast
  from agent_secret_authorised [OF hex_ok_reference lowercase_ok_reference run] run show ?thesis
    by (auto simp: call_by_def)
qed

theorem secret_message_inject_witness:
  "secret_store_message reference_externals demo_key demo_hash ''1'' ''c'' ''b'' None AllowAll
     \<noteq> secret_delete_message demo_key demo_hash ''1'' ''b''"
  using secret_message_inject [where p = "''1''" and p' = "''1''" and e = "''c''" and e' = "''c''"
      and y = "''b''" and y' = "''b''" and v = None and v' = None and c = AllowAll and c' = AllowAll
      and s = wallet_start and n = 1 and l = True and u = 1 and d = "''x''",
      OF hex_ok_reference demo_owner demo_owner demo_hash_valid demo_hash_valid demo_hash_kind
        demo_hash_kind]
  by simp

end
