(* ===== verification/Payment.thy ===== *)
theory Payment
  imports Secrets
begin

text \<open>
  Stablecoin and payment keys (\<open>contract/src/payment.rs\<close>, with the developer withdrawal of
  \<open>contract/src/lib.rs\<close>). \<open>ft_on_transfer\<close> receives the configured token and tops up a key,
  credits a balance or sells a subscription; what it returns is what NEP-141 sends back. Top-ups
  and deletions of keys wait for the operator through a yield. Balances and earnings are
  interpretations of the prelude's ledger. The three things that matter here are that a refusal
  keeps nothing, that the callbacks settle each transfer one way, and what a top-up paid in NEAR
  spends.
\<close>

section \<open>The two ledgers\<close>

definition credit_balance :: "account \<Rightarrow> nat \<Rightarrow> contract \<Rightarrow> contract contract_call" where
  "credit_balance a n s =
     add_u128 (get0 (user_stablecoin_balances s) a) n (\<lambda>v.
     Inr (s\<lparr>user_stablecoin_balances := (user_stablecoin_balances s)(a \<mapsto> v)\<rparr>))"

definition credit_earnings :: "account \<Rightarrow> nat \<Rightarrow> contract \<Rightarrow> contract contract_call" where
  "credit_earnings a n s =
     add_u128 (get0 (developer_earnings s) a) n (\<lambda>v.
     Inr (s\<lparr>developer_earnings := (developer_earnings s)(a \<mapsto> v)\<rparr>))"

lemma get0_le_total: "finite (dom m) \<Longrightarrow> get0 m a \<le> map_total m"
  using weight_at_le_total [of m id a] by simp

lemma map_total_upd:
  "finite (dom m) \<Longrightarrow> map_total (m(a \<mapsto> v)) + get0 m a = map_total m + v"
  using weight_total_update [of m id a v] by simp

lemma map_total_credit:
  "finite (dom m) \<Longrightarrow> map_total (m(a \<mapsto> get0 m a + n)) = map_total m + n"
  using map_total_upd [of m a "get0 m a + n"] by simp

interpretation balances: ledger "\<lambda>s. finite (dom (user_stablecoin_balances s))"
    "\<lambda>s. get0 (user_stablecoin_balances s)" "\<lambda>s. map_total (user_stablecoin_balances s)"
    credit_balance
  by unfold_locales (auto simp: credit_balance_def run_simps map_total_credit get0_le_total)

interpretation earnings: ledger "\<lambda>s. finite (dom (developer_earnings s))"
    "\<lambda>s. get0 (developer_earnings s)" "\<lambda>s. map_total (developer_earnings s)"
    credit_earnings
  by unfold_locales (auto simp: credit_earnings_def run_simps map_total_credit get0_le_total)

section \<open>Receiving the token\<close>

definition MIN_TOP_UP_AMOUNT :: nat where "MIN_TOP_UP_AMOUNT = 10000"

definition payment_key_of :: "account \<Rightarrow> nat \<Rightarrow> secret_key" where
  "payment_key_of owner nonce =
     \<lparr>sk_accessor = SystemAcc PaymentKey, sk_profile = show_nat nonce, sk_owner = owner\<rparr>"

definition handle_buy_subscription ::
  "account \<Rightarrow> account \<Rightarrow> nat \<Rightarrow> nat \<Rightarrow> nat \<Rightarrow> contract \<Rightarrow> outcome" where
  "handle_buy_subscription owner payer amount nonce plan_index s =
     expect (plan_for_sale (subscription_plans s) plan_index amount) (Pay NoPlanOnSale) (\<lambda>plan.
     ensure (secrets_storage s (payment_key_of owner nonce) \<noteq> None) (Pay PaymentKeyNotFound) (
     Inr (s, [EmitSystem (SubscriptionPurchased owner nonce (pl_index plan) amount payer),
              ReturnU128 0])))"

definition handle_deposit_balance :: "account \<Rightarrow> nat \<Rightarrow> contract \<Rightarrow> outcome" where
  "handle_deposit_balance sender amount s =
     bind_call (credit_balance sender amount s) (\<lambda>t. Inr (t, [ReturnU128 0]))"

definition handle_top_up :: "ctx \<Rightarrow> account \<Rightarrow> nat \<Rightarrow> nat \<Rightarrow> contract \<Rightarrow> outcome" where
  "handle_top_up cx owner amount nonce s =
     ensure (amount \<ge> MIN_TOP_UP_AMOUNT) (Pay BelowMinimum) (
     expect (secrets_storage s (payment_key_of owner nonce)) (Pay PaymentKeyNotFound) (\<lambda>profile.
     Inr (s, [EmitSystem (TopUpPaymentKeyEvent (new_data_id cx) owner nonce amount
                (sp_encrypted_secrets profile)),
              YieldTopUp (new_data_id cx) owner nonce amount])))"

definition ft_on_transfer ::
  "externals \<Rightarrow> ctx \<Rightarrow> account \<Rightarrow> nat \<Rightarrow> string \<Rightarrow> contract \<Rightarrow> outcome" where
  "ft_on_transfer ext cx sender amount msg s =
     not_payable cx (
     expect (payment_token_contract s) (Pay TokenNotConfigured) (\<lambda>configured_token.
     ensure (predecessor cx = configured_token) (Pay WrongToken) (
     expect (parse_ft_action ext msg) (Pay BadMessage) (\<lambda>action.
     case action of
       TopUpPaymentKey nonce owner \<Rightarrow>
         handle_top_up cx (case owner of None \<Rightarrow> sender | Some o' \<Rightarrow> o') amount nonce s
     | DepositBalance \<Rightarrow> handle_deposit_balance sender amount s
     | BuySubscription nonce owner plan \<Rightarrow>
         handle_buy_subscription (case owner of None \<Rightarrow> sender | Some o' \<Rightarrow> o') sender amount nonce
           plan s))))"

text \<open>The callback's argument is what the resume carried, \<open>None\<close> when the yield timed out.\<close>

definition on_top_up_response ::
  "ctx \<Rightarrow> account \<Rightarrow> nat \<Rightarrow> nat \<Rightarrow> top_up_result option \<Rightarrow> contract \<Rightarrow> outcome" where
  "on_top_up_response cx owner nonce amount result s =
     private_call cx (not_payable cx (
     case result of
       Some (TopUpSuccess new_encrypted_data) \<Rightarrow>
         (case secrets_storage s (payment_key_of owner nonce) of
            Some profile \<Rightarrow>
              Inr (rewrite_secret (payment_key_of owner nonce)
                     (profile\<lparr>sp_encrypted_secrets := new_encrypted_data,
                              sp_updated_at := block_timestamp cx\<rparr>) s,
                   [ReturnU128 0])
          | None \<Rightarrow> Inr (s, [ReturnU128 amount]))
     | Some (TopUpError message) \<Rightarrow> Inr (s, [ReturnU128 amount])
     | None \<Rightarrow> Inr (s, [ReturnU128 amount])))"

definition decode_data_id :: "externals \<Rightarrow> string \<Rightarrow> data_id contract_call" where
  "decode_data_id ext data_id_hex =
     expect (hex_decode ext data_id_hex) (Pay BadDataId) (\<lambda>bytes.
     ensure (length bytes = 32) (Pay BadDataId) (Inr bytes))"

definition resume_topup ::
  "externals \<Rightarrow> ctx \<Rightarrow> string \<Rightarrow> top_up_result \<Rightarrow> contract \<Rightarrow> outcome" where
  "resume_topup ext cx data_id_hex result s =
     not_payable cx (
     assert_operator cx s (
     bind_call (decode_data_id ext data_id_hex) (\<lambda>data_id_hash.
     ensure (resume_ok cx) (Pay YieldGone) (
     Inr (s, [ResumeTopUp data_id_hash result])))))"

section \<open>Deleting a payment key\<close>

definition delete_payment_key :: "ctx \<Rightarrow> nat \<Rightarrow> contract \<Rightarrow> outcome" where
  "delete_payment_key cx nonce s =
     (let caller = predecessor cx in
      ensure (attached_deposit cx \<ge> 1) (Guard NeedsOneYocto) (
      ensure (secrets_storage s (payment_key_of caller nonce) \<noteq> None) (Pay PaymentKeyNotFound) (
      Inr (s, [EmitSystem (DeletePaymentKeyEvent (new_data_id cx) caller nonce),
               YieldDeleteKey (new_data_id cx) caller nonce]))))"

definition on_delete_payment_key_response ::
  "ctx \<Rightarrow> account \<Rightarrow> nat \<Rightarrow> delete_payment_key_result option \<Rightarrow> contract \<Rightarrow> outcome" where
  "on_delete_payment_key_response cx owner nonce result s =
     private_call cx (not_payable cx (
     case result of
       Some DeleteSuccess \<Rightarrow>
         bind_call (delete_secrets_internal (payment_key_of owner nonce) owner owner s) (\<lambda>(t, es).
         Inr (raise_payment_key_nonce_floor owner nonce t, es))
     | Some (DeleteError message) \<Rightarrow> Inr (s, [])
     | None \<Rightarrow> Inr (s, [])))"

definition resume_delete_payment_key ::
  "externals \<Rightarrow> ctx \<Rightarrow> string \<Rightarrow> delete_payment_key_result \<Rightarrow> contract \<Rightarrow> outcome" where
  "resume_delete_payment_key ext cx data_id_hex result s =
     not_payable cx (
     assert_operator cx s (
     bind_call (decode_data_id ext data_id_hex) (\<lambda>data_id_hash.
     ensure (resume_ok cx) (Pay YieldGone) (
     Inr (s, [ResumeDeleteKey data_id_hash result])))))"

section \<open>Topping up with NEAR\<close>

definition MIN_NEAR_DEPOSIT :: nat where "MIN_NEAR_DEPOSIT = 10000000000000000000000"
definition EXECUTION_COST :: nat where "EXECUTION_COST = 10000000000000000000000"
definition WNEAR_CONTRACT :: account where "WNEAR_CONTRACT = ''wrap.near''"

definition internal_request_token_swap ::
  "ctx \<Rightarrow> account \<Rightarrow> nat \<Rightarrow> string \<Rightarrow> nat \<Rightarrow> account \<Rightarrow> effect" where
  "internal_request_token_swap cx owner nonce token amount swap_contract =
     FunctionCall (current_account cx) ''request_execution''
       (TokenSwapArgs owner nonce token amount swap_contract) 15000000000000000000000"

definition top_up_payment_key_with_near :: "ctx \<Rightarrow> nat \<Rightarrow> account \<Rightarrow> contract \<Rightarrow> outcome" where
  "top_up_payment_key_with_near cx nonce swap_contract s =
     assert_not_paused s (
     let caller = predecessor cx; wrap_amount = attached_deposit cx - EXECUTION_COST in
     ensure (wrap_amount \<ge> MIN_NEAR_DEPOSIT) (Pay BelowMinimum) (
     ensure (secrets_storage s (payment_key_of caller nonce) \<noteq> None) (Pay PaymentKeyNotFound) (
     add_u128 (base_fee s) 1 (\<lambda>reserve.
     ensure (EXECUTION_COST \<ge> reserve) (Guard InsufficientDeposit) (
     Inr (s, [FunctionCall WNEAR_CONTRACT ''near_deposit'' NoArgs wrap_amount,
              FunctionCall WNEAR_CONTRACT ''ft_transfer'' (FtTransferArgs swap_contract wrap_amount) 1,
              internal_request_token_swap cx caller nonce WNEAR_CONTRACT wrap_amount
                swap_contract]))))))"

definition top_up_payment_key_with_token ::
  "ctx \<Rightarrow> nat \<Rightarrow> account \<Rightarrow> nat \<Rightarrow> account \<Rightarrow> contract \<Rightarrow> outcome" where
  "top_up_payment_key_with_token cx nonce token amount swap_contract s =
     not_payable cx (Inl (Refused (Guard MethodDisabled)))"

section \<open>Withdrawing earnings\<close>

definition withdraw_developer_earnings :: "ctx \<Rightarrow> contract \<Rightarrow> outcome" where
  "withdraw_developer_earnings cx s =
     ensure (attached_deposit cx \<ge> 1) (Guard NeedsOneYocto) (
     let caller = predecessor cx; balance = get0 (developer_earnings s) caller in
     ensure (balance > 0) (Pay NoEarnings) (
     expect (payment_token_contract s) (Pay TokenNotConfigured) (\<lambda>token.
     Inr (s\<lparr>developer_earnings := (developer_earnings s)(caller := None)\<rparr>,
          [FtTransferThenSettle token caller balance]))))"

definition on_withdraw_developer_earnings ::
  "ctx \<Rightarrow> account \<Rightarrow> nat \<Rightarrow> bool \<Rightarrow> contract \<Rightarrow> outcome" where
  "on_withdraw_developer_earnings cx developer amount transferred s =
     private_call cx (not_payable cx (
     if transferred then Inr (s, [])
     else bind_call (credit_earnings developer amount s) (\<lambda>t. Inr (t, []))))"

section \<open>Calls, and what each leaves alone\<close>

datatype payment_call =
    FtOnTransfer account nat string
  | OnTopUpResponse account nat nat "top_up_result option"
  | ResumeTopup string top_up_result
  | DeletePaymentKey nat
  | OnDeletePaymentKeyResponse account nat "delete_payment_key_result option"
  | ResumeDeletePaymentKey string delete_payment_key_result
  | TopUpWithNear nat account
  | TopUpWithToken nat account nat account
  | WithdrawDeveloperEarnings
  | OnWithdrawDeveloperEarnings account nat bool

fun run_payment_call :: "externals \<Rightarrow> payment_call \<Rightarrow> ctx \<Rightarrow> contract \<Rightarrow> outcome" where
  "run_payment_call ext (FtOnTransfer a n msg) cx s = ft_on_transfer ext cx a n msg s"
| "run_payment_call ext (OnTopUpResponse ow k n r) cx s = on_top_up_response cx ow k n r s"
| "run_payment_call ext (ResumeTopup d r) cx s = resume_topup ext cx d r s"
| "run_payment_call ext (DeletePaymentKey k) cx s = delete_payment_key cx k s"
| "run_payment_call ext (OnDeletePaymentKeyResponse ow k r) cx s =
     on_delete_payment_key_response cx ow k r s"
| "run_payment_call ext (ResumeDeletePaymentKey d r) cx s = resume_delete_payment_key ext cx d r s"
| "run_payment_call ext (TopUpWithNear k sw) cx s = top_up_payment_key_with_near cx k sw s"
| "run_payment_call ext (TopUpWithToken k tok n sw) cx s =
     top_up_payment_key_with_token cx k tok n sw s"
| "run_payment_call ext WithdrawDeveloperEarnings cx s = withdraw_developer_earnings cx s"
| "run_payment_call ext (OnWithdrawDeveloperEarnings a n ok) cx s =
     on_withdraw_developer_earnings cx a n ok s"

lemma credit_balance_Inr [run_simps]:
  "credit_balance a n s = Inr t \<longleftrightarrow> get0 (user_stablecoin_balances s) a + n < 2 ^ 128 \<and>
     t = s\<lparr>user_stablecoin_balances :=
            (user_stablecoin_balances s)(a \<mapsto> get0 (user_stablecoin_balances s) a + n)\<rparr>"
  by (auto simp: credit_balance_def run_simps)

lemma credit_earnings_Inr [run_simps]:
  "credit_earnings a n s = Inr t \<longleftrightarrow> get0 (developer_earnings s) a + n < 2 ^ 128 \<and>
     t = s\<lparr>developer_earnings := (developer_earnings s)(a \<mapsto> get0 (developer_earnings s) a + n)\<rparr>"
  by (auto simp: credit_earnings_def run_simps)

lemma ft_on_transfer_run:
  assumes "ft_on_transfer ext cx sender amount msg s = Inr (t, es)"
  obtains (top_up) nonce owner where "parse_ft_action ext msg = Some (TopUpPaymentKey nonce owner)"
      "handle_top_up cx (case owner of None \<Rightarrow> sender | Some o' \<Rightarrow> o') amount nonce s = Inr (t, es)"
  | (deposit) "parse_ft_action ext msg = Some DepositBalance"
      "handle_deposit_balance sender amount s = Inr (t, es)"
  | (buy) nonce owner plan where "parse_ft_action ext msg = Some (BuySubscription nonce owner plan)"
      "handle_buy_subscription (case owner of None \<Rightarrow> sender | Some o' \<Rightarrow> o') sender amount nonce
         plan s = Inr (t, es)"
proof -
  from assms obtain action where "parse_ft_action ext msg = Some action"
    by (auto simp: ft_on_transfer_def run_simps)
  with assms that show ?thesis
    by (cases action) (auto simp: ft_on_transfer_def run_simps)
qed

lemmas payment_handler_defs =
  handle_top_up_def handle_deposit_balance_def handle_buy_subscription_def resume_topup_def
  resume_delete_payment_key_def delete_payment_key_def top_up_payment_key_with_near_def
  top_up_payment_key_with_token_def withdraw_developer_earnings_def
  on_withdraw_developer_earnings_def

lemma on_top_up_response_run:
  assumes "on_top_up_response cx owner nonce amount result s = Inr (t, es)"
  obtains (accepted) d p where "result = Some (TopUpSuccess d)"
      "secrets_storage s (payment_key_of owner nonce) = Some p"
      "t = rewrite_secret (payment_key_of owner nonce)
             (p\<lparr>sp_encrypted_secrets := d, sp_updated_at := block_timestamp cx\<rparr>) s"
      "es = [ReturnU128 0]"
  | (refunded) "t = s" "es = [ReturnU128 amount]"
      "(\<nexists>d. result = Some (TopUpSuccess d)) \<or> secrets_storage s (payment_key_of owner nonce) = None"
  using assms
  by (cases result; cases "secrets_storage s (payment_key_of owner nonce)")
    (auto simp: on_top_up_response_def run_simps split: top_up_result.splits)

lemma on_delete_response_run:
  assumes "on_delete_payment_key_response cx owner nonce result s = Inr (t, es)"
  obtains (deleted) u where "result = Some DeleteSuccess"
      "delete_secrets_internal (payment_key_of owner nonce) owner owner s = Inr (u, es)"
      "t = raise_payment_key_nonce_floor owner nonce u"
  | (kept) "t = s" "es = []" "result \<noteq> Some DeleteSuccess"
  using assms
  by (auto simp: on_delete_payment_key_response_def run_simps
      split: option.splits delete_payment_key_result.splits)

lemma payment_key_owner [simp]: "sk_owner (payment_key_of owner nonce) = owner"
  by (simp add: payment_key_of_def)

lemma raise_floor_ok:
  assumes "secrets_ok ext s"
  shows "secrets_ok ext (raise_payment_key_nonce_floor owner nonce s)"
proof -
  have "payment_key_nonce_floor s b \<le> payment_key_nonce_floor (raise_payment_key_nonce_floor owner nonce s) b"
    for b by (simp add: floor_after_raise)
  moreover have "finite (dom (payment_key_nonce_floors (raise_payment_key_nonce_floor owner nonce s)))"
    using secrets_okD(2) [OF assms] by (simp add: raise_payment_key_nonce_floor_def)
  ultimately show ?thesis
    using assms unfolding secrets_ok_def
    by (auto simp: secret_rows.consistent_def intro: secret_row_ok_mono)
qed

text \<open>A call of this module that returns is one of four kinds of edit.\<close>

lemma run_payment_call_cases:
  assumes "run_payment_call ext c cx s = Inr (t, es)"
  obtains (same) "t = s"
  | (balance) b where "t = s\<lparr>user_stablecoin_balances := b\<rparr>"
  | (earned) e where "t = s\<lparr>developer_earnings := e\<rparr>"
  | (rewritten) k p p' where "secrets_storage s k = Some p" "sp_access p' = sp_access p"
      "sp_storage_deposit p' = sp_storage_deposit p" "t = rewrite_secret k p' s"
  | (deleted) k ow n u where "delete_secrets_internal k (sk_owner k) ow s = Inr (u, es)"
      "ow = sk_owner k" "k = payment_key_of ow n" "t = raise_payment_key_nonce_floor ow n u"
proof (cases c)
  case (FtOnTransfer a n msg)
  with assms have "ft_on_transfer ext cx a n msg s = Inr (t, es)" by simp
  then show ?thesis
    by (rule ft_on_transfer_run)
      (auto simp: payment_handler_defs run_simps Let_def intro: same balance)
next
  case (OnTopUpResponse ow k n r)
  with assms have "on_top_up_response cx ow k n r s = Inr (t, es)" by simp
  then show ?thesis
  proof (rule on_top_up_response_run)
    fix d p
    assume "secrets_storage s (payment_key_of ow k) = Some p"
      "t = rewrite_secret (payment_key_of ow k)
             (p\<lparr>sp_encrypted_secrets := d, sp_updated_at := block_timestamp cx\<rparr>) s"
    then show ?thesis by (intro rewritten) simp_all
  qed (simp add: same)
next
  case (OnDeletePaymentKeyResponse ow k r)
  with assms have "on_delete_payment_key_response cx ow k r s = Inr (t, es)" by simp
  then show ?thesis
    by (rule on_delete_response_run)
      (auto intro: same deleted [of "payment_key_of ow k" ow _ k])
next
  case WithdrawDeveloperEarnings
  with assms show ?thesis
    by (intro earned [of "(developer_earnings s)(predecessor cx := None)"])
      (auto simp: withdraw_developer_earnings_def run_simps Let_def)
next
  case (OnWithdrawDeveloperEarnings a n ok)
  show ?thesis
  proof (cases ok)
    case True
    with assms OnWithdrawDeveloperEarnings show ?thesis
      by (intro same) (auto simp: on_withdraw_developer_earnings_def run_simps)
  next
    case False
    with assms OnWithdrawDeveloperEarnings show ?thesis
      by (intro earned [of "(developer_earnings s)(a \<mapsto> get0 (developer_earnings s) a + n)"])
        (auto simp: on_withdraw_developer_earnings_def run_simps)
  qed
next
  case (ResumeTopup d r)
  with assms show ?thesis by (intro same) (auto simp: resume_topup_def run_simps)
next
  case (DeletePaymentKey k)
  with assms show ?thesis by (intro same) (auto simp: delete_payment_key_def run_simps Let_def)
next
  case (ResumeDeletePaymentKey d r)
  with assms show ?thesis by (intro same) (auto simp: resume_delete_payment_key_def run_simps)
next
  case (TopUpWithNear k sw)
  with assms show ?thesis
    by (intro same) (auto simp: top_up_payment_key_with_near_def run_simps Let_def)
next
  case (TopUpWithToken k tok n sw)
  with assms show ?thesis
    by (simp add: top_up_payment_key_with_token_def run_simps)
qed

lemma run_payment_call_secrets_ok:
  assumes ok: "secrets_ok ext s" and run: "run_payment_call ext c cx s = Inr (t, es)"
  shows "secrets_ok ext t"
  using run
proof (cases rule: run_payment_call_cases)
  case same
  with ok show ?thesis by simp
next
  case (balance b)
  with ok show ?thesis
    by (simp add: secrets_ok_def secret_rows.consistent_def secret_row_ok_def
        payment_key_nonce_floor_def)
next
  case (earned e)
  with ok show ?thesis
    by (simp add: secrets_ok_def secret_rows.consistent_def secret_row_ok_def
        payment_key_nonce_floor_def)
next
  case (rewritten k p p')
  from secrets_okD(4) [OF ok rewritten(1)] rewritten(2) have "condition_ok (sp_access p')"
    by (simp add: secret_row_ok_def)
  from secret_edit_ok [OF ok rewritten(1) this] rewritten(4) show ?thesis by simp
next
  case (deleted k ow n u)
  from delete_internal_ok [OF ok] deleted show ?thesis by (metis raise_floor_ok)
qed

lemma delete_secrets_internal_frame:
  assumes "delete_secrets_internal k (sk_owner k) r s = Inr (u, es)"
  obtains st ix vb where
    "u = s\<lparr>secrets_storage := st, user_secrets_index := ix, secret_vault_bindings := vb\<rparr>"
proof (rule delete_internal_run [OF assms refl])
  fix p
  assume "u = drop_secret k p (s\<lparr>secret_vault_bindings := (secret_vault_bindings s)(k := None)\<rparr>)"
  then show thesis
    by (intro that [where st = "(secrets_storage s)(k := None)"
          and ix = "index_remove (sk_owner k) k (user_secrets_index s)"
          and vb = "(secret_vault_bindings s)(k := None)"])
      (simp add: drop_secret_def)
qed

lemma payment_call_frame:
  assumes "run_payment_call ext c cx s = Inr (t, es)"
  shows "\<exists>st ix vb fl b e. t = s\<lparr>secrets_storage := st, user_secrets_index := ix,
           secret_vault_bindings := vb, payment_key_nonce_floors := fl,
           user_stablecoin_balances := b, developer_earnings := e\<rparr>"
  (is "\<exists>st ix vb fl b e. t = ?edit st ix vb fl b e")
  using assms
proof (cases rule: run_payment_call_cases)
  case same
  then have "t = ?edit (secrets_storage s) (user_secrets_index s) (secret_vault_bindings s)
      (payment_key_nonce_floors s) (user_stablecoin_balances s) (developer_earnings s)" by simp
  then show ?thesis by blast
next
  case (balance b)
  then have "t = ?edit (secrets_storage s) (user_secrets_index s) (secret_vault_bindings s)
      (payment_key_nonce_floors s) b (developer_earnings s)" by simp
  then show ?thesis by blast
next
  case (earned e)
  then have "t = ?edit (secrets_storage s) (user_secrets_index s) (secret_vault_bindings s)
      (payment_key_nonce_floors s) (user_stablecoin_balances s) e" by simp
  then show ?thesis by blast
next
  case (rewritten k p p')
  then have "t = ?edit ((secrets_storage s)(k \<mapsto> p')) (user_secrets_index s)
      (secret_vault_bindings s) (payment_key_nonce_floors s) (user_stablecoin_balances s)
      (developer_earnings s)" by (simp add: rewrite_secret_def)
  then show ?thesis by blast
next
  case (deleted k ow n u)
  from delete_secrets_internal_frame [OF deleted(1)] obtain st ix vb where
    u: "u = s\<lparr>secrets_storage := st, user_secrets_index := ix, secret_vault_bindings := vb\<rparr>" .
  then have "t = ?edit st ix vb (payment_key_nonce_floors t) (user_stablecoin_balances s)
      (developer_earnings s)" by (simp add: deleted(4) raise_payment_key_nonce_floor_def)
  then show ?thesis by blast
qed

section \<open>Properties\<close>

text \<open>
  What \<open>ft_on_transfer\<close> keeps, it keeps for what the message asked: it returns only to the
  configured token, and then a deposit credits the sender, and nobody else, with the whole amount;
  a purchase names an active plan that the amount covers and a payment key that exists, announces
  the whole amount and changes nothing; a top-up of at least the minimum for a key that exists
  waits for the operator with the key's present ciphertext. Every other transfer panics, which is
  how NEP-141 hands the tokens back.
\<close>

theorem ft_transfer_kept:
  assumes "ft_on_transfer ext cx sender amount msg s = Inr (t, es)"
  shows "payment_token_contract s = Some (predecessor cx) \<and>
    (case parse_ft_action ext msg of
       None \<Rightarrow> False
     | Some DepositBalance \<Rightarrow>
         get0 (user_stablecoin_balances t) sender = get0 (user_stablecoin_balances s) sender + amount \<and>
         (\<forall>b. b \<noteq> sender \<longrightarrow>
            get0 (user_stablecoin_balances t) b = get0 (user_stablecoin_balances s) b) \<and>
         es = [ReturnU128 0]
     | Some (BuySubscription nonce owner plan) \<Rightarrow>
         let key_owner = (case owner of None \<Rightarrow> sender | Some o' \<Rightarrow> o') in
         t = s \<and> secrets_storage s (payment_key_of key_owner nonce) \<noteq> None \<and>
         (\<exists>p \<in> set (subscription_plans s). pl_index p = plan \<and> pl_active p \<and> pl_price_usd p \<le> amount) \<and>
         es = [EmitSystem (SubscriptionPurchased key_owner nonce plan amount sender), ReturnU128 0]
     | Some (TopUpPaymentKey nonce owner) \<Rightarrow>
         let key_owner = (case owner of None \<Rightarrow> sender | Some o' \<Rightarrow> o') in
         t = s \<and> MIN_TOP_UP_AMOUNT \<le> amount \<and>
         (\<exists>p. secrets_storage s (payment_key_of key_owner nonce) = Some p \<and>
            es = [EmitSystem (TopUpPaymentKeyEvent (new_data_id cx) key_owner nonce amount
                    (sp_encrypted_secrets p)),
                  YieldTopUp (new_data_id cx) key_owner nonce amount]))"
proof -
  have token: "payment_token_contract s = Some (predecessor cx)"
    using assms by (auto simp: ft_on_transfer_def run_simps)
  show ?thesis
    using assms
  proof (cases rule: ft_on_transfer_run)
    case (top_up nonce owner)
    with token show ?thesis by (auto simp: handle_top_up_def run_simps Let_def)
  next
    case deposit
    with token show ?thesis by (auto simp: handle_deposit_balance_def run_simps)
  next
    case (buy nonce owner plan)
    with token show ?thesis
      by (auto simp: handle_buy_subscription_def run_simps Let_def dest: plan_for_sale_sound)
  qed
qed

text \<open>
  A top-up is settled exactly one way. Called by the contract itself, the callback always
  returns; it keeps the tokens (answer 0) exactly when the operator delivered a new ciphertext and
  the key is still there, and then writes that ciphertext and leaves the key's access, deposit and
  creation time alone; in every other case, the timeout included, it answers with the whole amount
  and changes nothing.
\<close>

theorem top_up_settles_one_way:
  assumes "predecessor cx = current_account cx" "attached_deposit cx = 0"
  shows "\<exists>t es. on_top_up_response cx owner nonce amount result s = Inr (t, es) \<and>
    (case (result, secrets_storage s (payment_key_of owner nonce)) of
       (Some (TopUpSuccess d), Some p) \<Rightarrow>
         es = [ReturnU128 0] \<and>
         (\<exists>q. secrets_storage t (payment_key_of owner nonce) = Some q \<and>
              sp_encrypted_secrets q = d \<and> sp_access q = sp_access p \<and>
              sp_storage_deposit q = sp_storage_deposit p \<and> sp_created_at q = sp_created_at p) \<and>
         (\<forall>k. k \<noteq> payment_key_of owner nonce \<longrightarrow> secrets_storage t k = secrets_storage s k)
     | _ \<Rightarrow> es = [ReturnU128 amount] \<and> t = s)"
  using assms
  by (auto simp: on_top_up_response_def private_call_def not_payable_def rewrite_secret_def
      split: option.splits top_up_result.splits)

text \<open>
  Earnings leave the ledger once and come back only when the token transfer failed: a
  withdrawal clears the caller's row, touches no other, and sends exactly what the row held; the
  callback of a failed transfer credits that amount again, so that right after the withdrawal it
  restores every balance; the callback of a successful one changes nothing.
\<close>

theorem withdrawal_round_trip:
  assumes "withdraw_developer_earnings cx s = Inr (t, es)"
    and "predecessor back = current_account back" "attached_deposit back = 0"
    and "get0 (developer_earnings s) (predecessor cx) < 2 ^ 128"
  shows "\<exists>token amount. es = [FtTransferThenSettle token (predecessor cx) amount] \<and>
    amount = get0 (developer_earnings s) (predecessor cx) \<and> 0 < amount \<and>
    get0 (developer_earnings t) (predecessor cx) = 0 \<and>
    on_withdraw_developer_earnings back (predecessor cx) amount True t = Inr (t, []) \<and>
    (\<exists>u. on_withdraw_developer_earnings back (predecessor cx) amount False t = Inr (u, []) \<and>
         (\<forall>b. get0 (developer_earnings u) b = get0 (developer_earnings s) b))"
  using assms
  by (auto simp: withdraw_developer_earnings_def on_withdraw_developer_earnings_def run_simps
      Let_def private_call_def not_payable_def credit_earnings_def fits_def bind_call_def)

text \<open>
  A top-up paid in NEAR spends more than was attached: the three calls it makes carry the
  attached deposit, plus one yoctoNEAR for the transfer, plus the 0.005 NEAR by which the swap
  request's 0.015 exceeds the reserved \<open>EXECUTION_COST\<close>. The difference comes out of the contract.
\<close>

theorem near_top_up_overspends:
  assumes "top_up_payment_key_with_near cx nonce swap_contract s = Inr (t, es)"
  shows "t = s \<and> attached_out es = attached_deposit cx + 5 * 10 ^ 21 + 1 \<and> paid_out es = 0"
proof -
  from assms have "EXECUTION_COST \<le> attached_deposit cx"
    by (auto simp: top_up_payment_key_with_near_def run_simps Let_def EXECUTION_COST_def
        MIN_NEAR_DEPOSIT_def)
  with assms show ?thesis
    by (auto simp: top_up_payment_key_with_near_def run_simps Let_def
        internal_request_token_swap_def EXECUTION_COST_def)
qed

section \<open>Witnesses\<close>

definition paid_contract :: contract where
  "paid_contract = (new_contract ''outlayer'' None None None)
     \<lparr>payment_token_contract := Some ''usdc'', developer_earnings := [''dev'' \<mapsto> 7],
      secrets_storage := [payment_key_of ''a'' 1 \<mapsto>
        \<lparr>sp_encrypted_secrets = ''old'', sp_access = AllowAll, sp_created_at = 1,
         sp_updated_at = 1, sp_storage_deposit = 5\<rparr>]\<rparr>"

theorem ft_transfer_kept_witness:
  "\<exists>t es. ft_on_transfer reference_externals (call_by ''usdc'' 0) ''a'' 25 ''deposit'' paid_contract
      = Inr (t, es) \<and> get0 (user_stablecoin_balances t) ''a'' = 25"
proof -
  have parse: "parse_ft_action reference_externals ''deposit'' = Some DepositBalance"
    by (simp add: reference_externals_def)
  have "\<exists>t es. ft_on_transfer reference_externals (call_by ''usdc'' 0) ''a'' 25 ''deposit'' paid_contract
      = Inr (t, es)"
    by (simp add: ft_on_transfer_def eval_simps paid_contract_def parse handle_deposit_balance_def
        credit_balance_def new_contract_def)
  then obtain t es where run: "ft_on_transfer reference_externals (call_by ''usdc'' 0) ''a'' 25
      ''deposit'' paid_contract = Inr (t, es)" by blast
  from ft_transfer_kept [OF run] run show ?thesis
    by (simp add: parse paid_contract_def new_contract_def)
qed

theorem top_up_settles_one_way_witness:
  "\<exists>t. on_top_up_response (call_by ''outlayer'' 0) ''a'' 1 500 (Some (TopUpSuccess ''new'')) paid_contract
      = Inr (t, [ReturnU128 0]) \<and>
     on_top_up_response (call_by ''outlayer'' 0) ''a'' 2 500 (Some (TopUpSuccess ''new'')) paid_contract
      = Inr (paid_contract, [ReturnU128 500])"
proof -
  have cx: "predecessor (call_by ''outlayer'' 0) = current_account (call_by ''outlayer'' 0)"
    "attached_deposit (call_by ''outlayer'' 0) = 0" by (simp_all add: call_by_def)
  have two: "payment_key_of ''a'' 2 \<noteq> payment_key_of ''a'' 1"
    by (auto simp: payment_key_of_def dest: show_nat_inject)
  from top_up_settles_one_way [OF cx, of "''a''" 1 500 "Some (TopUpSuccess ''new'')" paid_contract]
    top_up_settles_one_way [OF cx, of "''a''" 2 500 "Some (TopUpSuccess ''new'')" paid_contract] two
  show ?thesis by (auto simp: paid_contract_def)
qed

theorem withdrawal_round_trip_witness:
  "\<exists>t. withdraw_developer_earnings (call_by ''dev'' 1) paid_contract
      = Inr (t, [FtTransferThenSettle ''usdc'' ''dev'' 7]) \<and> get0 (developer_earnings t) ''dev'' = 0"
proof -
  have "\<exists>t. withdraw_developer_earnings (call_by ''dev'' 1) paid_contract
      = Inr (t, [FtTransferThenSettle ''usdc'' ''dev'' 7])"
    by (simp add: withdraw_developer_earnings_def eval_simps paid_contract_def get0_def Let_def)
  then obtain t where run: "withdraw_developer_earnings (call_by ''dev'' 1) paid_contract
      = Inr (t, [FtTransferThenSettle ''usdc'' ''dev'' 7])" by blast
  have "predecessor (call_by ''outlayer'' 0) = current_account (call_by ''outlayer'' 0)"
    "attached_deposit (call_by ''outlayer'' 0) = 0"
    "get0 (developer_earnings paid_contract) (predecessor (call_by ''dev'' 1)) < 2 ^ 128"
    by (simp_all add: call_by_def paid_contract_def get0_def)
  from withdrawal_round_trip [OF run this] run show ?thesis by (auto simp: call_by_def)
qed

theorem near_top_up_overspends_witness:
  "\<exists>es. top_up_payment_key_with_near (call_by ''a'' (3 * 10 ^ 22)) 1 ''swap'' paid_contract
      = Inr (paid_contract, es) \<and> attached_out es = 3 * 10 ^ 22 + 5 * 10 ^ 21 + 1"
proof -
  have "\<exists>es. top_up_payment_key_with_near (call_by ''a'' (3 * 10 ^ 22)) 1 ''swap'' paid_contract
      = Inr (paid_contract, es)"
    by (simp add: top_up_payment_key_with_near_def eval_simps Let_def paid_contract_def
        new_contract_def EXECUTION_COST_def MIN_NEAR_DEPOSIT_def)
  then obtain es where run: "top_up_payment_key_with_near (call_by ''a'' (3 * 10 ^ 22)) 1 ''swap''
      paid_contract = Inr (paid_contract, es)" by blast
  from near_top_up_overspends [OF run] run show ?thesis by (auto simp: call_by_def)
qed

end
