(* ===== verification/Execution.thy ===== *)
theory Execution
  imports Payment
begin

text \<open>
  Requesting, answering and settling executions (\<open>contract/src/execution.rs\<close>). A request is
  admitted against its limits, its price and the caller's two payments (NEAR and stablecoin), is
  stored under a fresh id and waits in a yield; the operator resumes the yield, and the callback
  removes the request, pays the developers and returns what is left. A stuck request is cancelled
  by its sender. The lemmas follow the two payments through every path: what a request took is
  returned or earned, once.

  \<open>run_execution_call\<close> is the one entry point the theorems on all calls go through.
  \<open>usd_held\<close> is the stablecoin the contract accounts for and \<open>near_held\<close> the NEAR it holds for
  pending requests.
\<close>

section \<open>Outputs\<close>

fun stored_output_of :: "externals \<Rightarrow> execution_output \<Rightarrow> stored_output" where
  "stored_output_of ext (BytesOut bytes) = StoredBytes bytes"
| "stored_output_of ext (TextOut text) = StoredText text"
| "stored_output_of ext (JsonOut v) =
     StoredJson (case json_to_string ext v of None \<Rightarrow> [] | Some t \<Rightarrow> t)"

fun output_return_bytes :: "externals \<Rightarrow> stored_output option \<Rightarrow> string" where
  "output_return_bytes ext None = ''null''"
| "output_return_bytes ext (Some (StoredJson bytes)) = (if bytes = [] then ''null'' else bytes)"
| "output_return_bytes ext (Some (StoredText bytes)) =
     json_quote ext (if valid_utf8 ext bytes then bytes else ''[invalid UTF-8]'')"
| "output_return_bytes ext (Some (StoredBytes bytes)) = json_quote ext (base64_encode ext bytes)"

section \<open>Helpers of the contract\<close>

definition return_attached_usd :: "account \<Rightarrow> nat \<Rightarrow> contract \<Rightarrow> contract contract_call" where
  "return_attached_usd a amount s = (if amount = 0 then Inr s else credit_balance a amount s)"

fun resolve_execution_source ::
  "execution_source \<Rightarrow> contract \<Rightarrow> (code_source \<times> string option) contract_call" where
  "resolve_execution_source (GitHubSrc repo commit target) s =
     Inr (GitHubCode repo commit target, None)"
| "resolve_execution_source (WasmUrlSrc url hash target) s =
     Inr (WasmUrlCode url hash target, None)"
| "resolve_execution_source (ProjectSrc project_id version_key) s =
     expect (projects s project_id) (Proj ProjectNotFound) (\<lambda>project.
     bind_call
       (case version_key of
          Some k \<Rightarrow> Inr k
        | None \<Rightarrow> ensure (pj_active_version project \<noteq> []) (Proj NoActiveVersion)
                    (Inr (pj_active_version project))) (\<lambda>version_to_use.
     expect (project_versions s (pj_uuid project)) (Proj VersionsNotFound) (\<lambda>versions.
     expect (versions version_to_use) (Proj VersionNotFound) (\<lambda>version_info.
     Inr (vi_source version_info, Some (pj_uuid project))))))"

section \<open>Admission\<close>

record execution_args =
  ea_source :: execution_source
  ea_resource_limits :: "resource_limits option"
  ea_input_data :: "string option"
  ea_secrets_ref :: "secrets_reference option"
  ea_response_format :: "response_format option"
  ea_payer_account_id :: "account option"
  ea_params :: "request_params option"

fun source_project :: "execution_source \<Rightarrow> string option" where
  "source_project (ProjectSrc project_id _) = Some project_id"
| "source_project _ = None"

definition data_len :: "string option \<Rightarrow> nat" where
  "data_len d = (case d of None \<Rightarrow> 0 | Some x \<Rightarrow> length x)"

definition or_default :: "'a \<Rightarrow> 'a option \<Rightarrow> 'a" where
  "or_default d x = (case x of None \<Rightarrow> d | Some v \<Rightarrow> v)"

definition limits_of :: "execution_args \<Rightarrow> resource_limits" where
  "limits_of a = or_default default_resource_limits (ea_resource_limits a)"

definition params_of :: "execution_args \<Rightarrow> request_params" where
  "params_of a = or_default default_request_params (ea_params a)"

definition compiles_only :: "execution_args \<Rightarrow> bool" where
  "compiles_only a \<longleftrightarrow> compile_only (params_of a) \<or> ea_resource_limits a = None"

definition attached_usd_of :: "execution_args \<Rightarrow> nat" where
  "attached_usd_of a = or_default 0 (attached_usd (params_of a))"

definition check_secrets_ref ::
  "externals \<Rightarrow> secrets_reference option \<Rightarrow> 'a contract_call \<Rightarrow> 'a contract_call" where
  "check_secrets_ref ext r k =
     ensure (case r of None \<Rightarrow> True | Some x \<Rightarrow> profile_shape_error ext (sr_profile x) = None)
       (Shape ProfileShape) k"

definition check_flags :: "code_source \<Rightarrow> execution_args \<Rightarrow> 'a contract_call \<Rightarrow> 'a contract_call" where
  "check_flags resolved a k =
     ensure (\<not> ((case resolved of WasmUrlCode _ _ _ \<Rightarrow> True | _ \<Rightarrow> False)
               \<and> force_rebuild (params_of a)))
       (Exec ForceRebuildOnWasmUrl) (
     ensure (\<not> (store_on_fastfs (params_of a) \<and> \<not> force_rebuild (params_of a)))
       (Exec FastfsNeedsRebuild) (
     ensure (\<not> (compiles_only a \<and> data_len (ea_input_data a) \<noteq> 0)) (Exec InputForCompileOnly) k))"

definition check_caps :: "execution_args \<Rightarrow> 'a contract_call \<Rightarrow> 'a contract_call" where
  "check_caps a k =
     (if compiles_only a then k
      else
        ensure (or_default 0 (max_instructions (limits_of a)) \<le> MAX_INSTRUCTIONS)
          (Exec InstructionsOverCap) (
        ensure (or_default 0 (max_execution_seconds (limits_of a)) \<le> MAX_EXECUTION_SECONDS)
          (Exec SecondsOverCap) (
        ensure (or_default 0 (max_memory_mb (limits_of a)) \<le> MAX_MEMORY_MB)
          (Exec MemoryOverCap) k)))"

definition compute_estimate :: "execution_args \<Rightarrow> contract \<Rightarrow> nat contract_call" where
  "compute_estimate a s = (if compiles_only a then Inr (base_fee s) else estimate_cost s (limits_of a))"

definition check_price ::
  "externals \<Rightarrow> execution_args \<Rightarrow> contract \<Rightarrow> 'a contract_call \<Rightarrow> 'a contract_call" where
  "check_price ext a s k =
     (if compiles_only a then k
      else case Option.bind (source_project (ea_source a)) (project_pricing s) of
             None \<Rightarrow> k
           | Some pricing \<Rightarrow>
               (case operation_from_input ext (ea_input_data a) of
                  Inl e \<Rightarrow> Inl (Refused (Exec NotPriceable))
                | Inr operation \<Rightarrow>
                    expect (price_for_operation pricing operation) (Exec OperationNotSold) (\<lambda>price.
                    ensure (attached_usd_of a \<ge> price) (Exec BelowPrice) k)))"

definition debit_attached_usd ::
  "ctx \<Rightarrow> execution_args \<Rightarrow> contract \<Rightarrow> contract contract_call" where
  "debit_attached_usd cx a s =
     (if attached_usd_of a > 0 then
        ensure (source_project (ea_source a) \<noteq> None) (Exec UsdNeedsProject) (
        let user_balance = get0 (user_stablecoin_balances s) (predecessor cx) in
        ensure (user_balance \<ge> attached_usd_of a) (Exec InsufficientUsd) (
        Inr (s\<lparr>user_stablecoin_balances := (user_stablecoin_balances s)
               (predecessor cx \<mapsto> user_balance - attached_usd_of a)\<rparr>)))
      else Inr s)"

definition request_data_of ::
  "ctx \<Rightarrow> nat \<Rightarrow> code_source \<Rightarrow> string option \<Rightarrow> execution_args \<Rightarrow> request_data" where
  "request_data_of cx request_id resolved uuid a =
     (let in_state = data_len (ea_input_data a) \<ge> INPUT_DATA_EVENT_THRESHOLD in
      \<lparr>rd_request_id = request_id, rd_sender_id = signer cx, rd_predecessor_id = predecessor cx,
       rd_code_source = resolved, rd_resource_limits = limits_of a,
       rd_input_data = (if in_state then [] else or_default [] (ea_input_data a)),
       rd_input_data_in_state = in_state, rd_secrets_ref = ea_secrets_ref a,
       rd_response_format = or_default TextFormat (ea_response_format a),
       rd_payment = attached_deposit cx, rd_attached_usd = attached_usd_of a,
       rd_timestamp = block_timestamp cx, rd_compile_only = compiles_only a,
       rd_force_rebuild = force_rebuild (params_of a),
       rd_store_on_fastfs = store_on_fastfs (params_of a),
       rd_use_bound_identity = use_bound_identity (params_of a),
       rd_project_uuid = uuid, rd_project_id = source_project (ea_source a)\<rparr>)"

definition pending_request_of :: "ctx \<Rightarrow> nat \<Rightarrow> code_source \<Rightarrow> execution_args \<Rightarrow> execution_request" where
  "pending_request_of cx request_id resolved a =
     \<lparr>rq_request_id = request_id, rq_data_id = new_data_id cx, rq_sender_id = predecessor cx,
      rq_execution_source = ea_source a, rq_resolved_source = resolved,
      rq_resource_limits = limits_of a, rq_payment = attached_deposit cx,
      rq_timestamp = block_timestamp cx, rq_secrets_ref = ea_secrets_ref a,
      rq_response_format = or_default TextFormat (ea_response_format a),
      rq_input_data = ea_input_data a,
      rq_payer_account_id = or_default (predecessor cx) (ea_payer_account_id a),
      rq_attached_usd = attached_usd_of a, rq_pending_output = None, rq_output_submitted = False\<rparr>"

definition request_execution ::
  "externals \<Rightarrow> ctx \<Rightarrow> execution_args \<Rightarrow> contract \<Rightarrow> outcome" where
  "request_execution ext cx a s =
     assert_not_paused s (
     check_secrets_ref ext (ea_secrets_ref a) (
     bind_call (resolve_execution_source (ea_source a) s) (\<lambda>(resolved, uuid).
     (if source_project (ea_source a) = None then assert_code_source resolved else id) (
     check_flags resolved a (
     check_caps a (
     bind_call (compute_estimate a s) (\<lambda>estimated_cost.
     check_price ext a s (
     bind_call (debit_attached_usd cx a s) (\<lambda>s1.
     add_u128 estimated_cost (input_storage_deposit (data_len (ea_input_data a))) (\<lambda>required_payment.
     ensure (attached_deposit cx \<ge> required_payment) (Exec InsufficientPayment) (
     add_u64 (next_request_id s1) 1 (\<lambda>next_id.
     let request_id = next_request_id s1; rd = request_data_of cx request_id resolved uuid a in
     Inr (s1\<lparr>next_request_id := next_id,
            pending_requests := (pending_requests s1)
              (request_id \<mapsto> pending_request_of cx request_id resolved a)\<rparr>,
          [YieldExecution (response_gas (data_len (ea_input_data a))) (new_data_id cx) rd,
           EmitExecutionRequested (new_data_id cx) rd])))))))))))))"

section \<open>The operator's answers\<close>

definition submit_execution_output_internal ::
  "externals \<Rightarrow> nat \<Rightarrow> execution_output \<Rightarrow> contract \<Rightarrow> contract contract_call" where
  "submit_execution_output_internal ext request_id output s =
     expect (pending_requests s request_id) (Exec RequestNotFound) (\<lambda>request.
     ensure (\<not> rq_output_submitted request) (Exec OutputAlreadySubmitted) (
     Inr (s\<lparr>pending_requests := (pending_requests s)(request_id \<mapsto>
            request\<lparr>rq_pending_output := Some (stored_output_of ext output),
                    rq_output_submitted := True\<rparr>)\<rparr>)))"

definition resolve_execution_internal ::
  "ctx \<Rightarrow> nat \<Rightarrow> execution_response \<Rightarrow> contract \<Rightarrow> outcome" where
  "resolve_execution_internal cx request_id response s =
     expect (pending_requests s request_id) (Exec RequestNotFound) (\<lambda>request.
     bind_call (calculate_cost s (er_resources_used response)) (\<lambda>estimated_cost.
     ensure (resume_ok cx) (Exec ResumeFailed) (
     Inr (s, [ResumeExecution (rq_data_id request) response]))))"

definition submit_execution_output ::
  "externals \<Rightarrow> ctx \<Rightarrow> nat \<Rightarrow> execution_output \<Rightarrow> contract \<Rightarrow> outcome" where
  "submit_execution_output ext cx request_id output s =
     not_payable cx (assert_operator cx s (
     bind_call (submit_execution_output_internal ext request_id output s) (\<lambda>t. Inr (t, []))))"

definition submit_execution_output_and_resolve ::
  "externals \<Rightarrow> ctx \<Rightarrow> nat \<Rightarrow> execution_output \<Rightarrow> bool \<Rightarrow> string option \<Rightarrow> resource_metrics
     \<Rightarrow> string option \<Rightarrow> contract \<Rightarrow> outcome" where
  "submit_execution_output_and_resolve ext cx request_id output success err used note s =
     not_payable cx (assert_operator cx s (
     bind_call (submit_execution_output_internal ext request_id output s) (\<lambda>t.
     resolve_execution_internal cx request_id
       \<lparr>er_success = success, er_output = None, er_error = err, er_resources_used = used,
        er_compilation_note = note, er_refund_usd = None\<rparr> t)))"

definition resolve_execution :: "ctx \<Rightarrow> nat \<Rightarrow> execution_response \<Rightarrow> contract \<Rightarrow> outcome" where
  "resolve_execution cx request_id response s =
     not_payable cx (assert_operator cx s (resolve_execution_internal cx request_id response s))"

section \<open>Settlement\<close>

text \<open>The author, price and share of the operation a stored request names, read at settlement.\<close>

definition priced_row ::
  "externals \<Rightarrow> contract \<Rightarrow> execution_request \<Rightarrow> (account \<times> nat \<times> nat) option" where
  "priced_row ext s request =
     (case Option.bind (source_project (rq_execution_source request)) (project_pricing s) of
        None \<Rightarrow> None
      | Some pricing \<Rightarrow>
          (case operation_from_input ext (rq_input_data request) of
             Inl e \<Rightarrow> None
           | Inr operation \<Rightarrow>
               (case find_operation pricing operation of
                  None \<Rightarrow> None
                | Some row \<Rightarrow>
                    Some (pp_author_account_id pricing, op_price_usd row, op_developer_share_bp row))))"

definition pay_developers ::
  "(account \<times> nat \<times> nat) option \<Rightarrow> project \<Rightarrow> nat \<Rightarrow> contract \<Rightarrow> contract contract_call" where
  "pay_developers priced project developer_amount s =
     (case priced of
        None \<Rightarrow> credit_earnings (pj_owner project) developer_amount s
      | Some (author, price, share) \<Rightarrow>
          bind_call (split_payment developer_amount share) (\<lambda>sp.
          if author_usd sp > 0 then
            bind_call (credit_earnings author (author_usd sp) s)
              (credit_earnings (pj_owner project) (owner_usd sp))
          else credit_earnings (pj_owner project) developer_amount s))"

definition settle_usd ::
  "externals \<Rightarrow> execution_request \<Rightarrow> nat option \<Rightarrow> contract \<Rightarrow> contract contract_call" where
  "settle_usd ext request guest_refund s =
     (if rq_attached_usd request = 0 then Inr s
      else
        let priced = priced_row ext s request;
            price = (case priced of None \<Rightarrow> rq_attached_usd request | Some (_, p, _) \<Rightarrow> p);
            (refund_usd, developer_amount) =
              settle_attached (rq_attached_usd request) price (or_default 0 guest_refund) in
        bind_call (return_attached_usd (rq_sender_id request) refund_usd s) (\<lambda>s1.
        if developer_amount = 0 then Inr s1
        else case Option.bind (source_project (rq_execution_source request)) (projects s1) of
               Some project \<Rightarrow> pay_developers priced project developer_amount s1
             | None \<Rightarrow> return_attached_usd (rq_sender_id request) developer_amount s1))"

definition storage_part :: "execution_request \<Rightarrow> nat" where
  "storage_part request = input_storage_deposit (data_len (rq_input_data request))"

definition run_charge :: "contract \<Rightarrow> execution_request \<Rightarrow> nat \<Rightarrow> resource_metrics \<Rightarrow> nat contract_call" where
  "run_charge s request payment used =
     bind_call (calculate_cost s used) (\<lambda>cost. Inr (min cost (payment - storage_part request)))"

definition collect_fee :: "nat \<Rightarrow> contract \<Rightarrow> contract contract_call" where
  "collect_fee cost s =
     add_u128 (total_fees_collected s) cost (\<lambda>fees. Inr (s\<lparr>total_fees_collected := fees\<rparr>))"

definition completed ::
  "account \<Rightarrow> code_source \<Rightarrow> execution_response \<Rightarrow> nat \<Rightarrow> nat \<Rightarrow> completed_event" where
  "completed sender source response cost refund =
     \<lparr>ce_sender_id = sender, ce_code_source = source, ce_resources_used = er_resources_used response,
      ce_success = er_success response,
      ce_error_message =
        (if er_success response then None
         else Some (or_default ''Unknown error'' (er_error response))),
      ce_payment_charged = cost, ce_payment_refunded = refund,
      ce_compilation_note = er_compilation_note response\<rparr>"

definition settle_success ::
  "externals \<Rightarrow> account \<Rightarrow> code_source \<Rightarrow> nat \<Rightarrow> execution_request \<Rightarrow> execution_response \<Rightarrow> contract
     \<Rightarrow> outcome" where
  "settle_success ext sender source payment request response s =
     (let stored_output =
            (if rq_output_submitted request then rq_pending_output request
             else map_option (stored_output_of ext) (er_output response)) in
      bind_call (run_charge s request payment (er_resources_used response)) (\<lambda>cost.
      bind_call (settle_usd ext request (er_refund_usd response) s) (\<lambda>s1.
      let refund = payment - cost in
      bind_call (collect_fee cost s1) (\<lambda>s2.
      Inr (s2, transfer_if (rq_payer_account_id request) refund @
               [EmitExecutionCompleted (completed sender source response cost refund),
                ReturnBytes (output_return_bytes ext stored_output)])))))"

definition settle_failure ::
  "externals \<Rightarrow> account \<Rightarrow> code_source \<Rightarrow> nat \<Rightarrow> execution_request \<Rightarrow> execution_response \<Rightarrow> contract
     \<Rightarrow> outcome" where
  "settle_failure ext sender source payment request response s =
     bind_call (run_charge s request payment (er_resources_used response)) (\<lambda>cost.
     let refund = payment - cost in
     bind_call (return_attached_usd (rq_sender_id request) (rq_attached_usd request) s) (\<lambda>s1.
     bind_call (collect_fee cost s1) (\<lambda>s2.
     Inr (s2, transfer_if (rq_payer_account_id request) refund @
              [EmitExecutionCompleted (completed sender source response cost refund),
               ReturnBytes (output_return_bytes ext None)]))))"

definition settle_timeout :: "externals \<Rightarrow> nat \<Rightarrow> execution_request \<Rightarrow> contract \<Rightarrow> outcome" where
  "settle_timeout ext payment request s =
     bind_call (return_attached_usd (rq_sender_id request) (rq_attached_usd request) s) (\<lambda>s1.
     bind_call (collect_fee (base_fee s1) s1) (\<lambda>s2.
     Inr (s2, transfer_if (rq_payer_account_id request) (payment - base_fee s) @
              [ReturnBytes (output_return_bytes ext None)])))"

definition on_execution_response ::
  "externals \<Rightarrow> ctx \<Rightarrow> nat \<Rightarrow> account \<Rightarrow> code_source \<Rightarrow> resource_limits \<Rightarrow> nat
     \<Rightarrow> execution_response option \<Rightarrow> contract \<Rightarrow> outcome" where
  "on_execution_response ext cx request_id sender_id source limits payment response s =
     private_call cx (not_payable cx (
     case pending_requests s request_id of
       None \<Rightarrow> Inr (s, [ReturnBytes (output_return_bytes ext None)])
     | Some request \<Rightarrow>
         add_u64 (total_executions s) 1 (\<lambda>executions.
         let s1 = s\<lparr>pending_requests := (pending_requests s)(request_id := None),
                    total_executions := executions\<rparr> in
         case response of
           Some r \<Rightarrow>
             (if er_success r then settle_success ext sender_id source payment request r s1
              else settle_failure ext sender_id source payment request r s1)
         | None \<Rightarrow> settle_timeout ext payment request s1)))"

definition cancel_stale_execution :: "ctx \<Rightarrow> nat \<Rightarrow> contract \<Rightarrow> outcome" where
  "cancel_stale_execution cx request_id s =
     not_payable cx (
     expect (pending_requests s request_id) (Exec RequestNotFound) (\<lambda>request.
     ensure (predecessor cx = rq_sender_id request) (Guard OnlySender) (
     add_u64 (rq_timestamp request) EXECUTION_TIMEOUT (\<lambda>deadline.
     ensure (block_timestamp cx > deadline) (Exec NotStale) (
     let s1 = s\<lparr>pending_requests := (pending_requests s)(request_id := None)\<rparr> in
     bind_call (if rq_output_submitted request then estimate_cost s1 (rq_resource_limits request)
                else Inr (base_fee s1)) (\<lambda>charge.
     let kept = min (rq_payment request) charge in
     bind_call (collect_fee kept s1) (\<lambda>s2.
     bind_call (return_attached_usd (rq_sender_id request) (rq_attached_usd request) s2) (\<lambda>s3.
     Inr (s3, transfer_if (rq_payer_account_id request) (rq_payment request - kept))))))))))"

section \<open>Calls\<close>

datatype execution_call =
    RequestExecution execution_args
  | SubmitExecutionOutput nat execution_output
  | SubmitExecutionOutputAndResolve nat execution_output bool "string option" resource_metrics
      "string option"
  | ResolveExecution nat execution_response
  | OnExecutionResponse nat account code_source resource_limits nat "execution_response option"
  | CancelStaleExecution nat

fun run_execution_call :: "externals \<Rightarrow> execution_call \<Rightarrow> ctx \<Rightarrow> contract \<Rightarrow> outcome" where
  "run_execution_call ext (RequestExecution a) cx s = request_execution ext cx a s"
| "run_execution_call ext (SubmitExecutionOutput i out) cx s = submit_execution_output ext cx i out s"
| "run_execution_call ext (SubmitExecutionOutputAndResolve i out ok err used note) cx s =
     submit_execution_output_and_resolve ext cx i out ok err used note s"
| "run_execution_call ext (ResolveExecution i r) cx s = resolve_execution cx i r s"
| "run_execution_call ext (OnExecutionResponse i a src l n r) cx s =
     on_execution_response ext cx i a src l n r s"
| "run_execution_call ext (CancelStaleExecution i) cx s = cancel_stale_execution cx i s"

section \<open>Edits of the two ledgers\<close>

definition ledgers_ok :: "contract \<Rightarrow> bool" where
  "ledgers_ok s \<longleftrightarrow> finite (dom (user_stablecoin_balances s)) \<and> finite (dom (developer_earnings s))"

definition ledgers_total :: "contract \<Rightarrow> nat" where
  "ledgers_total s = map_total (user_stablecoin_balances s) + map_total (developer_earnings s)"

text \<open>\<open>t\<close> is \<open>s\<close> with \<open>n\<close> units credited to rows of the two ledgers, and nothing else changed.\<close>

definition ledger_step :: "nat \<Rightarrow> contract \<Rightarrow> contract \<Rightarrow> bool" where
  "ledger_step n s t \<longleftrightarrow>
     (\<exists>b e. t = s\<lparr>user_stablecoin_balances := b, developer_earnings := e\<rparr>) \<and>
     (ledgers_ok s \<longrightarrow> ledgers_ok t \<and> ledgers_total t = ledgers_total s + n)"

lemma ledger_stepD:
  assumes "ledger_step n s t"
  obtains b e where "t = s\<lparr>user_stablecoin_balances := b, developer_earnings := e\<rparr>"
  using assms by (auto simp: ledger_step_def)

lemma ledger_step_sound:
  assumes "ledger_step n s t" "ledgers_ok s"
  shows "ledgers_ok t" "ledgers_total t = ledgers_total s + n"
  using assms by (auto simp: ledger_step_def)

lemma ledger_stepI:
  "t = s\<lparr>user_stablecoin_balances := b, developer_earnings := e\<rparr> \<Longrightarrow>
     (ledgers_ok s \<Longrightarrow> ledgers_ok t \<and> ledgers_total t = ledgers_total s + n) \<Longrightarrow> ledger_step n s t"
  unfolding ledger_step_def by blast

lemma ledger_step_refl: "ledger_step 0 s s"
  by (rule ledger_stepI [where b = "user_stablecoin_balances s" and e = "developer_earnings s"]) simp_all

lemma ledger_step_trans:
  assumes "ledger_step m s t" "ledger_step n t u"
  shows "ledger_step (m + n) s u"
proof -
  from assms obtain b e b' e' where
    "t = s\<lparr>user_stablecoin_balances := b, developer_earnings := e\<rparr>"
    "u = t\<lparr>user_stablecoin_balances := b', developer_earnings := e'\<rparr>"
    by (auto elim!: ledger_stepD)
  then have "u = s\<lparr>user_stablecoin_balances := b', developer_earnings := e'\<rparr>" by simp
  with assms show ?thesis by (auto simp: ledger_step_def)
qed

lemma ledger_step_fields:
  assumes "ledger_step n s t"
  shows "pending_requests t = pending_requests s" "next_request_id t = next_request_id s"
    "total_fees_collected t = total_fees_collected s" "total_executions t = total_executions s"
    "base_fee t = base_fee s" "projects t = projects s" "project_pricing t = project_pricing s"
  using assms by (auto elim!: ledger_stepD)

lemma credit_balance_step:
  assumes "credit_balance a n s = Inr t"
  shows "ledger_step n s t"
proof (rule ledger_stepI)
  show "t = s\<lparr>user_stablecoin_balances :=
        (user_stablecoin_balances s)(a \<mapsto> get0 (user_stablecoin_balances s) a + n),
      developer_earnings := developer_earnings s\<rparr>"
    using assms by (simp add: credit_balance_Inr)
  then show "ledgers_ok t \<and> ledgers_total t = ledgers_total s + n" if "ledgers_ok s"
    using that balances.credit_total [OF _ assms] balances.credit_sound [OF _ assms]
    by (simp add: ledgers_ok_def ledgers_total_def)
qed

lemma credit_earnings_step:
  assumes "credit_earnings a n s = Inr t"
  shows "ledger_step n s t"
proof (rule ledger_stepI)
  show "t = s\<lparr>user_stablecoin_balances := user_stablecoin_balances s,
      developer_earnings := (developer_earnings s)(a \<mapsto> get0 (developer_earnings s) a + n)\<rparr>"
    using assms by (simp add: credit_earnings_Inr)
  then show "ledgers_ok t \<and> ledgers_total t = ledgers_total s + n" if "ledgers_ok s"
    using that earnings.credit_total [OF _ assms] earnings.credit_sound [OF _ assms]
    by (simp add: ledgers_ok_def ledgers_total_def)
qed

text \<open>\<open>return_attached_usd\<close> keeps the promises of a ledger too.\<close>

interpretation returned: ledger "\<lambda>s. finite (dom (user_stablecoin_balances s))"
    "\<lambda>s. get0 (user_stablecoin_balances s)" "\<lambda>s. map_total (user_stablecoin_balances s)"
    return_attached_usd
proof unfold_locales
  fix a n s t b
  assume run: "return_attached_usd a n s = Inr t"
  show "get0 (user_stablecoin_balances t) b =
      (if b = a then get0 (user_stablecoin_balances s) b + n else get0 (user_stablecoin_balances s) b)"
    using run balances.credit_read [of a n s t b]
    by (auto simp: return_attached_usd_def split: if_splits)
  assume fin: "finite (dom (user_stablecoin_balances s))"
  show "map_total (user_stablecoin_balances t) = map_total (user_stablecoin_balances s) + n"
    using run balances.credit_total [OF fin, of a n t]
    by (auto simp: return_attached_usd_def split: if_splits)
  show "finite (dom (user_stablecoin_balances t))"
    using fin run balances.credit_sound [OF fin, of a n t]
    by (auto simp: return_attached_usd_def split: if_splits)
next
  fix a and s :: contract
  assume "finite (dom (user_stablecoin_balances s))"
  then show "get0 (user_stablecoin_balances s) a \<le> map_total (user_stablecoin_balances s)"
    by (rule balances.read_le_total)
qed

lemma return_attached_step: "return_attached_usd a n s = Inr t \<Longrightarrow> ledger_step n s t"
  by (auto simp: return_attached_usd_def credit_balance_step ledger_step_refl split: if_splits)

lemma pay_developers_step: "pay_developers pr pj n s = Inr t \<Longrightarrow> ledger_step n s t"
proof (cases pr)
  case None
  then show "pay_developers pr pj n s = Inr t \<Longrightarrow> ?thesis"
    by (auto simp: pay_developers_def credit_earnings_step)
next
  case (Some q)
  obtain author price share where q: "q = (author, price, share)" by (cases q)
  assume "pay_developers pr pj n s = Inr t"
  then obtain sp where sp: "split_payment n share = Inr sp"
    and pay: "(if author_usd sp > 0 then
            bind_call (credit_earnings author (author_usd sp) s)
              (credit_earnings (pj_owner pj) (owner_usd sp))
          else credit_earnings (pj_owner pj) n s) = Inr t"
    using Some q by (auto simp: pay_developers_def run_simps)
  show ?thesis
  proof (cases "author_usd sp > 0")
    case True
    with pay obtain u where "credit_earnings author (author_usd sp) s = Inr u"
        "credit_earnings (pj_owner pj) (owner_usd sp) u = Inr t"
      by (auto simp: bind_call_Inr)
    with split_payment_Inr [OF sp] show ?thesis
      by (metis credit_earnings_step ledger_step_trans)
  next
    case False
    with pay show ?thesis by (simp add: credit_earnings_step)
  qed
qed

definition charged_price :: "externals \<Rightarrow> contract \<Rightarrow> execution_request \<Rightarrow> nat" where
  "charged_price ext s rq =
     (case priced_row ext s rq of None \<Rightarrow> rq_attached_usd rq | Some (_, p, _) \<Rightarrow> p)"

definition pay_or_return ::
  "externals \<Rightarrow> execution_request \<Rightarrow> nat \<Rightarrow> contract \<Rightarrow> contract \<Rightarrow> contract contract_call" where
  "pay_or_return ext rq d s u =
     (if d = 0 then Inr u
      else case Option.bind (source_project (rq_execution_source rq)) (projects u) of
             Some project \<Rightarrow> pay_developers (priced_row ext s rq) project d u
           | None \<Rightarrow> return_attached_usd (rq_sender_id rq) d u)"

lemma settle_usd_unfold:
  assumes "rq_attached_usd rq \<noteq> 0"
    and "settle_attached (rq_attached_usd rq) (charged_price ext s rq) (or_default 0 g) = (r, d)"
  shows "settle_usd ext rq g s =
     bind_call (return_attached_usd (rq_sender_id rq) r s) (pay_or_return ext rq d s)"
  using assms by (simp add: settle_usd_def Let_def charged_price_def pay_or_return_def [abs_def])

lemma settle_usd_step:
  assumes "settle_usd ext rq g s = Inr t"
  shows "ledger_step (rq_attached_usd rq) s t"
proof (cases "rq_attached_usd rq = 0")
  case True
  with assms show ?thesis by (simp add: settle_usd_def ledger_step_refl)
next
  case False
  obtain r d where rd: "settle_attached (rq_attached_usd rq) (charged_price ext s rq) (or_default 0 g) = (r, d)"
    by (metis surj_pair)
  from assms obtain u where u: "return_attached_usd (rq_sender_id rq) r s = Inr u"
    and rest: "pay_or_return ext rq d s u = Inr t"
    by (auto simp: settle_usd_unfold [OF False rd] run_simps)
  have "ledger_step d u t"
    using rest ledger_step_refl [of u] unfolding pay_or_return_def
    by (auto split: if_splits option.splits intro: pay_developers_step return_attached_step)
  from ledger_step_trans [OF return_attached_step [OF u] this] settle_attached_sum [OF rd]
  show ?thesis by simp
qed

section \<open>What each call does\<close>

definition take_request :: "nat \<Rightarrow> contract \<Rightarrow> contract" where
  "take_request i s = s\<lparr>pending_requests := (pending_requests s)(i := None)\<rparr>"

lemma collect_fee_Inr [run_simps]:
  "collect_fee c s = Inr t \<longleftrightarrow> total_fees_collected s + c < 2 ^ 128 \<and>
     t = s\<lparr>total_fees_collected := total_fees_collected s + c\<rparr>"
  by (auto simp: collect_fee_def run_simps)

lemma run_charge_le: "run_charge s rq n m = Inr c \<Longrightarrow> c \<le> n - storage_part rq"
  by (auto simp: run_charge_def run_simps)

text \<open>The callback either finds nothing, or takes the request and settles both payments.\<close>

lemma on_execution_response_run:
  assumes "on_execution_response ext cx i sender src limits pay resp s = Inr (t, es)"
  obtains (gone) "pending_requests s i = None" "t = s" "es = [ReturnBytes ''null'']"
  | (settled) rq u cost where "pending_requests s i = Some rq"
      "ledger_step (rq_attached_usd rq)
         ((take_request i s)\<lparr>total_executions := total_executions s + 1\<rparr>) u"
      "t = u\<lparr>total_fees_collected := total_fees_collected s + cost\<rparr>" "paid_out es = pay - cost"
      "(case resp of None \<Rightarrow> cost = base_fee s | Some _ \<Rightarrow> cost \<le> pay - storage_part rq)"
proof (cases "pending_requests s i")
  case None
  with assms show ?thesis by (intro gone) (auto simp: on_execution_response_def run_simps)
next
  case (Some rq)
  let ?s1 = "(take_request i s)\<lparr>total_executions := total_executions s + 1\<rparr>"
  show ?thesis
  proof (cases resp)
    case None
    with assms Some obtain u where
      u: "return_attached_usd (rq_sender_id rq) (rq_attached_usd rq) ?s1 = Inr u"
      and t: "t = u\<lparr>total_fees_collected := total_fees_collected u + base_fee u\<rparr>"
      and es: "paid_out es = pay - base_fee s"
      by (auto simp: on_execution_response_def settle_timeout_def run_simps Let_def take_request_def)
    note f = ledger_step_fields [OF return_attached_step [OF u]]
    show ?thesis
      by (rule settled [OF Some return_attached_step [OF u], of "base_fee s"])
        (use t es None f in \<open>simp_all add: take_request_def\<close>)
  next
    case (Some r)
    note resp = Some
    from assms \<open>pending_requests s i = Some rq\<close> Some obtain cost where
      cost: "run_charge ?s1 rq pay (er_resources_used r) = Inr cost"
      by (auto simp: on_execution_response_def settle_success_def settle_failure_def run_simps
          Let_def take_request_def split: if_splits)
    have "\<exists>u. ledger_step (rq_attached_usd rq) ?s1 u \<and>
        t = u\<lparr>total_fees_collected := total_fees_collected u + cost\<rparr> \<and> paid_out es = pay - cost"
    proof (cases "er_success r")
      case True
      with assms \<open>pending_requests s i = Some rq\<close> Some cost obtain u where
        "settle_usd ext rq (er_refund_usd r) ?s1 = Inr u"
        "t = u\<lparr>total_fees_collected := total_fees_collected u + cost\<rparr>" "paid_out es = pay - cost"
        by (auto simp: on_execution_response_def settle_success_def run_simps Let_def
            take_request_def)
      then show ?thesis by (blast intro: settle_usd_step)
    next
      case False
      with assms \<open>pending_requests s i = Some rq\<close> Some cost obtain u where
        "return_attached_usd (rq_sender_id rq) (rq_attached_usd rq) ?s1 = Inr u"
        "t = u\<lparr>total_fees_collected := total_fees_collected u + cost\<rparr>" "paid_out es = pay - cost"
        by (auto simp: on_execution_response_def settle_failure_def run_simps Let_def
            take_request_def)
      then show ?thesis by (blast intro: return_attached_step)
    qed
    then obtain u where u: "ledger_step (rq_attached_usd rq) ?s1 u"
      "t = u\<lparr>total_fees_collected := total_fees_collected u + cost\<rparr>" "paid_out es = pay - cost" by blast
    show ?thesis
      by (rule settled [OF \<open>pending_requests s i = Some rq\<close> u(1), of cost])
        (use u(2,3) ledger_step_fields [OF u(1)] run_charge_le [OF cost] resp in
          \<open>simp_all add: take_request_def\<close>)
  qed
qed

lemma cancel_stale_run:
  assumes "cancel_stale_execution cx i s = Inr (t, es)"
  obtains rq charge kept u where "pending_requests s i = Some rq" "predecessor cx = rq_sender_id rq"
    "rq_timestamp rq + EXECUTION_TIMEOUT < block_timestamp cx" "attached_deposit cx = 0"
    "if rq_output_submitted rq then estimate_cost (take_request i s) (rq_resource_limits rq) = Inr charge
     else charge = base_fee s"
    "kept = min (rq_payment rq) charge"
    "return_attached_usd (rq_sender_id rq) (rq_attached_usd rq)
       ((take_request i s)\<lparr>total_fees_collected := total_fees_collected s + kept\<rparr>) = Inr t"
    "es = transfer_if (rq_payer_account_id rq) (rq_payment rq - kept)"
proof -
  from assms obtain rq charge where *: "pending_requests s i = Some rq"
    "predecessor cx = rq_sender_id rq" "rq_timestamp rq + EXECUTION_TIMEOUT < block_timestamp cx"
    "attached_deposit cx = 0"
    "(if rq_output_submitted rq
      then estimate_cost (s\<lparr>pending_requests := (pending_requests s)(i := None)\<rparr>) (rq_resource_limits rq)
      else Inr (base_fee (s\<lparr>pending_requests := (pending_requests s)(i := None)\<rparr>))) = Inr charge"
    "return_attached_usd (rq_sender_id rq) (rq_attached_usd rq)
      (s\<lparr>pending_requests := (pending_requests s)(i := None),
       total_fees_collected := total_fees_collected s + min (rq_payment rq) charge\<rparr>) = Inr t"
    "es = transfer_if (rq_payer_account_id rq) (rq_payment rq - min (rq_payment rq) charge)"
    by (auto simp: cancel_stale_execution_def run_simps Let_def)
  show ?thesis
    by (rule that [OF *(1-4) _ refl _ *(7)])
      (use *(5,6) in \<open>auto simp: take_request_def split: if_splits\<close>)
qed

text \<open>Admission: every guard in the order of the code, and the request that is stored.\<close>

lemma check_secrets_ref_Inr [run_simps]:
  "check_secrets_ref ext r k = Inr y \<longleftrightarrow>
     (case r of None \<Rightarrow> True | Some x \<Rightarrow> profile_shape_error ext (sr_profile x) = None) \<and> k = Inr y"
  by (simp add: check_secrets_ref_def run_simps)

lemma check_flags_Inr [run_simps]: "check_flags c a k = Inr y \<Longrightarrow> k = Inr y"
  by (simp add: check_flags_def run_simps)

definition capped :: "execution_args \<Rightarrow> bool" where
  "capped a \<longleftrightarrow> compiles_only a \<or>
     (or_default 0 (max_instructions (limits_of a)) \<le> MAX_INSTRUCTIONS \<and>
      or_default 0 (max_execution_seconds (limits_of a)) \<le> MAX_EXECUTION_SECONDS \<and>
      or_default 0 (max_memory_mb (limits_of a)) \<le> MAX_MEMORY_MB)"

lemma check_caps_Inr [run_simps]: "check_caps a k = Inr y \<longleftrightarrow> capped a \<and> k = Inr y"
  by (auto simp: check_caps_def run_simps capped_def)

definition price_covered :: "externals \<Rightarrow> execution_args \<Rightarrow> contract \<Rightarrow> bool" where
  "price_covered ext a s \<longleftrightarrow> compiles_only a \<or>
     (case Option.bind (source_project (ea_source a)) (project_pricing s) of
        None \<Rightarrow> True
      | Some pricing \<Rightarrow>
          \<exists>operation price. operation_from_input ext (ea_input_data a) = Inr operation \<and>
            price_for_operation pricing operation = Some price \<and> price \<le> attached_usd_of a)"

lemma check_price_Inr [run_simps]:
  "check_price ext a s k = Inr y \<longleftrightarrow> price_covered ext a s \<and> k = Inr y"
proof (cases "Option.bind (source_project (ea_source a)) (project_pricing s)")
  case None
  then show ?thesis by (simp add: check_price_def price_covered_def)
next
  case (Some pricing)
  then show ?thesis
    by (cases "operation_from_input ext (ea_input_data a)")
      (auto simp: check_price_def price_covered_def run_simps)
qed

lemma debit_attached_usd_Inr:
  assumes run: "debit_attached_usd cx a s = Inr t"
  shows "attached_usd_of a \<le> get0 (user_stablecoin_balances s) (predecessor cx)"
    "attached_usd_of a > 0 \<longrightarrow> source_project (ea_source a) \<noteq> None"
    "\<exists>b. t = s\<lparr>user_stablecoin_balances := b\<rparr>"
    "get0 (user_stablecoin_balances t) x =
       get0 (user_stablecoin_balances s) x - (if x = predecessor cx then attached_usd_of a else 0)"
    "finite (dom (user_stablecoin_balances s)) \<Longrightarrow> finite (dom (user_stablecoin_balances t)) \<and>
       map_total (user_stablecoin_balances t) + attached_usd_of a = map_total (user_stablecoin_balances s)"
proof -
  let ?v = "get0 (user_stablecoin_balances s) (predecessor cx)"
  have r: "attached_usd_of a \<le> ?v \<and> (attached_usd_of a > 0 \<longrightarrow> source_project (ea_source a) \<noteq> None) \<and>
      t = (if attached_usd_of a > 0 then s\<lparr>user_stablecoin_balances :=
             (user_stablecoin_balances s)(predecessor cx \<mapsto> ?v - attached_usd_of a)\<rparr> else s)"
    using run by (auto simp: debit_attached_usd_def run_simps Let_def split: if_splits)
  then show "attached_usd_of a \<le> ?v" "attached_usd_of a > 0 \<longrightarrow> source_project (ea_source a) \<noteq> None"
    by simp_all
  show "\<exists>b. t = s\<lparr>user_stablecoin_balances := b\<rparr>"
    by (rule exI [of _ "user_stablecoin_balances t"]) (use r in simp)
  from r show "get0 (user_stablecoin_balances t) x =
       get0 (user_stablecoin_balances s) x - (if x = predecessor cx then attached_usd_of a else 0)"
    by simp
  assume fin: "finite (dom (user_stablecoin_balances s))"
  have "map_total ((user_stablecoin_balances s)(predecessor cx \<mapsto> ?v - attached_usd_of a))
      + attached_usd_of a = map_total (user_stablecoin_balances s)"
    using map_total_upd [OF fin, of "predecessor cx" "?v - attached_usd_of a"] r
      get0_le_total [OF fin, of "predecessor cx"] by linarith
  with r fin show "finite (dom (user_stablecoin_balances t)) \<and>
       map_total (user_stablecoin_balances t) + attached_usd_of a = map_total (user_stablecoin_balances s)"
    by simp
qed

lemma request_execution_run:
  assumes "request_execution ext cx a s = Inr (t, es)"
  obtains resolved uuid cost b where "\<not> paused s"
    "case ea_secrets_ref a of None \<Rightarrow> True | Some x \<Rightarrow> profile_shape_error ext (sr_profile x) = None"
    "resolve_execution_source (ea_source a) s = Inr (resolved, uuid)"
    "source_project (ea_source a) = None \<longrightarrow> code_source_error resolved = None"
    "capped a" "compute_estimate a s = Inr cost" "price_covered ext a s"
    "cost + input_storage_deposit (data_len (ea_input_data a)) \<le> attached_deposit cx"
    "debit_attached_usd cx a s = Inr (s\<lparr>user_stablecoin_balances := b\<rparr>)"
    "next_request_id s + 1 < 2 ^ 64"
    "t = s\<lparr>user_stablecoin_balances := b, next_request_id := next_request_id s + 1,
           pending_requests := (pending_requests s)
             (next_request_id s \<mapsto> pending_request_of cx (next_request_id s) resolved a)\<rparr>"
    "es = [YieldExecution (response_gas (data_len (ea_input_data a))) (new_data_id cx)
             (request_data_of cx (next_request_id s) resolved uuid a),
           EmitExecutionRequested (new_data_id cx)
             (request_data_of cx (next_request_id s) resolved uuid a)]"
proof -
  from assms obtain resolved uuid k where k:
    "resolve_execution_source (ea_source a) s = Inr (resolved, uuid)" "\<not> paused s"
    "case ea_secrets_ref a of None \<Rightarrow> True | Some x \<Rightarrow> profile_shape_error ext (sr_profile x) = None"
    "source_project (ea_source a) = None \<longrightarrow> code_source_error resolved = None"
    and rest: "check_caps a (
     bind_call (compute_estimate a s) (\<lambda>estimated_cost.
     check_price ext a s (
     bind_call (debit_attached_usd cx a s) (\<lambda>s1.
     add_u128 estimated_cost (input_storage_deposit (data_len (ea_input_data a))) (\<lambda>required_payment.
     ensure (attached_deposit cx \<ge> required_payment) (Exec InsufficientPayment) (
     add_u64 (next_request_id s1) 1 (\<lambda>next_id.
     let request_id = next_request_id s1; rd = request_data_of cx request_id resolved uuid a in
     Inr (s1\<lparr>next_request_id := next_id,
            pending_requests := (pending_requests s1)
              (request_id \<mapsto> pending_request_of cx request_id resolved a)\<rparr>,
          [YieldExecution (response_gas (data_len (ea_input_data a))) (new_data_id cx) rd,
           EmitExecutionRequested (new_data_id cx) rd]))))))))
      = Inr (t, es)"
    unfolding request_execution_def
    by (auto simp: run_simps assert_code_source_def split: if_splits dest!: check_flags_Inr)
  from rest obtain cost s1 where *: "capped a" "compute_estimate a s = Inr cost" "price_covered ext a s"
    "debit_attached_usd cx a s = Inr s1"
    "cost + input_storage_deposit (data_len (ea_input_data a)) \<le> attached_deposit cx"
    "next_request_id s1 + 1 < 2 ^ 64"
    "t = s1\<lparr>next_request_id := next_request_id s1 + 1,
            pending_requests := (pending_requests s1)
              (next_request_id s1 \<mapsto> pending_request_of cx (next_request_id s1) resolved a)\<rparr>"
    "es = [YieldExecution (response_gas (data_len (ea_input_data a))) (new_data_id cx)
             (request_data_of cx (next_request_id s1) resolved uuid a),
           EmitExecutionRequested (new_data_id cx)
             (request_data_of cx (next_request_id s1) resolved uuid a)]"
    by (auto simp: run_simps Let_def)
  from debit_attached_usd_Inr(3) [OF *(4)] obtain b where s1: "s1 = s\<lparr>user_stablecoin_balances := b\<rparr>" by blast
  show ?thesis
    by (rule that [OF k(2,3,1,4) *(1,2,3,5), of b]) (use * s1 in simp_all)
qed

section \<open>The invariant of the pending requests\<close>

definition request_ok :: "contract \<Rightarrow> nat \<Rightarrow> execution_request \<Rightarrow> bool" where
  "request_ok s i rq \<longleftrightarrow>
     i < next_request_id s \<and> rq_request_id rq = i \<and>
     (rq_output_submitted rq \<longleftrightarrow> rq_pending_output rq \<noteq> None) \<and>
     (0 < rq_attached_usd rq \<longrightarrow> source_project (rq_execution_source rq) \<noteq> None) \<and>
     code_source_error (rq_resolved_source rq) = None"

definition executions_ok :: "contract \<Rightarrow> bool" where
  "executions_ok s \<longleftrightarrow> finite (dom (pending_requests s)) \<and> ledgers_ok s \<and>
     (\<forall>i rq. pending_requests s i = Some rq \<longrightarrow> request_ok s i rq)"

lemma executions_ok_new: "executions_ok (new_contract ow op st ver)"
  by (simp add: executions_ok_def ledgers_ok_def new_contract_def)

lemma executions_okD:
  assumes "executions_ok s"
  shows "finite (dom (pending_requests s))" "ledgers_ok s"
    "pending_requests s i = Some rq \<Longrightarrow> request_ok s i rq"
  using assms unfolding executions_ok_def by blast+

lemma resolve_project_run:
  "resolve_execution_source (ProjectSrc pid vk) s = Inr (resolved, uuid) \<Longrightarrow>
     \<exists>p vs v. projects s pid = Some p \<and> project_versions s (pj_uuid p) = Some vs \<and>
       vs (or_default (pj_active_version p) vk) = Some v \<and> resolved = vi_source v \<and>
       uuid = Some (pj_uuid p)"
  by (cases vk) (auto simp: run_simps or_default_def)

lemma resolved_source_safe:
  assumes "projects_ok s" "resolve_execution_source src s = Inr (resolved, uuid)"
    and "source_project src \<noteq> None"
  shows "code_source_error resolved = None"
proof (cases src)
  case (ProjectSrc pid vk)
  with resolve_project_run assms(2) projects_okD(5) [OF assms(1)] show ?thesis
    by (fastforce simp: project_sources_ok_def versions_ok_def)
qed (use assms(3) in simp_all)

lemma request_ok_later: "request_ok s i rq \<Longrightarrow> next_request_id s \<le> next_request_id t \<Longrightarrow> request_ok t i rq"
  by (auto simp: request_ok_def)

text \<open>Every call of this module is one of three edits of the pending requests.\<close>

lemma execution_call_cases:
  assumes "run_execution_call ext c cx s = Inr (t, es)"
  obtains (admitted) a where "c = RequestExecution a" "request_execution ext cx a s = Inr (t, es)"
  | (answered) i rq rq' where "pending_requests s i = Some rq"
      "t = s \<or> t = s\<lparr>pending_requests := (pending_requests s)(i \<mapsto> rq')\<rparr>"
      "\<exists>out. rq' = rq\<lparr>rq_pending_output := Some (stored_output_of ext out), rq_output_submitted := True\<rparr>"
      "attached_deposit cx = 0" "paid_out es = 0" "predecessor cx = operator_id s"
      "\<nexists>j a src l n r. c = OnExecutionResponse j a src l n r"
  | (callback) i a src l n r where "c = OnExecutionResponse i a src l n r"
      "on_execution_response ext cx i a src l n r s = Inr (t, es)"
  | (cancelled) i where "c = CancelStaleExecution i" "cancel_stale_execution cx i s = Inr (t, es)"
proof (cases c)
  case (SubmitExecutionOutput i out)
  with assms show ?thesis
    by (auto simp: submit_execution_output_def submit_execution_output_internal_def run_simps
        intro!: answered)
next
  case (SubmitExecutionOutputAndResolve i out ok err used why)
  with assms show ?thesis
    by (auto simp: submit_execution_output_and_resolve_def submit_execution_output_internal_def
        resolve_execution_internal_def run_simps intro!: answered)
next
  case (ResolveExecution i r)
  with assms obtain rq where "pending_requests s i = Some rq" "t = s" "attached_deposit cx = 0"
      "paid_out es = 0" "predecessor cx = operator_id s"
    by (auto simp: resolve_execution_def resolve_execution_internal_def run_simps)
  with ResolveExecution show ?thesis by (intro answered) auto
qed (use assms that in auto)

lemma take_request_ok:
  assumes ok: "executions_ok s" and step: "ledger_step n (take_request i s) u"
  shows "executions_ok u"
proof -
  note f = ledger_step_fields [OF step]
  have "ledgers_ok (take_request i s)"
    using executions_okD(2) [OF ok] by (simp add: ledgers_ok_def take_request_def)
  from ledger_step_sound(1) [OF step this] show ?thesis
    using executions_okD(1) [OF ok] executions_okD(3) [OF ok] f(1,2)
    by (auto simp: executions_ok_def take_request_def request_ok_def split: if_splits)
qed

text \<open>What the contract holds for others: stablecoin in three places, NEAR of pending requests.\<close>

definition usd_held :: "contract \<Rightarrow> nat" where
  "usd_held s = ledgers_total s + weight_total rq_attached_usd (pending_requests s)"

definition near_held :: "contract \<Rightarrow> nat" where
  "near_held s = weight_total rq_payment (pending_requests s)"

lemma take_request_weights:
  assumes "executions_ok s" "pending_requests s i = Some rq" "ledger_step n (take_request i s) u"
  shows "usd_held u + rq_attached_usd rq = usd_held s + n" "near_held u + rq_payment rq = near_held s"
proof -
  note f = ledger_step_fields [OF assms(3)]
  have "ledgers_ok (take_request i s)" "ledgers_total (take_request i s) = ledgers_total s"
    using executions_okD(2) [OF assms(1)]
    by (simp_all add: ledgers_ok_def ledgers_total_def take_request_def)
  with ledger_step_sound(2) [OF assms(3)] have l: "ledgers_total u = ledgers_total s + n" by simp
  have w: "weight_total w ((pending_requests s)(i := None)) + w rq = weight_total w (pending_requests s)"
    for w :: "execution_request \<Rightarrow> nat"
    using weight_total_delete [OF executions_okD(1) [OF assms(1)], of w i] assms(2)
    by (simp add: weight_at_def)
  show "usd_held u + rq_attached_usd rq = usd_held s + n"
    using l w [of rq_attached_usd] f(1) by (simp add: usd_held_def take_request_def)
  show "near_held u + rq_payment rq = near_held s"
    using w [of rq_payment] f(1) by (simp add: near_held_def take_request_def)
qed

text \<open>Counters outside the ledgers and the pending requests do not matter to these sums.\<close>

lemma counters_irrelevant [simp]:
  "take_request i (s\<lparr>total_executions := n\<rparr>) = (take_request i s)\<lparr>total_executions := n\<rparr>"
  "take_request i (s\<lparr>total_fees_collected := n\<rparr>) = (take_request i s)\<lparr>total_fees_collected := n\<rparr>"
  "usd_held (s\<lparr>total_executions := n\<rparr>) = usd_held s" "near_held (s\<lparr>total_executions := n\<rparr>) = near_held s"
  "usd_held (s\<lparr>total_fees_collected := n\<rparr>) = usd_held s"
  "near_held (s\<lparr>total_fees_collected := n\<rparr>) = near_held s"
  "executions_ok (s\<lparr>total_executions := n\<rparr>) = executions_ok s"
  "executions_ok (s\<lparr>total_fees_collected := n\<rparr>) = executions_ok s"
  by (simp_all add: take_request_def usd_held_def near_held_def ledgers_total_def executions_ok_def
      ledgers_ok_def request_ok_def)

lemma callback_effect:
  assumes ok: "executions_ok s"
    and run: "on_execution_response ext cx i sender src limits pay resp s = Inr (t, es)"
  shows "executions_ok t" "usd_held t = usd_held s"
    "pending_requests s i = None \<Longrightarrow> t = s \<and> paid_out es = 0"
    "pending_requests s i = Some rq \<Longrightarrow> near_held t + rq_payment rq = near_held s \<and>
       (\<exists>cost. total_fees_collected t = total_fees_collected s + cost \<and> paid_out es = pay - cost \<and>
          (case resp of None \<Rightarrow> cost = base_fee s | Some _ \<Rightarrow> cost \<le> pay - storage_part rq))"
proof -
  have "executions_ok t \<and> usd_held t = usd_held s \<and>
      (pending_requests s i = None \<longrightarrow> t = s \<and> paid_out es = 0) \<and>
      (\<forall>rq. pending_requests s i = Some rq \<longrightarrow> near_held t + rq_payment rq = near_held s \<and>
       (\<exists>cost. total_fees_collected t = total_fees_collected s + cost \<and> paid_out es = pay - cost \<and>
          (case resp of None \<Rightarrow> cost = base_fee s | Some _ \<Rightarrow> cost \<le> pay - storage_part rq)))"
    using run
  proof (cases rule: on_execution_response_run)
    case gone
    with ok show ?thesis by simp
  next
    case (settled rq u cost)
    let ?s' = "s\<lparr>total_executions := total_executions s + 1\<rparr>"
    have ok': "executions_ok ?s'" and p': "pending_requests ?s' i = Some rq"
      and st: "ledger_step (rq_attached_usd rq) (take_request i ?s') u"
      using ok settled(1,2) by simp_all
    from take_request_ok [OF ok' st] take_request_weights [OF ok' p' st] settled show ?thesis
      by auto
  qed
  then show "executions_ok t" "usd_held t = usd_held s"
    "pending_requests s i = None \<Longrightarrow> t = s \<and> paid_out es = 0"
    "pending_requests s i = Some rq \<Longrightarrow> near_held t + rq_payment rq = near_held s \<and>
       (\<exists>cost. total_fees_collected t = total_fees_collected s + cost \<and> paid_out es = pay - cost \<and>
          (case resp of None \<Rightarrow> cost = base_fee s | Some _ \<Rightarrow> cost \<le> pay - storage_part rq))"
    by blast+
qed

lemma cancel_effect:
  assumes ok: "executions_ok s" and run: "cancel_stale_execution cx i s = Inr (t, es)"
  shows "executions_ok t" "usd_held t = usd_held s"
    "near_held s + total_fees_collected s = paid_out es + near_held t + total_fees_collected t"
proof -
  from run obtain rq charge kept where r: "pending_requests s i = Some rq"
    "kept = min (rq_payment rq) charge"
    "return_attached_usd (rq_sender_id rq) (rq_attached_usd rq)
       (take_request i (s\<lparr>total_fees_collected := total_fees_collected s + kept\<rparr>)) = Inr t"
    "es = transfer_if (rq_payer_account_id rq) (rq_payment rq - kept)"
    by (elim cancel_stale_run) simp
  let ?s' = "s\<lparr>total_fees_collected := total_fees_collected s + kept\<rparr>"
  note st = return_attached_step [OF r(3)]
  have ok': "executions_ok ?s'" and p': "pending_requests ?s' i = Some rq" using ok r(1) by simp_all
  note w = take_request_weights [OF ok' p' st]
  show "executions_ok t" by (rule take_request_ok [OF ok' st])
  show "usd_held t = usd_held s" using w(1) by simp
  have "total_fees_collected t = total_fees_collected s + kept"
    using ledger_step_fields(3) [OF st] by (simp add: take_request_def)
  with w(2) r(2,4) show "near_held s + total_fees_collected s
      = paid_out es + near_held t + total_fees_collected t" by simp
qed

lemma request_effect:
  assumes ok: "executions_ok s" and run: "request_execution ext cx a s = Inr (t, es)"
  shows "projects_ok s \<Longrightarrow> executions_ok t" "usd_held t = usd_held s"
    "attached_deposit cx + near_held s = near_held t" "total_fees_collected t = total_fees_collected s"
    "paid_out es = 0"
proof -
  obtain resolved uuid cost b where "\<not> paused s"
    "case ea_secrets_ref a of None \<Rightarrow> True | Some x \<Rightarrow> profile_shape_error ext (sr_profile x) = None"
    and src: "resolve_execution_source (ea_source a) s = Inr (resolved, uuid)"
    "source_project (ea_source a) = None \<longrightarrow> code_source_error resolved = None"
    and "capped a" "compute_estimate a s = Inr cost" "price_covered ext a s"
    "cost + input_storage_deposit (data_len (ea_input_data a)) \<le> attached_deposit cx"
    and debit: "debit_attached_usd cx a s = Inr (s\<lparr>user_stablecoin_balances := b\<rparr>)"
    and "next_request_id s + 1 < 2 ^ 64"
    and t: "t = s\<lparr>user_stablecoin_balances := b, next_request_id := next_request_id s + 1,
           pending_requests := (pending_requests s)
             (next_request_id s \<mapsto> pending_request_of cx (next_request_id s) resolved a)\<rparr>"
    and es: "es = [YieldExecution (response_gas (data_len (ea_input_data a))) (new_data_id cx)
             (request_data_of cx (next_request_id s) resolved uuid a),
           EmitExecutionRequested (new_data_id cx)
             (request_data_of cx (next_request_id s) resolved uuid a)]"
    by (rule request_execution_run [OF run])
  note fin = executions_okD(2) [OF ok, unfolded ledgers_ok_def]
  have b: "finite (dom b)"
    "map_total b + attached_usd_of a = map_total (user_stablecoin_balances s)"
    "attached_usd_of a > 0 \<longrightarrow> source_project (ea_source a) \<noteq> None"
    using debit_attached_usd_Inr(2,5) [OF debit] fin by simp_all
  have fresh: "pending_requests s (next_request_id s) = None"
    using executions_okD(3) [OF ok, of "next_request_id s"] by (force simp: request_ok_def)
  note w = weight_total_put_fresh [OF executions_okD(1) [OF ok] fresh]
  show "usd_held t = usd_held s"
    using b(2) w [of rq_attached_usd]
    by (simp add: t usd_held_def ledgers_total_def pending_request_of_def)
  show "attached_deposit cx + near_held s = near_held t"
    using w [of rq_payment] by (simp add: t near_held_def pending_request_of_def)
  show "total_fees_collected t = total_fees_collected s" "paid_out es = 0" by (simp_all add: t es)
  assume pk: "projects_ok s"
  have "code_source_error resolved = None"
    using src resolved_source_safe [OF pk src(1)] by blast
  then show "executions_ok t"
    using executions_okD [OF ok] fin b by (auto simp: t executions_ok_def ledgers_ok_def request_ok_def
        pending_request_of_def dest: executions_okD(3) [OF ok] split: if_splits)
qed

lemma answer_effect:
  assumes ok: "executions_ok s" and rq: "pending_requests s i = Some rq"
    and t: "t = s \<or> t = s\<lparr>pending_requests := (pending_requests s)(i \<mapsto> rq')\<rparr>"
    and rq': "\<exists>out. rq' = rq\<lparr>rq_pending_output := Some (stored_output_of ext out), rq_output_submitted := True\<rparr>"
  shows "executions_ok t" "usd_held t = usd_held s" "near_held t = near_held s"
    "total_fees_collected t = total_fees_collected s"
proof -
  note fin = executions_okD(1) [OF ok]
  from rq' have same: "rq_attached_usd rq' = rq_attached_usd rq" "rq_payment rq' = rq_payment rq"
    and okr: "request_ok s i rq'"
    using executions_okD(3) [OF ok rq] by (auto simp: request_ok_def)
  show "usd_held t = usd_held s" "near_held t = near_held s"
    using t weight_total_update_same [of "pending_requests s" i rq, OF fin rq] same
    by (auto simp: usd_held_def near_held_def ledgers_total_def)
  show "total_fees_collected t = total_fees_collected s" using t by auto
  show "executions_ok t"
  proof (cases "t = s")
    case True
    with ok show ?thesis by simp
  next
    case False
    with t have t: "t = s\<lparr>pending_requests := (pending_requests s)(i \<mapsto> rq')\<rparr>" by simp
    have "request_ok t = request_ok s" by (intro ext) (simp add: request_ok_def t)
    with okr executions_okD [OF ok] show ?thesis
      unfolding executions_ok_def by (simp add: t ledgers_ok_def)
  qed
qed

lemma run_execution_call_ok:
  assumes "executions_ok s" "projects_ok s" "run_execution_call ext c cx s = Inr (t, es)"
  shows "executions_ok t"
  using assms(3)
proof (cases rule: execution_call_cases)
  case admitted
  with assms(1,2) request_effect(1) show ?thesis by blast
next
  case answered
  with assms(1) answer_effect(1) show ?thesis by blast
next
  case callback
  with assms(1) callback_effect(1) show ?thesis by blast
next
  case cancelled
  with assms(1) cancel_effect(1) show ?thesis by blast
qed

lemma execution_call_usd:
  assumes "executions_ok s" "run_execution_call ext c cx s = Inr (t, es)"
  shows "usd_held t = usd_held s"
  using assms(2)
proof (cases rule: execution_call_cases)
  case admitted
  with assms(1) request_effect(2) show ?thesis by blast
next
  case answered
  with assms(1) answer_effect(2) show ?thesis by blast
next
  case callback
  with assms(1) callback_effect(2) show ?thesis by blast
next
  case cancelled
  with assms(1) cancel_effect(2) show ?thesis by blast
qed

text \<open>
  What the code counts as collected beyond what it kept: a timed-out request whose payment is
  below the present base fee is refunded nothing and counted at the whole base fee.
\<close>

fun fee_overcount :: "execution_call \<Rightarrow> contract \<Rightarrow> nat" where
  "fee_overcount (OnExecutionResponse i a src l n None) s =
     (if pending_requests s i = None then 0 else base_fee s - n)"
| "fee_overcount _ s = 0"

text \<open>A callback carries the payment of its request: the yield was created with it.\<close>

fun callback_faithful :: "execution_call \<Rightarrow> contract \<Rightarrow> bool" where
  "callback_faithful (OnExecutionResponse i a src l n r) s =
     (case pending_requests s i of None \<Rightarrow> True | Some rq \<Rightarrow> n = rq_payment rq)"
| "callback_faithful _ s = True"

lemma fee_overcount_other: "\<nexists>i a src l n. c = OnExecutionResponse i a src l n None \<Longrightarrow> fee_overcount c s = 0"
  by (cases "(c, s)" rule: fee_overcount.cases) auto

lemma callback_near:
  assumes ok: "executions_ok s" and c: "callback_faithful (OnExecutionResponse i a src l n r) s"
    and run: "on_execution_response ext cx i a src l n r s = Inr (t, es)"
  shows "near_held s + total_fees_collected s + fee_overcount (OnExecutionResponse i a src l n r) s
       = paid_out es + near_held t + total_fees_collected t"
proof (cases "pending_requests s i")
  case None
  with callback_effect(3) [OF ok run] show ?thesis by (cases r) auto
next
  case (Some rq)
  from callback_effect(4) [OF ok run Some] Some c show ?thesis by (cases r) auto
qed

lemma private_no_deposit:
  "on_execution_response ext cx i a src l n r s = Inr (t, es) \<Longrightarrow> attached_deposit cx = 0"
  "cancel_stale_execution cx i s = Inr (t, es) \<Longrightarrow> attached_deposit cx = 0"
  by (auto simp: on_execution_response_def cancel_stale_execution_def run_simps)

section \<open>Properties: the two payments\<close>

text \<open>
  C3. Stablecoin is neither created nor lost by executions: across admission, the operator's
  answers, settlement of every kind and a sender's cancellation, the sum of user balances,
  developer earnings and what pending requests hold does not change.
\<close>

theorem stablecoin_conserved:
  assumes "executions_ok s" "run_execution_call ext c cx s = Inr (t, es)"
  shows "usd_held t = usd_held s"
  using assms by (rule execution_call_usd)

text \<open>
  C4. NEAR of executions is accounted for: what is attached plus what is held for pending
  requests plus the fees counted so far equals what is paid out plus what is held and counted
  afterwards, on every call, with one exception that the statement names: a timed-out request that
  paid less than the present base fee is counted at the whole base fee.
\<close>

theorem execution_near_accounting:
  assumes "executions_ok s" "callback_faithful c s" "run_execution_call ext c cx s = Inr (t, es)"
  shows "attached_deposit cx + near_held s + total_fees_collected s + fee_overcount c s
       = paid_out es + near_held t + total_fees_collected t"
  using assms(3)
proof (cases rule: execution_call_cases)
  case (admitted a)
  with request_effect(3-5) [OF assms(1) admitted(2)] show ?thesis by simp
next
  case (answered i rq rq')
  have "fee_overcount c s = 0" using answered(7) by (intro fee_overcount_other) blast
  with answered answer_effect(3,4) [OF assms(1) answered(1-3)] show ?thesis by simp
next
  case (callback i a src l n r)
  with callback_near [OF assms(1)] assms(2) private_no_deposit(1) show ?thesis by simp
next
  case (cancelled i)
  with cancel_effect(3) [OF assms(1)] private_no_deposit(2) show ?thesis by simp
qed

section \<open>Settlement in detail\<close>

lemma settle_attached_value:
  "settle_attached a p g = (a - (min a p - min g (min a p)), min a p - min g (min a p))"
  by (auto simp: settle_attached_def Let_def min_def)

lemma pay_developers_read:
  assumes "pay_developers (Some (author, price, share)) pj n s = Inr t" "share \<le> 10000"
  shows "user_stablecoin_balances t = user_stablecoin_balances s"
    "get0 (developer_earnings t) b = get0 (developer_earnings s) b
       + (if b = author then n * share div 10000 else 0)
       + (if b = pj_owner pj then n - n * share div 10000 else 0)"
proof -
  from assms(1) obtain sp where sp: "split_payment n share = Inr sp"
    and pay: "(if author_usd sp > 0 then
            bind_call (credit_earnings author (author_usd sp) s)
              (credit_earnings (pj_owner pj) (owner_usd sp))
          else credit_earnings (pj_owner pj) n s) = Inr t"
    by (auto simp: pay_developers_def run_simps)
  from split_payment_Inr [OF sp] assms(2)
  have v: "author_usd sp = n * share div 10000" "owner_usd sp = n - n * share div 10000" by auto
  show "user_stablecoin_balances t = user_stablecoin_balances s"
    using pay by (auto simp: run_simps split: if_splits)
  show "get0 (developer_earnings t) b = get0 (developer_earnings s) b
       + (if b = author then n * share div 10000 else 0)
       + (if b = pj_owner pj then n - n * share div 10000 else 0)"
    using pay v by (auto simp: run_simps split: if_splits)
qed

lemma return_attached_earnings: "return_attached_usd a n s = Inr t \<Longrightarrow> developer_earnings t = developer_earnings s"
  by (auto simp: return_attached_usd_def run_simps split: if_splits)

lemma settle_usd_priced:
  fixes rq :: execution_request
  defines "charge \<equiv> \<lambda>price g. min (rq_attached_usd rq) price
                          - min (or_default 0 g) (min (rq_attached_usd rq) price)"
  assumes run: "settle_usd ext rq g s = Inr t" and pos: "0 < rq_attached_usd rq"
    and row: "priced_row ext s rq = Some (author, price, share)" and share: "share \<le> 10000"
    and pj: "Option.bind (source_project (rq_execution_source rq)) (projects s) = Some pj"
  shows "get0 (user_stablecoin_balances t) b = get0 (user_stablecoin_balances s) b
       + (if b = rq_sender_id rq then rq_attached_usd rq - charge price g else 0)"
    "get0 (developer_earnings t) b = get0 (developer_earnings s) b
       + (if b = author then charge price g * share div 10000 else 0)
       + (if b = pj_owner pj then charge price g - charge price g * share div 10000 else 0)"
proof -
  let ?c = "charge price g"
  have "settle_attached (rq_attached_usd rq) (charged_price ext s rq) (or_default 0 g)
      = (rq_attached_usd rq - ?c, ?c)"
    by (simp add: settle_attached_value charged_price_def row charge_def)
  from run [unfolded settle_usd_unfold [OF pos [THEN gr_implies_not0] this]] obtain u where
    u: "return_attached_usd (rq_sender_id rq) (rq_attached_usd rq - ?c) s = Inr u"
    and rest: "pay_or_return ext rq ?c s u = Inr t" by (auto simp: run_simps)
  have pj': "Option.bind (source_project (rq_execution_source rq)) (projects u) = Some pj"
    using pj ledger_step_fields(6) [OF return_attached_step [OF u]] by simp
  note e = return_attached_earnings [OF u] and r = returned.credit_read [OF u, of b]
  have *: "user_stablecoin_balances t = user_stablecoin_balances u \<and>
    get0 (developer_earnings t) b = get0 (developer_earnings u) b
       + (if b = author then ?c * share div 10000 else 0)
       + (if b = pj_owner pj then ?c - ?c * share div 10000 else 0)"
  proof (cases "?c = 0")
    case True
    with rest show ?thesis by (simp add: pay_or_return_def)
  next
    case False
    with rest [unfolded pay_or_return_def] pj' row have "pay_developers (Some (author, price, share)) pj ?c u = Inr t" by simp
    from pay_developers_read [OF this share] show ?thesis by simp
  qed
  then show "get0 (user_stablecoin_balances t) b = get0 (user_stablecoin_balances s) b
       + (if b = rq_sender_id rq then rq_attached_usd rq - ?c else 0)"
    using r by simp
  from * show "get0 (developer_earnings t) b = get0 (developer_earnings s) b
       + (if b = author then ?c * share div 10000 else 0)
       + (if b = pj_owner pj then ?c - ?c * share div 10000 else 0)"
    using e by simp
qed

text \<open>Settlement returns when the sums fit.\<close>

lemma credit_balance_returns:
  assumes "ledgers_ok s" "ledgers_total s + n < 2 ^ 128"
  shows "\<exists>t. credit_balance a n s = Inr t"
  using assms get0_le_total [of "user_stablecoin_balances s" a]
  by (simp add: credit_balance_def fits_def ledgers_ok_def ledgers_total_def)

lemma credit_earnings_returns:
  assumes "ledgers_ok s" "ledgers_total s + n < 2 ^ 128"
  shows "\<exists>t. credit_earnings a n s = Inr t"
  using assms get0_le_total [of "developer_earnings s" a]
  by (simp add: credit_earnings_def fits_def ledgers_ok_def ledgers_total_def)

lemma return_attached_returns:
  "ledgers_ok s \<Longrightarrow> ledgers_total s + n < 2 ^ 128 \<Longrightarrow> \<exists>t. return_attached_usd a n s = Inr t"
  by (simp add: return_attached_usd_def credit_balance_returns)

lemma pay_developers_returns:
  assumes ok: "ledgers_ok s" "ledgers_total s + n < 2 ^ 128" and n: "n * 10000 < 2 ^ 128"
  shows "\<exists>t. pay_developers pr pj n s = Inr t"
proof (cases pr)
  case None
  with credit_earnings_returns [OF ok] show ?thesis by (simp add: pay_developers_def)
next
  case (Some q)
  obtain author price share where q: "q = (author, price, share)" by (cases q)
  have "n * min share 10000 \<le> n * 10000" by simp
  with n have "n * min share 10000 < 2 ^ 128" by linarith
  then obtain sp where sp: "split_payment n share = Inr sp" using split_payment_total by blast
  have sum: "author_usd sp + owner_usd sp = n" using split_payment_Inr [OF sp] by simp
  obtain u where u: "credit_earnings author (author_usd sp) s = Inr u"
    using credit_earnings_returns [OF ok(1), of "author_usd sp"] ok(2) sum by auto
  note st = ledger_step_sound [OF credit_earnings_step [OF u] ok(1)]
  from st ok(2) sum obtain v where "credit_earnings (pj_owner pj) (owner_usd sp) u = Inr v"
    using credit_earnings_returns [of u "owner_usd sp"] by auto
  with u sp credit_earnings_returns [OF ok, of "pj_owner pj"] show ?thesis
    by (simp add: pay_developers_def Some q bind_call_def)
qed

lemma settle_usd_returns:
  assumes ok: "ledgers_ok s" "ledgers_total s + rq_attached_usd rq < 2 ^ 128"
    and n: "rq_attached_usd rq * 10000 < 2 ^ 128"
  shows "\<exists>t. settle_usd ext rq g s = Inr t"
proof (cases "rq_attached_usd rq = 0")
  case True
  then show ?thesis by (simp add: settle_usd_def)
next
  case False
  obtain r d where rd: "settle_attached (rq_attached_usd rq) (charged_price ext s rq) (or_default 0 g) = (r, d)"
    by (metis surj_pair)
  note sum = settle_attached_sum [OF rd]
  obtain u where u: "return_attached_usd (rq_sender_id rq) r s = Inr u"
    using return_attached_returns [OF ok(1), of r] ok(2) sum by fastforce
  note st = ledger_step_sound [OF return_attached_step [OF u] ok(1)]
  have "\<exists>t. pay_developers (priced_row ext s rq) pj d u = Inr t" for pj
    using pay_developers_returns [of u d] st ok(2) n sum by auto
  moreover have "\<exists>t. return_attached_usd (rq_sender_id rq) d u = Inr t"
    using return_attached_returns [of u d] st ok(2) sum by auto
  ultimately have "\<exists>t. pay_or_return ext rq d s u = Inr t"
    unfolding pay_or_return_def by (auto split: option.splits)
  with u show ?thesis by (simp add: settle_usd_unfold [OF False rd] bind_call_def)
qed

lemma priced_row_frame [simp]:
  "priced_row ext (s\<lparr>pending_requests := x\<rparr>) rq = priced_row ext s rq"
  "priced_row ext (s\<lparr>total_executions := n\<rparr>) rq = priced_row ext s rq"
  by (simp_all add: priced_row_def)

lemma calculate_cost_frame [simp]:
  "calculate_cost (s\<lparr>pending_requests := x\<rparr>) m = calculate_cost s m"
  "calculate_cost (s\<lparr>total_executions := n\<rparr>) m = calculate_cost s m"
  by (simp_all add: calculate_cost_def split: option.split)

lemma estimate_cost_frame [simp]:
  "estimate_cost (s\<lparr>pending_requests := x\<rparr>) l = estimate_cost s l"
  by (simp add: estimate_cost_def)

lemma unearned_step:
  assumes gone: "Option.bind (source_project (rq_execution_source rq)) (projects s) = None"
    and run: "settle_usd ext rq g s = Inr t"
  shows "get0 (user_stablecoin_balances t) b = get0 (user_stablecoin_balances s) b
       + (if b = rq_sender_id rq then rq_attached_usd rq else 0)"
    "developer_earnings t = developer_earnings s"
proof -
  have "get0 (user_stablecoin_balances t) b = get0 (user_stablecoin_balances s) b
       + (if b = rq_sender_id rq then rq_attached_usd rq else 0) \<and>
      developer_earnings t = developer_earnings s"
  proof (cases "rq_attached_usd rq = 0")
    case True
    with run show ?thesis by (simp add: settle_usd_def)
  next
    case False
    obtain r d where rd: "settle_attached (rq_attached_usd rq) (charged_price ext s rq) (or_default 0 g) = (r, d)"
      by (metis surj_pair)
    from run obtain u where u: "return_attached_usd (rq_sender_id rq) r s = Inr u"
      and rest: "pay_or_return ext rq d s u = Inr t"
      by (auto simp: settle_usd_unfold [OF False rd] run_simps)
    have "Option.bind (source_project (rq_execution_source rq)) (projects u) = None"
      using gone ledger_step_fields(6) [OF return_attached_step [OF u]] by simp
    with rest have "return_attached_usd (rq_sender_id rq) d u = Inr t"
      by (auto simp: pay_or_return_def return_attached_usd_def split: if_splits)
    with returned.credit_read [OF u, of b] returned.credit_read [OF this, of b]
      return_attached_earnings [OF u] return_attached_earnings [OF this] settle_attached_sum [OF rd]
    show ?thesis by auto
  qed
  then show "get0 (user_stablecoin_balances t) b = get0 (user_stablecoin_balances s) b
       + (if b = rq_sender_id rq then rq_attached_usd rq else 0)"
    "developer_earnings t = developer_earnings s" by simp_all
qed

lemma callback_returns:
  assumes ok: "executions_ok s" and rq: "pending_requests s i = Some rq"
    and cx: "predecessor cx = current_account cx" "attached_deposit cx = 0"
    and usd: "usd_held s * 10000 < 2 ^ 128" and n: "total_executions s + 1 < 2 ^ 64"
    and fees: "total_fees_collected s + max pay (base_fee s) < 2 ^ 128"
    and cost: "case resp of None \<Rightarrow> True
               | Some r \<Rightarrow> calculate_cost s (er_resources_used r) \<in> range Inr"
  shows "\<exists>t es. on_execution_response ext cx i sender src l pay resp s = Inr (t, es) \<and>
           pending_requests t i = None"
proof -
  let ?s1 = "s\<lparr>pending_requests := (pending_requests s)(i := None),
              total_executions := total_executions s + 1\<rparr>"
  have "rq_attached_usd rq \<le> weight_total rq_attached_usd (pending_requests s)"
    using weight_at_le_total [OF executions_okD(1) [OF ok], of rq_attached_usd i] rq
    by (simp add: weight_at_def)
  then have sum: "ledgers_total ?s1 + rq_attached_usd rq \<le> usd_held s"
    by (simp add: usd_held_def ledgers_total_def)
  have l: "ledgers_ok ?s1" using executions_okD(2) [OF ok] by (simp add: ledgers_ok_def)
  have small: "ledgers_total ?s1 + rq_attached_usd rq < 2 ^ 128" "rq_attached_usd rq * 10000 < 2 ^ 128"
    using sum usd by linarith+
  from return_attached_returns [OF l small(1)] obtain u1 where
    u1: "return_attached_usd (rq_sender_id rq) (rq_attached_usd rq) ?s1 = Inr u1" by blast
  have "\<exists>t es. on_execution_response ext cx i sender src l pay resp s = Inr (t, es)"
  proof (cases resp)
    case None
    have "collect_fee (base_fee u1) u1 = Inr (u1\<lparr>total_fees_collected :=
        total_fees_collected u1 + base_fee u1\<rparr>)"
      using fees ledger_step_fields(3,5) [OF return_attached_step [OF u1]]
      by (auto simp: collect_fee_Inr)
    with None rq cx n u1 show ?thesis
      by (simp add: on_execution_response_def private_call_def not_payable_def fits_def Let_def
          settle_timeout_def bind_call_def)
  next
    case (Some r)
    with cost obtain c0 where c0: "calculate_cost ?s1 (er_resources_used r) = Inr c0" by auto
    define c where "c = min c0 (pay - storage_part rq)"
    have fee: "collect_fee c u = Inr (u\<lparr>total_fees_collected := total_fees_collected u + c\<rparr>)"
      if "ledger_step k ?s1 u" for u k
      using fees ledger_step_fields(3) [OF that] by (auto simp: collect_fee_Inr c_def)
    have charge: "run_charge ?s1 rq pay (er_resources_used r) = Inr c"
      using c0 by (simp add: run_charge_def bind_call_def c_def)
    from settle_usd_returns [OF l small] obtain u2 where
      u2: "settle_usd ext rq (er_refund_usd r) ?s1 = Inr u2" by blast
    show ?thesis
      using Some rq cx n u1 u2 charge fee [OF return_attached_step [OF u1]] fee [OF settle_usd_step [OF u2]]
      by (cases "er_success r")
        (simp_all add: on_execution_response_def private_call_def not_payable_def fits_def Let_def
          settle_success_def settle_failure_def bind_call_def)
  qed
  then obtain t es where run: "on_execution_response ext cx i sender src l pay resp s = Inr (t, es)" by blast
  then have "pending_requests t i = None"
    by (cases rule: on_execution_response_run)
      (use rq in \<open>auto simp: take_request_def dest: ledger_step_fields(1)\<close>)
  with run show ?thesis by blast
qed

section \<open>Properties: settlement\<close>

text \<open>
  A successful run of a priced operation divides the attached stablecoin exactly: the price,
  less what the guest hands back of it, is the charge; the author gets the floor of their share of
  the charge, the project's owner the rest of the charge, the sender everything else, and no other
  account's balance or earnings move.
\<close>

theorem priced_settlement:
  assumes "on_execution_response ext cx i sender src l pay (Some r) s = Inr (t, es)"
    and "pending_requests s i = Some rq" "er_success r" "0 < rq_attached_usd rq"
    and "rq_execution_source rq = ProjectSrc pid vk" "projects s pid = Some pj"
    and "priced_row ext s rq = Some (author, price, share)" "share \<le> 10000"
  shows "let due = min (rq_attached_usd rq) price;
             charge = due - min (or_default 0 (er_refund_usd r)) due;
             cut = charge * share div 10000 in
    get0 (user_stablecoin_balances t) b = get0 (user_stablecoin_balances s) b
      + (if b = rq_sender_id rq then rq_attached_usd rq - charge else 0) \<and>
    get0 (developer_earnings t) b = get0 (developer_earnings s) b
      + (if b = author then cut else 0) + (if b = pj_owner pj then charge - cut else 0)"
proof -
  let ?s1 = "s\<lparr>pending_requests := (pending_requests s)(i := None),
              total_executions := total_executions s + 1\<rparr>"
  from assms(1-3) obtain u where u: "settle_usd ext rq (er_refund_usd r) ?s1 = Inr u"
    "user_stablecoin_balances t = user_stablecoin_balances u" "developer_earnings t = developer_earnings u"
    by (auto simp: on_execution_response_def settle_success_def run_simps Let_def)
  have row: "priced_row ext ?s1 rq = Some (author, price, share)"
    and pj: "Option.bind (source_project (rq_execution_source rq)) (projects ?s1) = Some pj"
    using assms(5-7) by simp_all
  from settle_usd_priced [OF u(1) assms(4) row assms(8) pj, of b] u(2,3) show ?thesis
    by (simp add: Let_def)
qed

text \<open>
  Stablecoin that is not earned goes back whole: when the run failed, when the yield timed out,
  and when the project was deleted before a successful run settled, the account the money came out
  of gets all of it and nobody earns anything.
\<close>

theorem unearned_stablecoin_returns:
  assumes "on_execution_response ext cx i sender src l pay resp s = Inr (t, es)"
    and "pending_requests s i = Some rq"
    and "case resp of None \<Rightarrow> True
         | Some r \<Rightarrow> \<not> er_success r \<or>
             Option.bind (source_project (rq_execution_source rq)) (projects s) = None"
  shows "get0 (user_stablecoin_balances t) b = get0 (user_stablecoin_balances s) b
       + (if b = rq_sender_id rq then rq_attached_usd rq else 0) \<and>
    developer_earnings t = developer_earnings s"
proof -
  let ?s1 = "s\<lparr>pending_requests := (pending_requests s)(i := None),
              total_executions := total_executions s + 1\<rparr>"
  have "\<exists>u. (return_attached_usd (rq_sender_id rq) (rq_attached_usd rq) ?s1 = Inr u \<or>
        (\<exists>g. settle_usd ext rq g ?s1 = Inr u \<and>
          Option.bind (source_project (rq_execution_source rq)) (projects ?s1) = None)) \<and>
      user_stablecoin_balances t = user_stablecoin_balances u \<and>
      developer_earnings t = developer_earnings u"
  proof (cases resp)
    case None
    with assms(1,2) show ?thesis
      by (auto simp: on_execution_response_def settle_timeout_def run_simps Let_def)
  next
    case (Some r)
    show ?thesis
    proof (cases "er_success r")
      case True
      with assms Some show ?thesis
        by (auto simp: on_execution_response_def settle_success_def run_simps Let_def)
    next
      case False
      with assms(1,2) Some show ?thesis
        by (auto simp: on_execution_response_def settle_failure_def run_simps Let_def)
    qed
  qed
  then obtain u where u: "return_attached_usd (rq_sender_id rq) (rq_attached_usd rq) ?s1 = Inr u \<or>
        (\<exists>g. settle_usd ext rq g ?s1 = Inr u \<and>
          Option.bind (source_project (rq_execution_source rq)) (projects ?s1) = None)"
    and t: "user_stablecoin_balances t = user_stablecoin_balances u"
      "developer_earnings t = developer_earnings u" by blast
  from u have "get0 (user_stablecoin_balances u) b = get0 (user_stablecoin_balances ?s1) b
       + (if b = rq_sender_id rq then rq_attached_usd rq else 0) \<and>
    developer_earnings u = developer_earnings ?s1"
    using unearned_step(1) [of rq ?s1 ext _ u b] unearned_step(2) [of rq ?s1 ext _ u]
      returned.credit_read [of "rq_sender_id rq" "rq_attached_usd rq" ?s1 u b]
      return_attached_earnings [of "rq_sender_id rq" "rq_attached_usd rq" ?s1 u] by auto
  with t show ?thesis by simp
qed

text \<open>
  The callback settles: with a sound state whose stablecoin total times 10000 fits 128 bits,
  counters below their width and a reported use whose cost fits, the callback the runtime makes for
  a pending request returns, whatever the answer, and the request is gone afterwards.
\<close>

theorem callback_settles:
  assumes ok: "executions_ok s" and rq: "pending_requests s i = Some rq"
    and cx: "predecessor cx = current_account cx" "attached_deposit cx = 0"
    and usd: "usd_held s * 10000 < 2 ^ 128" and n: "total_executions s + 1 < 2 ^ 64"
    and fees: "total_fees_collected s + max pay (base_fee s) < 2 ^ 128"
    and cost: "case resp of None \<Rightarrow> True
               | Some r \<Rightarrow> calculate_cost s (er_resources_used r) \<in> range Inr"
  shows "\<exists>t es. on_execution_response ext cx i sender src l pay resp s = Inr (t, es) \<and>
           pending_requests t i = None"
  using assms by (rule callback_returns)

section \<open>Properties: admission, cancellation and answers\<close>

text \<open>
  What admission takes: a request is admitted only while the contract is not paused, inside
  the hard caps, and with NEAR that covers the compute estimate and the storage of its input; it is
  stored under a fresh id with the caller as its sender. An execution of a priced project names a
  sold operation and attaches at least its price. The attached stablecoin comes out of the caller's
  balance, which covered it, and out of no other.
\<close>

theorem admission_takes_what_it_stores:
  assumes "executions_ok s" "request_execution ext cx a s = Inr (t, es)"
  shows "\<exists>rq cost. pending_requests t = (pending_requests s)(next_request_id s \<mapsto> rq) \<and>
    pending_requests s (next_request_id s) = None \<and> next_request_id t = next_request_id s + 1 \<and>
    \<not> paused s \<and> capped a \<and> rq_sender_id rq = predecessor cx \<and> rq_payment rq = attached_deposit cx \<and>
    compute_estimate a s = Inr cost \<and> cost + storage_part rq \<le> rq_payment rq \<and>
    (\<forall>pid pricing. source_project (ea_source a) = Some pid \<and> project_pricing s pid = Some pricing \<and>
       \<not> compiles_only a \<longrightarrow>
       (\<exists>operation price. operation_from_input ext (ea_input_data a) = Inr operation \<and>
          price_for_operation pricing operation = Some price \<and> price \<le> rq_attached_usd rq)) \<and>
    rq_attached_usd rq \<le> get0 (user_stablecoin_balances s) (predecessor cx) \<and>
    (\<forall>b. get0 (user_stablecoin_balances t) b = get0 (user_stablecoin_balances s) b
           - (if b = predecessor cx then rq_attached_usd rq else 0))"
proof (rule request_execution_run [OF assms(2)])
  fix resolved uuid cost b
  assume r: "\<not> paused s" "capped a" "compute_estimate a s = Inr cost" "price_covered ext a s"
    "cost + input_storage_deposit (data_len (ea_input_data a)) \<le> attached_deposit cx"
    "debit_attached_usd cx a s = Inr (s\<lparr>user_stablecoin_balances := b\<rparr>)"
    "t = s\<lparr>user_stablecoin_balances := b, next_request_id := next_request_id s + 1,
           pending_requests := (pending_requests s)
             (next_request_id s \<mapsto> pending_request_of cx (next_request_id s) resolved a)\<rparr>"
  let ?rq = "pending_request_of cx (next_request_id s) resolved a"
  have fresh: "pending_requests s (next_request_id s) = None"
    using executions_okD(3) [OF assms(1), of "next_request_id s"] by (force simp: request_ok_def)
  note d = debit_attached_usd_Inr(1,4) [OF r(6)]
  show ?thesis
    by (rule exI [of _ ?rq], rule exI [of _ cost])
      (use r fresh d in \<open>auto simp: pending_request_of_def storage_part_def price_covered_def\<close>)
qed

text \<open>
  The storage namespace of a run is the contract's to name: the request handed to the worker
  carries the uuid of the project it names, and none for code given inline, whatever
  \<open>params.project_uuid\<close> the caller sent; the code it carries is the named or the active version of
  that project, or the inline source, and is one the source rule accepts.
\<close>

theorem namespace_is_the_projects:
  assumes "projects_ok s" "request_execution ext cx a s = Inr (t, es)"
  shows "\<exists>gas rd. es = [YieldExecution gas (new_data_id cx) rd, EmitExecutionRequested (new_data_id cx) rd] \<and>
    code_source_error (rd_code_source rd) = None \<and>
    (case ea_source a of
       GitHubSrc repo commit target \<Rightarrow>
         rd_project_uuid rd = None \<and> rd_code_source rd = GitHubCode repo commit target
     | WasmUrlSrc url hash target \<Rightarrow>
         rd_project_uuid rd = None \<and> rd_code_source rd = WasmUrlCode url hash target
     | ProjectSrc pid vk \<Rightarrow>
         \<exists>p vs v. projects s pid = Some p \<and> rd_project_uuid rd = Some (pj_uuid p) \<and>
           project_versions s (pj_uuid p) = Some vs \<and>
           vs (or_default (pj_active_version p) vk) = Some v \<and> rd_code_source rd = vi_source v)"
proof (rule request_execution_run [OF assms(2)])
  fix resolved uuid
  assume r: "resolve_execution_source (ea_source a) s = Inr (resolved, uuid)"
    "source_project (ea_source a) = None \<longrightarrow> code_source_error resolved = None"
    "es = [YieldExecution (response_gas (data_len (ea_input_data a))) (new_data_id cx)
             (request_data_of cx (next_request_id s) resolved uuid a),
           EmitExecutionRequested (new_data_id cx)
             (request_data_of cx (next_request_id s) resolved uuid a)]"
  have safe: "code_source_error resolved = None"
    using r(2) resolved_source_safe [OF assms(1) r(1)] by blast
  let ?rd = "request_data_of cx (next_request_id s) resolved uuid a"
  have rd: "rd_code_source ?rd = resolved" "rd_project_uuid ?rd = uuid"
    by (simp_all add: request_data_of_def Let_def)
  show ?thesis
    by (rule exI [of _ "response_gas (data_len (ea_input_data a))"], rule exI [of _ ?rd])
      (use r(1,3) safe rd in \<open>auto simp del: resolve_execution_source.simps(3)
        split: execution_source.splits dest!: resolve_project_run\<close>)
qed

text \<open>
  A stuck request is cancelled only by its sender and only after the timeout. The request is
  gone; the payer gets the payment less the charge, and the charge is the base fee, or the compute
  estimate of its limits when its output had been delivered, and never more than was paid; the
  stablecoin goes back whole.
\<close>

theorem cancel_stale_rules:
  assumes "cancel_stale_execution cx i s = Inr (t, es)"
  shows "\<exists>rq charge. pending_requests s i = Some rq \<and> pending_requests t = (pending_requests s)(i := None) \<and>
    predecessor cx = rq_sender_id rq \<and> rq_timestamp rq + EXECUTION_TIMEOUT < block_timestamp cx \<and>
    (if rq_output_submitted rq then estimate_cost s (rq_resource_limits rq) = Inr charge
     else charge = base_fee s) \<and>
    es = transfer_if (rq_payer_account_id rq) (rq_payment rq - charge) \<and>
    total_fees_collected t = total_fees_collected s + min (rq_payment rq) charge \<and>
    developer_earnings t = developer_earnings s \<and>
    (\<forall>b. get0 (user_stablecoin_balances t) b = get0 (user_stablecoin_balances s) b
           + (if b = rq_sender_id rq then rq_attached_usd rq else 0))"
proof (rule cancel_stale_run [OF assms])
  fix rq charge kept
  assume r: "pending_requests s i = Some rq" "predecessor cx = rq_sender_id rq"
    "rq_timestamp rq + EXECUTION_TIMEOUT < block_timestamp cx"
    "if rq_output_submitted rq then estimate_cost (take_request i s) (rq_resource_limits rq) = Inr charge
     else charge = base_fee s"
    "kept = min (rq_payment rq) charge"
    "return_attached_usd (rq_sender_id rq) (rq_attached_usd rq)
       ((take_request i s)\<lparr>total_fees_collected := total_fees_collected s + kept\<rparr>) = Inr t"
    "es = transfer_if (rq_payer_account_id rq) (rq_payment rq - kept)"
  note f = ledger_step_fields(1,3) [OF return_attached_step [OF r(6)]]
    return_attached_earnings [OF r(6)] returned.credit_read [OF r(6)]
  have "rq_payment rq - kept = rq_payment rq - charge" by (simp add: r(5) min_def)
  then show ?thesis
    by (intro exI [of _ rq] exI [of _ charge])
      (use r f in \<open>auto simp: take_request_def\<close>)
qed

text \<open>
  The two ways to deliver an output answer alike: after the one-call flow for large outputs
  the callback of a successful run returns the bytes of the submitted output, and after
  \<open>resolve_execution\<close> with the same output inline it returns the same bytes.
\<close>

theorem both_flows_answer_alike:
  assumes large: "submit_execution_output_and_resolve ext cx i out True err used note s = Inr (t, es)"
    and small: "resolve_execution cx' i r s = Inr (t', es')"
      "er_output r = Some out" "er_success r"
    and settle: "on_execution_response ext back i sender src l pay (Some r1) t = Inr (v, fs)"
      "es = [ResumeExecution d r1]"
    and settle': "on_execution_response ext back' i sender' src' l' pay' (Some r2) t' = Inr (v', fs')"
      "es' = [ResumeExecution d' r2]"
  shows "last fs = ReturnBytes (output_return_bytes ext (Some (stored_output_of ext out))) \<and>
    last fs' = last fs \<and> d' = d"
proof -
  from large settle(2) obtain rq where rq: "pending_requests s i = Some rq" "\<not> rq_output_submitted rq"
    "d = rq_data_id rq" "er_success r1"
    "t = s\<lparr>pending_requests := (pending_requests s)(i \<mapsto>
        rq\<lparr>rq_pending_output := Some (stored_output_of ext out), rq_output_submitted := True\<rparr>)\<rparr>"
    by (auto simp: submit_execution_output_and_resolve_def submit_execution_output_internal_def
        resolve_execution_internal_def run_simps)
  from small(1) settle'(2) rq(1) have r2: "r2 = r" "t' = s" "d' = rq_data_id rq"
    by (auto simp: resolve_execution_def resolve_execution_internal_def run_simps)
  have "last fs = ReturnBytes (output_return_bytes ext (Some (stored_output_of ext out)))"
    using settle(1) rq by (auto simp: on_execution_response_def settle_success_def run_simps Let_def)
  moreover have "last fs' = ReturnBytes (output_return_bytes ext (Some (stored_output_of ext out)))"
    using settle'(1) rq r2 small(2,3)
    by (auto simp: on_execution_response_def settle_success_def run_simps Let_def)
  ultimately show ?thesis using r2 rq by simp
qed

lemma version_key_nonempty: "code_source_error src = None \<Longrightarrow> get_version_key src \<noteq> []"
  by (cases src) (auto split: if_splits)

section \<open>Witnesses\<close>

definition demo_request :: execution_request where
  "demo_request =
     \<lparr>rq_request_id = 0, rq_data_id = ''d'', rq_sender_id = ''caller'',
      rq_execution_source = ProjectSrc ''a/x'' None, rq_resolved_source = demo_source,
      rq_resource_limits = default_resource_limits, rq_payment = 10 ^ 24, rq_timestamp = 0,
      rq_secrets_ref = None, rq_response_format = TextFormat, rq_input_data = Some ''op'',
      rq_payer_account_id = ''payer'', rq_attached_usd = 100, rq_pending_output = None,
      rq_output_submitted = False\<rparr>"

definition demo_project :: project where
  "demo_project =
     \<lparr>pj_uuid = ''p1'', pj_owner = ''a'', pj_name = ''x'', pj_active_version = ''v'',
      pj_created_at = 0, pj_storage_deposit = 7\<rparr>"

definition running :: contract where
  "running = (new_contract ''o'' None None None)
     \<lparr>next_request_id := 1, pending_requests := [0 \<mapsto> demo_request],
      projects := [''a/x'' \<mapsto> demo_project],
      project_pricing := [''a/x'' \<mapsto> \<lparr>pp_author_account_id = ''author'',
        pp_operations = [\<lparr>op_operation = ''op'', op_price_usd = 80, op_developer_share_bp = 2500\<rparr>]\<rparr>]\<rparr>"

definition demo_response :: "bool \<Rightarrow> execution_response" where
  "demo_response ok =
     \<lparr>er_success = ok, er_output = Some (TextOut ''hi''), er_error = None,
      er_resources_used = \<lparr>rm_instructions = 5000000, rm_time_ms = 10, rm_compile_time_ms = None\<rparr>,
      er_compilation_note = None, er_refund_usd = Some 20\<rparr>"

lemma running_ok: "executions_ok running"
  by (simp add: executions_ok_def ledgers_ok_def running_def new_contract_def request_ok_def
      demo_request_def demo_source_ok)

lemma running_row: "pending_requests running 0 = Some demo_request"
  by (simp add: running_def)

lemma running_usd: "usd_held running = 100"
  by (simp add: usd_held_def ledgers_total_def running_def new_contract_def weight_total_def
      demo_request_def)

lemma demo_operation: "operation_from_input reference_externals (Some ''op'') = Inr ''op''"
  by (simp add: operation_from_input_def reference_externals_def MAX_PRICED_INPUT_BYTES_def
      INPUT_DATA_EVENT_THRESHOLD_def trim_str_def is_whitespace_def white_space_codes_def
      is_continuation_def Let_def)

lemma running_priced: "priced_row reference_externals running demo_request = Some (''author'', 80, 2500)"
  by (simp add: priced_row_def running_def demo_request_def demo_operation find_operation_def)

lemma running_cost: "calculate_cost running (er_resources_used (demo_response ok)) = Inr 1001000500000000000000"
  by (simp add: calculate_cost_def running_def new_contract_def demo_response_def eval_simps)

lemma running_settles:
  "\<exists>t es. on_execution_response reference_externals (call_by ''outlayer'' 0) 0 ''u'' demo_source
       default_resource_limits (10 ^ 24) resp running = Inr (t, es)"
  if "resp = None \<or> resp = Some (demo_response True)"
proof -
  have "\<exists>t es. on_execution_response reference_externals (call_by ''outlayer'' 0) 0 ''u'' demo_source
       default_resource_limits (10 ^ 24) resp running = Inr (t, es) \<and> pending_requests t 0 = None"
    by (rule callback_returns [OF running_ok running_row])
      (use that in \<open>auto simp: running_usd running_cost call_by_def\<close>,
       simp_all add: running_def new_contract_def)
  then show ?thesis by blast
qed

theorem callback_settles_witness:
  "\<exists>t es. on_execution_response reference_externals (call_by ''outlayer'' 0) 0 ''u'' demo_source
       default_resource_limits (10 ^ 24) (Some (demo_response True)) running = Inr (t, es) \<and>
     pending_requests t 0 = None"
  by (rule callback_settles [OF running_ok running_row])
    (simp_all add: running_usd running_cost call_by_def,
     simp_all add: running_def new_contract_def)

theorem stablecoin_conserved_witness:
  "\<exists>t es. run_execution_call reference_externals (OnExecutionResponse 0 ''u'' demo_source
       default_resource_limits (10 ^ 24) (Some (demo_response True))) (call_by ''outlayer'' 0) running
      = Inr (t, es) \<and> usd_held t = 100"
proof -
  from running_settles [of "Some (demo_response True)"] obtain t es where
    run: "run_execution_call reference_externals (OnExecutionResponse 0 ''u'' demo_source
       default_resource_limits (10 ^ 24) (Some (demo_response True))) (call_by ''outlayer'' 0) running
      = Inr (t, es)" by auto
  from stablecoin_conserved [OF running_ok run] run running_usd show ?thesis by simp
qed

theorem execution_near_accounting_witness:
  "\<exists>t es. run_execution_call reference_externals (OnExecutionResponse 0 ''u'' demo_source
       default_resource_limits (10 ^ 24) None) (call_by ''outlayer'' 0) running = Inr (t, es) \<and>
     10 ^ 24 = paid_out es + near_held t + total_fees_collected t"
proof -
  let ?c = "OnExecutionResponse 0 ''u'' demo_source default_resource_limits (10 ^ 24) None"
  from running_settles [of None] obtain t es where
    run: "run_execution_call reference_externals ?c (call_by ''outlayer'' 0) running = Inr (t, es)"
    by auto
  have "callback_faithful ?c running" by (simp add: running_row demo_request_def)
  from execution_near_accounting [OF running_ok this run] run show ?thesis
    by (simp add: running_def new_contract_def call_by_def near_held_def weight_total_def
        demo_request_def)
qed

theorem priced_settlement_witness:
  "\<exists>t es. on_execution_response reference_externals (call_by ''outlayer'' 0) 0 ''u'' demo_source
       default_resource_limits (10 ^ 24) (Some (demo_response True)) running = Inr (t, es) \<and>
     get0 (user_stablecoin_balances t) ''caller'' = 40 \<and>
     get0 (developer_earnings t) ''author'' = 15 \<and> get0 (developer_earnings t) ''a'' = 45"
proof -
  from running_settles [of "Some (demo_response True)"] obtain t es where
    run: "on_execution_response reference_externals (call_by ''outlayer'' 0) 0 ''u'' demo_source
       default_resource_limits (10 ^ 24) (Some (demo_response True)) running = Inr (t, es)" by auto
  have "er_success (demo_response True)" "0 < rq_attached_usd demo_request"
    "rq_execution_source demo_request = ProjectSrc ''a/x'' None" "projects running ''a/x'' = Some demo_project"
    "(2500 :: nat) \<le> 10000"
    by (simp_all add: demo_response_def demo_request_def running_def)
  note p = priced_settlement [OF run running_row this(1-4) running_priced this(5)]
  from p [of "''caller''"] p [of "''author''"] p [of "''a''"] run show ?thesis
    by (simp add: Let_def demo_request_def demo_project_def demo_response_def or_default_def
        running_def new_contract_def)
qed

theorem unearned_stablecoin_returns_witness:
  "\<exists>t es. on_execution_response reference_externals (call_by ''outlayer'' 0) 0 ''u'' demo_source
       default_resource_limits (10 ^ 24) None running = Inr (t, es) \<and>
     get0 (user_stablecoin_balances t) ''caller'' = 100"
proof -
  from running_settles [of None] obtain t es where
    run: "on_execution_response reference_externals (call_by ''outlayer'' 0) 0 ''u'' demo_source
       default_resource_limits (10 ^ 24) None running = Inr (t, es)" by auto
  from unearned_stablecoin_returns [OF run running_row, of "''caller''"] run show ?thesis
    by (simp add: demo_request_def running_def new_contract_def)
qed

definition demo_args :: execution_args where
  "demo_args =
     \<lparr>ea_source = GitHubSrc ''o/app'' ''v1'' None, ea_resource_limits = None, ea_input_data = None,
      ea_secrets_ref = None, ea_response_format = None, ea_payer_account_id = None,
      ea_params = Some (default_request_params\<lparr>project_uuid := Some ''p7''\<rparr>)\<rparr>"

lemma demo_admitted:
  "\<exists>t es. request_execution reference_externals (call_by ''caller'' (10 ^ 24)) demo_args running = Inr (t, es)"
proof -
  have "code_source_error (GitHubCode ''o/app'' ''v1'' None) = None"
    using demo_source_ok by (simp only: demo_source_def)
  then show ?thesis
    by (simp add: request_execution_def eval_simps check_secrets_ref_def check_flags_def check_caps_def
        check_price_def compute_estimate_def debit_attached_usd_def demo_args_def compiles_only_def
        params_of_def or_default_def attached_usd_of_def data_len_def default_request_params_def
        assert_code_source_def running_def new_contract_def Let_def input_storage_deposit_def
        INPUT_DATA_FREE_BYTES_def)
qed

theorem admission_takes_what_it_stores_witness:
  "\<exists>t es. request_execution reference_externals (call_by ''caller'' (10 ^ 24)) demo_args running = Inr (t, es) \<and>
     next_request_id t = 2 \<and> pending_requests t 1 \<noteq> None"
proof -
  from demo_admitted obtain t es where
    run: "request_execution reference_externals (call_by ''caller'' (10 ^ 24)) demo_args running = Inr (t, es)"
    by blast
  from admission_takes_what_it_stores [OF running_ok run] run show ?thesis
    by (auto simp: running_def)
qed

definition idle :: contract where
  "idle = new_contract ''o'' None None None"

theorem namespace_is_the_projects_witness:
  "\<exists>t gas rd. request_execution reference_externals (call_by ''caller'' (10 ^ 24)) demo_args idle
      = Inr (t, [YieldExecution gas ''d'' rd, EmitExecutionRequested ''d'' rd]) \<and>
     rd_project_uuid rd = None"
proof -
  have "code_source_error (GitHubCode ''o/app'' ''v1'' None) = None"
    using demo_source_ok by (simp only: demo_source_def)
  then have "\<exists>t es. request_execution reference_externals (call_by ''caller'' (10 ^ 24)) demo_args idle = Inr (t, es)"
    by (simp add: request_execution_def eval_simps check_secrets_ref_def check_flags_def check_caps_def
        check_price_def compute_estimate_def debit_attached_usd_def demo_args_def compiles_only_def
        params_of_def or_default_def attached_usd_of_def data_len_def default_request_params_def
        assert_code_source_def idle_def new_contract_def Let_def input_storage_deposit_def
        INPUT_DATA_FREE_BYTES_def)
  then obtain t es where
    run: "request_execution reference_externals (call_by ''caller'' (10 ^ 24)) demo_args idle = Inr (t, es)"
    by blast
  have "projects_ok idle" by (simp add: idle_def projects_ok_new)
  from namespace_is_the_projects [OF this run] run show ?thesis
    by (auto simp: demo_args_def call_by_def)
qed

definition late :: ctx where
  "late = (call_by ''caller'' 0)\<lparr>block_timestamp := 700000000000\<rparr>"

theorem cancel_stale_rules_witness:
  "\<exists>t es. cancel_stale_execution late 0 running = Inr (t, es) \<and> pending_requests t 0 = None \<and>
     get0 (user_stablecoin_balances t) ''caller'' = 100"
proof -
  have "\<exists>t es. cancel_stale_execution late 0 running = Inr (t, es)"
    by (simp add: cancel_stale_execution_def late_def eval_simps running_def new_contract_def
        demo_request_def EXECUTION_TIMEOUT_def Let_def collect_fee_def return_attached_usd_def
        credit_balance_def)
  then obtain t es where run: "cancel_stale_execution late 0 running = Inr (t, es)" by blast
  from cancel_stale_rules [OF run] run show ?thesis
    by (auto simp: running_def new_contract_def demo_request_def)
qed

definition demo_used :: resource_metrics where
  "demo_used = er_resources_used (demo_response True)"

definition submitted :: contract where
  "submitted = running\<lparr>pending_requests := [0 \<mapsto> demo_request
     \<lparr>rq_pending_output := Some (StoredText ''hi''), rq_output_submitted := True\<rparr>]\<rparr>"

definition meta_response :: execution_response where
  "meta_response =
     \<lparr>er_success = True, er_output = None, er_error = None, er_resources_used = demo_used,
      er_compilation_note = None, er_refund_usd = None\<rparr>"

lemma submitted_settles:
  "\<exists>t es. on_execution_response reference_externals (call_by ''outlayer'' 0) 0 ''u'' demo_source
       default_resource_limits (10 ^ 24) (Some meta_response) submitted = Inr (t, es)"
proof -
  have cost: "calculate_cost submitted demo_used = Inr 1001000500000000000000"
    using running_cost by (simp add: submitted_def demo_used_def)
  have held: "usd_held submitted = 100"
    by (simp add: usd_held_def ledgers_total_def submitted_def running_def new_contract_def
        weight_total_def demo_request_def)
  have ok: "executions_ok submitted"
    by (simp add: executions_ok_def ledgers_ok_def submitted_def running_def new_contract_def
        request_ok_def demo_request_def demo_source_ok)
  have row: "pending_requests submitted 0 = Some (demo_request
     \<lparr>rq_pending_output := Some (StoredText ''hi''), rq_output_submitted := True\<rparr>)"
    by (simp add: submitted_def)
  have "\<exists>t es. on_execution_response reference_externals (call_by ''outlayer'' 0) 0 ''u'' demo_source
       default_resource_limits (10 ^ 24) (Some meta_response) submitted = Inr (t, es) \<and>
       pending_requests t 0 = None"
    by (rule callback_returns [OF ok row])
      (simp_all add: held cost call_by_def meta_response_def,
       simp_all add: submitted_def running_def new_contract_def)
  then show ?thesis by blast
qed

theorem both_flows_answer_alike_witness:
  "\<exists>v fs v' fs'. on_execution_response reference_externals (call_by ''outlayer'' 0) 0 ''u'' demo_source
       default_resource_limits (10 ^ 24) (Some meta_response) submitted = Inr (v, fs) \<and>
     on_execution_response reference_externals (call_by ''outlayer'' 0) 0 ''u'' demo_source
       default_resource_limits (10 ^ 24) (Some (demo_response True)) running = Inr (v', fs') \<and>
     last fs' = last fs"
proof -
  have cost: "calculate_cost running demo_used = Inr 1001000500000000000000"
    using running_cost by (simp add: demo_used_def)
  have large: "submit_execution_output_and_resolve reference_externals (call_by ''o'' 0) 0 (TextOut ''hi'')
      True None demo_used None running = Inr (submitted, [ResumeExecution ''d'' meta_response])"
    using cost
    by (simp add: submit_execution_output_and_resolve_def submit_execution_output_internal_def
        resolve_execution_internal_def eval_simps running_row submitted_def meta_response_def)
      (simp add: running_def new_contract_def demo_request_def)
  have small: "resolve_execution (call_by ''o'' 0) 0 (demo_response True) running
      = Inr (running, [ResumeExecution ''d'' (demo_response True)])"
    by (simp add: resolve_execution_def resolve_execution_internal_def eval_simps running_row running_cost)
      (simp add: running_def new_contract_def demo_request_def)
  have out: "er_output (demo_response True) = Some (TextOut ''hi'')" "er_success (demo_response True)"
    by (simp_all add: demo_response_def)
  from submitted_settles obtain v fs where
    a: "on_execution_response reference_externals (call_by ''outlayer'' 0) 0 ''u'' demo_source
       default_resource_limits (10 ^ 24) (Some meta_response) submitted = Inr (v, fs)" by blast
  from running_settles [of "Some (demo_response True)"] obtain v' fs' where
    b: "on_execution_response reference_externals (call_by ''outlayer'' 0) 0 ''u'' demo_source
       default_resource_limits (10 ^ 24) (Some (demo_response True)) running = Inr (v', fs')" by auto
  from both_flows_answer_alike [OF large small out a refl b refl] a b show ?thesis by blast
qed

end
