(* ===== verification/Admin.thy ===== *)
theory Admin
  imports Execution
begin

text \<open>
  The owner's calls (\<open>contract/src/admin.rs\<close>), the views (\<open>contract/src/views.rs\<close>) and the state
  migration (\<open>contract/src/migration.rs\<close>). The price list and the prices of projects are replaced
  whole after their shape is checked; requests are cancelled one by one, by id, or in bulk. The
  lemmas follow the money of the requests these calls end and say what the views report.
\<close>

section \<open>Roles and fees\<close>

definition set_owner :: "ctx \<Rightarrow> account \<Rightarrow> contract \<Rightarrow> outcome" where
  "set_owner cx a s = not_payable cx (assert_owner cx s (Inr (s\<lparr>owner_id := a\<rparr>, [])))"

definition set_operator :: "ctx \<Rightarrow> account \<Rightarrow> contract \<Rightarrow> outcome" where
  "set_operator cx a s = not_payable cx (assert_owner cx s (Inr (s\<lparr>operator_id := a\<rparr>, [])))"

definition set_paused :: "ctx \<Rightarrow> bool \<Rightarrow> contract \<Rightarrow> outcome" where
  "set_paused cx b s = not_payable cx (assert_owner cx s (Inr (s\<lparr>paused := b\<rparr>, [])))"

record fee_update =
  fu_base_fee :: "nat option"
  fu_per_million_instructions_fee :: "nat option"
  fu_per_ms_fee :: "nat option"
  fu_per_compile_ms_fee :: "nat option"
  fu_base_fee_usd :: "nat option"
  fu_per_million_instructions_fee_usd :: "nat option"
  fu_per_sec_fee_usd :: "nat option"
  fu_per_compile_ms_fee_usd :: "nat option"

definition set_pricing :: "ctx \<Rightarrow> fee_update \<Rightarrow> contract \<Rightarrow> outcome" where
  "set_pricing cx u s =
     not_payable cx (assert_owner cx s (
     Inr (s\<lparr>base_fee := or_default (base_fee s) (fu_base_fee u),
            per_million_instructions_fee :=
              or_default (per_million_instructions_fee s) (fu_per_million_instructions_fee u),
            per_ms_fee := or_default (per_ms_fee s) (fu_per_ms_fee u),
            per_compile_ms_fee := or_default (per_compile_ms_fee s) (fu_per_compile_ms_fee u),
            base_fee_usd := or_default (base_fee_usd s) (fu_base_fee_usd u),
            per_million_instructions_fee_usd :=
              or_default (per_million_instructions_fee_usd s) (fu_per_million_instructions_fee_usd u),
            per_sec_fee_usd := or_default (per_sec_fee_usd s) (fu_per_sec_fee_usd u),
            per_compile_ms_fee_usd :=
              or_default (per_compile_ms_fee_usd s) (fu_per_compile_ms_fee_usd u)\<rparr>, [])))"

definition set_payment_token_contract :: "ctx \<Rightarrow> account option \<Rightarrow> contract \<Rightarrow> outcome" where
  "set_payment_token_contract cx token s =
     not_payable cx (assert_owner cx s (Inr (s\<lparr>payment_token_contract := token\<rparr>, [])))"

definition set_event_metadata ::
  "ctx \<Rightarrow> string option \<Rightarrow> string option \<Rightarrow> contract \<Rightarrow> outcome" where
  "set_event_metadata cx standard version s =
     not_payable cx (assert_owner cx s (
     Inr (s\<lparr>event_standard := or_default (event_standard s) standard,
            event_version := or_default (event_version s) version\<rparr>, [])))"

section \<open>The price list\<close>

definition MAX_SUBSCRIPTION_PLANS :: nat where "MAX_SUBSCRIPTION_PLANS = 16"
definition MAX_PROJECT_OPERATIONS :: nat where "MAX_PROJECT_OPERATIONS = 32"
definition FULL_SHARE_BP :: nat where "FULL_SHARE_BP = 10000"

fun check_plans :: "nat list \<Rightarrow> subscription_plan list \<Rightarrow> 'a contract_call \<Rightarrow> 'a contract_call" where
  "check_plans seen [] k = k"
| "check_plans seen (plan # plans) k =
     ensure (pl_index plan \<notin> set seen) (Price DuplicatePlan) (
     ensure (trim_str (pl_name plan) \<noteq> []) (Price PlanNeedsName) (
     ensure (pl_price_usd plan > 0) (Price PlanNeedsPrice) (
     check_plans (seen @ [pl_index plan]) plans k)))"

fun check_not_repointed ::
  "subscription_plan list \<Rightarrow> subscription_plan list \<Rightarrow> 'a contract_call \<Rightarrow> 'a contract_call" where
  "check_not_repointed plans [] k = k"
| "check_not_repointed plans (existing # rest) k =
     (case find (\<lambda>p. pl_index p = pl_index existing) plans of
        None \<Rightarrow> check_not_repointed plans rest k
      | Some new \<Rightarrow>
          ensure (pl_name new = pl_name existing) (Price PlanRepointed) (
          check_not_repointed plans rest k))"

definition set_subscription_plans :: "ctx \<Rightarrow> subscription_plan list \<Rightarrow> contract \<Rightarrow> outcome" where
  "set_subscription_plans cx plans s =
     not_payable cx (assert_owner cx s (
     ensure (length plans \<le> MAX_SUBSCRIPTION_PLANS) (Price TooManyPlans) (
     check_plans [] plans (
     check_not_repointed plans (subscription_plans s) (
     Inr (s\<lparr>subscription_plans := plans\<rparr>, []))))))"

section \<open>Prices of projects\<close>

fun check_operations :: "string list \<Rightarrow> operation_price list \<Rightarrow> 'a contract_call \<Rightarrow> 'a contract_call" where
  "check_operations seen [] k = k"
| "check_operations seen (row # rows) k =
     ensure (trim_str (op_operation row) \<noteq> []) (Price OperationNeedsName) (
     ensure (op_developer_share_bp row \<le> FULL_SHARE_BP) (Price ShareOverFull) (
     ensure (op_operation row \<notin> set seen) (Price DuplicateOperation) (
     check_operations (seen @ [op_operation row]) rows k)))"

definition set_project_pricing :: "ctx \<Rightarrow> string \<Rightarrow> project_prices \<Rightarrow> contract \<Rightarrow> outcome" where
  "set_project_pricing cx project_id pricing s =
     not_payable cx (assert_owner cx s (
     ensure (projects s project_id \<noteq> None) (Price UnregisteredProject) (
     ensure (pp_operations pricing \<noteq> []) (Price NoOperations) (
     ensure (length (pp_operations pricing) \<le> MAX_PROJECT_OPERATIONS) (Price TooManyOperations) (
     check_operations [] (pp_operations pricing) (
     Inr (s\<lparr>project_pricing := (project_pricing s)(project_id \<mapsto> pricing)\<rparr>, [])))))))"

definition remove_project_pricing :: "ctx \<Rightarrow> string \<Rightarrow> contract \<Rightarrow> outcome" where
  "remove_project_pricing cx project_id s =
     not_payable cx (assert_owner cx s (
     Inr (s\<lparr>project_pricing := (project_pricing s)(project_id := None)\<rparr>, [])))"

section \<open>Ending requests\<close>

definition emergency_cancel_execution :: "ctx \<Rightarrow> nat \<Rightarrow> contract \<Rightarrow> outcome" where
  "emergency_cancel_execution cx request_id s =
     not_payable cx (assert_owner cx s (
     expect (pending_requests s request_id) (Exec RequestNotFound) (\<lambda>request.
     bind_call (return_attached_usd (rq_sender_id request) (rq_attached_usd request)
                  (s\<lparr>pending_requests := (pending_requests s)(request_id := None)\<rparr>)) (\<lambda>t.
     Inr (t, [Transfer (rq_payer_account_id request) (rq_payment request)])))))"

fun cancel_loop :: "nat list \<Rightarrow> contract \<Rightarrow> effect list \<Rightarrow> nat \<Rightarrow> contract \<times> effect list \<times> nat" where
  "cancel_loop [] s es cancelled = (s, es, cancelled)"
| "cancel_loop (request_id # ids) s es cancelled =
     (case pending_requests s request_id of
        Some request \<Rightarrow>
          cancel_loop ids (s\<lparr>pending_requests := (pending_requests s)(request_id := None)\<rparr>)
            (es @ [Transfer (rq_payer_account_id request) (rq_payment request)]) (cancelled + 1)
      | None \<Rightarrow> cancel_loop ids s es cancelled)"

definition cancel_pending_requests :: "ctx \<Rightarrow> nat list \<Rightarrow> contract \<Rightarrow> outcome" where
  "cancel_pending_requests cx request_ids s =
     not_payable cx (assert_owner cx s (
     case cancel_loop request_ids s [] 0 of (t, es, n) \<Rightarrow> Inr (t, es @ [ReturnU64 n])))"

fun clear_loop ::
  "nat list \<Rightarrow> nat \<Rightarrow> contract \<Rightarrow> effect list \<Rightarrow> nat \<Rightarrow> (contract \<times> effect list \<times> nat) contract_call" where
  "clear_loop [] max_limit s es cleared = Inr (s, es, cleared)"
| "clear_loop (request_id # ids) max_limit s es cleared =
     (if cleared \<ge> max_limit then Inr (s, es, cleared)
      else case pending_requests s request_id of
             Some request \<Rightarrow>
               bind_call (return_attached_usd (rq_sender_id request) (rq_attached_usd request)
                            (s\<lparr>pending_requests := (pending_requests s)(request_id := None)\<rparr>)) (\<lambda>t.
               clear_loop ids max_limit t
                 (es @ [Transfer (rq_payer_account_id request) (rq_payment request)]) (cleared + 1))
           | None \<Rightarrow> clear_loop ids max_limit s es cleared)"

definition clear_all_pending_requests :: "ctx \<Rightarrow> nat option \<Rightarrow> contract \<Rightarrow> outcome" where
  "clear_all_pending_requests cx limit s =
     not_payable cx (assert_owner cx s (
     bind_call (clear_loop [0..<next_request_id s] (or_default 100 limit) s [] 0) (\<lambda>(t, es, n).
     Inr (t, es @ [ReturnU64 n]))))"

section \<open>Views\<close>

definition get_request :: "nat \<Rightarrow> contract \<Rightarrow> execution_request option" where
  "get_request request_id s = pending_requests s request_id"

definition get_stats :: "contract \<Rightarrow> nat \<times> nat" where
  "get_stats s = (total_executions s, total_fees_collected s)"

definition get_pricing :: "contract \<Rightarrow> nat \<times> nat \<times> nat \<times> nat" where
  "get_pricing s = (base_fee s, per_million_instructions_fee s, per_ms_fee s, per_compile_ms_fee s)"

definition get_project_max_price :: "string \<Rightarrow> contract \<Rightarrow> nat" where
  "get_project_max_price project_id s =
     (case project_pricing s project_id of None \<Rightarrow> 0 | Some p \<Rightarrow> max_price p)"

record pricing_view =
  pv_base_fee :: nat
  pv_per_million_instructions_fee :: nat
  pv_per_ms_fee :: nat
  pv_per_compile_ms_fee :: nat
  pv_base_fee_usd :: nat
  pv_per_million_instructions_fee_usd :: nat
  pv_per_sec_fee_usd :: nat
  pv_per_compile_ms_fee_usd :: nat

definition get_pricing_full :: "contract \<Rightarrow> pricing_view" where
  "get_pricing_full s =
     \<lparr>pv_base_fee = base_fee s,
      pv_per_million_instructions_fee = per_million_instructions_fee s,
      pv_per_ms_fee = per_ms_fee s, pv_per_compile_ms_fee = per_compile_ms_fee s,
      pv_base_fee_usd = base_fee_usd s,
      pv_per_million_instructions_fee_usd = per_million_instructions_fee_usd s,
      pv_per_sec_fee_usd = per_sec_fee_usd s, pv_per_compile_ms_fee_usd = per_compile_ms_fee_usd s\<rparr>"

definition estimate_execution_cost ::
  "resource_limits option \<Rightarrow> nat option \<Rightarrow> contract \<Rightarrow> nat contract_call" where
  "estimate_execution_cost limits input_len s =
     bind_call (estimate_cost s (or_default default_resource_limits limits)) (\<lambda>c.
     add_u128 c (input_storage_deposit (or_default 0 input_len)) Inr)"

fun output_of_stored :: "externals \<Rightarrow> stored_output \<Rightarrow> execution_output" where
  "output_of_stored ext (StoredBytes bytes) = BytesOut bytes"
| "output_of_stored ext (StoredText bytes) =
     TextOut (if valid_utf8 ext bytes then bytes else ''[invalid UTF-8]'')"
| "output_of_stored ext (StoredJson bytes) =
     JsonOut (or_default (json_null ext)
       (json_from_str ext (if valid_utf8 ext bytes then bytes else [])))"

definition get_pending_output :: "externals \<Rightarrow> nat \<Rightarrow> contract \<Rightarrow> execution_output option" where
  "get_pending_output ext request_id s =
     Option.bind (pending_requests s request_id) (\<lambda>request.
     map_option (output_of_stored ext) (rq_pending_output request))"

definition has_pending_output :: "nat \<Rightarrow> contract \<Rightarrow> bool" where
  "has_pending_output request_id s =
     (case pending_requests s request_id of None \<Rightarrow> False | Some rq \<Rightarrow> rq_output_submitted rq)"

definition get_developer_earnings :: "account \<Rightarrow> contract \<Rightarrow> nat" where
  "get_developer_earnings a s = get0 (developer_earnings s) a"

definition get_user_stablecoin_balance :: "account \<Rightarrow> contract \<Rightarrow> nat" where
  "get_user_stablecoin_balance a s = get0 (user_stablecoin_balances s) a"

fun page_loop :: "contract \<Rightarrow> nat \<Rightarrow> nat \<Rightarrow> nat list \<Rightarrow> nat \<Rightarrow> nat list \<Rightarrow> nat list" where
  "page_loop s from_index max_limit [] skipped result = result"
| "page_loop s from_index max_limit (request_id # ids) skipped result =
     (if pending_requests s request_id \<noteq> None then
        (if skipped < from_index then page_loop s from_index max_limit ids (skipped + 1) result
         else if length (result @ [request_id]) \<ge> max_limit then result @ [request_id]
         else page_loop s from_index max_limit ids skipped (result @ [request_id]))
      else page_loop s from_index max_limit ids skipped result)"

definition get_pending_request_ids :: "nat option \<Rightarrow> nat option \<Rightarrow> contract \<Rightarrow> nat list" where
  "get_pending_request_ids from_index limit s =
     page_loop s (or_default 0 from_index) (or_default 100 limit) [0..<next_request_id s] 0 []"

section \<open>Migration from the deployed shape\<close>

record contract_v11 =
  v11_owner_id :: account
  v11_operator_id :: account
  v11_paused :: bool
  v11_event_standard :: string
  v11_event_version :: string
  v11_base_fee :: nat
  v11_per_million_instructions_fee :: nat
  v11_per_ms_fee :: nat
  v11_per_compile_ms_fee :: nat
  v11_base_fee_usd :: nat
  v11_per_million_instructions_fee_usd :: nat
  v11_per_sec_fee_usd :: nat
  v11_per_compile_ms_fee_usd :: nat
  v11_payment_token_contract :: "account option"
  v11_next_request_id :: nat
  v11_pending_requests :: "nat \<rightharpoonup> execution_request"
  v11_total_executions :: nat
  v11_total_fees_collected :: nat
  v11_secrets_storage :: "secret_key \<rightharpoonup> secret_profile"
  v11_user_secrets_index :: "account \<rightharpoonup> secret_key fset"
  v11_projects :: "string \<rightharpoonup> project"
  v11_project_versions :: "string \<rightharpoonup> (string \<rightharpoonup> version_info)"
  v11_user_projects_index :: "account \<rightharpoonup> string fset"
  v11_next_project_id :: nat
  v11_developer_earnings :: "account \<rightharpoonup> nat"
  v11_user_stablecoin_balances :: "account \<rightharpoonup> nat"
  v11_wallet_policies :: "string \<rightharpoonup> wallet_policy_entry"
  v11_wallet_owner_index :: "account \<rightharpoonup> string fset"
  v11_secret_vault_bindings :: "secret_key \<rightharpoonup> account"
  v11_subscription_plans :: "subscription_plan list"
  v11_project_pricing :: "string \<rightharpoonup> project_prices"
  v11_payment_key_nonce_floors :: "account \<rightharpoonup> nat"
  v11_storage_refund_to :: "storage_item \<rightharpoonup> account"
  v11_project_transfer_acceptances :: "transfer_acceptance \<rightharpoonup> nat"

definition migrate :: "ctx \<Rightarrow> contract_v11 option \<Rightarrow> contract contract_call" where
  "migrate cx old =
     private_call cx (not_payable cx (
     expect old (Guard StateUnreadable) (\<lambda>v11.
     Inr
       \<lparr>owner_id = v11_owner_id v11,
        operator_id = v11_operator_id v11,
        paused = v11_paused v11,
        event_standard = v11_event_standard v11,
        event_version = v11_event_version v11,
        base_fee = v11_base_fee v11,
        per_million_instructions_fee = v11_per_million_instructions_fee v11,
        per_ms_fee = v11_per_ms_fee v11,
        per_compile_ms_fee = v11_per_compile_ms_fee v11,
        base_fee_usd = v11_base_fee_usd v11,
        per_million_instructions_fee_usd = v11_per_million_instructions_fee_usd v11,
        per_sec_fee_usd = v11_per_sec_fee_usd v11,
        per_compile_ms_fee_usd = v11_per_compile_ms_fee_usd v11,
        payment_token_contract = v11_payment_token_contract v11,
        next_request_id = v11_next_request_id v11,
        pending_requests = v11_pending_requests v11,
        total_executions = v11_total_executions v11,
        total_fees_collected = v11_total_fees_collected v11,
        secrets_storage = v11_secrets_storage v11,
        user_secrets_index = v11_user_secrets_index v11,
        projects = v11_projects v11,
        project_versions = v11_project_versions v11,
        user_projects_index = v11_user_projects_index v11,
        next_project_id = v11_next_project_id v11,
        developer_earnings = v11_developer_earnings v11,
        user_stablecoin_balances = v11_user_stablecoin_balances v11,
        wallet_policies = v11_wallet_policies v11,
        wallet_owner_index = v11_wallet_owner_index v11,
        secret_vault_bindings = v11_secret_vault_bindings v11,
        subscription_plans = v11_subscription_plans v11,
        project_pricing = v11_project_pricing v11,
        payment_key_nonce_floors = v11_payment_key_nonce_floors v11,
        storage_refund_to = v11_storage_refund_to v11,
        project_transfer_acceptances = v11_project_transfer_acceptances v11,
        policy_meta = Map.empty\<rparr>)))"

section \<open>Calls\<close>

datatype admin_call =
    SetOwner account
  | SetOperator account
  | SetPaused bool
  | SetPricing fee_update
  | SetSubscriptionPlans "subscription_plan list"
  | SetProjectPricing string project_prices
  | RemoveProjectPricing string
  | SetPaymentTokenContract "account option"
  | EmergencyCancelExecution nat
  | SetEventMetadata "string option" "string option"
  | CancelPendingRequests "nat list"
  | ClearAllPendingRequests "nat option"

fun run_admin_call :: "admin_call \<Rightarrow> ctx \<Rightarrow> contract \<Rightarrow> outcome" where
  "run_admin_call (SetOwner a) cx s = set_owner cx a s"
| "run_admin_call (SetOperator a) cx s = set_operator cx a s"
| "run_admin_call (SetPaused b) cx s = set_paused cx b s"
| "run_admin_call (SetPricing u) cx s = set_pricing cx u s"
| "run_admin_call (SetSubscriptionPlans ps) cx s = set_subscription_plans cx ps s"
| "run_admin_call (SetProjectPricing pid pr) cx s = set_project_pricing cx pid pr s"
| "run_admin_call (RemoveProjectPricing pid) cx s = remove_project_pricing cx pid s"
| "run_admin_call (SetPaymentTokenContract a) cx s = set_payment_token_contract cx a s"
| "run_admin_call (EmergencyCancelExecution i) cx s = emergency_cancel_execution cx i s"
| "run_admin_call (SetEventMetadata st v) cx s = set_event_metadata cx st v s"
| "run_admin_call (CancelPendingRequests ids) cx s = cancel_pending_requests cx ids s"
| "run_admin_call (ClearAllPendingRequests l) cx s = clear_all_pending_requests cx l s"

section \<open>Lists that pass the checks\<close>

definition plan_ok :: "subscription_plan \<Rightarrow> bool" where
  "plan_ok p \<longleftrightarrow> trim_str (pl_name p) \<noteq> [] \<and> 0 < pl_price_usd p"

lemma check_plans_Inr:
  "check_plans seen plans k = Inr y \<longleftrightarrow>
     distinct (map pl_index plans) \<and> set seen \<inter> pl_index ` set plans = {} \<and>
     list_all plan_ok plans \<and> k = Inr y"
  by (induction seen plans k rule: check_plans.induct) (auto simp: run_simps plan_ok_def)

lemma check_not_repointed_Inr:
  "check_not_repointed plans olds k = Inr y \<longleftrightarrow>
     (\<forall>existing \<in> set olds. \<forall>new. find (\<lambda>p. pl_index p = pl_index existing) plans = Some new \<longrightarrow>
        pl_name new = pl_name existing) \<and> k = Inr y"
  by (induction plans olds k rule: check_not_repointed.induct) (auto simp: run_simps split: option.splits)

definition row_ok :: "operation_price \<Rightarrow> bool" where
  "row_ok r \<longleftrightarrow> trim_str (op_operation r) \<noteq> [] \<and> op_developer_share_bp r \<le> FULL_SHARE_BP"

lemma check_operations_Inr:
  "check_operations seen rows k = Inr y \<longleftrightarrow>
     distinct (map op_operation rows) \<and> set seen \<inter> op_operation ` set rows = {} \<and>
     list_all row_ok rows \<and> k = Inr y"
  by (induction seen rows k rule: check_operations.induct) (auto simp: run_simps row_ok_def)

section \<open>Loops that end requests\<close>

lemma weight_total_restrict:
  assumes "finite (dom m)"
  shows "weight_total w (m |` (- A)) + (\<Sum>i \<in> A \<inter> dom m. w (the (m i))) = weight_total w m"
proof -
  have "weight_total w (m |` (- A)) = (\<Sum>i \<in> dom m - A. w (the (m i)))"
    unfolding weight_total_def by (rule sum.cong) (auto simp: restrict_map_def split: if_splits)
  moreover have "weight_total w m = (\<Sum>i \<in> (dom m - A) \<union> (A \<inter> dom m). w (the (m i)))"
    unfolding weight_total_def by (rule sum.cong) auto
  moreover have "\<dots> = (\<Sum>i \<in> dom m - A. w (the (m i))) + (\<Sum>i \<in> A \<inter> dom m. w (the (m i)))"
    using assms by (intro sum.union_disjoint) auto
  ultimately show ?thesis by simp
qed

lemma restrict_delete: "(m(i := None)) |` (- A) = m |` (- insert i A)"
  by (auto simp: restrict_map_def fun_eq_iff)

lemma restrict_absent: "m i = None \<Longrightarrow> m |` (- insert i A) = m |` (- A)"
  by (auto simp: restrict_map_def fun_eq_iff)

lemma restrict_nothing [simp]: "m |` (- {}) = m"
  by (simp add: restrict_map_def)

lemma cancel_loop_state:
  "cancel_loop ids s es n = (t, fs, k) \<Longrightarrow>
     t = s\<lparr>pending_requests := pending_requests s |` (- set ids)\<rparr>"
proof (induction ids s es n rule: cancel_loop.induct)
  case (1 s es n)
  then show ?case by simp
next
  case (2 i ids s es n)
  show ?case
  proof (cases "pending_requests s i")
    case None
    from "2.prems" None have "cancel_loop ids s es n = (t, fs, k)" by simp
    from "2.IH"(1) [OF None this] None show ?thesis by (simp add: restrict_absent)
  next
    case (Some rq)
    from "2.prems" Some have "cancel_loop ids (s\<lparr>pending_requests := (pending_requests s)(i := None)\<rparr>)
        (es @ [Transfer (rq_payer_account_id rq) (rq_payment rq)]) (n + 1) = (t, fs, k)" by simp
    from "2.IH"(2) [OF Some this] show ?thesis by (simp add: restrict_delete fun_upd_def [symmetric] del: restrict_fun_upd)
  qed
qed

lemma cancel_loop_paid:
  "finite (dom (pending_requests s)) \<Longrightarrow> cancel_loop ids s es n = (t, fs, k) \<Longrightarrow>
     paid_out fs + near_held t = paid_out es + near_held s"
proof (induction ids s es n rule: cancel_loop.induct)
  case (1 s es n)
  then show ?case by simp
next
  case (2 i ids s es n)
  show ?case
  proof (cases "pending_requests s i")
    case None
    with 2 show ?thesis by simp
  next
    case (Some rq)
    let ?s1 = "s\<lparr>pending_requests := (pending_requests s)(i := None)\<rparr>"
    from "2.prems" Some have "cancel_loop ids ?s1
        (es @ [Transfer (rq_payer_account_id rq) (rq_payment rq)]) (n + 1) = (t, fs, k)" by simp
    moreover have "finite (dom (pending_requests ?s1))"
      using "2.prems"(1) by (rule finite_subset [rotated]) auto
    moreover have "near_held ?s1 + rq_payment rq = near_held s"
      using weight_total_delete [OF "2.prems"(1), of rq_payment i] Some
      by (simp add: near_held_def weight_at_def)
    ultimately show ?thesis using "2.IH"(2) [OF Some] by (simp add: fun_upd_def [symmetric])
  qed
qed

lemma emergency_step:
  assumes ok: "executions_ok s" and rq: "pending_requests s i = Some rq"
    and run: "return_attached_usd (rq_sender_id rq) (rq_attached_usd rq)
        (s\<lparr>pending_requests := (pending_requests s)(i := None)\<rparr>) = Inr t"
  shows "executions_ok t" "usd_held t = usd_held s" "near_held t + rq_payment rq = near_held s"
    "pending_requests t = (pending_requests s)(i := None)"
    "total_fees_collected t = total_fees_collected s"
proof -
  have st: "ledger_step (rq_attached_usd rq) (take_request i s) t"
    using return_attached_step [OF run] by (simp add: take_request_def)
  show "executions_ok t" by (rule take_request_ok [OF ok st])
  show "usd_held t = usd_held s" "near_held t + rq_payment rq = near_held s"
    using take_request_weights [OF ok rq st] by simp_all
  show "pending_requests t = (pending_requests s)(i := None)"
    "total_fees_collected t = total_fees_collected s"
    using ledger_step_fields(1,3) [OF st] by (simp_all add: take_request_def)
qed

definition live_ids :: "contract \<Rightarrow> nat list \<Rightarrow> nat list" where
  "live_ids s ids = filter (\<lambda>i. pending_requests s i \<noteq> None) ids"

lemma live_ids_delete:
  "i \<notin> set ids \<Longrightarrow> pending_requests t = (pending_requests s)(i := None) \<Longrightarrow> live_ids t ids = live_ids s ids"
  by (auto simp: live_ids_def intro: filter_cong)

lemma clear_loop_effect:
  "executions_ok s \<Longrightarrow> distinct ids \<Longrightarrow> clear_loop ids l s es n = Inr (t, fs, k) \<Longrightarrow>
     executions_ok t \<and> usd_held t = usd_held s \<and> paid_out fs + near_held t = paid_out es + near_held s \<and>
     total_fees_collected t = total_fees_collected s \<and>
     pending_requests t = pending_requests s |` (- set (take (l - n) (live_ids s ids)))"
proof (induction ids l s es n rule: clear_loop.induct)
  case (1 l s es n)
  then show ?case by (simp add: live_ids_def restrict_map_def)
next
  case (2 i ids l s es n)
  show ?case
  proof (cases "l \<le> n")
    case True
    with "2.prems" show ?thesis by (simp add: restrict_map_def)
  next
    case False
    note lt = this
    show ?thesis
    proof (cases "pending_requests s i")
      case None
      with "2.IH"(1) [OF False None "2.prems"(1)] "2.prems" False show ?thesis
        by (simp add: live_ids_def)
    next
      case (Some rq)
      with "2.prems"(3) False obtain u where
        u: "return_attached_usd (rq_sender_id rq) (rq_attached_usd rq)
              (s\<lparr>pending_requests := (pending_requests s)(i := None)\<rparr>) = Inr u"
        and rest: "clear_loop ids l u
            (es @ [Transfer (rq_payer_account_id rq) (rq_payment rq)]) (n + 1) = Inr (t, fs, k)"
        by (auto simp: run_simps)
      note e = emergency_step [OF "2.prems"(1) Some u]
      have l: "live_ids u ids = live_ids s ids"
        using "2.prems"(2) by (intro live_ids_delete [OF _ e(4)]) simp
      have "take (l - n) (live_ids s (i # ids)) = i # take (l - (n + 1)) (live_ids s ids)"
        using Some False by (simp add: live_ids_def take_Cons')
      with "2.IH"(2) [OF lt Some e(1) _ rest] "2.prems"(2) e(2,3,5) l show ?thesis
        by (simp add: e(4) restrict_delete fun_upd_def [symmetric] del: restrict_fun_upd)
    qed
  qed
qed

lemma cancel_pending_run:
  assumes "cancel_pending_requests cx ids s = Inr (t, es)"
  obtains fs n where "predecessor cx = owner_id s" "attached_deposit cx = 0"
    "cancel_loop ids s [] 0 = (t, fs, n)" "es = fs @ [ReturnU64 n]"
  using assms
  by (cases "cancel_loop ids s [] 0") (auto simp: cancel_pending_requests_def run_simps)

lemma clear_all_run:
  assumes "clear_all_pending_requests cx l s = Inr (t, es)"
  obtains fs n where "predecessor cx = owner_id s" "attached_deposit cx = 0"
    "clear_loop [0..<next_request_id s] (or_default 100 l) s [] 0 = Inr (t, fs, n)"
    "es = fs @ [ReturnU64 n]"
  using assms by (auto simp: clear_all_pending_requests_def run_simps)

lemma restrict_pending_ok:
  assumes "executions_ok s"
  shows "executions_ok (s\<lparr>pending_requests := pending_requests s |` A\<rparr>)"
proof -
  have "finite (dom (pending_requests s |` A))"
    using executions_okD(1) [OF assms] by (rule finite_subset [rotated]) (auto simp: restrict_map_def split: if_splits)
  then show ?thesis
    using assms by (auto simp: executions_ok_def ledgers_ok_def request_ok_def restrict_map_def split: if_splits)
qed

lemma admin_guard: "run_admin_call c cx s = Inr (t, es) \<Longrightarrow> predecessor cx = owner_id s \<and> attached_deposit cx = 0"
  by (cases c)
    (auto simp: set_owner_def set_operator_def set_paused_def set_pricing_def
      set_subscription_plans_def set_project_pricing_def remove_project_pricing_def
      set_payment_token_contract_def emergency_cancel_execution_def set_event_metadata_def run_simps
      elim: cancel_pending_run clear_all_run)

text \<open>What a call of the owner does to the pending requests and the two ledgers.\<close>

lemma admin_call_cases:
  assumes "run_admin_call c cx s = Inr (t, es)"
  obtains (settings) "pending_requests t = pending_requests s" "next_request_id t = next_request_id s"
      "user_stablecoin_balances t = user_stablecoin_balances s"
      "developer_earnings t = developer_earnings s"
      "total_fees_collected t = total_fees_collected s" "es = []"
      "\<nexists>ids. c = CancelPendingRequests ids"
  | (emergency) i rq where "pending_requests s i = Some rq"
      "return_attached_usd (rq_sender_id rq) (rq_attached_usd rq)
         (s\<lparr>pending_requests := (pending_requests s)(i := None)\<rparr>) = Inr t"
      "es = [Transfer (rq_payer_account_id rq) (rq_payment rq)]"
      "\<nexists>ids. c = CancelPendingRequests ids"
  | (cancelled) ids where "c = CancelPendingRequests ids" "cancel_pending_requests cx ids s = Inr (t, es)"
  | (cleared) l where "c = ClearAllPendingRequests l" "clear_all_pending_requests cx l s = Inr (t, es)"
proof (cases c)
  case (EmergencyCancelExecution i)
  with assms show ?thesis
    by (auto simp: emergency_cancel_execution_def run_simps intro!: emergency)
next
  case (SetSubscriptionPlans ps)
  with assms show ?thesis
    by (intro settings)
      (auto simp: set_subscription_plans_def run_simps check_plans_Inr check_not_repointed_Inr)
next
  case (SetProjectPricing pid pr)
  with assms show ?thesis
    by (intro settings) (auto simp: set_project_pricing_def run_simps check_operations_Inr)
next
  case (CancelPendingRequests ids)
  with assms cancelled show ?thesis by simp
next
  case (ClearAllPendingRequests l)
  with assms cleared show ?thesis by simp
qed (use assms in \<open>intro settings, auto simp: set_owner_def set_operator_def set_paused_def set_pricing_def
      remove_project_pricing_def set_payment_token_contract_def set_event_metadata_def run_simps\<close>)

lemma settings_keep_requests:
  assumes "executions_ok s" "pending_requests t = pending_requests s" "next_request_id t = next_request_id s"
    and "user_stablecoin_balances t = user_stablecoin_balances s"
    and "developer_earnings t = developer_earnings s"
  shows "executions_ok t" "usd_held t = usd_held s" "near_held t = near_held s"
  using assms
  by (auto simp: executions_ok_def ledgers_ok_def request_ok_def usd_held_def ledgers_total_def near_held_def)

lemma run_admin_call_ok:
  assumes ok: "executions_ok s" and run: "run_admin_call c cx s = Inr (t, es)"
  shows "executions_ok t"
  using run
proof (cases rule: admin_call_cases)
  case settings
  with settings_keep_requests(1) [OF ok] show ?thesis by simp
next
  case (emergency i rq)
  with emergency_step(1) [OF ok] show ?thesis by blast
next
  case (cancelled ids)
  from cancelled(2) show ?thesis
    by (rule cancel_pending_run) (use restrict_pending_ok [OF ok] cancel_loop_state in blast)
next
  case (cleared l)
  from cleared(2) show ?thesis
    by (rule clear_all_run) (use clear_loop_effect [OF ok distinct_upt] in blast)
qed

section \<open>Properties\<close>

text \<open>
  Clearing requests in bulk returns both payments of every request it ends: the stablecoin the
  contract accounts for is unchanged, every yoctoNEAR of the ended requests is paid out, and the
  requests ended are exactly the oldest pending ones up to the limit.
\<close>

theorem clear_all_returns_everything:
  assumes "executions_ok s" "clear_all_pending_requests cx limit s = Inr (t, es)"
  shows "usd_held t = usd_held s \<and> paid_out es + near_held t = near_held s \<and>
    pending_requests t = pending_requests s
      |` (- set (take (or_default 100 limit) (live_ids s [0..<next_request_id s])))"
proof (rule clear_all_run [OF assms(2)])
  fix fs n
  assume r: "clear_loop [0..<next_request_id s] (or_default 100 limit) s [] 0 = Inr (t, fs, n)"
    "es = fs @ [ReturnU64 n]"
  from clear_loop_effect [OF assms(1) _ r(1)] r(2) show ?thesis by simp
qed

text \<open>
  C37. Cancelling requests by id returns their NEAR and not their stablecoin: the payments of the
  cancelled requests are paid out whole, and what the contract accounts for in stablecoin falls by
  exactly what those requests held, which no balance or earnings row receives.
\<close>

theorem cancel_pending_loses_stablecoin:
  assumes "executions_ok s" "cancel_pending_requests cx ids s = Inr (t, es)"
  shows "usd_held t + (\<Sum>i \<in> set ids \<inter> dom (pending_requests s).
      rq_attached_usd (the (pending_requests s i))) = usd_held s \<and>
    user_stablecoin_balances t = user_stablecoin_balances s \<and>
    developer_earnings t = developer_earnings s \<and>
    paid_out es + near_held t = near_held s"
proof (rule cancel_pending_run [OF assms(2)])
  fix fs n
  assume r: "cancel_loop ids s [] 0 = (t, fs, n)" "es = fs @ [ReturnU64 n]"
  note fin = executions_okD(1) [OF assms(1)]
  from weight_total_restrict [OF fin, of rq_attached_usd "set ids"] cancel_loop_paid [OF fin r(1)] r(2)
  show ?thesis
    by (simp add: cancel_loop_state [OF r(1)] usd_held_def ledgers_total_def)
qed

text \<open>
  One replacement of the price list never repoints an index: the new list has one row per index,
  each named and priced above zero, at most sixteen rows, and a row that keeps an index keeps the
  name the index had.
\<close>

theorem plans_not_repointed:
  assumes "set_subscription_plans cx plans s = Inr (t, es)"
  shows "subscription_plans t = plans \<and> distinct (map pl_index plans) \<and>
    length plans \<le> MAX_SUBSCRIPTION_PLANS \<and> list_all plan_ok plans \<and>
    (\<forall>new \<in> set plans. \<forall>old \<in> set (subscription_plans s).
       pl_index new = pl_index old \<longrightarrow> pl_name new = pl_name old)"
proof -
  from assms have r: "subscription_plans t = plans" "distinct (map pl_index plans)"
    "length plans \<le> MAX_SUBSCRIPTION_PLANS" "list_all plan_ok plans"
    "\<And>old new. old \<in> set (subscription_plans s) \<Longrightarrow>
       find (\<lambda>p. pl_index p = pl_index old) plans = Some new \<Longrightarrow> pl_name new = pl_name old"
    by (auto simp: set_subscription_plans_def run_simps check_plans_Inr check_not_repointed_Inr)
  have "pl_name new = pl_name old"
    if n: "new \<in> set plans" "old \<in> set (subscription_plans s)" "pl_index new = pl_index old" for new old
  proof -
    have "find (\<lambda>p. pl_index p = pl_index old) plans \<noteq> None"
      using n by (auto simp: find_None_iff)
    then obtain q where q: "find (\<lambda>p. pl_index p = pl_index old) plans = Some q" by auto
    then have "q \<in> set plans" "pl_index q = pl_index old" by (auto simp: find_Some_iff)
    with r(2) n have "q = new" by (metis distinct_map inj_onD)
    with r(5) [OF n(2) q] show ?thesis by simp
  qed
  with r show ?thesis by blast
qed

text \<open>
  Two replacements can repoint an index: after the list is emptied, any named and priced plan is
  accepted under an index that meant something else before.
\<close>

theorem plan_index_reused_in_two_steps:
  assumes "predecessor cx = owner_id s" "attached_deposit cx = 0"
    and "old \<in> set (subscription_plans s)" "pl_index new = pl_index old"
    and "pl_name new \<noteq> pl_name old" "plan_ok new"
  shows "\<not> (\<exists>t es. set_subscription_plans cx [new] s = Inr (t, es)) \<and>
    (\<exists>t u. set_subscription_plans cx [] s = Inr (t, []) \<and>
    set_subscription_plans cx [new] t = Inr (u, []) \<and> subscription_plans u = [new])"
  using assms
  by (auto simp: set_subscription_plans_def run_simps MAX_SUBSCRIPTION_PLANS_def plan_ok_def
      check_not_repointed_Inr)

text \<open>
  A price row is what admission can look up: \<open>operation_from_input\<close> yields only trimmed names,
  so a row the owner filed under a name with surrounding whitespace, which \<open>set_project_pricing\<close>
  accepts, is never the operation of a request and never sells.
\<close>

theorem untrimmed_row_never_sells:
  assumes "set_project_pricing cx pid pricing s = Inr (t, es)"
    and "row \<in> set (pp_operations pricing)" "trim_str (op_operation row) \<noteq> op_operation row"
  shows "operation_from_input ext body \<noteq> Inr (op_operation row) \<and>
    project_pricing t pid = Some pricing \<and> op_developer_share_bp row \<le> 10000"
proof -
  have "trim_str n = n" if "operation_from_input ext body = Inr n" for n
    using that by (auto simp: operation_from_input_def Let_def trim_str_idem split: if_splits option.splits)
  moreover from assms(1,2) have "project_pricing t pid = Some pricing" "row_ok row"
    by (auto simp: set_project_pricing_def run_simps check_operations_Inr list_all_iff)
  ultimately show ?thesis using assms(3) by (auto simp: row_ok_def FULL_SHARE_BP_def)
qed

lemma resolve_refusal: "resolve_execution_source src s \<noteq> Inl (Refused (Exec x))"
  by (cases "(src, s)" rule: resolve_execution_source.cases)
    (auto simp: refuse_simps split: option.splits)

text \<open>
  The quote is enough: a request that attaches what \<open>estimate_execution_cost\<close> answered for its
  limits and the length of its input is never refused for its payment.
\<close>

theorem quote_is_enough:
  assumes "estimate_execution_cost (ea_resource_limits a) (Some (data_len (ea_input_data a))) s = Inr quote"
    and "quote \<le> attached_deposit cx"
  shows "request_execution ext cx a s \<noteq> Inl (Refused (Exec InsufficientPayment))"
proof -
  from assms(1) obtain c where c: "estimate_cost s (limits_of a) = Inr c"
    "quote = c + input_storage_deposit (data_len (ea_input_data a))"
    by (auto simp: estimate_execution_cost_def run_simps limits_of_def or_default_def)
  have le: "e + input_storage_deposit (data_len (ea_input_data a)) \<le> attached_deposit cx"
    if "compute_estimate a s = Inr e" for e
    using that c assms(2) base_fee_le_estimate [OF c(1)]
    by (auto simp: compute_estimate_def split: if_splits)
  have "compute_estimate a s \<noteq> Inl p" for p using c by (simp add: compute_estimate_def)
  then obtain e where e: "compute_estimate a s = Inr e" by (cases "compute_estimate a s") auto
  show ?thesis
    using le [OF e]
    by (auto simp: request_execution_def assert_not_paused_def check_secrets_ref_def check_flags_def
        check_caps_def check_price_def debit_attached_usd_def e Let_def assert_code_source_def
        refuse_simps resolve_refusal split: if_splits option.splits sum.splits)
qed

lemma page_loop_value:
  "length res < max 1 m \<Longrightarrow>
     page_loop s f m ids sk res = res @ take (max 1 m - length res) (drop (f - sk) (live_ids s ids))"
proof (induction s f m ids sk res rule: page_loop.induct)
  case (1 s f m sk res)
  then show ?case by (simp add: live_ids_def)
next
  case (2 s f m i ids sk res)
  show ?case
  proof (cases "pending_requests s i = None")
    case True
    with 2 show ?thesis by (simp add: live_ids_def)
  next
    case False
    note live = this
    show ?thesis
    proof (cases "sk < f")
      case True
      with live "2.IH"(1) "2.prems" show ?thesis by (simp add: live_ids_def Suc_diff_Suc drop_Cons')
    next
      case False
      show ?thesis
      proof (cases "m \<le> length res + 1")
        case True
        with live False "2.prems" have "max 1 m - length res = 1" by auto
        with live False True show ?thesis by (simp add: live_ids_def)
      next
        case more: False
        then have "max 1 m - length res = Suc (max 1 m - length (res @ [i]))" by auto
        with live False more "2.IH"(2) show ?thesis by (simp add: live_ids_def)
      qed
    qed
  qed
qed

text \<open>
  The page of pending ids is the reference page: the pending ids below the counter in order,
  from the index on, as many as the limit says (100 by default). A limit of zero is read as one.
\<close>

theorem pending_ids_page:
  "get_pending_request_ids from_index limit s =
     take (max 1 (or_default 100 limit))
       (drop (or_default 0 from_index)
         (filter (\<lambda>i. pending_requests s i \<noteq> None) [0..<next_request_id s]))"
  by (simp add: get_pending_request_ids_def page_loop_value live_ids_def)

text \<open>
  A submitted output reads back: after \<open>submit_execution_output\<close> the view returns the output that
  was submitted, for bytes always, for text because a Rust string is UTF-8, and for JSON as far as
  the parser inverts the printer on that value.
\<close>

theorem submitted_output_reads_back:
  assumes "submit_execution_output ext cx i out s = Inr (t, es)"
    and "\<And>x. out = TextOut x \<Longrightarrow> valid_utf8 ext x"
    and "\<And>v. out = JsonOut v \<Longrightarrow>
       \<exists>x. json_to_string ext v = Some x \<and> valid_utf8 ext x \<and> json_from_str ext x = Some v"
  shows "get_pending_output ext i t = Some out \<and> has_pending_output i t \<and> \<not> has_pending_output i s \<and>
    predecessor cx = operator_id s"
  using assms
  by (cases out)
    (auto simp: submit_execution_output_def submit_execution_output_internal_def run_simps
      get_pending_output_def has_pending_output_def or_default_def)

text \<open>
  After the migration every stored policy starts again: no policy is locked, and the next write
  of any policy carries version 1. Everything else the deployed state held is carried over.
\<close>

theorem migrated_policies_restart:
  assumes "migrate cx (Some v) = Inr s" "store_wallet_policy ext cx' a s = Inr (t, es)"
    and "canonical_wallet_pubkey ext (pa_wallet_pubkey a) = Inr key"
  shows "pa_version a = 1 \<and> (\<forall>k. \<not> pm_locked (meta_of s k)) \<and>
    wallet_policies s = v11_wallet_policies v \<and> pending_requests s = v11_pending_requests v \<and>
    user_stablecoin_balances s = v11_user_stablecoin_balances v \<and>
    developer_earnings s = v11_developer_earnings v \<and> secrets_storage s = v11_secrets_storage v \<and>
    projects s = v11_projects v \<and> storage_refund_to s = v11_storage_refund_to v"
proof -
  from assms(1) have m: "policy_meta s = Map.empty" by (auto simp: migrate_def run_simps)
  from store_needs_next_version [OF assms(2,3)] have "pa_version a = 1"
    by (simp add: meta_of_def m default_policy_meta_def)
  with assms(1) show ?thesis
    by (auto simp: migrate_def run_simps meta_of_def default_policy_meta_def)
qed

section \<open>Witnesses\<close>

lemma running_owner: "owner_id running = ''o''" "next_request_id running = 1"
  by (simp_all add: running_def new_contract_def)

lemma running_return:
  "return_attached_usd ''caller'' 100 (running\<lparr>pending_requests := m\<rparr>)
     = Inr (running\<lparr>pending_requests := m, user_stablecoin_balances := [''caller'' \<mapsto> 100]\<rparr>)"
  by (simp add: return_attached_usd_def credit_balance_def fits_def running_def new_contract_def)

theorem clear_all_returns_everything_witness:
  "\<exists>t es. clear_all_pending_requests (call_by ''o'' 0) None running = Inr (t, es) \<and>
     usd_held t = 100 \<and> paid_out es + near_held t = near_held running"
proof -
  have "\<exists>t es. clear_all_pending_requests (call_by ''o'' 0) None running = Inr (t, es)"
    by (simp add: clear_all_pending_requests_def eval_simps running_owner running_row or_default_def
        demo_request_def running_return)
  then obtain t es where run: "clear_all_pending_requests (call_by ''o'' 0) None running = Inr (t, es)" by blast
  from clear_all_returns_everything [OF running_ok run] run running_usd show ?thesis by simp
qed

theorem cancel_pending_loses_stablecoin_witness:
  "\<exists>t es. cancel_pending_requests (call_by ''o'' 0) [0] running = Inr (t, es) \<and> usd_held t = 0"
proof -
  have "\<exists>t es. cancel_pending_requests (call_by ''o'' 0) [0] running = Inr (t, es)"
    by (simp add: cancel_pending_requests_def eval_simps running_owner running_row)
  then obtain t es where run: "cancel_pending_requests (call_by ''o'' 0) [0] running = Inr (t, es)" by blast
  from cancel_pending_loses_stablecoin [OF running_ok run] run running_usd show ?thesis
    by (auto simp: running_row demo_request_def dom_def Int_def cong: conj_cong)
qed

definition starter :: subscription_plan where
  "starter = \<lparr>pl_index = 2, pl_name = ''s'', pl_price_usd = 5, pl_active = True\<rparr>"

definition listed :: contract where
  "listed = running\<lparr>subscription_plans := [starter]\<rparr>"

lemma trim_plain: "trim_str ''s'' = ''s''" "trim_str ''p'' = ''p''"
  by (simp_all add: trim_str_def is_whitespace_def white_space_codes_def)

theorem plans_not_repointed_witness:
  "\<exists>t. set_subscription_plans (call_by ''o'' 0) [starter] listed = Inr (t, []) \<and>
     list_all plan_ok (subscription_plans t)"
proof -
  have "\<exists>t. set_subscription_plans (call_by ''o'' 0) [starter] listed = Inr (t, [])"
    by (simp add: set_subscription_plans_def eval_simps listed_def running_owner
        MAX_SUBSCRIPTION_PLANS_def starter_def trim_plain)
  then obtain t where run: "set_subscription_plans (call_by ''o'' 0) [starter] listed = Inr (t, [])" by blast
  from plans_not_repointed [OF run] run show ?thesis by auto
qed

theorem plan_index_reused_in_two_steps_witness:
  "\<exists>t u. set_subscription_plans (call_by ''o'' 0) [] listed = Inr (t, []) \<and>
     set_subscription_plans (call_by ''o'' 0) [starter\<lparr>pl_name := ''p''\<rparr>] t = Inr (u, [])"
proof -
  have "predecessor (call_by ''o'' 0) = owner_id listed" "attached_deposit (call_by ''o'' 0) = 0"
    "starter \<in> set (subscription_plans listed)" "pl_index (starter\<lparr>pl_name := ''p''\<rparr>) = pl_index starter"
    "pl_name (starter\<lparr>pl_name := ''p''\<rparr>) \<noteq> pl_name starter" "plan_ok (starter\<lparr>pl_name := ''p''\<rparr>)"
    by (simp_all add: call_by_def listed_def running_owner starter_def plan_ok_def trim_plain)
  from plan_index_reused_in_two_steps [OF this] show ?thesis by blast
qed

definition padded_prices :: project_prices where
  "padded_prices = \<lparr>pp_author_account_id = ''author'',
     pp_operations = [\<lparr>op_operation = '' s'', op_price_usd = 5, op_developer_share_bp = 100\<rparr>]\<rparr>"

lemma trim_padded: "trim_str '' s'' = ''s''"
  by (simp add: trim_str_def is_whitespace_def white_space_codes_def is_continuation_def)

theorem untrimmed_row_never_sells_witness:
  "\<exists>t. set_project_pricing (call_by ''o'' 0) ''a/x'' padded_prices running = Inr (t, []) \<and>
     operation_from_input reference_externals (Some '' s'') \<noteq> Inr '' s''"
proof -
  have "\<exists>t. set_project_pricing (call_by ''o'' 0) ''a/x'' padded_prices running = Inr (t, [])"
    by (simp add: set_project_pricing_def eval_simps running_owner MAX_PROJECT_OPERATIONS_def
        FULL_SHARE_BP_def padded_prices_def trim_padded)
      (simp add: running_def)
  then obtain t where run: "set_project_pricing (call_by ''o'' 0) ''a/x'' padded_prices running = Inr (t, [])" by blast
  have "\<lparr>op_operation = '' s'', op_price_usd = 5, op_developer_share_bp = 100\<rparr> \<in> set (pp_operations padded_prices)"
    "trim_str (op_operation \<lparr>op_operation = '' s'', op_price_usd = 5, op_developer_share_bp = 100\<rparr>)
      \<noteq> op_operation \<lparr>op_operation = '' s'', op_price_usd = 5, op_developer_share_bp = 100\<rparr>"
    by (simp_all add: padded_prices_def trim_padded)
  from untrimmed_row_never_sells [OF run this] run show ?thesis by auto
qed

theorem quote_is_enough_witness:
  "\<exists>quote. estimate_execution_cost None (Some 0) running = Inr quote \<and> quote \<le> 10 ^ 24 \<and>
     request_execution reference_externals (call_by ''caller'' (10 ^ 24)) demo_args running
       \<noteq> Inl (Refused (Exec InsufficientPayment))"
proof -
  have q: "estimate_execution_cost None (Some 0) running = Inr 7000100000000000000000"
    by (simp add: estimate_execution_cost_def estimate_cost_def eval_simps or_default_def
        default_resource_limits_def running_def new_contract_def input_storage_deposit_def Let_def)
  then have "estimate_execution_cost (ea_resource_limits demo_args)
      (Some (data_len (ea_input_data demo_args))) running = Inr 7000100000000000000000"
    by (simp add: demo_args_def data_len_def)
  from quote_is_enough [OF this, of "call_by ''caller'' (10 ^ 24)"] q show ?thesis
    by (auto simp: call_by_def)
qed

theorem submitted_output_reads_back_witness:
  "\<exists>t. submit_execution_output reference_externals (call_by ''o'' 0) 0 (JsonOut ''{}'') running = Inr (t, []) \<and>
     get_pending_output reference_externals 0 t = Some (JsonOut ''{}'')"
proof -
  have "\<exists>t. submit_execution_output reference_externals (call_by ''o'' 0) 0 (JsonOut ''{}'') running = Inr (t, [])"
    by (simp add: submit_execution_output_def submit_execution_output_internal_def eval_simps running_row)
      (simp add: running_def new_contract_def demo_request_def)
  then obtain t where
    run: "submit_execution_output reference_externals (call_by ''o'' 0) 0 (JsonOut ''{}'') running = Inr (t, [])"
    by blast
  have "\<exists>x. json_to_string reference_externals v = Some x \<and> valid_utf8 reference_externals x \<and>
      json_from_str reference_externals x = Some v" for v
    by (simp add: reference_externals_def)
  from submitted_output_reads_back [OF run] this run show ?thesis by blast
qed

definition deployed :: contract_v11 where
  "deployed = \<lparr>v11_owner_id = ''o'', v11_operator_id = ''o'', v11_paused = False,
     v11_event_standard = ''e'', v11_event_version = ''1'', v11_base_fee = 1,
     v11_per_million_instructions_fee = 1, v11_per_ms_fee = 1, v11_per_compile_ms_fee = 1,
     v11_base_fee_usd = 1, v11_per_million_instructions_fee_usd = 1, v11_per_sec_fee_usd = 1,
     v11_per_compile_ms_fee_usd = 1, v11_payment_token_contract = None, v11_next_request_id = 0,
     v11_pending_requests = Map.empty, v11_total_executions = 0, v11_total_fees_collected = 0,
     v11_secrets_storage = Map.empty, v11_user_secrets_index = Map.empty, v11_projects = Map.empty,
     v11_project_versions = Map.empty, v11_user_projects_index = Map.empty, v11_next_project_id = 0,
     v11_developer_earnings = Map.empty, v11_user_stablecoin_balances = Map.empty,
     v11_wallet_policies = Map.empty, v11_wallet_owner_index = Map.empty,
     v11_secret_vault_bindings = Map.empty, v11_subscription_plans = [],
     v11_project_pricing = Map.empty, v11_payment_key_nonce_floors = Map.empty,
     v11_storage_refund_to = Map.empty, v11_project_transfer_acceptances = Map.empty\<rparr>"

theorem migrated_policies_restart_witness:
  "\<exists>s t es. migrate (call_by ''outlayer'' 0) (Some deployed) = Inr s \<and>
     store_wallet_policy reference_externals (call_by ''a'' (10 ^ 24)) demo_policy s = Inr (t, es)"
proof -
  have "\<exists>s. migrate (call_by ''outlayer'' 0) (Some deployed) = Inr s \<and> wallet_policies s = Map.empty \<and>
      policy_meta s = Map.empty \<and> \<not> paused s"
    by (simp add: migrate_def eval_simps deployed_def)
  then obtain s where s: "migrate (call_by ''outlayer'' 0) (Some deployed) = Inr s"
    "wallet_policies s = Map.empty" "policy_meta s = Map.empty" "\<not> paused s" by blast
  from demo_store [of s] s obtain t es where
    run: "store_wallet_policy reference_externals (call_by ''a'' (10 ^ 24)) demo_policy s = Inr (t, es)"
    by (auto simp: meta_of_def default_policy_meta_def)
  have "canonical_wallet_pubkey reference_externals (pa_wallet_pubkey demo_policy) = Inr demo_key"
    by (simp add: demo_policy_def demo_canonical)
  from migrated_policies_restart [OF s(1) run this] s(1) run show ?thesis by blast
qed

end
