(* ===== verification/Composition.thy ===== *)
theory Composition
  imports Admin
begin

text \<open>
  The contract as one machine: any call of any module on the shared state. Each module owns a part
  of the state (\<open>project_part\<close>, \<open>wallet_part\<close>, \<open>secret_part\<close>, \<open>request_part\<close>, \<open>ledger_part\<close>) and
  the frame lemmas say which parts a call leaves alone; with the invariant lemmas of the modules
  they give the invariant of every reachable state.
\<close>

section \<open>Parts of the state\<close>

definition project_part where
  "project_part s =
     (projects s, project_versions s, user_projects_index s, next_project_id s,
      project_transfer_acceptances s)"

definition wallet_part where
  "wallet_part s = (wallet_policies s, wallet_owner_index s, policy_meta s, storage_refund_to s)"

definition secret_part where
  "secret_part s =
     (secrets_storage s, user_secrets_index s, payment_key_nonce_floors s, secret_vault_bindings s)"

definition request_part where
  "request_part s = (pending_requests s, next_request_id s)"

definition ledger_part where
  "ledger_part s = (user_stablecoin_balances s, developer_earnings s)"

lemmas part_defs = project_part_def wallet_part_def secret_part_def request_part_def ledger_part_def

lemma projects_ok_part: "project_part t = project_part s \<Longrightarrow> projects_ok s \<Longrightarrow> projects_ok t"
proof -
  assume p: "project_part t = project_part s" and ok: "projects_ok s"
  from p have f: "projects t = projects s" "project_versions t = project_versions s"
    "user_projects_index t = user_projects_index s" "next_project_id t = next_project_id s"
    "project_transfer_acceptances t = project_transfer_acceptances s"
    by (simp_all add: project_part_def)
  from f(1) have "uuid_of t = uuid_of s" by (simp add: uuid_of_def [abs_def])
  moreover from f(4) have "counted_uuid t = counted_uuid s" by (simp add: counted_uuid_def [abs_def])
  moreover note parts = projects_okD [OF ok]
  ultimately show "projects_ok t"
    using parts f
    by (intro projects_okI)
      (simp_all add: projects_finite_def project_rows.consistent_def projects_named_def
        project_uuids_ok_def project_sources_ok_def)
qed

lemma wallets_ok_part: "wallet_part t = wallet_part s \<Longrightarrow> wallets_ok ext s \<Longrightarrow> wallets_ok ext t"
  by (simp add: wallet_part_def wallets_ok_def policy_rows.consistent_def meta_of_def)

lemma secrets_ok_part: "secret_part t = secret_part s \<Longrightarrow> secrets_ok ext s \<Longrightarrow> secrets_ok ext t"
  by (simp add: secret_part_def secrets_ok_def secret_rows.consistent_def secret_row_ok_def
      payment_key_nonce_floor_def)

lemma executions_ok_part:
  "request_part t = request_part s \<Longrightarrow> ledgers_ok t \<Longrightarrow> executions_ok s \<Longrightarrow> executions_ok t"
  by (simp add: request_part_def executions_ok_def request_ok_def)

lemma ledgers_part:
  "ledger_part t = ledger_part s \<Longrightarrow> ledgers_ok t = ledgers_ok s \<and> ledgers_total t = ledgers_total s"
  by (simp add: ledger_part_def ledgers_ok_def ledgers_total_def)

section \<open>What a call leaves alone\<close>

text \<open>
  \<open>keeps f s m\<close>: when the call \<open>m\<close> returns a state, it agrees with \<open>s\<close> on \<open>f\<close>. One rule per
  combinator, so that a frame lemma is the rules followed by one simplification per returned state.
\<close>

definition keeps :: "('s \<Rightarrow> 'p) \<Rightarrow> 's \<Rightarrow> ('e, 's \<times> 'o) call \<Rightarrow> bool" where
  "keeps f s m \<longleftrightarrow> (\<forall>t es. m = Inr (t, es) \<longrightarrow> f t = f s)"

named_theorems keeps_rules "one rule per combinator of a call"

lemma keepsD: "keeps f s m \<Longrightarrow> m = Inr (t, es) \<Longrightarrow> f t = f s"
  by (simp add: keeps_def)

lemma keeps_Inl [keeps_rules]: "keeps f s (Inl p)"
  by (simp add: keeps_def)

lemma keeps_Inr [keeps_rules]: "f t = f s \<Longrightarrow> keeps f s (Inr (t, es))"
  by (simp add: keeps_def)

lemma keeps_ensure [keeps_rules]: "keeps f s k \<Longrightarrow> keeps f s (ensure c e k)"
  by (simp add: keeps_def run_simps)

lemma keeps_expect [keeps_rules]: "(\<And>v. x = Some v \<Longrightarrow> keeps f s (k v)) \<Longrightarrow> keeps f s (expect x e k)"
  by (auto simp: keeps_def run_simps)

lemma keeps_bind [keeps_rules]: "(\<And>x. m = Inr x \<Longrightarrow> keeps f s (k x)) \<Longrightarrow> keeps f s (bind_call m k)"
  by (auto simp: keeps_def run_simps)

lemma keeps_fits [keeps_rules]: "keeps f s (k n) \<Longrightarrow> keeps f s (fits w n k)"
  by (simp add: keeps_def run_simps)

lemma keeps_sub [keeps_rules]: "keeps f s (k (a - b)) \<Longrightarrow> keeps f s (sub_checked a b k)"
  by (simp add: keeps_def run_simps)

lemma keeps_not_payable [keeps_rules]: "keeps f s k \<Longrightarrow> keeps f s (not_payable cx k)"
  by (simp add: keeps_def run_simps)

lemma keeps_private [keeps_rules]: "keeps f s k \<Longrightarrow> keeps f s (private_call cx k)"
  by (simp add: keeps_def run_simps)

lemma keeps_if [keeps_rules]: "keeps f s a \<Longrightarrow> keeps f s b \<Longrightarrow> keeps f s (if c then a else b)"
  by simp

lemma keeps_option [keeps_rules]:
  "keeps f s a \<Longrightarrow> (\<And>v. x = Some v \<Longrightarrow> keeps f s (b v)) \<Longrightarrow>
     keeps f s (case x of None \<Rightarrow> a | Some v \<Rightarrow> b v)"
  by (cases x) simp_all

lemma keeps_prod [keeps_rules]:
  "(\<And>a b. x = (a, b) \<Longrightarrow> keeps f s (k a b)) \<Longrightarrow> keeps f s (case x of (a, b) \<Rightarrow> k a b)"
  by (cases x) simp

section \<open>What each module leaves alone\<close>

definition beside_projects where
  "beside_projects s = (wallet_part s, secret_part s, request_part s, ledger_part s)"

definition beside_wallets where
  "beside_wallets s = (project_part s, secret_part s, request_part s, ledger_part s)"

definition beside_secrets where
  "beside_secrets s = (project_part s, wallet_part s, request_part s, ledger_part s)"

definition beside_payments where
  "beside_payments s = (project_part s, wallet_part s, request_part s)"

definition beside_executions where
  "beside_executions s = (project_part s, wallet_part s, secret_part s)"

lemmas beside_defs =
  beside_projects_def beside_wallets_def beside_secrets_def beside_payments_def
  beside_executions_def part_defs

lemma project_call_keeps: "keeps beside_projects s (run_project_call c cx s)"
  by (cases c; simp only: run_project_call.simps project_op_defs Let_def assert_not_paused_def
      assert_code_source_def assert_project_name_def; intro keeps_rules)
    (simp_all add: beside_defs project_row_defs)

lemma wallet_call_keeps: "keeps beside_wallets s (run_wallet_call ext c cx s)"
  by (cases c; simp only: run_wallet_call.simps store_wallet_policy_def freeze_wallet_def
      unfreeze_wallet_def delete_wallet_policy_def set_storage_refund_to_def Let_def
      assert_not_paused_def verify_wallet_signature_def; intro keeps_rules)
    (simp_all add: beside_defs insert_policy_def rewrite_policy_def drop_policy_def
      split: option.splits)

lemma keeps_accessor:
  "keeps f s k \<Longrightarrow> keeps f s (assert_accessor acc prof u k)"
  by (simp add: keeps_def run_simps)

lemma write_secret_beside: "beside_secrets (write_secret k p v s) = beside_secrets s"
  by (simp add: write_secret_def Let_def beside_defs insert_secret_def rewrite_secret_def
      split: option.split)

lemma announce_keeps: "keeps beside_secrets u (announce_payment_key key enc u)"
  unfolding announce_payment_key_def
  by (intro keeps_rules) (simp_all add: beside_defs raise_payment_key_nonce_floor_def)

lemma store_internal_keeps:
  "keeps beside_secrets s (store_secrets_internal ext cx owner payer acc prof enc access vault s)"
  unfolding store_secrets_internal_def Let_def assert_condition_bounds_def
  by (intro keeps_rules keeps_accessor) (simp add: keepsD [OF announce_keeps] write_secret_beside)

lemma delete_internal_keeps:
  "keeps beside_secrets s (delete_secrets_internal key owner r s)"
  unfolding delete_secrets_internal_def by (intro keeps_rules) (simp add: beside_defs)

lemma secret_call_keeps: "keeps beside_secrets s (run_secret_call ext c cx s)"
  by (cases c; simp only: run_secret_call.simps store_secrets_def store_agent_secret_def
      delete_agent_secret_def delete_secrets_def unbind_secret_vault_def update_access_def Let_def
      assert_profile_is_unambiguous_def assert_condition_bounds_def verify_wallet_signature_def;
      intro keeps_rules store_internal_keeps delete_internal_keeps)
    (simp_all add: beside_defs rewrite_secret_def)

lemma payment_call_keeps: "keeps beside_payments s (run_payment_call ext c cx s)"
  unfolding keeps_def by (auto simp: beside_defs dest!: payment_call_frame)

lemma ledger_step_beside: "ledger_step n s t \<Longrightarrow> beside_executions t = beside_executions s"
  by (auto simp: beside_defs elim!: ledger_stepD)

lemma execution_call_keeps: "keeps beside_executions s (run_execution_call ext c cx s)"
  unfolding keeps_def
proof (intro allI impI)
  fix t es
  assume "run_execution_call ext c cx s = Inr (t, es)"
  then show "beside_executions t = beside_executions s"
  proof (cases rule: execution_call_cases)
    case (admitted a)
    from admitted(2) show ?thesis by (rule request_execution_run) (simp add: beside_defs)
  next
    case (answered i rq rq')
    then show ?thesis by (auto simp: beside_defs)
  next
    case (callback i a src l n r)
    from callback(2) show ?thesis
    proof (cases rule: on_execution_response_run)
      case gone
      then show ?thesis by simp
    next
      case (settled rq u cost)
      with ledger_step_beside [OF settled(2)] show ?thesis by (simp add: beside_defs take_request_def)
    qed
  next
    case (cancelled i)
    from cancelled(2) show ?thesis
    proof (rule cancel_stale_run)
      fix rq kept
      assume "return_attached_usd (rq_sender_id rq) (rq_attached_usd rq)
        ((take_request i s)\<lparr>total_fees_collected := total_fees_collected s + kept\<rparr>) = Inr t"
      from ledger_step_beside [OF return_attached_step [OF this]] show ?thesis
        by (simp add: beside_defs take_request_def)
    qed
  qed
qed

lemma clear_loop_beside:
  "clear_loop ids l s es n = Inr (t, fs, k) \<Longrightarrow> beside_executions t = beside_executions s \<and>
     next_request_id t = next_request_id s"
proof (induction ids l s es n rule: clear_loop.induct)
  case (2 i ids l s es n)
  show ?case
  proof (cases "n \<ge> l \<or> pending_requests s i = None")
    case True
    with 2 show ?thesis by (auto split: if_splits)
  next
    case False
    with "2.prems" obtain rq u where rq: "pending_requests s i = Some rq" and
      u: "return_attached_usd (rq_sender_id rq) (rq_attached_usd rq)
            (s\<lparr>pending_requests := (pending_requests s)(i := None)\<rparr>) = Inr u"
      and rest: "clear_loop ids l u
          (es @ [Transfer (rq_payer_account_id rq) (rq_payment rq)]) (n + 1) = Inr (t, fs, k)"
      by (auto simp: run_simps)
    note st = return_attached_step [OF u]
    from "2.IH"(2) [OF _ rq rest] False ledger_step_beside [OF st] ledger_step_fields(2) [OF st]
    show ?thesis by (simp add: beside_defs)
  qed
qed simp

lemma keeps_check_plans [keeps_rules]: "keeps f s k \<Longrightarrow> keeps f s (check_plans seen ps k)"
  by (auto simp: keeps_def check_plans_Inr)

lemma keeps_check_not_repointed [keeps_rules]:
  "keeps f s k \<Longrightarrow> keeps f s (check_not_repointed ps olds k)"
  by (auto simp: keeps_def check_not_repointed_Inr)

lemma keeps_check_operations [keeps_rules]: "keeps f s k \<Longrightarrow> keeps f s (check_operations seen rows k)"
  by (auto simp: keeps_def check_operations_Inr)

lemma admin_call_keeps: "keeps beside_executions s (run_admin_call c cx s)"
proof -
  have "keeps beside_executions s (emergency_cancel_execution cx i s)" for i
    unfolding emergency_cancel_execution_def assert_owner_def
    by (intro keeps_rules) (auto dest!: return_attached_step ledger_step_beside simp: beside_defs)
  moreover have "keeps beside_executions s (cancel_pending_requests cx ids s)" for ids
    unfolding keeps_def
    by (auto elim!: cancel_pending_run dest!: cancel_loop_state simp: beside_defs)
  moreover have "keeps beside_executions s (clear_all_pending_requests cx l s)" for l
    unfolding keeps_def by (auto elim!: clear_all_run dest!: clear_loop_beside)
  ultimately show ?thesis
    by (cases c; simp only: run_admin_call.simps set_owner_def set_operator_def set_paused_def
        set_pricing_def set_subscription_plans_def set_project_pricing_def remove_project_pricing_def
        set_payment_token_contract_def set_event_metadata_def assert_owner_def; intro keeps_rules)
      (simp_all add: beside_defs)
qed

section \<open>The contract as one machine\<close>

datatype contract_op =
    ProjectOp project_call
  | WalletOp wallet_call
  | SecretOp secret_call
  | PaymentOp payment_call
  | ExecutionOp execution_call
  | AdminOp admin_call

fun run_op :: "externals \<Rightarrow> contract_op \<Rightarrow> ctx \<Rightarrow> contract \<Rightarrow> outcome" where
  "run_op ext (ProjectOp c) cx s = run_project_call c cx s"
| "run_op ext (WalletOp c) cx s = run_wallet_call ext c cx s"
| "run_op ext (SecretOp c) cx s = run_secret_call ext c cx s"
| "run_op ext (PaymentOp c) cx s = run_payment_call ext c cx s"
| "run_op ext (ExecutionOp c) cx s = run_execution_call ext c cx s"
| "run_op ext (AdminOp c) cx s = run_admin_call c cx s"

text \<open>A call that panics is rolled back, so only calls that return are steps.\<close>

inductive runs :: "externals \<Rightarrow> contract \<Rightarrow> contract \<Rightarrow> bool" for ext where
  runs_refl: "runs ext s s"
| runs_step: "runs ext s t \<Longrightarrow> run_op ext op cx t = Inr (u, es) \<Longrightarrow> runs ext s u"

definition contract_ok :: "externals \<Rightarrow> contract \<Rightarrow> bool" where
  "contract_ok ext s \<longleftrightarrow> projects_ok s \<and> wallets_ok ext s \<and> secrets_ok ext s \<and> executions_ok s"

lemma contract_okD:
  assumes "contract_ok ext s"
  shows "projects_ok s" "wallets_ok ext s" "secrets_ok ext s" "executions_ok s" "ledgers_ok s"
  using assms executions_okD(2) by (auto simp: contract_ok_def)

lemma contract_ok_new: "contract_ok ext (new_contract ow op st ver)"
  by (simp add: contract_ok_def projects_ok_new wallets_ok_new secrets_ok_new executions_ok_new)

section \<open>Payments and the ledgers\<close>

fun usd_moved_in :: "externals \<Rightarrow> payment_call \<Rightarrow> nat" where
  "usd_moved_in ext (FtOnTransfer a n msg) = (if parse_ft_action ext msg = Some DepositBalance then n else 0)"
| "usd_moved_in ext (OnWithdrawDeveloperEarnings a n transferred) = (if transferred then 0 else n)"
| "usd_moved_in ext _ = 0"

fun usd_moved_out :: "payment_call \<Rightarrow> ctx \<Rightarrow> contract \<Rightarrow> nat" where
  "usd_moved_out WithdrawDeveloperEarnings cx s = get0 (developer_earnings s) (predecessor cx)"
| "usd_moved_out _ cx s = 0"

lemma ft_on_transfer_ledgers:
  assumes "ledgers_ok s" "ft_on_transfer ext cx a n msg s = Inr (t, es)"
  shows "ledgers_ok t \<and> ledgers_total t = ledgers_total s + usd_moved_in ext (FtOnTransfer a n msg)"
  using assms(2)
proof (cases rule: ft_on_transfer_run)
  case top_up
  then have "t = s" by (auto simp: handle_top_up_def run_simps)
  with top_up assms(1) show ?thesis by simp
next
  case deposit
  then have "credit_balance a n s = Inr t" by (auto simp: handle_deposit_balance_def bind_call_Inr)
  with ledger_step_sound [OF credit_balance_step assms(1)] deposit show ?thesis by simp
next
  case buy
  then have "t = s" by (auto simp: handle_buy_subscription_def run_simps)
  with buy assms(1) show ?thesis by simp
qed

lemma withdraw_ledgers:
  assumes "ledgers_ok s" "withdraw_developer_earnings cx s = Inr (t, es)"
  shows "ledgers_ok t \<and> ledgers_total t + get0 (developer_earnings s) (predecessor cx) = ledgers_total s"
proof -
  from assms(2) have t: "t = s\<lparr>developer_earnings := (developer_earnings s)(predecessor cx := None)\<rparr>"
    by (auto simp: withdraw_developer_earnings_def run_simps Let_def)
  from assms(1) weight_total_delete [of "developer_earnings s" id "predecessor cx"] show ?thesis
    by (auto simp: t ledgers_ok_def ledgers_total_def)
qed

lemma on_withdraw_ledgers:
  assumes "ledgers_ok s" "on_withdraw_developer_earnings cx a n transferred s = Inr (t, es)"
  shows "ledgers_ok t \<and> ledgers_total t = ledgers_total s + (if transferred then 0 else n)"
proof (cases transferred)
  case True
  with assms show ?thesis by (auto simp: on_withdraw_developer_earnings_def run_simps)
next
  case False
  with assms(2) have "credit_earnings a n s = Inr t"
    by (auto simp: on_withdraw_developer_earnings_def private_call_Inr not_payable_Inr bind_call_Inr)
  with ledger_step_sound [OF credit_earnings_step assms(1)] False show ?thesis by simp
qed

lemma payment_call_ledgers:
  assumes ok: "ledgers_ok s" and run: "run_payment_call ext c cx s = Inr (t, es)"
  shows "ledgers_ok t \<and> ledgers_total t + usd_moved_out c cx s = ledgers_total s + usd_moved_in ext c"
proof (cases c)
  case (FtOnTransfer a n msg)
  with ft_on_transfer_ledgers [OF ok] run show ?thesis by simp
next
  case WithdrawDeveloperEarnings
  with withdraw_ledgers [OF ok] run show ?thesis by simp
next
  case (OnWithdrawDeveloperEarnings a n transferred)
  with on_withdraw_ledgers [OF ok] run show ?thesis by simp
next
  case (OnTopUpResponse ow k n r)
  with run have "on_top_up_response cx ow k n r s = Inr (t, es)" by simp
  then have "ledger_part t = ledger_part s"
  proof (cases rule: on_top_up_response_run)
    case (accepted d p)
    show ?thesis unfolding accepted(3) by (simp add: ledger_part_def rewrite_secret_def)
  qed simp
  from ledgers_part [OF this] ok OnTopUpResponse show ?thesis by simp
next
  case (OnDeletePaymentKeyResponse ow k r)
  with run have "on_delete_payment_key_response cx ow k r s = Inr (t, es)" by simp
  then have "ledger_part t = ledger_part s"
  proof (rule on_delete_response_run)
    fix u
    assume "delete_secrets_internal (payment_key_of ow k) ow ow s = Inr (u, es)"
      "t = raise_payment_key_nonce_floor ow k u"
    then show ?thesis
      by (auto simp: delete_secrets_internal_def run_simps ledger_part_def
          raise_payment_key_nonce_floor_def)
  qed simp
  from ledgers_part [OF this] ok OnDeletePaymentKeyResponse show ?thesis by simp
qed (use ok run in \<open>auto simp: resume_topup_def delete_payment_key_def resume_delete_payment_key_def
      top_up_payment_key_with_near_def top_up_payment_key_with_token_def run_simps Let_def\<close>)

section \<open>The invariant of every reachable state\<close>

lemma run_op_ok:
  assumes hex: "hex_ok ext" and lower: "lowercase_ok ext" and ok: "contract_ok ext s" and run: "run_op ext op cx s = Inr (t, es)"
  shows "contract_ok ext t"
proof (cases op)
  case (ProjectOp c)
  with run have r: "run_project_call c cx s = Inr (t, es)" by simp
  note k = keepsD [OF project_call_keeps r, unfolded beside_projects_def]
  from k ledgers_part [of t s] run_project_call_ok [OF contract_okD(1) [OF ok] r] show ?thesis
    unfolding contract_ok_def using contract_okD [OF ok]
    by (auto intro: wallets_ok_part secrets_ok_part executions_ok_part)
next
  case (WalletOp c)
  with run have r: "run_wallet_call ext c cx s = Inr (t, es)" by simp
  note k = keepsD [OF wallet_call_keeps r, unfolded beside_wallets_def]
  from k ledgers_part [of t s] run_wallet_call_ok [OF hex contract_okD(2) [OF ok] r] show ?thesis
    unfolding contract_ok_def using contract_okD [OF ok]
    by (auto intro: projects_ok_part secrets_ok_part executions_ok_part)
next
  case (SecretOp c)
  with run have r: "run_secret_call ext c cx s = Inr (t, es)" by simp
  note k = keepsD [OF secret_call_keeps r, unfolded beside_secrets_def]
  from k ledgers_part [of t s] run_secret_call_ok [OF lower contract_okD(3) [OF ok] r] show ?thesis
    unfolding contract_ok_def using contract_okD [OF ok]
    by (auto intro: projects_ok_part wallets_ok_part executions_ok_part)
next
  case (PaymentOp c)
  with run have r: "run_payment_call ext c cx s = Inr (t, es)" by simp
  note k = keepsD [OF payment_call_keeps r, unfolded beside_payments_def]
  from k payment_call_ledgers [OF contract_okD(5) [OF ok] r]
    run_payment_call_secrets_ok [OF contract_okD(3) [OF ok] r] show ?thesis
    unfolding contract_ok_def using contract_okD [OF ok]
    by (auto intro: projects_ok_part wallets_ok_part executions_ok_part)
next
  case (ExecutionOp c)
  with run have r: "run_execution_call ext c cx s = Inr (t, es)" by simp
  note k = keepsD [OF execution_call_keeps r, unfolded beside_executions_def]
  from k run_execution_call_ok [OF contract_okD(4,1) [OF ok] r] show ?thesis
    unfolding contract_ok_def using contract_okD [OF ok]
    by (auto intro: projects_ok_part wallets_ok_part secrets_ok_part)
next
  case (AdminOp c)
  with run have r: "run_admin_call c cx s = Inr (t, es)" by simp
  note k = keepsD [OF admin_call_keeps r, unfolded beside_executions_def]
  from k run_admin_call_ok [OF contract_okD(4) [OF ok] r] show ?thesis
    unfolding contract_ok_def using contract_okD [OF ok]
    by (auto intro: projects_ok_part wallets_ok_part secrets_ok_part)
qed

lemma runs_ok: "runs ext s t \<Longrightarrow> hex_ok ext \<Longrightarrow> lowercase_ok ext \<Longrightarrow> contract_ok ext s \<Longrightarrow> contract_ok ext t"
  by (induction rule: runs.induct) (auto intro: run_op_ok)

section \<open>Ids and nonces only grow\<close>

definition requests_grow :: "contract \<Rightarrow> contract \<Rightarrow> bool" where
  "requests_grow s t \<longleftrightarrow> next_request_id s \<le> next_request_id t \<and>
     (\<forall>i < next_request_id s. pending_requests s i = None \<longrightarrow> pending_requests t i = None)"

lemma requests_grow_refl: "requests_grow s s"
  by (simp add: requests_grow_def)

lemma requests_grow_trans: "requests_grow s t \<Longrightarrow> requests_grow t u \<Longrightarrow> requests_grow s u"
  unfolding requests_grow_def by (meson less_le_trans order_trans)

lemma requests_grow_part: "request_part t = request_part s \<Longrightarrow> requests_grow s t"
  by (simp add: request_part_def requests_grow_def)

lemma ledger_step_grow:
  assumes "ledger_step n u t" "next_request_id u = next_request_id s"
    and "pending_requests u = (pending_requests s)(i := None)"
  shows "requests_grow s t"
  using ledger_step_fields(1,2) [OF assms(1)] assms(2,3) by (simp add: requests_grow_def)

lemma execution_call_grow:
  assumes "run_execution_call ext c cx s = Inr (t, es)"
  shows "requests_grow s t"
  using assms
proof (cases rule: execution_call_cases)
  case (admitted a)
  from admitted(2) show ?thesis by (rule request_execution_run) (simp add: requests_grow_def)
next
  case (answered i rq rq')
  then show ?thesis by (auto simp: requests_grow_def)
next
  case (callback i a src l n r)
  from callback(2) show ?thesis
  proof (cases rule: on_execution_response_run)
    case gone
    then show ?thesis by (simp add: requests_grow_refl)
  next
    case (settled rq u cost)
    have "requests_grow s u"
      by (rule ledger_step_grow [OF settled(2)]) (simp_all add: take_request_def)
    with settled(3) show ?thesis by (simp add: requests_grow_def)
  qed
next
  case (cancelled i)
  from cancelled(2) show ?thesis
  proof (rule cancel_stale_run)
    fix rq kept
    assume "return_attached_usd (rq_sender_id rq) (rq_attached_usd rq)
        ((take_request i s)\<lparr>total_fees_collected := total_fees_collected s + kept\<rparr>) = Inr t"
    from ledger_step_grow [OF return_attached_step [OF this]] show ?thesis
      by (simp add: take_request_def)
  qed
qed

lemma admin_call_grow:
  assumes ok: "executions_ok s" and run: "run_admin_call c cx s = Inr (t, es)"
  shows "requests_grow s t"
  using run
proof (cases rule: admin_call_cases)
  case settings
  then show ?thesis by (simp add: requests_grow_def)
next
  case (emergency i rq)
  from ledger_step_grow [OF return_attached_step [OF emergency(2)]] show ?thesis by simp
next
  case (cancelled ids)
  from cancelled(2) show ?thesis
    by (rule cancel_pending_run) (auto dest!: cancel_loop_state simp: requests_grow_def restrict_map_def)
next
  case (cleared l)
  from cleared(2) show ?thesis
  proof (rule clear_all_run)
    fix fs n
    assume r: "clear_loop [0..<next_request_id s] (or_default 100 l) s [] 0 = Inr (t, fs, n)"
    from clear_loop_effect [OF ok distinct_upt r] clear_loop_beside [OF r] show ?thesis
      by (simp add: requests_grow_def restrict_map_def)
  qed
qed

lemma run_op_grow:
  assumes "executions_ok s" "run_op ext op cx s = Inr (t, es)"
  shows "requests_grow s t"
proof (cases op)
  case (ProjectOp c)
  with assms(2) keepsD [OF project_call_keeps, of c cx s t es] show ?thesis
    by (simp add: beside_projects_def requests_grow_part)
next
  case (WalletOp c)
  with assms(2) keepsD [OF wallet_call_keeps, of ext c cx s t es] show ?thesis
    by (simp add: beside_wallets_def requests_grow_part)
next
  case (SecretOp c)
  with assms(2) keepsD [OF secret_call_keeps, of ext c cx s t es] show ?thesis
    by (simp add: beside_secrets_def requests_grow_part)
next
  case (PaymentOp c)
  with assms(2) keepsD [OF payment_call_keeps, of ext c cx s t es] show ?thesis
    by (simp add: beside_payments_def requests_grow_part)
next
  case (ExecutionOp c)
  with assms(2) execution_call_grow show ?thesis by simp
next
  case (AdminOp c)
  with assms admin_call_grow show ?thesis by simp
qed

definition floors_grow :: "contract \<Rightarrow> contract \<Rightarrow> bool" where
  "floors_grow s t \<longleftrightarrow> (\<forall>a. payment_key_nonce_floor s a \<le> payment_key_nonce_floor t a)"

lemma floors_grow_part: "secret_part t = secret_part s \<Longrightarrow> floors_grow s t"
  by (simp add: floors_grow_def secret_part_def payment_key_nonce_floor_def)

lemma delete_internal_floors:
  "delete_secrets_internal key ow r s = Inr (t, es) \<Longrightarrow> floors_grow s t"
  by (auto simp: delete_secrets_internal_def run_simps floors_grow_def payment_key_nonce_floor_def)

lemma store_internal_floors:
  "store_secrets_internal ext cx ow pay acc prof enc access vault s = Inr (t, es) \<Longrightarrow> floors_grow s t"
  by (simp add: floors_grow_def stored_floor_mono)

lemma secret_call_floors:
  assumes "run_secret_call ext c cx s = Inr (t, es)"
  shows "floors_grow s t"
proof (cases c)
  case (StoreSecrets acc prof enc access vault)
  with assms show ?thesis by (auto simp: store_secrets_def intro: store_internal_floors)
next
  case (StoreAgentSecret a)
  with assms show ?thesis by (auto elim!: store_agent_secret_run intro: store_internal_floors)
next
  case (DeleteAgentSecret pk acc prof sg)
  with assms show ?thesis by (auto elim!: delete_agent_secret_run intro: delete_internal_floors)
next
  case (DeleteSecrets acc prof)
  with assms show ?thesis
    by (auto simp: delete_secrets_def Let_def not_payable_Inr intro: delete_internal_floors)
next
  case (UnbindSecretVault acc prof)
  with assms show ?thesis
    by (auto simp: unbind_secret_vault_def Let_def run_simps floors_grow_def payment_key_nonce_floor_def)
next
  case (UpdateAccess acc prof access)
  with assms show ?thesis
    by (auto simp: update_access_def Let_def run_simps floors_grow_def payment_key_nonce_floor_def
        rewrite_secret_def)
qed

lemma payment_call_floors:
  assumes "run_payment_call ext c cx s = Inr (t, es)"
  shows "floors_grow s t"
  using assms
proof (cases rule: run_payment_call_cases)
  case (deleted k ow n u)
  from delete_internal_floors [OF deleted(1)] deleted(4) show ?thesis
    by (auto simp: floors_grow_def floor_after_raise intro: order_trans le_max_iff_disj [THEN iffD2])
qed (auto simp: floors_grow_def payment_key_nonce_floor_def rewrite_secret_def)

lemma run_op_floors:
  assumes "run_op ext op cx s = Inr (t, es)"
  shows "floors_grow s t"
proof (cases op)
  case (ProjectOp c)
  with assms keepsD [OF project_call_keeps, of c cx s t es] show ?thesis
    by (simp add: beside_projects_def floors_grow_part)
next
  case (WalletOp c)
  with assms keepsD [OF wallet_call_keeps, of ext c cx s t es] show ?thesis
    by (simp add: beside_wallets_def floors_grow_part)
next
  case (SecretOp c)
  with assms secret_call_floors show ?thesis by simp
next
  case (PaymentOp c)
  with assms payment_call_floors show ?thesis by simp
next
  case (ExecutionOp c)
  with assms keepsD [OF execution_call_keeps, of ext c cx s t es] show ?thesis
    by (simp add: beside_executions_def floors_grow_part)
next
  case (AdminOp c)
  with assms keepsD [OF admin_call_keeps, of c cx s t es] show ?thesis
    by (simp add: beside_executions_def floors_grow_part)
qed

lemma runs_floors: "runs ext s t \<Longrightarrow> floors_grow s t"
proof (induction rule: runs.induct)
  case (runs_refl s)
  then show ?case by (simp add: floors_grow_def)
next
  case (runs_step s t op cx u es)
  with run_op_floors [OF runs_step.hyps(2)] show ?case
    unfolding floors_grow_def by (meson order_trans)
qed

lemma runs_grow:
  "runs ext s t \<Longrightarrow> hex_ok ext \<Longrightarrow> lowercase_ok ext \<Longrightarrow> contract_ok ext s \<Longrightarrow> requests_grow s t"
proof (induction rule: runs.induct)
  case (runs_refl s)
  then show ?case by (simp add: requests_grow_refl)
next
  case (runs_step s t op cx u es)
  from runs_ok [OF runs_step.hyps(1) runs_step.prems] have "executions_ok t" by (rule contract_okD(4))
  from run_op_grow [OF this runs_step.hyps(2)] runs_step.IH [OF runs_step.prems] show ?case
    by (rule requests_grow_trans [rotated])
qed

end
