(* ===== verification/Custody.thy ===== *)
theory Custody
  imports Composition "HOL-Library.Multiset"
begin

text \<open>
  The contract beside the token contracts it is configured with. What each of them records for OutLayer
  (\<open>sy_custody\<close>) moves by NEP-141: a transfer arrives with the call of \<open>ft_on_transfer\<close> and what the
  answer names goes back; a top-up is answered later, by the callback of its yield, and then as much as
  is still there goes back; a withdrawal is sent and its callback told whether it arrived, which it
  does only where the token contract has that much for OutLayer; and anyone may transfer tokens without
  a call. The machine below interleaves those with every other call of the contract, the owner's change
  of the token included, and keeps ghost totals of what was sold (\<open>sy_revenue\<close>: subscriptions and accepted
  top-ups), of what came without a call (\<open>sy_gifts\<close>) and of what a cancellation by id destroyed (\<open>sy_lost\<close>).
\<close>

section \<open>The machine\<close>

record system =
  sy_contract :: contract
  sy_custody :: "account \<rightharpoonup> nat"
  sy_topups :: "(account \<times> account \<times> nat \<times> nat) multiset"
  sy_withdrawals :: "(account \<times> account \<times> nat) multiset"
  sy_revenue :: nat
  sy_gifts :: nat
  sy_lost :: nat

fun returned_of :: "effect list \<Rightarrow> nat" where
  "returned_of [] = 0"
| "returned_of (ReturnU128 n # es) = n + returned_of es"
| "returned_of (_ # es) = returned_of es"

fun topups_of :: "effect list \<Rightarrow> (account \<times> nat \<times> nat) multiset" where
  "topups_of [] = {#}"
| "topups_of (YieldTopUp d a k n # es) = add_mset (a, k, n) (topups_of es)"
| "topups_of (_ # es) = topups_of es"

fun sold_of :: "effect list \<Rightarrow> nat" where
  "sold_of [] = 0"
| "sold_of (EmitSystem (SubscriptionPurchased a k plan n payer) # es) = n + sold_of es"
| "sold_of (_ # es) = sold_of es"

fun withdrawals_of :: "effect list \<Rightarrow> (account \<times> account \<times> nat) multiset" where
  "withdrawals_of [] = {#}"
| "withdrawals_of (FtTransferThenSettle token a n # es) = add_mset (token, a, n) (withdrawals_of es)"
| "withdrawals_of (_ # es) = withdrawals_of es"

fun moves_token :: "contract_op \<Rightarrow> bool" where
  "moves_token (PaymentOp (FtOnTransfer a n msg)) = True"
| "moves_token (PaymentOp (OnTopUpResponse a k n r)) = True"
| "moves_token (PaymentOp WithdrawDeveloperEarnings) = True"
| "moves_token (PaymentOp (OnWithdrawDeveloperEarnings a n ok)) = True"
| "moves_token _ = False"

definition held_by_ids :: "nat list \<Rightarrow> contract \<Rightarrow> nat" where
  "held_by_ids ids s =
     (\<Sum>i \<in> set ids \<inter> dom (pending_requests s). rq_attached_usd (the (pending_requests s i)))"

fun lost_by :: "contract_op \<Rightarrow> contract \<Rightarrow> nat" where
  "lost_by (AdminOp (CancelPendingRequests ids)) s = held_by_ids ids s"
| "lost_by _ s = 0"

text \<open>Tokens received at, and sent from, one token contract.\<close>

definition received :: "account \<Rightarrow> nat \<Rightarrow> (account \<rightharpoonup> nat) \<Rightarrow> (account \<rightharpoonup> nat)" where
  "received token n m = m(token \<mapsto> get0 m token + n)"

definition sent :: "account \<Rightarrow> nat \<Rightarrow> (account \<rightharpoonup> nat) \<Rightarrow> (account \<rightharpoonup> nat)" where
  "sent token n m = m(token \<mapsto> get0 m token - n)"

inductive system_step :: "externals \<Rightarrow> system \<Rightarrow> system \<Rightarrow> bool" for ext where
  transfer_in:
    "ft_on_transfer ext cx sender amount msg (sy_contract y) = Inr (t, es) \<Longrightarrow>
     system_step ext y (y\<lparr>sy_contract := t, sy_custody := received (predecessor cx) (amount - returned_of es) (sy_custody y),
       sy_topups := sy_topups y + image_mset (Pair (predecessor cx)) (topups_of es), sy_revenue := sy_revenue y + sold_of es\<rparr>)"
| top_up_settled:
    "(token, owner, nonce, amount) \<in># sy_topups y \<Longrightarrow>
     on_top_up_response cx owner nonce amount result (sy_contract y) = Inr (t, es) \<Longrightarrow>
     refund = min (returned_of es) (get0 (sy_custody y) token) \<Longrightarrow>
     system_step ext y (y\<lparr>sy_contract := t, sy_custody := sent token refund (sy_custody y),
       sy_topups := sy_topups y - {#(token, owner, nonce, amount)#}, sy_revenue := sy_revenue y + (amount - refund)\<rparr>)"
| withdrawal_sent:
    "withdraw_developer_earnings cx (sy_contract y) = Inr (t, es) \<Longrightarrow>
     system_step ext y (y\<lparr>sy_contract := t, sy_withdrawals := sy_withdrawals y + withdrawals_of es\<rparr>)"
| withdrawal_settled:
    "(token, developer, amount) \<in># sy_withdrawals y \<Longrightarrow>
     on_withdraw_developer_earnings cx developer amount transferred (sy_contract y) = Inr (t, es) \<Longrightarrow>
     (transferred \<Longrightarrow> amount \<le> get0 (sy_custody y) token) \<Longrightarrow>
     system_step ext y (y\<lparr>sy_contract := t,
       sy_custody := (if transferred then sent token amount (sy_custody y) else sy_custody y),
       sy_withdrawals := sy_withdrawals y - {#(token, developer, amount)#}\<rparr>)"
| plain_transfer:
    "system_step ext y (y\<lparr>sy_custody := received token amount (sy_custody y), sy_gifts := sy_gifts y + amount\<rparr>)"
| other_call:
    "run_op ext op cx (sy_contract y) = Inr (t, es) \<Longrightarrow> \<not> moves_token op \<Longrightarrow>
     system_step ext y (y\<lparr>sy_contract := t, sy_lost := sy_lost y + lost_by op (sy_contract y)\<rparr>)"

definition started :: "contract \<Rightarrow> system" where
  "started s = \<lparr>sy_contract = s, sy_custody = Map.empty, sy_topups = {#}, sy_withdrawals = {#},
                sy_revenue = 0, sy_gifts = 0, sy_lost = 0\<rparr>"

inductive system_reachable :: "externals \<Rightarrow> system \<Rightarrow> bool" for ext where
  deployment: "system_reachable ext (started (new_contract ow op st ver))"
| step: "system_reachable ext y \<Longrightarrow> system_step ext y z \<Longrightarrow> system_reachable ext z"

inductive_cases system_stepE: "system_step ext y z"

section \<open>The invariant\<close>

definition in_flight :: "system \<Rightarrow> nat" where
  "in_flight y = (\<Sum>(token, a, k, n) \<in># sy_topups y. n) + (\<Sum>(token, a, n) \<in># sy_withdrawals y. n)"

definition backed :: "system \<Rightarrow> bool" where
  "backed y \<longleftrightarrow> finite (dom (sy_custody y)) \<and>
     map_total (sy_custody y) = usd_held (sy_contract y) + in_flight y + sy_revenue y + sy_gifts y + sy_lost y"

lemma received_total:
  "finite (dom m) \<Longrightarrow> finite (dom (received token n m)) \<and> map_total (received token n m) = map_total m + n"
  using weight_total_update [of m id token "get0 m token + n"] by (simp add: received_def)

lemma sent_total:
  "finite (dom m) \<Longrightarrow> n \<le> get0 m token \<Longrightarrow> finite (dom (sent token n m)) \<and> map_total (sent token n m) + n = map_total m"
  using weight_total_update [of m id token "get0 m token - n"] by (simp add: sent_def)

lemma usd_held_parts:
  "request_part t = request_part s \<Longrightarrow> ledger_part t = ledger_part s \<Longrightarrow> usd_held t = usd_held s"
  by (simp add: request_part_def ledger_part_def usd_held_def ledgers_total_def)

lemma payment_call_usd:
  assumes "ledgers_ok s" "run_payment_call ext c cx s = Inr (t, es)"
  shows "usd_held t + usd_moved_out c cx s = usd_held s + usd_moved_in ext c"
proof -
  have "request_part t = request_part s"
    using keepsD [OF payment_call_keeps assms(2)] by (simp add: beside_payments_def)
  with payment_call_ledgers [OF assms] show ?thesis by (simp add: usd_held_def request_part_def)
qed

lemma admin_call_usd:
  assumes ok: "executions_ok s" and run: "run_admin_call c cx s = Inr (t, es)"
  shows "usd_held t + lost_by (AdminOp c) s = usd_held s"
  using run
proof (cases rule: admin_call_cases)
  case settings
  have "lost_by (AdminOp c) s = 0" using settings(7) by (cases c) auto
  with settings show ?thesis by (simp add: usd_held_def ledgers_total_def)
next
  case (emergency i rq)
  have "lost_by (AdminOp c) s = 0" using emergency(4) by (cases c) auto
  with emergency_step(2) [OF ok emergency(1,2)] show ?thesis by simp
next
  case (cancelled ids)
  from cancelled(2) have "usd_held t + held_by_ids ids s = usd_held s"
  proof (rule cancel_pending_run)
    fix fs n
    assume r: "cancel_loop ids s [] 0 = (t, fs, n)"
    from weight_total_restrict [OF executions_okD(1) [OF ok], of rq_attached_usd "set ids"] show ?thesis
      by (simp add: cancel_loop_state [OF r] usd_held_def ledgers_total_def held_by_ids_def)
  qed
  with cancelled(1) show ?thesis by simp
next
  case (cleared l)
  from cleared(2) have "usd_held t = usd_held s"
    by (rule clear_all_run) (use clear_loop_effect [OF ok distinct_upt] in blast)
  with cleared(1) show ?thesis by simp
qed

lemma other_call_usd:
  assumes ok: "contract_ok ext s" and run: "run_op ext op cx s = Inr (t, es)" and "\<not> moves_token op"
  shows "usd_held t + lost_by op s = usd_held s"
proof (cases op)
  case (ProjectOp c)
  with run keepsD [OF project_call_keeps, of c cx s t es] show ?thesis
    by (simp add: beside_projects_def usd_held_parts [of t s])
next
  case (WalletOp c)
  with run keepsD [OF wallet_call_keeps, of ext c cx s t es] show ?thesis
    by (simp add: beside_wallets_def usd_held_parts [of t s])
next
  case (SecretOp c)
  with run keepsD [OF secret_call_keeps, of ext c cx s t es] show ?thesis
    by (simp add: beside_secrets_def usd_held_parts [of t s])
next
  case (PaymentOp c)
  with run payment_call_usd [OF contract_okD(5) [OF ok], of ext c cx t es] assms(3) show ?thesis
    by (cases c) simp_all
next
  case (ExecutionOp c)
  with run execution_call_usd [OF contract_okD(4) [OF ok]] show ?thesis by simp
next
  case (AdminOp c)
  with run admin_call_usd [OF contract_okD(4) [OF ok]] show ?thesis by simp
qed

text \<open>What the calls that move the token keep, in the terms of the machine.\<close>

lemma ft_on_transfer_effects:
  assumes "ft_on_transfer ext cx sender amount msg s = Inr (t, es)"
  shows "returned_of es = 0 \<and>
    amount = usd_moved_in ext (FtOnTransfer sender amount msg) + (\<Sum>(a, k, n) \<in># topups_of es. n) + sold_of es"
  using assms
  by (cases rule: ft_on_transfer_run)
    (auto simp: handle_top_up_def handle_deposit_balance_def handle_buy_subscription_def run_simps
      dest: plan_for_sale_sound)

lemma on_top_up_returned:
  assumes "on_top_up_response cx owner nonce amount result s = Inr (t, es)"
  shows "returned_of es \<le> amount"
  using assms by (cases rule: on_top_up_response_run) simp_all

lemma sum_remove:
  "x \<in># M \<Longrightarrow> (\<Sum>y \<in># M - {#x#}. f y) + f x = (\<Sum>y \<in># M. (f y :: nat))"
  by (metis (no_types, lifting) add.commute image_mset_add_mset insert_DiffM sum_mset.add_mset)

lemma system_step_backed:
  assumes hex: "hex_ok ext" and lower: "lowercase_ok ext"
    and ok: "contract_ok ext (sy_contract y)" and bk: "backed y" and st: "system_step ext y z"
  shows "contract_ok ext (sy_contract z) \<and> backed z"
  using st
proof cases
  case (transfer_in cx sender amount msg t es)
  then have run: "run_op ext (PaymentOp (FtOnTransfer sender amount msg)) cx (sy_contract y) = Inr (t, es)"
    by simp
  have tops: "(\<Sum>(token, a, k, n) \<in># image_mset (Pair (predecessor cx)) (topups_of es). n) = (\<Sum>(a, k, n) \<in># topups_of es. n)"
    by (simp add: image_mset.compositionality comp_def case_prod_unfold)
  from run_op_ok [OF hex lower ok run] ft_on_transfer_effects [OF transfer_in(2)]
    payment_call_usd [OF contract_okD(5) [OF ok], of ext "FtOnTransfer sender amount msg" cx t es]
    received_total [of "sy_custody y" "predecessor cx" "amount - returned_of es"] transfer_in bk tops
  show ?thesis by (simp add: backed_def in_flight_def)
next
  case (top_up_settled token owner nonce amount cx result t es refund)
  then have run: "run_op ext (PaymentOp (OnTopUpResponse owner nonce amount result)) cx (sy_contract y) = Inr (t, es)"
    by simp
  have less: "refund \<le> amount" "refund \<le> get0 (sy_custody y) token"
    using on_top_up_returned [OF top_up_settled(3)] top_up_settled(4) by simp_all
  from bk have "finite (dom (sy_custody y))" by (simp add: backed_def)
  with less(2) have "finite (dom (sent token refund (sy_custody y))) \<and>
      map_total (sent token refund (sy_custody y)) + refund = map_total (sy_custody y)" by (simp add: sent_total)
  with run_op_ok [OF hex lower ok run] less(1)
    payment_call_usd [OF contract_okD(5) [OF ok], of ext "OnTopUpResponse owner nonce amount result" cx t es]
    sum_remove [OF top_up_settled(2), of "\<lambda>(token, a, k, n). n"] top_up_settled(1,3) bk
  show ?thesis by (auto simp: backed_def in_flight_def)
next
  case (withdrawal_sent cx t es)
  then have run: "run_op ext (PaymentOp WithdrawDeveloperEarnings) cx (sy_contract y) = Inr (t, es)" by simp
  have "(\<Sum>(token, a, n) \<in># withdrawals_of es. n) = get0 (developer_earnings (sy_contract y)) (predecessor cx)"
    using withdrawal_sent(2) by (auto simp: withdraw_developer_earnings_def run_simps Let_def)
  with run_op_ok [OF hex lower ok run]
    payment_call_usd [OF contract_okD(5) [OF ok], of ext WithdrawDeveloperEarnings cx t es]
    withdrawal_sent bk
  show ?thesis by (simp add: backed_def in_flight_def)
next
  case (withdrawal_settled token developer amount cx transferred t es)
  then have run: "run_op ext (PaymentOp (OnWithdrawDeveloperEarnings developer amount transferred)) cx
      (sy_contract y) = Inr (t, es)" by simp
  from run_op_ok [OF hex lower ok run]
    payment_call_usd [OF contract_okD(5) [OF ok], of ext
      "OnWithdrawDeveloperEarnings developer amount transferred" cx t es]
    sum_remove [OF withdrawal_settled(2), of "\<lambda>(token, a, n). n"] sent_total [of "sy_custody y" amount token] withdrawal_settled bk
  show ?thesis by (auto simp: backed_def in_flight_def split: if_splits)
next
  case (plain_transfer amount token)
  with ok bk received_total [of "sy_custody y" token amount] show ?thesis by (simp add: backed_def in_flight_def)
next
  case (other_call op cx t es)
  from run_op_ok [OF hex lower ok other_call(2)] other_call_usd [OF ok other_call(2,3)] other_call bk
  show ?thesis by (simp add: backed_def in_flight_def)
qed

lemma system_reachable_backed:
  assumes "system_reachable ext y" "hex_ok ext" "lowercase_ok ext"
  shows "contract_ok ext (sy_contract y) \<and> backed y"
  using assms(1)
proof induction
  case (deployment ow op st ver)
  have "usd_held (new_contract ow op st ver) = 0" by (simp add: usd_held_def ledgers_total_def new_contract_def)
  with contract_ok_new show ?case by (simp add: started_def backed_def in_flight_def)
next
  case (step y z)
  with system_step_backed [OF assms(2,3)] show ?case by blast
qed

end
