(* ===== verification/Declared_Keys.thy ===== *)
theory Declared_Keys
  imports Projects Host_Reference
begin

text \<open>
  Keys a job's manifest declares (\<open>keystore-worker/src/signing_keys.rs\<close>, \<open>encryption_keys.rs\<close>,
  \<open>task_keys.rs\<close>): the validation of a request against its run, the string a key is derived from, and
  the task key of an owner. A declaration is read through the trait \<open>KeyDeclaration\<close>, here the record
  of functions \<open>key_declaration\<close>; the locale \<open>declared_family\<close> is its contract, interpreted for signing
  and for encryption keys. Shown: a string names one key only, across families, runs and projects; what
  is issued follows the run; the uuids and ids the execution contract mints are the ones parsed here.
\<close>

section \<open>Kinds of key\<close>

definition SIGNING_KEY_LABEL :: string where "SIGNING_KEY_LABEL = ''signing-key:v1:''"
definition ENCRYPTION_KEY_LABEL :: string where "ENCRYPTION_KEY_LABEL = ''encryption-key:v1:''"
definition TASK_KEY_LABEL :: string where "TASK_KEY_LABEL = ''task-key:v1:''"
definition MAX_SIGNING_KEYS :: nat where "MAX_SIGNING_KEYS = 3"
definition MAX_ENCRYPTION_KEYS :: nat where "MAX_ENCRYPTION_KEYS = 5"
definition MAX_KEY_PATH_LEN :: nat where "MAX_KEY_PATH_LEN = 32"
definition MAX_PROJECT_NAME_LEN :: nat where "MAX_PROJECT_NAME_LEN = 64"
definition PLACEHOLDER_CALLERS :: "string list" where "PLACEHOLDER_CALLERS = [''anonymous'']"

datatype key_family = SigningFamily | EncryptionFamily
datatype signing_key_type = KeyEd25519 | KeySecp256k1
datatype key_kind = SigningKind signing_key_type | EncryptionKind
datatype key_binding = BindProject | BindWasm
datatype caller_kind = SignerAccount | PredecessorAccount
datatype key_caller = KeyOfSigner | KeyOfPredecessor | KeyOfNobody

fun family_root :: "key_family \<Rightarrow> string" where
  "family_root SigningFamily = SIGNING_KEY_LABEL"
| "family_root EncryptionFamily = ENCRYPTION_KEY_LABEL"

fun max_keys :: "key_family \<Rightarrow> nat" where
  "max_keys SigningFamily = MAX_SIGNING_KEYS"
| "max_keys EncryptionFamily = MAX_ENCRYPTION_KEYS"

fun family_of :: "key_kind \<Rightarrow> key_family" where
  "family_of (SigningKind _) = SigningFamily"
| "family_of EncryptionKind = EncryptionFamily"

fun type_label :: "signing_key_type \<Rightarrow> string" where
  "type_label KeyEd25519 = ''ed25519''"
| "type_label KeySecp256k1 = ''secp256k1''"

fun type_segment :: "key_kind \<Rightarrow> string option" where
  "type_segment (SigningKind t) = Some (type_label t)"
| "type_segment EncryptionKind = None"

fun bind_label :: "key_binding \<Rightarrow> string" where
  "bind_label BindProject = ''project''"
| "bind_label BindWasm = ''wasm''"

fun caller_kind_label :: "caller_kind \<Rightarrow> string" where
  "caller_kind_label SignerAccount = ''signer''"
| "caller_kind_label PredecessorAccount = ''predecessor''"

fun key_caller_label :: "key_caller \<Rightarrow> string" where
  "key_caller_label KeyOfSigner = caller_kind_label SignerAccount"
| "key_caller_label KeyOfPredecessor = caller_kind_label PredecessorAccount"
| "key_caller_label KeyOfNobody = ''none''"

fun account_kind :: "key_caller \<Rightarrow> caller_kind option" where
  "account_kind KeyOfSigner = Some SignerAccount"
| "account_kind KeyOfPredecessor = Some PredecessorAccount"
| "account_kind KeyOfNobody = None"

fun caller_of_kind :: "caller_kind \<Rightarrow> key_caller" where
  "caller_of_kind SignerAccount = KeyOfSigner"
| "caller_of_kind PredecessorAccount = KeyOfPredecessor"

section \<open>Declarations\<close>

record signing_key_request =
  sr_path :: string
  sr_key_type :: signing_key_type
  sr_bind :: key_binding
  sr_caller :: key_caller
  sr_vault :: "string option"

record encryption_key_request =
  er_path :: string
  er_bind :: key_binding
  er_caller :: caller_kind
  er_vault :: "string option"

record 'd key_declaration =
  kd_family :: key_family
  kd_path :: "'d \<Rightarrow> string"
  kd_kind :: "'d \<Rightarrow> key_kind"
  kd_bind :: "'d \<Rightarrow> key_binding"
  kd_caller :: "'d \<Rightarrow> key_caller"
  kd_vault :: "'d \<Rightarrow> string option"

definition signing_declaration :: "signing_key_request key_declaration" where
  "signing_declaration =
     \<lparr>kd_family = SigningFamily, kd_path = sr_path, kd_kind = (\<lambda>d. SigningKind (sr_key_type d)),
      kd_bind = sr_bind, kd_caller = sr_caller, kd_vault = sr_vault\<rparr>"

definition encryption_declaration :: "encryption_key_request key_declaration" where
  "encryption_declaration =
     \<lparr>kd_family = EncryptionFamily, kd_path = er_path, kd_kind = (\<lambda>d. EncryptionKind),
      kd_bind = er_bind, kd_caller = (\<lambda>d. caller_of_kind (er_caller d)), kd_vault = er_vault\<rparr>"

section \<open>Fields\<close>

datatype key_refusal =
    NoKeysRequested | TooManyKeysRequested | EmptyKeyPath | LongKeyPath | KeyPathShape
  | ProjectIdForm | ProjectIdOwner | ProjectIdName | ProjectUuidShape | WasmShaShape
  | PlaceholderAccount | AccountIdInvalid | NoBuildHash | KeyOfOtherFamily | KeyPathTwice
  | ProjectKeyOnDirectRun | WasmKeyOnProjectRun | NoPredecessorId | NotOfNoCaller | VaultOnWasmKey | VaultIdInvalid
  | NoProjectUuid | UuidForDirectRun | RunDoesNotMatch | CallerAndAccountDisagree | PartEmptyOrColon
  | VaultNotUnderOwner | VaultNamesNoParent | VaultOfAnotherParent
  | TaskKeyOnDirectRun | TaskKeyWithoutRow | TaskKeyOfOtherRow

definition lower_alnum :: "char \<Rightarrow> bool" where
  "lower_alnum b \<longleftrightarrow> b \<in> set ''abcdefghijklmnopqrstuvwxyz0123456789''"

definition parse_key_path :: "string \<Rightarrow> key_refusal + string" where
  "parse_key_path raw =
     (case raw of
        [] \<Rightarrow> Inl EmptyKeyPath
      | first # _ \<Rightarrow>
          (if length raw > MAX_KEY_PATH_LEN then Inl LongKeyPath
           else if \<not> lower_alnum first \<or> \<not> list_all (\<lambda>b. lower_alnum b \<or> b = CHR ''_'' \<or> b = CHR ''-'') raw
           then Inl KeyPathShape else Inr raw))"

record project_name =
  pn_id :: string
  pn_owner :: account

definition parse_project_id :: "externals \<Rightarrow> string \<Rightarrow> key_refusal + project_name" where
  "parse_project_id ext raw =
     (case split_once CHR ''/'' raw of
        None \<Rightarrow> Inl ProjectIdForm
      | Some (owner, name) \<Rightarrow>
          (if \<not> valid_account ext owner then Inl ProjectIdOwner
           else if name \<noteq> [] \<and> length name \<le> MAX_PROJECT_NAME_LEN
              \<and> list_all (\<lambda>ch. is_alphanumeric ext ch \<or> ch = ''-'' \<or> ch = ''_'') (utf8_chars name)
           then Inr \<lparr>pn_id = raw, pn_owner = owner\<rparr> else Inl ProjectIdName))"

definition parse_project_uuid :: "string \<Rightarrow> key_refusal + string" where
  "parse_project_uuid raw =
     (if length raw = 17 \<and> starts_with ''p'' raw \<and> list_all is_lower_hex (drop 1 raw)
      then Inr raw else Inl ProjectUuidShape)"

definition parse_wasm_sha256 :: "string \<Rightarrow> key_refusal + string" where
  "parse_wasm_sha256 raw = (if length raw = 64 \<and> list_all is_lower_hex raw then Inr raw else Inl WasmShaShape)"

definition parse_account :: "externals \<Rightarrow> key_refusal \<Rightarrow> string \<Rightarrow> key_refusal + account" where
  "parse_account ext e raw = (if valid_account ext raw then Inr raw else Inl e)"

definition real_account :: "externals \<Rightarrow> string \<Rightarrow> key_refusal + account" where
  "real_account ext raw =
     (if raw \<in> set PLACEHOLDER_CALLERS then Inl PlaceholderAccount else parse_account ext AccountIdInvalid raw)"

section \<open>The derivation string\<close>

datatype binding = ToProject string | ToWasm string

record derivation_input =
  di_family :: key_family
  di_text :: string

fun binding_parts :: "binding \<Rightarrow> string list" where
  "binding_parts (ToProject uuid) = [bind_label BindProject, uuid]"
| "binding_parts (ToWasm wasm) = [bind_label BindWasm, wasm]"

definition derivation_parts :: "key_kind \<Rightarrow> binding \<Rightarrow> string list \<Rightarrow> string \<Rightarrow> string list" where
  "derivation_parts kind bound caller path =
     (case type_segment kind of None \<Rightarrow> [] | Some t \<Rightarrow> [t]) @ binding_parts bound @ caller @ [path]"

definition from_parts :: "key_kind \<Rightarrow> binding \<Rightarrow> string list \<Rightarrow> string \<Rightarrow> key_refusal + derivation_input" where
  "from_parts kind bound caller path =
     (let parts = derivation_parts kind bound caller path; family = family_of kind in
      if list_ex (\<lambda>p. p = [] \<or> CHR '':'' \<in> set p) parts then Inl PartEmptyOrColon
      else Inr \<lparr>di_family = family, di_text = family_root family @ join_colon parts\<rparr>)"

definition derivation_of_caller ::
  "key_kind \<Rightarrow> binding \<Rightarrow> caller_kind \<Rightarrow> account \<Rightarrow> string \<Rightarrow> key_refusal + derivation_input" where
  "derivation_of_caller kind bound caller account path = from_parts kind bound [caller_kind_label caller, account] path"

definition of_no_caller :: "key_kind \<Rightarrow> binding \<Rightarrow> string \<Rightarrow> key_refusal + derivation_input" where
  "of_no_caller kind bound path =
     (if kind \<noteq> SigningKind KeyEd25519 then Inl NotOfNoCaller
      else from_parts kind bound [key_caller_label KeyOfNobody] path)"

section \<open>Validation of a request\<close>

record validated_key =
  vk_path :: string
  vk_kind :: key_kind
  vk_bind :: key_binding
  vk_caller :: key_caller
  vk_account :: "account option"
  vk_vault :: "account option"

record validated_keys =
  vs_family :: key_family
  vs_project :: "project_name option"
  vs_signer :: account
  vs_predecessor :: "account option"
  vs_wasm_sha256 :: string
  vs_keys :: "validated_key list"

definition validate_binding :: "key_binding \<Rightarrow> project_name option \<Rightarrow> key_refusal option" where
  "validate_binding bind project =
     (case (bind, project) of
        (BindProject, Some _) \<Rightarrow> None
      | (BindWasm, None) \<Rightarrow> None
      | (BindProject, None) \<Rightarrow> Some ProjectKeyOnDirectRun
      | (BindWasm, Some _) \<Rightarrow> Some WasmKeyOnProjectRun)"

definition account_of_caller ::
  "key_caller \<Rightarrow> key_kind \<Rightarrow> account \<Rightarrow> account option \<Rightarrow> key_refusal + account option" where
  "account_of_caller caller kind signer_id predecessor_id =
     (case caller of
        KeyOfSigner \<Rightarrow> Inr (Some signer_id)
      | KeyOfPredecessor \<Rightarrow> (case predecessor_id of None \<Rightarrow> Inl NoPredecessorId | Some p \<Rightarrow> Inr (Some p))
      | KeyOfNobody \<Rightarrow> (if kind = SigningKind KeyEd25519 then Inr None else Inl NotOfNoCaller))"

definition validate_vault :: "externals \<Rightarrow> string option \<Rightarrow> key_binding \<Rightarrow> key_refusal + account option" where
  "validate_vault ext vault bind =
     (case (vault, bind) of
        (None, _) \<Rightarrow> Inr None
      | (Some _, BindWasm) \<Rightarrow> Inl VaultOnWasmKey
      | (Some raw, BindProject) \<Rightarrow> map_sum id Some (parse_account ext VaultIdInvalid raw))"

text \<open>One key of the loop of \<open>validate_request\<close>, after the keys \<open>out\<close>.\<close>

definition validate_key ::
  "externals \<Rightarrow> 'd key_declaration \<Rightarrow> project_name option \<Rightarrow> account \<Rightarrow> account option \<Rightarrow> validated_key list \<Rightarrow> 'd
     \<Rightarrow> key_refusal + validated_key" where
  "validate_key ext D project signer_id predecessor_id out d =
     (case parse_key_path (kd_path D d) of
        Inl e \<Rightarrow> Inl e
      | Inr path \<Rightarrow>
          if family_of (kd_kind D d) \<noteq> kd_family D then Inl KeyOfOtherFamily
          else if list_ex (\<lambda>k. vk_path k = path) out then Inl KeyPathTwice
          else case validate_binding (kd_bind D d) project of
            Some e \<Rightarrow> Inl e
          | None \<Rightarrow>
              (case account_of_caller (kd_caller D d) (kd_kind D d) signer_id predecessor_id of
                 Inl e \<Rightarrow> Inl e
               | Inr account \<Rightarrow>
                   (case validate_vault ext (kd_vault D d) (kd_bind D d) of
                      Inl e \<Rightarrow> Inl e
                    | Inr vault \<Rightarrow>
                        Inr \<lparr>vk_path = path, vk_kind = kd_kind D d, vk_bind = kd_bind D d, vk_caller = kd_caller D d,
                             vk_account = account, vk_vault = vault\<rparr>)))"

fun validate_each ::
  "externals \<Rightarrow> 'd key_declaration \<Rightarrow> project_name option \<Rightarrow> account \<Rightarrow> account option \<Rightarrow> validated_key list \<Rightarrow> 'd list
     \<Rightarrow> key_refusal + validated_key list" where
  "validate_each ext D project signer_id predecessor_id out [] = Inr out"
| "validate_each ext D project signer_id predecessor_id out (d # ds) =
     (case validate_key ext D project signer_id predecessor_id out d of
        Inl e \<Rightarrow> Inl e
      | Inr k \<Rightarrow> validate_each ext D project signer_id predecessor_id (out @ [k]) ds)"

text \<open>\<open>Option::map\<close> and \<open>transpose\<close>: nothing stays nothing, something is parsed.\<close>

definition parse_optional :: "('a \<Rightarrow> 'e + 'b) \<Rightarrow> 'a option \<Rightarrow> 'e + 'b option" where
  "parse_optional f x = (case x of None \<Rightarrow> Inr None | Some v \<Rightarrow> map_sum id Some (f v))"

definition validate_request ::
  "externals \<Rightarrow> 'd key_declaration \<Rightarrow> string option \<Rightarrow> string \<Rightarrow> string option \<Rightarrow> string option \<Rightarrow> 'd list
     \<Rightarrow> key_refusal + validated_keys" where
  "validate_request ext D project_id account_id predecessor_id executed_wasm_sha256 keys =
     (if keys = [] then Inl NoKeysRequested
      else if length keys > max_keys (kd_family D) then Inl TooManyKeysRequested
      else case parse_optional (parse_project_id ext) project_id of
        Inl e \<Rightarrow> Inl e
      | Inr project \<Rightarrow>
          (case real_account ext account_id of
             Inl e \<Rightarrow> Inl e
           | Inr signer_id \<Rightarrow>
               (case parse_optional (real_account ext) predecessor_id of
                  Inl e \<Rightarrow> Inl e
                | Inr pred_id \<Rightarrow>
                    (case executed_wasm_sha256 of
                       None \<Rightarrow> Inl NoBuildHash
                     | Some hash \<Rightarrow>
                         (case parse_wasm_sha256 hash of
                            Inl e \<Rightarrow> Inl e
                          | Inr wasm \<Rightarrow>
                              (case validate_each ext D project signer_id pred_id [] keys of
                                 Inl e \<Rightarrow> Inl e
                               | Inr out \<Rightarrow>
                                   Inr \<lparr>vs_family = kd_family D, vs_project = project, vs_signer = signer_id,
                                        vs_predecessor = pred_id, vs_wasm_sha256 = wasm, vs_keys = out\<rparr>))))))"

text \<open>The distinct values of a list, in the order they are first seen.\<close>

fun first_seen :: "'a list \<Rightarrow> 'a list \<Rightarrow> 'a list" where
  "first_seen out [] = out"
| "first_seen out (x # xs) = first_seen (if x \<in> set out then out else out @ [x]) xs"

definition vaults_named :: "validated_keys \<Rightarrow> account list" where
  "vaults_named v = first_seen [] (List.map_filter vk_vault (vs_keys v))"

section \<open>Binding the keys\<close>

record bound_project =
  bp_id :: project_name
  bp_uuid :: string

record bound_key =
  bk_path :: string
  bk_kind :: key_kind
  bk_bind :: key_binding
  bk_caller :: key_caller
  bk_account :: "account option"
  bk_vault :: "account option"
  bk_input :: derivation_input

record bound_keys =
  bs_family :: key_family
  bs_project :: "bound_project option"
  bs_signer :: account
  bs_predecessor :: "account option"
  bs_wasm_sha256 :: string
  bs_keys :: "bound_key list"

definition binding_of :: "key_binding \<Rightarrow> bound_project option \<Rightarrow> string \<Rightarrow> key_refusal + binding" where
  "binding_of bind project wasm =
     (case (bind, project) of
        (BindProject, Some p) \<Rightarrow> Inr (ToProject (bp_uuid p))
      | (BindWasm, None) \<Rightarrow> Inr (ToWasm wasm)
      | _ \<Rightarrow> Inl RunDoesNotMatch)"

definition input_of :: "validated_key \<Rightarrow> binding \<Rightarrow> key_refusal + derivation_input" where
  "input_of k bound =
     (case (account_kind (vk_caller k), vk_account k) of
        (Some caller, Some account) \<Rightarrow> derivation_of_caller (vk_kind k) bound caller account (vk_path k)
      | (None, None) \<Rightarrow> of_no_caller (vk_kind k) bound (vk_path k)
      | _ \<Rightarrow> Inl CallerAndAccountDisagree)"

definition bind_key :: "bound_project option \<Rightarrow> string \<Rightarrow> validated_key \<Rightarrow> key_refusal + bound_key" where
  "bind_key project wasm k =
     (case binding_of (vk_bind k) project wasm of
        Inl e \<Rightarrow> Inl e
      | Inr bound \<Rightarrow>
          (case input_of k bound of
             Inl e \<Rightarrow> Inl e
           | Inr input \<Rightarrow>
               Inr \<lparr>bk_path = vk_path k, bk_kind = vk_kind k, bk_bind = vk_bind k, bk_caller = vk_caller k,
                    bk_account = vk_account k, bk_vault = vk_vault k, bk_input = input\<rparr>))"

text \<open>A loop that ends at the first refusal.\<close>

fun each_or_first :: "('a \<Rightarrow> 'e + 'b) \<Rightarrow> 'a list \<Rightarrow> 'e + 'b list" where
  "each_or_first f [] = Inr []"
| "each_or_first f (x # xs) =
     (case f x of
        Inl e \<Rightarrow> Inl e
      | Inr y \<Rightarrow> map_sum id (\<lambda>ys. y # ys) (each_or_first f xs))"

definition bind_all :: "validated_keys \<Rightarrow> string option \<Rightarrow> key_refusal + bound_keys" where
  "bind_all v the_uuid =
     (case (case (vs_project v, the_uuid) of
              (Some i, Some uuid) \<Rightarrow> Inr (Some \<lparr>bp_id = i, bp_uuid = uuid\<rparr>)
            | (None, None) \<Rightarrow> Inr None
            | (Some _, None) \<Rightarrow> Inl NoProjectUuid
            | (None, Some _) \<Rightarrow> Inl UuidForDirectRun) of
        Inl e \<Rightarrow> Inl e
      | Inr project \<Rightarrow>
          (case each_or_first (bind_key project (vs_wasm_sha256 v)) (vs_keys v) of
             Inl e \<Rightarrow> Inl e
           | Inr keys \<Rightarrow>
               Inr \<lparr>bs_family = vs_family v, bs_project = project, bs_signer = vs_signer v,
                    bs_predecessor = vs_predecessor v, bs_wasm_sha256 = vs_wasm_sha256 v, bs_keys = keys\<rparr>))"

section \<open>Vaults of an owner\<close>

text \<open>\<open>AccountId::is_sub_account_of\<close> is a function of the near-primitives library: \<open>below vault owner\<close>.\<close>

definition vault_is_named_under :: "(account \<Rightarrow> account \<Rightarrow> bool) \<Rightarrow> account \<Rightarrow> account \<Rightarrow> key_refusal option" where
  "vault_is_named_under below owner vault = (if \<not> below vault owner then Some VaultNotUnderOwner else None)"

definition vault_belongs_to ::
  "(account \<Rightarrow> account \<Rightarrow> bool) \<Rightarrow> account \<Rightarrow> account \<Rightarrow> node_value \<Rightarrow> key_refusal option" where
  "vault_belongs_to below owner vault state =
     (case vault_is_named_under below owner vault of
        Some e \<Rightarrow> Some e
      | None \<Rightarrow>
          (case Option.bind (member_of ''parent'' state) as_str of
             None \<Rightarrow> Some VaultNamesNoParent
           | Some parent \<Rightarrow> (if parent \<noteq> owner then Some VaultOfAnotherParent else None)))"

section \<open>The task key of an owner\<close>

record task_key_run =
  kr_project :: project_name
  kr_wasm_sha256 :: string
  kr_owner :: account

definition validate_task_request ::
  "externals \<Rightarrow> string option \<Rightarrow> string option \<Rightarrow> string option \<Rightarrow> string option \<Rightarrow> key_refusal + task_key_run" where
  "validate_task_request ext project_id executed_wasm_sha256 row_project row_owner =
     (case project_id of
        None \<Rightarrow> Inl TaskKeyOnDirectRun
      | Some raw \<Rightarrow>
          (case parse_project_id ext raw of
             Inl e \<Rightarrow> Inl e
           | Inr project \<Rightarrow>
               (case executed_wasm_sha256 of
                  None \<Rightarrow> Inl NoBuildHash
                | Some hash \<Rightarrow>
                    (case parse_wasm_sha256 hash of
                       Inl e \<Rightarrow> Inl e
                     | Inr wasm \<Rightarrow>
                         (case (row_project, row_owner) of
                            (Some rp, Some ro) \<Rightarrow>
                              (if rp \<noteq> pn_id project then Inl TaskKeyOfOtherRow
                               else map_sum id (\<lambda>owner. \<lparr>kr_project = project, kr_wasm_sha256 = wasm, kr_owner = owner\<rparr>)
                                      (real_account ext ro))
                          | _ \<Rightarrow> Inl TaskKeyWithoutRow)))))"

definition real_callers :: "externals \<Rightarrow> string \<Rightarrow> string option \<Rightarrow> key_refusal option" where
  "real_callers ext user_account_id predecessor_id =
     (case real_account ext user_account_id of
        Inl e \<Rightarrow> Some e
      | Inr _ \<Rightarrow>
          (case predecessor_id of
             None \<Rightarrow> None
           | Some raw \<Rightarrow> (case real_account ext raw of Inl e \<Rightarrow> Some e | Inr _ \<Rightarrow> None)))"

definition task_key_input :: "string \<Rightarrow> account \<Rightarrow> string" where
  "task_key_input uuid owner = TASK_KEY_LABEL @ uuid @ '':'' @ owner"

section \<open>A string names one key\<close>

named_theorems label_simps "the fixed segments of a derivation string"

lemmas [label_simps] = SIGNING_KEY_LABEL_def ENCRYPTION_KEY_LABEL_def TASK_KEY_LABEL_def

lemma family_root_inject: "family_root f @ x = family_root g @ y \<longleftrightarrow> f = g \<and> x = y"
  by (cases f; cases g) (auto simp: label_simps)

lemma type_label_inject [simp]: "type_label s = type_label t \<longleftrightarrow> s = t"
  by (cases s; cases t) auto

lemma caller_kind_label_inject [simp]: "caller_kind_label s = caller_kind_label t \<longleftrightarrow> s = t"
  by (cases s; cases t) auto

lemma binding_parts_inject: "binding_parts b @ xs = binding_parts c @ ys \<longleftrightarrow> b = c \<and> xs = ys"
  by (cases b; cases c) auto

lemma derivation_parts_inject:
  assumes "family_of k = family_of k'" "derivation_parts k b c p = derivation_parts k' b' c' p'"
  shows "k = k' \<and> b = b' \<and> c = c' \<and> p = p'"
  using assms by (cases k; cases k') (auto simp: derivation_parts_def binding_parts_inject)

lemma from_parts_Inr:
  "from_parts k b c p = Inr d \<longleftrightarrow>
     (\<forall>q \<in> set (derivation_parts k b c p). q \<noteq> [] \<and> CHR '':'' \<notin> set q) \<and>
     d = \<lparr>di_family = family_of k, di_text = family_root (family_of k) @ join_colon (derivation_parts k b c p)\<rparr>"
  by (auto simp: from_parts_def Let_def list_ex_iff)

lemma from_parts_inject:
  assumes "from_parts k b c p = Inr d" "from_parts k' b' c' p' = Inr d'" "di_text d = di_text d'"
  shows "k = k' \<and> b = b' \<and> c = c' \<and> p = p'"
proof -
  have "family_of k = family_of k'" "join_colon (derivation_parts k b c p) = join_colon (derivation_parts k' b' c' p')"
    using assms by (simp_all add: from_parts_Inr family_root_inject)
  moreover from this have "derivation_parts k b c p = derivation_parts k' b' c' p'"
    using assms by (intro join_colon_inject) (auto simp: from_parts_Inr derivation_parts_def)
  ultimately show ?thesis by (intro derivation_parts_inject)
qed

text \<open>The caller's part of the string.\<close>

definition caller_parts :: "key_caller \<Rightarrow> account option \<Rightarrow> string list" where
  "caller_parts caller account =
     (case account_kind caller of None \<Rightarrow> [''none''] | Some c \<Rightarrow> [caller_kind_label c, the account])"

lemma input_of_Inr:
  assumes "input_of k b = Inr d"
  shows "from_parts (vk_kind k) b (caller_parts (vk_caller k) (vk_account k)) (vk_path k) = Inr d"
    and "account_kind (vk_caller k) = None \<longleftrightarrow> vk_account k = None"
    and "vk_caller k = KeyOfNobody \<longrightarrow> vk_kind k = SigningKind KeyEd25519"
  using assms
  by (cases "vk_caller k"; auto simp: input_of_def derivation_of_caller_def of_no_caller_def caller_parts_def
      split: option.splits if_splits)+

lemma caller_parts_inject:
  assumes "caller_parts c a = caller_parts c' a'" "account_kind c = None \<longleftrightarrow> a = None" "account_kind c' = None \<longleftrightarrow> a' = None"
  shows "c = c' \<and> a = a'"
  using assms by (cases c; cases c'; cases a; cases a') (auto simp: caller_parts_def)

lemma bind_key_Inr:
  assumes "bind_key pr w k = Inr b"
  obtains bound where "binding_of (vk_bind k) pr w = Inr bound" "input_of k bound = Inr (bk_input b)"
    "bk_path b = vk_path k" "bk_kind b = vk_kind k" "bk_bind b = vk_bind k" "bk_caller b = vk_caller k"
    "bk_account b = vk_account k" "bk_vault b = vk_vault k"
  using assms by (auto simp: bind_key_def split: sum.splits)

lemma binding_of_Inr:
  "binding_of bind pr w = Inr bound \<longleftrightarrow>
     (\<exists>p. bind = BindProject \<and> pr = Some p \<and> bound = ToProject (bp_uuid p)) \<or>
     bind = BindWasm \<and> pr = None \<and> bound = ToWasm w"
  by (auto simp: binding_of_def split: key_binding.splits option.splits)

lemma bind_key_inject:
  assumes "bind_key pr w k = Inr b" "bind_key pr' w' k' = Inr b'" "di_text (bk_input b) = di_text (bk_input b')"
  shows "bk_kind b = bk_kind b' \<and> bk_bind b = bk_bind b' \<and> bk_caller b = bk_caller b' \<and> bk_account b = bk_account b' \<and>
    bk_path b = bk_path b' \<and> binding_of (bk_bind b) pr w = binding_of (bk_bind b') pr' w'"
  using assms(1)
proof (cases rule: bind_key_Inr)
  case (1 bound)
  from assms(2) show ?thesis
  proof (cases rule: bind_key_Inr)
    case two: (1 bound')
    note i = input_of_Inr [OF 1(2)] and i' = input_of_Inr [OF two(2)]
    from from_parts_inject [OF i(1) i'(1) assms(3)] caller_parts_inject [OF _ i(2) i'(2)]
    have "bound = bound'" "vk_kind k = vk_kind k'" "vk_path k = vk_path k'"
      "vk_caller k = vk_caller k' \<and> vk_account k = vk_account k'" by auto
    moreover from this(1) 1(1) two(1) have "vk_bind k = vk_bind k'" by (auto simp: binding_of_Inr)
    ultimately show ?thesis using 1 two by simp
  qed
qed

lemma each_or_first_Inr: "each_or_first f xs = Inr ys \<longleftrightarrow> list_all2 (\<lambda>x y. f x = Inr y) xs ys"
proof (induction xs arbitrary: ys)
  case (Cons x xs)
  show ?case
    using Cons.IH [of "tl ys"] by (cases ys; cases "f x"; cases "each_or_first f xs") auto
qed auto

definition project_bound :: "validated_keys \<Rightarrow> string option \<Rightarrow> bound_project option" where
  "project_bound v u =
     (case (vs_project v, u) of (Some i, Some uuid) \<Rightarrow> Some \<lparr>bp_id = i, bp_uuid = uuid\<rparr> | _ \<Rightarrow> None)"

lemma bind_all_Inr:
  assumes "bind_all v u = Inr b"
  shows "list_all2 (\<lambda>k y. bind_key (project_bound v u) (vs_wasm_sha256 v) k = Inr y) (vs_keys v) (bs_keys b)"
    and "vs_project v = None \<longleftrightarrow> u = None"
    and "bs_family b = vs_family v" "bs_project b = project_bound v u" "bs_signer b = vs_signer v"
    "bs_predecessor b = vs_predecessor v" "bs_wasm_sha256 b = vs_wasm_sha256 v"
  using assms
  by (auto simp: bind_all_def project_bound_def each_or_first_Inr split: option.splits sum.splits)

lemma bound_key_from:
  assumes "bind_all v u = Inr b" "y \<in> set (bs_keys b)"
  obtains k where "k \<in> set (vs_keys v)" "bind_key (project_bound v u) (vs_wasm_sha256 v) k = Inr y"
  using bind_all_Inr(1) [OF assms(1)] assms(2) by (auto simp: list_all2_conv_all_nth in_set_conv_nth) metis

section \<open>What is issued follows the run\<close>

lemma parse_optional_Inr:
  "parse_optional f x = Inr y \<longleftrightarrow> (x = None \<and> y = None) \<or> (\<exists>v w. x = Some v \<and> f v = Inr w \<and> y = Some w)"
  by (cases x; cases "f (the x)") (auto simp: parse_optional_def)

lemma real_account_Inr: "real_account ext raw = Inr a \<longleftrightarrow> raw \<noteq> ''anonymous'' \<and> valid_account ext raw \<and> a = raw"
  by (auto simp: real_account_def PLACEHOLDER_CALLERS_def parse_account_def)

lemma parse_key_path_Inr:
  "parse_key_path raw = Inr p \<longleftrightarrow>
     p = raw \<and> raw \<noteq> [] \<and> length raw \<le> 32 \<and> lower_alnum (hd raw) \<and>
     list_all (\<lambda>b. lower_alnum b \<or> b = CHR ''_'' \<or> b = CHR ''-'') raw"
  by (auto simp: parse_key_path_def MAX_KEY_PATH_LEN_def split: list.splits)

text \<open>Whether a key may be declared for a run, and the key it then is, field by field.\<close>

definition account_named :: "key_caller \<Rightarrow> account \<Rightarrow> account option \<Rightarrow> account option" where
  "account_named caller signer_id pred_id =
     (case caller of KeyOfSigner \<Rightarrow> Some signer_id | KeyOfPredecessor \<Rightarrow> pred_id | KeyOfNobody \<Rightarrow> None)"

definition may_declare ::
  "externals \<Rightarrow> 'd key_declaration \<Rightarrow> bool \<Rightarrow> account option \<Rightarrow> 'd \<Rightarrow> bool" where
  "may_declare ext D project_run pred_id d \<longleftrightarrow>
     parse_key_path (kd_path D d) = Inr (kd_path D d) \<and> family_of (kd_kind D d) = kd_family D \<and>
     (kd_bind D d = BindProject \<longleftrightarrow> project_run) \<and>
     (kd_caller D d = KeyOfPredecessor \<longrightarrow> pred_id \<noteq> None) \<and>
     (kd_caller D d = KeyOfNobody \<longrightarrow> kd_kind D d = SigningKind KeyEd25519) \<and>
     (\<forall>vault. kd_vault D d = Some vault \<longrightarrow> project_run \<and> valid_account ext vault)"

definition key_declared :: "'d key_declaration \<Rightarrow> account \<Rightarrow> account option \<Rightarrow> 'd \<Rightarrow> validated_key" where
  "key_declared D signer_id pred_id d =
     \<lparr>vk_path = kd_path D d, vk_kind = kd_kind D d, vk_bind = kd_bind D d, vk_caller = kd_caller D d,
      vk_account = account_named (kd_caller D d) signer_id pred_id, vk_vault = kd_vault D d\<rparr>"

lemma validate_key_Inr:
  "validate_key ext D project signer_id pred_id out d = Inr k \<longleftrightarrow>
     may_declare ext D (project \<noteq> None) pred_id d \<and> kd_path D d \<notin> vk_path ` set out \<and> k = key_declared D signer_id pred_id d"
proof (cases "parse_key_path (kd_path D d)")
  case (Inl e)
  then show ?thesis by (simp add: validate_key_def may_declare_def)
next
  case (Inr path)
  then have path: "path = kd_path D d" by (simp add: parse_key_path_Inr)
  have twice: "list_ex (\<lambda>k. vk_path k = kd_path D d) out \<longleftrightarrow> kd_path D d \<in> vk_path ` set out"
    by (simp add: list_ex_iff image_iff eq_commute [of "vk_path _"])
  show ?thesis
    using Inr path twice
    by (cases "kd_caller D d"; cases "kd_bind D d"; cases "kd_vault D d"; cases project; cases pred_id)
      (auto simp: validate_key_def may_declare_def key_declared_def account_named_def account_of_caller_def
        validate_binding_def validate_vault_def parse_account_def simp del: list_ex_iff)
qed

lemma validate_each_Inr:
  "validate_each ext D project signer_id pred_id out ds = Inr ks \<longleftrightarrow>
     list_all (may_declare ext D (project \<noteq> None) pred_id) ds \<and> distinct (map (kd_path D) ds) \<and>
     kd_path D ` set ds \<inter> vk_path ` set out = {} \<and> ks = out @ map (key_declared D signer_id pred_id) ds"
proof (induction ds arbitrary: out)
  case Nil
  then show ?case by auto
next
  case (Cons d ds)
  show ?case
  proof (cases "validate_key ext D project signer_id pred_id out d")
    case (Inl e)
    then show ?thesis using validate_key_Inr [of ext D project signer_id pred_id out d] by auto
  next
    case (Inr k)
    then have k: "may_declare ext D (project \<noteq> None) pred_id d" "kd_path D d \<notin> vk_path ` set out"
      "k = key_declared D signer_id pred_id d" by (simp_all add: validate_key_Inr)
    then show ?thesis using Inr Cons.IH [of "out @ [k]"] by (auto simp: key_declared_def)
  qed
qed

lemma validate_request_Inr:
  "validate_request ext D pid acc pred wasm ds = Inr v \<longleftrightarrow>
     ds \<noteq> [] \<and> length ds \<le> max_keys (kd_family D) \<and>
     parse_optional (parse_project_id ext) pid = Inr (vs_project v) \<and>
     real_account ext acc = Inr (vs_signer v) \<and> parse_optional (real_account ext) pred = Inr (vs_predecessor v) \<and>
     wasm = Some (vs_wasm_sha256 v) \<and> parse_wasm_sha256 (vs_wasm_sha256 v) = Inr (vs_wasm_sha256 v) \<and>
     list_all (may_declare ext D (pid \<noteq> None) pred) ds \<and> distinct (map (kd_path D) ds) \<and>
     vs_keys v = map (key_declared D acc pred) ds \<and> vs_family v = kd_family D"
proof -
  have wasm: "parse_wasm_sha256 h = Inr w \<Longrightarrow> w = h" for h w by (simp add: parse_wasm_sha256_def split: if_splits)
  have pred: "parse_optional (real_account ext) pred = Inr p \<Longrightarrow> p = pred" for p
    by (auto simp: parse_optional_Inr real_account_Inr)
  have proj: "parse_optional (parse_project_id ext) pid = Inr p \<Longrightarrow> (p \<noteq> None) = (pid \<noteq> None)" for p
    by (auto simp: parse_optional_Inr)
  have acc: "real_account ext acc = Inr a \<Longrightarrow> a = acc" for a by (simp add: real_account_Inr)
  consider e where "parse_optional (parse_project_id ext) pid = Inl e" | e where "real_account ext acc = Inl e"
    | e where "parse_optional (real_account ext) pred = Inl e" | "wasm = None"
    | h e where "wasm = Some h" "parse_wasm_sha256 h = Inl e"
    | project h where "parse_optional (parse_project_id ext) pid = Inr project" "real_account ext acc = Inr acc"
      "parse_optional (real_account ext) pred = Inr pred" "wasm = Some h" "parse_wasm_sha256 h = Inr h"
    using wasm pred acc by (metis not_None_eq sum.exhaust)
  then show ?thesis
  proof cases
    case 6
    have each: "validate_each ext D project acc pred [] ds = Inr ks \<longleftrightarrow>
        list_all (may_declare ext D (pid \<noteq> None) pred) ds \<and> distinct (map (kd_path D) ds) \<and> ks = map (key_declared D acc pred) ds" for ks
      using proj [OF 6(1)] by (auto simp: validate_each_Inr)
    show ?thesis
      using 6 each by (cases v; cases "validate_each ext D project acc pred [] ds") (auto simp: validate_request_def)
  qed (auto simp: validate_request_def split: sum.splits)
qed

text \<open>The string a declared key gets, written from the declaration and the run.\<close>

definition issued_text ::
  "'d key_declaration \<Rightarrow> string option \<Rightarrow> string \<Rightarrow> account \<Rightarrow> account option \<Rightarrow> 'd \<Rightarrow> string" where
  "issued_text D uuid wasm signer_id pred_id d =
     family_root (kd_family D) @ join_colon
       ((case type_segment (kd_kind D d) of None \<Rightarrow> [] | Some t \<Rightarrow> [t]) @
        (case uuid of Some u \<Rightarrow> [''project'', u] | None \<Rightarrow> [''wasm'', wasm]) @
        caller_parts (kd_caller D d) (account_named (kd_caller D d) signer_id pred_id) @ [kd_path D d])"

text \<open>Account ids are not empty and hold no colon, as NEAR defines them.\<close>

definition accounts_plain :: "externals \<Rightarrow> bool" where
  "accounts_plain ext \<longleftrightarrow> (\<forall>a. valid_account ext a \<longrightarrow> a \<noteq> [] \<and> CHR '':'' \<notin> set a)"

abbreviation plain :: "string \<Rightarrow> bool" where "plain p \<equiv> p \<noteq> [] \<and> CHR '':'' \<notin> set p"

lemma plain_fields:
  "parse_key_path raw = Inr p \<Longrightarrow> plain p"
  "parse_project_uuid raw = Inr u \<Longrightarrow> plain u"
  "parse_wasm_sha256 raw = Inr w \<Longrightarrow> plain w"
proof -
  have alnum: "\<not> lower_alnum CHR '':''" and hex: "\<not> is_lower_hex CHR '':''" by (simp_all add: lower_alnum_def is_lower_hex_def)
  show "plain p" if "parse_key_path raw = Inr p"
    using that alnum by (auto simp: parse_key_path_Inr list_all_iff)
  show "plain w" if "parse_wasm_sha256 raw = Inr w"
    using that hex by (auto simp: parse_wasm_sha256_def list_all_iff split: if_splits)
  show "plain u" if "parse_project_uuid raw = Inr u"
  proof (cases raw)
    case (Cons c cs)
    with that have "u = c # cs" "c = CHR ''p''" "list_all is_lower_hex cs"
      by (simp_all add: parse_project_uuid_def starts_with_def split: if_splits)
    then show ?thesis using hex by (auto simp: list_all_iff)
  qed (use that in \<open>simp add: parse_project_uuid_def split: if_splits\<close>)
qed

lemma type_label_plain [simp]: "plain (type_label t)"
  by (cases t) auto

locale declared_family =
  fixes D :: "'d key_declaration"
  assumes kind_family: "family_of (kd_kind D d) = kd_family D"
    and encryption_has_a_caller: "kd_family D = EncryptionFamily \<Longrightarrow> kd_caller D d \<noteq> KeyOfNobody"
begin

lemma input_of_declared:
  assumes "may_declare ext D project_run pred d" "real_account ext acc = Inr acc"
    and "parse_optional (real_account ext) pred = Inr pred" "accounts_plain ext" "\<forall>p \<in> set (binding_parts bound). plain p"
  shows "input_of (key_declared D acc pred d) bound =
    Inr \<lparr>di_family = kd_family D, di_text = family_root (kd_family D) @ join_colon
      (derivation_parts (kd_kind D d) bound (caller_parts (kd_caller D d) (account_named (kd_caller D d) acc pred)) (kd_path D d))\<rparr>"
proof -
  have accounts: "plain acc" "pred = Some q \<Longrightarrow> plain q" for q
    using assms(2-4) by (auto simp: real_account_Inr parse_optional_Inr accounts_plain_def)
  have caller: "\<forall>p \<in> set (caller_parts (kd_caller D d) (account_named (kd_caller D d) acc pred)). plain p"
    using assms(1) accounts by (cases "kd_caller D d") (auto simp: caller_parts_def account_named_def may_declare_def)
  have "plain (kd_path D d)" using assms(1) by (intro plain_fields(1) [of "kd_path D d"]) (simp add: may_declare_def)
  then have parts: "\<forall>p \<in> set (derivation_parts (kd_kind D d) bound
      (caller_parts (kd_caller D d) (account_named (kd_caller D d) acc pred)) (kd_path D d)). plain p"
    using caller assms(5) by (cases "kd_kind D d") (auto simp: derivation_parts_def type_label_plain)
  then have "from_parts (kd_kind D d) bound (caller_parts (kd_caller D d) (account_named (kd_caller D d) acc pred)) (kd_path D d) =
      Inr \<lparr>di_family = kd_family D, di_text = family_root (kd_family D) @ join_colon
      (derivation_parts (kd_kind D d) bound (caller_parts (kd_caller D d) (account_named (kd_caller D d) acc pred)) (kd_path D d))\<rparr>"
    by (simp add: from_parts_Inr kind_family)
  then show ?thesis
    using assms(1) by (cases "kd_caller D d")
      (auto simp: input_of_def key_declared_def account_named_def derivation_of_caller_def of_no_caller_def
        caller_parts_def may_declare_def)
qed

lemma declared_keys_bind:
  assumes "validate_request ext D pid acc pred (Some wasm) ds = Inr v" "accounts_plain ext"
    and "u = None \<longleftrightarrow> pid = None" "u \<noteq> None \<longrightarrow> parse_project_uuid (the u) = Inr (the u)"
  shows "\<exists>b. bind_all v u = Inr b \<and> map (\<lambda>k. di_text (bk_input k)) (bs_keys b) = map (issued_text D u wasm acc pred) ds \<and>
    map bk_vault (bs_keys b) = map (kd_vault D) ds \<and> map bk_path (bs_keys b) = map (kd_path D) ds \<and>
    bs_family b = kd_family D"
proof -
  have v: "real_account ext acc = Inr acc" "parse_optional (real_account ext) pred = Inr pred"
      "parse_wasm_sha256 wasm = Inr wasm" "vs_wasm_sha256 v = wasm"
      "list_all (may_declare ext D (pid \<noteq> None) pred) ds" "vs_keys v = map (key_declared D acc pred) ds"
      "vs_family v = kd_family D" "vs_project v = None \<longleftrightarrow> pid = None"
    using assms(1) by (auto simp: validate_request_Inr real_account_Inr parse_optional_Inr)
  define bound where "bound = (case u of Some uuid \<Rightarrow> ToProject uuid | None \<Rightarrow> ToWasm wasm)"
  have plain_bound: "\<forall>p \<in> set (binding_parts bound). plain p"
    using plain_fields(3) [OF v(3)] plain_fields(2) [of "the u" "the u"] assms(4)
    by (cases u) (simp_all add: bound_def)
  define bk where "bk d = \<lparr>bk_path = kd_path D d, bk_kind = kd_kind D d, bk_bind = kd_bind D d, bk_caller = kd_caller D d,
      bk_account = account_named (kd_caller D d) acc pred, bk_vault = kd_vault D d,
      bk_input = \<lparr>di_family = kd_family D, di_text = issued_text D u wasm acc pred d\<rparr>\<rparr>" for d
  have bind: "bind_key (project_bound v u) wasm (key_declared D acc pred d) = Inr (bk d)" if "d \<in> set ds" for d
  proof -
    have d: "may_declare ext D (pid \<noteq> None) pred d" using v(5) that by (simp add: list_all_iff)
    have "binding_of (kd_bind D d) (project_bound v u) wasm = Inr bound"
      using d assms(3) v(8) by (cases "kd_bind D d") (auto simp: binding_of_Inr may_declare_def bound_def project_bound_def split: option.splits)
    moreover have "binding_parts bound = (case u of Some u \<Rightarrow> [''project'', u] | None \<Rightarrow> [''wasm'', wasm])"
      by (simp add: bound_def split: option.splits)
    ultimately show ?thesis
      using input_of_declared [OF d v(1,2) assms(2) plain_bound]
      by (simp add: bind_key_def key_declared_def bk_def issued_text_def derivation_parts_def)
  qed
  then have each: "each_or_first (bind_key (project_bound v u) wasm) (vs_keys v) = Inr (map bk ds)"
    by (simp add: v(6) each_or_first_Inr list_all2_map1 list_all2_map2 list.rel_refl_strong list_all2_same)
  have "bind_all v u = Inr \<lparr>bs_family = vs_family v, bs_project = project_bound v u, bs_signer = vs_signer v,
      bs_predecessor = vs_predecessor v, bs_wasm_sha256 = wasm, bs_keys = map bk ds\<rparr>"
    using each assms(3) v(4,8) by (auto simp: bind_all_def project_bound_def split: option.splits)
  then show ?thesis by (simp add: bk_def v(7) o_def)
qed

end

interpretation signing: declared_family signing_declaration
  by unfold_locales (simp_all add: signing_declaration_def)

interpretation encryption: declared_family encryption_declaration
  by unfold_locales (simp_all add: encryption_declaration_def, metis caller_of_kind.elims key_caller.distinct)

section \<open>Projects of the execution contract\<close>

lemma hex_digit_lower: "is_lower_hex (''0123456789abcdef'' ! (n mod 16))"
  unfolding is_lower_hex_def by (rule nth_mem) simp

lemma hex_fixed_lower: "list_all is_lower_hex (hex_fixed w n)"
  by (induction w n rule: hex_fixed.induct) (simp_all add: hex_digit_lower)

lemma minted_uuid_parses: "parse_project_uuid (project_uuid_of n) = Inr (project_uuid_of n)"
  by (simp add: parse_project_uuid_def project_uuid_of_def starts_with_def hex_fixed_lower)

lemma created_uuid:
  assumes "create_project cx name src s = Inr (t, es)" "projects t (project_id_of (predecessor cx) name) = Some pj"
  shows "pj_uuid pj = project_uuid_of (next_project_id s + 1)" "next_project_id s + 1 < 2 ^ 64"
  using assms by (auto simp: create_project_def run_simps Let_def insert_project_def)

lemma other_uuid_other_text:
  assumes "bind_all v (Some u) = Inr b" "bind_all v' (Some u') = Inr b'" "u \<noteq> u'"
    and "k \<in> set (bs_keys b)" "k' \<in> set (bs_keys b')"
  shows "di_text (bk_input k) \<noteq> di_text (bk_input k')"
proof
  assume same: "di_text (bk_input k) = di_text (bk_input k')"
  obtain x where x: "bind_key (project_bound v (Some u)) (vs_wasm_sha256 v) x = Inr k"
    using bound_key_from [OF assms(1,4)] by blast
  obtain y where y: "bind_key (project_bound v' (Some u')) (vs_wasm_sha256 v') y = Inr k'"
    using bound_key_from [OF assms(2,5)] by blast
  obtain p where "binding_of (bk_bind k) (project_bound v (Some u)) (vs_wasm_sha256 v) = Inr p"
    using bind_key_Inr [OF x] by metis
  moreover have "project_bound v (Some u) \<noteq> None" "project_bound v' (Some u') \<noteq> None"
    using bind_all_Inr(2) [OF assms(1)] bind_all_Inr(2) [OF assms(2)] by (auto simp: project_bound_def split: option.splits)
  ultimately show False
    using bind_key_inject [OF x y same] assms(3)
    by (cases "bk_bind k'") (auto simp: binding_of_def project_bound_def split: option.splits)
qed

section \<open>A sample run\<close>

definition key_externals :: externals where
  "key_externals = reference_externals\<lparr>valid_account := (\<lambda>a. a \<noteq> [] \<and> CHR '':'' \<notin> set a)\<rparr>"

lemma key_externals_plain: "accounts_plain key_externals"
  by (simp add: accounts_plain_def key_externals_def)

definition sample_build :: string where "sample_build = replicate 64 CHR ''a''"
definition sample_uuid :: string where "sample_uuid = project_uuid_of 1"

lemma sample_build_parses: "parse_wasm_sha256 sample_build = Inr sample_build"
  by (simp add: parse_wasm_sha256_def sample_build_def list_all_iff is_lower_hex_def)

text \<open>A direct run of anyone, with one key of no caller.\<close>

definition nobody_run :: "account \<Rightarrow> validated_keys" where
  "nobody_run who =
     \<lparr>vs_family = SigningFamily, vs_project = None, vs_signer = who, vs_predecessor = None, vs_wasm_sha256 = sample_build,
      vs_keys = [\<lparr>vk_path = ''k'', vk_kind = SigningKind KeyEd25519, vk_bind = BindWasm, vk_caller = KeyOfNobody,
                  vk_account = None, vk_vault = None\<rparr>]\<rparr>"

definition nobody_key :: bound_key where
  "nobody_key =
     \<lparr>bk_path = ''k'', bk_kind = SigningKind KeyEd25519, bk_bind = BindWasm, bk_caller = KeyOfNobody, bk_account = None,
      bk_vault = None, bk_input = \<lparr>di_family = SigningFamily,
        di_text = ''signing-key:v1:ed25519:wasm:'' @ sample_build @ '':none:k''\<rparr>\<rparr>"

lemma nobody_bound: "\<exists>b. bind_all (nobody_run who) None = Inr b \<and> bs_keys b = [nobody_key]"
  by (simp add: nobody_run_def nobody_key_def bind_all_def bind_key_def binding_of_def input_of_def of_no_caller_def
      from_parts_def derivation_parts_def label_simps sample_build_def eval_nat_numeral)

text \<open>A run through a project, of one account, with a key of its signer.\<close>

definition project_run :: "account \<Rightarrow> validated_keys" where
  "project_run who =
     \<lparr>vs_family = SigningFamily, vs_project = Some \<lparr>pn_id = ''a/x'', pn_owner = ''a''\<rparr>, vs_signer = who,
      vs_predecessor = None, vs_wasm_sha256 = sample_build,
      vs_keys = [key_declared signing_declaration who None
        \<lparr>sr_path = ''k'', sr_key_type = KeyEd25519, sr_bind = BindProject, sr_caller = KeyOfSigner, sr_vault = None\<rparr>]\<rparr>"

lemma project_run_bound:
  "\<exists>b. bind_all (project_run ''b'') (Some (project_uuid_of n)) = Inr b \<and>
     map (\<lambda>k. di_text (bk_input k)) (bs_keys b) = [''signing-key:v1:ed25519:project:'' @ project_uuid_of n @ '':signer:b:k'']"
  using plain_fields(2) [OF minted_uuid_parses, of n]
  by (auto simp: project_run_def key_declared_def signing_declaration_def account_named_def bind_all_def bind_key_def
      binding_of_def input_of_def derivation_of_caller_def from_parts_def derivation_parts_def label_simps)

section \<open>Properties\<close>

text \<open>
  C13. A derivation string names one key. Whatever two requests are bound, of either family, by anyone and
  for any run, two keys with the same string are of the same kind and type, belong to the same project
  uuid or the same build, to the same caller role and account, and stand at the same path.\<close>

theorem derivation_names_one_key:
  assumes "bind_all v u = Inr b" "bind_all v' u' = Inr b'" "k \<in> set (bs_keys b)" "k' \<in> set (bs_keys b')"
    and "di_text (bk_input k) = di_text (bk_input k')"
  shows "bk_kind k = bk_kind k' \<and> bk_caller k = bk_caller k' \<and> bk_account k = bk_account k' \<and> bk_path k = bk_path k' \<and>
    bk_bind k = bk_bind k' \<and> (case bk_bind k of BindProject \<Rightarrow> u = u' | BindWasm \<Rightarrow> vs_wasm_sha256 v = vs_wasm_sha256 v')"
proof -
  obtain x where x: "bind_key (project_bound v u) (vs_wasm_sha256 v) x = Inr k" using bound_key_from [OF assms(1,3)] by blast
  obtain y where y: "bind_key (project_bound v' u') (vs_wasm_sha256 v') y = Inr k'" using bound_key_from [OF assms(2,4)] by blast
  obtain p where "binding_of (bk_bind k) (project_bound v u) (vs_wasm_sha256 v) = Inr p"
    using bind_key_Inr [OF x] by metis
  with bind_key_inject [OF x y assms(5)] show ?thesis
    by (cases "bk_bind k") (auto simp: binding_of_def project_bound_def split: option.splits)
qed

theorem derivation_names_one_key_witness:
  "\<exists>b b'. bind_all (nobody_run ''a'') None = Inr b \<and> bind_all (nobody_run ''b'') None = Inr b' \<and>
     bs_signer b \<noteq> bs_signer b' \<and> bk_path (hd (bs_keys b)) = bk_path (hd (bs_keys b'))"
proof -
  obtain b b' where b: "bind_all (nobody_run ''a'') None = Inr b" "bs_keys b = [nobody_key]"
    "bind_all (nobody_run ''b'') None = Inr b'" "bs_keys b' = [nobody_key]" using nobody_bound by metis
  then have "bk_path (hd (bs_keys b)) = bk_path (hd (bs_keys b'))"
    using derivation_names_one_key [OF b(1,3), of "hd (bs_keys b)" "hd (bs_keys b')"] by simp
  moreover have "bs_signer b = ''a''" "bs_signer b' = ''b''"
    using bind_all_Inr(5) [OF b(1)] bind_all_Inr(5) [OF b(3)] by (simp_all add: nobody_run_def)
  ultimately show ?thesis using b by auto
qed

text \<open>
  A request that passed the validation is issued exactly what its run says. Its keys always bind, in
  the order they were declared; a project run's strings carry the uuid of the project and a direct run's
  the hash of the build, with the account of the role each key names; a vault is the one declared. This
  holds for signing keys and for encryption keys.\<close>

theorem declared_keys_issued:
  assumes "accounts_plain ext" "u = None \<longleftrightarrow> pid = None" "u \<noteq> None \<longrightarrow> parse_project_uuid (the u) = Inr (the u)"
  shows "(validate_request ext signing_declaration pid acc pred (Some wasm) ss = Inr v \<longrightarrow>
      (\<exists>b. bind_all v u = Inr b \<and> map (\<lambda>k. di_text (bk_input k)) (bs_keys b) = map (issued_text signing_declaration u wasm acc pred) ss \<and>
         map bk_vault (bs_keys b) = map sr_vault ss \<and> length ss \<le> 3)) \<and>
    (validate_request ext encryption_declaration pid acc pred (Some wasm) es = Inr w \<longrightarrow>
      (\<exists>b. bind_all w u = Inr b \<and> map (\<lambda>k. di_text (bk_input k)) (bs_keys b) = map (issued_text encryption_declaration u wasm acc pred) es \<and>
         map bk_vault (bs_keys b) = map er_vault es \<and> length es \<le> 5))"
proof -
  have "length ss \<le> 3" if "validate_request ext signing_declaration pid acc pred (Some wasm) ss = Inr v"
    using that by (simp add: validate_request_Inr) (simp add: signing_declaration_def MAX_SIGNING_KEYS_def)
  moreover have "length es \<le> 5" if "validate_request ext encryption_declaration pid acc pred (Some wasm) es = Inr w"
    using that by (simp add: validate_request_Inr) (simp add: encryption_declaration_def MAX_ENCRYPTION_KEYS_def)
  moreover have "kd_vault signing_declaration = sr_vault" "kd_vault encryption_declaration = er_vault"
    by (simp_all add: signing_declaration_def encryption_declaration_def)
  ultimately show ?thesis
    using signing.declared_keys_bind [OF _ assms, of acc pred wasm ss v]
      encryption.declared_keys_bind [OF _ assms, of acc pred wasm es w] by fastforce
qed

theorem declared_keys_issued_witness:
  "\<exists>v b. validate_request key_externals signing_declaration (Some ''a/x'') ''b'' None (Some sample_build)
      [\<lparr>sr_path = ''k'', sr_key_type = KeyEd25519, sr_bind = BindProject, sr_caller = KeyOfSigner, sr_vault = None\<rparr>] = Inr v \<and>
     bind_all v (Some sample_uuid) = Inr b \<and>
     map (\<lambda>k. di_text (bk_input k)) (bs_keys b) = [''signing-key:v1:ed25519:project:'' @ sample_uuid @ '':signer:b:k'']"
proof -
  let ?d = "\<lparr>sr_path = ''k'', sr_key_type = KeyEd25519, sr_bind = BindProject, sr_caller = KeyOfSigner, sr_vault = None\<rparr>"
  have v: "validate_request key_externals signing_declaration (Some ''a/x'') ''b'' None (Some sample_build) [?d] = Inr (project_run ''b'')"
    by (simp add: validate_request_Inr parse_optional_def parse_project_id_def split_once_def key_externals_def
        MAX_PROJECT_NAME_LEN_def utf8_chars.simps is_alphanumeric_def is_ascii_def is_ascii_alphanumeric_def real_account_def
        PLACEHOLDER_CALLERS_def parse_account_def sample_build_parses may_declare_def parse_key_path_Inr lower_alnum_def
        project_run_def signing_declaration_def MAX_SIGNING_KEYS_def)
  have u: "parse_project_uuid sample_uuid = Inr sample_uuid" by (simp add: sample_uuid_def minted_uuid_parses)
  have spelled: "issued_text signing_declaration (Some sample_uuid) sample_build ''b'' None ?d =
      ''signing-key:v1:ed25519:project:'' @ sample_uuid @ '':signer:b:k''"
    by (simp add: issued_text_def caller_parts_def account_named_def signing_declaration_def label_simps)
  obtain b where "bind_all (project_run ''b'') (Some sample_uuid) = Inr b"
      "map (\<lambda>k. di_text (bk_input k)) (bs_keys b) = map (issued_text signing_declaration (Some sample_uuid) sample_build ''b'' None) [?d]"
    using declared_keys_issued [OF key_externals_plain, of "Some sample_uuid" "Some ''a/x''" "''b''" None sample_build "[?d]" "project_run ''b''" "[]" "project_run ''b''"] u v
    by auto
  then have "map (\<lambda>k. di_text (bk_input k)) (bs_keys b) = [''signing-key:v1:ed25519:project:'' @ sample_uuid @ '':signer:b:k'']"
    by (simp only: list.map spelled)
  with v \<open>bind_all (project_run ''b'') (Some sample_uuid) = Inr b\<close> show ?thesis
    by (intro exI [of _ "project_run ''b''"] exI [of _ b]) simp
qed

end
