(* ===== verification/Project_Life.thy ===== *)
theory Project_Life
  imports Composition Declared_Keys
begin

text \<open>
  The life of a project over the whole history of the contract. \<open>history\<close> keeps the calls that
  returned, newest first, beside the state they led to; the state of the project module is then read
  back from them: an acceptance is on file exactly while the call that gave it was not taken back or
  used, the source a project runs was put there by an account that owned the project at that moment,
  and a uuid is never handed out twice, so the keys of one project are never those of another.
\<close>

section \<open>Histories\<close>

type_synonym recorded_call = "contract_op \<times> ctx"

inductive history :: "externals \<Rightarrow> contract \<Rightarrow> recorded_call list \<Rightarrow> contract \<Rightarrow> bool" for ext s where
  history_start: "history ext s [] s"
| history_call: "history ext s h t \<Longrightarrow> run_op ext op cx t = Inr (u, es) \<Longrightarrow> history ext s ((op, cx) # h) u"

inductive_cases history_ConsE: "history ext s (c # h) u"

lemma history_runs: "history ext s h t \<Longrightarrow> runs ext s t"
  by (induction rule: history.induct) (auto intro: runs.intros)

lemma runs_history: "runs ext s t \<Longrightarrow> \<exists>h. history ext s h t"
  by (induction rule: runs.induct) (auto intro: history.intros)

lemma other_call_project_part:
  assumes "run_op ext op cx s = Inr (t, es)" "\<And>c. op \<noteq> ProjectOp c"
  shows "project_part t = project_part s"
proof (cases op)
  case (WalletOp c)
  with assms(1) keepsD [OF wallet_call_keeps, of ext c cx s t es] show ?thesis
    by (simp add: beside_wallets_def)
next
  case (SecretOp c)
  with assms(1) keepsD [OF secret_call_keeps, of ext c cx s t es] show ?thesis
    by (simp add: beside_secrets_def)
next
  case (PaymentOp c)
  with assms(1) keepsD [OF payment_call_keeps, of ext c cx s t es] show ?thesis
    by (simp add: beside_payments_def)
next
  case (ExecutionOp c)
  with assms(1) keepsD [OF execution_call_keeps, of ext c cx s t es] show ?thesis
    by (simp add: beside_executions_def)
next
  case (AdminOp c)
  with assms(1) keepsD [OF admin_call_keeps, of c cx s t es] show ?thesis
    by (simp add: beside_executions_def)
qed (use assms(2) in simp)

section \<open>Acceptances\<close>

fun gives :: "transfer_acceptance \<Rightarrow> recorded_call \<Rightarrow> bool" where
  "gives a (ProjectOp (AcceptProjectTransfer f name), cx) \<longleftrightarrow>
     a = \<lparr>ta_new_owner = predecessor cx, ta_from = f, ta_name = name\<rparr>"
| "gives a _ \<longleftrightarrow> False"

fun ends :: "transfer_acceptance \<Rightarrow> recorded_call \<Rightarrow> bool" where
  "ends a (ProjectOp (RevokeProjectTransfer f name), cx) \<longleftrightarrow>
     a = \<lparr>ta_new_owner = predecessor cx, ta_from = f, ta_name = name\<rparr>"
| "ends a (ProjectOp (TransferProject name new_owner), cx) \<longleftrightarrow>
     a = \<lparr>ta_new_owner = new_owner, ta_from = predecessor cx, ta_name = name\<rparr>"
| "ends a _ \<longleftrightarrow> False"

text \<open>Given, and since then neither revoked by the account that gave it nor used by a transfer.\<close>

fun open_acceptance :: "transfer_acceptance \<Rightarrow> recorded_call list \<Rightarrow> bool" where
  "open_acceptance a [] \<longleftrightarrow> False"
| "open_acceptance a (c # h) \<longleftrightarrow> gives a c \<or> (\<not> ends a c \<and> open_acceptance a h)"

lemma project_call_acceptances:
  assumes "run_project_call c cx s = Inr (t, es)"
  shows "project_transfer_acceptances t a \<noteq> None \<longleftrightarrow>
    gives a (ProjectOp c, cx) \<or> (\<not> ends a (ProjectOp c, cx) \<and> project_transfer_acceptances s a \<noteq> None)"
proof (cases c)
  case (AcceptProjectTransfer f name)
  with assms have "project_transfer_acceptances t = (project_transfer_acceptances s)
      (\<lparr>ta_new_owner = predecessor cx, ta_from = f, ta_name = name\<rparr> \<mapsto> storage_grown cx * STORAGE_PRICE_PER_BYTE)"
    by (auto simp: accept_project_transfer_def run_simps Let_def)
  with AcceptProjectTransfer show ?thesis by simp
next
  case (RevokeProjectTransfer f name)
  with assms have "project_transfer_acceptances t = (project_transfer_acceptances s)
      (\<lparr>ta_new_owner = predecessor cx, ta_from = f, ta_name = name\<rparr> := None)"
    by (auto simp: revoke_project_transfer_def run_simps Let_def)
  with RevokeProjectTransfer show ?thesis by simp
next
  case (TransferProject name new_owner)
  with assms have "project_transfer_acceptances t = (project_transfer_acceptances s)
      (\<lparr>ta_new_owner = new_owner, ta_from = predecessor cx, ta_name = name\<rparr> := None)"
    by (auto simp: transfer_project_def run_simps Let_def project_row_defs)
  with TransferProject show ?thesis by simp
next
  case (AddVersion name src act)
  with assms have "project_transfer_acceptances t = project_transfer_acceptances s"
    by (cases act) (auto simp: add_version_def run_simps Let_def project_row_defs)
  with AddVersion show ?thesis by simp
qed (use assms in \<open>auto simp: create_project_def set_active_version_def remove_version_def
      delete_project_def run_simps Let_def project_row_defs\<close>)

lemma acceptances_recorded:
  assumes "history ext s0 h s" "project_transfer_acceptances s0 = Map.empty"
  shows "project_transfer_acceptances s a \<noteq> None \<longleftrightarrow> open_acceptance a h"
  using assms
proof (induction rule: history.induct)
  case history_start
  then show ?case by simp
next
  case (history_call h t op cx u es)
  show ?case
  proof (cases "\<exists>c. op = ProjectOp c")
    case True
    then obtain c where c: "op = ProjectOp c" by blast
    with history_call.hyps(2) have "run_project_call c cx t = Inr (u, es)" by simp
    from project_call_acceptances [OF this, of a] history_call.IH [OF history_call.prems] c
    show ?thesis by simp
  next
    case False
    then have "project_part u = project_part t"
      using other_call_project_part [OF history_call.hyps(2)] by blast
    moreover have "\<not> gives a (op, cx)" "\<not> ends a (op, cx)" using False by (cases op; simp)+
    ultimately show ?thesis using history_call by (simp add: project_part_def)
  qed
qed

section \<open>Sources\<close>

text \<open>
  The call of the history that put the source into the project of that uuid: creating it or adding a
  version, by the account that owns it when the call has returned.
\<close>

fun brings :: "string \<Rightarrow> code_source \<Rightarrow> project_call \<Rightarrow> bool" where
  "brings name src (CreateProject n x) \<longleftrightarrow> n = name \<and> x = src"
| "brings name src (AddVersion n x _) \<longleftrightarrow> n = name \<and> x = src"
| "brings name src _ \<longleftrightarrow> False"

definition supplied ::
  "externals \<Rightarrow> contract \<Rightarrow> recorded_call list \<Rightarrow> string \<Rightarrow> code_source \<Rightarrow> bool" where
  "supplied ext s0 h uuid src \<longleftrightarrow>
     (\<exists>later c cx earlier before after es name q. h = later @ (ProjectOp c, cx) # earlier \<and>
        history ext s0 earlier before \<and> run_project_call c cx before = Inr (after, es) \<and>
        brings name src c \<and> projects after (project_id_of (predecessor cx) name) = Some q \<and>
        pj_uuid q = uuid \<and> pj_owner q = predecessor cx)"

lemma supplied_later: "supplied ext s0 h uuid src \<Longrightarrow> supplied ext s0 (c # h) uuid src"
  unfolding supplied_def by (metis append_Cons)

lemma supplied_now:
  assumes "history ext s0 h s" "run_project_call c cx s = Inr (t, es)" "brings name src c"
    and "projects t (project_id_of (predecessor cx) name) = Some q" "pj_owner q = predecessor cx"
  shows "supplied ext s0 ((ProjectOp c, cx) # h) (pj_uuid q) src"
  unfolding supplied_def using assms by (intro exI [of _ "[]"] exI conjI; simp)

definition sources_supplied :: "externals \<Rightarrow> contract \<Rightarrow> recorded_call list \<Rightarrow> contract \<Rightarrow> bool" where
  "sources_supplied ext s0 h s \<longleftrightarrow>
     (\<forall>u vs k v. project_versions s u = Some vs \<longrightarrow> vs k = Some v \<longrightarrow> supplied ext s0 h u (vi_source v))"

text \<open>A stored version was stored before, or the call brings it to a project of its caller.\<close>

lemma project_call_versions:
  assumes "run_project_call c cx s = Inr (t, es)" "project_versions t u = Some vs" "vs k = Some v"
  shows "(\<exists>ws. project_versions s u = Some ws \<and> ws k = Some v) \<or>
    (\<exists>name q. brings name (vi_source v) c \<and> projects t (project_id_of (predecessor cx) name) = Some q \<and>
       pj_uuid q = u \<and> pj_owner q = predecessor cx)"
proof (cases c)
  case (CreateProject name src)
  with assms show ?thesis
    by (auto simp: create_project_def run_simps Let_def insert_project_def split: if_splits)
next
  case (AddVersion name src act)
  with assms(1) obtain p ws where p: "projects s (project_id_of (predecessor cx) name) = Some p"
      "pj_owner p = predecessor cx" "project_versions s (pj_uuid p) = Some ws"
    and t: "project_versions t = (project_versions s)(pj_uuid p \<mapsto> ws(get_version_key src \<mapsto>
        \<lparr>vi_source = src, vi_added_at = block_timestamp cx,
         vi_storage_deposit = calculate_version_storage_size src * STORAGE_PRICE_PER_BYTE\<rparr>))"
      "\<exists>q. projects t (project_id_of (predecessor cx) name) = Some q \<and>
         pj_uuid q = pj_uuid p \<and> pj_owner q = pj_owner p"
    by (cases act) (auto simp: add_version_def run_simps Let_def rewrite_project_def)
  from assms(2,3) p t AddVersion show ?thesis by (auto split: if_splits)
next
  case (RemoveVersion name key)
  with assms show ?thesis
    by (auto simp: remove_version_def run_simps Let_def split: if_splits)
qed (use assms in \<open>auto simp: set_active_version_def delete_project_def accept_project_transfer_def
      revoke_project_transfer_def transfer_project_def run_simps Let_def project_row_defs
      split: if_splits\<close>)

lemma history_sources:
  assumes "history ext s0 h s" "project_versions s0 = Map.empty"
  shows "sources_supplied ext s0 h s"
  using assms
proof (induction rule: history.induct)
  case history_start
  then show ?case by (simp add: sources_supplied_def)
next
  case (history_call h t op cx u es)
  have IH: "sources_supplied ext s0 h t" by (rule history_call.IH [OF history_call.prems])
  show ?case
  proof (cases "\<exists>c. op = ProjectOp c")
    case True
    then obtain c where op: "op = ProjectOp c" by blast
    with history_call.hyps(2) have run: "run_project_call c cx t = Inr (u, es)" by simp
    show ?thesis unfolding sources_supplied_def op
    proof (intro allI impI)
      fix w vs k v
      assume vs: "project_versions u w = Some vs" "vs k = Some v"
      from project_call_versions [OF run vs] show "supplied ext s0 ((ProjectOp c, cx) # h) w (vi_source v)"
      proof
        assume "\<exists>ws. project_versions t w = Some ws \<and> ws k = Some v"
        with IH have "supplied ext s0 h w (vi_source v)" unfolding sources_supplied_def by blast
        then show ?thesis by (rule supplied_later)
      next
        assume "\<exists>name q. brings name (vi_source v) c \<and>
          projects u (project_id_of (predecessor cx) name) = Some q \<and> pj_uuid q = w \<and>
          pj_owner q = predecessor cx"
        then show ?thesis using supplied_now [OF history_call.hyps(1) run] by blast
      qed
    qed
  next
    case False
    then have "project_part u = project_part t"
      using other_call_project_part [OF history_call.hyps(2)] by blast
    with IH show ?thesis
      unfolding sources_supplied_def project_part_def by (auto intro: supplied_later)
  qed
qed

section \<open>Uuids\<close>

lemma run_op_next_id:
  assumes "run_op ext op cx s = Inr (t, es)"
  shows "next_project_id s \<le> next_project_id t"
proof (cases "\<exists>c. op = ProjectOp c")
  case True
  then obtain c where "run_project_call c cx s = Inr (t, es)" using assms by auto
  then show ?thesis
    by (cases c) (auto simp: project_op_defs run_simps Let_def project_row_defs)
next
  case False
  with other_call_project_part [OF assms] show ?thesis by (auto simp: project_part_def)
qed

lemma runs_next_id: "runs ext s t \<Longrightarrow> next_project_id s \<le> next_project_id t"
  by (induction rule: runs.induct) (auto dest: run_op_next_id)

lemma later_uuid_differs:
  assumes "projects_ok r" "projects r pid = Some old" "runs ext r s"
    and "create_project cx name src s = Inr (t, es)"
    and "projects t (project_id_of (predecessor cx) name) = Some pj"
  shows "pj_uuid pj \<noteq> pj_uuid old"
proof
  assume same: "pj_uuid pj = pj_uuid old"
  note uuid = created_uuid [OF assms(4,5)]
  have "pj_uuid old \<in> ran (uuid_of r)" using assms(2) by (intro ranI [where a = pid]) simp
  with projects_okD(4) [OF assms(1)] obtain n where
    n: "n \<le> next_project_id r" "pj_uuid old = project_uuid_of n" "next_project_id r < 2 ^ 64"
    by (auto simp: project_uuids_ok_def counted_uuid_def)
  with project_uuid_inject [of "next_project_id s + 1" n] uuid same have "next_project_id s + 1 = n" by simp
  with n(1) runs_next_id [OF assms(3)] show False by simp
qed

lemma run_op_projects_ok:
  assumes "projects_ok s" "run_op ext op cx s = Inr (t, es)"
  shows "projects_ok t"
proof (cases "\<exists>c. op = ProjectOp c")
  case True
  with assms run_project_call_ok show ?thesis by auto
next
  case False
  with other_call_project_part [OF assms(2)] have "project_part t = project_part s" by blast
  from projects_ok_part [OF this assms(1)] show ?thesis .
qed

lemma runs_projects_ok: "runs ext s t \<Longrightarrow> projects_ok s \<Longrightarrow> projects_ok t"
  by (induction rule: runs.induct) (auto intro: run_op_projects_ok)

section \<open>What a project runs\<close>

lemma resolved_project:
  assumes "resolve_execution_source (ProjectSrc pid key) s = Inr (src, uuid)"
  obtains p vs v where "projects s pid = Some p" "uuid = Some (pj_uuid p)"
    "project_versions s (pj_uuid p) = Some vs" "src = vi_source v"
    "vs (case key of Some k \<Rightarrow> k | None \<Rightarrow> pj_active_version p) = Some v"
  using assms by (cases key) (auto simp: expect_Inr ensure_Inr bind_call_Inr)

lemma active_version_resolves:
  assumes "projects_ok s" "projects s pid = Some p"
  shows "\<exists>src. resolve_execution_source (ProjectSrc pid None) s = Inr (src, Some (pj_uuid p)) \<and>
    get_version_key src = pj_active_version p"
proof -
  from projects_okD(3) [OF assms(1)] assms(2) obtain vs v where
    v: "project_versions s (pj_uuid p) = Some vs" "vs (pj_active_version p) = Some v"
    unfolding projects_named_def by blast
  with projects_okD(5) [OF assms(1)] have k: "get_version_key (vi_source v) = pj_active_version p"
    "code_source_error (vi_source v) = None"
    by (auto simp: project_sources_ok_def versions_ok_def)
  from version_key_nonempty [OF k(2)] k(1) v assms(2) show ?thesis
    by (simp add: expect_def ensure_def bind_call_def)
qed

lemma resolved_source_supplied:
  assumes "history ext s0 h s" "project_versions s0 = Map.empty" "projects_ok s"
    and "resolve_execution_source (ProjectSrc pid key) s = Inr (src, uuid)"
  shows "\<exists>p. projects s pid = Some p \<and> uuid = Some (pj_uuid p) \<and> code_source_error src = None \<and>
    get_version_key src = (case key of Some k \<Rightarrow> k | None \<Rightarrow> pj_active_version p) \<and>
    supplied ext s0 h (pj_uuid p) src"
proof -
  from assms(4) obtain p vs v where p: "projects s pid = Some p" "uuid = Some (pj_uuid p)"
    and v: "project_versions s (pj_uuid p) = Some vs"
      "vs (case key of Some k \<Rightarrow> k | None \<Rightarrow> pj_active_version p) = Some v" "src = vi_source v"
    by (rule resolved_project) blast
  from history_sources [OF assms(1,2)] v have "supplied ext s0 h (pj_uuid p) src"
    unfolding sources_supplied_def by blast
  moreover from projects_okD(5) [OF assms(3)] v have
    "get_version_key src = (case key of Some k \<Rightarrow> k | None \<Rightarrow> pj_active_version p)"
    "code_source_error src = None"
    by (auto simp: project_sources_ok_def versions_ok_def)
  ultimately show ?thesis using p by blast
qed

section \<open>Properties\<close>

text \<open>
  C23. A project moves only onto an acceptance that stands. After any sequence of calls on the new
  contract, \<open>transfer_project\<close> returns only when the account it names has called
  \<open>accept_project_transfer\<close> for exactly that name from exactly that owner and has neither revoked it
  nor had it used since; the caller owns a project of that name, the project is unpriced, and the new
  id was free (or is the old one). The project is then found under the new id and no longer under the
  old one, with the new owner and otherwise unchanged, and no other project changes; the versions are
  kept, and the acceptance is consumed and its deposit goes back to the account that gave it.
\<close>

theorem transfer_needs_acceptance:
  assumes "history ext (new_contract ow op st ver) h s"
    and "transfer_project cx name new_owner s = Inr (t, es)"
    and "old = project_id_of (predecessor cx) name" "new = project_id_of new_owner name"
    and "accepted = \<lparr>ta_new_owner = new_owner, ta_from = predecessor cx, ta_name = name\<rparr>"
  shows "open_acceptance accepted h \<and>
    (\<exists>p d. projects s old = Some p \<and> pj_owner p = predecessor cx \<and> project_pricing s old = None \<and>
      (new = old \<or> projects s new = None) \<and>
      projects t = (projects s)(old := None, new \<mapsto> p\<lparr>pj_owner := new_owner\<rparr>) \<and>
      project_versions t = project_versions s \<and>
      project_transfer_acceptances s accepted = Some d \<and>
      project_transfer_acceptances t = (project_transfer_acceptances s)(accepted := None) \<and>
      \<not> open_acceptance accepted ((ProjectOp (TransferProject name new_owner), cx) # h) \<and>
      paid_out es = d \<and> (\<forall>who n. Transfer who n \<in> set es \<longrightarrow> who = new_owner))"
proof -
  from assms(2-) obtain p d where
    p: "projects s old = Some p" "pj_owner p = predecessor cx" "project_pricing s old = None"
    and free: "((projects s)(old := None)) new = None"
    and d: "project_transfer_acceptances s accepted = Some d"
    and t: "t = insert_project new (p\<lparr>pj_owner := new_owner\<rparr>) (drop_project old p
        (s\<lparr>project_transfer_acceptances := (project_transfer_acceptances s)(accepted := None)\<rparr>))"
    and es: "es = transfer_if new_owner d @
        [EmitSystem (ProjectTransferred old new (pj_uuid p) (predecessor cx) new_owner)]"
    by (auto simp: transfer_project_def run_simps Let_def)
  have given: "open_acceptance accepted h"
    using acceptances_recorded [OF assms(1), of accepted] d by (simp add: new_contract_def)
  have "new = old \<or> projects s new = None" using free by (auto split: if_splits)
  moreover have "projects t = (projects s)(old := None, new \<mapsto> p\<lparr>pj_owner := new_owner\<rparr>)"
    "project_versions t = project_versions s"
    "project_transfer_acceptances t = (project_transfer_acceptances s)(accepted := None)"
    by (simp_all add: t insert_project_def drop_project_def)
  moreover have "\<not> open_acceptance accepted ((ProjectOp (TransferProject name new_owner), cx) # h)"
    by (simp add: assms(5))
  moreover have "paid_out es = d" "\<forall>who n. Transfer who n \<in> set es \<longrightarrow> who = new_owner"
    by (simp_all add: es transfer_if_def)
  ultimately show ?thesis using given p d by blast
qed

text \<open>
  C17. The code a project runs was put there by its owner. After any sequence of calls on the new
  contract a registered project can be run: without a version key it resolves to its active version,
  under its own uuid. And whatever version a request for the project resolves to, its source has the
  shape the contract demands and the version key that was asked for, and came with a call of the
  history that created the project or added a version to it, made by the account that owned the
  project of this uuid when that call returned; a request that is admitted runs exactly that source.
\<close>

theorem project_runs_its_owners_code:
  assumes "history ext (new_contract ow op st ver) h s" "projects s pid = Some p"
  shows "(\<exists>src. resolve_execution_source (ProjectSrc pid None) s = Inr (src, Some (pj_uuid p)) \<and>
      get_version_key src = pj_active_version p) \<and>
    (\<forall>a key cx t es. ea_source a = ProjectSrc pid key \<longrightarrow> request_execution ext cx a s = Inr (t, es) \<longrightarrow>
      (\<exists>rq. pending_requests t (next_request_id s) = Some rq \<and>
         code_source_error (rq_resolved_source rq) = None \<and>
         get_version_key (rq_resolved_source rq) = (case key of Some k \<Rightarrow> k | None \<Rightarrow> pj_active_version p) \<and>
         supplied ext (new_contract ow op st ver) h (pj_uuid p) (rq_resolved_source rq)))"
proof (intro conjI allI impI)
  have ok: "projects_ok s"
    by (rule runs_projects_ok [OF history_runs [OF assms(1)] projects_ok_new])
  from active_version_resolves [OF this assms(2)]
  show "\<exists>src. resolve_execution_source (ProjectSrc pid None) s = Inr (src, Some (pj_uuid p)) \<and>
      get_version_key src = pj_active_version p" .
  fix a key cx t es
  assume a: "ea_source a = ProjectSrc pid key" and run: "request_execution ext cx a s = Inr (t, es)"
  from run obtain src uuid where src: "resolve_execution_source (ProjectSrc pid key) s = Inr (src, uuid)"
    and t: "pending_requests t (next_request_id s) = Some (pending_request_of cx (next_request_id s) src a)"
    by (rule request_execution_run) (use a in simp)
  have "project_versions (new_contract ow op st ver) = Map.empty" by (simp add: new_contract_def)
  from resolved_source_supplied [OF assms(1) this ok src] assms(2) t
  show "\<exists>rq. pending_requests t (next_request_id s) = Some rq \<and>
      code_source_error (rq_resolved_source rq) = None \<and>
      get_version_key (rq_resolved_source rq) = (case key of Some k \<Rightarrow> k | None \<Rightarrow> pj_active_version p) \<and>
      supplied ext (new_contract ow op st ver) h (pj_uuid p) (rq_resolved_source rq)"
    by (auto simp: pending_request_of_def)
qed

text \<open>
  C25. A new project has new keys. Take any project the contract has ever held, in any state its calls
  led to, and any project created in that state or later, under the same name or another, the first
  one deleted since or not: the new project's uuid is one the keystore parses and differs from the
  old one's, and no declared key bound to the new project has the derivation string of a key bound to
  the old one.
\<close>

theorem new_project_new_keys:
  assumes "runs ext (new_contract ow op st ver) r" "projects r pid = Some old" "runs ext r s"
    and "create_project cx name src s = Inr (t, es)"
    and "projects t (project_id_of (predecessor cx) name) = Some pj"
  shows "parse_project_uuid (pj_uuid pj) = Inr (pj_uuid pj) \<and> pj_uuid pj \<noteq> pj_uuid old \<and>
    (\<forall>v v' b b'. bind_all v (Some (pj_uuid old)) = Inr b \<longrightarrow> bind_all v' (Some (pj_uuid pj)) = Inr b' \<longrightarrow>
       (\<forall>k \<in> set (bs_keys b). \<forall>k' \<in> set (bs_keys b'). di_text (bk_input k) \<noteq> di_text (bk_input k')))"
proof (intro conjI allI impI ballI)
  show "parse_project_uuid (pj_uuid pj) = Inr (pj_uuid pj)"
    by (simp add: created_uuid(1) [OF assms(4,5)] minted_uuid_parses)
  show differs: "pj_uuid pj \<noteq> pj_uuid old"
    by (rule later_uuid_differs [OF runs_projects_ok [OF assms(1) projects_ok_new] assms(2-5)])
  fix v v' b b' k k'
  assume "bind_all v (Some (pj_uuid old)) = Inr b" "bind_all v' (Some (pj_uuid pj)) = Inr b'"
    "k \<in> set (bs_keys b)" "k' \<in> set (bs_keys b')"
  then show "di_text (bk_input k) \<noteq> di_text (bk_input k')"
    using differs by (intro other_uuid_other_text [of v "pj_uuid old" b v' "pj_uuid pj" b']) auto
qed

section \<open>Witnesses\<close>

lemma history_one:
  "run_op ext op cx s = Inr (t, es) \<Longrightarrow> history ext s [(op, cx)] t"
  by (rule history_call [OF history_start])

lemma at_ax: "project_id_of (predecessor (call_by ''a'' n)) ''x'' = ''a/x''"
  by (simp add: project_id_of_def call_by_def)

text \<open>\<open>a\<close> creates the project \<open>x\<close>; later \<open>b\<close> accepts it, or \<open>a\<close> deletes it and creates it again.\<close>

lemma created_once:
  obtains s es p where
    "create_project (call_by ''a'' (10 ^ 24)) ''x'' demo_source demo_contract = Inr (s, es)"
    "projects s ''a/x'' = Some p" "pj_owner p = ''a''" "projects s ''b/x'' = None" "\<not> paused s"
    "next_project_id s = 1" "project_pricing s = Map.empty"
    "project_transfer_acceptances s = Map.empty"
proof -
  from demo_create [of demo_contract] obtain s es p where
    s: "create_project (call_by ''a'' (10 ^ 24)) ''x'' demo_source demo_contract = Inr (s, es)"
      "projects s ''a/x'' = Some p" "pj_owner p = ''a''" "next_project_id s = 1" "\<not> paused s"
    by (auto simp: demo_contract_def new_contract_def)
  moreover from s(1) have "projects s ''b/x'' = None" "project_pricing s = Map.empty"
    "project_transfer_acceptances s = Map.empty"
    by (auto simp: create_project_def run_simps Let_def insert_project_def project_id_of_def call_by_def
        demo_contract_def new_contract_def)
  ultimately show ?thesis using that by blast
qed

theorem transfer_needs_acceptance_witness:
  "\<exists>h s t es. history reference_externals demo_contract h s \<and>
     transfer_project (call_by ''a'' 0) ''x'' ''b'' s = Inr (t, es) \<and>
     open_acceptance \<lparr>ta_new_owner = ''b'', ta_from = ''a'', ta_name = ''x''\<rparr> h \<and>
     projects t ''a/x'' = None \<and> map_option pj_owner (projects t ''b/x'') = Some ''b''"
proof -
  let ?acc = "\<lparr>ta_new_owner = ''b'', ta_from = ''a'', ta_name = ''x''\<rparr>"
  obtain s es p where c: "create_project (call_by ''a'' (10 ^ 24)) ''x'' demo_source demo_contract = Inr (s, es)"
    and s: "projects s ''a/x'' = Some p" "pj_owner p = ''a''" "projects s ''b/x'' = None" "\<not> paused s"
      "project_pricing s = Map.empty" "project_transfer_acceptances s = Map.empty"
    by (rule created_once) blast
  define d where "d = 100 * STORAGE_PRICE_PER_BYTE"
  define u where "u = s\<lparr>project_transfer_acceptances := (project_transfer_acceptances s)(?acc \<mapsto> d)\<rparr>"
  obtain fs where "run_op reference_externals (ProjectOp (AcceptProjectTransfer ''a'' ''x''))
      (call_by ''b'' (10 ^ 24)) s = Inr (u, fs)"
    using s by (simp add: accept_project_transfer_def eval_simps Let_def project_id_of_def name_char_def
        is_ascii_alphanumeric_def u_def d_def STORAGE_PRICE_PER_BYTE_def)
  from history_call [OF history_one this] c
  have h: "history reference_externals demo_contract
      [(ProjectOp (AcceptProjectTransfer ''a'' ''x''), call_by ''b'' (10 ^ 24)),
       (ProjectOp (CreateProject ''x'' demo_source), call_by ''a'' (10 ^ 24))] u" (is "history _ _ ?h _")
    by simp
  obtain t gs where t: "transfer_project (call_by ''a'' 0) ''x'' ''b'' u = Inr (t, gs)"
    using s by (simp add: transfer_project_def eval_simps Let_def project_id_of_def u_def)
  have pb: "project_id_of ''b'' ''x'' = ''b/x''" by (simp add: project_id_of_def)
  have acc: "?acc = \<lparr>ta_new_owner = ''b'', ta_from = predecessor (call_by ''a'' 0), ta_name = ''x''\<rparr>"
    by (simp add: call_by_def)
  from transfer_needs_acceptance [OF h [unfolded demo_contract_def] t at_ax [symmetric] pb [symmetric] acc]
  have "open_acceptance ?acc ?h \<and> projects t ''a/x'' = None \<and> map_option pj_owner (projects t ''b/x'') = Some ''b''"
    by auto
  with h t show ?thesis by blast
qed

theorem project_runs_its_owners_code_witness:
  "\<exists>s p src. history reference_externals demo_contract
       [(ProjectOp (CreateProject ''x'' demo_source), call_by ''a'' (10 ^ 24))] s \<and>
     projects s ''a/x'' = Some p \<and>
     resolve_execution_source (ProjectSrc ''a/x'' None) s = Inr (src, Some (pj_uuid p))"
proof -
  obtain s es p where c: "create_project (call_by ''a'' (10 ^ 24)) ''x'' demo_source demo_contract = Inr (s, es)"
    and p: "projects s ''a/x'' = Some p"
    by (rule created_once) blast
  have h: "history reference_externals demo_contract
      [(ProjectOp (CreateProject ''x'' demo_source), call_by ''a'' (10 ^ 24))] s"
    by (rule history_one [of _ _ _ _ _ es]) (use c in simp)
  from project_runs_its_owners_code [OF h [unfolded demo_contract_def] p] h p show ?thesis by blast
qed

theorem new_project_new_keys_witness:
  "\<exists>r old s t es pj b b'. runs reference_externals demo_contract r \<and> projects r ''a/x'' = Some old \<and>
     runs reference_externals r s \<and>
     create_project (call_by ''a'' (10 ^ 24)) ''x'' demo_source s = Inr (t, es) \<and>
     projects t ''a/x'' = Some pj \<and> pj_uuid pj \<noteq> pj_uuid old \<and>
     bind_all (project_run ''b'') (Some (pj_uuid old)) = Inr b \<and>
     bind_all (project_run ''b'') (Some (pj_uuid pj)) = Inr b' \<and>
     di_text (bk_input (hd (bs_keys b))) \<noteq> di_text (bk_input (hd (bs_keys b')))"
proof -
  obtain r es0 old where c: "create_project (call_by ''a'' (10 ^ 24)) ''x'' demo_source demo_contract = Inr (r, es0)"
    and r: "projects r ''a/x'' = Some old" "pj_owner old = ''a''" "\<not> paused r" "next_project_id r = 1"
    by (rule created_once) blast
  have reach: "runs reference_externals demo_contract r"
    by (rule runs_step [OF runs_refl, where op = "ProjectOp (CreateProject ''x'' demo_source)"
          and cx = "call_by ''a'' (10 ^ 24)" and es = es0]) (use c in simp)
  obtain s es1 where d: "delete_project (call_by ''a'' 0) ''x'' r = Inr (s, es1)"
    and s: "projects s ''a/x'' = None" "\<not> paused s" "next_project_id s = 1"
    using r by (simp add: delete_project_def eval_simps Let_def project_id_of_def drop_project_def)
  have later: "runs reference_externals r s"
    by (rule runs_step [OF runs_refl, where op = "ProjectOp (DeleteProject ''x'')"
          and cx = "call_by ''a'' 0" and es = es1]) (use d in simp)
  obtain t es pj where t: "create_project (call_by ''a'' (10 ^ 24)) ''x'' demo_source s = Inr (t, es)"
      "projects t ''a/x'' = Some pj"
    using demo_create [of s] s by auto
  note new = new_project_new_keys [OF reach [unfolded demo_contract_def] r(1) later t(1), of pj,
      unfolded at_ax, OF t(2)]
  have uuids: "pj_uuid old = project_uuid_of 1" "pj_uuid pj = project_uuid_of 2"
    using created_uuid(1) [OF c, of old] created_uuid(1) [OF t(1), of pj] r(1) t(2) s(3)
    by (simp_all add: at_ax demo_contract_def new_contract_def numeral_2_eq_2)
  obtain b where b: "bind_all (project_run ''b'') (Some (pj_uuid old)) = Inr b" "bs_keys b \<noteq> []"
    using project_run_bound [of 1] uuids by auto
  obtain b' where b': "bind_all (project_run ''b'') (Some (pj_uuid pj)) = Inr b'" "bs_keys b' \<noteq> []"
    using project_run_bound [of 2] uuids by auto
  from new b b' have "pj_uuid pj \<noteq> pj_uuid old"
    "di_text (bk_input (hd (bs_keys b))) \<noteq> di_text (bk_input (hd (bs_keys b')))" by auto
  with reach r(1) later t b(1) b'(1) show ?thesis by blast
qed

end
