(* ===== verification/Access_Eval.thy ===== *)
theory Access_Eval
  imports Secrets
begin

text \<open>
  How the keystore judges a stored access condition (\<open>keystore-worker/src/types.rs\<close> and
  \<open>judge_access\<close> of \<open>keystore-worker/src/api.rs\<close>): the condition as the keystore reads it, the
  patterns compiled before anything is judged, the evaluation with its unknown branches, the
  readings made without the chain, and the refusal a caller hears. The regular-expression engine,
  the answers of the chain and the bounds shared with the other services are parameters. One
  reading of the clock serves one evaluation, and the chain answers a question the same way
  throughout it.
\<close>

section \<open>Conditions\<close>

datatype condition =
    KsLogic logic_operator "condition list"
  | KsNot condition
  | KsAllowAll
  | KsWhitelist "string list"
  | KsAccountPattern string
  | KsNearBalance comparison_operator string
  | KsFtBalance string comparison_operator string
  | KsNftOwned string "string option"
  | KsDaoMember string string
  | KsValidUntil string
  | KsWasmHash string
  | KsPredecessor condition

record run_facts =
  executed_wasm_sha256 :: "string option"
  predecessor_id :: "string option"

text \<open>A compiled pattern is the set of ids it matches; the engine compiles or refuses a text.\<close>

type_synonym regex = "string \<Rightarrow> bool"
type_synonym compiled_patterns = "string \<rightharpoonup> regex"
type_synonym engine = "string \<Rightarrow> regex option"

text \<open>The keystore's NEAR client; \<open>None\<close> is a read that failed.\<close>

record near_client =
  get_account_balance :: "string \<Rightarrow> nat option"
  get_ft_balance :: "string \<Rightarrow> string \<Rightarrow> nat option"
  check_nft_ownership :: "string \<Rightarrow> string \<Rightarrow> string option \<Rightarrow> bool option"
  check_dao_membership :: "string \<Rightarrow> string \<Rightarrow> string \<Rightarrow> bool option"

datatype unknown =
    PatternNotCompiled | NoNearClient | BadBalanceValue | ChainReadFailed
  | BadTimeLimit | ClockBeforeEpoch | NoBuildReported | NoCallerReported

type_synonym verdict = "unknown + bool"

record judging =
  jd_client :: "near_client option"
  jd_patterns :: compiled_patterns
  jd_facts :: run_facts
  jd_now :: "nat option"

section \<open>Patterns\<close>

definition compile_anchored_account_pattern :: "engine \<Rightarrow> string \<Rightarrow> regex option" where
  "compile_anchored_account_pattern engine pattern =
     engine (CHR 0x5C # ''A(?:'' @ pattern @ '')'' @ [CHR 0x5C, CHR ''z''])"

fun collect_patterns :: "engine \<Rightarrow> condition \<Rightarrow> compiled_patterns \<Rightarrow> string + compiled_patterns"
  and collect_all :: "engine \<Rightarrow> condition list \<Rightarrow> compiled_patterns \<Rightarrow> string + compiled_patterns" where
  "collect_patterns engine (KsAccountPattern pattern) into =
     (if into pattern \<noteq> None then Inr into
      else case compile_anchored_account_pattern engine pattern of
             None \<Rightarrow> Inl pattern
           | Some re \<Rightarrow> Inr (into(pattern \<mapsto> re)))"
| "collect_patterns engine (KsLogic _ conditions) into = collect_all engine conditions into"
| "collect_patterns engine (KsNot condition) into = collect_patterns engine condition into"
| "collect_patterns engine (KsPredecessor condition) into = collect_patterns engine condition into"
| "collect_patterns engine _ into = Inr into"
| "collect_all engine [] into = Inr into"
| "collect_all engine (c # cs) into =
     (case collect_patterns engine c into of
        Inl unreadable \<Rightarrow> Inl unreadable
      | Inr into2 \<Rightarrow> collect_all engine cs into2)"

definition compile_patterns :: "engine \<Rightarrow> condition \<Rightarrow> string + compiled_patterns" where
  "compile_patterns engine c = collect_patterns engine c Map.empty"

section \<open>Evaluation\<close>

fun compare_values :: "nat \<Rightarrow> comparison_operator \<Rightarrow> nat \<Rightarrow> bool" where
  "compare_values actual Gte required = (actual \<ge> required)"
| "compare_values actual Lte required = (actual \<le> required)"
| "compare_values actual Gt required = (actual > required)"
| "compare_values actual Lt required = (actual < required)"
| "compare_values actual Eq required = (actual = required)"
| "compare_values actual Ne required = (actual \<noteq> required)"

definition valid_until_at :: "string \<Rightarrow> nat \<Rightarrow> verdict" where
  "valid_until_at until_ns now =
     (case parse_u64 until_ns of None \<Rightarrow> Inl BadTimeLimit | Some t \<Rightarrow> Inr (now < t))"

definition ask_chain :: "judging \<Rightarrow> (near_client \<Rightarrow> verdict) \<Rightarrow> verdict" where
  "ask_chain j question = (case jd_client j of None \<Rightarrow> Inl NoNearClient | Some client \<Rightarrow> question client)"

definition answered :: "'a option \<Rightarrow> ('a \<Rightarrow> bool) \<Rightarrow> verdict" where
  "answered reading test = (case reading of None \<Rightarrow> Inl ChainReadFailed | Some a \<Rightarrow> Inr (test a))"

definition judge_balance :: "string \<Rightarrow> comparison_operator \<Rightarrow> nat option \<Rightarrow> verdict" where
  "judge_balance required op reading =
     (case parse_u128 required of
        None \<Rightarrow> Inl BadBalanceValue
      | Some r \<Rightarrow> answered reading (\<lambda>actual. compare_values actual op r))"

fun evaluate :: "judging \<Rightarrow> string \<Rightarrow> condition \<Rightarrow> verdict"
  and all_pass :: "judging \<Rightarrow> string \<Rightarrow> unknown option \<Rightarrow> condition list \<Rightarrow> verdict"
  and any_passes :: "judging \<Rightarrow> string \<Rightarrow> unknown option \<Rightarrow> condition list \<Rightarrow> verdict" where
  "evaluate j caller KsAllowAll = Inr True"
| "evaluate j caller (KsWhitelist accounts) = Inr (caller \<in> set accounts)"
| "evaluate j caller (KsAccountPattern pattern) =
     (case jd_patterns j pattern of None \<Rightarrow> Inl PatternNotCompiled | Some re \<Rightarrow> Inr (re caller))"
| "evaluate j caller (KsLogic And conditions) = all_pass j caller None conditions"
| "evaluate j caller (KsLogic Or conditions) = any_passes j caller None conditions"
| "evaluate j caller (KsNot condition) =
     (case evaluate j caller condition of Inl e \<Rightarrow> Inl e | Inr result \<Rightarrow> Inr (\<not> result))"
| "evaluate j caller (KsNearBalance op required) =
     ask_chain j (\<lambda>client. judge_balance required op (get_account_balance client caller))"
| "evaluate j caller (KsFtBalance token op required) =
     ask_chain j (\<lambda>client. judge_balance required op (get_ft_balance client token caller))"
| "evaluate j caller (KsNftOwned token token_id) =
     ask_chain j (\<lambda>client. answered (check_nft_ownership client token caller token_id) id)"
| "evaluate j caller (KsDaoMember dao role) =
     ask_chain j (\<lambda>client. answered (check_dao_membership client dao caller role) id)"
| "evaluate j caller (KsValidUntil until_ns) =
     (case jd_now j of None \<Rightarrow> Inl ClockBeforeEpoch | Some now \<Rightarrow> valid_until_at until_ns now)"
| "evaluate j caller (KsWasmHash hash) =
     (case executed_wasm_sha256 (jd_facts j) of
        None \<Rightarrow> Inl NoBuildReported
      | Some executed \<Rightarrow> Inr (eq_ignore_ascii_case executed hash))"
| "evaluate j caller (KsPredecessor condition) =
     (case predecessor_id (jd_facts j) of
        None \<Rightarrow> Inl NoCallerReported
      | Some pred \<Rightarrow> evaluate j pred condition)"
| "all_pass j caller unknown [] = (case unknown of None \<Rightarrow> Inr True | Some e \<Rightarrow> Inl e)"
| "all_pass j caller unknown (c # cs) =
     (case evaluate j caller c of
        Inr True \<Rightarrow> all_pass j caller unknown cs
      | Inr False \<Rightarrow> Inr False
      | Inl e \<Rightarrow> all_pass j caller (if unknown = None then Some e else unknown) cs)"
| "any_passes j caller unknown [] = (case unknown of None \<Rightarrow> Inr False | Some e \<Rightarrow> Inl e)"
| "any_passes j caller unknown (c # cs) =
     (case evaluate j caller c of
        Inr True \<Rightarrow> Inr True
      | Inr False \<Rightarrow> any_passes j caller unknown cs
      | Inl e \<Rightarrow> any_passes j caller (if unknown = None then Some e else unknown) cs)"

section \<open>Readings without the chain\<close>

fun is_naming_leaf :: "condition \<Rightarrow> bool" where
  "is_naming_leaf KsAllowAll \<longleftrightarrow> True"
| "is_naming_leaf (KsWhitelist _) \<longleftrightarrow> True"
| "is_naming_leaf (KsAccountPattern _) \<longleftrightarrow> True"
| "is_naming_leaf (KsNot condition) \<longleftrightarrow> is_naming_leaf condition"
| "is_naming_leaf _ \<longleftrightarrow> False"

fun lapsed_limit :: "nat \<Rightarrow> condition \<Rightarrow> nat option" where
  "lapsed_limit now (KsValidUntil until_ns) =
     (case parse_u64 until_ns of None \<Rightarrow> None | Some t \<Rightarrow> (if t \<le> now then Some t else None))"
| "lapsed_limit now _ = None"

fun names :: "compiled_patterns \<Rightarrow> string \<Rightarrow> condition \<Rightarrow> bool" where
  "names patterns caller KsAllowAll \<longleftrightarrow> True"
| "names patterns caller (KsWhitelist accounts) \<longleftrightarrow> caller \<in> set accounts"
| "names patterns caller (KsAccountPattern pattern) \<longleftrightarrow>
     (case patterns pattern of None \<Rightarrow> False | Some re \<Rightarrow> re caller)"
| "names patterns caller (KsNot condition) \<longleftrightarrow>
     is_naming_leaf condition \<and> \<not> names patterns caller condition"
| "names patterns caller _ \<longleftrightarrow> False"

fun names_without_lapse :: "compiled_patterns \<Rightarrow> string \<Rightarrow> nat \<Rightarrow> condition \<Rightarrow> bool" where
  "names_without_lapse patterns caller now (KsLogic And conditions) \<longleftrightarrow>
     (\<exists>c \<in> set conditions. names patterns caller c) \<and>
     \<not> (\<exists>c \<in> set conditions. is_naming_leaf c \<and> \<not> names patterns caller c) \<and>
     (\<forall>c \<in> set conditions. lapsed_limit now c = None)"
| "names_without_lapse patterns caller now c \<longleftrightarrow> names patterns caller c"

text \<open>\<open>find_map\<close>: the first answer of a list.\<close>

fun find_map :: "('a \<Rightarrow> 'b option) \<Rightarrow> 'a list \<Rightarrow> 'b option" where
  "find_map f [] = None"
| "find_map f (x # xs) = (case f x of None \<Rightarrow> find_map f xs | Some y \<Rightarrow> Some y)"

fun is_logic :: "condition \<Rightarrow> bool" where
  "is_logic (KsLogic _ _) \<longleftrightarrow> True"
| "is_logic _ \<longleftrightarrow> False"

fun lapsed_grant_in :: "compiled_patterns \<Rightarrow> string \<Rightarrow> nat \<Rightarrow> condition \<Rightarrow> nat option"
  and first_lapsed_grant ::
    "compiled_patterns \<Rightarrow> string \<Rightarrow> nat \<Rightarrow> bool \<Rightarrow> condition list \<Rightarrow> nat option" where
  "lapsed_grant_in patterns caller now (KsValidUntil until_ns) =
     lapsed_limit now (KsValidUntil until_ns)"
| "lapsed_grant_in patterns caller now (KsLogic Or conditions) =
     (if \<exists>c \<in> set conditions. names_without_lapse patterns caller now c then None
      else first_lapsed_grant patterns caller now False conditions)"
| "lapsed_grant_in patterns caller now (KsLogic And conditions) =
     (if \<exists>c \<in> set conditions. is_naming_leaf c \<and> \<not> names patterns caller c then None
      else case (\<exists>c \<in> set conditions. names patterns caller c, find_map (lapsed_limit now) conditions) of
             (True, Some t) \<Rightarrow> Some t
           | _ \<Rightarrow> first_lapsed_grant patterns caller now True conditions)"
| "lapsed_grant_in patterns caller now _ = None"
| "first_lapsed_grant patterns caller now only_logic [] = None"
| "first_lapsed_grant patterns caller now only_logic (c # cs) =
     (case (if only_logic \<and> \<not> is_logic c then None else lapsed_grant_in patterns caller now c) of
        None \<Rightarrow> first_lapsed_grant patterns caller now only_logic cs
      | Some t \<Rightarrow> Some t)"

text \<open>
  The two folds of \<open>holds_without_the_chain\<close> are the conjunction and the disjunction of Kleene's
  three-valued logic, an unknown being \<open>None\<close>.
\<close>

definition all_known :: "bool option list \<Rightarrow> bool option" where
  "all_known verdicts =
     (if Some False \<in> set verdicts then Some False
      else if None \<in> set verdicts then None else Some True)"

definition any_known :: "bool option list \<Rightarrow> bool option" where
  "any_known verdicts =
     (if Some True \<in> set verdicts then Some True
      else if None \<in> set verdicts then None else Some False)"

fun holds_without_the_chain ::
  "compiled_patterns \<Rightarrow> run_facts \<Rightarrow> nat \<Rightarrow> string \<Rightarrow> condition \<Rightarrow> bool option" where
  "holds_without_the_chain patterns facts now caller KsAllowAll = Some True"
| "holds_without_the_chain patterns facts now caller (KsWhitelist accounts) =
     Some (caller \<in> set accounts)"
| "holds_without_the_chain patterns facts now caller (KsAccountPattern pattern) =
     map_option (\<lambda>re. re caller) (patterns pattern)"
| "holds_without_the_chain patterns facts now caller (KsValidUntil until_ns) =
     map_option (\<lambda>t. now < t) (parse_u64 until_ns)"
| "holds_without_the_chain patterns facts now caller (KsWasmHash hash) =
     map_option (\<lambda>executed. eq_ignore_ascii_case executed hash) (executed_wasm_sha256 facts)"
| "holds_without_the_chain patterns facts now caller (KsNot condition) =
     map_option Not (holds_without_the_chain patterns facts now caller condition)"
| "holds_without_the_chain patterns facts now caller (KsLogic And conditions) =
     all_known (map (holds_without_the_chain patterns facts now caller) conditions)"
| "holds_without_the_chain patterns facts now caller (KsLogic Or conditions) =
     any_known (map (holds_without_the_chain patterns facts now caller) conditions)"
| "holds_without_the_chain patterns facts now caller _ = None"

lemma size_nth_condition [termination_simp]:
  "i < length cs \<Longrightarrow> size (cs ! i) < Suc (size_list size cs)"
  by (meson le_imp_less_Suc nth_mem order_refl size_list_estimation')

fun names_on_an_admitting_path ::
  "compiled_patterns \<Rightarrow> run_facts \<Rightarrow> nat \<Rightarrow> string \<Rightarrow> bool \<Rightarrow> condition \<Rightarrow> bool" where
  "names_on_an_admitting_path patterns facts now caller known_to_hold (KsWhitelist accounts) \<longleftrightarrow>
     caller \<in> set accounts"
| "names_on_an_admitting_path patterns facts now caller known_to_hold (KsLogic And conditions) \<longleftrightarrow>
     (\<exists>i \<in> {..<length conditions}.
        names_on_an_admitting_path patterns facts now caller known_to_hold (conditions ! i) \<and>
        (known_to_hold \<or>
         (\<forall>k \<in> {..<length conditions} - {i}.
            holds_without_the_chain patterns facts now caller (conditions ! k) = Some True)))"
| "names_on_an_admitting_path patterns facts now caller known_to_hold (KsLogic Or conditions) \<longleftrightarrow>
     (\<exists>c \<in> set conditions. names_on_an_admitting_path patterns facts now caller False c)"
| "names_on_an_admitting_path patterns facts now caller known_to_hold _ \<longleftrightarrow> False"

definition admits_by_name ::
  "compiled_patterns \<Rightarrow> run_facts \<Rightarrow> nat \<Rightarrow> string \<Rightarrow> condition \<Rightarrow> bool" where
  "admits_by_name patterns facts now caller c =
     names_on_an_admitting_path patterns facts now caller True c"

section \<open>The refusal\<close>

datatype refused_build = LockedTo string | Refuses

fun build_refusal_of :: "string \<Rightarrow> condition \<Rightarrow> refused_build option" where
  "build_refusal_of executed (KsWasmHash hash) =
     (if eq_ignore_ascii_case executed hash then None else Some (LockedTo hash))"
| "build_refusal_of executed (KsNot condition) =
     (case condition of
        KsWasmHash hash \<Rightarrow> (if eq_ignore_ascii_case executed hash then Some Refuses else None)
      | _ \<Rightarrow> None)"
| "build_refusal_of executed (KsLogic And conditions) =
     find_map id (map (build_refusal_of executed) conditions)"
| "build_refusal_of executed (KsLogic Or conditions) =
     (let refusals = map (build_refusal_of executed) conditions in
      if None \<in> set refusals then None else find_map id refusals)"
| "build_refusal_of executed _ = None"

definition build_refusal :: "string option \<Rightarrow> condition \<Rightarrow> refused_build option" where
  "build_refusal executed_wasm c = Option.bind executed_wasm (\<lambda>executed. build_refusal_of executed c)"

fun judges_calling_account :: "condition \<Rightarrow> bool" where
  "judges_calling_account (KsPredecessor _) \<longleftrightarrow> True"
| "judges_calling_account (KsLogic _ conditions) \<longleftrightarrow> (\<exists>c \<in> set conditions. judges_calling_account c)"
| "judges_calling_account (KsNot condition) \<longleftrightarrow> judges_calling_account condition"
| "judges_calling_account _ \<longleftrightarrow> False"

datatype denial_reason = BuildDenied refused_build "string option" | LapsedAt nat | Denied

record denial =
  dn_reason :: denial_reason
  dn_called_from :: "string option"

definition denial_message_in :: "judging \<Rightarrow> string \<Rightarrow> condition \<Rightarrow> denial" where
  "denial_message_in j caller c =
     (case build_refusal (executed_wasm_sha256 (jd_facts j)) c of
        Some refusal \<Rightarrow>
          \<lparr>dn_reason = BuildDenied refusal (executed_wasm_sha256 (jd_facts j)), dn_called_from = None\<rparr>
      | None \<Rightarrow>
          \<lparr>dn_reason =
             (case Option.bind (jd_now j) (\<lambda>now. lapsed_grant_in (jd_patterns j) caller now c) of
                Some t \<Rightarrow> LapsedAt t
              | None \<Rightarrow> Denied),
           dn_called_from =
             (if judges_calling_account c then predecessor_id (jd_facts j) else None)\<rparr>)"

section \<open>The door\<close>

datatype api_error =
    OutOfBounds | Unreadable string | Unauthorized denial | TimedOut | ValidationFailed unknown

text \<open>
  \<open>within_bounds\<close> is the shared bound on a condition's leaves, \<open>in_time\<close> whether the evaluation met
  its deadline.
\<close>

definition judge_access ::
  "(condition \<Rightarrow> bool) \<Rightarrow> engine \<Rightarrow> bool \<Rightarrow> near_client option \<Rightarrow> run_facts \<Rightarrow> nat option \<Rightarrow> string
     \<Rightarrow> condition \<Rightarrow> api_error + unit" where
  "judge_access within_bounds engine in_time client facts now caller c =
     (if \<not> within_bounds c then Inl OutOfBounds
      else case compile_patterns engine c of
             Inl unreadable \<Rightarrow> Inl (Unreadable unreadable)
           | Inr patterns \<Rightarrow>
               (let j = \<lparr>jd_client = client, jd_patterns = patterns, jd_facts = facts, jd_now = now\<rparr> in
                if \<not> in_time then Inl TimedOut
                else case evaluate j caller c of
                       Inr True \<Rightarrow> Inr ()
                     | Inr False \<Rightarrow> Inl (Unauthorized (denial_message_in j caller c))
                     | Inl e \<Rightarrow> Inl (ValidationFailed e)))"

section \<open>Evaluation is three-valued logic\<close>

definition known :: "verdict \<Rightarrow> bool option" where
  "known v = (case v of Inl _ \<Rightarrow> None | Inr b \<Rightarrow> Some b)"

lemma known_simps [simp]: "known (Inl e) = None" "known (Inr b) = Some b"
  by (simp_all add: known_def)

lemma known_Some [simp]: "known v = Some b \<longleftrightarrow> v = Inr b"
  by (cases v) simp_all

text \<open>The reference reading of a condition: its leaves, combined by the two folds.\<close>

fun kleene :: "judging \<Rightarrow> string \<Rightarrow> condition \<Rightarrow> bool option" where
  "kleene j caller (KsLogic And conditions) = all_known (map (kleene j caller) conditions)"
| "kleene j caller (KsLogic Or conditions) = any_known (map (kleene j caller) conditions)"
| "kleene j caller (KsNot condition) = map_option Not (kleene j caller condition)"
| "kleene j caller (KsPredecessor condition) =
     Option.bind (predecessor_id (jd_facts j)) (\<lambda>pred. kleene j pred condition)"
| "kleene j caller leaf = known (evaluate j caller leaf)"

lemma all_known_Cons:
  "all_known (v # vs) =
     (case v of Some True \<Rightarrow> all_known vs | Some False \<Rightarrow> Some False
      | None \<Rightarrow> (if all_known vs = Some False then Some False else None))"
  by (auto simp: all_known_def split: option.splits bool.splits)

lemma any_known_Cons:
  "any_known (v # vs) =
     (case v of Some True \<Rightarrow> Some True | Some False \<Rightarrow> any_known vs
      | None \<Rightarrow> (if any_known vs = Some True then Some True else None))"
  by (auto simp: any_known_def split: option.splits bool.splits)

lemma known_all_pass:
  "known (all_pass j caller u cs) =
     (let v = all_known (map (\<lambda>c. known (evaluate j caller c)) cs) in
      if u = None \<or> v = Some False then v else None)"
  by (induction cs arbitrary: u)
    (auto simp: all_known_Cons Let_def split: option.splits sum.splits bool.splits if_splits,
     auto simp: all_known_def)

lemma known_any_passes:
  "known (any_passes j caller u cs) =
     (let v = any_known (map (\<lambda>c. known (evaluate j caller c)) cs) in
      if u = None \<or> v = Some True then v else None)"
  by (induction cs arbitrary: u)
    (auto simp: any_known_Cons Let_def split: option.splits sum.splits bool.splits if_splits,
     auto simp: any_known_def)

lemma known_evaluate: "known (evaluate j caller c) = kleene j caller c"
proof (induction c arbitrary: caller)
  case (KsLogic op cs)
  then show ?case by (cases op) (simp_all add: known_all_pass known_any_passes cong: map_cong)
next
  case (KsNot c)
  then show ?case by (simp flip: KsNot.IH split: sum.split)
next
  case (KsPredecessor c)
  then show ?case by (simp split: option.split)
qed simp_all

lemma evaluate_Inr: "evaluate j caller c = Inr b \<longleftrightarrow> kleene j caller c = Some b"
  by (simp flip: known_evaluate)

section \<open>More knowledge changes no verdict\<close>

definition at_least :: "'a option \<Rightarrow> 'a option \<Rightarrow> bool" where
  "at_least a b \<longleftrightarrow> a = None \<or> a = b"

lemma at_least_simps [simp]:
  "at_least None b" "at_least a a" "at_least (Some x) b \<longleftrightarrow> b = Some x"
  by (auto simp: at_least_def)

lemma at_least_map: "at_least a b \<Longrightarrow> at_least (map_option f a) (map_option f b)"
  by (auto simp: at_least_def)

lemma all_known_mono:
  "list_all2 at_least vs ws \<Longrightarrow> at_least (all_known vs) (all_known ws)"
proof (induction rule: list_all2_induct)
  case (Cons v vs w ws)
  then show ?case
    by (cases "all_known vs"; cases v; cases w)
      (auto simp: all_known_Cons at_least_def split: option.splits bool.splits)
qed simp

lemma any_known_mono:
  "list_all2 at_least vs ws \<Longrightarrow> at_least (any_known vs) (any_known ws)"
proof (induction rule: list_all2_induct)
  case (Cons v vs w ws)
  then show ?case
    by (cases "any_known vs"; cases v; cases w)
      (auto simp: any_known_Cons at_least_def split: option.splits bool.splits)
qed simp

text \<open>\<open>k\<close> answers whatever \<open>j\<close> answers, the same way, and possibly more.\<close>

definition client_informs :: "near_client \<Rightarrow> near_client \<Rightarrow> bool" where
  "client_informs a b \<longleftrightarrow>
     (\<forall>x. at_least (get_account_balance a x) (get_account_balance b x)) \<and>
     (\<forall>t x. at_least (get_ft_balance a t x) (get_ft_balance b t x)) \<and>
     (\<forall>t x i. at_least (check_nft_ownership a t x i) (check_nft_ownership b t x i)) \<and>
     (\<forall>d x r. at_least (check_dao_membership a d x r) (check_dao_membership b d x r))"

definition informs :: "judging \<Rightarrow> judging \<Rightarrow> bool" where
  "informs j k \<longleftrightarrow>
     (case jd_client j of None \<Rightarrow> True
      | Some a \<Rightarrow> (case jd_client k of None \<Rightarrow> False | Some b \<Rightarrow> client_informs a b)) \<and>
     (\<forall>p. at_least (jd_patterns j p) (jd_patterns k p)) \<and>
     at_least (executed_wasm_sha256 (jd_facts j)) (executed_wasm_sha256 (jd_facts k)) \<and>
     at_least (predecessor_id (jd_facts j)) (predecessor_id (jd_facts k)) \<and>
     at_least (jd_now j) (jd_now k)"

lemma answered_mono: "at_least a b \<Longrightarrow> at_least (known (answered a f)) (known (answered b f))"
  by (auto simp: answered_def at_least_def)

lemma judge_balance_mono:
  "at_least a b \<Longrightarrow> at_least (known (judge_balance v op a)) (known (judge_balance v op b))"
  by (auto simp: judge_balance_def answered_mono split: option.split)

lemma ask_chain_mono:
  assumes "informs j k"
    and "\<And>a b. client_informs a b \<Longrightarrow> at_least (known (f a)) (known (f b))"
  shows "at_least (known (ask_chain j f)) (known (ask_chain k f))"
  using assms by (auto simp: informs_def ask_chain_def split: option.splits)

lemma kleene_mono:
  assumes "informs j k"
  shows "at_least (kleene j caller c) (kleene k caller c)"
proof (induction c arbitrary: caller)
  case (KsLogic op cs)
  then have "list_all2 at_least (map (kleene j caller) cs) (map (kleene k caller) cs)"
    by (simp add: list_all2_map1 list_all2_map2 list.rel_refl_strong)
  then show ?case by (cases op) (simp_all add: all_known_mono any_known_mono)
next
  case (KsNot c)
  then show ?case by (simp add: at_least_map)
next
  case (KsPredecessor c)
  moreover have "at_least (predecessor_id (jd_facts j)) (predecessor_id (jd_facts k))"
    using assms by (simp add: informs_def)
  ultimately show ?case by (cases "predecessor_id (jd_facts j)") simp_all
next
  case (KsAccountPattern p)
  from assms have "at_least (jd_patterns j p) (jd_patterns k p)" by (simp add: informs_def)
  then show ?case by (auto simp: at_least_def split: option.splits)
next
  case (KsValidUntil t)
  from assms show ?case by (auto simp: informs_def at_least_def split: option.splits)
next
  case (KsWasmHash h)
  from assms show ?case by (auto simp: informs_def at_least_def split: option.splits)
next
  case (KsNearBalance op v)
  from assms show ?case by (auto intro!: ask_chain_mono judge_balance_mono simp: client_informs_def)
next
  case (KsFtBalance t op v)
  from assms show ?case by (auto intro!: ask_chain_mono judge_balance_mono simp: client_informs_def)
next
  case (KsNftOwned t i)
  from assms show ?case by (auto intro!: ask_chain_mono answered_mono simp: client_informs_def)
next
  case (KsDaoMember d r)
  from assms show ?case by (auto intro!: ask_chain_mono answered_mono simp: client_informs_def)
qed simp_all

section \<open>Readings without the chain are sound\<close>

lemma holds_at_least_kleene:
  assumes "jd_now j = Some now"
  shows "at_least (holds_without_the_chain (jd_patterns j) (jd_facts j) now caller c) (kleene j caller c)"
proof (induction c)
  case (KsLogic op cs)
  then have "list_all2 at_least
      (map (holds_without_the_chain (jd_patterns j) (jd_facts j) now caller) cs) (map (kleene j caller) cs)"
    by (simp add: list_all2_map1 list_all2_map2 list.rel_refl_strong)
  then show ?case by (cases op) (simp_all add: all_known_mono any_known_mono)
next
  case (KsNot c)
  then show ?case by (simp add: at_least_map)
next
  case (KsValidUntil t)
  with assms show ?case by (simp add: valid_until_at_def split: option.split)
qed (auto split: option.split)

lemma holds_evaluates:
  assumes "jd_now j = Some now"
    and "holds_without_the_chain (jd_patterns j) (jd_facts j) now caller c = Some b"
  shows "evaluate j caller c = Inr b"
  using holds_at_least_kleene [OF assms(1), of caller c] assms(2) by (simp add: evaluate_Inr)

text \<open>
  An admission by name: a whitelist that lists the caller, below conjunctions all of whose branches
  admit and disjunctions on the branch that admits.
\<close>

inductive admitted_by_name :: "judging \<Rightarrow> string \<Rightarrow> condition \<Rightarrow> bool" for j caller where
  listed: "caller \<in> set accounts \<Longrightarrow> admitted_by_name j caller (KsWhitelist accounts)"
| conjunct: "c \<in> set cs \<Longrightarrow> admitted_by_name j caller c \<Longrightarrow>
    (\<And>d. d \<in> set cs \<Longrightarrow> evaluate j caller d = Inr True) \<Longrightarrow>
    admitted_by_name j caller (KsLogic And cs)"
| disjunct: "c \<in> set cs \<Longrightarrow> admitted_by_name j caller c \<Longrightarrow> admitted_by_name j caller (KsLogic Or cs)"

lemma all_known_True: "all_known vs = Some True \<longleftrightarrow> (\<forall>v \<in> set vs. v = Some True)"
  by (auto simp: all_known_def) (metis (full_types) option.exhaust)

lemma any_known_True: "any_known vs = Some True \<longleftrightarrow> Some True \<in> set vs"
  by (simp add: any_known_def)

lemma all_known_False: "all_known vs = Some False \<longleftrightarrow> Some False \<in> set vs"
  by (simp add: all_known_def)

lemma any_known_False: "any_known vs = Some False \<longleftrightarrow> (\<forall>v \<in> set vs. v = Some False)"
  by (auto simp: any_known_def) (metis (full_types) option.exhaust)

lemmas known_folds = all_known_True any_known_True all_known_False any_known_False

lemma evaluate_logic:
  "evaluate j caller (KsLogic And cs) = Inr True \<longleftrightarrow> (\<forall>c \<in> set cs. evaluate j caller c = Inr True)"
  "evaluate j caller (KsLogic Or cs) = Inr True \<longleftrightarrow> (\<exists>c \<in> set cs. evaluate j caller c = Inr True)"
  "evaluate j caller (KsLogic And cs) = Inr False \<longleftrightarrow> (\<exists>c \<in> set cs. evaluate j caller c = Inr False)"
  "evaluate j caller (KsLogic Or cs) = Inr False \<longleftrightarrow> (\<forall>c \<in> set cs. evaluate j caller c = Inr False)"
  unfolding evaluate_Inr by (force simp: known_folds)+

lemma admitted_by_name_admits: "admitted_by_name j caller c \<Longrightarrow> evaluate j caller c = Inr True"
  by (induction rule: admitted_by_name.induct) (auto simp: evaluate_logic simp del: evaluate.simps(4,5))

lemma names_on_path_sound:
  assumes now: "jd_now j = Some now"
  shows "names_on_an_admitting_path (jd_patterns j) (jd_facts j) now caller known_to_hold c \<Longrightarrow>
    (known_to_hold \<Longrightarrow> evaluate j caller c = Inr True) \<Longrightarrow> admitted_by_name j caller c"
proof (induction c arbitrary: known_to_hold)
  case (KsLogic op cs)
  show ?case
  proof (cases op)
    case And
    with KsLogic.prems(1) obtain i where i: "i < length cs"
      and path: "names_on_an_admitting_path (jd_patterns j) (jd_facts j) now caller known_to_hold (cs ! i)"
      and beside: "known_to_hold \<or> (\<forall>k \<in> {..<length cs} - {i}.
        holds_without_the_chain (jd_patterns j) (jd_facts j) now caller (cs ! k) = Some True)" by auto
    have all: "evaluate j caller d = Inr True" if "known_to_hold" "d \<in> set cs" for d
      using KsLogic.prems(2) that And by (simp add: evaluate_logic del: evaluate.simps)
    have named: "admitted_by_name j caller (cs ! i)"
      using KsLogic.IH [OF _ path] i all by simp
    have "evaluate j caller (cs ! k) = Inr True" if "k < length cs" for k
      using beside all that admitted_by_name_admits [OF named] holds_evaluates [OF now]
      by (cases "k = i") auto
    then have "evaluate j caller d = Inr True" if "d \<in> set cs" for d
      using that by (metis in_set_conv_nth)
    then show ?thesis using And i named conjunct [of "cs ! i" cs] by simp
  next
    case Or
    with KsLogic.prems(1) obtain c where "c \<in> set cs"
      "names_on_an_admitting_path (jd_patterns j) (jd_facts j) now caller False c" by auto
    with KsLogic.IH [of c False] Or show ?thesis by (auto intro: disjunct)
  qed
qed (simp_all add: admitted_by_name.listed)

section \<open>Compiled patterns\<close>

fun patterns_in :: "condition \<Rightarrow> string set" where
  "patterns_in (KsAccountPattern pattern) = {pattern}"
| "patterns_in (KsLogic _ conditions) = (\<Union>c \<in> set conditions. patterns_in c)"
| "patterns_in (KsNot condition) = patterns_in condition"
| "patterns_in (KsPredecessor condition) = patterns_in condition"
| "patterns_in _ = {}"

abbreviation compiled_as :: "engine \<Rightarrow> compiled_patterns" where
  "compiled_as engine \<equiv> compile_anchored_account_pattern engine"

lemma collected:
  "collect_patterns engine c into = Inr m \<Longrightarrow> into \<subseteq>\<^sub>m compiled_as engine \<Longrightarrow>
     m \<subseteq>\<^sub>m compiled_as engine \<and> dom into \<union> patterns_in c \<subseteq> dom m"
  "collect_all engine cs into = Inr m \<Longrightarrow> into \<subseteq>\<^sub>m compiled_as engine \<Longrightarrow>
     m \<subseteq>\<^sub>m compiled_as engine \<and> dom into \<union> (\<Union>c \<in> set cs. patterns_in c) \<subseteq> dom m"
proof (induction engine c into and engine cs into arbitrary: m and m rule: collect_patterns_collect_all.induct)
  case (7 engine c cs into)
  from 7(3) obtain k where k: "collect_patterns engine c into = Inr k" "collect_all engine cs k = Inr m"
    by (auto split: sum.splits)
  from 7(1) [OF k(1) 7(4)] 7(2) [OF k] show ?case by (simp, meson subset_trans)
next
  case (1 engine pattern into)
  then show ?case by (auto simp: map_le_def domI split: if_splits option.splits) (metis domI)
qed auto

lemma not_collected:
  "collect_patterns engine c into = Inl p \<Longrightarrow> p \<in> patterns_in c \<and> compiled_as engine p = None"
  "collect_all engine cs into = Inl p \<Longrightarrow> p \<in> (\<Union>c \<in> set cs. patterns_in c) \<and> compiled_as engine p = None"
  by (induction engine c into and engine cs into rule: collect_patterns_collect_all.induct)
    (auto split: if_splits option.splits sum.splits)

lemma evaluate_patterns_cong:
  "(\<And>p. p \<in> patterns_in c \<Longrightarrow> jd_patterns j p = m p) \<Longrightarrow> kleene (j\<lparr>jd_patterns := m\<rparr>) caller c = kleene j caller c"
proof (induction c arbitrary: caller)
  case (KsLogic op cs)
  have "kleene (j\<lparr>jd_patterns := m\<rparr>) caller c = kleene j caller c" if "c \<in> set cs" for c
    using KsLogic.IH [OF that] KsLogic.prems that by auto
  then show ?case by (cases op) (simp_all cong: map_cong)
qed (auto simp: ask_chain_def split: option.split)

lemma compile_patterns_outcome:
  "case compile_patterns engine c of
     Inl p \<Rightarrow> p \<in> patterns_in c \<and> compiled_as engine p = None
   | Inr m \<Rightarrow> \<forall>p \<in> patterns_in c. m p = compiled_as engine p \<and> compiled_as engine p \<noteq> None"
proof (cases "compile_patterns engine c")
  case (Inl p)
  with not_collected(1) show ?thesis by (auto simp: compile_patterns_def)
next
  case (Inr m)
  with collected(1) [of engine c Map.empty m] have "m \<subseteq>\<^sub>m compiled_as engine" "patterns_in c \<subseteq> dom m"
    by (auto simp: compile_patterns_def)
  then have "m p = compiled_as engine p \<and> compiled_as engine p \<noteq> None" if "p \<in> patterns_in c" for p
    using that by (metis domIff map_le_def subsetD)
  with Inr show ?thesis by simp
qed

section \<open>Refusals over a build\<close>

lemma find_map_Some: "find_map f xs = Some y \<Longrightarrow> \<exists>x \<in> set xs. f x = Some y"
  by (induction xs) (auto split: option.splits)

lemma build_refusal_refuses:
  "executed_wasm_sha256 (jd_facts j) = Some executed \<Longrightarrow> build_refusal_of executed c = Some r \<Longrightarrow>
     evaluate j caller c = Inr False"
proof (induction c arbitrary: r)
  case (KsLogic op cs)
  show ?case
  proof (cases op)
    case And
    with KsLogic.prems(2) find_map_Some [of id "map (build_refusal_of executed) cs" r]
    obtain c where "c \<in> set cs" "build_refusal_of executed c = Some r" by fastforce
    with KsLogic And show ?thesis by (auto simp: evaluate_logic simp del: evaluate.simps)
  next
    case Or
    with KsLogic.prems(2) have "\<forall>c \<in> set cs. \<exists>r'. build_refusal_of executed c = Some r'"
      by (auto simp: Let_def image_iff split: if_splits) (metis option.exhaust)
    with KsLogic.IH KsLogic.prems(1) Or show ?thesis
      by (auto simp: evaluate_logic simp del: evaluate.simps)
  qed
next
  case (KsNot c)
  then show ?case by (cases c) (auto split: if_splits)
qed (auto split: if_splits)

lemma lapsed_limit_Some: "lapsed_limit now c = Some t \<Longrightarrow> t \<le> now \<and> (\<exists>u. c = KsValidUntil u \<and> parse_u64 u = Some t)"
  by (cases c) (auto split: option.splits if_splits)

section \<open>What the contract stores, the keystore reads\<close>

text \<open>
  The condition of a row as the keystore reads it: the contract writes its \<open>U128\<close> and \<open>U64\<close> fields as
  decimal strings.
\<close>

fun read_condition :: "access_condition \<Rightarrow> condition" where
  "read_condition (Logic op cs) = KsLogic op (map read_condition cs)"
| "read_condition (NotCond c) = KsNot (read_condition c)"
| "read_condition AllowAll = KsAllowAll"
| "read_condition (Whitelist accounts) = KsWhitelist accounts"
| "read_condition (AccountPattern pattern) = KsAccountPattern pattern"
| "read_condition (NearBalance op v) = KsNearBalance op (show_nat v)"
| "read_condition (FtBalance token op v) = KsFtBalance token op (show_nat v)"
| "read_condition (NftOwned token i) = KsNftOwned token i"
| "read_condition (DaoMember dao role) = KsDaoMember dao role"
| "read_condition (ValidUntil t) = KsValidUntil (show_nat t)"
| "read_condition (WasmHash hash) = KsWasmHash hash"
| "read_condition (Predecessor c) = KsPredecessor (read_condition c)"

fun numbers_fit :: "access_condition \<Rightarrow> bool" where
  "numbers_fit (Logic _ cs) \<longleftrightarrow> (\<forall>c \<in> set cs. numbers_fit c)"
| "numbers_fit (NotCond c) \<longleftrightarrow> numbers_fit c"
| "numbers_fit (Predecessor c) \<longleftrightarrow> numbers_fit c"
| "numbers_fit (NearBalance _ v) \<longleftrightarrow> v < 2 ^ 128"
| "numbers_fit (FtBalance _ _ v) \<longleftrightarrow> v < 2 ^ 128"
| "numbers_fit (ValidUntil t) \<longleftrightarrow> t < 2 ^ 64"
| "numbers_fit _ \<longleftrightarrow> True"

text \<open>A judging in which nothing is missing for the patterns of \<open>P\<close>.\<close>

definition complete :: "judging \<Rightarrow> string set \<Rightarrow> bool" where
  "complete j P \<longleftrightarrow>
     (\<exists>client. jd_client j = Some client \<and> (\<forall>x. get_account_balance client x \<noteq> None) \<and>
        (\<forall>t x. get_ft_balance client t x \<noteq> None) \<and> (\<forall>t x i. check_nft_ownership client t x i \<noteq> None) \<and>
        (\<forall>d x r. check_dao_membership client d x r \<noteq> None)) \<and>
     P \<subseteq> dom (jd_patterns j) \<and> executed_wasm_sha256 (jd_facts j) \<noteq> None \<and>
     predecessor_id (jd_facts j) \<noteq> None \<and> jd_now j \<noteq> None"

lemma complete_mono: "complete j P \<Longrightarrow> Q \<subseteq> P \<Longrightarrow> complete j Q"
  by (auto simp: complete_def)

text \<open>The verdict of a condition as the contract states it, over complete facts.\<close>

fun row_admits :: "judging \<Rightarrow> string \<Rightarrow> access_condition \<Rightarrow> bool" where
  "row_admits j caller (Logic And cs) \<longleftrightarrow> (\<forall>c \<in> set cs. row_admits j caller c)"
| "row_admits j caller (Logic Or cs) \<longleftrightarrow> (\<exists>c \<in> set cs. row_admits j caller c)"
| "row_admits j caller (NotCond c) \<longleftrightarrow> \<not> row_admits j caller c"
| "row_admits j caller AllowAll \<longleftrightarrow> True"
| "row_admits j caller (Whitelist accounts) \<longleftrightarrow> caller \<in> set accounts"
| "row_admits j caller (AccountPattern p) \<longleftrightarrow> the (jd_patterns j p) caller"
| "row_admits j caller (NearBalance op v) \<longleftrightarrow>
     compare_values (the (get_account_balance (the (jd_client j)) caller)) op v"
| "row_admits j caller (FtBalance token op v) \<longleftrightarrow>
     compare_values (the (get_ft_balance (the (jd_client j)) token caller)) op v"
| "row_admits j caller (NftOwned token i) \<longleftrightarrow>
     the (check_nft_ownership (the (jd_client j)) token caller i)"
| "row_admits j caller (DaoMember dao role) \<longleftrightarrow>
     the (check_dao_membership (the (jd_client j)) dao caller role)"
| "row_admits j caller (ValidUntil t) \<longleftrightarrow> the (jd_now j) < t"
| "row_admits j caller (WasmHash hash) \<longleftrightarrow>
     eq_ignore_ascii_case (the (executed_wasm_sha256 (jd_facts j))) hash"
| "row_admits j caller (Predecessor c) \<longleftrightarrow> row_admits j (the (predecessor_id (jd_facts j))) c"

lemma answered_read: "reading \<noteq> None \<Longrightarrow> answered reading f = Inr (f (the reading))"
  by (auto simp: answered_def)

lemma row_verdict:
  "complete j (patterns_in (read_condition c)) \<Longrightarrow> numbers_fit c \<Longrightarrow>
     kleene j caller (read_condition c) = Some (row_admits j caller c)"
proof (induction c arbitrary: caller)
  case (Logic op cs)
  have IH: "kleene j caller (read_condition c) = Some (row_admits j caller c)" if "c \<in> set cs" for c
    using Logic.IH [OF that] complete_mono [OF Logic.prems(1)] Logic.prems(2) that by auto
  then have "map (kleene j caller \<circ> read_condition) cs = map (\<lambda>c. Some (row_admits j caller c)) cs" by simp
  then show ?case
    by (cases op) (auto simp: all_known_def any_known_def image_iff simp del: map_eq_conv)
qed (auto simp: complete_def ask_chain_def judge_balance_def answered_read parse_show_uint valid_until_at_def)

section \<open>The door in terms of the reference reading\<close>

lemma judge_access_admits:
  "judge_access within_bounds engine in_time client facts now caller c = Inr () \<longleftrightarrow>
     within_bounds c \<and> in_time \<and> (\<forall>p \<in> patterns_in c. compiled_as engine p \<noteq> None) \<and>
     kleene \<lparr>jd_client = client, jd_patterns = compiled_as engine, jd_facts = facts, jd_now = now\<rparr>
       caller c = Some True"
proof (cases "compile_patterns engine c")
  case (Inl p)
  with compile_patterns_outcome [of c engine] show ?thesis by (auto simp: judge_access_def)
next
  case (Inr m)
  let ?j = "\<lparr>jd_client = client, jd_patterns = compiled_as engine, jd_facts = facts, jd_now = now\<rparr>"
  let ?k = "\<lparr>jd_client = client, jd_patterns = m, jd_facts = facts, jd_now = now\<rparr>"
  from compile_patterns_outcome [of c engine] Inr
  have m: "\<forall>p \<in> patterns_in c. m p = compiled_as engine p \<and> compiled_as engine p \<noteq> None" by simp
  with evaluate_patterns_cong [of c ?j m caller]
  have "evaluate ?k caller c = Inr True \<longleftrightarrow> kleene ?j caller c = Some True" by (simp add: evaluate_Inr)
  with m Inr show ?thesis
    by (cases "evaluate ?k caller c") (auto simp: judge_access_def Let_def split: bool.split)
qed

section \<open>Properties\<close>

text \<open>
  C33. The evaluation is Kleene's three-valued logic: an error anywhere is an unknown, a conjunction
  fails as soon as one branch fails and a disjunction holds as soon as one branch holds, whatever
  the others could not decide, and otherwise an unknown branch makes the whole unknown. In
  particular the order of branches does not matter: the same branches in any order, or repeated,
  give the same verdict.
\<close>

theorem evaluation_is_kleene:
  "known (evaluate j caller c) = kleene j caller c \<and>
   (\<forall>op cs ds. set cs = set ds \<longrightarrow>
      known (evaluate j caller (KsLogic op cs)) = known (evaluate j caller (KsLogic op ds)))"
proof (intro conjI allI impI)
  show "known (evaluate j caller c) = kleene j caller c" by (rule known_evaluate)
  fix op and cs ds :: "condition list"
  assume "set cs = set ds"
  then show "known (evaluate j caller (KsLogic op cs)) = known (evaluate j caller (KsLogic op ds))"
    unfolding known_evaluate by (cases op) (simp_all add: all_known_def any_known_def)
qed

text \<open>
  No verdict rests on an unknown: what is admitted or refused while reads failed, facts were
  missing or the clock could not be read stays admitted or refused, whatever the missing answers
  turn out to be.
\<close>

theorem verdict_survives_knowledge:
  assumes "informs j k" "evaluate j caller c = Inr b"
  shows "evaluate k caller c = Inr b"
  using kleene_mono [OF assms(1), of caller c] assms(2) by (simp add: evaluate_Inr)

text \<open>
  C34. The door admits exactly whom the condition admits: the condition is within the shared bounds,
  every pattern in it compiles, anchored at both ends, wherever it stands, the evaluation met its
  deadline, and the reference reading over those patterns is a known yes. When a denial blames the
  build, no caller, no answer of the chain and no time would have had that run admitted.
\<close>

theorem door_admits_exactly:
  "(judge_access within_bounds engine in_time client facts now caller c = Inr () \<longleftrightarrow>
     within_bounds c \<and> in_time \<and> (\<forall>p \<in> patterns_in c. compiled_as engine p \<noteq> None) \<and>
     kleene \<lparr>jd_client = client, jd_patterns = compiled_as engine, jd_facts = facts, jd_now = now\<rparr>
       caller c = Some True) \<and>
   (\<forall>d r w. judge_access within_bounds engine in_time client facts now caller c = Inl (Unauthorized d) \<longrightarrow>
      dn_reason d = BuildDenied r w \<longrightarrow>
      (\<forall>in_time' client' now' caller'.
         judge_access within_bounds engine in_time' client' facts now' caller' c \<noteq> Inr ()))"
proof (intro conjI allI impI)
  show "judge_access within_bounds engine in_time client facts now caller c = Inr () \<longleftrightarrow>
     within_bounds c \<and> in_time \<and> (\<forall>p \<in> patterns_in c. compiled_as engine p \<noteq> None) \<and>
     kleene \<lparr>jd_client = client, jd_patterns = compiled_as engine, jd_facts = facts, jd_now = now\<rparr>
       caller c = Some True"
    by (rule judge_access_admits)
  fix d r w in_time' client' now' caller'
  assume "judge_access within_bounds engine in_time client facts now caller c = Inl (Unauthorized d)"
    "dn_reason d = BuildDenied r w"
  then obtain x r where x: "executed_wasm_sha256 facts = Some x" "build_refusal_of x c = Some r"
    by (auto simp: judge_access_def denial_message_in_def Let_def build_refusal_def
        bind_eq_Some_conv split: if_splits sum.splits bool.splits option.splits)
  let ?j = "\<lparr>jd_client = client', jd_patterns = compiled_as engine, jd_facts = facts, jd_now = now'\<rparr>"
  have "evaluate ?j caller' c = Inr False" by (rule build_refusal_refuses [OF _ x(2)]) (simp add: x)
  then show "judge_access within_bounds engine in_time' client' facts now' caller' c \<noteq> Inr ()"
    by (simp add: judge_access_admits flip: evaluate_Inr)
qed

text \<open>
  An admission by name is one: when the condition admits the caller and \<open>admits_by_name\<close> says so,
  a whitelist listing the caller stands on a path of the condition all of whose conjunctions hold
  in full and whose every disjunction is taken on that branch.
\<close>

theorem name_admitted:
  assumes "evaluate j caller c = Inr True" "jd_now j = Some now"
    and "admits_by_name (jd_patterns j) (jd_facts j) now caller c"
  shows "admitted_by_name j caller c"
  using names_on_path_sound [OF assms(2)] assms(1,3) by (simp add: admits_by_name_def)

text \<open>
  C36. What the contract stored can be judged: with every chain read answered, the run's facts
  reported and the patterns compiled, a stored condition has a verdict, and it is the one its tree
  states of the caller, its numbers read back as they were written.
\<close>

theorem stored_condition_judged:
  assumes "complete j (patterns_in (read_condition c))" "numbers_fit c"
  shows "evaluate j caller (read_condition c) = Inr (row_admits j caller c)"
  using row_verdict [OF assms] by (simp add: evaluate_Inr)

section \<open>Witnesses\<close>

definition quiet_client :: near_client where
  "quiet_client = \<lparr>get_account_balance = (\<lambda>_. None), get_ft_balance = (\<lambda>_ _. None),
     check_nft_ownership = (\<lambda>_ _ _. None), check_dao_membership = (\<lambda>_ _ _. None)\<rparr>"

definition talking_client :: near_client where
  "talking_client = \<lparr>get_account_balance = (\<lambda>_. Some 5), get_ft_balance = (\<lambda>_ _. Some 7),
     check_nft_ownership = (\<lambda>_ _ _. Some True), check_dao_membership = (\<lambda>_ _ _. Some False)\<rparr>"

definition judging_with :: "near_client \<Rightarrow> judging" where
  "judging_with client = \<lparr>jd_client = Some client, jd_patterns = Map.empty,
     jd_facts = \<lparr>executed_wasm_sha256 = Some ''ab'', predecessor_id = Some ''p.near''\<rparr>, jd_now = Some 9\<rparr>"

definition dated_grant :: access_condition where
  "dated_grant = Logic And [Whitelist [''a.near''], ValidUntil 12, Logic Or [NearBalance Gte 3, WasmHash ''AB'']]"

lemma parse_twelve: "parse_u64 (show_nat 12) = Some 12"
  by (simp add: parse_show_uint)

lemma dated_grant_quiet: "evaluate (judging_with quiet_client) ''a.near'' (read_condition dated_grant) = Inr True"
  by (simp add: dated_grant_def judging_with_def quiet_client_def ask_chain_def judge_balance_def
      answered_def parse_show_uint parse_twelve valid_until_at_def eq_ignore_ascii_case_def ascii_lower_def)

theorem evaluation_is_kleene_witness:
  "known (evaluate (judging_with quiet_client) ''a.near'' (KsLogic Or [KsNearBalance Gt ''1'', KsAllowAll]))
     = Some True"
proof -
  have "set [KsNearBalance Gt ''1'', KsAllowAll] = set [KsAllowAll, KsNearBalance Gt ''1'']" by auto
  with evaluation_is_kleene [of "judging_with quiet_client" "''a.near''" KsAllowAll]
  have "known (evaluate (judging_with quiet_client) ''a.near'' (KsLogic Or [KsNearBalance Gt ''1'', KsAllowAll]))
    = known (evaluate (judging_with quiet_client) ''a.near'' (KsLogic Or [KsAllowAll, KsNearBalance Gt ''1'']))"
    by blast
  then show ?thesis by simp
qed

theorem verdict_survives_knowledge_witness:
  "evaluate (judging_with talking_client) ''a.near'' (read_condition dated_grant) = Inr True"
proof -
  have "informs (judging_with quiet_client) (judging_with talking_client)"
    by (simp add: informs_def judging_with_def quiet_client_def client_informs_def)
  from verdict_survives_knowledge [OF this dated_grant_quiet] show ?thesis .
qed

theorem door_admits_exactly_witness:
  "judge_access (\<lambda>c. True) (\<lambda>p. Some (\<lambda>x. x = ''a.near'')) True None
     \<lparr>executed_wasm_sha256 = None, predecessor_id = None\<rparr> None ''a.near''
     (KsLogic Or [KsWasmHash ''00'', KsAccountPattern ''a[.]near'']) = Inr ()"
proof -
  let ?j = "\<lparr>jd_client = None, jd_patterns = compiled_as (\<lambda>p. Some (\<lambda>x. x = ''a.near'')),
     jd_facts = \<lparr>executed_wasm_sha256 = None, predecessor_id = None\<rparr>, jd_now = None\<rparr>"
  have "kleene ?j ''a.near'' (KsLogic Or [KsWasmHash ''00'', KsAccountPattern ''a[.]near'']) = Some True"
    by (simp add: any_known_def compile_anchored_account_pattern_def)
  with door_admits_exactly [of "\<lambda>c. True" "\<lambda>p. Some (\<lambda>x. x = ''a.near'')" True None
      "\<lparr>executed_wasm_sha256 = None, predecessor_id = None\<rparr>" None "''a.near''"
      "KsLogic Or [KsWasmHash ''00'', KsAccountPattern ''a[.]near'']"]
  show ?thesis by (simp add: compile_anchored_account_pattern_def)
qed

theorem name_admitted_witness:
  "admitted_by_name (judging_with quiet_client) ''a.near'' (read_condition dated_grant)"
proof -
  let ?j = "judging_with quiet_client"
  have "admits_by_name (jd_patterns ?j) (jd_facts ?j) 9 ''a.near'' (read_condition dated_grant)"
    by (auto simp: admits_by_name_def dated_grant_def intro!: bexI [of _ 0])
  moreover have "jd_now ?j = Some 9" by (simp add: judging_with_def)
  ultimately show ?thesis using name_admitted [OF dated_grant_quiet, of 9] by simp
qed

theorem stored_condition_judged_witness:
  "evaluate (judging_with talking_client) ''b.near'' (read_condition dated_grant) = Inr False"
proof -
  have "complete (judging_with talking_client) (patterns_in (read_condition dated_grant))"
    by (auto simp: complete_def judging_with_def talking_client_def dated_grant_def)
  moreover have "numbers_fit dated_grant" by (simp add: dated_grant_def)
  ultimately show ?thesis
    using stored_condition_judged [of "judging_with talking_client" dated_grant "''b.near''"]
    by (simp add: dated_grant_def)
qed

end
