(* ===== verification/Vault.thy ===== *)
theory Vault
  imports Near_Prelude "HOL-Library.Multiset"
begin

text \<open>
  The per-customer vault (\<open>vault-contract/src/lib.rs\<close>): an account whose keys belong to attested
  keystore workers until its parent takes it back, either because the keystore DAO declared
  cessation or by a unilateral exit, each after a delay. The operations come first; then the vault
  beside the access keys of its account and the receipts in flight, since every hand-over runs
  through cross-contract calls and callbacks that other calls can overtake. The timings are those
  of the default build.
\<close>

section \<open>State\<close>

type_synonym public_key = string

datatype recovery_trigger = Cessation | Unilateral

record recovery_state =
  initiated_at :: nat
  finalize_after :: nat
  finalize_before :: nat
  recovery_cause :: recovery_trigger

record vault =
  vault_parent :: account
  keystore_dao :: account
  mpc_contract :: account
  initial_tee_key :: "public_key option"
  registered_tee_keys :: "public_key list"
  recovery :: "recovery_state option"
  unlocked :: bool
  unilateral_exit_window_secs :: nat

definition SECOND_NS :: nat where "SECOND_NS = 1000000000"
definition DAY_SECS :: nat where "DAY_SECS = 24 * 60 * 60"
definition CESSATION_DELAY_NS :: nat where "CESSATION_DELAY_NS = 7 * DAY_SECS * SECOND_NS"
definition FINALIZE_WINDOW_NS :: nat where "FINALIZE_WINDOW_NS = 7 * DAY_SECS * SECOND_NS"
definition DEFAULT_UNILATERAL_EXIT_WINDOW_SECS :: nat where
  "DEFAULT_UNILATERAL_EXIT_WINDOW_SECS = DAY_SECS"
definition MIN_UNILATERAL_EXIT_WINDOW_SECS :: nat where "MIN_UNILATERAL_EXIT_WINDOW_SECS = DAY_SECS"
definition MAX_UNILATERAL_EXIT_WINDOW_SECS :: nat where
  "MAX_UNILATERAL_EXIT_WINDOW_SECS = 30 * DAY_SECS"
definition MAX_REGISTERED_TEE_KEYS :: nat where "MAX_REGISTERED_TEE_KEYS = 32"
definition DEFAULT_PARENT_FCAK_ALLOWANCE :: nat where "DEFAULT_PARENT_FCAK_ALLOWANCE = 10 ^ 24"

datatype vault_refusal =
    NotASubAccount | ExitWindowOutOfRange | AlreadyUnlocked | NotUnlocked | KeyIsInitial
  | KeyRegistered | KeyLimitReached | DaoCallFailed | KeyNotApproved | NotSelfCall | NotTheParent
  | NoKeysGiven | DuplicateKey | WouldRemoveAllKeys | KeyNotRegistered | RecoveryInProgress
  | NotCeased | NoRecovery | DelayNotElapsed | ZeroAllowance

text \<open>
  What a call asks of the runtime: a view of the DAO with the callback that follows it, actions on
  the vault's own account, the call of the MPC contract, and the value returned.
\<close>

datatype vault_effect =
    AskKeystoreApproved public_key
  | AskCeasedToInitiate
  | AskCeasedToFinalize public_key
  | AddTeeKey public_key
  | DeleteKeys "public_key list"
  | SwapKeys "public_key list" public_key bool
  | AddFullAccessKey public_key
  | AddLimitedKey public_key nat
  | RequestAppPrivateKey account string nat
  | ReturnBool bool

type_synonym vault_outcome = "(vault_refusal, vault \<times> vault_effect list) call"

section \<open>Operations\<close>

definition assert_exit_window_in_range :: "nat \<Rightarrow> (vault_refusal, 'a) call \<Rightarrow> (vault_refusal, 'a) call" where
  "assert_exit_window_in_range secs k =
     ensure (secs \<ge> MIN_UNILATERAL_EXIT_WINDOW_SECS \<and> secs \<le> MAX_UNILATERAL_EXIT_WINDOW_SECS)
       ExitWindowOutOfRange k"

text \<open>\<open>is_sub_account_of\<close> is the account-id library's.\<close>

definition new_vault ::
  "(account \<Rightarrow> account \<Rightarrow> bool) \<Rightarrow> ctx \<Rightarrow> account \<Rightarrow> account \<Rightarrow> account \<Rightarrow> public_key option \<Rightarrow> nat option
     \<Rightarrow> (vault_refusal, vault) call" where
  "new_vault is_sub_account_of cx parent dao mpc initial_tee_pubkey initial_exit_window =
     not_payable cx (
     ensure (is_sub_account_of (current_account cx) parent) NotASubAccount (
     let window = (case initial_exit_window of
                     None \<Rightarrow> DEFAULT_UNILATERAL_EXIT_WINDOW_SECS | Some w \<Rightarrow> w) in
     assert_exit_window_in_range window (
     Inr \<lparr>vault_parent = parent, keystore_dao = dao, mpc_contract = mpc,
          initial_tee_key = initial_tee_pubkey, registered_tee_keys = [], recovery = None,
          unlocked = False, unilateral_exit_window_secs = window\<rparr>)))"

definition check_new_tee_key :: "public_key \<Rightarrow> vault \<Rightarrow> (vault_refusal, 'a) call \<Rightarrow> (vault_refusal, 'a) call" where
  "check_new_tee_key public_key v k =
     ensure (initial_tee_key v \<noteq> Some public_key) KeyIsInitial (
     ensure (public_key \<notin> set (registered_tee_keys v)) KeyRegistered (
     ensure (length (registered_tee_keys v) < MAX_REGISTERED_TEE_KEYS) KeyLimitReached k))"

definition propose_tee_key :: "ctx \<Rightarrow> public_key \<Rightarrow> vault \<Rightarrow> vault_outcome" where
  "propose_tee_key cx public_key v =
     not_payable cx (
     ensure (\<not> unlocked v) AlreadyUnlocked (
     check_new_tee_key public_key v (
     Inr (v, [AskKeystoreApproved public_key]))))"

definition callback_add_tee_key :: "ctx \<Rightarrow> public_key \<Rightarrow> bool option \<Rightarrow> vault \<Rightarrow> vault_outcome" where
  "callback_add_tee_key cx public_key result v =
     private_call cx (not_payable cx (
     expect result DaoCallFailed (\<lambda>approved.
     ensure approved KeyNotApproved (
     check_new_tee_key public_key v (
     Inr (v\<lparr>registered_tee_keys := registered_tee_keys v @ [public_key]\<rparr>,
          [AddTeeKey public_key]))))))"

definition request_master :: "ctx \<Rightarrow> string \<Rightarrow> vault \<Rightarrow> vault_outcome" where
  "request_master cx request v =
     ensure (predecessor cx = current_account cx) NotSelfCall (
     ensure (\<not> unlocked v) AlreadyUnlocked (
     Inr (v, [RequestAppPrivateKey (mpc_contract v) request 1])))"

text \<open>\<open>Vec::swap_remove\<close>: the last element takes the place of the removed one.\<close>

definition swap_remove :: "nat \<Rightarrow> 'a list \<Rightarrow> 'a list" where
  "swap_remove i xs =
     (if Suc i = length xs then butlast xs else (butlast xs)[i := last xs])"

fun position :: "'a \<Rightarrow> 'a list \<Rightarrow> nat option" where
  "position k [] = None"
| "position k (x # xs) = (if x = k then Some 0 else map_option Suc (position k xs))"

fun remove_keys :: "public_key list \<Rightarrow> public_key list \<Rightarrow> (vault_refusal, public_key list) call" where
  "remove_keys [] registered = Inr registered"
| "remove_keys (pk # pks) registered =
     expect (position pk registered) KeyNotRegistered (\<lambda>idx.
     remove_keys pks (swap_remove idx registered))"

definition clear_unused_tee_keys :: "ctx \<Rightarrow> public_key list \<Rightarrow> vault \<Rightarrow> vault_outcome" where
  "clear_unused_tee_keys cx public_keys v =
     not_payable cx (
     ensure (predecessor cx = vault_parent v) NotTheParent (
     ensure (public_keys \<noteq> []) NoKeysGiven (
     ensure (distinct public_keys) DuplicateKey (
     ensure (\<not> unlocked v \<longrightarrow> length public_keys < length (registered_tee_keys v)) WouldRemoveAllKeys (
     bind_call (remove_keys public_keys (registered_tee_keys v)) (\<lambda>rest.
     Inr (v\<lparr>registered_tee_keys := rest\<rparr>, [DeleteKeys public_keys])))))))"

definition initiate_recovery :: "ctx \<Rightarrow> vault \<Rightarrow> vault_outcome" where
  "initiate_recovery cx v =
     not_payable cx (
     ensure (\<not> unlocked v) AlreadyUnlocked (
     ensure (recovery v = None) RecoveryInProgress (
     Inr (v, [AskCeasedToInitiate]))))"

definition start_recovery :: "nat \<Rightarrow> nat \<Rightarrow> recovery_trigger \<Rightarrow> vault \<Rightarrow> vault_outcome" where
  "start_recovery now delay trigger v =
     add_u64 now delay (\<lambda>after.
     add_u64 after FINALIZE_WINDOW_NS (\<lambda>before.
     Inr (v\<lparr>recovery := Some \<lparr>initiated_at = now, finalize_after = after, finalize_before = before,
            recovery_cause = trigger\<rparr>\<rparr>, [])))"

definition callback_initiate :: "ctx \<Rightarrow> bool option \<Rightarrow> vault \<Rightarrow> vault_outcome" where
  "callback_initiate cx result v =
     private_call cx (not_payable cx (
     expect result DaoCallFailed (\<lambda>ceased.
     ensure ceased NotCeased (
     ensure (recovery v = None) RecoveryInProgress (
     start_recovery (block_timestamp cx) CESSATION_DELAY_NS Cessation v)))))"

definition unilateral_initiate_recovery :: "ctx \<Rightarrow> vault \<Rightarrow> vault_outcome" where
  "unilateral_initiate_recovery cx v =
     not_payable cx (
     ensure (\<not> unlocked v) AlreadyUnlocked (
     ensure (predecessor cx = vault_parent v) NotTheParent (
     ensure (recovery v = None) RecoveryInProgress (
     mul_u64 (unilateral_exit_window_secs v) SECOND_NS (\<lambda>delay.
     start_recovery (block_timestamp cx) delay Unilateral v)))))"

definition set_exit_window :: "ctx \<Rightarrow> nat \<Rightarrow> vault \<Rightarrow> vault_outcome" where
  "set_exit_window cx new_window_secs v =
     not_payable cx (
     ensure (predecessor cx = vault_parent v) NotTheParent (
     assert_exit_window_in_range new_window_secs (
     Inr (v\<lparr>unilateral_exit_window_secs := new_window_secs\<rparr>, []))))"

definition dispatch_swap :: "public_key \<Rightarrow> bool \<Rightarrow> vault \<Rightarrow> vault_effect" where
  "dispatch_swap new_parent_pubkey cessation v =
     SwapKeys (rev (remdups (rev (case initial_tee_key v of
                                    None \<Rightarrow> registered_tee_keys v
                                  | Some initial \<Rightarrow> initial # registered_tee_keys v))))
       new_parent_pubkey cessation"

definition finalize_recovery :: "ctx \<Rightarrow> public_key \<Rightarrow> vault \<Rightarrow> vault_outcome" where
  "finalize_recovery cx new_parent_pubkey v =
     not_payable cx (
     ensure (\<not> unlocked v) AlreadyUnlocked (
     ensure (predecessor cx = vault_parent v) NotTheParent (
     expect (recovery v) NoRecovery (\<lambda>r.
     ensure (block_timestamp cx \<ge> finalize_after r) DelayNotElapsed (
     if block_timestamp cx > finalize_before r then Inr (v\<lparr>recovery := None\<rparr>, [ReturnBool False])
     else case recovery_cause r of
            Cessation \<Rightarrow> Inr (v, [AskCeasedToFinalize new_parent_pubkey])
          | Unilateral \<Rightarrow> Inr (v, [dispatch_swap new_parent_pubkey False v]))))))"

definition callback_finalize :: "ctx \<Rightarrow> public_key \<Rightarrow> bool option \<Rightarrow> vault \<Rightarrow> vault_outcome" where
  "callback_finalize cx new_parent_pubkey result v =
     private_call cx (not_payable cx (
     case recovery v of
       None \<Rightarrow> Inr (v, [ReturnBool False])
     | Some r \<Rightarrow>
         (if block_timestamp cx > finalize_before r then
            Inr (v\<lparr>recovery := None\<rparr>, [ReturnBool False])
          else case result of
                 None \<Rightarrow> Inr (v, [ReturnBool False])
               | Some ceased \<Rightarrow>
                   (if \<not> ceased then Inr (v\<lparr>recovery := None\<rparr>, [ReturnBool False])
                    else Inr (v, [dispatch_swap new_parent_pubkey True v])))))"

definition callback_after_swap :: "ctx \<Rightarrow> bool \<Rightarrow> bool \<Rightarrow> vault \<Rightarrow> vault_outcome" where
  "callback_after_swap cx cessation swapped v =
     private_call cx (not_payable cx (
     if swapped then
       Inr (v\<lparr>unlocked := True, recovery := None, initial_tee_key := None,
             registered_tee_keys := []\<rparr>, [ReturnBool True])
     else Inr (v, [ReturnBool False])))"

definition unlocked_add_key :: "ctx \<Rightarrow> public_key \<Rightarrow> bool \<Rightarrow> nat option \<Rightarrow> vault \<Rightarrow> vault_outcome" where
  "unlocked_add_key cx public_key full_access allowance v =
     not_payable cx (
     ensure (unlocked v) NotUnlocked (
     ensure (predecessor cx = vault_parent v) NotTheParent (
     if full_access then Inr (v, [AddFullAccessKey public_key])
     else case allowance of
            None \<Rightarrow> Inr (v, [AddLimitedKey public_key DEFAULT_PARENT_FCAK_ALLOWANCE])
          | Some t \<Rightarrow> ensure (t > 0) ZeroAllowance (Inr (v, [AddLimitedKey public_key t])))))"

section \<open>The vault, its access keys and its receipts\<close>

datatype vault_call =
    ProposeTeeKey public_key
  | RequestMaster string
  | ClearUnusedTeeKeys "public_key list"
  | InitiateRecovery
  | UnilateralInitiateRecovery
  | SetExitWindow nat
  | FinalizeRecovery public_key
  | UnlockedAddKey public_key bool "nat option"

fun run_vault_call :: "vault_call \<Rightarrow> ctx \<Rightarrow> vault \<Rightarrow> vault_outcome" where
  "run_vault_call (ProposeTeeKey pk) cx v = propose_tee_key cx pk v"
| "run_vault_call (RequestMaster request) cx v = request_master cx request v"
| "run_vault_call (ClearUnusedTeeKeys pks) cx v = clear_unused_tee_keys cx pks v"
| "run_vault_call InitiateRecovery cx v = initiate_recovery cx v"
| "run_vault_call UnilateralInitiateRecovery cx v = unilateral_initiate_recovery cx v"
| "run_vault_call (SetExitWindow w) cx v = set_exit_window cx w v"
| "run_vault_call (FinalizeRecovery pk) cx v = finalize_recovery cx pk v"
| "run_vault_call (UnlockedAddKey pk full allowance) cx v = unlocked_add_key cx pk full allowance v"

text \<open>
  An access key of the account and the calls it may sign; a worker's key is restricted to
  \<open>request_master\<close>. A receipt that adds a key the account has, or deletes one it lacks, fails whole.
\<close>

datatype access_key = FullAccess | TeeCall | LimitedCall nat

fun may_sign :: "access_key \<Rightarrow> vault_call \<Rightarrow> bool" where
  "may_sign TeeCall c = (case c of RequestMaster _ \<Rightarrow> True | _ \<Rightarrow> False)"
| "may_sign _ c = True"

type_synonym key_ring = "public_key \<rightharpoonup> access_key"

definition add_key :: "public_key \<Rightarrow> access_key \<Rightarrow> key_ring \<Rightarrow> key_ring option" where
  "add_key pk a keys = (if keys pk = None then Some (keys(pk \<mapsto> a)) else None)"

fun delete_keys :: "public_key list \<Rightarrow> key_ring \<Rightarrow> key_ring option" where
  "delete_keys [] keys = Some keys"
| "delete_keys (pk # pks) keys = (if keys pk = None then None else delete_keys pks (keys(pk := None)))"

fun key_action :: "vault_effect \<Rightarrow> key_ring \<Rightarrow> key_ring option" where
  "key_action (AddTeeKey pk) keys = add_key pk TeeCall keys"
| "key_action (DeleteKeys pks) keys = delete_keys pks keys"
| "key_action (SwapKeys pks pk cessation) keys = Option.bind (delete_keys pks keys) (add_key pk FullAccess)"
| "key_action (AddFullAccessKey pk) keys = add_key pk FullAccess keys"
| "key_action (AddLimitedKey pk allowance) keys = add_key pk (LimitedCall allowance) keys"
| "key_action _ keys = Some keys"

fun dao_callback :: "vault_effect \<Rightarrow> (ctx \<Rightarrow> bool option \<Rightarrow> vault \<Rightarrow> vault_outcome) option" where
  "dao_callback (AskKeystoreApproved pk) = Some (\<lambda>cx. callback_add_tee_key cx pk)"
| "dao_callback AskCeasedToInitiate = Some callback_initiate"
| "dao_callback (AskCeasedToFinalize pk) = Some (\<lambda>cx. callback_finalize cx pk)"
| "dao_callback _ = None"

fun is_swap :: "vault_effect \<Rightarrow> bool" where
  "is_swap (SwapKeys _ _ _) = True"
| "is_swap _ = False"

text \<open>
  The world keeps, beside the state, who asked for which hand-over (the caller, the key, the cause
  and how long the recovery had run), who asked for which further full-access key, and which
  hand-overs the runtime carried out.
\<close>

record vault_world =
  vw_vault :: vault
  vw_keys :: key_ring
  vw_receipts :: "vault_effect multiset"
  vw_swaps :: "(bool \<times> bool) multiset"
  vw_now :: nat
  vw_handovers :: "(account \<times> public_key \<times> recovery_trigger \<times> nat) list"
  vw_grants :: "(account \<times> public_key) list"
  vw_swapped :: "public_key list"

definition handover_of ::
  "vault_call \<Rightarrow> ctx \<Rightarrow> vault \<Rightarrow> vault_effect list \<Rightarrow> (account \<times> public_key \<times> recovery_trigger \<times> nat) list" where
  "handover_of c cx v es =
     (case (c, recovery v) of
        (FinalizeRecovery pk, Some r) \<Rightarrow>
          (if es = [ReturnBool False] then []
           else [(predecessor cx, pk, recovery_cause r, block_timestamp cx - initiated_at r)])
      | _ \<Rightarrow> [])"

fun grant_of :: "vault_call \<Rightarrow> ctx \<Rightarrow> (account \<times> public_key) list" where
  "grant_of (UnlockedAddKey pk True allowance) cx = [(predecessor cx, pk)]"
| "grant_of _ cx = []"

inductive vault_step :: "account \<Rightarrow> vault_world \<Rightarrow> vault_world \<Rightarrow> bool" for me where
  call: "run_vault_call c cx (vw_vault y) = Inr (v, es) \<Longrightarrow> current_account cx = me \<Longrightarrow>
    block_timestamp cx = vw_now y \<Longrightarrow>
    (predecessor cx = me \<longrightarrow> (\<exists>pk a. vw_keys y pk = Some a \<and> may_sign a c)) \<Longrightarrow>
    vault_step me y (y\<lparr>vw_vault := v, vw_receipts := vw_receipts y + mset es,
      vw_handovers := handover_of c cx (vw_vault y) es @ vw_handovers y,
      vw_grants := grant_of c cx @ vw_grants y\<rparr>)"
| answer: "e \<in># vw_receipts y \<Longrightarrow> dao_callback e = Some f \<Longrightarrow>
    f cx result (vw_vault y) = Inr (v, es) \<Longrightarrow> predecessor cx = me \<Longrightarrow> current_account cx = me \<Longrightarrow>
    block_timestamp cx = vw_now y \<Longrightarrow>
    vault_step me y (y\<lparr>vw_vault := v, vw_receipts := vw_receipts y - {#e#} + mset es\<rparr>)"
| panic: "e \<in># vw_receipts y \<Longrightarrow> dao_callback e = Some f \<Longrightarrow>
    f cx result (vw_vault y) = Inl p \<Longrightarrow> predecessor cx = me \<Longrightarrow> current_account cx = me \<Longrightarrow>
    block_timestamp cx = vw_now y \<Longrightarrow>
    vault_step me y (y\<lparr>vw_receipts := vw_receipts y - {#e#}\<rparr>)"
| keys: "e \<in># vw_receipts y \<Longrightarrow> dao_callback e = None \<Longrightarrow> \<not> is_swap e \<Longrightarrow>
    vault_step me y (y\<lparr>vw_keys := (case key_action e (vw_keys y) of None \<Rightarrow> vw_keys y | Some k \<Rightarrow> k),
      vw_receipts := vw_receipts y - {#e#}\<rparr>)"
| swap_done: "SwapKeys pks pk cessation \<in># vw_receipts y \<Longrightarrow>
    key_action (SwapKeys pks pk cessation) (vw_keys y) = Some ring \<Longrightarrow>
    vault_step me y (y\<lparr>vw_keys := ring, vw_receipts := vw_receipts y - {#SwapKeys pks pk cessation#},
      vw_swaps := add_mset (cessation, True) (vw_swaps y), vw_swapped := pk # vw_swapped y\<rparr>)"
| swap_failed: "SwapKeys pks pk cessation \<in># vw_receipts y \<Longrightarrow>
    key_action (SwapKeys pks pk cessation) (vw_keys y) = None \<Longrightarrow>
    vault_step me y (y\<lparr>vw_receipts := vw_receipts y - {#SwapKeys pks pk cessation#},
      vw_swaps := add_mset (cessation, False) (vw_swaps y)\<rparr>)"
| after_swap: "(cessation, swapped) \<in># vw_swaps y \<Longrightarrow>
    callback_after_swap cx cessation swapped (vw_vault y) = Inr (v, es) \<Longrightarrow>
    predecessor cx = me \<Longrightarrow> current_account cx = me \<Longrightarrow> block_timestamp cx = vw_now y \<Longrightarrow>
    vault_step me y (y\<lparr>vw_vault := v, vw_swaps := vw_swaps y - {#(cessation, swapped)#}\<rparr>)"
| time: "vw_now y \<le> t \<Longrightarrow> vault_step me y (y\<lparr>vw_now := t\<rparr>)"

definition deployed_vault :: "vault \<Rightarrow> nat \<Rightarrow> vault_world" where
  "deployed_vault v now =
     \<lparr>vw_vault = v, vw_keys = (case initial_tee_key v of None \<Rightarrow> Map.empty | Some pk \<Rightarrow> [pk \<mapsto> TeeCall]),
      vw_receipts = {#}, vw_swaps = {#}, vw_now = now, vw_handovers = [], vw_grants = [],
      vw_swapped = []\<rparr>"

inductive vault_reachable :: "(account \<Rightarrow> account \<Rightarrow> bool) \<Rightarrow> account \<Rightarrow> vault_world \<Rightarrow> bool" for sub me where
  deploy: "new_vault sub cx parent dao mpc initial window = Inr v \<Longrightarrow> current_account cx = me \<Longrightarrow>
    vault_reachable sub me (deployed_vault v (block_timestamp cx))"
| step: "vault_reachable sub me y \<Longrightarrow> vault_step me y z \<Longrightarrow> vault_reachable sub me z"

inductive_cases vault_stepE: "vault_step me y z"

lemmas vault_call_defs = propose_tee_key_def check_new_tee_key_def request_master_def
  initiate_recovery_def unlocked_add_key_def clear_unused_tee_keys_def set_exit_window_def
  assert_exit_window_in_range_def finalize_recovery_def

lemmas vault_callback_defs = callback_add_tee_key_def callback_initiate_def callback_finalize_def
  check_new_tee_key_def start_recovery_def dispatch_swap_def

section \<open>Removing keys\<close>

lemma position_Some: "position k xs = Some i \<Longrightarrow> i < length xs \<and> xs ! i = k"
  by (induction xs arbitrary: i) (auto split: if_splits)

lemma mset_swap_remove:
  assumes "i < length xs"
  shows "add_mset (xs ! i) (mset (swap_remove i xs)) = mset xs"
proof -
  from assms obtain ys l where xs: "xs = ys @ [l]" by (cases xs rule: rev_cases) auto
  show ?thesis
  proof (cases "i = length ys")
    case False
    with assms xs have "i < length ys" by simp
    then show ?thesis
      by (simp add: xs swap_remove_def nth_append mset_update nth_mem add_mset_commute)
  qed (simp add: xs swap_remove_def)
qed

lemma remove_keys_mset: "remove_keys pks xs = Inr ys \<Longrightarrow> mset xs = mset pks + mset ys"
proof (induction pks arbitrary: xs)
  case (Cons pk pks)
  then obtain i where "position pk xs = Some i" "remove_keys pks (swap_remove i xs) = Inr ys"
    by (auto simp: run_simps)
  with Cons.IH mset_swap_remove [of i xs] position_Some [of pk xs i] show ?case by simp
qed simp

lemma remove_keys_result:
  assumes "remove_keys pks xs = Inr ys" "distinct xs"
  shows "distinct ys" "set ys = set xs - set pks" "set pks \<subseteq> set xs" "length xs = length pks + length ys"
proof -
  have m: "mset xs = mset (pks @ ys)" using remove_keys_mset [OF assms(1)] by simp
  with assms(2) have d: "distinct (pks @ ys)" by (metis mset_eq_imp_distinct_iff)
  from m have "set xs = set (pks @ ys)" by (rule mset_eq_setD)
  with d show "distinct ys" "set ys = set xs - set pks" "set pks \<subseteq> set xs" by auto
  from m show "length xs = length pks + length ys" by (metis length_append mset_eq_length)
qed

section \<open>The invariant of the contract\<close>

fun least_wait :: "recovery_trigger \<Rightarrow> nat" where
  "least_wait Cessation = CESSATION_DELAY_NS"
| "least_wait Unilateral = MIN_UNILATERAL_EXIT_WINDOW_SECS * SECOND_NS"

definition recovery_ok :: "recovery_state \<Rightarrow> bool" where
  "recovery_ok r \<longleftrightarrow> initiated_at r + least_wait (recovery_cause r) \<le> finalize_after r \<and>
     finalize_before r = finalize_after r + FINALIZE_WINDOW_NS \<and> finalize_before r < 2 ^ 64"

definition vault_ok :: "vault \<Rightarrow> bool" where
  "vault_ok v \<longleftrightarrow>
     distinct (registered_tee_keys v) \<and> length (registered_tee_keys v) \<le> MAX_REGISTERED_TEE_KEYS \<and>
     (\<forall>k. initial_tee_key v = Some k \<longrightarrow> k \<notin> set (registered_tee_keys v)) \<and>
     MIN_UNILATERAL_EXIT_WINDOW_SECS \<le> unilateral_exit_window_secs v \<and>
     unilateral_exit_window_secs v \<le> MAX_UNILATERAL_EXIT_WINDOW_SECS \<and>
     (\<forall>r. recovery v = Some r \<longrightarrow> recovery_ok r)"

lemma new_vault_ok:
  "new_vault sub cx parent dao mpc initial window = Inr v \<Longrightarrow>
     vault_ok v \<and> vault_parent v = parent \<and> \<not> unlocked v \<and> recovery v = None \<and> registered_tee_keys v = []"
  by (auto simp: new_vault_def run_simps Let_def assert_exit_window_in_range_def vault_ok_def
      MAX_REGISTERED_TEE_KEYS_def)

lemma start_recovery_run:
  "start_recovery now delay trigger v = Inr (t, es) \<Longrightarrow> least_wait trigger \<le> delay \<Longrightarrow>
     es = [] \<and> (\<exists>r. t = v\<lparr>recovery := Some r\<rparr> \<and> recovery_ok r \<and> initiated_at r = now \<and>
       recovery_cause r = trigger \<and> finalize_after r = now + delay)"
  by (auto simp: start_recovery_def run_simps recovery_ok_def)

lemma unilateral_run:
  assumes "unilateral_initiate_recovery cx v = Inr (t, es)" "vault_ok v"
  shows "es = [] \<and> recovery v = None \<and> predecessor cx = vault_parent v \<and> \<not> unlocked v \<and>
    (\<exists>r. t = v\<lparr>recovery := Some r\<rparr> \<and> recovery_ok r \<and> recovery_cause r = Unilateral \<and>
       initiated_at r = block_timestamp cx \<and>
       finalize_after r = block_timestamp cx + unilateral_exit_window_secs v * SECOND_NS)"
proof -
  have "least_wait Unilateral \<le> unilateral_exit_window_secs v * SECOND_NS"
    using assms(2) by (simp add: vault_ok_def)
  with assms(1) show ?thesis
    by (auto simp: unilateral_initiate_recovery_def run_simps dest: start_recovery_run)
qed

lemma callback_initiate_run:
  assumes "callback_initiate cx result v = Inr (t, es)"
  shows "es = [] \<and> recovery v = None \<and> result = Some True \<and>
    (\<exists>r. t = v\<lparr>recovery := Some r\<rparr> \<and> recovery_ok r \<and> recovery_cause r = Cessation \<and>
       initiated_at r = block_timestamp cx)"
  using assms by (auto simp: callback_initiate_def run_simps dest!: start_recovery_run)

lemma vault_ok_fields:
  "vault_ok v \<Longrightarrow> recovery_ok r \<Longrightarrow> vault_ok (v\<lparr>recovery := Some r\<rparr>)"
  "vault_ok v \<Longrightarrow> vault_ok (v\<lparr>recovery := None\<rparr>)"
  by (simp_all add: vault_ok_def)

lemma clear_unused_run:
  assumes "clear_unused_tee_keys cx pks v = Inr (t, es)" "vault_ok v"
  shows "es = [DeleteKeys pks]" "predecessor cx = vault_parent v"
    "t = v\<lparr>registered_tee_keys := registered_tee_keys t\<rparr>" "distinct (registered_tee_keys t)"
    "set (registered_tee_keys t) = set (registered_tee_keys v) - set pks"
    "\<not> unlocked v \<Longrightarrow> registered_tee_keys t \<noteq> []"
    "length (registered_tee_keys t) \<le> length (registered_tee_keys v)"
proof -
  from assms(1) obtain rest where r: "remove_keys pks (registered_tee_keys v) = Inr rest"
    "t = v\<lparr>registered_tee_keys := rest\<rparr>" "es = [DeleteKeys pks]" "predecessor cx = vault_parent v"
    "\<not> unlocked v \<longrightarrow> length pks < length (registered_tee_keys v)"
    by (auto simp: clear_unused_tee_keys_def run_simps)
  from assms(2) have "distinct (registered_tee_keys v)" by (simp add: vault_ok_def)
  from remove_keys_result [OF r(1) this] r(2-5)
  show "es = [DeleteKeys pks]" "predecessor cx = vault_parent v"
    "t = v\<lparr>registered_tee_keys := registered_tee_keys t\<rparr>" "distinct (registered_tee_keys t)"
    "set (registered_tee_keys t) = set (registered_tee_keys v) - set pks"
    "\<not> unlocked v \<Longrightarrow> registered_tee_keys t \<noteq> []"
    "length (registered_tee_keys t) \<le> length (registered_tee_keys v)" by auto
qed

lemma vault_call_ok:
  assumes ok: "vault_ok v" and run: "run_vault_call c cx v = Inr (t, es)"
  shows "vault_ok t \<and> vault_parent t = vault_parent v \<and> unlocked t = unlocked v"
proof (cases c)
  case (ClearUnusedTeeKeys pks)
  with run have clear: "clear_unused_tee_keys cx pks v = Inr (t, es)" by simp
  note r = clear_unused_run [OF clear ok]
  then obtain ks where t: "t = v\<lparr>registered_tee_keys := ks\<rparr>" by blast
  with r(4,5,7) ok show ?thesis by (auto simp: vault_ok_def)
next
  case UnilateralInitiateRecovery
  with run have "unilateral_initiate_recovery cx v = Inr (t, es)" by simp
  from unilateral_run [OF this ok] show ?thesis by (auto simp: vault_ok_fields ok)
next
  case (FinalizeRecovery pk)
  with run ok show ?thesis
    by (auto simp: finalize_recovery_def run_simps vault_ok_fields split: if_splits recovery_trigger.splits)
next
  case (SetExitWindow w)
  with run ok show ?thesis
    by (auto simp: set_exit_window_def run_simps assert_exit_window_in_range_def vault_ok_def)
qed (use run ok in \<open>auto simp: propose_tee_key_def check_new_tee_key_def request_master_def
      initiate_recovery_def unlocked_add_key_def run_simps split: if_splits option.splits\<close>)

lemma dao_callback_ok:
  assumes ok: "vault_ok v" and f: "dao_callback e = Some f" "f cx result v = Inr (t, es)"
  shows "vault_ok t \<and> vault_parent t = vault_parent v \<and> unlocked t = unlocked v"
proof (cases e)
  case (AskKeystoreApproved pk)
  with f have "callback_add_tee_key cx pk result v = Inr (t, es)" by auto
  with ok show ?thesis
    by (auto simp: callback_add_tee_key_def check_new_tee_key_def run_simps vault_ok_def)
next
  case AskCeasedToInitiate
  with f callback_initiate_run [of cx result v t es] show ?thesis by (auto simp: vault_ok_fields ok)
next
  case (AskCeasedToFinalize pk)
  with f have "callback_finalize cx pk result v = Inr (t, es)" by auto
  with ok show ?thesis
    by (auto simp: callback_finalize_def run_simps vault_ok_fields split: option.splits if_splits)
qed (use f in auto)

section \<open>The invariant of the world\<close>

fun hand_key :: "vault_effect \<Rightarrow> public_key option" where
  "hand_key (SwapKeys _ pk _) = Some pk"
| "hand_key (AskCeasedToFinalize pk) = Some pk"
| "hand_key _ = None"

definition handed :: "vault_world \<Rightarrow> public_key set" where
  "handed y = (\<lambda>(a, k, c, w). k) ` set (vw_handovers y)"

definition granted :: "vault_world \<Rightarrow> public_key set" where
  "granted y = snd ` set (vw_grants y)"

definition world_ok :: "vault_world \<Rightarrow> bool" where
  "world_ok y \<longleftrightarrow>
     vault_ok (vw_vault y) \<and>
     (\<forall>(a, k, c, w) \<in> set (vw_handovers y). a = vault_parent (vw_vault y) \<and> least_wait c \<le> w) \<and>
     (\<forall>(a, k) \<in> set (vw_grants y). a = vault_parent (vw_vault y)) \<and>
     (\<forall>e \<in># vw_receipts y. \<forall>pk. hand_key e = Some pk \<longrightarrow> pk \<in> handed y) \<and>
     (\<forall>pk. AddFullAccessKey pk \<in># vw_receipts y \<longrightarrow> pk \<in> granted y) \<and>
     (\<forall>pk. vw_keys y pk = Some FullAccess \<longrightarrow> pk \<in> handed y \<union> granted y) \<and>
     set (vw_swapped y) \<subseteq> handed y \<and>
     ((\<exists>c. (c, True) \<in># vw_swaps y) \<or> unlocked (vw_vault y) \<or> vw_grants y \<noteq> [] \<longrightarrow> vw_swapped y \<noteq> [])"

lemma call_effects:
  assumes run: "run_vault_call c cx v = Inr (t, es)" and e: "e \<in> set es"
  shows "hand_key e = Some pk \<Longrightarrow> c = FinalizeRecovery pk \<and> es \<noteq> [ReturnBool False] \<and> recovery v \<noteq> None"
    and "e = AddFullAccessKey pk \<Longrightarrow> \<exists>a. c = UnlockedAddKey pk True a"
  using assms
  by (cases c; auto simp: vault_call_defs run_simps dispatch_swap_def unilateral_initiate_recovery_def
      start_recovery_def
      split: if_splits option.splits recovery_trigger.splits)+

lemma handover_entry:
  assumes run: "run_vault_call c cx v = Inr (t, es)" and ok: "vault_ok v"
    and e: "(a, k, d, w) \<in> set (handover_of c cx v es)"
  shows "a = vault_parent v \<and> least_wait d \<le> w"
proof -
  from e obtain r where r: "c = FinalizeRecovery k" "recovery v = Some r" "a = predecessor cx"
    "d = recovery_cause r" "w = block_timestamp cx - initiated_at r"
    by (cases "recovery v") (auto simp: handover_of_def split: vault_call.splits if_splits)
  with run have "predecessor cx = vault_parent v" "finalize_after r \<le> block_timestamp cx"
    by (auto simp: finalize_recovery_def run_simps)
  moreover have "recovery_ok r" using ok r(2) by (simp add: vault_ok_def)
  ultimately show ?thesis using r by (auto simp: recovery_ok_def)
qed

lemma grant_entry:
  "run_vault_call c cx v = Inr (t, es) \<Longrightarrow> (a, k) \<in> set (grant_of c cx) \<Longrightarrow> a = vault_parent v \<and> unlocked v"
  by (cases "(c, cx)" rule: grant_of.cases) (auto simp: unlocked_add_key_def run_simps)

lemma callback_effects:
  assumes "dao_callback e = Some f" "f cx result v = Inr (t, es)" "d \<in> set es"
  shows "hand_key d = Some pk \<Longrightarrow> hand_key e = Some pk" and "d \<noteq> AddFullAccessKey pk"
  using assms
  by (cases e; auto simp: vault_callback_defs run_simps split: option.splits if_splits)+

lemma delete_keys_Some: "delete_keys pks keys = Some ring \<Longrightarrow> ring = keys |` (- set pks)"
  by (induction pks arbitrary: keys)
    (auto simp: restrict_map_def fun_eq_iff split: if_splits)

lemma key_action_full:
  assumes "key_action e keys = Some ring" "ring pk = Some FullAccess"
  shows "keys pk = Some FullAccess \<or> hand_key e = Some pk \<or> e = AddFullAccessKey pk"
  using assms
  by (cases e) (auto simp: add_key_def bind_eq_Some_conv restrict_map_def
      dest!: delete_keys_Some split: if_splits)

lemma world_okD:
  assumes "world_ok y"
  shows "vault_ok (vw_vault y)"
    "(a, k, c, w) \<in> set (vw_handovers y) \<Longrightarrow> a = vault_parent (vw_vault y) \<and> least_wait c \<le> w"
    "(a, k) \<in> set (vw_grants y) \<Longrightarrow> a = vault_parent (vw_vault y)"
    "e \<in># vw_receipts y \<Longrightarrow> hand_key e = Some k \<Longrightarrow> k \<in> handed y"
    "AddFullAccessKey k \<in># vw_receipts y \<Longrightarrow> k \<in> granted y"
    "vw_keys y k = Some FullAccess \<Longrightarrow> k \<in> handed y \<union> granted y"
    "set (vw_swapped y) \<subseteq> handed y"
    "(b, True) \<in># vw_swaps y \<Longrightarrow> vw_swapped y \<noteq> []"
    "unlocked (vw_vault y) \<Longrightarrow> vw_swapped y \<noteq> []" "vw_grants y \<noteq> [] \<Longrightarrow> vw_swapped y \<noteq> []"
  using assms unfolding world_ok_def by blast+

lemma deployed_ok: "new_vault sub cx parent dao mpc initial window = Inr v \<Longrightarrow> world_ok (deployed_vault v now)"
  by (auto simp: world_ok_def deployed_vault_def dest!: new_vault_ok split: option.splits if_splits)

lemma call_step_ok:
  assumes ok: "world_ok y" and run: "run_vault_call c cx (vw_vault y) = Inr (v, es)"
  shows "world_ok (y\<lparr>vw_vault := v, vw_receipts := vw_receipts y + mset es,
      vw_handovers := handover_of c cx (vw_vault y) es @ vw_handovers y,
      vw_grants := grant_of c cx @ vw_grants y\<rparr>)" (is "world_ok ?z")
proof -
  note D = world_okD [OF ok]
  note v = vault_call_ok [OF D(1) run]
  have grow: "handed y \<subseteq> handed ?z" "granted y \<subseteq> granted ?z"
    by (simp_all add: handed_def granted_def image_Un)
  have new_hand: "k \<in> handed ?z" if "e \<in> set es" "hand_key e = Some k" for e k
    using call_effects(1) [OF run that] by (auto simp: handed_def handover_of_def)
  have new_grant: "k \<in> granted ?z" if "AddFullAccessKey k \<in> set es" for k
    using call_effects(2) [OF run that] by (auto simp: granted_def)
  have g: "vw_swapped y \<noteq> []" if "(a, k) \<in> set (grant_of c cx)" for a k
    using grant_entry [OF run that] D(9) by blast
  show ?thesis
    unfolding world_ok_def
  proof (intro conjI)
    show "\<forall>(a, k, c, w) \<in> set (vw_handovers ?z). a = vault_parent (vw_vault ?z) \<and> least_wait c \<le> w"
      using handover_entry [OF run D(1)] D(2) v by fastforce
    show "\<forall>(a, k) \<in> set (vw_grants ?z). a = vault_parent (vw_vault ?z)"
      using grant_entry [OF run] D(3) v by fastforce
    show "\<forall>e \<in># vw_receipts ?z. \<forall>pk. hand_key e = Some pk \<longrightarrow> pk \<in> handed ?z"
      using D(4) new_hand grow by fastforce
    show "\<forall>pk. AddFullAccessKey pk \<in># vw_receipts ?z \<longrightarrow> pk \<in> granted ?z"
      using D(5) new_grant grow by fastforce
    show "\<forall>pk. vw_keys ?z pk = Some FullAccess \<longrightarrow> pk \<in> handed ?z \<union> granted ?z"
      using D(6) grow by fastforce
    show "set (vw_swapped ?z) \<subseteq> handed ?z" using D(7) grow by simp
    show "(\<exists>c. (c, True) \<in># vw_swaps ?z) \<or> unlocked (vw_vault ?z) \<or> vw_grants ?z \<noteq> [] \<longrightarrow> vw_swapped ?z \<noteq> []"
      using D(8,9,10) g v by (cases "grant_of c cx") auto
  qed (use v in simp)
qed

lemma answer_step_ok:
  assumes ok: "world_ok y" and e: "e \<in># vw_receipts y" "dao_callback e = Some f"
    and run: "f cx result (vw_vault y) = Inr (v, es)"
  shows "world_ok (y\<lparr>vw_vault := v, vw_receipts := vw_receipts y - {#e#} + mset es\<rparr>)" (is "world_ok ?z")
proof -
  note D = world_okD [OF ok]
  note v = dao_callback_ok [OF D(1) e(2) run]
  have same: "handed ?z = handed y" "granted ?z = granted y" by (simp_all add: handed_def granted_def)
  show ?thesis
    unfolding world_ok_def same
  proof (intro conjI)
    show "\<forall>d \<in># vw_receipts ?z. \<forall>pk. hand_key d = Some pk \<longrightarrow> pk \<in> handed y"
      using D(4) callback_effects(1) [OF e(2) run] e(1) by (auto dest!: in_diffD)
    show "\<forall>pk. AddFullAccessKey pk \<in># vw_receipts ?z \<longrightarrow> pk \<in> granted y"
      using D(5) callback_effects(2) [OF e(2) run] by (auto dest!: in_diffD)
  qed (use v D in \<open>auto\<close>)
qed

lemma keys_step_ok:
  assumes ok: "world_ok y" and e: "e \<in># vw_receipts y" "\<not> is_swap e" "dao_callback e = None"
  shows "world_ok (y\<lparr>vw_keys := (case key_action e (vw_keys y) of None \<Rightarrow> vw_keys y | Some k \<Rightarrow> k),
      vw_receipts := vw_receipts y - {#e#}\<rparr>)" (is "world_ok ?z")
proof -
  note D = world_okD [OF ok]
  have same: "handed ?z = handed y" "granted ?z = granted y" by (simp_all add: handed_def granted_def)
  have full: "k \<in> handed y \<union> granted y" if "vw_keys ?z k = Some FullAccess" for k
    using that key_action_full [of e "vw_keys y"] D(4) [OF e(1)] D(5) e(1) D(6)
    by (cases "key_action e (vw_keys y)") (auto, blast)
  show ?thesis
    unfolding world_ok_def same
    using D full by (auto dest: in_diffD)
qed

lemma swap_step_ok:
  assumes ok: "world_ok y" and e: "SwapKeys pks pk b \<in># vw_receipts y"
    and ring: "key_action (SwapKeys pks pk b) (vw_keys y) = Some ring"
  shows "world_ok (y\<lparr>vw_keys := ring, vw_receipts := vw_receipts y - {#SwapKeys pks pk b#},
      vw_swaps := add_mset (b, True) (vw_swaps y), vw_swapped := pk # vw_swapped y\<rparr>)" (is "world_ok ?z")
proof -
  note D = world_okD [OF ok]
  have same: "handed ?z = handed y" "granted ?z = granted y" by (simp_all add: handed_def granted_def)
  have pk: "pk \<in> handed y" using D(4) [OF e] by simp
  have full: "k \<in> handed y \<union> granted y" if "ring k = Some FullAccess" for k
    using key_action_full [OF ring that] pk D(6) by auto
  show ?thesis
    unfolding world_ok_def same
    using D full pk by (auto dest: in_diffD)
qed

lemma vault_step_ok:
  assumes "world_ok y" "vault_step me y z"
  shows "world_ok z"
  using assms(2)
proof (cases rule: vault_step.cases)
  case (call c cx v es)
  with call_step_ok [OF assms(1)] show ?thesis by simp
next
  case (answer e f cx result v es)
  with answer_step_ok [OF assms(1)] show ?thesis by simp
next
  case (panic e f cx result p)
  then show ?thesis using assms(1) unfolding world_ok_def handed_def granted_def by (auto dest: in_diffD)
next
  case (keys e)
  with keys_step_ok [OF assms(1)] show ?thesis by simp
next
  case (swap_done pks pk b ring)
  with swap_step_ok [OF assms(1)] show ?thesis by simp
next
  case (swap_failed pks pk b)
  then show ?thesis using assms(1) unfolding world_ok_def handed_def granted_def by (auto dest: in_diffD)
next
  case (after_swap b swapped cx v es)
  then show ?thesis using assms(1) unfolding world_ok_def handed_def granted_def
    by (auto simp: callback_after_swap_def run_simps vault_ok_def dest: in_diffD split: if_splits)
next
  case (time t)
  then show ?thesis using assms(1) by (auto simp: world_ok_def handed_def granted_def)
qed

lemma reachable_ok: "vault_reachable sub me y \<Longrightarrow> world_ok y"
  by (induction rule: vault_reachable.induct) (auto intro: deployed_ok vault_step_ok)

section \<open>Completing an exit\<close>

definition tracked_keys :: "vault \<Rightarrow> public_key set" where
  "tracked_keys v = set_option (initial_tee_key v) \<union> set (registered_tee_keys v)"

lemma delete_keys_returns:
  "distinct pks \<Longrightarrow> set pks \<subseteq> dom keys \<Longrightarrow> delete_keys pks keys = Some (keys |` (- set pks))"
proof (induction pks arbitrary: keys)
  case (Cons pk pks)
  then have "set pks \<subseteq> dom (keys(pk := None))" by auto
  with Cons show ?case by (auto simp: restrict_map_def fun_eq_iff)
qed (simp add: restrict_map_def)

lemma dispatch_swap_keys:
  "\<exists>pks. dispatch_swap pk b v = SwapKeys pks pk b \<and> distinct pks \<and> set pks = tracked_keys v"
  by (auto simp: dispatch_swap_def tracked_keys_def split: option.splits)

abbreviation vault_steps :: "account \<Rightarrow> vault_world \<Rightarrow> vault_world \<Rightarrow> bool" where
  "vault_steps me \<equiv> (vault_step me)\<^sup>*\<^sup>*"

definition self_call_at :: "account \<Rightarrow> nat \<Rightarrow> ctx" where
  "self_call_at me now = (call_by me 0)\<lparr>current_account := me, block_timestamp := now\<rparr>"

lemma self_call_at_fields [simp]:
  "predecessor (self_call_at me now) = me" "current_account (self_call_at me now) = me"
  "attached_deposit (self_call_at me now) = 0" "block_timestamp (self_call_at me now) = now"
  by (simp_all add: self_call_at_def call_by_def)

text \<open>A dispatched swap whose keys are on the account ends the exit.\<close>

lemma swap_completes:
  assumes swap: "dispatch_swap pk b (vw_vault y) \<in># vw_receipts y"
    and keys: "tracked_keys (vw_vault y) \<subseteq> dom (vw_keys y)" "vw_keys y pk = None"
  shows "\<exists>z. vault_steps me y z \<and>
    vw_vault z = (vw_vault y)\<lparr>unlocked := True, recovery := None, initial_tee_key := None,
      registered_tee_keys := []\<rparr> \<and>
    vw_keys z = (vw_keys y |` (- tracked_keys (vw_vault y)))(pk \<mapsto> FullAccess) \<and>
    vw_receipts z = vw_receipts y - {#dispatch_swap pk b (vw_vault y)#} \<and> vw_swaps z = vw_swaps y"
proof -
  obtain pks where d: "dispatch_swap pk b (vw_vault y) = SwapKeys pks pk b" "distinct pks"
    "set pks = tracked_keys (vw_vault y)" using dispatch_swap_keys by blast
  let ?ring = "(vw_keys y |` (- tracked_keys (vw_vault y)))(pk \<mapsto> FullAccess)"
  have ring: "key_action (SwapKeys pks pk b) (vw_keys y) = Some ?ring"
    using delete_keys_returns [OF d(2)] keys d(3) by (simp add: add_key_def restrict_map_def)
  let ?y1 = "y\<lparr>vw_keys := ?ring, vw_receipts := vw_receipts y - {#SwapKeys pks pk b#},
    vw_swaps := add_mset (b, True) (vw_swaps y), vw_swapped := pk # vw_swapped y\<rparr>"
  let ?v = "(vw_vault y)\<lparr>unlocked := True, recovery := None, initial_tee_key := None,
    registered_tee_keys := []\<rparr>"
  have one: "vault_step me y ?y1" using swap_done [OF _ ring, of me] swap d(1) by simp
  have "callback_after_swap (self_call_at me (vw_now ?y1)) b True (vw_vault ?y1) = Inr (?v, [ReturnBool True])"
    by (simp add: callback_after_swap_def eval_simps)
  from after_swap [OF _ this, of me]
  have "vault_step me ?y1 (?y1\<lparr>vw_vault := ?v, vw_swaps := vw_swaps ?y1 - {#(b, True)#}\<rparr>)" by simp
  with one have "vault_steps me y (?y1\<lparr>vw_vault := ?v, vw_swaps := vw_swaps ?y1 - {#(b, True)#}\<rparr>)"
    by (meson converse_rtranclp_into_rtranclp rtranclp.rtrancl_refl)
  then show ?thesis by (intro exI conjI, assumption) (simp_all add: d(1))
qed

lemma reachable_steps: "vault_steps me y z \<Longrightarrow> vault_reachable sub me y \<Longrightarrow> vault_reachable sub me z"
  by (induction rule: rtranclp_induct) (auto intro: vault_reachable.step)

section \<open>One exit, from the call to its last callback\<close>

lemma delete_keys_fails:
  "\<not> set pks \<subseteq> dom keys \<Longrightarrow> delete_keys pks keys = None"
proof (induction pks arbitrary: keys)
  case (Cons pk pks)
  show ?case
  proof (cases "keys pk")
    case (Some a)
    with Cons.prems have "\<not> set pks \<subseteq> dom (keys(pk := None))" by auto
    then have "delete_keys pks (keys(pk := None)) = None" by (rule Cons.IH)
    with Some show ?thesis by (simp del: fun_upd_apply)
  qed simp
qed simp

lemma swap_action:
  "key_action (dispatch_swap pk b v) ring =
     (if tracked_keys v \<subseteq> dom ring \<and> (pk \<in> dom ring \<longrightarrow> pk \<in> tracked_keys v)
      then Some ((ring |` (- tracked_keys v))(pk \<mapsto> FullAccess)) else None)"
proof -
  obtain pks where d: "dispatch_swap pk b v = SwapKeys pks pk b" "distinct pks"
    "set pks = tracked_keys v" using dispatch_swap_keys by blast
  show ?thesis
  proof (cases "tracked_keys v \<subseteq> dom ring")
    case True
    with delete_keys_returns [OF d(2), of ring] d(1,3) show ?thesis
      by (auto simp: add_key_def restrict_map_def)
  next
    case False
    with delete_keys_fails [of pks ring] d(1,3) show ?thesis by simp
  qed
qed

text \<open>
  The receipts of one \<open>finalize_recovery\<close> with nothing between them: the call, the DAO's answer to it
  when it asks, the batch on the account's keys and the callback after it, with the times of the call
  and of the answer.
\<close>

fun swap_run :: "account \<Rightarrow> nat \<Rightarrow> vault_effect list \<Rightarrow> vault \<Rightarrow> key_ring \<Rightarrow> (vault_refusal, vault \<times> key_ring) call" where
  "swap_run me now [SwapKeys pks pk cessation] v ring =
     bind_call (callback_after_swap (self_call_at me now) cessation (key_action (SwapKeys pks pk cessation) ring \<noteq> None) v)
       (\<lambda>(v', es). Inr (v', case key_action (SwapKeys pks pk cessation) ring of None \<Rightarrow> ring | Some ring' \<Rightarrow> ring'))"
| "swap_run me now es v ring = Inr (v, ring)"

definition exit_run ::
  "account \<Rightarrow> account \<Rightarrow> public_key \<Rightarrow> bool option \<Rightarrow> nat \<Rightarrow> nat \<Rightarrow> vault \<Rightarrow> key_ring \<Rightarrow>
     (vault_refusal, vault \<times> key_ring) call" where
  "exit_run me who pk dao_says now later v ring =
     bind_call (finalize_recovery ((self_call_at me now)\<lparr>predecessor := who\<rparr>) pk v) (\<lambda>(v1, es).
       case es of
         [AskCeasedToFinalize key] \<Rightarrow>
           bind_call (callback_finalize (self_call_at me later) key dao_says v1) (\<lambda>(v2, es2).
             swap_run me later es2 v2 ring)
       | _ \<Rightarrow> swap_run me later es v1 ring)"

lemma swap_run_dispatched:
  "swap_run me now [dispatch_swap pk b v] w ring =
     (case key_action (dispatch_swap pk b v) ring of
        None \<Rightarrow> Inr (w, ring)
      | Some ring' \<Rightarrow> Inr (w\<lparr>unlocked := True, recovery := None, initial_tee_key := None, registered_tee_keys := []\<rparr>, ring'))"
  by (simp add: dispatch_swap_def callback_after_swap_def eval_simps split: option.split)

lemma swap_run_steps:
  assumes "dispatch_swap pk b v \<in># vw_receipts y"
    and "swap_run me (vw_now y) [dispatch_swap pk b v] (vw_vault y) (vw_keys y) = Inr (v', ring)"
  shows "\<exists>z. vault_steps me y z \<and> vw_vault z = v' \<and> vw_keys z = ring"
proof -
  obtain pks where d: "dispatch_swap pk b v = SwapKeys pks pk b" using dispatch_swap_keys by blast
  define ok where "ok = (key_action (SwapKeys pks pk b) (vw_keys y) \<noteq> None)"
  obtain y1 where y1: "vault_step me y y1" "(b, ok) \<in># vw_swaps y1" "vw_vault y1 = vw_vault y"
    "vw_now y1 = vw_now y"
    "vw_keys y1 = (case key_action (SwapKeys pks pk b) (vw_keys y) of None \<Rightarrow> vw_keys y | Some ring' \<Rightarrow> ring')"
  proof (cases "key_action (SwapKeys pks pk b) (vw_keys y)")
    case None
    with swap_failed [OF assms(1) [unfolded d] None, of me] that show ?thesis by (fastforce simp: ok_def)
  next
    case (Some ring')
    with swap_done [OF assms(1) [unfolded d] Some, of me] that show ?thesis by (fastforce simp: ok_def)
  qed
  from assms(2) d obtain es where cb: "callback_after_swap (self_call_at me (vw_now y1)) b ok (vw_vault y1) = Inr (v', es)"
    and ring: "vw_keys y1 = ring"
    by (auto simp: y1 bind_call_Inr ok_def)
  from after_swap [OF y1(2) cb] obtain z where "vault_step me y1 z" "vw_vault z = v'" "vw_keys z = ring"
    using ring by fastforce
  moreover from y1(1) this(1) have "vault_steps me y z"
    by (meson converse_rtranclp_into_rtranclp rtranclp.rtrancl_refl)
  ultimately show ?thesis by blast
qed

lemma exit_run_steps:
  assumes "exit_run me who pk dao_says (vw_now y) later (vw_vault y) (vw_keys y) = Inr (v', ring)"
    and "vw_now y \<le> later" "who \<noteq> me"
  shows "\<exists>z. vault_steps me y z \<and> vw_vault z = v' \<and> vw_keys z = ring"
proof -
  let ?cx = "(self_call_at me (vw_now y))\<lparr>predecessor := who\<rparr>"
  from assms(1) obtain v1 es where fin: "finalize_recovery ?cx pk (vw_vault y) = Inr (v1, es)"
    by (auto simp: exit_run_def bind_call_Inr)
  define y1 where "y1 = y\<lparr>vw_vault := v1, vw_receipts := vw_receipts y + mset es,
    vw_handovers := handover_of (FinalizeRecovery pk) ?cx (vw_vault y) es @ vw_handovers y\<rparr>"
  define y2 where "y2 = y1\<lparr>vw_now := later\<rparr>"
  have "vault_step me y y1"
    using call [of "FinalizeRecovery pk" ?cx y v1 es me] fin assms(3) by (simp add: y1_def)
  moreover have "vault_step me y1 y2" unfolding y2_def by (rule time) (simp add: y1_def assms(2))
  ultimately have steps: "vault_steps me y y2"
    by (meson converse_rtranclp_into_rtranclp rtranclp.rtrancl_refl)
  have y2: "vw_vault y2 = v1" "vw_keys y2 = vw_keys y" "vw_now y2 = later" "set es \<subseteq> set_mset (vw_receipts y2)"
    by (auto simp: y2_def y1_def)
  have "\<exists>z. vault_steps me y2 z \<and> vw_vault z = v' \<and> vw_keys z = ring"
  proof -
    consider (stop) "es = [ReturnBool False]" | (ask) "es = [AskCeasedToFinalize pk]"
      | (swap) "es = [dispatch_swap pk False (vw_vault y)]"
      using fin by (auto simp: finalize_recovery_def run_simps split: if_splits recovery_trigger.splits)
    then show ?thesis
    proof cases
      case stop
      with assms(1) fin y2 show ?thesis by (intro exI [of _ y2]) (auto simp: exit_run_def bind_call_Inr)
    next
      case swap
      with assms(1) fin have "swap_run me later [dispatch_swap pk False (vw_vault y)] v1 (vw_keys y) = Inr (v', ring)"
        by (auto simp: exit_run_def bind_call_Inr dispatch_swap_def)
      with swap_run_steps [of pk False "vw_vault y" y2 me v' ring] y2 swap show ?thesis by simp
    next
      case ask
      with assms(1) fin obtain v2 es2 where
        cb: "callback_finalize (self_call_at me later) pk dao_says v1 = Inr (v2, es2)"
        and rest: "swap_run me later es2 v2 (vw_keys y) = Inr (v', ring)"
        by (auto simp: exit_run_def bind_call_Inr)
      define y3 where "y3 = y2\<lparr>vw_vault := v2, vw_receipts := vw_receipts y2 - {#AskCeasedToFinalize pk#} + mset es2\<rparr>"
      have "vault_step me y2 y3"
        unfolding y3_def using y2 ask cb by (intro answer [OF _ dao_callback.simps(3)]) auto
      moreover have "\<exists>z. vault_steps me y3 z \<and> vw_vault z = v' \<and> vw_keys z = ring"
      proof (cases "es2 = [ReturnBool False]")
        case True
        with rest show ?thesis by (intro exI [of _ y3]) (simp add: y3_def y2)
      next
        case False
        with cb have "es2 = [dispatch_swap pk True v1]" "v2 = v1"
          by (auto simp: callback_finalize_def run_simps split: option.splits if_splits)
        with swap_run_steps [of pk True v1 y3 me v' ring] rest show ?thesis by (simp add: y3_def y2)
      qed
      ultimately show ?thesis by (blast intro: converse_rtranclp_into_rtranclp)
    qed
  qed
  with steps show ?thesis by (blast intro: rtranclp_trans)
qed

text \<open>Every way such a run can end.\<close>

lemma exit_run_swap:
  "swap_run me now [dispatch_swap pk b v] v ring =
     (if \<not> tracked_keys v \<subseteq> dom ring \<or> pk \<in> dom ring - tracked_keys v then Inr (v, ring)
      else Inr (v\<lparr>unlocked := True, recovery := None, initial_tee_key := None, registered_tee_keys := []\<rparr>,
             (ring |` (- tracked_keys v))(pk \<mapsto> FullAccess)))"
  by (auto simp: swap_run_dispatched swap_action)

lemma exit_run_table:
  assumes "\<not> unlocked v" "recovery v = Some r"
  shows "exit_run me who pk dao_says now later v ring =
      (if who \<noteq> vault_parent v then Inl (Refused NotTheParent)
       else if now < finalize_after r then Inl (Refused DelayNotElapsed)
       else if now > finalize_before r \<or>
           recovery_cause r = Cessation \<and> (later > finalize_before r \<or> dao_says = Some False)
         then Inr (v\<lparr>recovery := None\<rparr>, ring)
       else if recovery_cause r = Cessation \<and> dao_says = None \<or>
           \<not> tracked_keys v \<subseteq> dom ring \<or> pk \<in> dom ring - tracked_keys v
         then Inr (v, ring)
       else Inr (v\<lparr>unlocked := True, recovery := None, initial_tee_key := None, registered_tee_keys := []\<rparr>,
              (ring |` (- tracked_keys v))(pk \<mapsto> FullAccess)))"
proof (cases "who \<noteq> vault_parent v \<or> now < finalize_after r \<or> now > finalize_before r")
  case True
  with assms show ?thesis by (auto simp: exit_run_def finalize_recovery_def eval_simps)
next
  case False
  show ?thesis
  proof (cases "recovery_cause r")
    case Unilateral
    have "exit_run me who pk dao_says now later v ring = swap_run me later [dispatch_swap pk False v] v ring"
      using False assms Unilateral
      by (simp add: exit_run_def finalize_recovery_def eval_simps) (simp add: dispatch_swap_def)
    with False Unilateral show ?thesis by (auto simp: exit_run_swap)
  next
    case Cessation
    have "exit_run me who pk dao_says now later v ring =
        bind_call (callback_finalize (self_call_at me later) pk dao_says v) (\<lambda>(v2, es2). swap_run me later es2 v2 ring)"
      using False assms Cessation by (simp add: exit_run_def finalize_recovery_def eval_simps)
    with False Cessation assms(2) show ?thesis
      by (cases dao_says) (auto simp: callback_finalize_def eval_simps exit_run_swap)
  qed
qed

section \<open>What a call does to a recovery\<close>

lemma call_recovery:
  assumes "run_vault_call c cx v = Inr (t, es)" "recovery t = Some r" "vault_ok v"
  shows "recovery v = Some r \<or> recovery v = None \<and> initiated_at r = block_timestamp cx"
proof (cases c)
  case UnilateralInitiateRecovery
  with assms(1) have "unilateral_initiate_recovery cx v = Inr (t, es)" by simp
  from unilateral_run [OF this assms(3)] assms(2) show ?thesis by auto
qed (use assms in \<open>auto simp: vault_call_defs run_simps
      split: if_splits option.splits recovery_trigger.splits\<close>)

lemma callback_recovery:
  assumes "dao_callback e = Some f" "f cx result v = Inr (t, es)" "recovery t = Some r"
  shows "recovery v = Some r \<or> recovery v = None \<and> initiated_at r = block_timestamp cx"
proof (cases e)
  case AskCeasedToInitiate
  with assms have "callback_initiate cx result v = Inr (t, es)" by simp
  from callback_initiate_run [OF this] assms(3) show ?thesis by auto
qed (use assms in \<open>auto simp: callback_add_tee_key_def callback_finalize_def run_simps
      check_new_tee_key_def split: option.splits if_splits\<close>)

section \<open>A proposal overtaken by a hand-over\<close>

lemma reach_call:
  assumes "vault_reachable sub me y" "run_vault_call c cx (vw_vault y) = Inr (v, es)"
    and "current_account cx = me" "block_timestamp cx = vw_now y" "predecessor cx \<noteq> me"
  shows "\<exists>z. vault_reachable sub me z \<and> vw_vault z = v \<and> vw_keys z = vw_keys y \<and>
    vw_receipts z = vw_receipts y + mset es \<and> vw_now z = vw_now y \<and> vw_swaps z = vw_swaps y"
  using vault_reachable.step [OF assms(1) call [OF assms(2-4)]] assms(5) by fastforce

text \<open>
  A worker key is proposed, the parent exits and the keys are swapped while the answer of the DAO is
  still under way.
\<close>

lemma race_before:
  assumes "sub me parent" "parent \<noteq> me"
  shows "\<exists>y. vault_reachable sub me y \<and> unlocked (vw_vault y) \<and> vault_parent (vw_vault y) = parent \<and>
    AskKeystoreApproved ''t1'' \<in># vw_receipts y \<and> initial_tee_key (vw_vault y) = None \<and>
    registered_tee_keys (vw_vault y) = [] \<and> vw_keys y ''t1'' = None \<and>
    vw_keys y ''p1'' = Some FullAccess \<and> vw_swaps y = {#}"
proof -
  let ?D = "DAY_SECS * SECOND_NS"
  let ?v = "\<lparr>vault_parent = parent, keystore_dao = ''dao'', mpc_contract = ''mpc'',
    initial_tee_key = Some ''t0'', registered_tee_keys = [], recovery = None, unlocked = False,
    unilateral_exit_window_secs = DAY_SECS\<rparr>"
  let ?cx = "(self_call_at me 0)\<lparr>predecessor := parent\<rparr>"
  let ?r = "\<lparr>initiated_at = 0, finalize_after = ?D, finalize_before = ?D + FINALIZE_WINDOW_NS,
    recovery_cause = Unilateral\<rparr>"
  have "new_vault sub ?cx parent ''dao'' ''mpc'' (Some ''t0'') None = Inr ?v"
    using assms(1) by (simp add: new_vault_def assert_exit_window_in_range_def eval_simps Let_def
        DEFAULT_UNILATERAL_EXIT_WINDOW_SECS_def MIN_UNILATERAL_EXIT_WINDOW_SECS_def
        MAX_UNILATERAL_EXIT_WINDOW_SECS_def)
  from deploy [OF this, of me] have y0: "vault_reachable sub me (deployed_vault ?v 0)" by simp
  have "run_vault_call (ProposeTeeKey ''t1'') ?cx (vw_vault (deployed_vault ?v 0))
      = Inr (?v, [AskKeystoreApproved ''t1''])"
    by (simp add: propose_tee_key_def check_new_tee_key_def eval_simps MAX_REGISTERED_TEE_KEYS_def
        deployed_vault_def)
  from reach_call [OF y0 this] assms(2) obtain y1 where y1: "vault_reachable sub me y1" "vw_vault y1 = ?v"
    "vw_keys y1 = [''t0'' \<mapsto> TeeCall]" "vw_receipts y1 = {#AskKeystoreApproved ''t1''#}" "vw_now y1 = 0"
    "vw_swaps y1 = {#}"
    by (auto simp: deployed_vault_def)
  have "run_vault_call UnilateralInitiateRecovery ?cx (vw_vault y1) = Inr (?v\<lparr>recovery := Some ?r\<rparr>, [])"
    unfolding y1(2) by (simp add: unilateral_initiate_recovery_def start_recovery_def eval_simps
        DAY_SECS_def SECOND_NS_def FINALIZE_WINDOW_NS_def)
  from reach_call [OF y1(1) this] assms(2) y1(3-6) obtain y2 where y2: "vault_reachable sub me y2"
    "vw_vault y2 = ?v\<lparr>recovery := Some ?r\<rparr>" "vw_keys y2 = [''t0'' \<mapsto> TeeCall]"
    "vw_receipts y2 = {#AskKeystoreApproved ''t1''#}" "vw_now y2 = 0" "vw_swaps y2 = {#}" by auto
  let ?y3 = "y2\<lparr>vw_now := ?D\<rparr>"
  have y3: "vault_reachable sub me ?y3"
    by (rule vault_reachable.step [OF y2(1) time]) (simp add: y2(5))
  let ?e = "dispatch_swap ''p1'' False (vw_vault y2)"
  have "run_vault_call (FinalizeRecovery ''p1'') (?cx\<lparr>block_timestamp := ?D\<rparr>) (vw_vault ?y3)
      = Inr (vw_vault y2, [?e])"
    by (simp add: y2(2) finalize_recovery_def eval_simps)
  from reach_call [OF y3 this] assms(2) y2(3,4,6) obtain y4 where y4: "vault_reachable sub me y4"
    "vw_vault y4 = vw_vault y2" "vw_keys y4 = [''t0'' \<mapsto> TeeCall]"
    "vw_receipts y4 = {#AskKeystoreApproved ''t1'', ?e#}" "vw_swaps y4 = {#}" by auto
  have "tracked_keys (vw_vault y4) \<subseteq> dom (vw_keys y4)" "vw_keys y4 ''p1'' = None"
    by (simp_all add: y4(2,3) y2(2) tracked_keys_def)
  from swap_completes [OF _ this, of False me] y4(4) obtain z where z: "vault_steps me y4 z"
    "vw_vault z = (vw_vault y4)\<lparr>unlocked := True, recovery := None, initial_tee_key := None,
      registered_tee_keys := []\<rparr>"
    "vw_keys z = (vw_keys y4 |` (- tracked_keys (vw_vault y4)))(''p1'' \<mapsto> FullAccess)"
    "vw_receipts z = {#AskKeystoreApproved ''t1''#}" "vw_swaps z = {#}" unfolding y4(2,5) by auto
  from reachable_steps [OF z(1) y4(1)] z(2-5) y4(2,3) y2(2) show ?thesis
    by (intro exI [of _ z]) (simp add: restrict_map_def)
qed

section \<open>Properties\<close>

text \<open>
  C9. Only the parent gets the vault, and only after the delay: in every reachable state a
  full-access key on the vault's account is one the parent named, in a \<open>finalize_recovery\<close> at least
  seven days after a cessation recovery or one day after a unilateral one began, or in an
  \<open>unlocked_add_key\<close>; and the vault is unlocked only after a hand-over to such a key was carried out,
  however calls, callbacks and the answers of the DAO interleave.
\<close>

theorem vault_handed_to_parent_only:
  assumes "vault_reachable sub me y"
  shows "(vw_keys y k = Some FullAccess \<longrightarrow>
      (\<exists>c w. (vault_parent (vw_vault y), k, c, w) \<in> set (vw_handovers y) \<and> least_wait c \<le> w) \<or>
      (vault_parent (vw_vault y), k) \<in> set (vw_grants y)) \<and>
    (unlocked (vw_vault y) \<longrightarrow> (\<exists>k \<in> set (vw_swapped y). \<exists>c w.
      (vault_parent (vw_vault y), k, c, w) \<in> set (vw_handovers y) \<and> least_wait c \<le> w))"
proof -
  note D = world_okD [OF reachable_ok [OF assms]]
  have h: "\<exists>c w. (vault_parent (vw_vault y), k, c, w) \<in> set (vw_handovers y) \<and> least_wait c \<le> w"
    if "k \<in> handed y" for k
    using that D(2) by (fastforce simp: handed_def)
  have "(vault_parent (vw_vault y), k) \<in> set (vw_grants y)" if "k \<in> granted y"
    using that D(3) by (fastforce simp: granted_def)
  with h D(6) have "vw_keys y k = Some FullAccess \<longrightarrow>
      (\<exists>c w. (vault_parent (vw_vault y), k, c, w) \<in> set (vw_handovers y) \<and> least_wait c \<le> w) \<or>
      (vault_parent (vw_vault y), k) \<in> set (vw_grants y)" by blast
  moreover have "unlocked (vw_vault y) \<longrightarrow> (\<exists>k \<in> set (vw_swapped y). \<exists>c w.
      (vault_parent (vw_vault y), k, c, w) \<in> set (vw_handovers y) \<and> least_wait c \<le> w)"
    using D(7,9) h by (cases "vw_swapped y") auto
  ultimately show ?thesis ..
qed

text \<open>
  C35. How an exit ends. In a locked vault with a recovery running, \<open>finalize_recovery\<close> with the receipts
  it starts, and no other call between them, comes to this: anyone but the parent is refused, and
  the parent before the delay is over; past the window (at the call, or for a cessation at the DAO's
  answer) or when the DAO says the operator has not ceased, the recovery is dropped and nothing else
  changes; when the DAO's answer fails, when a worker key the vault tracks is not on the account or
  when the parent's key already is, nothing changes and the parent may try again; in every other case
  the vault is unlocked, its recovery and its worker keys are gone from its state, and on its account
  the parent's key stands with full access in place of every worker key, all other keys as before.
  Each of these ends is a run of the machine of calls and receipts.
\<close>

theorem exit_ends:
  assumes "\<not> unlocked (vw_vault y)" "recovery (vw_vault y) = Some r" "vw_now y \<le> later" "who \<noteq> me"
  shows "exit_run me who pk dao_says (vw_now y) later (vw_vault y) (vw_keys y) =
      (if who \<noteq> vault_parent (vw_vault y) then Inl (Refused NotTheParent)
       else if vw_now y < finalize_after r then Inl (Refused DelayNotElapsed)
       else if vw_now y > finalize_before r \<or>
           recovery_cause r = Cessation \<and> (later > finalize_before r \<or> dao_says = Some False)
         then Inr ((vw_vault y)\<lparr>recovery := None\<rparr>, vw_keys y)
       else if recovery_cause r = Cessation \<and> dao_says = None \<or>
           \<not> tracked_keys (vw_vault y) \<subseteq> dom (vw_keys y) \<or> pk \<in> dom (vw_keys y) - tracked_keys (vw_vault y)
         then Inr (vw_vault y, vw_keys y)
       else Inr ((vw_vault y)\<lparr>unlocked := True, recovery := None, initial_tee_key := None, registered_tee_keys := []\<rparr>,
              (vw_keys y |` (- tracked_keys (vw_vault y)))(pk \<mapsto> FullAccess))) \<and>
    (\<forall>v ring. exit_run me who pk dao_says (vw_now y) later (vw_vault y) (vw_keys y) = Inr (v, ring) \<longrightarrow>
       (\<exists>z. vault_steps me y z \<and> vw_vault z = v \<and> vw_keys z = ring))"
  using exit_run_table [OF assms(1,2)] exit_run_steps [OF _ assms(3,4)] by blast

text \<open>
  A running recovery keeps its terms: no step changes the times or the cause of a recovery in
  flight, it is only ended, and a recovery that a step starts runs at least seven days for a
  cessation and one day for an exit by the parent, with seven more to finalize, whatever exit
  window is set before or after.
\<close>

theorem recovery_terms_frozen:
  assumes "vault_reachable sub me y" "vault_step me y z" "recovery (vw_vault z) = Some r"
  shows "recovery (vw_vault y) = Some r \<or>
    recovery (vw_vault y) = None \<and> initiated_at r = vw_now y \<and>
    initiated_at r + least_wait (recovery_cause r) \<le> finalize_after r \<and>
    finalize_before r = finalize_after r + FINALIZE_WINDOW_NS"
proof -
  note ok = reachable_ok [OF assms(1)]
  have "recovery_ok r" using world_okD(1) [OF vault_step_ok [OF ok assms(2)]] assms(3)
    by (simp add: vault_ok_def)
  moreover have "recovery (vw_vault y) = Some r \<or> recovery (vw_vault y) = None \<and> initiated_at r = vw_now y"
    using assms(2)
  proof (cases rule: vault_step.cases)
    case (call c cx v es)
    with assms(3) call_recovery [of c cx "vw_vault y" v es r] world_okD(1) [OF ok] show ?thesis by auto
  next
    case (answer e f cx result v es)
    with assms(3) callback_recovery [of e f cx result "vw_vault y" v es r] show ?thesis by auto
  next
    case (after_swap b swapped cx v es)
    with assms(3) show ?thesis by (auto simp: callback_after_swap_def run_simps split: if_splits)
  qed (use assms(3) in auto)
  ultimately show ?thesis by (auto simp: recovery_ok_def)
qed

text \<open>
  The master is asked for only by a key of a locked vault: whichever step sends
  \<open>request_app_private_key\<close> to the MPC contract, the vault was locked, the call was signed by a key on
  its account that may sign it, and one yoctoNEAR went along.
\<close>

theorem master_requested_only_while_locked:
  assumes "vault_step me y z" "RequestAppPrivateKey mpc request deposit \<in># vw_receipts z"
    and "RequestAppPrivateKey mpc request deposit \<notin># vw_receipts y"
  shows "\<not> unlocked (vw_vault y) \<and> mpc = mpc_contract (vw_vault y) \<and> deposit = 1 \<and>
    (\<exists>pk a. vw_keys y pk = Some a \<and> may_sign a (RequestMaster request))"
  using assms(1)
proof (cases rule: vault_step.cases)
  case (call c cx v es)
  with assms(2,3) have "RequestAppPrivateKey mpc request deposit \<in> set es" by auto
  with call(2) have c: "c = RequestMaster request"
    by (cases c; auto simp: vault_call_defs run_simps dispatch_swap_def unilateral_initiate_recovery_def
        start_recovery_def
        split: if_splits option.splits recovery_trigger.splits)
  with call assms(2,3) show ?thesis by (auto simp: request_master_def run_simps)
next
  case (answer e f cx result v es)
  with assms(2,3) have "RequestAppPrivateKey mpc request deposit \<in> set es" by (auto dest!: in_diffD)
  with answer(3,4) have False
    by (cases e) (auto simp: vault_callback_defs run_simps split: option.splits if_splits)
  then show ?thesis ..
qed (use assms(2,3) in \<open>auto dest: in_diffD\<close>)

text \<open>
  A worker key can outlive the hand-over: the callback that installs a proposed key does not
  look at \<open>unlocked\<close>, so a proposal the DAO answers after the keys were swapped puts a worker key on
  an account that already belongs to its parent. Such a state is reachable.
\<close>

theorem tee_key_outlives_handover:
  assumes "sub me parent" "parent \<noteq> me"
  shows "\<exists>y. vault_reachable sub me y \<and> unlocked (vw_vault y) \<and> vault_parent (vw_vault y) = parent \<and>
    vw_keys y ''t1'' = Some TeeCall \<and> ''t1'' \<in> set (registered_tee_keys (vw_vault y))"
proof -
  from race_before [of sub me parent] assms obtain y where y: "vault_reachable sub me y" "unlocked (vw_vault y)"
    "vault_parent (vw_vault y) = parent" "AskKeystoreApproved ''t1'' \<in># vw_receipts y"
    "initial_tee_key (vw_vault y) = None" "registered_tee_keys (vw_vault y) = []" "vw_keys y ''t1'' = None"
    by blast
  let ?v = "(vw_vault y)\<lparr>registered_tee_keys := [''t1'']\<rparr>"
  have "callback_add_tee_key (self_call_at me (vw_now y)) ''t1'' (Some True) (vw_vault y)
      = Inr (?v, [AddTeeKey ''t1''])"
    using y(5,6) by (simp add: callback_add_tee_key_def check_new_tee_key_def eval_simps MAX_REGISTERED_TEE_KEYS_def)
  from answer [OF y(4) dao_callback.simps(1), OF this, of me] obtain y1 where
    y1: "vault_step me y y1" "vw_vault y1 = ?v" "vw_keys y1 = vw_keys y" "AddTeeKey ''t1'' \<in># vw_receipts y1"
    by fastforce
  from keys [OF y1(4), of me] obtain y2 where y2: "vault_step me y1 y2" "vw_vault y2 = ?v"
    "vw_keys y2 = (vw_keys y)(''t1'' \<mapsto> TeeCall)"
    using y1(2,3) y(7) by (fastforce simp: add_key_def)
  from y2(2,3) y(2,3) vault_reachable.step [OF vault_reachable.step [OF y(1) y1(1)] y2(1)]
  show ?thesis by (intro exI [of _ y2]) simp
qed

section \<open>Witnesses\<close>

definition demo_vault :: vault where
  "demo_vault = \<lparr>vault_parent = ''a'', keystore_dao = ''dao'', mpc_contract = ''mpc'',
     initial_tee_key = Some ''t0'', registered_tee_keys = [], recovery = None, unlocked = False,
     unilateral_exit_window_secs = DAY_SECS\<rparr>"

definition exiting :: recovery_state where
  "exiting = \<lparr>initiated_at = 0, finalize_after = DAY_SECS * SECOND_NS,
     finalize_before = DAY_SECS * SECOND_NS + FINALIZE_WINDOW_NS, recovery_cause = Unilateral\<rparr>"

lemma demo_deployed: "vault_reachable (\<lambda>_ _. True) ''v.a'' (deployed_vault demo_vault 0)"
proof -
  have "new_vault (\<lambda>_ _. True) (self_call_at ''v.a'' 0) ''a'' ''dao'' ''mpc'' (Some ''t0'') None = Inr demo_vault"
    by (simp add: new_vault_def assert_exit_window_in_range_def eval_simps Let_def demo_vault_def
        DEFAULT_UNILATERAL_EXIT_WINDOW_SECS_def MIN_UNILATERAL_EXIT_WINDOW_SECS_def
        MAX_UNILATERAL_EXIT_WINDOW_SECS_def)
  from deploy [OF this, of "''v.a''"] show ?thesis by simp
qed

theorem vault_handed_to_parent_only_witness:
  "\<exists>y k c w. vault_reachable (\<lambda>_ _. True) ''v.a'' y \<and> unlocked (vw_vault y) \<and>
     (vault_parent (vw_vault y), k, c, w) \<in> set (vw_handovers y) \<and> least_wait c \<le> w"
proof -
  from race_before [of "\<lambda>_ _. True" "''v.a''" "''a''"] obtain y where
    y: "vault_reachable (\<lambda>_ _. True) ''v.a'' y" "unlocked (vw_vault y)" by auto
  from vault_handed_to_parent_only [OF y(1), of "''k''"] y show ?thesis by blast
qed

theorem exit_ends_witness:
  "\<exists>z. vault_steps ''v.a'' (deployed_vault (demo_vault\<lparr>recovery := Some exiting\<rparr>) (DAY_SECS * SECOND_NS)) z \<and>
     unlocked (vw_vault z) \<and> vw_keys z = [''p1'' \<mapsto> FullAccess]"
proof -
  let ?y = "deployed_vault (demo_vault\<lparr>recovery := Some exiting\<rparr>) (DAY_SECS * SECOND_NS)"
  have "\<not> unlocked (vw_vault ?y)" "recovery (vw_vault ?y) = Some exiting" "''a'' \<noteq> ''v.a''"
    by (auto simp: deployed_vault_def demo_vault_def)
  note ends = exit_ends [OF this(1,2) order_refl this(3), of "''p1''" None]
  have "(vw_keys ?y |` (- tracked_keys (vw_vault ?y)))(''p1'' \<mapsto> FullAccess) = [''p1'' \<mapsto> FullAccess]"
    "tracked_keys (vw_vault ?y) \<subseteq> dom (vw_keys ?y)" "''p1'' \<notin> dom (vw_keys ?y)"
    "vault_parent (vw_vault ?y) = ''a''" "finalize_after exiting \<le> vw_now ?y" "vw_now ?y \<le> finalize_before exiting"
    "recovery_cause exiting = Unilateral"
    by (auto simp: deployed_vault_def demo_vault_def exiting_def tracked_keys_def restrict_map_def)
  with ends have "exit_run ''v.a'' ''a'' ''p1'' None (vw_now ?y) (vw_now ?y) (vw_vault ?y) (vw_keys ?y) =
      Inr ((vw_vault ?y)\<lparr>unlocked := True, recovery := None, initial_tee_key := None, registered_tee_keys := []\<rparr>,
        [''p1'' \<mapsto> FullAccess])" by simp
  with ends obtain z where "vault_steps ''v.a'' ?y z" "unlocked (vw_vault z)" "vw_keys z = [''p1'' \<mapsto> FullAccess]"
    by fastforce
  then show ?thesis by blast
qed

theorem recovery_terms_frozen_witness:
  "\<exists>z. vault_step ''v.a'' (deployed_vault demo_vault 0) z \<and> recovery (vw_vault z) = Some exiting \<and>
     initiated_at exiting + least_wait Unilateral \<le> finalize_after exiting"
proof -
  let ?cx = "(self_call_at ''v.a'' 0)\<lparr>predecessor := ''a''\<rparr>"
  have "run_vault_call UnilateralInitiateRecovery ?cx (vw_vault (deployed_vault demo_vault 0))
      = Inr (demo_vault\<lparr>recovery := Some exiting\<rparr>, [])"
    by (simp add: unilateral_initiate_recovery_def start_recovery_def eval_simps deployed_vault_def
        demo_vault_def exiting_def DAY_SECS_def SECOND_NS_def FINALIZE_WINDOW_NS_def)
  from call [OF this, of "''v.a''"] obtain z where z: "vault_step ''v.a'' (deployed_vault demo_vault 0) z"
    "recovery (vw_vault z) = Some exiting" by (fastforce simp: deployed_vault_def)
  have "recovery (vw_vault (deployed_vault demo_vault 0)) = None" "recovery_cause exiting = Unilateral"
    by (simp_all add: deployed_vault_def demo_vault_def exiting_def)
  with recovery_terms_frozen [OF demo_deployed z] z show ?thesis by auto
qed

theorem master_requested_only_while_locked_witness:
  "\<exists>z. vault_step ''v.a'' (deployed_vault demo_vault 0) z \<and>
     RequestAppPrivateKey ''mpc'' ''{}'' 1 \<in># vw_receipts z \<and>
     (\<exists>pk a. vw_keys (deployed_vault demo_vault 0) pk = Some a \<and> may_sign a (RequestMaster ''{}''))"
proof -
  have "run_vault_call (RequestMaster ''{}'') (self_call_at ''v.a'' 0) (vw_vault (deployed_vault demo_vault 0))
      = Inr (demo_vault, [RequestAppPrivateKey ''mpc'' ''{}'' 1])"
    by (simp add: request_master_def eval_simps deployed_vault_def demo_vault_def)
  moreover have "vw_keys (deployed_vault demo_vault 0) ''t0'' = Some TeeCall \<and> may_sign TeeCall (RequestMaster ''{}'')"
    by (simp add: deployed_vault_def demo_vault_def)
  ultimately obtain z where z: "vault_step ''v.a'' (deployed_vault demo_vault 0) z"
    "RequestAppPrivateKey ''mpc'' ''{}'' 1 \<in># vw_receipts z"
    using call [of "RequestMaster ''{}''" "self_call_at ''v.a'' 0" "deployed_vault demo_vault 0" demo_vault
        "[RequestAppPrivateKey ''mpc'' ''{}'' 1]" "''v.a''"] by (fastforce simp: deployed_vault_def)
  have "RequestAppPrivateKey ''mpc'' ''{}'' 1 \<notin># vw_receipts (deployed_vault demo_vault 0)"
    by (simp add: deployed_vault_def)
  from master_requested_only_while_locked [OF z this] z show ?thesis by blast
qed

theorem tee_key_outlives_handover_witness:
  "\<exists>y. vault_reachable (\<lambda>_ _. True) ''v.a'' y \<and> unlocked (vw_vault y) \<and> vw_keys y ''t1'' = Some TeeCall"
  using tee_key_outlives_handover [of "\<lambda>_ _. True" "''v.a''" "''a''"] by auto

end
