(* ===== verification/Attestation.thy ===== *)
theory Attestation
  imports Rust_Text
begin

text \<open>
  How the keystore DAO and the worker register judge a TDX quote
  (\<open>keystore-dao-contract/src/lib.rs\<close> and \<open>collateral.rs\<close>, \<open>register-contract/src\<close>): the measurements
  a quote reports, Intel's reference data (the collateral) as the owner caches it, the slot of the
  cache a quote is judged by, and the key a quote speaks for. The quote library, JSON, hex and
  SHA-256 are not code of the repository: \<open>tee_libs\<close> collects them.
\<close>

section \<open>Keys, measurements and the libraries\<close>

datatype curve_type = ED25519 | SECP256K1 | MLDSA65

text \<open>\<open>PublicKey\<close>: the bytes after the curve tag; the length of the data is that of the curve.\<close>

record curve_key =
  key_curve :: curve_type
  key_data :: string

record measurements =
  mrtd :: string
  rtmr0 :: string
  rtmr1 :: string
  rtmr2 :: string
  rtmr3 :: string

record quote_collateral =
  tcb_info_issuer_chain :: string
  tcb_info :: string
  tcb_info_signature :: string
  qe_identity_issuer_chain :: string
  qe_identity :: string
  qe_identity_signature :: string
  pck_crl_issuer_chain :: string
  root_ca_crl :: string
  pck_crl :: string
  pck_certificate_chain :: "string option"

record td10_report =
  mr_td :: string
  rt_mr0 :: string
  rt_mr1 :: string
  rt_mr2 :: string
  rt_mr3 :: string
  report_data :: string

record verified_quote =
  tcb_status :: string
  advisory_ids :: "string list"
  as_td10 :: "td10_report option"

text \<open>
  A JSON value is known by what \<open>v.get(key).and_then(Value::as_str)\<close> answers. \<open>lib_quote_fmspc\<close> is
  \<open>Quote::parse\<close> followed by \<open>fmspc\<close>: no value when the bytes are no quote, no inner value when the
  quote carries no FMSPC.
\<close>

record tee_libs =
  lib_hex_decode :: "string \<Rightarrow> string option"
  lib_hex_encode :: "string \<Rightarrow> string"
  lib_sha256 :: "string \<Rightarrow> string"
  lib_json :: "string \<Rightarrow> (string \<rightharpoonup> string) option"
  lib_quote_fmspc :: "string \<Rightarrow> string option option"
  lib_verify_quote :: "string \<Rightarrow> quote_collateral \<Rightarrow> nat \<Rightarrow> verified_quote option"
  lib_parse_key :: "string \<Rightarrow> curve_key option"

section \<open>The collateral\<close>

datatype collateral_error = MissingField string | HexDecode string

type_synonym 'a collateral_result = "collateral_error + 'a"

definition get_str :: "(string \<rightharpoonup> string) \<Rightarrow> string \<Rightarrow> (string \<Rightarrow> 'a collateral_result) \<Rightarrow> 'a collateral_result" where
  "get_str v key k = (case v key of None \<Rightarrow> Inl (MissingField key) | Some s \<Rightarrow> k s)"

definition get_hex ::
  "tee_libs \<Rightarrow> (string \<rightharpoonup> string) \<Rightarrow> string \<Rightarrow> (string \<Rightarrow> 'a collateral_result) \<Rightarrow> 'a collateral_result" where
  "get_hex tee v key k =
     get_str v key (\<lambda>s. case lib_hex_decode tee s of None \<Rightarrow> Inl (HexDecode key) | Some bytes \<Rightarrow> k bytes)"

definition try_from_json :: "tee_libs \<Rightarrow> (string \<rightharpoonup> string) \<Rightarrow> quote_collateral collateral_result" where
  "try_from_json tee v =
     get_str v ''tcb_info_issuer_chain'' (\<lambda>tcb_chain.
     get_str v ''tcb_info'' (\<lambda>tcb.
     get_hex tee v ''tcb_info_signature'' (\<lambda>tcb_sig.
     get_str v ''qe_identity_issuer_chain'' (\<lambda>qe_chain.
     get_str v ''qe_identity'' (\<lambda>qe.
     get_hex tee v ''qe_identity_signature'' (\<lambda>qe_sig.
     get_str v ''pck_crl_issuer_chain'' (\<lambda>crl_chain.
     get_hex tee v ''root_ca_crl'' (\<lambda>root_crl.
     get_hex tee v ''pck_crl'' (\<lambda>crl.
     Inr \<lparr>tcb_info_issuer_chain = tcb_chain, tcb_info = tcb, tcb_info_signature = tcb_sig,
          qe_identity_issuer_chain = qe_chain, qe_identity = qe, qe_identity_signature = qe_sig,
          pck_crl_issuer_chain = crl_chain, root_ca_crl = root_crl, pck_crl = crl,
          pck_certificate_chain = v ''pck_certificate_chain''\<rparr>)))))))))"

text \<open>\<open>str::find\<close>, as what follows the first occurrence.\<close>

fun after_first :: "string \<Rightarrow> string \<Rightarrow> string option" where
  "after_first p [] = (if p = [] then Some [] else None)"
| "after_first p (c # s) =
     (if starts_with p (c # s) then Some (drop (length p) (c # s)) else after_first p s)"

definition collateral_fmspc :: "string \<Rightarrow> string option" where
  "collateral_fmspc collateral =
     (case after_first ''fmspc'' collateral of
        None \<Rightarrow> None
      | Some rest \<Rightarrow>
          let hex = takeWhile is_ascii_hexdigit (dropWhile (\<lambda>c. \<not> is_ascii_hexdigit c) rest)
          in if length hex \<ge> 12 then Some (take 12 hex) else None)"

definition select_collateral :: "string \<Rightarrow> string list \<Rightarrow> string option" where
  "select_collateral quote_fmspc collaterals =
     List.find (\<lambda>c. case collateral_fmspc c of
                      None \<Rightarrow> False | Some f \<Rightarrow> eq_ignore_ascii_case f quote_fmspc) collaterals"

definition MAX_COLLATERALS :: nat where "MAX_COLLATERALS = 2"

section \<open>The verdict on a quote\<close>

datatype quote_error =
    QuoteHex | CollateralJson | CollateralFields collateral_error | QuoteNotVerified
  | TcbNotUpToDate string | OutstandingAdvisories "string list" | NotTd10

definition SECOND :: nat where "SECOND = 1000000000"

definition verify_tdx_quote ::
  "tee_libs \<Rightarrow> nat \<Rightarrow> string \<Rightarrow> string \<Rightarrow> quote_error + (measurements \<times> string)" where
  "verify_tdx_quote tee timestamp tdx_quote_hex collateral_json =
     (case lib_hex_decode tee tdx_quote_hex of
        None \<Rightarrow> Inl QuoteHex
      | Some quote_bytes \<Rightarrow>
     (case lib_json tee collateral_json of
        None \<Rightarrow> Inl CollateralJson
      | Some collateral_value \<Rightarrow>
     (case try_from_json tee collateral_value of
        Inl e \<Rightarrow> Inl (CollateralFields e)
      | Inr collateral \<Rightarrow>
     (case lib_verify_quote tee quote_bytes collateral (timestamp div SECOND) of
        None \<Rightarrow> Inl QuoteNotVerified
      | Some result \<Rightarrow>
     (if tcb_status result \<noteq> ''UpToDate'' then Inl (TcbNotUpToDate (tcb_status result))
      else if advisory_ids result \<noteq> [] then Inl (OutstandingAdvisories (advisory_ids result))
      else case as_td10 result of
        None \<Rightarrow> Inl NotTd10
      | Some td10 \<Rightarrow>
          Inr (\<lparr>mrtd = lib_hex_encode tee (mr_td td10), rtmr0 = lib_hex_encode tee (rt_mr0 td10),
                rtmr1 = lib_hex_encode tee (rt_mr1 td10), rtmr2 = lib_hex_encode tee (rt_mr2 td10),
                rtmr3 = lib_hex_encode tee (rt_mr3 td10)\<rparr>,
               take 32 (report_data td10)))))))"

text \<open>
  The 32 bytes of \<open>report_data\<close> that speak for a key: the key itself, or its hash when the key does
  not fit. Other curves are refused.
\<close>

definition expected_binding :: "tee_libs \<Rightarrow> curve_key \<Rightarrow> string option" where
  "expected_binding tee pk =
     (case key_curve pk of
        ED25519 \<Rightarrow> Some (take 32 (key_data pk))
      | MLDSA65 \<Rightarrow> Some (lib_sha256 tee (key_data pk))
      | SECP256K1 \<Rightarrow> None)"

definition validate_measurement_field :: "string \<Rightarrow> bool" where
  "validate_measurement_field value \<longleftrightarrow> length value = 96 \<and> list_all is_ascii_hexdigit value"

definition validate_measurements :: "measurements \<Rightarrow> bool" where
  "validate_measurements m \<longleftrightarrow>
     validate_measurement_field (mrtd m) \<and> validate_measurement_field (rtmr0 m) \<and>
     validate_measurement_field (rtmr1 m) \<and> validate_measurement_field (rtmr2 m) \<and>
     validate_measurement_field (rtmr3 m)"

text \<open>
  What a quote proves at a time, given the cache: its platform has a slot, Intel's library accepts it
  against exactly that slot as up to date and without advisories, and its report carries these
  measurements and the binding of this key.
\<close>

definition attests :: "tee_libs \<Rightarrow> nat \<Rightarrow> string list \<Rightarrow> string \<Rightarrow> curve_key \<Rightarrow> measurements \<Rightarrow> bool" where
  "attests tee timestamp collaterals tdx_quote_hex pk m \<longleftrightarrow>
     (\<exists>quote fmspc slot fields collateral result td10.
        lib_hex_decode tee tdx_quote_hex = Some quote \<and> lib_quote_fmspc tee quote = Some (Some fmspc) \<and>
        slot \<in> set collaterals \<and>
        (\<exists>f. collateral_fmspc slot = Some f \<and> eq_ignore_ascii_case f (lib_hex_encode tee fmspc)) \<and>
        lib_json tee slot = Some fields \<and> try_from_json tee fields = Inr collateral \<and>
        lib_verify_quote tee quote collateral (timestamp div SECOND) = Some result \<and>
        tcb_status result = ''UpToDate'' \<and> advisory_ids result = [] \<and> as_td10 result = Some td10 \<and>
        m = \<lparr>mrtd = lib_hex_encode tee (mr_td td10), rtmr0 = lib_hex_encode tee (rt_mr0 td10),
             rtmr1 = lib_hex_encode tee (rt_mr1 td10), rtmr2 = lib_hex_encode tee (rt_mr2 td10),
             rtmr3 = lib_hex_encode tee (rt_mr3 td10)\<rparr> \<and>
        expected_binding tee pk = Some (take 32 (report_data td10)))"

lemma verify_tdx_quote_Inr:
  "verify_tdx_quote tee now q c = Inr (m, b) \<longleftrightarrow>
     (\<exists>quote fields collateral result td10.
        lib_hex_decode tee q = Some quote \<and> lib_json tee c = Some fields \<and>
        try_from_json tee fields = Inr collateral \<and>
        lib_verify_quote tee quote collateral (now div SECOND) = Some result \<and>
        tcb_status result = ''UpToDate'' \<and> advisory_ids result = [] \<and> as_td10 result = Some td10 \<and>
        m = \<lparr>mrtd = lib_hex_encode tee (mr_td td10), rtmr0 = lib_hex_encode tee (rt_mr0 td10),
             rtmr1 = lib_hex_encode tee (rt_mr1 td10), rtmr2 = lib_hex_encode tee (rt_mr2 td10),
             rtmr3 = lib_hex_encode tee (rt_mr3 td10)\<rparr> \<and>
        b = take 32 (report_data td10))"
  by (auto simp: verify_tdx_quote_def split: option.splits sum.splits if_splits)

lemma select_collateral_Some:
  "select_collateral f cs = Some c \<Longrightarrow>
     c \<in> set cs \<and> (\<exists>g. collateral_fmspc c = Some g \<and> eq_ignore_ascii_case g f)"
  by (auto simp: select_collateral_def find_Some_iff split: option.splits)

lemma attestsI:
  assumes "lib_hex_decode tee q = Some quote" "lib_quote_fmspc tee quote = Some (Some fmspc)"
    and "select_collateral (lib_hex_encode tee fmspc) cs = Some c"
    and "verify_tdx_quote tee now q c = Inr (m, b)" "expected_binding tee pk = Some b"
  shows "attests tee now cs q pk m"
proof -
  from assms(4) obtain fields collateral result td10 where v:
    "lib_json tee c = Some fields" "try_from_json tee fields = Inr collateral"
    "lib_verify_quote tee quote collateral (now div SECOND) = Some result"
    "tcb_status result = ''UpToDate''" "advisory_ids result = []" "as_td10 result = Some td10"
    "m = \<lparr>mrtd = lib_hex_encode tee (mr_td td10), rtmr0 = lib_hex_encode tee (rt_mr0 td10),
          rtmr1 = lib_hex_encode tee (rt_mr1 td10), rtmr2 = lib_hex_encode tee (rt_mr2 td10),
          rtmr3 = lib_hex_encode tee (rt_mr3 td10)\<rparr>"
    "b = take 32 (report_data td10)"
    using assms(1) unfolding verify_tdx_quote_Inr by auto
  show ?thesis
    unfolding attests_def
    using assms(1,2,5) select_collateral_Some [OF assms(3)] v by blast
qed

section \<open>Which slot a platform has\<close>

lemma after_first_prefix:
  assumes "\<And>us vs. pre @ p @ rest = us @ p @ vs \<Longrightarrow> length pre \<le> length us" and "p \<noteq> []"
  shows "after_first p (pre @ p @ rest) = Some rest"
  using assms(1)
proof (induction pre)
  case Nil
  from assms(2) obtain c ps where p: "p = c # ps" by (cases p) auto
  then show ?case by (simp add: starts_with_def)
next
  case (Cons c pre)
  have "\<not> starts_with p (c # pre @ p @ rest)"
  proof
    assume "starts_with p (c # pre @ p @ rest)"
    then have "(c # pre) @ p @ rest = [] @ p @ drop (length p) (c # pre @ p @ rest)"
      unfolding starts_with_def by (metis append_Cons append_Nil append_take_drop_id)
    with Cons.prems show False by fastforce
  qed
  moreover have "after_first p (pre @ p @ rest) = Some rest"
  proof (rule Cons.IH)
    fix us vs assume "pre @ p @ rest = us @ p @ vs"
    then have "(c # pre) @ p @ rest = (c # us) @ p @ vs" by simp
    with Cons.prems show "length pre \<le> length us" by fastforce
  qed
  ultimately show ?case by simp
qed

lemma find_append:
  "List.find P (xs @ ys) = (case List.find P xs of None \<Rightarrow> List.find P ys | Some x \<Rightarrow> Some x)"
  by (induction xs) auto

lemma contains_strI: "contains_str p (us @ p @ vs)"
proof (induction us)
  case Nil
  have "starts_with p (p @ vs)" by (simp add: starts_with_def)
  then show ?case by (cases "p @ vs") simp_all
next
  case (Cons c us)
  then show ?case by simp
qed

lemma first_occurrence:
  assumes "\<not> contains_str p (pre @ butlast p)" "pre @ p @ rest = us @ p @ vs" "p \<noteq> []"
  shows "length pre \<le> length us"
proof (rule ccontr)
  assume "\<not> length pre \<le> length us"
  then have short: "length us + length p \<le> length (pre @ butlast p)"
    using assms(3) by simp
  have "take (length (pre @ butlast p)) (pre @ p @ rest) = pre @ butlast p"
    using assms(3) by (simp add: butlast_conv_take)
  with assms(2) have "pre @ butlast p = take (length (pre @ butlast p)) (us @ p @ vs)"
    by simp
  also have "\<dots> = us @ p @ take (length (pre @ butlast p) - length us - length p) vs"
    using short by simp
  finally show False using assms(1) contains_strI by metis
qed

text \<open>
  The FMSPC of a cached collateral is read from it: when the key \<open>fmspc\<close> occurs first where the
  document names it, whatever stands before, the separator in between has no hex digit, and twelve
  hex digits follow, the scan returns exactly those twelve; so a quote of that platform, in either
  case of its digits, is judged by that slot of the cache unless an earlier slot is of the same platform.
\<close>

theorem platform_slot_found:
  assumes "\<not> contains_str ''fmspc'' (pre @ ''fmsp'')"
    and "list_all (\<lambda>c. \<not> is_ascii_hexdigit c) sep"
    and "length f = 12" "list_all is_ascii_hexdigit f"
    and "slot = pre @ ''fmspc'' @ sep @ f @ post"
    and "eq_ignore_ascii_case f quote_fmspc"
    and "\<forall>c\<in>set earlier. \<forall>g. collateral_fmspc c = Some g \<longrightarrow> \<not> eq_ignore_ascii_case g f"
  shows "collateral_fmspc slot = Some f \<and> select_collateral quote_fmspc (earlier @ slot # later) = Some slot"
proof
  have "after_first ''fmspc'' slot = Some (sep @ f @ post)"
    unfolding assms(5)
    by (rule after_first_prefix, rule first_occurrence [where rest = "sep @ f @ post" and p = "''fmspc''"])
      (use assms(1) in simp_all)
  moreover have "dropWhile (\<lambda>c. \<not> is_ascii_hexdigit c) (sep @ f @ post) = f @ post"
  proof -
    from assms(3,4) obtain c g where "f = c # g" "is_ascii_hexdigit c" by (cases f) auto
    with assms(2) show ?thesis by (simp add: dropWhile_append2 list_all_iff)
  qed
  moreover have "takeWhile is_ascii_hexdigit (f @ post) = f @ takeWhile is_ascii_hexdigit post"
    using assms(4) by (simp add: list_all_iff)
  ultimately show read: "collateral_fmspc slot = Some f"
    using assms(3) by (simp add: collateral_fmspc_def)
  have "List.find (\<lambda>c. case collateral_fmspc c of
      None \<Rightarrow> False | Some f \<Rightarrow> eq_ignore_ascii_case f quote_fmspc) earlier = None"
    using assms(6,7) by (auto simp: find_None_iff eq_ignore_ascii_case_def split: option.splits)
  then show "select_collateral quote_fmspc (earlier @ slot # later) = Some slot"
    using read assms(6) by (simp add: select_collateral_def find_append)
qed

theorem platform_slot_found_witness:
  "collateral_fmspc (''{tcb: {'' @ ''fmspc'' @ '': '' @ ''20a06f000000'' @ '', pceId}}'') = Some ''20a06f000000''
    \<and> select_collateral ''20A06F000000''
        ([''fmspc:B0C06F000000''] @ (''{tcb: {'' @ ''fmspc'' @ '': '' @ ''20a06f000000'' @ '', pceId}}'') # [])
      = Some (''{tcb: {'' @ ''fmspc'' @ '': '' @ ''20a06f000000'' @ '', pceId}}'')"
  by (rule platform_slot_found [where sep = "'': ''" and post = "'', pceId}}''"])
    (simp_all add: starts_with_def is_ascii_hexdigit_def eq_ignore_ascii_case_def ascii_lower_def
      collateral_fmspc_def)

end
