(* ===== verification/Keystore_Dao.thy ===== *)
theory Keystore_Dao
  imports Attestation
begin

text \<open>
  The keystore DAO (\<open>keystore-dao-contract/src/lib.rs\<close>, \<open>migration.rs\<close>): keystore workers ask for an
  access key of the contract by attestation and get it by a vote of the members; members revoke keys
  by vote, keep the list of vault code the DAO trusts by vote, and ban vaults and declare cessation
  alone. The operations come first, in the order of the source; then histories of calls, the
  invariant of the reachable states and the rules of the votes.
\<close>

section \<open>State\<close>

type_synonym code_hash = string

datatype proposal_status = Pending | Approved | Rejected | Executed

record keystore_proposal =
  kp_id :: nat
  kp_public_key :: curve_key
  kp_measurements :: measurements
  kp_submitter :: account
  kp_created_at :: nat
  kp_votes_for :: nat
  kp_votes_against :: nat
  kp_status :: proposal_status

record revoke_proposal =
  rp_id :: nat
  rp_public_keys :: "curve_key list"
  rp_proposer :: account
  rp_created_at :: nat
  rp_votes_for :: nat
  rp_votes_against :: nat
  rp_status :: proposal_status

record vault_version_info =
  vv_label :: string
  vv_audit_url :: "string option"
  vv_deprecated :: bool
  vv_approved_at :: nat

record approval_args =
  aa_label :: string
  aa_audit_url :: "string option"

datatype vault_version_action = ApproveVersion code_hash | RevokeVersion code_hash

text \<open>
  The stored state. Its shape before revocation proposals (\<open>migration.rs\<close>) is the same record
  without its last field, so the current state extends it.
\<close>

record dao_v3 =
  dao_members :: "account fset"
  approval_threshold :: nat
  dao_owner_id :: account
  init_account_id :: account
  mpc_contract_id :: account
  proposals :: "nat \<rightharpoonup> keystore_proposal"
  next_proposal_id :: nat
  votes :: "nat \<times> account \<rightharpoonup> bool"
  approved_keystores :: "curve_key fset"
  approved_measurements :: "measurements list"
  collaterals :: "string list"
  ceased_operations :: bool
  approved_vault_code_hashes :: "code_hash fset"
  vault_versions :: "code_hash \<rightharpoonup> vault_version_info"
  verified_vaults :: "account fset"
  banned_vaults :: "account fset"
  vault_version_votes :: "vault_version_action \<rightharpoonup> account list"
  vault_version_approval_args :: "code_hash \<rightharpoonup> approval_args"

record dao = dao_v3 +
  revoke_proposals :: "nat \<rightharpoonup> revoke_proposal"

datatype dao_refusal =
    NoMembersGiven | NotInitAccount | KeystoreAlreadyApproved | NoCollateral | BadQuoteHex
  | QuoteUnparsable | NoFmspcInQuote | NoCollateralForPlatform | QuoteRefused quote_error
  | MeasurementsNotApproved | UnsupportedCurve | KeyNotInQuote | NotADaoMember | ProposalNotFound
  | ProposalNotPending | AlreadyVoted | ProposalNotApproved | NotDaoOwner | BadMeasurements
  | NoKeys | TooManyKeys | NotAnApprovedKey | DuplicateKeyGiven | LastMember | SlotOutOfRange
  | SlotGap | NotSelf | AlreadyCeased | NotCurrentlyCeased | LabelTooLong | AuditUrlTooLong
  | OtherArgsInFlight | StateUnreadable | VersionNotFound | VaultIsBanned | MayNotBan | ReasonTooLong

datatype dao_effect =
    AddKeystoreKey curve_key
  | DeleteKeystoreKey curve_key
  | RequestAppKey account string nat
  | ReturnNumber nat

type_synonym dao_outcome = "(dao_refusal, dao \<times> dao_effect list) call"

text \<open>\<open>len() as u32\<close> keeps the low 32 bits.\<close>

definition as_u32 :: "nat \<Rightarrow> nat" where "as_u32 n = n mod 2 ^ 32"

definition MAX_REVOKE_BATCH :: nat where "MAX_REVOKE_BATCH = 16"

section \<open>Operations\<close>

definition new_dao :: "ctx \<Rightarrow> account \<Rightarrow> account \<Rightarrow> account list \<Rightarrow> account \<Rightarrow> (dao_refusal, dao) call" where
  "new_dao cx owner init_account members mpc =
     not_payable cx (
     ensure (members \<noteq> []) NoMembersGiven (
     Inr \<lparr>dao_members = fset_of_list members, approval_threshold = as_u32 (length members) div 2 + 1,
          dao_owner_id = owner, init_account_id = init_account, mpc_contract_id = mpc,
          proposals = Map.empty, next_proposal_id = 1, votes = Map.empty,
          approved_keystores = {||}, approved_measurements = [], collaterals = [],
          ceased_operations = False, approved_vault_code_hashes = {||}, vault_versions = Map.empty,
          verified_vaults = {||}, banned_vaults = {||}, vault_version_votes = Map.empty,
          vault_version_approval_args = Map.empty, revoke_proposals = Map.empty\<rparr>))"

definition submit_keystore_registration ::
  "tee_libs \<Rightarrow> ctx \<Rightarrow> curve_key \<Rightarrow> string \<Rightarrow> dao \<Rightarrow> dao_outcome" where
  "submit_keystore_registration tee cx public_key tdx_quote_hex d =
     not_payable cx (
     ensure (predecessor cx = init_account_id d) NotInitAccount (
     ensure (public_key |\<notin>| approved_keystores d) KeystoreAlreadyApproved (
     ensure (collaterals d \<noteq> []) NoCollateral (
     expect (lib_hex_decode tee tdx_quote_hex) BadQuoteHex (\<lambda>quote_bytes.
     expect (lib_quote_fmspc tee quote_bytes) QuoteUnparsable (\<lambda>quote_fmspc.
     expect quote_fmspc NoFmspcInQuote (\<lambda>fmspc.
     expect (select_collateral (lib_hex_encode tee fmspc) (collaterals d)) NoCollateralForPlatform (\<lambda>collateral.
     case verify_tdx_quote tee (block_timestamp cx) tdx_quote_hex collateral of
       Inl e \<Rightarrow> Inl (Refused (QuoteRefused e))
     | Inr (measured, report_data_prefix) \<Rightarrow>
     ensure (measured \<in> set (approved_measurements d)) MeasurementsNotApproved (
     expect (expected_binding tee public_key) UnsupportedCurve (\<lambda>binding.
     ensure (report_data_prefix = binding) KeyNotInQuote (
     let proposal_id = next_proposal_id d;
         proposal = \<lparr>kp_id = proposal_id, kp_public_key = public_key, kp_measurements = measured,
                     kp_submitter = predecessor cx, kp_created_at = block_timestamp cx,
                     kp_votes_for = 0, kp_votes_against = 0, kp_status = Pending\<rparr>
     in add_u64 (next_proposal_id d) 1 (\<lambda>next.
        Inr (d\<lparr>proposals := (proposals d)(proposal_id \<mapsto> proposal), next_proposal_id := next\<rparr>,
             [ReturnNumber proposal_id])))))))))))))"

text \<open>The fold over the current members that \<open>vote\<close> and \<open>internal_vote_revoke\<close> decide by.\<close>

definition live_votes :: "nat \<Rightarrow> bool \<Rightarrow> dao \<Rightarrow> nat" where
  "live_votes proposal_id b d = fcard (ffilter (\<lambda>m. votes d (proposal_id, m) = Some b) (dao_members d))"

definition internal_execute_proposal :: "nat \<Rightarrow> keystore_proposal \<Rightarrow> dao \<Rightarrow> dao_outcome" where
  "internal_execute_proposal proposal_id proposal d =
     ensure (kp_status proposal = Approved) ProposalNotApproved (
     Inr (d\<lparr>proposals := (proposals d)(proposal_id \<mapsto> proposal\<lparr>kp_status := Executed\<rparr>),
           approved_keystores := finsert (kp_public_key proposal) (approved_keystores d)\<rparr>,
          [AddKeystoreKey (kp_public_key proposal)]))"

fun revoke_loop :: "curve_key list \<Rightarrow> curve_key fset \<Rightarrow> curve_key fset \<times> dao_effect list" where
  "revoke_loop [] keys = (keys, [])"
| "revoke_loop (pk # pks) keys =
     (if pk |\<notin>| keys then revoke_loop pks keys
      else case revoke_loop pks (keys |-| {|pk|}) of
             (rest, es) \<Rightarrow> (rest, DeleteKeystoreKey pk # es))"

definition internal_execute_revoke :: "nat \<Rightarrow> revoke_proposal \<Rightarrow> dao \<Rightarrow> dao \<times> dao_effect list" where
  "internal_execute_revoke proposal_id proposal d =
     (case revoke_loop (rp_public_keys proposal) (approved_keystores d) of
        (rest, es) \<Rightarrow>
          (d\<lparr>approved_keystores := rest,
             revoke_proposals := (revoke_proposals d)(proposal_id \<mapsto> proposal)\<rparr>, es))"

definition internal_vote_revoke :: "ctx \<Rightarrow> nat \<Rightarrow> bool \<Rightarrow> dao \<Rightarrow> dao_outcome" where
  "internal_vote_revoke cx proposal_id approve d =
     expect (revoke_proposals d proposal_id) ProposalNotFound (\<lambda>proposal.
     ensure (rp_status proposal = Pending) ProposalNotPending (
     ensure (votes d (proposal_id, predecessor cx) = None) AlreadyVoted (
     let d1 = d\<lparr>votes := (votes d)((proposal_id, predecessor cx) \<mapsto> approve)\<rparr> in
     fits 32 (rp_votes_for proposal + (if approve then 1 else 0)) (\<lambda>votes_for.
     fits 32 (rp_votes_against proposal + (if approve then 0 else 1)) (\<lambda>votes_against.
     let counted = proposal\<lparr>rp_votes_for := votes_for, rp_votes_against := votes_against\<rparr> in
     fits 32 (live_votes proposal_id True d1) (\<lambda>live_for.
     fits 32 (live_votes proposal_id False d1) (\<lambda>live_against.
     if live_for \<ge> approval_threshold d then
       Inr (internal_execute_revoke proposal_id (counted\<lparr>rp_status := Executed\<rparr>) d1)
     else sub_checked (as_u32 (fcard (dao_members d))) (approval_threshold d) (\<lambda>spare.
       if live_against > spare then
         Inr (d1\<lparr>revoke_proposals := (revoke_proposals d1)(proposal_id \<mapsto> counted\<lparr>rp_status := Rejected\<rparr>)\<rparr>, [])
       else Inr (d1\<lparr>revoke_proposals := (revoke_proposals d1)(proposal_id \<mapsto> counted)\<rparr>, [])))))))))"

definition vote_registration :: "ctx \<Rightarrow> nat \<Rightarrow> bool \<Rightarrow> dao \<Rightarrow> dao_outcome" where
  "vote_registration cx proposal_id approve d =
     expect (proposals d proposal_id) ProposalNotFound (\<lambda>proposal.
     ensure (kp_status proposal = Pending) ProposalNotPending (
     ensure (votes d (proposal_id, predecessor cx) = None) AlreadyVoted (
     let d1 = d\<lparr>votes := (votes d)((proposal_id, predecessor cx) \<mapsto> approve)\<rparr> in
     fits 32 (kp_votes_for proposal + (if approve then 1 else 0)) (\<lambda>votes_for.
     fits 32 (kp_votes_against proposal + (if approve then 0 else 1)) (\<lambda>votes_against.
     let counted = proposal\<lparr>kp_votes_for := votes_for, kp_votes_against := votes_against\<rparr> in
     fits 32 (live_votes proposal_id True d1) (\<lambda>live_for.
     fits 32 (live_votes proposal_id False d1) (\<lambda>live_against.
     if live_for \<ge> approval_threshold d then
       internal_execute_proposal proposal_id (counted\<lparr>kp_status := Approved\<rparr>) d1
     else sub_checked (as_u32 (fcard (dao_members d))) (approval_threshold d) (\<lambda>spare.
       if live_against > spare then
         Inr (d1\<lparr>proposals := (proposals d1)(proposal_id \<mapsto> counted\<lparr>kp_status := Rejected\<rparr>)\<rparr>, [])
       else Inr (d1\<lparr>proposals := (proposals d1)(proposal_id \<mapsto> counted)\<rparr>, [])))))))))"

definition vote :: "ctx \<Rightarrow> nat \<Rightarrow> bool \<Rightarrow> dao \<Rightarrow> dao_outcome" where
  "vote cx proposal_id approve d =
     not_payable cx (
     ensure (predecessor cx |\<in>| dao_members d) NotADaoMember (
     if revoke_proposals d proposal_id \<noteq> None then internal_vote_revoke cx proposal_id approve d
     else vote_registration cx proposal_id approve d))"

definition assert_dao_owner :: "ctx \<Rightarrow> dao \<Rightarrow> (dao_refusal, 'a) call \<Rightarrow> (dao_refusal, 'a) call" where
  "assert_dao_owner cx d k = ensure (predecessor cx = dao_owner_id d) NotDaoOwner k"

definition assert_dao_member :: "ctx \<Rightarrow> dao \<Rightarrow> (dao_refusal, 'a) call \<Rightarrow> (dao_refusal, 'a) call" where
  "assert_dao_member cx d k = ensure (predecessor cx |\<in>| dao_members d) NotADaoMember k"

definition add_approved_measurements :: "ctx \<Rightarrow> measurements \<Rightarrow> bool option \<Rightarrow> dao \<Rightarrow> dao_outcome" where
  "add_approved_measurements cx m clear_others d =
     not_payable cx (assert_dao_owner cx d (
     ensure (validate_measurements m) BadMeasurements (
     let kept = (if clear_others = Some True then [] else approved_measurements d) in
     Inr (d\<lparr>approved_measurements := (if m \<in> set kept then kept else kept @ [m])\<rparr>, []))))"

definition clear_all_approved_measurements :: "ctx \<Rightarrow> dao \<Rightarrow> dao_outcome" where
  "clear_all_approved_measurements cx d =
     not_payable cx (assert_dao_owner cx d (Inr (d\<lparr>approved_measurements := []\<rparr>, [])))"

definition remove_approved_measurements :: "ctx \<Rightarrow> measurements \<Rightarrow> dao \<Rightarrow> dao_outcome" where
  "remove_approved_measurements cx m d =
     not_payable cx (assert_dao_owner cx d (
     Inr (d\<lparr>approved_measurements := filter (\<lambda>x. x \<noteq> m) (approved_measurements d)\<rparr>, [])))"

text \<open>The checks of \<open>propose_revoke_keystore_keys\<close> on each key, with the keys before it.\<close>

fun check_revocable :: "curve_key fset \<Rightarrow> curve_key list \<Rightarrow> curve_key list \<Rightarrow> (dao_refusal, 'a) call \<Rightarrow> (dao_refusal, 'a) call" where
  "check_revocable approved before [] k = k"
| "check_revocable approved before (pk # pks) k =
     ensure (pk |\<in>| approved) NotAnApprovedKey (
     ensure (pk \<notin> set before) DuplicateKeyGiven (
     check_revocable approved (before @ [pk]) pks k))"

definition propose_revoke_keystore_keys :: "ctx \<Rightarrow> curve_key list \<Rightarrow> dao \<Rightarrow> dao_outcome" where
  "propose_revoke_keystore_keys cx public_keys d =
     not_payable cx (assert_dao_member cx d (
     ensure (public_keys \<noteq> []) NoKeys (
     ensure (length public_keys \<le> MAX_REVOKE_BATCH) TooManyKeys (
     check_revocable (approved_keystores d) [] public_keys (
     add_u64 (next_proposal_id d) 1 (\<lambda>next.
     let proposal_id = next_proposal_id d;
         proposal = \<lparr>rp_id = proposal_id, rp_public_keys = public_keys, rp_proposer = predecessor cx,
                     rp_created_at = block_timestamp cx, rp_votes_for = 0, rp_votes_against = 0,
                     rp_status = Pending\<rparr>
     in bind_call (internal_vote_revoke cx proposal_id True
          (d\<lparr>next_proposal_id := next, revoke_proposals := (revoke_proposals d)(proposal_id \<mapsto> proposal)\<rparr>)) (\<lambda>(t, es).
        Inr (t, es @ [ReturnNumber proposal_id]))))))))"

definition add_dao_member :: "ctx \<Rightarrow> account \<Rightarrow> dao \<Rightarrow> dao_outcome" where
  "add_dao_member cx member d =
     not_payable cx (assert_dao_owner cx d (
     let members = finsert member (dao_members d) in
     Inr (d\<lparr>dao_members := members, approval_threshold := as_u32 (fcard members) div 2 + 1\<rparr>, [])))"

definition remove_dao_member :: "ctx \<Rightarrow> account \<Rightarrow> dao \<Rightarrow> dao_outcome" where
  "remove_dao_member cx member d =
     not_payable cx (assert_dao_owner cx d (
     ensure (fcard (dao_members d) > 1) LastMember (
     let members = dao_members d |-| {|member|} in
     Inr (d\<lparr>dao_members := members, approval_threshold := as_u32 (fcard members) div 2 + 1\<rparr>, []))))"

definition update_collateral :: "ctx \<Rightarrow> string \<Rightarrow> nat \<Rightarrow> dao \<Rightarrow> dao_outcome" where
  "update_collateral cx collateral index d =
     not_payable cx (assert_dao_owner cx d (
     ensure (index < MAX_COLLATERALS) SlotOutOfRange (
     if index < length (collaterals d) then Inr (d\<lparr>collaterals := (collaterals d)[index := collateral]\<rparr>, [])
     else if index = length (collaterals d) then Inr (d\<lparr>collaterals := collaterals d @ [collateral]\<rparr>, [])
     else Inl (Refused SlotGap))))"

text \<open>The views with logic.\<close>

definition get_proposals :: "nat \<Rightarrow> nat \<Rightarrow> dao \<Rightarrow> keystore_proposal list" where
  "get_proposals from_index limit d =
     List.map_filter (proposals d)
       [from_index ..< min (min (from_index + limit) (2 ^ 64 - 1)) (next_proposal_id d)]"

definition is_keystore_approved :: "tee_libs \<Rightarrow> string \<Rightarrow> dao \<Rightarrow> bool" where
  "is_keystore_approved tee public_key d =
     (case lib_parse_key tee public_key of
        None \<Rightarrow> False | Some parsed_key \<Rightarrow> parsed_key |\<in>| approved_keystores d)"

definition request_key :: "ctx \<Rightarrow> string \<Rightarrow> dao \<Rightarrow> dao_outcome" where
  "request_key cx request d =
     ensure (predecessor cx = current_account cx) NotSelf (
     Inr (d, [RequestAppKey (mpc_contract_id d) request 1]))"

definition declare_cessation :: "ctx \<Rightarrow> dao \<Rightarrow> dao_outcome" where
  "declare_cessation cx d =
     not_payable cx (assert_dao_member cx d (
     ensure (\<not> ceased_operations d) AlreadyCeased (Inr (d\<lparr>ceased_operations := True\<rparr>, []))))"

definition revoke_cessation :: "ctx \<Rightarrow> dao \<Rightarrow> dao_outcome" where
  "revoke_cessation cx d =
     not_payable cx (assert_dao_member cx d (
     ensure (ceased_operations d) NotCurrentlyCeased (Inr (d\<lparr>ceased_operations := False\<rparr>, []))))"

definition internal_approve_vault_version :: "ctx \<Rightarrow> code_hash \<Rightarrow> string \<Rightarrow> string option \<Rightarrow> dao \<Rightarrow> dao" where
  "internal_approve_vault_version cx hash label audit_url d =
     d\<lparr>approved_vault_code_hashes := finsert hash (approved_vault_code_hashes d),
       vault_versions := (vault_versions d)(hash \<mapsto>
         \<lparr>vv_label = label, vv_audit_url = audit_url, vv_deprecated = False,
          vv_approved_at = block_timestamp cx\<rparr>)\<rparr>"

definition internal_revoke_vault_version :: "code_hash \<Rightarrow> dao \<Rightarrow> dao" where
  "internal_revoke_vault_version hash d =
     d\<lparr>approved_vault_code_hashes := approved_vault_code_hashes d |-| {|hash|},
       vault_versions := (vault_versions d)(hash := None)\<rparr>"

text \<open>The voters of an action once the caller voted: stored votes of current members, and the caller.\<close>

definition version_voters :: "ctx \<Rightarrow> vault_version_action \<Rightarrow> dao \<Rightarrow> account list" where
  "version_voters cx action d =
     (let voters = filter (\<lambda>v. v |\<in>| dao_members d)
                     (case vault_version_votes d action of None \<Rightarrow> [] | Some vs \<Rightarrow> vs)
      in if predecessor cx \<in> set voters then voters else voters @ [predecessor cx])"

definition approve_vault_version ::
  "ctx \<Rightarrow> code_hash \<Rightarrow> string \<Rightarrow> string option \<Rightarrow> dao \<Rightarrow> dao_outcome" where
  "approve_vault_version cx hash label audit_url d =
     not_payable cx (assert_dao_member cx d (
     ensure (length label \<le> 64) LabelTooLong (
     ensure (\<forall>url \<in> set_option audit_url. length url \<le> 256) AuditUrlTooLong (
     let action = ApproveVersion hash;
         proposed = \<lparr>aa_label = label, aa_audit_url = audit_url\<rparr> in
     ensure (vault_version_approval_args d hash \<in> {None, Some proposed}) OtherArgsInFlight (
     let d1 = d\<lparr>vault_version_approval_args := (vault_version_approval_args d)(hash \<mapsto> proposed)\<rparr>;
         voters = version_voters cx action d;
         count = as_u32 (length voters) in
     if count \<ge> approval_threshold d then
       Inr (internal_approve_vault_version cx hash label audit_url
              (d1\<lparr>vault_version_votes := (vault_version_votes d)(action := None),
                  vault_version_approval_args := (vault_version_approval_args d)(hash := None)\<rparr>),
            [ReturnNumber count])
     else Inr (d1\<lparr>vault_version_votes := (vault_version_votes d)(action \<mapsto> voters)\<rparr>,
               [ReturnNumber count]))))))"

definition deprecate_vault_version :: "ctx \<Rightarrow> code_hash \<Rightarrow> dao \<Rightarrow> dao_outcome" where
  "deprecate_vault_version cx hash d =
     not_payable cx (assert_dao_member cx d (
     expect (vault_versions d hash) VersionNotFound (\<lambda>info.
     Inr (d\<lparr>vault_versions := (vault_versions d)(hash \<mapsto> info\<lparr>vv_deprecated := True\<rparr>)\<rparr>, []))))"

definition revoke_vault_version :: "ctx \<Rightarrow> code_hash \<Rightarrow> dao \<Rightarrow> dao_outcome" where
  "revoke_vault_version cx hash d =
     not_payable cx (assert_dao_member cx d (
     let action = RevokeVersion hash;
         voters = version_voters cx action d;
         count = as_u32 (length voters) in
     if count \<ge> approval_threshold d then
       Inr (internal_revoke_vault_version hash
              (d\<lparr>vault_version_votes := (vault_version_votes d)(action := None)\<rparr>), [ReturnNumber count])
     else Inr (d\<lparr>vault_version_votes := (vault_version_votes d)(action \<mapsto> voters)\<rparr>,
               [ReturnNumber count])))"

definition get_vault_version_votes :: "vault_version_action \<Rightarrow> dao \<Rightarrow> nat" where
  "get_vault_version_votes action d =
     (case vault_version_votes d action of None \<Rightarrow> 0 | Some v \<Rightarrow> as_u32 (length v))"

definition is_vault_code_approved :: "code_hash \<Rightarrow> dao \<Rightarrow> bool" where
  "is_vault_code_approved hash d \<longleftrightarrow> hash |\<in>| approved_vault_code_hashes d"

definition mark_vault_verified :: "ctx \<Rightarrow> account \<Rightarrow> dao \<Rightarrow> dao_outcome" where
  "mark_vault_verified cx vault_id d =
     not_payable cx (
     ensure (predecessor cx = current_account cx) NotSelf (
     ensure (vault_id |\<notin>| banned_vaults d) VaultIsBanned (
     Inr (d\<lparr>verified_vaults := finsert vault_id (verified_vaults d)\<rparr>, []))))"

definition is_vault_verified :: "account \<Rightarrow> dao \<Rightarrow> bool" where
  "is_vault_verified vault_id d \<longleftrightarrow> vault_id |\<in>| verified_vaults d \<and> vault_id |\<notin>| banned_vaults d"

definition ban_vault :: "ctx \<Rightarrow> account \<Rightarrow> string \<Rightarrow> dao \<Rightarrow> dao_outcome" where
  "ban_vault cx vault_id reason d =
     not_payable cx (
     ensure (predecessor cx = current_account cx \<or> predecessor cx |\<in>| dao_members d) MayNotBan (
     ensure (length reason \<le> 256) ReasonTooLong (
     Inr (d\<lparr>banned_vaults := finsert vault_id (banned_vaults d)\<rparr>, []))))"

definition unban_vault :: "ctx \<Rightarrow> account \<Rightarrow> dao \<Rightarrow> dao_outcome" where
  "unban_vault cx vault_id d =
     not_payable cx (assert_dao_member cx d (
     Inr (d\<lparr>banned_vaults := banned_vaults d |-| {|vault_id|}\<rparr>, [])))"

definition migrate_dao :: "ctx \<Rightarrow> dao_v3 option \<Rightarrow> (dao_refusal, dao) call" where
  "migrate_dao cx stored =
     private_call cx (not_payable cx (
     expect stored StateUnreadable (\<lambda>old. Inr (dao_v3.extend old (dao.fields Map.empty)))))"

section \<open>Histories\<close>

datatype dao_call =
    SubmitRegistration curve_key string
  | Vote nat bool
  | AddMeasurements measurements "bool option"
  | ClearMeasurements
  | RemoveMeasurements measurements
  | ProposeRevoke "curve_key list"
  | AddMember account
  | RemoveMember account
  | UpdateCollateral string nat
  | RequestKey string
  | DeclareCessation
  | RevokeCessation
  | ApproveVaultVersion code_hash string "string option"
  | DeprecateVaultVersion code_hash
  | RevokeVaultVersion code_hash
  | MarkVaultVerified account
  | BanVault account string
  | UnbanVault account

fun run_dao_call :: "tee_libs \<Rightarrow> dao_call \<Rightarrow> ctx \<Rightarrow> dao \<Rightarrow> dao_outcome" where
  "run_dao_call tee (SubmitRegistration pk quote) cx d = submit_keystore_registration tee cx pk quote d"
| "run_dao_call tee (Vote i b) cx d = vote cx i b d"
| "run_dao_call tee (AddMeasurements m others) cx d = add_approved_measurements cx m others d"
| "run_dao_call tee ClearMeasurements cx d = clear_all_approved_measurements cx d"
| "run_dao_call tee (RemoveMeasurements m) cx d = remove_approved_measurements cx m d"
| "run_dao_call tee (ProposeRevoke pks) cx d = propose_revoke_keystore_keys cx pks d"
| "run_dao_call tee (AddMember a) cx d = add_dao_member cx a d"
| "run_dao_call tee (RemoveMember a) cx d = remove_dao_member cx a d"
| "run_dao_call tee (UpdateCollateral c i) cx d = update_collateral cx c i d"
| "run_dao_call tee (RequestKey r) cx d = request_key cx r d"
| "run_dao_call tee DeclareCessation cx d = declare_cessation cx d"
| "run_dao_call tee RevokeCessation cx d = revoke_cessation cx d"
| "run_dao_call tee (ApproveVaultVersion h l u) cx d = approve_vault_version cx h l u d"
| "run_dao_call tee (DeprecateVaultVersion h) cx d = deprecate_vault_version cx h d"
| "run_dao_call tee (RevokeVaultVersion h) cx d = revoke_vault_version cx h d"
| "run_dao_call tee (MarkVaultVerified a) cx d = mark_vault_verified cx a d"
| "run_dao_call tee (BanVault a reason) cx d = ban_vault cx a reason d"
| "run_dao_call tee (UnbanVault a) cx d = unban_vault cx a d"

text \<open>
  A history lists the calls that returned, the latest first, each with its caller's context and the
  state it found. The list a contract is deployed with is shorter than \<open>2\<^sup>3\<^sup>2\<close>: it travels in the
  arguments of one call.
\<close>

type_synonym dao_event = "ctx \<times> dao_call \<times> dao"

inductive dao_history :: "tee_libs \<Rightarrow> dao_event list \<Rightarrow> dao \<Rightarrow> bool" for tee where
  deploy: "new_dao cx owner init_account members mpc = Inr d \<Longrightarrow> length members < 2 ^ 32 \<Longrightarrow>
    dao_history tee [] d"
| call: "dao_history tee h d \<Longrightarrow> run_dao_call tee c cx d = Inr (t, es) \<Longrightarrow>
    dao_history tee ((cx, c, d) # h) t"

section \<open>Ballots\<close>

text \<open>What a ballot decides, by the votes of those who are members now.\<close>

definition verdict :: "nat \<Rightarrow> dao \<Rightarrow> proposal_status" where
  "verdict i d =
     (if approval_threshold d \<le> live_votes i True d then Executed
      else if as_u32 (fcard (dao_members d)) - approval_threshold d < live_votes i False d then Rejected
      else Pending)"

definition ayes :: "nat \<Rightarrow> bool \<Rightarrow> dao \<Rightarrow> account set" where
  "ayes i b d = {m. votes d (i, m) = Some b}"

text \<open>
  Registrations and revocations are two kinds of ballot over one map of votes. A ballot box is a map
  of proposals with a status and two tallies; casting a vote takes a pending proposal and a caller
  who has not voted on it, records the vote, counts it, and sets the status to the verdict.
\<close>

locale ballot_box =
  fixes box :: "dao \<Rightarrow> nat \<rightharpoonup> 'p"
    and status :: "'p \<Rightarrow> proposal_status"
    and tally :: "bool \<Rightarrow> 'p \<Rightarrow> nat"
    and cast :: "ctx \<Rightarrow> nat \<Rightarrow> bool \<Rightarrow> dao \<Rightarrow> dao_outcome"
  assumes cast_takes: "cast cx i b d = Inr (t, es) \<Longrightarrow>
      \<exists>p q. box d i = Some p \<and> status p = Pending \<and> votes d (i, predecessor cx) = None \<and>
        votes t = (votes d)((i, predecessor cx) \<mapsto> b) \<and> box t = (box d)(i \<mapsto> q) \<and>
        status q = verdict i t \<and> (\<forall>x. tally x q = tally x p + (if x = b then 1 else 0))"
begin

definition counted :: "dao \<Rightarrow> bool" where
  "counted d \<longleftrightarrow> (\<forall>i p. box d i = Some p \<longrightarrow> status p \<noteq> Approved \<and>
     (\<forall>b. finite (ayes i b d) \<and> tally b p = card (ayes i b d)))"

lemma countedD:
  assumes "counted d" "box d i = Some p"
  shows "status p \<noteq> Approved" "finite (ayes i b d)" "tally b p = card (ayes i b d)"
  using assms by (auto simp: counted_def)

lemma cast_ayes:
  assumes "cast cx i b d = Inr (t, es)"
  shows "ayes j x t = (if j = i \<and> x = b then insert (predecessor cx) (ayes j x d) else ayes j x d)"
    and "predecessor cx \<notin> ayes i x d"
proof -
  from cast_takes [OF assms] have v: "votes d (i, predecessor cx) = None"
    "votes t = (votes d)((i, predecessor cx) \<mapsto> b)" by auto
  show "ayes j x t = (if j = i \<and> x = b then insert (predecessor cx) (ayes j x d) else ayes j x d)"
    by (cases "j = i"; cases "x = b") (auto simp: ayes_def v)
  show "predecessor cx \<notin> ayes i x d" by (simp add: ayes_def v)
qed

lemma cast_counted:
  assumes "counted d" "cast cx i b d = Inr (t, es)"
  shows "counted t"
proof -
  from cast_takes [OF assms(2)] obtain p q where run: "box d i = Some p" "box t = (box d)(i \<mapsto> q)"
    "status q = verdict i t" "\<And>x. tally x q = tally x p + (if x = b then 1 else 0)" by auto
  show ?thesis
    unfolding counted_def
  proof (intro allI impI)
    fix j r
    assume r: "box t j = Some r"
    show "status r \<noteq> Approved \<and> (\<forall>x. finite (ayes j x t) \<and> tally x r = card (ayes j x t))"
    proof (cases "j = i")
      case True
      with r run(2) have "r = q" by simp
      with True run(3,4) countedD(2,3) [OF assms(1) run(1)] cast_ayes [OF assms(2)] show ?thesis
        by (auto simp: verdict_def)
    next
      case False
      with r run(2) have "box d j = Some r" by simp
      with False countedD [OF assms(1), of j r] cast_ayes(1) [OF assms(2)] show ?thesis by simp
    qed
  qed
qed

text \<open>A decided ballot takes no vote, and nobody votes twice.\<close>

lemma cast_once:
  assumes "cast cx i b d = Inr (t, es)"
  shows "box d i \<noteq> None" "status (the (box d i)) = Pending" "votes d (i, predecessor cx) = None"
    "status (the (box t i)) = verdict i t" "votes t = (votes d)((i, predecessor cx) \<mapsto> b)"
  using cast_takes [OF assms] by auto

end

text \<open>The verdict reads the votes, the members and the threshold only.\<close>

lemma verdict_cong:
  assumes "votes t = votes d" "dao_members t = dao_members d" "approval_threshold t = approval_threshold d"
  shows "verdict i t = verdict i d"
  using assms by (simp add: verdict_def live_votes_def)

fun kp_tally :: "bool \<Rightarrow> keystore_proposal \<Rightarrow> nat" where
  "kp_tally True p = kp_votes_for p"
| "kp_tally False p = kp_votes_against p"

fun rp_tally :: "bool \<Rightarrow> revoke_proposal \<Rightarrow> nat" where
  "rp_tally True p = rp_votes_for p"
| "rp_tally False p = rp_votes_against p"

lemma kp_status_same [simp]: "kp_status p = x \<Longrightarrow> p\<lparr>kp_status := x\<rparr> = p"
  by simp

lemma rp_status_same [simp]: "rp_status p = x \<Longrightarrow> p\<lparr>rp_status := x\<rparr> = p"
  by simp

text \<open>What a vote on a registration and a vote on a revocation change.\<close>

lemma vote_registration_run:
  assumes "vote_registration cx i b d = Inr (t, es)"
  obtains p q v where "verdict i t = v" "proposals d i = Some p" "kp_status p = Pending" "votes d (i, predecessor cx) = None"
    "q = p\<lparr>kp_votes_for := kp_votes_for p + (if b then 1 else 0),
           kp_votes_against := kp_votes_against p + (if b then 0 else 1), kp_status := v\<rparr>"
    "t = d\<lparr>votes := (votes d)((i, predecessor cx) \<mapsto> b), proposals := (proposals d)(i \<mapsto> q),
           approved_keystores := (if v = Executed
             then finsert (kp_public_key p) (approved_keystores d) else approved_keystores d)\<rparr>"
    "es = (if v = Executed then [AddKeystoreKey (kp_public_key p)] else [])"
    "v = Executed \<or> approval_threshold d \<le> as_u32 (fcard (dao_members d))"
proof -
  define d1 where "d1 = d\<lparr>votes := (votes d)((i, predecessor cx) \<mapsto> b)\<rparr>"
  define counted where "counted p = p\<lparr>kp_votes_for := kp_votes_for p + (if b then 1 else 0),
      kp_votes_against := kp_votes_against p + (if b then 0 else 1)\<rparr>" for p :: keystore_proposal
  have counted: "kp_status (counted p) = kp_status p" "kp_public_key (counted p) = kp_public_key p" for p
    by (simp_all add: counted_def)
  define decide where "decide p =
      (if approval_threshold d \<le> live_votes i True d1
       then internal_execute_proposal i ((counted p)\<lparr>kp_status := Approved\<rparr>) d1
       else sub_checked (as_u32 (fcard (dao_members d))) (approval_threshold d) (\<lambda>spare.
         if spare < live_votes i False d1 then
           Inr (d1\<lparr>proposals := (proposals d1)(i \<mapsto> (counted p)\<lparr>kp_status := Rejected\<rparr>)\<rparr>, [])
         else Inr (d1\<lparr>proposals := (proposals d1)(i \<mapsto> counted p)\<rparr>, [])))" for p
  from assms obtain p where p: "proposals d i = Some p" "kp_status p = Pending"
      "votes d (i, predecessor cx) = None" and run: "decide p = Inr (t, es)"
    unfolding vote_registration_def Let_def run_simps d1_def [symmetric] counted_def [symmetric]
      decide_def [symmetric] by blast
  have same: "dao_members d1 = dao_members d" "approval_threshold d1 = approval_threshold d"
    "proposals d1 = proposals d" "approved_keystores d1 = approved_keystores d"
    by (simp_all add: d1_def)
  have t: "t = d1\<lparr>proposals := (proposals d)(i \<mapsto> (counted p)\<lparr>kp_status := verdict i d1\<rparr>),
        approved_keystores := (if verdict i d1 = Executed
          then finsert (kp_public_key p) (approved_keystores d) else approved_keystores d)\<rparr>"
    and es: "es = (if verdict i d1 = Executed then [AddKeystoreKey (kp_public_key p)] else [])"
    using run p(2) by (auto simp: decide_def verdict_def internal_execute_proposal_def run_simps
        counted same split: if_splits)
  have room: "verdict i d1 = Executed \<or> approval_threshold d \<le> as_u32 (fcard (dao_members d))"
    using run by (auto simp: decide_def verdict_def run_simps same split: if_splits)
  have v: "verdict i t = verdict i d1" by (rule verdict_cong) (simp_all add: t)
  show thesis
    by (rule that [OF refl p refl t [folded v, unfolded d1_def counted_def] es [folded v] room [folded v]])
qed


lemma revoke_loop_result:
  "revoke_loop pks keys = (rest, es) \<Longrightarrow>
     rest = keys |-| fset_of_list pks \<and> set es = DeleteKeystoreKey ` (set pks \<inter> fset keys)"
proof (induction pks arbitrary: keys rest es)
  case (Cons pk pks)
  show ?case
  proof (cases "pk |\<in>| keys")
    case True
    with Cons.prems obtain fs where fs: "revoke_loop pks (keys |-| {|pk|}) = (rest, fs)"
      "es = DeleteKeystoreKey pk # fs" by (auto split: prod.splits)
    with Cons.IH [OF fs(1)] True show ?thesis by (auto simp: fset_of_list_elem)
  next
    case False
    with Cons.prems have "revoke_loop pks keys = (rest, es)" by simp
    with Cons.IH False show ?thesis by (auto simp: fset_of_list_elem)
  qed
qed simp

lemma internal_vote_revoke_run:
  assumes "internal_vote_revoke cx i b d = Inr (t, es)"
  obtains p q v where "verdict i t = v" "revoke_proposals d i = Some p" "rp_status p = Pending" "votes d (i, predecessor cx) = None"
    "q = p\<lparr>rp_votes_for := rp_votes_for p + (if b then 1 else 0),
           rp_votes_against := rp_votes_against p + (if b then 0 else 1), rp_status := v\<rparr>"
    "t = d\<lparr>votes := (votes d)((i, predecessor cx) \<mapsto> b), revoke_proposals := (revoke_proposals d)(i \<mapsto> q),
           approved_keystores := (if v = Executed
             then approved_keystores d |-| fset_of_list (rp_public_keys p) else approved_keystores d)\<rparr>"
    "set es = (if v = Executed
       then DeleteKeystoreKey ` (set (rp_public_keys p) \<inter> fset (approved_keystores d)) else {})"
    "v = Executed \<or> approval_threshold d \<le> as_u32 (fcard (dao_members d))"
proof -
  define d1 where "d1 = d\<lparr>votes := (votes d)((i, predecessor cx) \<mapsto> b)\<rparr>"
  define counted where "counted p = p\<lparr>rp_votes_for := rp_votes_for p + (if b then 1 else 0),
      rp_votes_against := rp_votes_against p + (if b then 0 else 1)\<rparr>" for p :: revoke_proposal
  have counted: "rp_status (counted p) = rp_status p" "rp_public_keys (counted p) = rp_public_keys p" for p
    by (simp_all add: counted_def)
  define decide where "decide p =
      ((if approval_threshold d \<le> live_votes i True d1
       then Inr (internal_execute_revoke i ((counted p)\<lparr>rp_status := Executed\<rparr>) d1)
       else sub_checked (as_u32 (fcard (dao_members d))) (approval_threshold d) (\<lambda>spare.
         if spare < live_votes i False d1 then
           Inr (d1\<lparr>revoke_proposals := (revoke_proposals d1)(i \<mapsto> (counted p)\<lparr>rp_status := Rejected\<rparr>)\<rparr>, [])
         else Inr (d1\<lparr>revoke_proposals := (revoke_proposals d1)(i \<mapsto> counted p)\<rparr>, [])))
      :: dao_outcome)" for p
  from assms obtain p where p: "revoke_proposals d i = Some p" "rp_status p = Pending"
      "votes d (i, predecessor cx) = None" and run: "decide p = Inr (t, es)"
    unfolding internal_vote_revoke_def Let_def run_simps d1_def [symmetric] counted_def [symmetric]
      decide_def [symmetric] by blast
  have same: "dao_members d1 = dao_members d" "approval_threshold d1 = approval_threshold d"
    "revoke_proposals d1 = revoke_proposals d" "approved_keystores d1 = approved_keystores d"
    by (simp_all add: d1_def)
  have t: "t = d1\<lparr>revoke_proposals := (revoke_proposals d)(i \<mapsto> (counted p)\<lparr>rp_status := verdict i d1\<rparr>),
        approved_keystores := (if verdict i d1 = Executed
          then approved_keystores d |-| fset_of_list (rp_public_keys p) else approved_keystores d)\<rparr>"
    and es: "set es = (if verdict i d1 = Executed
       then DeleteKeystoreKey ` (set (rp_public_keys p) \<inter> fset (approved_keystores d)) else {})"
    using run p(2) by (auto simp: decide_def verdict_def internal_execute_revoke_def run_simps
        counted same dest!: revoke_loop_result split: if_splits prod.splits)
  have room: "verdict i d1 = Executed \<or> approval_threshold d \<le> as_u32 (fcard (dao_members d))"
    using run by (auto simp: decide_def verdict_def run_simps same split: if_splits)
  have v: "verdict i t = verdict i d1" by (rule verdict_cong) (simp_all add: t)
  show thesis
    by (rule that [OF refl p refl t [folded v, unfolded d1_def counted_def] es [folded v] room [folded v]])
qed

interpretation registration: ballot_box proposals kp_status kp_tally vote_registration
proof
  fix cx i b d t es
  assume "vote_registration cx i b d = Inr (t, es)"
  then show "\<exists>p q. proposals d i = Some p \<and> kp_status p = Pending \<and> votes d (i, predecessor cx) = None \<and>
      votes t = (votes d)((i, predecessor cx) \<mapsto> b) \<and> proposals t = (proposals d)(i \<mapsto> q) \<and>
      kp_status q = verdict i t \<and> (\<forall>x. kp_tally x q = kp_tally x p + (if x = b then 1 else 0))"
  proof (cases rule: vote_registration_run)
    case (1 p q v)
    have "kp_tally x q = kp_tally x p + (if x = b then 1 else 0)" for x
      by (cases x) (simp_all add: 1(5))
    moreover have "votes t = (votes d)((i, predecessor cx) \<mapsto> b)" "proposals t = (proposals d)(i \<mapsto> q)"
      "kp_status q = verdict i t"
      by (simp_all only: 1(1)) (simp_all add: 1(5,6))
    ultimately show ?thesis using 1(2-4) by blast
  qed
qed

interpretation revocation: ballot_box revoke_proposals rp_status rp_tally internal_vote_revoke
proof
  fix cx i b d t es
  assume "internal_vote_revoke cx i b d = Inr (t, es)"
  then show "\<exists>p q. revoke_proposals d i = Some p \<and> rp_status p = Pending \<and> votes d (i, predecessor cx) = None \<and>
      votes t = (votes d)((i, predecessor cx) \<mapsto> b) \<and> revoke_proposals t = (revoke_proposals d)(i \<mapsto> q) \<and>
      rp_status q = verdict i t \<and> (\<forall>x. rp_tally x q = rp_tally x p + (if x = b then 1 else 0))"
  proof (cases rule: internal_vote_revoke_run)
    case (1 p q v)
    have "rp_tally x q = rp_tally x p + (if x = b then 1 else 0)" for x
      by (cases x) (simp_all add: 1(5))
    moreover have "votes t = (votes d)((i, predecessor cx) \<mapsto> b)" "revoke_proposals t = (revoke_proposals d)(i \<mapsto> q)"
      "rp_status q = verdict i t"
      by (simp_all only: 1(1)) (simp_all add: 1(5,6))
    ultimately show ?thesis using 1(2-4) by blast
  qed
qed

section \<open>What each call changes\<close>

lemma check_revocable_Inr [run_simps]:
  "check_revocable approved before pks k = Inr y \<longleftrightarrow>
     set pks \<subseteq> fset approved \<and> distinct pks \<and> set pks \<inter> set before = {} \<and> k = Inr y"
  by (induction pks arbitrary: before) (auto simp: run_simps)

lemmas plain_call_defs = assert_dao_owner_def assert_dao_member_def add_approved_measurements_def
  clear_all_approved_measurements_def remove_approved_measurements_def add_dao_member_def
  remove_dao_member_def update_collateral_def request_key_def declare_cessation_def
  revoke_cessation_def approve_vault_version_def deprecate_vault_version_def revoke_vault_version_def
  internal_approve_vault_version_def internal_revoke_vault_version_def mark_vault_verified_def
  ban_vault_def unban_vault_def

fun ballot_call :: "dao_call \<Rightarrow> bool" where
  "ballot_call (SubmitRegistration pk quote) = True"
| "ballot_call (Vote i b) = True"
| "ballot_call (ProposeRevoke pks) = True"
| "ballot_call _ = False"

lemma plain_call_frame:
  assumes "run_dao_call tee c cx d = Inr (t, es)" "\<not> ballot_call c"
  shows "proposals t = proposals d" "revoke_proposals t = revoke_proposals d" "votes t = votes d"
    "next_proposal_id t = next_proposal_id d" "approved_keystores t = approved_keystores d"
  using assms by (cases c; auto simp: plain_call_defs run_simps Let_def split: if_splits)+

lemma case_verified_Inr [run_simps]:
  "(case x of Inl e \<Rightarrow> Inl (f e) | Inr (m, b) \<Rightarrow> k m b) = Inr y \<longleftrightarrow> (\<exists>m b. x = Inr (m, b) \<and> k m b = Inr y)"
  by (auto split: sum.splits)

text \<open>A ballot as it is opened.\<close>

definition new_registration :: "ctx \<Rightarrow> curve_key \<Rightarrow> measurements \<Rightarrow> dao \<Rightarrow> keystore_proposal" where
  "new_registration cx pk m d =
     \<lparr>kp_id = next_proposal_id d, kp_public_key = pk, kp_measurements = m,
      kp_submitter = predecessor cx, kp_created_at = block_timestamp cx,
      kp_votes_for = 0, kp_votes_against = 0, kp_status = Pending\<rparr>"

definition new_revocation :: "ctx \<Rightarrow> curve_key list \<Rightarrow> dao \<Rightarrow> revoke_proposal" where
  "new_revocation cx pks d =
     \<lparr>rp_id = next_proposal_id d, rp_public_keys = pks, rp_proposer = predecessor cx,
      rp_created_at = block_timestamp cx, rp_votes_for = 0, rp_votes_against = 0,
      rp_status = Pending\<rparr>"

lemma new_registration_fields [simp]:
  "kp_id (new_registration cx pk m d) = next_proposal_id d"
  "kp_public_key (new_registration cx pk m d) = pk" "kp_tally x (new_registration cx pk m d) = 0"
  "kp_status (new_registration cx pk m d) = Pending"
  by (simp_all add: new_registration_def) (cases x; simp)

lemma new_revocation_fields [simp]:
  "rp_id (new_revocation cx pks d) = next_proposal_id d"
  "rp_public_keys (new_revocation cx pks d) = pks" "rp_tally x (new_revocation cx pks d) = 0"
  "rp_status (new_revocation cx pks d) = Pending"
  by (simp_all add: new_revocation_def) (cases x; simp)

lemma submit_run:
  assumes "submit_keystore_registration tee cx pk quote d = Inr (t, es)"
  obtains m where "predecessor cx = init_account_id d" "m \<in> set (approved_measurements d)"
    "attests tee (block_timestamp cx) (collaterals d) quote pk m" "pk |\<notin>| approved_keystores d"
    "t = d\<lparr>proposals := (proposals d)(next_proposal_id d \<mapsto> new_registration cx pk m d),
           next_proposal_id := next_proposal_id d + 1\<rparr>"
    "es = [ReturnNumber (next_proposal_id d)]"
proof -
  from assms obtain bytes fmspc c m b where run: "predecessor cx = init_account_id d"
    "pk |\<notin>| approved_keystores d"
    "lib_hex_decode tee quote = Some bytes" "lib_quote_fmspc tee bytes = Some (Some fmspc)"
    "select_collateral (lib_hex_encode tee fmspc) (collaterals d) = Some c"
    "verify_tdx_quote tee (block_timestamp cx) quote c = Inr (m, b)"
    "m \<in> set (approved_measurements d)" "expected_binding tee pk = Some b"
    "t = d\<lparr>proposals := (proposals d)(next_proposal_id d \<mapsto> new_registration cx pk m d),
           next_proposal_id := next_proposal_id d + 1\<rparr>"
    "es = [ReturnNumber (next_proposal_id d)]"
    unfolding submit_keystore_registration_def
    by (auto simp: run_simps Let_def new_registration_def)
  show thesis
    by (rule that [OF run(1,7) attestsI [OF run(3-6,8)] run(2,9,10)])
qed

text \<open>A proposed revocation is filed and takes its proposer's vote.\<close>

definition filed_revocation :: "ctx \<Rightarrow> curve_key list \<Rightarrow> dao \<Rightarrow> dao" where
  "filed_revocation cx pks d =
     d\<lparr>next_proposal_id := next_proposal_id d + 1,
       revoke_proposals := (revoke_proposals d)(next_proposal_id d \<mapsto> new_revocation cx pks d)\<rparr>"

lemma propose_run:
  assumes "propose_revoke_keystore_keys cx pks d = Inr (t, es)"
  obtains fs where "predecessor cx |\<in>| dao_members d" "pks \<noteq> []" "length pks \<le> MAX_REVOKE_BATCH"
    "set pks \<subseteq> fset (approved_keystores d)" "distinct pks"
    "internal_vote_revoke cx (next_proposal_id d) True (filed_revocation cx pks d) = Inr (t, fs)"
    "es = fs @ [ReturnNumber (next_proposal_id d)]"
  using assms
  by (auto simp: propose_revoke_keystore_keys_def assert_dao_member_def filed_revocation_def
      new_revocation_def run_simps Let_def)

lemma vote_run:
  assumes "vote cx i b d = Inr (t, es)"
  obtains (revocation) "predecessor cx |\<in>| dao_members d" "revoke_proposals d i \<noteq> None"
      "internal_vote_revoke cx i b d = Inr (t, es)"
    | (registration) "predecessor cx |\<in>| dao_members d" "revoke_proposals d i = None"
      "vote_registration cx i b d = Inr (t, es)"
  using assms by (auto simp: vote_def run_simps split: if_splits)

text \<open>The part of the state no ballot touches.\<close>

definition rules :: "dao \<Rightarrow> dao_v3" where
  "rules d = dao_v3.truncate (d\<lparr>proposals := Map.empty, votes := Map.empty, next_proposal_id := 0,
     approved_keystores := {||}\<rparr>)"

lemma rules_eqD:
  assumes "rules t = rules d"
  shows "dao_members t = dao_members d" "approval_threshold t = approval_threshold d"
    "approved_measurements t = approved_measurements d" "collaterals t = collaterals d"
    "approved_vault_code_hashes t = approved_vault_code_hashes d" "vault_versions t = vault_versions d"
    "vault_version_votes t = vault_version_votes d" "verified_vaults t = verified_vaults d"
    "banned_vaults t = banned_vaults d"
    "vault_version_approval_args t = vault_version_approval_args d"
  using assms by (simp_all add: rules_def dao_v3.defs)

lemma vote_registration_rules:
  assumes "vote_registration cx i b d = Inr (t, es)"
  shows "rules t = rules d"
  using assms
proof (cases rule: vote_registration_run)
  case (1 p q v)
  show ?thesis by (simp add: 1(6) rules_def dao_v3.defs)
qed

lemma internal_vote_revoke_rules:
  assumes "internal_vote_revoke cx i b d = Inr (t, es)"
  shows "rules t = rules d"
  using assms
proof (cases rule: internal_vote_revoke_run)
  case (1 p q v)
  show ?thesis by (simp add: 1(6) rules_def dao_v3.defs)
qed

lemma vote_rules: "vote cx i b d = Inr (t, es) \<Longrightarrow> rules t = rules d"
  by (auto elim!: vote_run dest: vote_registration_rules internal_vote_revoke_rules)

lemma ballot_call_rules:
  assumes "run_dao_call tee c cx d = Inr (t, es)" "ballot_call c"
  shows "rules t = rules d"
proof (cases c)
  case (SubmitRegistration pk quote)
  with assms(1) show ?thesis by (auto elim!: submit_run simp: rules_def dao_v3.defs)
next
  case (ProposeRevoke pks)
  with assms(1) have "rules t = rules (filed_revocation cx pks d)"
    by (auto elim!: propose_run dest: internal_vote_revoke_rules)
  then show ?thesis by (simp add: rules_def filed_revocation_def dao_v3.defs)
qed (use assms vote_rules in auto)

section \<open>The invariant\<close>

text \<open>
  Registrations and revocations share one counter and one map of votes: an id names at most one
  ballot, and votes are cast on ids that were given out.
\<close>

definition voted_below :: "nat \<Rightarrow> (nat \<times> account \<rightharpoonup> bool) \<Rightarrow> bool" where
  "voted_below n vs \<longleftrightarrow> (\<forall>i m b. vs (i, m) = Some b \<longrightarrow> i < n)"

definition ids_ok :: "dao \<Rightarrow> bool" where
  "ids_ok d \<longleftrightarrow>
     (\<forall>i p. proposals d i = Some p \<longrightarrow> kp_id p = i \<and> i < next_proposal_id d \<and> revoke_proposals d i = None) \<and>
     (\<forall>i p. revoke_proposals d i = Some p \<longrightarrow> rp_id p = i \<and> i < next_proposal_id d \<and>
        rp_public_keys p \<noteq> [] \<and> length (rp_public_keys p) \<le> MAX_REVOKE_BATCH \<and> distinct (rp_public_keys p)) \<and>
     voted_below (next_proposal_id d) (votes d)"

lemma voted_below_empty [simp]: "voted_below n Map.empty"
  by (simp add: voted_below_def)

lemma voted_below_upd [simp]: "voted_below n vs \<Longrightarrow> i < n \<Longrightarrow> voted_below n (vs((i, m) \<mapsto> b))"
  unfolding voted_below_def by (metis fun_upd_other prod.inject)

lemma voted_below_mono: "voted_below n vs \<Longrightarrow> n \<le> k \<Longrightarrow> voted_below k vs"
  unfolding voted_below_def by (meson order_less_le_trans)

definition ballots_ok :: "dao \<Rightarrow> bool" where
  "ballots_ok d \<longleftrightarrow> registration.counted d \<and> revocation.counted d"

definition keys_ok :: "dao \<Rightarrow> bool" where
  "keys_ok d \<longleftrightarrow> (\<forall>pk. pk |\<in>| approved_keystores d \<longrightarrow>
     (\<exists>i p. proposals d i = Some p \<and> kp_status p = Executed \<and> kp_public_key p = pk))"

definition lists_ok :: "dao \<Rightarrow> bool" where
  "lists_ok d \<longleftrightarrow> distinct (approved_measurements d) \<and>
     (\<forall>m\<in>set (approved_measurements d). validate_measurements m) \<and>
     length (collaterals d) \<le> MAX_COLLATERALS"

definition members_ok :: "dao \<Rightarrow> bool" where
  "members_ok d \<longleftrightarrow> dao_members d \<noteq> {||} \<and> 0 < approval_threshold d \<and>
     (fcard (dao_members d) < 2 ^ 32 \<longrightarrow> fcard (dao_members d) < 2 * approval_threshold d)"

definition versions_ok :: "dao \<Rightarrow> bool" where
  "versions_ok d \<longleftrightarrow> fset (approved_vault_code_hashes d) = dom (vault_versions d) \<and>
     (\<forall>a vs. vault_version_votes d a = Some vs \<longrightarrow> vs \<noteq> [] \<and> distinct vs) \<and>
     (\<forall>h. vault_version_approval_args d h = None \<longleftrightarrow> vault_version_votes d (ApproveVersion h) = None)"

definition dao_ok :: "dao \<Rightarrow> bool" where
  "dao_ok d \<longleftrightarrow> ids_ok d \<and> ballots_ok d \<and> keys_ok d \<and> lists_ok d \<and> members_ok d \<and> versions_ok d"

lemma ids_ok_one_kind: "ids_ok d \<Longrightarrow> revoke_proposals d i = Some p \<Longrightarrow> proposals d i = None"
  by (cases "proposals d i") (auto simp: ids_ok_def)

lemma ids_ok_register:
  assumes "ids_ok d" "vote_registration cx i b d = Inr (t, es)"
  shows "ids_ok t"
  using assms(2)
proof (cases rule: vote_registration_run)
  case (1 p q v)
  with assms(1) have "i < next_proposal_id d" "kp_id p = i" "revoke_proposals d i = None"
    by (auto simp: ids_ok_def)
  with assms(1) 1(5) show ?thesis by (auto simp: ids_ok_def 1(6) split: if_splits)
qed

lemma ids_ok_revoke:
  assumes "ids_ok d" "internal_vote_revoke cx i b d = Inr (t, es)"
  shows "ids_ok t"
  using assms(2)
proof (cases rule: internal_vote_revoke_run)
  case (1 p q v)
  with assms(1) have "i < next_proposal_id d" "rp_id p = i" "proposals d i = None"
      "rp_public_keys p \<noteq> []" "length (rp_public_keys p) \<le> MAX_REVOKE_BATCH" "distinct (rp_public_keys p)"
    using ids_ok_one_kind [OF assms(1) 1(2)] by (auto simp: ids_ok_def)
  with assms(1) 1(5) show ?thesis by (auto simp: ids_ok_def 1(6) split: if_splits)
qed

lemma ids_ok_fresh:
  assumes "ids_ok d"
  shows "proposals d (next_proposal_id d) = None" "revoke_proposals d (next_proposal_id d) = None"
    "votes d (next_proposal_id d, m) = None"
proof -
  let ?n = "next_proposal_id d"
  show "proposals d ?n = None" "revoke_proposals d ?n = None"
    using assms by (cases "proposals d ?n"; cases "revoke_proposals d ?n"; auto simp: ids_ok_def)+
  have "voted_below ?n (votes d)" using assms by (simp add: ids_ok_def)
  then show "votes d (?n, m) = None"
    unfolding voted_below_def by (metis less_irrefl option.exhaust)
qed

lemma ids_ok_filed:
  assumes "ids_ok d" "pks \<noteq> []" "length pks \<le> MAX_REVOKE_BATCH" "distinct pks"
  shows "ids_ok (filed_revocation cx pks d)"
  using assms ids_ok_fresh [OF assms(1)]
  by (auto simp: ids_ok_def filed_revocation_def less_Suc_eq intro: voted_below_mono split: if_splits)

lemma ids_ok_call:
  assumes "ids_ok d" "run_dao_call tee c cx d = Inr (t, es)"
  shows "ids_ok t"
proof (cases c)
  case (SubmitRegistration pk quote)
  with assms(2) show ?thesis
    using assms(1) ids_ok_fresh [OF assms(1)]
    by (auto simp: ids_ok_def less_Suc_eq elim!: submit_run intro: voted_below_mono split: if_splits)
next
  case (Vote i b)
  with assms show ?thesis by (auto elim!: vote_run intro: ids_ok_register ids_ok_revoke)
next
  case (ProposeRevoke pks)
  with assms show ?thesis by (auto elim!: propose_run intro: ids_ok_revoke ids_ok_filed)
qed (use assms plain_call_frame [OF assms(2)] in \<open>auto simp: ids_ok_def\<close>)

lemma ballots_ok_cong:
  assumes "proposals t = proposals d" "revoke_proposals t = revoke_proposals d" "votes t = votes d"
  shows "ballots_ok t = ballots_ok d"
  using assms by (simp add: ballots_ok_def registration.counted_def revocation.counted_def ayes_def)

lemma ayes_other:
  assumes "votes t = (votes d)((i, m) \<mapsto> b)" "j \<noteq> i"
  shows "ayes j x t = ayes j x d"
  using assms by (auto simp: ayes_def)

lemma ballots_ok_register:
  assumes "ids_ok d" "ballots_ok d" "vote_registration cx i b d = Inr (t, es)"
  shows "ballots_ok t"
proof -
  have "revocation.counted t"
    using assms(3)
  proof (cases rule: vote_registration_run)
    case (1 p q v)
    then have same: "revoke_proposals t = revoke_proposals d" by (simp add: 1(6))
    from 1(2) assms(1) have none: "revoke_proposals d i = None" by (auto simp: ids_ok_def)
    have "ayes j x t = ayes j x d" if "j \<noteq> i" for j x
      by (rule ayes_other [OF _ that]) (simp add: 1(6))
    with none assms(2) show ?thesis
      unfolding revocation.counted_def same ballots_ok_def by (metis option.distinct(1))
  qed
  with registration.cast_counted [OF _ assms(3)] assms(2) show ?thesis by (simp add: ballots_ok_def)
qed

lemma ballots_ok_revoke:
  assumes "ids_ok d" "ballots_ok d" "internal_vote_revoke cx i b d = Inr (t, es)"
  shows "ballots_ok t"
proof -
  have "registration.counted t"
    using assms(3)
  proof (cases rule: internal_vote_revoke_run)
    case (1 p q v)
    then have same: "proposals t = proposals d" by (simp add: 1(6))
    have none: "proposals d i = None" by (rule ids_ok_one_kind [OF assms(1) 1(2)])
    have "ayes j x t = ayes j x d" if "j \<noteq> i" for j x
      by (rule ayes_other [OF _ that]) (simp add: 1(6))
    with none assms(2) show ?thesis
      unfolding registration.counted_def same ballots_ok_def by (metis option.distinct(1))
  qed
  with revocation.cast_counted [OF _ assms(3)] assms(2) show ?thesis by (simp add: ballots_ok_def)
qed

lemma ayes_fresh: "ids_ok d \<Longrightarrow> ayes (next_proposal_id d) x d = {}"
  by (auto simp: ayes_def ids_ok_fresh(3))

lemma ballots_ok_filed:
  assumes "ids_ok d" "ballots_ok d"
  shows "ballots_ok (filed_revocation cx pks d)"
proof -
  let ?t = "filed_revocation cx pks d"
  have same: "ayes j x ?t = ayes j x d" for j x by (simp add: ayes_def filed_revocation_def)
  have boxes: "proposals ?t = proposals d"
      "revoke_proposals ?t = (revoke_proposals d)(next_proposal_id d \<mapsto> new_revocation cx pks d)"
    by (simp_all add: filed_revocation_def)
  show ?thesis
    using assms
    by (auto simp: ballots_ok_def registration.counted_def revocation.counted_def same ayes_fresh boxes)
qed

lemma ballots_ok_call:
  assumes "ids_ok d" "ballots_ok d" "run_dao_call tee c cx d = Inr (t, es)"
  shows "ballots_ok t"
proof (cases "ballot_call c")
  case False
  show ?thesis
    using assms(2) ballots_ok_cong [OF plain_call_frame(1-3) [OF assms(3) False]] by simp
next
  case True
  show ?thesis
  proof (cases c)
    case (SubmitRegistration pk quote)
    then obtain m where t: "t = d\<lparr>proposals := (proposals d)(next_proposal_id d \<mapsto>
        new_registration cx pk m d), next_proposal_id := next_proposal_id d + 1\<rparr>"
      using assms(3) by (auto elim!: submit_run)
    then have same: "ayes j x t = ayes j x d" for j x by (simp add: ayes_def)
    have boxes: "revoke_proposals t = revoke_proposals d"
        "proposals t = (proposals d)(next_proposal_id d \<mapsto> new_registration cx pk m d)"
      by (simp_all add: t)
    show ?thesis
      using assms(1,2)
      by (auto simp: ballots_ok_def registration.counted_def revocation.counted_def same ayes_fresh boxes)
  next
    case (Vote i b)
    with assms show ?thesis by (auto elim!: vote_run intro: ballots_ok_register ballots_ok_revoke)
  next
    case (ProposeRevoke pks)
    with assms show ?thesis
      by (auto elim!: propose_run intro: ballots_ok_revoke ids_ok_filed ballots_ok_filed)
  qed (use True in simp_all)
qed

text \<open>An executed registration stays as it is: no later ballot touches it.\<close>

lemma executed_stays:
  assumes "ids_ok d" "run_dao_call tee c cx d = Inr (t, es)"
    and "proposals d i = Some p" "kp_status p \<noteq> Pending"
  shows "proposals t i = Some p"
proof (cases c)
  case (SubmitRegistration pk quote)
  with assms(2) show ?thesis using assms(3) ids_ok_fresh(1) [OF assms(1)] by (auto elim!: submit_run)
next
  case (Vote j b)
  with assms(2) have "vote cx j b d = Inr (t, es)" by simp
  then show ?thesis
  proof (cases rule: vote_run)
    case revocation
    from revocation(3) show ?thesis
      by (cases rule: internal_vote_revoke_run) (use assms(3) in simp)
  next
    case registration
    from registration(3) show ?thesis
    proof (cases rule: vote_registration_run)
      case (1 q r v)
      with assms(3,4) have "j \<noteq> i" by auto
      with assms(3) show ?thesis by (simp add: 1(6))
    qed
  qed
next
  case (ProposeRevoke pks)
  with assms(2) obtain fs where
    "internal_vote_revoke cx (next_proposal_id d) True (filed_revocation cx pks d) = Inr (t, fs)"
    by (auto elim!: propose_run)
  then show ?thesis
    by (cases rule: internal_vote_revoke_run) (use assms(3) in \<open>simp add: filed_revocation_def\<close>)
qed (use assms(3) plain_call_frame(1) [OF assms(2)] in simp_all)

text \<open>How a key gets into the approved set, and how it leaves it.\<close>

lemma key_enters:
  assumes "run_dao_call tee c cx d = Inr (t, es)"
    and "pk |\<in>| approved_keystores t" "pk |\<notin>| approved_keystores d"
  obtains i b p q where "c = Vote i b" "predecessor cx |\<in>| dao_members d" "vote_registration cx i b d = Inr (t, es)"
    "proposals d i = Some p" "kp_status p = Pending" "kp_public_key p = pk" "verdict i t = Executed"
    "proposals t i = Some q" "kp_status q = Executed" "kp_public_key q = pk"
proof (cases c)
  case (SubmitRegistration key quote)
  with assms show thesis by (auto elim!: submit_run)
next
  case (Vote i b)
  with assms(1) have "vote cx i b d = Inr (t, es)" by simp
  then show thesis
  proof (cases rule: vote_run)
    case revocation
    from revocation(3) have False
    proof (cases rule: internal_vote_revoke_run)
      case (1 p q v)
      with assms(2,3) show False by (simp add: 1(6) split: if_splits)
    qed
    then show thesis ..
  next
    case registration
    show thesis
      using registration(3)
    proof (cases rule: vote_registration_run)
      case (1 p q v)
      from assms(2,3) have v: "v = Executed" and key: "kp_public_key p = pk" by (simp_all add: 1(6) split: if_splits)
      show thesis
        by (rule that [OF Vote registration(1,3) 1(2,3) key, of q]) (simp_all only: 1(1) v, simp_all add: 1(5,6) v key)
    qed
  qed
next
  case (ProposeRevoke pks)
  with assms(1) obtain fs where
    "internal_vote_revoke cx (next_proposal_id d) True (filed_revocation cx pks d) = Inr (t, fs)"
    by (auto elim!: propose_run)
  then have False
  proof (cases rule: internal_vote_revoke_run)
    case (1 p q v)
    with assms(2,3) show False by (simp add: 1(6) filed_revocation_def split: if_splits)
  qed
  then show thesis ..
qed (use assms(2,3) plain_call_frame(5) [OF assms(1)] in simp_all)

lemma keys_ok_call:
  assumes "ids_ok d" "keys_ok d" "run_dao_call tee c cx d = Inr (t, es)"
  shows "keys_ok t"
  unfolding keys_ok_def
proof (intro allI impI)
  fix pk
  assume pk: "pk |\<in>| approved_keystores t"
  show "\<exists>i p. proposals t i = Some p \<and> kp_status p = Executed \<and> kp_public_key p = pk"
  proof (cases "pk |\<in>| approved_keystores d")
    case True
    with assms(2) obtain i p where "proposals d i = Some p" "kp_status p = Executed" "kp_public_key p = pk"
      by (auto simp: keys_ok_def)
    with executed_stays [OF assms(1,3)] show ?thesis by (metis proposal_status.distinct(5))
  next
    case False
    from key_enters [OF assms(3) pk False] show ?thesis by metis
  qed
qed

text \<open>Each list of the state has the calls that write it.\<close>

lemma measurements_frame:
  assumes "run_dao_call tee c cx d = Inr (t, es)"
  shows "(\<exists>m x. c = AddMeasurements m x) \<or> c = ClearMeasurements \<or> (\<exists>m. c = RemoveMeasurements m) \<or>
    approved_measurements t = approved_measurements d"
proof (cases "ballot_call c")
  case True
  then show ?thesis using rules_eqD(3) [OF ballot_call_rules [OF assms True]] by simp
next
  case False
  with assms show ?thesis
    by (cases c; auto simp: plain_call_defs run_simps Let_def split: if_splits)
qed

lemma collaterals_frame:
  assumes "run_dao_call tee c cx d = Inr (t, es)"
  shows "(\<exists>x i. c = UpdateCollateral x i) \<or> collaterals t = collaterals d"
proof (cases "ballot_call c")
  case True
  then show ?thesis using rules_eqD(4) [OF ballot_call_rules [OF assms True]] by simp
next
  case False
  with assms show ?thesis
    by (cases c; auto simp: plain_call_defs run_simps Let_def split: if_splits)
qed

lemma members_frame:
  assumes "run_dao_call tee c cx d = Inr (t, es)"
  shows "(\<exists>a. c = AddMember a) \<or> (\<exists>a. c = RemoveMember a) \<or>
    dao_members t = dao_members d \<and> approval_threshold t = approval_threshold d"
proof (cases "ballot_call c")
  case True
  then show ?thesis using rules_eqD(1,2) [OF ballot_call_rules [OF assms True]] by simp
next
  case False
  with assms show ?thesis
    by (cases c; auto simp: plain_call_defs run_simps Let_def split: if_splits)
qed

lemma versions_frame:
  assumes "run_dao_call tee c cx d = Inr (t, es)"
  shows "(\<exists>h l u. c = ApproveVaultVersion h l u) \<or> (\<exists>h. c = DeprecateVaultVersion h) \<or>
    (\<exists>h. c = RevokeVaultVersion h) \<or>
    approved_vault_code_hashes t = approved_vault_code_hashes d \<and> vault_versions t = vault_versions d \<and>
    vault_version_votes t = vault_version_votes d \<and>
    vault_version_approval_args t = vault_version_approval_args d"
proof (cases "ballot_call c")
  case True
  then show ?thesis using rules_eqD(5-7,10) [OF ballot_call_rules [OF assms True]] by simp
next
  case False
  with assms show ?thesis
    by (cases c; auto simp: plain_call_defs run_simps Let_def split: if_splits)
qed

lemma lists_ok_call:
  assumes "lists_ok d" "run_dao_call tee c cx d = Inr (t, es)"
  shows "lists_ok t"
proof -
  have "distinct (approved_measurements t) \<and> (\<forall>m\<in>set (approved_measurements t). validate_measurements m)"
    using measurements_frame [OF assms(2)]
  proof (elim disjE exE)
    fix m x
    assume "c = AddMeasurements m x"
    with assms show ?thesis
      by (auto simp: lists_ok_def add_approved_measurements_def assert_dao_owner_def run_simps Let_def split: if_splits)
  qed (use assms in \<open>auto simp: lists_ok_def clear_all_approved_measurements_def
         remove_approved_measurements_def assert_dao_owner_def run_simps\<close>)
  moreover have "length (collaterals t) \<le> MAX_COLLATERALS"
    using collaterals_frame [OF assms(2)] assms
    by (auto simp: lists_ok_def update_collateral_def assert_dao_owner_def run_simps split: if_splits)
  ultimately show ?thesis by (simp add: lists_ok_def)
qed

lemma majority: "n < 2 ^ 32 \<Longrightarrow> n < 2 * (as_u32 n div 2 + 1)"
  by (simp add: as_u32_def)

lemma more_than_one: "Suc 0 < fcard m \<Longrightarrow> \<not> m |\<subseteq>| {|a|}"
proof
  assume "Suc 0 < fcard m" "m |\<subseteq>| {|a|}"
  from fcard_mono [OF this(2)] this(1) show False by (simp add: fcard.rep_eq)
qed

lemma members_ok_call:
  assumes "members_ok d" "run_dao_call tee c cx d = Inr (t, es)"
  shows "members_ok t"
  using members_frame [OF assms(2)]
proof (elim disjE exE)
  fix a
  assume "c = AddMember a"
  with assms(2) have "dao_members t \<noteq> {||}"
      "approval_threshold t = as_u32 (fcard (dao_members t)) div 2 + 1"
    by (auto simp: add_dao_member_def assert_dao_owner_def run_simps Let_def)
  then show ?thesis using majority by (simp add: members_ok_def)
next
  fix a
  assume "c = RemoveMember a"
  with assms(2) have "dao_members t \<noteq> {||}"
      "approval_threshold t = as_u32 (fcard (dao_members t)) div 2 + 1"
    by (auto simp: remove_dao_member_def assert_dao_owner_def run_simps Let_def
        dest: more_than_one [of _ a])
  then show ?thesis using majority by (simp add: members_ok_def)
qed (use assms(1) in \<open>simp add: members_ok_def\<close>)

lemma version_voters_ok:
  assumes "versions_ok d"
  shows "version_voters cx a d \<noteq> []" "distinct (version_voters cx a d)"
    "set (version_voters cx a d) =
       insert (predecessor cx) {v. v |\<in>| dao_members d \<and> (\<exists>vs. vault_version_votes d a = Some vs \<and> v \<in> set vs)}"
proof -
  show "distinct (version_voters cx a d)"
    using assms by (auto simp: versions_ok_def version_voters_def Let_def split: option.splits)
  show s: "set (version_voters cx a d) =
       insert (predecessor cx) {v. v |\<in>| dao_members d \<and> (\<exists>vs. vault_version_votes d a = Some vs \<and> v \<in> set vs)}"
    by (cases "vault_version_votes d a") (auto simp: version_voters_def Let_def)
  from s show "version_voters cx a d \<noteq> []" by auto
qed

lemma versions_okD:
  assumes "versions_ok d"
  shows "fset (approved_vault_code_hashes d) = dom (vault_versions d)"
    and "vault_version_votes d a = Some vs \<Longrightarrow> distinct vs"
    and "vault_version_votes d a \<noteq> Some []"
    and "vault_version_approval_args d h = None \<longleftrightarrow> vault_version_votes d (ApproveVersion h) = None"
  using assms by (auto simp: versions_ok_def)

text \<open>What a vote on vault code does, by whether it completes the quorum.\<close>

lemma approve_version_run:
  assumes "approve_vault_version cx h l u d = Inr (t, es)"
  obtains (vote) "predecessor cx |\<in>| dao_members d"
      "vault_version_approval_args d h \<in> {None, Some \<lparr>aa_label = l, aa_audit_url = u\<rparr>}"
      "as_u32 (length (version_voters cx (ApproveVersion h) d)) < approval_threshold d"
      "t = d\<lparr>vault_version_approval_args := (vault_version_approval_args d)(h \<mapsto> \<lparr>aa_label = l, aa_audit_url = u\<rparr>),
             vault_version_votes := (vault_version_votes d)(ApproveVersion h \<mapsto> version_voters cx (ApproveVersion h) d)\<rparr>"
    | (quorum) "predecessor cx |\<in>| dao_members d"
      "vault_version_approval_args d h \<in> {None, Some \<lparr>aa_label = l, aa_audit_url = u\<rparr>}"
      "approval_threshold d \<le> as_u32 (length (version_voters cx (ApproveVersion h) d))"
      "t = d\<lparr>vault_version_votes := (vault_version_votes d)(ApproveVersion h := None),
             vault_version_approval_args := (vault_version_approval_args d)(h := None),
             approved_vault_code_hashes := finsert h (approved_vault_code_hashes d),
             vault_versions := (vault_versions d)(h \<mapsto> \<lparr>vv_label = l, vv_audit_url = u,
               vv_deprecated = False, vv_approved_at = block_timestamp cx\<rparr>)\<rparr>"
proof (cases "approval_threshold d \<le> as_u32 (length (version_voters cx (ApproveVersion h) d))")
  case True
  with assms quorum show thesis
    by (simp add: approve_vault_version_def internal_approve_vault_version_def assert_dao_member_def
        run_simps Let_def)
next
  case False
  with assms vote show thesis
    by (simp add: approve_vault_version_def assert_dao_member_def run_simps Let_def)
qed

lemma revoke_version_run:
  assumes "revoke_vault_version cx h d = Inr (t, es)"
  obtains (vote) "predecessor cx |\<in>| dao_members d"
      "t = d\<lparr>vault_version_votes := (vault_version_votes d)(RevokeVersion h \<mapsto> version_voters cx (RevokeVersion h) d)\<rparr>"
    | (quorum) "predecessor cx |\<in>| dao_members d"
      "approval_threshold d \<le> as_u32 (length (version_voters cx (RevokeVersion h) d))"
      "t = d\<lparr>vault_version_votes := (vault_version_votes d)(RevokeVersion h := None),
             approved_vault_code_hashes := approved_vault_code_hashes d |-| {|h|},
             vault_versions := (vault_versions d)(h := None)\<rparr>"
proof (cases "approval_threshold d \<le> as_u32 (length (version_voters cx (RevokeVersion h) d))")
  case True
  with assms quorum show thesis
    by (simp add: revoke_vault_version_def internal_revoke_vault_version_def assert_dao_member_def
        run_simps Let_def)
next
  case False
  with assms vote show thesis
    by (simp add: revoke_vault_version_def assert_dao_member_def run_simps Let_def)
qed

lemma versions_ok_call:
  assumes "versions_ok d" "run_dao_call tee c cx d = Inr (t, es)"
  shows "versions_ok t"
proof -
  note voters = version_voters_ok(1,2) [OF assms(1), of cx]
  show ?thesis
    using versions_frame [OF assms(2)]
  proof (elim disjE exE)
    fix h l u
    assume "c = ApproveVaultVersion h l u"
    with assms(2) have "approve_vault_version cx h l u d = Inr (t, es)" by simp
    then show ?thesis
    proof (cases rule: approve_version_run)
      case vote
      with assms(1) voters [of "ApproveVersion h"] show ?thesis by (simp add: versions_ok_def)
    next
      case quorum
      with assms(1) show ?thesis by (simp add: versions_ok_def)
    qed
  next
    fix h
    assume "c = RevokeVaultVersion h"
    with assms(2) have "revoke_vault_version cx h d = Inr (t, es)" by simp
    then show ?thesis
    proof (cases rule: revoke_version_run)
      case vote
      with assms(1) voters [of "RevokeVersion h"] show ?thesis by (simp add: versions_ok_def)
    next
      case quorum
      with assms(1) show ?thesis by (simp add: versions_ok_def)
    qed
  next
    fix h
    assume "c = DeprecateVaultVersion h"
    with assms(2) obtain v where v: "vault_versions d h = Some v"
      and t: "t = d\<lparr>vault_versions := (vault_versions d)(h \<mapsto> v\<lparr>vv_deprecated := True\<rparr>)\<rparr>"
      by (auto simp: deprecate_vault_version_def assert_dao_member_def run_simps)
    from v have "insert h (dom (vault_versions d)) = dom (vault_versions d)" by auto
    with assms(1) show ?thesis by (simp add: versions_ok_def t)
  qed (use assms(1) in \<open>simp add: versions_ok_def\<close>)
qed

lemma dao_ok_new:
  assumes "new_dao cx owner init_account members mpc = Inr d" "length members < 2 ^ 32"
  shows "dao_ok d"
proof -
  from assms have d: "members \<noteq> []" "dao_members d = fset_of_list members"
      "approval_threshold d = as_u32 (length members) div 2 + 1"
    and empty: "proposals d = Map.empty" "revoke_proposals d = Map.empty" "votes d = Map.empty"
      "approved_keystores d = {||}" "approved_measurements d = []" "collaterals d = []"
      "approved_vault_code_hashes d = {||}" "vault_versions d = Map.empty"
      "vault_version_votes d = Map.empty" "vault_version_approval_args d = Map.empty"
    by (auto simp: new_dao_def run_simps)
  have "fcard (dao_members d) \<le> length members"
    by (simp add: d fcard.rep_eq fset_of_list.rep_eq card_length)
  moreover from d(1) d(2) have "dao_members d \<noteq> {||}" by (cases members) auto
  ultimately have "members_ok d"
    using d majority [OF assms(2)] by (simp add: members_ok_def)
  then show ?thesis
    by (simp add: dao_ok_def ids_ok_def ballots_ok_def keys_ok_def lists_ok_def versions_ok_def empty
        registration.counted_def revocation.counted_def)
qed

lemma dao_ok_call:
  assumes "dao_ok d" "run_dao_call tee c cx d = Inr (t, es)"
  shows "dao_ok t"
  using assms unfolding dao_ok_def
  by (blast intro: ids_ok_call ballots_ok_call keys_ok_call lists_ok_call members_ok_call versions_ok_call)

lemma history_ok: "dao_history tee h d \<Longrightarrow> dao_ok d"
  by (induction rule: dao_history.induct) (auto intro: dao_ok_new dao_ok_call)

section \<open>Where registrations and votes come from\<close>

lemma registration_origin:
  assumes "run_dao_call tee c cx d = Inr (t, es)" "proposals t i = Some p"
  shows "(\<exists>q. proposals d i = Some q \<and> kp_public_key q = kp_public_key p) \<or>
    (\<exists>quote m. c = SubmitRegistration (kp_public_key p) quote \<and> i = next_proposal_id d \<and>
       predecessor cx = init_account_id d \<and> m \<in> set (approved_measurements d) \<and>
       attests tee (block_timestamp cx) (collaterals d) quote (kp_public_key p) m)"
proof (cases c)
  case (SubmitRegistration pk quote)
  with assms show ?thesis by (auto elim!: submit_run split: if_splits) blast
next
  case (Vote j b)
  with assms(1) have "vote cx j b d = Inr (t, es)" by simp
  then show ?thesis
  proof (cases rule: vote_run)
    case revocation
    from revocation(3) show ?thesis
      by (cases rule: internal_vote_revoke_run) (use assms(2) in simp)
  next
    case registration
    from registration(3) show ?thesis
    proof (cases rule: vote_registration_run)
      case (1 q r v)
      have "kp_public_key r = kp_public_key q" "proposals t = (proposals d)(j \<mapsto> r)"
        by (simp_all add: 1(5,6))
      with assms(2) 1(2) show ?thesis by (cases "i = j") auto
    qed
  qed
next
  case (ProposeRevoke pks)
  with assms(1) obtain fs where
    "internal_vote_revoke cx (next_proposal_id d) True (filed_revocation cx pks d) = Inr (t, fs)"
    by (auto elim!: propose_run)
  then show ?thesis
    by (cases rule: internal_vote_revoke_run) (use assms(2) in \<open>simp add: filed_revocation_def\<close>)
qed (use assms(2) plain_call_frame(1) [OF assms(1)] in simp_all)

lemma vote_origin:
  assumes "run_dao_call tee c cx d = Inr (t, es)" "votes t (i, m) = Some b"
  shows "votes d (i, m) = Some b \<or>
    c = Vote i b \<and> predecessor cx = m \<and> m |\<in>| dao_members d \<or>
    (\<exists>pks. c = ProposeRevoke pks) \<and> i = next_proposal_id d"
proof (cases c)
  case (SubmitRegistration pk quote)
  with assms show ?thesis by (auto elim!: submit_run)
next
  case (Vote j x)
  with assms(1) have "vote cx j x d = Inr (t, es)" by simp
  then show ?thesis
  proof (cases rule: vote_run)
    case revocation
    with revocation.cast_once(5) [OF revocation(3)] assms(2) Vote show ?thesis by (auto split: if_splits)
  next
    case registration
    with registration.cast_once(5) [OF registration(3)] assms(2) Vote show ?thesis by (auto split: if_splits)
  qed
next
  case (ProposeRevoke pks)
  with assms(1) obtain fs where
    run: "internal_vote_revoke cx (next_proposal_id d) True (filed_revocation cx pks d) = Inr (t, fs)"
    by (auto elim!: propose_run)
  from revocation.cast_once(5) [OF run] assms(2) ProposeRevoke show ?thesis
    by (auto simp: filed_revocation_def split: if_splits)
qed (use assms(2) plain_call_frame(3) [OF assms(1)] in simp_all)

lemma proposals_after_propose:
  assumes "propose_revoke_keystore_keys cx pks d = Inr (t, es)"
  shows "proposals t = proposals d"
proof -
  from assms obtain fs where
    "internal_vote_revoke cx (next_proposal_id d) True (filed_revocation cx pks d) = Inr (t, fs)"
    by (auto elim!: propose_run)
  then show ?thesis by (cases rule: internal_vote_revoke_run) (simp add: filed_revocation_def)
qed

text \<open>The call that opened a registration ballot, and the calls behind its votes.\<close>

definition attested_in :: "tee_libs \<Rightarrow> dao_event list \<Rightarrow> nat \<Rightarrow> curve_key \<Rightarrow> bool" where
  "attested_in tee h i pk \<longleftrightarrow>
     (\<exists>cx quote e. (cx, SubmitRegistration pk quote, e) \<in> set h \<and> next_proposal_id e = i \<and>
        predecessor cx = init_account_id e \<and>
        (\<exists>m\<in>set (approved_measurements e). attests tee (block_timestamp cx) (collaterals e) quote pk m))"

definition voted_in :: "dao_event list \<Rightarrow> nat \<Rightarrow> bool \<Rightarrow> account \<Rightarrow> bool" where
  "voted_in h i b m \<longleftrightarrow> (\<exists>cx e. (cx, Vote i b, e) \<in> set h \<and> predecessor cx = m \<and> m |\<in>| dao_members e)"

lemma history_proposals:
  "dao_history tee h d \<Longrightarrow> proposals d i = Some p \<Longrightarrow> attested_in tee h i (kp_public_key p)"
proof (induction arbitrary: p rule: dao_history.induct)
  case (deploy cx owner init_account members mpc d)
  then show ?case by (auto simp: new_dao_def run_simps)
next
  case (call h d c cx t es)
  from registration_origin [OF call.hyps(2) call.prems] show ?case
  proof (elim disjE exE conjE)
    fix q
    assume q: "proposals d i = Some q" "kp_public_key q = kp_public_key p"
    from call.IH [OF q(1)] q(2) show ?thesis by (auto simp: attested_in_def)
  qed (auto simp: attested_in_def)
qed

lemma history_votes:
  "dao_history tee h d \<Longrightarrow> proposals d i \<noteq> None \<Longrightarrow> votes d (i, m) = Some b \<Longrightarrow> voted_in h i b m"
proof (induction rule: dao_history.induct)
  case (deploy cx owner init_account members mpc d)
  then show ?case by (auto simp: new_dao_def run_simps)
next
  case (call h d c cx t es)
  have ids: "ids_ok d" using history_ok [OF call.hyps(1)] by (simp add: dao_ok_def)
  from vote_origin [OF call.hyps(2) call.prems(2)] show ?case
  proof (elim disjE exE conjE)
    assume old: "votes d (i, m) = Some b"
    from call.prems(1) obtain p where p: "proposals t i = Some p" by auto
    have "i < next_proposal_id d" using ids old unfolding ids_ok_def voted_below_def by blast
    then have "proposals d i \<noteq> None" using registration_origin [OF call.hyps(2) p] by auto
    from call.IH [OF this old] show ?thesis by (auto simp: voted_in_def)
  next
    fix pks
    assume "c = ProposeRevoke pks" "i = next_proposal_id d"
    with call.hyps(2) call.prems(1) ids_ok_fresh(1) [OF ids] proposals_after_propose show ?thesis by simp
  qed (auto simp: voted_in_def)
qed

text \<open>A quorum of a state: enough of its members, and more than half of them.\<close>

definition quorum_of :: "dao \<Rightarrow> account set \<Rightarrow> bool" where
  "quorum_of d Q \<longleftrightarrow> Q \<subseteq> fset (dao_members d) \<and> approval_threshold d \<le> card Q"

lemma quorum_majority:
  assumes "members_ok d" "quorum_of d Q" "fcard (dao_members d) < 2 ^ 32"
  shows "fcard (dao_members d) < 2 * card Q"
  using assms by (simp add: members_ok_def quorum_of_def)

lemma live_quorum:
  assumes "approval_threshold d \<le> live_votes i b d"
  shows "quorum_of d {m. m |\<in>| dao_members d \<and> votes d (i, m) = Some b}"
proof -
  have "fset (ffilter (\<lambda>m. votes d (i, m) = Some b) (dao_members d))
      = {m. m |\<in>| dao_members d \<and> votes d (i, m) = Some b}" by auto
  with assms show ?thesis by (auto simp: quorum_of_def live_votes_def fcard.rep_eq)
qed

text \<open>
  C7. A keystore key is in the approved set only by attestation and by vote. Whatever the history of
  calls, a key the DAO holds approved was submitted by the init account with a quote that Intel's
  library accepted against a cached collateral of its platform, whose report binds the key and
  carries measurements the owner had approved; and the ballot that submission opened was carried by
  a set of members, at least the threshold and more than half of the members at that moment, each of
  whom called \<open>vote\<close> for it while a member.
\<close>

theorem keystore_key_attested_and_voted:
  assumes "dao_history tee h d" "pk |\<in>| approved_keystores d"
  shows "\<exists>i cx b e Q. (cx, Vote i b, e) \<in> set h \<and> attested_in tee h i pk \<and> quorum_of e Q \<and>
    (fcard (dao_members e) < 2 ^ 32 \<longrightarrow> fcard (dao_members e) < 2 * card Q) \<and>
    (\<forall>m\<in>Q. voted_in h i True m)"
  using assms
proof (induction rule: dao_history.induct)
  case (deploy cx owner init_account members mpc d)
  then show ?case by (auto simp: new_dao_def run_simps)
next
  case (call h d c cx t es)
  show ?case
  proof (cases "pk |\<in>| approved_keystores d")
    case True
    from call.IH [OF True] show ?thesis by (fastforce simp: attested_in_def voted_in_def)
  next
    case False
    from key_enters [OF call.hyps(2) call.prems False] obtain i b p q where run: "c = Vote i b"
      "proposals d i = Some p" "kp_public_key p = pk" "verdict i t = Executed" "proposals t i = Some q"
      "vote_registration cx i b d = Inr (t, es)" by metis
    have hist: "dao_history tee ((cx, c, d) # h) t" by (rule dao_history.call [OF call.hyps(1,2)])
    let ?Q = "{m. m |\<in>| dao_members t \<and> votes t (i, m) = Some True}"
    have same: "dao_members t = dao_members d" "approval_threshold t = approval_threshold d"
      by (rule rules_eqD [OF vote_registration_rules [OF run(6)]])+
    from run(4) have "quorum_of t ?Q"
      by (intro live_quorum) (simp add: verdict_def split: if_splits)
    then have Q: "quorum_of d ?Q" by (simp add: quorum_of_def same)
    have "members_ok d" using history_ok [OF call.hyps(1)] by (simp add: dao_ok_def)
    note majority = quorum_majority [OF this Q]
    have "attested_in tee ((cx, c, d) # h) i pk"
      using history_proposals [OF call.hyps(1) run(2)] run(3) by (auto simp: attested_in_def)
    moreover have "\<forall>m\<in>?Q. voted_in ((cx, c, d) # h) i True m"
      using history_votes [OF hist] run(5) by simp
    ultimately show ?thesis
      using run(1) Q majority by (metis (no_types, lifting) list.set_intros(1))
  qed
qed

section \<open>What a vote decides\<close>

definition ballot_status :: "dao \<Rightarrow> nat \<Rightarrow> proposal_status option" where
  "ballot_status d i =
     (case revoke_proposals d i of
        Some r \<Rightarrow> Some (rp_status r) | None \<Rightarrow> map_option kp_status (proposals d i))"

definition undecided :: "nat \<Rightarrow> dao \<Rightarrow> nat" where
  "undecided i d = fcard (ffilter (\<lambda>m. votes d (i, m) = None) (dao_members d))"

lemma members_split: "live_votes i True d + live_votes i False d + undecided i d = fcard (dao_members d)"
proof -
  let ?f = "\<lambda>x. {m \<in> fset (dao_members d). votes d (i, m) = x}"
  have c: "fcard (ffilter (\<lambda>m. votes d (i, m) = x) (dao_members d)) = card (?f x)" for x
    by (simp add: fcard.rep_eq ffilter.rep_eq) (rule arg_cong [where f = card], auto)
  have fin: "finite (?f x)" for x by (rule finite_subset [of _ "fset (dao_members d)"]) auto
  have "fset (dao_members d) = (?f (Some True) \<union> ?f (Some False)) \<union> ?f None" by (auto)
  then have "card (fset (dao_members d)) = card ((?f (Some True) \<union> ?f (Some False)) \<union> ?f None)" by simp
  also have "\<dots> = card (?f (Some True)) + card (?f (Some False)) + card (?f None)"
    using fin by (subst card_Un_disjoint; (subst card_Un_disjoint)?; auto)
  finally show ?thesis by (simp add: live_votes_def undecided_def c) (simp add: fcard.rep_eq)
qed

lemma verdict_by_reach:
  assumes "fcard (dao_members d) < 2 ^ 32"
    and "verdict i d = Executed \<or> approval_threshold d \<le> as_u32 (fcard (dao_members d))"
  shows "verdict i d =
    (if approval_threshold d \<le> live_votes i True d then Executed
     else if live_votes i True d + undecided i d < approval_threshold d then Rejected else Pending)"
  using assms members_split [of i d] by (auto simp: verdict_def as_u32_def split: if_splits)

lemma vote_room:
  assumes "vote cx i b d = Inr (t, es)"
  shows "verdict i t = Executed \<or> approval_threshold d \<le> as_u32 (fcard (dao_members d))"
  using assms
proof (cases rule: vote_run)
  case revocation
  from revocation(3) show ?thesis by (cases rule: internal_vote_revoke_run) simp
next
  case registration
  from registration(3) show ?thesis by (cases rule: vote_registration_run) simp
qed

lemma ballot_status_vote:
  assumes "ids_ok d" "vote cx i b d = Inr (t, es)"
  shows "ballot_status d i = Some Pending" "ballot_status t i = Some (verdict i t)"
    "votes d (i, predecessor cx) = None" "votes t = (votes d)((i, predecessor cx) \<mapsto> b)"
    "verdict i t = Executed \<or> approval_threshold t \<le> as_u32 (fcard (dao_members t))"
proof -
  note same = rules_eqD(1,2) [OF vote_rules [OF assms(2)]]
  from assms(2) have "ballot_status d i = Some Pending \<and> ballot_status t i = Some (verdict i t) \<and>
    votes d (i, predecessor cx) = None \<and> votes t = (votes d)((i, predecessor cx) \<mapsto> b) \<and>
    (verdict i t = Executed \<or> approval_threshold t \<le> as_u32 (fcard (dao_members t)))"
  proof (cases rule: vote_run)
    case revocation
    from revocation(3) show ?thesis
    proof (cases rule: internal_vote_revoke_run)
      case (1 p q v)
      from 1(2,3) revocation.cast_once [OF revocation(3)] 1(8) show ?thesis
        unfolding same 1(1) by (simp add: ballot_status_def) (simp add: 1(5,6))
    qed
  next
    case registration
    from registration(3) show ?thesis
    proof (cases rule: vote_registration_run)
      case (1 p q v)
      have "revoke_proposals t = revoke_proposals d" by (simp add: 1(6))
      with registration(2) 1(2,3) registration.cast_once [OF registration(3)] 1(8) show ?thesis
        unfolding same 1(1) by (simp add: ballot_status_def) (simp add: 1(5,6))
    qed
  qed
  then show "ballot_status d i = Some Pending" "ballot_status t i = Some (verdict i t)"
    "votes d (i, predecessor cx) = None" "votes t = (votes d)((i, predecessor cx) \<mapsto> b)"
    "verdict i t = Executed \<or> approval_threshold t \<le> as_u32 (fcard (dao_members t))" by blast+
qed

text \<open>
  A vote that returns is a member's first vote on a pending ballot, and it settles the ballot by the
  votes of the present members alone: executed when the votes for reach the threshold, rejected as
  soon as the members who have not voted cannot carry it any more even if all of them vote for it,
  and left pending otherwise. What members of the past voted counts for neither side.
\<close>

theorem vote_decides:
  assumes "dao_history tee h d" "vote cx i b d = Inr (t, es)" "fcard (dao_members d) < 2 ^ 32"
  shows "predecessor cx |\<in>| dao_members d \<and> votes d (i, predecessor cx) = None \<and>
    votes t = (votes d)((i, predecessor cx) \<mapsto> b) \<and> ballot_status d i = Some Pending \<and>
    ballot_status t i = Some
      (if approval_threshold d \<le> live_votes i True t then Executed
       else if live_votes i True t + undecided i t < approval_threshold d then Rejected else Pending)"
proof -
  have ids: "ids_ok d" using history_ok [OF assms(1)] by (simp add: dao_ok_def)
  note same = rules_eqD(1,2) [OF vote_rules [OF assms(2)]]
  note st = ballot_status_vote [OF ids assms(2)]
  from assms(3) have "fcard (dao_members t) < 2 ^ 32" by (simp add: same)
  from verdict_by_reach [OF this st(5)] st(1-4) assms(2) show ?thesis
    by (auto simp: same elim: vote_run)
qed

section \<open>Vault code\<close>

definition approved_in :: "dao_event list \<Rightarrow> code_hash \<Rightarrow> string \<Rightarrow> string option \<Rightarrow> account \<Rightarrow> bool" where
  "approved_in h x l u m \<longleftrightarrow>
     (\<exists>cx e. (cx, ApproveVaultVersion x l u, e) \<in> set h \<and> predecessor cx = m \<and> m |\<in>| dao_members e)"

lemma approved_in_Cons: "approved_in h x l u m \<Longrightarrow> approved_in (ev # h) x l u m"
  by (auto simp: approved_in_def)

text \<open>Every vote stored for a hash was cast with the metadata the ballot is locked to.\<close>

lemma history_version_votes:
  assumes "dao_history tee h d"
  shows "vault_version_votes d (ApproveVersion x) = Some vs \<Longrightarrow> v \<in> set vs \<Longrightarrow>
    vault_version_approval_args d x = Some a \<Longrightarrow> approved_in h x (aa_label a) (aa_audit_url a) v"
  using assms
proof (induction arbitrary: vs v a rule: dao_history.induct)
  case (deploy cx owner init_account members mpc d)
  then show ?case by (auto simp: new_dao_def run_simps)
next
  case (call h d c cx t es)
  have ok: "versions_ok d" using history_ok [OF call.hyps(1)] by (simp add: dao_ok_def)
  show ?case
  proof (cases "\<exists>l u. c = ApproveVaultVersion x l u")
    case False
    have "vault_version_votes t (ApproveVersion x) = vault_version_votes d (ApproveVersion x) \<and>
        vault_version_approval_args t x = vault_version_approval_args d x"
      using versions_frame [OF call.hyps(2)] False call.hyps(2)
      by (auto simp: deprecate_vault_version_def assert_dao_member_def run_simps
          elim!: approve_version_run revoke_version_run)
    with call.IH call.prems show ?thesis by (metis approved_in_Cons)
  next
    case True
    then obtain l u where c: "c = ApproveVaultVersion x l u" by auto
    with call.hyps(2) have "approve_vault_version cx x l u d = Inr (t, es)" by simp
    then show ?thesis
    proof (cases rule: approve_version_run)
      case vote
      with call.prems have a: "a = \<lparr>aa_label = l, aa_audit_url = u\<rparr>"
        and v: "v \<in> set (version_voters cx (ApproveVersion x) d)" by auto
      from v consider "v = predecessor cx" | ws where "vault_version_votes d (ApproveVersion x) = Some ws" "v \<in> set ws"
        by (auto simp: version_voters_ok(3) [OF ok])
      then show ?thesis
      proof cases
        case 1
        with a c vote(1) show ?thesis by (auto simp: approved_in_def)
      next
        case 2
        with ok vote(2) have "vault_version_approval_args d x = Some a"
          by (auto simp: versions_ok_def a)
        from call.IH [OF 2 this] show ?thesis by (rule approved_in_Cons)
      qed
    next
      case quorum
      with call.prems show ?thesis by simp
    qed
  qed
qed

lemma version_quorum:
  assumes "versions_ok d" "predecessor cx |\<in>| dao_members d"
    and "approval_threshold d \<le> as_u32 (length (version_voters cx a d))"
  shows "quorum_of d (set (version_voters cx a d))"
proof -
  have "as_u32 (length (version_voters cx a d)) \<le> card (set (version_voters cx a d))"
    by (simp add: as_u32_def distinct_card [OF version_voters_ok(2) [OF assms(1)]])
  with assms(2,3) show ?thesis
    by (auto simp: quorum_of_def version_voters_ok(3) [OF assms(1)])
qed

text \<open>The call that whitelists a hash, and the calls that leave its entry as it was.\<close>

lemma version_whitelisted:
  assumes "dao_history tee h d" "approve_vault_version cx x l u d = Inr (t, es)"
    and full: "approval_threshold d \<le> as_u32 (length (version_voters cx (ApproveVersion x) d))"
  obtains i where "vault_versions t x = Some i" "vv_label i = l" "vv_audit_url i = u"
    "quorum_of d (set (version_voters cx (ApproveVersion x) d))"
    "\<And>m. m \<in> set (version_voters cx (ApproveVersion x) d) \<Longrightarrow>
       approved_in ((cx, ApproveVaultVersion x l u, d) # h) x l u m"
proof -
  have ok: "versions_ok d" using history_ok [OF assms(1)] by (simp add: dao_ok_def)
  from assms(2) have member: "predecessor cx |\<in>| dao_members d"
    and args: "vault_version_approval_args d x \<in> {None, Some \<lparr>aa_label = l, aa_audit_url = u\<rparr>}"
    by (auto elim: approve_version_run)
  have info: "vault_versions t x = Some \<lparr>vv_label = l, vv_audit_url = u, vv_deprecated = False,
      vv_approved_at = block_timestamp cx\<rparr>"
    using assms(2) full by (auto elim!: approve_version_run)
  have "approved_in ((cx, ApproveVaultVersion x l u, d) # h) x l u m"
    if m: "m \<in> set (version_voters cx (ApproveVersion x) d)" for m
  proof (cases "m = predecessor cx")
    case True
    with member show ?thesis by (auto simp: approved_in_def)
  next
    case False
    with m obtain vs where vs: "vault_version_votes d (ApproveVersion x) = Some vs" "m \<in> set vs"
      by (auto simp: version_voters_ok(3) [OF ok])
    with ok args have "vault_version_approval_args d x = Some \<lparr>aa_label = l, aa_audit_url = u\<rparr>"
      by (auto simp: versions_ok_def)
    from approved_in_Cons [OF history_version_votes [OF assms(1) vs this]] show ?thesis by simp
  qed
  with that [OF info] version_quorum [OF ok member full] show thesis by simp
qed

lemma version_kept:
  assumes "run_dao_call tee c cx d = Inr (t, es)"
    and "\<nexists>l u. c = ApproveVaultVersion x l u \<and>
      approval_threshold d \<le> as_u32 (length (version_voters cx (ApproveVersion x) d))"
    and "vault_versions t x = Some i" "x |\<in>| approved_vault_code_hashes t"
  obtains j where "vault_versions d x = Some j" "is_vault_code_approved x d"
    "vv_label j = vv_label i" "vv_audit_url j = vv_audit_url i"
  using versions_frame [OF assms(1)] assms
  by (auto simp: is_vault_code_approved_def deprecate_vault_version_def assert_dao_member_def run_simps
      elim!: approve_version_run revoke_version_run split: if_splits)

text \<open>
  C8. Vault code is trusted only by a quorum on the code and on its description. In every state a
  history leads to, a whitelisted hash has its metadata, and a set of members, at least the threshold
  and more than half of the members at the moment it was whitelisted, each called
  \<open>approve_vault_version\<close> on that hash with exactly that label and that audit link while a member.
\<close>

theorem vault_code_needs_quorum:
  assumes "dao_history tee h d" "is_vault_code_approved x d"
  shows "\<exists>info cx e Q. vault_versions d x = Some info \<and>
    (cx, ApproveVaultVersion x (vv_label info) (vv_audit_url info), e) \<in> set h \<and> quorum_of e Q \<and>
    (fcard (dao_members e) < 2 ^ 32 \<longrightarrow> fcard (dao_members e) < 2 * card Q) \<and>
    (\<forall>m\<in>Q. approved_in h x (vv_label info) (vv_audit_url info) m)"
  using assms
proof (induction rule: dao_history.induct)
  case (deploy cx owner init_account members mpc d)
  then show ?case by (auto simp: new_dao_def is_vault_code_approved_def run_simps)
next
  case (call h d c cx t es)
  have ok: "members_ok d" using history_ok [OF call.hyps(1)] by (simp add: dao_ok_def)
  show ?case
  proof (cases "\<exists>l u. c = ApproveVaultVersion x l u \<and>
      approval_threshold d \<le> as_u32 (length (version_voters cx (ApproveVersion x) d))")
    case True
    then obtain l u where c: "c = ApproveVaultVersion x l u"
      and full: "approval_threshold d \<le> as_u32 (length (version_voters cx (ApproveVersion x) d))" by auto
    with call.hyps(2) have "approve_vault_version cx x l u d = Inr (t, es)" by simp
    from version_whitelisted [OF call.hyps(1) this full] c quorum_majority [OF ok]
    show ?thesis by (metis (no_types, lifting) list.set_intros(1))
  next
    case False
    have "versions_ok t"
      using history_ok [OF dao_history.call [OF call.hyps(1,2)]] by (simp add: dao_ok_def)
    with call.prems obtain i where i: "vault_versions t x = Some i" "x |\<in>| approved_vault_code_hashes t"
      by (auto simp: versions_ok_def is_vault_code_approved_def)
    from version_kept [OF call.hyps(2) False i] obtain j where "vault_versions d x = Some j"
        "is_vault_code_approved x d" "vv_label j = vv_label i" "vv_audit_url j = vv_audit_url i" by blast
    with call.IH i(1) show ?thesis by (fastforce intro: approved_in_Cons)
  qed
qed

section \<open>Revocation\<close>

lemma revocation_drops:
  assumes "internal_vote_revoke cx i b d = Inr (t, es)"
    and "pk |\<in>| approved_keystores d" "pk |\<notin>| approved_keystores t"
  obtains r q where "revoke_proposals d i = Some r" "revoke_proposals t i = Some q" "rp_status q = Executed"
    "rp_public_keys q = rp_public_keys r" "pk \<in> set (rp_public_keys q)" "DeleteKeystoreKey pk \<in> set es"
    "quorum_of d {m. m |\<in>| dao_members d \<and> votes t (i, m) = Some True}"
  using assms(1)
proof (cases rule: internal_vote_revoke_run)
  case (1 p q v)
  from assms(2,3) have v: "v = Executed" "pk \<in> set (rp_public_keys p)"
    by (auto simp: 1(6) fset_of_list_elem split: if_splits)
  with 1(1) have "quorum_of t {m. m |\<in>| dao_members t \<and> votes t (i, m) = Some True}"
    by (intro live_quorum) (simp add: verdict_def split: if_splits)
  then have "quorum_of d {m. m |\<in>| dao_members d \<and> votes t (i, m) = Some True}"
    using rules_eqD(1,2) [OF internal_vote_revoke_rules [OF assms(1)]] by (simp add: quorum_of_def)
  moreover have "DeleteKeystoreKey pk \<in> set es" using 1(7) v assms(2) by simp
  moreover have "revoke_proposals t i = Some q" "rp_status q = Executed" "rp_public_keys q = rp_public_keys p"
    by (simp_all add: 1(5,6) v)
  ultimately show thesis using that 1(2) v by simp
qed

text \<open>
  A keystore key leaves the approved set by a revocation ballot only: the call that drops it is a
  vote on, or the filing of, a revocation that names it; a quorum of the members voted for that
  revocation, and the account's access key is deleted with it.
\<close>

theorem keystore_key_revoked_by_quorum:
  assumes "run_dao_call tee c cx d = Inr (t, es)"
    and "pk |\<in>| approved_keystores d" "pk |\<notin>| approved_keystores t"
  shows "\<exists>i b r. c \<in> {Vote i b, ProposeRevoke (rp_public_keys r)} \<and>
    revoke_proposals t i = Some r \<and> rp_status r = Executed \<and> pk \<in> set (rp_public_keys r) \<and>
    DeleteKeystoreKey pk \<in> set es \<and> predecessor cx |\<in>| dao_members d \<and>
    quorum_of d {m. m |\<in>| dao_members d \<and> votes t (i, m) = Some True}"
proof (cases c)
  case (SubmitRegistration key quote)
  with assms show ?thesis by (auto elim!: submit_run)
next
  case (Vote i b)
  with assms(1) have "vote cx i b d = Inr (t, es)" by simp
  then show ?thesis
  proof (cases rule: vote_run)
    case revocation
    from revocation_drops [OF revocation(3) assms(2,3)] obtain r where
        "revoke_proposals t i = Some r" "rp_status r = Executed" "pk \<in> set (rp_public_keys r)"
        "DeleteKeystoreKey pk \<in> set es" "quorum_of d {m. m |\<in>| dao_members d \<and> votes t (i, m) = Some True}"
      by metis
    with revocation(1) Vote show ?thesis by (intro exI [of _ i] exI [of _ b] exI [of _ r]) simp
  next
    case registration
    from registration(3) have "pk |\<in>| approved_keystores t"
    proof (cases rule: vote_registration_run)
      case (1 p q v)
      with assms(2) show ?thesis by (simp add: 1(6))
    qed
    with assms(3) show ?thesis by simp
  qed
next
  case (ProposeRevoke pks)
  let ?f = "filed_revocation cx pks d"
  from ProposeRevoke assms(1) obtain fs where member: "predecessor cx |\<in>| dao_members d"
    and run: "internal_vote_revoke cx (next_proposal_id d) True ?f = Inr (t, fs)"
    and es: "es = fs @ [ReturnNumber (next_proposal_id d)]" by (auto elim!: propose_run)
  have f: "pk |\<in>| approved_keystores ?f" "dao_members ?f = dao_members d"
      "approval_threshold ?f = approval_threshold d"
      "revoke_proposals ?f (next_proposal_id d) = Some (new_revocation cx pks d)"
    using assms(2) by (simp_all add: filed_revocation_def)
  from revocation_drops [OF run f(1) assms(3)] f(4) obtain r where
      "revoke_proposals t (next_proposal_id d) = Some r" "rp_status r = Executed" "pk \<in> set (rp_public_keys r)"
      "DeleteKeystoreKey pk \<in> set fs" "rp_public_keys r = pks"
      "quorum_of ?f {m. m |\<in>| dao_members ?f \<and> votes t (next_proposal_id d, m) = Some True}"
    by (metis new_revocation_fields(2) option.inject)
  with member ProposeRevoke es show ?thesis
    by (intro exI [of _ "next_proposal_id d"] exI [of _ True] exI [of _ r]) (simp add: quorum_of_def f(2,3))
qed (use assms(2,3) plain_call_frame(5) [OF assms(1)] in simp_all)

text \<open>
  A revoked key can come back. A comment on the execution of revocations says it never does; but a
  second registration ballot for the same key, filed before the revocation, is left pending by it,
  and the vote that carries that ballot installs the key again without a new quote.
\<close>

theorem revoked_key_returns:
  assumes "vote cx i b d = Inr (t, es)" "pk |\<in>| approved_keystores d" "pk |\<notin>| approved_keystores t"
    and "proposals d j = Some p" "kp_status p = Pending" "kp_public_key p = pk"
    and "vote cx' j b' t = Inr (u, fs)" "revoke_proposals t j = None"
    and "approval_threshold t \<le> live_votes j True u"
  shows "proposals t j = Some p \<and> pk |\<in>| approved_keystores u \<and> fs = [AddKeystoreKey pk]"
proof -
  have kept: "proposals t j = Some p"
    using assms(1)
  proof (cases rule: vote_run)
    case revocation
    from revocation(3) show ?thesis
      by (cases rule: internal_vote_revoke_run) (use assms(4) in simp)
  next
    case registration
    from registration(3) have "pk |\<in>| approved_keystores t"
    proof (cases rule: vote_registration_run)
      case (1 p q v)
      with assms(2) show ?thesis by (simp add: 1(6))
    qed
    with assms(3) show ?thesis by simp
  qed
  have run: "vote_registration cx' j b' t = Inr (u, fs)"
    using assms(7,8) by (auto elim: vote_run)
  then show ?thesis
  proof (cases rule: vote_registration_run)
    case (1 q r v)
    have "approval_threshold u = approval_threshold t"
      by (rule rules_eqD(2) [OF vote_registration_rules [OF run]])
    with 1(1) assms(9) have "v = Executed" by (simp add: verdict_def)
    with 1(2,7) kept assms(6) show ?thesis by (simp add: 1(6))
  qed
qed

text \<open>
  Naming a member more than once at deployment can stop the DAO. The threshold is computed from the
  length of the list given, the members are a set: when the distinct members are at most half of the
  list, no vote on any ballot returns, whatever it is, because the spare votes underflow.
\<close>

theorem repeated_members_block_votes:
  assumes "new_dao cx owner init_account members mpc = Inr d" "length members < 2 ^ 32"
    and "card (set members) \<le> length members div 2"
    and "dao_members e = dao_members d" "approval_threshold e = approval_threshold d"
  shows "vote cx' i b e \<noteq> Inr (t, es)"
proof
  assume "vote cx' i b e = Inr (t, es)"
  note same = rules_eqD(1,2) [OF vote_rules [OF this]] and room = vote_room [OF this]
  from assms(1) have "dao_members e = fset_of_list members" "approval_threshold e = as_u32 (length members) div 2 + 1"
    by (auto simp: assms(4,5) new_dao_def run_simps)
  with assms(2,3) have few: "fcard (dao_members e) < approval_threshold e" "fcard (dao_members e) < 2 ^ 32"
    by (simp_all add: fcard.rep_eq fset_of_list.rep_eq as_u32_def)
  moreover have "live_votes i True t \<le> fcard (dao_members e)"
    using members_split [of i t] by (simp add: same)
  ultimately show False
    using room by (auto simp: verdict_def same as_u32_def split: if_splits)
qed

text \<open>
  The DAO's records stay consistent: in every state a history leads to, an id names at most one
  ballot and is below the counter, stored tallies equal the votes stored, no ballot is left in the
  transient status \<open>Approved\<close>, every approved key has its executed registration, the lists of
  measurements and collaterals are well formed, there is a member and the threshold is more than
  half of them, and the whitelist, its metadata, its votes and its locked arguments agree.
\<close>

theorem dao_states_are_sound:
  assumes "dao_history tee h d"
  shows "ids_ok d \<and> registration.counted d \<and> revocation.counted d \<and> keys_ok d \<and> lists_ok d \<and>
    members_ok d \<and> versions_ok d"
  using history_ok [OF assms] by (simp add: dao_ok_def ballots_ok_def)

section \<open>A DAO at work\<close>

text \<open>
  Three members, one of whom is named at deployment once, a library that accepts a quote whose bytes
  are the key, and the calls that register a keystore, whitelist code and revoke the key again.
\<close>

definition zeros :: string where "zeros = replicate 96 (CHR ''0'')"

definition demo_tee :: tee_libs where
  "demo_tee =
     \<lparr>lib_hex_decode = Some, lib_hex_encode = id, lib_sha256 = id, lib_json = (\<lambda>s. Some (\<lambda>k. Some [])),
      lib_quote_fmspc = (\<lambda>q. Some (Some ''20a06f000000'')),
      lib_verify_quote = (\<lambda>q c now. Some \<lparr>tcb_status = ''UpToDate'', advisory_ids = [],
        as_td10 = Some \<lparr>mr_td = zeros, rt_mr0 = zeros, rt_mr1 = zeros, rt_mr2 = zeros, rt_mr3 = zeros,
                       report_data = q\<rparr>\<rparr>),
      lib_parse_key = (\<lambda>s. None)\<rparr>"

definition demo_key :: curve_key where "demo_key = \<lparr>key_curve = ED25519, key_data = ''key''\<rparr>"

definition demo_measurements :: measurements where
  "demo_measurements = \<lparr>mrtd = zeros, rtmr0 = zeros, rtmr1 = zeros, rtmr2 = zeros, rtmr3 = zeros\<rparr>"

definition demo_dao :: dao where
  "demo_dao =
     (case new_dao (call_by ''o'' 0) ''o'' ''init'' [''a'', ''b'', ''c''] ''mpc'' of Inr d \<Rightarrow> d)"

fun replay :: "tee_libs \<Rightarrow> (account \<times> dao_call) list \<Rightarrow> dao_event list \<times> dao \<Rightarrow> (dao_event list \<times> dao) option" where
  "replay tee [] st = Some st"
| "replay tee ((who, c) # cs) (h, d) =
     (case run_dao_call tee c (call_by who 0) d of
        Inl _ \<Rightarrow> None | Inr (t, es) \<Rightarrow> replay tee cs ((call_by who 0, c, d) # h, t))"

lemma replay_history: "replay tee cs (h, d) = Some (h', d') \<Longrightarrow> dao_history tee h d \<Longrightarrow> dao_history tee h' d'"
proof (induction cs arbitrary: h d)
  case (Cons x cs)
  obtain who c where x: "x = (who, c)" by force
  with Cons.prems(1) obtain t es where run: "run_dao_call tee c (call_by who 0) d = Inr (t, es)"
    and rest: "replay tee cs ((call_by who 0, c, d) # h, t) = Some (h', d')"
    by (auto split: sum.splits)
  show ?case by (rule Cons.IH [OF rest dao_history.call [OF Cons.prems(2) run]])
qed simp

definition registering :: "(account \<times> dao_call) list" where
  "registering =
     [(''o'', AddMeasurements demo_measurements None), (''o'', UpdateCollateral ''fmspc:20a06f000000'' 0),
      (''init'', SubmitRegistration demo_key ''key''), (''a'', Vote 1 True), (''b'', Vote 1 True)]"

lemma zeros_valid: "validate_measurement_field zeros"
  by (simp add: zeros_def validate_measurement_field_def list_all_iff is_ascii_hexdigit_def)

lemma demo_dao_history: "dao_history demo_tee [] demo_dao"
  by (rule dao_history.deploy [of "call_by ''o'' 0" "''o''" "''init''" "[''a'', ''b'', ''c'']" "''mpc''"])
    (simp_all add: demo_dao_def new_dao_def eval_simps)

lemma ffilter_finsert: "ffilter P (finsert x A) = (if P x then finsert x (ffilter P A) else ffilter P A)"
  by auto

lemma fcard_none: "fcard {||} = 0"
  by (simp add: fcard.rep_eq)

lemma ffilter_none: "ffilter P {||} = {||}"
  by auto

lemmas dao_eval = ffilter_none ffilter_finsert fcard_none fcard_finsert_if plain_call_defs submit_keystore_registration_def vote_def vote_registration_def
  internal_execute_proposal_def internal_vote_revoke_def internal_execute_revoke_def
  propose_revoke_keystore_keys_def eval_simps Let_def live_votes_def as_u32_def new_dao_def
  verify_tdx_quote_def try_from_json_def get_str_def get_hex_def expected_binding_def
  MAX_COLLATERALS_def MAX_REVOKE_BATCH_def SECOND_def version_voters_def

lemma demo_collateral: "select_collateral ''20a06f000000'' [''fmspc:20a06f000000''] = Some ''fmspc:20a06f000000''"
  by (simp add: select_collateral_def collateral_fmspc_def starts_with_def is_ascii_hexdigit_def)

lemmas demo_eval = dao_eval registering_def demo_dao_def demo_tee_def demo_measurements_def
  validate_measurements_def zeros_valid demo_collateral demo_key_def is_vault_code_approved_def

lemma demo_replay: "replay demo_tee cs ([], demo_dao) = Some (h, d) \<Longrightarrow> dao_history demo_tee h d"
  by (rule replay_history [OF _ demo_dao_history])

lemma demo_registers: "\<exists>h d. replay demo_tee registering ([], demo_dao) = Some (h, d) \<and>
    demo_key |\<in>| approved_keystores d"
  by (simp add: demo_eval)

theorem keystore_key_attested_and_voted_witness:
  "\<exists>h d. dao_history demo_tee h d \<and> demo_key |\<in>| approved_keystores d \<and>
    (\<exists>i cx b e Q. (cx, Vote i b, e) \<in> set h \<and> attested_in demo_tee h i demo_key \<and> quorum_of e Q \<and>
      (fcard (dao_members e) < 2 ^ 32 \<longrightarrow> fcard (dao_members e) < 2 * card Q) \<and>
      (\<forall>m\<in>Q. voted_in h i True m))"
proof -
  from demo_registers obtain h d where r: "replay demo_tee registering ([], demo_dao) = Some (h, d)"
    and k: "demo_key |\<in>| approved_keystores d" by blast
  from demo_replay [OF r] k keystore_key_attested_and_voted [OF demo_replay [OF r] k] show ?thesis by blast
qed

theorem dao_states_are_sound_witness:
  "\<exists>h d. dao_history demo_tee h d \<and> demo_key |\<in>| approved_keystores d \<and> keys_ok d \<and> members_ok d"
proof -
  from demo_registers obtain h d where r: "replay demo_tee registering ([], demo_dao) = Some (h, d)"
    and k: "demo_key |\<in>| approved_keystores d" by blast
  from demo_replay [OF r] k dao_states_are_sound [OF demo_replay [OF r]] show ?thesis by blast
qed

theorem vote_decides_witness:
  "\<exists>h d t es. dao_history demo_tee h d \<and> vote (call_by ''b'' 0) 1 True d = Inr (t, es) \<and>
    fcard (dao_members d) < 2 ^ 32 \<and> ballot_status d 1 = Some Pending \<and>
    ballot_status t 1 = Some
      (if approval_threshold d \<le> live_votes 1 True t then Executed
       else if live_votes 1 True t + undecided 1 t < approval_threshold d then Rejected else Pending)"
proof -
  have "\<exists>h d t es. replay demo_tee (take 4 registering) ([], demo_dao) = Some (h, d) \<and>
      vote (call_by ''b'' 0) 1 True d = Inr (t, es) \<and> fcard (dao_members d) < 2 ^ 32"
    by (simp add: demo_eval)
  then obtain h d t es where r: "replay demo_tee (take 4 registering) ([], demo_dao) = Some (h, d)"
    and v: "vote (call_by ''b'' 0) 1 True d = Inr (t, es)" "fcard (dao_members d) < 2 ^ 32" by blast
  from demo_replay [OF r] v vote_decides [OF demo_replay [OF r] v] show ?thesis by blast
qed

theorem vault_code_needs_quorum_witness:
  "\<exists>h d. dao_history demo_tee h d \<and> is_vault_code_approved ''x'' d \<and>
    (\<exists>info cx e Q. vault_versions d ''x'' = Some info \<and>
      (cx, ApproveVaultVersion ''x'' (vv_label info) (vv_audit_url info), e) \<in> set h \<and> quorum_of e Q \<and>
      (fcard (dao_members e) < 2 ^ 32 \<longrightarrow> fcard (dao_members e) < 2 * card Q) \<and>
      (\<forall>m\<in>Q. approved_in h ''x'' (vv_label info) (vv_audit_url info) m))"
proof -
  let ?cs = "[(''a'', ApproveVaultVersion ''x'' ''v1'' None), (''c'', ApproveVaultVersion ''x'' ''v1'' None)]"
  have "\<exists>h d. replay demo_tee ?cs ([], demo_dao) = Some (h, d) \<and> is_vault_code_approved ''x'' d"
    by (simp add: demo_eval)
  then obtain h d where r: "replay demo_tee ?cs ([], demo_dao) = Some (h, d)"
    and k: "is_vault_code_approved ''x'' d" by blast
  from demo_replay [OF r] k vault_code_needs_quorum [OF demo_replay [OF r] k] show ?thesis by blast
qed

theorem keystore_key_revoked_by_quorum_witness:
  "\<exists>d t es. run_dao_call demo_tee (Vote 2 True) (call_by ''b'' 0) d = Inr (t, es) \<and>
    demo_key |\<in>| approved_keystores d \<and> demo_key |\<notin>| approved_keystores t \<and>
    (\<exists>i b r. Vote 2 True \<in> {Vote i b, ProposeRevoke (rp_public_keys r)} \<and>
      revoke_proposals t i = Some r \<and> rp_status r = Executed \<and> demo_key \<in> set (rp_public_keys r) \<and>
      DeleteKeystoreKey demo_key \<in> set es \<and> predecessor (call_by ''b'' 0) |\<in>| dao_members d \<and>
      quorum_of d {m. m |\<in>| dao_members d \<and> votes t (i, m) = Some True})"
proof -
  have "\<exists>h d t es. replay demo_tee (registering @ [(''a'', ProposeRevoke [demo_key])]) ([], demo_dao) = Some (h, d) \<and>
      run_dao_call demo_tee (Vote 2 True) (call_by ''b'' 0) d = Inr (t, es) \<and>
      demo_key |\<in>| approved_keystores d \<and> demo_key |\<notin>| approved_keystores t"
    by (simp add: demo_eval)
  then obtain d t es where r: "run_dao_call demo_tee (Vote 2 True) (call_by ''b'' 0) d = Inr (t, es)"
    "demo_key |\<in>| approved_keystores d" "demo_key |\<notin>| approved_keystores t" by blast
  from r keystore_key_revoked_by_quorum [OF r] show ?thesis by blast
qed

definition twice_registered :: "(account \<times> dao_call) list" where
  "twice_registered = take 3 registering @ [(''init'', SubmitRegistration demo_key ''key''),
     (''a'', Vote 1 True), (''b'', Vote 1 True), (''a'', Vote 2 True), (''a'', ProposeRevoke [demo_key])]"

theorem revoked_key_returns_witness:
  "\<exists>d t u es fs. vote (call_by ''b'' 0) 3 True d = Inr (t, es) \<and> demo_key |\<notin>| approved_keystores t \<and>
    vote (call_by ''b'' 0) 2 True t = Inr (u, fs) \<and> demo_key |\<in>| approved_keystores u \<and>
    fs = [AddKeystoreKey demo_key]"
proof -
  have "\<exists>h d t u es fs p. replay demo_tee twice_registered ([], demo_dao) = Some (h, d) \<and>
      vote (call_by ''b'' 0) 3 True d = Inr (t, es) \<and> demo_key |\<in>| approved_keystores d \<and>
      demo_key |\<notin>| approved_keystores t \<and> proposals d 2 = Some p \<and> kp_status p = Pending \<and>
      kp_public_key p = demo_key \<and> vote (call_by ''b'' 0) 2 True t = Inr (u, fs) \<and>
      revoke_proposals t 2 = None \<and> approval_threshold t \<le> live_votes 2 True u"
    by (simp add: twice_registered_def demo_eval)
  then obtain d t u es fs p where r: "vote (call_by ''b'' 0) 3 True d = Inr (t, es)"
    "demo_key |\<in>| approved_keystores d" "demo_key |\<notin>| approved_keystores t" "proposals d 2 = Some p"
    "kp_status p = Pending" "kp_public_key p = demo_key" "vote (call_by ''b'' 0) 2 True t = Inr (u, fs)"
    "revoke_proposals t 2 = None" "approval_threshold t \<le> live_votes 2 True u" by blast
  from r revoked_key_returns [OF r] show ?thesis by blast
qed

theorem repeated_members_block_votes_witness:
  "\<exists>d. new_dao (call_by ''o'' 0) ''o'' ''init'' [''a'', ''a''] ''mpc'' = Inr d \<and>
    vote (call_by ''a'' 0) 1 True d \<noteq> Inr (d, [])"
proof -
  have "\<exists>d. new_dao (call_by ''o'' 0) ''o'' ''init'' [''a'', ''a''] ''mpc'' = Inr d"
    by (simp add: new_dao_def eval_simps)
  then obtain d where d: "new_dao (call_by ''o'' 0) ''o'' ''init'' [''a'', ''a''] ''mpc'' = Inr d" by blast
  from repeated_members_block_votes [OF d, of d "call_by ''a'' 0" 1 True d "[]"] d show ?thesis by simp
qed

end
