(* ===== verification/Keystore_Masters.thy ===== *)
theory Keystore_Masters
  imports Declared_Keys Vault Keystore_Dao
begin

text \<open>
  The masters of the keystore worker (\<open>keystore-worker/src/crypto.rs\<close>) and the gate before a vault's
  master (\<open>mpc_ckd.rs\<close>): the default master, a master per vault, the cache of signing keys, every
  derivation, the encryption of secrets in its two formats, and the loading of a vault's master after
  the DAO and the vault were asked. HMAC, HKDF, the curves and the cipher are the record \<open>master_libs\<close>;
  random bytes are arguments; a vault's master as the MPC network gives it is a function.
\<close>

section \<open>Libraries and state\<close>

record master_libs =
  ml_hmac :: "string \<Rightarrow> string \<Rightarrow> string"
  ml_ed_public :: "string \<Rightarrow> string"
  ml_ed_sign :: "string \<Rightarrow> string \<Rightarrow> string"
  ml_ed_verify :: "string \<Rightarrow> string \<Rightarrow> string \<Rightarrow> bool"
  ml_x_public :: "string \<Rightarrow> string"
  ml_x_shared :: "string \<Rightarrow> string \<Rightarrow> string"
  ml_hkdf :: "string \<Rightarrow> string \<Rightarrow> string option"
  ml_seal :: "string \<Rightarrow> string \<Rightarrow> string \<Rightarrow> string option"
  ml_open :: "string \<Rightarrow> string \<Rightarrow> string \<Rightarrow> string option"
  ml_k1_public :: "string \<Rightarrow> string option"
  ml_k1_sign :: "string \<Rightarrow> string \<Rightarrow> (string \<times> nat) option"
  ml_k1_uncompressed :: "string \<Rightarrow> string"
  ml_keccak :: "string \<Rightarrow> string"
  ml_sha256 :: "string \<Rightarrow> string"
  ml_base58 :: "string \<Rightarrow> string"
  ml_hex :: "string \<Rightarrow> string"
  ml_unhex :: "string \<Rightarrow> string option"

datatype keystore_error =
    VaultMasterNotLoaded account | InvalidMasterHex | MasterLength nat | DataTooLarge nat | DataTooShort nat
  | HkdfFailed | AeadFailed | NotAScalar | SigningFailed | ReducedX nat | InputOfOtherFamily | SignatureInvalid

type_synonym keypair = "string \<times> string"

record keystore =
  ks_default_master :: string
  ks_masters :: "account \<rightharpoonup> string"
  ks_keypair_cache :: "account option \<times> string \<rightharpoonup> keypair"

definition MAX_ENCRYPTED_SIZE :: nat where "MAX_ENCRYPTED_SIZE = 10 * 1024 * 1024"
definition HKDF_INFO :: string where "HKDF_INFO = ''outlayer-keystore-v1''"
definition ECIES_VERSION :: char where "ECIES_VERSION = CHR 0x01"

definition from_master_secret :: "string \<Rightarrow> keystore" where
  "from_master_secret m = \<lparr>ks_default_master = m, ks_masters = Map.empty, ks_keypair_cache = Map.empty\<rparr>"

definition from_master_secret_hex :: "master_libs \<Rightarrow> string \<Rightarrow> keystore_error + keystore" where
  "from_master_secret_hex lib h =
     (case ml_unhex lib h of
        None \<Rightarrow> Inl InvalidMasterHex
      | Some b \<Rightarrow> (if length b \<noteq> 32 then Inl (MasterLength (length b)) else Inr (from_master_secret b)))"

section \<open>Masters of vaults\<close>

definition evict_customer_cache :: "account \<Rightarrow> keystore \<Rightarrow> keystore" where
  "evict_customer_cache customer k =
     k\<lparr>ks_keypair_cache := (\<lambda>e. if fst e = Some customer then None else ks_keypair_cache k e)\<rparr>"

definition insert_master :: "account \<Rightarrow> string \<Rightarrow> keystore \<Rightarrow> keystore" where
  "insert_master customer m k = k\<lparr>ks_masters := (ks_masters k)(customer \<mapsto> m)\<rparr>"

definition remove_master :: "account \<Rightarrow> keystore \<Rightarrow> keystore" where
  "remove_master customer k = k\<lparr>ks_masters := (ks_masters k)(customer := None)\<rparr>"

definition add_customer :: "account \<Rightarrow> string \<Rightarrow> keystore \<Rightarrow> keystore" where
  "add_customer customer m k = evict_customer_cache customer (insert_master customer m k)"

definition evict_customer :: "account \<Rightarrow> keystore \<Rightarrow> keystore" where
  "evict_customer customer k = evict_customer_cache customer (remove_master customer k)"

definition has_customer :: "account \<Rightarrow> keystore \<Rightarrow> bool" where
  "has_customer customer k \<longleftrightarrow> ks_masters k customer \<noteq> None"

definition master_for :: "keystore \<Rightarrow> account option \<Rightarrow> keystore_error + string" where
  "master_for k customer =
     (case customer of
        None \<Rightarrow> Inr (ks_default_master k)
      | Some c \<Rightarrow> (case ks_masters k c of None \<Rightarrow> Inl (VaultMasterNotLoaded c) | Some m \<Rightarrow> Inr m))"

definition clear_cache :: "keystore \<Rightarrow> keystore" where
  "clear_cache k = k\<lparr>ks_keypair_cache := Map.empty\<rparr>"

section \<open>Derivations\<close>

definition keypair_of :: "master_libs \<Rightarrow> string \<Rightarrow> string \<Rightarrow> keypair" where
  "keypair_of lib master seed = (let secret = ml_hmac lib master seed in (secret, ml_ed_public lib secret))"

text \<open>The part of \<open>derive_keypair\<close> after a cache miss: lookup of the master and insertion into the cache,
  both under the guard on the masters.\<close>

definition derive_and_cache :: "master_libs \<Rightarrow> account option \<Rightarrow> string \<Rightarrow> keystore \<Rightarrow> (keystore_error + keypair) \<times> keystore" where
  "derive_and_cache lib customer seed k =
     (case master_for k customer of
        Inl e \<Rightarrow> (Inl e, k)
      | Inr m \<Rightarrow>
          (let kp = keypair_of lib m seed in
           (Inr kp, k\<lparr>ks_keypair_cache := (ks_keypair_cache k)((customer, seed) \<mapsto> kp)\<rparr>)))"

definition derive_keypair :: "master_libs \<Rightarrow> account option \<Rightarrow> string \<Rightarrow> keystore \<Rightarrow> (keystore_error + keypair) \<times> keystore" where
  "derive_keypair lib customer seed k =
     (case ks_keypair_cache k (customer, seed) of
        Some kp \<Rightarrow> (Inr kp, k)
      | None \<Rightarrow> derive_and_cache lib customer seed k)"

definition get_public_key_for_seed :: "master_libs \<Rightarrow> account option \<Rightarrow> string \<Rightarrow> keystore \<Rightarrow> (keystore_error + string) \<times> keystore" where
  "get_public_key_for_seed lib customer seed k = map_prod (map_sum id snd) id (derive_keypair lib customer seed k)"

definition public_key_base58 :: "master_libs \<Rightarrow> account option \<Rightarrow> string \<Rightarrow> keystore \<Rightarrow> (keystore_error + string) \<times> keystore" where
  "public_key_base58 lib customer seed k = map_prod (map_sum id (ml_base58 lib)) id (get_public_key_for_seed lib customer seed k)"

definition derive_x25519_keypair :: "master_libs \<Rightarrow> keystore \<Rightarrow> account option \<Rightarrow> string \<Rightarrow> keystore_error + keypair" where
  "derive_x25519_keypair lib k customer seed =
     map_sum id (\<lambda>m. let secret = ml_hmac lib m (''ecies:'' @ seed) in (secret, ml_x_public lib secret)) (master_for k customer)"

definition derive_secret_string :: "master_libs \<Rightarrow> keystore \<Rightarrow> account option \<Rightarrow> string \<Rightarrow> keystore_error + string" where
  "derive_secret_string lib k customer seed =
     map_sum id (\<lambda>m. ml_hex lib (ml_hmac lib m (''secret-path:'' @ seed))) (master_for k customer)"

definition derive_declared_key :: "master_libs \<Rightarrow> keystore \<Rightarrow> account option \<Rightarrow> derivation_input \<Rightarrow> keystore_error + string" where
  "derive_declared_key lib k vault input = map_sum id (\<lambda>m. ml_hmac lib m (di_text input)) (master_for k vault)"

definition derive_signing_key_seed :: "master_libs \<Rightarrow> keystore \<Rightarrow> account option \<Rightarrow> derivation_input \<Rightarrow> keystore_error + string" where
  "derive_signing_key_seed lib k vault input =
     (if di_family input \<noteq> SigningFamily then Inl InputOfOtherFamily else derive_declared_key lib k vault input)"

definition derive_encryption_key :: "master_libs \<Rightarrow> keystore \<Rightarrow> account option \<Rightarrow> derivation_input \<Rightarrow> keystore_error + string" where
  "derive_encryption_key lib k vault input =
     (if di_family input \<noteq> EncryptionFamily then Inl InputOfOtherFamily else derive_declared_key lib k vault input)"

definition derive_task_key :: "master_libs \<Rightarrow> keystore \<Rightarrow> string \<Rightarrow> account option \<Rightarrow> keystore_error + string" where
  "derive_task_key lib k input vault = map_sum id (\<lambda>m. ml_hmac lib m input) (master_for k vault)"

definition derive_secp256k1_keypair :: "master_libs \<Rightarrow> keystore \<Rightarrow> account option \<Rightarrow> string \<Rightarrow> keystore_error + keypair" where
  "derive_secp256k1_keypair lib k customer seed =
     (case master_for k customer of
        Inl e \<Rightarrow> Inl e
      | Inr m \<Rightarrow>
          (let secret = ml_hmac lib m seed in
           case ml_k1_public lib secret of None \<Rightarrow> Inl NotAScalar | Some p \<Rightarrow> Inr (secret, p)))"

definition derive_eth_address :: "master_libs \<Rightarrow> keystore \<Rightarrow> account option \<Rightarrow> string \<Rightarrow> keystore_error + string \<times> string" where
  "derive_eth_address lib k customer seed =
     map_sum id (\<lambda>kp. (''0x'' @ ml_hex lib (drop 12 (ml_keccak lib (drop 1 (ml_k1_uncompressed lib (snd kp))))),
                       ml_hex lib (snd kp)))
       (derive_secp256k1_keypair lib k customer seed)"

text \<open>The signature \<open>r\<parallel>s\<parallel>v\<close> with \<open>v\<close> 27 or 28.\<close>

definition sign_secp256k1_prehash ::
  "master_libs \<Rightarrow> keystore \<Rightarrow> account option \<Rightarrow> string \<Rightarrow> string \<Rightarrow> keystore_error + string" where
  "sign_secp256k1_prehash lib k customer seed digest =
     (case derive_secp256k1_keypair lib k customer seed of
        Inl e \<Rightarrow> Inl e
      | Inr (secret, _) \<Rightarrow>
          (case ml_k1_sign lib secret digest of
             None \<Rightarrow> Inl SigningFailed
           | Some (rs, recovery_id) \<Rightarrow>
               (if recovery_id \<ge> 2 then Inl (ReducedX recovery_id)
                else Inr (take 64 rs @ [char_of (27 + recovery_id)]))))"

definition public_key_hex :: "master_libs \<Rightarrow> keystore \<Rightarrow> account option \<Rightarrow> string \<Rightarrow> keystore_error + string" where
  "public_key_hex lib k customer seed = map_sum id (\<lambda>kp. ml_hex lib (snd kp)) (derive_x25519_keypair lib k customer seed)"

definition sign_with_seed ::
  "master_libs \<Rightarrow> account option \<Rightarrow> string \<Rightarrow> string \<Rightarrow> keystore \<Rightarrow> (keystore_error + string) \<times> keystore" where
  "sign_with_seed lib customer seed message k =
     (case derive_keypair lib customer seed k of
        (Inl e, k1) \<Rightarrow> (Inl e, k1)
      | (Inr kp, k1) \<Rightarrow> (Inr (ml_ed_sign lib (fst kp) message), k1))"

definition vrf_generate :: "master_libs \<Rightarrow> string \<Rightarrow> keystore \<Rightarrow> (keystore_error + string \<times> string) \<times> keystore" where
  "vrf_generate lib alpha k =
     (case derive_keypair lib None ''vrf-key'' k of
        (Inl e, k1) \<Rightarrow> (Inl e, k1)
      | (Inr kp, k1) \<Rightarrow>
          (let sg = ml_ed_sign lib (fst kp) alpha in (Inr (ml_hex lib (ml_sha256 lib sg), ml_hex lib sg), k1)))"

definition vrf_public_key_hex :: "master_libs \<Rightarrow> keystore \<Rightarrow> (keystore_error + string) \<times> keystore" where
  "vrf_public_key_hex lib k = map_prod (map_sum id (ml_hex lib \<circ> snd)) id (derive_keypair lib None ''vrf-key'' k)"

definition verify_with_seed ::
  "master_libs \<Rightarrow> account option \<Rightarrow> string \<Rightarrow> string \<Rightarrow> string \<Rightarrow> keystore \<Rightarrow> (keystore_error + unit) \<times> keystore" where
  "verify_with_seed lib customer seed message signature k =
     (case derive_keypair lib customer seed k of
        (Inl e, k1) \<Rightarrow> (Inl e, k1)
      | (Inr kp, k1) \<Rightarrow> ((if ml_ed_verify lib (snd kp) message signature then Inr () else Inl SignatureInvalid), k1))"

section \<open>Encryption of secrets\<close>

definition hkdf_derive_key :: "master_libs \<Rightarrow> string \<Rightarrow> keystore_error + string" where
  "hkdf_derive_key lib shared = (case ml_hkdf lib shared HKDF_INFO of None \<Rightarrow> Inl HkdfFailed | Some key \<Rightarrow> Inr key)"

definition aead_result :: "string option \<Rightarrow> keystore_error + string" where
  "aead_result r = (case r of None \<Rightarrow> Inl AeadFailed | Some x \<Rightarrow> Inr x)"

definition decrypt_ecies :: "master_libs \<Rightarrow> keystore \<Rightarrow> account option \<Rightarrow> string \<Rightarrow> string \<Rightarrow> keystore_error + string" where
  "decrypt_ecies lib k customer seed encrypted_data =
     (let ephemeral_pub = take 32 (drop 1 encrypted_data) in
      case derive_x25519_keypair lib k customer seed of
        Inl e \<Rightarrow> Inl e
      | Inr (secret, _) \<Rightarrow>
          (case hkdf_derive_key lib (ml_x_shared lib secret ephemeral_pub) of
             Inl e \<Rightarrow> Inl e
           | Inr key \<Rightarrow> aead_result (ml_open lib key (take 12 (drop 33 encrypted_data)) (drop 45 encrypted_data))))"

definition decrypt_legacy :: "master_libs \<Rightarrow> account option \<Rightarrow> string \<Rightarrow> string \<Rightarrow> keystore \<Rightarrow> (keystore_error + string) \<times> keystore" where
  "decrypt_legacy lib customer seed encrypted_data k =
     (case derive_keypair lib customer seed k of
        (Inl e, k1) \<Rightarrow> (Inl e, k1)
      | (Inr kp, k1) \<Rightarrow> (aead_result (ml_open lib (snd kp) (take 12 encrypted_data) (drop 12 encrypted_data)), k1))"

definition decrypt_secret :: "master_libs \<Rightarrow> account option \<Rightarrow> string \<Rightarrow> string \<Rightarrow> keystore \<Rightarrow> (keystore_error + string) \<times> keystore" where
  "decrypt_secret lib customer seed encrypted_data k =
     (if length encrypted_data > MAX_ENCRYPTED_SIZE then (Inl (DataTooLarge (length encrypted_data)), k)
      else if length encrypted_data < 28 then (Inl (DataTooShort (length encrypted_data)), k)
      else if hd encrypted_data = ECIES_VERSION \<and> length encrypted_data \<ge> 61 then
        (case decrypt_ecies lib k customer seed encrypted_data of
           Inr plaintext \<Rightarrow> (Inr plaintext, k)
         | Inl _ \<Rightarrow> decrypt_legacy lib customer seed encrypted_data k)
      else decrypt_legacy lib customer seed encrypted_data k)"

definition encrypt_secret ::
  "master_libs \<Rightarrow> keystore \<Rightarrow> string \<Rightarrow> string \<Rightarrow> account option \<Rightarrow> string \<Rightarrow> string \<Rightarrow> keystore_error + string" where
  "encrypt_secret lib k ephemeral nonce customer seed plaintext =
     (if length plaintext > MAX_ENCRYPTED_SIZE then Inl (DataTooLarge (length plaintext))
      else case derive_x25519_keypair lib k customer seed of
        Inl e \<Rightarrow> Inl e
      | Inr (_, recipient_pub) \<Rightarrow>
          (case hkdf_derive_key lib (ml_x_shared lib ephemeral recipient_pub) of
             Inl e \<Rightarrow> Inl e
           | Inr key \<Rightarrow>
               map_sum id (\<lambda>c. ECIES_VERSION # ml_x_public lib ephemeral @ nonce @ c) (aead_result (ml_seal lib key nonce plaintext))))"

section \<open>The gate before a vault's master\<close>

datatype gate_error =
    ReadFailed | NotABool | VaultNotVerified account | VaultGone account | VaultReadFailed account | MalformedState account
  | VaultUnlocked account | LoadFailed string | VaultUnderfunded | GateKeystoreError keystore_error
  | NoMpcContext | NoGateClient

definition json_bool :: "node_value \<Rightarrow> bool option" where
  "json_bool v = (if v = JScalar ''true'' then Some True else if v = JScalar ''false'' then Some False else None)"

text \<open>\<open>verified\<close> is the DAO's answer to \<open>is_vault_verified\<close> and \<open>state\<close> the vault's to \<open>get_state\<close>, each the
  answer or the text of the error; for a loaded vault the two are asked together.\<close>

definition assert_serving_allowed ::
  "string + node_value \<Rightarrow> string + node_value \<Rightarrow> account \<Rightarrow> keystore \<Rightarrow> (gate_error + unit) \<times> keystore" where
  "assert_serving_allowed verified state vault_id k =
     (case verified of
        Inl _ \<Rightarrow> (Inl ReadFailed, k)
      | Inr response \<Rightarrow>
          (case json_bool response of
             None \<Rightarrow> (Inl NotABool, k)
           | Some False \<Rightarrow> (Inl (VaultNotVerified vault_id), evict_customer vault_id k)
           | Some True \<Rightarrow>
               (case state of
                  Inl msg \<Rightarrow>
                    (if contains_str ''UnknownAccount'' msg \<or> contains_str ''does not exist'' msg
                     then (Inl (VaultGone vault_id), evict_customer vault_id k)
                     else (Inl (VaultReadFailed vault_id), k))
                | Inr st \<Rightarrow>
                    (case Option.bind (member_of ''unlocked'' st) json_bool of
                       None \<Rightarrow> (Inl (MalformedState vault_id), k)
                     | Some True \<Rightarrow> (Inl (VaultUnlocked vault_id), evict_customer vault_id k)
                     | Some False \<Rightarrow> (Inr (), k)))))"

definition vault_tee_keypair_seed :: "account \<Rightarrow> string" where
  "vault_tee_keypair_seed vault_id = ''outlayer.near:'' @ vault_id"

definition vault_master_path_seed :: "account \<Rightarrow> string" where
  "vault_master_path_seed vault_id = ''vault-master:'' @ vault_id"

definition derive_vault_tee_keypair :: "master_libs \<Rightarrow> account \<Rightarrow> keystore \<Rightarrow> (keystore_error + keypair) \<times> keystore" where
  "derive_vault_tee_keypair lib vault_id k =
     (case derive_keypair lib None (vault_tee_keypair_seed vault_id) k of
        (Inl e, k1) \<Rightarrow> (Inl e, k1)
      | (Inr (sk, pk), k1) \<Rightarrow> (Inr (pk, sk @ pk), k1))"

text \<open>\<open>ckd signer secret_path\<close> is the answer of the MPC network to a request signed by the vault's key.\<close>

definition load_customer ::
  "master_libs \<Rightarrow> (account \<Rightarrow> string \<Rightarrow> string \<Rightarrow> gate_error + string) \<Rightarrow> account \<Rightarrow> keystore \<Rightarrow> (gate_error + unit) \<times> keystore" where
  "load_customer lib ckd vault_id k =
     (if has_customer vault_id k then (Inr (), k)
      else case derive_vault_tee_keypair lib vault_id k of
        (Inl e, k1) \<Rightarrow> (Inl (GateKeystoreError e), k1)
      | (Inr (vault_pk, vault_sk), k1) \<Rightarrow>
          (case derive_secret_string lib k1 None (vault_master_path_seed vault_id) of
             Inl e \<Rightarrow> (Inl (GateKeystoreError e), k1)
           | Inr secret_path \<Rightarrow>
               (case ckd vault_id vault_sk secret_path of
                  Inl e \<Rightarrow> (Inl e, k1)
                | Inr m \<Rightarrow> (Inr (), add_customer vault_id m k1))))"

definition ensure_customer_loaded ::
  "master_libs \<Rightarrow> (account \<Rightarrow> string \<Rightarrow> string \<Rightarrow> gate_error + string) \<Rightarrow> (account \<Rightarrow> string + node_value)
     \<Rightarrow> (account \<Rightarrow> string + node_value) \<Rightarrow> account option \<Rightarrow> keystore \<Rightarrow> (gate_error + unit) \<times> keystore" where
  "ensure_customer_loaded lib ckd verified state customer k =
     (case customer of
        None \<Rightarrow> (Inr (), k)
      | Some vault_id \<Rightarrow>
          (case assert_serving_allowed (verified vault_id) (state vault_id) vault_id k of
             (Inl e, k1) \<Rightarrow> (Inl e, k1)
           | (Inr _, k1) \<Rightarrow> (if has_customer vault_id k1 then (Inr (), k1) else load_customer lib ckd vault_id k1)))"

section \<open>The cache under concurrent requests\<close>

text \<open>
  What other requests can see between the critical sections: a master is inserted or removed under the
  write lock of the masters, and the purge of the cache that follows takes the lock of the cache. The
  purges still to come are a multiset. A derivation after a miss holds the read lock of the masters
  until its entry is in the cache, so it is one step.
\<close>

inductive key_step :: "master_libs \<Rightarrow> keystore \<times> account multiset \<Rightarrow> keystore \<times> account multiset \<Rightarrow> bool" for lib where
  insert: "key_step lib (k, P) (insert_master c m k, add_mset c P)"
| remove: "key_step lib (k, P) (remove_master c k, add_mset c P)"
| purge: "c \<in># P \<Longrightarrow> key_step lib (k, P) (evict_customer_cache c k, P - {#c#})"
| derive: "key_step lib (k, P) (snd (derive_and_cache lib customer seed k), P)"
| clear: "key_step lib (k, P) (clear_cache k, P)"

inductive_cases key_stepE: "key_step lib (k, P) (k1, Q)"

abbreviation key_steps :: "master_libs \<Rightarrow> keystore \<times> account multiset \<Rightarrow> keystore \<times> account multiset \<Rightarrow> bool" where
  "key_steps lib \<equiv> (key_step lib)\<^sup>*\<^sup>*"

lemma add_customer_steps: "key_steps lib (k, P) (add_customer c m k, P)"
proof -
  have "key_step lib (insert_master c m k, add_mset c P)
      (evict_customer_cache c (insert_master c m k), add_mset c P - {#c#})"
    by (rule key_step.purge) simp
  with key_step.insert [of lib k P c m] show ?thesis
    unfolding add_customer_def by (metis add_mset_remove_trivial converse_rtranclp_into_rtranclp r_into_rtranclp)
qed

lemma evict_customer_steps: "key_steps lib (k, P) (evict_customer c k, P)"
proof -
  have "key_step lib (remove_master c k, add_mset c P)
      (evict_customer_cache c (remove_master c k), add_mset c P - {#c#})"
    by (rule key_step.purge) simp
  with key_step.remove [of lib k P c] show ?thesis
    unfolding evict_customer_def by (metis add_mset_remove_trivial converse_rtranclp_into_rtranclp r_into_rtranclp)
qed

lemma derive_keypair_steps: "key_steps lib (k, P) (snd (derive_keypair lib customer seed k), P)"
  by (auto simp: derive_keypair_def split: option.split intro: key_step.derive)

text \<open>Every other operation changes the keystore through these alone.\<close>

lemma derive_keypair_eq: "derive_keypair lib customer seed k = (r, k1) \<Longrightarrow> key_steps lib (k, P) (k1, P)"
  using derive_keypair_steps [of lib k P customer seed] by simp

lemma operations_are_steps:
  "key_steps lib (k, P) (snd (get_public_key_for_seed lib customer seed k), P)"
  "key_steps lib (k, P) (snd (public_key_base58 lib customer seed k), P)"
  "key_steps lib (k, P) (snd (sign_with_seed lib customer seed message k), P)"
  "key_steps lib (k, P) (snd (verify_with_seed lib customer seed message signature k), P)"
  "key_steps lib (k, P) (snd (vrf_generate lib message k), P)"
  "key_steps lib (k, P) (snd (vrf_public_key_hex lib k), P)"
  "key_steps lib (k, P) (snd (decrypt_legacy lib customer seed blob k), P)"
  "key_steps lib (k, P) (snd (derive_vault_tee_keypair lib v k), P)"
  by (auto simp: get_public_key_for_seed_def public_key_base58_def sign_with_seed_def verify_with_seed_def
      vrf_generate_def vrf_public_key_hex_def decrypt_legacy_def derive_vault_tee_keypair_def Let_def
      intro: derive_keypair_eq derive_keypair_steps split: prod.split sum.split)

lemma decrypt_steps: "key_steps lib (k, P) (snd (decrypt_secret lib customer seed blob k), P)"
  by (auto simp: decrypt_secret_def operations_are_steps split: sum.split)

lemma gate_steps:
  "key_steps lib (k, P) (snd (load_customer lib ckd v k), P)"
  "key_steps lib (k, P) (snd (assert_serving_allowed answer state v k), P)"
  using operations_are_steps(8) [of lib k P v]
  by (auto simp: load_customer_def assert_serving_allowed_def evict_customer_steps
      split: prod.split sum.split option.split bool.split intro: rtranclp_trans [OF _ add_customer_steps])

lemma ensure_steps: "key_steps lib (k, P) (snd (ensure_customer_loaded lib ckd verified state customer k), P)"
proof (cases customer)
  case (Some v)
  obtain a k0 where gate: "assert_serving_allowed (verified v) (state v) v k = (a, k0)" by fastforce
  with gate_steps(2) [of lib k P "verified v" "state v" v] have "key_steps lib (k, P) (k0, P)" by simp
  with gate gate_steps(1) [of lib k0 P ckd v] Some show ?thesis
    by (auto simp: ensure_customer_loaded_def split: sum.split intro: rtranclp_trans)
qed (simp add: ensure_customer_loaded_def)

text \<open>An entry of the cache is the pair of the master now loaded, unless a purge of its vault is still to come.\<close>

definition cache_current :: "master_libs \<Rightarrow> keystore \<times> account multiset \<Rightarrow> bool" where
  "cache_current lib z \<longleftrightarrow>
     (\<forall>customer seed kp. ks_keypair_cache (fst z) (customer, seed) = Some kp \<longrightarrow>
        customer \<in> Some ` set_mset (snd z) \<or>
        (\<exists>m. master_for (fst z) customer = Inr m \<and> kp = keypair_of lib m seed))"

lemma master_for_simps [simp]:
  "master_for (k\<lparr>ks_keypair_cache := c\<rparr>) customer = master_for k customer"
  "master_for (evict_customer_cache v k) customer = master_for k customer"
  "master_for (insert_master v m k) customer = (if customer = Some v then Inr m else master_for k customer)"
  "master_for (remove_master v k) customer =
     (if customer = Some v then Inl (VaultMasterNotLoaded v) else master_for k customer)"
  by (auto simp: master_for_def evict_customer_cache_def insert_master_def remove_master_def split: option.splits)

lemma cache_entry_simps [simp]:
  "ks_keypair_cache (insert_master v m k) = ks_keypair_cache k"
  "ks_keypair_cache (remove_master v k) = ks_keypair_cache k"
  "ks_keypair_cache (evict_customer_cache v k) e = (if fst e = Some v then None else ks_keypair_cache k e)"
  "ks_keypair_cache (clear_cache k) e = None"
  by (simp_all add: insert_master_def remove_master_def evict_customer_cache_def clear_cache_def)

lemma key_step_current: "key_step lib y z \<Longrightarrow> cache_current lib y \<Longrightarrow> cache_current lib z"
proof (induction rule: key_step.induct)
  case (purge c P k)
  have "x \<in># P - {#c#}" if "x \<in># P" "x \<noteq> c" for x
    using that by (simp add: in_diff_count)
  then have kept: "customer \<in> Some ` set_mset (P - {#c#})" if "customer \<in> Some ` set_mset P" "customer \<noteq> Some c" for customer
    using that by blast
  have "customer \<in> Some ` set_mset (P - {#c#}) \<or> (\<exists>m. master_for k customer = Inr m \<and> kp = keypair_of lib m seed)"
    if "ks_keypair_cache k (customer, seed) = Some kp" "customer \<noteq> Some c" for customer seed kp
    using purge.prems that kept unfolding cache_current_def fst_conv snd_conv by blast
  then show ?case by (simp add: cache_current_def)
next
  case (derive k P customer seed)
  then show ?case
    by (auto simp: cache_current_def derive_and_cache_def Let_def split: sum.split if_splits)
qed (auto simp: cache_current_def)

lemma key_steps_current: "key_steps lib y z \<Longrightarrow> cache_current lib y \<Longrightarrow> cache_current lib z"
  by (induction rule: rtranclp_induct) (auto dest: key_step_current)

lemma fresh_keystore_current: "cache_current lib (from_master_secret m, {#})"
  by (simp add: cache_current_def from_master_secret_def)

section \<open>Laws of the libraries\<close>

text \<open>
  What the code relies on of X25519 and ChaCha20-Poly1305: both sides agree on the shared secret, a
  public key has 32 bytes, and what was sealed is 16 bytes longer and opens again.
\<close>

definition agreement_ok :: "master_libs \<Rightarrow> bool" where
  "agreement_ok lib \<longleftrightarrow>
     (\<forall>a b. ml_x_shared lib a (ml_x_public lib b) = ml_x_shared lib b (ml_x_public lib a)) \<and>
     (\<forall>a. length (ml_x_public lib a) = 32)"

definition sealing_ok :: "master_libs \<Rightarrow> bool" where
  "sealing_ok lib \<longleftrightarrow>
     (\<forall>key nonce p c. ml_seal lib key nonce p = Some c \<longrightarrow>
        length c = length p + 16 \<and> ml_open lib key nonce c = Some p)"

lemma encrypted_blob:
  assumes enc: "encrypt_secret lib k ephemeral nonce customer seed plaintext = Inr blob" and ok: "agreement_ok lib" "sealing_ok lib"
    and nonce: "length nonce = 12"
  shows "decrypt_ecies lib k customer seed blob = Inr plaintext" and "length blob = length plaintext + 61"
    and "hd blob = ECIES_VERSION"
proof -
  from enc obtain secret recipient key c where
    keys: "derive_x25519_keypair lib k customer seed = Inr (secret, recipient)"
      "hkdf_derive_key lib (ml_x_shared lib ephemeral recipient) = Inr key" and
    c: "ml_seal lib key nonce plaintext = Some c" and
    blob: "blob = ECIES_VERSION # ml_x_public lib ephemeral @ nonce @ c"
    by (auto simp: encrypt_secret_def aead_result_def split: if_splits sum.splits option.splits)
  have recipient: "recipient = ml_x_public lib secret"
    using keys(1) by (cases "master_for k customer") (auto simp: derive_x25519_keypair_def Let_def)
  have len: "length (ml_x_public lib ephemeral) = 32" "length c = length plaintext + 16"
    using ok c by (auto simp: agreement_ok_def sealing_ok_def)
  have "ml_x_shared lib secret (ml_x_public lib ephemeral) = ml_x_shared lib ephemeral recipient"
    using ok(1) by (simp add: agreement_ok_def recipient)
  moreover have "ml_open lib key nonce c = Some plaintext" using ok(2) c by (simp add: sealing_ok_def)
  ultimately show "decrypt_ecies lib k customer seed blob = Inr plaintext"
    using keys len nonce by (simp add: decrypt_ecies_def blob aead_result_def)
  show "length blob = length plaintext + 61" "hd blob = ECIES_VERSION" using len nonce by (simp_all add: blob)
qed

section \<open>Facts of the gate\<close>

lemma evicted [simp]:
  "ks_masters (evict_customer v k) = (ks_masters k)(v := None)"
  "ks_keypair_cache (evict_customer v k) e = (if fst e = Some v then None else ks_keypair_cache k e)"
  "ks_default_master (evict_customer v k) = ks_default_master k"
  by (simp_all add: evict_customer_def remove_master_def evict_customer_cache_def)

lemma derive_keypair_keeps:
  assumes "derive_keypair lib customer seed k = (r, k1)"
  shows "ks_masters k1 = ks_masters k" and "ks_default_master k1 = ks_default_master k"
  using assms by (auto simp: derive_keypair_def derive_and_cache_def Let_def split: option.splits sum.splits)

lemma derive_vault_tee_keypair_keeps:
  "derive_vault_tee_keypair lib v k = (r, k1) \<Longrightarrow> ks_masters k1 = ks_masters k"
  by (auto simp: derive_vault_tee_keypair_def split: prod.splits sum.splits dest: derive_keypair_keeps)

lemma load_customer_masters:
  assumes "load_customer lib ckd v k = (r, k1)"
  shows "w \<noteq> v \<Longrightarrow> ks_masters k1 w = ks_masters k w" and "r = Inr () \<Longrightarrow> has_customer v k1"
  using assms
  by (auto simp: load_customer_def add_customer_def evict_customer_cache_def insert_master_def has_customer_def
      split: if_splits prod.splits sum.splits dest: derive_vault_tee_keypair_keeps)

lemma serving_allowed:
  assumes "assert_serving_allowed answer state v k = (r, k1)"
  shows "r = Inr () \<Longrightarrow> answer = Inr (JScalar ''true'') \<and> k1 = k \<and>
      (\<exists>st. state = Inr st \<and> member_of ''unlocked'' st = Some (JScalar ''false''))"
    and "w \<noteq> v \<Longrightarrow> ks_masters k1 w = ks_masters k w"
  using assms
  by (auto simp: assert_serving_allowed_def json_bool_def bind_eq_Some_conv
      split: sum.splits option.splits bool.splits if_splits)

text \<open>An account with a full-access key is an unlocked vault, or the report of the hand-over is under way.\<close>

definition full_key_reported :: "vault_world \<Rightarrow> bool" where
  "full_key_reported y \<longleftrightarrow>
     ((\<exists>pk. vw_keys y pk = Some FullAccess) \<or> (\<exists>pk. AddFullAccessKey pk \<in># vw_receipts y) \<longrightarrow>
      unlocked (vw_vault y) \<or> (\<exists>c. (c, True) \<in># vw_swaps y))"

lemma granted_when_unlocked:
  "run_vault_call c cx v = Inr (t, es) \<Longrightarrow> AddFullAccessKey pk \<in> set es \<Longrightarrow> unlocked v"
  using call_effects(2) [of c cx v t es "AddFullAccessKey pk" pk] by (auto simp: unlocked_add_key_def run_simps)

lemma key_step_full:
  assumes "\<not> is_swap e" "dao_callback e = None"
    "(case key_action e keys of None \<Rightarrow> keys | Some ring \<Rightarrow> ring) pk = Some FullAccess"
  shows "keys pk = Some FullAccess \<or> e = AddFullAccessKey pk"
  using assms key_action_full [of e keys _ pk] by (cases e) (auto split: option.splits)

lemma vault_step_reported:
  assumes ok: "world_ok y" and rep: "full_key_reported y" and step: "vault_step me y z"
  shows "full_key_reported z"
  using step
proof (cases rule: vault_step.cases)
  case (call c cx v es)
  with rep granted_when_unlocked [OF call(2)] vault_call_ok [OF world_okD(1) [OF ok] call(2)]
  show ?thesis by (auto simp: full_key_reported_def)
next
  case (answer e f cx result v es)
  have "AddFullAccessKey pk \<notin> set es" for pk using callback_effects(2) [OF answer(3,4)] by blast
  with answer rep dao_callback_ok [OF world_okD(1) [OF ok] answer(3,4)]
  show ?thesis by (auto simp: full_key_reported_def dest!: in_diffD)
next
  case (keys e)
  with rep show ?thesis by (auto simp: full_key_reported_def dest!: in_diffD key_step_full [OF keys(4,3)])
next
  case (after_swap b swapped cx v es)
  then have "swapped \<Longrightarrow> unlocked v" "\<not> swapped \<Longrightarrow> v = vw_vault y"
    by (auto simp: callback_after_swap_def run_simps split: if_splits)
  with rep after_swap(1) show ?thesis by (cases swapped) (auto simp: full_key_reported_def in_diff_count)
qed (use rep in \<open>auto simp: full_key_reported_def dest: in_diffD\<close>)

lemma reachable_reported: "vault_reachable sub me y \<Longrightarrow> full_key_reported y"
proof (induction rule: vault_reachable.induct)
  case (deploy cx parent dao mpc initial window v)
  then show ?case by (auto simp: full_key_reported_def deployed_vault_def split: option.splits if_splits)
next
  case (step y z)
  then show ?case using vault_step_reported reachable_ok by blast
qed

section \<open>Properties\<close>

text \<open>
  C12. The cache of signing keys is never ahead of the masters: however insertions and removals of
  masters, their purges of the cache, derivations and clearings by concurrent requests interleave, a
  derivation for the default master, or for a vault with no purge under way, gives exactly the key
  pair of the master loaded at that moment, and the error when there is none; so a key derived while
  its vault was evicted does not survive the eviction.
\<close>

theorem cache_follows_masters:
  assumes "key_steps lib (from_master_secret m, {#}) (k, P)" "customer \<notin> Some ` set_mset P"
  shows "fst (derive_keypair lib customer seed k) = map_sum id (\<lambda>m. keypair_of lib m seed) (master_for k customer)"
proof -
  from key_steps_current [OF assms(1) fresh_keystore_current] assms(2)
  have hit: "\<exists>m. master_for k customer = Inr m \<and> kp = keypair_of lib m seed"
    if "ks_keypair_cache k (customer, seed) = Some kp" for kp
    using that unfolding cache_current_def by fastforce
  show ?thesis
  proof (cases "ks_keypair_cache k (customer, seed)")
    case None
    then show ?thesis by (cases "master_for k customer") (simp_all add: derive_keypair_def derive_and_cache_def Let_def)
  next
    case (Some kp)
    with hit [OF Some] show ?thesis by (auto simp: derive_keypair_def)
  qed
qed

text \<open>
  C30. What \<open>encrypt\<close> writes for a vault and a seed, \<open>decrypt\<close> reads for the same two: the plaintext
  comes back and the keystore is as before, for every plaintext whose blob is within ten mebibytes;
  a longer one, which \<open>encrypt\<close> still accepts up to ten mebibytes of plaintext, is refused as too
  large with its 61 bytes of framing counted.
\<close>

theorem secret_round_trip:
  assumes "encrypt_secret lib k ephemeral nonce customer seed plaintext = Inr blob"
    and "agreement_ok lib" "sealing_ok lib" "length nonce = 12"
  shows "decrypt_secret lib customer seed blob k =
    ((if length plaintext + 61 \<le> MAX_ENCRYPTED_SIZE then Inr plaintext else Inl (DataTooLarge (length plaintext + 61))), k)"
  using encrypted_blob [OF assms] by (simp add: decrypt_secret_def)

text \<open>What the chain says of a vault: to be served, to be served no more, or neither.\<close>

definition chain_serves :: "string + node_value \<Rightarrow> string + node_value \<Rightarrow> bool" where
  "chain_serves verified state \<longleftrightarrow> verified = Inr (JScalar ''true'') \<and>
     (\<exists>st. state = Inr st \<and> member_of ''unlocked'' st = Some (JScalar ''false''))"

definition chain_withdraws :: "string + node_value \<Rightarrow> string + node_value \<Rightarrow> bool" where
  "chain_withdraws verified state \<longleftrightarrow> verified = Inr (JScalar ''false'') \<or> verified = Inr (JScalar ''true'') \<and>
     ((\<exists>msg. state = Inl msg \<and> (contains_str ''UnknownAccount'' msg \<or> contains_str ''does not exist'' msg)) \<or>
      (\<exists>st. state = Inr st \<and> member_of ''unlocked'' st = Some (JScalar ''true'')))"

lemma serving_decided:
  assumes "assert_serving_allowed verified state v k = (r, k1)"
  shows "chain_serves verified state \<Longrightarrow> r = Inr () \<and> k1 = k"
    "chain_withdraws verified state \<Longrightarrow> r \<in> {Inl (VaultNotVerified v), Inl (VaultUnlocked v), Inl (VaultGone v)} \<and> k1 = evict_customer v k"
    "\<not> chain_serves verified state \<Longrightarrow> \<not> chain_withdraws verified state \<Longrightarrow>
       r \<in> {Inl ReadFailed, Inl NotABool, Inl (VaultReadFailed v), Inl (MalformedState v)} \<and> k1 = k"
  using assms
  by (auto simp: chain_serves_def chain_withdraws_def assert_serving_allowed_def json_bool_def bind_eq_Some_conv
      split: sum.splits option.splits bool.splits if_splits)

text \<open>
  C26. A vault is served only as the chain has it. Where the DAO answers \<open>true\<close> and the vault's state says
  \<open>unlocked: false\<close>, a loaded vault is served from the master it has and one that is not is loaded; success
  means just that, and that the master is there. Where the DAO answers \<open>false\<close>, or it answers \<open>true\<close> and the
  vault is unlocked or no longer exists, the call is refused by that reason and the vault has no
  master and no cached key any more. On any other answers the call is refused and nothing changes. The masters
  of other vaults stay as they are in every case.
\<close>

theorem gate_follows_the_chain:
  assumes "ensure_customer_loaded lib ckd verified state (Some v) k = (r, k1)"
  shows "(r = Inr () \<longrightarrow> chain_serves (verified v) (state v) \<and> has_customer v k1) \<and>
    (chain_serves (verified v) (state v) \<and> has_customer v k \<longrightarrow> r = Inr () \<and> k1 = k) \<and>
    (chain_withdraws (verified v) (state v) \<longrightarrow>
      r \<in> {Inl (VaultNotVerified v), Inl (VaultUnlocked v), Inl (VaultGone v)} \<and> \<not> has_customer v k1 \<and>
      (\<forall>seed. ks_keypair_cache k1 (Some v, seed) = None)) \<and>
    (\<not> chain_serves (verified v) (state v) \<and> \<not> chain_withdraws (verified v) (state v) \<longrightarrow> r \<noteq> Inr () \<and> k1 = k) \<and>
    (w \<noteq> v \<longrightarrow> ks_masters k1 w = ks_masters k w)"
proof -
  obtain a k0 where gate: "assert_serving_allowed (verified v) (state v) v k = (a, k0)" by fastforce
  note D = serving_decided [OF gate]
  have not_both: "\<not> (chain_serves (verified v) (state v) \<and> chain_withdraws (verified v) (state v))"
    by (auto simp: chain_serves_def chain_withdraws_def)
  show ?thesis
  proof (cases "chain_serves (verified v) (state v)")
    case False
    then obtain e where "a = Inl e" using D(2,3) by blast
    with assms gate have "r = a" "k1 = k0" by (auto simp: ensure_customer_loaded_def)
    moreover have "ks_masters k0 w = ks_masters k w" if "w \<noteq> v" using serving_allowed(2) [OF gate that] .
    moreover have "\<not> has_customer v (evict_customer v k)" by (simp add: has_customer_def)
    ultimately show ?thesis using D(2,3) False by auto
  next
    case True
    with D(1) have gate_open: "a = Inr ()" "k0 = k" by simp_all
    show ?thesis
    proof (cases "has_customer v k")
      case True
      with assms gate gate_open have "r = Inr ()" "k1 = k" by (auto simp: ensure_customer_loaded_def)
      with True \<open>chain_serves (verified v) (state v)\<close> not_both show ?thesis by simp
    next
      case False
      with assms gate gate_open have "load_customer lib ckd v k = (r, k1)" by (simp add: ensure_customer_loaded_def)
      from load_customer_masters [OF this] False \<open>chain_serves (verified v) (state v)\<close> not_both show ?thesis by auto
    qed
  qed
qed

text \<open>
  C11. After the hand-over of a vault the keystore serves it no more: in every reachable state of the
  vault contract and its account in which some key has full access and no report of a hand-over is
  still under way, a vault that answers \<open>get_state\<close> with its flag is refused by the gate whatever the
  DAO answers, and a DAO that still verifies it makes the keystore drop its master and its keys.
\<close>

theorem handed_over_vault_not_served:
  assumes "vault_reachable sub v y" "vw_keys y pk = Some FullAccess" "\<forall>c. (c, True) \<notin># vw_swaps y"
    and "state v = Inr st" "member_of ''unlocked'' st = Some (JScalar (if unlocked (vw_vault y) then ''true'' else ''false''))"
    and "ensure_customer_loaded lib ckd verified state (Some v) k = (r, k1)"
  shows "r \<noteq> Inr () \<and> (verified v = Inr (JScalar ''true'') \<longrightarrow>
    r = Inl (VaultUnlocked v) \<and> master_for k1 (Some v) = Inl (VaultMasterNotLoaded v) \<and>
    (\<forall>seed. fst (derive_keypair lib (Some v) seed k1) = Inl (VaultMasterNotLoaded v)))"
proof -
  have "unlocked (vw_vault y)" using reachable_reported [OF assms(1)] assms(2,3) by (auto simp: full_key_reported_def)
  with assms(4-6) show ?thesis
    by (auto simp: ensure_customer_loaded_def assert_serving_allowed_def json_bool_def master_for_def
        derive_keypair_def derive_and_cache_def split: sum.splits option.splits bool.splits if_splits)
qed

section \<open>Witnesses\<close>

definition demo_libs :: master_libs where
  "demo_libs = \<lparr>ml_hmac = (\<lambda>key s. key @ s), ml_ed_public = rev, ml_ed_sign = (\<lambda>sk s. sk @ s),
     ml_ed_verify = (\<lambda>pk s sg. sg = rev pk @ s),
     ml_x_public = (\<lambda>a. replicate 32 (hd a)), ml_x_shared = (\<lambda>a p. [char_of ((of_char (hd a) :: nat) * of_char (hd p))]),
     ml_hkdf = (\<lambda>s info. Some (s @ info)), ml_seal = (\<lambda>key n p. Some (p @ replicate 16 (CHR ''.''))),
     ml_open = (\<lambda>key n c. Some (take (length c - 16) c)), ml_k1_public = Some, ml_k1_sign = (\<lambda>sk d. Some (d, 0)),
     ml_k1_uncompressed = id, ml_keccak = id, ml_sha256 = id, ml_base58 = id, ml_hex = id, ml_unhex = Some\<rparr>"

lemma demo_libs_ok: "agreement_ok demo_libs" "sealing_ok demo_libs"
  by (simp_all add: agreement_ok_def sealing_ok_def demo_libs_def mult.commute)

definition loaded_keystore :: keystore where
  "loaded_keystore = add_customer ''v.a'' ''M'' (from_master_secret ''D'')"

theorem cache_follows_masters_witness:
  "fst (derive_keypair demo_libs (Some ''v.a'') ''s'' (evict_customer ''v.a'' loaded_keystore)) =
     Inl (VaultMasterNotLoaded ''v.a'')"
proof -
  have "key_steps demo_libs (from_master_secret ''D'', {#}) (evict_customer ''v.a'' loaded_keystore, {#})"
    unfolding loaded_keystore_def by (rule rtranclp_trans [OF add_customer_steps evict_customer_steps])
  from cache_follows_masters [OF this, of "Some ''v.a''" "''s''"] show ?thesis
    by (simp add: master_for_def evict_customer_def remove_master_def evict_customer_cache_def)
qed

theorem secret_round_trip_witness:
  "\<exists>blob. encrypt_secret demo_libs loaded_keystore ''e'' ''123456789012'' (Some ''v.a'') ''s'' ''hello'' = Inr blob \<and>
     decrypt_secret demo_libs (Some ''v.a'') ''s'' blob loaded_keystore = (Inr ''hello'', loaded_keystore)"
proof -
  have "\<exists>blob. encrypt_secret demo_libs loaded_keystore ''e'' ''123456789012'' (Some ''v.a'') ''s'' ''hello'' = Inr blob"
    by (simp add: encrypt_secret_def MAX_ENCRYPTED_SIZE_def derive_x25519_keypair_def master_for_def loaded_keystore_def
        add_customer_def insert_master_def evict_customer_cache_def from_master_secret_def demo_libs_def hkdf_derive_key_def
        aead_result_def Let_def)
  then obtain blob where b: "encrypt_secret demo_libs loaded_keystore ''e'' ''123456789012'' (Some ''v.a'') ''s'' ''hello'' = Inr blob" ..
  with secret_round_trip [OF b demo_libs_ok] show ?thesis by (simp add: MAX_ENCRYPTED_SIZE_def)
qed

theorem gate_follows_the_chain_witness:
  "\<not> has_customer ''v.a'' (snd (ensure_customer_loaded demo_libs (\<lambda>_ _ _. Inr ''M'') (\<lambda>_. Inr (JScalar ''false''))
     (\<lambda>_. Inr JNull) (Some ''v.a'') loaded_keystore)) \<and> has_customer ''v.a'' loaded_keystore"
proof -
  obtain r k1 where run: "ensure_customer_loaded demo_libs (\<lambda>_ _ _. Inr ''M'') (\<lambda>_. Inr (JScalar ''false''))
     (\<lambda>_. Inr JNull) (Some ''v.a'') loaded_keystore = (r, k1)" by fastforce
  have loaded: "has_customer ''v.a'' loaded_keystore"
    by (simp add: has_customer_def loaded_keystore_def add_customer_def insert_master_def evict_customer_cache_def)
  from run have "chain_withdraws (Inr (JScalar ''false'')) (Inr JNull)" by (simp add: chain_withdraws_def)
  then have "\<not> has_customer ''v.a'' k1" using gate_follows_the_chain [OF run] by blast
  with run loaded show ?thesis by simp
qed

theorem handed_over_vault_not_served_witness:
  "\<exists>y. vault_reachable (\<lambda>_ _. True) ''v.a'' y \<and> fst (ensure_customer_loaded demo_libs (\<lambda>_ _ _. Inr ''M'')
     (\<lambda>_. Inr (JScalar ''true''))
     (\<lambda>_. Inr (JObj [(''unlocked'', JScalar (if unlocked (vw_vault y) then ''true'' else ''false''))]))
     (Some ''v.a'') loaded_keystore) = Inl (VaultUnlocked ''v.a'')"
proof -
  from race_before [of "\<lambda>_ _. True" "''v.a''" "''a''"] obtain y where
    y: "vault_reachable (\<lambda>_ _. True) ''v.a'' y" "vw_keys y ''p1'' = Some FullAccess" "vw_swaps y = {#}" by auto
  let ?run = "ensure_customer_loaded demo_libs (\<lambda>_ _ _. Inr ''M'') (\<lambda>_. Inr (JScalar ''true''))
     (\<lambda>_. Inr (JObj [(''unlocked'', JScalar (if unlocked (vw_vault y) then ''true'' else ''false''))]))
     (Some ''v.a'') loaded_keystore"
  obtain r k1 where run: "?run = (r, k1)" by fastforce
  from handed_over_vault_not_served [OF y(1,2) _ _ _ run] y(3) have "r = Inl (VaultUnlocked ''v.a'')" by simp
  with y(1) run show ?thesis by auto
qed

end
