(* ===== verification/Keystore_Door.thy ===== *)
theory Keystore_Door
  imports Keystore_Masters Access_Eval
begin

text \<open>
  The \<open>/decrypt\<close> door of the keystore worker and its neighbours (\<open>keystore-worker/src/api.rs\<close>): the
  seed of a secret row, a row read from the contract, judged and decrypted, the declared keys of a
  run judged against the contract and the vaults and then derived, the task key beside a row that
  opened, and the handlers that derive from a seed they are sent. The record \<open>door_world\<close> has what the
  chain and the libraries answer; \<open>dw_meanwhile\<close> is what other requests do to the keystore at the
  places where a handler waits. Texts of errors and log lines are left out.
\<close>

section \<open>Seeds\<close>

definition DECLARED_KEY_ROOTS :: "string list" where
  "DECLARED_KEY_ROOTS = [''signing-key:'', ''encryption-key:'', ''task-key:'']"

datatype door_error =
    DoorBadRequest | DoorUnauthorized | DoorJudged api_error | DoorPaymentRequired | DoorInternal
  | DoorUnavailable | DoorSecretsNotFound | DoorKeysRefused nat | DoorForbidden
  | DoorChainRefused

definition refuse_declared_key_seed :: "string \<Rightarrow> door_error option" where
  "refuse_declared_key_seed seed =
     (if list_ex (\<lambda>root. starts_with root seed) DECLARED_KEY_ROOTS then Some DoorBadRequest else None)"

definition without_scheme :: "string \<Rightarrow> string" where
  "without_scheme repo =
     (case strip_prefix ''https://'' repo of
        Some rest \<Rightarrow> rest
      | None \<Rightarrow>
          (case strip_prefix ''http://'' repo of
             Some rest \<Rightarrow> rest
           | None \<Rightarrow> (case strip_prefix ''ssh://'' repo of Some rest \<Rightarrow> rest | None \<Rightarrow> repo)))"

definition normalize_repo_url :: "string \<Rightarrow> string" where
  "normalize_repo_url repo =
     (let r1 = without_scheme (trim_str repo);
          r2 = (case strip_prefix ''git@'' r1 of
                  Some rest \<Rightarrow> map (\<lambda>c. if c = CHR '':'' then CHR ''/'' else c) rest
                | None \<Rightarrow> r1)
      in case strip_suffix ''.git'' r2 of Some rest \<Rightarrow> rest | None \<Rightarrow> r2)"

definition repo_seed_root :: "string \<Rightarrow> door_error + string" where
  "repo_seed_root repo =
     (let normalized = normalize_repo_url repo; seed_start = normalized @ '':'' in
      if list_ex (\<lambda>root. starts_with root seed_start) DECLARED_KEY_ROOTS then Inl DoorBadRequest
      else Inr normalized)"

fun as_seed_str :: "system_secret_type \<Rightarrow> string" where
  "as_seed_str PaymentKey = ''payment_key''"

fun as_contract_str :: "system_secret_type \<Rightarrow> string" where
  "as_contract_str PaymentKey = ''PaymentKey''"

fun secret_seed :: "secret_accessor \<Rightarrow> string \<Rightarrow> string \<Rightarrow> string option \<Rightarrow> door_error + string" where
  "secret_seed (RepoAcc repo _) owner profile secret_branch =
     map_sum id (\<lambda>normalized. case secret_branch of
         Some b \<Rightarrow> normalized @ '':'' @ owner @ '':'' @ b
       | None \<Rightarrow> normalized @ '':'' @ owner) (repo_seed_root repo)"
| "secret_seed (WasmHashAcc hash) owner profile _ = Inr (''wasm_hash:'' @ hash @ '':'' @ owner)"
| "secret_seed (ProjectAcc project_id) owner profile _ = Inr (''project:'' @ project_id @ '':'' @ owner)"
| "secret_seed (SystemAcc secret_type) owner profile _ =
     Inr (''system:'' @ as_seed_str secret_type @ '':'' @ owner @ '':'' @ profile)"

fun accessor_to_contract_json :: "secret_accessor \<Rightarrow> node_value" where
  "accessor_to_contract_json (RepoAcc repo branch) =
     JObj [(''Repo'', JObj [(''repo'', JStr (normalize_repo_url repo)),
       (''branch'', case branch of None \<Rightarrow> JNull | Some b \<Rightarrow> JStr b)])]"
| "accessor_to_contract_json (WasmHashAcc hash) = JObj [(''WasmHash'', JObj [(''hash'', JStr hash)])]"
| "accessor_to_contract_json (ProjectAcc project_id) = JObj [(''Project'', JObj [(''project_id'', JStr project_id)])]"
| "accessor_to_contract_json (SystemAcc secret_type) = JObj [(''System'', JStr (as_contract_str secret_type))]"

section \<open>What the door asks\<close>

record viewed =
  vd_value :: node_value
  vd_block_hash :: string
  vd_block_height :: nat

text \<open>A view is asked at the final block (\<open>None\<close>) or at a block by its hash.\<close>

record door_world =
  dw_secret_with_vault :: "node_value \<Rightarrow> string \<Rightarrow> string \<Rightarrow> string + node_value option \<times> string option"
  dw_version_at :: "string \<Rightarrow> string \<Rightarrow> string option \<Rightarrow> string + viewed"
  dw_project_at :: "string \<Rightarrow> string option \<Rightarrow> string + viewed"
  dw_get_state :: "account \<Rightarrow> string + node_value"
  dw_verified :: "account \<Rightarrow> string + node_value"
  dw_gate_state :: "account \<Rightarrow> string + node_value"
  dw_ckd :: "account \<Rightarrow> string \<Rightarrow> string \<Rightarrow> gate_error + string"
  dw_mpc_context :: bool
  dw_condition :: "node_value \<Rightarrow> condition option"
  dw_within_bounds :: "condition \<Rightarrow> bool"
  dw_engine :: engine
  dw_in_time :: bool
  dw_client :: "near_client option"
  dw_now :: "nat option"
  dw_now_again :: "nat option"
  dw_implicit_account :: "string \<Rightarrow> bool"
  dw_below :: "account \<Rightarrow> account \<Rightarrow> bool"
  dw_base64_decode :: "string \<Rightarrow> string option"
  dw_base64_encode :: "string \<Rightarrow> string"
  dw_meanwhile :: "nat \<Rightarrow> keystore \<Rightarrow> keystore"

definition value_at :: "string \<Rightarrow> node_value \<Rightarrow> node_value" where
  "value_at key v = (case member_of key v of None \<Rightarrow> JNull | Some x \<Rightarrow> x)"

section \<open>One secret row\<close>

definition enforce_agent_secret :: "(string \<Rightarrow> bool) \<Rightarrow> string \<Rightarrow> string \<Rightarrow> string \<Rightarrow> door_error option" where
  "enforce_agent_secret implicit caller owner profile =
     (if \<not> implicit profile then None
      else if profile \<noteq> caller then Some DoorUnauthorized
      else if profile \<noteq> owner then Some DoorUnauthorized
      else None)"

definition parse_optional_vault_id :: "externals \<Rightarrow> string option \<Rightarrow> door_error + account option" where
  "parse_optional_vault_id ext raw =
     (case raw of
        None \<Rightarrow> Inr None
      | Some s \<Rightarrow>
          (let t = trim_str s in
           if t = [] then Inr None else if valid_account ext t then Inr (Some t) else Inl DoorBadRequest))"

definition from_customer_load :: "gate_error \<Rightarrow> door_error" where
  "from_customer_load e = (if e = VaultUnderfunded then DoorPaymentRequired else DoorBadRequest)"

definition app_ensure_customer_loaded ::
  "master_libs \<Rightarrow> door_world \<Rightarrow> account option \<Rightarrow> keystore \<Rightarrow> (gate_error + unit) \<times> keystore" where
  "app_ensure_customer_loaded lib w customer k =
     (case customer of
        None \<Rightarrow> (Inr (), k)
      | Some vault_id \<Rightarrow>
          (if \<not> dw_mpc_context w then (Inl NoMpcContext, k)
           else if dw_client w = None then (Inl NoGateClient, k)
           else ensure_customer_loaded lib (dw_ckd w) (dw_verified w) (dw_gate_state w) (Some vault_id) k))"

definition admitted_by_name :: "door_world \<Rightarrow> condition \<Rightarrow> string \<Rightarrow> run_facts \<Rightarrow> bool" where
  "admitted_by_name w c caller facts =
     (case (dw_now_again w, compile_patterns (dw_engine w) c) of
        (Some now, Inr patterns) \<Rightarrow> admits_by_name patterns facts now caller c
      | _ \<Rightarrow> False)"

record secret_row =
  sw_accessor :: secret_accessor
  sw_profile :: string
  sw_owner :: string
  sw_user :: string
  sw_wasm :: "string option"
  sw_predecessor :: "string option"

record opened_row =
  or_plaintext :: string
  or_admitted_by_name :: bool
  or_vault :: "account option"

definition row_facts :: "secret_row \<Rightarrow> run_facts" where
  "row_facts row = \<lparr>executed_wasm_sha256 = sw_wasm row, predecessor_id = sw_predecessor row\<rparr>"

definition secret_branch_of :: "node_value \<Rightarrow> string option" where
  "secret_branch_of profile =
     Option.bind (Option.bind (Option.bind (member_of ''accessor'' profile) (member_of ''Repo'')) (member_of ''branch'')) as_str"

text \<open>The row as the contract has it: its profile and the vault it is bound to.\<close>

definition read_row :: "externals \<Rightarrow> door_world \<Rightarrow> secret_row \<Rightarrow> door_error + node_value \<times> account option" where
  "read_row ext w row =
     (if dw_client w = None then Inl DoorInternal
      else case dw_secret_with_vault w (accessor_to_contract_json (sw_accessor row)) (sw_profile row) (sw_owner row) of
        Inl _ \<Rightarrow> Inl DoorInternal
      | Inr (None, _) \<Rightarrow> Inl DoorSecretsNotFound
      | Inr (Some profile, vault_id) \<Rightarrow> map_sum id (\<lambda>customer. (profile, customer)) (parse_optional_vault_id ext vault_id))"

definition judge_row :: "door_world \<Rightarrow> secret_row \<Rightarrow> node_value \<Rightarrow> door_error + condition" where
  "judge_row w row profile =
     (case enforce_agent_secret (dw_implicit_account w) (sw_user row) (sw_owner row) (sw_profile row) of
        Some e \<Rightarrow> Inl e
      | None \<Rightarrow>
          (case dw_condition w (value_at ''access'' profile) of
             None \<Rightarrow> Inl DoorInternal
           | Some c \<Rightarrow>
               (case judge_access (dw_within_bounds w) (dw_engine w) (dw_in_time w) (dw_client w) (row_facts row)
                       (dw_now w) (sw_user row) c of
                  Inl e \<Rightarrow> Inl (DoorJudged e)
                | Inr _ \<Rightarrow> Inr c)))"

definition open_blob ::
  "master_libs \<Rightarrow> door_world \<Rightarrow> secret_row \<Rightarrow> node_value \<Rightarrow> account option \<Rightarrow> keystore \<Rightarrow> (door_error + string) \<times> keystore" where
  "open_blob lib w row profile customer k =
     (case secret_seed (sw_accessor row) (sw_owner row) (sw_profile row) (secret_branch_of profile) of
        Inl e \<Rightarrow> (Inl e, k)
      | Inr seed \<Rightarrow>
          (case as_str (value_at ''encrypted_secrets'' profile) of
             None \<Rightarrow> (Inl DoorInternal, k)
           | Some b64 \<Rightarrow>
               (case dw_base64_decode w b64 of
                  None \<Rightarrow> (Inl DoorInternal, k)
                | Some bytes \<Rightarrow>
                    (case decrypt_secret lib customer seed bytes k of
                       (Inl _, k1) \<Rightarrow> (Inl DoorInternal, k1)
                     | (Inr plaintext, k1) \<Rightarrow> (Inr (dw_base64_encode w plaintext), k1)))))"

definition decrypt_secret_row ::
  "externals \<Rightarrow> master_libs \<Rightarrow> door_world \<Rightarrow> secret_row \<Rightarrow> keystore \<Rightarrow> (door_error + opened_row) \<times> keystore" where
  "decrypt_secret_row ext lib w row k =
     (case read_row ext w row of
        Inl e \<Rightarrow> (Inl e, k)
      | Inr (profile, customer) \<Rightarrow>
          (case judge_row w row profile of
             Inl e \<Rightarrow> (Inl e, k)
           | Inr c \<Rightarrow>
               (case app_ensure_customer_loaded lib w customer k of
                  (Inl e, k1) \<Rightarrow> (Inl (from_customer_load e), k1)
                | (Inr _, k1) \<Rightarrow>
                    (case open_blob lib w row profile customer (dw_meanwhile w 0 k1) of
                       (Inl e, k2) \<Rightarrow> (Inl e, k2)
                     | (Inr plaintext, k2) \<Rightarrow>
                         (Inr \<lparr>or_plaintext = plaintext,
                               or_admitted_by_name = admitted_by_name w c (sw_user row) (row_facts row),
                               or_vault = customer\<rparr>, k2)))))"

section \<open>The project of a run\<close>

definition project_at_one_block ::
  "door_world \<Rightarrow> string \<Rightarrow> string \<Rightarrow> (string + node_value) \<times> (string + node_value)" where
  "project_at_one_block w project_id wasm =
     (case (dw_version_at w project_id wasm None, dw_project_at w project_id None) of
        (Inr version, Inr project) \<Rightarrow>
          (if vd_block_hash version = vd_block_hash project then (Inr (vd_value version), Inr (vd_value project))
           else if vd_block_height version \<le> vd_block_height project then
             (Inr (vd_value version), map_sum id vd_value (dw_project_at w project_id (Some (vd_block_hash version))))
           else
             (map_sum id vd_value (dw_version_at w project_id wasm (Some (vd_block_hash project))), Inr (vd_value project)))
      | (version, project) \<Rightarrow> (map_sum id vd_value version, map_sum id vd_value project))"

definition project_version_matches :: "node_value \<Rightarrow> string \<Rightarrow> bool" where
  "project_version_matches version wasm \<longleftrightarrow>
     Option.bind (member_of ''wasm_hash'' version) as_str = Some wasm \<and>
     Option.bind (Option.bind (Option.bind (member_of ''source'' version) (member_of ''WasmUrl'')) (member_of ''hash'')) as_str = Some wasm"

definition project_owner_in :: "externals \<Rightarrow> node_value \<Rightarrow> project_name \<Rightarrow> account option" where
  "project_owner_in ext project i =
     (if project = JNull then None
      else case Option.bind (member_of ''owner'' project) as_str of
        None \<Rightarrow> None
      | Some owner \<Rightarrow> (if valid_account ext owner \<and> owner = pn_owner i then Some owner else None))"

definition project_uuid_in :: "node_value \<Rightarrow> string option" where
  "project_uuid_in project =
     (case Option.bind (member_of ''uuid'' project) as_str of
        None \<Rightarrow> None
      | Some uuid \<Rightarrow> (case parse_project_uuid uuid of Inl _ \<Rightarrow> None | Inr u \<Rightarrow> Some u))"

definition published_project :: "externals \<Rightarrow> door_world \<Rightarrow> project_name \<Rightarrow> string \<Rightarrow> door_error + account \<times> string" where
  "published_project ext w project wasm =
     (if dw_client w = None then Inl DoorInternal
      else case project_at_one_block w (pn_id project) wasm of
        (Inl _, _) \<Rightarrow> Inl DoorInternal
      | (Inr version, view) \<Rightarrow>
          (if \<not> project_version_matches version wasm then Inl (DoorKeysRefused 403)
           else case view of
             Inl _ \<Rightarrow> Inl DoorInternal
           | Inr project_view \<Rightarrow>
               (case (project_owner_in ext project_view project, project_uuid_in project_view) of
                  (Some owner, Some uuid) \<Rightarrow> Inr (owner, uuid)
                | _ \<Rightarrow> Inl (DoorKeysRefused 403))))"

section \<open>The keys of a run\<close>

record keyed_request =
  kq_accessor :: "secret_accessor option"
  kq_profile :: "string option"
  kq_owner :: "string option"
  kq_user :: string
  kq_wasm :: "string option"
  kq_predecessor :: "string option"
  kq_project_id :: "string option"
  kq_signing_keys :: "signing_key_request list"
  kq_encryption_keys :: "encryption_key_request list"
  kq_task_key :: bool

record authorized_keys =
  ak_signing :: "bound_keys option"
  ak_encryption :: "bound_keys option"

definition validate_family :: "externals \<Rightarrow> keyed_request \<Rightarrow> 'd key_declaration \<Rightarrow> 'd list \<Rightarrow> door_error + validated_keys option" where
  "validate_family ext req D keys =
     (if keys = [] then Inr None
      else case validate_request ext D (kq_project_id req) (kq_user req) (kq_predecessor req) (kq_wasm req) keys of
        Inl _ \<Rightarrow> Inl (DoorKeysRefused 400)
      | Inr v \<Rightarrow> Inr (Some v))"

definition bind_families ::
  "validated_keys option \<Rightarrow> validated_keys option \<Rightarrow> string option \<Rightarrow> door_error + authorized_keys" where
  "bind_families signing encryption uuid =
     (case parse_optional (\<lambda>v. bind_all v uuid) signing of
        Inl _ \<Rightarrow> Inl (DoorKeysRefused 400)
      | Inr s \<Rightarrow>
          (case parse_optional (\<lambda>v. bind_all v uuid) encryption of
             Inl _ \<Rightarrow> Inl (DoorKeysRefused 400)
           | Inr e \<Rightarrow> Inr \<lparr>ak_signing = s, ak_encryption = e\<rparr>))"

definition load_refused :: "gate_error \<Rightarrow> door_error" where
  "load_refused e =
     (case e of
        VaultNotVerified _ \<Rightarrow> DoorKeysRefused 403
      | VaultUnlocked _ \<Rightarrow> DoorKeysRefused 403
      | VaultUnderfunded \<Rightarrow> DoorKeysRefused 402
      | _ \<Rightarrow> DoorInternal)"

fun load_vaults :: "master_libs \<Rightarrow> door_world \<Rightarrow> account list \<Rightarrow> keystore \<Rightarrow> (door_error + unit) \<times> keystore" where
  "load_vaults lib w [] k = (Inr (), k)"
| "load_vaults lib w (vault # vaults) k =
     (case app_ensure_customer_loaded lib w (Some vault) k of
        (Inl e, k1) \<Rightarrow> (Inl (load_refused e), k1)
      | (Inr _, k1) \<Rightarrow> load_vaults lib w vaults k1)"

definition vault_owner_refused :: "door_world \<Rightarrow> account \<Rightarrow> account \<Rightarrow> door_error option" where
  "vault_owner_refused w owner vault =
     (case dw_get_state w vault of
        Inl _ \<Rightarrow> Some DoorInternal
      | Inr state \<Rightarrow> map_option (\<lambda>_. DoorKeysRefused 403) (vault_belongs_to (dw_below w) owner vault state))"

definition vaults_of_both :: "validated_keys option \<Rightarrow> validated_keys option \<Rightarrow> account list" where
  "vaults_of_both signing encryption =
     first_seen [] (concat (map vaults_named ((case signing of None \<Rightarrow> [] | Some v \<Rightarrow> [v]) @ (case encryption of None \<Rightarrow> [] | Some v \<Rightarrow> [v]))))"

text \<open>The chain's part of \<open>authorize_keys\<close> for a run of a project.\<close>

definition authorize_project ::
  "externals \<Rightarrow> master_libs \<Rightarrow> door_world \<Rightarrow> project_name \<Rightarrow> string \<Rightarrow> account list \<Rightarrow> keystore \<Rightarrow> (door_error + string) \<times> keystore" where
  "authorize_project ext lib w project wasm vaults k =
     (case published_project ext w project wasm of
        Inl e \<Rightarrow> (Inl e, k)
      | Inr (owner, uuid) \<Rightarrow>
          (case find_map (vault_is_named_under (dw_below w) owner) vaults of
             Some _ \<Rightarrow> (Inl (DoorKeysRefused 403), k)
           | None \<Rightarrow>
               (case find_map (vault_owner_refused w owner) vaults of
                  Some e \<Rightarrow> (Inl e, k)
                | None \<Rightarrow>
                    (case load_vaults lib w vaults k of
                       (Inl e, k1) \<Rightarrow> (Inl e, k1)
                     | (Inr _, k1) \<Rightarrow> (Inr uuid, k1)))))"

definition authorize_keys ::
  "externals \<Rightarrow> master_libs \<Rightarrow> door_world \<Rightarrow> keyed_request \<Rightarrow> keystore \<Rightarrow> (door_error + authorized_keys) \<times> keystore" where
  "authorize_keys ext lib w req k =
     (case validate_family ext req signing_declaration (kq_signing_keys req) of
        Inl e \<Rightarrow> (Inl e, k)
      | Inr signing \<Rightarrow>
          (case validate_family ext req encryption_declaration (kq_encryption_keys req) of
             Inl e \<Rightarrow> (Inl e, k)
           | Inr encryption \<Rightarrow>
               (case (if signing \<noteq> None then signing else encryption) of
                  None \<Rightarrow> (Inl (DoorKeysRefused 400), k)
                | Some first \<Rightarrow>
                    (case vs_project first of
                       None \<Rightarrow> (bind_families signing encryption None, k)
                     | Some project \<Rightarrow>
                         (case authorize_project ext lib w project (vs_wasm_sha256 first) (vaults_of_both signing encryption) k of
                            (Inl e, k1) \<Rightarrow> (Inl e, k1)
                          | (Inr uuid, k1) \<Rightarrow> (bind_families signing encryption (Some uuid), k1))))))"

definition derive_bound_key :: "master_libs \<Rightarrow> keystore \<Rightarrow> key_family \<Rightarrow> bound_key \<Rightarrow> door_error + string" where
  "derive_bound_key lib k family key =
     (case (case family of
              SigningFamily \<Rightarrow> derive_signing_key_seed lib k (bk_vault key) (bk_input key)
            | EncryptionFamily \<Rightarrow> derive_encryption_key lib k (bk_vault key) (bk_input key)) of
        Inr secret \<Rightarrow> Inr (ml_hex lib secret)
      | Inl (VaultMasterNotLoaded _) \<Rightarrow> Inl DoorUnavailable
      | Inl _ \<Rightarrow> Inl (DoorKeysRefused 400))"

fun derive_each :: "master_libs \<Rightarrow> keystore \<Rightarrow> key_family \<Rightarrow> (string \<rightharpoonup> string) \<Rightarrow> bound_key list \<Rightarrow> door_error + (string \<rightharpoonup> string)" where
  "derive_each lib k family out [] = Inr out"
| "derive_each lib k family out (key # keys) =
     (case derive_bound_key lib k family key of
        Inl e \<Rightarrow> Inl e
      | Inr secret \<Rightarrow> derive_each lib k family (out(bk_path key \<mapsto> secret)) keys)"

definition derive_keys :: "master_libs \<Rightarrow> keystore \<Rightarrow> bound_keys \<Rightarrow> door_error + (string \<rightharpoonup> string)" where
  "derive_keys lib k bound = derive_each lib k (bs_family bound) Map.empty (bs_keys bound)"

section \<open>The keyed request\<close>

datatype secrets_outcome = DecryptedRow string | NoSuchRow

record task_key_grant =
  tg_key :: string
  tg_admitted_by_name :: bool
  tg_vault :: "account option"

record keyed_response =
  ry_secrets :: "secrets_outcome option"
  ry_signing_keys :: "(string \<rightharpoonup> string) option"
  ry_encryption_keys :: "(string \<rightharpoonup> string) option"
  ry_task_key :: "task_key_grant option"

definition row_of_request :: "keyed_request \<Rightarrow> door_error + secret_row option" where
  "row_of_request req =
     (case (kq_accessor req, kq_profile req, kq_owner req) of
        (Some accessor, Some profile, Some owner) \<Rightarrow>
          Inr (Some \<lparr>sw_accessor = accessor, sw_profile = profile, sw_owner = owner, sw_user = kq_user req,
                     sw_wasm = kq_wasm req, sw_predecessor = kq_predecessor req\<rparr>)
      | (None, None, None) \<Rightarrow> Inr None
      | _ \<Rightarrow> Inl DoorBadRequest)"

definition task_run_of :: "externals \<Rightarrow> keyed_request \<Rightarrow> door_error + task_key_run option" where
  "task_run_of ext req =
     (if \<not> kq_task_key req then Inr None
      else case validate_task_request ext (kq_project_id req) (kq_wasm req)
                  (case kq_accessor req of Some (ProjectAcc project_id) \<Rightarrow> Some project_id | _ \<Rightarrow> None) (kq_owner req) of
        Inl _ \<Rightarrow> Inl (DoorKeysRefused 400)
      | Inr t \<Rightarrow> Inr (Some t))"

definition names_keys :: "keyed_request \<Rightarrow> bool" where
  "names_keys req \<longleftrightarrow> kq_signing_keys req \<noteq> [] \<or> kq_encryption_keys req \<noteq> []"

definition run_of :: "authorized_keys \<Rightarrow> bound_keys option" where
  "run_of a = (if ak_signing a \<noteq> None then ak_signing a else ak_encryption a)"

text \<open>The run's task, once its callers are held to be accounts, with the uuid its key is bound to.\<close>

definition task_project ::
  "externals \<Rightarrow> door_world \<Rightarrow> keyed_request \<Rightarrow> task_key_run option \<Rightarrow> authorized_keys option
     \<Rightarrow> door_error + (task_key_run \<times> string) option" where
  "task_project ext w req task authorized =
     (case (task, authorized) of
        (None, _) \<Rightarrow> Inr None
      | (Some t, Some a) \<Rightarrow>
          (case Option.bind (run_of a) bs_project of None \<Rightarrow> Inl DoorInternal | Some p \<Rightarrow> Inr (Some (t, bp_uuid p)))
      | (Some t, None) \<Rightarrow>
          (case real_callers ext (kq_user req) (kq_predecessor req) of
             Some _ \<Rightarrow> Inr None
           | None \<Rightarrow> map_sum id (\<lambda>(owner, uuid). Some (t, uuid)) (published_project ext w (kr_project t) (kr_wasm_sha256 t))))"

definition open_row ::
  "externals \<Rightarrow> master_libs \<Rightarrow> door_world \<Rightarrow> secret_row option \<Rightarrow> keystore \<Rightarrow> (door_error + opened_row option) \<times> keystore" where
  "open_row ext lib w row k =
     (case row of
        None \<Rightarrow> (Inr None, k)
      | Some r \<Rightarrow>
          (case decrypt_secret_row ext lib w r k of
             (Inr opened, k1) \<Rightarrow> (Inr (Some opened), k1)
           | (Inl DoorSecretsNotFound, k1) \<Rightarrow> (Inr None, k1)
           | (Inl e, k1) \<Rightarrow> (Inl e, k1)))"

definition derive_task_grant ::
  "master_libs \<Rightarrow> keystore \<Rightarrow> (task_key_run \<times> string) option \<Rightarrow> opened_row option \<Rightarrow> door_error + task_key_grant option" where
  "derive_task_grant lib k task opened =
     (case (task, opened) of
        (Some (t, uuid), Some row) \<Rightarrow>
          (case derive_task_key lib k (task_key_input uuid (kr_owner t)) (or_vault row) of
             Inl _ \<Rightarrow> Inl DoorInternal
           | Inr key \<Rightarrow> Inr (Some \<lparr>tg_key = ml_hex lib key, tg_admitted_by_name = or_admitted_by_name row, tg_vault = or_vault row\<rparr>))
      | _ \<Rightarrow> Inr None)"

definition derive_authorized ::
  "master_libs \<Rightarrow> keystore \<Rightarrow> authorized_keys option \<Rightarrow> door_error + (string \<rightharpoonup> string) option \<times> (string \<rightharpoonup> string) option" where
  "derive_authorized lib k authorized =
     (case authorized of
        None \<Rightarrow> Inr (None, None)
      | Some a \<Rightarrow>
          (case parse_optional (derive_keys lib k) (ak_signing a) of
             Inl e \<Rightarrow> Inl e
           | Inr s \<Rightarrow> map_sum id (\<lambda>e. (s, e)) (parse_optional (derive_keys lib k) (ak_encryption a))))"

text \<open>The answer, once the keys are judged: the row, then the keys, then the task key.\<close>

definition answer_keyed ::
  "externals \<Rightarrow> master_libs \<Rightarrow> door_world \<Rightarrow> secret_row option \<Rightarrow> authorized_keys option \<Rightarrow> (task_key_run \<times> string) option
     \<Rightarrow> keystore \<Rightarrow> (door_error + keyed_response) \<times> keystore" where
  "answer_keyed ext lib w row authorized task k =
     (case open_row ext lib w row k of
        (Inl e, k1) \<Rightarrow> (Inl e, k1)
      | (Inr opened, k1) \<Rightarrow>
          (let k2 = dw_meanwhile w 2 k1 in
           case derive_authorized lib k2 authorized of
             Inl e \<Rightarrow> (Inl e, k2)
           | Inr (signing, encryption) \<Rightarrow>
               (let k3 = dw_meanwhile w 3 k2 in
                case derive_task_grant lib k3 task opened of
                  Inl e \<Rightarrow> (Inl e, k3)
                | Inr grant \<Rightarrow>
                    (Inr \<lparr>ry_secrets = map_option (\<lambda>_. case opened of None \<Rightarrow> NoSuchRow | Some r \<Rightarrow> DecryptedRow (or_plaintext r)) row,
                          ry_signing_keys = signing, ry_encryption_keys = encryption, ry_task_key = grant\<rparr>, k3))))"

definition judge_keys ::
  "externals \<Rightarrow> master_libs \<Rightarrow> door_world \<Rightarrow> keyed_request \<Rightarrow> task_key_run option \<Rightarrow> keystore
     \<Rightarrow> (door_error + authorized_keys option) \<times> keystore" where
  "judge_keys ext lib w req task k =
     (if names_keys req \<or> task = None then map_prod (map_sum id Some) id (authorize_keys ext lib w req k)
      else (Inr None, k))"

definition decrypt_with_keys ::
  "externals \<Rightarrow> master_libs \<Rightarrow> door_world \<Rightarrow> bool \<Rightarrow> keyed_request \<Rightarrow> keystore \<Rightarrow> (door_error + keyed_response) \<times> keystore" where
  "decrypt_with_keys ext lib w ready req k =
     (if \<not> ready then (Inl DoorUnauthorized, k)
      else case row_of_request req of
        Inl e \<Rightarrow> (Inl e, k)
      | Inr row \<Rightarrow>
          (case task_run_of ext req of
             Inl e \<Rightarrow> (Inl e, k)
           | Inr task \<Rightarrow>
               (case judge_keys ext lib w req task k of
                  (Inl e, k1) \<Rightarrow> (Inl e, k1)
                | (Inr authorized, k1) \<Rightarrow>
                    (case task_project ext w req task authorized of
                       Inl e \<Rightarrow> (Inl e, k1)
                     | Inr task1 \<Rightarrow> answer_keyed ext lib w row authorized task1 (dw_meanwhile w 1 k1)))))"

definition decrypt_secrets_only ::
  "externals \<Rightarrow> master_libs \<Rightarrow> door_world \<Rightarrow> bool \<Rightarrow> secret_row \<Rightarrow> keystore \<Rightarrow> (door_error + string) \<times> keystore" where
  "decrypt_secrets_only ext lib w ready row k =
     (if \<not> ready then (Inl DoorUnauthorized, k)
      else map_prod (map_sum id or_plaintext) id (decrypt_secret_row ext lib w row k))"

section \<open>Seeds and roots\<close>

abbreviation rooted :: "string \<Rightarrow> bool" where
  "rooted s \<equiv> list_ex (\<lambda>root. starts_with root s) DECLARED_KEY_ROOTS"

lemma starts_with_append: "starts_with p s \<Longrightarrow> starts_with p (s @ t)"
  by (metis append.assoc append_take_drop_id append_eq_conv_conj starts_with_def)

lemma root_within_first_segment:
  assumes "CHR '':'' \<notin> set r" "starts_with (r @ '':'') (n @ '':'' @ rest)"
  shows "starts_with (r @ '':'') (n @ '':'')"
proof -
  from assms(2) obtain t where t: "n @ '':'' @ rest = (r @ '':'') @ t"
    unfolding starts_with_def by (metis append_take_drop_id)
  then have eq: "n @ CHR '':'' # rest = r @ CHR '':'' # t" by simp
  have "length r \<le> length n"
  proof (rule ccontr)
    assume "\<not> length r \<le> length n"
    then have "(n @ CHR '':'' # rest) ! length n = r ! length n" "length n < length r"
      using eq by (simp_all add: nth_append)
    then show False using assms(1) nth_mem [of "length n" r] by simp
  qed
  with eq obtain us where us: "n = r @ us" by (metis append_eq_append_conv_if append_take_drop_id)
  with eq have "us @ CHR '':'' # rest = CHR '':'' # t" by simp
  with us show ?thesis by (cases us) (simp_all add: starts_with_def)
qed

lemma rooted_first_segment: "rooted (n @ '':'' @ rest) \<Longrightarrow> rooted (n @ '':'')"
  using root_within_first_segment [of "''signing-key''" n rest] root_within_first_segment [of "''encryption-key''" n rest]
    root_within_first_segment [of "''task-key''" n rest]
  by (auto simp: DECLARED_KEY_ROOTS_def)

lemma key_strings_rooted:
  "from_parts kind bound caller path = Inr d \<Longrightarrow> rooted (di_text d)"
  "rooted (task_key_input uuid owner)"
proof -
  have "rooted (family_root f @ t)" for f t
    by (cases f) (simp_all add: DECLARED_KEY_ROOTS_def label_simps starts_with_def)
  then show "from_parts kind bound caller path = Inr d \<Longrightarrow> rooted (di_text d)" by (auto simp: from_parts_Inr)
  show "rooted (task_key_input uuid owner)"
    by (simp add: task_key_input_def DECLARED_KEY_ROOTS_def label_simps starts_with_def)
qed

lemma secret_seed_not_rooted:
  assumes "secret_seed accessor owner profile branch = Inr seed"
  shows "\<not> rooted seed"
proof (cases accessor)
  case (RepoAcc repo b)
  with assms obtain n where n: "repo_seed_root repo = Inr n" "seed = n @ '':'' @ owner \<or> (\<exists>c. seed = n @ '':'' @ owner @ '':'' @ c)"
    by (cases "repo_seed_root repo") (auto split: option.splits)
  from n(1) have "\<not> rooted (n @ '':'')" by (auto simp: repo_seed_root_def Let_def split: if_splits)
  with n(2) rooted_first_segment [of n] show ?thesis by (metis append.assoc)
qed (use assms in \<open>auto simp: DECLARED_KEY_ROOTS_def starts_with_def\<close>)

section \<open>Masters that are the vaults' own\<close>

text \<open>The masters a keystore may hold: its own, and for a vault the one the MPC network gives that vault.\<close>

definition genuine :: "string \<Rightarrow> (account \<Rightarrow> string) \<Rightarrow> keystore \<Rightarrow> bool" where
  "genuine own vault_master k \<longleftrightarrow>
     ks_default_master k = own \<and> (\<forall>v m. ks_masters k v = Some m \<longrightarrow> m = vault_master v)"

definition master_named :: "string \<Rightarrow> (account \<Rightarrow> string) \<Rightarrow> account option \<Rightarrow> string" where
  "master_named own vault_master vault = (case vault of None \<Rightarrow> own | Some v \<Rightarrow> vault_master v)"

definition world_genuine :: "string \<Rightarrow> (account \<Rightarrow> string) \<Rightarrow> door_world \<Rightarrow> bool" where
  "world_genuine own vault_master w \<longleftrightarrow>
     (\<forall>v sk path m. dw_ckd w v sk path = Inr m \<longrightarrow> m = vault_master v) \<and>
     (\<forall>i k. genuine own vault_master k \<longrightarrow> genuine own vault_master (dw_meanwhile w i k))"

lemma genuine_master_for: "genuine own vm k \<Longrightarrow> master_for k vault = Inr m \<Longrightarrow> m = master_named own vm vault"
  by (auto simp: genuine_def master_for_def master_named_def split: option.splits)

lemma genuine_same: "ks_masters k1 = ks_masters k \<Longrightarrow> ks_default_master k1 = ks_default_master k \<Longrightarrow> genuine own vm k1 = genuine own vm k"
  by (simp add: genuine_def)

lemma genuine_derive: "derive_keypair lib customer seed k = (r, k1) \<Longrightarrow> genuine own vm k1 = genuine own vm k"
  using derive_keypair_keeps by (intro genuine_same)

lemma genuine_evict: "genuine own vm k \<Longrightarrow> genuine own vm (evict_customer v k)"
  by (auto simp: genuine_def)

lemma genuine_serving:
  "assert_serving_allowed answer state v k = (r, k1) \<Longrightarrow> genuine own vm k \<Longrightarrow> genuine own vm k1"
  by (auto simp: assert_serving_allowed_def genuine_evict split: sum.splits option.splits bool.splits if_splits)

lemma genuine_load:
  assumes "load_customer lib ckd v k = (r, k1)" "genuine own vm k" "\<And>sk path m. ckd v sk path = Inr m \<Longrightarrow> m = vm v"
  shows "genuine own vm k1"
proof -
  have tee: "genuine own vm k2" if "derive_vault_tee_keypair lib v k = (a, k2)" for a k2
    using that assms(2) by (auto simp: derive_vault_tee_keypair_def genuine_derive split: prod.splits sum.splits dest: genuine_derive)
  have "genuine own vm (add_customer v m k2)" if "genuine own vm k2" "m = vm v" for m k2
    using that by (simp add: genuine_def add_customer_def evict_customer_cache_def insert_master_def)
  then show ?thesis
    using assms tee by (auto simp: load_customer_def split: if_splits prod.splits sum.splits)
qed

lemma genuine_gate:
  assumes "app_ensure_customer_loaded lib w customer k = (r, k1)" "genuine own vm k"
    and "\<And>v sk path m. dw_ckd w v sk path = Inr m \<Longrightarrow> m = vm v"
  shows "genuine own vm k1"
  using assms
  by (auto simp: app_ensure_customer_loaded_def ensure_customer_loaded_def
      split: option.splits if_splits prod.splits sum.splits elim!: genuine_load dest: genuine_serving)

lemma genuine_app_ensure:
  assumes "app_ensure_customer_loaded lib w customer k = (r, k1)" "genuine own vm k" "world_genuine own vm w"
  shows "genuine own vm k1"
  using assms genuine_gate [OF assms(1,2)] by (auto simp: world_genuine_def)

lemma genuine_decrypt: "decrypt_secret lib customer seed blob k = (r, k1) \<Longrightarrow> genuine own vm k1 = genuine own vm k"
  by (auto simp: decrypt_secret_def decrypt_legacy_def split: sum.splits option.splits prod.splits if_splits dest: genuine_derive)

text \<open>
  What a request can do to the keystore between two steps of another: pass the gate for a vault, derive
  a key pair, read a blob, evict a vault or clear the cache. Whatever \<open>dw_meanwhile\<close> is, as long as it is
  made of such steps, the masters stay the vaults' own: the hypothesis on it holds of this code, and
  what is left of \<open>world_genuine\<close> is that the MPC network gives a vault its own master.
\<close>

inductive other_request :: "master_libs \<Rightarrow> door_world \<Rightarrow> keystore \<Rightarrow> keystore \<Rightarrow> bool" for lib w where
  gated: "app_ensure_customer_loaded lib w customer k = (r, k1) \<Longrightarrow> other_request lib w k k1"
| derived: "derive_keypair lib customer seed k = (p, k1) \<Longrightarrow> other_request lib w k k1"
| opened: "decrypt_secret lib customer seed blob k = (t, k1) \<Longrightarrow> other_request lib w k k1"
| evicted: "other_request lib w k (evict_customer v k)"
| cleared: "other_request lib w k (clear_cache k)"

lemma genuine_clear [simp]: "genuine own vm (clear_cache k) = genuine own vm k"
  by (simp add: genuine_def clear_cache_def)

lemma other_requests_genuine:
  assumes "(other_request lib w)\<^sup>*\<^sup>* k k1" "genuine own vm k"
    and "\<And>v sk path m. dw_ckd w v sk path = Inr m \<Longrightarrow> m = vm v"
  shows "genuine own vm k1"
  using assms
proof (induction rule: rtranclp_induct)
  case (step k1 k2)
  from step.IH [OF step.prems] have "genuine own vm k1" .
  with step.hyps(2) step.prems(2) show ?case
    by cases (simp_all add: genuine_gate genuine_derive genuine_decrypt genuine_evict)
qed simp

lemma interleaved_world_genuine:
  assumes "\<And>i k. (other_request lib w)\<^sup>*\<^sup>* k (dw_meanwhile w i k)"
    and "\<And>v sk path m. dw_ckd w v sk path = Inr m \<Longrightarrow> m = vm v"
  shows "world_genuine own vm w"
  unfolding world_genuine_def
proof (intro conjI allI impI)
  show "genuine own vm (dw_meanwhile w i k)" if "genuine own vm k" for i k
    using other_requests_genuine [OF assms(1) that] assms(2) by blast
qed (rule assms(2))

lemma app_ensure_ok:
  assumes "app_ensure_customer_loaded lib w (Some v) k = (Inr u, k1)"
  shows "dw_verified w v = Inr (JScalar ''true'') \<and>
    (\<exists>st. dw_gate_state w v = Inr st \<and> member_of ''unlocked'' st = Some (JScalar ''false''))"
proof -
  from assms have e: "ensure_customer_loaded lib (dw_ckd w) (dw_verified w) (dw_gate_state w) (Some v) k = (Inr u, k1)"
    by (auto simp: app_ensure_customer_loaded_def split: if_splits)
  then obtain a k0 where gate: "assert_serving_allowed (dw_verified w v) (dw_gate_state w v) v k = (Inr a, k0)"
    by (auto simp: ensure_customer_loaded_def split: prod.splits sum.splits)
  from serving_allowed(1) [OF this] show ?thesis by simp
qed

section \<open>Judging the keys\<close>

lemma find_map_None: "find_map f xs = None \<longleftrightarrow> (\<forall>x \<in> set xs. f x = None)"
  by (induction xs) (auto split: option.splits)

lemma set_first_seen: "set (first_seen out xs) = set out \<union> set xs"
  by (induction xs arbitrary: out) auto

lemma set_map_filter: "set (List.map_filter f xs) = {y. \<exists>x \<in> set xs. f x = Some y}"
  by (induction xs) (auto simp: map_filter_simps split: option.splits)

lemma set_vaults_named: "set (vaults_named v) = {a. \<exists>k \<in> set (vs_keys v). vk_vault k = Some a}"
  by (simp add: vaults_named_def set_first_seen set_map_filter)

text \<open>What the chain says of a vault that is served as the owner's.\<close>

definition vault_of_owner :: "door_world \<Rightarrow> account \<Rightarrow> account \<Rightarrow> bool" where
  "vault_of_owner w owner v \<longleftrightarrow>
     dw_below w v owner \<and>
     (\<exists>st. dw_get_state w v = Inr st \<and> Option.bind (member_of ''parent'' st) as_str = Some owner) \<and>
     dw_verified w v = Inr (JScalar ''true'') \<and>
     (\<exists>st. dw_gate_state w v = Inr st \<and> member_of ''unlocked'' st = Some (JScalar ''false''))"

lemma load_vaults_ok:
  assumes "load_vaults lib w vs k = (Inr u, k1)" "v \<in> set vs"
  shows "dw_verified w v = Inr (JScalar ''true'') \<and>
    (\<exists>st. dw_gate_state w v = Inr st \<and> member_of ''unlocked'' st = Some (JScalar ''false''))"
  using assms
  by (induction lib w vs k rule: load_vaults.induct) (auto split: prod.splits sum.splits dest: app_ensure_ok)

lemma genuine_load_vaults:
  assumes "load_vaults lib w vs k = (r, k1)" "genuine own vm k" "world_genuine own vm w"
  shows "genuine own vm k1"
  using assms
  by (induction lib w vs k rule: load_vaults.induct) (auto split: prod.splits sum.splits dest: genuine_app_ensure)

lemma authorize_project_ok:
  assumes "authorize_project ext lib w project wasm vs k = (Inr uuid, k1)"
  shows "\<exists>owner. published_project ext w project wasm = Inr (owner, uuid) \<and> (\<forall>v \<in> set vs. vault_of_owner w owner v)"
proof -
  from assms obtain owner where o: "published_project ext w project wasm = Inr (owner, uuid)"
    "find_map (vault_is_named_under (dw_below w) owner) vs = None" "find_map (vault_owner_refused w owner) vs = None"
    "load_vaults lib w vs k = (Inr (), k1)"
    by (auto simp: authorize_project_def split: sum.splits prod.splits option.splits)
  have "vault_of_owner w owner v" if "v \<in> set vs" for v
  proof -
    have "vault_is_named_under (dw_below w) owner v = None" "vault_owner_refused w owner v = None"
      using o(2,3) that by (simp_all add: find_map_None)
    then show ?thesis
      using load_vaults_ok [OF o(4) that]
      by (auto simp: vault_of_owner_def vault_is_named_under_def vault_owner_refused_def vault_belongs_to_def
          split: sum.splits option.splits if_splits)
  qed
  with o(1) show ?thesis by blast
qed

lemma genuine_authorize_project:
  assumes "authorize_project ext lib w project wasm vs k = (r, k1)" "genuine own vm k" "world_genuine own vm w"
  shows "genuine own vm k1"
  using assms
  by (auto simp: authorize_project_def split: sum.splits prod.splits option.splits dest: genuine_load_vaults)

lemma genuine_authorize:
  assumes "authorize_keys ext lib w req k = (r, k1)" "genuine own vm k" "world_genuine own vm w"
  shows "genuine own vm k1"
  using assms
  by (auto simp: authorize_keys_def split: sum.splits prod.splits option.splits if_splits dest: genuine_authorize_project)

section \<open>Deriving the keys\<close>

lemma derived_key:
  assumes "derive_bound_key lib k family key = Inr secret" "genuine own vm k"
  shows "secret = ml_hex lib (ml_hmac lib (master_named own vm (bk_vault key)) (di_text (bk_input key)))"
proof -
  from assms(1) have "\<exists>m. master_for k (bk_vault key) = Inr m \<and> secret = ml_hex lib (ml_hmac lib m (di_text (bk_input key)))"
    by (cases "master_for k (bk_vault key)")
      (auto simp: derive_bound_key_def derive_signing_key_seed_def derive_encryption_key_def derive_declared_key_def
        split: key_family.splits if_splits sum.splits keystore_error.splits)
  with genuine_master_for [OF assms(2)] show ?thesis by blast
qed

lemma derived_keys:
  assumes "derive_each lib k family out keys = Inr m" "genuine own vm k" "distinct (map bk_path keys)"
  shows "m = out ++ map_of (map (\<lambda>key. (bk_path key,
    ml_hex lib (ml_hmac lib (master_named own vm (bk_vault key)) (di_text (bk_input key))))) keys)"
  using assms(1,3)
proof (induction keys arbitrary: out)
  case (Cons key keys)
  then obtain secret where secret: "derive_bound_key lib k family key = Inr secret"
    "derive_each lib k family (out(bk_path key \<mapsto> secret)) keys = Inr m"
    by (auto split: sum.splits)
  have fresh: "bk_path key \<notin> dom (map_of (map (\<lambda>key. (bk_path key,
      ml_hex lib (ml_hmac lib (master_named own vm (bk_vault key)) (di_text (bk_input key))))) keys))"
    using Cons.prems(2) by (auto simp: dom_map_of_conv_image_fst image_image)
  show ?case
    using Cons.IH [OF secret(2)] Cons.prems(2) derived_key [OF secret(1) assms(2)] map_add_upd_left [OF fresh]
    by (simp del: fun_upd_apply)
qed simp

lemma map_three:
  "map f xs = map f' ys \<Longrightarrow> map g xs = map g' ys \<Longrightarrow> map e xs = map e' ys \<Longrightarrow>
     map (\<lambda>x. h (f x) (g x) (e x)) xs = map (\<lambda>y. h (f' y) (g' y) (e' y)) ys"
  by (induction xs arbitrary: ys) auto

text \<open>The keys of a family as a run that may have them gets them.\<close>

definition issued_keys ::
  "master_libs \<Rightarrow> string \<Rightarrow> (account \<Rightarrow> string) \<Rightarrow> 'd key_declaration \<Rightarrow> keyed_request \<Rightarrow> string option \<Rightarrow> string \<Rightarrow> 'd list
     \<Rightarrow> (string \<rightharpoonup> string) option" where
  "issued_keys lib own vm D req uuid wasm ds =
     (if ds = [] then None
      else Some (map_of (map (\<lambda>d. (kd_path D d, ml_hex lib (ml_hmac lib (master_named own vm (kd_vault D d))
             (issued_text D uuid wasm (kq_user req) (kq_predecessor req) d)))) ds)))"

context declared_family
begin

lemma family_issued:
  assumes valid: "validate_family ext req D ds = Inr v" and bind: "parse_optional (\<lambda>v. bind_all v uuid) v = Inr b"
    and derive: "parse_optional (derive_keys lib k) b = Inr m"
    and run: "uuid = None \<longleftrightarrow> kq_project_id req = None" "uuid \<noteq> None \<longrightarrow> parse_project_uuid (the uuid) = Inr (the uuid)"
    and wasm: "kq_wasm req = Some wasm" and ok: "accounts_plain ext" "genuine own vm k"
  shows "m = issued_keys lib own vm D req uuid wasm ds"
proof (cases "ds = []")
  case True
  with valid bind derive show ?thesis
    by (auto simp: validate_family_def parse_optional_def issued_keys_def)
next
  case False
  with valid obtain v1 where v1: "v = Some v1"
    "validate_request ext D (kq_project_id req) (kq_user req) (kq_predecessor req) (kq_wasm req) ds = Inr v1"
    by (auto simp: validate_family_def split: sum.splits)
  note bound = declared_keys_bind [OF v1(2) [unfolded wasm] ok(1) run]
  then obtain b1 where b1: "bind_all v1 uuid = Inr b1"
    "map (\<lambda>k. di_text (bk_input k)) (bs_keys b1) = map (issued_text D uuid wasm (kq_user req) (kq_predecessor req)) ds"
    "map bk_vault (bs_keys b1) = map (kd_vault D) ds" "map bk_path (bs_keys b1) = map (kd_path D) ds" by blast
  with bind v1 have b: "b = Some b1" by (simp add: parse_optional_def)
  with derive obtain m1 where m1: "m = Some m1" "derive_keys lib k b1 = Inr m1"
    by (cases "derive_keys lib k b1") (auto simp: parse_optional_def)
  have "distinct (map bk_path (bs_keys b1))" using v1(2) by (simp add: b1(4) validate_request_Inr)
  from derived_keys [OF m1(2) [unfolded derive_keys_def] ok(2) this]
  have "m1 = map_of (map (\<lambda>key. (bk_path key,
      ml_hex lib (ml_hmac lib (master_named own vm (bk_vault key)) (di_text (bk_input key))))) (bs_keys b1))" by simp
  also have "\<dots> = map_of (map (\<lambda>d. (kd_path D d, ml_hex lib (ml_hmac lib (master_named own vm (kd_vault D d))
        (issued_text D uuid wasm (kq_user req) (kq_predecessor req) d)))) ds)"
    using map_three [OF b1(4,3,2), of "\<lambda>path vault text. (path, ml_hex lib (ml_hmac lib (master_named own vm vault) text))"] by simp
  finally show ?thesis using False m1(1) by (simp add: issued_keys_def)
qed

end

lemma published_uuid:
  "published_project ext w project wasm = Inr (owner, uuid) \<Longrightarrow> parse_project_uuid uuid = Inr uuid"
  by (auto simp: published_project_def project_uuid_in_def parse_project_uuid_def
      split: prod.splits sum.splits option.splits if_splits)

text \<open>What a run of a project was found to be before its keys were bound.\<close>

definition run_established :: "externals \<Rightarrow> door_world \<Rightarrow> keyed_request \<Rightarrow> string \<Rightarrow> string option \<Rightarrow> bool" where
  "run_established ext w req wasm uuid \<longleftrightarrow>
     (case kq_project_id req of
        None \<Rightarrow> uuid = None
      | Some pid \<Rightarrow>
          (\<exists>project owner. parse_project_id ext pid = Inr project \<and> uuid \<noteq> None \<and>
             published_project ext w project wasm = Inr (owner, the uuid) \<and>
             (\<forall>d \<in> set (kq_signing_keys req). \<forall>v. sr_vault d = Some v \<longrightarrow> vault_of_owner w owner v) \<and>
             (\<forall>d \<in> set (kq_encryption_keys req). \<forall>v. er_vault d = Some v \<longrightarrow> vault_of_owner w owner v)))"

lemma established_uuid:
  assumes "run_established ext w req wasm uuid"
  shows "uuid = None \<longleftrightarrow> kq_project_id req = None" "uuid \<noteq> None \<longrightarrow> parse_project_uuid (the uuid) = Inr (the uuid)"
  using assms published_uuid by (auto simp: run_established_def split: option.splits)

lemma family_valid:
  assumes "validate_family ext req D ds = Inr (Some v)"
  shows "kq_wasm req = Some (vs_wasm_sha256 v)" "parse_optional (parse_project_id ext) (kq_project_id req) = Inr (vs_project v)"
    "vs_keys v = map (key_declared D (kq_user req) (kq_predecessor req)) ds"
  using assms by (auto simp: validate_family_def validate_request_Inr split: if_splits sum.splits)

lemma family_none: "validate_family ext req D ds = Inr None \<longleftrightarrow> ds = []"
  by (auto simp: validate_family_def split: sum.splits)

lemma family_vaults:
  assumes "validate_family ext req D ds = Inr v"
  shows "{a. \<exists>d \<in> set ds. kd_vault D d = Some a} = (case v of None \<Rightarrow> {} | Some v1 \<Rightarrow> set (vaults_named v1))"
proof (cases v)
  case None
  with assms show ?thesis by (simp add: family_none)
next
  case (Some v1)
  with family_valid(3) [OF assms [unfolded Some]] show ?thesis
    by (simp add: set_vaults_named key_declared_def)
qed

lemma vaults_of_both_set:
  assumes "validate_family ext req signing_declaration ss = Inr s" "validate_family ext req encryption_declaration es = Inr e"
  shows "set (vaults_of_both s e) = {a. \<exists>d \<in> set ss. sr_vault d = Some a} \<union> {a. \<exists>d \<in> set es. er_vault d = Some a}"
  using family_vaults [OF assms(1)] family_vaults [OF assms(2)]
  by (auto simp: vaults_of_both_def set_first_seen signing_declaration_def encryption_declaration_def split: option.splits)

lemma authorize_keys_ok:
  assumes run: "authorize_keys ext lib w req k = (Inr a, k1)"
  shows "\<exists>s e uuid wasm. validate_family ext req signing_declaration (kq_signing_keys req) = Inr s \<and>
    validate_family ext req encryption_declaration (kq_encryption_keys req) = Inr e \<and>
    kq_wasm req = Some wasm \<and> run_established ext w req wasm uuid \<and>
    bind_families s e uuid = Inr a"
proof -
  from run obtain s e where fam: "validate_family ext req signing_declaration (kq_signing_keys req) = Inr s"
    "validate_family ext req encryption_declaration (kq_encryption_keys req) = Inr e"
    by (auto simp: authorize_keys_def split: sum.splits)
  from run fam obtain first where first: "(if s \<noteq> None then s else e) = Some first"
    by (auto simp: authorize_keys_def split: option.splits if_splits)
  have facts: "kq_wasm req = Some (vs_wasm_sha256 first)"
    "parse_optional (parse_project_id ext) (kq_project_id req) = Inr (vs_project first)"
    using first fam family_valid [of ext req signing_declaration "kq_signing_keys req" first]
      family_valid [of ext req encryption_declaration "kq_encryption_keys req" first]
    by (auto split: if_splits)
  show ?thesis
  proof (cases "vs_project first")
    case None
    with run fam first have "bind_families s e None = Inr a" by (simp add: authorize_keys_def split: if_splits)
    moreover have "kq_project_id req = None" using facts(2) None by (auto simp: parse_optional_Inr)
    ultimately show ?thesis using fam facts(1) by (intro exI [of _ s] exI [of _ e] exI [of _ None]) (simp add: run_established_def)
  next
    case (Some project)
    with run fam first obtain uuid where a: "authorize_project ext lib w project (vs_wasm_sha256 first) (vaults_of_both s e) k = (Inr uuid, k1)"
      "bind_families s e (Some uuid) = Inr a"
      by (auto simp: authorize_keys_def split: if_splits prod.splits sum.splits)
    have "run_established ext w req (vs_wasm_sha256 first) (Some uuid)"
      using authorize_project_ok [OF a(1)] facts(2) Some
      by (auto simp: run_established_def vaults_of_both_set [OF fam] parse_optional_Inr) blast+
    then show ?thesis using fam facts(1) a(2) by blast
  qed
qed

text \<open>The keys of both families that come back, given that they were judged.\<close>

lemma authorized_keys_issued:
  assumes auth: "authorize_keys ext lib w req k = (Inr a, k1)" and derive: "derive_authorized lib k2 (Some a) = Inr (s, e)"
    and ok: "accounts_plain ext" "genuine own vm k2"
  shows "\<exists>uuid wasm. kq_wasm req = Some wasm \<and> run_established ext w req wasm uuid \<and>
    s = issued_keys lib own vm signing_declaration req uuid wasm (kq_signing_keys req) \<and>
    e = issued_keys lib own vm encryption_declaration req uuid wasm (kq_encryption_keys req)"
proof -
  from authorize_keys_ok [OF auth] obtain vs ve uuid wasm where
    v: "validate_family ext req signing_declaration (kq_signing_keys req) = Inr vs"
      "validate_family ext req encryption_declaration (kq_encryption_keys req) = Inr ve"
      "kq_wasm req = Some wasm" "run_established ext w req wasm uuid" "bind_families vs ve uuid = Inr a" by blast
  from v(5) have b: "parse_optional (\<lambda>v. bind_all v uuid) vs = Inr (ak_signing a)"
    "parse_optional (\<lambda>v. bind_all v uuid) ve = Inr (ak_encryption a)"
    by (auto simp: bind_families_def split: sum.splits)
  from derive have d: "parse_optional (derive_keys lib k2) (ak_signing a) = Inr s"
    "parse_optional (derive_keys lib k2) (ak_encryption a) = Inr e"
    by (cases "parse_optional (derive_keys lib k2) (ak_encryption a)"; auto simp: derive_authorized_def split: sum.splits)+
  note u = established_uuid [OF v(4)]
  have "s = issued_keys lib own vm signing_declaration req uuid wasm (kq_signing_keys req)"
    by (rule signing.family_issued [OF v(1) b(1) d(1) u v(3) ok])
  moreover have "e = issued_keys lib own vm encryption_declaration req uuid wasm (kq_encryption_keys req)"
    by (rule encryption.family_issued [OF v(2) b(2) d(2) u v(3) ok])
  ultimately show ?thesis using v(3,4) by blast
qed

lemma genuine_open_blob: "open_blob lib w row profile customer k = (r, k1) \<Longrightarrow> genuine own vm k1 = genuine own vm k"
  by (auto simp: open_blob_def decrypt_secret_def decrypt_legacy_def split: sum.splits option.splits prod.splits if_splits dest: genuine_derive)

lemma genuine_row:
  assumes "decrypt_secret_row ext lib w row k = (r, k1)" "genuine own vm k" "world_genuine own vm w"
  shows "genuine own vm k1"
proof -
  have "genuine own vm (dw_meanwhile w i k2)" if "app_ensure_customer_loaded lib w customer k = (a, k2)" for customer a k2 i
    using genuine_app_ensure [OF that assms(2,3)] assms(3) by (simp add: world_genuine_def)
  then show ?thesis
    using assms genuine_app_ensure [OF _ assms(2,3)]
    by (auto simp: decrypt_secret_row_def split: sum.splits prod.splits dest!: genuine_open_blob)
qed

lemma genuine_open_row:
  assumes "open_row ext lib w row k = (r, k1)" "genuine own vm k" "world_genuine own vm w"
  shows "genuine own vm k1"
  using assms genuine_row [OF _ assms(2,3)]
  by (auto simp: open_row_def split: option.splits prod.splits sum.splits door_error.splits)

text \<open>The stretches of a keyed request that was answered.\<close>

lemma keyed_run:
  assumes run: "decrypt_with_keys ext lib w ready req k = (Inr resp, k1)"
    and ok: "genuine own vm k" "world_genuine own vm w"
  shows "\<exists>row task authorized task1 k2 k3 opened k4 k5. ready \<and> row_of_request req = Inr row \<and> task_run_of ext req = Inr task \<and>
    judge_keys ext lib w req task k = (Inr authorized, k2) \<and> task_project ext w req task authorized = Inr task1 \<and>
    open_row ext lib w row k3 = (Inr opened, k4) \<and> genuine own vm k3 \<and> genuine own vm k5 \<and> genuine own vm k1 \<and>
    derive_authorized lib k5 authorized = Inr (ry_signing_keys resp, ry_encryption_keys resp) \<and>
    derive_task_grant lib k1 task1 opened = Inr (ry_task_key resp) \<and>
    ry_secrets resp = map_option (\<lambda>_. case opened of None \<Rightarrow> NoSuchRow | Some r \<Rightarrow> DecryptedRow (or_plaintext r)) row"
proof -
  from run obtain row task authorized k2 task1 where s1: "ready" "row_of_request req = Inr row" "task_run_of ext req = Inr task"
    "judge_keys ext lib w req task k = (Inr authorized, k2)" "task_project ext w req task authorized = Inr task1"
    "answer_keyed ext lib w row authorized task1 (dw_meanwhile w 1 k2) = (Inr resp, k1)"
    by (auto simp: decrypt_with_keys_def split: if_splits sum.splits prod.splits)
  have k2: "genuine own vm k2"
    using s1(4) ok genuine_authorize [OF _ ok]
    by (cases "authorize_keys ext lib w req k") (auto simp: judge_keys_def split: if_splits)
  then have k3: "genuine own vm (dw_meanwhile w 1 k2)" using ok(2) by (simp add: world_genuine_def)
  obtain opened k4 where o: "open_row ext lib w row (dw_meanwhile w 1 k2) = (Inr opened, k4)"
    using s1(6) by (auto simp: answer_keyed_def split: prod.splits sum.splits)
  have k5: "genuine own vm (dw_meanwhile w 2 k4)" using genuine_open_row [OF o k3 ok(2)] ok(2) by (simp add: world_genuine_def)
  have "k1 = dw_meanwhile w 3 (dw_meanwhile w 2 k4)"
    "derive_authorized lib (dw_meanwhile w 2 k4) authorized = Inr (ry_signing_keys resp, ry_encryption_keys resp)"
    "derive_task_grant lib k1 task1 opened = Inr (ry_task_key resp)"
    "ry_secrets resp = map_option (\<lambda>_. case opened of None \<Rightarrow> NoSuchRow | Some r \<Rightarrow> DecryptedRow (or_plaintext r)) row"
    using s1(6) o by (auto simp: answer_keyed_def Let_def split: sum.splits)
  moreover from this(1) k5 have "genuine own vm k1" using ok(2) by (simp add: world_genuine_def)
  ultimately show ?thesis using s1 o k3 k5 by blast
qed

section \<open>The contract behind the answers\<close>

fun source_json :: "code_source \<Rightarrow> node_value" where
  "source_json (GitHubCode repo commit target) =
     JObj [(''GitHub'', JObj [(''repo'', JStr repo), (''commit'', JStr commit),
       (''build_target'', case target of None \<Rightarrow> JNull | Some t \<Rightarrow> JStr t)])]"
| "source_json (WasmUrlCode url hash target) =
     JObj [(''WasmUrl'', JObj [(''url'', JStr url), (''hash'', JStr hash),
       (''build_target'', case target of None \<Rightarrow> JNull | Some t \<Rightarrow> JStr t)])]"

definition version_view :: "contract \<Rightarrow> string \<Rightarrow> string \<Rightarrow> node_value" where
  "version_view s project_id version_key =
     (case get_version project_id version_key s of
        None \<Rightarrow> JNull
      | Some (v, active) \<Rightarrow>
          JObj [(''wasm_hash'', JStr version_key), (''source'', source_json (vi_source v)),
                (''added_at'', JScalar (show_nat (vi_added_at v))),
                (''is_active'', JScalar (if active then ''true'' else ''false''))])"

definition project_view :: "contract \<Rightarrow> string \<Rightarrow> node_value" where
  "project_view s project_id =
     (case projects s project_id of
        None \<Rightarrow> JNull
      | Some pj \<Rightarrow>
          JObj [(''uuid'', JStr (pj_uuid pj)), (''owner'', JStr (pj_owner pj)), (''name'', JStr (pj_name pj)),
                (''project_id'', JStr project_id), (''active_version'', JStr (pj_active_version pj)),
                (''created_at'', JScalar (show_nat (pj_created_at pj))),
                (''storage_deposit'', JStr (show_nat (pj_storage_deposit pj)))])"

text \<open>A node answers a view by the contract's state at the block it names, and at the block it is asked for.\<close>

definition node_answers :: "door_world \<Rightarrow> (string \<Rightarrow> contract) \<Rightarrow> bool" where
  "node_answers w state_at \<longleftrightarrow>
     (\<forall>pid key block r. dw_version_at w pid key block = Inr r \<longrightarrow>
        vd_value r = version_view (state_at (vd_block_hash r)) pid key \<and> (\<forall>h. block = Some h \<longrightarrow> vd_block_hash r = h)) \<and>
     (\<forall>pid block r. dw_project_at w pid block = Inr r \<longrightarrow>
        vd_value r = project_view (state_at (vd_block_hash r)) pid \<and> (\<forall>h. block = Some h \<longrightarrow> vd_block_hash r = h))"

definition published_in :: "contract \<Rightarrow> string \<Rightarrow> account \<Rightarrow> string \<Rightarrow> string \<Rightarrow> bool" where
  "published_in s pid owner uuid wasm \<longleftrightarrow>
     (\<exists>pj vs v url target. projects s pid = Some pj \<and> pj_owner pj = owner \<and> pj_uuid pj = uuid \<and>
        project_versions s uuid = Some vs \<and> vs wasm = Some v \<and> vi_source v = WasmUrlCode url wasm target)"

lemma node_answersD:
  assumes "node_answers w state_at"
  shows "dw_version_at w pid key block = Inr r \<Longrightarrow> vd_value r = version_view (state_at (vd_block_hash r)) pid key"
    "dw_version_at w pid key (Some h) = Inr r \<Longrightarrow> vd_block_hash r = h"
    "dw_project_at w pid block = Inr p \<Longrightarrow> vd_value p = project_view (state_at (vd_block_hash p)) pid"
    "dw_project_at w pid (Some h) = Inr p \<Longrightarrow> vd_block_hash p = h"
  using assms unfolding node_answers_def by blast+

lemma map_sum_Inr: "map_sum id f x = Inr y \<longleftrightarrow> (\<exists>z. x = Inr z \<and> y = f z)"
  by (cases x) auto

lemma one_block:
  assumes ok: "node_answers w state_at" and run: "project_at_one_block w pid wasm = (Inr version, Inr project)"
  shows "\<exists>h. version = version_view (state_at h) pid wasm \<and> project = project_view (state_at h) pid"
proof -
  note D = node_answersD [OF ok]
  obtain v where v: "dw_version_at w pid wasm None = Inr v"
    using run by (cases "dw_version_at w pid wasm None") (auto simp: project_at_one_block_def)
  obtain p where p: "dw_project_at w pid None = Inr p"
    using run v by (cases "dw_project_at w pid None") (auto simp: project_at_one_block_def)
  note run' = run [unfolded project_at_one_block_def v p, simplified]
  consider "vd_block_hash v = vd_block_hash p" "version = vd_value v" "project = vd_value p"
    | q where "dw_project_at w pid (Some (vd_block_hash v)) = Inr q" "version = vd_value v" "project = vd_value q"
    | u where "dw_version_at w pid wasm (Some (vd_block_hash p)) = Inr u" "version = vd_value u" "project = vd_value p"
    using run' by (auto simp: map_sum_Inr split: if_splits)
  then show ?thesis
    using D(1) [OF v] D(3) [OF p] D(1,2,3,4) by cases metis+
qed

lemma source_hash:
  "Option.bind (member_of ''WasmUrl'' (source_json src)) (\<lambda>y. Option.bind (member_of ''hash'' y) as_str) = Some wasm \<longleftrightarrow>
     (\<exists>url target. src = WasmUrlCode url wasm target)"
  by (cases src) auto

lemma version_view_matches:
  assumes "project_version_matches (version_view s pid wasm) wasm" "project_view s pid = view"
    and "project_owner_in ext view project = Some owner" "project_uuid_in view = Some uuid"
  shows "published_in s pid owner uuid wasm \<and> owner = pn_owner project"
  using assms
  by (auto simp: project_version_matches_def version_view_def project_view_def get_version_def project_owner_in_def
      project_uuid_in_def published_in_def parse_project_uuid_def source_hash
      split: option.splits if_splits sum.splits)

lemma published_on_contract:
  assumes "node_answers w state_at" "published_project ext w project wasm = Inr (owner, uuid)"
  shows "owner = pn_owner project \<and> (\<exists>h. published_in (state_at h) (pn_id project) owner uuid wasm)"
proof -
  from assms(2) obtain version view where v: "project_at_one_block w (pn_id project) wasm = (Inr version, Inr view)"
    "project_version_matches version wasm" "project_owner_in ext view project = Some owner" "project_uuid_in view = Some uuid"
    by (auto simp: published_project_def split: prod.splits sum.splits option.splits if_splits)
  from one_block [OF assms(1) v(1)] obtain h where
    "version = version_view (state_at h) (pn_id project) wasm" "project_view (state_at h) (pn_id project) = view" by metis
  with version_view_matches [of "state_at h" "pn_id project" wasm view ext project owner uuid] v(2-4) show ?thesis by blast
qed

section \<open>The task key\<close>

lemma bound_run:
  assumes "authorize_keys ext lib w req k = (Inr a, k1)" "run_of a = Some b" "bs_project b = Some p"
  shows "\<exists>pid project owner wasm. kq_project_id req = Some pid \<and> parse_project_id ext pid = Inr project \<and>
    kq_wasm req = Some wasm \<and> published_project ext w project wasm = Inr (owner, bp_uuid p) \<and>
    real_callers ext (kq_user req) (kq_predecessor req) = None"
proof -
  from authorize_keys_ok [OF assms(1)] obtain s e uuid wasm where
    v: "validate_family ext req signing_declaration (kq_signing_keys req) = Inr s"
      "validate_family ext req encryption_declaration (kq_encryption_keys req) = Inr e"
      "kq_wasm req = Some wasm" "run_established ext w req wasm uuid" "bind_families s e uuid = Inr a" by blast
  from v(5) assms(2) obtain v1 where v1: "bind_all v1 uuid = Inr b" "s = Some v1 \<or> e = Some v1"
    by (auto simp: bind_families_def run_of_def parse_optional_Inr split: sum.splits if_splits)
  from bind_all_Inr(4) [OF v1(1)] assms(3) have uuid: "uuid = Some (bp_uuid p)"
    by (auto simp: project_bound_def split: option.splits)
  then obtain pid where pid: "kq_project_id req = Some pid" using established_uuid(1) [OF v(4)] by auto
  from v(4) pid uuid obtain project owner where "parse_project_id ext pid = Inr project"
    "published_project ext w project wasm = Inr (owner, bp_uuid p)" by (auto simp: run_established_def)
  moreover have "real_callers ext (kq_user req) (kq_predecessor req) = None"
    using v(1,2) v1(2)
    by (auto simp: validate_family_def validate_request_Inr real_callers_def parse_optional_Inr split: if_splits sum.splits option.splits)
  ultimately show ?thesis using pid v(3) by blast
qed

lemma task_run:
  assumes "task_run_of ext req = Inr (Some t)"
  shows "kq_task_key req" "kq_project_id req = Some (pn_id (kr_project t))" "kq_owner req = Some (kr_owner t)"
    "kq_accessor req = Some (ProjectAcc (pn_id (kr_project t)))" "kq_wasm req = Some (kr_wasm_sha256 t)"
    "parse_project_id ext (pn_id (kr_project t)) = Inr (kr_project t)"
proof -
  have id: "pn_id project = raw" if "parse_project_id ext raw = Inr project" for raw project
    using that by (auto simp: parse_project_id_def split: option.splits if_splits)
  have wasm: "hash = h" if "parse_wasm_sha256 h = Inr hash" for h hash
    using that by (auto simp: parse_wasm_sha256_def split: if_splits)
  from assms obtain raw h rp ro project where t: "kq_task_key req" "kq_project_id req = Some raw" "parse_project_id ext raw = Inr project"
    "kq_wasm req = Some h" "parse_wasm_sha256 h = Inr (kr_wasm_sha256 t)" "kq_accessor req = Some (ProjectAcc rp)"
    "kq_owner req = Some ro" "rp = pn_id project" "real_account ext ro = Inr (kr_owner t)" "kr_project t = project"
    by (auto simp: task_run_of_def validate_task_request_def map_sum_Inr
        split: if_splits sum.splits option.splits secret_accessor.splits)
  note raw = id [OF t(3)] and hash = wasm [OF t(5)]
  from t(9) have "ro = kr_owner t" by (simp add: real_account_Inr)
  with t raw hash show "kq_task_key req" "kq_project_id req = Some (pn_id (kr_project t))" "kq_owner req = Some (kr_owner t)"
    "kq_accessor req = Some (ProjectAcc (pn_id (kr_project t)))" "kq_wasm req = Some (kr_wasm_sha256 t)"
    "parse_project_id ext (pn_id (kr_project t)) = Inr (kr_project t)" by simp_all
qed

lemma task_published:
  assumes "task_run_of ext req = Inr task" "judge_keys ext lib w req task k = (Inr authorized, k2)"
    "task_project ext w req task authorized = Inr (Some (t, uuid))"
  shows "task = Some t \<and> real_callers ext (kq_user req) (kq_predecessor req) = None \<and>
    (\<exists>owner. published_project ext w (kr_project t) (kr_wasm_sha256 t) = Inr (owner, uuid))"
proof -
  from assms(3) have task: "task = Some t"
    by (auto simp: task_project_def map_sum_Inr split: option.splits prod.splits)
  note T = task_run [OF assms(1) [unfolded task]]
  show ?thesis
  proof (cases authorized)
    case None
    with assms(3) task show ?thesis by (auto simp: task_project_def map_sum_Inr split: option.splits)
  next
    case (Some a)
    with assms(3) task obtain b p where b: "run_of a = Some b" "bs_project b = Some p" "uuid = bp_uuid p"
      by (auto simp: task_project_def bind_eq_Some_conv split: option.splits)
    from assms(2) Some obtain k3 where "authorize_keys ext lib w req k = (Inr a, k3)"
      by (cases "authorize_keys ext lib w req k") (auto simp: judge_keys_def map_sum_Inr split: if_splits)
    from bound_run [OF this b(1,2)] T b(3) task show ?thesis by auto
  qed
qed

section \<open>Properties\<close>

text \<open>
  C10. Declared keys go to published builds of their project only. When a keyed request is answered,
  every key of both families it declared comes back and no other, each the HMAC, under the master its
  declaration names (the keystore's own, or that of the vault and never another), of the string of
  its project or build, its caller and its path. For a run of a project there was one block at which
  the contract had the project under the owner its id names, with the uuid the keys are bound to, and
  the running build as a \<open>WasmUrl\<close> version of it; and every vault named is a sub-account of that
  owner, names it as its parent, and passed the gate. Other requests may change the keystore at every
  point where the handler waits.
\<close>

theorem keys_issued_to_published_builds:
  assumes "decrypt_with_keys ext lib w ready req k = (Inr resp, k1)" "names_keys req"
    and "genuine own vault_master k" "world_genuine own vault_master w" "accounts_plain ext" "node_answers w state_at"
  shows "\<exists>uuid wasm. kq_wasm req = Some wasm \<and> (uuid = None \<longleftrightarrow> kq_project_id req = None) \<and>
    (\<forall>pid. kq_project_id req = Some pid \<longrightarrow> (\<exists>project h. parse_project_id ext pid = Inr project \<and>
       published_in (state_at h) (pn_id project) (pn_owner project) (the uuid) wasm \<and>
       (\<forall>v. (\<exists>d \<in> set (kq_signing_keys req). sr_vault d = Some v) \<or> (\<exists>d \<in> set (kq_encryption_keys req). er_vault d = Some v) \<longrightarrow>
          vault_of_owner w (pn_owner project) v))) \<and>
    ry_signing_keys resp = issued_keys lib own vault_master signing_declaration req uuid wasm (kq_signing_keys req) \<and>
    ry_encryption_keys resp = issued_keys lib own vault_master encryption_declaration req uuid wasm (kq_encryption_keys req)"
proof -
  from keyed_run [OF assms(1,3,4)] obtain task authorized k2 k5 where j: "judge_keys ext lib w req task k = (Inr authorized, k2)"
    "derive_authorized lib k5 authorized = Inr (ry_signing_keys resp, ry_encryption_keys resp)" "genuine own vault_master k5" by blast
  obtain a k6 where a: "authorize_keys ext lib w req k = (Inr a, k6)" "authorized = Some a"
    using j(1) assms(2) by (cases "authorize_keys ext lib w req k") (auto simp: judge_keys_def map_sum_Inr)
  from authorized_keys_issued [OF a(1) j(2) [unfolded a(2)] assms(5) j(3)] obtain uuid wasm where
    r: "kq_wasm req = Some wasm" "run_established ext w req wasm uuid"
    "ry_signing_keys resp = issued_keys lib own vault_master signing_declaration req uuid wasm (kq_signing_keys req)"
    "ry_encryption_keys resp = issued_keys lib own vault_master encryption_declaration req uuid wasm (kq_encryption_keys req)" by blast
  have est: "\<exists>project h. parse_project_id ext pid = Inr project \<and>
      published_in (state_at h) (pn_id project) (pn_owner project) (the uuid) wasm \<and>
      (\<forall>v. (\<exists>d \<in> set (kq_signing_keys req). sr_vault d = Some v) \<or> (\<exists>d \<in> set (kq_encryption_keys req). er_vault d = Some v) \<longrightarrow>
         vault_of_owner w (pn_owner project) v)" if pid: "kq_project_id req = Some pid" for pid
  proof -
    from r(2) pid obtain project owner where p: "parse_project_id ext pid = Inr project"
      "published_project ext w project wasm = Inr (owner, the uuid)"
      "\<forall>d \<in> set (kq_signing_keys req). \<forall>v. sr_vault d = Some v \<longrightarrow> vault_of_owner w owner v"
      "\<forall>d \<in> set (kq_encryption_keys req). \<forall>v. er_vault d = Some v \<longrightarrow> vault_of_owner w owner v"
      by (auto simp: run_established_def)
    from published_on_contract [OF assms(6) p(2)] obtain h where
      h: "owner = pn_owner project" "published_in (state_at h) (pn_id project) owner (the uuid) wasm" by blast
    show ?thesis by (intro exI [of _ project] exI [of _ h]) (use p h in auto)
  qed
  show ?thesis
    by (intro exI [of _ uuid] exI [of _ wasm] conjI r(1,3,4) established_uuid(1) [OF r(2)] allI impI) (rule est)
qed

text \<open>
  C14. A secret leaves the keystore only for a caller its condition admits. When a row is opened, the
  contract had it; a row named after an agent is that agent's own, and the agent is the caller; its
  condition was judged in full and in time, with every pattern compiled, and its reading in
  three-valued logic is that it holds; a vault the row is bound to is verified and not unlocked; and
  the plaintext is what the seed of that row, under the master of that vault, decrypts.
\<close>

theorem secret_leaves_only_when_admitted:
  assumes "decrypt_secret_row ext lib w row k = (Inr opened, k1)"
  shows "\<exists>profile vault_id c seed b64 blob plaintext k2.
    dw_secret_with_vault w (accessor_to_contract_json (sw_accessor row)) (sw_profile row) (sw_owner row) = Inr (Some profile, vault_id) \<and>
    parse_optional_vault_id ext vault_id = Inr (or_vault opened) \<and>
    (dw_implicit_account w (sw_profile row) \<longrightarrow> sw_user row = sw_profile row \<and> sw_owner row = sw_profile row) \<and>
    dw_condition w (value_at ''access'' profile) = Some c \<and> dw_within_bounds w c \<and> dw_in_time w \<and>
    (\<forall>p \<in> patterns_in c. compiled_as (dw_engine w) p \<noteq> None) \<and>
    kleene \<lparr>jd_client = dw_client w, jd_patterns = compiled_as (dw_engine w), jd_facts = row_facts row, jd_now = dw_now w\<rparr>
      (sw_user row) c = Some True \<and>
    (\<forall>v. or_vault opened = Some v \<longrightarrow> dw_verified w v = Inr (JScalar ''true'') \<and>
       (\<exists>st. dw_gate_state w v = Inr st \<and> member_of ''unlocked'' st = Some (JScalar ''false''))) \<and>
    secret_seed (sw_accessor row) (sw_owner row) (sw_profile row) (secret_branch_of profile) = Inr seed \<and>
    as_str (value_at ''encrypted_secrets'' profile) = Some b64 \<and> dw_base64_decode w b64 = Some blob \<and>
    decrypt_secret lib (or_vault opened) seed blob k2 = (Inr plaintext, k1) \<and> or_plaintext opened = dw_base64_encode w plaintext"
proof -
  from assms obtain profile customer c u k0 shown where s: "read_row ext w row = Inr (profile, customer)"
    "judge_row w row profile = Inr c" "app_ensure_customer_loaded lib w customer k = (Inr u, k0)"
    "open_blob lib w row profile customer (dw_meanwhile w 0 k0) = (Inr shown, k1)"
    "or_plaintext opened = shown" "or_vault opened = customer"
    by (auto simp: decrypt_secret_row_def split: sum.splits prod.splits)
  from s(1) obtain vault_id where read: "dw_secret_with_vault w (accessor_to_contract_json (sw_accessor row)) (sw_profile row) (sw_owner row)
      = Inr (Some profile, vault_id)" "parse_optional_vault_id ext vault_id = Inr customer"
    by (auto simp: read_row_def map_sum_Inr split: if_splits sum.splits option.splits)
  from s(2) have agent: "dw_implicit_account w (sw_profile row) \<longrightarrow> sw_user row = sw_profile row \<and> sw_owner row = sw_profile row"
    by (auto simp: judge_row_def enforce_agent_secret_def split: option.splits if_splits)
  from s(2) have judged: "dw_condition w (value_at ''access'' profile) = Some c"
    "judge_access (dw_within_bounds w) (dw_engine w) (dw_in_time w) (dw_client w) (row_facts row) (dw_now w) (sw_user row) c = Inr ()"
    by (auto simp: judge_row_def split: option.splits sum.splits)
  note kleene = judged(2) [unfolded judge_access_admits]
  have gate: "\<forall>v. customer = Some v \<longrightarrow> dw_verified w v = Inr (JScalar ''true'') \<and>
      (\<exists>st. dw_gate_state w v = Inr st \<and> member_of ''unlocked'' st = Some (JScalar ''false''))"
    using app_ensure_ok s(3) by blast
  from s(4) obtain seed b64 blob plaintext where blob:
    "secret_seed (sw_accessor row) (sw_owner row) (sw_profile row) (secret_branch_of profile) = Inr seed"
    "as_str (value_at ''encrypted_secrets'' profile) = Some b64" "dw_base64_decode w b64 = Some blob"
    "decrypt_secret lib customer seed blob (dw_meanwhile w 0 k0) = (Inr plaintext, k1)" "shown = dw_base64_encode w plaintext"
    by (auto simp: open_blob_def split: sum.splits option.splits prod.splits)
  show ?thesis using read agent judged(1) kleene gate blob s(5,6) by blast
qed

text \<open>
  C18. A task key is given only beside the row of the project's own that opened for the caller: when an
  answer holds a task key, the request asked for it and named a row of the run's project, that row
  was opened and its plaintext is in the same answer, the caller and the predecessor are accounts,
  the running build is a published version of the project, and the key is the HMAC, under the master
  of the vault the row is bound to, of the project's uuid and the owner of that row.
\<close>

theorem task_key_beside_opened_row:
  assumes "decrypt_with_keys ext lib w ready req k = (Inr resp, k1)" "ry_task_key resp = Some g"
    and "genuine own vault_master k" "world_genuine own vault_master w" "node_answers w state_at"
  shows "\<exists>row opened k2 k3 project uuid wasm h. kq_task_key req \<and> row_of_request req = Inr (Some row) \<and>
    kq_project_id req = Some (pn_id (project :: project_name)) \<and> sw_accessor row = ProjectAcc (pn_id project) \<and>
    decrypt_secret_row ext lib w row k2 = (Inr opened, k3) \<and> ry_secrets resp = Some (DecryptedRow (or_plaintext opened)) \<and>
    real_callers ext (kq_user req) (kq_predecessor req) = None \<and> kq_wasm req = Some wasm \<and>
    published_in (state_at h) (pn_id project) (pn_owner project) uuid wasm \<and>
    g = \<lparr>tg_key = ml_hex lib (ml_hmac lib (master_named own vault_master (or_vault opened)) (task_key_input uuid (sw_owner row))),
         tg_admitted_by_name = or_admitted_by_name opened, tg_vault = or_vault opened\<rparr>"
proof -
  from keyed_run [OF assms(1,3,4)] obtain row task authorized task1 k2 k3 opened k4 where
    r: "row_of_request req = Inr row" "task_run_of ext req = Inr task" "judge_keys ext lib w req task k = (Inr authorized, k2)"
      "task_project ext w req task authorized = Inr task1" "open_row ext lib w row k3 = (Inr opened, k4)" "genuine own vault_master k1"
      "derive_task_grant lib k1 task1 opened = Inr (ry_task_key resp)"
      "ry_secrets resp = map_option (\<lambda>_. case opened of None \<Rightarrow> NoSuchRow | Some r \<Rightarrow> DecryptedRow (or_plaintext r)) row" by blast
  from r(7) assms(2) obtain t uuid row1 key where g: "task1 = Some (t, uuid)" "opened = Some row1"
    "derive_task_key lib k1 (task_key_input uuid (kr_owner t)) (or_vault row1) = Inr key"
    "g = \<lparr>tg_key = ml_hex lib key, tg_admitted_by_name = or_admitted_by_name row1, tg_vault = or_vault row1\<rparr>"
    by (auto simp: derive_task_grant_def split: option.splits sum.splits)
  note pub = task_published [OF r(2,3) r(4) [unfolded g(1)]]
  note T = task_run [OF r(2) [unfolded conjunct1 [OF pub]]]
  obtain owner where owner: "published_project ext w (kr_project t) (kr_wasm_sha256 t) = Inr (owner, uuid)" using pub by blast
  from published_on_contract [OF assms(5) owner] obtain h where
    h: "published_in (state_at h) (pn_id (kr_project t)) (pn_owner (kr_project t)) uuid (kr_wasm_sha256 t)" by blast
  from r(1) T(3,4) obtain row0 where row0: "row = Some row0" "sw_accessor row0 = ProjectAcc (pn_id (kr_project t))" "sw_owner row0 = kr_owner t"
    by (auto simp: row_of_request_def split: option.splits)
  have opened: "decrypt_secret_row ext lib w row0 k3 = (Inr row1, k4)"
    using r(5) row0(1) g(2) by (auto simp: open_row_def split: prod.splits sum.splits door_error.splits)
  from g(3) obtain m where "master_for k1 (or_vault row1) = Inr m" "key = ml_hmac lib m (task_key_input uuid (kr_owner t))"
    by (auto simp: derive_task_key_def map_sum_Inr)
  with genuine_master_for [OF r(6)] g(4) row0(3)
  have key: "g = \<lparr>tg_key = ml_hex lib (ml_hmac lib (master_named own vault_master (or_vault row1)) (task_key_input uuid (sw_owner row0))),
      tg_admitted_by_name = or_admitted_by_name row1, tg_vault = or_vault row1\<rparr>" by simp
  have shown: "ry_secrets resp = Some (DecryptedRow (or_plaintext row1))" using r(8) row0(1) g(2) by simp
  show ?thesis
    by (intro exI conjI)
      (rule T(1), rule r(1) [unfolded row0(1)], rule T(2), rule row0(2), rule opened, rule shown,
       rule conjunct1 [OF conjunct2 [OF pub]], rule T(5), rule h, rule key)
qed

section \<open>Witnesses\<close>

definition published_state :: contract where
  "published_state = (new_contract ''o'' None None None)
     \<lparr>projects := [''a/x'' \<mapsto> \<lparr>pj_uuid = sample_uuid, pj_owner = ''a'', pj_name = ''x'', pj_active_version = sample_build,
        pj_created_at = 0, pj_storage_deposit = 0\<rparr>],
      project_versions := [sample_uuid \<mapsto> [sample_build \<mapsto>
        \<lparr>vi_source = WasmUrlCode ''u'' sample_build None, vi_added_at = 0, vi_storage_deposit = 0\<rparr>]]\<rparr>"

definition seen_at :: "string option \<Rightarrow> node_value \<Rightarrow> viewed" where
  "seen_at block v = \<lparr>vd_value = v, vd_block_hash = (case block of None \<Rightarrow> ''h'' | Some h \<Rightarrow> h), vd_block_height = 1\<rparr>"

definition demo_world :: door_world where
  "demo_world =
     \<lparr>dw_secret_with_vault = (\<lambda>_ _ _. Inr (Some (JObj [(''access'', JNull), (''encrypted_secrets'', JStr (replicate 40 CHR ''z''))]), None)),
      dw_version_at = (\<lambda>pid key block. Inr (seen_at block (version_view published_state pid key))),
      dw_project_at = (\<lambda>pid block. Inr (seen_at block (project_view published_state pid))),
      dw_get_state = (\<lambda>_. Inl []), dw_verified = (\<lambda>_. Inl []), dw_gate_state = (\<lambda>_. Inl []), dw_ckd = (\<lambda>_ _ _. Inl ReadFailed),
      dw_mpc_context = False, dw_condition = (\<lambda>_. Some KsAllowAll), dw_within_bounds = (\<lambda>_. True), dw_engine = (\<lambda>_. None),
      dw_in_time = True, dw_client = Some quiet_client, dw_now = Some 0, dw_now_again = Some 0, dw_implicit_account = (\<lambda>_. False),
      dw_below = (\<lambda>_ _. False), dw_base64_decode = Some, dw_base64_encode = id, dw_meanwhile = (\<lambda>_ k. k)\<rparr>"

abbreviation own_keystore :: keystore where "own_keystore \<equiv> from_master_secret ''D''"

definition sample_key :: signing_key_request where
  "sample_key = \<lparr>sr_path = ''k'', sr_key_type = KeyEd25519, sr_bind = BindProject, sr_caller = KeyOfSigner, sr_vault = None\<rparr>"

definition keyed_demo :: keyed_request where
  "keyed_demo =
     \<lparr>kq_accessor = Some (ProjectAcc ''a/x''), kq_profile = Some ''p'', kq_owner = Some ''a'', kq_user = ''b'', kq_wasm = Some sample_build,
      kq_predecessor = None, kq_project_id = Some ''a/x'', kq_signing_keys = [sample_key], kq_encryption_keys = [], kq_task_key = True\<rparr>"

definition demo_row :: secret_row where
  "demo_row = \<lparr>sw_accessor = ProjectAcc ''a/x'', sw_profile = ''p'', sw_owner = ''a'', sw_user = ''b'', sw_wasm = Some sample_build,
     sw_predecessor = None\<rparr>"

lemma demo_genuine: "genuine ''D'' vm own_keystore" "world_genuine ''D'' vm demo_world" "node_answers demo_world (\<lambda>_. published_state)"
  by (simp_all add: genuine_def world_genuine_def node_answers_def from_master_secret_def demo_world_def seen_at_def)

lemma demo_project: "parse_project_id key_externals ''a/x'' = Inr \<lparr>pn_id = ''a/x'', pn_owner = ''a''\<rparr>"
  by (simp add: parse_project_id_def split_once_def key_externals_def MAX_PROJECT_NAME_LEN_def utf8_chars.simps is_alphanumeric_def
      is_ascii_def is_ascii_alphanumeric_def)

lemma demo_account: "real_account key_externals ''a'' = Inr ''a''" "real_account key_externals ''b'' = Inr ''b''"
  by (simp_all add: real_account_Inr key_externals_def)

lemma demo_family: "validate_family key_externals keyed_demo signing_declaration [sample_key] = Inr (Some (project_run ''b''))"
proof -
  have "validate_request key_externals signing_declaration (Some ''a/x'') ''b'' None (Some sample_build) [sample_key] = Inr (project_run ''b'')"
    by (simp add: validate_request_Inr parse_optional_def demo_project demo_account sample_build_parses may_declare_def
        parse_key_path_Inr lower_alnum_def project_run_def signing_declaration_def MAX_SIGNING_KEYS_def sample_key_def)
  then show ?thesis by (simp add: validate_family_def keyed_demo_def)
qed

lemma demo_published: "published_project key_externals demo_world \<lparr>pn_id = ''a/x'', pn_owner = ''a''\<rparr> sample_build = Inr (''a'', sample_uuid)"
  by (simp add: published_project_def demo_world_def project_at_one_block_def seen_at_def version_view_def project_view_def
      published_state_def get_version_def project_version_matches_def project_owner_in_def project_uuid_in_def key_externals_def
      sample_uuid_def minted_uuid_parses)

lemma demo_authorized:
  "\<exists>a b. authorize_keys key_externals demo_libs demo_world keyed_demo own_keystore = (Inr a, own_keystore) \<and>
     ak_signing a = Some b \<and> ak_encryption a = None \<and> bs_project b \<noteq> None \<and> (\<forall>x \<in> set (bs_keys b). bk_vault x = None \<and>
       di_family (bk_input x) = SigningFamily) \<and> bs_family b = SigningFamily"
proof -
  have u: "plain sample_uuid" using plain_fields(2) [OF minted_uuid_parses [of 1]] by (simp add: sample_uuid_def)
  then obtain b where b: "bind_all (project_run ''b'') (Some sample_uuid) = Inr b" "bs_project b \<noteq> None"
    "\<forall>x \<in> set (bs_keys b). bk_vault x = None \<and> di_family (bk_input x) = SigningFamily" "bs_family b = SigningFamily"
    by (auto simp: project_run_def key_declared_def signing_declaration_def account_named_def bind_all_def bind_key_def
        binding_of_def input_of_def derivation_of_caller_def from_parts_def derivation_parts_def label_simps)
  have none: "validate_family key_externals keyed_demo encryption_declaration [] = Inr None" by (simp add: family_none)
  have "vaults_of_both (Some (project_run ''b'')) None = []"
    by (simp add: vaults_of_both_def vaults_named_def project_run_def map_filter_simps key_declared_def signing_declaration_def)
  then have p: "authorize_project key_externals demo_libs demo_world \<lparr>pn_id = ''a/x'', pn_owner = ''a''\<rparr> sample_build
      (vaults_of_both (Some (project_run ''b'')) None) own_keystore = (Inr sample_uuid, own_keystore)"
    by (simp add: authorize_project_def demo_published)
  have req: "kq_signing_keys keyed_demo = [sample_key]" "kq_encryption_keys keyed_demo = []" by (simp_all add: keyed_demo_def)
  have run: "vs_project (project_run ''b'') = Some \<lparr>pn_id = ''a/x'', pn_owner = ''a''\<rparr>" "vs_wasm_sha256 (project_run ''b'') = sample_build"
    by (simp_all add: project_run_def)
  have "authorize_keys key_externals demo_libs demo_world keyed_demo own_keystore =
      (Inr \<lparr>ak_signing = Some b, ak_encryption = None\<rparr>, own_keystore)"
    by (simp add: authorize_keys_def req demo_family none run p bind_families_def parse_optional_def b(1))
  with b show ?thesis by auto
qed

lemma demo_row_opens:
  "\<exists>opened k1. decrypt_secret_row key_externals demo_libs demo_world demo_row own_keystore = (Inr opened, k1) \<and> or_vault opened = None \<and>
     ks_default_master k1 = ''D''"
  by (simp add: decrypt_secret_row_def read_row_def demo_world_def parse_optional_vault_id_def judge_row_def enforce_agent_secret_def
      demo_row_def judge_access_def compile_patterns_def app_ensure_customer_loaded_def open_blob_def value_at_def decrypt_secret_def
      decrypt_legacy_def derive_keypair_def derive_and_cache_def master_for_def from_master_secret_def aead_result_def demo_libs_def
      MAX_ENCRYPTED_SIZE_def ECIES_VERSION_def Let_def)

lemma derive_each_default:
  "\<forall>x \<in> set keys. bk_vault x = None \<and> di_family (bk_input x) = SigningFamily \<Longrightarrow>
     \<exists>m. derive_each lib k SigningFamily out keys = Inr m"
  by (induction keys arbitrary: out)
    (auto simp: derive_bound_key_def derive_signing_key_seed_def derive_declared_key_def master_for_def)

lemma demo_answered:
  "\<exists>resp k1 g. decrypt_with_keys key_externals demo_libs demo_world True keyed_demo own_keystore = (Inr resp, k1) \<and> ry_task_key resp = Some g"
proof -
  obtain a b where a: "authorize_keys key_externals demo_libs demo_world keyed_demo own_keystore = (Inr a, own_keystore)"
    "ak_signing a = Some b" "ak_encryption a = None" "bs_project b \<noteq> None"
    "\<forall>x \<in> set (bs_keys b). bk_vault x = None \<and> di_family (bk_input x) = SigningFamily" "bs_family b = SigningFamily"
    using demo_authorized by blast
  obtain opened k1 where o: "decrypt_secret_row key_externals demo_libs demo_world demo_row own_keystore = (Inr opened, k1)" "or_vault opened = None"
    using demo_row_opens by blast
  obtain m where m: "derive_keys demo_libs k1 b = Inr m" using derive_each_default [OF a(5)] by (metis a(6) derive_keys_def)
  have row: "row_of_request keyed_demo = Inr (Some demo_row)" by (simp add: row_of_request_def keyed_demo_def demo_row_def)
  let ?t = "\<lparr>kr_project = \<lparr>pn_id = ''a/x'', pn_owner = ''a''\<rparr>, kr_wasm_sha256 = sample_build, kr_owner = ''a''\<rparr>"
  have task: "task_run_of key_externals keyed_demo = Inr (Some ?t)"
    by (simp add: task_run_of_def validate_task_request_def keyed_demo_def demo_project demo_account sample_build_parses)
  have named: "names_keys keyed_demo" by (simp add: names_keys_def keyed_demo_def)
  have quiet: "dw_meanwhile demo_world i k = k" for i k by (simp add: demo_world_def)
  show ?thesis using a(4)
    by (auto simp: decrypt_with_keys_def row task judge_keys_def named a(1-3) task_project_def run_of_def answer_keyed_def open_row_def quiet o
        derive_authorized_def parse_optional_def m derive_task_grant_def derive_task_key_def master_for_def Let_def)
qed

theorem keys_issued_to_published_builds_witness:
  "\<exists>resp k1. decrypt_with_keys key_externals demo_libs demo_world True keyed_demo own_keystore = (Inr resp, k1) \<and>
     ry_encryption_keys resp = None \<and> ry_signing_keys resp \<noteq> None \<and> dom (the (ry_signing_keys resp)) = {''k''}"
proof -
  obtain resp k1 where run: "decrypt_with_keys key_externals demo_libs demo_world True keyed_demo own_keystore = (Inr resp, k1)"
    using demo_answered by blast
  have named: "names_keys keyed_demo" by (simp add: names_keys_def keyed_demo_def)
  from keys_issued_to_published_builds [OF run named demo_genuine(1,2) key_externals_plain demo_genuine(3), of "\<lambda>_. []"]
  obtain uuid wasm where "ry_signing_keys resp = issued_keys demo_libs ''D'' (\<lambda>_. []) signing_declaration keyed_demo uuid wasm [sample_key]"
    "ry_encryption_keys resp = issued_keys demo_libs ''D'' (\<lambda>_. []) encryption_declaration keyed_demo uuid wasm []"
    by (auto simp: keyed_demo_def)
  with run show ?thesis by (simp add: issued_keys_def signing_declaration_def sample_key_def)
qed

theorem secret_leaves_only_when_admitted_witness:
  "\<exists>opened k1. decrypt_secret_row key_externals demo_libs demo_world demo_row own_keystore = (Inr opened, k1) \<and>
     dw_condition demo_world JNull = Some KsAllowAll \<and> or_vault opened = None"
proof -
  obtain opened k1 where run: "decrypt_secret_row key_externals demo_libs demo_world demo_row own_keystore = (Inr opened, k1)"
    using demo_row_opens by blast
  from secret_leaves_only_when_admitted [OF run] have "or_vault opened = None"
    by (auto simp: demo_world_def parse_optional_vault_id_def)
  with run show ?thesis by (simp add: demo_world_def)
qed

theorem task_key_beside_opened_row_witness:
  "\<exists>resp k1 g plaintext. decrypt_with_keys key_externals demo_libs demo_world True keyed_demo own_keystore = (Inr resp, k1) \<and>
     ry_task_key resp = Some g \<and> ry_secrets resp = Some (DecryptedRow plaintext)"
proof -
  obtain resp k1 g where run: "decrypt_with_keys key_externals demo_libs demo_world True keyed_demo own_keystore = (Inr resp, k1)"
    "ry_task_key resp = Some g" using demo_answered by blast
  from task_key_beside_opened_row [OF run demo_genuine, of "\<lambda>_. []"] run show ?thesis by blast
qed

end
