(* ===== verification/Civil_Date.thy ===== *)
theory Civil_Date
  imports Rust_Text
begin

text \<open>
  The time in a signed sentence (\<open>iso8601_utc\<close> of \<open>worker/src/tasks/statement.rs\<close>): a number of seconds
  since 1970 as a date and a time of day. The reference is the calendar told day by day: the day after
  a date by the lengths of the months, and the leap years of the Gregorian rule. The day number of the
  code is split into a year that begins in March and a day of that year; both are unique, so one day
  more is one day later in the calendar.
\<close>

section \<open>The code\<close>

text \<open>Format \<open>{n:0w}\<close>: decimal, with zeros in front to at least \<open>w\<close> characters.\<close>

definition zero_padded :: "nat \<Rightarrow> int \<Rightarrow> string" where
  "zero_padded w n = (let s = show_nat (nat n) in replicate (w - length s) CHR ''0'' @ s)"

definition year_of_era :: "int \<Rightarrow> int" where
  "year_of_era doe = (doe - doe div 1460 + doe div 36524 - doe div 146096) div 365"

definition month_and_day :: "int \<Rightarrow> int \<times> int" where
  "month_and_day doy =
     (let mp = (5 * doy + 2) div 153;
          d = doy - (153 * mp + 2) div 5 + 1;
          month = (if mp < 10 then mp + 3 else mp - 9)
      in (month, d))"

definition civil_from_days :: "int \<Rightarrow> int \<times> int \<times> int" where
  "civil_from_days days =
     (let z = days + 719468;
          era = z div 146097;
          doe = z - era * 146097;
          yoe = year_of_era doe;
          doy = doe - (365 * yoe + yoe div 4 - yoe div 100);
          (month, d) = month_and_day doy;
          year = yoe + era * 400 + (if month \<le> 2 then 1 else 0)
      in (year, month, d))"

definition stamp :: "int \<times> int \<times> int \<Rightarrow> int \<times> int \<times> int \<Rightarrow> string" where
  "stamp date time =
     (case (date, time) of ((year, month, d), (h, m, s)) \<Rightarrow>
        zero_padded 4 year @ ''-'' @ zero_padded 2 month @ ''-'' @ zero_padded 2 d @ ''T''
          @ zero_padded 2 h @ '':'' @ zero_padded 2 m @ '':'' @ zero_padded 2 s @ ''Z'')"

definition iso8601_utc :: "int \<Rightarrow> string option" where
  "iso8601_utc secs =
     (if \<not> (0 \<le> secs \<and> secs < 253402300800) then None
      else
        let days = secs div 86400; rem = secs mod 86400;
            h = rem div 3600; m = (rem mod 3600) div 60; s = rem mod 60
        in Some (stamp (civil_from_days days) (h, m, s)))"

section \<open>The calendar\<close>

definition leap_year :: "int \<Rightarrow> bool" where
  "leap_year y \<longleftrightarrow> 4 dvd y \<and> (\<not> 100 dvd y \<or> 400 dvd y)"

definition month_length :: "bool \<Rightarrow> int \<Rightarrow> int" where
  "month_length leap m =
     (if m = 2 then (if leap then 29 else 28) else if m \<in> {4, 6, 9, 11} then 30 else 31)"

definition day_after :: "int \<times> int \<times> int \<Rightarrow> int \<times> int \<times> int" where
  "day_after date =
     (case date of (y, m, d) \<Rightarrow>
        (if d < month_length (leap_year y) m then (y, m, d + 1)
         else if m = 12 then (y + 1, 1, 1) else (y, m + 1, 1)))"

section \<open>Years that begin in March\<close>

definition year_start :: "int \<Rightarrow> int" where
  "year_start y = 365 * y + y div 4 - y div 100 + y div 400"

definition year_length :: "int \<Rightarrow> int" where
  "year_length y = (if leap_year (y + 1) then 366 else 365)"

lemma leap_year_mod: "leap_year y \<longleftrightarrow> y mod 4 = 0 \<and> (y mod 100 \<noteq> 0 \<or> y mod 400 = 0)"
  by (simp add: leap_year_def dvd_eq_mod_eq_0)

lemma div_step:
  fixes y k :: int
  assumes "0 < k"
  shows "(y + 1) div k = y div k + (if (y + 1) mod k = 0 then 1 else 0)"
proof (cases "y mod k + 1 = k")
  case True
  have "y + 1 = k * (y div k) + (y mod k + 1)" by simp
  also have "\<dots> = k * (y div k + 1) + 0" using True by (simp add: distrib_left)
  finally have y: "y + 1 = k * (y div k + 1) + 0" .
  show ?thesis
    using int_div_pos_eq [OF y _ assms] int_mod_pos_eq [OF y _ assms] by simp
next
  case False
  have y: "y + 1 = k * (y div k) + (y mod k + 1)" by simp
  have "0 \<le> y mod k" "y mod k < k" using assms by simp_all
  with False have "0 \<le> y mod k + 1" "y mod k + 1 < k" "y mod k + 1 \<noteq> 0" by linarith+
  with int_div_pos_eq [OF y] int_mod_pos_eq [OF y] show ?thesis by simp
qed

lemma mod_zero_trans: "n mod k = 0 \<Longrightarrow> j dvd k \<Longrightarrow> n mod j = 0" for n k j :: int
  unfolding dvd_eq_mod_eq_0 [symmetric] by (rule dvd_trans)

lemma year_start_step: "year_start (y + 1) = year_start y + year_length y"
proof -
  have count: "365 * (y + 1) + (a + of_bool P) - (b + of_bool Q) + (c + of_bool R) =
      365 * y + a - b + c + (if P \<and> (\<not> Q \<or> R) then 366 else 365)"
    if "R \<longrightarrow> Q" "Q \<longrightarrow> P" for a b c :: int and P Q R
    using that by (cases P; cases Q; cases R) simp_all
  have nested: "(y + 1) mod 400 = 0 \<longrightarrow> (y + 1) mod 100 = 0" "(y + 1) mod 100 = 0 \<longrightarrow> (y + 1) mod 4 = 0"
    by (rule impI, erule mod_zero_trans, simp)+
  show ?thesis
    unfolding year_start_def year_length_def leap_year_mod
      div_step [of 4 y, simplified] div_step [of 100 y, simplified] div_step [of 400 y, simplified]
    using count [OF nested, of "y div 4" "y div 100" "y div 400"] by (simp only: of_bool_def)
qed

lemma year_length_bounds: "365 \<le> year_length y" "year_length y \<le> 366"
  by (simp_all add: year_length_def)

lemma year_start_less: "y < y' \<Longrightarrow> year_start y + year_length y \<le> year_start y'"
proof (induction "nat (y' - y)" arbitrary: y')
  case (Suc n)
  show ?case
  proof (cases "y' = y + 1")
    case False
    with Suc(3) have "y < y' - 1" by simp
    moreover from this Suc(2) have "n = nat (y' - 1 - y)" by simp
    ultimately have "year_start y + year_length y \<le> year_start (y' - 1)" using Suc(1) by blast
    with year_start_step [of "y' - 1"] year_length_bounds(1) [of "y' - 1"] show ?thesis by simp
  qed (simp add: year_start_step)
qed simp

lemma year_and_day_unique:
  assumes "year_start y + n = year_start y' + n'"
    and "0 \<le> n" "n < year_length y" "0 \<le> n'" "n' < year_length y'"
  shows "y = y' \<and> n = n'"
  using assms year_start_less [of y y'] year_start_less [of y' y] by (cases y y' rule: linorder_cases) auto

lemma div_is: "q * k \<le> x \<Longrightarrow> x < q * k + k \<Longrightarrow> x div k = q" for x q k :: int
  by (rule int_div_pos_eq [of _ _ _ "x - q * k"]) (simp_all add: mult.commute)

lemma dvd_part: "0 < r \<Longrightarrow> r \<le> k \<Longrightarrow> k dvd k * q + r \<longleftrightarrow> r = k" for r k q :: int
  by (auto simp: dvd_add_right_iff dest: zdvd_imp_le)

text \<open>A year of an era as centuries, groups of four years and years.\<close>

lemma year_parts:
  fixes y :: int
  assumes "0 \<le> y" "y < 400"
  obtains a b c where "y = 100 * a + 4 * b + c" "0 \<le> a" "a \<le> 3" "0 \<le> b" "b \<le> 24" "0 \<le> c" "c \<le> 3"
    "y div 4 = 25 * a + b" "y div 100 = a"
    "leap_year (y + 1) \<longleftrightarrow> c = 3 \<and> (b = 24 \<longrightarrow> a = 3)"
proof -
  define a r where "a = y div 100" and "r = y mod 100"
  define b c where "b = r div 4" and "c = r mod 4"
  have y: "y = 100 * a + r" "0 \<le> r" "r < 100" by (simp_all add: a_def r_def)
  have r: "r = 4 * b + c" "0 \<le> c" "c \<le> 3" by (simp_all add: b_def c_def)
  have bounds: "0 \<le> a" "a \<le> 3" "0 \<le> b" "b \<le> 24" using assms y r by linarith+
  have "y div 4 = 25 * a + b" using y r by (intro div_is) simp_all
  moreover have "y div 100 = a" by (simp add: a_def)
  moreover have "leap_year (y + 1) \<longleftrightarrow> c = 3 \<and> (b = 24 \<longrightarrow> a = 3)"
  proof -
    have "y + 1 = 4 * (25 * a + b) + (c + 1)" using y r by simp
    moreover have "4 dvd 4 * (25 * a + b) + (c + 1) \<longleftrightarrow> c + 1 = 4" by (rule dvd_part) (use r in simp_all)
    ultimately have 4: "4 dvd y + 1 \<longleftrightarrow> c = 3" by (simp only: add_right_cancel) simp
    have "y + 1 = 100 * a + (4 * b + c + 1)" using y r by simp
    moreover have "100 dvd 100 * a + (4 * b + c + 1) \<longleftrightarrow> 4 * b + c + 1 = 100"
      by (rule dvd_part) (use r bounds in simp_all)
    ultimately have "100 dvd y + 1 \<longleftrightarrow> 4 * b + c + 1 = 100" by (simp only:)
    then have 100: "100 dvd y + 1 \<longleftrightarrow> b = 24 \<and> c = 3" using r bounds by auto
    have "400 dvd y + 1 \<longleftrightarrow> y + 1 = 400" using dvd_part [of "y + 1" 400 0] assms by simp
    then have 400: "400 dvd y + 1 \<longleftrightarrow> a = 3 \<and> b = 24 \<and> c = 3" using y r bounds by auto
    show ?thesis unfolding leap_year_def 4 100 400 by blast
  qed
  moreover have "y = 100 * a + 4 * b + c" using y r by simp
  ultimately show thesis using that bounds r by blast
qed

lemma year_of_era_start:
  assumes "0 \<le> y" "y < 400" "0 \<le> n" "n < year_length y"
  shows "year_of_era (year_start y + n) = y"
proof -
  obtain a b c where y: "y = 100 * a + 4 * b + c" "0 \<le> a" "a \<le> 3" "0 \<le> b" "b \<le> 24" "0 \<le> c" "c \<le> 3"
      "y div 4 = 25 * a + b" "y div 100 = a" "leap_year (y + 1) \<longleftrightarrow> c = 3 \<and> (b = 24 \<longrightarrow> a = 3)"
    using year_parts [OF assms(1,2)] by metis
  have n: "n \<le> 364 \<or> n = 365 \<and> c = 3 \<and> (b = 24 \<longrightarrow> a = 3)"
    using assms(4) y(10) by (auto simp: year_length_def split: if_splits)
  define doe where "doe = year_start y + n"
  have "y div 400 = 0" using assms by simp
  then have doe: "doe = 36524 * a + 1461 * b + 365 * c + n"
    using y(1,8,9) by (simp add: doe_def year_start_def)
  define e :: int where "e = of_bool (1460 \<le> 24 * a + b + 365 * c + n)"
  have alg: "x - p + q - r = 36500 * a + 1460 * b + 365 * c + n - e"
    if "x = 36524 * a + 1461 * b + 365 * c + n" "p = 25 * a + b + e" "q - r = a" for x p q r
    using that by linarith
  have "doe div 1460 = 25 * a + b + e"
    unfolding e_def using y(2-7) n assms(3) doe by (intro div_is) (auto simp: of_bool_def)
  moreover have "doe div 36524 - doe div 146096 = a"
  proof (cases "doe = 146096")
    case True
    then show ?thesis using doe y(2-7) n by auto
  next
    case False
    have "doe < 36524 * a + 36524" using doe y(2-7) n False by linarith
    moreover from this have "doe div 36524 = a" using doe y(2-7) assms(3) by (intro div_is) simp_all
    moreover have "doe div 146096 = 0" using doe y(2-7) assms(3) False calculation(1) by (intro div_is) simp_all
    ultimately show ?thesis by simp
  qed
  ultimately have "year_of_era doe = (36500 * a + 1460 * b + 365 * c + n - e) div 365"
    unfolding year_of_era_def by (simp only: alg [OF doe])
  also have "\<dots> = y"
    using y(1-7) n assms(3) by (intro div_is) (auto simp: e_def of_bool_def)
  finally show ?thesis by (simp add: doe_def)
qed

lemma year_start_era: "year_start (y + era * 400) = year_start y + era * 146097"
proof -
  have "(y + (era * 100) * 4) div 4 = era * 100 + y div 4" "(y + (era * 4) * 100) div 100 = era * 4 + y div 100"
      "(y + era * 400) div 400 = era + y div 400"
    by (rule div_mult_self1, simp)+
  then have "(y + era * 400) div 4 = era * 100 + y div 4" "(y + era * 400) div 100 = era * 4 + y div 100"
      "(y + era * 400) div 400 = era + y div 400"
    by (simp_all only: mult.assoc numeral_times_numeral semiring_norm)
  then show ?thesis by (simp only: year_start_def) (simp add: algebra_simps)
qed

lemma era_day_exists:
  assumes "0 \<le> doe" "doe < 146097"
  shows "\<exists>y n. 0 \<le> y \<and> y < 400 \<and> 0 \<le> n \<and> n < year_length y \<and> doe = year_start y + n"
  using assms
proof (induction doe rule: int_ge_induct)
  case base
  show ?case by (rule exI [of _ 0], rule exI [of _ 0]) (simp add: year_start_def year_length_def)
next
  case (step doe)
  then obtain y n where yn: "0 \<le> y" "y < 400" "0 \<le> n" "n < year_length y" "doe = year_start y + n"
    by auto
  show ?case
  proof (cases "n + 1 < year_length y")
    case True
    with yn show ?thesis by (intro exI [of _ y] exI [of _ "n + 1"]) simp
  next
    case False
    with yn have d: "doe + 1 = year_start (y + 1)" using year_start_step [of y] by simp
    have "year_start 400 = 146097" by (simp add: year_start_def)
    with step(3) d yn have "y + 1 \<noteq> 400" by auto
    with yn d year_length_bounds(1) [of "y + 1"] show ?thesis by (intro exI [of _ "y + 1"] exI [of _ 0]) simp
  qed
qed

lemma year_length_era: "year_length (y + era * 400) = year_length y"
proof -
  have "k dvd y + era * 400 + 1 \<longleftrightarrow> k dvd y + 1" if "k dvd 400" for k
    using that dvd_add_left_iff [of k "era * 400" "y + 1"] by (simp add: algebra_simps)
  then show ?thesis by (simp add: year_length_def leap_year_def)
qed

text \<open>Where the code finds a day: the one year and day of the year it is.\<close>

lemma civil_from_days_eq:
  assumes "days + 719468 = year_start y + n" "0 \<le> n" "n < year_length y"
  shows "civil_from_days days =
    (y + (if fst (month_and_day n) \<le> 2 then 1 else 0), month_and_day n)"
proof -
  define z where "z = days + 719468"
  define era where "era = z div 146097"
  define doe where "doe = z - era * 146097"
  have "doe = z mod 146097" by (simp add: doe_def era_def minus_div_mult_eq_mod)
  then have "0 \<le> doe" "doe < 146097" by simp_all
  then obtain y' n' where yn: "0 \<le> y'" "y' < 400" "0 \<le> n'" "n' < year_length y'" "doe = year_start y' + n'"
    using era_day_exists by blast
  have "year_length (y' + era * 400) = year_length y'" by (rule year_length_era)
  moreover have "year_start y + n = year_start (y' + era * 400) + n'"
    using assms(1) yn(5) by (simp add: year_start_era doe_def z_def)
  ultimately have y: "y = y' + era * 400" "n = n'"
    using year_and_day_unique [of y n "y' + era * 400" n'] assms(2,3) yn(3,4) by simp_all
  have yoe: "year_of_era doe = y'" using year_of_era_start [OF yn(1-4)] yn(5) by simp
  have "y' div 400 = 0" using yn by simp
  then have "doe - (365 * y' + y' div 4 - y' div 100) = n'" using yn(5) by (simp add: year_start_def)
  then show ?thesis
    using yoe y by (simp add: civil_from_days_def Let_def z_def [symmetric] era_def [symmetric]
        doe_def [symmetric] case_prod_unfold)
qed

section \<open>Months and days\<close>

lemma month_and_day_at:
  assumes "153 * k \<le> 5 * n + 2" "5 * n + 2 < 153 * k + 153"
  shows "month_and_day n = (if k < 10 then k + 3 else k - 9, n - (153 * k + 2) div 5 + 1)"
proof -
  have "(5 * n + 2) div 153 = k" using assms by (intro div_is) simp_all
  then show ?thesis by (simp add: month_and_day_def Let_def)
qed

text \<open>The month, counted from March, and the days of the year it may cover.\<close>

lemma month_index:
  fixes n :: int
  assumes "0 \<le> n" "n < 366"
  obtains k where "k \<in> {0, 1, 2, 3, 4, 5, 6, 7, 8, 9, 10, 11}" "153 * k \<le> 5 * n + 2" "5 * n + 2 < 153 * k + 153"
proof -
  define k where "k = (5 * n + 2) div 153"
  have k: "153 * k \<le> 5 * n + 2" "5 * n + 2 < 153 * k + 153"
    using div_mult_mod_eq [of "5 * n + 2" 153] pos_mod_sign [of 153 "5 * n + 2"] pos_mod_bound [of 153 "5 * n + 2"]
    unfolding k_def by linarith+
  with assms have "0 \<le> k" "k \<le> 11" by linarith+
  then have "k \<in> {0, 1, 2, 3, 4, 5, 6, 7, 8, 9, 10, 11}" by (simp only: insert_iff empty_iff) presburger
  with k that show thesis by blast
qed

lemma month_step:
  assumes "0 \<le> n" "n < 365" "month_and_day n = (m, d)"
  shows "month_and_day (n + 1) =
      (if d < month_length True m then (m, d + 1) else (if m = 12 then 1 else m + 1, 1))"
    and "1 \<le> m \<and> m \<le> 12 \<and> 1 \<le> d \<and> d \<le> 31 \<and> (m = 2 \<longrightarrow> d \<le> 28 \<and> (d = 28 \<longrightarrow> n = 364))"
proof -
  obtain k where k: "k \<in> {0, 1, 2, 3, 4, 5, 6, 7, 8, 9, 10, 11}" "153 * k \<le> 5 * n + 2" "5 * n + 2 < 153 * k + 153"
    using month_index [of n] assms(1,2) by auto
  have md: "m = (if k < 10 then k + 3 else k - 9)" "d = n - (153 * k + 2) div 5 + 1"
    using month_and_day_at [OF k(2,3)] assms(3) by simp_all
  show "1 \<le> m \<and> m \<le> 12 \<and> 1 \<le> d \<and> d \<le> 31 \<and> (m = 2 \<longrightarrow> d \<le> 28 \<and> (d = 28 \<longrightarrow> n = 364))"
    using k assms(1,2) md by (elim insertE emptyE) simp_all
  show "month_and_day (n + 1) =
      (if d < month_length True m then (m, d + 1) else (if m = 12 then 1 else m + 1, 1))"
  proof (cases "5 * (n + 1) + 2 < 153 * k + 153")
    case True
    then have "month_and_day (n + 1) = (m, d + 1)"
      using month_and_day_at [of k "n + 1"] k(2) md by simp
    moreover have "d < month_length True m"
      using k True assms(1,2) md by (elim insertE emptyE) (simp_all add: month_length_def)
    ultimately show ?thesis by simp
  next
    case False
    then have "month_and_day (n + 1) =
        (if k + 1 < 10 then k + 4 else k - 8, n + 1 - (153 * (k + 1) + 2) div 5 + 1)"
      using month_and_day_at [of "k + 1" "n + 1"] k(3) by simp
    then show ?thesis
      using k False assms(1,2) md by (elim insertE emptyE) (simp_all add: month_length_def)
  qed
qed

lemma month_ends:
  "month_and_day 0 = (3, 1)" "month_and_day 306 = (1, 1)" "month_and_day 364 = (2, 28)" "month_and_day 365 = (2, 29)"
  by (simp_all add: month_and_day_def)

lemma day_exists: "\<exists>y n. 0 \<le> n \<and> n < year_length y \<and> z = year_start y + n"
proof -
  have "0 \<le> z mod 146097" "z mod 146097 < 146097" by simp_all
  then obtain y n where yn: "0 \<le> n" "n < year_length y" "z mod 146097 = year_start y + n"
    using era_day_exists by blast
  have "year_length (y + z div 146097 * 400) = year_length y" by (rule year_length_era)
  moreover have "z = year_start (y + z div 146097 * 400) + n"
    using yn(3) div_mult_mod_eq [of z 146097] unfolding year_start_era by linarith
  ultimately show ?thesis using yn by metis
qed

lemma civil_next: "civil_from_days (days + 1) = day_after (civil_from_days days)"
proof -
  obtain y n where yn: "0 \<le> n" "n < year_length y" "days + 719468 = year_start y + n"
    using day_exists by blast
  obtain m d where md: "month_and_day n = (m, d)" by fastforce
  have now: "civil_from_days days = (y + (if m \<le> 2 then 1 else 0), m, d)"
    using civil_from_days_eq [OF yn(3,1,2)] md by simp
  show ?thesis
  proof (cases "n + 1 < year_length y")
    case True
    then have n: "n < 365" using year_length_bounds(2) [of y] by simp
    note step = month_step [OF yn(1) n md]
    have "d < month_length (leap_year (y + (if m \<le> 2 then 1 else 0))) m \<longleftrightarrow> d < month_length True m"
      using True step by (cases "d = 28") (auto simp: month_length_def year_length_def split: if_splits)
    then have "day_after (civil_from_days days) =
        (if d < month_length True m then (y + (if m \<le> 2 then 1 else 0), m, d + 1)
         else if m = 12 then (y + 1, 1, 1) else (y + (if m \<le> 2 then 1 else 0), m + 1, 1))"
      by (simp add: now day_after_def)
    moreover have "civil_from_days (days + 1) =
        (y + (if fst (month_and_day (n + 1)) \<le> 2 then 1 else 0), month_and_day (n + 1))"
      using yn by (intro civil_from_days_eq True) simp_all
    ultimately show ?thesis
      using step by (auto simp: month_length_def)
  next
    case False
    then have next_year: "days + 1 + 719468 = year_start (y + 1) + 0" using yn year_start_step [of y] by simp
    have "civil_from_days (days + 1) = (y + 1, 3, 1)"
      using civil_from_days_eq [OF next_year] year_length_bounds(1) [of "y + 1"] by (simp add: month_ends)
    moreover have "n = (if leap_year (y + 1) then 365 else 364)"
      using False yn(2) by (simp add: year_length_def split: if_splits)
    then have "(m, d) = (2, if leap_year (y + 1) then 29 else 28)"
      using md by (auto simp: month_ends split: if_splits)
    ultimately show ?thesis by (simp add: now day_after_def month_length_def)
  qed
qed

section \<open>Distinct times are written differently\<close>

text \<open>The day of the year from the month and the day.\<close>

definition day_of_year :: "int \<times> int \<Rightarrow> int" where
  "day_of_year md =
     (case md of (m, d) \<Rightarrow> (153 * (if 2 < m then m - 3 else m + 9) + 2) div 5 + d - 1)"

lemma day_of_year_inverse:
  assumes "0 \<le> n" "n < 366"
  shows "day_of_year (month_and_day n) = n"
proof -
  obtain k where k: "k \<in> {0, 1, 2, 3, 4, 5, 6, 7, 8, 9, 10, 11}" "153 * k \<le> 5 * n + 2" "5 * n + 2 < 153 * k + 153"
    using month_index [OF assms] .
  then have "(if 2 < (if k < 10 then k + 3 else k - 9) then (if k < 10 then k + 3 else k - 9) - 3
      else (if k < 10 then k + 3 else k - 9) + 9) = k" by auto
  then show ?thesis unfolding month_and_day_at [OF k(2,3)] by (simp add: day_of_year_def)
qed

lemma month_and_day_inj:
  assumes "0 \<le> n" "n < 366" "0 \<le> n'" "n' < 366" "month_and_day n = month_and_day n'"
  shows "n = n'"
proof -
  have "n = day_of_year (month_and_day n')" using day_of_year_inverse [OF assms(1,2)] assms(5) by simp
  then show ?thesis using day_of_year_inverse [OF assms(3,4)] by simp
qed

lemma civil_from_days_inj:
  assumes "civil_from_days a = civil_from_days b"
  shows "a = b"
proof -
  obtain y n where a: "0 \<le> n" "n < year_length y" "a + 719468 = year_start y + n"
    using day_exists by blast
  obtain y' n' where b: "0 \<le> n'" "n' < year_length y'" "b + 719468 = year_start y' + n'"
    using day_exists by blast
  have "month_and_day n = month_and_day n'" "y = y'"
    using assms unfolding civil_from_days_eq [OF a(3,1,2)] civil_from_days_eq [OF b(3,1,2)] by auto
  moreover from this have "n = n'"
    using a b year_length_bounds(2) [of y] by (intro month_and_day_inj) auto
  ultimately show ?thesis using a(3) b(3) by simp
qed

lemma civil_from_days_nonneg:
  assumes "0 \<le> days" "civil_from_days days = (y, m, d)"
  shows "0 \<le> y" "0 \<le> m" "0 \<le> d"
proof -
  obtain Y n where yn: "0 \<le> n" "n < year_length Y" "days + 719468 = year_start Y + n"
    using day_exists by blast
  have eq: "(y, m, d) = (Y + (if fst (month_and_day n) \<le> 2 then 1 else 0), month_and_day n)"
    using civil_from_days_eq [OF yn(3,1,2)] assms(2) by simp
  have "0 \<le> Y"
  proof (rule ccontr)
    assume "\<not> 0 \<le> Y"
    with year_start_less [of Y 0] yn(2,3) assms(1) show False by (simp add: year_start_def)
  qed
  with eq show "0 \<le> y" by simp
  have md: "month_and_day n = (m, d)" using eq by simp
  have "0 \<le> m \<and> 0 \<le> d"
  proof (cases "n < 365")
    case True
    from month_step(2) [OF yn(1) True md] show ?thesis by simp
  next
    case False
    with yn(2) year_length_bounds(2) [of Y] have "n = 365" by simp
    with md month_ends(4) show ?thesis by simp
  qed
  then show "0 \<le> m" "0 \<le> d" by simp_all
qed

lemma parse_zeros: "parse_digits 0 (replicate k CHR ''0'' @ s) = parse_digits 0 s"
  by (induction k) (simp_all add: digit_val_def upt_rec)

lemma zero_padded_inj: "0 \<le> a \<Longrightarrow> 0 \<le> b \<Longrightarrow> zero_padded w a = zero_padded w b \<Longrightarrow> a = b"
proof -
  assume "0 \<le> a" "0 \<le> b" "zero_padded w a = zero_padded w b"
  then have "parse_digits 0 (zero_padded w a) = parse_digits 0 (zero_padded w b)" by simp
  with \<open>0 \<le> a\<close> \<open>0 \<le> b\<close> show "a = b" by (simp add: zero_padded_def Let_def parse_zeros parse_digits_show)
qed

lemma zero_padded_digits: "set (zero_padded w n) \<subseteq> set ''0123456789''"
  using show_nat_digits [of "nat n"] by (auto simp: zero_padded_def Let_def)

lemma digits_then:
  assumes "zero_padded w a @ c # s = zero_padded w b @ c # t" "0 \<le> a" "0 \<le> b" "c \<notin> set ''0123456789''"
  shows "a = b \<and> s = t"
proof -
  have "c \<notin> set (zero_padded w a)" "c \<notin> set (zero_padded w b)"
    using zero_padded_digits assms(4) by blast+
  from split_at_separator [OF this assms(1)] have "zero_padded w a = zero_padded w b \<and> s = t" by simp
  with assms(2,3) show ?thesis using zero_padded_inj by blast
qed

lemma stamp_inj:
  assumes "stamp (y, m, d) (h, mi, s) = stamp (y', m', d') (h', mi', s')"
    and "0 \<le> y" "0 \<le> m" "0 \<le> d" "0 \<le> h" "0 \<le> mi" "0 \<le> s"
    and "0 \<le> y'" "0 \<le> m'" "0 \<le> d'" "0 \<le> h'" "0 \<le> mi'" "0 \<le> s'"
  shows "(y, m, d, h, mi, s) = (y', m', d', h', mi', s')"
proof -
  from assms(1) have eq: "zero_padded 4 y @ CHR ''-'' # zero_padded 2 m @ CHR ''-'' # zero_padded 2 d @ CHR ''T'' #
      zero_padded 2 h @ CHR '':'' # zero_padded 2 mi @ CHR '':'' # zero_padded 2 s @ CHR ''Z'' # [] =
    zero_padded 4 y' @ CHR ''-'' # zero_padded 2 m' @ CHR ''-'' # zero_padded 2 d' @ CHR ''T'' #
      zero_padded 2 h' @ CHR '':'' # zero_padded 2 mi' @ CHR '':'' # zero_padded 2 s' @ CHR ''Z'' # []"
    by (simp add: stamp_def)
  have sep: "CHR ''-'' \<notin> set ''0123456789''" "CHR ''T'' \<notin> set ''0123456789''"
      "CHR '':'' \<notin> set ''0123456789''" "CHR ''Z'' \<notin> set ''0123456789''" by simp_all
  note y = digits_then [OF eq assms(2,8) sep(1)]
  note m = digits_then [OF y [THEN conjunct2] assms(3,9) sep(1)]
  note d = digits_then [OF m [THEN conjunct2] assms(4,10) sep(2)]
  note h = digits_then [OF d [THEN conjunct2] assms(5,11) sep(3)]
  note mi = digits_then [OF h [THEN conjunct2] assms(6,12) sep(3)]
  note s = digits_then [OF mi [THEN conjunct2] assms(7,13) sep(4)]
  show ?thesis using y m d h mi s by simp
qed

lemma time_of_day:
  "r = r div 3600 * 3600 + r mod 3600 div 60 * 60 + r mod 60" for r :: int
proof -
  have "r mod 3600 mod 60 = r mod 60" by (rule mod_mod_cancel) simp
  with div_mult_mod_eq [of r 3600] div_mult_mod_eq [of "r mod 3600" 60] show ?thesis by linarith
qed

lemma iso8601_utc_inj:
  assumes "iso8601_utc a = Some t" "iso8601_utc b = Some t"
  shows "a = b"
proof -
  obtain y m d where a: "civil_from_days (a div 86400) = (y, m, d)" by (cases "civil_from_days (a div 86400)")
  obtain y' m' d' where b: "civil_from_days (b div 86400) = (y', m', d')" by (cases "civil_from_days (b div 86400)")
  have "0 \<le> a" "0 \<le> b" using assms by (auto simp: iso8601_utc_def split: if_splits)
  then have days: "0 \<le> a div 86400" "0 \<le> b div 86400" by simp_all
  define r r' where "r = a mod 86400" and "r' = b mod 86400"
  have r: "0 \<le> r" "0 \<le> r'" by (simp_all add: r_def r'_def)
  have "stamp (y, m, d) (r div 3600, r mod 3600 div 60, r mod 60) =
      stamp (y', m', d') (r' div 3600, r' mod 3600 div 60, r' mod 60)"
    using assms a b unfolding iso8601_utc_def Let_def r_def r'_def by (auto split: if_splits)
  from stamp_inj [OF this civil_from_days_nonneg [OF days(1) a]]
  have eq: "(y, m, d) = (y', m', d')" "r div 3600 = r' div 3600" "r mod 3600 div 60 = r' mod 3600 div 60"
      "r mod 60 = r' mod 60"
    using civil_from_days_nonneg [OF days(2) b] r by (simp_all add: pos_imp_zdiv_nonneg_iff)
  have "a div 86400 = b div 86400" using eq(1) a b civil_from_days_inj by simp
  moreover have "r = r'"
    by (subst time_of_day [of r], subst time_of_day [of r']) (simp only: eq(2-4))
  moreover have "a = a div 86400 * 86400 + r" "b = b div 86400 * 86400 + r'"
    unfolding r_def r'_def by (simp_all only: div_mult_mod_eq)
  ultimately show ?thesis by (simp only:)
qed

section \<open>Against the calendar\<close>

lemma civil_from_days_steps: "civil_from_days (int n) = (day_after ^^ n) (1970, 1, 1)"
proof (induction n)
  case 0
  show ?case by code_simp
next
  case (Suc n)
  then show ?case using civil_next [of "int n"] by (simp add: add.commute)
qed

lemma year_mono: "fst (civil_from_days a) \<le> fst (civil_from_days (a + int k))"
proof (induction k)
  case (Suc k)
  have "fst (civil_from_days (a + int k)) \<le> fst (day_after (civil_from_days (a + int k)))"
    by (cases "civil_from_days (a + int k)") (simp add: day_after_def)
  also have "\<dots> = fst (civil_from_days (a + int (Suc k)))"
    using civil_next [of "a + int k"] by (simp add: algebra_simps)
  finally show ?case using Suc by simp
qed simp

lemma last_year: "civil_from_days 2932896 = (9999, 12, 31)" "civil_from_days 2932897 = (10000, 1, 1)"
  by code_simp+

lemma year_limit: "fst (civil_from_days days) \<le> 9999 \<longleftrightarrow> days < 2932897"
proof
  assume "fst (civil_from_days days) \<le> 9999"
  with year_mono [of 2932897 "nat (days - 2932897)"] last_year show "days < 2932897"
    by (cases "2932897 \<le> days") auto
next
  assume "days < 2932897"
  with year_mono [of days "nat (2932896 - days)"] last_year show "fst (civil_from_days days) \<le> 9999" by simp
qed

lemma div_less_iff:
  fixes x k q :: int
  assumes "0 < k"
  shows "x div k < q \<longleftrightarrow> x < q * k"
proof
  assume "x div k < q"
  then have "(x div k + 1) * k \<le> q * k" using assms by (intro mult_right_mono) simp_all
  moreover have "x < (x div k + 1) * k"
    using div_mult_mod_eq [of x k] pos_mod_bound [OF assms, of x] unfolding distrib_right by linarith
  ultimately show "x < q * k" by linarith
next
  assume "x < q * k"
  show "x div k < q"
  proof (rule ccontr)
    assume "\<not> x div k < q"
    then have "q * k \<le> x div k * k" using assms by (intro mult_right_mono) simp_all
    moreover have "x div k * k \<le> x" using div_mult_mod_eq [of x k] pos_mod_sign [OF assms, of x] by linarith
    ultimately show False using \<open>x < q * k\<close> by linarith
  qed
qed

text \<open>
  C40. A time is written as the calendar has it: the date is what stepping day by day from 1 January
  1970 gives, by the lengths of the months and the leap-year rule, the time of day follows, and nothing
  before 1970 or after the year 9999 is written.\<close>

theorem times_are_the_calendars:
  "iso8601_utc secs =
     (let date = (day_after ^^ nat (secs div 86400)) (1970, 1, 1); r = secs mod 86400 in
      if secs < 0 \<or> 9999 < fst date then None
      else Some (stamp date (r div 3600, r mod 3600 div 60, r mod 60)))"
proof (cases "secs < 0")
  case True
  then show ?thesis by (simp add: iso8601_utc_def Let_def)
next
  case False
  then have date: "(day_after ^^ nat (secs div 86400)) (1970, 1, 1) = civil_from_days (secs div 86400)"
    using civil_from_days_steps [of "nat (secs div 86400)"] by (simp add: pos_imp_zdiv_nonneg_iff)
  have "secs < 253402300800 \<longleftrightarrow> \<not> 9999 < fst (civil_from_days (secs div 86400))"
    using year_limit [of "secs div 86400"] div_less_iff [of 86400 secs 2932897] by (simp add: not_less)
  with False show ?thesis unfolding date by (simp add: iso8601_utc_def Let_def)
qed

end
