(* ===== verification/Task_Statement.thy ===== *)
theory Task_Statement
  imports Near_Prelude Civil_Date
begin

text \<open>
  The owner's signed statements (\<open>worker/src/tasks/statement.rs\<close>, \<open>read_pubkey\<close> of \<open>tasks/crypto.rs\<close>): the
  sentence of a device, the sentence of an approval, the NEP-413 payload both are signed as, the rules
  by which a device is in force and an approval holds, and the reading of what the chain says of a
  key. Base58, base64, SHA-256, hex, Ed25519 and the P-256 curve are the libraries' and come as the
  record \<open>statement_libs\<close>. Times are integers: \<open>i64\<close> does not overflow at any time a clock shows.
\<close>

section \<open>Libraries and data\<close>

record statement_libs =
  bs58_decode :: "string \<Rightarrow> string option"
  b64_decode :: "string \<Rightarrow> string option"
  b64_encode :: "string \<Rightarrow> string"
  url64_decode :: "string \<Rightarrow> string option"
  sha256_digest :: "string \<Rightarrow> string"
  hex_of :: "string \<Rightarrow> string"
  ed25519_point :: "string \<Rightarrow> bool"
  ed25519_verify :: "string \<Rightarrow> string \<Rightarrow> string \<Rightarrow> bool"
  p256_point :: "string \<Rightarrow> bool"

record device_statement =
  ds_id :: string
  ds_account_id :: account
  ds_device_pubkey :: string
  ds_signer_pubkey :: string
  ds_signature :: string
  ds_nonce :: string
  ds_valid_until :: int

record device =
  dv_id :: string
  dv_key :: string

record approval =
  ap_at :: nat
  ap_public_key :: string
  ap_signature :: string
  ap_nonce :: string

datatype statement_refusal =
    AnotherAccount | DeadlinePassed | LongerThanASession | DeadlineNotATime
  | KeyNotWritten | KeyNotBase64 | KeyNotUncompressed | KeyNotOnCurve
  | SignerNotAKey | SignatureNot64Bytes | NonceNot32Bytes | NotSerialisable | SignatureDoesNotVerify

datatype approval_invalid =
    TimeNotATime | DatedAhead | OlderThanThirtyMinutes | PastTheTasksLife
  | NotSigned statement_refusal | NotAFullAccessKey

datatype approval_refused = Invalid approval_invalid | ChainDown string

datatype on_chain = ItsKey | NotItsKey

text \<open>\<open>Chain::access_key\<close>: whose a key is, or why there is no answer.\<close>

type_synonym chain = "account \<Rightarrow> string \<Rightarrow> string + on_chain"

section \<open>Sentences\<close>

definition NEP413_TAG :: nat where "NEP413_TAG = 2147484061"
definition MAX_SESSION_SECS :: int where "MAX_SESSION_SECS = 30 * 24 * 60 * 60"
definition DEADLINE_SLACK_SECS :: int where "DEADLINE_SLACK_SECS = 10 * 60"
definition APPROVAL_AHEAD_SECS :: int where "APPROVAL_AHEAD_SECS = 10 * 60"
definition APPROVAL_AGE_SECS :: int where "APPROVAL_AGE_SECS = 30 * 60"

definition sentence :: "account \<Rightarrow> string \<Rightarrow> int \<Rightarrow> string option" where
  "sentence account device_pubkey valid_until =
     (case iso8601_utc valid_until of
        None \<Rightarrow> None
      | Some t \<Rightarrow> Some (''Sign in to OutLayer as '' @ account @ ''. Device key: '' @ device_pubkey
                    @ ''. Valid until '' @ t @ ''.''))"

definition approval_sentence :: "account \<Rightarrow> string \<Rightarrow> string \<Rightarrow> string \<Rightarrow> int \<Rightarrow> string option" where
  "approval_sentence owner i hash supply at =
     (case iso8601_utc at of
        None \<Rightarrow> None
      | Some t \<Rightarrow> Some (''Approve in OutLayer as '' @ owner @ '': task '' @ i @ '' with hash '' @ hash
                    @ '' and supply '' @ supply @ ''. At '' @ t @ ''.''))"

definition supply_member :: "statement_libs \<Rightarrow> string option \<Rightarrow> string" where
  "supply_member lib b = (case b of None \<Rightarrow> ''null'' | Some bytes \<Rightarrow> CHR 0x22 # b64_encode lib bytes @ [CHR 0x22])"

definition supply_canonical :: "statement_libs \<Rightarrow> string option \<Rightarrow> string option \<Rightarrow> string" where
  "supply_canonical lib supplied owner_note =
     CHR ''{'' # CHR 0x22 # ''note'' @ [CHR 0x22, CHR '':''] @ supply_member lib owner_note
       @ '','' @ CHR 0x22 # ''supplied'' @ [CHR 0x22, CHR '':''] @ supply_member lib supplied @ ''}''"

definition supply_digest :: "statement_libs \<Rightarrow> string option \<Rightarrow> string option \<Rightarrow> string" where
  "supply_digest lib supplied owner_note = hex_of lib (sha256_digest lib (supply_canonical lib supplied owner_note))"

section \<open>Signatures\<close>

text \<open>\<open>to_le_bytes\<close>: the bytes of a number, the low one first.\<close>

fun le_bytes :: "nat \<Rightarrow> nat \<Rightarrow> string" where
  "le_bytes 0 n = []"
| "le_bytes (Suc k) n = char_of (n mod 256) # le_bytes k (n div 256)"

abbreviation le32 :: "nat \<Rightarrow> string" where "le32 \<equiv> le_bytes 4"

text \<open>The payload as Borsh writes it: strings with their length, the nonce bare, no callback URL. A
  string longer than its length field does not serialise.\<close>

definition nep413_payload :: "string \<Rightarrow> string \<Rightarrow> string \<Rightarrow> string option" where
  "nep413_payload message nonce recipient =
     (if length message \<ge> 2 ^ 32 \<or> length recipient \<ge> 2 ^ 32 then None
      else Some (le32 (length message) @ message @ nonce @ le32 (length recipient) @ recipient @ [char_of (0::nat)]))"

definition bytes_of_length :: "nat \<Rightarrow> string option \<Rightarrow> string option" where
  "bytes_of_length n b = (case b of None \<Rightarrow> None | Some x \<Rightarrow> (if length x = n then Some x else None))"

definition near_key_bytes :: "statement_libs \<Rightarrow> string \<Rightarrow> string option" where
  "near_key_bytes lib k =
     (case strip_prefix ''ed25519:'' k of None \<Rightarrow> None | Some r \<Rightarrow> bytes_of_length 32 (bs58_decode lib r))"

definition verify_nep413 ::
  "statement_libs \<Rightarrow> string \<Rightarrow> string \<Rightarrow> string \<Rightarrow> string \<Rightarrow> string \<Rightarrow> statement_refusal + unit" where
  "verify_nep413 lib message signer_pubkey signature nonce recipient =
     (case near_key_bytes lib signer_pubkey of
        None \<Rightarrow> Inl SignerNotAKey
      | Some signer_key \<Rightarrow>
          if \<not> ed25519_point lib signer_key then Inl SignerNotAKey
          else case bytes_of_length 64 (b64_decode lib signature) of
            None \<Rightarrow> Inl SignatureNot64Bytes
          | Some sig \<Rightarrow>
              (case bytes_of_length 32 (b64_decode lib nonce) of
                 None \<Rightarrow> Inl NonceNot32Bytes
               | Some n \<Rightarrow>
                   (case nep413_payload message n recipient of
                      None \<Rightarrow> Inl NotSerialisable
                    | Some payload \<Rightarrow>
                        (if ed25519_verify lib signer_key (sha256_digest lib (le32 NEP413_TAG @ payload)) sig
                         then Inr () else Inl SignatureDoesNotVerify))))"

definition read_pubkey :: "statement_libs \<Rightarrow> string \<Rightarrow> statement_refusal + string" where
  "read_pubkey lib written =
     (case strip_prefix ''p256:'' written of
        None \<Rightarrow> Inl KeyNotWritten
      | Some point \<Rightarrow>
          (case url64_decode lib point of
             None \<Rightarrow> Inl KeyNotBase64
           | Some b \<Rightarrow>
               (if length b \<noteq> 65 \<or> hd b \<noteq> CHR 0x04 then Inl KeyNotUncompressed
                else if p256_point lib b then Inr b else Inl KeyNotOnCurve)))"

definition signed_by_its_signer ::
  "statement_libs \<Rightarrow> device_statement \<Rightarrow> account \<Rightarrow> int \<Rightarrow> string \<Rightarrow> statement_refusal + string" where
  "signed_by_its_signer lib st owner now recipient =
     (if ds_account_id st \<noteq> owner then Inl AnotherAccount
      else if ds_valid_until st \<le> now then Inl DeadlinePassed
      else if ds_valid_until st > now + (MAX_SESSION_SECS + DEADLINE_SLACK_SECS) then Inl LongerThanASession
      else case read_pubkey lib (ds_device_pubkey st) of
        Inl e \<Rightarrow> Inl e
      | Inr key \<Rightarrow>
          (case sentence (ds_account_id st) (ds_device_pubkey st) (ds_valid_until st) of
             None \<Rightarrow> Inl DeadlineNotATime
           | Some message \<Rightarrow>
               (case verify_nep413 lib message (ds_signer_pubkey st) (ds_signature st) (ds_nonce st) recipient of
                  Inl e \<Rightarrow> Inl e | Inr _ \<Rightarrow> Inr key)))"

definition approval_holds ::
  "statement_libs \<Rightarrow> chain \<Rightarrow> approval \<Rightarrow> account \<Rightarrow> string \<Rightarrow> string \<Rightarrow> string option \<Rightarrow> string option
     \<Rightarrow> int \<Rightarrow> nat \<Rightarrow> string \<Rightarrow> approval_refused + unit" where
  "approval_holds lib chain ap owner i hash supplied owner_note now expires_at recipient =
     (if ap_at ap \<ge> 2 ^ 63 then Inl (Invalid TimeNotATime)
      else let at = int (ap_at ap) in
        if at > now + APPROVAL_AHEAD_SECS then Inl (Invalid DatedAhead)
        else if at < now - APPROVAL_AGE_SECS then Inl (Invalid OlderThanThirtyMinutes)
        else if ap_at ap \<ge> expires_at then Inl (Invalid PastTheTasksLife)
        else case approval_sentence owner i hash (supply_digest lib supplied owner_note) at of
          None \<Rightarrow> Inl (Invalid TimeNotATime)
        | Some message \<Rightarrow>
            (case verify_nep413 lib message (ap_public_key ap) (ap_signature ap) (ap_nonce ap) recipient of
               Inl why \<Rightarrow> Inl (Invalid (NotSigned why))
             | Inr _ \<Rightarrow>
                 (case chain owner (ap_public_key ap) of
                    Inl down \<Rightarrow> Inl (ChainDown down)
                  | Inr ItsKey \<Rightarrow> Inr ()
                  | Inr NotItsKey \<Rightarrow> Inl (Invalid NotAFullAccessKey))))"

section \<open>What the chain says\<close>

definition cause_name :: "node_value \<Rightarrow> string option" where
  "cause_name err =
     (case member_of ''cause'' err of
        None \<Rightarrow> None
      | Some c \<Rightarrow> (case member_of ''name'' c of None \<Rightarrow> None | Some n \<Rightarrow> as_str n))"

definition said_error :: "node_value \<Rightarrow> string option" where
  "said_error result = (case member_of ''error'' result of None \<Rightarrow> None | Some e \<Rightarrow> as_str e)"

definition read_access_key_answer :: "node_value \<Rightarrow> string + on_chain" where
  "read_access_key_answer answer =
     (let no_answer = Inl ''the chain's answer about a key could not be read'' in
      case member_of ''error'' answer of
        Some err \<Rightarrow>
          (if cause_name err \<in> {Some ''UNKNOWN_ACCESS_KEY'', Some ''UNKNOWN_ACCOUNT'', Some ''INVALID_ACCOUNT''}
           then Inr NotItsKey else no_answer)
      | None \<Rightarrow>
          (case member_of ''result'' answer of
             None \<Rightarrow> no_answer
           | Some result \<Rightarrow>
               (case said_error result of
                  Some said \<Rightarrow> (if contains_str ''does not exist'' said then Inr NotItsKey else no_answer)
                | None \<Rightarrow>
                    (if member_of ''nonce'' result = None then no_answer
                     else case member_of ''permission'' result of
                       Some (JStr full) \<Rightarrow> Inr (if full = ''FullAccess'' then ItsKey else NotItsKey)
                     | Some (JObj _) \<Rightarrow> Inr NotItsKey
                     | _ \<Rightarrow> no_answer))))"

definition is_implicit_of :: "statement_libs \<Rightarrow> account \<Rightarrow> string \<Rightarrow> bool" where
  "is_implicit_of lib account public_key =
     (case near_key_bytes lib public_key of None \<Rightarrow> False | Some b \<Rightarrow> hex_of lib b = account)"

definition read_account_answer :: "node_value \<Rightarrow> string + bool" where
  "read_account_answer answer =
     (let no_answer = Inl ''the chain's answer about an account could not be read'' in
      case member_of ''error'' answer of
        Some err \<Rightarrow> (if cause_name err = Some ''UNKNOWN_ACCOUNT'' then Inr False else no_answer)
      | None \<Rightarrow>
          (case member_of ''result'' answer of
             None \<Rightarrow> no_answer
           | Some result \<Rightarrow>
               (case said_error result of
                  Some said \<Rightarrow> (if contains_str ''does not exist'' said then Inr False else no_answer)
                | None \<Rightarrow> (if member_of ''amount'' result \<noteq> None then Inr True else no_answer))))"

datatype node_query = ViewAccessKey account string | ViewAccount account

definition access_key_by ::
  "statement_libs \<Rightarrow> (node_query \<Rightarrow> string + node_value) \<Rightarrow> account \<Rightarrow> string \<Rightarrow> string + on_chain" where
  "access_key_by lib query account public_key =
     (case query (ViewAccessKey account public_key) of
        Inl e \<Rightarrow> Inl e
      | Inr answer \<Rightarrow>
          (case read_access_key_answer answer of
             Inl e \<Rightarrow> Inl e
           | Inr said \<Rightarrow>
               (if said = NotItsKey \<and> is_implicit_of lib account public_key then
                  (case query (ViewAccount account) of
                     Inl e \<Rightarrow> Inl e
                   | Inr answer2 \<Rightarrow>
                       (case read_account_answer answer2 of
                          Inl e \<Rightarrow> Inl e
                        | Inr present \<Rightarrow> Inr (if present then NotItsKey else ItsKey)))
                else Inr said)))"

section \<open>Devices\<close>

text \<open>The loop, with the answers of the chain so far and the devices found.\<close>

fun devices_loop ::
  "statement_libs \<Rightarrow> chain \<Rightarrow> account \<Rightarrow> int \<Rightarrow> string \<Rightarrow> device_statement list
     \<Rightarrow> (string \<times> on_chain) list \<Rightarrow> device list \<Rightarrow> string + (string \<times> on_chain) list \<times> device list" where
  "devices_loop lib chain owner now recipient [] asked devices = Inr (asked, devices)"
| "devices_loop lib chain owner now recipient (st # sts) asked devices =
     (case signed_by_its_signer lib st owner now recipient of
        Inl why \<Rightarrow> devices_loop lib chain owner now recipient sts asked devices
      | Inr key \<Rightarrow>
          (let found = (\<lambda>answered. if answered = ItsKey then devices @ [\<lparr>dv_id = ds_id st, dv_key = key\<rparr>] else devices) in
           case map_of asked (ds_signer_pubkey st) of
             Some answered \<Rightarrow> devices_loop lib chain owner now recipient sts asked (found answered)
           | None \<Rightarrow>
               (case chain owner (ds_signer_pubkey st) of
                  Inl down \<Rightarrow> Inl down
                | Inr answered \<Rightarrow>
                    devices_loop lib chain owner now recipient sts
                      (asked @ [(ds_signer_pubkey st, answered)]) (found answered))))"

definition devices_in_force ::
  "statement_libs \<Rightarrow> chain \<Rightarrow> device_statement list \<Rightarrow> account \<Rightarrow> int \<Rightarrow> string \<Rightarrow> string + device list" where
  "devices_in_force lib chain statements owner now recipient =
     (case devices_loop lib chain owner now recipient statements [] [] of
        Inl down \<Rightarrow> Inl down | Inr (asked, devices) \<Rightarrow> Inr devices)"

section \<open>What is signed is unambiguous\<close>

abbreviation space_free :: "string \<Rightarrow> bool" where "space_free s \<equiv> CHR '' '' \<notin> set s"

lemmas word_then = split_at_separator [of "CHR '' ''"]

lemma approval_sentence_Some:
  "approval_sentence owner i h g t = Some m \<longleftrightarrow> (\<exists>w. iso8601_utc t = Some w \<and>
     m = ''Approve in OutLayer as '' @ (owner @ '':'') @ CHR '' '' # ''task '' @ i @ CHR '' '' # ''with hash '' @ h
         @ CHR '' '' # ''and supply '' @ (g @ ''.'') @ CHR '' '' # ''At '' @ w @ ''.'')"
  by (auto simp: approval_sentence_def split: option.splits)

lemma approval_sentence_inj:
  assumes "approval_sentence owner i h g t = Some m" "approval_sentence owner' i' h' g' t' = Some m"
    and free: "\<forall>s \<in> {owner, i, h, g, owner', i', h', g'}. space_free s"
  shows "owner = owner' \<and> i = i' \<and> h = h' \<and> g = g' \<and> t = t'"
proof -
  obtain w where w: "iso8601_utc t = Some w" "m = ''Approve in OutLayer as '' @ (owner @ '':'') @ CHR '' '' #
      ''task '' @ i @ CHR '' '' # ''with hash '' @ h @ CHR '' '' # ''and supply '' @ (g @ ''.'') @ CHR '' '' # ''At '' @ w @ ''.''"
    using assms(1) approval_sentence_Some by blast
  obtain w' where w': "iso8601_utc t' = Some w'" "m = ''Approve in OutLayer as '' @ (owner' @ '':'') @ CHR '' '' #
      ''task '' @ i' @ CHR '' '' # ''with hash '' @ h' @ CHR '' '' # ''and supply '' @ (g' @ ''.'') @ CHR '' '' # ''At '' @ w' @ ''.''"
    using assms(2) approval_sentence_Some by blast
  from w(2) w'(2) have "(owner @ '':'') @ CHR '' '' # ''task '' @ i @ CHR '' '' # ''with hash '' @ h @ CHR '' '' #
      ''and supply '' @ (g @ ''.'') @ CHR '' '' # ''At '' @ w @ ''.'' =
    (owner' @ '':'') @ CHR '' '' # ''task '' @ i' @ CHR '' '' # ''with hash '' @ h' @ CHR '' '' #
      ''and supply '' @ (g' @ ''.'') @ CHR '' '' # ''At '' @ w' @ ''.''"
    by (simp only: same_append_eq)
  from word_then [OF _ _ this] free have owner: "owner = owner'"
    and r1: "i @ CHR '' '' # ''with hash '' @ h @ CHR '' '' # ''and supply '' @ (g @ ''.'') @ CHR '' '' # ''At '' @ w @ ''.'' =
      i' @ CHR '' '' # ''with hash '' @ h' @ CHR '' '' # ''and supply '' @ (g' @ ''.'') @ CHR '' '' # ''At '' @ w' @ ''.''"
    by simp_all
  from word_then [OF _ _ r1] free have i: "i = i'"
    and r2: "h @ CHR '' '' # ''and supply '' @ (g @ ''.'') @ CHR '' '' # ''At '' @ w @ ''.'' =
      h' @ CHR '' '' # ''and supply '' @ (g' @ ''.'') @ CHR '' '' # ''At '' @ w' @ ''.''"
    by simp_all
  from word_then [OF _ _ r2] free have h: "h = h'"
    and r3: "(g @ ''.'') @ CHR '' '' # ''At '' @ w @ ''.'' = (g' @ ''.'') @ CHR '' '' # ''At '' @ w' @ ''.''"
    by simp_all
  from word_then [OF _ _ r3] free have g: "g = g'" and "w = w'" by simp_all
  with w(1) w'(1) iso8601_utc_inj owner i h g show ?thesis by metis
qed

lemma sentence_not_approval:
  "sentence account k v = Some m \<Longrightarrow> approval_sentence owner i h g t \<noteq> Some m"
  by (auto simp: sentence_def approval_sentence_Some split: option.splits)

lemma sentence_inj:
  assumes "sentence a k v = Some m" "sentence a' k' v' = Some m"
    and free: "\<forall>s \<in> {a, k, a', k'}. space_free s"
  shows "a = a' \<and> k = k' \<and> v = v'"
proof -
  obtain w where w: "iso8601_utc v = Some w" "m = ''Sign in to OutLayer as '' @ (a @ ''.'') @ CHR '' '' #
      ''Device key: '' @ (k @ ''.'') @ CHR '' '' # ''Valid until '' @ w @ ''.''"
    using assms(1) by (auto simp: sentence_def split: option.splits)
  obtain w' where w': "iso8601_utc v' = Some w'" "m = ''Sign in to OutLayer as '' @ (a' @ ''.'') @ CHR '' '' #
      ''Device key: '' @ (k' @ ''.'') @ CHR '' '' # ''Valid until '' @ w' @ ''.''"
    using assms(2) by (auto simp: sentence_def split: option.splits)
  from w(2) w'(2) have "(a @ ''.'') @ CHR '' '' # ''Device key: '' @ (k @ ''.'') @ CHR '' '' # ''Valid until '' @ w @ ''.'' =
      (a' @ ''.'') @ CHR '' '' # ''Device key: '' @ (k' @ ''.'') @ CHR '' '' # ''Valid until '' @ w' @ ''.''"
    by (simp only: same_append_eq)
  from word_then [OF _ _ this] free have a: "a = a'"
    and r: "(k @ ''.'') @ CHR '' '' # ''Valid until '' @ w @ ''.'' = (k' @ ''.'') @ CHR '' '' # ''Valid until '' @ w' @ ''.''"
    by simp_all
  from word_then [OF _ _ r] free have "k = k'" "w = w'" by simp_all
  with a w(1) w'(1) iso8601_utc_inj show ?thesis by metis
qed

lemma le_bytes_length [simp]: "length (le_bytes k n) = k"
  by (induction k arbitrary: n) simp_all

lemma le_bytes_inj: "le_bytes k m = le_bytes k n \<Longrightarrow> m < 256 ^ k \<Longrightarrow> n < 256 ^ k \<Longrightarrow> m = n"
proof (induction k arbitrary: m n)
  case (Suc k)
  from Suc.prems(1) have "of_char (char_of (m mod 256) :: char) = (of_char (char_of (n mod 256) :: char) :: nat)" by simp
  then have "m mod 256 = n mod 256" by simp
  moreover have "m div 256 = n div 256"
    using Suc by (auto intro!: Suc.IH simp: less_mult_imp_div_less mult.commute)
  ultimately show ?case by (metis div_mult_mod_eq)
qed simp

lemma le32_inj: "le32 m = le32 n \<Longrightarrow> m < 2 ^ 32 \<Longrightarrow> n < 2 ^ 32 \<Longrightarrow> m = n"
  using le_bytes_inj [of 4 m n] by simp

lemma nep413_payload_inj:
  assumes "nep413_payload m n r = Some p" "nep413_payload m' n' r' = Some p" "length n = 32" "length n' = 32"
  shows "m = m' \<and> n = n' \<and> r = r'"
proof -
  have eq: "le32 (length m) @ m @ n @ le32 (length r) @ r @ [char_of (0::nat)] =
      le32 (length m') @ m' @ n' @ le32 (length r') @ r' @ [char_of (0::nat)]"
    and len: "length m < 2 ^ 32" "length m' < 2 ^ 32"
    using assms(1,2) by (auto simp: nep413_payload_def split: if_splits)
  from eq have "le32 (length m) = le32 (length m')" "m @ n @ le32 (length r) @ r @ [char_of (0::nat)] =
      m' @ n' @ le32 (length r') @ r' @ [char_of (0::nat)]" by (simp_all add: append_eq_append_conv)
  moreover from this(1) len have "length m = length m'" by (rule le32_inj)
  ultimately show ?thesis using assms(3,4) by (auto simp: append_eq_append_conv)
qed

lemma supply_member_end:
  assumes "\<forall>b. CHR 0x22 \<notin> set (b64_encode lib b)" "inj (b64_encode lib)"
    and eq: "supply_member lib a @ x = supply_member lib b @ y"
  shows "a = b \<and> x = y"
proof (cases a; cases b)
  fix u v assume ab: "a = Some u" "b = Some v"
  from eq have "b64_encode lib u @ CHR 0x22 # x = b64_encode lib v @ CHR 0x22 # y"
    by (simp add: supply_member_def ab)
  from split_at_separator [OF _ _ this] assms(1) have "b64_encode lib u = b64_encode lib v" "x = y" by simp_all
  with ab injD [OF assms(2)] show ?thesis by simp
qed (use eq in \<open>simp_all add: supply_member_def\<close>)

lemma supply_canonical_inj:
  assumes "\<forall>b. CHR 0x22 \<notin> set (b64_encode lib b)" "inj (b64_encode lib)"
    and eq: "supply_canonical lib s n = supply_canonical lib s' n'"
  shows "s = s' \<and> n = n'"
proof -
  from eq have "supply_member lib n @ '','' @ CHR 0x22 # ''supplied'' @ [CHR 0x22, CHR '':''] @ supply_member lib s @ ''}'' =
      supply_member lib n' @ '','' @ CHR 0x22 # ''supplied'' @ [CHR 0x22, CHR '':''] @ supply_member lib s' @ ''}''"
    by (simp add: supply_canonical_def)
  note n = supply_member_end [OF assms(1,2) this]
  then have "supply_member lib s @ ''}'' = supply_member lib s' @ ''}''" by simp
  with n supply_member_end [OF assms(1,2)] show ?thesis by blast
qed

section \<open>What holds\<close>

definition nep413_signed :: "statement_libs \<Rightarrow> string \<Rightarrow> string \<Rightarrow> string \<Rightarrow> string \<Rightarrow> string \<Rightarrow> bool" where
  "nep413_signed lib message k sig nonce recipient \<longleftrightarrow>
     (\<exists>point s n p. near_key_bytes lib k = Some point \<and> ed25519_point lib point \<and>
        b64_decode lib sig = Some s \<and> length s = 64 \<and> b64_decode lib nonce = Some n \<and> length n = 32 \<and>
        nep413_payload message n recipient = Some p \<and>
        ed25519_verify lib point (sha256_digest lib (le32 NEP413_TAG @ p)) s)"

lemma bytes_of_length_Some: "bytes_of_length n b = Some x \<longleftrightarrow> b = Some x \<and> length x = n"
  by (auto simp: bytes_of_length_def split: option.splits)

lemma verify_nep413_iff: "verify_nep413 lib m k sig nonce r = Inr () \<longleftrightarrow> nep413_signed lib m k sig nonce r"
proof (cases "near_key_bytes lib k")
  case (Some point)
  then show ?thesis
    by (cases "bytes_of_length 64 (b64_decode lib sig)"; cases "bytes_of_length 32 (b64_decode lib nonce)")
      (auto simp: verify_nep413_def nep413_signed_def bytes_of_length_def split: option.splits if_splits)
qed (simp add: verify_nep413_def nep413_signed_def)

fun on_ok :: "('a \<Rightarrow> 'b) \<Rightarrow> 'e + 'a \<Rightarrow> 'e + 'b" where
  "on_ok f (Inl e) = Inl e"
| "on_ok f (Inr x) = Inr (f x)"

lemma on_ok_comp: "on_ok f (on_ok g s) = on_ok (\<lambda>x. f (g x)) s"
  by (cases s) simp_all

text \<open>The devices by the three rules, each statement judged for itself: the first whose signature holds
  and of whose key the chain says nothing fails the whole.\<close>

fun devices_judged ::
  "statement_libs \<Rightarrow> chain \<Rightarrow> account \<Rightarrow> int \<Rightarrow> string \<Rightarrow> device_statement list \<Rightarrow> string + device list" where
  "devices_judged lib chain owner now recipient [] = Inr []"
| "devices_judged lib chain owner now recipient (st # sts) =
     (case signed_by_its_signer lib st owner now recipient of
        Inl why \<Rightarrow> devices_judged lib chain owner now recipient sts
      | Inr key \<Rightarrow>
          (case chain owner (ds_signer_pubkey st) of
             Inl down \<Rightarrow> Inl down
           | Inr NotItsKey \<Rightarrow> devices_judged lib chain owner now recipient sts
           | Inr ItsKey \<Rightarrow>
               on_ok (\<lambda>ds. \<lparr>dv_id = ds_id st, dv_key = key\<rparr> # ds) (devices_judged lib chain owner now recipient sts)))"

text \<open>The loop's answers are the chain's.\<close>

lemma devices_loop_eq:
  assumes "\<forall>(k, a) \<in> set asked. chain owner k = Inr a"
  shows "on_ok snd (devices_loop lib chain owner now recipient sts asked devices) =
    on_ok (\<lambda>ds. devices @ ds) (devices_judged lib chain owner now recipient sts)"
  using assms
proof (induction sts arbitrary: asked devices)
  case (Cons st sts)
  show ?case
  proof (cases "signed_by_its_signer lib st owner now recipient")
    case (Inl why)
    with Cons show ?thesis by simp
  next
    case (Inr key)
    note signed = Inr
    show ?thesis
    proof (cases "map_of asked (ds_signer_pubkey st)")
      case None
      show ?thesis
      proof (cases "chain owner (ds_signer_pubkey st)")
        case (Inl down)
        with None signed show ?thesis by simp
      next
        case (Inr answered)
        with Cons.prems have "\<forall>(k, a) \<in> set (asked @ [(ds_signer_pubkey st, answered)]). chain owner k = Inr a" by simp
        note IH = Cons.IH [OF this]
        show ?thesis using None signed Inr IH by (cases answered) (simp_all add: Let_def on_ok_comp)
      qed
    next
      case (Some answered)
      with Cons.prems have "chain owner (ds_signer_pubkey st) = Inr answered" by (auto dest: map_of_SomeD)
      with Some signed Cons.IH [OF Cons.prems] show ?thesis
        by (cases answered) (simp_all add: Let_def on_ok_comp)
    qed
  qed
qed simp

lemma devices_loop_asks_once:
  "devices_loop lib chain owner now recipient sts asked devices = Inr (asked', ds) \<Longrightarrow>
     distinct (map fst asked) \<Longrightarrow> distinct (map fst asked')"
proof (induction sts arbitrary: asked devices)
  case (Cons st sts)
  show ?case
  proof (cases "signed_by_its_signer lib st owner now recipient")
    case (Inr key)
    show ?thesis
    proof (cases "map_of asked (ds_signer_pubkey st)")
      case None
      then have "ds_signer_pubkey st \<notin> set (map fst asked)" by (simp add: map_of_eq_None_iff)
      with None Inr Cons show ?thesis by (auto simp: Let_def split: sum.splits)
    next
      case (Some answered)
      with Inr Cons show ?thesis by (simp add: Let_def)
    qed
  qed (use Cons in simp)
qed simp

definition says_full_access :: "node_value \<Rightarrow> bool" where
  "says_full_access answer \<longleftrightarrow> member_of ''error'' answer = None \<and>
     (\<exists>r. member_of ''result'' answer = Some r \<and> said_error r = None \<and> member_of ''nonce'' r \<noteq> None \<and>
        member_of ''permission'' r = Some (JStr ''FullAccess''))"

lemma read_its_key: "read_access_key_answer answer = Inr ItsKey \<longleftrightarrow> says_full_access answer"
  by (auto simp: read_access_key_answer_def says_full_access_def Let_def
      split: option.splits if_splits node_value.splits)

lemma approval_holds_iff:
  "approval_holds lib chain ap owner i hash supplied owner_note now expires_at recipient = Inr () \<longleftrightarrow>
     int (ap_at ap) \<le> now + 600 \<and> now - 1800 \<le> int (ap_at ap) \<and> ap_at ap < expires_at \<and>
     (\<exists>m. approval_sentence owner i hash (supply_digest lib supplied owner_note) (int (ap_at ap)) = Some m \<and>
        nep413_signed lib m (ap_public_key ap) (ap_signature ap) (ap_nonce ap) recipient) \<and>
     chain owner (ap_public_key ap) = Inr ItsKey"
proof -
  have "int (ap_at ap) < 253402300800" if "approval_sentence owner i hash g (int (ap_at ap)) = Some m" for g m
    using that by (auto simp: approval_sentence_def iso8601_utc_def split: if_splits option.splits)
  then have bound: "ap_at ap < 2 ^ 63" if "approval_sentence owner i hash g (int (ap_at ap)) = Some m" for g m
    using that by force
  show ?thesis
    by (auto simp: approval_holds_def Let_def APPROVAL_AHEAD_SECS_def APPROVAL_AGE_SECS_def
        simp flip: verify_nep413_iff split: option.splits sum.splits on_chain.splits if_splits dest: bound)
qed

section \<open>Properties\<close>

text \<open>
  C32. A signature approves one task. Two approval sentences that read the same are of the same owner,
  task, hash of what was shown, digest of what was supplied and time, and no sign-in sentence reads as
  an approval; so, the signed payload being read back to its message, nonce and recipient, one
  signature stands for one approval only. The nonces have 32 bytes, which the verifier checks, and the
  parts hold no space, which the checks on ids, hashes and accounts see to.\<close>

theorem approval_names_one_task:
  assumes "approval_sentence owner i h g t = Some m" "nep413_payload m n r = Some p" "length n = 32"
    and "nep413_payload m' n' r' = Some p" "length n' = 32"
    and "\<forall>s \<in> {owner, i, h, g, owner', i', h', g'}. CHR '' '' \<notin> set s"
  shows "sentence a k v \<noteq> Some m' \<and> r = r' \<and> n = n' \<and>
    (approval_sentence owner' i' h' g' t' = Some m' \<longrightarrow> owner = owner' \<and> i = i' \<and> h = h' \<and> g = g' \<and> t = t')"
proof -
  have eq: "m = m' \<and> n = n' \<and> r = r'" using nep413_payload_inj [OF assms(2,4,3,5)] .
  with assms(1) sentence_not_approval have "sentence a k v \<noteq> Some m'" by blast
  with eq approval_sentence_inj [OF assms(1) _ assms(6)] show ?thesis by blast
qed

lemma iso_sixty: "iso8601_utc 60 = Some ''1970-01-01T00:01:00Z''"
  by code_simp

theorem approval_names_one_task_witness:
  "sentence ''a.near'' ''p256:k'' 5 \<noteq> Some (the (approval_sentence ''o.near'' ''t-0'' ''h'' ''g'' 60)) \<and>
   (approval_sentence ''o.near'' ''t-1'' ''h'' ''g'' 60 \<noteq> approval_sentence ''o.near'' ''t-0'' ''h'' ''g'' 60)"
proof -
  obtain w where w: "iso8601_utc 60 = Some w" by (simp add: iso8601_utc_def)
  define m where "m = the (approval_sentence ''o.near'' ''t-0'' ''h'' ''g'' 60)"
  have m: "approval_sentence ''o.near'' ''t-0'' ''h'' ''g'' 60 = Some m"
    unfolding m_def by (simp add: approval_sentence_def w)
  have len: "length w = 20" using w unfolding iso_sixty by auto
  obtain p where p: "nep413_payload m (replicate 32 CHR ''n'') ''c.near'' = Some p"
    using len by (simp add: nep413_payload_def m_def approval_sentence_def w)
  note th = approval_names_one_task [OF m p _ p]
  show ?thesis
    using th [of "''o.near''" "''t-1''" "''h''" "''g''" "''a.near''" "''p256:k''" 5 60] m unfolding m_def by auto
qed

text \<open>
  An approval holds exactly when it is dated no more than ten minutes ahead and thirty minutes back
  and before the task's end, the sentence that names the owner, the task, the hash of what was shown and
  the digest of what was supplied is signed by its key under NEP-413 for the recipient, and the chain
  says that key is a full-access key of the owner. A chain that gives no answer is no approval.\<close>

theorem approval_holds_exactly:
  "approval_holds lib chain ap owner i hash supplied owner_note now expires_at recipient = Inr () \<longleftrightarrow>
     int (ap_at ap) \<le> now + 600 \<and> now - 1800 \<le> int (ap_at ap) \<and> ap_at ap < expires_at \<and>
     (\<exists>m. approval_sentence owner i hash (supply_digest lib supplied owner_note) (int (ap_at ap)) = Some m \<and>
        nep413_signed lib m (ap_public_key ap) (ap_signature ap) (ap_nonce ap) recipient) \<and>
     chain owner (ap_public_key ap) = Inr ItsKey"
  by (rule approval_holds_iff)

text \<open>
  The devices of an owner are exactly the statements that hold by all three rules, in order, however
  often a key is asked of the chain or remembered; no key is asked twice; and a chain that gives no
  answer about a key that matters fails the whole, so it is never read as an owner without devices.\<close>

theorem devices_are_those_in_force:
  "devices_in_force lib chain sts owner now recipient = devices_judged lib chain owner now recipient sts"
proof -
  have "devices_in_force lib chain sts owner now recipient =
      on_ok snd (devices_loop lib chain owner now recipient sts [] [])"
    by (auto simp: devices_in_force_def split: sum.splits)
  then show ?thesis
    using devices_loop_eq [of "[]" chain owner lib now recipient sts "[]"]
    by (cases "devices_judged lib chain owner now recipient sts") simp_all
qed

text \<open>
  A key speaks for an account only if the node says it is a full-access key of the account, or says
  there is no such key while the account is the implicit account of that key and does not exist yet. A
  function-call key, or a permission the host does not know, never does.\<close>

theorem key_speaks_for_account:
  "access_key_by lib query a k = Inr ItsKey \<longleftrightarrow>
     (\<exists>answer. query (ViewAccessKey a k) = Inr answer \<and>
        (says_full_access answer \<or>
         read_access_key_answer answer = Inr NotItsKey \<and> is_implicit_of lib a k \<and>
         (\<exists>account_answer. query (ViewAccount a) = Inr account_answer \<and> read_account_answer account_answer = Inr False)))"
proof (cases "query (ViewAccessKey a k)")
  case (Inr answer)
  show ?thesis
  proof (cases "read_access_key_answer answer")
    case (Inl e)
    then show ?thesis using Inr by (simp add: access_key_by_def flip: read_its_key)
  next
    case (Inr said)
    then show ?thesis using \<open>query (ViewAccessKey a k) = Inr answer\<close>
      by (cases said) (auto simp: access_key_by_def simp flip: read_its_key split: sum.splits)
  qed
qed (simp add: access_key_by_def)

end
