(* ===== verification/Keystore_Secrets.thy ===== *)
theory Keystore_Secrets
  imports Keystore_Door Task_Statement "HOL-Library.Char_ord" "HOL-Library.List_Lexorder"
begin

text \<open>
  The handlers of the keystore worker that make and change the blob of a secret row
  (\<open>keystore-worker/src/api.rs\<close>, \<open>secret_generation.rs\<close>, \<open>verify_access_key_owner\<close> of \<open>near.rs\<close>): the public
  key of a seed, encryption and raw decryption, secrets generated in the enclave, and the update an
  owner signs. A \<open>serde_json::Map\<close> is a list of members sorted by key; its text is read and written by
  two functions of the JSON library, and a \<open>HashMap\<close> of a request is taken in that order too; near-crypto
  is a record; random bytes are arguments.
\<close>

section \<open>Maps and names\<close>

type_synonym secrets_map = "(string \<times> node_value) list"

fun map_insert :: "string \<Rightarrow> node_value \<Rightarrow> secrets_map \<Rightarrow> secrets_map" where
  "map_insert k v [] = [(k, v)]"
| "map_insert k v ((k', v') # m) =
     (if k = k' then (k, v) # m else if k < k' then (k, v) # (k', v') # m else (k', v') # map_insert k v m)"

lemma map_of_insert [simp]: "map_of (map_insert k v m) = (map_of m)(k \<mapsto> v)"
  by (induction m) (auto simp: fun_eq_iff)

definition MAX_GENERATED_SECRETS :: nat where "MAX_GENERATED_SECRETS = 16"

definition RESERVED_SECRET_KEYS :: "string list" where
  "RESERVED_SECRET_KEYS =
     [''NEAR_SENDER_ID'', ''NEAR_CONTRACT_ID'', ''NEAR_BLOCK_HEIGHT'', ''NEAR_BLOCK_TIMESTAMP'', ''NEAR_RECEIPT_ID'',
      ''NEAR_PREDECESSOR_ID'', ''NEAR_SIGNER_PUBLIC_KEY'', ''NEAR_RELAYER_ID'', ''NEAR_GAS_BURNT'', ''NEAR_USER_ACCOUNT_ID'',
      ''NEAR_PAYMENT_YOCTO'', ''NEAR_TRANSACTION_HASH'', ''NEAR_MAX_INSTRUCTIONS'', ''NEAR_MAX_MEMORY_MB'',
      ''NEAR_MAX_EXECUTION_SECONDS'', ''NEAR_REQUEST_ID'', ''NEAR_NETWORK_ID'', ''OUTLAYER_PROJECT_ID'', ''OUTLAYER_PROJECT_UUID'',
      ''OUTLAYER_EXECUTION_TYPE'', ''OUTLAYER_CALL_ID'', ''OUTLAYER_PROJECT_NAME'', ''OUTLAYER_PROJECT_OWNER'', ''ATTACHED_USD'',
      ''USD_PAYMENT'', ''WALLET_ID'', ''NEAR_RPC_PROXY_AVAILABLE'', ''OUTLAYER_SECRETS_ROWS'', ''OUTLAYER_SECRETS_OWNER'',
      ''OUTLAYER_SECRETS_PROFILE'']"

definition reject_reserved_secret_keys :: "string list \<Rightarrow> door_error option" where
  "reject_reserved_secret_keys keys = (if list_ex (\<lambda>k. k \<in> set RESERVED_SECRET_KEYS) keys then Some DoorBadRequest else None)"

abbreviation protected :: "string \<Rightarrow> bool" where "protected \<equiv> starts_with ''PROTECTED_''"

section \<open>Generated secrets\<close>

definition GENERATION_PREFIX :: string where "GENERATION_PREFIX = ''generate_outlayer_secret:''"

text \<open>\<open>str::split\<close> at a character.\<close>

fun split_all :: "char \<Rightarrow> string \<Rightarrow> string list" where
  "split_all c [] = [[]]"
| "split_all c (x # s) =
     (if x = c then [] # split_all c s
      else case split_all c s of [] \<Rightarrow> [[x]] | p # ps \<Rightarrow> (x # p) # ps)"

record random_source =
  rs_bytes :: "nat \<Rightarrow> string"
  rs_secret_key :: string
  rs_pick :: "nat \<Rightarrow> nat"

definition CHARSET :: string where
  "CHARSET = ''ABCDEFGHIJKLMNOPQRSTUVWXYZabcdefghijklmnopqrstuvwxyz0123456789''"

definition generate_hex_bytes :: "master_libs \<Rightarrow> random_source \<Rightarrow> nat \<Rightarrow> string" where
  "generate_hex_bytes lib rs n = ml_hex lib (rs_bytes rs n)"

definition generate_ed25519_key :: "master_libs \<Rightarrow> random_source \<Rightarrow> string" where
  "generate_ed25519_key lib rs = ''ed25519:'' @ ml_base58 lib (rs_secret_key rs)"

definition generate_password :: "random_source \<Rightarrow> nat \<Rightarrow> string" where
  "generate_password rs n = map (\<lambda>i. CHARSET ! (rs_pick rs i mod length CHARSET)) [0..<n]"

definition generate_secret :: "master_libs \<Rightarrow> random_source \<Rightarrow> string \<Rightarrow> string option" where
  "generate_secret lib rs spec =
     (case strip_prefix GENERATION_PREFIX spec of
        None \<Rightarrow> None
      | Some rest \<Rightarrow>
          (let parts = split_all CHR '':'' rest; secret_type = hd parts;
               param = (if length parts \<ge> 2 then Some (parts ! 1) else None)
           in if secret_type = ''hex32'' then Some (generate_hex_bytes lib rs 32)
              else if secret_type = ''hex16'' then Some (generate_hex_bytes lib rs 16)
              else if secret_type = ''hex64'' then Some (generate_hex_bytes lib rs 64)
              else if secret_type = ''ed25519'' then Some (generate_ed25519_key lib rs)
              else if secret_type = ''ed25519_seed'' then Some (generate_hex_bytes lib rs 32)
              else if secret_type = ''password'' then
                (case param of
                   None \<Rightarrow> Some (generate_password rs 32)
                 | Some p \<Rightarrow> map_option (generate_password rs) (parse_u64 p))
              else None))"

record secret_spec =
  gs_name :: string
  gs_type :: string

section \<open>Keys and blobs of a seed\<close>

record json_libs =
  jl_read :: "string \<Rightarrow> secrets_map option"
  jl_write :: "secrets_map \<Rightarrow> string"

text \<open>A header is absent, unreadable or text.\<close>

definition extract_customer_from_header :: "externals \<Rightarrow> string option option \<Rightarrow> door_error + account option" where
  "extract_customer_from_header ext header =
     (case header of
        None \<Rightarrow> Inr None
      | Some None \<Rightarrow> Inl DoorBadRequest
      | Some (Some raw) \<Rightarrow>
          (let s = trim_str raw in
           if s = [] then Inr None else if valid_account ext s then Inr (Some s) else Inl DoorBadRequest))"

definition pubkey_handler ::
  "externals \<Rightarrow> master_libs \<Rightarrow> door_world \<Rightarrow> json_libs \<Rightarrow> bool \<Rightarrow> bool \<Rightarrow> string \<Rightarrow> string \<Rightarrow> string option \<Rightarrow> keystore
     \<Rightarrow> (door_error + string) \<times> keystore" where
  "pubkey_handler ext lib w js ready authenticated seed secrets_json vault_id k =
     (if \<not> ready then (Inl DoorUnauthorized, k)
      else case jl_read js secrets_json of
        None \<Rightarrow> (Inl DoorBadRequest, k)
      | Some m \<Rightarrow>
          (case reject_reserved_secret_keys (map fst m) of
             Some e \<Rightarrow> (Inl e, k)
           | None \<Rightarrow>
               if list_ex (protected \<circ> fst) m then (Inl DoorBadRequest, k)
               else case refuse_declared_key_seed seed of
                 Some e \<Rightarrow> (Inl e, k)
               | None \<Rightarrow>
                   (case parse_optional_vault_id ext vault_id of
                      Inl e \<Rightarrow> (Inl e, k)
                    | Inr customer \<Rightarrow>
                        if customer \<noteq> None \<and> \<not> authenticated then (Inl DoorUnauthorized, k)
                        else case app_ensure_customer_loaded lib w customer k of
                          (Inl e, k1) \<Rightarrow> (Inl (from_customer_load e), k1)
                        | (Inr _, k1) \<Rightarrow>
                            (let k2 = dw_meanwhile w 4 k1 in
                             (case public_key_hex lib k2 customer seed of Inl _ \<Rightarrow> Inl DoorInternal | Inr p \<Rightarrow> Inr p, k2)))))"

definition encrypt_handler ::
  "externals \<Rightarrow> master_libs \<Rightarrow> door_world \<Rightarrow> bool \<Rightarrow> string option option \<Rightarrow> string \<Rightarrow> string \<Rightarrow> string \<Rightarrow> string \<Rightarrow> keystore
     \<Rightarrow> door_error + string" where
  "encrypt_handler ext lib w ready header seed plaintext_base64 ephemeral nonce k =
     (if \<not> ready then Inl DoorUnauthorized
      else case refuse_declared_key_seed seed of
        Some e \<Rightarrow> Inl e
      | None \<Rightarrow>
          (case dw_base64_decode w plaintext_base64 of
             None \<Rightarrow> Inl DoorBadRequest
           | Some plaintext \<Rightarrow>
               (case extract_customer_from_header ext header of
                  Inl e \<Rightarrow> Inl e
                | Inr customer \<Rightarrow>
                    (case encrypt_secret lib k ephemeral nonce customer seed plaintext of
                       Inl _ \<Rightarrow> Inl DoorInternal
                     | Inr blob \<Rightarrow> Inr (dw_base64_encode w blob)))))"

definition decrypt_raw_handler ::
  "externals \<Rightarrow> master_libs \<Rightarrow> door_world \<Rightarrow> bool \<Rightarrow> string option option \<Rightarrow> string \<Rightarrow> string \<Rightarrow> keystore
     \<Rightarrow> (door_error + string) \<times> keystore" where
  "decrypt_raw_handler ext lib w ready header seed encrypted_base64 k =
     (if \<not> ready then (Inl DoorUnauthorized, k)
      else if \<not> starts_with ''system:payment_key:'' seed then (Inl DoorBadRequest, k)
      else case dw_base64_decode w encrypted_base64 of
        None \<Rightarrow> (Inl DoorBadRequest, k)
      | Some blob \<Rightarrow>
          (case extract_customer_from_header ext header of
             Inl e \<Rightarrow> (Inl e, k)
           | Inr customer \<Rightarrow>
               (case decrypt_secret lib customer seed blob k of
                  (Inl _, k1) \<Rightarrow> (Inl DoorInternal, k1)
                | (Inr plaintext, k1) \<Rightarrow> (Inr (dw_base64_encode w plaintext), k1))))"

section \<open>Adding generated secrets\<close>

record add_generated_request =
  gq_seed :: string
  gq_encrypted :: "string option"
  gq_new :: "secret_spec list"
  gq_vault_id :: "string option"

text \<open>A stored blob as a map: decrypted, then read as UTF-8 JSON.\<close>

definition read_secrets ::
  "externals \<Rightarrow> master_libs \<Rightarrow> json_libs \<Rightarrow> account option \<Rightarrow> string \<Rightarrow> string \<Rightarrow> keystore \<Rightarrow> (door_error + secrets_map) \<times> keystore" where
  "read_secrets ext lib js customer seed blob k =
     (case decrypt_secret lib customer seed blob k of
        (Inl _, k1) \<Rightarrow> (Inl DoorInternal, k1)
      | (Inr plaintext, k1) \<Rightarrow>
          (if \<not> valid_utf8 ext plaintext then (Inl DoorInternal, k1)
           else case jl_read js plaintext of None \<Rightarrow> (Inl DoorInternal, k1) | Some m \<Rightarrow> (Inr m, k1)))"

fun insert_generated ::
  "master_libs \<Rightarrow> (nat \<Rightarrow> random_source) \<Rightarrow> nat \<Rightarrow> secret_spec list \<Rightarrow> secrets_map \<Rightarrow> door_error + secrets_map" where
  "insert_generated lib rnd i [] m = Inr m"
| "insert_generated lib rnd i (spec # specs) m =
     (case generate_secret lib (rnd i) (''generate_outlayer_secret:'' @ gs_type spec) of
        None \<Rightarrow> Inl DoorBadRequest
      | Some v \<Rightarrow> insert_generated lib rnd (Suc i) specs (map_insert (gs_name spec) (JStr v) m))"

definition merge_generated ::
  "master_libs \<Rightarrow> (nat \<Rightarrow> random_source) \<Rightarrow> secret_spec list \<Rightarrow> secrets_map \<Rightarrow> door_error + secrets_map" where
  "merge_generated lib rnd specs m =
     (if list_ex (protected \<circ> fst) m then Inl DoorBadRequest
      else if list_ex (\<lambda>s. \<not> protected (gs_name s)) specs then Inl DoorBadRequest
      else if list_ex (\<lambda>s. gs_name s \<in> set (map fst m)) specs then Inl DoorBadRequest
      else case insert_generated lib rnd 0 specs m of
        Inl e \<Rightarrow> Inl e
      | Inr m1 \<Rightarrow> (case reject_reserved_secret_keys (map fst m1) of Some e \<Rightarrow> Inl e | None \<Rightarrow> Inr m1))"

definition existing_secrets ::
  "externals \<Rightarrow> master_libs \<Rightarrow> door_world \<Rightarrow> json_libs \<Rightarrow> account option \<Rightarrow> add_generated_request \<Rightarrow> keystore
     \<Rightarrow> (door_error + secrets_map) \<times> keystore" where
  "existing_secrets ext lib w js customer req k =
     (case gq_encrypted req of
        None \<Rightarrow> (Inr [], k)
      | Some b64 \<Rightarrow>
          (case dw_base64_decode w b64 of
             None \<Rightarrow> (Inl DoorBadRequest, k)
           | Some blob \<Rightarrow> read_secrets ext lib js customer (gq_seed req) blob k))"

definition add_generated_secret_handler ::
  "externals \<Rightarrow> master_libs \<Rightarrow> door_world \<Rightarrow> json_libs \<Rightarrow> bool \<Rightarrow> add_generated_request \<Rightarrow> (nat \<Rightarrow> random_source) \<Rightarrow> string \<Rightarrow> string
     \<Rightarrow> keystore \<Rightarrow> (door_error + string \<times> string list) \<times> keystore" where
  "add_generated_secret_handler ext lib w js ready req rnd ephemeral nonce k =
     (if \<not> ready then (Inl DoorUnauthorized, k)
      else if length (gq_new req) > MAX_GENERATED_SECRETS then (Inl DoorBadRequest, k)
      else case refuse_declared_key_seed (gq_seed req) of
        Some e \<Rightarrow> (Inl e, k)
      | None \<Rightarrow>
          (case parse_optional_vault_id ext (gq_vault_id req) of
             Inl e \<Rightarrow> (Inl e, k)
           | Inr customer \<Rightarrow>
               (case app_ensure_customer_loaded lib w customer k of
                  (Inl e, k1) \<Rightarrow> (Inl (from_customer_load e), k1)
                | (Inr _, k1) \<Rightarrow>
                    (case existing_secrets ext lib w js customer req (dw_meanwhile w 5 k1) of
                       (Inl e, k2) \<Rightarrow> (Inl e, k2)
                     | (Inr m, k2) \<Rightarrow>
                         (case merge_generated lib rnd (gq_new req) m of
                            Inl e \<Rightarrow> (Inl e, k2)
                          | Inr m1 \<Rightarrow>
                              (let k3 = dw_meanwhile w 6 k2 in
                               (case encrypt_secret lib k3 ephemeral nonce customer (gq_seed req) (jl_write js m1) of
                                  Inl _ \<Rightarrow> Inl DoorInternal
                                | Inr blob \<Rightarrow> Inr (dw_base64_encode w blob, map fst m1), k3)))))))"

section \<open>The signature of an owner\<close>

datatype key_scheme = SchemeEd25519 | SchemeMlDsa65 | SchemeOther

record near_crypto =
  nc_key_type :: "string \<Rightarrow> key_scheme option"
  nc_signature :: "string \<Rightarrow> (key_scheme \<times> string) option"
  nc_from_parts :: "key_scheme \<Rightarrow> string \<Rightarrow> (key_scheme \<times> string) option"
  nc_verify :: "key_scheme \<times> string \<Rightarrow> string \<Rightarrow> string \<Rightarrow> bool"

definition nep413_digest ::
  "master_libs \<Rightarrow> door_world \<Rightarrow> string \<Rightarrow> string \<Rightarrow> string \<Rightarrow> (string \<times> string) option" where
  "nep413_digest lib w message nonce recipient =
     (case bytes_of_length 32 (dw_base64_decode w nonce) of
        None \<Rightarrow> None
      | Some n \<Rightarrow>
          (case nep413_payload message n recipient of
             None \<Rightarrow> None
           | Some payload \<Rightarrow> (let tagged = le32 NEP413_TAG @ payload in Some (ml_sha256 lib tagged, tagged))))"

definition verify_near_signature ::
  "master_libs \<Rightarrow> door_world \<Rightarrow> near_crypto \<Rightarrow> string \<Rightarrow> string \<Rightarrow> string \<Rightarrow> string \<Rightarrow> string \<Rightarrow> bool" where
  "verify_near_signature lib w nc message signature public_key nonce recipient =
     (case nc_key_type nc public_key of
        None \<Rightarrow> False
      | Some key_type \<Rightarrow>
          key_type \<in> {SchemeEd25519, SchemeMlDsa65} \<and>
          (case (if CHR '':'' \<in> set signature then nc_signature nc signature
                 else Option.bind (dw_base64_decode w signature) (nc_from_parts nc key_type)) of
             None \<Rightarrow> False
           | Some sig \<Rightarrow>
               fst sig = key_type \<and>
               (case nep413_digest lib w message nonce recipient of
                  None \<Rightarrow> False
                | Some (digest, tagged) \<Rightarrow>
                    nc_verify nc sig digest public_key \<or> key_type = SchemeMlDsa65 \<and> nc_verify nc sig tagged public_key)))"

text \<open>What the chain says of a key of an account (\<open>signer_key_by\<close> of \<open>shared_tee_helpers\<close>, which asks it).\<close>

datatype signer_key = FullAccessKey | FunctionCallKey | AbsentKey
datatype key_owner = KeyOwned | KeyNotOwned | KeyMalformed | ChainSilent

definition verify_access_key_owner ::
  "externals \<Rightarrow> near_crypto \<Rightarrow> (string \<Rightarrow> string \<Rightarrow> signer_key option) \<Rightarrow> string \<Rightarrow> string \<Rightarrow> key_owner" where
  "verify_access_key_owner ext nc signer_key_by account_id public_key =
     (if \<not> valid_account ext account_id then KeyMalformed
      else if nc_key_type nc public_key = None then KeyMalformed
      else case signer_key_by account_id public_key of
        None \<Rightarrow> ChainSilent
      | Some FullAccessKey \<Rightarrow> KeyOwned
      | Some FunctionCallKey \<Rightarrow> KeyNotOwned
      | Some AbsentKey \<Rightarrow> KeyNotOwned)"

section \<open>Updating secrets\<close>

datatype update_mode = AppendMode | ResetMode

record update_request =
  up_accessor :: secret_accessor
  up_new_accessor :: "secret_accessor option"
  up_profile :: string
  up_owner :: string
  up_mode :: update_mode
  up_secrets :: secrets_map
  up_generate :: "secret_spec list option"
  up_signed_message :: string
  up_signature :: string
  up_public_key :: string
  up_nonce :: string
  up_recipient :: string
  up_vault_id :: "string option"

record update_summary =
  us_preserved :: "string list"
  us_updated :: "string list"
  us_removed :: "string list"
  us_total :: nat

fun join_comma :: "string list \<Rightarrow> string" where
  "join_comma [] = []"
| "join_comma [p] = p"
| "join_comma (p # q # ps) = p @ '','' @ join_comma (q # ps)"

definition expected_message :: "update_request \<Rightarrow> string" where
  "expected_message req =
     ''Update Outlayer secrets for '' @ up_owner req @ '':'' @ up_profile req @
     (if up_secrets req = [] then [] else CHR 0x0A # ''keys:'' @ join_comma (sort (map fst (up_secrets req)))) @
     (case up_generate req of
        None \<Rightarrow> []
      | Some specs \<Rightarrow> (if specs = [] then [] else CHR 0x0A # ''protected:'' @ join_comma (sort (map gs_name specs))))"

text \<open>Both seeds of an update take the branch the request names, an empty one as none.\<close>

definition update_seed :: "secret_accessor \<Rightarrow> string \<Rightarrow> string \<Rightarrow> door_error + string" where
  "update_seed accessor owner profile =
     secret_seed accessor owner profile
       (case accessor of RepoAcc repo (Some b) \<Rightarrow> (if b \<noteq> [] then Some b else None) | _ \<Rightarrow> None)"

definition apply_mode :: "update_mode \<Rightarrow> secrets_map \<Rightarrow> secrets_map" where
  "apply_mode mode m = (case mode of ResetMode \<Rightarrow> filter (protected \<circ> fst) m | AppendMode \<Rightarrow> m)"

definition insert_all :: "secrets_map \<Rightarrow> secrets_map \<Rightarrow> secrets_map" where
  "insert_all new m = fold (\<lambda>(k, v). map_insert k v) new m"

fun insert_protected ::
  "master_libs \<Rightarrow> (nat \<Rightarrow> random_source) \<Rightarrow> nat \<Rightarrow> secret_spec list \<Rightarrow> secrets_map \<Rightarrow> door_error + secrets_map" where
  "insert_protected lib rnd i [] m = Inr m"
| "insert_protected lib rnd i (spec # specs) m =
     (if \<not> protected (gs_name spec) then Inl DoorBadRequest
      else if gs_name spec \<in> set (map fst m) then Inl DoorBadRequest
      else case generate_secret lib (rnd i) (''generate_outlayer_secret:'' @ gs_type spec) of
        None \<Rightarrow> Inl DoorBadRequest
      | Some v \<Rightarrow> insert_protected lib rnd (Suc i) specs (map_insert (gs_name spec) (JStr v) m))"

abbreviation specs_of :: "update_request \<Rightarrow> secret_spec list" where
  "specs_of req \<equiv> (case up_generate req of None \<Rightarrow> [] | Some specs \<Rightarrow> specs)"

definition update_secrets ::
  "master_libs \<Rightarrow> (nat \<Rightarrow> random_source) \<Rightarrow> update_request \<Rightarrow> secrets_map \<Rightarrow> door_error + secrets_map \<times> update_summary" where
  "update_secrets lib rnd req m =
     (case insert_protected lib rnd 0 (specs_of req) (insert_all (up_secrets req) (apply_mode (up_mode req) m)) of
        Inl e \<Rightarrow> Inl e
      | Inr m1 \<Rightarrow>
          Inr (m1, \<lparr>us_preserved = filter protected (map fst m),
                    us_updated = map fst (up_secrets req) @ map gs_name (specs_of req),
                    us_removed = (if up_mode req = ResetMode then filter (Not \<circ> protected) (map fst m) else []),
                    us_total = length m1\<rparr>))"

definition authorise_update ::
  "externals \<Rightarrow> master_libs \<Rightarrow> door_world \<Rightarrow> near_crypto \<Rightarrow> (string \<Rightarrow> string \<Rightarrow> signer_key option) \<Rightarrow> update_request
     \<Rightarrow> door_error option" where
  "authorise_update ext lib w nc signer_key_by req =
     (if up_signed_message req \<noteq> expected_message req then Some DoorBadRequest
      else if \<not> verify_near_signature lib w nc (up_signed_message req) (up_signature req) (up_public_key req) (up_nonce req) (up_recipient req)
      then Some DoorForbidden
      else if dw_client w = None then Some DoorInternal
      else case verify_access_key_owner ext nc signer_key_by (up_owner req) (up_public_key req) of
        KeyNotOwned \<Rightarrow> Some DoorForbidden
      | KeyMalformed \<Rightarrow> Some DoorBadRequest
      | ChainSilent \<Rightarrow> Some DoorUnavailable
      | KeyOwned \<Rightarrow> (if list_ex (protected \<circ> fst) (up_secrets req) then Some DoorBadRequest else None))"

text \<open>The secrets the contract has now, read under the vault and the seed they were written with.\<close>

definition current_secrets ::
  "externals \<Rightarrow> master_libs \<Rightarrow> door_world \<Rightarrow> json_libs \<Rightarrow> update_request \<Rightarrow> keystore \<Rightarrow> (door_error + secrets_map) \<times> keystore" where
  "current_secrets ext lib w js req k =
     (case dw_secret_with_vault w (accessor_to_contract_json (up_accessor req)) (up_profile req) (up_owner req) of
        Inl _ \<Rightarrow> (Inl DoorInternal, k)
      | Inr (profile, vault_id) \<Rightarrow>
          (case parse_optional_vault_id ext vault_id of
             Inl e \<Rightarrow> (Inl e, k)
           | Inr existing \<Rightarrow>
               (case app_ensure_customer_loaded lib w existing k of
                  (Inl _, k1) \<Rightarrow> (Inl DoorInternal, k1)
                | (Inr _, k1) \<Rightarrow>
                    (case profile of
                       None \<Rightarrow> (if up_mode req = AppendMode then Inl DoorUnavailable else Inr [], k1)
                     | Some p \<Rightarrow>
                         (case Option.bind (member_of ''encrypted_secrets'' p) as_str of
                            None \<Rightarrow> (Inl DoorInternal, k1)
                          | Some b64 \<Rightarrow>
                              (case dw_base64_decode w b64 of
                                 None \<Rightarrow> (Inl DoorBadRequest, k1)
                               | Some blob \<Rightarrow>
                                   (case update_seed (up_accessor req) (up_owner req) (up_profile req) of
                                      Inl e \<Rightarrow> (Inl e, k1)
                                    | Inr seed \<Rightarrow> read_secrets ext lib js existing seed blob (dw_meanwhile w 8 k1))))))))"

definition update_user_secrets_handler ::
  "externals \<Rightarrow> master_libs \<Rightarrow> door_world \<Rightarrow> json_libs \<Rightarrow> near_crypto \<Rightarrow> (string \<Rightarrow> string \<Rightarrow> signer_key option) \<Rightarrow> bool \<Rightarrow> update_request
     \<Rightarrow> (nat \<Rightarrow> random_source) \<Rightarrow> string \<Rightarrow> string \<Rightarrow> keystore \<Rightarrow> (door_error + string \<times> update_summary) \<times> keystore" where
  "update_user_secrets_handler ext lib w js nc signer_key_by ready req rnd ephemeral nonce k =
     (if \<not> ready then (Inl DoorUnauthorized, k)
      else case reject_reserved_secret_keys (map fst (up_secrets req)) of
        Some e \<Rightarrow> (Inl e, k)
      | None \<Rightarrow>
          (case parse_optional_vault_id ext (up_vault_id req) of
             Inl e \<Rightarrow> (Inl e, k)
           | Inr customer \<Rightarrow>
               (case app_ensure_customer_loaded lib w customer k of
                  (Inl e, k1) \<Rightarrow> (Inl (from_customer_load e), k1)
                | (Inr _, k1) \<Rightarrow>
                    (case authorise_update ext lib w nc signer_key_by req of
                       Some e \<Rightarrow> (Inl e, k1)
                     | None \<Rightarrow>
                         (case current_secrets ext lib w js req (dw_meanwhile w 7 k1) of
                            (Inl e, k2) \<Rightarrow> (Inl e, k2)
                          | (Inr m, k2) \<Rightarrow>
                              (case update_secrets lib rnd req m of
                                 Inl e \<Rightarrow> (Inl e, k2)
                               | Inr (m1, summary) \<Rightarrow>
                                   (case update_seed (case up_new_accessor req of None \<Rightarrow> up_accessor req | Some a \<Rightarrow> a)
                                           (up_owner req) (up_profile req) of
                                      Inl e \<Rightarrow> (Inl e, k2)
                                    | Inr seed \<Rightarrow>
                                        (let k3 = dw_meanwhile w 9 k2 in
                                         (case encrypt_secret lib k3 ephemeral nonce customer seed (jl_write js m1) of
                                            Inl _ \<Rightarrow> Inl DoorInternal
                                          | Inr blob \<Rightarrow> Inr (dw_base64_encode w blob, summary), k3))))))))) "

section \<open>Maps kept in order\<close>

text \<open>A map as the JSON library has it: its keys ascend, so every key is there once.\<close>

definition map_ok :: "secrets_map \<Rightarrow> bool" where
  "map_ok m \<longleftrightarrow> sorted_wrt (<) (map fst m)"

text \<open>What the code relies on of base64 and of \<open>serde_json\<close>: what was encoded or written reads back, a
  parsed map is in order, and the text written is UTF-8. Secrets are members of one JSON object; the
  library's own limits (the rounding of floating-point numbers, nesting beyond 128 levels) are outside
  this law.\<close>

definition texts_ok :: "externals \<Rightarrow> door_world \<Rightarrow> json_libs \<Rightarrow> bool" where
  "texts_ok ext w js \<longleftrightarrow>
     (\<forall>b. dw_base64_decode w (dw_base64_encode w b) = Some b) \<and>
     (\<forall>m. map_ok m \<longrightarrow> jl_read js (jl_write js m) = Some m \<and> valid_utf8 ext (jl_write js m)) \<and>
     (\<forall>t m. jl_read js t = Some m \<longrightarrow> map_ok m)"

lemma map_ok_Nil [simp]: "map_ok []"
  by (simp add: map_ok_def)

lemma set_map_insert [simp]: "fst ` set (map_insert k v m) = insert k (fst ` set m)"
  by (induction k v m rule: map_insert.induct) (simp_all add: insert_commute)

lemma map_ok_insert: "map_ok m \<Longrightarrow> map_ok (map_insert k v m)"
proof (induction m)
  case (Cons e m)
  obtain k' v' where e: "e = (k', v')" by (cases e)
  have below: "\<forall>x \<in> set (map fst m). k' < x" and "map_ok m" using Cons.prems by (auto simp: map_ok_def e)
  then have "map_ok (map_insert k v m)" using Cons.IH by simp
  moreover have "\<forall>x \<in> set (map fst (map_insert k v m)). k' < x" if "k' < k"
    using below that by simp
  ultimately show ?case using Cons.prems below by (auto simp: map_ok_def e)
qed (simp add: map_ok_def)

lemma map_ok_filter: "map_ok m \<Longrightarrow> map_ok (filter P m)"
  unfolding map_ok_def by (induction m) auto

lemma map_of_filter_keys: "map_of (filter (P \<circ> fst) m) key = (if P key then map_of m key else None)"
  by (induction m) auto

lemma map_ok_distinct: "map_ok m \<Longrightarrow> distinct (map fst m)"
  unfolding map_ok_def by (induction m) auto

lemma insert_all_ok: "map_ok m \<Longrightarrow> map_ok (insert_all new m)"
  unfolding insert_all_def by (induction new arbitrary: m) (auto intro: map_ok_insert)

lemma map_of_insert_all: "map_ok new \<Longrightarrow> map_of (insert_all new m) = map_of m ++ map_of new"
proof -
  have "distinct (map fst new) \<Longrightarrow> map_of (insert_all new m) = map_of m ++ map_of new" for m
    unfolding insert_all_def
  proof (induction new arbitrary: m)
    case (Cons e new)
    obtain k v where e: "e = (k, v)" by (cases e)
    then have "map_of new k = None" using Cons.prems by (simp add: map_of_eq_None_iff)
    then show ?case using Cons by (auto simp: e map_add_def fun_eq_iff split: option.splits)
  qed simp
  then show "map_ok new \<Longrightarrow> ?thesis" using map_ok_distinct by blast
qed

lemma apply_mode_of: "map_of (apply_mode mode m) key = (if mode = ResetMode \<and> \<not> protected key then None else map_of m key)"
  by (cases mode) (simp_all add: apply_mode_def map_of_filter_keys)

lemma apply_mode_ok: "map_ok m \<Longrightarrow> map_ok (apply_mode mode m)"
  by (cases mode) (simp_all add: apply_mode_def map_ok_filter)

section \<open>What is generated\<close>

lemma insert_generated_of:
  "insert_generated lib rnd i specs m = Inr m1 \<Longrightarrow>
     (map_ok m \<longrightarrow> map_ok m1) \<and> set (map fst m1) = set (map fst m) \<union> set (map gs_name specs) \<and>
     (\<forall>key. key \<notin> set (map gs_name specs) \<longrightarrow> map_of m1 key = map_of m key)"
proof (induction lib rnd i specs m rule: insert_generated.induct)
  case (2 lib rnd i spec specs m)
  then obtain v where v: "generate_secret lib (rnd i) (''generate_outlayer_secret:'' @ gs_type spec) = Some v"
    and rest: "insert_generated lib rnd (Suc i) specs (map_insert (gs_name spec) (JStr v) m) = Inr m1"
    by (auto split: option.splits)
  from 2(1) [OF v rest] show ?case by (auto simp: map_ok_insert)
qed simp

lemma insert_protected_of:
  "insert_protected lib rnd i specs m = Inr m1 \<Longrightarrow>
     (map_ok m \<longrightarrow> map_ok m1) \<and> set (map fst m1) = set (map fst m) \<union> set (map gs_name specs) \<and>
     (\<forall>key. key \<notin> set (map gs_name specs) \<longrightarrow> map_of m1 key = map_of m key) \<and>
     distinct (map gs_name specs) \<and> (\<forall>s \<in> set specs. protected (gs_name s) \<and> gs_name s \<notin> set (map fst m))"
proof (induction lib rnd i specs m rule: insert_protected.induct)
  case (2 lib rnd i spec specs m)
  then have here: "protected (gs_name spec)" "gs_name spec \<notin> set (map fst m)"
    by (auto split: if_splits)
  with 2(2) obtain v where v: "generate_secret lib (rnd i) (''generate_outlayer_secret:'' @ gs_type spec) = Some v"
    and rest: "insert_protected lib rnd (Suc i) specs (map_insert (gs_name spec) (JStr v) m) = Inr m1"
    by (auto split: option.splits)
  have "\<not> \<not> protected (gs_name spec)" using here by simp
  from 2(1) [OF this here(2) v rest] here show ?case
    by (auto simp: map_ok_insert)
qed simp

text \<open>A map that was written and encrypted is read back from its blob.\<close>

lemma written_secrets_read:
  assumes enc: "encrypt_secret lib k ephemeral nonce customer seed (jl_write js m) = Inr blob"
    and ok: "agreement_ok lib" "sealing_ok lib" "length nonce = 12" "texts_ok ext w js" "map_ok m"
    and same: "master_for k' customer = master_for k customer"
  shows "read_secrets ext lib js customer seed blob k' =
    ((if length (jl_write js m) + 61 \<le> MAX_ENCRYPTED_SIZE then Inr m else Inl DoorInternal), k')"
proof -
  have "derive_x25519_keypair lib k' customer seed = derive_x25519_keypair lib k customer seed"
    by (simp add: derive_x25519_keypair_def same)
  then have "encrypt_secret lib k' ephemeral nonce customer seed (jl_write js m) = Inr blob"
    using enc by (simp add: encrypt_secret_def split: if_splits)
  from encrypted_blob [OF this ok(1-3)] show ?thesis
    using ok(4,5) by (simp add: read_secrets_def decrypt_secret_def texts_ok_def)
qed

lemma read_secrets_ok: "read_secrets ext lib js customer seed blob k = (Inr m, k1) \<Longrightarrow> texts_ok ext w js \<Longrightarrow> map_ok m"
  by (auto simp: read_secrets_def texts_ok_def split: prod.splits sum.splits if_splits option.splits)

lemma current_secrets_ok: "current_secrets ext lib w js req k = (Inr m, k1) \<Longrightarrow> texts_ok ext w js \<Longrightarrow> map_ok m"
  by (auto simp: current_secrets_def dest: read_secrets_ok split: prod.splits sum.splits if_splits option.splits)

lemma existing_secrets_ok: "existing_secrets ext lib w js customer req k = (Inr m, k1) \<Longrightarrow> texts_ok ext w js \<Longrightarrow> map_ok m"
  by (auto simp: existing_secrets_def dest: read_secrets_ok split: prod.splits sum.splits if_splits option.splits)

section \<open>What a handler that answered went through\<close>

lemma update_answered:
  assumes "update_user_secrets_handler ext lib w js nc signer_key_by ready req rnd ephemeral nonce k = (Inr (b64, summary), k3)"
  obtains customer u k1 m k2 m1 seed blob where
    "ready" "reject_reserved_secret_keys (map fst (up_secrets req)) = None"
    "parse_optional_vault_id ext (up_vault_id req) = Inr customer"
    "app_ensure_customer_loaded lib w customer k = (Inr u, k1)"
    "authorise_update ext lib w nc signer_key_by req = None"
    "current_secrets ext lib w js req (dw_meanwhile w 7 k1) = (Inr m, k2)"
    "update_secrets lib rnd req m = Inr (m1, summary)"
    "update_seed (case up_new_accessor req of None \<Rightarrow> up_accessor req | Some a \<Rightarrow> a) (up_owner req) (up_profile req) = Inr seed"
    "k3 = dw_meanwhile w 9 k2"
    "encrypt_secret lib k3 ephemeral nonce customer seed (jl_write js m1) = Inr blob" "b64 = dw_base64_encode w blob"
  using assms unfolding update_user_secrets_handler_def Let_def
  by (auto split: if_splits option.splits sum.splits prod.splits)

lemma add_generated_answered:
  assumes "add_generated_secret_handler ext lib w js ready req rnd ephemeral nonce k = (Inr (b64, keys), k3)"
  obtains customer u k1 m k2 m1 blob where
    "ready" "length (gq_new req) \<le> MAX_GENERATED_SECRETS" "refuse_declared_key_seed (gq_seed req) = None"
    "parse_optional_vault_id ext (gq_vault_id req) = Inr customer"
    "app_ensure_customer_loaded lib w customer k = (Inr u, k1)"
    "existing_secrets ext lib w js customer req (dw_meanwhile w 5 k1) = (Inr m, k2)"
    "merge_generated lib rnd (gq_new req) m = Inr m1" "k3 = dw_meanwhile w 6 k2"
    "encrypt_secret lib k3 ephemeral nonce customer (gq_seed req) (jl_write js m1) = Inr blob"
    "b64 = dw_base64_encode w blob" "keys = map fst m1"
  using assms unfolding add_generated_secret_handler_def Let_def
  by (auto split: if_splits option.splits sum.splits prod.splits)

lemma merge_generated_of:
  assumes "merge_generated lib rnd specs m = Inr m1"
  shows "\<forall>key \<in> set (map fst m). \<not> protected key" "\<forall>s \<in> set specs. protected (gs_name s)"
    "insert_generated lib rnd 0 specs m = Inr m1"
  using assms by (auto simp: merge_generated_def list_ex_iff split: if_splits sum.splits option.splits)

lemma merge_generated_refused: "\<exists>key \<in> set (map fst m). protected key \<Longrightarrow> merge_generated lib rnd specs m = Inl DoorBadRequest"
  by (auto simp: merge_generated_def list_ex_iff)

section \<open>Properties\<close>

lemma update_secrets_of:
  assumes "update_secrets lib rnd req m = Inr (m1, summary)" "map_ok m" "map_ok (up_secrets req)"
    and plain: "\<forall>key \<in> set (map fst (up_secrets req)). \<not> protected key"
  shows "map_ok m1" "us_preserved summary = filter protected (map fst m)" "us_total summary = length m1"
    and "\<forall>key v. protected key \<and> map_of m key = Some v \<longrightarrow> map_of m1 key = Some v"
    and "\<forall>key. protected key \<longrightarrow> (map_of m1 key \<noteq> None \<longleftrightarrow> map_of m key \<noteq> None \<or> key \<in> set (map gs_name (specs_of req)))"
    and "\<forall>key. \<not> protected key \<longrightarrow> map_of m1 key =
      (case map_of (up_secrets req) key of Some v \<Rightarrow> Some v | None \<Rightarrow> (if up_mode req = AppendMode then map_of m key else None))"
proof -
  let ?m0 = "insert_all (up_secrets req) (apply_mode (up_mode req) m)"
  from assms(1) have ins: "insert_protected lib rnd 0 (specs_of req) ?m0 = Inr m1"
    and sum: "us_preserved summary = filter protected (map fst m)" "us_total summary = length m1"
    by (auto simp: update_secrets_def split: sum.splits)
  note p = insert_protected_of [OF ins]
  have m0: "map_ok ?m0" using assms(2) by (intro insert_all_ok apply_mode_ok)
  have of0: "map_of ?m0 key = (case map_of (up_secrets req) key of Some v \<Rightarrow> Some v
      | None \<Rightarrow> (if up_mode req = ResetMode \<and> \<not> protected key then None else map_of m key))" for key
    by (cases "map_of (up_secrets req) key") (simp_all add: map_of_insert_all [OF assms(3)] map_add_def apply_mode_of)
  have user: "map_of (up_secrets req) key = None" if "protected key" for key
    using plain that by (auto simp: map_of_eq_None_iff)
  have fresh: "map_of ?m0 (gs_name s) = None" if "s \<in> set (specs_of req)" for s
    using p that by (auto simp: map_of_eq_None_iff)
  have kept: "map_of m1 key = map_of ?m0 key" if "key \<notin> set (map gs_name (specs_of req))" for key
    using p that by simp
  show "map_ok m1" using p m0 by simp
  show "us_preserved summary = filter protected (map fst m)" "us_total summary = length m1" by (fact sum)+
  show "\<forall>key v. protected key \<and> map_of m key = Some v \<longrightarrow> map_of m1 key = Some v"
  proof (intro allI impI)
    fix key v assume key: "protected key \<and> map_of m key = Some v"
    then have "map_of ?m0 key = Some v" by (simp add: of0 user)
    moreover from this have "key \<notin> set (map gs_name (specs_of req))" using fresh by fastforce
    ultimately show "map_of m1 key = Some v" using kept by simp
  qed
  show "\<forall>key. protected key \<longrightarrow> (map_of m1 key \<noteq> None \<longleftrightarrow> map_of m key \<noteq> None \<or> key \<in> set (map gs_name (specs_of req)))"
  proof (intro allI impI)
    fix key assume key: "protected key"
    have "map_of m1 key \<noteq> None \<longleftrightarrow> map_of ?m0 key \<noteq> None \<or> key \<in> set (map gs_name (specs_of req))"
      unfolding map_of_eq_None_iff using p by auto
    then show "map_of m1 key \<noteq> None \<longleftrightarrow> map_of m key \<noteq> None \<or> key \<in> set (map gs_name (specs_of req))"
      using key by (simp add: of0 user)
  qed
  show "\<forall>key. \<not> protected key \<longrightarrow> map_of m1 key =
      (case map_of (up_secrets req) key of Some v \<Rightarrow> Some v | None \<Rightarrow> (if up_mode req = AppendMode then map_of m key else None))"
  proof (intro allI impI)
    fix key assume key: "\<not> protected key"
    then have "key \<notin> set (map gs_name (specs_of req))" using p by auto
    then have "map_of m1 key = map_of ?m0 key" by (rule kept)
    also have "\<dots> = (case map_of (up_secrets req) key of Some v \<Rightarrow> Some v | None \<Rightarrow> (if up_mode req = ResetMode then None else map_of m key))"
      using key by (simp add: of0)
    finally show "map_of m1 key = (case map_of (up_secrets req) key of Some v \<Rightarrow> Some v
        | None \<Rightarrow> (if up_mode req = AppendMode then map_of m key else None))"
      by (cases "up_mode req") simp_all
  qed
qed

lemma authorised:
  assumes "authorise_update ext lib w nc signer_key_by req = None"
  shows "up_signed_message req = expected_message req"
    "verify_near_signature lib w nc (up_signed_message req) (up_signature req) (up_public_key req) (up_nonce req) (up_recipient req)"
    "valid_account ext (up_owner req)" "signer_key_by (up_owner req) (up_public_key req) = Some FullAccessKey"
    "\<forall>key \<in> set (map fst (up_secrets req)). \<not> protected key"
  using assms
  by (auto simp: authorise_update_def verify_access_key_owner_def list_ex_iff
      split: if_splits key_owner.splits option.splits signer_key.splits)

text \<open>
  C28. An update keeps what was generated in the enclave. When \<open>update_user_secrets\<close> answers, let \<open>m\<close> be the
  secrets the contract had under the row: the blob it answers with decrypts, under the vault and the
  seed of the new row, to a map in which every \<open>PROTECTED_\<close> member of \<open>m\<close> has the value it had, the
  other \<open>PROTECTED_\<close> names are exactly those the request asked to generate, and an unprotected name has
  the value the request gave it or else, in \<open>Append\<close> mode only, the one it had in \<open>m\<close>. The summary counts that map
  and names the members preserved. A map whose text and framing pass ten mebibytes is refused when it is read.
\<close>

theorem update_keeps_protected_secrets:
  assumes ans: "update_user_secrets_handler ext lib w js nc signer_key_by ready req rnd ephemeral nonce k = (Inr (b64, summary), k3)"
    and ok: "agreement_ok lib" "sealing_ok lib" "length nonce = 12" "texts_ok ext w js" "map_ok (up_secrets req)"
  shows "\<exists>customer m k2 m1 seed blob.
    parse_optional_vault_id ext (up_vault_id req) = Inr customer \<and>
    current_secrets ext lib w js req (dw_meanwhile w 7 (snd (app_ensure_customer_loaded lib w customer k))) = (Inr m, k2) \<and>
    update_seed (case up_new_accessor req of None \<Rightarrow> up_accessor req | Some a \<Rightarrow> a) (up_owner req) (up_profile req) = Inr seed \<and>
    dw_base64_decode w b64 = Some blob \<and>
    read_secrets ext lib js customer seed blob k3 =
      ((if length (jl_write js m1) + 61 \<le> MAX_ENCRYPTED_SIZE then Inr m1 else Inl DoorInternal), k3) \<and>
    us_preserved summary = filter protected (map fst m) \<and> us_total summary = length m1 \<and>
    (\<forall>key v. protected key \<and> map_of m key = Some v \<longrightarrow> map_of m1 key = Some v) \<and>
    (\<forall>key. protected key \<longrightarrow> (map_of m1 key \<noteq> None \<longleftrightarrow> map_of m key \<noteq> None \<or> key \<in> set (map gs_name (specs_of req)))) \<and>
    (\<forall>key. \<not> protected key \<longrightarrow> map_of m1 key =
      (case map_of (up_secrets req) key of Some v \<Rightarrow> Some v | None \<Rightarrow> (if up_mode req = AppendMode then map_of m key else None)))"
  using ans
proof (rule update_answered)
  fix customer u k1 m k2 m1 seed blob
  assume parts: "parse_optional_vault_id ext (up_vault_id req) = Inr customer"
    "app_ensure_customer_loaded lib w customer k = (Inr u, k1)" "authorise_update ext lib w nc signer_key_by req = None"
    "current_secrets ext lib w js req (dw_meanwhile w 7 k1) = (Inr m, k2)" "update_secrets lib rnd req m = Inr (m1, summary)"
    "update_seed (case up_new_accessor req of None \<Rightarrow> up_accessor req | Some a \<Rightarrow> a) (up_owner req) (up_profile req) = Inr seed"
    "k3 = dw_meanwhile w 9 k2"
    and enc: "encrypt_secret lib k3 ephemeral nonce customer seed (jl_write js m1) = Inr blob" and b64: "b64 = dw_base64_encode w blob"
  have m: "map_ok m" using parts(4) ok(4) by (rule current_secrets_ok)
  note of = update_secrets_of [OF parts(5) m ok(5) authorised(5) [OF parts(3)]]
  have back': "read_secrets ext lib js customer seed blob k3 =
      ((if length (jl_write js m1) + 61 \<le> MAX_ENCRYPTED_SIZE then Inr m1 else Inl DoorInternal), k3)"
    by (rule written_secrets_read [OF enc ok(1-4) of(1) refl])
  have "current_secrets ext lib w js req (dw_meanwhile w 7 (snd (app_ensure_customer_loaded lib w customer k))) = (Inr m, k2)"
    using parts(2,4) by simp
  moreover have "dw_base64_decode w b64 = Some blob" using ok(4) by (simp add: texts_ok_def b64)
  ultimately show ?thesis
    by (intro exI [of _ customer] exI [of _ m] exI [of _ k2] exI [of _ m1] exI [of _ seed] exI [of _ blob] conjI of(2-6) parts(1,6) back')
qed

text \<open>The signature a request sends, as the handler reads it.\<close>

definition signature_sent ::
  "door_world \<Rightarrow> near_crypto \<Rightarrow> key_scheme \<Rightarrow> string \<Rightarrow> (key_scheme \<times> string) option" where
  "signature_sent w nc scheme signature =
     (if CHR '':'' \<in> set signature then nc_signature nc signature
      else Option.bind (dw_base64_decode w signature) (nc_from_parts nc scheme))"

lemma signature_verified:
  assumes "verify_near_signature lib w nc message signature public_key nonce_b64 recipient"
  shows "\<exists>scheme sig n payload. nc_key_type nc public_key = Some scheme \<and>
    signature_sent w nc scheme signature = Some sig \<and> fst sig = scheme \<and> scheme \<in> {SchemeEd25519, SchemeMlDsa65} \<and>
    dw_base64_decode w nonce_b64 = Some n \<and> length n = 32 \<and> nep413_payload message n recipient = Some payload \<and>
    (nc_verify nc sig (ml_sha256 lib (le32 NEP413_TAG @ payload)) public_key \<or>
     scheme = SchemeMlDsa65 \<and> nc_verify nc sig (le32 NEP413_TAG @ payload) public_key)"
  using assms unfolding verify_near_signature_def signature_sent_def [symmetric] nep413_digest_def bytes_of_length_def Let_def
  by (auto split: option.splits if_splits)

text \<open>
  C29. An update is the owner's. \<open>update_user_secrets\<close> answers only when the signed message is the one the
  request spells (it names the owner, the profile and the names written and generated), the chain says the key
  the request sends is a full access key of the account named as owner, and the request writes neither a
  \<open>PROTECTED_\<close> nor a reserved name. The signature that verified is the request's own \<open>signature\<close> field, read
  by the NEAR library when it names its curve and else as the base64 of a signature of the key's scheme;
  it is of the key's scheme, verifies under the request's key, and is over the NEP-413 digest (for ML-DSA-65
  possibly over the tagged payload itself) of that message with the request's 32-byte nonce and recipient.
\<close>

theorem update_needs_the_owners_key:
  assumes "update_user_secrets_handler ext lib w js nc signer_key_by ready req rnd ephemeral nonce k = (Inr answer, k3)"
  shows "ready \<and> up_signed_message req = expected_message req \<and> valid_account ext (up_owner req) \<and>
    signer_key_by (up_owner req) (up_public_key req) = Some FullAccessKey \<and>
    (\<forall>key \<in> set (map fst (up_secrets req)). \<not> protected key \<and> key \<notin> set RESERVED_SECRET_KEYS) \<and>
    (\<exists>scheme sig n payload. nc_key_type nc (up_public_key req) = Some scheme \<and>
      signature_sent w nc scheme (up_signature req) = Some sig \<and> fst sig = scheme \<and> scheme \<in> {SchemeEd25519, SchemeMlDsa65} \<and>
      dw_base64_decode w (up_nonce req) = Some n \<and> length n = 32 \<and>
      nep413_payload (expected_message req) n (up_recipient req) = Some payload \<and>
      (nc_verify nc sig (ml_sha256 lib (le32 NEP413_TAG @ payload)) (up_public_key req) \<or>
       scheme = SchemeMlDsa65 \<and> nc_verify nc sig (le32 NEP413_TAG @ payload) (up_public_key req)))"
proof -
  obtain b64 summary where "answer = (b64, summary)" by (cases answer)
  with assms have "update_user_secrets_handler ext lib w js nc signer_key_by ready req rnd ephemeral nonce k = (Inr (b64, summary), k3)"
    by simp
  then show ?thesis
  proof (rule update_answered)
    assume r: "ready" "reject_reserved_secret_keys (map fst (up_secrets req)) = None"
      and a: "authorise_update ext lib w nc signer_key_by req = None"
    have "\<forall>key \<in> set (map fst (up_secrets req)). \<not> protected key \<and> key \<notin> set RESERVED_SECRET_KEYS"
      using authorised(5) [OF a] r(2) by (auto simp: reject_reserved_secret_keys_def list_ex_iff split: if_splits)
    moreover note signature_verified [OF authorised(2) [OF a]]
    ultimately show ?thesis using r(1) authorised [OF a] by simp
  qed
qed

lemma any_key: "list_ex (P \<circ> fst) m \<longleftrightarrow> (\<exists>key \<in> set (map fst m). P key)"
  by (auto simp: list_ex_iff)

lemma expected_message_names:
  "expected_message req =
     ''Update Outlayer secrets for '' @ up_owner req @ '':'' @ up_profile req @
     (if map fst (up_secrets req) = [] then [] else CHR 0x0A # ''keys:'' @ join_comma (sort (map fst (up_secrets req)))) @
     (if map gs_name (specs_of req) = [] then [] else CHR 0x0A # ''protected:'' @ join_comma (sort (map gs_name (specs_of req))))"
  by (cases "up_generate req") (simp_all add: expected_message_def)

text \<open>
  The signature covers names only: whatever is decided about one update request is decided the same way
  about every request with the same owner, profile, signature fields and names, though it gives other values, another row,
  mode or vault, and asks for generated secrets of other types.
\<close>

theorem update_signature_covers_names_only:
  assumes "up_owner req' = up_owner req" "up_profile req' = up_profile req"
    and "map fst (up_secrets req') = map fst (up_secrets req)" "map gs_name (specs_of req') = map gs_name (specs_of req)"
    and "up_signed_message req' = up_signed_message req" "up_signature req' = up_signature req"
    and "up_public_key req' = up_public_key req" "up_nonce req' = up_nonce req" "up_recipient req' = up_recipient req"
  shows "authorise_update ext lib w nc signer_key_by req' = authorise_update ext lib w nc signer_key_by req"
proof -
  have "expected_message req' = expected_message req" unfolding expected_message_names using assms(1-4) by (simp only:)
  moreover have "list_ex (protected \<circ> fst) (up_secrets req') = list_ex (protected \<circ> fst) (up_secrets req)"
    using assms(3) by (simp only: any_key)
  ultimately show ?thesis using assms by (simp only: authorise_update_def)
qed

lemma default_scope: "genuine own vm k \<Longrightarrow> master_for k None = Inr own"
  by (simp add: genuine_def master_for_def)

text \<open>
  A blob with generated secrets takes no more of them: what \<open>add_generated_secret\<close> answered to a request
  for at least one secret, sent back to it under the same seed and the keystore's own master, is
  refused whatever is asked for, since the \<open>PROTECTED_\<close> names it wrote itself read as manual ones.
\<close>

theorem generated_blob_cannot_be_extended:
  assumes ans: "add_generated_secret_handler ext lib w js ready req rnd ephemeral nonce k = (Inr (b64, keys), k3)"
    and new: "gq_new req \<noteq> []" and own: "parse_optional_vault_id ext (gq_vault_id req) = Inr None"
    and ok: "agreement_ok lib" "sealing_ok lib" "length nonce = 12" "texts_ok ext w js"
    and gen: "genuine own vm k3" "genuine own vm k'" "world_genuine own vm w"
    and again: "gq_seed req' = gq_seed req" "gq_vault_id req' = gq_vault_id req" "gq_encrypted req' = Some b64"
  shows "\<exists>e. fst (add_generated_secret_handler ext lib w js ready' req' rnd' ephemeral' nonce' k') = Inl e"
  using ans
proof (rule add_generated_answered)
  fix customer u k1 m k2 m1 blob
  assume c: "parse_optional_vault_id ext (gq_vault_id req) = Inr customer"
    and ex: "existing_secrets ext lib w js customer req (dw_meanwhile w 5 k1) = (Inr m, k2)"
    and mg: "merge_generated lib rnd (gq_new req) m = Inr m1"
    and enc: "encrypt_secret lib k3 ephemeral nonce customer (gq_seed req) (jl_write js m1) = Inr blob"
    and b64: "b64 = dw_base64_encode w blob"
  have none: "customer = None" using c own by simp
  note g = insert_generated_of [OF merge_generated_of(3) [OF mg]]
  have m1: "map_ok m1" using g existing_secrets_ok [OF ex ok(4)] by simp
  have prot: "\<exists>key \<in> set (map fst m1). protected key"
    using g new merge_generated_of(2) [OF mg] by (cases "gq_new req") auto
  let ?k = "dw_meanwhile w 5 k'"
  have "genuine own vm ?k" using gen by (simp add: world_genuine_def)
  then have "master_for ?k None = master_for k3 None" using gen(1) by (simp add: default_scope)
  from written_secrets_read [OF enc ok m1, unfolded none, OF this]
  have "existing_secrets ext lib w js None req' ?k =
      ((if length (jl_write js m1) + 61 \<le> MAX_ENCRYPTED_SIZE then Inr m1 else Inl DoorInternal), ?k)"
    using ok(4) again by (simp add: existing_secrets_def b64 texts_ok_def)
  then show ?thesis
    using merge_generated_refused [OF prot, of lib rnd' "gq_new req'"] own again(2)
    by (auto simp: add_generated_secret_handler_def app_ensure_customer_loaded_def split: option.splits)
qed

lemma split_all_plain: "c \<notin> set s \<Longrightarrow> split_all c s = [s]"
  by (induction s) auto

lemma split_all_append: "c \<notin> set p \<Longrightarrow> split_all c (p @ c # s) = p # split_all c s"
  by (induction p) auto

text \<open>The length of a generated password is the caller's, any number a \<open>usize\<close> has.\<close>

lemma password_length_is_the_callers:
  assumes n: "parse_u64 p = Some n" and p: "CHR '':'' \<notin> set p"
  shows "\<exists>pw. generate_secret lib rs (''generate_outlayer_secret:'' @ ''password'' @ CHR '':'' # p) = Some pw \<and>
    length pw = n \<and> set pw \<subseteq> set CHARSET"
proof -
  have "strip_prefix GENERATION_PREFIX (''generate_outlayer_secret:'' @ ''password'' @ CHR '':'' # p) = Some (''password'' @ CHR '':'' # p)"
    unfolding strip_prefix_Some GENERATION_PREFIX_def by simp
  moreover have "split_all CHR '':'' (''password'' @ CHR '':'' # p) = [''password'', p]"
    using split_all_append [of "CHR '':''" "''password''" p] split_all_plain [OF p] by simp
  ultimately have "generate_secret lib rs (''generate_outlayer_secret:'' @ ''password'' @ CHR '':'' # p) = Some (generate_password rs n)"
    unfolding generate_secret_def by (simp add: n)
  moreover have "0 < length CHARSET" by (simp add: CHARSET_def)
  then have "set (generate_password rs n) \<subseteq> set CHARSET" unfolding generate_password_def by (auto intro!: nth_mem)
  ultimately show ?thesis by (simp add: generate_password_def)
qed

section \<open>A concrete JSON library\<close>

text \<open>A notation for values in which every part says where it ends, read back with fuel.\<close>

fun put_str :: "string \<Rightarrow> string" where
  "put_str [] = ''.''"
| "put_str (c # s) = CHR ''c'' # c # put_str s"

fun get_str :: "string \<Rightarrow> (string \<times> string) option" where
  "get_str (x # c # t) = (if x = CHR ''.'' then Some ([], c # t) else map_option (map_prod (Cons c) id) (get_str t))"
| "get_str [x] = (if x = CHR ''.'' then Some ([], []) else None)"
| "get_str [] = None"

fun put_node :: "node_value \<Rightarrow> string" and put_nodes :: "node_value list \<Rightarrow> string"
  and put_members :: "secrets_map \<Rightarrow> string" where
  "put_node JNull = ''n''"
| "put_node (JScalar s) = CHR ''s'' # put_str s"
| "put_node (JStr s) = CHR ''t'' # put_str s"
| "put_node (JArr xs) = CHR ''a'' # put_nodes xs"
| "put_node (JObj ms) = CHR ''o'' # put_members ms"
| "put_nodes [] = ''.''"
| "put_nodes (x # xs) = CHR ''c'' # put_node x @ put_nodes xs"
| "put_members [] = ''.''"
| "put_members ((k, v) # ms) = CHR ''c'' # put_str k @ put_node v @ put_members ms"

fun get_node :: "nat \<Rightarrow> string \<Rightarrow> (node_value \<times> string) option"
  and get_nodes :: "nat \<Rightarrow> string \<Rightarrow> (node_value list \<times> string) option"
  and get_members :: "nat \<Rightarrow> string \<Rightarrow> (secrets_map \<times> string) option" where
  "get_node 0 t = None"
| "get_node (Suc n) t =
     (case t of [] \<Rightarrow> None
      | c # u \<Rightarrow>
          (if c = CHR ''n'' then Some (JNull, u)
           else if c = CHR ''s'' then map_option (map_prod JScalar id) (get_str u)
           else if c = CHR ''t'' then map_option (map_prod JStr id) (get_str u)
           else if c = CHR ''a'' then map_option (map_prod JArr id) (get_nodes n u)
           else map_option (map_prod JObj id) (get_members n u)))"
| "get_nodes 0 t = None"
| "get_nodes (Suc n) t =
     (case t of [] \<Rightarrow> None
      | c # u \<Rightarrow>
          (if c = CHR ''.'' then Some ([], u)
           else Option.bind (get_node n u) (\<lambda>(x, r). map_option (map_prod (Cons x) id) (get_nodes n r))))"
| "get_members 0 t = None"
| "get_members (Suc n) t =
     (case t of [] \<Rightarrow> None
      | c # u \<Rightarrow>
          (if c = CHR ''.'' then Some ([], u)
           else Option.bind (get_str u) (\<lambda>(k, r).
             Option.bind (get_node n r) (\<lambda>(v, q). map_option (map_prod (Cons (k, v)) id) (get_members n q)))))"

lemma get_put_str: "get_str (put_str s @ r) = Some (s, r)"
  by (induction s) (cases r, auto)

lemma get_put_node:
  "length (put_node v) \<le> n \<Longrightarrow> get_node n (put_node v @ r) = Some (v, r)"
  "length (put_nodes vs) \<le> n \<Longrightarrow> get_nodes n (put_nodes vs @ r) = Some (vs, r)"
  "length (put_members ms) \<le> n \<Longrightarrow> get_members n (put_members ms @ r) = Some (ms, r)"
proof (induction v and vs and ms arbitrary: n r and n r and n r rule: put_node_put_nodes_put_members.induct)
  case 1 then show ?case by (cases n) simp_all
next
  case (2 s) then show ?case by (cases n) (simp_all add: get_put_str)
next
  case (3 s) then show ?case by (cases n) (simp_all add: get_put_str)
next
  case (4 xs) then show ?case by (cases n) simp_all
next
  case (5 ms) then show ?case by (cases n) simp_all
next
  case 6 then show ?case by (cases n) simp_all
next
  case (7 x xs) then show ?case by (cases n) simp_all
next
  case 8 then show ?case by (cases n) simp_all
next
  case (9 k v ms) then show ?case by (cases n) (simp_all add: get_put_str)
qed

definition demo_json :: json_libs where
  "demo_json =
     \<lparr>jl_read = (\<lambda>t. case get_members (length t) t of
         Some (m, []) \<Rightarrow> (if map_ok m then Some m else None) | _ \<Rightarrow> None),
      jl_write = put_members\<rparr>"

lemma demo_texts: "dw_base64_decode w = Some \<Longrightarrow> dw_base64_encode w = id \<Longrightarrow> texts_ok key_externals w demo_json"
proof -
  have "get_members (length (put_members m)) (put_members m) = Some (m, [])" for m
    using get_put_node(3) [of m "length (put_members m)" "[]"] by simp
  then show "dw_base64_decode w = Some \<Longrightarrow> dw_base64_encode w = id \<Longrightarrow> ?thesis"
    by (auto simp: texts_ok_def demo_json_def key_externals_def reference_externals_def split: option.splits list.splits if_splits)
qed

section \<open>Witnesses\<close>

abbreviation twelve :: string where "twelve \<equiv> ''123456789012''"

definition stored_map :: secrets_map where
  "stored_map = [(''OLD'', JStr ''1''), (''PROTECTED_A'', JStr ''2'')]"

definition stored_blob :: string where
  "stored_blob = (case encrypt_secret demo_libs own_keystore ''e'' twelve None ''project:a/x:a'' (put_members stored_map) of
     Inr blob \<Rightarrow> blob | Inl _ \<Rightarrow> [])"

definition update_world :: door_world where
  "update_world = demo_world\<lparr>dw_secret_with_vault := (\<lambda>_ _ _. Inr (Some (JObj [(''encrypted_secrets'', JStr stored_blob)]), None))\<rparr>"

definition demo_crypto :: near_crypto where
  "demo_crypto = \<lparr>nc_key_type = (\<lambda>_. Some SchemeEd25519), nc_signature = (\<lambda>_. None), nc_from_parts = (\<lambda>s b. Some (s, b)),
     nc_verify = (\<lambda>sig d k. snd sig = ''s'')\<rparr>"

definition demo_update :: update_request where
  "demo_update = \<lparr>up_accessor = ProjectAcc ''a/x'', up_new_accessor = None, up_profile = ''p'', up_owner = ''a'', up_mode = ResetMode,
     up_secrets = [(''NEW'', JStr ''3'')], up_generate = Some [\<lparr>gs_name = ''PROTECTED_B'', gs_type = ''hex16''\<rparr>],
     up_signed_message = ''Update Outlayer secrets for a:p'' @ CHR 0x0A # ''keys:NEW'' @ CHR 0x0A # ''protected:PROTECTED_B'',
     up_signature = ''s'', up_public_key = ''k'', up_nonce = replicate 32 CHR ''n'', up_recipient = ''r'', up_vault_id = None\<rparr>"

definition demo_random :: "nat \<Rightarrow> random_source" where
  "demo_random i = \<lparr>rs_bytes = (\<lambda>n. replicate n CHR ''b''), rs_secret_key = ''k'', rs_pick = id\<rparr>"

lemma encrypts: "length m \<le> MAX_ENCRYPTED_SIZE \<Longrightarrow> \<exists>blob. encrypt_secret demo_libs own_keystore ''e'' n None seed m = Inr blob"
  by (simp add: encrypt_secret_def derive_x25519_keypair_def master_for_def from_master_secret_def demo_libs_def hkdf_derive_key_def
      aead_result_def Let_def)

lemma demo_quiet: "dw_meanwhile update_world i k = k" "dw_meanwhile demo_world i k = k"
  by (simp_all add: update_world_def demo_world_def)

lemma update_texts: "texts_ok key_externals update_world demo_json" "texts_ok key_externals demo_world demo_json"
  by (rule demo_texts; simp add: update_world_def demo_world_def)+

lemma stored_reads: "read_secrets key_externals demo_libs demo_json None ''project:a/x:a'' stored_blob own_keystore = (Inr stored_map, own_keystore)"
proof -
  have short: "length (put_members stored_map) + 61 \<le> MAX_ENCRYPTED_SIZE" by (simp add: stored_map_def MAX_ENCRYPTED_SIZE_def)
  then obtain blob where b: "encrypt_secret demo_libs own_keystore ''e'' twelve None ''project:a/x:a'' (put_members stored_map) = Inr blob"
    using encrypts by fastforce
  have w: "jl_write demo_json = put_members" by (simp add: demo_json_def)
  have "map_ok stored_map" by (simp add: map_ok_def stored_map_def less_list_code)
  with written_secrets_read [of demo_libs own_keystore "''e''" twelve None "''project:a/x:a''" demo_json stored_map blob key_externals
      update_world own_keystore] b show ?thesis
    using demo_libs_ok update_texts short by (simp add: w stored_blob_def)
qed

lemma demo_current:
  "current_secrets key_externals demo_libs update_world demo_json demo_update own_keystore = (Inr stored_map, own_keystore)"
  unfolding current_secrets_def
  by (simp add: stored_reads demo_quiet update_world_def demo_update_def parse_optional_vault_id_def app_ensure_customer_loaded_def
      update_seed_def demo_world_def)

lemma demo_authorised: "authorise_update key_externals demo_libs update_world demo_crypto (\<lambda>_ _. Some FullAccessKey) demo_update = None"
  by (simp add: authorise_update_def demo_update_def expected_message_def verify_near_signature_def demo_crypto_def update_world_def
      demo_world_def nep413_digest_def bytes_of_length_def nep413_payload_def verify_access_key_owner_def key_externals_def starts_with_def Let_def)

lemma length_put_str: "length (put_str s) = 2 * length s + 1"
  by (induction s) auto

lemma demo_updated:
  "\<exists>b64 summary. update_user_secrets_handler key_externals demo_libs update_world demo_json demo_crypto (\<lambda>_ _. Some FullAccessKey) True
     demo_update demo_random ''e'' twelve own_keystore = (Inr (b64, summary), own_keystore)"
proof -
  have "\<exists>m1 summary. update_secrets demo_libs demo_random demo_update stored_map = Inr (m1, summary) \<and> length (put_members m1) \<le> MAX_ENCRYPTED_SIZE"
    by (simp add: update_secrets_def demo_update_def stored_map_def insert_all_def apply_mode_def starts_with_def generate_secret_def
        GENERATION_PREFIX_def strip_prefix_def generate_hex_bytes_def demo_random_def demo_libs_def less_list_code MAX_ENCRYPTED_SIZE_def
        length_put_str)
  then obtain m1 summary where m1: "update_secrets demo_libs demo_random demo_update stored_map = Inr (m1, summary)"
    "length (put_members m1) \<le> MAX_ENCRYPTED_SIZE" by blast
  have seed: "update_seed (case up_new_accessor demo_update of None \<Rightarrow> up_accessor demo_update | Some a \<Rightarrow> a) (up_owner demo_update)
      (up_profile demo_update) = Inr ''project:a/x:a''"
    by (simp add: demo_update_def update_seed_def)
  have own: "parse_optional_vault_id key_externals (up_vault_id demo_update) = Inr None"
    by (simp add: parse_optional_vault_id_def demo_update_def)
  have plain: "reject_reserved_secret_keys (map fst (up_secrets demo_update)) = None"
    by (simp add: reject_reserved_secret_keys_def RESERVED_SECRET_KEYS_def demo_update_def)
  have written: "jl_write demo_json = put_members" by (simp add: demo_json_def)
  obtain blob where "encrypt_secret demo_libs own_keystore ''e'' twelve None ''project:a/x:a'' (put_members m1) = Inr blob"
    using encrypts [OF m1(2)] by blast
  then show ?thesis
    by (simp add: update_user_secrets_handler_def plain own app_ensure_customer_loaded_def demo_authorised demo_quiet demo_current m1(1)
        seed written Let_def)
qed

theorem update_keeps_protected_secrets_witness:
  "\<exists>b64 summary. update_user_secrets_handler key_externals demo_libs update_world demo_json demo_crypto (\<lambda>_ _. Some FullAccessKey) True
     demo_update demo_random ''e'' twelve own_keystore = (Inr (b64, summary), own_keystore) \<and> us_preserved summary = [''PROTECTED_A''] \<and>
     (\<exists>m1. us_total summary = length m1 \<and> map_of m1 ''PROTECTED_A'' = Some (JStr ''2'') \<and> map_of m1 ''NEW'' = Some (JStr ''3'') \<and>
       map_of m1 ''OLD'' = None \<and> map_of m1 ''PROTECTED_B'' \<noteq> None)"
proof -
  obtain b64 summary where ans: "update_user_secrets_handler key_externals demo_libs update_world demo_json demo_crypto
      (\<lambda>_ _. Some FullAccessKey) True demo_update demo_random ''e'' twelve own_keystore = (Inr (b64, summary), own_keystore)"
    using demo_updated by blast
  have own: "parse_optional_vault_id key_externals (up_vault_id demo_update) = Inr None"
    by (simp add: parse_optional_vault_id_def demo_update_def)
  have names: "protected ''PROTECTED_A''" "protected ''PROTECTED_B''" "\<not> protected ''NEW''" "\<not> protected ''OLD''"
    by (simp_all add: starts_with_def)
  have given: "map_of (up_secrets demo_update) ''NEW'' = Some (JStr ''3'')" "map_of (up_secrets demo_update) ''OLD'' = None"
    "''PROTECTED_B'' \<in> set (map gs_name (specs_of demo_update))" "up_mode demo_update = ResetMode" "map_ok (up_secrets demo_update)"
    by (simp_all add: demo_update_def map_ok_def)
  have held: "map_of stored_map ''PROTECTED_A'' = Some (JStr ''2'')" "filter protected (map fst stored_map) = [''PROTECTED_A'']"
    by (simp_all add: stored_map_def starts_with_def)
  from update_keeps_protected_secrets [OF ans demo_libs_ok _ update_texts(1) given(5)]
  obtain m1 where m1: "us_preserved summary = filter protected (map fst stored_map)" "us_total summary = length m1"
    "\<forall>key v. protected key \<and> map_of stored_map key = Some v \<longrightarrow> map_of m1 key = Some v"
    "\<forall>key. protected key \<longrightarrow> (map_of m1 key \<noteq> None \<longleftrightarrow> map_of stored_map key \<noteq> None \<or> key \<in> set (map gs_name (specs_of demo_update)))"
    "\<forall>key. \<not> protected key \<longrightarrow> map_of m1 key = (case map_of (up_secrets demo_update) key of Some v \<Rightarrow> Some v
       | None \<Rightarrow> (if up_mode demo_update = AppendMode then map_of stored_map key else None))"
    by (auto simp: own demo_quiet app_ensure_customer_loaded_def demo_current)
  have "map_of m1 ''PROTECTED_A'' = Some (JStr ''2'')" using m1(3) names(1) held(1) by blast
  moreover have "map_of m1 ''NEW'' = Some (JStr ''3'')" "map_of m1 ''OLD'' = None" using m1(5) names(3,4) given(1,2,4) by simp_all
  moreover have "map_of m1 ''PROTECTED_B'' \<noteq> None" using m1(4) names(2) given(3) by blast
  ultimately have "\<exists>m1. us_total summary = length m1 \<and> map_of m1 ''PROTECTED_A'' = Some (JStr ''2'') \<and> map_of m1 ''NEW'' = Some (JStr ''3'') \<and>
       map_of m1 ''OLD'' = None \<and> map_of m1 ''PROTECTED_B'' \<noteq> None" using m1(2) by (intro exI [of _ m1] conjI)
  moreover have "us_preserved summary = [''PROTECTED_A'']" using m1(1) held(2) by simp
  ultimately show ?thesis using ans by blast
qed

theorem update_needs_the_owners_key_witness:
  "up_signed_message demo_update = expected_message demo_update"
proof -
  obtain answer where "update_user_secrets_handler key_externals demo_libs update_world demo_json demo_crypto
      (\<lambda>_ _. Some FullAccessKey) True demo_update demo_random ''e'' twelve own_keystore = (Inr answer, own_keystore)"
    using demo_updated by blast
  from update_needs_the_owners_key [OF this] show ?thesis by simp
qed

definition other_update :: update_request where
  "other_update = demo_update\<lparr>up_accessor := ProjectAcc ''a/y'', up_mode := AppendMode, up_secrets := [(''NEW'', JStr ''4'')]\<rparr>"

theorem update_signature_covers_names_only_witness:
  "authorise_update key_externals demo_libs update_world demo_crypto (\<lambda>_ _. Some FullAccessKey) other_update = None \<and>
   other_update \<noteq> demo_update"
proof
  have "authorise_update key_externals demo_libs update_world demo_crypto (\<lambda>_ _. Some FullAccessKey) other_update =
      authorise_update key_externals demo_libs update_world demo_crypto (\<lambda>_ _. Some FullAccessKey) demo_update"
    by (rule update_signature_covers_names_only) (simp_all add: other_update_def demo_update_def)
  then show "authorise_update key_externals demo_libs update_world demo_crypto (\<lambda>_ _. Some FullAccessKey) other_update = None"
    by (simp add: demo_authorised)
  show "other_update \<noteq> demo_update" by (simp add: other_update_def demo_update_def)
qed

definition first_request :: add_generated_request where
  "first_request = \<lparr>gq_seed = ''project:a/x:a'', gq_encrypted = None, gq_new = [\<lparr>gs_name = ''PROTECTED_B'', gs_type = ''hex16''\<rparr>],
     gq_vault_id = None\<rparr>"

lemma first_answered:
  "\<exists>b64 keys. add_generated_secret_handler key_externals demo_libs demo_world demo_json True first_request demo_random ''e'' twelve own_keystore =
     (Inr (b64, keys), own_keystore)"
proof -
  have "\<exists>m1. merge_generated demo_libs demo_random (gq_new first_request) [] = Inr m1 \<and> length (put_members m1) \<le> MAX_ENCRYPTED_SIZE"
    by (simp add: merge_generated_def first_request_def starts_with_def generate_secret_def GENERATION_PREFIX_def strip_prefix_def
        generate_hex_bytes_def demo_random_def demo_libs_def MAX_ENCRYPTED_SIZE_def reject_reserved_secret_keys_def RESERVED_SECRET_KEYS_def
        length_put_str)
  then obtain m1 where m1: "merge_generated demo_libs demo_random (gq_new first_request) [] = Inr m1"
    "length (put_members m1) \<le> MAX_ENCRYPTED_SIZE" by blast
  obtain blob where "encrypt_secret demo_libs own_keystore ''e'' twelve None (gq_seed first_request) (put_members m1) = Inr blob"
    using encrypts [OF m1(2)] by blast
  moreover have "jl_write demo_json = put_members" by (simp add: demo_json_def)
  moreover have "length (gq_new first_request) \<le> MAX_GENERATED_SECRETS" "refuse_declared_key_seed (gq_seed first_request) = None"
    "parse_optional_vault_id key_externals (gq_vault_id first_request) = Inr None" "gq_encrypted first_request = None"
    by (simp_all add: first_request_def MAX_GENERATED_SECRETS_def refuse_declared_key_seed_def DECLARED_KEY_ROOTS_def starts_with_def
        parse_optional_vault_id_def)
  ultimately show ?thesis
    by (simp add: add_generated_secret_handler_def app_ensure_customer_loaded_def existing_secrets_def demo_quiet m1(1) Let_def)
qed

theorem generated_blob_cannot_be_extended_witness:
  "\<exists>b64 keys e.
     fst (add_generated_secret_handler key_externals demo_libs demo_world demo_json True first_request demo_random ''e'' twelve own_keystore) =
       Inr (b64, keys) \<and>
     fst (add_generated_secret_handler key_externals demo_libs demo_world demo_json True
       (first_request\<lparr>gq_encrypted := Some b64, gq_new := [\<lparr>gs_name = ''PROTECTED_C'', gs_type = ''hex32''\<rparr>]\<rparr>)
       demo_random ''e'' twelve own_keystore) = Inl e"
proof -
  obtain b64 keys where ans: "add_generated_secret_handler key_externals demo_libs demo_world demo_json True first_request demo_random
      ''e'' twelve own_keystore = (Inr (b64, keys), own_keystore)" using first_answered by blast
  let ?again = "first_request\<lparr>gq_encrypted := Some b64, gq_new := [\<lparr>gs_name = ''PROTECTED_C'', gs_type = ''hex32''\<rparr>]\<rparr>"
  have "\<exists>e. fst (add_generated_secret_handler key_externals demo_libs demo_world demo_json True ?again demo_random ''e'' twelve own_keystore) = Inl e"
    by (rule generated_blob_cannot_be_extended [OF ans _ _ demo_libs_ok _ update_texts(2) demo_genuine(1,1,2)])
      (simp_all add: first_request_def parse_optional_vault_id_def)
  with ans show ?thesis by auto
qed

end
