(* ===== verification/Keystore_Wallets.thy ===== *)
theory Keystore_Wallets
  imports Keystore_Secrets Civil_Date
begin

text \<open>
  The wallets the keystore worker signs for (wallet handlers of \<open>keystore-worker/src/api.rs\<close>,
  \<open>ephemeral_keys.rs\<close>): the seeds of a wallet, the policy read from the contract, the votes of its
  approvers, the operations signed under it, and the signatures with which a policy or a secret of
  the wallet is filed on the contract. The crate \<open>shared_tee_helpers\<close> (the policy with its engine, the
  canonical hash of an operation, the resolution of votes) and near-primitives are a record of
  functions over a type of policies; what the chain answers is a second record. Time and random bytes
  are arguments.
\<close>

section \<open>Operations and what judges them\<close>

text \<open>The operations as far as the handlers look into them; the fields they skip are one string, and
  the kinds they only pass on are \<open>OtherOp\<close>.\<close>

datatype wallet_op =
    TransferOp string string
  | CallOp string string string string string
  | DeleteOp string
  | WithdrawOp string string string string
  | IntentsTransferOp string string string string
  | StorageDepositOp string string string
  | AuthOp string string "string option"
  | RawOp string string string
  | SignMessageOp string string string
  | PolicyUpdateOp string string nat bool string
  | OtherOp string

datatype decision = Allow | FrozenWallet | DenyOp | RequiresApproval nat
datatype bind_mode = BuiltMode | HashPinnedMode | TrustedMode | PolicyUpdateMode
datatype vote_verb = Approve | Reject

datatype near_action =
    TransferAction nat
  | FunctionCallAction string string nat nat
  | DeleteAccountAction account

record near_tx =
  tx_signer_id :: account
  tx_public_key :: string
  tx_nonce :: nat
  tx_receiver_id :: account
  tx_block_hash :: string
  tx_actions :: "near_action list"

record 'p wallet_libs =
  wl_is_evm_chain :: "string \<Rightarrow> bool"
  wl_is_solana_chain :: "string \<Rightarrow> bool"
  wl_is_valid_sub_path :: "string \<Rightarrow> bool"
  wl_value_of_text :: "string \<Rightarrow> node_value option"
  wl_policy_of_value :: "node_value \<Rightarrow> 'p option"
  wl_policy_of_text :: "string \<Rightarrow> 'p option"
  wl_frozen_also :: "bool \<Rightarrow> 'p \<Rightarrow> 'p"
  wl_default_policy :: 'p
  wl_with_capabilities :: "(string \<rightharpoonup> bool) \<Rightarrow> 'p \<Rightarrow> 'p"
  wl_approvers :: "'p \<Rightarrow> string list"
  wl_threshold :: "'p \<Rightarrow> nat option"
  wl_locked :: "'p \<Rightarrow> bool"
  wl_allowed_recipients :: "'p \<Rightarrow> string list option"
  wl_admits_key :: "'p \<Rightarrow> string \<Rightarrow> string \<Rightarrow> bool"
  wl_admits_contract_vote :: "'p \<Rightarrow> string \<Rightarrow> bool"
  wl_lock_is_satisfiable :: "'p \<Rightarrow> bool"
  wl_canonical_hash :: "node_value \<Rightarrow> string"
  wl_vote_message :: "vote_verb \<Rightarrow> string \<Rightarrow> string \<Rightarrow> string \<Rightarrow> string"
  wl_max_authorization :: nat
  wl_request_hash :: "wallet_op \<Rightarrow> string"
  wl_evaluate :: "'p \<Rightarrow> wallet_op \<Rightarrow> node_value option \<Rightarrow> nat \<Rightarrow> decision"
  wl_bind_mode :: "wallet_op \<Rightarrow> bind_mode"
  wl_version_gate :: "string \<Rightarrow> string option \<Rightarrow> nat option \<Rightarrow> bool"
  wl_is_intents_contract :: "string \<Rightarrow> bool"
  wl_gate_only_methods :: "string list"
  wl_storage_amount :: "string \<Rightarrow> nat option"
  wl_jwt_nonce :: "string \<Rightarrow> nat \<Rightarrow> nat \<Rightarrow> string \<Rightarrow> string"
  wl_jwt_message :: "string \<Rightarrow> string \<Rightarrow> string"
  wl_auth_message :: "string \<Rightarrow> string \<Rightarrow> nat \<Rightarrow> string option \<Rightarrow> string option"
  wl_condition_bounds :: "condition \<Rightarrow> bool"
  wl_access_json :: "condition \<Rightarrow> string"
  wl_json_text :: "node_value \<Rightarrow> string"
  wl_tx_hash :: "near_tx \<Rightarrow> string"
  wl_tx_bytes :: "near_tx \<Rightarrow> string \<Rightarrow> string"

section \<open>Seeds of a wallet\<close>

definition wallet_seed :: "'p wallet_libs \<Rightarrow> string \<Rightarrow> string \<Rightarrow> string" where
  "wallet_seed wl wallet_id chain =
     (if wl_is_evm_chain wl chain then ''wallet:'' @ wallet_id @ '':evm''
      else if wl_is_solana_chain wl chain then ''wallet:'' @ wallet_id @ '':solana''
      else ''wallet:'' @ wallet_id @ '':'' @ chain)"

definition validate_wallet_id :: "string \<Rightarrow> door_error option" where
  "validate_wallet_id wallet_id = (if wallet_id = [] \<or> CHR '':'' \<in> set wallet_id then Some DoorBadRequest else None)"

definition subkey_seed :: "string \<Rightarrow> string \<Rightarrow> string" where
  "subkey_seed wallet_id sub_path = ''subkey:'' @ wallet_id @ '':evm:'' @ sub_path"

definition validate_sub_path :: "'p wallet_libs \<Rightarrow> string option \<Rightarrow> door_error + string option" where
  "validate_sub_path wl raw =
     (case raw of
        None \<Rightarrow> Inr None
      | Some p \<Rightarrow> (if p = [] then Inr None else if wl_is_valid_sub_path wl p then Inr (Some p) else Inl DoorBadRequest))"

definition policy_seed :: "string \<Rightarrow> string" where
  "policy_seed wallet_id = ''wallet-policy:'' @ wallet_id"

definition ephemeral_seed :: "externals \<Rightarrow> string \<Rightarrow> string \<Rightarrow> string \<Rightarrow> string" where
  "ephemeral_seed ext wallet_id chain sub_path =
     ''wallet:'' @ wallet_id @ '':'' @ to_lowercase ext chain @ '':'' @ sub_path"

text \<open>The entry of every wallet handler: readiness, the id where the handler checks it first, the vault
  of the header and its gate.\<close>

definition enter_wallet ::
  "externals \<Rightarrow> master_libs \<Rightarrow> door_world \<Rightarrow> bool \<Rightarrow> string option \<Rightarrow> string option option \<Rightarrow> keystore
     \<Rightarrow> (door_error + account option) \<times> keystore" where
  "enter_wallet ext lib w ready wallet_id header k =
     (if \<not> ready then (Inl DoorUnauthorized, k)
      else case Option.bind wallet_id validate_wallet_id of
        Some e \<Rightarrow> (Inl e, k)
      | None \<Rightarrow>
          (case extract_customer_from_header ext header of
             Inl e \<Rightarrow> (Inl e, k)
           | Inr customer \<Rightarrow>
               (case app_ensure_customer_loaded lib w customer k of
                  (Inl e, k1) \<Rightarrow> (Inl (from_customer_load e), k1)
                | (Inr _, k1) \<Rightarrow> (Inr customer, dw_meanwhile w 10 k1))))"

definition derive_ephemeral_key_handler ::
  "externals \<Rightarrow> master_libs \<Rightarrow> door_world \<Rightarrow> bool \<Rightarrow> string option option \<Rightarrow> string \<Rightarrow> string \<Rightarrow> string \<Rightarrow> keystore
     \<Rightarrow> (door_error + string \<times> string) \<times> keystore" where
  "derive_ephemeral_key_handler ext lib w ready header wallet_id chain sub_path k =
     (if ready \<and> validate_wallet_id wallet_id = None \<and> sub_path = [] then (Inl DoorBadRequest, k)
      else case enter_wallet ext lib w ready (Some wallet_id) header k of
        (Inl e, k1) \<Rightarrow> (Inl e, k1)
      | (Inr customer, k1) \<Rightarrow>
          (case derive_keypair lib customer (ephemeral_seed ext wallet_id chain sub_path) k1 of
             (Inl _, k2) \<Rightarrow> (Inl DoorInternal, k2)
           | (Inr kp, k2) \<Rightarrow> (Inr (ml_hex lib (snd kp), ml_hex lib (fst kp)), k2)))"

definition derive_wallet_ed25519_pubkey ::
  "'p wallet_libs \<Rightarrow> master_libs \<Rightarrow> account option \<Rightarrow> string \<Rightarrow> keystore \<Rightarrow> (door_error + string) \<times> keystore" where
  "derive_wallet_ed25519_pubkey wl lib customer wallet_id k =
     (case get_public_key_for_seed lib customer (wallet_seed wl wallet_id ''near'') k of
        (Inl _, k1) \<Rightarrow> (Inl DoorInternal, k1)
      | (Inr vk, k1) \<Rightarrow> (Inr (''ed25519:'' @ ml_hex lib vk), k1))"

definition wallet_implicit_account ::
  "'p wallet_libs \<Rightarrow> master_libs \<Rightarrow> account option \<Rightarrow> string \<Rightarrow> keystore \<Rightarrow> (door_error + string) \<times> keystore" where
  "wallet_implicit_account wl lib customer wallet_id k =
     (case get_public_key_for_seed lib customer (wallet_seed wl wallet_id ''near'') k of
        (Inl _, k1) \<Rightarrow> (Inl DoorInternal, k1)
      | (Inr vk, k1) \<Rightarrow> (Inr (ml_hex lib vk), k1))"

section \<open>The votes of approvers\<close>

definition MAX_APPROVAL_VOTES :: nat where "MAX_APPROVAL_VOTES = 16"

record approver_sig =
  av_approver_id :: string
  av_public_key :: string
  av_signature :: string
  av_nonce :: string

record contract_vote =
  cv_approver_id :: string
  cv_shape :: string
  cv_authorization :: string

record approval_info =
  ai_approval_id :: string
  ai_recipient :: string
  ai_approvals :: "approver_sig list"
  ai_rejections :: "approver_sig list"
  ai_contract_approvals :: "contract_vote list"
  ai_contract_rejections :: "contract_vote list"

record wallet_world =
  ww_policy :: "string \<Rightarrow> string + node_value option"
  ww_signer_key :: "string \<Rightarrow> string \<Rightarrow> signer_key option"
  ww_resolve_vote :: "contract_vote \<Rightarrow> string \<Rightarrow> string \<Rightarrow> string + bool"
  ww_contract_id :: string
  ww_access_key :: "string \<Rightarrow> string \<Rightarrow> string + nat \<times> string"
  ww_view :: "string \<Rightarrow> string \<Rightarrow> string option \<Rightarrow> string + node_value"
  ww_now :: nat
  ww_now_ms :: nat

definition contract_vote_counts ::
  "'p wallet_libs \<Rightarrow> wallet_world \<Rightarrow> contract_vote \<Rightarrow> string \<Rightarrow> string \<Rightarrow> door_error + bool" where
  "contract_vote_counts wl ww v recipient expected =
     (if length (cv_authorization v) > wl_max_authorization wl then Inr False
      else case ww_resolve_vote ww v recipient expected of Inl _ \<Rightarrow> Inl DoorInternal | Inr b \<Rightarrow> Inr b)"

text \<open>Whether one signed vote counts: an error when the owner of a key that signed could not be established.\<close>

definition signed_vote_counts ::
  "externals \<Rightarrow> master_libs \<Rightarrow> door_world \<Rightarrow> near_crypto \<Rightarrow> 'p wallet_libs \<Rightarrow> wallet_world \<Rightarrow> 'p \<Rightarrow> string \<Rightarrow> string \<Rightarrow> approver_sig
     \<Rightarrow> door_error + bool" where
  "signed_vote_counts ext lib w nc wl ww policy message recipient v =
     (if \<not> wl_admits_key wl policy (av_approver_id v) (av_public_key v) then Inr False
      else if \<not> verify_near_signature lib w nc message (av_signature v) (av_public_key v) (av_nonce v) recipient then Inr False
      else if verify_access_key_owner ext nc (ww_signer_key ww) (av_approver_id v) (av_public_key v) = KeyOwned then Inr True
      else Inl DoorInternal)"

definition carried_vote_counts ::
  "'p wallet_libs \<Rightarrow> wallet_world \<Rightarrow> 'p \<Rightarrow> string \<Rightarrow> string \<Rightarrow> contract_vote \<Rightarrow> door_error + bool" where
  "carried_vote_counts wl ww policy message recipient v =
     (if \<not> wl_admits_contract_vote wl policy (cv_approver_id v) then Inr False else contract_vote_counts wl ww v recipient message)"

text \<open>Approvals: one approver counts once, and is not asked about again once counted.\<close>

fun count_votes :: "('v \<Rightarrow> string) \<Rightarrow> ('v \<Rightarrow> door_error + bool) \<Rightarrow> string list \<Rightarrow> 'v list \<Rightarrow> door_error + string list" where
  "count_votes voter counts approved [] = Inr approved"
| "count_votes voter counts approved (v # vs) =
     (if voter v \<in> set approved then count_votes voter counts approved vs
      else case counts v of
        Inl e \<Rightarrow> Inl e
      | Inr True \<Rightarrow> count_votes voter counts (voter v # approved) vs
      | Inr False \<Rightarrow> count_votes voter counts approved vs)"

fun find_veto :: "('v \<Rightarrow> door_error + bool) \<Rightarrow> 'v list \<Rightarrow> door_error option" where
  "find_veto counts [] = None"
| "find_veto counts (v # vs) =
     (case counts v of Inl e \<Rightarrow> Some e | Inr True \<Rightarrow> Some DoorForbidden | Inr False \<Rightarrow> find_veto counts vs)"

definition verify_approvals ::
  "externals \<Rightarrow> master_libs \<Rightarrow> door_world \<Rightarrow> near_crypto \<Rightarrow> 'p wallet_libs \<Rightarrow> wallet_world \<Rightarrow> 'p \<Rightarrow> string \<Rightarrow> string
     \<Rightarrow> approval_info option \<Rightarrow> nat \<Rightarrow> door_error option" where
  "verify_approvals ext lib w nc wl ww policy wallet_pubkey request_hash approval_info threshold =
     (if dw_client w = None then Some DoorInternal
      else if wl_approvers wl policy = [] then Some DoorForbidden
      else case approval_info of
        None \<Rightarrow> Some DoorForbidden
      | Some info \<Rightarrow>
          (if length (ai_approvals info) > MAX_APPROVAL_VOTES \<or> length (ai_rejections info) > MAX_APPROVAL_VOTES then Some DoorBadRequest
           else if length (ai_contract_approvals info) > MAX_APPROVAL_VOTES \<or> length (ai_contract_rejections info) > MAX_APPROVAL_VOTES
           then Some DoorBadRequest
           else if ai_recipient info \<noteq> ww_contract_id ww then Some DoorForbidden
           else
             (let recipient = ww_contract_id ww;
                  message = wl_vote_message wl Approve (ai_approval_id info) wallet_pubkey request_hash;
                  reject_message = wl_vote_message wl Reject (ai_approval_id info) wallet_pubkey request_hash
              in case count_votes av_approver_id (signed_vote_counts ext lib w nc wl ww policy message recipient) [] (ai_approvals info) of
                   Inl e \<Rightarrow> Some e
                 | Inr signed \<Rightarrow>
                     (case count_votes cv_approver_id (carried_vote_counts wl ww policy message recipient) signed (ai_contract_approvals info) of
                        Inl e \<Rightarrow> Some e
                      | Inr approved_by \<Rightarrow>
                          (case find_veto (signed_vote_counts ext lib w nc wl ww policy reject_message recipient) (ai_rejections info) of
                             Some e \<Rightarrow> Some e
                           | None \<Rightarrow>
                               (case find_veto (carried_vote_counts wl ww policy reject_message recipient) (ai_contract_rejections info) of
                                  Some e \<Rightarrow> Some e
                                | None \<Rightarrow> (if length approved_by < threshold then Some DoorForbidden else None)))))))"

section \<open>The policy on the contract\<close>

definition json_u64 :: "node_value \<Rightarrow> nat option" where
  "json_u64 v = (case v of JScalar t \<Rightarrow> parse_u64 t | _ \<Rightarrow> None)"

text \<open>A field that is absent has its default; one that is there and unreadable is refused.\<close>

definition field_or :: "('a \<Rightarrow> 'b option) \<Rightarrow> 'b \<Rightarrow> 'a option \<Rightarrow> 'b option" where
  "field_or read d v = (case v of None \<Rightarrow> Some d | Some x \<Rightarrow> read x)"

definition decrypt_policy ::
  "'p wallet_libs \<Rightarrow> master_libs \<Rightarrow> door_world \<Rightarrow> account option \<Rightarrow> string \<Rightarrow> bool \<Rightarrow> node_value \<Rightarrow> keystore
     \<Rightarrow> (door_error + 'p) \<times> keystore" where
  "decrypt_policy wl lib w customer wallet_id frozen view k =
     (case Option.bind (member_of ''encrypted_data'' view) as_str of
        None \<Rightarrow> (Inl DoorInternal, k)
      | Some b64 \<Rightarrow>
          (case dw_base64_decode w b64 of
             None \<Rightarrow> (Inl DoorInternal, k)
           | Some blob \<Rightarrow>
               (case decrypt_secret lib customer (policy_seed wallet_id) blob k of
                  (Inl _, k1) \<Rightarrow> (Inl DoorInternal, k1)
                | (Inr plaintext, k1) \<Rightarrow>
                    (case wl_policy_of_text wl plaintext of
                       None \<Rightarrow> (Inl DoorInternal, k1)
                     | Some policy \<Rightarrow> (Inr (wl_frozen_also wl frozen policy), k1)))))"

record keystore_policy_meta =
  km_version :: nat
  km_locked :: bool

definition load_wallet_policy_for_update ::
  "'p wallet_libs \<Rightarrow> master_libs \<Rightarrow> door_world \<Rightarrow> wallet_world \<Rightarrow> string \<Rightarrow> string \<Rightarrow> account option \<Rightarrow> keystore
     \<Rightarrow> (door_error + 'p option \<times> keystore_policy_meta) \<times> keystore" where
  "load_wallet_policy_for_update wl lib w ww wallet_id wallet_pubkey customer k =
     (if dw_client w = None then (Inl DoorInternal, k)
      else case ww_policy ww wallet_pubkey of
        Inl _ \<Rightarrow> (Inl DoorInternal, k)
      | Inr None \<Rightarrow> (Inr (None, \<lparr>km_version = 0, km_locked = False\<rparr>), k)
      | Inr (Some view) \<Rightarrow>
          (case (field_or json_u64 0 (member_of ''version'' view), field_or json_bool False (member_of ''locked'' view),
                 field_or json_bool False (member_of ''frozen'' view)) of
             (Some version, Some locked, Some frozen) \<Rightarrow>
               (case decrypt_policy wl lib w customer wallet_id frozen view k of
                  (Inl e, k1) \<Rightarrow> (Inl e, k1)
                | (Inr policy, k1) \<Rightarrow> (Inr (Some policy, \<lparr>km_version = version, km_locked = locked\<rparr>), k1))
           | _ \<Rightarrow> (Inl DoorBadRequest, k)))"

definition load_wallet_policy ::
  "'p wallet_libs \<Rightarrow> master_libs \<Rightarrow> door_world \<Rightarrow> wallet_world \<Rightarrow> string \<Rightarrow> account option \<Rightarrow> keystore
     \<Rightarrow> (door_error + 'p option) \<times> keystore" where
  "load_wallet_policy wl lib w ww wallet_id customer k =
     (if dw_client w = None then (Inl DoorInternal, k)
      else case derive_wallet_ed25519_pubkey wl lib customer wallet_id k of
        (Inl e, k1) \<Rightarrow> (Inl e, k1)
      | (Inr wallet_pubkey, k1) \<Rightarrow>
          (case ww_policy ww wallet_pubkey of
             Inl _ \<Rightarrow> (Inl DoorInternal, k1)
           | Inr None \<Rightarrow> (Inr None, k1)
           | Inr (Some view) \<Rightarrow>
               (case field_or json_bool False (member_of ''frozen'' view) of
                  None \<Rightarrow> (Inl DoorBadRequest, k1)
                | Some True \<Rightarrow> (Inr (Some (wl_frozen_also wl True (wl_default_policy wl))), k1)
                | Some False \<Rightarrow>
                    (case decrypt_policy wl lib w customer wallet_id False view (dw_meanwhile w 11 k1) of
                       (Inl e, k2) \<Rightarrow> (Inl e, k2)
                     | (Inr policy, k2) \<Rightarrow> (Inr (Some policy), k2)))))"

text \<open>The capabilities a wallet without a policy has: those the engine would deny by default, but for calls
  to the intents contract.\<close>

definition open_capabilities :: "string \<rightharpoonup> bool" where
  "open_capabilities = map_of
     [(''raw_sign'', True), (''confidential'', True), (''payment_check'', True), (''swap'', True),
      (''cross_chain_withdraw'', True), (''limit_order'', True)]"

definition policy_to_judge_by :: "'p wallet_libs \<Rightarrow> 'p option \<Rightarrow> 'p" where
  "policy_to_judge_by wl stated =
     (case stated of
        None \<Rightarrow> wl_with_capabilities wl open_capabilities (wl_default_policy wl)
      | Some p \<Rightarrow> p)"

section \<open>Filing a policy on the contract\<close>

definition keystore_policy_message :: "string \<Rightarrow> nat \<Rightarrow> bool \<Rightarrow> nat \<Rightarrow> string \<Rightarrow> string \<Rightarrow> string" where
  "keystore_policy_message wallet_pubkey version locked valid_until encrypted_data caller =
     ''store_wallet_policy:v2:'' @ wallet_pubkey @ '':'' @ show_nat version @ '':'' @ (if locked then ''1'' else ''0'') @ '':''
       @ show_nat valid_until @ '':'' @ show_nat (length encrypted_data) @ '':'' @ encrypted_data @ '':'' @ caller"

definition POLICY_SIGNATURE_TTL_SECS :: nat where "POLICY_SIGNATURE_TTL_SECS = 7 * 86400"

record sign_policy_request =
  sp_wallet_id :: string
  sp_encrypted_data :: string
  sp_caller :: string
  sp_approval_info :: "approval_info option"

record sign_policy_response =
  pr_signature_hex :: string
  pr_public_key_hex :: string
  pr_version :: nat
  pr_locked :: bool
  pr_valid_until :: nat
  pr_policy_hash :: string
  pr_request_hash :: "string option"

text \<open>The blob as a policy of this wallet: its document and the policy it reads as.\<close>

definition read_new_policy ::
  "'p wallet_libs \<Rightarrow> master_libs \<Rightarrow> door_world \<Rightarrow> account option \<Rightarrow> sign_policy_request \<Rightarrow> keystore
     \<Rightarrow> (door_error + node_value \<times> 'p) \<times> keystore" where
  "read_new_policy wl lib w customer req k =
     (if sp_encrypted_data req = [] then (Inl DoorBadRequest, k)
      else if trim_str (sp_caller req) = [] then (Inl DoorBadRequest, k)
      else case dw_base64_decode w (sp_encrypted_data req) of
        None \<Rightarrow> (Inl DoorBadRequest, k)
      | Some blob \<Rightarrow>
          (case decrypt_secret lib customer (policy_seed (sp_wallet_id req)) blob k of
             (Inl _, k1) \<Rightarrow> (Inl DoorForbidden, k1)
           | (Inr plaintext, k1) \<Rightarrow>
               (case wl_value_of_text wl plaintext of
                  None \<Rightarrow> (Inl DoorForbidden, k1)
                | Some v \<Rightarrow>
                    (case wl_policy_of_value wl v of
                       None \<Rightarrow> (Inl DoorForbidden, k1)
                     | Some p \<Rightarrow> (if wl_lock_is_satisfiable wl p then Inr (v, p) else Inl DoorBadRequest, k1)))))"

text \<open>The lock of the policy on chain: the hash its approvers voted on, when it is locked.\<close>

definition lift_lock ::
  "externals \<Rightarrow> master_libs \<Rightarrow> door_world \<Rightarrow> near_crypto \<Rightarrow> 'p wallet_libs \<Rightarrow> wallet_world \<Rightarrow> sign_policy_request \<Rightarrow> string
     \<Rightarrow> 'p option \<Rightarrow> keystore_policy_meta \<Rightarrow> string \<Rightarrow> bool \<Rightarrow> door_error + string option" where
  "lift_lock ext lib w nc wl ww req policy_pubkey current meta policy_hash locked_new =
     (if \<not> km_locked meta then Inr None
      else case current of
        None \<Rightarrow> Inl DoorInternal
      | Some policy \<Rightarrow>
          (case wl_threshold wl policy of
             None \<Rightarrow> Inl DoorForbidden
           | Some required \<Rightarrow>
               (let op = PolicyUpdateOp policy_pubkey policy_hash (km_version meta + 1) locked_new (trim_str (sp_caller req));
                    hash = wl_request_hash wl op
                in case verify_approvals ext lib w nc wl ww policy policy_pubkey hash (sp_approval_info req) (max required 1) of
                     Some e \<Rightarrow> Inl e
                   | None \<Rightarrow> Inr (Some hash))))"

definition wallet_sign_policy_handler ::
  "externals \<Rightarrow> master_libs \<Rightarrow> door_world \<Rightarrow> near_crypto \<Rightarrow> 'p wallet_libs \<Rightarrow> wallet_world \<Rightarrow> bool \<Rightarrow> string option option
     \<Rightarrow> sign_policy_request \<Rightarrow> keystore \<Rightarrow> (door_error + sign_policy_response) \<times> keystore" where
  "wallet_sign_policy_handler ext lib w nc wl ww ready header req k =
     (case enter_wallet ext lib w ready (Some (sp_wallet_id req)) header k of
        (Inl e, k1) \<Rightarrow> (Inl e, k1)
      | (Inr customer, k1) \<Rightarrow>
          (case read_new_policy wl lib w customer req k1 of
             (Inl e, k2) \<Rightarrow> (Inl e, k2)
           | (Inr (new_plain, new_policy), k2) \<Rightarrow>
               (let locked_new = wl_locked wl new_policy; policy_hash = wl_canonical_hash wl new_plain in
                case derive_wallet_ed25519_pubkey wl lib customer (sp_wallet_id req) k2 of
                  (Inl e, k3) \<Rightarrow> (Inl e, k3)
                | (Inr policy_pubkey, k3) \<Rightarrow>
                    (case load_wallet_policy_for_update wl lib w ww (sp_wallet_id req) policy_pubkey customer (dw_meanwhile w 12 k3) of
                       (Inl e, k4) \<Rightarrow> (Inl e, k4)
                     | (Inr (current, meta), k4) \<Rightarrow>
                         (case lift_lock ext lib w nc wl ww req policy_pubkey current meta policy_hash locked_new of
                            Inl e \<Rightarrow> (Inl e, k4)
                          | Inr request_hash \<Rightarrow>
                              (let valid_until = ww_now ww + POLICY_SIGNATURE_TTL_SECS;
                                   message = keystore_policy_message policy_pubkey (km_version meta + 1) locked_new valid_until
                                     (sp_encrypted_data req) (trim_str (sp_caller req))
                               in case sign_with_seed lib customer (wallet_seed wl (sp_wallet_id req) ''near'') (ml_sha256 lib message)
                                         (dw_meanwhile w 13 k4) of
                                    (Inl _, k5) \<Rightarrow> (Inl DoorInternal, k5)
                                  | (Inr signature, k5) \<Rightarrow>
                                      (Inr \<lparr>pr_signature_hex = ml_hex lib signature, pr_public_key_hex = drop 8 policy_pubkey,
                                            pr_version = km_version meta + 1, pr_locked = locked_new, pr_valid_until = valid_until,
                                            pr_policy_hash = policy_hash, pr_request_hash = request_hash\<rparr>, k5)))))))"

section \<open>Filing a secret of the wallet on the contract\<close>

datatype agent_secret_target = ProjectTarget string | WasmHashTarget string

definition named_field :: "string option \<Rightarrow> string option" where
  "named_field f = (case f of None \<Rightarrow> None | Some s \<Rightarrow> (if trim_str s = [] then None else Some (trim_str s)))"

definition target_from_fields :: "externals \<Rightarrow> string option \<Rightarrow> string option \<Rightarrow> door_error + agent_secret_target" where
  "target_from_fields ext project_id wasm_hash =
     (case (named_field project_id, named_field wasm_hash) of
        (Some _, Some _) \<Rightarrow> Inl DoorBadRequest
      | (Some p, None) \<Rightarrow> Inr (ProjectTarget p)
      | (None, Some h) \<Rightarrow> Inr (WasmHashTarget (to_lowercase ext h))
      | (None, None) \<Rightarrow> Inl DoorBadRequest)"

fun target_seed :: "agent_secret_target \<Rightarrow> string \<Rightarrow> string" where
  "target_seed (ProjectTarget project_id) agent = ''project:'' @ project_id @ '':'' @ agent"
| "target_seed (WasmHashTarget hash) agent = ''wasm_hash:'' @ hash @ '':'' @ agent"

fun target_binding :: "agent_secret_target \<Rightarrow> string" where
  "target_binding (ProjectTarget project_id) = project_id"
| "target_binding (WasmHashTarget hash) = ''wasm:'' @ hash"

definition keystore_store_message :: "string \<Rightarrow> string \<Rightarrow> string \<Rightarrow> string \<Rightarrow> string \<Rightarrow> string \<Rightarrow> string \<Rightarrow> string" where
  "keystore_store_message wallet_pubkey binding profile encrypted payer vault_id access_json =
     ''store_secrets_for:v1:'' @ wallet_pubkey @ '':'' @ show_nat (length binding) @ '':'' @ binding @ '':'' @ profile @ '':''
       @ encrypted @ '':'' @ payer @ '':'' @ vault_id @ '':'' @ access_json"

definition keystore_delete_message :: "string \<Rightarrow> string \<Rightarrow> string \<Rightarrow> string \<Rightarrow> string" where
  "keystore_delete_message wallet_pubkey binding profile payer =
     ''delete_agent_secret:v1:'' @ wallet_pubkey @ '':'' @ show_nat (length binding) @ '':'' @ binding @ '':'' @ profile @ '':'' @ payer"

record sign_secret_request =
  ss_wallet_id :: string
  ss_project_id :: "string option"
  ss_wasm_hash :: "string option"
  ss_encrypted :: string
  ss_payer :: string
  ss_access :: condition
  ss_vault_id :: "string option"

record sign_secret_response =
  sx_signature_hex :: string
  sx_wallet_pubkey :: string
  sx_agent_account :: string

definition sign_for_agent ::
  "'p wallet_libs \<Rightarrow> master_libs \<Rightarrow> account option \<Rightarrow> string \<Rightarrow> string \<Rightarrow> string \<Rightarrow> keystore
     \<Rightarrow> (door_error + sign_secret_response) \<times> keystore" where
  "sign_for_agent wl lib customer wallet_id agent message k =
     (case sign_with_seed lib customer (wallet_seed wl wallet_id ''near'') (ml_sha256 lib message) k of
        (Inl _, k1) \<Rightarrow> (Inl DoorInternal, k1)
      | (Inr signature, k1) \<Rightarrow>
          (Inr \<lparr>sx_signature_hex = ml_hex lib signature, sx_wallet_pubkey = ''ed25519:'' @ agent, sx_agent_account = agent\<rparr>, k1))"

definition wallet_sign_secret_store_handler ::
  "externals \<Rightarrow> master_libs \<Rightarrow> door_world \<Rightarrow> 'p wallet_libs \<Rightarrow> bool \<Rightarrow> string option option \<Rightarrow> sign_secret_request \<Rightarrow> keystore
     \<Rightarrow> (door_error + sign_secret_response) \<times> keystore" where
  "wallet_sign_secret_store_handler ext lib w wl ready header req k =
     (case enter_wallet ext lib w ready (Some (ss_wallet_id req)) header k of
        (Inl e, k1) \<Rightarrow> (Inl e, k1)
      | (Inr customer, k1) \<Rightarrow>
          (if ss_encrypted req = [] then (Inl DoorBadRequest, k1)
           else case target_from_fields ext (ss_project_id req) (ss_wasm_hash req) of
             Inl e \<Rightarrow> (Inl e, k1)
           | Inr target \<Rightarrow>
               (if trim_str (ss_payer req) = [] then (Inl DoorBadRequest, k1)
                else case wallet_implicit_account wl lib customer (ss_wallet_id req) k1 of
                  (Inl e, k2) \<Rightarrow> (Inl e, k2)
                | (Inr agent, k2) \<Rightarrow>
                    (case dw_base64_decode w (ss_encrypted req) of
                       None \<Rightarrow> (Inl DoorBadRequest, k2)
                     | Some blob \<Rightarrow>
                         (case decrypt_secret lib customer (target_seed target agent) blob k2 of
                            (Inl _, k3) \<Rightarrow> (Inl DoorForbidden, k3)
                          | (Inr _, k3) \<Rightarrow>
                              (if \<not> wl_condition_bounds wl (ss_access req) then (Inl DoorBadRequest, k3)
                               else sign_for_agent wl lib customer (ss_wallet_id req) agent
                                 (keystore_store_message (''ed25519:'' @ agent) (target_binding target) agent (ss_encrypted req)
                                    (trim_str (ss_payer req)) (case ss_vault_id req of None \<Rightarrow> [] | Some v \<Rightarrow> v)
                                    (wl_access_json wl (ss_access req))) k3))))))"

definition wallet_sign_secret_delete_handler ::
  "externals \<Rightarrow> master_libs \<Rightarrow> door_world \<Rightarrow> 'p wallet_libs \<Rightarrow> bool \<Rightarrow> string option option \<Rightarrow> string \<Rightarrow> string option \<Rightarrow> string option
     \<Rightarrow> string \<Rightarrow> keystore \<Rightarrow> (door_error + sign_secret_response) \<times> keystore" where
  "wallet_sign_secret_delete_handler ext lib w wl ready header wallet_id project_id wasm_hash payer k =
     (case enter_wallet ext lib w ready (Some wallet_id) header k of
        (Inl e, k1) \<Rightarrow> (Inl e, k1)
      | (Inr customer, k1) \<Rightarrow>
          (case target_from_fields ext project_id wasm_hash of
             Inl e \<Rightarrow> (Inl e, k1)
           | Inr target \<Rightarrow>
               (if trim_str payer = [] then (Inl DoorBadRequest, k1)
                else case wallet_implicit_account wl lib customer wallet_id k1 of
                  (Inl e, k2) \<Rightarrow> (Inl e, k2)
                | (Inr agent, k2) \<Rightarrow>
                    sign_for_agent wl lib customer wallet_id agent
                      (keystore_delete_message (''ed25519:'' @ agent) (target_binding target) agent (trim_str payer)) k2)))"


section \<open>Artifacts\<close>

record sign_artifact =
  sa_bytes_base64 :: "string option"
  sa_message :: "string option"
  sa_nonce_base64 :: "string option"
  sa_recipient :: "string option"

record wallet_sign_request =
  wq_wallet_id :: string
  wq_op :: wallet_op
  wq_approval_info :: "approval_info option"
  wq_artifact :: "sign_artifact option"
  wq_usage :: "node_value option"
  wq_binding_kind :: "string option"
  wq_decoder_version :: "nat option"

record wallet_sign_response =
  wr_request_hash :: string
  wr_signed_tx_base64 :: "string option"
  wr_tx_hash :: "string option"
  wr_signer_id :: "string option"
  wr_nonce :: "nat option"
  wr_signature_base58 :: "string option"
  wr_message :: "string option"
  wr_nonce_base64 :: "string option"
  wr_recipient :: "string option"
  wr_signature_base64 :: "string option"
  wr_auth_message :: "string option"
  wr_auth_timestamp :: "nat option"
  wr_auth_signature_base58 :: "string option"
  wr_public_key :: "string option"

definition new_response :: "string \<Rightarrow> wallet_sign_response" where
  "new_response request_hash =
     \<lparr>wr_request_hash = request_hash, wr_signed_tx_base64 = None, wr_tx_hash = None, wr_signer_id = None, wr_nonce = None,
      wr_signature_base58 = None, wr_message = None, wr_nonce_base64 = None, wr_recipient = None, wr_signature_base64 = None,
      wr_auth_message = None, wr_auth_timestamp = None, wr_auth_signature_base58 = None, wr_public_key = None\<rparr>"

text \<open>A keystore that signs: random bytes for a nonce and for the salt of a challenge come with the request.\<close>

record signing_random =
  sg_nonce :: string
  sg_salt :: string

definition sign_nep413 ::
  "'p wallet_libs \<Rightarrow> master_libs \<Rightarrow> account option \<Rightarrow> string \<Rightarrow> string \<Rightarrow> string \<Rightarrow> string \<Rightarrow> keystore
     \<Rightarrow> (door_error + string \<times> string) \<times> keystore" where
  "sign_nep413 wl lib customer wallet_id message nonce recipient k =
     (case derive_keypair lib customer (wallet_seed wl wallet_id ''near'') k of
        (Inl _, k1) \<Rightarrow> (Inl DoorInternal, k1)
      | (Inr (sk, pk), k1) \<Rightarrow>
          (case nep413_payload message nonce recipient of
             None \<Rightarrow> (Inl DoorInternal, k1)
           | Some payload \<Rightarrow>
               (Inr (''ed25519:'' @ ml_base58 lib (ml_ed_sign lib sk (ml_sha256 lib (le32 NEP413_TAG @ payload))),
                     ''ed25519:'' @ ml_base58 lib pk), k1)))"

definition rpc_error_is_about_the_signer :: "string \<Rightarrow> bool" where
  "rpc_error_is_about_the_signer cause =
     (if list_ex (\<lambda>marker. contains_str marker cause) [''does not exist while viewing'', ''UNKNOWN_ACCOUNT'', ''UNKNOWN_ACCESS_KEY'']
      then True
      else let lower = map ascii_lower cause;
               absent = contains_str ''does not exist'' lower \<or> contains_str (''doesn'' @ CHR 0x27 # ''t exist'') lower
           in absent \<and> (contains_str ''account'' lower \<or> contains_str ''access key'' lower))"

definition sign_near_transaction ::
  "externals \<Rightarrow> 'p wallet_libs \<Rightarrow> master_libs \<Rightarrow> door_world \<Rightarrow> wallet_world \<Rightarrow> account option \<Rightarrow> string \<Rightarrow> string
     \<Rightarrow> (account \<Rightarrow> door_error + account \<times> near_action list) \<Rightarrow> keystore \<Rightarrow> (door_error + wallet_sign_response) \<times> keystore" where
  "sign_near_transaction ext wl lib w ww customer wallet_id request_hash make_tx k =
     (if dw_client w = None then (Inl DoorInternal, k)
      else case derive_keypair lib customer (wallet_seed wl wallet_id ''near'') k of
        (Inl _, k1) \<Rightarrow> (Inl DoorInternal, k1)
      | (Inr (sk, pk), k1) \<Rightarrow>
          (let signer_id = ml_hex lib pk; public_key = ''ed25519:'' @ ml_base58 lib pk in
           if \<not> valid_account ext signer_id then (Inl DoorInternal, k1)
           else case make_tx signer_id of
             Inl e \<Rightarrow> (Inl e, k1)
           | Inr (receiver_id, actions) \<Rightarrow>
               (case ww_access_key ww signer_id public_key of
                  Inl cause \<Rightarrow> (Inl (if rpc_error_is_about_the_signer cause then DoorChainRefused else DoorInternal), k1)
                | Inr (rpc_nonce, block_hash) \<Rightarrow>
                    (let tx = \<lparr>tx_signer_id = signer_id, tx_public_key = public_key, tx_nonce = rpc_nonce + 1, tx_receiver_id = receiver_id,
                               tx_block_hash = block_hash, tx_actions = actions\<rparr>;
                         signature = ml_ed_sign lib sk (wl_tx_hash wl tx)
                     in (Inr ((new_response request_hash)
                           \<lparr>wr_signed_tx_base64 := Some (dw_base64_encode w (wl_tx_bytes wl tx signature)),
                            wr_tx_hash := Some (ml_base58 lib (wl_tx_hash wl tx)), wr_signer_id := Some signer_id,
                            wr_public_key := Some public_key, wr_nonce := Some (rpc_nonce + 1)\<rparr>), k1)))))"

definition unix_to_iso8601 :: "nat \<Rightarrow> string" where
  "unix_to_iso8601 secs =
     (let r = int (secs mod 86400); (year, month, d) = civil_from_days (int (secs div 86400)) in
      zero_padded 4 year @ ''-'' @ zero_padded 2 month @ ''-'' @ zero_padded 2 d @ ''T'' @ zero_padded 2 (r div 3600) @ '':''
        @ zero_padded 2 ((r mod 3600) div 60) @ '':'' @ zero_padded 2 (r mod 60) @ ''.000Z'')"

definition intent_document :: "string \<Rightarrow> string \<Rightarrow> (string \<times> node_value) list \<Rightarrow> node_value" where
  "intent_document signer_id deadline members =
     JObj [(''signer_id'', JStr signer_id), (''deadline'', JStr deadline), (''intents'', JArr [JObj members])]"

definition build_withdraw_intent_message ::
  "externals \<Rightarrow> 'p wallet_libs \<Rightarrow> string \<Rightarrow> string \<Rightarrow> string \<Rightarrow> string \<Rightarrow> string \<Rightarrow> string" where
  "build_withdraw_intent_message ext wl signer_id to amount token deadline =
     (let t = to_lowercase ext (trim_str token) in
      wl_json_text wl (intent_document signer_id deadline
        (if t = ''near'' \<or> t = ''native'' \<or> t = [] then
           [(''intent'', JStr ''native_withdraw''), (''receiver_id'', JStr to), (''amount'', JStr amount)]
         else
           [(''intent'', JStr ''ft_withdraw''),
            (''token'', JStr (case strip_prefix ''nep141:'' token of
               Some c \<Rightarrow> c | None \<Rightarrow> (case strip_prefix ''nep245:'' token of Some c \<Rightarrow> c | None \<Rightarrow> token))),
            (''receiver_id'', JStr to), (''amount'', JStr amount)])))"

definition build_transfer_intent_message :: "'p wallet_libs \<Rightarrow> string \<Rightarrow> string \<Rightarrow> string \<Rightarrow> string \<Rightarrow> string \<Rightarrow> string" where
  "build_transfer_intent_message wl signer_id to amount token deadline =
     (let t = trim_str token; token_id = (if starts_with ''nep141:'' t \<or> starts_with ''nep245:'' t then t else ''nep141:'' @ t) in
      wl_json_text wl (intent_document signer_id deadline
        [(''intent'', JStr ''transfer''), (''receiver_id'', JStr to), (''tokens'', JObj [(token_id, JStr amount)])]))"

definition build_storage_deposit_intent_message :: "'p wallet_libs \<Rightarrow> string \<Rightarrow> string \<Rightarrow> string \<Rightarrow> string \<Rightarrow> string \<Rightarrow> string" where
  "build_storage_deposit_intent_message wl signer_id contract_id account_id amount deadline =
     wl_json_text wl (intent_document signer_id deadline
       [(''intent'', JStr ''storage_deposit''), (''contract_id'', JStr contract_id), (''deposit_for_account_id'', JStr account_id),
        (''amount'', JStr amount)])"

definition storage_deposit_loses_nothing :: "'p wallet_libs \<Rightarrow> string \<Rightarrow> node_value \<Rightarrow> node_value \<Rightarrow> door_error option" where
  "storage_deposit_loses_nothing wl amount bounds balance =
     (case Option.bind (Option.bind (member_of ''min'' bounds) as_str) parse_u128 of
        None \<Rightarrow> Some DoorInternal
      | Some least \<Rightarrow>
          (case wl_storage_amount wl amount of
             None \<Rightarrow> Some DoorBadRequest
           | Some n \<Rightarrow> (if n \<noteq> least then Some DoorBadRequest else if balance \<noteq> JNull then Some DoorBadRequest else None)))"

definition sign_message_recipient_allowed :: "'p wallet_libs \<Rightarrow> 'p option \<Rightarrow> string \<Rightarrow> bool" where
  "sign_message_recipient_allowed wl policy recipient =
     (case policy of
        None \<Rightarrow> True
      | Some p \<Rightarrow> (case wl_allowed_recipients wl p of None \<Rightarrow> False | Some rs \<Rightarrow> recipient \<in> set rs))"

definition is_trusted_recipient :: "string \<Rightarrow> bool" where
  "is_trusted_recipient recipient \<longleftrightarrow> recipient = ''intents.near'' \<or> recipient = ''intents.far''"

text \<open>A message signed for a recipient, and the answer that carries it.\<close>

definition answer_message ::
  "'p wallet_libs \<Rightarrow> master_libs \<Rightarrow> account option \<Rightarrow> string \<Rightarrow> string \<Rightarrow> string \<Rightarrow> string \<Rightarrow> string \<Rightarrow> string \<Rightarrow> keystore
     \<Rightarrow> (door_error + wallet_sign_response) \<times> keystore" where
  "answer_message wl lib customer wallet_id request_hash message nonce nonce_base64 recipient k =
     (case sign_nep413 wl lib customer wallet_id message nonce recipient k of
        (Inl e, k1) \<Rightarrow> (Inl e, k1)
      | (Inr (signature, public_key), k1) \<Rightarrow>
          (Inr ((new_response request_hash)\<lparr>wr_signature_base58 := Some signature, wr_public_key := Some public_key,
             wr_message := Some message, wr_nonce_base64 := Some nonce_base64, wr_recipient := Some recipient\<rparr>), k1))"

text \<open>An intent is built for the wallet's own account with a fresh deadline and nonce.\<close>

definition answer_intent ::
  "'p wallet_libs \<Rightarrow> master_libs \<Rightarrow> door_world \<Rightarrow> wallet_world \<Rightarrow> signing_random \<Rightarrow> account option \<Rightarrow> string \<Rightarrow> string
     \<Rightarrow> (string \<Rightarrow> string \<Rightarrow> string) \<Rightarrow> keystore \<Rightarrow> (door_error + wallet_sign_response) \<times> keystore" where
  "answer_intent wl lib w ww rnd customer wallet_id request_hash message_of k =
     (case wallet_implicit_account wl lib customer wallet_id k of
        (Inl e, k1) \<Rightarrow> (Inl e, k1)
      | (Inr signer_id, k1) \<Rightarrow>
          answer_message wl lib customer wallet_id request_hash (message_of signer_id (unix_to_iso8601 (ww_now ww + 300)))
            (sg_nonce rnd) (dw_base64_encode w (sg_nonce rnd)) ''intents.near'' (dw_meanwhile w 14 k1))"

definition AUTH_DEADLINE_HORIZON_MS :: nat where "AUTH_DEADLINE_HORIZON_MS = 7 * 86400 * 1000"

definition saturating_mul_u64 :: "nat \<Rightarrow> nat \<Rightarrow> nat" where
  "saturating_mul_u64 a b = min (a * b) (2 ^ 64 - 1)"

definition answer_challenge ::
  "'p wallet_libs \<Rightarrow> master_libs \<Rightarrow> door_world \<Rightarrow> wallet_world \<Rightarrow> signing_random \<Rightarrow> account option \<Rightarrow> string \<Rightarrow> string \<Rightarrow> string option
     \<Rightarrow> keystore \<Rightarrow> (door_error + wallet_sign_response) \<times> keystore" where
  "answer_challenge wl lib w ww rnd customer wallet_id request_hash vault_id k =
     (if vault_id \<noteq> None then (Inl DoorBadRequest, k)
      else if dw_client w = None then (Inl DoorInternal, k)
      else case wallet_implicit_account wl lib customer wallet_id k of
        (Inl e, k1) \<Rightarrow> (Inl e, k1)
      | (Inr signer_id, k1) \<Rightarrow>
          (case ww_view ww ''intents.near'' ''current_salt'' None of
             Inl _ \<Rightarrow> (Inl DoorInternal, k1)
           | Inr v \<Rightarrow>
               (case bytes_of_length 4 (Option.bind (as_str v) (ml_unhex lib)) of
                  None \<Rightarrow> (Inl DoorInternal, k1)
                | Some salt \<Rightarrow>
                    (let deadline_ms = ww_now_ms ww + AUTH_DEADLINE_HORIZON_MS;
                         nonce = wl_jwt_nonce wl salt (saturating_mul_u64 deadline_ms 1000000)
                           (saturating_mul_u64 (ww_now_ms ww) 1000000) (sg_salt rnd)
                     in answer_message wl lib customer wallet_id request_hash
                          (wl_jwt_message wl (unix_to_iso8601 (deadline_ms div 1000)) signer_id)
                          nonce (dw_base64_encode w nonce) ''intents.near'' (dw_meanwhile w 14 k1)))))"

definition answer_auth ::
  "'p wallet_libs \<Rightarrow> master_libs \<Rightarrow> wallet_world \<Rightarrow> account option \<Rightarrow> string \<Rightarrow> string \<Rightarrow> string \<Rightarrow> string \<Rightarrow> string option \<Rightarrow> keystore
     \<Rightarrow> (door_error + wallet_sign_response) \<times> keystore" where
  "answer_auth wl lib ww customer wallet_id request_hash purpose seed vault_id k =
     (case wl_auth_message wl purpose seed (ww_now ww) vault_id of
        None \<Rightarrow> (Inl DoorBadRequest, k)
      | Some message \<Rightarrow>
          (case derive_keypair lib customer (wallet_seed wl wallet_id ''near'') k of
             (Inl _, k1) \<Rightarrow> (Inl DoorInternal, k1)
           | (Inr (sk, pk), k1) \<Rightarrow>
               (Inr ((new_response request_hash)\<lparr>wr_auth_message := Some message, wr_auth_timestamp := Some (ww_now ww),
                  wr_auth_signature_base58 := Some (ml_base58 lib (ml_ed_sign lib sk message)),
                  wr_public_key := Some (''ed25519:'' @ ml_base58 lib pk)\<rparr>), k1)))"

definition to_account :: "externals \<Rightarrow> string \<Rightarrow> near_action list \<Rightarrow> account \<Rightarrow> door_error + account \<times> near_action list" where
  "to_account ext receiver actions _ = (if valid_account ext receiver then Inr (receiver, actions) else Inl DoorBadRequest)"


section \<open>Signing by kind\<close>

fun sign_built ::
  "externals \<Rightarrow> 'p wallet_libs \<Rightarrow> master_libs \<Rightarrow> door_world \<Rightarrow> wallet_world \<Rightarrow> signing_random \<Rightarrow> account option \<Rightarrow> string \<Rightarrow> string
     \<Rightarrow> wallet_op \<Rightarrow> keystore \<Rightarrow> (door_error + wallet_sign_response) \<times> keystore" where
  "sign_built ext wl lib w ww rnd customer wallet_id request_hash (TransferOp to amount) k =
     (case parse_u128 amount of
        None \<Rightarrow> (Inl DoorBadRequest, k)
      | Some deposit \<Rightarrow> sign_near_transaction ext wl lib w ww customer wallet_id request_hash (to_account ext to [TransferAction deposit]) k)"
| "sign_built ext wl lib w ww rnd customer wallet_id request_hash (CallOp to method args_base64 gas deposit) k =
     (if wl_is_intents_contract wl to \<and> method \<in> set (wl_gate_only_methods wl) then (Inl DoorForbidden, k)
      else case (dw_base64_decode w args_base64, parse_u64 gas, parse_u128 deposit) of
        (Some args, Some g, Some d) \<Rightarrow>
          sign_near_transaction ext wl lib w ww customer wallet_id request_hash (to_account ext to [FunctionCallAction method args g d]) k
      | _ \<Rightarrow> (Inl DoorBadRequest, k))"
| "sign_built ext wl lib w ww rnd customer wallet_id request_hash (DeleteOp beneficiary) k =
     sign_near_transaction ext wl lib w ww customer wallet_id request_hash
       (\<lambda>me. if valid_account ext beneficiary then Inr (me, [DeleteAccountAction beneficiary]) else Inl DoorBadRequest) k"
| "sign_built ext wl lib w ww rnd customer wallet_id request_hash (WithdrawOp to amount token _) k =
     answer_intent wl lib w ww rnd customer wallet_id request_hash (\<lambda>me. build_withdraw_intent_message ext wl me to amount token) k"
| "sign_built ext wl lib w ww rnd customer wallet_id request_hash (IntentsTransferOp to amount token _) k =
     answer_intent wl lib w ww rnd customer wallet_id request_hash (\<lambda>me. build_transfer_intent_message wl me to amount token) k"
| "sign_built ext wl lib w ww rnd customer wallet_id request_hash (StorageDepositOp contract_id account_id amount) k =
     (if \<not> valid_account ext contract_id \<or> \<not> valid_account ext account_id then (Inl DoorBadRequest, k)
      else if dw_client w = None then (Inl DoorInternal, k)
      else case (ww_view ww contract_id ''storage_balance_bounds'' None, ww_view ww contract_id ''storage_balance_of'' (Some account_id)) of
        (Inr bounds, Inr balance) \<Rightarrow>
          (case storage_deposit_loses_nothing wl amount bounds balance of
             Some e \<Rightarrow> (Inl e, k)
           | None \<Rightarrow>
               answer_intent wl lib w ww rnd customer wallet_id request_hash
                 (\<lambda>me. build_storage_deposit_intent_message wl me contract_id account_id amount) k)
      | _ \<Rightarrow> (Inl DoorInternal, k))"
| "sign_built ext wl lib w ww rnd customer wallet_id request_hash (AuthOp purpose seed vault_id) k =
     (if purpose = ''jwt'' then answer_challenge wl lib w ww rnd customer wallet_id request_hash vault_id k
      else answer_auth wl lib ww customer wallet_id request_hash purpose seed vault_id k)"
| "sign_built ext wl lib w ww rnd customer wallet_id request_hash _ k = (Inl DoorInternal, k)"

definition sign_raw ::
  "externals \<Rightarrow> 'p wallet_libs \<Rightarrow> master_libs \<Rightarrow> door_world \<Rightarrow> account option \<Rightarrow> string \<Rightarrow> string \<Rightarrow> string \<Rightarrow> string \<Rightarrow> sign_artifact option
     \<Rightarrow> keystore \<Rightarrow> (door_error + wallet_sign_response) \<times> keystore" where
  "sign_raw ext wl lib w customer wallet_id request_hash chain payload_hash artifact k =
     (case Option.bind (Option.bind artifact sa_bytes_base64) (dw_base64_decode w) of
        None \<Rightarrow> (Inl DoorBadRequest, k)
      | Some bytes \<Rightarrow>
          (let chain_l = to_lowercase ext chain in
           if \<not> eq_ignore_ascii_case (ml_hex lib (ml_sha256 lib bytes)) payload_hash then (Inl DoorForbidden, k)
           else if wl_is_evm_chain wl chain_l then (Inl DoorBadRequest, k)
           else if chain_l \<noteq> ''near'' \<and> \<not> wl_is_solana_chain wl chain_l then (Inl DoorBadRequest, k)
           else case sign_with_seed lib customer (wallet_seed wl wallet_id chain_l) bytes k of
             (Inl _, k1) \<Rightarrow> (Inl DoorInternal, k1)
           | (Inr signature, k1) \<Rightarrow>
               (Inr ((new_response request_hash)\<lparr>wr_signature_base64 := Some (dw_base64_encode w signature)\<rparr>), k1)))"

definition sign_message_op ::
  "'p wallet_libs \<Rightarrow> master_libs \<Rightarrow> door_world \<Rightarrow> account option \<Rightarrow> string \<Rightarrow> string \<Rightarrow> 'p option \<Rightarrow> string \<Rightarrow> string
     \<Rightarrow> sign_artifact option \<Rightarrow> keystore \<Rightarrow> (door_error + wallet_sign_response) \<times> keystore" where
  "sign_message_op wl lib w customer wallet_id request_hash policy message_hash recipient artifact k =
     (if is_trusted_recipient recipient then (Inl DoorForbidden, k)
      else if \<not> sign_message_recipient_allowed wl policy recipient then (Inl DoorForbidden, k)
      else case (Option.bind artifact sa_message, Option.bind artifact sa_nonce_base64) of
        (Some message, Some nonce_base64) \<Rightarrow>
          (if \<not> eq_ignore_ascii_case (ml_hex lib (ml_sha256 lib message)) message_hash then (Inl DoorForbidden, k)
           else case bytes_of_length 32 (dw_base64_decode w nonce_base64) of
             None \<Rightarrow> (Inl DoorBadRequest, k)
           | Some nonce \<Rightarrow> answer_message wl lib customer wallet_id request_hash message nonce nonce_base64 recipient k)
      | _ \<Rightarrow> (Inl DoorBadRequest, k))"

fun sign_hash_pinned ::
  "externals \<Rightarrow> 'p wallet_libs \<Rightarrow> master_libs \<Rightarrow> door_world \<Rightarrow> account option \<Rightarrow> string \<Rightarrow> string \<Rightarrow> 'p option \<Rightarrow> sign_artifact option
     \<Rightarrow> wallet_op \<Rightarrow> keystore \<Rightarrow> (door_error + wallet_sign_response) \<times> keystore" where
  "sign_hash_pinned ext wl lib w customer wallet_id request_hash policy artifact (RawOp chain payload_hash _) k =
     sign_raw ext wl lib w customer wallet_id request_hash chain payload_hash artifact k"
| "sign_hash_pinned ext wl lib w customer wallet_id request_hash policy artifact (SignMessageOp message_hash recipient _) k =
     sign_message_op wl lib w customer wallet_id request_hash policy message_hash recipient artifact k"
| "sign_hash_pinned ext wl lib w customer wallet_id request_hash policy artifact _ k = (Inl DoorInternal, k)"

definition sign_trusted ::
  "'p wallet_libs \<Rightarrow> master_libs \<Rightarrow> door_world \<Rightarrow> account option \<Rightarrow> string \<Rightarrow> string \<Rightarrow> sign_artifact option \<Rightarrow> keystore
     \<Rightarrow> (door_error + wallet_sign_response) \<times> keystore" where
  "sign_trusted wl lib w customer wallet_id request_hash artifact k =
     (case (Option.bind artifact sa_message, Option.bind artifact sa_nonce_base64, Option.bind artifact sa_recipient) of
        (Some message, Some nonce_base64, Some recipient) \<Rightarrow>
          (if \<not> is_trusted_recipient recipient then (Inl DoorForbidden, k)
           else case bytes_of_length 32 (dw_base64_decode w nonce_base64) of
             None \<Rightarrow> (Inl DoorBadRequest, k)
           | Some nonce \<Rightarrow> answer_message wl lib customer wallet_id request_hash message nonce nonce_base64 recipient k)
      | _ \<Rightarrow> (Inl DoorBadRequest, k))"

section \<open>The signing endpoint\<close>

fun is_policy_update :: "wallet_op \<Rightarrow> bool" where
  "is_policy_update (PolicyUpdateOp _ _ _ _ _) = True"
| "is_policy_update _ = False"

fun refused_by_version :: "'p wallet_libs \<Rightarrow> wallet_op \<Rightarrow> string option \<Rightarrow> nat option \<Rightarrow> bool" where
  "refused_by_version wl (CallOp _ method _ _ _) kind decoder \<longleftrightarrow> \<not> wl_version_gate wl method kind decoder"
| "refused_by_version wl _ kind decoder \<longleftrightarrow> False"

text \<open>The verdict of the policy, with the votes where it asks for them.\<close>

definition judge_op ::
  "externals \<Rightarrow> master_libs \<Rightarrow> door_world \<Rightarrow> near_crypto \<Rightarrow> 'p wallet_libs \<Rightarrow> wallet_world \<Rightarrow> account option \<Rightarrow> wallet_sign_request
     \<Rightarrow> 'p option \<Rightarrow> keystore \<Rightarrow> door_error option \<times> keystore" where
  "judge_op ext lib w nc wl ww customer req policy k =
     (let effective = policy_to_judge_by wl policy in
      case wl_evaluate wl effective (wq_op req) (wq_usage req) (ww_now ww) of
        FrozenWallet \<Rightarrow> (Some DoorForbidden, k)
      | DenyOp \<Rightarrow> (Some DoorForbidden, k)
      | RequiresApproval threshold \<Rightarrow>
          (case derive_wallet_ed25519_pubkey wl lib customer (wq_wallet_id req) k of
             (Inl e, k1) \<Rightarrow> (Some e, k1)
           | (Inr wallet_pubkey, k1) \<Rightarrow>
               (verify_approvals ext lib w nc wl ww effective wallet_pubkey (wl_request_hash wl (wq_op req)) (wq_approval_info req)
                  (max threshold 1), k1))
      | Allow \<Rightarrow> (None, k))"

definition sign_by_mode ::
  "externals \<Rightarrow> 'p wallet_libs \<Rightarrow> master_libs \<Rightarrow> door_world \<Rightarrow> wallet_world \<Rightarrow> signing_random \<Rightarrow> account option \<Rightarrow> wallet_sign_request
     \<Rightarrow> 'p option \<Rightarrow> keystore \<Rightarrow> (door_error + wallet_sign_response) \<times> keystore" where
  "sign_by_mode ext wl lib w ww rnd customer req policy k =
     (let op = wq_op req; request_hash = wl_request_hash wl op in
      case wl_bind_mode wl op of
        BuiltMode \<Rightarrow> sign_built ext wl lib w ww rnd customer (wq_wallet_id req) request_hash op k
      | HashPinnedMode \<Rightarrow> sign_hash_pinned ext wl lib w customer (wq_wallet_id req) request_hash policy (wq_artifact req) op k
      | TrustedMode \<Rightarrow> sign_trusted wl lib w customer (wq_wallet_id req) request_hash (wq_artifact req) k
      | PolicyUpdateMode \<Rightarrow> (Inl DoorBadRequest, k))"

definition wallet_sign_handler ::
  "externals \<Rightarrow> master_libs \<Rightarrow> door_world \<Rightarrow> near_crypto \<Rightarrow> 'p wallet_libs \<Rightarrow> wallet_world \<Rightarrow> signing_random \<Rightarrow> bool \<Rightarrow> string option option
     \<Rightarrow> wallet_sign_request \<Rightarrow> keystore \<Rightarrow> (door_error + wallet_sign_response) \<times> keystore" where
  "wallet_sign_handler ext lib w nc wl ww rnd ready header req k =
     (if ready \<and> validate_wallet_id (wq_wallet_id req) = None \<and> is_policy_update (wq_op req) then (Inl DoorBadRequest, k)
      else case enter_wallet ext lib w ready (Some (wq_wallet_id req)) header k of
        (Inl e, k1) \<Rightarrow> (Inl e, k1)
      | (Inr customer, k1) \<Rightarrow>
          (if refused_by_version wl (wq_op req) (wq_binding_kind req) (wq_decoder_version req) then (Inl DoorForbidden, k1)
           else case load_wallet_policy wl lib w ww (wq_wallet_id req) customer k1 of
             (Inl e, k2) \<Rightarrow> (Inl e, k2)
           | (Inr policy, k2) \<Rightarrow>
               (case judge_op ext lib w nc wl ww customer req policy (dw_meanwhile w 15 k2) of
                  (Some e, k3) \<Rightarrow> (Inl e, k3)
                | (None, k3) \<Rightarrow> sign_by_mode ext wl lib w ww rnd customer req policy (dw_meanwhile w 16 k3))))"

record check_policy_response =
  cr_allowed :: bool
  cr_frozen :: bool
  cr_required_approvals :: "nat option"
  cr_request_hash :: string

text \<open>The policy a pre-flight check is made by: the one on the contract, or one sent along where the
  build allows it. The web hook of the answer is left out.\<close>

definition policy_to_check ::
  "'p wallet_libs \<Rightarrow> master_libs \<Rightarrow> door_world \<Rightarrow> wallet_world \<Rightarrow> string \<Rightarrow> account option \<Rightarrow> string option \<Rightarrow> keystore
     \<Rightarrow> (door_error + 'p option) \<times> keystore" where
  "policy_to_check wl lib w ww wallet_id customer inline_data k =
     (case inline_data of
        None \<Rightarrow> load_wallet_policy wl lib w ww wallet_id customer k
      | Some b64 \<Rightarrow>
          (case dw_base64_decode w b64 of
             None \<Rightarrow> (Inl DoorInternal, k)
           | Some blob \<Rightarrow>
               (case decrypt_secret lib customer (policy_seed wallet_id) blob k of
                  (Inl _, k1) \<Rightarrow> (Inl DoorInternal, k1)
                | (Inr plaintext, k1) \<Rightarrow>
                    (case wl_policy_of_text wl plaintext of None \<Rightarrow> (Inl DoorInternal, k1) | Some p \<Rightarrow> (Inr (Some p), k1)))))"

definition wallet_check_policy_handler ::
  "externals \<Rightarrow> master_libs \<Rightarrow> door_world \<Rightarrow> 'p wallet_libs \<Rightarrow> wallet_world \<Rightarrow> bool \<Rightarrow> bool \<Rightarrow> string option option \<Rightarrow> wallet_sign_request
     \<Rightarrow> string option \<Rightarrow> keystore \<Rightarrow> (door_error + check_policy_response) \<times> keystore" where
  "wallet_check_policy_handler ext lib w wl ww ready allow_inline header req inline_data k =
     (case enter_wallet ext lib w ready (Some (wq_wallet_id req)) header k of
        (Inl e, k1) \<Rightarrow> (Inl e, k1)
      | (Inr customer, k1) \<Rightarrow>
          (if inline_data \<noteq> None \<and> \<not> allow_inline then (Inl DoorForbidden, k1)
           else case policy_to_check wl lib w ww (wq_wallet_id req) customer inline_data k1 of
             (Inl e, k2) \<Rightarrow> (Inl e, k2)
           | (Inr policy, k2) \<Rightarrow>
               (let hash = wl_request_hash wl (wq_op req);
                    answer = (\<lambda>allowed frozen required. \<lparr>cr_allowed = allowed, cr_frozen = frozen, cr_required_approvals = required,
                                cr_request_hash = hash\<rparr>)
                in (Inr (if refused_by_version wl (wq_op req) (wq_binding_kind req) (wq_decoder_version req) then answer False False None
                         else case wl_evaluate wl (policy_to_judge_by wl policy) (wq_op req) (wq_usage req) (ww_now ww) of
                           Allow \<Rightarrow> answer True False None
                         | FrozenWallet \<Rightarrow> answer False True None
                         | DenyOp \<Rightarrow> answer False False None
                         | RequiresApproval threshold \<Rightarrow> answer True False (Some threshold)), k2))))"

definition wallet_encrypt_policy_handler ::
  "externals \<Rightarrow> master_libs \<Rightarrow> door_world \<Rightarrow> bool \<Rightarrow> string option option \<Rightarrow> string \<Rightarrow> string \<Rightarrow> string \<Rightarrow> string \<Rightarrow> keystore
     \<Rightarrow> (door_error + string) \<times> keystore" where
  "wallet_encrypt_policy_handler ext lib w ready header wallet_id policy_json ephemeral nonce k =
     (case enter_wallet ext lib w ready (Some wallet_id) header k of
        (Inl e, k1) \<Rightarrow> (Inl e, k1)
      | (Inr customer, k1) \<Rightarrow>
          (case encrypt_secret lib k1 ephemeral nonce customer (policy_seed wallet_id) policy_json of
             Inl _ \<Rightarrow> (Inl DoorInternal, k1)
           | Inr blob \<Rightarrow> (Inr (dw_base64_encode w blob), k1)))"

definition wallet_decrypt_policy_handler ::
  "externals \<Rightarrow> master_libs \<Rightarrow> door_world \<Rightarrow> 'p wallet_libs \<Rightarrow> bool \<Rightarrow> string option option \<Rightarrow> string \<Rightarrow> string \<Rightarrow> keystore
     \<Rightarrow> (door_error + node_value) \<times> keystore" where
  "wallet_decrypt_policy_handler ext lib w wl ready header wallet_id encrypted k =
     (case enter_wallet ext lib w ready (Some wallet_id) header k of
        (Inl e, k1) \<Rightarrow> (Inl e, k1)
      | (Inr customer, k1) \<Rightarrow>
          (case dw_base64_decode w encrypted of
             None \<Rightarrow> (Inl DoorBadRequest, k1)
           | Some blob \<Rightarrow>
               (case decrypt_secret lib customer (policy_seed wallet_id) blob k1 of
                  (Inl _, k2) \<Rightarrow> (Inl DoorInternal, k2)
                | (Inr plaintext, k2) \<Rightarrow>
                    (case wl_value_of_text wl plaintext of None \<Rightarrow> (Inl DoorInternal, k2) | Some v \<Rightarrow> (Inr v, k2)))))"

section \<open>Votes that count\<close>

lemma counted_vote:
  assumes "signed_vote_counts ext lib w nc wl ww policy message recipient v = Inr True"
  shows "wl_admits_key wl policy (av_approver_id v) (av_public_key v)"
    "verify_near_signature lib w nc message (av_signature v) (av_public_key v) (av_nonce v) recipient"
    "ww_signer_key ww (av_approver_id v) (av_public_key v) = Some FullAccessKey"
  using assms
  by (auto simp: signed_vote_counts_def verify_access_key_owner_def split: if_splits option.splits signer_key.splits)

lemma counted_contract_vote:
  "carried_vote_counts wl ww policy message recipient v = Inr True \<longleftrightarrow>
     wl_admits_contract_vote wl policy (cv_approver_id v) \<and> length (cv_authorization v) \<le> wl_max_authorization wl \<and>
     ww_resolve_vote ww v recipient message = Inr True"
  by (auto simp: carried_vote_counts_def contract_vote_counts_def split: sum.splits)

lemma count_votes_of:
  "count_votes voter counts acc vs = Inr out \<Longrightarrow>
     (distinct acc \<longrightarrow> distinct out) \<and> (\<forall>a \<in> set out. a \<in> set acc \<or> (\<exists>v \<in> set vs. voter v = a \<and> counts v = Inr True))"
  by (induction voter counts acc vs rule: count_votes.induct) (fastforce split: if_splits sum.splits bool.splits)+

lemma find_veto_None: "find_veto counts vs = None \<longleftrightarrow> (\<forall>v \<in> set vs. counts v = Inr False)"
  by (induction vs) (auto split: sum.splits bool.splits)

text \<open>A quorum: so many distinct approvers voted for this operation of this wallet, and no vote against it counts.\<close>

definition approves ::
  "master_libs \<Rightarrow> door_world \<Rightarrow> near_crypto \<Rightarrow> 'p wallet_libs \<Rightarrow> wallet_world \<Rightarrow> 'p \<Rightarrow> string \<Rightarrow> approval_info \<Rightarrow> string \<Rightarrow> bool" where
  "approves lib w nc wl ww policy message info a \<longleftrightarrow>
     (\<exists>v \<in> set (ai_approvals info). av_approver_id v = a \<and> wl_admits_key wl policy a (av_public_key v) \<and>
        verify_near_signature lib w nc message (av_signature v) (av_public_key v) (av_nonce v) (ww_contract_id ww) \<and>
        ww_signer_key ww a (av_public_key v) = Some FullAccessKey) \<or>
     (\<exists>v \<in> set (ai_contract_approvals info). cv_approver_id v = a \<and> wl_admits_contract_vote wl policy a \<and>
        ww_resolve_vote ww v (ww_contract_id ww) message = Inr True)"

definition quorum ::
  "externals \<Rightarrow> master_libs \<Rightarrow> door_world \<Rightarrow> near_crypto \<Rightarrow> 'p wallet_libs \<Rightarrow> wallet_world \<Rightarrow> 'p \<Rightarrow> string \<Rightarrow> string
     \<Rightarrow> approval_info option \<Rightarrow> nat \<Rightarrow> bool" where
  "quorum ext lib w nc wl ww policy wallet_pubkey request_hash approval_info n \<longleftrightarrow>
     (\<exists>info voters. approval_info = Some info \<and> ai_recipient info = ww_contract_id ww \<and> distinct voters \<and> n \<le> length voters \<and>
        (\<forall>a \<in> set voters. approves lib w nc wl ww policy (wl_vote_message wl Approve (ai_approval_id info) wallet_pubkey request_hash) info a) \<and>
        (let against = wl_vote_message wl Reject (ai_approval_id info) wallet_pubkey request_hash in
         (\<forall>v \<in> set (ai_rejections info). signed_vote_counts ext lib w nc wl ww policy against (ww_contract_id ww) v = Inr False) \<and>
         (\<forall>v \<in> set (ai_contract_rejections info). carried_vote_counts wl ww policy against (ww_contract_id ww) v = Inr False)))"

lemma approvals_verified:
  assumes "verify_approvals ext lib w nc wl ww policy wallet_pubkey request_hash info_sent n = None"
  shows "quorum ext lib w nc wl ww policy wallet_pubkey request_hash info_sent n"
proof -
  from assms obtain info where info: "info_sent = Some info" "ai_recipient info = ww_contract_id ww"
    by (auto simp: verify_approvals_def split: if_splits option.splits)
  let ?for = "wl_vote_message wl Approve (ai_approval_id info) wallet_pubkey request_hash"
  let ?against = "wl_vote_message wl Reject (ai_approval_id info) wallet_pubkey request_hash"
  let ?signed = "signed_vote_counts ext lib w nc wl ww policy"
  let ?carried = "carried_vote_counts wl ww policy"
  from assms info obtain signed voters where
    s: "count_votes av_approver_id (?signed ?for (ww_contract_id ww)) [] (ai_approvals info) = Inr signed" and
    c: "count_votes cv_approver_id (?carried ?for (ww_contract_id ww)) signed (ai_contract_approvals info) = Inr voters" and
    veto: "find_veto (?signed ?against (ww_contract_id ww)) (ai_rejections info) = None"
      "find_veto (?carried ?against (ww_contract_id ww)) (ai_contract_rejections info) = None" and n: "n \<le> length voters"
    by (auto simp: verify_approvals_def Let_def split: if_splits option.splits sum.splits)
  have "approves lib w nc wl ww policy ?for info a" if "a \<in> set voters" for a
  proof -
    from count_votes_of [OF c] that consider "a \<in> set signed"
      | v where "v \<in> set (ai_contract_approvals info)" "cv_approver_id v = a" "?carried ?for (ww_contract_id ww) v = Inr True" by blast
    then show ?thesis
    proof cases
      case 1
      with count_votes_of [OF s] obtain v where v: "v \<in> set (ai_approvals info)" "av_approver_id v = a"
        "?signed ?for (ww_contract_id ww) v = Inr True" by auto
      from counted_vote [OF v(3)] v(1,2) show ?thesis unfolding approves_def by blast
    next
      case 2
      then show ?thesis unfolding approves_def counted_contract_vote by blast
    qed
  qed
  moreover have "distinct voters" using count_votes_of [OF s] count_votes_of [OF c] by simp
  ultimately show ?thesis
    unfolding quorum_def Let_def using info n veto [unfolded find_veto_None]
    by (intro exI [of _ info] exI [of _ voters]) simp
qed

section \<open>Keys that are the wallet's own\<close>

text \<open>Masters as the vaults have them, and cached pairs derived from those.\<close>

definition faithful :: "string \<Rightarrow> (account \<Rightarrow> string) \<Rightarrow> master_libs \<Rightarrow> keystore \<Rightarrow> bool" where
  "faithful own vault_master lib k \<longleftrightarrow> genuine own vault_master k \<and>
     (\<forall>c s kp. ks_keypair_cache k (c, s) = Some kp \<longrightarrow> kp = keypair_of lib (master_named own vault_master c) s)"

definition world_faithful :: "string \<Rightarrow> (account \<Rightarrow> string) \<Rightarrow> master_libs \<Rightarrow> door_world \<Rightarrow> bool" where
  "world_faithful own vault_master lib w \<longleftrightarrow>
     (\<forall>v sk path m. dw_ckd w v sk path = Inr m \<longrightarrow> m = vault_master v) \<and>
     (\<forall>i k. faithful own vault_master lib k \<longrightarrow> faithful own vault_master lib (dw_meanwhile w i k))"

lemma faithfulD:
  "faithful own vm lib k \<Longrightarrow> master_for k customer = Inr m \<Longrightarrow> m = master_named own vm customer"
  "faithful own vm lib k \<Longrightarrow> ks_keypair_cache k (customer, seed) = Some kp \<Longrightarrow> kp = keypair_of lib (master_named own vm customer) seed"
  "faithful own vm lib k \<Longrightarrow> genuine own vm k"
  unfolding faithful_def by (blast intro: genuine_master_for)+

lemma faithful_cached:
  "faithful own vm lib k \<Longrightarrow> kp = keypair_of lib (master_named own vm customer) seed \<Longrightarrow>
     faithful own vm lib (k\<lparr>ks_keypair_cache := (ks_keypair_cache k)((customer, seed) \<mapsto> kp)\<rparr>)"
  by (auto simp: faithful_def genuine_def)

lemma faithful_derive:
  assumes d: "derive_keypair lib customer seed k = (r, k1)" and f: "faithful own vm lib k"
  shows "faithful own vm lib k1 \<and> (\<forall>kp. r = Inr kp \<longrightarrow> kp = keypair_of lib (master_named own vm customer) seed)"
proof (cases "ks_keypair_cache k (customer, seed)")
  case (Some kp)
  with d f show ?thesis by (auto simp: derive_keypair_def dest: faithfulD(2))
next
  case None
  show ?thesis
  proof (cases "master_for k customer")
    case (Inl e)
    with None d f show ?thesis by (auto simp: derive_keypair_def derive_and_cache_def)
  next
    case (Inr m)
    with None d have "r = Inr (keypair_of lib m seed)"
      "k1 = k\<lparr>ks_keypair_cache := (ks_keypair_cache k)((customer, seed) \<mapsto> keypair_of lib m seed)\<rparr>"
      by (auto simp: derive_keypair_def derive_and_cache_def Let_def)
    with faithfulD(1) [OF f Inr] faithful_cached [OF f] show ?thesis by simp
  qed
qed

lemma faithful_decrypt:
  assumes "decrypt_secret lib customer seed blob k = (r, k1)" "faithful own vm lib k"
  shows "faithful own vm lib k1"
  using assms faithful_derive
  by (fastforce simp: decrypt_secret_def decrypt_legacy_def split: if_splits sum.splits prod.splits)

lemma faithful_evict: "faithful own vm lib k \<Longrightarrow> faithful own vm lib (evict_customer v k)"
  by (auto simp: faithful_def genuine_evict evict_customer_def evict_customer_cache_def remove_master_def genuine_def)

lemma faithful_add: "faithful own vm lib k \<Longrightarrow> m = vm v \<Longrightarrow> faithful own vm lib (add_customer v m k)"
  by (auto simp: faithful_def genuine_def add_customer_def evict_customer_cache_def insert_master_def)

lemma faithful_serving:
  "assert_serving_allowed answer state v k = (r, k1) \<Longrightarrow> faithful own vm lib k \<Longrightarrow> faithful own vm lib k1"
  by (auto simp: assert_serving_allowed_def faithful_evict split: sum.splits option.splits bool.splits if_splits)

lemma faithful_load:
  assumes "load_customer lib ckd v k = (r, k1)" "faithful own vm lib k" "\<And>sk path m. ckd v sk path = Inr m \<Longrightarrow> m = vm v"
  shows "faithful own vm lib k1"
proof -
  have "faithful own vm lib k2" if "derive_vault_tee_keypair lib v k = (a, k2)" for a k2
    using that assms(2) faithful_derive by (fastforce simp: derive_vault_tee_keypair_def split: prod.splits sum.splits)
  then show ?thesis
    using assms by (auto simp: load_customer_def intro!: faithful_add split: if_splits prod.splits sum.splits)
qed

lemma faithful_app_ensure:
  assumes "app_ensure_customer_loaded lib w customer k = (r, k1)" "faithful own vm lib k" "world_faithful own vm lib w"
  shows "faithful own vm lib k1"
  using assms
  by (auto simp: app_ensure_customer_loaded_def ensure_customer_loaded_def world_faithful_def
      split: option.splits if_splits prod.splits sum.splits elim!: faithful_load dest: faithful_serving)

lemma faithful_meanwhile: "world_faithful own vm lib w \<Longrightarrow> faithful own vm lib k \<Longrightarrow> faithful own vm lib (dw_meanwhile w i k)"
  by (simp add: world_faithful_def)

lemma faithful_enter:
  assumes "enter_wallet ext lib w ready wallet_id header k = (Inr customer, k1)" "faithful own vm lib k" "world_faithful own vm lib w"
  shows "faithful own vm lib k1 \<and> ready \<and> extract_customer_from_header ext header = Inr customer"
  using assms by (auto simp: enter_wallet_def dest: faithful_app_ensure intro!: faithful_meanwhile split: if_splits option.splits sum.splits prod.splits)

text \<open>The key pair of a wallet.\<close>

abbreviation wallet_keys :: "master_libs \<Rightarrow> 'p wallet_libs \<Rightarrow> string \<Rightarrow> (account \<Rightarrow> string) \<Rightarrow> account option \<Rightarrow> string \<Rightarrow> keypair" where
  "wallet_keys lib wl own vm customer wallet_id \<equiv> keypair_of lib (master_named own vm customer) (wallet_seed wl wallet_id ''near'')"

lemma wallet_pubkey_of:
  assumes "derive_wallet_ed25519_pubkey wl lib customer wallet_id k = (r, k1)" "faithful own vm lib k"
  shows "faithful own vm lib k1 \<and> (\<forall>key. r = Inr key \<longrightarrow> key = ''ed25519:'' @ ml_hex lib (snd (wallet_keys lib wl own vm customer wallet_id)))"
proof -
  obtain r0 k0 where d: "derive_keypair lib customer (wallet_seed wl wallet_id ''near'') k = (r0, k0)" by (metis surj_pair)
  with faithful_derive [OF d assms(2)] assms(1) show ?thesis
    by (cases r0) (auto simp: derive_wallet_ed25519_pubkey_def get_public_key_for_seed_def)
qed

lemma wallet_account_of:
  assumes "wallet_implicit_account wl lib customer wallet_id k = (r, k1)" "faithful own vm lib k"
  shows "faithful own vm lib k1 \<and> (\<forall>a. r = Inr a \<longrightarrow> a = ml_hex lib (snd (wallet_keys lib wl own vm customer wallet_id)))"
proof -
  obtain r0 k0 where d: "derive_keypair lib customer (wallet_seed wl wallet_id ''near'') k = (r0, k0)" by (metis surj_pair)
  with faithful_derive [OF d assms(2)] assms(1) show ?thesis
    by (cases r0) (auto simp: wallet_implicit_account_def get_public_key_for_seed_def)
qed

lemma seed_signature_of:
  assumes "sign_with_seed lib customer seed m k = (Inr sig, k1)" "faithful own vm lib k"
  shows "sig = ml_ed_sign lib (fst (keypair_of lib (master_named own vm customer) seed)) m"
  using assms faithful_derive [of lib customer seed k]
  by (auto simp: sign_with_seed_def split: prod.splits sum.splits)


section \<open>Artifacts that are the operation's\<close>

definition tx_signed :: "'p wallet_libs \<Rightarrow> master_libs \<Rightarrow> door_world \<Rightarrow> keypair \<Rightarrow> wallet_sign_response \<Rightarrow> account \<Rightarrow> near_action list \<Rightarrow> bool" where
  "tx_signed wl lib w kp resp receiver actions \<longleftrightarrow>
     (\<exists>tx. tx_signer_id tx = ml_hex lib (snd kp) \<and> tx_receiver_id tx = receiver \<and> tx_actions tx = actions \<and>
        wr_signed_tx_base64 resp = Some (dw_base64_encode w (wl_tx_bytes wl tx (ml_ed_sign lib (fst kp) (wl_tx_hash wl tx)))) \<and>
        wr_signature_base58 resp = None \<and> wr_signature_base64 resp = None \<and> wr_auth_signature_base58 resp = None)"

definition message_signed :: "master_libs \<Rightarrow> keypair \<Rightarrow> wallet_sign_response \<Rightarrow> string \<Rightarrow> string \<Rightarrow> bool" where
  "message_signed lib kp resp message recipient \<longleftrightarrow>
     (\<exists>nonce payload. nep413_payload message nonce recipient = Some payload \<and> wr_message resp = Some message \<and>
        wr_recipient resp = Some recipient \<and>
        wr_signature_base58 resp = Some (''ed25519:'' @ ml_base58 lib (ml_ed_sign lib (fst kp) (ml_sha256 lib (le32 NEP413_TAG @ payload)))) \<and>
        wr_signed_tx_base64 resp = None \<and> wr_signature_base64 resp = None \<and> wr_auth_signature_base58 resp = None)"

fun built_from ::
  "externals \<Rightarrow> 'p wallet_libs \<Rightarrow> master_libs \<Rightarrow> door_world \<Rightarrow> keypair \<Rightarrow> wallet_sign_response \<Rightarrow> wallet_op \<Rightarrow> bool" where
  "built_from ext wl lib w kp resp (TransferOp to amount) \<longleftrightarrow>
     (\<exists>n. parse_u128 amount = Some n \<and> tx_signed wl lib w kp resp to [TransferAction n])"
| "built_from ext wl lib w kp resp (CallOp to method args_base64 gas deposit) \<longleftrightarrow>
     \<not> (wl_is_intents_contract wl to \<and> method \<in> set (wl_gate_only_methods wl)) \<and>
     (\<exists>args g d. dw_base64_decode w args_base64 = Some args \<and> parse_u64 gas = Some g \<and> parse_u128 deposit = Some d \<and>
        tx_signed wl lib w kp resp to [FunctionCallAction method args g d])"
| "built_from ext wl lib w kp resp (DeleteOp beneficiary) \<longleftrightarrow>
     tx_signed wl lib w kp resp (ml_hex lib (snd kp)) [DeleteAccountAction beneficiary]"
| "built_from ext wl lib w kp resp (WithdrawOp to amount token _) \<longleftrightarrow>
     (\<exists>deadline. message_signed lib kp resp (build_withdraw_intent_message ext wl (ml_hex lib (snd kp)) to amount token deadline) ''intents.near'')"
| "built_from ext wl lib w kp resp (IntentsTransferOp to amount token _) \<longleftrightarrow>
     (\<exists>deadline. message_signed lib kp resp (build_transfer_intent_message wl (ml_hex lib (snd kp)) to amount token deadline) ''intents.near'')"
| "built_from ext wl lib w kp resp (StorageDepositOp contract_id account_id amount) \<longleftrightarrow>
     (\<exists>deadline. message_signed lib kp resp
        (build_storage_deposit_intent_message wl (ml_hex lib (snd kp)) contract_id account_id amount deadline) ''intents.near'')"
| "built_from ext wl lib w kp resp (AuthOp purpose seed vault_id) \<longleftrightarrow>
     (if purpose = ''jwt''
      then \<exists>deadline. message_signed lib kp resp (wl_jwt_message wl deadline (ml_hex lib (snd kp))) ''intents.near''
      else \<exists>now message. wl_auth_message wl purpose seed now vault_id = Some message \<and> wr_auth_message resp = Some message \<and>
        wr_auth_signature_base58 resp = Some (ml_base58 lib (ml_ed_sign lib (fst kp) message)) \<and>
        wr_signed_tx_base64 resp = None \<and> wr_signature_base58 resp = None \<and> wr_signature_base64 resp = None)"
| "built_from ext wl lib w kp resp _ \<longleftrightarrow> False"

text \<open>The keys are a function of the seed: raw bytes are signed by the key of the chain they are for.\<close>

fun pinned_by ::
  "externals \<Rightarrow> 'p wallet_libs \<Rightarrow> master_libs \<Rightarrow> door_world \<Rightarrow> (string \<Rightarrow> keypair) \<Rightarrow> string \<Rightarrow> 'p option \<Rightarrow> wallet_sign_response
     \<Rightarrow> wallet_op \<Rightarrow> bool" where
  "pinned_by ext wl lib w keys wallet_id stated resp (RawOp chain payload_hash _) \<longleftrightarrow>
     (\<exists>bytes. eq_ignore_ascii_case (ml_hex lib (ml_sha256 lib bytes)) payload_hash \<and>
        wr_signature_base64 resp =
          Some (dw_base64_encode w (ml_ed_sign lib (fst (keys (wallet_seed wl wallet_id (to_lowercase ext chain)))) bytes))) \<and>
     (to_lowercase ext chain = ''near'' \<or> wl_is_solana_chain wl (to_lowercase ext chain)) \<and>
     wr_signed_tx_base64 resp = None \<and> wr_signature_base58 resp = None \<and> wr_auth_signature_base58 resp = None"
| "pinned_by ext wl lib w keys wallet_id stated resp (SignMessageOp message_hash recipient _) \<longleftrightarrow>
     \<not> is_trusted_recipient recipient \<and> sign_message_recipient_allowed wl stated recipient \<and>
     (\<exists>message. eq_ignore_ascii_case (ml_hex lib (ml_sha256 lib message)) message_hash \<and>
        message_signed lib (keys (wallet_seed wl wallet_id ''near'')) resp message recipient)"
| "pinned_by ext wl lib w keys wallet_id stated resp _ \<longleftrightarrow> False"

definition artifact_fits ::
  "externals \<Rightarrow> 'p wallet_libs \<Rightarrow> master_libs \<Rightarrow> door_world \<Rightarrow> (string \<Rightarrow> keypair) \<Rightarrow> string \<Rightarrow> 'p option \<Rightarrow> wallet_sign_response
     \<Rightarrow> wallet_op \<Rightarrow> bool" where
  "artifact_fits ext wl lib w keys wallet_id stated resp op \<longleftrightarrow>
     (case wl_bind_mode wl op of
        BuiltMode \<Rightarrow> built_from ext wl lib w (keys (wallet_seed wl wallet_id ''near'')) resp op
      | HashPinnedMode \<Rightarrow> pinned_by ext wl lib w keys wallet_id stated resp op
      | TrustedMode \<Rightarrow> (\<exists>message recipient. is_trusted_recipient recipient \<and>
          message_signed lib (keys (wallet_seed wl wallet_id ''near'')) resp message recipient)
      | PolicyUpdateMode \<Rightarrow> False)"

lemma answered_message:
  assumes "answer_message wl lib customer wallet_id h message nonce b64 recipient k = (Inr resp, k1)" "faithful own vm lib k"
  shows "message_signed lib (wallet_keys lib wl own vm customer wallet_id) resp message recipient \<and> wr_request_hash resp = h"
proof -
  obtain r0 k0 where d: "derive_keypair lib customer (wallet_seed wl wallet_id ''near'') k = (r0, k0)" by (metis surj_pair)
  with assms obtain sk pk where r0: "r0 = Inr (sk, pk)"
    by (cases r0) (auto simp: answer_message_def sign_nep413_def split: prod.splits)
  with faithful_derive [OF d assms(2)] have kp: "wallet_keys lib wl own vm customer wallet_id = (sk, pk)" by simp
  from assms(1) d r0 obtain payload where p: "nep413_payload message nonce recipient = Some payload"
    by (auto simp: answer_message_def sign_nep413_def split: option.splits)
  have "message_signed lib (sk, pk) resp message recipient"
    unfolding message_signed_def using assms(1) d r0 p
    by (intro exI [of _ nonce] exI [of _ payload]) (auto simp: answer_message_def sign_nep413_def new_response_def)
  moreover have "wr_request_hash resp = h"
    using assms(1) d r0 p by (auto simp: answer_message_def sign_nep413_def new_response_def)
  ultimately show ?thesis by (simp only: kp)
qed

lemma answered_intent:
  assumes "answer_intent wl lib w ww rnd customer wallet_id h message_of k = (Inr resp, k1)"
    and f: "faithful own vm lib k" "world_faithful own vm lib w"
  shows "\<exists>deadline. message_signed lib (wallet_keys lib wl own vm customer wallet_id) resp
    (message_of (ml_hex lib (snd (wallet_keys lib wl own vm customer wallet_id))) deadline) ''intents.near'' \<and> wr_request_hash resp = h"
proof -
  from assms(1) obtain a k2 where a: "wallet_implicit_account wl lib customer wallet_id k = (Inr a, k2)"
    and m: "answer_message wl lib customer wallet_id h (message_of a (unix_to_iso8601 (ww_now ww + 300))) (sg_nonce rnd)
      (dw_base64_encode w (sg_nonce rnd)) ''intents.near'' (dw_meanwhile w 14 k2) = (Inr resp, k1)"
    by (auto simp: answer_intent_def split: prod.splits sum.splits)
  note acc = wallet_account_of [OF a f(1)]
  then have "faithful own vm lib (dw_meanwhile w 14 k2)" using f(2) by (auto intro: faithful_meanwhile)
  from answered_message [OF m this] acc show ?thesis by auto
qed

lemma answered_tx:
  assumes "sign_near_transaction ext wl lib w ww customer wallet_id h make_tx k = (Inr resp, k1)" "faithful own vm lib k"
  shows "\<exists>receiver actions. make_tx (ml_hex lib (snd (wallet_keys lib wl own vm customer wallet_id))) = Inr (receiver, actions) \<and>
    tx_signed wl lib w (wallet_keys lib wl own vm customer wallet_id) resp receiver actions \<and> wr_request_hash resp = h"
proof -
  obtain r0 k0 where d: "derive_keypair lib customer (wallet_seed wl wallet_id ''near'') k = (r0, k0)" by (metis surj_pair)
  with assms obtain sk pk where r0: "r0 = Inr (sk, pk)"
    by (cases r0) (auto simp: sign_near_transaction_def split: prod.splits if_splits)
  with faithful_derive [OF d assms(2)] have kp: "wallet_keys lib wl own vm customer wallet_id = (sk, pk)" by simp
  let ?pk = "''ed25519:'' @ ml_base58 lib pk"
  from assms(1) d r0 obtain receiver actions n bh where t: "make_tx (ml_hex lib pk) = Inr (receiver, actions)"
    "ww_access_key ww (ml_hex lib pk) ?pk = Inr (n, bh)"
    by (auto simp: sign_near_transaction_def Let_def split: if_splits sum.splits)
  let ?tx = "\<lparr>tx_signer_id = ml_hex lib pk, tx_public_key = ?pk, tx_nonce = n + 1, tx_receiver_id = receiver, tx_block_hash = bh,
    tx_actions = actions\<rparr>"
  have "resp = (new_response h)\<lparr>wr_signed_tx_base64 := Some (dw_base64_encode w (wl_tx_bytes wl ?tx (ml_ed_sign lib sk (wl_tx_hash wl ?tx)))),
      wr_tx_hash := Some (ml_base58 lib (wl_tx_hash wl ?tx)), wr_signer_id := Some (ml_hex lib pk), wr_public_key := Some ?pk,
      wr_nonce := Some (n + 1)\<rparr>"
    using assms(1) d r0 t by (auto simp: sign_near_transaction_def Let_def split: if_splits)
  then have "tx_signed wl lib w (sk, pk) resp receiver actions \<and> wr_request_hash resp = h"
    unfolding tx_signed_def by (intro conjI exI [of _ ?tx]) (simp_all add: new_response_def)
  then show ?thesis unfolding kp using t(1) by auto
qed

lemma answered_auth:
  assumes "answer_auth wl lib ww customer wallet_id h purpose seed vault_id k = (Inr resp, k1)" "faithful own vm lib k" "purpose \<noteq> ''jwt''"
  shows "built_from ext wl lib w (wallet_keys lib wl own vm customer wallet_id) resp (AuthOp purpose seed vault_id) \<and> wr_request_hash resp = h"
proof -
  obtain r0 k0 where d: "derive_keypair lib customer (wallet_seed wl wallet_id ''near'') k = (r0, k0)" by (metis surj_pair)
  with assms obtain sk pk where r0: "r0 = Inr (sk, pk)"
    by (cases r0) (auto simp: answer_auth_def split: prod.splits option.splits)
  with faithful_derive [OF d assms(2)] have kp: "wallet_keys lib wl own vm customer wallet_id = (sk, pk)" by simp
  show ?thesis
    unfolding kp using assms(1,3) d r0 by (auto simp: answer_auth_def new_response_def split: option.splits)
qed

lemma answered_challenge:
  assumes "answer_challenge wl lib w ww rnd customer wallet_id h vault_id k = (Inr resp, k1)"
    and f: "faithful own vm lib k" "world_faithful own vm lib w"
  shows "\<exists>deadline. message_signed lib (wallet_keys lib wl own vm customer wallet_id) resp
    (wl_jwt_message wl deadline (ml_hex lib (snd (wallet_keys lib wl own vm customer wallet_id)))) ''intents.near'' \<and> wr_request_hash resp = h"
proof -
  from assms(1) obtain a k2 deadline nonce where a: "wallet_implicit_account wl lib customer wallet_id k = (Inr a, k2)"
    and m: "answer_message wl lib customer wallet_id h (wl_jwt_message wl deadline a) nonce (dw_base64_encode w nonce) ''intents.near''
      (dw_meanwhile w 14 k2) = (Inr resp, k1)"
    by (auto simp: answer_challenge_def Let_def split: prod.splits sum.splits if_splits option.splits)
  note acc = wallet_account_of [OF a f(1)]
  then have "faithful own vm lib (dw_meanwhile w 14 k2)" using f(2) by (auto intro: faithful_meanwhile)
  from answered_message [OF m this] acc show ?thesis by auto
qed

lemma built_fits:
  assumes run: "sign_built ext wl lib w ww rnd customer wallet_id h op k = (Inr resp, k1)"
    and f: "faithful own vm lib k" "world_faithful own vm lib w"
  shows "built_from ext wl lib w (wallet_keys lib wl own vm customer wallet_id) resp op \<and> wr_request_hash resp = h"
proof (cases op)
  case (TransferOp to amount)
  with run obtain n where n: "parse_u128 amount = Some n"
    and t: "sign_near_transaction ext wl lib w ww customer wallet_id h (to_account ext to [TransferAction n]) k = (Inr resp, k1)"
    by (auto split: option.splits)
  from answered_tx [OF t f(1)] n TransferOp show ?thesis by (auto simp: to_account_def split: if_splits)
next
  case (CallOp to called args_base64 gas deposit)
  with run obtain args g d where a: "dw_base64_decode w args_base64 = Some args" "parse_u64 gas = Some g" "parse_u128 deposit = Some d"
    "\<not> (wl_is_intents_contract wl to \<and> called \<in> set (wl_gate_only_methods wl))"
    and t: "sign_near_transaction ext wl lib w ww customer wallet_id h (to_account ext to [FunctionCallAction called args g d]) k = (Inr resp, k1)"
    by (auto split: option.splits if_splits)
  from answered_tx [OF t f(1)] a CallOp show ?thesis by (auto simp: to_account_def split: if_splits)
next
  case (DeleteOp beneficiary)
  with run answered_tx [OF _ f(1)] show ?thesis by (fastforce split: if_splits)
next
  case (WithdrawOp to amount token extra)
  with run answered_intent [OF _ f] show ?thesis by fastforce
next
  case (IntentsTransferOp to amount token extra)
  with run answered_intent [OF _ f] show ?thesis by fastforce
next
  case (StorageDepositOp contract_id account_id amount)
  with run have "answer_intent wl lib w ww rnd customer wallet_id h
      (\<lambda>me. build_storage_deposit_intent_message wl me contract_id account_id amount) k = (Inr resp, k1)"
    by (auto split: if_splits sum.splits option.splits)
  from answered_intent [OF this f] StorageDepositOp show ?thesis by auto
next
  case (AuthOp purpose seed vault_id)
  show ?thesis
  proof (cases "purpose = ''jwt''")
    case True
    with AuthOp run have "answer_challenge wl lib w ww rnd customer wallet_id h vault_id k = (Inr resp, k1)" by simp
    from answered_challenge [OF this f] True AuthOp show ?thesis by auto
  next
    case False
    with AuthOp run have "answer_auth wl lib ww customer wallet_id h purpose seed vault_id k = (Inr resp, k1)" by simp
    from answered_auth [OF this f(1) False] show ?thesis by (simp add: AuthOp)
  qed
qed (use run in simp_all)

lemma pinned_fits:
  assumes run: "sign_hash_pinned ext wl lib w customer wallet_id h stated artifact op k = (Inr resp, k1)" and f: "faithful own vm lib k"
  shows "pinned_by ext wl lib w (keypair_of lib (master_named own vm customer)) wallet_id stated resp op \<and> wr_request_hash resp = h"
proof (cases op)
  case (RawOp chain payload_hash extra)
  let ?chain = "to_lowercase ext chain"
  from RawOp run obtain bytes sig where b: "eq_ignore_ascii_case (ml_hex lib (ml_sha256 lib bytes)) payload_hash"
    "?chain = ''near'' \<or> wl_is_solana_chain wl ?chain"
    and s: "sign_with_seed lib customer (wallet_seed wl wallet_id ?chain) bytes k = (Inr sig, k1)"
    and r: "resp = (new_response h)\<lparr>wr_signature_base64 := Some (dw_base64_encode w sig)\<rparr>"
    by (auto simp: sign_raw_def Let_def split: option.splits if_splits prod.splits sum.splits)
  from seed_signature_of [OF s f] b r RawOp show ?thesis by (auto simp: new_response_def)
next
  case (SignMessageOp message_hash recipient extra)
  with run obtain message nonce b64 where m: "\<not> is_trusted_recipient recipient" "sign_message_recipient_allowed wl stated recipient"
    "eq_ignore_ascii_case (ml_hex lib (ml_sha256 lib message)) message_hash"
    and a: "answer_message wl lib customer wallet_id h message nonce b64 recipient k = (Inr resp, k1)"
    by (auto simp: sign_message_op_def split: option.splits if_splits)
  from answered_message [OF a f] m SignMessageOp show ?thesis by auto
qed (use run in simp_all)

lemma trusted_fits:
  assumes run: "sign_trusted wl lib w customer wallet_id h artifact k = (Inr resp, k1)" and f: "faithful own vm lib k"
  shows "(\<exists>message recipient. is_trusted_recipient recipient \<and>
    message_signed lib (wallet_keys lib wl own vm customer wallet_id) resp message recipient) \<and> wr_request_hash resp = h"
proof -
  from run obtain message nonce b64 recipient where "is_trusted_recipient recipient"
    and a: "answer_message wl lib customer wallet_id h message nonce b64 recipient k = (Inr resp, k1)"
    by (auto simp: sign_trusted_def split: option.splits if_splits)
  with answered_message [OF a f] show ?thesis by blast
qed

lemma mode_fits:
  assumes run: "sign_by_mode ext wl lib w ww rnd customer req stated k = (Inr resp, k1)"
    and f: "faithful own vm lib k" "world_faithful own vm lib w"
  shows "artifact_fits ext wl lib w (keypair_of lib (master_named own vm customer)) (wq_wallet_id req) stated resp (wq_op req) \<and>
    wr_request_hash resp = wl_request_hash wl (wq_op req)"
proof (cases "wl_bind_mode wl (wq_op req)")
  case BuiltMode
  with run have "sign_built ext wl lib w ww rnd customer (wq_wallet_id req) (wl_request_hash wl (wq_op req)) (wq_op req) k = (Inr resp, k1)"
    by (simp add: sign_by_mode_def Let_def)
  from built_fits [OF this f] BuiltMode show ?thesis by (simp add: artifact_fits_def)
next
  case HashPinnedMode
  with run have "sign_hash_pinned ext wl lib w customer (wq_wallet_id req) (wl_request_hash wl (wq_op req)) stated (wq_artifact req)
      (wq_op req) k = (Inr resp, k1)"
    by (simp add: sign_by_mode_def Let_def)
  from pinned_fits [OF this f(1)] HashPinnedMode show ?thesis by (simp add: artifact_fits_def)
next
  case TrustedMode
  with run have "sign_trusted wl lib w customer (wq_wallet_id req) (wl_request_hash wl (wq_op req)) (wq_artifact req) k = (Inr resp, k1)"
    by (simp add: sign_by_mode_def Let_def)
  from trusted_fits [OF this f(1)] TrustedMode show ?thesis by (simp add: artifact_fits_def)
qed (use run in \<open>simp add: sign_by_mode_def Let_def\<close>)

lemma faithful_policy:
  assumes "load_wallet_policy wl lib w ww wallet_id customer k = (r, k1)" and f: "faithful own vm lib k" "world_faithful own vm lib w"
  shows "faithful own vm lib k1"
proof -
  have d: "faithful own vm lib k3" if "decrypt_policy wl lib w customer wallet_id False view k2 = (r2, k3)" "faithful own vm lib k2" for view k2 k3 r2
    using that faithful_decrypt by (fastforce simp: decrypt_policy_def split: option.splits prod.splits sum.splits)
  obtain r0 k0 where p: "derive_wallet_ed25519_pubkey wl lib customer wallet_id k = (r0, k0)" by (metis surj_pair)
  have k0: "faithful own vm lib k0" using wallet_pubkey_of [OF p f(1)] by simp
  then have "faithful own vm lib (dw_meanwhile w 11 k0)" by (rule faithful_meanwhile [OF f(2)])
  with assms(1) p k0 f(1) d show ?thesis
    by (auto simp: load_wallet_policy_def split: if_splits sum.splits option.splits bool.splits prod.splits)
qed

lemma judged_op:
  assumes "judge_op ext lib w nc wl ww customer req stated k = (None, k1)" "faithful own vm lib k"
  shows "faithful own vm lib k1 \<and>
    (let d = wl_evaluate wl (policy_to_judge_by wl stated) (wq_op req) (wq_usage req) (ww_now ww) in
     d = Allow \<or> (\<exists>t. d = RequiresApproval t \<and>
       quorum ext lib w nc wl ww (policy_to_judge_by wl stated)
         (''ed25519:'' @ ml_hex lib (snd (wallet_keys lib wl own vm customer (wq_wallet_id req))))
         (wl_request_hash wl (wq_op req)) (wq_approval_info req) (max t 1)))"
proof (cases "wl_evaluate wl (policy_to_judge_by wl stated) (wq_op req) (wq_usage req) (ww_now ww)")
  case (RequiresApproval t)
  obtain r0 k0 where p: "derive_wallet_ed25519_pubkey wl lib customer (wq_wallet_id req) k = (r0, k0)" by (metis surj_pair)
  note key = wallet_pubkey_of [OF p assms(2)]
  from assms(1) p RequiresApproval obtain pubkey where "r0 = Inr pubkey" "k1 = k0"
    "verify_approvals ext lib w nc wl ww (policy_to_judge_by wl stated) pubkey (wl_request_hash wl (wq_op req)) (wq_approval_info req) (max t 1) = None"
    by (auto simp: judge_op_def Let_def split: sum.splits)
  with key approvals_verified [OF this(3)] RequiresApproval show ?thesis by (simp add: Let_def)
qed (use assms in \<open>simp_all add: judge_op_def Let_def\<close>)



section \<open>Witnesses\<close>

text \<open>A wallet with one approver, whose policy asks for as many approvals as its number; keys of full
  length and hexadecimal as the host of the contract has it.\<close>

definition filing_libs :: master_libs where
  "filing_libs = demo_libs\<lparr>ml_ed_public := (\<lambda>_. replicate 32 CHR ''k''), ml_ed_sign := (\<lambda>_ _. replicate 64 CHR ''s''),
     ml_hex := plain_hex_encode, ml_unhex := plain_hex_decode\<rparr>"

fun demo_mode :: "wallet_op \<Rightarrow> bind_mode" where
  "demo_mode (RawOp _ _ _) = HashPinnedMode"
| "demo_mode (SignMessageOp _ _ _) = HashPinnedMode"
| "demo_mode (PolicyUpdateOp _ _ _ _ _) = PolicyUpdateMode"
| "demo_mode (OtherOp _) = TrustedMode"
| "demo_mode _ = BuiltMode"

definition demo_wallet_libs :: "nat wallet_libs" where
  "demo_wallet_libs =
     \<lparr>wl_is_evm_chain = (\<lambda>c. c = ''eth''), wl_is_solana_chain = (\<lambda>c. c = ''sol''), wl_is_valid_sub_path = (\<lambda>_. True),
      wl_value_of_text = (\<lambda>_. Some JNull), wl_policy_of_value = (\<lambda>_. Some 1), wl_policy_of_text = (\<lambda>_. Some 1),
      wl_frozen_also = (\<lambda>_ p. p), wl_default_policy = 0, wl_with_capabilities = (\<lambda>_ _. 2), wl_approvers = (\<lambda>_. [''a'']),
      wl_threshold = Some, wl_locked = (\<lambda>_. True), wl_allowed_recipients = (\<lambda>_. None),
      wl_admits_key = (\<lambda>_ a _. a = ''a''), wl_admits_contract_vote = (\<lambda>_ _. False), wl_lock_is_satisfiable = (\<lambda>_. True),
      wl_canonical_hash = (\<lambda>_. ''h''),
      wl_vote_message = (\<lambda>verb i key h. (case verb of Approve \<Rightarrow> ''approve'' | Reject \<Rightarrow> ''reject'') @ i @ h),
      wl_max_authorization = 0, wl_request_hash = (\<lambda>_. ''h''), wl_evaluate = (\<lambda>p _ _ _. RequiresApproval p),
      wl_bind_mode = demo_mode, wl_version_gate = (\<lambda>_ _ _. True), wl_is_intents_contract = (\<lambda>_. False),
      wl_gate_only_methods = [], wl_storage_amount = (\<lambda>_. None), wl_jwt_nonce = (\<lambda>_ _ _ _. []), wl_jwt_message = (\<lambda>_ s. s),
      wl_auth_message = (\<lambda>_ _ _ _. None), wl_condition_bounds = (\<lambda>_. True), wl_access_json = (\<lambda>_. ''access''),
      wl_json_text = (\<lambda>_. []), wl_tx_hash = tx_signer_id, wl_tx_bytes = (\<lambda>_ sig. sig)\<rparr>"

definition filed_world :: "string \<Rightarrow> bool \<Rightarrow> wallet_world" where
  "filed_world blob locked =
     \<lparr>ww_policy = (\<lambda>_. Inr (Some (JObj [(''encrypted_data'', JStr blob), (''locked'', JScalar (if locked then ''true'' else ''false''))]))),
      ww_signer_key = (\<lambda>_ _. Some FullAccessKey), ww_resolve_vote = (\<lambda>_ _ _. Inr False), ww_contract_id = ''o'',
      ww_access_key = (\<lambda>_ _. Inr (7, ''b'')), ww_view = (\<lambda>_ _ _. Inl []), ww_now = 0, ww_now_ms = 0\<rparr>"

definition demo_votes :: approval_info where
  "demo_votes = \<lparr>ai_approval_id = ''1'', ai_recipient = ''o'',
     ai_approvals = [\<lparr>av_approver_id = ''a'', av_public_key = ''k'', av_signature = ''s'', av_nonce = replicate 32 CHR ''n''\<rparr>],
     ai_rejections = [], ai_contract_approvals = [], ai_contract_rejections = []\<rparr>"

definition demo_transfer :: wallet_sign_request where
  "demo_transfer = \<lparr>wq_wallet_id = ''w'', wq_op = TransferOp ''b'' ''5'', wq_approval_info = Some demo_votes, wq_artifact = None,
     wq_usage = None, wq_binding_kind = None, wq_decoder_version = None\<rparr>"

abbreviation demo_blob :: string where "demo_blob \<equiv> replicate 40 CHR ''z''"

lemma demo_faithful: "faithful ''D'' (vm :: account \<Rightarrow> string) lib own_keystore" "world_faithful ''D'' vm lib demo_world"
  by (simp_all add: faithful_def world_faithful_def genuine_def from_master_secret_def demo_world_def)

lemma demo_quorum:
  assumes "ww_contract_id ww = ''o''" "ww_signer_key ww = (\<lambda>_ _. Some FullAccessKey)"
  shows "verify_approvals reference_externals filing_libs demo_world demo_crypto demo_wallet_libs ww 1 key ''h'' (Some demo_votes) 1 = None"
  using assms
  by (simp add: verify_approvals_def demo_votes_def demo_wallet_libs_def demo_world_def signed_vote_counts_def
      verify_near_signature_def demo_crypto_def nep413_digest_def bytes_of_length_def nep413_payload_def verify_access_key_owner_def
      reference_externals_def starts_with_def strip_prefix_def MAX_APPROVAL_VOTES_def filing_libs_def demo_libs_def Let_def)

lemma parse_five: "parse_u128 ''5'' = Some 5"
  by (simp add: parse_uint_def digit_val_def upt_rec)

lemma demo_reads [simp]:
  "wl_evaluate demo_wallet_libs p op usage now = RequiresApproval p" "wl_request_hash demo_wallet_libs op = ''h''"
  "wl_bind_mode demo_wallet_libs = demo_mode" "refused_by_version demo_wallet_libs op kind decoder = False"
  "wq_op demo_transfer = TransferOp ''b'' ''5''" "wq_wallet_id demo_transfer = ''w''" "wq_approval_info demo_transfer = Some demo_votes"
  "is_policy_update (TransferOp ''b'' ''5'') = False" "validate_wallet_id ''w'' = None"
  by (simp_all add: demo_wallet_libs_def demo_transfer_def validate_wallet_id_def)
    (cases op; simp add: demo_wallet_libs_def)

lemma demo_entered: "enter_wallet reference_externals filing_libs demo_world True (Some ''w'') None own_keystore = (Inr None, own_keystore)"
  by (simp add: enter_wallet_def extract_customer_from_header_def app_ensure_customer_loaded_def demo_world_def)

lemma own_derives: "\<exists>kp k1. derive_keypair lib None seed k = (Inr kp, k1)"
  by (auto simp: derive_keypair_def derive_and_cache_def master_for_def Let_def split: option.splits)

lemma demo_opens: "\<exists>plain k1. decrypt_secret filing_libs None seed demo_blob k = (Inr plain, k1)"
proof -
  obtain kp k1 where "derive_keypair filing_libs None seed k = (Inr kp, k1)" using own_derives by blast
  then show ?thesis
    by (simp add: decrypt_secret_def decrypt_legacy_def aead_result_def MAX_ENCRYPTED_SIZE_def ECIES_VERSION_def)
      (simp add: filing_libs_def demo_libs_def)
qed

lemma demo_answer:
  "\<exists>resp k1. wallet_sign_handler reference_externals filing_libs demo_world demo_crypto demo_wallet_libs (filed_world demo_blob False)
     \<lparr>sg_nonce = replicate 32 CHR ''n'', sg_salt = []\<rparr> True None demo_transfer own_keystore = (Inr resp, k1)"
proof -
  have vote: "verify_approvals reference_externals filing_libs demo_world demo_crypto demo_wallet_libs (filed_world demo_blob False) 1 key ''h''
      (Some demo_votes) (Suc 0) = None" for key
    using demo_quorum [of "filed_world demo_blob False"] by (simp add: filed_world_def)
  obtain kp0 k0 where d0: "derive_keypair filing_libs None (wallet_seed demo_wallet_libs ''w'' ''near'') own_keystore = (Inr kp0, k0)"
    using own_derives by blast
  obtain plain k1 where "decrypt_secret filing_libs None (policy_seed ''w'') demo_blob k0 = (Inr plain, k1)" using demo_opens by blast
  then have load: "load_wallet_policy demo_wallet_libs filing_libs demo_world (filed_world demo_blob False) ''w'' None own_keystore = (Inr (Some 1), k1)"
    using d0 by (simp add: load_wallet_policy_def derive_wallet_ed25519_pubkey_def get_public_key_for_seed_def decrypt_policy_def field_or_def
        filed_world_def demo_quiet) (simp add: demo_world_def demo_wallet_libs_def)
  obtain kp k2 where d: "derive_keypair filing_libs None (wallet_seed demo_wallet_libs ''w'' ''near'') k1 = (Inr kp, k2)" using own_derives by blast
  have judged: "judge_op reference_externals filing_libs demo_world demo_crypto demo_wallet_libs (filed_world demo_blob False) None demo_transfer
      (Some 1) k1 = (None, k2)"
    using vote d by (simp add: judge_op_def policy_to_judge_by_def derive_wallet_ed25519_pubkey_def get_public_key_for_seed_def)
  obtain sk pk k3 where "derive_keypair filing_libs None (wallet_seed demo_wallet_libs ''w'' ''near'') k2 = (Inr (sk, pk), k3)"
    using own_derives by (metis surj_pair)
  then have "\<exists>resp k4. sign_by_mode reference_externals demo_wallet_libs filing_libs demo_world (filed_world demo_blob False)
      \<lparr>sg_nonce = replicate 32 CHR ''n'', sg_salt = []\<rparr> None demo_transfer (Some 1) k2 = (Inr resp, k4)"
    by (simp add: sign_by_mode_def Let_def parse_five sign_near_transaction_def to_account_def valid_plain)
      (simp add: demo_world_def filed_world_def Let_def)
  then show ?thesis
    using demo_entered load judged by (simp add: wallet_sign_handler_def demo_quiet)
qed

end
