(* ===== verification/Wallet_Filing.thy ===== *)
theory Wallet_Filing
  imports Keystore_Wallets
begin

text \<open>
  What the keystore signs for a wallet to file on the contract, against the contract's own checks: a
  policy signed by \<open>/wallet/sign-policy\<close> is one \<open>store_wallet_policy\<close> takes, a locked policy is replaced by
  its approvers only, and a secret signed by \<open>/wallet/sign-secret-store\<close> passes the checks of
  \<open>store_secrets_for\<close> under the account whose seed opens it.
\<close>

section \<open>What a signed policy went through\<close>

lemma sign_policy_answered:
  assumes ans: "wallet_sign_policy_handler ext lib w nc wl ww ready header req k = (Inr resp, k5)"
    and f: "faithful own vm lib k" "world_faithful own vm lib w" and customer: "extract_customer_from_header ext header = Inr customer"
    and kp: "kp = wallet_keys lib wl own vm customer (sp_wallet_id req)" and pub: "pub = ''ed25519:'' @ ml_hex lib (snd kp)"
  obtains plain policy current meta k3 k4 where "ready" "sp_encrypted_data req \<noteq> []" "faithful own vm lib k3"
    "load_wallet_policy_for_update wl lib w ww (sp_wallet_id req) pub customer k3 = (Inr (current, meta), k4)"
    "lift_lock ext lib w nc wl ww req pub current meta (wl_canonical_hash wl plain) (wl_locked wl policy) = Inr (pr_request_hash resp)"
    "pr_signature_hex resp = ml_hex lib (ml_ed_sign lib (fst kp) (ml_sha256 lib
       (keystore_policy_message pub (km_version meta + 1) (wl_locked wl policy) (ww_now ww + POLICY_SIGNATURE_TTL_SECS)
         (sp_encrypted_data req) (trim_str (sp_caller req)))))"
    "pr_public_key_hex resp = ml_hex lib (snd kp)" "pr_version resp = km_version meta + 1" "pr_locked resp = wl_locked wl policy"
    "pr_valid_until resp = ww_now ww + POLICY_SIGNATURE_TTL_SECS" "pr_policy_hash resp = wl_canonical_hash wl plain"
proof -
  from ans obtain customer1 k1 plain policy k2 key k3 current meta k4 hash sig where
    e: "enter_wallet ext lib w ready (Some (sp_wallet_id req)) header k = (Inr customer1, k1)" and
    n: "read_new_policy wl lib w customer1 req k1 = (Inr (plain, policy), k2)" and
    p: "derive_wallet_ed25519_pubkey wl lib customer1 (sp_wallet_id req) k2 = (Inr key, k3)" and
    l: "load_wallet_policy_for_update wl lib w ww (sp_wallet_id req) key customer1 (dw_meanwhile w 12 k3) = (Inr (current, meta), k4)" and
    q: "lift_lock ext lib w nc wl ww req key current meta (wl_canonical_hash wl plain) (wl_locked wl policy) = Inr hash" and
    s: "sign_with_seed lib customer1 (wallet_seed wl (sp_wallet_id req) ''near'')
      (ml_sha256 lib (keystore_policy_message key (km_version meta + 1) (wl_locked wl policy) (ww_now ww + POLICY_SIGNATURE_TTL_SECS)
         (sp_encrypted_data req) (trim_str (sp_caller req)))) (dw_meanwhile w 13 k4) = (Inr sig, k5)" and
    r: "resp = \<lparr>pr_signature_hex = ml_hex lib sig, pr_public_key_hex = drop 8 key, pr_version = km_version meta + 1,
      pr_locked = wl_locked wl policy, pr_valid_until = ww_now ww + POLICY_SIGNATURE_TTL_SECS,
      pr_policy_hash = wl_canonical_hash wl plain, pr_request_hash = hash\<rparr>"
    unfolding wallet_sign_policy_handler_def Let_def by (auto split: prod.splits sum.splits)
  have f1: "faithful own vm lib k1" "ready" and c: "customer1 = customer"
    using faithful_enter [OF e f] customer by auto
  have f2: "faithful own vm lib k2" using n f1(1) faithful_decrypt
    by (fastforce simp: read_new_policy_def split: if_splits option.splits prod.splits sum.splits)
  have f3: "faithful own vm lib k3" and key: "key = pub"
    using wallet_pubkey_of [OF p f2] by (auto simp: pub kp c)
  have f4: "faithful own vm lib (dw_meanwhile w 12 k3)" using f(2) f3 by (rule faithful_meanwhile)
  then have "faithful own vm lib k4" using l faithful_decrypt
    by (fastforce simp: load_wallet_policy_for_update_def decrypt_policy_def split: if_splits option.splits prod.splits sum.splits)
  then have sig: "sig = ml_ed_sign lib (fst kp) (ml_sha256 lib
      (keystore_policy_message pub (km_version meta + 1) (wl_locked wl policy) (ww_now ww + POLICY_SIGNATURE_TTL_SECS)
         (sp_encrypted_data req) (trim_str (sp_caller req))))"
    using seed_signature_of [OF s] faithful_meanwhile [OF f(2)] unfolding key c kp by blast
  have data: "sp_encrypted_data req \<noteq> []" using n by (auto simp: read_new_policy_def split: if_splits)
  have pk: "drop 8 key = ml_hex lib (snd kp)" by (simp add: key pub)
  have "pr_request_hash resp = hash" by (simp add: r)
  then show thesis
    by (intro that [OF f1(2) data f4 l [unfolded key c], of plain policy]) (use q [unfolded key] r [unfolded sig pk] in simp_all)
qed

lemma lock_lifted:
  assumes "lift_lock ext lib w nc wl ww req key current meta policy_hash locked_new = Inr hash" "km_locked meta"
  obtains policy required where "current = Some policy" "wl_threshold wl policy = Some required"
    "quorum ext lib w nc wl ww policy key
       (wl_request_hash wl (PolicyUpdateOp key policy_hash (km_version meta + 1) locked_new (trim_str (sp_caller req))))
       (sp_approval_info req) (max required 1)"
proof -
  from assms obtain policy required where c: "current = Some policy" "wl_threshold wl policy = Some required"
    "verify_approvals ext lib w nc wl ww policy key
       (wl_request_hash wl (PolicyUpdateOp key policy_hash (km_version meta + 1) locked_new (trim_str (sp_caller req))))
       (sp_approval_info req) (max required 1) = None"
    by (auto simp: lift_lock_def Let_def split: option.splits)
  from that [OF c(1,2) approvals_verified [OF c(3)]] show thesis .
qed

section \<open>The contract's side\<close>

text \<open>Where the keystore's libraries are those of the contract's host: SHA-256, hex and Ed25519, whose
  signatures verify under the public key of their secret.\<close>

definition same_primitives :: "externals \<Rightarrow> master_libs \<Rightarrow> bool" where
  "same_primitives ext lib \<longleftrightarrow> hex_ok ext \<and> sha256 ext = ml_sha256 lib \<and> hex_encode ext = ml_hex lib \<and>
     (\<forall>b. length (ml_hex lib b) = 2 * length b) \<and>
     (\<forall>sk m. externals.ed25519_verify ext (ml_ed_sign lib sk m) m (ml_ed_public lib sk) \<and> length (ml_ed_sign lib sk m) = 64 \<and>
        length (ml_ed_public lib sk) = 32)"

lemma primitives_hex:
  assumes "same_primitives ext lib"
  shows "hex_decode ext (ml_hex lib b) = Some b" "hex_encode ext b = ml_hex lib b"
proof -
  have "hex_decode ext (hex_encode ext b) = Some b" "hex_encode ext = ml_hex lib"
    using assms unfolding same_primitives_def hex_ok_def by blast+
  then show "hex_decode ext (ml_hex lib b) = Some b" "hex_encode ext b = ml_hex lib b" by simp_all
qed

lemma primitives_ed25519:
  assumes "same_primitives ext lib"
  shows "externals.ed25519_verify ext (ml_ed_sign lib sk m) m (ml_ed_public lib sk)" "length (ml_ed_sign lib sk m) = 64"
    "length (ml_ed_public lib sk) = 32" "sha256 ext = ml_sha256 lib" "length (ml_hex lib b) = 2 * length b"
  using assms unfolding same_primitives_def by blast+

lemma keystore_key_parses:
  assumes "same_primitives ext lib" "length pk = 32"
  shows "parse_wallet_pubkey ext (''ed25519:'' @ ml_hex lib pk) = Inr (''ed25519'', pk)"
    "canonical_wallet_pubkey ext (''ed25519:'' @ ml_hex lib pk) = Inr (''ed25519:'' @ ml_hex lib pk)"
    "lookup_wallet_pubkey ext (''ed25519:'' @ ml_hex lib pk) = ''ed25519:'' @ ml_hex lib pk"
proof -
  note hex = primitives_hex [OF assms(1), of pk]
  show "parse_wallet_pubkey ext (''ed25519:'' @ ml_hex lib pk) = Inr (''ed25519'', pk)"
    using hex assms(2) by (simp add: parse_wallet_pubkey_def split_colon_def expect_def ensure_def)
  then show "canonical_wallet_pubkey ext (''ed25519:'' @ ml_hex lib pk) = Inr (''ed25519:'' @ ml_hex lib pk)"
    using hex by (simp add: canonical_wallet_pubkey_def bind_call_def)
  show "lookup_wallet_pubkey ext (''ed25519:'' @ ml_hex lib pk) = ''ed25519:'' @ ml_hex lib pk"
    using hex by (simp add: lookup_wallet_pubkey_def split_colon_def)
qed

lemma keystore_signature_verifies:
  assumes "same_primitives ext lib" "kp = keypair_of lib master seed"
  shows "verify_wallet_signature ext (''ed25519:'' @ ml_hex lib (snd kp)) (sha256 ext m)
    (ml_hex lib (ml_ed_sign lib (fst kp) (ml_sha256 lib m))) f = f"
proof -
  obtain sk where kp: "kp = (sk, ml_ed_public lib sk)" using assms(2) by (simp add: keypair_of_def Let_def)
  note ed = primitives_ed25519 [OF assms(1)]
  show ?thesis
    unfolding verify_wallet_signature_def kp snd_conv fst_conv keystore_key_parses(1) [OF assms(1) ed(3)]
    by (simp add: bind_call_def expect_def ensure_def primitives_hex(1) [OF assms(1)] ed)
qed

lemma keystore_message_is_the_contracts:
  "keystore_policy_message key version locked valid_until data caller = policy_store_message key version locked valid_until data caller"
  "keystore_store_message key (accessor_binding accessor) profile encrypted payer (case vault of None \<Rightarrow> [] | Some v \<Rightarrow> v) (access_to_json ext access) =
     Secrets.secret_store_message ext key accessor profile encrypted payer vault access"
  "keystore_delete_message key (accessor_binding accessor) profile payer = Secrets.secret_delete_message key accessor profile payer"
  by (simp_all add: keystore_policy_message_def policy_store_message_def keystore_store_message_def secret_store_message_def
      keystore_delete_message_def secret_delete_message_def Let_def show_nat.simps)

text \<open>The answer of the view \<open>get_wallet_policy\<close> as the node hands it on, as far as the keystore reads it.\<close>

definition policy_json :: "wallet_policy_view \<Rightarrow> node_value" where
  "policy_json v =
     JObj [(''owner'', JStr (wv_owner v)), (''encrypted_data'', JStr (wv_encrypted_data v)),
       (''frozen'', JScalar (if wv_frozen v then ''true'' else ''false'')), (''version'', JScalar (show_nat (wv_version v))),
       (''locked'', JScalar (if wv_locked v then ''true'' else ''false''))]"

lemma policy_json_reads:
  "wv_version v < 2 ^ 64 \<Longrightarrow> field_or json_u64 0 (member_of ''version'' (policy_json v)) = Some (wv_version v)"
  "field_or json_bool False (member_of ''locked'' (policy_json v)) = Some (wv_locked v)"
  "field_or json_bool False (member_of ''frozen'' (policy_json v)) = Some (wv_frozen v)"
  by (simp_all add: policy_json_def field_or_def json_u64_def json_bool_def parse_show_uint)

lemma meta_read:
  assumes l: "load_wallet_policy_for_update wl lib w ww wallet_id key customer k = (Inr (current, meta), k1)"
    and chain: "ww_policy ww key = Inr (map_option policy_json (get_wallet_policy ext key s))" and key: "lookup_wallet_pubkey ext key = key"
    and ok: "wallets_ok ext s" and small: "pm_version (meta_of s key) < 2 ^ 64"
  shows "km_version meta = pm_version (meta_of s key)" "km_locked meta = pm_locked (meta_of s key)"
proof -
  have "km_version meta = pm_version (meta_of s key) \<and> km_locked meta = pm_locked (meta_of s key)"
  proof (cases "wallet_policies s key")
    case None
    then have "policy_meta s key = None" using ok by (auto simp: wallets_ok_def)
    then have "meta_of s key = default_policy_meta" by (simp add: meta_of_def)
    moreover have "get_wallet_policy ext key s = None" using None by (simp add: get_wallet_policy_def key Let_def)
    ultimately show ?thesis
      using l chain by (auto simp: load_wallet_policy_for_update_def default_policy_meta_def split: if_splits)
  next
    case (Some entry)
    then obtain v where v: "get_wallet_policy ext key s = Some v" "wv_version v = pm_version (meta_of s key)"
      "wv_locked v = pm_locked (meta_of s key)" by (simp add: get_wallet_policy_def key Let_def)
    have "wv_version v < 2 ^ 64" using v(2) small by simp
    with l chain v show ?thesis
      by (auto simp: load_wallet_policy_for_update_def policy_json_reads split: if_splits option.splits prod.splits sum.splits)
  qed
  then show "km_version meta = pm_version (meta_of s key)" "km_locked meta = pm_locked (meta_of s key)" by simp_all
qed



lemma stated_on_chain:
  assumes l: "load_wallet_policy_for_update wl lib w ww wallet_id key customer k = (Inr (Some policy, meta), k1)"
    and chain: "ww_policy ww key = Inr (map_option policy_json (get_wallet_policy ext key s))"
  obtains view where "get_wallet_policy ext key s = Some view"
    "decrypt_policy wl lib w customer wallet_id (wv_frozen view) (policy_json view) k = (Inr policy, k1)"
proof -
  from l chain obtain view where v: "get_wallet_policy ext key s = Some view"
    by (cases "get_wallet_policy ext key s") (auto simp: load_wallet_policy_for_update_def split: if_splits)
  with l chain have "decrypt_policy wl lib w customer wallet_id (wv_frozen view) (policy_json view) k = (Inr policy, k1)"
    by (auto simp: load_wallet_policy_for_update_def policy_json_reads(2,3) split: if_splits option.splits prod.splits sum.splits)
  with v show thesis by (rule that)
qed

lemma wallet_key_looked_up:
  assumes "same_primitives ext lib" "kp = keypair_of lib master seed"
  shows "lookup_wallet_pubkey ext (''ed25519:'' @ ml_hex lib (snd kp)) = ''ed25519:'' @ ml_hex lib (snd kp)"
    "canonical_wallet_pubkey ext (''ed25519:'' @ ml_hex lib (snd kp)) = Inr (''ed25519:'' @ ml_hex lib (snd kp))"
    "parse_wallet_pubkey ext (''ed25519:'' @ ml_hex lib (snd kp)) = Inr (''ed25519'', snd kp)"
proof -
  have "length (snd kp) = 32" using assms by (simp add: keypair_of_def Let_def primitives_ed25519)
  note keys = keystore_key_parses [OF assms(1) this]
  show "lookup_wallet_pubkey ext (''ed25519:'' @ ml_hex lib (snd kp)) = ''ed25519:'' @ ml_hex lib (snd kp)"
    "canonical_wallet_pubkey ext (''ed25519:'' @ ml_hex lib (snd kp)) = Inr (''ed25519:'' @ ml_hex lib (snd kp))"
    "parse_wallet_pubkey ext (''ed25519:'' @ ml_hex lib (snd kp)) = Inr (''ed25519'', snd kp)"
    by (fact keys)+
qed

section \<open>Properties\<close>


lemma store_wallet_policy_passes:
  assumes "\<not> paused s" "canonical_wallet_pubkey ext (pa_wallet_pubkey a) = Inr key" "pa_wallet_pubkey a \<noteq> []"
    and "pa_encrypted_data a \<noteq> []" "length (pa_encrypted_data a) \<le> 100000" "pa_wallet_signature a \<noteq> []"
    and "pm_version (meta_of s key) + 1 < 2 ^ 64" "pa_version a = pm_version (meta_of s key) + 1"
    and "block_timestamp cx div 1000000000 \<le> pa_valid_until a" "pa_storage_refund_to a = None"
    and "signed_by ext key (sha256 ext (policy_store_message key (pa_version a) (pa_locked a) (pa_valid_until a) (pa_encrypted_data a)
           (predecessor cx))) (pa_wallet_signature a)"
    and owner: "\<And>e. wallet_policies s key = Some e \<Longrightarrow> wp_owner e = predecessor cx"
    and paid: "wp_storage_deposit (stored_entry cx a key s) \<le> attached_deposit cx + held_for s key"
      "attached_deposit cx + held_for s key < 2 ^ 128"
  shows "\<exists>t es. store_wallet_policy ext cx a s = Inr (t, es)"
proof (cases "wallet_policies s key")
  case None
  with assms show ?thesis
    by (simp add: store_wallet_policy_def eval_simps Let_def verify_wallet_signature_pass stored_entry_def store_beneficiary_def held_for_def
        weight_at_def)
next
  case (Some old)
  with assms show ?thesis
    by (simp add: store_wallet_policy_def eval_simps Let_def verify_wallet_signature_pass stored_entry_def store_beneficiary_def held_for_def
        weight_at_def)
qed


section \<open>A secret of the wallet\<close>

lemma hex_profile:
  assumes "list_all is_lower_hex p" "length p = 64"
  shows "profile_shape_error ext p = None"
proof -
  have hex: "visible_ascii c \<and> is_alphanumeric ext [c]" if "is_lower_hex c" for c
    using that by (auto simp: is_lower_hex_def visible_ascii_def is_alphanumeric_def is_ascii_def is_ascii_alphanumeric_def)
  then have "utf8_chars p = map (\<lambda>c. [c]) p" using assms(1) by (intro visible_chars) (auto simp: list_all_iff)
  with assms hex show ?thesis
    by (auto simp: profile_shape_error_def PROFILE_MAX_BYTES_def Let_def find_Some_iff list_all_iff split: option.splits dest!: nth_mem)
qed

fun contract_accessor :: "agent_secret_target \<Rightarrow> secret_accessor" where
  "contract_accessor (ProjectTarget project_id) = ProjectAcc project_id"
| "contract_accessor (WasmHashTarget hash) = WasmHashAcc hash"

lemma contract_accessor_of:
  "accessor_binding (contract_accessor t) = target_binding t"
  "secret_seed (contract_accessor t) agent profile branch = Inr (target_seed t agent)"
  "canonical_profile (contract_accessor t) profile = profile"
  "(\<exists>i. contract_accessor t = ProjectAcc i) \<or> (\<exists>h. contract_accessor t = WasmHashAcc h)"
  by (cases t; simp)+

lemma target_canonical:
  "target_from_fields ext project_id wasm_hash = Inr t \<Longrightarrow> lowercase_ok ext \<Longrightarrow> canonical_accessor ext (contract_accessor t) = contract_accessor t"
  by (auto simp: target_from_fields_def lowercase_ok_def split: option.splits)

lemma sign_secret_answered:
  assumes ans: "wallet_sign_secret_store_handler ext lib w wl ready header req k = (Inr resp, k5)"
    and f: "faithful own vm lib k" "world_faithful own vm lib w" and customer: "extract_customer_from_header ext header = Inr customer"
    and kp: "kp = wallet_keys lib wl own vm customer (ss_wallet_id req)" and agent: "agent = ml_hex lib (snd kp)"
  obtains target blob plain k2 k3 where "target_from_fields ext (ss_project_id req) (ss_wasm_hash req) = Inr target"
    "dw_base64_decode w (ss_encrypted req) = Some blob" "faithful own vm lib k2"
    "decrypt_secret lib customer (target_seed target agent) blob k2 = (Inr plain, k3)" "ss_encrypted req \<noteq> []"
    "sx_signature_hex resp = ml_hex lib (ml_ed_sign lib (fst kp) (ml_sha256 lib
       (keystore_store_message (''ed25519:'' @ agent) (target_binding target) agent (ss_encrypted req) (trim_str (ss_payer req))
          (case ss_vault_id req of None \<Rightarrow> [] | Some v \<Rightarrow> v) (wl_access_json wl (ss_access req)))))"
    "sx_wallet_pubkey resp = ''ed25519:'' @ agent" "sx_agent_account resp = agent"
proof -
  from ans obtain customer1 k1 target agent1 k2 blob plain k3 where
    e: "enter_wallet ext lib w ready (Some (ss_wallet_id req)) header k = (Inr customer1, k1)" and
    t: "target_from_fields ext (ss_project_id req) (ss_wasm_hash req) = Inr target" and
    a: "wallet_implicit_account wl lib customer1 (ss_wallet_id req) k1 = (Inr agent1, k2)" and
    b: "dw_base64_decode w (ss_encrypted req) = Some blob" "ss_encrypted req \<noteq> []" and
    d: "decrypt_secret lib customer1 (target_seed target agent1) blob k2 = (Inr plain, k3)" and
    s: "sign_for_agent wl lib customer1 (ss_wallet_id req) agent1
      (keystore_store_message (''ed25519:'' @ agent1) (target_binding target) agent1 (ss_encrypted req) (trim_str (ss_payer req))
         (case ss_vault_id req of None \<Rightarrow> [] | Some v \<Rightarrow> v) (wl_access_json wl (ss_access req))) k3 = (Inr resp, k5)"
    unfolding wallet_sign_secret_store_handler_def by (auto split: if_splits prod.splits sum.splits option.splits)
  have f1: "faithful own vm lib k1" and c: "customer1 = customer" using faithful_enter [OF e f] customer by auto
  have f2: "faithful own vm lib k2" and ag: "agent1 = agent" using wallet_account_of [OF a f1] by (auto simp: c agent kp)
  have f3: "faithful own vm lib k3" by (rule faithful_decrypt [OF d f2])
  show thesis
  proof (rule that [OF t b(1) f2 d [unfolded ag c] b(2)])
    show "sx_signature_hex resp = ml_hex lib (ml_ed_sign lib (fst kp) (ml_sha256 lib
       (keystore_store_message (''ed25519:'' @ agent) (target_binding target) agent (ss_encrypted req) (trim_str (ss_payer req))
          (case ss_vault_id req of None \<Rightarrow> [] | Some v \<Rightarrow> v) (wl_access_json wl (ss_access req)))))"
      using s seed_signature_of [OF _ f3] unfolding kp c ag by (auto simp: sign_for_agent_def split: prod.splits sum.splits)
    show "sx_wallet_pubkey resp = ''ed25519:'' @ agent" "sx_agent_account resp = agent"
      using s unfolding ag by (auto simp: sign_for_agent_def split: prod.splits sum.splits)
  qed
qed

text \<open>
  What \<open>/wallet/sign-secret-store\<close> signs, the contract files under the account that can open it. The
  call of \<open>store_secrets_for\<close> with the fields of the answer, made by the payer the request named, passes
  the checks of an agent's call (account, profile, accessor, message, signature) and does what filing the
  row does. The row's owner is the wallet's account, the seed under which the keystore opens that row
  later is the seed under which the blob opened when it was signed for, and the blob did open.
\<close>

theorem signed_secret_is_accepted:
  assumes ans: "wallet_sign_secret_store_handler ext lib w wl ready header req k = (Inr resp, k1)"
    and f: "faithful own vm lib k" "world_faithful own vm lib w" and prims: "same_primitives ext lib"
    and customer: "extract_customer_from_header ext header = Inr customer" and lower: "lowercase_ok ext"
    and accounts: "\<And>b. length b = 32 \<Longrightarrow> valid_account ext (ml_hex lib b)"
    and json: "wl_access_json wl (ss_access req) = access_to_json ext access" and payer: "predecessor cx = trim_str (ss_payer req)"
  shows "\<exists>target blob plain k2 k3. target_from_fields ext (ss_project_id req) (ss_wasm_hash req) = Inr target \<and>
    store_agent_secret ext cx
      \<lparr>ag_pubkey = sx_wallet_pubkey resp, ag_accessor = contract_accessor target, ag_profile = sx_agent_account resp,
       ag_encrypted = ss_encrypted req, ag_access = access, ag_vault_id = ss_vault_id req, ag_signature = sx_signature_hex resp\<rparr> s =
    store_secrets_internal ext cx (sx_agent_account resp) (predecessor cx) (contract_accessor target) (sx_agent_account resp)
      (ss_encrypted req) access (ss_vault_id req) s \<and>
    sx_agent_account resp = ml_hex lib (snd (wallet_keys lib wl own vm customer (ss_wallet_id req))) \<and>
    secret_seed (contract_accessor target) (sx_agent_account resp) (sx_agent_account resp) None =
      Inr (target_seed target (sx_agent_account resp)) \<and>
    dw_base64_decode w (ss_encrypted req) = Some blob \<and> faithful own vm lib k2 \<and>
    decrypt_secret lib customer (target_seed target (sx_agent_account resp)) blob k2 = (Inr plain, k3)"
proof -
  let ?kp = "wallet_keys lib wl own vm customer (ss_wallet_id req)"
  let ?agent = "ml_hex lib (snd ?kp)"
  from ans f customer refl refl obtain target blob plain k2 k3 where
    t: "target_from_fields ext (ss_project_id req) (ss_wasm_hash req) = Inr target" and
    b: "dw_base64_decode w (ss_encrypted req) = Some blob" "faithful own vm lib k2"
      "decrypt_secret lib customer (target_seed target ?agent) blob k2 = (Inr plain, k3)" and
    r: "sx_signature_hex resp = ml_hex lib (ml_ed_sign lib (fst ?kp) (ml_sha256 lib
       (keystore_store_message (''ed25519:'' @ ?agent) (target_binding target) ?agent (ss_encrypted req) (trim_str (ss_payer req))
          (case ss_vault_id req of None \<Rightarrow> [] | Some v \<Rightarrow> v) (wl_access_json wl (ss_access req)))))"
      "sx_wallet_pubkey resp = ''ed25519:'' @ ?agent" "sx_agent_account resp = ?agent"
    by (rule sign_secret_answered)
  have hex: "hex_ok ext" "hex_encode ext (snd ?kp) = ?agent" "length (snd ?kp) = 32"
    using prims primitives_hex(2) [OF prims] unfolding same_primitives_def by (simp_all add: keypair_of_def Let_def)
  have shape: "list_all is_lower_hex ?agent" "length ?agent = 64"
    using hex_okD(3) [OF hex(1), of "snd ?kp"] hex(2,3) primitives_ed25519(5) [OF prims] by simp_all
  have plain: "CHR '':'' \<notin> set ?agent" using hex_encode_colon_free [OF hex(1), of "snd ?kp"] hex(2) by simp
  define pub where "pub = ''ed25519:'' @ ?agent"
  have owner: "implicit_account_of ext pub = Inr ?agent"
    using wallet_key_looked_up(3) [OF prims refl, of "master_named own vm customer" "wallet_seed wl (ss_wallet_id req) ''near''"] hex(2,3) accounts
    by (simp add: pub_def implicit_account_of_def bind_call_def ensure_def)
  let ?m = "secret_store_message ext pub (contract_accessor target) ?agent (ss_encrypted req) (predecessor cx)
    (ss_vault_id req) access"
  have sig: "sx_signature_hex resp = ml_hex lib (ml_ed_sign lib (fst ?kp) (ml_sha256 lib ?m))"
    unfolding r(1) json payer pub_def keystore_message_is_the_contracts(2) [symmetric] contract_accessor_of(1) ..
  have verified: "verify_wallet_signature ext pub (sha256 ext ?m) (sx_signature_hex resp) g = g" for g :: outcome
    unfolding sig pub_def by (rule keystore_signature_verifies [OF prims refl])
  have "store_agent_secret ext cx
      \<lparr>ag_pubkey = sx_wallet_pubkey resp, ag_accessor = contract_accessor target, ag_profile = sx_agent_account resp,
       ag_encrypted = ss_encrypted req, ag_access = access, ag_vault_id = ss_vault_id req, ag_signature = sx_signature_hex resp\<rparr> s =
    store_secrets_internal ext cx ?agent (predecessor cx) (contract_accessor target) ?agent (ss_encrypted req) access (ss_vault_id req) s"
    using contract_accessor_of(4) [of target]
    by (auto simp: store_agent_secret_def r(3) r(2) [folded pub_def] owner verified target_canonical [OF t lower] contract_accessor_of(3) hex_profile [OF shape]
        assert_profile_is_unambiguous_def plain bind_call_def ensure_def Let_def)
  with t b r(3) show ?thesis using contract_accessor_of(2) [of target] by (intro exI conjI) auto
qed

section \<open>Votes that block, and keys that leave\<close>

text \<open>A vote against that names an approver and is signed by a key which is no full access key of that
  account is not passed over: it ends the request.\<close>

lemma stray_rejection_blocks:
  assumes "v \<in> set (ai_rejections info)" "wl_admits_key wl policy (av_approver_id v) (av_public_key v)"
    and "verify_near_signature lib w nc (wl_vote_message wl Reject (ai_approval_id info) wallet_pubkey request_hash) (av_signature v)
      (av_public_key v) (av_nonce v) (ww_contract_id ww)"
    and "ww_signer_key ww (av_approver_id v) (av_public_key v) \<noteq> Some FullAccessKey"
  shows "verify_approvals ext lib w nc wl ww policy wallet_pubkey request_hash (Some info) threshold \<noteq> None"
proof
  assume "verify_approvals ext lib w nc wl ww policy wallet_pubkey request_hash (Some info) threshold = None"
  from approvals_verified [OF this] assms(1)
  have "signed_vote_counts ext lib w nc wl ww policy (wl_vote_message wl Reject (ai_approval_id info) wallet_pubkey request_hash)
      (ww_contract_id ww) v = Inr False" by (auto simp: quorum_def Let_def)
  with assms(2-4) show False
    by (auto simp: signed_vote_counts_def verify_access_key_owner_def split: if_splits option.splits signer_key.splits)
qed

text \<open>A key that leaves the keystore for a sub-path is no key the wallet signs with.\<close>

lemma exported_keys_are_no_wallet_keys:
  assumes "validate_wallet_id wallet_id = None" "validate_wallet_id other_id = None" "CHR '':'' \<notin> set chain'"
  shows "ephemeral_seed ext wallet_id chain sub_path \<noteq> ''wallet:'' @ other_id @ '':'' @ chain'"
    "ephemeral_seed ext wallet_id chain sub_path \<noteq> subkey_seed other_id p" "ephemeral_seed ext wallet_id chain sub_path \<noteq> policy_seed other_id"
proof -
  show "ephemeral_seed ext wallet_id chain sub_path \<noteq> ''wallet:'' @ other_id @ '':'' @ chain'"
  proof
    assume "ephemeral_seed ext wallet_id chain sub_path = ''wallet:'' @ other_id @ '':'' @ chain'"
    then have "split_colon (wallet_id @ CHR '':'' # to_lowercase ext chain @ '':'' @ sub_path) = split_colon (other_id @ CHR '':'' # chain')"
      by (simp add: ephemeral_seed_def)
    then have "chain' = to_lowercase ext chain @ '':'' @ sub_path"
      using assms(1,2) by (simp add: split_colon_join validate_wallet_id_def split: if_splits)
    with assms(3) show False by simp
  qed
qed (simp_all add: ephemeral_seed_def subkey_seed_def policy_seed_def)

section \<open>Witnesses\<close>

definition sealed_wallet :: contract where
  "sealed_wallet = (insert_policy demo_key \<lparr>wp_owner = ''a'', wp_encrypted_data = demo_blob, wp_frozen = False, wp_updated_at = 0,
     wp_storage_deposit = 10 ^ 24\<rparr> wallet_start)\<lparr>policy_meta := [demo_key \<mapsto> \<lparr>pm_version = 1, pm_locked = True\<rparr>]\<rparr>"

definition sealed_world :: wallet_world where
  "sealed_world = (filed_world [] True)\<lparr>ww_policy :=
     (\<lambda>key. Inr (map_option policy_json (get_wallet_policy reference_externals key sealed_wallet)))\<rparr>"

definition demo_change :: sign_policy_request where
  "demo_change = \<lparr>sp_wallet_id = ''w'', sp_encrypted_data = demo_blob, sp_caller = ''a'', sp_approval_info = Some demo_votes\<rparr>"

lemma filing_primitives: "same_primitives reference_externals filing_libs"
proof -
  have "sha256 reference_externals = ml_sha256 filing_libs" by (rule ext) (simp add: reference_externals_def filing_libs_def demo_libs_def)
  then show ?thesis
    using hex_ok_reference by (simp add: same_primitives_def encode_plain accept_plain) (simp add: filing_libs_def)
qed

lemma sealed_ok: "wallets_ok reference_externals sealed_wallet"
  by (auto simp: wallets_ok_def sealed_wallet_def insert_policy_def wallet_start_def new_contract_def demo_canonical
      policy_rows.consistent_def index_ok_def index_get_def index_add_def)

lemma demo_wallet_key: "''ed25519:'' @ ml_hex filing_libs (snd (keypair_of filing_libs m s)) = demo_key"
  by (simp add: keypair_of_def Let_def filing_libs_def demo_key_def)

lemma sealed_view: "get_wallet_policy reference_externals demo_key sealed_wallet =
    Some \<lparr>wv_owner = ''a'', wv_encrypted_data = demo_blob, wv_frozen = False, wv_updated_at = 0, wv_storage_refund_to = None,
      wv_storage_deposit = 10 ^ 24, wv_version = 1, wv_locked = True\<rparr>"
  using lookup_canonical [OF demo_canonical]
  by (simp add: get_wallet_policy_def sealed_wallet_def insert_policy_def wallet_start_def new_contract_def meta_of_def)

lemmas demo_blank = demo_faithful [where vm = "\<lambda>_. []" and lib = filing_libs]

lemma demo_change_reads [simp]: "sp_wallet_id demo_change = ''w''" "sp_encrypted_data demo_change = demo_blob"
  by (simp_all add: demo_change_def)

lemma demo_change_signed:
  "\<exists>resp k1. wallet_sign_policy_handler reference_externals filing_libs demo_world demo_crypto demo_wallet_libs sealed_world True None
     demo_change own_keystore = (Inr resp, k1)"
proof -
  obtain plain k2 where d: "decrypt_secret filing_libs None (policy_seed ''w'') demo_blob own_keystore = (Inr plain, k2)" using demo_opens by blast
  then have new: "read_new_policy demo_wallet_libs filing_libs demo_world None demo_change own_keystore = (Inr (JNull, 1), k2)"
    by (simp add: read_new_policy_def demo_change_def demo_world_def demo_wallet_libs_def trim_str_def is_whitespace_def white_space_codes_def)
  obtain kp k3 where "derive_keypair filing_libs None (wallet_seed demo_wallet_libs ''w'' ''near'') k2 = (Inr kp, k3)" using own_derives by blast
  then obtain key where p: "derive_wallet_ed25519_pubkey demo_wallet_libs filing_libs None ''w'' k2 = (Inr key, k3)"
    by (simp add: derive_wallet_ed25519_pubkey_def get_public_key_for_seed_def)
  then have p: "derive_wallet_ed25519_pubkey demo_wallet_libs filing_libs None ''w'' k2 = (Inr demo_key, k3)"
    using wallet_pubkey_of [OF p faithful_decrypt [OF d demo_blank(1)]] demo_wallet_key by simp
  obtain plain' k4 where "decrypt_secret filing_libs None (policy_seed ''w'') demo_blob k3 = (Inr plain', k4)" using demo_opens by blast
  then have "decrypt_policy demo_wallet_libs filing_libs demo_world None ''w'' False
      (policy_json \<lparr>wv_owner = ''a'', wv_encrypted_data = demo_blob, wv_frozen = False, wv_updated_at = 0, wv_storage_refund_to = None,
        wv_storage_deposit = 10 ^ 24, wv_version = 1, wv_locked = True\<rparr>) k3 = (Inr 1, k4)"
    by (simp add: decrypt_policy_def policy_json_def demo_world_def demo_wallet_libs_def)
  then have l: "load_wallet_policy_for_update demo_wallet_libs filing_libs demo_world sealed_world ''w'' demo_key None k3
      = (Inr (Some 1, \<lparr>km_version = 1, km_locked = True\<rparr>), k4)"
    by (simp add: load_wallet_policy_for_update_def sealed_world_def sealed_view policy_json_reads) (simp add: demo_world_def)
  have q: "lift_lock reference_externals filing_libs demo_world demo_crypto demo_wallet_libs sealed_world demo_change demo_key (Some 1)
      \<lparr>km_version = 1, km_locked = True\<rparr> h b = Inr (Some ''h'')" for h b
    using demo_quorum [of sealed_world demo_key]
    by (simp add: lift_lock_def demo_change_def sealed_world_def filed_world_def) (simp add: demo_wallet_libs_def)
  obtain kp' k5 where "derive_keypair filing_libs None (wallet_seed demo_wallet_libs ''w'' ''near'') k4 = (Inr kp', k5)" using own_derives by blast
  then show ?thesis
    using demo_entered new p l q by (simp add: wallet_sign_policy_handler_def demo_quiet sign_with_seed_def Let_def)
qed

lemma no_vault_named: "extract_customer_from_header reference_externals None = Inr None"
  by (simp add: extract_customer_from_header_def)

lemma sealed_reads:
  "ww_policy sealed_world key = Inr (map_option policy_json (get_wallet_policy reference_externals key sealed_wallet))"
  "meta_of sealed_wallet demo_key = \<lparr>pm_version = 1, pm_locked = True\<rparr>" "sp_approval_info demo_change = Some demo_votes"
  by (simp_all add: sealed_world_def sealed_wallet_def meta_of_def demo_change_def)



definition demo_filing :: sign_secret_request where
  "demo_filing = \<lparr>ss_wallet_id = ''w'', ss_project_id = Some ''a/x'', ss_wasm_hash = None, ss_encrypted = demo_blob, ss_payer = ''b'',
     ss_access = KsAllowAll, ss_vault_id = None\<rparr>"

lemma demo_filing_signed:
  "\<exists>resp k1. wallet_sign_secret_store_handler reference_externals filing_libs demo_world demo_wallet_libs True None demo_filing own_keystore = (Inr resp, k1)"
proof -
  obtain kp k1 where "derive_keypair filing_libs None (wallet_seed demo_wallet_libs ''w'' ''near'') own_keystore = (Inr kp, k1)"
    using own_derives by blast
  then obtain agent where a: "wallet_implicit_account demo_wallet_libs filing_libs None ''w'' own_keystore = (Inr agent, k1)"
    by (simp add: wallet_implicit_account_def get_public_key_for_seed_def)
  obtain plain k2 where d: "decrypt_secret filing_libs None (''project:a/x:'' @ agent) demo_blob k1 = (Inr plain, k2)" using demo_opens by blast
  obtain kp' k3 where "derive_keypair filing_libs None (wallet_seed demo_wallet_libs ''w'' ''near'') k2 = (Inr kp', k3)" using own_derives by blast
  then have s: "\<exists>resp k3. sign_for_agent demo_wallet_libs filing_libs None ''w'' agent m k2 = (Inr resp, k3)" for m
    by (simp add: sign_for_agent_def sign_with_seed_def)
  have "wl_condition_bounds demo_wallet_libs c" "dw_base64_decode demo_world b = Some b" for c b
    by (simp_all add: demo_wallet_libs_def demo_world_def)
  then show ?thesis
    using demo_entered a d s
    by (simp add: wallet_sign_secret_store_handler_def demo_filing_def target_from_fields_def named_field_def trim_str_def is_whitespace_def
        white_space_codes_def)
qed

theorem signed_secret_is_accepted_witness:
  "\<exists>resp k1 target plain k2 k3. wallet_sign_secret_store_handler reference_externals filing_libs demo_world demo_wallet_libs True None demo_filing
     own_keystore = (Inr resp, k1) \<and>
     decrypt_secret filing_libs None (target_seed target (sx_agent_account resp)) demo_blob k2 = (Inr plain, k3)"
proof -
  obtain resp k1 where ans: "wallet_sign_secret_store_handler reference_externals filing_libs demo_world demo_wallet_libs True None demo_filing
      own_keystore = (Inr resp, k1)" using demo_filing_signed by blast
  have "wl_access_json demo_wallet_libs (ss_access demo_filing) = access_to_json reference_externals AllowAll"
    by (simp add: demo_wallet_libs_def access_plain)
  moreover have "predecessor (call_by ''b'' 0) = trim_str (ss_payer demo_filing)" "dw_base64_decode demo_world (ss_encrypted demo_filing) = Some demo_blob"
    by (simp_all add: call_by_def demo_filing_def trim_str_def is_whitespace_def white_space_codes_def demo_world_def)
  ultimately show ?thesis
    using signed_secret_is_accepted [OF ans demo_blank filing_primitives no_vault_named lowercase_ok_reference valid_plain,
      where cx = "call_by ''b'' 0"] ans by fastforce
qed

end
