(* ===== verification/Keystore_Seeds.thy ===== *)
theory Keystore_Seeds
  imports Wallet_Filing
begin

text \<open>
  The storage endpoints of the keystore (\<open>storage_encrypt_handler\<close>, \<open>storage_decrypt_handler\<close> of
  \<open>keystore-worker/src/api_support.rs\<close>), which seal what a run keeps between calls, and the seeds of the
  whole keystore: every string a handler gives to a derivation outside the declared families, read off
  the handlers themselves, so that the guard of each is part of what is used.
\<close>

section \<open>Persistent storage\<close>

definition storage_seed :: "string option \<Rightarrow> string \<Rightarrow> string \<Rightarrow> string" where
  "storage_seed the_uuid wasm_hash account_id =
     (case the_uuid of
        Some uuid \<Rightarrow> ''storage:'' @ uuid @ '':'' @ account_id
      | None \<Rightarrow> ''storage:wasm:'' @ wasm_hash @ '':'' @ account_id)"

record storage_sealed =
  st_encrypted_key :: string
  st_encrypted_value :: string
  st_key_hash :: string

text \<open>The ephemeral keys and nonces of the two blobs are drawn by \<open>encrypt\<close>.\<close>

definition storage_encrypt_handler ::
  "master_libs \<Rightarrow> door_world \<Rightarrow> bool \<Rightarrow> string option \<Rightarrow> string \<Rightarrow> string \<Rightarrow> string \<Rightarrow> string
     \<Rightarrow> (string \<times> string) \<times> (string \<times> string) \<Rightarrow> keystore \<Rightarrow> door_error + storage_sealed" where
  "storage_encrypt_handler lib w ready the_uuid wasm_hash account_id key value_base64 drawn k =
     (if \<not> ready then Inl DoorUnauthorized
      else
        let seed = storage_seed the_uuid wasm_hash account_id in
        case dw_base64_decode w value_base64 of
          None \<Rightarrow> Inl DoorBadRequest
        | Some bytes \<Rightarrow>
            (case encrypt_secret lib k (fst (fst drawn)) (snd (fst drawn)) None seed key of
               Inl _ \<Rightarrow> Inl DoorInternal
             | Inr encrypted_key \<Rightarrow>
                 (case encrypt_secret lib k (fst (snd drawn)) (snd (snd drawn)) None seed bytes of
                    Inl _ \<Rightarrow> Inl DoorInternal
                  | Inr encrypted_value \<Rightarrow>
                      Inr \<lparr>st_encrypted_key = dw_base64_encode w encrypted_key,
                           st_encrypted_value = dw_base64_encode w encrypted_value,
                           st_key_hash = ml_hex lib (ml_sha256 lib key)\<rparr>)))"

definition storage_decrypt_handler ::
  "externals \<Rightarrow> master_libs \<Rightarrow> door_world \<Rightarrow> bool \<Rightarrow> string option \<Rightarrow> string \<Rightarrow> string \<Rightarrow> string \<Rightarrow> string
     \<Rightarrow> keystore \<Rightarrow> (door_error + string \<times> string) \<times> keystore" where
  "storage_decrypt_handler ext lib w ready the_uuid wasm_hash account_id key_base64 value_base64 k =
     (if \<not> ready then (Inl DoorUnauthorized, k)
      else
        let seed = storage_seed the_uuid wasm_hash account_id in
        case dw_base64_decode w key_base64 of
          None \<Rightarrow> (Inl DoorBadRequest, k)
        | Some encrypted_key \<Rightarrow>
            (case dw_base64_decode w value_base64 of
               None \<Rightarrow> (Inl DoorBadRequest, k)
             | Some encrypted_value \<Rightarrow>
                 (case decrypt_secret lib None seed encrypted_key k of
                    (Inl _, k1) \<Rightarrow> (Inl DoorInternal, k1)
                  | (Inr key, k1) \<Rightarrow>
                      (case decrypt_secret lib None seed encrypted_value k1 of
                         (Inl _, k2) \<Rightarrow> (Inl DoorInternal, k2)
                       | (Inr value_bytes, k2) \<Rightarrow>
                           (if valid_utf8 ext key then Inr (key, dw_base64_encode w value_bytes) else Inl DoorInternal, k2)))))"

lemma decrypt_encrypted:
  assumes "encrypt_secret lib k ephemeral nonce customer seed plaintext = Inr blob"
    and "agreement_ok lib" "sealing_ok lib" "length nonce = 12"
  shows "decrypt_secret lib customer seed blob k =
    ((if length plaintext + 61 \<le> MAX_ENCRYPTED_SIZE then Inr plaintext else Inl (DataTooLarge (length plaintext + 61))), k)"
  using encrypted_blob [OF assms] by (simp add: decrypt_secret_def)

definition storage_parts :: "string option \<Rightarrow> string \<Rightarrow> string \<Rightarrow> string list" where
  "storage_parts the_uuid wasm_hash account_id =
     (case the_uuid of Some uuid \<Rightarrow> [''storage'', uuid, account_id] | None \<Rightarrow> [''storage'', ''wasm'', wasm_hash, account_id])"

lemma storage_seed_joined: "storage_seed the_uuid wasm_hash account_id = join_colon (storage_parts the_uuid wasm_hash account_id)"
  by (simp add: storage_seed_def storage_parts_def split: option.split)

text \<open>One seed for one account of one project, or of one build run outside a project.\<close>

lemma storage_seed_inject:
  assumes same: "storage_seed pu h a = storage_seed pu' h' a'"
    and free: "\<forall>p \<in> set (storage_parts pu h a) \<union> set (storage_parts pu' h' a'). CHR '':'' \<notin> set p"
  shows "a = a' \<and> pu = pu' \<and> (pu = None \<longrightarrow> h = h')"
proof -
  have "storage_parts pu h a = storage_parts pu' h' a'"
    using same free by (intro join_colon_inject) (auto simp: storage_seed_joined storage_parts_def split: option.splits)
  then show ?thesis by (auto simp: storage_parts_def split: option.splits)
qed

section \<open>Every seed in use\<close>

text \<open>
  What the handlers derive from, outside the declared families: the seed of a \<open>/pubkey\<close>, \<open>/encrypt\<close>,
  \<open>/add_generated_secret\<close> or \<open>/decrypt-raw\<close> request that was answered, the seed of a secret row as
  \<open>/decrypt\<close> and \<open>/update-user-secrets\<close> spell it, the agent's row of a wallet, the keys, subkeys,
  throw-away keys and policies of wallets, what a run stores, and the keystore's own seeds.
\<close>

inductive seed_in_use :: "externals \<Rightarrow> master_libs \<Rightarrow> door_world \<Rightarrow> json_libs \<Rightarrow> 'p wallet_libs \<Rightarrow> string \<Rightarrow> bool"
  for ext lib w js wl where
  pubkey: "pubkey_handler ext lib w js ready authenticated seed secrets_json vault_id k = (Inr answer, k1) \<Longrightarrow>
    seed_in_use ext lib w js wl seed"
| encrypt: "encrypt_handler ext lib w ready header seed plaintext ephemeral nonce k = Inr answer \<Longrightarrow>
    seed_in_use ext lib w js wl seed"
| generated: "add_generated_secret_handler ext lib w js ready req rnd ephemeral nonce k = (Inr answer, k1) \<Longrightarrow>
    seed_in_use ext lib w js wl (gq_seed req)"
| raw: "decrypt_raw_handler ext lib w ready header seed encrypted k = (Inr answer, k1) \<Longrightarrow>
    seed_in_use ext lib w js wl seed"
| row: "secret_seed accessor owner profile branch = Inr seed \<Longrightarrow> seed_in_use ext lib w js wl seed"
| updated: "update_seed accessor owner profile = Inr seed \<Longrightarrow> seed_in_use ext lib w js wl seed"
| agent: "seed_in_use ext lib w js wl (target_seed target who)"
| wallet: "seed_in_use ext lib w js wl (wallet_seed wl wallet_id chain)"
| subkey: "seed_in_use ext lib w js wl (subkey_seed wallet_id sub_path)"
| throw_away: "seed_in_use ext lib w js wl (ephemeral_seed ext wallet_id chain sub_path)"
| policy: "seed_in_use ext lib w js wl (policy_seed wallet_id)"
| storage: "seed_in_use ext lib w js wl (storage_seed the_uuid wasm_hash account_id)"
| vault_key: "seed_in_use ext lib w js wl (vault_tee_keypair_seed vault)"
| vault_path: "seed_in_use ext lib w js wl (vault_master_path_seed vault)"
| vrf: "seed_in_use ext lib w js wl ''vrf-key''"

lemma unrefused_not_rooted: "refuse_declared_key_seed seed = None \<Longrightarrow> \<not> rooted seed"
  by (auto simp: refuse_declared_key_seed_def split: if_splits)

lemma payment_seed_not_rooted: "starts_with ''system:payment_key:'' seed \<Longrightarrow> \<not> rooted seed"
proof -
  assume "starts_with ''system:payment_key:'' seed"
  then obtain t where "seed = ''system:payment_key:'' @ t" unfolding starts_with_def by (metis append_take_drop_id)
  then show ?thesis by (simp add: DECLARED_KEY_ROOTS_def starts_with_def)
qed

lemma seed_in_use_not_rooted: "seed_in_use ext lib w js wl seed \<Longrightarrow> \<not> rooted seed"
proof (induction rule: seed_in_use.induct)
  case (pubkey ready authenticated seed secrets_json vault_id k answer k1)
  then have "refuse_declared_key_seed seed = None"
    by (auto simp: pubkey_handler_def split: if_splits option.splits)
  then show ?case by (rule unrefused_not_rooted)
next
  case (encrypt ready header seed plaintext ephemeral nonce k answer)
  then have "refuse_declared_key_seed seed = None"
    by (auto simp: encrypt_handler_def split: if_splits option.splits)
  then show ?case by (rule unrefused_not_rooted)
next
  case (generated ready req rnd ephemeral nonce k answer k1)
  then have "refuse_declared_key_seed (gq_seed req) = None"
    by (auto simp: add_generated_secret_handler_def split: if_splits option.splits)
  then show ?case by (rule unrefused_not_rooted)
next
  case (raw ready header seed encrypted k answer k1)
  then have "starts_with ''system:payment_key:'' seed"
    by (auto simp: decrypt_raw_handler_def split: if_splits)
  then show ?case by (rule payment_seed_not_rooted)
next
  case (row accessor owner profile branch seed)
  then show ?case by (rule secret_seed_not_rooted)
next
  case (updated accessor owner profile seed)
  then show ?case unfolding update_seed_def by (rule secret_seed_not_rooted)
next
  case (agent target who)
  then show ?case by (cases target) (simp_all add: DECLARED_KEY_ROOTS_def starts_with_def)
qed (simp_all add: DECLARED_KEY_ROOTS_def starts_with_def wallet_seed_def subkey_seed_def ephemeral_seed_def policy_seed_def
    storage_seed_def vault_tee_keypair_seed_def vault_master_path_seed_def split: option.split)

section \<open>Properties\<close>

text \<open>
  C27. No seed in use outside the declared families spells a declared key or a task key: not the seed of
  any \<open>/pubkey\<close>, \<open>/encrypt\<close>, \<open>/add_generated_secret\<close> or \<open>/decrypt-raw\<close> request the keystore answered,
  whatever it was sent, not that of a secret row however its repository is written, of an agent's row, of
  a wallet's keys, subkeys, throw-away keys or policy, of stored data, of a vault or of the keystore
  itself; nor any of them behind the prefixes that encryption keys and paths are derived under.
\<close>

theorem seeds_in_use_spell_no_key:
  assumes "seed_in_use ext lib w js wl seed" "from_parts kind bound caller path = Inr d"
    and "input \<in> {seed, ''ecies:'' @ seed, ''secret-path:'' @ seed}"
  shows "input \<noteq> di_text d \<and> input \<noteq> task_key_input uuid owner"
proof -
  have "\<not> rooted (''ecies:'' @ seed)" "\<not> rooted (''secret-path:'' @ seed)"
    by (simp_all add: DECLARED_KEY_ROOTS_def starts_with_def)
  with seed_in_use_not_rooted [OF assms(1)] assms(3) have "\<not> rooted input" by blast
  with key_strings_rooted(1) [OF assms(2)] key_strings_rooted(2) [of uuid owner] show ?thesis by blast
qed

text \<open>
  What a run stores comes back to it and to no other. What \<open>/storage/encrypt\<close> sealed,
  \<open>/storage/decrypt\<close> asked for the same project (or, outside a project, the same build) and account opens
  to the same key and the same value, unless one of them is too long to be read back; and the seed both
  were sealed under is not that of another project, of another account, or of another build outside a
  project, where the parts hold no colon, as the uuids, hashes and accounts of the platform do not.
\<close>

theorem stored_data_comes_back:
  assumes "storage_encrypt_handler lib w ready the_uuid wasm_hash account_id key value_base64 drawn k = Inr sealed"
    and "agreement_ok lib" "sealing_ok lib" "length (snd (fst drawn)) = 12" "length (snd (snd drawn)) = 12"
    and "\<forall>b. dw_base64_decode w (dw_base64_encode w b) = Some b" "valid_utf8 ext key"
    and "\<forall>p \<in> set (storage_parts the_uuid wasm_hash account_id). CHR '':'' \<notin> set p"
  shows "\<exists>bytes. dw_base64_decode w value_base64 = Some bytes \<and>
    storage_decrypt_handler ext lib w True the_uuid wasm_hash account_id (st_encrypted_key sealed) (st_encrypted_value sealed) k =
      (if length key + 61 \<le> MAX_ENCRYPTED_SIZE \<and> length bytes + 61 \<le> MAX_ENCRYPTED_SIZE
       then Inr (key, dw_base64_encode w bytes) else Inl DoorInternal, k) \<and>
    (\<forall>the_uuid' wasm_hash' account_id'. (\<forall>p \<in> set (storage_parts the_uuid' wasm_hash' account_id'). CHR '':'' \<notin> set p) \<longrightarrow>
       storage_seed the_uuid' wasm_hash' account_id' = storage_seed the_uuid wasm_hash account_id \<longrightarrow>
       account_id' = account_id \<and> the_uuid' = the_uuid \<and> (the_uuid = None \<longrightarrow> wasm_hash' = wasm_hash))"
proof -
  let ?seed = "storage_seed the_uuid wasm_hash account_id"
  from assms(1) obtain bytes ek ev where b: "dw_base64_decode w value_base64 = Some bytes"
    and e: "encrypt_secret lib k (fst (fst drawn)) (snd (fst drawn)) None ?seed key = Inr ek"
      "encrypt_secret lib k (fst (snd drawn)) (snd (snd drawn)) None ?seed bytes = Inr ev"
    and s: "st_encrypted_key sealed = dw_base64_encode w ek" "st_encrypted_value sealed = dw_base64_encode w ev"
    by (auto simp: storage_encrypt_handler_def Let_def split: if_splits option.splits sum.splits)
  note d = decrypt_encrypted [OF e(1) assms(2,3,4)] decrypt_encrypted [OF e(2) assms(2,3,5)]
  have "storage_decrypt_handler ext lib w True the_uuid wasm_hash account_id (st_encrypted_key sealed) (st_encrypted_value sealed) k =
      (if length key + 61 \<le> MAX_ENCRYPTED_SIZE \<and> length bytes + 61 \<le> MAX_ENCRYPTED_SIZE
       then Inr (key, dw_base64_encode w bytes) else Inl DoorInternal, k)"
    using assms(6,7) d by (simp add: storage_decrypt_handler_def s Let_def)
  with b storage_seed_inject [of _ _ _ the_uuid wasm_hash account_id] assms(8) show ?thesis by blast
qed

section \<open>Witnesses\<close>

lemma demo_sealed: "\<exists>answer. encrypt_handler key_externals demo_libs demo_world True None ''github.com/a/b:a'' ''hello'' ''e'' twelve own_keystore = Inr answer"
proof -
  obtain blob where "encrypt_secret demo_libs own_keystore ''e'' twelve None ''github.com/a/b:a'' ''hello'' = Inr blob"
    using encrypts [of "''hello''"] by (auto simp: MAX_ENCRYPTED_SIZE_def)
  moreover have "refuse_declared_key_seed ''github.com/a/b:a'' = None"
    by (simp add: refuse_declared_key_seed_def DECLARED_KEY_ROOTS_def starts_with_def)
  ultimately show ?thesis by (simp add: encrypt_handler_def extract_customer_from_header_def demo_world_def)
qed

theorem seeds_in_use_spell_no_key_witness:
  "\<exists>answer d. encrypt_handler key_externals demo_libs demo_world True None ''github.com/a/b:a'' ''hello'' ''e'' twelve own_keystore = Inr answer \<and>
     from_parts (SigningKind KeyEd25519) (ToWasm ''f0'') [''none''] ''k'' = Inr d \<and> ''github.com/a/b:a'' \<noteq> di_text d"
proof -
  obtain answer where e: "encrypt_handler key_externals demo_libs demo_world True None ''github.com/a/b:a'' ''hello'' ''e'' twelve own_keystore
      = Inr answer" using demo_sealed by blast
  obtain d where d: "from_parts (SigningKind KeyEd25519) (ToWasm ''f0'') [''none''] ''k'' = Inr d"
    by (simp add: from_parts_def derivation_parts_def Let_def)
  from seeds_in_use_spell_no_key [OF seed_in_use.encrypt [OF e, of demo_json demo_wallet_libs] d] e d show ?thesis by auto
qed

lemma demo_stored:
  "\<exists>sealed. storage_encrypt_handler demo_libs demo_world True (Some sample_uuid) sample_build ''a'' ''k'' ''v'' ((''e'', twelve), (''e'', twelve))
     own_keystore = Inr sealed"
proof -
  obtain ek ev where "encrypt_secret demo_libs own_keystore ''e'' twelve None (storage_seed (Some sample_uuid) sample_build ''a'') ''k'' = Inr ek"
    "encrypt_secret demo_libs own_keystore ''e'' twelve None (storage_seed (Some sample_uuid) sample_build ''a'') ''v'' = Inr ev"
    using encrypts [of "''k''" twelve] encrypts [of "''v''" twelve] by (simp add: MAX_ENCRYPTED_SIZE_def) blast
  then show ?thesis by (simp add: storage_encrypt_handler_def demo_world_def)
qed

theorem stored_data_comes_back_witness:
  "\<exists>sealed. storage_encrypt_handler demo_libs demo_world True (Some sample_uuid) sample_build ''a'' ''k'' ''v'' ((''e'', twelve), (''e'', twelve))
       own_keystore = Inr sealed \<and>
     storage_decrypt_handler key_externals demo_libs demo_world True (Some sample_uuid) sample_build ''a'' (st_encrypted_key sealed)
       (st_encrypted_value sealed) own_keystore = (Inr (''k'', ''v''), own_keystore)"
proof -
  obtain sealed where s: "storage_encrypt_handler demo_libs demo_world True (Some sample_uuid) sample_build ''a'' ''k'' ''v''
      ((''e'', twelve), (''e'', twelve)) own_keystore = Inr sealed" using demo_stored by blast
  have "length twelve = 12" by simp
  moreover have "\<forall>b. dw_base64_decode demo_world (dw_base64_encode demo_world b) = Some b" by (simp add: demo_world_def)
  moreover have "valid_utf8 key_externals ''k''" by (simp add: key_externals_def reference_externals_def)
  moreover have "\<forall>p \<in> set (storage_parts (Some sample_uuid) sample_build ''a''). CHR '':'' \<notin> set p"
    using plain_fields(2) [OF minted_uuid_parses, of 1] by (simp add: storage_parts_def sample_uuid_def)
  ultimately show ?thesis
    using stored_data_comes_back [OF s demo_libs_ok, of key_externals] s
    by (simp add: demo_world_def MAX_ENCRYPTED_SIZE_def)
qed

end
