(* ===== verification/Registrar.thy ===== *)
theory Registrar
  imports Keystore_Dao
begin

text \<open>
  The worker register (\<open>register-contract/src/lib.rs\<close>, \<open>migration.rs\<close>): the account the workers
  act as. A worker's key is added to the account when a quote proves that it was made in an approved
  environment; the key may only answer the execution contract. The contract carries its own copy of
  the DAO's verification code, so the last section compares the two.
\<close>

section \<open>State and operations\<close>

record register_contract =
  rc_owner_id :: account
  init_worker_account :: account
  rc_approved_measurements :: "measurements list"
  rc_collaterals :: "string list"
  outlayer_contract_id :: account

datatype register_refusal =
    NotInitWorker | NoCollateralCached | InvalidQuoteHex | QuoteNotParsed | QuoteWithoutFmspc
  | NoSlotForPlatform | RegistrationRefused quote_error | WorkerMeasurementsNotApproved
  | UnsupportedWorkerCurve | WorkerKeyMismatch | NotRegisterOwner | InvalidMeasurements
  | IndexTooLarge | LowerSlotEmpty | OldStateUnreadable

datatype register_effect =
    AddWorkerKey curve_key nat account "string list"
  | DeleteWorkerKey curve_key

type_synonym register_outcome = "(register_refusal, register_contract \<times> register_effect list) call"

definition new_register :: "ctx \<Rightarrow> account \<Rightarrow> account \<Rightarrow> account \<Rightarrow> (register_refusal, register_contract) call" where
  "new_register cx owner init_worker outlayer =
     not_payable cx (
     Inr \<lparr>rc_owner_id = owner, init_worker_account = init_worker, rc_approved_measurements = [],
          rc_collaterals = [], outlayer_contract_id = outlayer\<rparr>)"

definition verify_worker_registration ::
  "tee_libs \<Rightarrow> nat \<Rightarrow> string \<Rightarrow> string \<Rightarrow> quote_error + (measurements \<times> string)" where
  "verify_worker_registration tee timestamp quote_hex collateral_str =
     (case lib_hex_decode tee quote_hex of
        None \<Rightarrow> Inl QuoteHex
      | Some quote_bytes \<Rightarrow>
     (case lib_json tee collateral_str of
        None \<Rightarrow> Inl CollateralJson
      | Some collateral_json \<Rightarrow>
     (case try_from_json tee collateral_json of
        Inl e \<Rightarrow> Inl (CollateralFields e)
      | Inr collateral \<Rightarrow>
     (case lib_verify_quote tee quote_bytes collateral (timestamp div SECOND) of
        None \<Rightarrow> Inl QuoteNotVerified
      | Some result \<Rightarrow>
     (if tcb_status result \<noteq> ''UpToDate'' then Inl (TcbNotUpToDate (tcb_status result))
      else if advisory_ids result \<noteq> [] then Inl (OutstandingAdvisories (advisory_ids result))
      else case as_td10 result of
        None \<Rightarrow> Inl NotTd10
      | Some td10 \<Rightarrow>
          Inr (\<lparr>mrtd = lib_hex_encode tee (mr_td td10), rtmr0 = lib_hex_encode tee (rt_mr0 td10),
                rtmr1 = lib_hex_encode tee (rt_mr1 td10), rtmr2 = lib_hex_encode tee (rt_mr2 td10),
                rtmr3 = lib_hex_encode tee (rt_mr3 td10)\<rparr>,
               take 32 (report_data td10)))))))"

definition worker_methods :: "string list" where
  "worker_methods = [''resolve_execution'', ''submit_execution_output_and_resolve'', ''resume_topup'',
     ''resume_delete_payment_key'']"

definition worker_allowance :: nat where "worker_allowance = 10 * 10 ^ 24"

definition register_worker_key ::
  "tee_libs \<Rightarrow> ctx \<Rightarrow> curve_key \<Rightarrow> string \<Rightarrow> register_contract \<Rightarrow> register_outcome" where
  "register_worker_key tee cx public_key tdx_quote_hex s =
     not_payable cx (
     ensure (predecessor cx = init_worker_account s) NotInitWorker (
     ensure (rc_collaterals s \<noteq> []) NoCollateralCached (
     expect (lib_hex_decode tee tdx_quote_hex) InvalidQuoteHex (\<lambda>quote_bytes.
     expect (lib_quote_fmspc tee quote_bytes) QuoteNotParsed (\<lambda>quote_fmspc.
     expect quote_fmspc QuoteWithoutFmspc (\<lambda>fmspc.
     expect (select_collateral (lib_hex_encode tee fmspc) (rc_collaterals s)) NoSlotForPlatform (\<lambda>collateral.
     case verify_worker_registration tee (block_timestamp cx) tdx_quote_hex collateral of
       Inl e \<Rightarrow> Inl (Refused (RegistrationRefused e))
     | Inr (measured, report_data_prefix) \<Rightarrow>
     ensure (measured \<in> set (rc_approved_measurements s)) WorkerMeasurementsNotApproved (
     expect (expected_binding tee public_key) UnsupportedWorkerCurve (\<lambda>binding.
     ensure (report_data_prefix = binding) WorkerKeyMismatch (
     Inr (s, [AddWorkerKey public_key worker_allowance (outlayer_contract_id s) worker_methods])))))))))))"

definition assert_register_owner ::
  "ctx \<Rightarrow> register_contract \<Rightarrow> (register_refusal, 'a) call \<Rightarrow> (register_refusal, 'a) call" where
  "assert_register_owner cx s k = ensure (predecessor cx = rc_owner_id s) NotRegisterOwner k"

definition update_collateral :: "ctx \<Rightarrow> string \<Rightarrow> nat \<Rightarrow> register_contract \<Rightarrow> register_outcome" where
  "update_collateral cx collateral index s =
     not_payable cx (assert_register_owner cx s (
     ensure (index < MAX_COLLATERALS) IndexTooLarge (
     if index < length (rc_collaterals s) then
       Inr (s\<lparr>rc_collaterals := (rc_collaterals s)[index := collateral]\<rparr>, [])
     else if index = length (rc_collaterals s) then
       Inr (s\<lparr>rc_collaterals := rc_collaterals s @ [collateral]\<rparr>, [])
     else Inl (Refused LowerSlotEmpty))))"

definition add_approved_measurements ::
  "ctx \<Rightarrow> measurements \<Rightarrow> bool option \<Rightarrow> register_contract \<Rightarrow> register_outcome" where
  "add_approved_measurements cx m clear_others s =
     not_payable cx (assert_register_owner cx s (
     ensure (validate_measurements m) InvalidMeasurements (
     let kept = (if clear_others = Some True then [] else rc_approved_measurements s) in
     Inr (s\<lparr>rc_approved_measurements := (if m \<in> set kept then kept else kept @ [m])\<rparr>, []))))"

definition remove_approved_measurements :: "ctx \<Rightarrow> measurements \<Rightarrow> register_contract \<Rightarrow> register_outcome" where
  "remove_approved_measurements cx m s =
     not_payable cx (assert_register_owner cx s (
     Inr (s\<lparr>rc_approved_measurements := filter (\<lambda>x. x \<noteq> m) (rc_approved_measurements s)\<rparr>, [])))"

definition clear_all_approved_measurements :: "ctx \<Rightarrow> register_contract \<Rightarrow> register_outcome" where
  "clear_all_approved_measurements cx s =
     not_payable cx (assert_register_owner cx s (Inr (s\<lparr>rc_approved_measurements := []\<rparr>, [])))"

definition remove_worker_keys :: "ctx \<Rightarrow> curve_key list \<Rightarrow> register_contract \<Rightarrow> register_outcome" where
  "remove_worker_keys cx public_keys s =
     not_payable cx (assert_register_owner cx s (Inr (s, map DeleteWorkerKey public_keys)))"

definition transfer_ownership :: "ctx \<Rightarrow> account \<Rightarrow> register_contract \<Rightarrow> register_outcome" where
  "transfer_ownership cx new_owner s =
     not_payable cx (assert_register_owner cx s (Inr (s\<lparr>rc_owner_id := new_owner\<rparr>, [])))"

record register_contract_v2 =
  v2_owner_id :: account
  v2_init_worker_account :: account
  v2_approved_measurements :: "measurements list"
  v2_quote_collateral :: "string option"
  v2_outlayer_contract_id :: account

definition migrate_register :: "ctx \<Rightarrow> register_contract_v2 option \<Rightarrow> (register_refusal, register_contract) call" where
  "migrate_register cx stored =
     private_call cx (not_payable cx (
     expect stored OldStateUnreadable (\<lambda>old.
     Inr \<lparr>rc_owner_id = v2_owner_id old, init_worker_account = v2_init_worker_account old,
          rc_approved_measurements = v2_approved_measurements old,
          rc_collaterals = (case v2_quote_collateral old of None \<Rightarrow> [] | Some c \<Rightarrow> [c]),
          outlayer_contract_id = v2_outlayer_contract_id old\<rparr>)))"

section \<open>Keys of the account\<close>

datatype register_call =
    RegisterWorkerKey curve_key string
  | SetCollateral string nat
  | ApproveMeasurements measurements "bool option"
  | DropMeasurements measurements
  | DropAllMeasurements
  | RemoveWorkerKeys "curve_key list"
  | TransferOwnership account

fun run_register_call :: "tee_libs \<Rightarrow> register_call \<Rightarrow> ctx \<Rightarrow> register_contract \<Rightarrow> register_outcome" where
  "run_register_call tee (RegisterWorkerKey pk quote) cx s = register_worker_key tee cx pk quote s"
| "run_register_call tee (SetCollateral c i) cx s = update_collateral cx c i s"
| "run_register_call tee (ApproveMeasurements m others) cx s = add_approved_measurements cx m others s"
| "run_register_call tee (DropMeasurements m) cx s = remove_approved_measurements cx m s"
| "run_register_call tee DropAllMeasurements cx s = clear_all_approved_measurements cx s"
| "run_register_call tee (RemoveWorkerKeys pks) cx s = remove_worker_keys cx pks s"
| "run_register_call tee (TransferOwnership a) cx s = transfer_ownership cx a s"

lemmas register_defs = assert_register_owner_def update_collateral_def add_approved_measurements_def
  remove_approved_measurements_def clear_all_approved_measurements_def remove_worker_keys_def
  transfer_ownership_def

text \<open>The two copies of the verification code agree.\<close>

lemma verify_copies: "verify_worker_registration = verify_tdx_quote"
  by (intro ext) (simp add: verify_worker_registration_def verify_tdx_quote_def)

lemma register_run:
  assumes "register_worker_key tee cx pk quote s = Inr (t, es)"
  obtains m where "predecessor cx = init_worker_account s" "m \<in> set (rc_approved_measurements s)"
    "attests tee (block_timestamp cx) (rc_collaterals s) quote pk m" "t = s"
    "es = [AddWorkerKey pk worker_allowance (outlayer_contract_id s) worker_methods]"
proof -
  from assms obtain bytes fmspc c m b where run: "predecessor cx = init_worker_account s"
    "lib_hex_decode tee quote = Some bytes" "lib_quote_fmspc tee bytes = Some (Some fmspc)"
    "select_collateral (lib_hex_encode tee fmspc) (rc_collaterals s) = Some c"
    "verify_tdx_quote tee (block_timestamp cx) quote c = Inr (m, b)"
    "m \<in> set (rc_approved_measurements s)" "expected_binding tee pk = Some b" "t = s"
    "es = [AddWorkerKey pk worker_allowance (outlayer_contract_id s) worker_methods]"
    unfolding register_worker_key_def verify_copies by (auto simp: run_simps)
  show thesis
    by (rule that [OF run(1,6) attestsI [OF run(2-5,7)] run(8,9)])
qed

text \<open>
  A worker key is added by attestation only, and only to answer runs: whatever call adds a key to
  the account, the init worker made it with a quote that proves the key for measurements the owner
  had approved, and the key may call the four answering methods of the execution contract within its
  allowance and nothing else. Keys leave the account by the owner's call only.
\<close>

theorem worker_key_needs_attestation:
  assumes "run_register_call tee c cx s = Inr (t, es)" "e \<in> set es"
  shows "(\<exists>pk quote. c = RegisterWorkerKey pk quote \<and> predecessor cx = init_worker_account s \<and>
      (\<exists>m\<in>set (rc_approved_measurements s).
         attests tee (block_timestamp cx) (rc_collaterals s) quote pk m) \<and>
      e = AddWorkerKey pk worker_allowance (outlayer_contract_id s) worker_methods)
    \<or> (\<exists>pks pk. c = RemoveWorkerKeys pks \<and> predecessor cx = rc_owner_id s \<and> pk \<in> set pks \<and>
      e = DeleteWorkerKey pk)"
proof (cases c)
  case (RegisterWorkerKey pk quote)
  with assms show ?thesis by (auto elim!: register_run)
qed (use assms in \<open>auto simp: register_defs run_simps Let_def split: if_splits\<close>)

text \<open>
  The register and the DAO judge quotes alike: with the same cached collateral and the same approved
  measurements, a key and a quote that the register turns into a worker key are exactly those the
  DAO opens a ballot for, given the caller each contract names and a key the DAO has not approved.
\<close>

theorem register_and_dao_judge_alike:
  assumes "rc_collaterals s = collaterals d" "rc_approved_measurements s = approved_measurements d"
    and "attached_deposit cx = 0" "attached_deposit cx' = 0" "block_timestamp cx' = block_timestamp cx"
    and "predecessor cx = init_worker_account s" "predecessor cx' = init_account_id d"
    and "pk |\<notin>| approved_keystores d" "next_proposal_id d + 1 < 2 ^ 64"
  shows "(\<exists>t es. register_worker_key tee cx pk quote s = Inr (t, es)) \<longleftrightarrow>
    (\<exists>t es. submit_keystore_registration tee cx' pk quote d = Inr (t, es))"
  unfolding register_worker_key_def submit_keystore_registration_def verify_copies Let_def run_simps
  using assms by auto

definition demo_register :: register_contract where
  "demo_register = \<lparr>rc_owner_id = ''o'', init_worker_account = ''init'',
     rc_approved_measurements = [demo_measurements], rc_collaterals = [''fmspc:20a06f000000''],
     outlayer_contract_id = ''outlayer''\<rparr>"

lemma demo_worker: "register_worker_key demo_tee (call_by ''init'' 0) demo_key ''key'' demo_register =
    Inr (demo_register, [AddWorkerKey demo_key worker_allowance ''outlayer'' worker_methods])"
  by (simp add: register_worker_key_def verify_copies demo_register_def demo_eval)

theorem worker_key_needs_attestation_witness:
  "\<exists>m\<in>set (rc_approved_measurements demo_register).
     attests demo_tee 1000 (rc_collaterals demo_register) ''key'' demo_key m"
  using worker_key_needs_attestation [of demo_tee "RegisterWorkerKey demo_key ''key''" "call_by ''init'' 0"
      demo_register demo_register "[AddWorkerKey demo_key worker_allowance ''outlayer'' worker_methods]"
      "AddWorkerKey demo_key worker_allowance ''outlayer'' worker_methods"]
  by (simp add: demo_worker) (simp add: call_by_def)

theorem register_and_dao_judge_alike_witness:
  "\<exists>d t es. collaterals d = rc_collaterals demo_register \<and>
     submit_keystore_registration demo_tee (call_by ''init'' 0) demo_key ''key'' d = Inr (t, es)"
proof -
  let ?d = "demo_dao\<lparr>collaterals := [''fmspc:20a06f000000''], approved_measurements := [demo_measurements]\<rparr>"
  have "\<exists>t es. submit_keystore_registration demo_tee (call_by ''init'' 0) demo_key ''key'' ?d = Inr (t, es)"
    by (rule iffD1 [OF register_and_dao_judge_alike [of demo_register ?d "call_by ''init'' 0" "call_by ''init'' 0"]])
      (simp_all add: demo_register_def demo_dao_def new_dao_def eval_simps
        demo_worker [unfolded demo_register_def call_by_def])
  moreover have "collaterals ?d = rc_collaterals demo_register" by (simp add: demo_register_def)
  ultimately show ?thesis by blast
qed

end
