(* ===== verification/Net_Guard.thy ===== *)
theory Net_Guard
  imports Main "HOL-Library.Word"
begin

text \<open>
  Where a worker may connect for a guest (\<open>worker/src/net_guard.rs\<close>): the test on an address, with
  its octets and segments as machine words and its bit masks as the code has them, and the test on
  the addresses a name resolved to. The standard library's classes of addresses are written out. The
  reference is the list of address blocks, each a prefix and its length, and an address is in a block
  when the leading bits agree.
\<close>

unbundle bit_operations_syntax

section \<open>Addresses\<close>

datatype ip_addr =
    V4 "8 word" "8 word" "8 word" "8 word"
  | V6 "16 word" "16 word" "16 word" "16 word" "16 word" "16 word" "16 word" "16 word"

record socket_addr =
  sa_ip :: ip_addr
  sa_port :: "16 word"

text \<open>\<open>Ipv4Addr\<close>: \<open>is_loopback\<close>, \<open>is_private\<close>, \<open>is_link_local\<close>, \<open>is_unspecified\<close>, \<open>is_broadcast\<close>,
  \<open>is_documentation\<close>.\<close>

definition v4_is_loopback :: "8 word \<Rightarrow> bool" where
  "v4_is_loopback a \<longleftrightarrow> a = 127"

definition v4_is_private :: "8 word \<Rightarrow> 8 word \<Rightarrow> bool" where
  "v4_is_private a b \<longleftrightarrow> a = 10 \<or> (a = 172 \<and> 16 \<le> b \<and> b \<le> 31) \<or> (a = 192 \<and> b = 168)"

definition v4_is_link_local :: "8 word \<Rightarrow> 8 word \<Rightarrow> bool" where
  "v4_is_link_local a b \<longleftrightarrow> a = 169 \<and> b = 254"

definition v4_is_documentation :: "8 word \<Rightarrow> 8 word \<Rightarrow> 8 word \<Rightarrow> bool" where
  "v4_is_documentation a b c \<longleftrightarrow>
     (a = 192 \<and> b = 0 \<and> c = 2) \<or> (a = 198 \<and> b = 51 \<and> c = 100) \<or> (a = 203 \<and> b = 0 \<and> c = 113)"

definition is_blocked_v4 :: "8 word \<Rightarrow> 8 word \<Rightarrow> 8 word \<Rightarrow> 8 word \<Rightarrow> bool" where
  "is_blocked_v4 a b c d \<longleftrightarrow>
     v4_is_loopback a \<or> v4_is_private a b \<or> v4_is_link_local a b
     \<or> (a = 0 \<and> b = 0 \<and> c = 0 \<and> d = 0) \<or> (a = 255 \<and> b = 255 \<and> c = 255 \<and> d = 255)
     \<or> v4_is_documentation a b c
     \<or> a = 0
     \<or> (a = 100 \<and> (b AND 0xc0) = 0x40)
     \<or> (a = 198 \<and> (b AND 0xfe) = 18)
     \<or> (a = 192 \<and> b = 0 \<and> c = 0)
     \<or> (a = 192 \<and> b = 88 \<and> c = 99)
     \<or> (a AND 0xf0) = 0xe0
     \<or> a \<ge> 240"

text \<open>\<open>Ipv6Addr::to_ipv4\<close>: the mapped and the compatible form, the last two segments as octets.\<close>

definition to_ipv4 :: "ip_addr \<Rightarrow> ip_addr option" where
  "to_ipv4 ip =
     (case ip of
        V6 s0 s1 s2 s3 s4 s5 s6 s7 \<Rightarrow>
          (if s0 = 0 \<and> s1 = 0 \<and> s2 = 0 \<and> s3 = 0 \<and> s4 = 0 \<and> (s5 = 0 \<or> s5 = 0xffff)
           then Some (V4 (ucast (drop_bit 8 s6)) (ucast s6) (ucast (drop_bit 8 s7)) (ucast s7))
           else None)
      | V4 _ _ _ _ \<Rightarrow> None)"

fun is_blocked_ip :: "ip_addr \<Rightarrow> bool" where
  "is_blocked_ip (V4 a b c d) = is_blocked_v4 a b c d"
| "is_blocked_ip (V6 s0 s1 s2 s3 s4 s5 s6 s7) =
     (case to_ipv4 (V6 s0 s1 s2 s3 s4 s5 s6 s7) of
        Some (V4 a b c d) \<Rightarrow> is_blocked_v4 a b c d
      | _ \<Rightarrow>
          (s0 = 0 \<and> s1 = 0 \<and> s2 = 0 \<and> s3 = 0 \<and> s4 = 0 \<and> s5 = 0 \<and> s6 = 0 \<and> s7 = 1)
          \<or> (s0 = 0 \<and> s1 = 0 \<and> s2 = 0 \<and> s3 = 0 \<and> s4 = 0 \<and> s5 = 0 \<and> s6 = 0 \<and> s7 = 0)
          \<or> (s0 AND 0xfe00) = 0xfc00
          \<or> (s0 AND 0xffc0) = 0xfe80
          \<or> (s0 AND 0xff00) = 0xff00
          \<or> (s0 = 0x0064 \<and> s1 = 0xff9b)
          \<or> (s0 = 0x2001 \<and> s1 = 0x0db8))"

definition checked_addresses :: "socket_addr list \<Rightarrow> socket_addr list option" where
  "checked_addresses addrs =
     (if addrs = [] \<or> (\<exists>a\<in>set addrs. is_blocked_ip (sa_ip a)) then None else Some addrs)"

section \<open>The blocks\<close>

definition v4_number :: "8 word \<Rightarrow> 8 word \<Rightarrow> 8 word \<Rightarrow> 8 word \<Rightarrow> nat" where
  "v4_number a b c d = ((unat a * 256 + unat b) * 256 + unat c) * 256 + unat d"

definition in_block :: "nat \<Rightarrow> nat \<Rightarrow> nat \<times> nat \<Rightarrow> bool" where
  "in_block width n block = (n div 2 ^ (width - snd block) = fst block div 2 ^ (width - snd block))"

text \<open>0/8, 10/8, 100.64/10, 127/8, 169.254/16, 172.16/12, 192.0.0/24, 192.0.2/24, 192.88.99/24,
  192.168/16, 198.18/15, 198.51.100/24, 203.0.113/24, 224/4 and 240/4.\<close>

definition reserved_v4 :: "(nat \<times> nat) list" where
  "reserved_v4 =
     [(0x00000000, 8), (0x0a000000, 8), (0x64400000, 10), (0x7f000000, 8), (0xa9fe0000, 16),
      (0xac100000, 12), (0xc0000000, 24), (0xc0000200, 24), (0xc0586300, 24), (0xc0a80000, 16),
      (0xc6120000, 15), (0xc6336400, 24), (0xcb007100, 24), (0xe0000000, 4), (0xf0000000, 4)]"

lemma octet: "unat (a :: 8 word) < 256"
proof -
  have "unat a < 2 ^ LENGTH(8)" by (rule unsigned_less)
  then show ?thesis by simp
qed

lemma digits_eq:
  fixes x y u v k :: nat
  assumes "y < k" "v < k"
  shows "x * k + y = u * k + v \<longleftrightarrow> x = u \<and> y = v"
proof
  assume eq: "x * k + y = u * k + v"
  from arg_cong [OF eq, of "\<lambda>n. n div k"] arg_cong [OF eq, of "\<lambda>n. n mod k"] assms
  show "x = u \<and> y = v" by simp
qed simp

lemma octet_prefixes:
  fixes a b c d :: nat
  assumes "a < 256" "b < 256" "c < 256" "d < 256"
  defines "n \<equiv> ((a * 256 + b) * 256 + c) * 256 + d"
  shows "n div 2 ^ 24 = a" "n div 2 ^ 16 = a * 256 + b" "n div 2 ^ 8 = (a * 256 + b) * 256 + c"
    "n div 2 ^ 22 = a * 4 + b div 64" "n div 2 ^ 20 = a * 16 + b div 16"
    "n div 2 ^ 17 = a * 128 + b div 2" "n div 2 ^ 28 = a div 16"
  using assms(1-4) unfolding n_def by simp_all

lemma v4_prefixes:
  "v4_number a b c d div 2 ^ 24 = unat a" "v4_number a b c d div 2 ^ 16 = unat a * 256 + unat b"
  "v4_number a b c d div 2 ^ 8 = (unat a * 256 + unat b) * 256 + unat c"
  "v4_number a b c d div 2 ^ 22 = unat a * 4 + unat b div 64"
  "v4_number a b c d div 2 ^ 20 = unat a * 16 + unat b div 16"
  "v4_number a b c d div 2 ^ 17 = unat a * 128 + unat b div 2"
  "v4_number a b c d div 2 ^ 28 = unat a div 16"
  unfolding v4_number_def by (rule octet_prefixes [OF octet octet octet octet])+

text \<open>A mask of leading ones keeps the leading bits.\<close>

lemma and_leading:
  fixes x :: nat
  assumes "x < 2 ^ (k + j)"
  shows "x AND push_bit k (mask j) = 2 ^ k * (x div 2 ^ k)"
proof -
  have short: "bit x n \<Longrightarrow> n < k + j" for n
    using assms by (metis bit_take_bit_iff take_bit_nat_eq_self)
  have "x AND push_bit k (mask j) = push_bit k (drop_bit k x)"
    by (rule bit_eqI) (use short in \<open>auto simp: bit_and_iff bit_push_bit_iff bit_mask_iff bit_drop_bit_eq less_diff_conv2 add.commute\<close>)
  then show ?thesis by (simp add: push_bit_eq_mult drop_bit_eq_div mult.commute)
qed

lemma octet_masks:
  "unat (b AND 0xc0 :: 8 word) = 64 * (unat b div 64)"
  "unat (b AND 0xfe :: 8 word) = 2 * (unat b div 2)"
  "unat (b AND 0xf0 :: 8 word) = 16 * (unat b div 16)"
proof -
  have b: "unat b < 2 ^ (6 + 2)" "unat b < 2 ^ (1 + 7)" "unat b < 2 ^ (4 + 4)" using octet [of b] by simp_all
  have "unat b AND 0xc0 = 64 * (unat b div 64)" "unat b AND 0xfe = 2 * (unat b div 2)"
      "unat b AND 0xf0 = 16 * (unat b div 16)"
    using and_leading [OF b(1)] and_leading [OF b(2)] and_leading [OF b(3)]
    by (simp_all add: push_bit_eq_mult mask_eq_exp_minus_1)
  then show "unat (b AND 0xc0 :: 8 word) = 64 * (unat b div 64)" "unat (b AND 0xfe :: 8 word) = 2 * (unat b div 2)"
      "unat (b AND 0xf0 :: 8 word) = 16 * (unat b div 16)"
    by (simp_all add: unsigned_and_eq)
qed

lemma word_eq_unat: "a = b \<longleftrightarrow> unat a = unat b"
  by (rule word_unat_eq_iff)

lemma leading_values:
  fixes n :: nat
  shows "16 * (n div 16) = 224 \<or> 240 \<le> n \<longleftrightarrow> 224 \<le> n"
    and "16 \<le> n \<and> n \<le> 31 \<longleftrightarrow> n div 16 = 1"
    and "64 * (n div 64) = 64 \<longleftrightarrow> n div 64 = 1" and "2 * (n div 2) = 18 \<longleftrightarrow> n div 2 = 9"
    and "n < 256 \<Longrightarrow> n div 16 = 14 \<or> n div 16 = 15 \<longleftrightarrow> 224 \<le> n"
  by (auto; linarith)+

lemma blocked_v4_octets:
  fixes a b c d :: "8 word"
  shows "is_blocked_v4 a b c d \<longleftrightarrow>
    unat a \<in> {0, 10, 127} \<or> 224 \<le> unat a \<or> (unat a = 100 \<and> unat b div 64 = 1) \<or>
    (unat a = 169 \<and> unat b = 254) \<or> (unat a = 172 \<and> unat b div 16 = 1) \<or>
    (unat a = 192 \<and> unat b = 0 \<and> unat c \<in> {0, 2}) \<or> (unat a = 192 \<and> unat b = 88 \<and> unat c = 99) \<or>
    (unat a = 192 \<and> unat b = 168) \<or> (unat a = 198 \<and> unat b div 2 = 9) \<or>
    (unat a = 198 \<and> unat b = 51 \<and> unat c = 100) \<or> (unat a = 203 \<and> unat b = 0 \<and> unat c = 113)"
proof -
  note top = leading_values(1) [of "unat a"] and mid = leading_values(2-4) [of "unat b"]
  have eqs: "a = 127 \<longleftrightarrow> unat a = 127" "a = 10 \<longleftrightarrow> unat a = 10" "a = 172 \<longleftrightarrow> unat a = 172"
      "a = 192 \<longleftrightarrow> unat a = 192" "a = 169 \<longleftrightarrow> unat a = 169" "a = 198 \<longleftrightarrow> unat a = 198" "a = 203 \<longleftrightarrow> unat a = 203"
      "a = 0 \<longleftrightarrow> unat a = 0" "a = 100 \<longleftrightarrow> unat a = 100" "a = 255 \<longleftrightarrow> unat a = 255" "240 \<le> a \<longleftrightarrow> 240 \<le> unat a"
      "(a AND 0xf0) = 0xe0 \<longleftrightarrow> 16 * (unat a div 16) = 224"
      "16 \<le> b \<longleftrightarrow> 16 \<le> unat b" "b \<le> 31 \<longleftrightarrow> unat b \<le> 31" "b = 168 \<longleftrightarrow> unat b = 168" "b = 254 \<longleftrightarrow> unat b = 254"
      "b = 0 \<longleftrightarrow> unat b = 0" "b = 51 \<longleftrightarrow> unat b = 51" "b = 88 \<longleftrightarrow> unat b = 88"
      "(b AND 0xc0) = 0x40 \<longleftrightarrow> 64 * (unat b div 64) = 64" "(b AND 0xfe) = 18 \<longleftrightarrow> 2 * (unat b div 2) = 18"
      "c = 0 \<longleftrightarrow> unat c = 0" "c = 2 \<longleftrightarrow> unat c = 2" "c = 100 \<longleftrightarrow> unat c = 100" "c = 113 \<longleftrightarrow> unat c = 113"
      "c = 99 \<longleftrightarrow> unat c = 99"
    by (simp_all add: word_eq_unat word_le_nat_alt octet_masks)
  show ?thesis
    unfolding is_blocked_v4_def v4_is_loopback_def v4_is_private_def v4_is_link_local_def
      v4_is_documentation_def eqs top mid insert_iff empty_iff
    by (rule iffI; elim disjE conjE; simp)
qed

lemma reserved_v4_octets:
  fixes a b c d :: "8 word"
  shows "(\<exists>r\<in>set reserved_v4. in_block 32 (v4_number a b c d) r) \<longleftrightarrow>
    unat a \<in> {0, 10, 127} \<or> 224 \<le> unat a \<or> (unat a = 100 \<and> unat b div 64 = 1) \<or>
    (unat a = 169 \<and> unat b = 254) \<or> (unat a = 172 \<and> unat b div 16 = 1) \<or>
    (unat a = 192 \<and> unat b = 0 \<and> unat c \<in> {0, 2}) \<or> (unat a = 192 \<and> unat b = 88 \<and> unat c = 99) \<or>
    (unat a = 192 \<and> unat b = 168) \<or> (unat a = 198 \<and> unat b div 2 = 9) \<or>
    (unat a = 198 \<and> unat b = 51 \<and> unat c = 100) \<or> (unat a = 203 \<and> unat b = 0 \<and> unat c = 113)"
proof -
  let ?n = "v4_number a b c d"
  have r: "(\<exists>r\<in>set reserved_v4. in_block 32 ?n r) \<longleftrightarrow>
      ?n div 2 ^ 24 \<in> {0, 10, 127} \<or> ?n div 2 ^ 22 = 401 \<or> ?n div 2 ^ 16 \<in> {43518, 49320} \<or>
      ?n div 2 ^ 20 = 2753 \<or> ?n div 2 ^ 8 \<in> {12582912, 12582914, 12605539, 12989284, 13303921} \<or>
      ?n div 2 ^ 17 = 25353 \<or> ?n div 2 ^ 28 \<in> {14, 15}"
    by (auto simp: reserved_v4_def in_block_def)
  note two = digits_eq [where k = 256]
  have o: "unat a < 256" "unat b < 256" "unat c < 256" by (rule octet)+
  have e: "unat a * 4 + unat b div 64 = 401 \<longleftrightarrow> unat a = 100 \<and> unat b div 64 = 1"
      "unat a * 16 + unat b div 16 = 2753 \<longleftrightarrow> unat a = 172 \<and> unat b div 16 = 1"
      "unat a * 128 + unat b div 2 = 25353 \<longleftrightarrow> unat a = 198 \<and> unat b div 2 = 9"
      "unat a div 16 = 14 \<or> unat a div 16 = 15 \<longleftrightarrow> 224 \<le> unat a"
    using o digits_eq [of "unat b div 64" 4 1 "unat a" 100] digits_eq [of "unat b div 16" 16 1 "unat a" 172]
      digits_eq [of "unat b div 2" 128 9 "unat a" 198] leading_values(5) [of "unat a"] by simp_all
  have p: "unat a * 256 + unat b = 43518 \<longleftrightarrow> unat a = 169 \<and> unat b = 254"
      "unat a * 256 + unat b = 49320 \<longleftrightarrow> unat a = 192 \<and> unat b = 168"
      "unat a * 256 + unat b = 49152 \<longleftrightarrow> unat a = 192 \<and> unat b = 0"
      "unat a * 256 + unat b = 49240 \<longleftrightarrow> unat a = 192 \<and> unat b = 88"
      "unat a * 256 + unat b = 50739 \<longleftrightarrow> unat a = 198 \<and> unat b = 51"
      "unat a * 256 + unat b = 51968 \<longleftrightarrow> unat a = 203 \<and> unat b = 0"
    using o two [of "unat b" 254 "unat a" 169] two [of "unat b" 168 "unat a" 192] two [of "unat b" 0 "unat a" 192]
      two [of "unat b" 88 "unat a" 192] two [of "unat b" 51 "unat a" 198] two [of "unat b" 0 "unat a" 203]
    by simp_all
  have q: "(unat a * 256 + unat b) * 256 + unat c = k \<longleftrightarrow> unat a * 256 + unat b = k div 256 \<and> unat c = k mod 256" for k
    using digits_eq [of "unat c" 256 "k mod 256" "unat a * 256 + unat b" "k div 256"] o by simp
  show ?thesis
    unfolding r v4_prefixes insert_iff empty_iff e p q
    by (simp add: p e(4)) (rule iffI; elim disjE conjE; simp)
qed

section \<open>What is refused\<close>

text \<open>fc00::/7, fe80::/10, ff00::/8, 64:ff9b::/32 and 2001:db8::/32, by the leading 32 bits.\<close>

definition reserved_v6 :: "(nat \<times> nat) list" where
  "reserved_v6 = [(0xfc000000, 7), (0xfe800000, 10), (0xff000000, 8), (0x0064ff9b, 32), (0x20010db8, 32)]"

definition v6_prefix :: "16 word \<Rightarrow> 16 word \<Rightarrow> nat" where
  "v6_prefix s0 s1 = unat s0 * 65536 + unat s1"

lemma segment: "unat (a :: 16 word) < 65536"
proof -
  have "unat a < 2 ^ LENGTH(16)" by (rule unsigned_less)
  then show ?thesis by simp
qed

lemma segment_masks:
  "unat (s AND 0xfe00 :: 16 word) = 512 * (unat s div 512)"
  "unat (s AND 0xffc0 :: 16 word) = 64 * (unat s div 64)"
  "unat (s AND 0xff00 :: 16 word) = 256 * (unat s div 256)"
proof -
  have b: "unat s < 2 ^ (9 + 7)" "unat s < 2 ^ (6 + 10)" "unat s < 2 ^ (8 + 8)" using segment [of s] by simp_all
  have "unat s AND 0xfe00 = 512 * (unat s div 512)" "unat s AND 0xffc0 = 64 * (unat s div 64)"
      "unat s AND 0xff00 = 256 * (unat s div 256)"
    using and_leading [OF b(1)] and_leading [OF b(2)] and_leading [OF b(3)]
    by (simp_all add: push_bit_eq_mult mask_eq_exp_minus_1)
  then show "unat (s AND 0xfe00 :: 16 word) = 512 * (unat s div 512)"
      "unat (s AND 0xffc0 :: 16 word) = 64 * (unat s div 64)"
      "unat (s AND 0xff00 :: 16 word) = 256 * (unat s div 256)"
    by (simp_all add: unsigned_and_eq)
qed

lemma reserved_v6_segments:
  "(\<exists>r\<in>set reserved_v6. in_block 32 (v6_prefix s0 s1) r) \<longleftrightarrow>
    (s0 AND 0xfe00) = 0xfc00 \<or> (s0 AND 0xffc0) = 0xfe80 \<or> (s0 AND 0xff00) = 0xff00 \<or>
    (s0 = 0x0064 \<and> s1 = 0xff9b) \<or> (s0 = 0x2001 \<and> s1 = 0x0db8)"
proof -
  have o: "unat s0 < 65536" "unat s1 < 65536" by (rule segment)+
  have r: "(\<exists>r\<in>set reserved_v6. in_block 32 (v6_prefix s0 s1) r) \<longleftrightarrow>
      v6_prefix s0 s1 div 2 ^ 25 = 126 \<or> v6_prefix s0 s1 div 2 ^ 22 = 1018 \<or>
      v6_prefix s0 s1 div 2 ^ 24 = 255 \<or> v6_prefix s0 s1 = 0x0064ff9b \<or> v6_prefix s0 s1 = 0x20010db8"
    by (auto simp: reserved_v6_def in_block_def)
  have p: "v6_prefix s0 s1 div 2 ^ 25 = unat s0 div 512" "v6_prefix s0 s1 div 2 ^ 22 = unat s0 div 64"
      "v6_prefix s0 s1 div 2 ^ 24 = unat s0 div 256"
    using o unfolding v6_prefix_def by simp_all
  have e: "(s0 AND 0xfe00) = 0xfc00 \<longleftrightarrow> unat s0 div 512 = 126" "(s0 AND 0xffc0) = 0xfe80 \<longleftrightarrow> unat s0 div 64 = 1018"
      "(s0 AND 0xff00) = 0xff00 \<longleftrightarrow> unat s0 div 256 = 255"
    by (simp_all add: word_eq_unat segment_masks)
  have q: "v6_prefix s0 s1 = 0x0064ff9b \<longleftrightarrow> s0 = 0x0064 \<and> s1 = 0xff9b"
      "v6_prefix s0 s1 = 0x20010db8 \<longleftrightarrow> s0 = 0x2001 \<and> s1 = 0x0db8"
    using o digits_eq [of "unat s1" 65536 "0xff9b" "unat s0" "0x0064"] digits_eq [of "unat s1" 65536 "0x0db8" "unat s0" "0x2001"]
    unfolding v6_prefix_def word_eq_unat by simp_all
  show ?thesis unfolding r p e q by (rule refl)
qed

text \<open>
  The guard refuses exactly the reserved blocks. An IPv4 address is refused if and only if it lies in
  one of the fifteen blocks of the list; an IPv6 address that carries an IPv4 address, mapped or
  compatible, exactly when that address is; any other IPv6 address if and only if it lies in one of
  the five IPv6 blocks. The masks of the code test the prefixes they are meant to test, and the
  translation prefix is refused for all of 64:ff9b::/32, more than the /96 its comment names.
\<close>

theorem guard_refuses_reserved_blocks:
  "is_blocked_ip ip =
    (case ip of
       V4 a b c d \<Rightarrow> \<exists>r\<in>set reserved_v4. in_block 32 (v4_number a b c d) r
     | V6 s0 s1 s2 s3 s4 s5 s6 s7 \<Rightarrow>
         (case to_ipv4 ip of
            Some v4 \<Rightarrow> is_blocked_ip v4
          | None \<Rightarrow> \<exists>r\<in>set reserved_v6. in_block 32 (v6_prefix s0 s1) r))"
proof (cases ip)
  case (V4 a b c d)
  then show ?thesis by (simp add: blocked_v4_octets reserved_v4_octets)
next
  case (V6 s0 s1 s2 s3 s4 s5 s6 s7)
  show ?thesis
  proof (cases "to_ipv4 ip")
    case None
    with V6 have "\<not> (s0 = 0 \<and> s1 = 0 \<and> s2 = 0 \<and> s3 = 0 \<and> s4 = 0 \<and> s5 = 0)"
      by (auto simp: to_ipv4_def)
    with V6 None show ?thesis by (simp add: reserved_v6_segments del: word_eq_unat) blast
  next
    case (Some v4)
    with V6 obtain a b c d where "v4 = V4 a b c d" by (auto simp: to_ipv4_def split: if_splits)
    with V6 Some show ?thesis by simp
  qed
qed

text \<open>
  A name is connected to only when it resolved to something and none of its addresses is reserved,
  and then to exactly the addresses it resolved to, in their order.
\<close>

theorem names_are_judged_whole:
  "checked_addresses addrs = Some out \<longleftrightarrow>
    out = addrs \<and> addrs \<noteq> [] \<and> (\<forall>a\<in>set out. \<not> is_blocked_ip (sa_ip a))"
  by (auto simp: checked_addresses_def)

end
