(* ===== verification/Callers.thy ===== *)
theory Callers
  imports Near_Prelude
begin

text \<open>
  Who may run a project (\<open>worker/src/callers.rs\<close>): the \<open>callers\<close> block of a manifest with its defaults
  and rules, the door a run came through, and the admission. Parsing an account id is the NEAR
  library's; deserialising the block is serde's, so a block arrives here as it was declared.
\<close>

datatype door = Allow | Deny
datatype contract_door = ContractAllow | ContractDeny | Only "account list"

record declared =
  dc_direct :: "door option"
  dc_contract :: "contract_door option"
  dc_https :: "door option"
  dc_meta_tx :: "door option"

record callers =
  cl_direct :: door
  cl_contract :: contract_door
  cl_https :: door
  cl_meta_tx :: door

datatype block_error =
    AdmitsNobody | NamesTooMany nat | NotAnAccountId account | NamedTwice account | NeverApplies string

definition MAX_CONTRACT_ALLOWLIST :: nat where "MAX_CONTRACT_ALLOWLIST = 32"

fun check_names :: "(account \<Rightarrow> bool) \<Rightarrow> account list \<Rightarrow> account list \<Rightarrow> block_error option" where
  "check_names valid before [] = None"
| "check_names valid before (i # ids) =
     (if \<not> valid i then Some (NotAnAccountId i)
      else if i \<in> set before then Some (NamedTwice i)
      else check_names valid (before @ [i]) ids)"

definition check_allowlist :: "(account \<Rightarrow> bool) \<Rightarrow> account list \<Rightarrow> block_error option" where
  "check_allowlist valid ids =
     (if ids = [] then Some AdmitsNobody
      else if length ids > MAX_CONTRACT_ALLOWLIST then Some (NamesTooMany (length ids))
      else check_names valid [] ids)"

fun first_useless_allow :: "(string \<times> door option) list \<Rightarrow> block_error option" where
  "first_useless_allow [] = None"
| "first_useless_allow ((name, d) # doors) =
     (if d = Some Allow then Some (NeverApplies name) else first_useless_allow doors)"

definition from_declared :: "(account \<Rightarrow> bool) \<Rightarrow> declared \<Rightarrow> block_error + callers" where
  "from_declared valid d =
     (let callers =
        \<lparr>cl_direct = (case dc_direct d of None \<Rightarrow> Allow | Some x \<Rightarrow> x),
         cl_contract = (case dc_contract d of None \<Rightarrow> ContractAllow | Some x \<Rightarrow> x),
         cl_https = (case dc_https d of None \<Rightarrow> Allow | Some x \<Rightarrow> x),
         cl_meta_tx = (case dc_meta_tx d of None \<Rightarrow> Deny | Some x \<Rightarrow> x)\<rparr>
      in case cl_contract callers of
           Only ids \<Rightarrow>
             (case check_allowlist valid ids of
                Some e \<Rightarrow> Inl e
              | None \<Rightarrow>
                  (case first_useless_allow [(''direct'', dc_direct d), (''https'', dc_https d), (''meta_tx'', dc_meta_tx d)] of
                     Some e \<Rightarrow> Inl e | None \<Rightarrow> Inr callers))
         | _ \<Rightarrow> Inr callers)"

definition admits_direct :: "callers \<Rightarrow> bool" where
  "admits_direct c \<longleftrightarrow> (case cl_contract c of Only _ \<Rightarrow> False | _ \<Rightarrow> True) \<and> cl_direct c = Allow"

definition admits_https :: "callers \<Rightarrow> bool" where
  "admits_https c \<longleftrightarrow> (case cl_contract c of Only _ \<Rightarrow> False | _ \<Rightarrow> True) \<and> cl_https c = Allow"

datatype caller_door = Direct | ThroughContract | MetaTransaction | Https

record run_caller =
  is_https_call :: bool
  user_account_id :: "account option"
  predecessor_account :: "account option"
  relayer_id :: "account option"

datatype caller_refusal =
    CallerNotReported
  | OnlyContractsNotHttps
  | NotOneOfThem account caller_door
  | HttpsDenied
  | DirectDenied account
  | MetaTransactionDenied account
  | ContractDenied account

definition door_of :: "run_caller \<Rightarrow> caller_refusal + caller_door" where
  "door_of run =
     (if is_https_call run then Inr Https
      else case predecessor_account run of
             None \<Rightarrow> Inl CallerNotReported
           | Some pred \<Rightarrow>
               (if relayer_id run \<noteq> None then Inr MetaTransaction
                else if user_account_id run = Some pred then Inr Direct
                else Inr ThroughContract))"

definition or_unnamed :: "account option \<Rightarrow> account" where
  "or_unnamed a = (case a of None \<Rightarrow> ''an unnamed account'' | Some x \<Rightarrow> x)"

definition admit :: "callers option \<Rightarrow> run_caller \<Rightarrow> caller_refusal + unit" where
  "admit callers run =
     (case callers of
        None \<Rightarrow> Inr ()
      | Some c \<Rightarrow>
          (case door_of run of
             Inl e \<Rightarrow> Inl e
           | Inr door \<Rightarrow>
               let pred = or_unnamed (predecessor_account run) in
               case cl_contract c of
                 Only ids \<Rightarrow>
                   (if door = Https then Inl OnlyContractsNotHttps
                    else if pred \<in> set ids then Inr ()
                    else Inl (NotOneOfThem pred door))
               | _ \<Rightarrow>
                   (if door = Https \<and> cl_https c = Deny then Inl HttpsDenied
                    else if door = Direct \<and> cl_direct c = Deny then Inl (DirectDenied pred)
                    else if door = MetaTransaction \<and> cl_meta_tx c = Deny then Inl (MetaTransactionDenied pred)
                    else if door = ThroughContract \<and> cl_contract c = ContractDeny then Inl (ContractDenied pred)
                    else Inr ())))"

section \<open>What a block admits\<close>

lemma check_names_None:
  "check_names valid before ids = None \<longleftrightarrow>
     (\<forall>i\<in>set ids. valid i) \<and> distinct ids \<and> set before \<inter> set ids = {}"
  by (induction ids arbitrary: before) auto

lemma check_allowlist_None:
  "check_allowlist valid ids = None \<longleftrightarrow>
     ids \<noteq> [] \<and> length ids \<le> MAX_CONTRACT_ALLOWLIST \<and> (\<forall>i\<in>set ids. valid i) \<and> distinct ids"
  by (auto simp: check_allowlist_def check_names_None)

lemma from_declared_Inr:
  assumes "from_declared valid d = Inr c"
  shows "cl_contract c = (case dc_contract d of None \<Rightarrow> ContractAllow | Some x \<Rightarrow> x)"
    "cl_direct c = (case dc_direct d of None \<Rightarrow> Allow | Some x \<Rightarrow> x)"
    "cl_https c = (case dc_https d of None \<Rightarrow> Allow | Some x \<Rightarrow> x)"
    "cl_meta_tx c = (case dc_meta_tx d of None \<Rightarrow> Deny | Some x \<Rightarrow> x)"
    "cl_contract c = Only ids \<Longrightarrow> check_allowlist valid ids = None \<and>
       dc_direct d \<noteq> Some Allow \<and> dc_https d \<noteq> Some Allow \<and> dc_meta_tx d \<noteq> Some Allow"
  using assms
  by (auto simp: from_declared_def Let_def split: contract_door.splits option.splits if_splits)

lemma not_Deny [simp]: "x \<noteq> Deny \<longleftrightarrow> x = Allow"
  by (cases x) auto

text \<open>
  A project is run by those its block declares and by nobody else. Given a block that passed its
  rules, a run is admitted if and only if: where the block names contracts, the run came on chain and
  the account that called the platform is one of those named; otherwise, the door the run came
  through is open (a meta-transaction only when the block says so, every other door unless it says
  no), and a run on chain says who called.
\<close>

theorem admitted_exactly:
  assumes "from_declared valid d = Inr c"
  shows "admit (Some c) run = Inr () \<longleftrightarrow>
      (case dc_contract d of
         Some (Only ids) \<Rightarrow>
           \<not> is_https_call run \<and> (\<exists>p\<in>set ids. predecessor_account run = Some p)
       | contract \<Rightarrow>
           if is_https_call run then dc_https d \<noteq> Some Deny
           else predecessor_account run \<noteq> None \<and>
             (if relayer_id run \<noteq> None then dc_meta_tx d = Some Allow
              else if user_account_id run = predecessor_account run then dc_direct d \<noteq> Some Deny
              else contract \<noteq> Some ContractDeny))"
  by (auto simp: admit_def door_of_def or_unnamed_def Let_def from_declared_Inr(1-4) [OF assms]
      split: contract_door.splits option.splits)

text \<open>
  A block that names contracts names at least one and at most thirty-two valid account ids, none
  twice, and no door beside it is declared open: a declaration that could never apply does not parse.
\<close>

theorem named_contracts_are_sound:
  assumes "from_declared valid d = Inr c" "cl_contract c = Only ids"
  shows "ids \<noteq> [] \<and> length ids \<le> 32 \<and> distinct ids \<and> (\<forall>i\<in>set ids. valid i) \<and>
    Some Allow \<notin> {dc_direct d, dc_https d, dc_meta_tx d}"
  using from_declared_Inr(5) [OF assms(1,2)]
  by (auto simp: check_allowlist_None MAX_CONTRACT_ALLOWLIST_def)

text \<open>
  \<open>admits_direct\<close> says what an account signing its own call meets, unless the block names contracts:
  there it says no, while a direct call by an account the block names is admitted.
\<close>

theorem direct_answer:
  assumes "\<not> is_https_call run" "relayer_id run = None" "user_account_id run = Some a" "predecessor_account run = Some a"
  shows "admit (Some c) run = Inr () \<longleftrightarrow> admits_direct c \<or> (\<exists>ids. cl_contract c = Only ids \<and> a \<in> set ids)"
  using assms
  by (auto simp: admit_def door_of_def or_unnamed_def admits_direct_def Let_def split: contract_door.splits)

definition named_block :: declared where
  "named_block = \<lparr>dc_direct = None, dc_contract = Some (Only [''dex.near'']), dc_https = None, dc_meta_tx = None\<rparr>"

definition run_by :: "account \<Rightarrow> account \<Rightarrow> run_caller" where
  "run_by user pred = \<lparr>is_https_call = False, user_account_id = Some user, predecessor_account = Some pred, relayer_id = None\<rparr>"

definition named_callers :: callers where
  "named_callers = \<lparr>cl_direct = Allow, cl_contract = Only [''dex.near''], cl_https = Allow, cl_meta_tx = Deny\<rparr>"

lemma named_parses: "from_declared (\<lambda>a. True) named_block = Inr named_callers"
  by (simp add: from_declared_def named_block_def named_callers_def check_allowlist_def MAX_CONTRACT_ALLOWLIST_def)

theorem admitted_exactly_witness:
  "admit (Some named_callers) (run_by ''alice.near'' ''dex.near'') = Inr () \<and>
   admit (Some named_callers) (run_by ''alice.near'' ''alice.near'') \<noteq> Inr ()"
  using admitted_exactly [OF named_parses, of "run_by ''alice.near'' ''dex.near''"]
    admitted_exactly [OF named_parses, of "run_by ''alice.near'' ''alice.near''"]
  by (simp add: named_block_def run_by_def)

theorem named_contracts_are_sound_witness: "length [''dex.near''] \<le> 32 \<and> distinct [''dex.near'']"
  using named_contracts_are_sound [OF named_parses, of "[''dex.near'']"] by (simp add: named_callers_def)

theorem direct_answer_witness:
  "admit (Some named_callers) (run_by ''dex.near'' ''dex.near'') = Inr () \<and> \<not> admits_direct named_callers"
  using direct_answer [of "run_by ''dex.near'' ''dex.near''" "''dex.near''" named_callers]
  by (simp add: run_by_def named_callers_def admits_direct_def)

end
