(* ===== verification/Wasm_Cache.thy ===== *)
theory Wasm_Cache
  imports Main
begin

text \<open>
  The worker's cache of binaries (\<open>worker/src/wasm_cache.rs\<close>): entries in memory, files in a directory
  a guest may be able to write, eviction of the least recently used by total size. The directory is a
  map from file names to contents; hashing is a parameter; a failed write leaves whatever it leaves.
  Keys are plain file names (they are hexadecimal digests), a removal succeeds, and the size and the
  bytes of a file read at start are of one and the same content.
  Entries are kept in a list, whose order stands for the order in which the hash map is walked: no
  theorem depends on it. Sizes are numbers: the total never exceeds twice the limit, as shown below,
  so 64 bits do not wrap for any limit below \<open>2\<^sup>6\<^sup>3\<close>.
\<close>

section \<open>Operations\<close>

type_synonym bytes = string

record cache_entry =
  ce_path :: string
  ce_size :: nat
  ce_content_sha256 :: string
  ce_last_used :: nat

record wasm_cache =
  wc_max_size_bytes :: nat
  wc_entries :: "(string \<times> cache_entry) list"
  wc_total_size :: nat

type_synonym directory = "string \<rightharpoonup> bytes"

definition remove_entry :: "string \<Rightarrow> wasm_cache \<Rightarrow> wasm_cache" where
  "remove_entry k c =
     (case map_of (wc_entries c) k of
        None \<Rightarrow> c
      | Some e \<Rightarrow> c\<lparr>wc_entries := filter (\<lambda>x. fst x \<noteq> k) (wc_entries c),
                     wc_total_size := wc_total_size c - ce_size e\<rparr>)"

definition drop_with_file :: "string \<Rightarrow> wasm_cache \<times> directory \<Rightarrow> wasm_cache \<times> directory" where
  "drop_with_file k w =
     (case w of (c, disk) \<Rightarrow>
        (case map_of (wc_entries c) k of
           None \<Rightarrow> (c, disk)
         | Some e \<Rightarrow> (remove_entry k c, disk(ce_path e := None))))"

text \<open>\<open>min_by_key\<close>: the first entry with the least time.\<close>

fun oldest :: "(string \<times> cache_entry) list \<Rightarrow> (string \<times> cache_entry) option" where
  "oldest [] = None"
| "oldest (x # xs) =
     (case oldest xs of
        None \<Rightarrow> Some x
      | Some y \<Rightarrow> (if ce_last_used (snd x) \<le> ce_last_used (snd y) then Some x else Some y))"

definition evict_oldest :: "wasm_cache \<times> directory \<Rightarrow> wasm_cache \<times> directory" where
  "evict_oldest w =
     (case oldest (wc_entries (fst w)) of None \<Rightarrow> w | Some (k, e) \<Rightarrow> drop_with_file k w)"

lemma oldest_mem: "oldest xs = Some x \<Longrightarrow> x \<in> set xs"
  by (induction xs arbitrary: x) (auto split: option.splits if_splits)

lemma oldest_None [simp]: "oldest xs = None \<longleftrightarrow> xs = []"
  by (cases xs) (auto split: option.splits)

lemma evict_shrinks:
  assumes "wc_entries (fst w) \<noteq> []"
  shows "length (wc_entries (fst (evict_oldest w))) < length (wc_entries (fst w))"
proof -
  from assms obtain k e where o: "oldest (wc_entries (fst w)) = Some (k, e)"
    by (cases "oldest (wc_entries (fst w))") auto
  then have mem: "(k, e) \<in> set (wc_entries (fst w))" by (rule oldest_mem)
  then obtain e' where e': "map_of (wc_entries (fst w)) k = Some e'"
    by (cases "map_of (wc_entries (fst w)) k") (auto simp: map_of_eq_None_iff image_iff)
  have "length (filter (\<lambda>x. fst x \<noteq> k) (wc_entries (fst w))) < length (wc_entries (fst w))"
    using mem by (intro length_filter_less) auto
  with o e' show ?thesis
    by (cases w) (auto simp: evict_oldest_def drop_with_file_def remove_entry_def)
qed

text \<open>The loops of \<open>put\<close> and \<open>evict_if_needed\<close>: evict until there is room or nothing is left.\<close>

function evict_until :: "nat \<Rightarrow> wasm_cache \<times> directory \<Rightarrow> wasm_cache \<times> directory" where
  "evict_until room w =
     (if wc_total_size (fst w) + room > wc_max_size_bytes (fst w) \<and> wc_entries (fst w) \<noteq> []
      then evict_until room (evict_oldest w) else w)"
  by pat_completeness auto
termination
  by (relation "measure (\<lambda>(room, w). length (wc_entries (fst w)))") (auto intro: evict_shrinks)

declare evict_until.simps [simp del]

abbreviation crowded :: "nat \<Rightarrow> wasm_cache \<times> directory \<Rightarrow> bool" where
  "crowded room w \<equiv> wc_total_size (fst w) + room > wc_max_size_bytes (fst w) \<and> wc_entries (fst w) \<noteq> []"

lemma evict_until_more: "crowded room w \<Longrightarrow> evict_until room w = evict_until room (evict_oldest w)"
  by (subst evict_until.simps) simp

lemma evict_until_done: "\<not> crowded room w \<Longrightarrow> evict_until room w = w"
  by (subst evict_until.simps) auto

definition evict_if_needed :: "wasm_cache \<times> directory \<Rightarrow> wasm_cache \<times> directory" where
  "evict_if_needed w = evict_until 0 w"

text \<open>A directory entry's checksum: its name without \<open>.wasm\<close>; other files are passed over.\<close>

definition checksum_of :: "string \<Rightarrow> string option" where
  "checksum_of name =
     (if drop (length name - 5) name = ''.wasm'' \<and> length name > 5
      then Some (take (length name - 5) name) else None)"

definition wasm_name :: "string \<Rightarrow> string" where
  "wasm_name checksum = checksum @ ''.wasm''"

fun load_entries :: "(bytes \<Rightarrow> string) \<Rightarrow> nat \<Rightarrow> string list \<Rightarrow> wasm_cache \<times> directory \<Rightarrow> wasm_cache \<times> directory" where
  "load_entries hash now [] w = w"
| "load_entries hash now (name # names) (c, disk) =
     (case (checksum_of name, disk name) of
        (Some checksum, Some bytes) \<Rightarrow>
          (if hash bytes \<noteq> checksum then load_entries hash now names (c, disk(name := None))
           else load_entries hash now names
             (c\<lparr>wc_entries := wc_entries c @ [(checksum, \<lparr>ce_path = name, ce_size = length bytes,
                  ce_content_sha256 = checksum, ce_last_used = now\<rparr>)],
                wc_total_size := wc_total_size c + length bytes\<rparr>, disk))
      | _ \<Rightarrow> load_entries hash now names (c, disk))"

definition new_cache :: "(bytes \<Rightarrow> string) \<Rightarrow> nat \<Rightarrow> nat \<Rightarrow> string list \<Rightarrow> directory \<Rightarrow> wasm_cache \<times> directory" where
  "new_cache hash now max_size_mb listing disk =
     evict_if_needed (load_entries hash now listing
       (\<lparr>wc_max_size_bytes = max_size_mb * 1024 * 1024, wc_entries = [], wc_total_size = 0\<rparr>, disk))"

definition touch :: "nat \<Rightarrow> string \<Rightarrow> wasm_cache \<Rightarrow> wasm_cache" where
  "touch now k c =
     c\<lparr>wc_entries := map (\<lambda>(j, e). (j, if j = k then e\<lparr>ce_last_used := now\<rparr> else e)) (wc_entries c)\<rparr>"

definition get ::
  "(bytes \<Rightarrow> string) \<Rightarrow> nat \<Rightarrow> string \<Rightarrow> string option \<Rightarrow> wasm_cache \<times> directory
     \<Rightarrow> bytes option \<times> wasm_cache \<times> directory" where
  "get hash now checksum current w =
     (case map_of (wc_entries (fst w)) checksum of
        None \<Rightarrow> (None, w)
      | Some entry \<Rightarrow>
          let touched = (touch now checksum (fst w), snd w) in
          if ce_content_sha256 entry \<noteq> checksum \<and> current \<noteq> Some (ce_content_sha256 entry)
          then (None, drop_with_file checksum touched)
          else case snd w (ce_path entry) of
                 None \<Rightarrow> (None, drop_with_file checksum touched)
               | Some bytes \<Rightarrow>
                   (if hash bytes \<noteq> ce_content_sha256 entry then (None, drop_with_file checksum touched)
                    else (Some bytes, touched)))"

datatype write_outcome = Written | WriteFailed "bytes option"

definition put ::
  "(bytes \<Rightarrow> string) \<Rightarrow> nat \<Rightarrow> write_outcome \<Rightarrow> string \<Rightarrow> bytes \<Rightarrow> wasm_cache \<times> directory
     \<Rightarrow> bool \<times> wasm_cache \<times> directory" where
  "put hash now outcome checksum bytes w =
     (if length bytes > wc_max_size_bytes (fst w) then (True, w)
      else case evict_until (length bytes) w of
        (c, disk) \<Rightarrow>
          (case outcome of
             WriteFailed left \<Rightarrow> (False, c, disk(wasm_name checksum := left))
           | Written \<Rightarrow>
               let c1 = remove_entry checksum c in
               (True,
                c1\<lparr>wc_entries := wc_entries c1 @ [(checksum, \<lparr>ce_path = wasm_name checksum, ce_size = length bytes,
                       ce_content_sha256 = hash bytes, ce_last_used = now\<rparr>)],
                   wc_total_size := wc_total_size c1 + length bytes\<rparr>,
                disk(wasm_name checksum \<mapsto> bytes))))"

section \<open>Invariant\<close>

definition sizes :: "(string \<times> cache_entry) list \<Rightarrow> nat" where
  "sizes es = sum_list (map (\<lambda>x. ce_size (snd x)) es)"

text \<open>The total is the sum of the sizes and within the limit, keys are distinct, and every entry names
  its own file.\<close>

definition booked :: "wasm_cache \<Rightarrow> bool" where
  "booked c \<longleftrightarrow> distinct (map fst (wc_entries c)) \<and> wc_total_size c = sizes (wc_entries c) \<and>
     (\<forall>(k, e) \<in> set (wc_entries c). ce_path e = wasm_name k)"

definition cache_sound :: "wasm_cache \<Rightarrow> bool" where
  "cache_sound c \<longleftrightarrow> booked c \<and> wc_total_size c \<le> wc_max_size_bytes c"

lemma sizes_simps [simp]:
  "sizes [] = 0" "sizes (x # xs) = ce_size (snd x) + sizes xs" "sizes (xs @ ys) = sizes xs + sizes ys"
  by (simp_all add: sizes_def)

lemma sizes_drop:
  "distinct (map fst es) \<Longrightarrow> map_of es k = Some e \<Longrightarrow>
     sizes (filter (\<lambda>x. fst x \<noteq> k) es) = sizes es - ce_size e \<and> ce_size e \<le> sizes es"
proof (induction es)
  case (Cons x es)
  show ?case
  proof (cases "fst x = k")
    case True
    with Cons.prems have "filter (\<lambda>x. fst x \<noteq> k) es = es"
      by (intro filter_True) (auto simp: image_iff)
    with True Cons.prems show ?thesis by auto
  next
    case False
    with Cons show ?thesis by auto
  qed
qed simp

lemma map_of_dropped: "map_of (filter (\<lambda>x. fst x \<noteq> k) es) j = (if j = k then None else map_of es j)"
  by (induction es) auto

lemma distinct_dropped:
  "distinct (map fst es) \<Longrightarrow> distinct (map fst (filter (\<lambda>x. fst x \<noteq> k) es))"
  by (induction es) auto

lemma remove_entry_limit [simp]: "wc_max_size_bytes (remove_entry k c) = wc_max_size_bytes c"
  by (simp add: remove_entry_def split: option.splits)

lemma remove_entry_entries:
  "wc_entries (remove_entry k c) = filter (\<lambda>x. fst x \<noteq> k) (wc_entries c)"
proof (cases "map_of (wc_entries c) k")
  case None
  then have "filter (\<lambda>x. fst x \<noteq> k) (wc_entries c) = wc_entries c"
    by (intro filter_True) (auto simp: map_of_eq_None_iff image_iff)
  with None show ?thesis by (simp add: remove_entry_def)
qed (simp add: remove_entry_def)

lemma remove_entry_booked:
  assumes "booked c" shows "booked (remove_entry k c)"
  using assms sizes_drop [of "wc_entries c" k]
  by (auto simp: booked_def remove_entry_def distinct_dropped split: option.splits)

lemma remove_entry_total: "wc_total_size (remove_entry k c) \<le> wc_total_size c"
  by (simp add: remove_entry_def split: option.splits)

lemma drop_with_file_cache: "fst (drop_with_file k w) = remove_entry k (fst w)"
  by (simp add: drop_with_file_def remove_entry_def split: option.splits prod.splits)

lemma evict_oldest_cache:
  "\<exists>k. fst (evict_oldest w) = remove_entry k (fst w) \<or> fst (evict_oldest w) = fst w"
  by (auto simp: evict_oldest_def drop_with_file_cache split: option.splits)

lemma evict_oldest_booked: "booked (fst w) \<Longrightarrow> booked (fst (evict_oldest w))"
  using evict_oldest_cache [of w] remove_entry_booked by metis

lemma evict_oldest_limit [simp]:
  "wc_max_size_bytes (fst (evict_oldest w)) = wc_max_size_bytes (fst w)"
  using evict_oldest_cache [of w] remove_entry_limit by metis

lemma evict_until_limit [simp]:
  "wc_max_size_bytes (fst (evict_until room w)) = wc_max_size_bytes (fst w)"
  by (induction room w rule: evict_until.induct) (subst evict_until.simps, simp)

lemma evict_until_booked: "booked (fst w) \<Longrightarrow> booked (fst (evict_until room w))"
proof (induction room w rule: evict_until.induct)
  case (1 room w)
  then show ?case
    by (subst evict_until.simps) (simp add: evict_oldest_booked)
qed

lemma evict_until_stops:
  "wc_entries (fst (evict_until room w)) = [] \<or>
   wc_total_size (fst (evict_until room w)) + room \<le> wc_max_size_bytes (fst w)"
proof (induction room w rule: evict_until.induct)
  case (1 room w)
  show ?case
  proof (cases "crowded room w")
    case True
    with 1 [OF True] show ?thesis by (simp add: evict_until_more)
  next
    case False
    then have "evict_until room w = w" by (rule evict_until_done)
    with False show ?thesis by auto
  qed
qed

lemma evict_until_makes_room:
  assumes "booked (fst w)" "room \<le> wc_max_size_bytes (fst w)"
  shows "wc_total_size (fst (evict_until room w)) + room \<le> wc_max_size_bytes (fst w)"
  using evict_until_stops [of room w] evict_until_booked [OF assms(1), of room] assms(2)
  by (auto simp: booked_def)

lemma evict_until_subset:
  "set (wc_entries (fst (evict_until room w))) \<subseteq> set (wc_entries (fst w))"
proof (induction room w rule: evict_until.induct)
  case (1 room w)
  have "set (wc_entries (fst (evict_oldest w))) \<subseteq> set (wc_entries (fst w))"
    using evict_oldest_cache [of w] by (auto simp: remove_entry_entries)
  then show ?case
    using 1 by (cases "crowded room w") (auto simp: evict_until_more evict_until_done)
qed

lemma evict_until_count:
  "\<exists>n \<le> length (wc_entries (fst w)). evict_until room w = (evict_oldest ^^ n) w \<and>
     (\<forall>m < n. wc_total_size (fst ((evict_oldest ^^ m) w)) + room > wc_max_size_bytes (fst w))"
proof (induction room w rule: evict_until.induct)
  case (1 room w)
  show ?case
  proof (cases "crowded room w")
    case True
    from 1 [OF True] obtain n where n: "n \<le> length (wc_entries (fst (evict_oldest w)))"
        "evict_until room (evict_oldest w) = (evict_oldest ^^ n) (evict_oldest w)"
        "\<forall>m < n. wc_total_size (fst ((evict_oldest ^^ m) (evict_oldest w))) + room > wc_max_size_bytes (fst w)"
      by auto
    have "Suc n \<le> length (wc_entries (fst w))" using n(1) evict_shrinks [of w] True by linarith
    moreover have "evict_until room w = (evict_oldest ^^ Suc n) w"
      using n(2) evict_until_more [OF True] by (simp only: funpow_Suc_right comp_apply)
    moreover have "wc_total_size (fst ((evict_oldest ^^ m) w)) + room > wc_max_size_bytes (fst w)"
      if "m < Suc n" for m
    proof (cases m)
      case 0
      with True show ?thesis by simp
    next
      case (Suc j)
      with n(3) that have "wc_total_size (fst ((evict_oldest ^^ j) (evict_oldest w))) + room
          > wc_max_size_bytes (fst w)" by simp
      with Suc show ?thesis by (simp only: funpow_Suc_right comp_apply)
    qed
    ultimately show ?thesis by blast
  next
    case False
    then have "evict_until room w = (evict_oldest ^^ 0) w" by (simp add: evict_until_done)
    then show ?thesis by (intro exI [of _ 0]) simp
  qed
qed

section \<open>Recency\<close>

lemma oldest_least:
  "oldest es = Some x \<Longrightarrow> y \<in> set es \<Longrightarrow> ce_last_used (snd x) \<le> ce_last_used (snd y)"
proof (induction es arbitrary: x)
  case (Cons z es)
  then show ?case by (fastforce split: option.splits if_splits)
qed simp

text \<open>An entry that went is no more recent than any that stayed.\<close>

definition lru_kept :: "wasm_cache \<Rightarrow> wasm_cache \<Rightarrow> bool" where
  "lru_kept c c' \<longleftrightarrow> set (wc_entries c') \<subseteq> set (wc_entries c) \<and>
     (\<forall>x \<in> set (wc_entries c) - set (wc_entries c'). \<forall>y \<in> set (wc_entries c').
        ce_last_used (snd x) \<le> ce_last_used (snd y))"

lemma lru_kept_refl: "lru_kept c c"
  by (simp add: lru_kept_def)

lemma lru_kept_trans: "lru_kept a b \<Longrightarrow> lru_kept b c \<Longrightarrow> lru_kept a c"
  unfolding lru_kept_def by (intro conjI ballI) blast+

lemma evict_oldest_lru:
  assumes "distinct (map fst (wc_entries (fst w)))"
  shows "lru_kept (fst w) (fst (evict_oldest w))"
proof (cases "oldest (wc_entries (fst w))")
  case None
  then show ?thesis by (simp add: evict_oldest_def lru_kept_refl)
next
  case (Some x)
  obtain k e where x: "x = (k, e)" by (cases x)
  have mem: "(k, e) \<in> set (wc_entries (fst w))" using Some oldest_mem x by blast
  have "fst (evict_oldest w) = remove_entry k (fst w)"
    using Some x by (simp add: evict_oldest_def drop_with_file_cache)
  moreover have "y = (k, e)" if "y \<in> set (wc_entries (fst w))" "fst y = k" for y
    using that mem assms eq_key_imp_eq_value [of "wc_entries (fst w)" k e "snd y"] by (cases y) auto
  ultimately show ?thesis
    using oldest_least [OF Some] x by (fastforce simp: lru_kept_def remove_entry_entries)
qed

lemma evict_until_lru:
  "booked (fst w) \<Longrightarrow> lru_kept (fst w) (fst (evict_until room w))"
proof (induction room w rule: evict_until.induct)
  case (1 room w)
  show ?case
  proof (cases "crowded room w")
    case True
    have "lru_kept (fst w) (fst (evict_oldest w))"
      using 1(2) by (intro evict_oldest_lru) (simp add: booked_def)
    moreover have "lru_kept (fst (evict_oldest w)) (fst (evict_until room (evict_oldest w)))"
      using 1(1) [OF True] 1(2) by (simp add: evict_oldest_booked)
    ultimately show ?thesis using True by (simp add: evict_until_more lru_kept_trans)
  qed (simp add: evict_until_done lru_kept_refl)
qed

section \<open>The operations keep the invariant\<close>

lemma touch_booked: "booked (touch now k c) = booked c"
proof -
  have "sizes (wc_entries (touch now k c)) = sizes (wc_entries c)"
    by (simp add: touch_def sizes_def comp_def case_prod_unfold if_distrib cong: if_cong)
  moreover have "map fst (wc_entries (touch now k c)) = map fst (wc_entries c)"
    by (simp add: touch_def comp_def case_prod_unfold)
  moreover have "(\<forall>(j, e) \<in> set (wc_entries (touch now k c)). ce_path e = wasm_name j) \<longleftrightarrow>
      (\<forall>(j, e) \<in> set (wc_entries c). ce_path e = wasm_name j)"
    by (auto simp: touch_def split: if_splits)
  moreover have "wc_total_size (touch now k c) = wc_total_size c" by (simp add: touch_def)
  ultimately show ?thesis by (simp only: booked_def)
qed

lemma touch_sound: "cache_sound (touch now k c) = cache_sound c"
  by (simp add: cache_sound_def touch_booked) (simp add: touch_def)

lemma remove_entry_sound: "cache_sound c \<Longrightarrow> cache_sound (remove_entry k c)"
  using remove_entry_total [of k c] by (auto simp: cache_sound_def remove_entry_booked)

lemma get_sound:
  assumes "cache_sound (fst w)"
  shows "cache_sound (fst (snd (get hash now k current w)))"
  using assms
  by (simp add: get_def Let_def touch_sound remove_entry_sound drop_with_file_cache split: option.splits)

lemma put_sound:
  assumes "cache_sound (fst w)"
  shows "cache_sound (fst (snd (put hash now outcome k bytes w)))"
proof (cases "length bytes > wc_max_size_bytes (fst w)")
  case False
  obtain c disk where e: "evict_until (length bytes) w = (c, disk)" by fastforce
  have b: "booked c" using evict_until_booked [of w "length bytes"] assms e by (simp add: cache_sound_def)
  have t: "wc_total_size c + length bytes \<le> wc_max_size_bytes c"
    using evict_until_makes_room [of w "length bytes"] evict_until_limit [of "length bytes" w] assms e False
    by (simp add: cache_sound_def)
  have "booked (remove_entry k c)" by (rule remove_entry_booked [OF b])
  then show ?thesis
    using b t False e remove_entry_total [of k c]
    by (auto simp: put_def Let_def cache_sound_def booked_def remove_entry_entries split: write_outcome.splits)
qed (simp add: put_def assms)

lemma checksum_of_name: "checksum_of name = Some k \<Longrightarrow> name = wasm_name k"
  by (auto simp: checksum_of_def wasm_name_def split: if_splits) (metis append_take_drop_id)

lemma checksum_of_inj: "checksum_of n = Some k \<Longrightarrow> checksum_of m = Some k \<Longrightarrow> n = m"
  by (metis checksum_of_name)

lemma load_entries_booked:
  "booked (fst w) \<Longrightarrow> distinct names \<Longrightarrow>
   \<forall>n \<in> set names. \<forall>k. checksum_of n = Some k \<longrightarrow> k \<notin> fst ` set (wc_entries (fst w)) \<Longrightarrow>
   booked (fst (load_entries hash now names w))"
proof (induction names arbitrary: w)
  case (Cons name names)
  obtain c disk where w: "w = (c, disk)" by fastforce
  show ?case
  proof (cases "checksum_of name")
    case None
    with Cons w show ?thesis by simp
  next
    case (Some k)
    note name = checksum_of_name [OF Some]
    show ?thesis
    proof (cases "disk name")
      case None
      with Cons Some w show ?thesis by simp
    next
      case (Some bytes)
      note here = \<open>checksum_of name = Some k\<close> Some
      show ?thesis
      proof (cases "hash bytes = k")
        case False
        with Cons.IH [of "(c, disk(name := None))"] Cons.prems here w show ?thesis by simp
      next
        case True
        let ?c = "c\<lparr>wc_entries := wc_entries c @ [(k, \<lparr>ce_path = name, ce_size = length bytes,
          ce_content_sha256 = k, ce_last_used = now\<rparr>)], wc_total_size := wc_total_size c + length bytes\<rparr>"
        have fresh: "k \<notin> fst ` set (wc_entries c)" using Cons.prems(3) here w by simp
        have "booked ?c" using Cons.prems(1) fresh name w by (auto simp: booked_def)
        moreover have "checksum_of n \<noteq> Some k" if "n \<in> set names" for n
          using that Cons.prems(2) checksum_of_inj [OF here(1), of n] by auto
        ultimately have "booked (fst (load_entries hash now names (?c, disk)))"
          using Cons.IH [of "(?c, disk)"] Cons.prems(2,3) w by auto
        with here True w show ?thesis by simp
      qed
    qed
  qed
qed simp

lemma load_entries_limit [simp]:
  "wc_max_size_bytes (fst (load_entries hash now names w)) = wc_max_size_bytes (fst w)"
  by (induction hash now names w rule: load_entries.induct) (auto split: option.splits)

lemma new_cache_sound:
  assumes "distinct listing"
  shows "cache_sound (fst (new_cache hash now mb listing disk))"
proof -
  let ?w = "load_entries hash now listing
    (\<lparr>wc_max_size_bytes = mb * 1024 * 1024, wc_entries = [], wc_total_size = 0\<rparr>, disk)"
  have "booked (fst ?w)" using assms by (intro load_entries_booked) (auto simp: booked_def)
  with evict_until_booked [OF this, of 0] evict_until_makes_room [OF this, of 0] show ?thesis
    by (simp add: new_cache_def evict_if_needed_def cache_sound_def)
qed

section \<open>Histories\<close>

text \<open>A history of one process: a start over whatever the directory holds, then reads, stores and
  failed stores, with the directory rewritten by others at any time. The second component is what was
  last stored under each key since the start.\<close>

inductive cache_run ::
  "(bytes \<Rightarrow> string) \<Rightarrow> nat \<Rightarrow> wasm_cache \<times> directory \<Rightarrow> (string \<rightharpoonup> bytes) \<Rightarrow> bool" for hash mb where
  started: "distinct listing \<Longrightarrow> cache_run hash mb (new_cache hash now mb listing disk) Map.empty"
| looked_up: "cache_run hash mb w st \<Longrightarrow> cache_run hash mb (snd (get hash now k current w)) st"
| stored: "cache_run hash mb w st \<Longrightarrow> length bytes \<le> wc_max_size_bytes (fst w) \<Longrightarrow>
    cache_run hash mb (snd (put hash now Written k bytes w)) (st(k \<mapsto> bytes))"
| too_large: "cache_run hash mb w st \<Longrightarrow> wc_max_size_bytes (fst w) < length bytes \<Longrightarrow>
    cache_run hash mb (snd (put hash now outcome k bytes w)) st"
| not_written: "cache_run hash mb w st \<Longrightarrow>
    cache_run hash mb (snd (put hash now (WriteFailed left) k bytes w)) st"
| rewritten: "cache_run hash mb (c, disk) st \<Longrightarrow> cache_run hash mb (c, disk') st"

text \<open>Every record is its own key, or the hash of what was last stored under the key.\<close>

definition recorded :: "(bytes \<Rightarrow> string) \<Rightarrow> wasm_cache \<Rightarrow> (string \<rightharpoonup> bytes) \<Rightarrow> bool" where
  "recorded hash c st \<longleftrightarrow> (\<forall>(k, e) \<in> set (wc_entries c).
     ce_content_sha256 e = k \<or> (\<exists>b. st k = Some b \<and> ce_content_sha256 e = hash b))"

lemma recorded_mono:
  "recorded hash c st \<Longrightarrow> set (wc_entries c') \<subseteq> set (wc_entries c) \<Longrightarrow> recorded hash c' st"
  by (auto simp: recorded_def)

lemma recorded_dropped: "recorded hash c st \<Longrightarrow> recorded hash (remove_entry k c) st"
  by (erule recorded_mono) (auto simp: remove_entry_entries)

lemma recorded_touch: "recorded hash c st \<Longrightarrow> recorded hash (touch now k c) st"
  by (fastforce simp: recorded_def touch_def split: if_splits)

lemma recorded_get:
  "recorded hash (fst w) st \<Longrightarrow> recorded hash (fst (snd (get hash now k current w))) st"
  by (simp add: get_def Let_def recorded_touch recorded_dropped drop_with_file_cache split: option.splits)

lemma recorded_load:
  "recorded hash (fst w) st \<Longrightarrow> recorded hash (fst (load_entries hash now names w)) st"
  by (induction hash now names w rule: load_entries.induct)
    (auto simp: recorded_def split: option.splits)

lemma recorded_new: "recorded hash (fst (new_cache hash now mb listing disk)) Map.empty"
  unfolding new_cache_def evict_if_needed_def
  by (rule recorded_mono [OF recorded_load evict_until_subset]) (simp add: recorded_def)

lemma recorded_put:
  assumes "recorded hash (fst w) st"
  shows "recorded hash (fst (snd (put hash now (WriteFailed left) k bytes w))) st"
    and "recorded hash (fst (snd (put hash now Written k bytes w)))
      (if length bytes \<le> wc_max_size_bytes (fst w) then st(k \<mapsto> bytes) else st)"
proof -
  obtain c disk where e: "evict_until (length bytes) w = (c, disk)" by fastforce
  have r: "recorded hash c st" using recorded_mono [OF assms evict_until_subset [of "length bytes"]] e by simp
  with assms show "recorded hash (fst (snd (put hash now (WriteFailed left) k bytes w))) st"
    by (simp add: put_def e)
  show "recorded hash (fst (snd (put hash now Written k bytes w)))
      (if length bytes \<le> wc_max_size_bytes (fst w) then st(k \<mapsto> bytes) else st)"
    using r assms by (auto simp: put_def e Let_def recorded_def remove_entry_entries)
qed

lemma new_cache_limit [simp]: "wc_max_size_bytes (fst (new_cache hash now mb listing disk)) = mb * 1024 * 1024"
  by (simp add: new_cache_def evict_if_needed_def)

lemma get_limit [simp]: "wc_max_size_bytes (fst (snd (get hash now k current w))) = wc_max_size_bytes (fst w)"
  by (simp add: get_def Let_def touch_def drop_with_file_cache split: option.splits)

lemma put_limit [simp]: "wc_max_size_bytes (fst (snd (put hash now outcome k bytes w))) = wc_max_size_bytes (fst w)"
  using evict_until_limit [of "length bytes" w]
  by (cases "evict_until (length bytes) w") (simp add: put_def Let_def split: write_outcome.splits)

lemma put_too_large: "wc_max_size_bytes (fst w) < length bytes \<Longrightarrow> put hash now outcome k bytes w = (True, w)"
  by (simp add: put_def)

lemma cache_run_inv:
  "cache_run hash mb w st \<Longrightarrow>
     cache_sound (fst w) \<and> recorded hash (fst w) st \<and> wc_max_size_bytes (fst w) = mb * 1024 * 1024"
proof (induction rule: cache_run.induct)
  case (stored w st bytes now k)
  then show ?case
    using recorded_put(2) [of hash w st now k bytes] by (simp add: put_sound del: fun_upd_apply)
qed (simp_all add: new_cache_sound recorded_new get_sound recorded_get put_sound put_too_large recorded_put)

section \<open>Properties\<close>

text \<open>
  C38. Whatever is written into the cache directory, and in whatever order binaries were stored,
  looked up, evicted or readmitted at a start, a hit is either the content its key names, or content
  the coordinator reports holding now under the key and that has the hash of what was last stored
  under the key in this process.\<close>

theorem cache_serves_what_was_stored:
  assumes "cache_run hash mb w st" "fst (get hash now k current w) = Some b"
  shows "hash b = k \<or> (current = Some (hash b) \<and> (\<exists>s. st k = Some s \<and> hash s = hash b))"
proof -
  have r: "recorded hash (fst w) st" using cache_run_inv [OF assms(1)] by simp
  from assms(2) obtain e where e: "map_of (wc_entries (fst w)) k = Some e" "hash b = ce_content_sha256 e"
      "ce_content_sha256 e = k \<or> current = Some (ce_content_sha256 e)"
    by (auto simp: get_def Let_def split: option.splits if_splits)
  from map_of_SomeD [OF e(1)] r have "ce_content_sha256 e = k \<or> (\<exists>s. st k = Some s \<and> ce_content_sha256 e = hash s)"
    by (auto simp: recorded_def)
  with e show ?thesis by metis
qed

text \<open>A cache of one megabyte, started on an empty directory, that took a binary built from
  coordinates.\<close>

definition sample_hash :: "bytes \<Rightarrow> string" where
  "sample_hash b = CHR ''#'' # b"

definition sample_cache :: "wasm_cache \<times> directory" where
  "sample_cache = snd (put sample_hash 2 Written ''repo'' ''code'' (new_cache sample_hash 1 1 [] Map.empty))"

lemma sample_run: "cache_run sample_hash 1 sample_cache [''repo'' \<mapsto> ''code'']"
proof -
  have "cache_run sample_hash 1 (new_cache sample_hash 1 1 [] Map.empty) Map.empty"
    by (rule started) simp
  from stored [OF this, of "''code''" 2 "''repo''"] show ?thesis by (simp add: sample_cache_def)
qed

lemma sample_cache_eval:
  "sample_cache = (\<lparr>wc_max_size_bytes = 1048576,
      wc_entries = [(''repo'', \<lparr>ce_path = ''repo.wasm'', ce_size = 4, ce_content_sha256 = ''#code'', ce_last_used = 2\<rparr>)],
      wc_total_size = 4\<rparr>, [''repo.wasm'' \<mapsto> ''code''])"
  by (simp add: sample_cache_def new_cache_def evict_if_needed_def evict_until_done put_def remove_entry_def
    Let_def wasm_name_def sample_hash_def)

theorem cache_serves_what_was_stored_witness:
  "fst (get sample_hash 3 ''repo'' (Some ''#code'') sample_cache) = Some ''code'' \<and>
   (sample_hash ''code'' = ''repo'' \<or> (Some ''#code'' = Some (sample_hash ''code'') \<and>
      (\<exists>s. [''repo'' \<mapsto> ''code''] ''repo'' = Some s \<and> sample_hash s = sample_hash ''code'')))"
proof -
  have g: "fst (get sample_hash 3 ''repo'' (Some ''#code'') sample_cache) = Some ''code''"
    by (simp add: sample_cache_eval get_def sample_hash_def)
  with cache_serves_what_was_stored [OF sample_run g] show ?thesis by simp
qed

text \<open>
  At every moment of every history the recorded total is the sum of the recorded sizes and
  within the configured limit, no key occurs twice, and every entry has its own file.\<close>

theorem cache_within_limit:
  assumes "cache_run hash mb w st"
  shows "cache_sound (fst w) \<and> wc_total_size (fst w) \<le> mb * 1024 * 1024"
  using cache_run_inv [OF assms] by (simp add: cache_sound_def)

theorem cache_within_limit_witness:
  "cache_sound (fst sample_cache) \<and> wc_total_size (fst sample_cache) \<le> 1 * 1024 * 1024"
  using cache_within_limit [OF sample_run] by simp

text \<open>
  A binary that fits and was written is the answer to the next lookup under its key that
  carries its hash, whatever the cache held before.\<close>

theorem put_then_get:
  assumes "length bytes \<le> wc_max_size_bytes (fst w)"
  shows "fst (get hash later k (Some (hash bytes)) (snd (put hash now Written k bytes w))) = Some bytes"
proof -
  obtain c disk where e: "evict_until (length bytes) w = (c, disk)" by fastforce
  have "map_of (filter (\<lambda>x. fst x \<noteq> k) (wc_entries c)) k = None" by (simp add: map_of_dropped)
  with assms e show ?thesis
    by (simp add: put_def get_def Let_def remove_entry_entries map_add_def)
qed

theorem put_then_get_witness:
  "fst (get sample_hash 4 ''other'' (Some (sample_hash ''more''))
      (snd (put sample_hash 3 Written ''other'' ''more'' sample_cache))) = Some ''more''"
  by (rule put_then_get) (simp add: sample_cache_eval)

text \<open>
  C39. Making room ends after at most as many evictions as there are entries; it evicts only while
  there is no room, leaves room whenever the binary fits the cache at all, and every entry it dropped
  was used no later than every entry it kept.\<close>

theorem eviction_ends_with_room:
  assumes "booked (fst w)" "room \<le> wc_max_size_bytes (fst w)"
  shows "\<exists>n \<le> length (wc_entries (fst w)). evict_until room w = (evict_oldest ^^ n) w \<and>
      (\<forall>m < n. wc_total_size (fst ((evict_oldest ^^ m) w)) + room > wc_max_size_bytes (fst w)) \<and>
      wc_total_size (fst (evict_until room w)) + room \<le> wc_max_size_bytes (fst w) \<and>
      lru_kept (fst w) (fst (evict_until room w))"
  using evict_until_count [of w room] evict_until_makes_room [OF assms] evict_until_lru [OF assms(1)] by blast

theorem eviction_ends_with_room_witness:
  "\<exists>n \<le> length (wc_entries (fst sample_cache)). evict_until 1048576 sample_cache = (evict_oldest ^^ n) sample_cache \<and>
      (\<forall>m < n. wc_total_size (fst ((evict_oldest ^^ m) sample_cache)) + 1048576 > wc_max_size_bytes (fst sample_cache)) \<and>
      wc_total_size (fst (evict_until 1048576 sample_cache)) + 1048576 \<le> wc_max_size_bytes (fst sample_cache) \<and>
      lru_kept (fst sample_cache) (fst (evict_until 1048576 sample_cache))"
  by (rule eviction_ends_with_room) (simp_all add: sample_cache_eval booked_def wasm_name_def)

end
