(* ===== verification/Task_Envelope.thy ===== *)
theory Task_Envelope
  imports Rust_Text
begin

text \<open>
  What a task shows its owner (\<open>worker/src/tasks/envelope.rs\<close>): the envelope and its kinds, the checks of
  text, of files and of the display, the name of an operation, and the consent of the preparing run.
  Text is a list of code points, as \<open>str::chars\<close> gives it; the bytes of a string are read into
  code points by the rules of UTF-8. Folding case is the standard library's Unicode table and a
  parameter.
\<close>

section \<open>Text\<close>

type_synonym chars = "nat list"

definition cp :: "string \<Rightarrow> chars" where
  "cp s = map of_char s"

text \<open>\<open>String::from_utf8\<close>: no overlong form, no surrogate, nothing above U+10FFFF.\<close>

definition continues :: "nat \<Rightarrow> bool" where
  "continues b \<longleftrightarrow> 0x80 \<le> b \<and> b \<le> 0xBF"

fun utf8_text :: "nat list \<Rightarrow> chars option" where
  "utf8_text [] = Some []"
| "utf8_text (a # bs) =
     (if a < 0x80 then map_option ((#) a) (utf8_text bs)
      else if 0xC2 \<le> a \<and> a \<le> 0xDF then
        (case bs of
           b # r \<Rightarrow> (if continues b then map_option ((#) ((a - 0xC0) * 64 + (b - 0x80))) (utf8_text r) else None)
         | _ \<Rightarrow> None)
      else if 0xE0 \<le> a \<and> a \<le> 0xEF then
        (case bs of
           b # c # r \<Rightarrow>
             (if continues b \<and> continues c \<and> (a = 0xE0 \<longrightarrow> 0xA0 \<le> b) \<and> (a = 0xED \<longrightarrow> b \<le> 0x9F)
              then map_option ((#) ((a - 0xE0) * 4096 + (b - 0x80) * 64 + (c - 0x80))) (utf8_text r) else None)
         | _ \<Rightarrow> None)
      else if 0xF0 \<le> a \<and> a \<le> 0xF4 then
        (case bs of
           b # c # d # r \<Rightarrow>
             (if continues b \<and> continues c \<and> continues d \<and> (a = 0xF0 \<longrightarrow> 0x90 \<le> b) \<and> (a = 0xF4 \<longrightarrow> b \<le> 0x8F)
              then map_option ((#) ((a - 0xF0) * 262144 + (b - 0x80) * 4096 + (c - 0x80) * 64 + (d - 0x80))) (utf8_text r)
              else None)
         | _ \<Rightarrow> None)
      else None)"

definition char_is_control :: "nat \<Rightarrow> bool" where
  "char_is_control c \<longleftrightarrow> c \<le> 0x1F \<or> (0x7F \<le> c \<and> c \<le> 0x9F)"

definition char_is_whitespace :: "nat \<Rightarrow> bool" where
  "char_is_whitespace c \<longleftrightarrow>
     (9 \<le> c \<and> c \<le> 13) \<or> c \<in> {0x20, 0x85, 0xA0, 0x1680, 0x2028, 0x2029, 0x202F, 0x205F, 0x3000}
     \<or> (0x2000 \<le> c \<and> c \<le> 0x200A)"

definition utf8_width :: "nat \<Rightarrow> nat" where
  "utf8_width c = (if c < 0x80 then 1 else if c < 0x800 then 2 else if c < 0x10000 then 3 else 4)"

definition within :: "(nat \<times> nat) list \<Rightarrow> nat \<Rightarrow> bool" where
  "within ranges c \<longleftrightarrow> (\<exists>(lo, hi) \<in> set ranges. lo \<le> c \<and> c \<le> hi)"

definition misleads :: "nat \<Rightarrow> bool" where
  "misleads c \<longleftrightarrow> char_is_control c \<or>
     within [(0x00AD, 0x00AD), (0x034F, 0x034F), (0x061C, 0x061C), (0x115F, 0x1160), (0x17B4, 0x17B5),
       (0x180B, 0x180F), (0x200B, 0x200F), (0x2028, 0x202E), (0x2060, 0x206F), (0x2800, 0x2800),
       (0x3164, 0x3164), (0xFE00, 0xFE0F), (0xFEFF, 0xFEFF), (0xFFA0, 0xFFA0), (0xFFF9, 0xFFFC),
       (0x1BCA0, 0x1BCA3), (0x1D173, 0x1D17A), (0xE0000, 0xE0FFF)] c"

definition pictures :: "nat \<Rightarrow> bool" where
  "pictures c \<longleftrightarrow>
     within [(0x203C, 0x203C), (0x2049, 0x2049), (0x2122, 0x2122), (0x2139, 0x2139), (0x00A9, 0x00A9),
       (0x00AE, 0x00AE), (0x2190, 0x21FF), (0x2300, 0x23FF), (0x2460, 0x24FF), (0x25A0, 0x27BF),
       (0x2900, 0x297F), (0x2B00, 0x2BFF), (0x3030, 0x3030), (0x303D, 0x303D), (0x3297, 0x3297),
       (0x3299, 0x3299), (0x1F000, 0x1FAFF)] c"

definition selects_a_picture :: "nat \<Rightarrow> bool" where
  "selects_a_picture c \<longleftrightarrow> c = 0xFE0E \<or> c = 0xFE0F"

definition misleads_here :: "chars \<Rightarrow> nat \<Rightarrow> bool" where
  "misleads_here t at =
     (let c = t ! at;
          before = (if at = 0 then None else Some (t ! (at - 1)));
          after = (if at + 1 < length t then Some (t ! (at + 1)) else None)
      in if \<not> misleads c then False
         else if selects_a_picture c then
           \<not> (case before of None \<Rightarrow> False
              | Some b \<Rightarrow> pictures b \<or> (0x30 \<le> b \<and> b \<le> 0x39) \<or> b = 0x23 \<or> b = 0x2A)
         else if c = 0x200D then
           \<not> ((case before of None \<Rightarrow> False | Some b \<Rightarrow> pictures b \<or> selects_a_picture b)
              \<and> (case after of None \<Rightarrow> False | Some a \<Rightarrow> pictures a))
         else True)"

definition combines :: "nat \<Rightarrow> bool" where
  "combines c \<longleftrightarrow> within [(0x0300, 0x036F), (0x1AB0, 0x1AFF), (0x1DC0, 0x1DFF), (0x20D0, 0x20FF), (0xFE20, 0xFE2F)] c"

fun combining_loop :: "nat \<Rightarrow> nat \<Rightarrow> chars \<Rightarrow> nat" where
  "combining_loop longest run [] = longest"
| "combining_loop longest run (c # cs) =
     (let run' = (if combines c then run + 1 else 0) in combining_loop (max longest run') run' cs)"

definition longest_combining_run :: "chars \<Rightarrow> nat" where
  "longest_combining_run t = combining_loop 0 0 t"

definition MAX_COMBINING_RUN :: nat where "MAX_COMBINING_RUN = 4"
definition MAX_TITLE_CHARS :: nat where "MAX_TITLE_CHARS = 80"
definition MAX_FIELDS :: nat where "MAX_FIELDS = 12"
definition MAX_LABEL_CHARS :: nat where "MAX_LABEL_CHARS = 40"
definition MAX_LONG_TEXT_CHARS :: nat where "MAX_LONG_TEXT_CHARS = 50000"
definition MAX_FILE_NAME_CHARS :: nat where "MAX_FILE_NAME_CHARS = 200"
definition MAX_CONTENT_TYPE_CHARS :: nat where "MAX_CONTENT_TYPE_CHARS = 100"
definition MAX_TEXT_CHARS :: nat where "MAX_TEXT_CHARS = 500"
definition MAX_SHORT_CHARS :: nat where "MAX_SHORT_CHARS = 200"
definition MAX_LIST_ITEMS :: nat where "MAX_LIST_ITEMS = 20"
definition MAX_OPERATION_CHARS :: nat where "MAX_OPERATION_CHARS = 64"

datatype text_refusal = Empty | TooManyChars nat | Blank | Misleading nat | CombiningMarks nat

definition check_text :: "chars \<Rightarrow> nat \<Rightarrow> bool \<Rightarrow> text_refusal option" where
  "check_text t most line_breaks =
     (if t = [] then Some Empty
      else if length t > most then Some (TooManyChars (length t))
      else if list_all char_is_whitespace t then Some Blank
      else case find (\<lambda>at. misleads_here t at \<and> \<not> (line_breaks \<and> t ! at \<in> {10, 9})) [0..<length t] of
        Some at \<Rightarrow> Some (Misleading (t ! at))
      | None \<Rightarrow>
          (if longest_combining_run t > MAX_COMBINING_RUN then Some (CombiningMarks (longest_combining_run t)) else None))"

definition check_long_text :: "chars \<Rightarrow> text_refusal option" where
  "check_long_text t = check_text t MAX_LONG_TEXT_CHARS True"

section \<open>Files\<close>

datatype file_refusal =
    FileName nat text_refusal | PathSeparator nat | BeginsAtAnEdge nat | EndsAtAnEdge nat | NotAMediaType nat
  | SameName nat nat

definition of_a_part :: "nat \<Rightarrow> bool" where
  "of_a_part b \<longleftrightarrow> (0x30 \<le> b \<and> b \<le> 0x39) \<or> (0x41 \<le> b \<and> b \<le> 0x5A) \<or> (0x61 \<le> b \<and> b \<le> 0x7A)
     \<or> b \<in> {0x2E, 0x2B, 0x2D, 0x5F}"

definition of_a_parameter :: "nat \<Rightarrow> bool" where
  "of_a_parameter b \<longleftrightarrow> of_a_part b \<or> b \<in> {0x3B, 0x3D, 0x20}"

definition is_media_type :: "chars \<Rightarrow> bool" where
  "is_media_type content_type =
     (if sum_list (map utf8_width content_type) > MAX_CONTENT_TYPE_CHARS then False
      else let (essence, parameters) =
        (case split_once 0x3B content_type of
           Some (e, p) \<Rightarrow> (rev (dropWhile (\<lambda>x. x = 0x20) (rev e)), p)
         | None \<Rightarrow> (content_type, []))
      in case split_once 0x2F essence of
           None \<Rightarrow> False
         | Some (kind, subtype) \<Rightarrow>
             list_all (\<lambda>part. part \<noteq> [] \<and> list_all of_a_part part) [kind, subtype] \<and> list_all of_a_parameter parameters)"

definition at_an_edge :: "nat \<Rightarrow> bool" where
  "at_an_edge c \<longleftrightarrow> c = 0x2E \<or> char_is_whitespace c"

definition check_file :: "nat \<Rightarrow> chars \<Rightarrow> chars \<Rightarrow> file_refusal option" where
  "check_file at name content_type =
     (case check_text name MAX_FILE_NAME_CHARS False of
        Some why \<Rightarrow> Some (FileName at why)
      | None \<Rightarrow>
          (if 0x2F \<in> set name \<or> 0x5C \<in> set name then Some (PathSeparator at)
           else if at_an_edge (hd name) then Some (BeginsAtAnEdge at)
           else if at_an_edge (last name) then Some (EndsAtAnEdge at)
           else if is_media_type content_type then None else Some (NotAMediaType at)))"

definition position_of :: "'a \<Rightarrow> 'a list \<Rightarrow> nat option" where
  "position_of x xs = find (\<lambda>i. xs ! i = x) [0..<length xs]"

fun check_files_from :: "(chars \<Rightarrow> chars) \<Rightarrow> nat \<Rightarrow> chars list \<Rightarrow> (chars \<times> chars) list \<Rightarrow> file_refusal option" where
  "check_files_from lower at names [] = None"
| "check_files_from lower at names ((name, content_type) # files) =
     (case check_file at name content_type of
        Some why \<Rightarrow> Some why
      | None \<Rightarrow>
          (case position_of (lower name) names of
             Some first \<Rightarrow> Some (SameName at first)
           | None \<Rightarrow> check_files_from lower (at + 1) (names @ [lower name]) files))"

definition check_files :: "(chars \<Rightarrow> chars) \<Rightarrow> (chars \<times> chars) list \<Rightarrow> file_refusal option" where
  "check_files lower files = check_files_from lower 0 [] files"

section \<open>The display\<close>

datatype field_kind = Money | AccountField | Address | TextField | LongText | ListField
datatype written_by = ByProject | ByAgent
datatype supplies = SuppliesNothing | SuppliesText | SuppliesFile
datatype task_kind = Confirm | Input | Notice

record field =
  fd_kind :: field_kind
  fd_label :: chars
  fd_values :: "chars list"
  fd_written_by :: written_by

record display =
  dp_fields :: "field list"
  dp_title :: chars

fun most_chars :: "field_kind \<Rightarrow> nat" where
  "most_chars LongText = MAX_LONG_TEXT_CHARS"
| "most_chars TextField = MAX_TEXT_CHARS"
| "most_chars _ = MAX_SHORT_CHARS"

datatype display_refusal =
    Title text_refusal | TooManyFields nat | Label nat text_refusal | ListValues nat nat
  | NotOneValue nat field_kind nat | FieldValue nat text_refusal

fun first_refusal :: "('a \<Rightarrow> 'e option) \<Rightarrow> 'a list \<Rightarrow> 'e option" where
  "first_refusal f [] = None"
| "first_refusal f (x # xs) = (case f x of Some e \<Rightarrow> Some e | None \<Rightarrow> first_refusal f xs)"

definition check_field :: "nat \<Rightarrow> field \<Rightarrow> display_refusal option" where
  "check_field at f =
     (case check_text (fd_label f) MAX_LABEL_CHARS False of
        Some why \<Rightarrow> Some (Label at why)
      | None \<Rightarrow>
          (let n = length (fd_values f);
               count = (if fd_kind f = ListField
                        then (if 1 \<le> n \<and> n \<le> MAX_LIST_ITEMS then None else Some (ListValues at n))
                        else if n = 1 then None else Some (NotOneValue at (fd_kind f) n))
           in case count of
                Some e \<Rightarrow> Some e
              | None \<Rightarrow>
                  first_refusal (\<lambda>v. map_option (FieldValue at)
                    (check_text v (most_chars (fd_kind f)) (fd_kind f = LongText))) (fd_values f)))"

definition check_display :: "display \<Rightarrow> display_refusal option" where
  "check_display d =
     (case check_text (dp_title d) MAX_TITLE_CHARS False of
        Some why \<Rightarrow> Some (Title why)
      | None \<Rightarrow>
          (if length (dp_fields d) > MAX_FIELDS then Some (TooManyFields (length (dp_fields d)))
           else first_refusal (\<lambda>(at, f). check_field at f) (zip [0..<length (dp_fields d)] (dp_fields d))))"

definition check_operation :: "string \<Rightarrow> bool" where
  "check_operation s \<longleftrightarrow> s \<noteq> [] \<and> length s \<le> MAX_OPERATION_CHARS \<and>
     list_all (\<lambda>c. c \<in> set ''abcdefghijklmnopqrstuvwxyz0123456789_'') s"

section \<open>The envelope\<close>

record answer_by =
  ab_operation :: string
  ab_supplies :: supplies

record file_note =
  fn_content_type :: chars
  fn_name :: chars
  fn_sha256 :: string
  fn_size :: nat

record envelope =
  ev_answer_by :: "answer_by option"
  ev_build :: string
  ev_created_at :: nat
  ev_display :: display
  ev_expires_at :: nat
  ev_files :: "file_note list"
  ev_id :: string
  ev_kind :: task_kind
  ev_owner :: string
  ev_policy_hash :: string
  ev_preparer :: string
  ev_profile :: string
  ev_project :: string
  ev_project_uuid :: string
  ev_reply_pubkey :: "string option"
  ev_state_hash :: string
  ev_thread :: string
  ev_v :: nat

definition ENVELOPE_VERSION :: nat where "ENVELOPE_VERSION = 1"

fun takes_an_answer :: "task_kind \<Rightarrow> bool" where
  "takes_an_answer Notice = False"
| "takes_an_answer _ = True"

definition check_kind :: "envelope \<Rightarrow> bool" where
  "check_kind e =
     (case (takes_an_answer (ev_kind e), ev_answer_by e \<noteq> None, ev_reply_pubkey e \<noteq> None) of
        (True, True, True) \<Rightarrow> True | (False, False, False) \<Rightarrow> True | _ \<Rightarrow> False)"

record consent =
  cn_payment_key_nonce :: nat
  cn_wallet :: "string option"
  cn_bound_identity :: bool
  cn_compute_limit_usd :: string

record sealed_task =
  st_content_key :: string
  st_envelope :: string
  st_state :: string
  st_consent :: "consent option"

datatype consent_difference = AnotherPaymentKey | AnotherWallet | AnotherIdentity | MoreCompute

text \<open>\<open>Consent::refuses\<close>: which fact of a run differs from the consent.\<close>

definition consent_refuses :: "consent \<Rightarrow> consent \<Rightarrow> consent_difference option" where
  "consent_refuses allowed run =
     (if cn_payment_key_nonce run \<noteq> cn_payment_key_nonce allowed then Some AnotherPaymentKey
      else if cn_wallet run \<noteq> cn_wallet allowed then Some AnotherWallet
      else if cn_bound_identity run \<noteq> cn_bound_identity allowed then Some AnotherIdentity
      else case (parse_u128 (cn_compute_limit_usd allowed), parse_u128 (cn_compute_limit_usd run)) of
        (Some a, Some c) \<Rightarrow> (if c \<le> a then None else Some MoreCompute)
      | _ \<Rightarrow> Some MoreCompute)"

section \<open>What passes the checks\<close>

text \<open>The run of combining marks a text begins with.\<close>

abbreviation leading_marks :: "chars \<Rightarrow> nat" where
  "leading_marks t \<equiv> length (takeWhile combines t)"

lemma combining_loop_iff:
  "k < combining_loop m r t \<longleftrightarrow>
     k < m \<or> (0 < leading_marks t \<and> k < r + leading_marks t) \<or> (\<exists>n. k < leading_marks (drop n t))"
proof (induction t arbitrary: m r)
  case (Cons c cs)
  have drops: "(\<exists>n. k < leading_marks (drop n (c # cs))) \<longleftrightarrow>
      k < leading_marks (c # cs) \<or> (\<exists>n. k < leading_marks (drop n cs))"
    by (metis drop0 drop_Suc_Cons not0_implies_Suc)
  show ?case
  proof (cases "combines c")
    case True
    then show ?thesis using Cons.IH [of "max m (r + 1)" "r + 1"] unfolding drops
      by (auto simp: Let_def)
  next
    case False
    have "0 < leading_marks cs \<and> k < leading_marks cs \<Longrightarrow> \<exists>n. k < leading_marks (drop n cs)"
      by (metis drop0)
    with False show ?thesis using Cons.IH [of "max m 0" 0] unfolding drops by (auto simp: Let_def)
  qed
qed simp

lemma longest_combining_run_iff: "longest_combining_run t \<le> k \<longleftrightarrow> (\<forall>n. leading_marks (drop n t) \<le> k)"
proof -
  have "0 < leading_marks t \<and> k < 0 + leading_marks t \<Longrightarrow> \<exists>n. k < leading_marks (drop n t)"
    by (metis add_0 drop0)
  then show ?thesis
    using combining_loop_iff [of k 0 0 t] by (auto simp: longest_combining_run_def not_less [symmetric])
qed

text \<open>Text as it may be drawn: not empty, not blank, not too long, no character that misleads where it
  stands (but for line breaks and tabs, where they are allowed), no more than four combining marks in
  a row from any place.\<close>

definition drawable :: "nat \<Rightarrow> bool \<Rightarrow> chars \<Rightarrow> bool" where
  "drawable most line_breaks t \<longleftrightarrow>
     t \<noteq> [] \<and> length t \<le> most \<and> (\<exists>c \<in> set t. \<not> char_is_whitespace c) \<and>
     (\<forall>at < length t. misleads_here t at \<longrightarrow> line_breaks \<and> t ! at \<in> {10, 9}) \<and>
     (\<forall>n. leading_marks (drop n t) \<le> 4)"

lemma check_text_iff: "check_text t most line_breaks = None \<longleftrightarrow> drawable most line_breaks t"
proof -
  have f: "find (\<lambda>at. misleads_here t at \<and> \<not> (line_breaks \<and> t ! at \<in> {10, 9})) [0..<length t] = None \<longleftrightarrow>
      (\<forall>at < length t. misleads_here t at \<longrightarrow> line_breaks \<and> t ! at \<in> {10, 9})"
    by (auto simp: find_None_iff)
  show ?thesis
    unfolding check_text_def drawable_def f [symmetric] longest_combining_run_iff [of t 4, symmetric]
    by (auto simp: list_all_iff MAX_COMBINING_RUN_def not_less split: option.splits)
qed

lemma first_refusal_None: "first_refusal f xs = None \<longleftrightarrow> (\<forall>x \<in> set xs. f x = None)"
  by (induction xs) (auto split: option.splits)

definition field_drawable :: "field \<Rightarrow> bool" where
  "field_drawable f \<longleftrightarrow> drawable 40 False (fd_label f) \<and>
     (if fd_kind f = ListField then 1 \<le> length (fd_values f) \<and> length (fd_values f) \<le> 20 else length (fd_values f) = 1) \<and>
     list_all (drawable (most_chars (fd_kind f)) (fd_kind f = LongText)) (fd_values f)"

lemma check_field_iff: "check_field at f = None \<longleftrightarrow> field_drawable f"
proof (cases "check_text (fd_label f) MAX_LABEL_CHARS False")
  case None
  then have "drawable 40 False (fd_label f)" by (simp add: check_text_iff MAX_LABEL_CHARS_def)
  then show ?thesis
    unfolding check_field_def None option.case
    by (auto simp: field_drawable_def Let_def first_refusal_None check_text_iff list_all_iff MAX_LIST_ITEMS_def)
next
  case (Some e)
  then have "\<not> drawable 40 False (fd_label f)" by (simp flip: check_text_iff add: MAX_LABEL_CHARS_def)
  with Some show ?thesis by (simp add: check_field_def field_drawable_def)
qed

lemma check_file_safe:
  assumes "check_file at name ct = None"
  shows "drawable 200 False name" "0x2F \<notin> set name" "0x5C \<notin> set name" "name \<noteq> cp ''.''" "name \<noteq> cp ''..''"
    "is_media_type ct"
  using assms
  by (auto simp: check_file_def check_text_iff MAX_FILE_NAME_CHARS_def at_an_edge_def cp_def
      split: option.splits if_splits)

lemma position_of_None: "position_of x xs = None \<longleftrightarrow> x \<notin> set xs"
  by (auto simp: position_of_def find_None_iff in_set_conv_nth)

lemma check_files_from_None:
  "check_files_from lower at names files = None \<Longrightarrow> distinct names \<Longrightarrow>
     distinct (names @ map (\<lambda>f. lower (fst f)) files) \<and> (\<forall>(name, ct) \<in> set files. \<exists>i. check_file i name ct = None)"
proof (induction lower at names files rule: check_files_from.induct)
  case (2 lower at names name ct files)
  then have c: "check_file at name ct = None" "position_of (lower name) names = None"
      "check_files_from lower (at + 1) (names @ [lower name]) files = None"
    by (auto split: option.splits)
  from c(2) 2(3) have "distinct (names @ [lower name])" by (simp add: position_of_None)
  from 2(1) [OF c(1,2,3) this] c(1) show ?case by auto
qed simp

section \<open>Properties\<close>

text \<open>
  A display is taken exactly when every text of it may be drawn: the title, at most twelve labels,
  and under each label one value, or one to twenty for a list, each within the length of its kind. A
  text may be drawn when it is neither empty nor blank, holds no character that is not drawn or changes
  how others are drawn (but for the parts of an emoji, and line breaks in a long text), and nowhere
  more than four combining marks in a row.\<close>

theorem display_is_drawable:
  "check_display d = None \<longleftrightarrow>
     drawable 80 False (dp_title d) \<and> length (dp_fields d) \<le> 12 \<and> list_all field_drawable (dp_fields d)"
proof -
  have fields: "first_refusal (\<lambda>(at, f). check_field at f) (zip [0..<length (dp_fields d)] (dp_fields d)) = None \<longleftrightarrow>
      list_all field_drawable (dp_fields d)"
  proof -
    have "snd ` set (zip [0..<length (dp_fields d)] (dp_fields d)) = set (dp_fields d)"
      by (simp flip: set_map)
    moreover have "(\<forall>x \<in> A. P (snd x)) \<longleftrightarrow> (\<forall>y \<in> snd ` A. P y)" for A :: "(nat \<times> field) set" and P
      by blast
    ultimately show ?thesis
      by (simp only: first_refusal_None case_prod_unfold check_field_iff list_all_iff)
  qed
  show ?thesis
  proof (cases "check_text (dp_title d) MAX_TITLE_CHARS False")
    case None
    then have "drawable 80 False (dp_title d)" by (simp add: check_text_iff MAX_TITLE_CHARS_def)
    then show ?thesis
      unfolding check_display_def None option.case by (simp add: fields MAX_FIELDS_def not_less)
  next
    case (Some e)
    then have "\<not> drawable 80 False (dp_title d)" by (simp flip: check_text_iff add: MAX_TITLE_CHARS_def)
    with Some show ?thesis by (simp add: check_display_def)
  qed
qed

text \<open>
  Files a task is opened with can be saved under their names: no name holds a path separator or is
  the name of the directory or of its parent, every name may be drawn, and no two differ in case only.\<close>

theorem file_names_are_safe:
  assumes "check_files lower files = None"
  shows "distinct (map (\<lambda>f. lower (fst f)) files) \<and>
    (\<forall>(name, ct) \<in> set files.
      drawable 200 False name \<and> 0x2F \<notin> set name \<and> 0x5C \<notin> set name \<and> name \<noteq> cp ''.'' \<and> name \<noteq> cp ''..'' \<and> is_media_type ct)"
proof (intro conjI ballI)
  have all: "distinct (map (\<lambda>f. lower (fst f)) files) \<and> (\<forall>(name, ct) \<in> set files. \<exists>i. check_file i name ct = None)"
    using check_files_from_None [OF assms [unfolded check_files_def]] by simp
  then show "distinct (map (\<lambda>f. lower (fst f)) files)" ..
  fix f
  assume "f \<in> set files"
  with all obtain i name ct where "f = (name, ct)" "check_file i name ct = None" by (cases f) auto
  then show "case f of (name, ct) \<Rightarrow> drawable 200 False name \<and> 0x2F \<notin> set name \<and> 0x5C \<notin> set name \<and>
      name \<noteq> cp ''.'' \<and> name \<noteq> cp ''..'' \<and> is_media_type ct"
    using check_file_safe by simp
qed

theorem file_names_are_safe_witness:
  "distinct (map (\<lambda>f. map (\<lambda>c. if c = 0x42 then 0x62 else c) (fst f)) [([0x42 :: nat], [0x61, 0x2F, 0x62]), ([0x63], [0x61, 0x2F, 0x62])]) \<and>
    [0x42] \<noteq> cp ''.''"
proof -
  let ?lower = "map (\<lambda>c :: nat. if c = 0x42 then 0x62 else c)"
  let ?files = "[([0x42 :: nat], [0x61, 0x2F, 0x62]), ([0x63], [0x61, 0x2F, 0x62])]"
  have "check_files ?lower ?files = None"
    by (simp add: check_files_def check_file_def check_text_def find_def position_of_def misleads_here_def misleads_def
        within_def char_is_control_def char_is_whitespace_def longest_combining_run_def combines_def
        MAX_COMBINING_RUN_def MAX_FILE_NAME_CHARS_def at_an_edge_def is_media_type_def split_once_def utf8_width_def
        MAX_CONTENT_TYPE_CHARS_def of_a_part_def)
  from file_names_are_safe [OF this] show ?thesis by simp
qed

text \<open>
  A run is the one consented to exactly when it is on the same payment key, wallet and identity and
  the compute it carries and the compute that was allowed are both numbers, the first no larger.\<close>

theorem consent_holds_exactly:
  "consent_refuses allowed run = None \<longleftrightarrow>
     cn_payment_key_nonce run = cn_payment_key_nonce allowed \<and> cn_wallet run = cn_wallet allowed \<and>
     cn_bound_identity run = cn_bound_identity allowed \<and>
     (\<exists>a c. parse_u128 (cn_compute_limit_usd allowed) = Some a \<and> parse_u128 (cn_compute_limit_usd run) = Some c \<and> c \<le> a)"
  by (auto simp: consent_refuses_def split: option.splits)

end
