(* ===== verification/Task_Formats.thy ===== *)
theory Task_Formats
  imports Task_Envelope
begin

text \<open>
  A written form of envelopes and sealed tasks that is read back, in place of \<open>serde_json\<close>: it shows that
  what the task theorems rely on of the formats can be had. Each writer puts a length or a mark in
  front of what it writes; \<open>codec\<close> says a reader takes off exactly what the writer put on.
\<close>

definition codec :: "('a \<Rightarrow> string) \<Rightarrow> (string \<Rightarrow> ('a \<times> string) option) \<Rightarrow> bool" where
  "codec e d \<longleftrightarrow> (\<forall>x r. d (e x @ r) = Some (x, r))"

lemma codecD: "codec e d \<Longrightarrow> d (e x @ r) = Some (x, r)"
  by (simp add: codec_def)

definition write_number :: "nat \<Rightarrow> string" where
  "write_number n = show_nat n @ '';''"

definition read_number :: "string \<Rightarrow> (nat \<times> string) option" where
  "read_number s =
     map_option (\<lambda>n. (n, tl (dropWhile (\<lambda>c. c \<noteq> CHR '';'') s))) (parse_digits 0 (takeWhile (\<lambda>c. c \<noteq> CHR '';'') s))"

lemma number_codec: "codec write_number read_number"
proof -
  have "CHR '';'' \<notin> set (show_nat n)" for n
    using show_nat_digits [of n] by (auto dest: subsetD)
  then have "\<forall>c \<in> set (show_nat n). c \<noteq> CHR '';''" for n by metis
  then show ?thesis
    by (simp add: codec_def write_number_def read_number_def parse_digits_show takeWhile_append2 dropWhile_append2)
qed

definition write_string :: "string \<Rightarrow> string" where
  "write_string s = write_number (length s) @ s"

definition read_string :: "string \<Rightarrow> (string \<times> string) option" where
  "read_string t = map_option (\<lambda>(n, r). (take n r, drop n r)) (read_number t)"

lemma string_codec: "codec write_string read_string"
  by (simp add: codec_def write_string_def read_string_def codecD [OF number_codec])

definition write_pair :: "('a \<Rightarrow> string) \<Rightarrow> ('b \<Rightarrow> string) \<Rightarrow> 'a \<times> 'b \<Rightarrow> string" where
  "write_pair e f p = e (fst p) @ f (snd p)"

definition read_pair ::
  "(string \<Rightarrow> ('a \<times> string) option) \<Rightarrow> (string \<Rightarrow> ('b \<times> string) option) \<Rightarrow> string \<Rightarrow> (('a \<times> 'b) \<times> string) option" where
  "read_pair d g s =
     (case d s of None \<Rightarrow> None | Some (a, r) \<Rightarrow> (case g r of None \<Rightarrow> None | Some (b, r') \<Rightarrow> Some ((a, b), r')))"

lemma pair_codec: "codec e d \<Longrightarrow> codec f g \<Longrightarrow> codec (write_pair e f) (read_pair d g)"
  by (simp add: codec_def write_pair_def read_pair_def)

definition write_option :: "('a \<Rightarrow> string) \<Rightarrow> 'a option \<Rightarrow> string" where
  "write_option e v = (case v of None \<Rightarrow> ''0'' | Some x \<Rightarrow> CHR ''1'' # e x)"

definition read_option :: "(string \<Rightarrow> ('a \<times> string) option) \<Rightarrow> string \<Rightarrow> ('a option \<times> string) option" where
  "read_option d s =
     (case s of
        [] \<Rightarrow> None
      | c # r \<Rightarrow> (if c = CHR ''0'' then Some (None, r) else map_option (\<lambda>(x, r'). (Some x, r')) (d r)))"

lemma option_codec: "codec e d \<Longrightarrow> codec (write_option e) (read_option d)"
  by (auto simp: codec_def write_option_def read_option_def split: option.splits)

definition write_list :: "('a \<Rightarrow> string) \<Rightarrow> 'a list \<Rightarrow> string" where
  "write_list e xs = write_number (length xs) @ concat (map e xs)"

fun read_times :: "nat \<Rightarrow> (string \<Rightarrow> ('a \<times> string) option) \<Rightarrow> string \<Rightarrow> ('a list \<times> string) option" where
  "read_times 0 d s = Some ([], s)"
| "read_times (Suc n) d s =
     (case d s of None \<Rightarrow> None | Some (x, r) \<Rightarrow> map_option (\<lambda>(xs, r'). (x # xs, r')) (read_times n d r))"

definition read_list :: "(string \<Rightarrow> ('a \<times> string) option) \<Rightarrow> string \<Rightarrow> ('a list \<times> string) option" where
  "read_list d s = (case read_number s of None \<Rightarrow> None | Some (n, r) \<Rightarrow> read_times n d r)"

lemma read_times_all: "codec e d \<Longrightarrow> read_times (length xs) d (concat (map e xs) @ r) = Some (xs, r)"
  by (induction xs) (simp_all add: codecD)

lemma list_codec: "codec e d \<Longrightarrow> codec (write_list e) (read_list d)"
  by (simp add: codec_def [of "write_list e"] write_list_def read_list_def codecD [OF number_codec] read_times_all)

text \<open>A type through another one it is a part of.\<close>

definition through :: "('b \<Rightarrow> 'a) \<Rightarrow> (string \<Rightarrow> ('b \<times> string) option) \<Rightarrow> string \<Rightarrow> ('a \<times> string) option" where
  "through g d s = map_option (\<lambda>(x, r). (g x, r)) (d s)"

lemma through_codec: "codec e d \<Longrightarrow> (\<And>x. g (f x) = x) \<Longrightarrow> codec (\<lambda>x. e (f x)) (through g d)"
  by (simp add: codec_def through_def)

definition supplies_code :: "supplies \<Rightarrow> nat" where
  "supplies_code x = (case x of SuppliesNothing \<Rightarrow> 0 | SuppliesText \<Rightarrow> 1 | SuppliesFile \<Rightarrow> 2)"

definition supplies_named :: "nat \<Rightarrow> supplies" where
  "supplies_named n = (if n = 0 then SuppliesNothing else if n = 1 then SuppliesText else SuppliesFile)"

definition kind_code :: "task_kind \<Rightarrow> nat" where
  "kind_code x = (case x of Confirm \<Rightarrow> 0 | Input \<Rightarrow> 1 | Notice \<Rightarrow> 2)"

definition kind_named :: "nat \<Rightarrow> task_kind" where
  "kind_named n = (if n = 0 then Confirm else if n = 1 then Input else Notice)"

definition field_kind_code :: "field_kind \<Rightarrow> nat" where
  "field_kind_code x =
     (case x of Money \<Rightarrow> 0 | AccountField \<Rightarrow> 1 | Address \<Rightarrow> 2 | TextField \<Rightarrow> 3 | LongText \<Rightarrow> 4 | ListField \<Rightarrow> 5)"

definition field_kind_named :: "nat \<Rightarrow> field_kind" where
  "field_kind_named n =
     (if n = 0 then Money else if n = 1 then AccountField else if n = 2 then Address else if n = 3 then TextField
      else if n = 4 then LongText else ListField)"

lemma supplies_coded: "supplies_named (supplies_code s) = s"
  by (cases s) (simp_all add: supplies_named_def supplies_code_def)

lemma kind_coded: "kind_named (kind_code k) = k"
  by (cases k) (simp_all add: kind_named_def kind_code_def)

lemma field_kind_coded: "field_kind_named (field_kind_code f) = f"
  by (cases f) (simp_all add: field_kind_named_def field_kind_code_def)

lemmas named_codes = supplies_coded kind_coded field_kind_coded

abbreviation "write_chars \<equiv> write_list write_number"
abbreviation "read_chars \<equiv> read_list read_number"

lemmas codecs = number_codec string_codec pair_codec option_codec list_codec

definition write_answer_by :: "answer_by \<Rightarrow> string" where
  "write_answer_by a = write_pair write_string write_number (ab_operation a, supplies_code (ab_supplies a))"

definition read_answer_by :: "string \<Rightarrow> (answer_by \<times> string) option" where
  "read_answer_by = through (\<lambda>(p, s). \<lparr>ab_operation = p, ab_supplies = supplies_named s\<rparr>) (read_pair read_string read_number)"

lemma answer_by_codec: "codec write_answer_by read_answer_by"
  unfolding write_answer_by_def read_answer_by_def
  by (rule through_codec, intro codecs) (simp add: named_codes)

definition write_file_note :: "file_note \<Rightarrow> string" where
  "write_file_note n = write_pair write_chars (write_pair write_chars (write_pair write_string write_number))
     (fn_content_type n, fn_name n, fn_sha256 n, fn_size n)"

definition read_file_note :: "string \<Rightarrow> (file_note \<times> string) option" where
  "read_file_note = through (\<lambda>(c, n, h, z). \<lparr>fn_content_type = c, fn_name = n, fn_sha256 = h, fn_size = z\<rparr>)
     (read_pair read_chars (read_pair read_chars (read_pair read_string read_number)))"

lemma file_note_codec: "codec write_file_note read_file_note"
  unfolding write_file_note_def read_file_note_def by (rule through_codec, intro codecs) simp

definition write_field :: "field \<Rightarrow> string" where
  "write_field f = write_pair write_number (write_pair write_chars (write_pair (write_list write_chars) write_number))
     (field_kind_code (fd_kind f), fd_label f, fd_values f, if fd_written_by f = ByProject then 0 else 1)"

definition read_field :: "string \<Rightarrow> (field \<times> string) option" where
  "read_field = through (\<lambda>(k, l, v, w). \<lparr>fd_kind = field_kind_named k, fd_label = l, fd_values = v,
       fd_written_by = (if w = 0 then ByProject else ByAgent)\<rparr>)
     (read_pair read_number (read_pair read_chars (read_pair (read_list read_chars) read_number)))"

lemma field_codec: "codec write_field read_field"
proof -
  have "(if (if w = ByProject then 0 else (1::nat)) = 0 then ByProject else ByAgent) = w" for w by (cases w) simp_all
  then show ?thesis
    unfolding write_field_def read_field_def by (intro through_codec codecs) (simp_all add: named_codes)
qed

definition write_display :: "display \<Rightarrow> string" where
  "write_display d = write_pair (write_list write_field) write_chars (dp_fields d, dp_title d)"

definition read_display :: "string \<Rightarrow> (display \<times> string) option" where
  "read_display = through (\<lambda>(f, t). \<lparr>dp_fields = f, dp_title = t\<rparr>) (read_pair (read_list read_field) read_chars)"

lemma display_codec: "codec write_display read_display"
  unfolding write_display_def read_display_def by (rule through_codec, intro codecs field_codec) simp

abbreviation "write_part1 \<equiv> write_pair (write_option write_answer_by) (write_pair write_string (write_pair write_number
  (write_pair write_display (write_pair write_number (write_list write_file_note)))))"
abbreviation "read_part1 \<equiv> read_pair (read_option read_answer_by) (read_pair read_string (read_pair read_number
  (read_pair read_display (read_pair read_number (read_list read_file_note)))))"
abbreviation "write_part2 \<equiv> write_pair write_string (write_pair write_number (write_pair write_string (write_pair write_string
  (write_pair write_string write_string))))"
abbreviation "read_part2 \<equiv> read_pair read_string (read_pair read_number (read_pair read_string (read_pair read_string
  (read_pair read_string read_string))))"
abbreviation "write_part3 \<equiv> write_pair write_string (write_pair write_string (write_pair (write_option write_string)
  (write_pair write_string (write_pair write_string write_number))))"
abbreviation "read_part3 \<equiv> read_pair read_string (read_pair read_string (read_pair (read_option read_string)
  (read_pair read_string (read_pair read_string read_number))))"

definition write_envelope :: "envelope \<Rightarrow> string" where
  "write_envelope e = write_pair write_part1 (write_pair write_part2 write_part3)
     ((ev_answer_by e, ev_build e, ev_created_at e, ev_display e, ev_expires_at e, ev_files e),
      (ev_id e, kind_code (ev_kind e), ev_owner e, ev_policy_hash e, ev_preparer e, ev_profile e),
      (ev_project e, ev_project_uuid e, ev_reply_pubkey e, ev_state_hash e, ev_thread e, ev_v e))"

definition read_envelope :: "string \<Rightarrow> envelope option" where
  "read_envelope s = map_option fst
     (through (\<lambda>((a, b, c, d, x, f), (i, k, w, p, r, l), (j, u, y, h, t, v)).
        \<lparr>ev_answer_by = a, ev_build = b, ev_created_at = c, ev_display = d, ev_expires_at = x, ev_files = f, ev_id = i,
         ev_kind = kind_named k, ev_owner = w, ev_policy_hash = p, ev_preparer = r, ev_profile = l, ev_project = j,
         ev_project_uuid = u, ev_reply_pubkey = y, ev_state_hash = h, ev_thread = t, ev_v = v\<rparr>)
      (read_pair read_part1 (read_pair read_part2 read_part3)) s)"

lemma read_write_envelope: "read_envelope (write_envelope e) = Some e"
proof -
  have "codec (write_pair write_part1 (write_pair write_part2 write_part3))
      (read_pair read_part1 (read_pair read_part2 read_part3))"
    by (intro codecs answer_by_codec display_codec file_note_codec)
  from codecD [OF this, where r = "[]"] show ?thesis
    by (simp add: read_envelope_def write_envelope_def through_def named_codes)
qed

definition write_consent :: "consent \<Rightarrow> string" where
  "write_consent c = write_pair write_number (write_pair (write_option write_string) (write_pair write_number write_string))
     (cn_payment_key_nonce c, cn_wallet c, if cn_bound_identity c then 1 else 0, cn_compute_limit_usd c)"

definition read_consent :: "string \<Rightarrow> (consent \<times> string) option" where
  "read_consent = through (\<lambda>(n, w, b, l). \<lparr>cn_payment_key_nonce = n, cn_wallet = w, cn_bound_identity = (b = 1),
       cn_compute_limit_usd = l\<rparr>)
     (read_pair read_number (read_pair (read_option read_string) (read_pair read_number read_string)))"

lemma consent_codec: "codec write_consent read_consent"
  unfolding write_consent_def read_consent_def by (intro through_codec codecs) simp_all

definition write_sealed :: "sealed_task \<Rightarrow> string" where
  "write_sealed t = write_pair write_string (write_pair write_string (write_pair write_string (write_option write_consent)))
     (st_content_key t, st_envelope t, st_state t, st_consent t)"

definition read_sealed :: "string \<Rightarrow> sealed_task option" where
  "read_sealed s = map_option fst
     (through (\<lambda>(k, e, t, c). \<lparr>st_content_key = k, st_envelope = e, st_state = t, st_consent = c\<rparr>)
       (read_pair read_string (read_pair read_string (read_pair read_string (read_option read_consent)))) s)"

lemma read_write_sealed: "read_sealed (write_sealed t) = Some t"
proof -
  have "codec (write_pair write_string (write_pair write_string (write_pair write_string (write_option write_consent))))
      (read_pair read_string (read_pair read_string (read_pair read_string (read_option read_consent))))"
    by (intro codecs consent_codec)
  from codecD [OF this, where r = "[]"] show ?thesis
    by (simp add: read_sealed_def write_sealed_def through_def)
qed

end
