(* ===== verification/Task_Crypto.thy ===== *)
theory Task_Crypto
  imports Rust_Text
begin

text \<open>
  The keys of a task and what is sealed with them (\<open>worker/src/tasks/crypto.rs\<close>): derivation, the formats
  of sealed blobs, what each is bound to. The ciphers, HMAC, HKDF and the curve are the libraries' and
  come as the record \<open>cipher_libs\<close>; nonces, ephemeral secrets and the content key are arguments in
  place of the operating system's randomness, \<open>None\<close> where it has none.
\<close>

record cipher_libs =
  hmac_sha256 :: "string \<Rightarrow> string \<Rightarrow> string"
  xchacha_encrypt :: "string \<Rightarrow> string \<Rightarrow> string \<Rightarrow> string \<Rightarrow> string option"
  xchacha_decrypt :: "string \<Rightarrow> string \<Rightarrow> string \<Rightarrow> string \<Rightarrow> string option"
  aes_encrypt :: "string \<Rightarrow> string \<Rightarrow> string \<Rightarrow> string \<Rightarrow> string option"
  aes_decrypt :: "string \<Rightarrow> string \<Rightarrow> string \<Rightarrow> string \<Rightarrow> string option"
  scalar_in_order :: "string \<Rightarrow> bool"
  public_point :: "string \<Rightarrow> string"
  sec1_point :: "string \<Rightarrow> bool"
  ecdh :: "string \<Rightarrow> string \<Rightarrow> string"
  hkdf_sha256 :: "string \<Rightarrow> string \<Rightarrow> string \<Rightarrow> string"

definition FORMAT :: char where "FORMAT = CHR 0x01"
definition XNONCE_LEN :: nat where "XNONCE_LEN = 24"
definition GCM_NONCE_LEN :: nat where "GCM_NONCE_LEN = 12"
definition TAG_LEN :: nat where "TAG_LEN = 16"
definition POINT_LEN :: nat where "POINT_LEN = 65"

datatype sealed = SealedTask | SealedOutcome
datatype purpose = DeviceCopy | Answer | Rejection | Note

fun label :: "sealed \<Rightarrow> string" where
  "label SealedTask = ''task''"
| "label SealedOutcome = ''outcome''"

fun purpose_label :: "purpose \<Rightarrow> string" where
  "purpose_label DeviceCopy = ''outlayer-task:v1:device-copy:''"
| "purpose_label Answer = ''outlayer-task:v1:answer:''"
| "purpose_label Rejection = ''outlayer-task:v1:rejection:''"
| "purpose_label Note = ''outlayer-task:v1:note:''"

definition info :: "purpose \<Rightarrow> string \<Rightarrow> string" where
  "info p task = purpose_label p @ task"

definition sealed_aad :: "sealed \<Rightarrow> string \<Rightarrow> string" where
  "sealed_aad what task = ''outlayer-task:v1:'' @ label what @ '':'' @ task"

definition file_aad :: "string \<Rightarrow> nat \<Rightarrow> string" where
  "file_aad task at = task @ '':file:'' @ show_nat at"

record task_keys =
  tk_seal :: string
  tk_reply :: string

text \<open>\<open>to_be_bytes\<close> of a \<open>u32\<close>.\<close>

definition be32 :: "nat \<Rightarrow> string" where
  "be32 n = map (\<lambda>i. char_of (n div 256 ^ i mod 256)) [3, 2, 1, 0]"

text \<open>The first of the \<open>2\<^sup>3\<^sup>2\<close> candidate scalars within the curve's order; none is a panic.\<close>

definition reply_key :: "cipher_libs \<Rightarrow> string \<Rightarrow> string option" where
  "reply_key lib task_key =
     map_option (\<lambda>n. hmac_sha256 lib task_key (''reply:'' @ be32 n))
       (find (\<lambda>n. scalar_in_order lib (hmac_sha256 lib task_key (''reply:'' @ be32 n))) [0..<2 ^ 32])"

definition derive :: "cipher_libs \<Rightarrow> string \<Rightarrow> string \<Rightarrow> task_keys option" where
  "derive lib project_key task =
     (let task_key = hmac_sha256 lib project_key (''task:'' @ task) in
      map_option (\<lambda>reply. \<lparr>tk_seal = hmac_sha256 lib task_key ''seal'', tk_reply = reply\<rparr>) (reply_key lib task_key))"

definition seal :: "cipher_libs \<Rightarrow> task_keys \<Rightarrow> sealed \<Rightarrow> string \<Rightarrow> string option \<Rightarrow> string \<Rightarrow> string option" where
  "seal lib keys what task randomness plaintext =
     (case randomness of
        None \<Rightarrow> None
      | Some nonce \<Rightarrow>
          map_option (\<lambda>c. FORMAT # nonce @ c) (xchacha_encrypt lib (tk_seal keys) nonce (sealed_aad what task) plaintext))"

definition open_sealed :: "cipher_libs \<Rightarrow> task_keys \<Rightarrow> sealed \<Rightarrow> string \<Rightarrow> string \<Rightarrow> string option" where
  "open_sealed lib keys what task blob =
     (if length blob < 1 + XNONCE_LEN + TAG_LEN \<or> hd blob \<noteq> FORMAT then None
      else xchacha_decrypt lib (tk_seal keys) (take XNONCE_LEN (tl blob)) (sealed_aad what task) (drop XNONCE_LEN (tl blob)))"

definition encrypt_under :: "cipher_libs \<Rightarrow> string \<Rightarrow> string \<Rightarrow> string option \<Rightarrow> string \<Rightarrow> string option" where
  "encrypt_under lib key aad randomness plaintext =
     (case randomness of
        None \<Rightarrow> None
      | Some nonce \<Rightarrow> map_option (\<lambda>c. FORMAT # nonce @ c) (aes_encrypt lib key nonce aad plaintext))"

definition decrypt_under :: "cipher_libs \<Rightarrow> string \<Rightarrow> string \<Rightarrow> string \<Rightarrow> string option" where
  "decrypt_under lib key aad blob =
     (if length blob < 1 + GCM_NONCE_LEN + TAG_LEN \<or> hd blob \<noteq> FORMAT then None
      else aes_decrypt lib key (take GCM_NONCE_LEN (tl blob)) aad (drop GCM_NONCE_LEN (tl blob)))"

definition encrypt_content :: "cipher_libs \<Rightarrow> string \<Rightarrow> string \<Rightarrow> string option \<Rightarrow> string \<Rightarrow> string option" where
  "encrypt_content lib key task randomness plaintext = encrypt_under lib key task randomness plaintext"

definition encrypt_file :: "cipher_libs \<Rightarrow> string \<Rightarrow> string \<Rightarrow> nat \<Rightarrow> string option \<Rightarrow> string \<Rightarrow> string option" where
  "encrypt_file lib key task at randomness plaintext = encrypt_under lib key (file_aad task at) randomness plaintext"

definition decrypt_file :: "cipher_libs \<Rightarrow> string \<Rightarrow> string \<Rightarrow> nat \<Rightarrow> string \<Rightarrow> string option" where
  "decrypt_file lib key task at blob = decrypt_under lib key (file_aad task at) blob"

definition ecies_key :: "cipher_libs \<Rightarrow> string \<Rightarrow> string \<Rightarrow> string \<Rightarrow> purpose \<Rightarrow> string \<Rightarrow> string" where
  "ecies_key lib shared ephemeral recipient p task = hkdf_sha256 lib (ephemeral @ recipient) shared (info p task)"

definition seal_to ::
  "cipher_libs \<Rightarrow> string \<Rightarrow> string option \<Rightarrow> string \<Rightarrow> purpose \<Rightarrow> string \<Rightarrow> string \<Rightarrow> string option" where
  "seal_to lib ephemeral randomness recipient p task plaintext =
     (let point = public_point lib ephemeral;
          key = ecies_key lib (ecdh lib ephemeral recipient) point recipient p task
      in case randomness of
           None \<Rightarrow> None
         | Some nonce \<Rightarrow> map_option (\<lambda>c. FORMAT # point @ nonce @ c) (aes_encrypt lib key nonce [] plaintext))"

definition open_from :: "cipher_libs \<Rightarrow> string \<Rightarrow> purpose \<Rightarrow> string \<Rightarrow> string \<Rightarrow> string option" where
  "open_from lib secret p task blob =
     (if length blob < 1 + POINT_LEN + GCM_NONCE_LEN + TAG_LEN \<or> hd blob \<noteq> FORMAT then None
      else let point = take POINT_LEN (tl blob);
               rest = drop POINT_LEN (tl blob);
               nonce = take GCM_NONCE_LEN rest;
               c = drop GCM_NONCE_LEN rest
           in if \<not> sec1_point lib point then None
              else aes_decrypt lib (ecies_key lib (ecdh lib secret point) point (public_point lib secret) p task) nonce [] c)"

definition open_reply :: "cipher_libs \<Rightarrow> task_keys \<Rightarrow> purpose \<Rightarrow> string \<Rightarrow> string \<Rightarrow> string option" where
  "open_reply lib keys p task blob = open_from lib (tk_reply keys) p task blob"

section \<open>Round trips and separation\<close>

text \<open>What the ciphers promise: decryption with the same key, nonce and data gives the message back, and
  the tag makes the text sixteen bytes longer. A point on the curve is sixty-five bytes, and both
  sides of an agreement find the same secret.\<close>

definition ciphers_ok :: "cipher_libs \<Rightarrow> bool" where
  "ciphers_ok lib \<longleftrightarrow>
     (\<forall>k n a m c. xchacha_encrypt lib k n a m = Some c \<longrightarrow> xchacha_decrypt lib k n a c = Some m \<and> length c = length m + 16) \<and>
     (\<forall>k n a m c. aes_encrypt lib k n a m = Some c \<longrightarrow> aes_decrypt lib k n a c = Some m \<and> length c = length m + 16) \<and>
     (\<forall>s. length (public_point lib s) = 65 \<and> sec1_point lib (public_point lib s)) \<and>
     (\<forall>s t. ecdh lib s (public_point lib t) = ecdh lib t (public_point lib s))"

lemma ciphers_okD:
  assumes "ciphers_ok lib"
  shows "xchacha_encrypt lib k n a m = Some c \<Longrightarrow> xchacha_decrypt lib k n a c = Some m"
    "xchacha_encrypt lib k n a m = Some c \<Longrightarrow> length c = length m + 16"
    "aes_encrypt lib k n a m = Some c \<Longrightarrow> aes_decrypt lib k n a c = Some m"
    "aes_encrypt lib k n a m = Some c \<Longrightarrow> length c = length m + 16"
    "length (public_point lib s) = 65" "sec1_point lib (public_point lib s)"
    "ecdh lib s (public_point lib t) = ecdh lib t (public_point lib s)"
  using assms unfolding ciphers_ok_def by blast+

lemma open_seal:
  assumes "ciphers_ok lib" "length nonce = 24" "seal lib keys what task (Some nonce) m = Some blob"
  shows "open_sealed lib keys what task blob = Some m"
  using assms(2,3) ciphers_okD(1,2) [OF assms(1)]
  by (auto simp: seal_def open_sealed_def XNONCE_LEN_def TAG_LEN_def)

lemma decrypt_encrypt:
  assumes "ciphers_ok lib" "length nonce = 12" "encrypt_under lib key aad (Some nonce) m = Some blob"
  shows "decrypt_under lib key aad blob = Some m"
  using assms(2,3) ciphers_okD(3,4) [OF assms(1)]
  by (auto simp: encrypt_under_def decrypt_under_def GCM_NONCE_LEN_def TAG_LEN_def)

lemma open_from_seal_to:
  assumes "ciphers_ok lib" "length nonce = 12"
    and "seal_to lib ephemeral (Some nonce) (public_point lib secret) p task m = Some blob"
  shows "open_from lib secret p task blob = Some m"
proof -
  define point where "point = public_point lib ephemeral"
  define key where "key = ecies_key lib (ecdh lib ephemeral (public_point lib secret)) point (public_point lib secret) p task"
  from assms(3) obtain c where c: "aes_encrypt lib key nonce [] m = Some c" "blob = FORMAT # point @ nonce @ c"
    by (auto simp: seal_to_def Let_def key_def point_def)
  have "length point = 65" "sec1_point lib point" "length c = length m + 16" "aes_decrypt lib key nonce [] c = Some m"
    using ciphers_okD(3-6) [OF assms(1)] c(1) by (simp_all add: point_def)
  moreover have "ecies_key lib (ecdh lib secret point) point (public_point lib secret) p task = key"
    using ciphers_okD(7) [OF assms(1), of secret ephemeral] by (simp add: key_def point_def)
  ultimately show ?thesis
    using assms(2) c(2) by (simp add: open_from_def Let_def POINT_LEN_def GCM_NONCE_LEN_def TAG_LEN_def)
qed

lemma sealed_aad_inj: "sealed_aad w t = sealed_aad w' t' \<Longrightarrow> w = w' \<and> t = t'"
  by (cases w; cases w') (simp_all add: sealed_aad_def)

lemma info_inj: "info p t = info p' t' \<Longrightarrow> p = p' \<and> t = t'"
  by (cases p; cases p') (simp_all add: info_def)

lemma file_aad_inj:
  assumes "file_aad t n = file_aad t' n'" "CHR '':'' \<notin> set t" "CHR '':'' \<notin> set t'"
  shows "t = t' \<and> n = n'"
proof -
  have "t @ CHR '':'' # ''file:'' @ show_nat n = t' @ CHR '':'' # ''file:'' @ show_nat n'"
    using assms(1) by (simp add: file_aad_def)
  from split_at_separator [OF assms(2,3) this] have "t = t'" "show_nat n = show_nat n'" by simp_all
  with show_nat_inject show ?thesis by simp
qed

lemma file_aad_not_content: "CHR '':'' \<notin> set t \<Longrightarrow> file_aad t' n \<noteq> t"
  by (auto simp: file_aad_def)

text \<open>
  What is sealed opens again for the same task and use: the sealed copy and the outcome, the
  content and each file, and what is encrypted to a device or to the reply key.\<close>

theorem sealed_opens_again:
  assumes "ciphers_ok lib"
  shows "length n24 = 24 \<Longrightarrow> seal lib keys what task (Some n24) m = Some blob \<Longrightarrow>
      open_sealed lib keys what task blob = Some m"
    and "length n12 = 12 \<Longrightarrow> encrypt_file lib key task at (Some n12) m = Some blob \<Longrightarrow>
      decrypt_file lib key task at blob = Some m"
    and "length n12 = 12 \<Longrightarrow> seal_to lib e (Some n12) (public_point lib (tk_reply keys)) p task m = Some blob \<Longrightarrow>
      open_reply lib keys p task blob = Some m"
  by (erule (1) open_seal [OF assms])
    (simp_all add: encrypt_file_def decrypt_file_def open_reply_def decrypt_encrypt [OF assms] open_from_seal_to [OF assms])

text \<open>Ciphers that hide nothing, with a tag of the right length.\<close>

definition plain_ciphers :: cipher_libs where
  "plain_ciphers = \<lparr>hmac_sha256 = (\<lambda>k m. k @ m),
     xchacha_encrypt = (\<lambda>k n a m. Some (m @ replicate 16 CHR ''t'')),
     xchacha_decrypt = (\<lambda>k n a c. Some (take (length c - 16) c)),
     aes_encrypt = (\<lambda>k n a m. Some (m @ replicate 16 CHR ''t'')),
     aes_decrypt = (\<lambda>k n a c. Some (take (length c - 16) c)),
     scalar_in_order = (\<lambda>s. True), public_point = (\<lambda>s. replicate 65 CHR 0x04), sec1_point = (\<lambda>p. True),
     ecdh = (\<lambda>s p. []), hkdf_sha256 = (\<lambda>s i f. s @ i @ f)\<rparr>"

lemma plain_ciphers_ok: "ciphers_ok plain_ciphers"
  by (simp add: ciphers_ok_def plain_ciphers_def)

theorem sealed_opens_again_witness:
  "open_sealed plain_ciphers \<lparr>tk_seal = ''s'', tk_reply = ''r''\<rparr> SealedTask ''t-0''
     (FORMAT # replicate 24 CHR ''n'' @ ''hello'' @ replicate 16 CHR ''t'') = Some ''hello''"
  by (rule sealed_opens_again(1) [OF plain_ciphers_ok, of "replicate 24 CHR ''n''"])
    (simp_all add: seal_def plain_ciphers_def)

text \<open>
  Blobs are bound to one use. The data a sealed blob is bound to determines the task and whether it is
  the copy or the outcome; the data a reply is bound to determines the task and the purpose; and for
  tasks whose id holds no colon, the data a file is bound to determines the task and the file's place
  and is never what a content is bound to.\<close>

theorem uses_are_separated:
  "(sealed_aad w t = sealed_aad w' t' \<longleftrightarrow> w = w' \<and> t = t') \<and>
   (info p t = info p' t' \<longleftrightarrow> p = p' \<and> t = t') \<and>
   (CHR '':'' \<notin> set t \<longrightarrow> CHR '':'' \<notin> set t' \<longrightarrow>
     (file_aad t n = file_aad t' n' \<longleftrightarrow> t = t' \<and> n = n') \<and> file_aad t' n \<noteq> t)"
proof (intro conjI impI)
  show "sealed_aad w t = sealed_aad w' t' \<longleftrightarrow> w = w' \<and> t = t'" using sealed_aad_inj by metis
  show "info p t = info p' t' \<longleftrightarrow> p = p' \<and> t = t'" using info_inj by metis
  assume free: "CHR '':'' \<notin> set t" "CHR '':'' \<notin> set t'"
  show "file_aad t n = file_aad t' n' \<longleftrightarrow> t = t' \<and> n = n'" using file_aad_inj [OF _ free] by metis
  show "file_aad t' n \<noteq> t" using free(1) by (rule file_aad_not_content)
qed

theorem uses_are_separated_witness:
  "file_aad ''t-0'' 1 \<noteq> file_aad ''t-0'' 2 \<and> file_aad ''t-0'' 1 \<noteq> ''t-0''"
  using uses_are_separated [of SealedTask "''t-0''" SealedTask "''t-0''" Note Note 1 2]
    uses_are_separated [of SealedTask "''t-0''" SealedTask "''t-0''" Note Note 1 1] by simp

end
