(* ===== verification/Task_Host.thy ===== *)
theory Task_Host
  imports Task_Statement Task_Formats Task_Crypto
begin

text \<open>
  The host's side of tasks (\<open>worker/src/tasks/host_functions.rs\<close>, \<open>tasks/mod.rs\<close>, the data of
  \<open>tasks/client.rs\<close>): who may use tasks in a run, what a sealed task is taken for, when an approved task is
  handed to a run, what the run reports, and how a task is opened. The store and the chain are
  arguments of each call; what a call does to the store is listed beside its answer. Reading and
  writing JSON, hex and base64 are the libraries' and come as \<open>host_libs\<close>. Messages of refusals are
  not modelled, their reasons are. A panic while deriving keys is its own outcome.
\<close>

section \<open>Data\<close>

datatype reason =
    NotDeclared | NoOwner | Relayed | NotGrantedByName | Muted | InboxFull | RunLimit | DisplayInvalid
  | TooLarge | LifeTooLong | NotFound | NotTheOwner | NotThePreparer | ApprovalInvalid | NoPaymentKey
  | HashMismatch | AnswerInvalid | Closed | Expired | Voided | Unreadable | Unavailable | Internal

datatype task_error = Because reason | Panicked

fun reason_name :: "reason \<Rightarrow> string" where
  "reason_name NotDeclared = ''not-declared''"
| "reason_name NoOwner = ''no-owner''"
| "reason_name Relayed = ''relayed''"
| "reason_name NotGrantedByName = ''not-granted-by-name''"
| "reason_name Muted = ''muted''"
| "reason_name InboxFull = ''inbox-full''"
| "reason_name RunLimit = ''run-limit''"
| "reason_name DisplayInvalid = ''display-invalid''"
| "reason_name TooLarge = ''too-large''"
| "reason_name LifeTooLong = ''life-too-long''"
| "reason_name NotFound = ''not-found''"
| "reason_name NotTheOwner = ''not-the-owner''"
| "reason_name NotThePreparer = ''not-the-preparer''"
| "reason_name ApprovalInvalid = ''approval-invalid''"
| "reason_name NoPaymentKey = ''no-payment-key''"
| "reason_name HashMismatch = ''hash-mismatch''"
| "reason_name AnswerInvalid = ''answer-invalid''"
| "reason_name Closed = ''closed''"
| "reason_name Expired = ''expired''"
| "reason_name Voided = ''void''"
| "reason_name Unreadable = ''unreadable''"
| "reason_name Unavailable = ''unavailable''"
| "reason_name Internal = ''internal''"

datatype task_state =
    StOpen | StApproved | StAnswering | StDone | StFailed | StRejected | StCancelled | StExpired | StVoid

datatype store_refusal =
    RefNotFound | RefMuted | RefInboxFull | RefPreparerFull | RefStorageFull | RefExists | RefClosed | RefExpired
  | RefLifeTooLong | RefInvalidRequest

datatype store_error = StoreRefused store_refusal "task_state option" | StoreUnavailable

record answered_task =
  an_id :: string
  an_outcome :: "string option"
  an_failed :: bool

record refused_task =
  rf_id :: string
  rf_reason :: string

record report =
  rp_answered :: "answered_task list"
  rp_refused :: "refused_task list"

record task_grant =
  tg_key :: string
  tg_admitted_by_name :: bool
  tg_vault :: "account option"

record row_grant =
  rg_owner :: account
  rg_profile :: string
  rg_grant :: task_grant

record named_row =
  nr_account_id :: account
  nr_profile :: string

record tasks_run =
  tr_declared :: bool
  tr_grant :: "task_grant option"
  tr_run :: string
  tr_project_id :: "string option"
  tr_project_uuid :: "string option"
  tr_build :: "string option"
  tr_owner :: "account option"
  tr_profile :: "string option"
  tr_other_rows :: "row_grant list"
  tr_operation :: "string option"
  tr_caller :: "account option"
  tr_predecessor :: "account option"
  tr_payment_key_nonce :: "nat option"
  tr_wallet_id :: "string option"
  tr_bound_identity :: bool
  tr_compute_limit_usd :: "string option"
  tr_store :: bool
  tr_recipient :: "account option"

record ready =
  rd_grant :: task_grant
  rd_run :: string
  rd_project_id :: string
  rd_build :: string
  rd_operation :: "string option"
  rd_project_uuid :: string
  rd_owner :: account
  rd_profile :: string
  rd_others :: "row_grant list"
  rd_named_rows :: "named_row list"
  rd_caller :: account
  rd_consent :: "consent option"
  rd_recipient :: account

datatype conversation = Unanswered | One string | Several

record host =
  ht_access :: "reason + ready"
  ht_calls :: nat
  ht_opened :: nat
  ht_devices :: "device list option"
  ht_conversation :: conversation
  ht_report :: report

record stored =
  sd_id :: string
  sd_kind :: task_kind
  sd_state :: task_state
  sd_sealed :: "string option"
  sd_files :: "string list"

record host_file =
  fl_name :: chars
  fl_content_type :: chars
  fl_data :: string

record answer =
  aw_id :: string
  aw_thread :: string
  aw_preparer :: account
  aw_kind :: task_kind
  aw_operation :: string
  aw_state :: string
  aw_files :: "host_file list"
  aw_supplied :: "string option"
  aw_note :: "string option"

record host_libs =
  hl_statement :: statement_libs
  hl_cipher :: cipher_libs
  hl_read_sealed :: "string \<Rightarrow> sealed_task option"
  hl_write_sealed :: "sealed_task \<Rightarrow> string"
  hl_read_envelope :: "string \<Rightarrow> envelope option"
  hl_write_envelope :: "envelope \<Rightarrow> string"
  hl_hex_decode :: "string \<Rightarrow> string option"
  hl_lowercase :: "chars \<Rightarrow> chars"
  hl_url64 :: "string \<Rightarrow> string"

text \<open>What a call does to the store.\<close>

datatype store_call = CallVoid string | CallAnswer string string

definition MAX_CALLS_PER_RUN :: nat where "MAX_CALLS_PER_RUN = 100"
definition MAX_OPENS_PER_RUN :: nat where "MAX_OPENS_PER_RUN = 5"
definition MAX_POLICY_BYTES :: nat where "MAX_POLICY_BYTES = 64 * 1024"
definition MAX_STATE_BYTES :: nat where "MAX_STATE_BYTES = 256 * 1024"
definition MAX_RESULT_BYTES :: nat where "MAX_RESULT_BYTES = 16 * 1024"
definition MAX_SUPPLIED_BYTES :: nat where "MAX_SUPPLIED_BYTES = 8 * 1024"
definition MAX_NOTE_BYTES :: nat where "MAX_NOTE_BYTES = 8 * 1024"
definition MAX_FILES :: nat where "MAX_FILES = 10"
definition MAX_FILES_BYTES :: nat where "MAX_FILES_BYTES = 6 * 1024 * 1024"
definition MAX_ENVELOPE_BYTES :: nat where "MAX_ENVELOPE_BYTES = 256 * 1024"
definition MAX_LIFE_SECS :: nat where "MAX_LIFE_SECS = 24 * 60 * 60"
definition MIN_ANSWER_LIFE_SECS :: nat where "MIN_ANSWER_LIFE_SECS = 15 * 60"

section \<open>The report of a run\<close>

definition report_answered :: "string \<Rightarrow> report \<Rightarrow> report" where
  "report_answered i r =
     (if list_ex (\<lambda>t. an_id t = i) (rp_answered r) then r
      else r\<lparr>rp_answered := rp_answered r @ [\<lparr>an_id = i, an_outcome = None, an_failed = False\<rparr>]\<rparr>)"

definition report_forget :: "string \<Rightarrow> report \<Rightarrow> report" where
  "report_forget i r = r\<lparr>rp_answered := filter (\<lambda>t. an_id t \<noteq> i) (rp_answered r)\<rparr>"

definition report_refused :: "string \<Rightarrow> string \<Rightarrow> report \<Rightarrow> report" where
  "report_refused i why r =
     (if list_ex (\<lambda>t. rf_id t = i) (rp_refused r) then r
      else r\<lparr>rp_refused := rp_refused r @ [\<lparr>rf_id = i, rf_reason = why\<rparr>]\<rparr>)"

text \<open>The first task of the id is written.\<close>

fun write_outcome_of :: "string \<Rightarrow> string \<Rightarrow> bool \<Rightarrow> answered_task list \<Rightarrow> answered_task list" where
  "write_outcome_of i outcome failed [] = []"
| "write_outcome_of i outcome failed (t # ts) =
     (if an_id t = i then t\<lparr>an_outcome := Some outcome, an_failed := failed\<rparr> # ts
      else t # write_outcome_of i outcome failed ts)"

definition report_reported :: "string \<Rightarrow> string \<Rightarrow> bool \<Rightarrow> report \<Rightarrow> bool \<times> report" where
  "report_reported i outcome failed r =
     (if list_ex (\<lambda>t. an_id t = i) (rp_answered r)
      then (True, r\<lparr>rp_answered := write_outcome_of i outcome failed (rp_answered r)\<rparr>) else (False, r))"

definition is_id :: "string \<Rightarrow> bool" where
  "is_id raw \<longleftrightarrow> raw \<noteq> [] \<and> length raw \<le> 80 \<and>
     list_all (\<lambda>c. c \<in> set ''abcdefghijklmnopqrstuvwxyz0123456789-'') raw"

definition run_id :: "string option \<Rightarrow> nat \<Rightarrow> string" where
  "run_id call_id request_id =
     (case call_id of
        Some call \<Rightarrow> (if is_id call then call else ''req-'' @ show_nat request_id)
      | None \<Rightarrow> ''req-'' @ show_nat request_id)"

section \<open>Who may use tasks\<close>

definition conversation_answered :: "string \<Rightarrow> conversation \<Rightarrow> conversation" where
  "conversation_answered thread c =
     (case c of
        Unanswered \<Rightarrow> One thread
      | One held \<Rightarrow> (if held = thread then One held else Several)
      | Several \<Rightarrow> Several)"

definition consent_of :: "tasks_run \<Rightarrow> consent option" where
  "consent_of run =
     (case (tr_payment_key_nonce run, tr_compute_limit_usd run) of
        (Some n, Some limit) \<Rightarrow>
          Some \<lparr>cn_payment_key_nonce = n, cn_wallet = tr_wallet_id run, cn_bound_identity = tr_bound_identity run,
                cn_compute_limit_usd = limit\<rparr>
      | _ \<Rightarrow> None)"

definition names_a_build :: "string \<Rightarrow> bool" where
  "names_a_build h \<longleftrightarrow> length h = 64 \<and> list_all is_ascii_hexdigit h"

definition access_of :: "tasks_run \<Rightarrow> reason + ready" where
  "access_of run =
     (case (tr_project_id run, tr_project_uuid run) of
        (Some project_id, Some project_uuid) \<Rightarrow>
          (case tr_build run of
             None \<Rightarrow> Inl Internal
           | Some build \<Rightarrow>
               (if \<not> names_a_build build then Inl Internal
                else case (tr_owner run, tr_profile run) of
                  (Some owner, Some profile) \<Rightarrow>
                    (case tr_grant run of
                       None \<Rightarrow> Inl NoOwner
                     | Some grant \<Rightarrow>
                         (case tr_caller run of
                            None \<Rightarrow> Inl NoOwner
                          | Some caller \<Rightarrow>
                              (if tr_predecessor run \<noteq> Some caller then Inl Relayed
                               else case (tr_store run, tr_recipient run) of
                                 (True, Some recipient) \<Rightarrow>
                                   Inr \<lparr>rd_grant = grant, rd_run = tr_run run, rd_project_id = project_id, rd_build = build,
                                        rd_operation = tr_operation run, rd_project_uuid = project_uuid, rd_owner = owner,
                                        rd_profile = profile, rd_others = tr_other_rows run,
                                        rd_named_rows =
                                          (if tr_other_rows run = [] then []
                                           else \<lparr>nr_account_id = owner, nr_profile = profile\<rparr> #
                                             map (\<lambda>row. \<lparr>nr_account_id = rg_owner row, nr_profile = rg_profile row\<rparr>) (tr_other_rows run)),
                                        rd_caller = caller, rd_consent = consent_of run, rd_recipient = recipient\<rparr>
                               | _ \<Rightarrow> Inl Unavailable)))
                | _ \<Rightarrow> Inl NoOwner))
      | _ \<Rightarrow> Inl NoOwner)"

definition new_host :: "tasks_run option \<Rightarrow> host" where
  "new_host run =
     \<lparr>ht_access = (case run of Some r \<Rightarrow> (if tr_declared r then access_of r else Inl NotDeclared) | None \<Rightarrow> Inl NotDeclared),
      ht_calls = 0, ht_opened = 0, ht_devices = None, ht_conversation = Unanswered,
      ht_report = \<lparr>rp_answered = [], rp_refused = []\<rparr>\<rparr>"

text \<open>One call, counted; then the run's facts.\<close>

definition count_call :: "host \<Rightarrow> (reason + unit) \<times> host" where
  "count_call h =
     (let h' = h\<lparr>ht_calls := ht_calls h + 1\<rparr> in
      (if ht_calls h' > MAX_CALLS_PER_RUN then Inl RunLimit else Inr (), h'))"

definition enter :: "host \<Rightarrow> (reason + ready) \<times> host" where
  "enter h =
     (case count_call h of
        (Inl e, h') \<Rightarrow> (Inl e, h')
      | (Inr _, h') \<Rightarrow> (ht_access h', h'))"

fun not_open :: "task_state \<Rightarrow> reason" where
  "not_open StOpen = ApprovalInvalid"
| "not_open StApproved = Closed"
| "not_open StExpired = Expired"
| "not_open StVoid = Voided"
| "not_open _ = Closed"

fun store_failed :: "store_error \<Rightarrow> reason" where
  "store_failed StoreUnavailable = Unavailable"
| "store_failed (StoreRefused RefNotFound _) = NotFound"
| "store_failed (StoreRefused RefMuted _) = Muted"
| "store_failed (StoreRefused RefInboxFull _) = InboxFull"
| "store_failed (StoreRefused RefPreparerFull _) = InboxFull"
| "store_failed (StoreRefused RefStorageFull _) = InboxFull"
| "store_failed (StoreRefused RefLifeTooLong _) = LifeTooLong"
| "store_failed (StoreRefused RefClosed (Some st)) = not_open st"
| "store_failed (StoreRefused RefExpired (Some st)) = not_open st"
| "store_failed (StoreRefused RefExpired None) = not_open StExpired"
| "store_failed (StoreRefused RefClosed None) = Closed"
| "store_failed (StoreRefused RefExists _) = Internal"
| "store_failed (StoreRefused RefInvalidRequest _) = Internal"

section \<open>A task as it is sealed\<close>

record unsealed =
  us_envelope :: envelope
  us_hash :: string
  us_state :: string
  us_content_key :: string
  us_consent :: "consent option"

definition hash_of :: "host_libs \<Rightarrow> string \<Rightarrow> string" where
  "hash_of lib b = hex_of (hl_statement lib) (sha256_digest (hl_statement lib) b)"

definition envelope_from_bytes :: "host_libs \<Rightarrow> string \<Rightarrow> envelope option" where
  "envelope_from_bytes lib b =
     (case hl_read_envelope lib b of None \<Rightarrow> None | Some e \<Rightarrow> (if check_kind e then Some e else None))"

definition keys_of :: "host_libs \<Rightarrow> ready \<Rightarrow> string \<Rightarrow> task_keys option" where
  "keys_of lib rd task = derive (hl_cipher lib) (tg_key (rd_grant rd)) task"

definition unseal :: "host_libs \<Rightarrow> ready \<Rightarrow> string \<Rightarrow> string \<Rightarrow> task_error + unsealed" where
  "unseal lib rd i sealed =
     (case keys_of lib rd i of
        None \<Rightarrow> Inl Panicked
      | Some keys \<Rightarrow>
          (case open_sealed (hl_cipher lib) keys SealedTask i sealed of
             None \<Rightarrow> Inl (Because Unreadable)
           | Some plain \<Rightarrow>
               (case hl_read_sealed lib plain of
                  None \<Rightarrow> Inl (Because Unreadable)
                | Some task \<Rightarrow>
                    (case (envelope_from_bytes lib (st_envelope task), b64_decode (hl_statement lib) (st_state task),
                           bytes_of_length 32 (hl_hex_decode lib (st_content_key task))) of
                       (Some env, Some state, Some content_key) \<Rightarrow>
                         (if ev_id env = i \<and> ev_owner env = rd_owner rd \<and> ev_project_uuid env = rd_project_uuid rd
                             \<and> ev_v env = ENVELOPE_VERSION \<and> hash_of lib state = ev_state_hash env
                             \<and> takes_an_answer (ev_kind env) = (st_consent task \<noteq> None)
                          then Inr \<lparr>us_envelope = env, us_hash = hash_of lib (st_envelope task), us_state = state,
                                    us_content_key = content_key, us_consent = st_consent task\<rparr>
                          else Inl (Because Unreadable))
                     | _ \<Rightarrow> Inl (Because Unreadable)))))"

section \<open>Taking an approved task\<close>

text \<open>What the owner supplied, and the note beside the approval, opened.\<close>

definition open_supplied ::
  "host_libs \<Rightarrow> ready \<Rightarrow> string \<Rightarrow> supplies \<Rightarrow> string option \<Rightarrow> task_error + string option" where
  "open_supplied lib rd i asked supplied =
     (case (asked, supplied) of
        (SuppliesNothing, None) \<Rightarrow> Inr None
      | (SuppliesNothing, Some _) \<Rightarrow> Inl (Because AnswerInvalid)
      | (_, None) \<Rightarrow> Inl (Because AnswerInvalid)
      | (_, Some sealed) \<Rightarrow>
          (if length sealed > MAX_SUPPLIED_BYTES then Inl (Because AnswerInvalid)
           else case keys_of lib rd i of
             None \<Rightarrow> Inl Panicked
           | Some keys \<Rightarrow>
               (case open_reply (hl_cipher lib) keys Answer i sealed of
                  None \<Rightarrow> Inl (Because AnswerInvalid) | Some opened \<Rightarrow> Inr (Some opened))))"

definition open_note :: "host_libs \<Rightarrow> ready \<Rightarrow> string \<Rightarrow> string option \<Rightarrow> task_error + string option" where
  "open_note lib rd i owner_note =
     (case owner_note of
        None \<Rightarrow> Inr None
      | Some sealed \<Rightarrow>
          (if length sealed > MAX_NOTE_BYTES then Inl (Because AnswerInvalid)
           else case keys_of lib rd i of
             None \<Rightarrow> Inl Panicked
           | Some keys \<Rightarrow>
               (case open_reply (hl_cipher lib) keys Note i sealed of
                  None \<Rightarrow> Inl (Because AnswerInvalid)
                | Some opened \<Rightarrow>
                    (case utf8_text (map of_char opened) of
                       None \<Rightarrow> Inl (Because AnswerInvalid)
                     | Some t \<Rightarrow> (if check_long_text t = None then Inr (Some opened) else Inl (Because AnswerInvalid))))))"

text \<open>The files, each opened in its place and compared with what the envelope says of it.\<close>

fun open_files :: "host_libs \<Rightarrow> string \<Rightarrow> string \<Rightarrow> nat \<Rightarrow> file_note list \<Rightarrow> string list \<Rightarrow> host_file list option" where
  "open_files lib key i at (n # notes) (blob # blobs) =
     (case decrypt_file (hl_cipher lib) key i at blob of
        None \<Rightarrow> None
      | Some d \<Rightarrow>
          (if hash_of lib d = fn_sha256 n \<and> length d = fn_size n
           then map_option ((#) \<lparr>fl_name = fn_name n, fl_content_type = fn_content_type n, fl_data = d\<rparr>)
                  (open_files lib key i (at + 1) notes blobs)
           else None))"
| "open_files lib key i at _ _ = Some []"

record request_of_answer =
  qa_id :: string
  qa_hash :: string
  qa_operation :: string
  qa_policy :: string
  qa_approval :: approval
  qa_supplied :: "string option"
  qa_note :: "string option"

text \<open>The refusals up to the policy and the build: the life that was sealed, the hash of what was shown, the
  operation, the row, the preparer and its consent.\<close>

definition run_refused :: "ready \<Rightarrow> int \<Rightarrow> request_of_answer \<Rightarrow> unsealed \<Rightarrow> reason option" where
  "run_refused rd now q task =
     (if ev_expires_at (us_envelope task) \<le> (if now < 0 then 2 ^ 64 - 1 else nat now) then Some (not_open StExpired)
      else if \<not> eq_ignore_ascii_case (qa_hash q) (us_hash task) then Some HashMismatch
      else if (case rd_operation rd of None \<Rightarrow> False | Some running \<Rightarrow> running \<noteq> qa_operation q) then Some AnswerInvalid
      else case ev_answer_by (us_envelope task) of
        None \<Rightarrow> Some AnswerInvalid
      | Some by_op \<Rightarrow>
          (if qa_operation q \<noteq> ab_operation by_op then Some AnswerInvalid
           else if ev_profile (us_envelope task) \<noteq> rd_profile rd then Some NotFound
           else if rd_caller rd \<noteq> ev_preparer (us_envelope task) then Some NotThePreparer
           else case rd_consent rd of
             None \<Rightarrow> Some NotThePreparer
           | Some consent \<Rightarrow>
               (case us_consent task of
                  None \<Rightarrow> Some AnswerInvalid
                | Some consented \<Rightarrow>
                    (if consent_refuses consented consent \<noteq> None then Some NotThePreparer else None))))"

definition answer_of :: "unsealed \<Rightarrow> string \<Rightarrow> answer_by \<Rightarrow> host_file list \<Rightarrow> string option \<Rightarrow> string option \<Rightarrow> answer" where
  "answer_of task i by_op files supplied owner_note =
     \<lparr>aw_id = i, aw_thread = ev_thread (us_envelope task), aw_preparer = ev_preparer (us_envelope task),
      aw_kind = ev_kind (us_envelope task), aw_operation = ab_operation by_op, aw_state = us_state task,
      aw_files = files, aw_supplied = supplied, aw_note = owner_note\<rparr>"

text \<open>Everything of \<open>take_approved\<close> before the store is asked to move the task: the answer, or the refusal and
  whether the task was voided.\<close>

definition judge_approved ::
  "host_libs \<Rightarrow> chain \<Rightarrow> ready \<Rightarrow> int \<Rightarrow> request_of_answer \<Rightarrow> stored \<Rightarrow> (task_error \<times> bool) + answer" where
  "judge_approved lib chain rd now q sd =
     (case sd_sealed sd of
        None \<Rightarrow> Inl (Because Unreadable, False)
      | Some sealed \<Rightarrow>
          (case unseal lib rd (qa_id q) sealed of
             Inl e \<Rightarrow> Inl (e, False)
           | Inr task \<Rightarrow>
               (case (run_refused rd now q task, ev_answer_by (us_envelope task)) of
                  (Some e, _) \<Rightarrow> Inl (Because e, False)
                | (None, None) \<Rightarrow> Inl (Because AnswerInvalid, False)
                | (None, Some by_op) \<Rightarrow>
                    (if hash_of lib (qa_policy q) \<noteq> ev_policy_hash (us_envelope task)
                        \<or> ev_build (us_envelope task) \<noteq> rd_build rd
                     then Inl (Because Voided, True)
                     else case approval_holds (hl_statement lib) chain (qa_approval q) (ev_owner (us_envelope task)) (qa_id q)
                                 (us_hash task) (qa_supplied q) (qa_note q) now (ev_expires_at (us_envelope task)) (rd_recipient rd) of
                       Inl (Invalid _) \<Rightarrow> Inl (Because ApprovalInvalid, False)
                     | Inl (ChainDown _) \<Rightarrow> Inl (Because Unavailable, False)
                     | Inr _ \<Rightarrow>
                         (case open_supplied lib rd (qa_id q) (ab_supplies by_op) (qa_supplied q) of
                            Inl e \<Rightarrow> Inl (e, False)
                          | Inr supplied \<Rightarrow>
                              (case open_note lib rd (qa_id q) (qa_note q) of
                                 Inl e \<Rightarrow> Inl (e, False)
                               | Inr owner_note \<Rightarrow>
                                   (if length (sd_files sd) \<noteq> length (ev_files (us_envelope task)) then Inl (Because Unreadable, False)
                                    else case open_files lib (us_content_key task) (qa_id q) 0 (ev_files (us_envelope task)) (sd_files sd) of
                                      None \<Rightarrow> Inl (Because Unreadable, False)
                                    | Some files \<Rightarrow> Inr (answer_of task (qa_id q) by_op files supplied owner_note))))))))"

datatype untaken = UntakenRefused task_error | NotMoved reason

text \<open>Recorded before the store is asked, and forgotten only when the store refuses by name.\<close>

definition take_approved ::
  "host_libs \<Rightarrow> chain \<Rightarrow> (store_error + unit) \<Rightarrow> ready \<Rightarrow> int \<Rightarrow> request_of_answer \<Rightarrow> stored \<Rightarrow> report
     \<Rightarrow> (untaken + answer) \<times> report \<times> store_call list" where
  "take_approved lib chain store_answer rd now q sd rep =
     (case judge_approved lib chain rd now q sd of
        Inl (e, voided) \<Rightarrow> (Inl (UntakenRefused e), rep, if voided then [CallVoid (qa_id q)] else [])
      | Inr aw \<Rightarrow>
          let rep1 = report_answered (qa_id q) rep; calls = [CallAnswer (qa_id q) (rd_run rd)] in
          (case store_answer of
             Inl (StoreRefused why st) \<Rightarrow>
               (Inl (NotMoved (store_failed (StoreRefused why st))), report_forget (qa_id q) rep1, calls)
           | Inl StoreUnavailable \<Rightarrow> (Inl (NotMoved Unavailable), rep1, calls)
           | Inr _ \<Rightarrow> (Inr aw, rep1, calls)))"

text \<open>\<open>answered\<close>; a panic records nothing.\<close>

definition answered ::
  "host_libs \<Rightarrow> chain \<Rightarrow> (store_error + stored) \<Rightarrow> (store_error + unit) \<Rightarrow> int \<Rightarrow> request_of_answer \<Rightarrow> host
     \<Rightarrow> (task_error + answer) \<times> host \<times> store_call list" where
  "answered lib chain store_get store_answer now q h =
     (case enter h of
        (Inl e, h1) \<Rightarrow> (Inl (Because e), h1, [])
      | (Inr rd, h1) \<Rightarrow>
          (if \<not> is_id (qa_id q) then (Inl (Because NotFound), h1, [])
           else if length (qa_policy q) > MAX_POLICY_BYTES then (Inl (Because TooLarge), h1, [])
           else case store_get of
             Inl e \<Rightarrow> (Inl (Because (store_failed e)), h1, [])
           | Inr sd \<Rightarrow>
               (if sd_id sd \<noteq> qa_id q then (Inl (Because Unreadable), h1, [])
                else if sd_kind sd = Notice then (Inl (Because AnswerInvalid), h1, [])
                else if sd_state sd \<noteq> StApproved then (Inl (Because (not_open (sd_state sd))), h1, [])
                else case take_approved lib chain store_answer rd now q sd (ht_report h1) of
                  (Inr aw, rep, calls) \<Rightarrow>
                    (Inr aw, h1\<lparr>ht_report := rep, ht_conversation := conversation_answered (aw_thread aw) (ht_conversation h1)\<rparr>, calls)
                | (Inl (UntakenRefused Panicked), rep, calls) \<Rightarrow> (Inl Panicked, h1\<lparr>ht_report := rep\<rparr>, calls)
                | (Inl (UntakenRefused (Because r)), rep, calls) \<Rightarrow>
                    (Inl (Because r), h1\<lparr>ht_report := report_refused (qa_id q) (reason_name r) rep\<rparr>, calls)
                | (Inl (NotMoved e), rep, calls) \<Rightarrow> (Inl (Because e), h1\<lparr>ht_report := rep\<rparr>, calls))))"

text \<open>\<open>report\<close> and \<open>report-failure\<close>.\<close>

definition leave ::
  "host_libs \<Rightarrow> string option \<Rightarrow> string \<Rightarrow> string \<Rightarrow> bool \<Rightarrow> host \<Rightarrow> (task_error + unit) \<times> host" where
  "leave lib randomness i result failed h =
     (case enter h of
        (Inl e, h1) \<Rightarrow> (Inl (Because e), h1)
      | (Inr rd, h1) \<Rightarrow>
          (if \<not> is_id i then (Inl (Because NotFound), h1)
           else if length result > MAX_RESULT_BYTES then (Inl (Because TooLarge), h1)
           else case keys_of lib rd i of
             None \<Rightarrow> (Inl Panicked, h1)
           | Some keys \<Rightarrow>
               (case seal (hl_cipher lib) keys SealedOutcome i randomness result of
                  None \<Rightarrow> (Inl (Because Unavailable), h1)
                | Some sealed \<Rightarrow>
                    (case report_reported i sealed failed (ht_report h1) of
                       (True, rep) \<Rightarrow> (Inr (), h1\<lparr>ht_report := rep\<rparr>)
                     | (False, _) \<Rightarrow> (Inl (Because NotFound), h1)))))"

section \<open>Opening a task\<close>

record task_request =
  tq_kind :: task_kind
  tq_answer_by :: "answer_by option"
  tq_state :: string
  tq_policy :: string
  tq_life_seconds :: nat
  tq_files :: "host_file list"
  tq_display :: display

record voucher =
  vc_payment_key_nonce :: nat
  vc_wallet_id :: "string option"
  vc_bound_identity :: bool
  vc_compute_limit_usd :: string
  vc_operation :: string
  vc_build :: string
  vc_secrets_refs :: "named_row list"

record device_copy =
  cy_device_id :: string
  cy_wrapped_key :: string

record new_task =
  nt_id :: string
  nt_project_id :: string
  nt_preparer :: account
  nt_voucher :: "voucher option"
  nt_profile :: string
  nt_vault :: "account option"
  nt_kind :: task_kind
  nt_expires_at :: nat
  nt_reply_pubkey :: "string option"
  nt_sealed :: string
  nt_content :: string
  nt_files :: "string list"
  nt_copies :: "device_copy list"

record opened_task =
  op_id :: string
  op_hash :: string
  op_thread :: string
  op_expires_at :: nat
  op_devices :: nat

text \<open>What a call of \<open>open\<close> draws from the operating system.\<close>

record open_random =
  or_content_key :: "string option"
  or_content_nonce :: "string option"
  or_file_nonce :: "nat \<Rightarrow> string option"
  or_device :: "nat \<Rightarrow> string \<times> string option"
  or_seal_nonce :: "string option"

definition answer_refused :: "task_request \<Rightarrow> bool" where
  "answer_refused q =
     (case (tq_kind q, tq_answer_by q) of
        (Notice, None) \<Rightarrow> False
      | (Notice, Some _) \<Rightarrow> True
      | (_, None) \<Rightarrow> True
      | (Confirm, Some a) \<Rightarrow> ab_supplies a \<noteq> SuppliesNothing
      | (Input, Some a) \<Rightarrow> ab_supplies a = SuppliesNothing)"

definition life_of :: "task_request \<Rightarrow> reason + nat" where
  "life_of q =
     (if tq_life_seconds q = 0 then Inr MAX_LIFE_SECS
      else if tq_life_seconds q > MAX_LIFE_SECS then Inl LifeTooLong
      else if tq_life_seconds q < MIN_ANSWER_LIFE_SECS \<and> takes_an_answer (tq_kind q) then Inl DisplayInvalid
      else Inr (tq_life_seconds q))"

definition task_id_of :: "ready \<Rightarrow> nat \<Rightarrow> string" where
  "task_id_of rd opened = rd_run rd @ ''-'' @ show_nat opened"

text \<open>Every check of \<open>open_as\<close> before the devices are read, in order: the consent, the thread and the life.\<close>

definition check_open ::
  "host_libs \<Rightarrow> ready \<Rightarrow> nat \<Rightarrow> conversation \<Rightarrow> task_request \<Rightarrow> reason + consent option \<times> string \<times> nat" where
  "check_open lib rd opened conv q =
     (if rd_caller rd \<noteq> rd_owner rd \<and> \<not> tg_admitted_by_name (rd_grant rd) then Inl NotGrantedByName
      else if opened \<ge> MAX_OPENS_PER_RUN then Inl RunLimit
      else if answer_refused q then Inl DisplayInvalid
      else if takes_an_answer (tq_kind q) \<and> rd_consent rd = None then Inl NoPaymentKey
      else if conv = Several then Inl Internal
      else if length (tq_state q) > MAX_STATE_BYTES then Inl TooLarge
      else if length (tq_policy q) > MAX_POLICY_BYTES then Inl TooLarge
      else case life_of q of
        Inl e \<Rightarrow> Inl e
      | Inr life \<Rightarrow>
          (if length (tq_files q) > MAX_FILES then Inl TooLarge
           else if sum_list (map (\<lambda>f. length (fl_data f)) (tq_files q)) > MAX_FILES_BYTES then Inl TooLarge
           else if check_files (hl_lowercase lib) (map (\<lambda>f. (fl_name f, fl_content_type f)) (tq_files q)) \<noteq> None then Inl DisplayInvalid
           else if (case tq_answer_by q of None \<Rightarrow> False | Some a \<Rightarrow> \<not> check_operation (ab_operation a)) then Inl DisplayInvalid
           else if check_display (tq_display q) \<noteq> None then Inl DisplayInvalid
           else Inr (if takes_an_answer (tq_kind q) then rd_consent rd else None,
                     (case conv of One thread \<Rightarrow> thread | _ \<Rightarrow> task_id_of rd opened), life)))"

definition write_pubkey :: "host_libs \<Rightarrow> string \<Rightarrow> string" where
  "write_pubkey lib secret = ''p256:'' @ hl_url64 lib (public_point (hl_cipher lib) secret)"

definition envelope_of ::
  "host_libs \<Rightarrow> ready \<Rightarrow> task_keys \<Rightarrow> nat \<Rightarrow> string \<Rightarrow> string \<Rightarrow> nat \<Rightarrow> task_request \<Rightarrow> envelope" where
  "envelope_of lib rd keys now i thread life q =
     \<lparr>ev_answer_by = tq_answer_by q, ev_build = rd_build rd, ev_created_at = now, ev_display = tq_display q,
      ev_expires_at = now + life,
      ev_files = map (\<lambda>f. \<lparr>fn_content_type = fl_content_type f, fn_name = fl_name f, fn_sha256 = hash_of lib (fl_data f),
                           fn_size = length (fl_data f)\<rparr>) (tq_files q),
      ev_id = i, ev_kind = tq_kind q, ev_owner = rd_owner rd, ev_policy_hash = hash_of lib (tq_policy q),
      ev_preparer = rd_caller rd, ev_profile = rd_profile rd, ev_project = rd_project_id rd,
      ev_project_uuid = rd_project_uuid rd,
      ev_reply_pubkey = (if takes_an_answer (tq_kind q) then Some (write_pubkey lib (tk_reply keys)) else None),
      ev_state_hash = hash_of lib (tq_state q), ev_thread = thread, ev_v = ENVELOPE_VERSION\<rparr>"

fun encrypt_files :: "host_libs \<Rightarrow> string \<Rightarrow> string \<Rightarrow> (nat \<Rightarrow> string option) \<Rightarrow> nat \<Rightarrow> host_file list \<Rightarrow> string list option" where
  "encrypt_files lib key i nonces at [] = Some []"
| "encrypt_files lib key i nonces at (f # fs) =
     (case encrypt_file (hl_cipher lib) key i at (nonces at) (fl_data f) of
        None \<Rightarrow> None
      | Some blob \<Rightarrow> map_option ((#) blob) (encrypt_files lib key i nonces (at + 1) fs))"

fun copies_for ::
  "host_libs \<Rightarrow> string \<Rightarrow> string \<Rightarrow> (nat \<Rightarrow> string \<times> string option) \<Rightarrow> nat \<Rightarrow> device list \<Rightarrow> device_copy list option" where
  "copies_for lib i content_key draw at [] = Some []"
| "copies_for lib i content_key draw at (d # ds) =
     (case seal_to (hl_cipher lib) (fst (draw at)) (snd (draw at)) (dv_key d) DeviceCopy i content_key of
        None \<Rightarrow> None
      | Some w \<Rightarrow> map_option ((#) \<lparr>cy_device_id = dv_id d, cy_wrapped_key = w\<rparr>) (copies_for lib i content_key draw (at + 1) ds))"

definition voucher_of :: "ready \<Rightarrow> consent option \<Rightarrow> envelope \<Rightarrow> voucher option" where
  "voucher_of rd consent env =
     (case (consent, ev_answer_by env) of
        (Some c, Some a) \<Rightarrow>
          Some \<lparr>vc_payment_key_nonce = cn_payment_key_nonce c, vc_wallet_id = cn_wallet c,
                vc_bound_identity = cn_bound_identity c, vc_compute_limit_usd = cn_compute_limit_usd c,
                vc_operation = ab_operation a, vc_build = ev_build env, vc_secrets_refs = rd_named_rows rd\<rparr>
      | _ \<Rightarrow> None)"

text \<open>The task as it is stored, from the keys of its id.\<close>

definition make_task ::
  "host_libs \<Rightarrow> ready \<Rightarrow> task_keys \<Rightarrow> open_random \<Rightarrow> int \<Rightarrow> string \<Rightarrow> consent option \<Rightarrow> string \<Rightarrow> nat \<Rightarrow> device list
     \<Rightarrow> task_request \<Rightarrow> reason + envelope \<times> string \<times> new_task" where
  "make_task lib rd keys rnd now i consent thread life devices q =
     (let env = envelope_of lib rd keys (nat now) i thread life q; document = hl_write_envelope lib env in
      if length document > MAX_ENVELOPE_BYTES then Inl TooLarge
      else case or_content_key rnd of
        None \<Rightarrow> Inl Unavailable
      | Some content_key \<Rightarrow>
          (case (encrypt_content (hl_cipher lib) content_key i (or_content_nonce rnd) document,
                 encrypt_files lib content_key i (or_file_nonce rnd) 0 (tq_files q),
                 copies_for lib i content_key (or_device rnd) 0 devices,
                 seal (hl_cipher lib) keys SealedTask i (or_seal_nonce rnd)
                   (hl_write_sealed lib \<lparr>st_content_key = hex_of (hl_statement lib) content_key, st_envelope = document,
                      st_state = b64_encode (hl_statement lib) (tq_state q), st_consent = consent\<rparr>)) of
             (Some content, Some files, Some copies, Some sealed) \<Rightarrow>
               Inr (env, hash_of lib document,
                    \<lparr>nt_id = i, nt_project_id = rd_project_id rd, nt_preparer = rd_caller rd, nt_voucher = voucher_of rd consent env,
                     nt_profile = rd_profile rd, nt_vault = tg_vault (rd_grant rd), nt_kind = tq_kind q,
                     nt_expires_at = ev_expires_at env, nt_reply_pubkey = ev_reply_pubkey env, nt_sealed = sealed,
                     nt_content = content, nt_files = files, nt_copies = copies\<rparr>)
           | _ \<Rightarrow> Inl Unavailable))"

definition devices_of_the_run ::
  "host_libs \<Rightarrow> chain \<Rightarrow> (store_error + device_statement list) \<Rightarrow> int \<Rightarrow> ready \<Rightarrow> device list option \<Rightarrow> reason + device list" where
  "devices_of_the_run lib chain store_devices now rd held =
     (case held of
        Some ds \<Rightarrow> Inr ds
      | None \<Rightarrow>
          (case store_devices of
             Inl e \<Rightarrow> Inl (store_failed e)
           | Inr statements \<Rightarrow>
               (case devices_in_force (hl_statement lib) chain statements (rd_owner rd) now (rd_recipient rd) of
                  Inl down \<Rightarrow> Inl Unavailable | Inr ds \<Rightarrow> Inr ds)))"

text \<open>\<open>open_as\<close>. The number of the task is taken whether the store answered or not.\<close>

definition open_as ::
  "host_libs \<Rightarrow> chain \<Rightarrow> (store_error + device_statement list) \<Rightarrow> (new_task \<Rightarrow> store_error + nat) \<Rightarrow> open_random \<Rightarrow> int
     \<Rightarrow> task_request \<Rightarrow> bool \<Rightarrow> host \<Rightarrow> (task_error + opened_task) \<times> host \<times> new_task option" where
  "open_as lib chain store_devices store_open rnd now q another_owner h =
     (case enter h of
        (Inl e, h1) \<Rightarrow> (Inl (Because e), h1, None)
      | (Inr rd, h1) \<Rightarrow>
          (case check_open lib rd (ht_opened h) (if another_owner then Unanswered else ht_conversation h) q of
             Inl e \<Rightarrow> (Inl (Because e), h1, None)
           | Inr (consent, thread, life) \<Rightarrow>
               (case devices_of_the_run lib chain store_devices now rd (ht_devices h1) of
                  Inl e \<Rightarrow> (Inl (Because e), h1, None)
                | Inr devices \<Rightarrow>
                    let h2 = h1\<lparr>ht_devices := Some devices\<rparr>; i = task_id_of rd (ht_opened h) in
                    (case keys_of lib rd i of
                       None \<Rightarrow> (Inl Panicked, h2, None)
                     | Some keys \<Rightarrow>
                         (case make_task lib rd keys rnd now i consent thread life devices q of
                            Inl e \<Rightarrow> (Inl (Because e), h2, None)
                          | Inr (env, hash, nt) \<Rightarrow>
                              let h3 = h2\<lparr>ht_opened := ht_opened h + 1\<rparr> in
                              (case store_open nt of
                                 Inl e \<Rightarrow> (Inl (Because (store_failed e)), h3, Some nt)
                               | Inr written \<Rightarrow>
                                   (Inr \<lparr>op_id = i, op_hash = hash, op_thread = ev_thread env, op_expires_at = ev_expires_at env,
                                         op_devices = min written (2 ^ 32 - 1)\<rparr>, h3, Some nt)))))))"

section \<open>Rows\<close>

text \<open>\<open>swap_row\<close>: the run's row and another one exchange places.\<close>

definition swap_row :: "nat \<Rightarrow> host \<Rightarrow> host" where
  "swap_row at h =
     (case ht_access h of
        Inl e \<Rightarrow> h
      | Inr rd \<Rightarrow>
          (let row = rd_others rd ! at in
           h\<lparr>ht_access := Inr (rd\<lparr>rd_owner := rg_owner row, rd_profile := rg_profile row, rd_grant := rg_grant row,
              rd_others := (rd_others rd)[at := \<lparr>rg_owner = rd_owner rd, rg_profile = rd_profile rd, rg_grant = rd_grant rd\<rparr>]\<rparr>)\<rparr>))"

definition with_row :: "nat option \<Rightarrow> (host \<Rightarrow> 'a \<times> host) \<Rightarrow> host \<Rightarrow> 'a \<times> host" where
  "with_row at f h =
     (case at of
        None \<Rightarrow> f h
      | Some k \<Rightarrow>
          (let h1 = swap_row k h; (r, h2) = f (h1\<lparr>ht_devices := None\<rparr>)
           in (r, swap_row k (h2\<lparr>ht_devices := ht_devices h1\<rparr>))))"

definition row_of :: "account \<Rightarrow> host \<Rightarrow> reason + nat option" where
  "row_of owner h =
     (case ht_access h of
        Inl e \<Rightarrow> Inl e
      | Inr rd \<Rightarrow>
          (if rd_owner rd = owner then Inr None
           else case position_of owner (map rg_owner (rd_others rd)) of
             Some at \<Rightarrow> Inr (Some at) | None \<Rightarrow> Inl NotGrantedByName))"

definition open_for ::
  "host_libs \<Rightarrow> chain \<Rightarrow> (store_error + device_statement list) \<Rightarrow> (new_task \<Rightarrow> store_error + nat) \<Rightarrow> open_random \<Rightarrow> int
     \<Rightarrow> account \<Rightarrow> task_request \<Rightarrow> host \<Rightarrow> ((task_error + opened_task) \<times> new_task option) \<times> host" where
  "open_for lib chain store_devices store_open rnd now owner q h =
     (case row_of owner h of
        Inl e \<Rightarrow>
          (case count_call h of
             (Inl e', h1) \<Rightarrow> ((Inl (Because e'), None), h1) | (Inr _, h1) \<Rightarrow> ((Inl (Because e), None), h1))
      | Inr at \<Rightarrow>
          with_row at (\<lambda>h'. case open_as lib chain store_devices store_open rnd now q (at \<noteq> None) h' of
            (r, h'', nt) \<Rightarrow> ((r, nt), h'')) h)"

text \<open>\<open>under_any_row\<close>: under the first row, then under each other row until one answers anything but
  \<open>not-found\<close>.\<close>

fun rows_from :: "(host \<Rightarrow> (task_error + 'a) \<times> host) \<Rightarrow> nat list \<Rightarrow> (task_error + 'a) \<times> host \<Rightarrow> (task_error + 'a) \<times> host" where
  "rows_from f [] a = a"
| "rows_from f (k # ks) (r, h) =
     (case r of
        Inl (Because NotFound) \<Rightarrow> rows_from f ks (with_row (Some k) f h)
      | _ \<Rightarrow> (r, h))"

definition under_any_row :: "(host \<Rightarrow> (task_error + 'a) \<times> host) \<Rightarrow> host \<Rightarrow> (task_error + 'a) \<times> host" where
  "under_any_row f h =
     (let others = (case ht_access h of Inl e \<Rightarrow> 0 | Inr rd \<Rightarrow> length (rd_others rd)) in
      rows_from f [0..<others] (with_row None f h))"

text \<open>\<open>cancel\<close> and \<open>delete\<close>: the store's call for the run's project, the row's owner, the caller and the id.\<close>

definition ask_store :: "(string \<Rightarrow> account \<Rightarrow> account \<Rightarrow> string \<Rightarrow> store_error + unit) \<Rightarrow> string \<Rightarrow> host \<Rightarrow> (task_error + unit) \<times> host" where
  "ask_store store i h =
     (case ht_access h of
        Inl e \<Rightarrow> (Inl (Because e), h)
      | Inr rd \<Rightarrow>
          (case store (rd_project_uuid rd) (rd_owner rd) (rd_caller rd) i of
             Inl e \<Rightarrow> (Inl (Because (store_failed e)), h) | Inr u \<Rightarrow> (Inr u, h)))"

definition cancel_or_delete ::
  "(string \<Rightarrow> account \<Rightarrow> account \<Rightarrow> string \<Rightarrow> store_error + unit) \<Rightarrow> string \<Rightarrow> host \<Rightarrow> (task_error + unit) \<times> host" where
  "cancel_or_delete store i h =
     (case enter h of
        (Inl e, h1) \<Rightarrow> (Inl (Because e), h1)
      | (Inr rd, h1) \<Rightarrow>
          (if \<not> is_id i then (Inl (Because NotFound), h1) else under_any_row (ask_store store i) h1))"

text \<open>\<open>unlock\<close>: the waiting tasks that open and have not expired, each with its key for every device of the
  owner. A panic or a failed wrapping ends the call.\<close>

fun unlock_copies ::
  "host_libs \<Rightarrow> ready \<Rightarrow> (nat \<Rightarrow> nat \<Rightarrow> string \<times> string option) \<Rightarrow> int \<Rightarrow> device list \<Rightarrow> nat \<Rightarrow> (string \<times> string option) list
     \<Rightarrow> task_error + (string \<times> device_copy list) list" where
  "unlock_copies lib rd draw now devices at [] = Inr []"
| "unlock_copies lib rd draw now devices at ((i, sealed) # rows) =
     (case (case sealed of None \<Rightarrow> Inl (Because Unreadable) | Some b \<Rightarrow> unseal lib rd i b) of
        Inl Panicked \<Rightarrow> Inl Panicked
      | Inl (Because _) \<Rightarrow> unlock_copies lib rd draw now devices (at + 1) rows
      | Inr task \<Rightarrow>
          (if ev_expires_at (us_envelope task) \<le> (if now < 0 then 2 ^ 64 - 1 else nat now)
           then unlock_copies lib rd draw now devices (at + 1) rows
           else case copies_for lib i (us_content_key task) (draw at) 0 devices of
             None \<Rightarrow> Inl (Because Unavailable)
           | Some cs \<Rightarrow>
               (case unlock_copies lib rd draw now devices (at + 1) rows of
                  Inl e \<Rightarrow> Inl e | Inr rest \<Rightarrow> Inr ((i, cs) # rest))))"

definition unlock ::
  "host_libs \<Rightarrow> chain \<Rightarrow> (store_error + device_statement list) \<Rightarrow> (store_error + (string \<times> string option) list)
     \<Rightarrow> ((string \<times> device_copy list) list \<Rightarrow> store_error + nat) \<Rightarrow> (nat \<Rightarrow> nat \<Rightarrow> string \<times> string option) \<Rightarrow> int \<Rightarrow> host
     \<Rightarrow> (task_error + nat) \<times> host" where
  "unlock lib chain store_devices store_waiting store_copies draw now h =
     (case enter h of
        (Inl e, h1) \<Rightarrow> (Inl (Because e), h1)
      | (Inr rd, h1) \<Rightarrow>
          (if rd_caller rd \<noteq> rd_owner rd then (Inl (Because NotTheOwner), h1)
           else case devices_of_the_run lib chain store_devices now rd (ht_devices h1) of
             Inl e \<Rightarrow> (Inl (Because e), h1)
           | Inr devices \<Rightarrow>
               let h2 = h1\<lparr>ht_devices := Some devices\<rparr> in
               (case store_waiting of
                  Inl e \<Rightarrow> (Inl (Because (store_failed e)), h2)
                | Inr rows \<Rightarrow>
                    (case unlock_copies lib rd draw now devices 0 rows of
                       Inl e \<Rightarrow> (Inl e, h2)
                     | Inr copies \<Rightarrow>
                         (if devices = [] \<or> copies = [] then (Inr 0, h2)
                          else case store_copies copies of
                            Inl e \<Rightarrow> (Inl (Because (store_failed e)), h2)
                          | Inr tasks \<Rightarrow> (Inr (min tasks (2 ^ 32 - 1)), h2))))))"

section \<open>What taking a task needs\<close>

lemma enter_access: "enter h = (Inr rd, h1) \<Longrightarrow> ht_access h = Inr rd \<and> h1 = h\<lparr>ht_calls := ht_calls h + 1\<rparr> \<and> ht_calls h < 100"
  by (auto simp: enter_def count_call_def Let_def MAX_CALLS_PER_RUN_def split: if_splits)

lemma enter_host: "enter h = (r, h1) \<Longrightarrow> h1 = h\<lparr>ht_calls := ht_calls h + 1\<rparr>"
  by (auto simp: enter_def count_call_def Let_def split: if_splits)

lemma unseal_Inr:
  assumes "unseal lib rd i sealed = Inr task"
  shows "ev_id (us_envelope task) = i" "ev_owner (us_envelope task) = rd_owner rd"
    "ev_project_uuid (us_envelope task) = rd_project_uuid rd"
    "takes_an_answer (ev_kind (us_envelope task)) \<longleftrightarrow> us_consent task \<noteq> None"
    "hash_of lib (us_state task) = ev_state_hash (us_envelope task)"
  using assms by (auto simp: unseal_def split: option.splits if_splits prod.splits)

lemma run_refused_None:
  assumes "run_refused rd now q task = None"
  shows "0 \<le> now \<and> nat now < ev_expires_at (us_envelope task) \<or> now < 0 \<and> 2 ^ 64 - 1 < ev_expires_at (us_envelope task)"
    "eq_ignore_ascii_case (qa_hash q) (us_hash task)"
    "rd_operation rd \<in> {None, Some (qa_operation q)}"
    "\<exists>a. ev_answer_by (us_envelope task) = Some a \<and> ab_operation a = qa_operation q"
    "ev_profile (us_envelope task) = rd_profile rd"
    "rd_caller rd = ev_preparer (us_envelope task)"
    "\<exists>allowed run. us_consent task = Some allowed \<and> rd_consent rd = Some run \<and> consent_refuses allowed run = None"
  using assms by (auto simp: run_refused_def split: if_splits option.splits)

text \<open>Everything that must hold for a task to be handed over.\<close>

definition may_take :: "host_libs \<Rightarrow> chain \<Rightarrow> ready \<Rightarrow> int \<Rightarrow> request_of_answer \<Rightarrow> unsealed \<Rightarrow> bool" where
  "may_take lib chain rd now q task \<longleftrightarrow>
     run_refused rd now q task = None \<and>
     hash_of lib (qa_policy q) = ev_policy_hash (us_envelope task) \<and> ev_build (us_envelope task) = rd_build rd \<and>
     approval_holds (hl_statement lib) chain (qa_approval q) (ev_owner (us_envelope task)) (qa_id q) (us_hash task)
       (qa_supplied q) (qa_note q) now (ev_expires_at (us_envelope task)) (rd_recipient rd) = Inr ()"

lemma judge_approved_Inr:
  "judge_approved lib chain rd now q sd = Inr aw \<longleftrightarrow>
     (\<exists>sealed task a files supplied owner_note. sd_sealed sd = Some sealed \<and> unseal lib rd (qa_id q) sealed = Inr task \<and>
        may_take lib chain rd now q task \<and> ev_answer_by (us_envelope task) = Some a \<and>
        open_supplied lib rd (qa_id q) (ab_supplies a) (qa_supplied q) = Inr supplied \<and>
        open_note lib rd (qa_id q) (qa_note q) = Inr owner_note \<and>
        length (sd_files sd) = length (ev_files (us_envelope task)) \<and>
        open_files lib (us_content_key task) (qa_id q) 0 (ev_files (us_envelope task)) (sd_files sd) = Some files \<and>
        aw = answer_of task (qa_id q) a files supplied owner_note)"
  unfolding judge_approved_def may_take_def
  by (auto split: option.splits sum.splits if_splits approval_refused.splits prod.splits)

lemma answered_Inr:
  assumes "answered lib chain get_result answer_result now q h = (Inr aw, h', calls)"
  obtains rd sd where "ht_access h = Inr rd" "get_result = Inr sd" "sd_id sd = qa_id q" "sd_state sd = StApproved"
    "sd_kind sd \<noteq> Notice" "judge_approved lib chain rd now q sd = Inr aw" "answer_result = Inr ()"
    "h' = h\<lparr>ht_calls := ht_calls h + 1, ht_report := report_answered (qa_id q) (ht_report h),
      ht_conversation := conversation_answered (aw_thread aw) (ht_conversation h)\<rparr>"
    "calls = [CallAnswer (qa_id q) (rd_run rd)]"
  using assms enter_access [of h]
  by (auto simp: answered_def take_approved_def Let_def
      split: prod.splits sum.splits if_splits untaken.splits task_error.splits store_error.splits)

section \<open>What is opened is what is taken\<close>

text \<open>What is relied on of the formats: what is written is read back.\<close>

definition formats_ok :: "host_libs \<Rightarrow> bool" where
  "formats_ok lib \<longleftrightarrow>
     (\<forall>t. hl_read_sealed lib (hl_write_sealed lib t) = Some t) \<and>
     (\<forall>e. hl_read_envelope lib (hl_write_envelope lib e) = Some e) \<and>
     (\<forall>b. hl_hex_decode lib (hex_of (hl_statement lib) b) = Some b) \<and>
     (\<forall>b. b64_decode (hl_statement lib) (b64_encode (hl_statement lib) b) = Some b)"

text \<open>Randomness as the operating system gives it: nonces and the key of their lengths.\<close>

definition random_ok :: "open_random \<Rightarrow> bool" where
  "random_ok rnd \<longleftrightarrow> (\<forall>k. or_content_key rnd = Some k \<longrightarrow> length k = 32) \<and>
     (\<forall>n. or_seal_nonce rnd = Some n \<longrightarrow> length n = 24) \<and> (\<forall>at n. or_file_nonce rnd at = Some n \<longrightarrow> length n = 12)"

lemma make_task_Inr:
  assumes "make_task lib rd keys rnd now i consent thread life devices q = Inr (env, hash, nt)"
  obtains content_key where "or_content_key rnd = Some content_key"
    "env = envelope_of lib rd keys (nat now) i thread life q" "hash = hash_of lib (hl_write_envelope lib env)"
    "encrypt_files lib content_key i (or_file_nonce rnd) 0 (tq_files q) = Some (nt_files nt)"
    "seal (hl_cipher lib) keys SealedTask i (or_seal_nonce rnd)
       (hl_write_sealed lib \<lparr>st_content_key = hex_of (hl_statement lib) content_key, st_envelope = hl_write_envelope lib env,
          st_state = b64_encode (hl_statement lib) (tq_state q), st_consent = consent\<rparr>) = Some (nt_sealed nt)"
    "nt_id nt = i" "nt_kind nt = tq_kind q" "nt_preparer nt = rd_caller rd" "nt_voucher nt = voucher_of rd consent env"
  using assms by (auto simp: make_task_def Let_def split: if_splits option.splits)

lemma answer_not_refused: "\<not> answer_refused q \<Longrightarrow> tq_answer_by q \<noteq> None \<longleftrightarrow> takes_an_answer (tq_kind q)"
  by (cases "tq_kind q") (auto simp: answer_refused_def split: option.splits)

lemma check_open_Inr:
  assumes "check_open lib rd opened conv q = Inr (consent, thread, life)"
  shows "\<not> answer_refused q" "consent = (if takes_an_answer (tq_kind q) then rd_consent rd else None)"
    "takes_an_answer (tq_kind q) \<longleftrightarrow> consent \<noteq> None" "opened < 5" "0 < life \<and> life \<le> 86400"
    "rd_caller rd = rd_owner rd \<or> tg_admitted_by_name (rd_grant rd)"
    "thread = (case conv of One t \<Rightarrow> t | _ \<Rightarrow> task_id_of rd opened)" "conv \<noteq> Several"
    "check_display (tq_display q) = None"
  using assms
  by (auto simp: check_open_def life_of_def MAX_OPENS_PER_RUN_def MAX_LIFE_SECS_def split: if_splits sum.splits)

lemma make_task_unseals:
  assumes libs: "ciphers_ok (hl_cipher lib)" "formats_ok lib" "random_ok rnd"
    and keys: "keys_of lib rd i = Some keys"
    and made: "make_task lib rd keys rnd now i consent thread life devices q = Inr (env, hash, nt)"
    and shape: "\<not> answer_refused q" "takes_an_answer (tq_kind q) \<longleftrightarrow> consent \<noteq> None"
    and same: "tg_key (rd_grant rd') = tg_key (rd_grant rd)" "rd_owner rd' = rd_owner rd" "rd_project_uuid rd' = rd_project_uuid rd"
  shows "\<exists>ck. or_content_key rnd = Some ck \<and> unseal lib rd' i (nt_sealed nt) =
    Inr \<lparr>us_envelope = env, us_hash = hash, us_state = tq_state q, us_content_key = ck, us_consent = consent\<rparr>"
proof -
  from make_task_Inr [OF made] obtain ck where m: "or_content_key rnd = Some ck"
      "env = envelope_of lib rd keys (nat now) i thread life q" "hash = hash_of lib (hl_write_envelope lib env)"
      "seal (hl_cipher lib) keys SealedTask i (or_seal_nonce rnd)
        (hl_write_sealed lib \<lparr>st_content_key = hex_of (hl_statement lib) ck, st_envelope = hl_write_envelope lib env,
          st_state = b64_encode (hl_statement lib) (tq_state q), st_consent = consent\<rparr>) = Some (nt_sealed nt)"
    by metis
  let ?plain = "hl_write_sealed lib \<lparr>st_content_key = hex_of (hl_statement lib) ck, st_envelope = hl_write_envelope lib env,
      st_state = b64_encode (hl_statement lib) (tq_state q), st_consent = consent\<rparr>"
  from m(4) obtain nonce where "or_seal_nonce rnd = Some nonce" by (auto simp: seal_def split: option.splits)
  with m(4) libs(1,3) have opens: "open_sealed (hl_cipher lib) keys SealedTask i (nt_sealed nt) = Some ?plain"
    by (auto simp: random_ok_def intro: open_seal)
  have kind: "check_kind env"
    using answer_not_refused [OF shape(1)] by (auto simp: check_kind_def m(2) envelope_of_def)
  have "keys_of lib rd' i = Some keys" using keys same(1) by (simp add: keys_of_def)
  moreover have "length ck = 32" using libs(3) m(1) by (simp add: random_ok_def)
  ultimately have "unseal lib rd' i (nt_sealed nt) =
      Inr \<lparr>us_envelope = env, us_hash = hash, us_state = tq_state q, us_content_key = ck, us_consent = consent\<rparr>"
    using opens kind libs(2) same shape(2) m(3)
    by (simp add: unseal_def formats_ok_def envelope_from_bytes_def bytes_of_length_def m(2) envelope_of_def)
  with m(1) show ?thesis by blast
qed

lemma open_encrypted_files:
  assumes "ciphers_ok (hl_cipher lib)" "random_ok rnd" "encrypt_files lib ck i (or_file_nonce rnd) at fs = Some blobs"
  shows "length blobs = length fs \<and>
    open_files lib ck i at (map (\<lambda>f. \<lparr>fn_content_type = fl_content_type f, fn_name = fl_name f,
      fn_sha256 = hash_of lib (fl_data f), fn_size = length (fl_data f)\<rparr>) fs) blobs = Some fs"
  using assms(3)
proof (induction fs arbitrary: at blobs)
  case (Cons f fs)
  from Cons.prems obtain b bs where b: "encrypt_file (hl_cipher lib) ck i at (or_file_nonce rnd at) (fl_data f) = Some b"
      "encrypt_files lib ck i (or_file_nonce rnd) (at + 1) fs = Some bs" "blobs = b # bs"
    by (auto split: option.splits)
  from b(1) obtain n where n: "or_file_nonce rnd at = Some n" by (auto simp: encrypt_file_def encrypt_under_def split: option.splits)
  then have "length n = 12" using assms(2) unfolding random_ok_def by blast
  from decrypt_encrypt [OF assms(1) this] b(1) n have "decrypt_file (hl_cipher lib) ck i at b = Some (fl_data f)"
    by (simp add: encrypt_file_def decrypt_file_def)
  with Cons.IH [OF b(2)] b(3) show ?case by simp
qed simp

lemma open_as_Inr:
  assumes "open_as lib chain store_devices store_open rnd now q another h = (Inr opd, h', nto)"
  obtains rd consent thread life devices keys env nt where "ht_access h = Inr rd"
    "check_open lib rd (ht_opened h) (if another then Unanswered else ht_conversation h) q = Inr (consent, thread, life)"
    "keys_of lib rd (op_id opd) = Some keys" "op_id opd = task_id_of rd (ht_opened h)"
    "make_task lib rd keys rnd now (op_id opd) consent thread life devices q = Inr (env, op_hash opd, nt)"
    "nto = Some nt" "op_thread opd = ev_thread env" "op_expires_at opd = ev_expires_at env"
    "h' = h\<lparr>ht_calls := ht_calls h + 1, ht_devices := Some devices, ht_opened := ht_opened h + 1\<rparr>"
  using assms enter_access [of h]
  by (auto simp: open_as_def Let_def split: prod.splits sum.splits option.splits)

lemma open_then_answered:
  assumes libs: "ciphers_ok (hl_cipher lib)" "formats_ok lib" "random_ok rnd"
    and opened: "open_as lib chain1 store_devices store_open rnd now1 tq another h1 = (Inr opd, h1', Some nt)"
    and runs: "ht_access h1 = Inr rd1" "ht_access h2 = Inr rd2" "ht_calls h2 < 100"
    and same: "rd_grant rd2 = rd_grant rd1" "rd_owner rd2 = rd_owner rd1" "rd_project_uuid rd2 = rd_project_uuid rd1"
      "rd_profile rd2 = rd_profile rd1" "rd_build rd2 = rd_build rd1" "rd_caller rd2 = rd_caller rd1"
      "rd_operation rd2 \<in> {None, Some (ab_operation a)}"
    and consent: "rd_consent rd1 = Some allowed" "rd_consent rd2 = Some carried" "consent_refuses allowed carried = None"
    and asked: "tq_answer_by tq = Some a" "qa_id q = op_id opd" "qa_hash q = op_hash opd" "qa_operation q = ab_operation a"
      "qa_policy q = tq_policy tq" "length (tq_policy tq) \<le> 64 * 1024" "is_id (op_id opd)"
    and store: "sd = \<lparr>sd_id = op_id opd, sd_kind = tq_kind tq, sd_state = StApproved, sd_sealed = Some (nt_sealed nt), sd_files = nt_files nt\<rparr>"
    and time: "0 \<le> now2" "nat now2 < op_expires_at opd"
    and approved: "approval_holds (hl_statement lib) chain2 (qa_approval q) (rd_owner rd2) (op_id opd) (op_hash opd)
      (qa_supplied q) (qa_note q) now2 (op_expires_at opd) (rd_recipient rd2) = Inr ()"
    and opens: "open_supplied lib rd2 (op_id opd) (ab_supplies a) (qa_supplied q) = Inr supplied"
      "open_note lib rd2 (op_id opd) (qa_note q) = Inr owner_note"
  shows "fst (answered lib chain2 (Inr sd) (Inr ()) now2 q h2) =
    Inr \<lparr>aw_id = op_id opd, aw_thread = op_thread opd, aw_preparer = rd_caller rd1, aw_kind = tq_kind tq,
      aw_operation = ab_operation a, aw_state = tq_state tq, aw_files = tq_files tq, aw_supplied = supplied, aw_note = owner_note\<rparr>"
proof -
  from open_as_Inr [OF opened] runs(1) obtain consent thread life devices keys env where o:
      "check_open lib rd1 (ht_opened h1) (if another then Unanswered else ht_conversation h1) tq = Inr (consent, thread, life)"
      "keys_of lib rd1 (op_id opd) = Some keys"
      "make_task lib rd1 keys rnd now1 (op_id opd) consent thread life devices tq = Inr (env, op_hash opd, nt)"
      "op_thread opd = ev_thread env" "op_expires_at opd = ev_expires_at env"
    by (metis option.inject sum.inject(2))
  note c = check_open_Inr [OF o(1)]
  from answer_not_refused [OF c(1)] asked(1) have takes: "takes_an_answer (tq_kind tq)" by simp
  with c(2) consent(1) have consent_is: "consent = Some allowed" by simp
  from make_task_unseals [OF libs o(2,3) c(1,3)] same obtain ck where u: "or_content_key rnd = Some ck"
      "unseal lib rd2 (op_id opd) (nt_sealed nt) =
        Inr \<lparr>us_envelope = env, us_hash = op_hash opd, us_state = tq_state tq, us_content_key = ck, us_consent = consent\<rparr>"
    by (metis (no_types))
  let ?task = "\<lparr>us_envelope = env, us_hash = op_hash opd, us_state = tq_state tq, us_content_key = ck, us_consent = consent\<rparr>"
  from make_task_Inr [OF o(3)] u(1) have e: "env = envelope_of lib rd1 keys (nat now1) (op_id opd) thread life tq"
      "encrypt_files lib ck (op_id opd) (or_file_nonce rnd) 0 (tq_files tq) = Some (nt_files nt)"
    by (metis option.inject)+
  have env: "ev_owner env = rd_owner rd1" "ev_answer_by env = Some a" "ev_profile env = rd_profile rd1"
      "ev_preparer env = rd_caller rd1" "ev_build env = rd_build rd1" "ev_policy_hash env = hash_of lib (tq_policy tq)"
      "ev_kind env = tq_kind tq"
    by (simp_all add: e(1) envelope_of_def asked(1))
  have "run_refused rd2 now2 q ?task = None"
    using env same consent asked time o(5) by (auto simp: run_refused_def consent_is eq_ignore_ascii_case_refl)
  then have take: "may_take lib chain2 rd2 now2 q ?task"
    using env same asked approved o(5) by (simp add: may_take_def)
  from open_encrypted_files [OF libs(1,3) e(2)] have files: "length (nt_files nt) = length (ev_files env)"
      "open_files lib ck (op_id opd) 0 (ev_files env) (nt_files nt) = Some (tq_files tq)"
    by (simp_all add: e(1) envelope_of_def)
  have judged: "judge_approved lib chain2 rd2 now2 q sd = Inr (answer_of ?task (op_id opd) a (tq_files tq) supplied owner_note)"
    unfolding judge_approved_Inr using u(2) take env(2) opens files asked store by simp
  have "tq_kind tq \<noteq> Notice" using takes by auto
  with judged runs asked store show ?thesis
    by (simp add: answered_def enter_def count_call_def take_approved_def Let_def MAX_CALLS_PER_RUN_def
        MAX_POLICY_BYTES_def answer_of_def env o(4))
qed

section \<open>Histories of a run\<close>

text \<open>The stored task passes every check of \<open>take_approved\<close>.\<close>

definition passes :: "host_libs \<Rightarrow> chain \<Rightarrow> store_error + stored \<Rightarrow> int \<Rightarrow> request_of_answer \<Rightarrow> host \<Rightarrow> bool" where
  "passes lib chain g now q h \<longleftrightarrow>
     (\<exists>rd sd aw. ht_access h = Inr rd \<and> g = Inr sd \<and> sd_state sd = StApproved \<and> judge_approved lib chain rd now q sd = Inr aw)"

lemma asked_passes:
  assumes "answered lib chain g sa now q h = (r, h', calls)" "CallAnswer i run \<in> set calls"
  shows "i = qa_id q \<and> passes lib chain g now q h"
  using assms enter_access [of h] unfolding answered_def take_approved_def passes_def
  by (auto simp: Let_def split: prod.splits sum.splits if_splits untaken.splits task_error.splits store_error.splits)

text \<open>Any sequence of calls of one run, with the ids of the approved tasks that passed every check and the
  conversations of the tasks it was handed, in order.\<close>

inductive host_run :: "host_libs \<Rightarrow> host \<Rightarrow> string set \<Rightarrow> string list \<Rightarrow> bool" for lib where
  started: "host_run lib (new_host run) {} []"
| asked: "host_run lib h moved threads \<Longrightarrow> answered lib chain g sa now q h = (r, h', calls) \<Longrightarrow>
    host_run lib h' (moved \<union> {i. i = qa_id q \<and> passes lib chain g now q h})
      (case r of Inl e \<Rightarrow> threads | Inr aw \<Rightarrow> threads @ [aw_thread aw])"
| left_result: "host_run lib h moved threads \<Longrightarrow> leave lib rnd i result failed h = (r, h') \<Longrightarrow> host_run lib h' moved threads"
| opened: "host_run lib h moved threads \<Longrightarrow> open_as lib chain sd so rnd now q False h = (r, h', nt) \<Longrightarrow> host_run lib h' moved threads"
| opened_for: "host_run lib h moved threads \<Longrightarrow> open_for lib chain sd so rnd now owner q h = (r, h') \<Longrightarrow> host_run lib h' moved threads"
| cancelled: "host_run lib h moved threads \<Longrightarrow> cancel_or_delete store i h = (c, h') \<Longrightarrow> host_run lib h' moved threads"
| unlocked: "host_run lib h moved threads \<Longrightarrow> unlock lib chain sd sw sc draw now h = (n, h') \<Longrightarrow> host_run lib h' moved threads"

text \<open>The conversation of the tasks handed over: none yet, one and the same, or several.\<close>

definition conversation_of :: "string list \<Rightarrow> conversation" where
  "conversation_of threads =
     (if threads = [] then Unanswered else if list_all (\<lambda>t. t = hd threads) threads then One (hd threads) else Several)"

lemma conversation_of_snoc: "conversation_of (ts @ [t]) = conversation_answered t (conversation_of ts)"
  by (cases ts) (auto simp: conversation_of_def conversation_answered_def list_all_iff)

definition report_ok :: "report \<Rightarrow> string set \<Rightarrow> bool" where
  "report_ok r moved \<longleftrightarrow> distinct (map an_id (rp_answered r)) \<and> an_id ` set (rp_answered r) \<subseteq> moved \<and>
     distinct (map rf_id (rp_refused r))"

lemma report_ok_mono: "report_ok r A \<Longrightarrow> A \<subseteq> B \<Longrightarrow> report_ok r B"
  by (auto simp: report_ok_def)

lemma report_answered_ok: "report_ok r A \<Longrightarrow> report_ok (report_answered i r) (insert i A)"
  by (auto simp: report_ok_def report_answered_def list_ex_iff)

lemma report_forget_ok: "report_ok r A \<Longrightarrow> report_ok (report_forget i r) A"
  by (auto simp: report_ok_def report_forget_def distinct_map_filter)

lemma report_refused_ok: "report_ok r A \<Longrightarrow> report_ok (report_refused i why r) A"
  by (auto simp: report_ok_def report_refused_def list_ex_iff)

lemma write_outcome_ids: "map an_id (write_outcome_of i x f ts) = map an_id ts"
  by (induction ts) auto

lemma report_reported_ok:
  assumes "report_ok r A" "report_reported i x f r = (b, r')"
  shows "report_ok r' A"
proof -
  have "an_id ` set (write_outcome_of i x f (rp_answered r)) = an_id ` set (rp_answered r)"
    by (metis write_outcome_ids set_map)
  moreover have "r' = r \<or> r' = r\<lparr>rp_answered := write_outcome_of i x f (rp_answered r)\<rparr>"
    using assms(2) by (auto simp: report_reported_def split: if_splits)
  ultimately show ?thesis using assms(1) by (elim disjE) (simp_all add: report_ok_def write_outcome_ids)
qed

text \<open>The effects of a call on the report, by case.\<close>

lemma take_approved_ok:
  assumes "report_ok rep A" "take_approved lib chain sa rd now q sd rep = (r, rep', calls)"
  shows "report_ok rep' (A \<union> {i. \<exists>run. CallAnswer i run \<in> set calls})"
proof (cases "judge_approved lib chain rd now q sd")
  case (Inl e)
  with assms show ?thesis by (auto simp: take_approved_def split: prod.splits if_splits elim: report_ok_mono)
next
  case (Inr aw)
  then have calls: "calls = [CallAnswer (qa_id q) (rd_run rd)]" and
      rep: "rep' = report_answered (qa_id q) rep \<or> rep' = report_forget (qa_id q) (report_answered (qa_id q) rep)"
    using assms(2) by (auto simp: take_approved_def Let_def split: sum.splits store_error.splits)
  from calls have "A \<union> {i. \<exists>run. CallAnswer i run \<in> set calls} = insert (qa_id q) A" by auto
  with rep report_answered_ok [OF assms(1), of "qa_id q"] show ?thesis
    using report_forget_ok [OF report_answered_ok [OF assms(1), of "qa_id q"], of "qa_id q"] by auto
qed

lemma answered_effect:
  assumes "answered lib chain g sa now q h = (r, h', calls)"
  shows "ht_opened h' = ht_opened h \<and> ht_access h' = ht_access h \<and>
    ht_conversation h' = (case r of Inl e \<Rightarrow> ht_conversation h | Inr aw \<Rightarrow> conversation_answered (aw_thread aw) (ht_conversation h)) \<and>
    (report_ok (ht_report h) A \<longrightarrow> report_ok (ht_report h') (A \<union> {i. \<exists>run. CallAnswer i run \<in> set calls}))"
proof -
  obtain e h1 where en: "enter h = (e, h1)" by fastforce
  then have h1: "h1 = h\<lparr>ht_calls := ht_calls h + 1\<rparr>" by (rule enter_host)
  show ?thesis
  proof (cases "\<exists>rd sd. e = Inr rd \<and> g = Inr sd \<and> is_id (qa_id q) \<and> length (qa_policy q) \<le> MAX_POLICY_BYTES \<and>
      sd_id sd = qa_id q \<and> sd_kind sd \<noteq> Notice \<and> sd_state sd = StApproved")
    case False
    then have "h' = h1" "calls = []" "\<exists>x. r = Inl x"
      using assms en by (auto simp: answered_def not_less [symmetric] split: sum.splits if_splits)
    then show ?thesis using h1 by auto
  next
    case True
    then obtain rd sd where ok: "e = Inr rd" "g = Inr sd" "is_id (qa_id q)" "length (qa_policy q) \<le> MAX_POLICY_BYTES"
        "sd_id sd = qa_id q" "sd_kind sd \<noteq> Notice" "sd_state sd = StApproved" by blast
    obtain t rep cs where t: "take_approved lib chain sa rd now q sd (ht_report h1) = (t, rep, cs)" by (cases "take_approved lib chain sa rd now q sd (ht_report h1)")
    have rep: "report_ok (ht_report h) A \<longrightarrow> report_ok rep (A \<union> {i. \<exists>run. CallAnswer i run \<in> set cs})"
      using take_approved_ok [OF _ t] h1 by simp
    show ?thesis
      using assms en ok t rep h1
      by (auto simp: answered_def not_less [symmetric] report_refused_ok split: sum.splits untaken.splits task_error.splits)
  qed
qed

lemma open_as_effect:
  assumes "open_as lib chain sd so rnd now q another h = (r, h', nt)"
  shows "ht_access h' = ht_access h \<and> ht_report h' = ht_report h \<and> ht_conversation h' = ht_conversation h \<and>
    (ht_opened h' = ht_opened h \<or> ht_opened h < 5 \<and> ht_opened h' = ht_opened h + 1)"
proof -
  obtain e h1 where en: "enter h = (e, h1)" by fastforce
  then have h1: "h1 = h\<lparr>ht_calls := ht_calls h + 1\<rparr>" by (rule enter_host)
  show ?thesis
  proof (cases e)
    case (Inl x)
    with assms en h1 show ?thesis by (auto simp: open_as_def)
  next
    case (Inr rd)
    show ?thesis
    proof (cases "check_open lib rd (ht_opened h) (if another then Unanswered else ht_conversation h) q")
      case (Inl x)
      with assms en h1 \<open>e = Inr rd\<close> show ?thesis by (auto simp: open_as_def)
    next
      case (Inr c)
      obtain consent thread life where c: "c = (consent, thread, life)" by (cases c)
      have "ht_opened h < 5" using check_open_Inr(4) Inr c by blast
      with assms en h1 \<open>e = Inr rd\<close> Inr c show ?thesis
        by (auto simp: open_as_def Let_def split: sum.splits option.splits)
    qed
  qed
qed

lemma swap_row_fields [simp]:
  "ht_report (swap_row k h) = ht_report h" "ht_conversation (swap_row k h) = ht_conversation h"
  "ht_opened (swap_row k h) = ht_opened h" "ht_devices (swap_row k h) = ht_devices h"
  by (simp_all add: swap_row_def Let_def split: sum.splits)

lemma swap_row_access_eq: "ht_access a = ht_access b \<Longrightarrow> ht_access (swap_row k a) = ht_access (swap_row k b)"
  by (simp add: swap_row_def Let_def split: sum.splits)

lemma swap_row_twice:
  assumes "\<And>rd. ht_access h = Inr rd \<Longrightarrow> k < length (rd_others rd)"
  shows "swap_row k (swap_row k h) = h"
  using assms by (cases "ht_access h") (auto simp: swap_row_def Let_def list_update_same_conv)

lemma position_of_Some: "position_of x xs = Some k \<Longrightarrow> k < length xs \<and> xs ! k = x"
  by (auto simp: position_of_def find_Some_iff)

lemma row_of_Some:
  assumes "row_of owner h = Inr (Some k)" "ht_access h = Inr rd"
  shows "k < length (rd_others rd)" "rg_owner (rd_others rd ! k) = owner"
  using assms position_of_Some [of owner "map rg_owner (rd_others rd)" k]
  by (auto simp: row_of_def split: if_splits option.splits)

lemma open_for_effect:
  assumes "open_for lib chain sd so rnd now owner q h = (r, h')"
  shows "ht_access h' = ht_access h \<and> ht_report h' = ht_report h \<and> ht_conversation h' = ht_conversation h \<and>
    (ht_opened h' = ht_opened h \<or> ht_opened h < 5 \<and> ht_opened h' = ht_opened h + 1)"
proof (cases "row_of owner h")
  case (Inl e)
  with assms show ?thesis by (auto simp: open_for_def count_call_def Let_def split: if_splits)
next
  case (Inr at)
  show ?thesis
  proof (cases at)
    case None
    with Inr assms show ?thesis
      using open_as_effect [of lib chain sd so rnd now q False h] by (auto simp: open_for_def with_row_def split: prod.splits)
  next
    case (Some k)
    let ?h1 = "(swap_row k h)\<lparr>ht_devices := None\<rparr>"
    obtain x h2 nt where o: "open_as lib chain sd so rnd now q True ?h1 = (x, h2, nt)"
      by (cases "open_as lib chain sd so rnd now q True ?h1")
    have h': "h' = swap_row k (h2\<lparr>ht_devices := ht_devices (swap_row k h)\<rparr>)"
      using assms Inr Some o by (simp add: open_for_def with_row_def Let_def)
    note e = open_as_effect [OF o]
    have "ht_access (h2\<lparr>ht_devices := ht_devices (swap_row k h)\<rparr>) = ht_access (swap_row k h)" using e by simp
    from swap_row_access_eq [OF this, of k] h' have "ht_access h' = ht_access (swap_row k (swap_row k h))" by simp
    also have "\<dots> = ht_access h"
      using row_of_Some(1) [of owner h k] Inr Some by (subst swap_row_twice) auto
    finally show ?thesis using e h' by simp
  qed
qed

lemma leave_effect:
  assumes "leave lib rnd i result failed h = (r, h')"
  shows "ht_access h' = ht_access h \<and> ht_conversation h' = ht_conversation h \<and> ht_opened h' = ht_opened h \<and>
    (report_ok (ht_report h) A \<longrightarrow> report_ok (ht_report h') A)"
proof -
  obtain e h1 where en: "enter h = (e, h1)" by fastforce
  then have h1: "h1 = h\<lparr>ht_calls := ht_calls h + 1\<rparr>" by (rule enter_host)
  show ?thesis
    using assms en h1 report_reported_ok [of "ht_report h" A]
    by (auto simp: leave_def split: sum.splits if_splits option.splits prod.splits bool.splits)
qed

lemma unlock_effect:
  assumes "unlock lib chain sd sw sc draw now h = (n, h')"
  shows "ht_access h' = ht_access h \<and> ht_report h' = ht_report h \<and> ht_conversation h' = ht_conversation h \<and>
    ht_opened h' = ht_opened h"
proof -
  obtain e h1 where en: "enter h = (e, h1)" by fastforce
  then have h1: "h1 = h\<lparr>ht_calls := ht_calls h + 1\<rparr>" by (rule enter_host)
  with assms en show ?thesis by (auto simp: unlock_def Let_def split: sum.splits if_splits)
qed

definition row_answer :: "(string \<Rightarrow> account \<Rightarrow> account \<Rightarrow> string \<Rightarrow> store_error + unit) \<Rightarrow> ready \<Rightarrow> string \<Rightarrow> account \<Rightarrow> task_error + unit" where
  "row_answer store rd i owner =
     (case store (rd_project_uuid rd) owner (rd_caller rd) i of Inl e \<Rightarrow> Inl (Because (store_failed e)) | Inr u \<Rightarrow> Inr u)"

lemma ask_store_first: "ht_access h = Inr rd \<Longrightarrow> ask_store store i h = (row_answer store rd i (rd_owner rd), h)"
  by (simp add: ask_store_def row_answer_def split: sum.splits)

lemma ask_store_row:
  assumes "ht_access h = Inr rd" "k < length (rd_others rd)"
  shows "with_row (Some k) (ask_store store i) h = (row_answer store rd i (rg_owner (rd_others rd ! k)), h)"
proof -
  have sw: "ht_access (swap_row k h) = Inr (rd\<lparr>rd_owner := rg_owner (rd_others rd ! k), rd_profile := rg_profile (rd_others rd ! k),
      rd_grant := rg_grant (rd_others rd ! k),
      rd_others := (rd_others rd)[k := \<lparr>rg_owner = rd_owner rd, rg_profile = rd_profile rd, rg_grant = rd_grant rd\<rparr>]\<rparr>)"
    using assms(1) by (simp add: swap_row_def Let_def)
  have twice: "swap_row k (swap_row k h) = h" using assms by (intro swap_row_twice) simp
  have "ask_store store i ((swap_row k h)\<lparr>ht_devices := None\<rparr>) =
      (row_answer store rd i (rg_owner (rd_others rd ! k)), (swap_row k h)\<lparr>ht_devices := None\<rparr>)"
    using sw by (simp add: ask_store_def row_answer_def split: sum.splits)
  then have "with_row (Some k) (ask_store store i) h =
      (row_answer store rd i (rg_owner (rd_others rd ! k)), swap_row k ((swap_row k h)\<lparr>ht_devices := ht_devices h\<rparr>))"
    by (simp add: with_row_def Let_def)
  moreover have "(swap_row k h)\<lparr>ht_devices := ht_devices h\<rparr> = swap_row k h"
    by (simp add: swap_row_def Let_def split: sum.splits)
  ultimately show ?thesis by (simp only: twice)
qed

abbreviation deciding :: "(task_error + 'a) list \<Rightarrow> task_error + 'a" where
  "deciding rs \<equiv> (case find (\<lambda>r. r \<noteq> Inl (Because NotFound)) rs of Some r \<Rightarrow> r | None \<Rightarrow> Inl (Because NotFound))"

lemma rows_from_ask:
  assumes "ht_access h = Inr rd" "\<forall>k \<in> set ks. k < length (rd_others rd)"
  shows "rows_from (ask_store store i) ks (r, h) =
    (deciding (r # map (\<lambda>k. row_answer store rd i (rg_owner (rd_others rd ! k))) ks), h)"
  using assms(2)
proof (induction ks arbitrary: r)
  case Nil
  then show ?case by simp
next
  case (Cons k ks)
  have "with_row (Some k) (ask_store store i) h = (row_answer store rd i (rg_owner (rd_others rd ! k)), h)"
    using ask_store_row [OF assms(1)] Cons.prems by simp
  with Cons show ?case by (auto split: sum.splits task_error.splits reason.splits)
qed

lemma under_any_row_ask:
  assumes "ht_access h = Inr rd"
  shows "under_any_row (ask_store store i) h =
    (deciding (map (row_answer store rd i) (rd_owner rd # map rg_owner (rd_others rd))), h)"
proof -
  have "map (\<lambda>k. row_answer store rd i (rg_owner (rd_others rd ! k))) [0..<length (rd_others rd)] =
      map (row_answer store rd i) (map rg_owner (rd_others rd))"
    by (rule nth_equalityI) simp_all
  then show ?thesis
    using rows_from_ask [OF assms, of "[0..<length (rd_others rd)]" store i] assms
    by (simp add: under_any_row_def with_row_def ask_store_first del: map_map)
qed

lemma row_cancel_effect:
  assumes "cancel_or_delete store i h = (c, h')"
  shows "h' = h\<lparr>ht_calls := ht_calls h + 1\<rparr>"
proof -
  obtain e h1 where en: "enter h = (e, h1)" by fastforce
  then have h1: "h1 = h\<lparr>ht_calls := ht_calls h + 1\<rparr>" by (rule enter_host)
  show ?thesis
  proof (cases e)
    case (Inr rd)
    have "ht_access h1 = Inr rd" using enter_access [of h rd h1] en Inr h1 by simp
    with assms en Inr h1 under_any_row_ask [of h1 rd store i] show ?thesis
      by (auto simp: cancel_or_delete_def split: if_splits)
  qed (use assms en h1 in \<open>simp add: cancel_or_delete_def\<close>)
qed

lemma host_run_inv:
  "host_run lib h moved threads \<Longrightarrow>
     report_ok (ht_report h) moved \<and> ht_opened h \<le> 5 \<and> ht_conversation h = conversation_of threads"
proof (induction rule: host_run.induct)
  case (started run)
  show ?case by (simp add: new_host_def report_ok_def conversation_of_def)
next
  case (asked h moved threads chain g sa now q r h' calls)
  have "{i. \<exists>run. CallAnswer i run \<in> set calls} \<subseteq> {i. i = qa_id q \<and> passes lib chain g now q h}"
    using asked_passes [OF asked(2)] by blast
  then have sub: "moved \<union> {i. \<exists>run. CallAnswer i run \<in> set calls} \<subseteq> moved \<union> {i. i = qa_id q \<and> passes lib chain g now q h}"
    by blast
  from answered_effect [OF asked(2), of moved] asked(3) have
      "report_ok (ht_report h') (moved \<union> {i. \<exists>run. CallAnswer i run \<in> set calls})" by simp
  from report_ok_mono [OF this sub] answered_effect [OF asked(2), of moved] asked(3) show ?case
    by (auto simp: conversation_of_snoc split: sum.splits)
next
  case (left_result h moved threads rnd i result failed r h')
  with leave_effect [OF left_result(2), of moved] show ?case by simp
next
  case (opened h moved threads chain sd so rnd now q r h' nt)
  with open_as_effect [OF opened(2)] show ?case by auto
next
  case (opened_for h moved threads chain sd so rnd now owner q r h')
  with open_for_effect [OF opened_for(2)] show ?case by auto
next
  case (cancelled h moved threads store i c h')
  with row_cancel_effect [OF cancelled(2)] show ?case by simp
next
  case (unlocked h moved threads chain sd sw sc draw now n h')
  with unlock_effect [OF unlocked(2)] show ?case by simp
qed

section \<open>A sample\<close>

text \<open>Libraries that hide nothing and accept every signature, one agent's run, and a task it opens.\<close>

definition sample_libs :: host_libs where
  "sample_libs = \<lparr>
     hl_statement = \<lparr>bs58_decode = Some, b64_decode = Some, b64_encode = (\<lambda>b. b), url64_decode = Some,
       sha256_digest = (\<lambda>b. ''digest''), hex_of = (\<lambda>b. b), ed25519_point = (\<lambda>k. True),
       ed25519_verify = (\<lambda>k m g. True), p256_point = (\<lambda>k. True)\<rparr>,
     hl_cipher = plain_ciphers, hl_read_sealed = read_sealed, hl_write_sealed = write_sealed,
     hl_read_envelope = read_envelope, hl_write_envelope = write_envelope, hl_hex_decode = Some,
     hl_lowercase = (\<lambda>t. t), hl_url64 = (\<lambda>b. b)\<rparr>"

definition sample_consent :: consent where
  "sample_consent = \<lparr>cn_payment_key_nonce = 1, cn_wallet = None, cn_bound_identity = False, cn_compute_limit_usd = ''9''\<rparr>"

definition sample_ready :: ready where
  "sample_ready = \<lparr>rd_grant = \<lparr>tg_key = ''key'', tg_admitted_by_name = True, tg_vault = None\<rparr>, rd_run = ''run'',
     rd_project_id = ''a.near/app'', rd_build = ''build'', rd_operation = None, rd_project_uuid = ''p1'', rd_owner = ''o.near'',
     rd_profile = ''mail'', rd_others = [], rd_named_rows = [], rd_caller = ''agent.near'', rd_consent = Some sample_consent,
     rd_recipient = ''c.near''\<rparr>"

definition sample_host :: host where
  "sample_host = \<lparr>ht_access = Inr sample_ready, ht_calls = 0, ht_opened = 0, ht_devices = None,
     ht_conversation = Unanswered, ht_report = \<lparr>rp_answered = [], rp_refused = []\<rparr>\<rparr>"

definition sample_request :: task_request where
  "sample_request = \<lparr>tq_kind = Confirm, tq_answer_by = Some \<lparr>ab_operation = ''confirm'', ab_supplies = SuppliesNothing\<rparr>,
     tq_state = ''state'', tq_policy = ''policy'', tq_life_seconds = 0, tq_files = [],
     tq_display = \<lparr>dp_fields = [], dp_title = [0x41]\<rparr>\<rparr>"

definition sample_random :: open_random where
  "sample_random = \<lparr>or_content_key = Some (replicate 32 CHR ''k''), or_content_nonce = Some (replicate 12 CHR ''n''),
     or_file_nonce = (\<lambda>at. Some (replicate 12 CHR ''n'')), or_device = (\<lambda>at. ([], Some (replicate 12 CHR ''n''))),
     or_seal_nonce = Some (replicate 24 CHR ''n'')\<rparr>"

definition sample_answer :: request_of_answer where
  "sample_answer = \<lparr>qa_id = ''run-0'', qa_hash = ''digest'', qa_operation = ''confirm'', qa_policy = ''policy'',
     qa_approval = \<lparr>ap_at = 60, ap_public_key = ''ed25519:'' @ replicate 32 CHR ''k'', ap_signature = replicate 64 CHR ''g'',
       ap_nonce = replicate 32 CHR ''n''\<rparr>, qa_supplied = None, qa_note = None\<rparr>"

lemma sample_formats: "formats_ok sample_libs"
  by (simp add: formats_ok_def sample_libs_def read_write_sealed read_write_envelope)

lemma sample_random_ok: "random_ok sample_random"
  by (simp add: random_ok_def sample_random_def)

lemma reply_key_sample: "reply_key plain_ciphers k = Some (k @ ''reply:'' @ be32 0)"
proof -
  have "[0..<2 ^ 32] = 0 # [Suc 0..<2 ^ 32]" by (rule upt_conv_Cons) simp
  then show ?thesis unfolding reply_key_def by (simp add: plain_ciphers_def)
qed

lemma keys_of_sample: "keys_of sample_libs rd i =
    Some \<lparr>tk_seal = tg_key (rd_grant rd) @ (''task:'' @ i) @ ''seal'', tk_reply = tg_key (rd_grant rd) @ (''task:'' @ i) @ ''reply:'' @ be32 0\<rparr>"
proof -
  have "hl_cipher sample_libs = plain_ciphers" by (simp add: sample_libs_def)
  moreover have "hmac_sha256 plain_ciphers = (\<lambda>k m. k @ m)" by (simp add: plain_ciphers_def)
  ultimately show ?thesis by (simp add: keys_of_def derive_def Let_def reply_key_sample)
qed

lemma show_zero: "show_nat 0 = ''0''"
  by (subst show_nat.simps) simp

lemma sample_checked:
  "check_open sample_libs sample_ready 0 Unanswered sample_request = Inr (Some sample_consent, ''run-0'', 86400)"
proof -
  have "check_display (tq_display sample_request) = None"
    by (simp add: sample_request_def check_display_def check_text_def find_def misleads_here_def misleads_def within_def
        char_is_control_def char_is_whitespace_def longest_combining_run_def combines_def MAX_TITLE_CHARS_def MAX_COMBINING_RUN_def)
  moreover have "check_operation ''confirm''" by (simp add: check_operation_def MAX_OPERATION_CHARS_def)
  ultimately show ?thesis
    by (simp add: check_open_def sample_ready_def sample_request_def answer_refused_def life_of_def task_id_of_def show_zero
        MAX_OPENS_PER_RUN_def MAX_STATE_BYTES_def MAX_POLICY_BYTES_def MAX_LIFE_SECS_def check_files_def)
qed

lemmas writers = write_envelope_def write_pair_def write_option_def write_list_def write_string_def write_number_def
  write_display_def write_answer_by_def

lemma sample_document:
  "length (write_envelope (envelope_of sample_libs sample_ready keys 0 ''run-0'' ''run-0'' 86400 sample_request)) \<le> 1000"
  by (simp add: writers envelope_of_def sample_ready_def sample_request_def write_pubkey_def hash_of_def sample_libs_def
      plain_ciphers_def supplies_code_def kind_code_def ENVELOPE_VERSION_def show_nat.simps)

definition sample_opened :: opened_task where
  "sample_opened = \<lparr>op_id = ''run-0'', op_hash = ''digest'', op_thread = ''run-0'', op_expires_at = 86400, op_devices = 0\<rparr>"

definition sample_open :: "(task_error + opened_task) \<times> host \<times> new_task option" where
  "sample_open = open_as sample_libs (\<lambda>a k. Inr ItsKey) (Inr []) (\<lambda>nt. Inr 0) sample_random 0 sample_request False sample_host"

lemma sample_made:
  "\<exists>env nt. make_task sample_libs sample_ready keys sample_random 0 ''run-0'' (Some sample_consent) ''run-0'' 86400 [] sample_request
      = Inr (env, ''digest'', nt) \<and> ev_thread env = ''run-0'' \<and> ev_expires_at env = 86400"
proof -
  let ?env = "envelope_of sample_libs sample_ready keys 0 ''run-0'' ''run-0'' 86400 sample_request"
  have "hash_of sample_libs b = ''digest''" for b by (simp add: hash_of_def sample_libs_def)
  moreover have "hl_write_envelope sample_libs = write_envelope" "hl_cipher sample_libs = plain_ciphers" by (simp_all add: sample_libs_def)
  moreover have "\<not> length (write_envelope ?env) > MAX_ENVELOPE_BYTES"
    using sample_document [of keys] by (simp add: MAX_ENVELOPE_BYTES_def)
  moreover have "tq_files sample_request = []" by (simp add: sample_request_def)
  moreover have "ev_thread ?env = ''run-0''" "ev_expires_at ?env = 86400" by (simp_all add: envelope_of_def)
  moreover have "aes_encrypt plain_ciphers k n a m = Some (m @ replicate 16 CHR ''t'')"
      "xchacha_encrypt plain_ciphers k n a m = Some (m @ replicate 16 CHR ''t'')" for k n a m
    by (simp_all add: plain_ciphers_def)
  ultimately show ?thesis
    by (simp add: make_task_def Let_def sample_random_def encrypt_content_def encrypt_under_def seal_def)
qed

lemma sample_open_eval: "\<exists>h nt. sample_open = (Inr sample_opened, h, Some nt)"
proof -
  have run: "rd_run sample_ready = ''run''" by (simp add: sample_ready_def)
  have none: "devices_in_force lib chain [] owner now recipient = Inr []" for lib chain owner now recipient
    by (simp add: devices_in_force_def)
  obtain keys where k: "keys_of sample_libs sample_ready ''run-0'' = Some keys" using keys_of_sample by blast
  from sample_made [of keys] obtain env nt where m:
      "make_task sample_libs sample_ready keys sample_random 0 ''run-0'' (Some sample_consent) ''run-0'' 86400 [] sample_request
        = Inr (env, ''digest'', nt)" "ev_thread env = ''run-0''" "ev_expires_at env = 86400" by blast
  have "task_id_of sample_ready 0 = ''run-0''" by (simp add: task_id_of_def run show_zero)
  with k m show ?thesis
    by (simp add: sample_open_def open_as_def enter_def count_call_def Let_def MAX_CALLS_PER_RUN_def sample_host_def
        sample_checked devices_of_the_run_def none sample_opened_def)
qed

lemma sample_approved:
  "approval_holds (hl_statement sample_libs) (\<lambda>a k. Inr ItsKey) (qa_approval sample_answer) ''o.near'' ''run-0'' ''digest''
     None None 60 86400 ''c.near'' = Inr ()"
proof -
  have "supply_digest (hl_statement sample_libs) None None = ''digest''" by (simp add: supply_digest_def sample_libs_def)
  then show ?thesis
    by (simp add: approval_holds_def sample_answer_def APPROVAL_AHEAD_SECS_def APPROVAL_AGE_SECS_def approval_sentence_def
        iso_sixty verify_nep413_def near_key_bytes_def strip_prefix_def bytes_of_length_def sample_libs_def nep413_payload_def)
qed

lemma sample_taken:
  assumes o: "sample_open = (Inr sample_opened, h, Some nt)"
  shows "fst (answered sample_libs (\<lambda>a k. Inr ItsKey) (Inr \<lparr>sd_id = op_id sample_opened, sd_kind = tq_kind sample_request,
      sd_state = StApproved, sd_sealed = Some (nt_sealed nt), sd_files = nt_files nt\<rparr>) (Inr ()) 60 sample_answer sample_host) =
    Inr \<lparr>aw_id = op_id sample_opened, aw_thread = op_thread sample_opened, aw_preparer = rd_caller sample_ready,
      aw_kind = tq_kind sample_request, aw_operation = ''confirm'', aw_state = tq_state sample_request,
      aw_files = tq_files sample_request, aw_supplied = None, aw_note = None\<rparr>"
proof -
  have libs: "hl_cipher sample_libs = plain_ciphers" by (simp add: sample_libs_def)
  let ?a = "\<lparr>ab_operation = ''confirm'', ab_supplies = SuppliesNothing\<rparr>"
  have carried: "consent_refuses sample_consent sample_consent = None"
    by (simp add: consent_refuses_def sample_consent_def parse_uint_def digit_val_def upt_rec)
  note th = open_then_answered [OF _ sample_formats sample_random_ok o [unfolded sample_open_def], where ?a = ?a
      and allowed = sample_consent and carried = sample_consent and ?rd1.0 = sample_ready and ?rd2.0 = sample_ready
      and ?h2.0 = sample_host and ?now2.0 = 60 and q = sample_answer and ?chain2.0 = "\<lambda>a k. Inr ItsKey"
      and supplied = None and owner_note = None]
  show ?thesis
    using th [OF _ _ _ _ _ _ _ _ _ _ _ _ _ carried] sample_approved
    by (simp add: libs plain_ciphers_ok sample_host_def sample_ready_def sample_request_def sample_answer_def sample_opened_def
        is_id_def open_supplied_def open_note_def)
qed

section \<open>Properties\<close>

text \<open>
  C19. A task is handed to a run only on its owner's word. If a call answers with a task, then the run's
  project and owner are the ones sealed in the task; the store holds it as approved, and the one thing
  asked of the store was to move this task to this run, which it did; the owner's approval, within its
  time, is signed over a sentence that names this task, the hash of what is sealed (the hash the
  component asked for) and the digest of what was supplied, by a key the chain says is a full-access key
  of the owner; the run is the preparer's, on the row, the build and the policy the task names and
  within the consent, and the operation the component asks for is the one the task names and, where the
  host knows what the run was started for, the one it was started for; the task has not expired; and
  what is handed over is this task, for that operation, with the state and the files that were sealed.\<close>

theorem task_taken_on_approval:
  assumes "answered lib chain get_result answer_result now q h = (Inr aw, h', calls)"
  shows "\<exists>rd sd sealed task m allowed run. ht_access h = Inr rd \<and> get_result = Inr sd \<and> sd_state sd = StApproved \<and>
      answer_result = Inr () \<and> calls = [CallAnswer (qa_id q) (rd_run rd)] \<and>
      sd_sealed sd = Some sealed \<and> unseal lib rd (qa_id q) sealed = Inr task \<and> eq_ignore_ascii_case (qa_hash q) (us_hash task) \<and>
      ev_id (us_envelope task) = qa_id q \<and> ev_owner (us_envelope task) = rd_owner rd \<and>
      ev_project_uuid (us_envelope task) = rd_project_uuid rd \<and>
      approval_sentence (rd_owner rd) (qa_id q) (us_hash task)
        (supply_digest (hl_statement lib) (qa_supplied q) (qa_note q)) (int (ap_at (qa_approval q))) = Some m \<and>
      nep413_signed (hl_statement lib) m (ap_public_key (qa_approval q)) (ap_signature (qa_approval q))
        (ap_nonce (qa_approval q)) (rd_recipient rd) \<and>
      chain (rd_owner rd) (ap_public_key (qa_approval q)) = Inr ItsKey \<and>
      now - 1800 \<le> int (ap_at (qa_approval q)) \<and> int (ap_at (qa_approval q)) \<le> now + 600 \<and>
      int (ap_at (qa_approval q)) < int (ev_expires_at (us_envelope task)) \<and> now < int (ev_expires_at (us_envelope task)) \<and>
      rd_caller rd = ev_preparer (us_envelope task) \<and> rd_profile rd = ev_profile (us_envelope task) \<and>
      rd_build rd = ev_build (us_envelope task) \<and> hash_of lib (qa_policy q) = ev_policy_hash (us_envelope task) \<and>
      map_option ab_operation (ev_answer_by (us_envelope task)) = Some (qa_operation q) \<and>
      (\<forall>running. rd_operation rd = Some running \<longrightarrow> running = qa_operation q) \<and> aw_id aw = qa_id q \<and> aw_operation aw = qa_operation q \<and>
      open_files lib (us_content_key task) (qa_id q) 0 (ev_files (us_envelope task)) (sd_files sd) = Some (aw_files aw) \<and>
      us_consent task = Some allowed \<and> rd_consent rd = Some run \<and> consent_refuses allowed run = None \<and>
      aw_state aw = us_state task \<and> hash_of lib (aw_state aw) = ev_state_hash (us_envelope task)"
proof -
  from answered_Inr [OF assms] obtain rd sd where r: "ht_access h = Inr rd" "get_result = Inr sd" "sd_state sd = StApproved"
      "judge_approved lib chain rd now q sd = Inr aw" "answer_result = Inr ()" "calls = [CallAnswer (qa_id q) (rd_run rd)]"
    by metis
  from r(4) obtain sealed task a files supplied owner_note where t: "sd_sealed sd = Some sealed"
      "unseal lib rd (qa_id q) sealed = Inr task" "may_take lib chain rd now q task" "ev_answer_by (us_envelope task) = Some a"
      "aw = answer_of task (qa_id q) a files supplied owner_note"
      "open_files lib (us_content_key task) (qa_id q) 0 (ev_files (us_envelope task)) (sd_files sd) = Some files"
    unfolding judge_approved_Inr by blast
  note u = unseal_Inr [OF t(2)]
  have m: "run_refused rd now q task = None" "hash_of lib (qa_policy q) = ev_policy_hash (us_envelope task)"
      "ev_build (us_envelope task) = rd_build rd" using t(3) by (simp_all add: may_take_def)
  note n = run_refused_None [OF m(1)]
  from t(3) u(2) obtain msg where ap: "int (ap_at (qa_approval q)) \<le> now + 600" "now - 1800 \<le> int (ap_at (qa_approval q))"
      "ap_at (qa_approval q) < ev_expires_at (us_envelope task)"
      "approval_sentence (rd_owner rd) (qa_id q) (us_hash task)
        (supply_digest (hl_statement lib) (qa_supplied q) (qa_note q)) (int (ap_at (qa_approval q))) = Some msg"
      "nep413_signed (hl_statement lib) msg (ap_public_key (qa_approval q)) (ap_signature (qa_approval q))
        (ap_nonce (qa_approval q)) (rd_recipient rd)"
      "chain (rd_owner rd) (ap_public_key (qa_approval q)) = Inr ItsKey"
    unfolding may_take_def approval_holds_iff by metis
  have now: "now < int (ev_expires_at (us_envelope task))" using n(1) by linarith
  have op: "map_option ab_operation (ev_answer_by (us_envelope task)) = Some (qa_operation q)" using n(4) by auto
  have running: "\<forall>running. rd_operation rd = Some running \<longrightarrow> running = qa_operation q" using n(3) by auto
  have aw: "aw_state aw = us_state task" "aw_id aw = qa_id q" "aw_operation aw = qa_operation q" "aw_files aw = files"
    using op t(4) by (simp_all add: t(5) answer_of_def)
  from n(7) obtain allowed run where c: "us_consent task = Some allowed" "rd_consent rd = Some run"
      "consent_refuses allowed run = None" by blast
  show ?thesis
    using r t(1,2,6) u m(2,3) n(2,5,6) ap now op running aw c
    by (intro exI [of _ rd] exI [of _ sd] exI [of _ sealed] exI [of _ task] exI [of _ msg] exI [of _ allowed] exI [of _ run]) simp
qed

theorem task_taken_on_approval_witness:
  "\<exists>sd aw h calls. answered sample_libs (\<lambda>a k. Inr ItsKey) (Inr sd) (Inr ()) 60 sample_answer sample_host = (Inr aw, h, calls) \<and>
     (\<exists>sealed task. sd_sealed sd = Some sealed \<and> unseal sample_libs sample_ready ''run-0'' sealed = Inr task \<and>
        aw_state aw = us_state task \<and> ev_preparer (us_envelope task) = ''agent.near'')"
proof -
  obtain h nt where o: "sample_open = (Inr sample_opened, h, Some nt)" using sample_open_eval by blast
  obtain sd aw h' calls where a: "answered sample_libs (\<lambda>a k. Inr ItsKey) (Inr sd) (Inr ()) 60 sample_answer sample_host = (Inr aw, h', calls)"
    using sample_taken [OF o] by (metis prod.collapse)
  have id: "qa_id sample_answer = ''run-0''" "ht_access sample_host = Inr sample_ready" "rd_caller sample_ready = ''agent.near''"
    by (simp_all add: sample_answer_def sample_host_def sample_ready_def)
  from task_taken_on_approval [OF a] show ?thesis
    using a id by (intro exI [of _ sd] exI [of _ aw] exI [of _ h'] exI [of _ calls]) auto
qed

lemma show_nat_small:
  assumes "n < 10"
  obtains c where "show_nat n = [c]" "c \<in> set ''0123456789''"
proof -
  have "show_nat n = [''0123456789'' ! n]" using assms by (subst show_nat.simps) simp
  moreover have "''0123456789'' ! n \<in> set ''0123456789''" by (rule nth_mem) (use assms in simp)
  ultimately show thesis by (rule that)
qed

text \<open>The id of a task is the run's with a number below five: two characters more.\<close>

lemma opened_id:
  assumes "open_as lib chain store_devices store_open rnd now q another h = (Inr opd, h', nto)" "ht_access h = Inr rd"
  shows "length (op_id opd) = length (rd_run rd) + 2" "is_id (rd_run rd) \<Longrightarrow> length (rd_run rd) \<le> 78 \<Longrightarrow> is_id (op_id opd)"
    "length (tq_policy q) \<le> 64 * 1024"
proof -
  from open_as_Inr [OF assms(1)] assms(2) obtain consent thread life where
    c: "check_open lib rd (ht_opened h) (if another then Unanswered else ht_conversation h) q = Inr (consent, thread, life)"
    and i: "op_id opd = task_id_of rd (ht_opened h)" by (metis sum.inject(2))
  have "ht_opened h < 10" using check_open_Inr(4) [OF c] by simp
  then obtain d where d: "show_nat (ht_opened h) = [d]" "d \<in> set ''0123456789''" by (rule show_nat_small)
  have id: "op_id opd = rd_run rd @ [CHR ''-'', d]" by (simp add: i task_id_of_def d(1))
  then show "length (op_id opd) = length (rd_run rd) + 2" by simp
  have "set ''0123456789'' \<subseteq> set ''abcdefghijklmnopqrstuvwxyz0123456789-''" by simp
  with d(2) have "d \<in> set ''abcdefghijklmnopqrstuvwxyz0123456789-''" by blast
  moreover have "CHR ''-'' \<in> set ''abcdefghijklmnopqrstuvwxyz0123456789-''" by simp
  ultimately show "is_id (op_id opd)" if "is_id (rd_run rd)" "length (rd_run rd) \<le> 78"
    using that unfolding is_id_def id list_all_append by simp
  show "length (tq_policy q) \<le> 64 * 1024"
    using c by (auto simp: check_open_def MAX_POLICY_BYTES_def split: if_splits)
qed

text \<open>A run whose id has 79 or 80 characters, which \<open>is_id\<close> admits, opens tasks it can never be handed.\<close>

lemma long_run_opens_what_none_can_take:
  assumes "open_as lib chain store_devices store_open rnd now q another h = (Inr opd, h', nto)" "ht_access h = Inr rd"
    and "78 < length (rd_run rd)" "qa_id qa = op_id opd"
  shows "\<exists>e. fst (answered lib chain2 store_get store_answer now2 qa h2) = Inl e"
proof -
  have "\<not> is_id (qa_id qa)" using opened_id(1) [OF assms(1,2)] assms(3,4) by (simp add: is_id_def)
  then show ?thesis by (auto simp: answered_def split: prod.splits sum.splits)
qed

text \<open>
  C20. What was opened is what is handed over. If a run with an id of at most 78 characters opens a task
  that takes an answer, and later a run of the same preparer, on the same row and under the same task key,
  of the same build, within the consent given at the opening, with calls left (fewer than 100 made), and
  started for the task's operation where the host knows what it was started for, asks for that task with
  the policy, the hash and the operation of the opening, is given the stored task as approved, with an
  approval of the owner that holds, before the task ends, and what the owner supplied and noted opens
  under the task's key, then it is handed the state and the files the task was opened with, in the task's
  conversation and for the operation the task names.\<close>

theorem opened_task_is_handed_over:
  assumes libs: "ciphers_ok (hl_cipher lib)" "formats_ok lib" "random_ok rnd"
    and opened: "open_as lib chain1 store_devices store_open rnd now1 tq another h1 = (Inr opd, h1', Some nt)"
    and runs: "ht_access h1 = Inr rd1" "ht_access h2 = Inr rd2" "ht_calls h2 < 100"
    and same: "rd_grant rd2 = rd_grant rd1" "rd_owner rd2 = rd_owner rd1" "rd_project_uuid rd2 = rd_project_uuid rd1"
      "rd_profile rd2 = rd_profile rd1" "rd_build rd2 = rd_build rd1" "rd_caller rd2 = rd_caller rd1"
      "rd_operation rd2 \<in> {None, Some (ab_operation a)}"
    and consent: "rd_consent rd1 = Some allowed" "rd_consent rd2 = Some carried" "consent_refuses allowed carried = None"
    and asked: "tq_answer_by tq = Some a" "qa_id q = op_id opd" "qa_hash q = op_hash opd" "qa_operation q = ab_operation a"
      "qa_policy q = tq_policy tq"
    and run_id: "is_id (rd_run rd1)" "length (rd_run rd1) \<le> 78"
    and store: "sd = \<lparr>sd_id = op_id opd, sd_kind = tq_kind tq, sd_state = StApproved, sd_sealed = Some (nt_sealed nt), sd_files = nt_files nt\<rparr>"
    and time: "0 \<le> now2" "nat now2 < op_expires_at opd"
    and approved: "approval_holds (hl_statement lib) chain2 (qa_approval q) (rd_owner rd2) (op_id opd) (op_hash opd)
      (qa_supplied q) (qa_note q) now2 (op_expires_at opd) (rd_recipient rd2) = Inr ()"
    and opens: "open_supplied lib rd2 (op_id opd) (ab_supplies a) (qa_supplied q) = Inr supplied"
      "open_note lib rd2 (op_id opd) (qa_note q) = Inr owner_note"
  shows "fst (answered lib chain2 (Inr sd) (Inr ()) now2 q h2) =
    Inr \<lparr>aw_id = op_id opd, aw_thread = op_thread opd, aw_preparer = rd_caller rd1, aw_kind = tq_kind tq,
      aw_operation = ab_operation a, aw_state = tq_state tq, aw_files = tq_files tq, aw_supplied = supplied, aw_note = owner_note\<rparr>"
  using opened_id(2) [OF opened runs(1) run_id] opened_id(3) [OF opened runs(1)]
  by (intro open_then_answered [OF libs opened runs same consent asked(1-4) asked(5) _ _ store time approved opens])

theorem opened_task_is_handed_over_witness:
  "\<exists>h nt. sample_open = (Inr sample_opened, h, Some nt) \<and>
     fst (answered sample_libs (\<lambda>a k. Inr ItsKey) (Inr \<lparr>sd_id = ''run-0'', sd_kind = Confirm, sd_state = StApproved,
        sd_sealed = Some (nt_sealed nt), sd_files = nt_files nt\<rparr>) (Inr ()) 60 sample_answer sample_host) =
     Inr \<lparr>aw_id = ''run-0'', aw_thread = ''run-0'', aw_preparer = ''agent.near'', aw_kind = Confirm, aw_operation = ''confirm'',
       aw_state = ''state'', aw_files = [], aw_supplied = None, aw_note = None\<rparr>"
proof -
  obtain h nt where o: "sample_open = (Inr sample_opened, h, Some nt)" using sample_open_eval by blast
  have libs: "hl_cipher sample_libs = plain_ciphers" by (simp add: sample_libs_def)
  let ?a = "\<lparr>ab_operation = ''confirm'', ab_supplies = SuppliesNothing\<rparr>"
  have "fst (answered sample_libs (\<lambda>a k. Inr ItsKey) (Inr \<lparr>sd_id = op_id sample_opened, sd_kind = tq_kind sample_request,
      sd_state = StApproved, sd_sealed = Some (nt_sealed nt), sd_files = nt_files nt\<rparr>) (Inr ()) 60 sample_answer sample_host) =
    Inr \<lparr>aw_id = op_id sample_opened, aw_thread = op_thread sample_opened, aw_preparer = rd_caller sample_ready,
      aw_kind = tq_kind sample_request, aw_operation = ab_operation ?a, aw_state = tq_state sample_request,
      aw_files = tq_files sample_request, aw_supplied = None, aw_note = None\<rparr>"
  proof (rule opened_task_is_handed_over [OF _ sample_formats sample_random_ok o [unfolded sample_open_def]])
    show "ciphers_ok (hl_cipher sample_libs)" by (simp add: libs plain_ciphers_ok)
    show "consent_refuses sample_consent sample_consent = None"
      by (simp add: consent_refuses_def sample_consent_def parse_uint_def digit_val_def upt_rec)
    show "approval_holds (hl_statement sample_libs) (\<lambda>a k. Inr ItsKey) (qa_approval sample_answer) (rd_owner sample_ready)
        (op_id sample_opened) (op_hash sample_opened) (qa_supplied sample_answer) (qa_note sample_answer) 60
        (op_expires_at sample_opened) (rd_recipient sample_ready) = Inr ()"
      using sample_approved by (simp add: sample_ready_def sample_opened_def sample_answer_def)
  qed (simp_all add: sample_host_def sample_ready_def sample_request_def sample_answer_def sample_opened_def is_id_def
      open_supplied_def open_note_def)
  then show ?thesis using o by (intro exI [of _ h] exI [of _ nt]) (simp add: sample_opened_def sample_request_def sample_ready_def)
qed

text \<open>
  What a run reports is what it took. In every history of a run, each task is reported on at most once,
  and only if it was approved and passed every check at a call of this run; each refusal is recorded once, by its first reason; at most five tasks are opened; and a task it
  opens continues a conversation exactly when all the tasks it was handed are of that one.\<close>

theorem run_reports_what_it_took:
  assumes "host_run lib h moved threads"
  shows "distinct (map an_id (rp_answered (ht_report h))) \<and> an_id ` set (rp_answered (ht_report h)) \<subseteq> moved \<and>
    distinct (map rf_id (rp_refused (ht_report h))) \<and> ht_opened h \<le> 5 \<and> ht_conversation h = conversation_of threads"
  using host_run_inv [OF assms] by (simp add: report_ok_def)

theorem run_reports_what_it_took_witness:
  "distinct (map an_id (rp_answered (ht_report (new_host None)))) \<and>
   an_id ` set (rp_answered (ht_report (new_host None))) \<subseteq> {} \<and>
   distinct (map rf_id (rp_refused (ht_report (new_host None)))) \<and> ht_opened (new_host None) \<le> 5 \<and>
   ht_conversation (new_host None) = conversation_of []"
  by (rule run_reports_what_it_took [OF host_run.started])

text \<open>
  Opening a task for the owner of another row leaves the run as it was: after the call, whatever it
  answered, the run's own row, key and list of other rows are in place again.\<close>

theorem rows_are_put_back:
  assumes "open_for lib chain sd so rnd now owner q h = (r, h')"
  shows "ht_access h' = ht_access h"
  using open_for_effect [OF assms] by simp

theorem rows_are_put_back_witness:
  "ht_access (snd (open_for sample_libs (\<lambda>a k. Inr ItsKey) (Inr []) (\<lambda>nt. Inr 0) sample_random 0 ''x.near'' sample_request sample_host))
     = Inr sample_ready"
  using rows_are_put_back [of sample_libs "\<lambda>a k. Inr ItsKey" "Inr []" "\<lambda>nt. Inr 0" sample_random 0 "''x.near''" sample_request sample_host
      "fst (open_for sample_libs (\<lambda>a k. Inr ItsKey) (Inr []) (\<lambda>nt. Inr 0) sample_random 0 ''x.near'' sample_request sample_host)"]
  by (simp add: sample_host_def)

text \<open>
  Cancelling or deleting a task asks the store under each row the run named, the first one first and
  always for the run's project and caller, and answers with the first answer that is not that there is no
  such task.\<close>

theorem cancel_asks_each_row:
  assumes "ht_access h = Inr rd" "ht_calls h < 100" "is_id i"
  shows "cancel_or_delete store i h =
    (deciding (map (row_answer store rd i) (rd_owner rd # map rg_owner (rd_others rd))), h\<lparr>ht_calls := ht_calls h + 1\<rparr>)"
  using assms under_any_row_ask [of "h\<lparr>ht_calls := ht_calls h + 1\<rparr>" rd store i]
  by (simp add: cancel_or_delete_def enter_def count_call_def MAX_CALLS_PER_RUN_def)

theorem cancel_asks_each_row_witness:
  "fst (cancel_or_delete (\<lambda>p owner c i. Inr ()) ''run-0'' sample_host) = Inr ()"
proof -
  have "ht_access sample_host = Inr sample_ready" "ht_calls sample_host < 100" "is_id ''run-0''"
    by (simp_all add: sample_host_def is_id_def)
  from cancel_asks_each_row [OF this, of "\<lambda>p owner c i. Inr ()"] show ?thesis
    by (simp add: row_answer_def sample_ready_def)
qed

end
