(* ===== verification/Spec2Isabelle.thy ===== *)
theory Spec2Isabelle
  imports Custody Project_Life Access_Eval Keystore_Seeds Registrar Net_Guard Callers Wasm_Cache Task_Host
begin

text \<open>
  OutLayer runs WebAssembly off chain for NEAR contracts and accounts. A caller asks the execution
  contract for a run and pays for it; the contract yields; workers in TEEs compile and run the code
  and the operator resumes the yield; the callback settles the payment and hands the output to the
  caller. Around that the contract keeps projects (named code with versions and a storage
  namespace), secrets released to code by access conditions, policies of custody wallets, payment
  keys and subscriptions, prices of project operations, balances of callers and earnings of
  developers in a stablecoin.

  Three more contracts decide who holds keys: the keystore DAO approves keystore workers by
  attestation and vote, the register adds worker keys by attestation, and a vault per customer holds
  the account a keystore derives its keys from until the customer takes it back. The keystore worker
  judges the access conditions the execution contract stores, holds a master secret and one per
  vault, and derives from them the keys of secrets, wallets and runs. The worker that runs the code judges
  who may call a project, keeps the binaries it compiled, guards the addresses guest code may reach,
  and lets a run leave tasks to the owner of a secret: a task is shown and sealed, the owner
  approves it by a signature of a wallet, and a later run of the same preparer carries it out.

  This development models the four contracts (\<open>contract/src\<close>, \<open>keystore-dao-contract/src\<close>,
  \<open>register-contract/src\<close>, \<open>vault-contract/src\<close>), every entry point that changes state, the helpers it
  calls and the views with logic; of the keystore (\<open>keystore-worker/src\<close>) the evaluation of access
  conditions, the keys a run may declare, the masters and the gate before them, the \<open>/decrypt\<close> door,
  the handlers of secrets, of stored data and of wallets; and of the worker
  (\<open>worker/src\<close>) the admission of callers, the network guard, the cache of binaries and the tasks.

  \<^bold>\<open>Theories and sources.\<close>

  \<^item> \<open>Near_Prelude\<close>: what every contract shares. A call is a function from a context (caller,
    signer, deposit, time) and a state to a panic or a new state with effects. \<open>ensure\<close> is an
    \<open>assert!\<close>, \<open>expect\<close> an \<open>expect\<close>, \<open>bind_call\<close> a call that may panic, \<open>fits\<close> checked u64 and u128
    arithmetic (the contracts are built with overflow checks), \<open>not_payable\<close> and \<open>private_call\<close> the
    guards near-sdk generates. Totals of maps, the owner-index sets and their interface
    \<open>indexed_store\<close>, the ledger interface \<open>ledger\<close>.
  \<^item> \<open>Rust_Text\<close>: what the source uses of \<open>char\<close> and \<open>str\<close> over UTF-8 bytes: trimming, parsing and
    printing of numbers, ASCII classes.
  \<^item> \<open>Contract_Types\<close> (\<open>lib.rs\<close>, \<open>types.rs\<close>, \<open>events.rs\<close>): the state record, stored data, effects
    (transfers, yields, resumes, cross-contract calls, events, return values), one refusal per
    panic, and \<open>externals\<close>: hashing, signature checks, hex, base64, JSON and the Unicode tables, none
    of which is code of the repository. \<open>Host_Reference\<close> states the laws some theorems rely on
    (\<open>hex_ok\<close>, \<open>lowercase_ok\<close>) and gives an instance that has them.
  \<^item> \<open>Pricing\<close> (\<open>lib.rs\<close>, \<open>payment.rs\<close>): cost, estimate, deposits for input bytes, the operation a
    request names, the split of a price.
  \<^item> \<open>Projects\<close> (\<open>projects.rs\<close>), \<open>Wallet_Policy\<close> (\<open>wallet.rs\<close>), \<open>Secrets\<close> (\<open>secrets.rs\<close> and the nonce
    floors of \<open>payment.rs\<close>), \<open>Payment\<close> (\<open>payment.rs\<close>, withdrawals of \<open>lib.rs\<close>), \<open>Execution\<close>
    (\<open>execution.rs\<close>), \<open>Admin\<close> (\<open>admin.rs\<close>, \<open>views.rs\<close>, \<open>migration.rs\<close>): per module the operations in
    the order of the source, an invariant (\<open>projects_ok\<close>, \<open>wallets_ok\<close>, \<open>secrets_ok\<close>, \<open>executions_ok\<close>)
    that every operation keeps, the accounting of deposits and money, and the module's properties.
    A long function of the source is split into definitions that each translate one stretch of it
    (\<open>check_caps\<close>, \<open>debit_attached_usd\<close>, \<open>settle_usd\<close>, \<open>nonce_charge\<close> and others).
  \<^item> \<open>Composition\<close>: the state by parts, which part each module's calls leave alone, one datatype of
    all calls (\<open>contract_op\<close>), sequences of calls (\<open>runs\<close>), the invariant of the whole contract.
  \<^item> \<open>Custody\<close>: the contract beside its stablecoins, as a step relation over token transfers into and
    out of it, answers to yields, withdrawals and every other call, the owner's change of the token
    included; what it holds is kept per token contract.
  \<^item> \<open>Project_Life\<close>: histories of calls (\<open>history\<close>, newest first). The acceptances on file, the source
    a project runs and the uuids are read back from the calls that made them.

  \<^item> \<open>Access_Eval\<close> (\<open>keystore-worker/src/types.rs\<close>, \<open>judge_access\<close> of \<open>api.rs\<close>): the evaluation of an
    access condition when an answer of the chain may be missing, admission by name, the reason of a
    denial; against a three-valued reference evaluation, and against the conditions the contract stores.
  \<^item> \<open>Vault\<close> (\<open>vault-contract/src/lib.rs\<close>): calls and callbacks, and the vault beside its access keys
    and its receipts in flight as a step relation.
  \<^item> \<open>Attestation\<close> (\<open>collateral.rs\<close> and the verification code of the DAO): collateral, the slot of a
    platform, the verdict on a quote; the quote library and the other libraries are the record
    \<open>tee_libs\<close>. \<open>Keystore_Dao\<close> (\<open>keystore-dao-contract/src\<close>): all calls, histories of calls, the
    interface \<open>ballot_box\<close> of the two kinds of ballot. \<open>Registrar\<close> (\<open>register-contract/src\<close>).

  \<^item> \<open>Declared_Keys\<close> (\<open>keystore-worker/src/signing_keys.rs\<close>, \<open>encryption_keys.rs\<close>, \<open>task_keys.rs\<close>): the keys
    a run asks for, their validation, and the string each is derived from; what a declaration type
    promises is the interface \<open>declared_family\<close>, which both families have. \<open>Keystore_Masters\<close>
    (\<open>crypto.rs\<close>, the vault part of \<open>mpc_ckd.rs\<close>): the masters, the cache of key pairs and its locks as a
    step relation, derivations, encryption, and the gate that asks the DAO and the vault before a
    vault is served; its theorems are stated over the \<open>Vault\<close> model.
  \<^item> \<open>Keystore_Door\<close> (\<open>decrypt_with_keys\<close>, \<open>decrypt_secret_row\<close>, \<open>authorize_keys\<close> and their neighbours of
    \<open>api.rs\<close>): a secret row and the keys of a run on their way out of the keystore. What the chain and
    the libraries answer is the record \<open>door_world\<close>; \<open>dw_meanwhile\<close> is what other requests do where a
    handler waits. The answers about a project are tied to the contract model by \<open>version_view\<close> and
    \<open>project_view\<close>. \<open>Keystore_Secrets\<close> (\<open>api.rs\<close>, \<open>secret_generation.rs\<close>, \<open>verify_access_key_owner\<close> of
    \<open>near.rs\<close>): the handlers that make and change the blob of a row.
  \<^item> \<open>Keystore_Wallets\<close> (the wallet handlers of \<open>api.rs\<close>, \<open>ephemeral_keys.rs\<close>): seeds of wallets, the policy
    read from the contract, the votes of its approvers, the operations signed under it. The crate
    \<open>shared_tee_helpers\<close>, whose engine judges an operation, is the record \<open>wallet_libs\<close> over a type of
    policies. \<open>Wallet_Filing\<close> puts its signatures before the contract model: what the keystore signs,
    \<open>store_wallet_policy\<close> and \<open>store_agent_secret\<close> take. \<open>Keystore_Seeds\<close> (storage handlers of
    \<open>api_support.rs\<close>) ends the keystore: data a run keeps, and every seed the handlers derive from.

  \<^item> \<open>Net_Guard\<close> (\<open>worker/src/net_guard.rs\<close>): the bit tests on 32-bit and 128-bit addresses, against
    the reserved blocks they stand for. \<open>Callers\<close> (\<open>callers.rs\<close>): the callers block of a project and
    who it admits. \<open>Wasm_Cache\<close> (\<open>wasm_cache.rs\<close>): the cache beside a directory others may rewrite;
    eviction is a terminating recursion on the number of entries.
  \<^item> \<open>Civil_Date\<close> (\<open>iso8601_utc\<close> of \<open>tasks/statement.rs\<close>): the date arithmetic against the Gregorian
    calendar counted day by day. \<open>Task_Statement\<close> (\<open>tasks/statement.rs\<close>): the sentences wallets sign,
    the check of a signature, of an approval and of the devices of an owner, the reading of what a
    node says of a key. \<open>Task_Envelope\<close> (\<open>tasks/envelope.rs\<close>): what a task may show, its files, the
    document and the consent. \<open>Task_Crypto\<close> (\<open>tasks/crypto.rs\<close>): keys, sealed blobs, files, copies and
    replies over parameters for the ciphers, HMAC and the curve; random bytes are arguments.
  \<^item> \<open>Task_Host\<close> (\<open>tasks/host_functions.rs\<close>, \<open>mod.rs\<close>, the data of \<open>client.rs\<close>): what a run does with
    tasks, with its counters, its conversation, its report and its rows; the store and the chain are
    functions an operation is given, a call that changes the store is an effect it returns.
    \<open>Task_Formats\<close> is no code of the repository: a written form with its reader for every record of a
    task, which shows that the law the round trip asks of the JSON library can hold.

  \<^bold>\<open>What is shown.\<close> The stablecoins the contract holds, in sum over the token contracts, are exactly
  what it owes, plus what was sold, plus what was given, plus what one administrative call destroys;
  every reachable state is sound; executions conserve
  stablecoin and NEAR; a request is settled once and its callback cannot fail in a sound state; a
  payment-key nonce, a policy signature and a transfer acceptance are each good once; messages
  signed by wallets are unambiguous; what is stored is read back; deposits are accounted for; a
  project moves only onto an acceptance that stands and runs only code its owners put there. A
  vault is handed over to its parent only and after its delay, and every end of an exit is known;
  a keystore key is approved only by a quote and by more than half of the members; vault code is
  trusted only by such a quorum; a worker key is added only by a quote; an access condition is judged
  as three-valued logic says, and a verdict never changes because more becomes known. A derivation
  string names one key of one binding, one caller and one path, never a task key, and a project
  created again has keys of its own; the cache of key pairs follows the masters whatever requests
  interleave; what is encrypted is read back; a vault is served only as the DAO and the vault say at
  that moment, and no longer after its hand-over. Declared keys leave only for a build the contract
  has as a version of the project, a secret only for a caller its condition admits, a task key only
  beside a row that opened, and no other seed in use spells a key's string; an update of secrets
  is signed by a full access key of the owner and keeps every protected member. A wallet signs what
  its policy allows, or what a quorum of its approvers voted for, and nothing else; a locked policy is
  changed by its approvers only, and the contract takes what the keystore signs. A task is
  taken only on the owner's approval of that very task and answer, by the preparer's own run, under
  the policy and build it was made with; what was opened is handed over unchanged; a run reports on
  what it took and nothing else; an approval signs for one task; times in sentences are the
  calendar's; a display and a file name pass only when they can be drawn; blobs sealed for one use
  do not stand for another. The cache hands out only what was stored and stays within its limit, the
  guard refuses exactly the reserved blocks, and a project admits exactly whom it declares. Some
  theorems state behaviour that differs from what the documentation says (a policy signature that
  works again after a deletion, a price that survives its project, an overspending top-up).

  \<^bold>\<open>Conventions.\<close> Numbers are \<open>nat\<close>; every addition and multiplication of the source that can exceed
  its type is written with the check and panics where the source does; \<open>saturating_sub\<close> is the
  subtraction of \<open>nat\<close>. A \<open>LookupMap\<close> is a partial map, an \<open>UnorderedSet\<close> a finite set. A panic undoes
  the call, as on NEAR: the result carries no state. Loops are structural recursion over the list
  they walk, or recursion with a measure; nothing needs fuel, except the search for a scalar of a reply
  key, which is cut at the 2^32 counters the source has and then panics as the source does. Log lines that are not events are not modelled, nor are gas (other
  than the gas reserved for a callback) and the cost of storage to the host.

  \<^bold>\<open>Not modelled.\<close> The paging views over project, secret and policy lists and plain getters; the
  rest of the worker (event polling, compilation, the WebAssembly engines, HTTP clients), of tasks
  the reading calls \<open>mine\<close> and \<open>status\<close> and the HTTP client of the store; the rest of the keystore
  (address derivation and the EVM and Solana signing of wallets, VRF endpoints, administration of
  vaults, the authentication of workers, start-up and registration, transport to the MPC network) and the monitor, the SDK, connectors and examples (guests the contract runs).
\<close>

section \<open>Properties that span the modules\<close>

text \<open>
  C2. Every state the contract can reach is sound: from deployment on, through any sequence of
  calls of any module by anyone, the projects, wallet policies, secrets and pending requests keep
  their invariants, each store's owner index lists exactly its rows, and the ledgers stay finite.
\<close>

theorem reachable_states_are_sound:
  assumes "hex_ok ext" "lowercase_ok ext"
    and "runs ext (new_contract owner operator standard version) s"
  shows "contract_ok ext s"
  using runs_ok [OF assms(3,1,2) contract_ok_new] .

text \<open>
  C1. The stablecoin is all there: in every state the contract can reach beside its token contracts,
  through any calls (the owner's change of the token included) and plain transfers into it, the
  tokens it holds, summed over the token contracts, are exactly the user balances, the developer
  earnings, what pending requests hold, the top-ups and withdrawals in flight, what was sold, what
  came by plain transfers, and what cancellations by id destroyed. In particular every balance and
  every earning is backed in that sum.
\<close>

theorem stablecoin_is_backed:
  assumes "hex_ok ext" "lowercase_ok ext" "system_reachable ext y"
  shows "map_total (sy_custody y) = map_total (user_stablecoin_balances (sy_contract y))
      + map_total (developer_earnings (sy_contract y))
      + weight_total rq_attached_usd (pending_requests (sy_contract y))
      + in_flight y + sy_revenue y + sy_gifts y + sy_lost y"
  using system_reachable_backed [OF assms(3,1,2)]
  by (simp add: backed_def usd_held_def ledgers_total_def)

text \<open>
  C5. A request is settled at most once: after the callback took a request, whatever calls follow,
  another callback for the same id finds nothing, pays nothing and changes nothing.
\<close>

theorem request_settled_once:
  assumes "hex_ok ext" "lowercase_ok ext" "contract_ok ext s"
    and "pending_requests s i = Some rq"
    and "on_execution_response ext cx i sender src l pay resp s = Inr (t, es)"
    and "runs ext t u"
    and "on_execution_response ext cx' i sender' src' l' pay' resp' u = Inr (v, fs)"
  shows "v = u \<and> fs = [ReturnBytes ''null'']"
proof -
  let ?op = "ExecutionOp (OnExecutionResponse i sender src l pay resp)"
  from assms(5) have run: "run_op ext ?op cx s = Inr (t, es)" by simp
  note t_ok = run_op_ok [OF assms(1-3) run]
  have i: "i < next_request_id s"
    using executions_okD(3) [OF contract_okD(4) [OF assms(3)] assms(4)] by (simp add: request_ok_def)
  have "pending_requests t i = None"
    using assms(5) by (cases rule: on_execution_response_run)
      (use assms(4) in \<open>auto simp: take_request_def dest: ledger_step_fields(1)\<close>)
  moreover have "requests_grow s t"
    by (rule run_op_grow [OF contract_okD(4) [OF assms(3)] run])
  moreover have "requests_grow t u" by (rule runs_grow [OF assms(6,1,2) t_ok])
  ultimately have "pending_requests u i = None" using i by (auto simp: requests_grow_def)
  with assms(7) show ?thesis by (auto simp: on_execution_response_def run_simps)
qed

text \<open>
  C6. A payment-key nonce is used once: after an account stored a payment key under a nonce,
  whatever calls follow, deletion of the key included, the account cannot store another key under
  that nonce or a lower one.
\<close>

theorem payment_key_nonce_used_once:
  assumes "store_secrets ext cx (SystemAcc PaymentKey) profile encrypted access vault s = Inr (t, es)"
    and "parse_u32 profile = Some n" "runs ext t u"
    and "predecessor cx' = predecessor cx" "parse_u32 profile' = Some m" "m \<le> n"
  shows "\<forall>v fs. store_secrets ext cx' (SystemAcc PaymentKey) profile' encrypted' access' vault' u \<noteq> Inr (v, fs)"
proof (intro allI notI)
  fix v fs
  assume again: "store_secrets ext cx' (SystemAcc PaymentKey) profile' encrypted' access' vault' u = Inr (v, fs)"
  have canon: "parse_u32 (canonical_profile (SystemAcc PaymentKey) p) = Some k" if "parse_u32 p = Some k" for p k
    using that parse_uint_bound [OF that] by (simp add: parse_show_uint)
  have slots: "sk_accessor (slot ext (SystemAcc PaymentKey) p o') = SystemAcc PaymentKey"
    "sk_profile (slot ext (SystemAcc PaymentKey) p o') = canonical_profile (SystemAcc PaymentKey) p" for p o'
    by (simp_all add: slot_def)
  have pk: "is_payment_key (SystemAcc PaymentKey)" by (simp add: is_payment_key_def)
  from store_internal_run(9) [OF assms(1) [unfolded store_secrets_def] refl] canon [OF assms(2)] pk
  have "payment_key_nonce_floor t (predecessor cx) = n"
    by (auto simp: slots payment_key_nonce_floor_def)
  moreover from store_internal_run(9) [OF again [unfolded store_secrets_def] refl] canon [OF assms(5)] pk
  have "payment_key_nonce_floor u (predecessor cx) < m"
    by (auto simp: slots assms(4))
  moreover have "payment_key_nonce_floor t (predecessor cx) \<le> payment_key_nonce_floor u (predecessor cx)"
    using runs_floors [OF assms(3)] by (simp add: floors_grow_def)
  ultimately show False using assms(6) by simp
qed

section \<open>Witnesses\<close>

definition token_set :: contract where
  "token_set = (new_contract ''o'' None None None)\<lparr>payment_token_contract := Some ''usdc''\<rparr>"

lemma token_set_reached:
  "set_payment_token_contract (call_by ''o'' 0) (Some ''usdc'') (new_contract ''o'' None None None)
     = Inr (token_set, [])"
  by (simp add: set_payment_token_contract_def eval_simps token_set_def new_contract_def)

theorem reachable_states_are_sound_witness: "contract_ok reference_externals token_set"
proof -
  have "run_op reference_externals (AdminOp (SetPaymentTokenContract (Some ''usdc''))) (call_by ''o'' 0)
      (new_contract ''o'' None None None) = Inr (token_set, [])"
    using token_set_reached by simp
  then have "runs reference_externals (new_contract ''o'' None None None) token_set"
    by (rule runs_step [OF runs_refl])
  from reachable_states_are_sound [OF hex_ok_reference lowercase_ok_reference this] show ?thesis .
qed

theorem stablecoin_is_backed_witness:
  "\<exists>y. system_reachable reference_externals y \<and> sy_custody y = [''usdc'' \<mapsto> 30] \<and> sy_gifts y = 5 \<and>
     map_total (user_stablecoin_balances (sy_contract y)) + map_total (developer_earnings (sy_contract y))
       + weight_total rq_attached_usd (pending_requests (sy_contract y)) = 25"
proof -
  let ?new = "started (new_contract ''o'' None None None)"
  have "run_op reference_externals (AdminOp (SetPaymentTokenContract (Some ''usdc''))) (call_by ''o'' 0) (sy_contract ?new) = Inr (token_set, [])"
    using token_set_reached by (simp add: started_def)
  from system_reachable.step [OF system_reachable.deployment system_step.other_call [OF this]]
  have start: "system_reachable reference_externals (started token_set)" by (simp add: started_def)
  have parse: "parse_ft_action reference_externals ''deposit'' = Some DepositBalance"
    by (simp add: reference_externals_def)
  have "\<exists>t. ft_on_transfer reference_externals (call_by ''usdc'' 0) ''a'' 25 ''deposit'' token_set
      = Inr (t, [ReturnU128 0])"
    by (simp add: ft_on_transfer_def eval_simps token_set_def parse handle_deposit_balance_def
        credit_balance_def new_contract_def)
  then obtain t where run: "ft_on_transfer reference_externals (call_by ''usdc'' 0) ''a'' 25 ''deposit''
      (sy_contract (started token_set)) = Inr (t, [ReturnU128 0])" by (auto simp: started_def)
  from system_reachable.step [OF system_reachable.step [OF start system_step.transfer_in [OF run]]
      system_step.plain_transfer [where token = "''usdc''" and amount = 5]]
  have "system_reachable reference_externals
      ((started token_set)\<lparr>sy_contract := t, sy_custody := [''usdc'' \<mapsto> 30], sy_gifts := 5\<rparr>)" (is "system_reachable _ ?y")
    by (simp add: started_def received_def call_by_def)
  from this stablecoin_is_backed [OF hex_ok_reference lowercase_ok_reference this] show ?thesis
    by (intro exI [of _ ?y]) (simp add: started_def in_flight_def weight_total_def)
qed

lemma idle_ok: "contract_ok reference_externals idle"
  by (simp add: idle_def contract_ok_new)

definition idle_running :: contract where
  "idle_running = idle\<lparr>next_request_id := 1, pending_requests := [0 \<mapsto> demo_request]\<rparr>"

lemma idle_running_ok: "contract_ok reference_externals idle_running"
  unfolding contract_ok_def
proof (intro conjI)
  show "projects_ok idle_running"
    by (rule projects_ok_part [OF _ contract_okD(1) [OF idle_ok]]) (simp add: idle_running_def project_part_def)
  show "wallets_ok reference_externals idle_running"
    by (rule wallets_ok_part [OF _ contract_okD(2) [OF idle_ok]]) (simp add: idle_running_def wallet_part_def)
  show "secrets_ok reference_externals idle_running"
    by (rule secrets_ok_part [OF _ contract_okD(3) [OF idle_ok]]) (simp add: idle_running_def secret_part_def)
  show "executions_ok idle_running"
    by (simp add: executions_ok_def ledgers_ok_def idle_running_def idle_def new_contract_def
        request_ok_def demo_request_def demo_source_ok)
qed

theorem request_settled_once_witness:
  "\<exists>t es. on_execution_response reference_externals (call_by ''outlayer'' 0) 0 ''u'' demo_source
       default_resource_limits (10 ^ 24) None idle_running = Inr (t, es) \<and>
     on_execution_response reference_externals (call_by ''outlayer'' 0) 0 ''u'' demo_source
       default_resource_limits (10 ^ 24) None t = Inr (t, [ReturnBytes ''null''])"
proof -
  have row: "pending_requests idle_running 0 = Some demo_request" by (simp add: idle_running_def)
  have "\<exists>t es. on_execution_response reference_externals (call_by ''outlayer'' 0) 0 ''u'' demo_source
       default_resource_limits (10 ^ 24) None idle_running = Inr (t, es) \<and> pending_requests t 0 = None"
    by (rule callback_returns [OF contract_okD(4) [OF idle_running_ok] row])
      (simp_all add: call_by_def usd_held_def ledgers_total_def idle_running_def idle_def
        new_contract_def weight_total_def demo_request_def)
  then obtain t es where
    run: "on_execution_response reference_externals (call_by ''outlayer'' 0) 0 ''u'' demo_source
       default_resource_limits (10 ^ 24) None idle_running = Inr (t, es)" and gone: "pending_requests t 0 = None"
    by blast
  have "\<exists>v fs. on_execution_response reference_externals (call_by ''outlayer'' 0) 0 ''u'' demo_source
       default_resource_limits (10 ^ 24) None t = Inr (v, fs)"
    using gone by (simp add: on_execution_response_def eval_simps)
  then obtain v fs where second: "on_execution_response reference_externals (call_by ''outlayer'' 0) 0 ''u''
       demo_source default_resource_limits (10 ^ 24) None t = Inr (v, fs)" by blast
  from request_settled_once [OF hex_ok_reference lowercase_ok_reference idle_running_ok row run runs_refl second]
    run second show ?thesis by blast
qed

theorem payment_key_nonce_used_once_witness:
  "\<exists>t es. store_secrets reference_externals (call_by ''a'' (10 ^ 25)) (SystemAcc PaymentKey) ''01'' ''c''
       AllowAll None wallet_start = Inr (t, es) \<and>
     (\<forall>v fs. store_secrets reference_externals (call_by ''a'' (10 ^ 25)) (SystemAcc PaymentKey) ''1'' ''e''
       AllowAll None t \<noteq> Inr (v, fs))"
proof -
  from demo_payment_key obtain t es where run: "store_secrets reference_externals
      (call_by ''a'' (10 ^ 25)) (SystemAcc PaymentKey) ''01'' ''c'' AllowAll None wallet_start
      = Inr (t, es)" by blast
  from payment_key_nonce_used_once [OF run parse_one(1) runs_refl refl parse_one(2) order_refl] run
  show ?thesis by blast
qed

end
